(* ===== verification/Osip_Prelude.thy ===== *)
theory Osip_Prelude
  imports Main "HOL-Library.Monad_Syntax" "HOL-Library.Multiset" "HOL-Library.Signed_Division"
begin

text \<open>
  Shared vocabulary of the development: the return codes of the oSIP library, C integer
  arithmetic, C strings, and the result type of code that dereferences pointers.

  A C pointer that may be NULL is an \<open>option\<close>.  A computation that may dereference NULL, or use
  memory after it was freed, returns \<open>'a option\<close> in the sense of the type synonym \<open>'a ub\<close>:
  \<open>None\<close> is undefined behaviour, \<open>Some x\<close> a normal return with the value \<open>x\<close>.  The safety
  theorems of the development say that the result is never \<open>None\<close>.
\<close>

named_theorems osip_err "numeric values of the return codes"
named_theorems osip_cb "what the callback dispatchers emit"

section \<open>Return codes (include/osipparser2/osip_port.h)\<close>

definition OSIP_SUCCESS :: int where [osip_err]: "OSIP_SUCCESS = 0"
definition OSIP_UNDEFINED_ERROR :: int where [osip_err]: "OSIP_UNDEFINED_ERROR = -1"
definition OSIP_BADPARAMETER :: int where [osip_err]: "OSIP_BADPARAMETER = -2"
definition OSIP_WRONG_STATE :: int where [osip_err]: "OSIP_WRONG_STATE = -3"
definition OSIP_NOMEM :: int where [osip_err]: "OSIP_NOMEM = -4"
definition OSIP_SYNTAXERROR :: int where [osip_err]: "OSIP_SYNTAXERROR = -5"

section \<open>Undefined behaviour\<close>

type_synonym 'a ub = "'a option"

abbreviation (input) UB :: "'a ub" where "UB \<equiv> None"

abbreviation (input) ret :: "'a \<Rightarrow> 'a ub" where "ret \<equiv> Some"

text \<open>\<open>deref p\<close> reads through the pointer \<open>p\<close>.\<close>

definition deref :: "'a option \<Rightarrow> 'a ub" where
  "deref p = p"

lemma deref_simps [simp]: "deref (Some x) = Some x" "deref None = None"
  by (simp_all add: deref_def)

lemma deref_eq_Some [simp]: "deref p = Some x \<longleftrightarrow> p = Some x"
  by (simp add: deref_def)

section \<open>C arithmetic\<close>

text \<open>Division and remainder of C truncate towards zero.\<close>

definition c_div :: "int \<Rightarrow> int \<Rightarrow> int" where
  "c_div a b = a sdiv b"

definition c_mod :: "int \<Rightarrow> int \<Rightarrow> int" where
  "c_mod a b = a smod b"

definition INT_MAX :: int where "INT_MAX = 2 ^ 31 - 1"

lemma c_div_nonneg: "0 \<le> a \<Longrightarrow> 0 < b \<Longrightarrow> c_div a b = a div b"
  by (simp add: c_div_def signed_divide_int_def zsgn_def split: if_splits)

lemma c_mod_nonneg: "0 \<le> a \<Longrightarrow> 0 < b \<Longrightarrow> c_mod a b = a mod b"
  by (simp add: c_mod_def signed_modulo_int_def signed_divide_int_def zsgn_def minus_div_mult_eq_mod split: if_splits)

lemma c_div_mod: "c_div a b * b + c_mod a b = a"
  by (simp add: c_div_def c_mod_def sdiv_mult_smod_eq)

text \<open>Conversion of a \<open>long\<close> to a 32-bit \<open>int\<close> keeps the low 32 bits.\<close>

definition to_int32 :: "int \<Rightarrow> int" where
  "to_int32 x = (x + 2 ^ 31) mod 2 ^ 32 - 2 ^ 31"

lemma to_int32_range: "- (2 ^ 31) \<le> to_int32 x \<and> to_int32 x < 2 ^ 31"
proof -
  have "0 \<le> (x + 2 ^ 31) mod 2 ^ 32" "(x + 2 ^ 31) mod 2 ^ 32 < (2 ^ 32 :: int)"
    by (rule pos_mod_sign, simp) (rule pos_mod_bound, simp)
  then show ?thesis by (simp add: to_int32_def)
qed

lemma to_int32_id: "- (2 ^ 31) \<le> x \<Longrightarrow> x < 2 ^ 31 \<Longrightarrow> to_int32 x = x"
  by (simp add: to_int32_def)

end
