(* ===== verification/Osip_Port.thy ===== *)
theory Osip_Port
  imports Osip_Prelude
begin

text \<open>
  The C string functions the transaction layer uses (\<open>strcmp\<close>, \<open>strncmp\<close>, \<open>strcasecmp\<close>,
  \<open>strchr\<close>, \<open>strtol\<close>) and their oSIP wrappers of \<open>src/osipparser2/osip_port.c\<close>.  A C string is
  a \<open>string\<close> (its bytes before the terminating NUL).
\<close>

section \<open>The C library\<close>

definition strcmp_eq :: "string \<Rightarrow> string \<Rightarrow> bool" where
  \<comment> \<open>\<open>0 == strcmp (s, t)\<close>\<close>
  "strcmp_eq s t \<longleftrightarrow> s = t"

definition strncmp_eq :: "string \<Rightarrow> string \<Rightarrow> nat \<Rightarrow> bool" where
  \<comment> \<open>\<open>0 == strncmp (s, t, n)\<close>\<close>
  "strncmp_eq s t n \<longleftrightarrow> take n s = take n t"

definition c_tolower :: "char \<Rightarrow> char" where
  "c_tolower c = (let n = of_char c :: nat in if 65 \<le> n \<and> n \<le> 90 then char_of (n + 32) else c)"

text \<open>\<open>strtol (s, NULL, 10)\<close> on a machine with 64-bit \<open>long\<close>: leading white space, an optional
  sign, then digits; out of range values saturate.\<close>

definition c_isspace :: "char \<Rightarrow> bool" where
  "c_isspace c = (let n = of_char c :: nat in n = 32 \<or> (9 \<le> n \<and> n \<le> 13))"

definition c_isdigit :: "char \<Rightarrow> bool" where
  "c_isdigit c = (let n = of_char c :: nat in 48 \<le> n \<and> n \<le> 57)"

fun strtol_digits :: "int \<Rightarrow> string \<Rightarrow> int" where
  "strtol_digits acc [] = acc"
| "strtol_digits acc (c # cs) =
     (if c_isdigit c then strtol_digits (10 * acc + (of_char c - 48)) cs else acc)"

definition LONG_MAX :: int where "LONG_MAX = 2 ^ 63 - 1"
definition LONG_MIN :: int where "LONG_MIN = - (2 ^ 63)"

definition strtol :: "string \<Rightarrow> int" where
  "strtol s =
     (let s1 = dropWhile c_isspace s;
          v = (case s1 of
                 [] \<Rightarrow> 0
               | c # cs \<Rightarrow> if c = CHR ''-'' then - strtol_digits 0 cs
                           else if c = CHR ''+'' then strtol_digits 0 cs
                           else strtol_digits 0 s1)
      in max LONG_MIN (min LONG_MAX v))"

section \<open>oSIP wrappers\<close>

text \<open>\<open>osip_atoi\<close> stores the \<open>long\<close> in an \<open>int\<close> before it compares it with the limits of
  \<open>long\<close>, so the comparison never holds.\<close>

definition osip_atoi :: "string option \<Rightarrow> int" where
  "osip_atoi number =
     (case number of
        None \<Rightarrow> OSIP_UNDEFINED_ERROR
      | Some s \<Rightarrow>
          (let i = to_int32 (strtol s)
           in if i = LONG_MIN \<or> i = LONG_MAX then OSIP_UNDEFINED_ERROR else i))"

definition osip_strcasecmp_eq :: "string \<Rightarrow> string \<Rightarrow> bool" where
  \<comment> \<open>\<open>0 == osip_strcasecmp (s1, s2)\<close>\<close>
  "osip_strcasecmp_eq s1 s2 \<longleftrightarrow> map c_tolower s1 = map c_tolower s2"

definition osip_strncasecmp_eq :: "string \<Rightarrow> string \<Rightarrow> nat \<Rightarrow> bool" where
  \<comment> \<open>\<open>0 == osip_strncasecmp (s1, s2, len)\<close>\<close>
  "osip_strncasecmp_eq s1 s2 n \<longleftrightarrow> map c_tolower (take n s1) = map c_tolower (take n s2)"

lemma osip_strncasecmp_eq_len:
  "length s1 = length s2 \<Longrightarrow>
   osip_strncasecmp_eq s1 s2 (length s2) = osip_strcasecmp_eq s1 s2"
  by (simp add: osip_strncasecmp_eq_def osip_strcasecmp_eq_def)

lemma osip_strcasecmp_eq_refl [simp]: "osip_strcasecmp_eq s s"
  by (simp add: osip_strcasecmp_eq_def)

lemma osip_atoi_range: "- (2 ^ 31) \<le> osip_atoi s \<and> osip_atoi s < 2 ^ 31"
proof (cases s)
  case None
  then show ?thesis by (simp add: osip_atoi_def osip_err)
next
  case (Some t)
  then show ?thesis
    using to_int32_range [of "strtol t"] by (simp add: osip_atoi_def osip_err Let_def)
qed

text \<open>\<open>osip_atoi\<close> reports no number as out of range: the comparison with \<open>LONG_MIN\<close> and
  \<open>LONG_MAX\<close> is made on a value already cut down to 32 bits and never holds, so a number that does
  not fit wraps around modulo 2^32.\<close>

theorem osip_atoi_wraps:
  "osip_atoi (Some s) = to_int32 (strtol s)"
proof -
  have "to_int32 (strtol s) \<noteq> LONG_MIN" "to_int32 (strtol s) \<noteq> LONG_MAX"
    using to_int32_range [of "strtol s"] by (auto simp: LONG_MIN_def LONG_MAX_def)
  then show ?thesis by (simp add: osip_atoi_def Let_def)
qed

end
