(* ===== verification/Osip_List.thy ===== *)
theory Osip_List
  imports Osip_Prelude
begin

text \<open>
  The linked list of \<open>src/osipparser2/osip_list.c\<close>.  A chain of \<open>__node_t\<close> is a HOL list whose
  empty list is the NULL pointer, so following \<open>next\<close> past the end is undefined behaviour
  (\<open>UB\<close>).  \<open>nb_elt\<close> is the counter the code trusts; the invariant \<open>list_inv\<close> says that it
  agrees with the chain.  The parameter \<open>ok\<close> of \<open>osip_list_add\<close> says whether the allocation of
  the new node succeeds.
\<close>

section \<open>The structure and its operations\<close>

record 'a osip_list =
  nb_elt :: int
  node :: "'a list"

definition osip_list_init :: "'a osip_list option \<Rightarrow> int \<times> 'a osip_list option" where
  "osip_list_init li =
     (case li of
        None \<Rightarrow> (OSIP_BADPARAMETER, None)
      | Some l \<Rightarrow> (OSIP_SUCCESS, Some \<lparr>nb_elt = 0, node = []\<rparr>))"

definition osip_list_size :: "'a osip_list option \<Rightarrow> int" where
  "osip_list_size li = (case li of None \<Rightarrow> OSIP_BADPARAMETER | Some l \<Rightarrow> nb_elt l)"

definition osip_list_eol :: "'a osip_list option \<Rightarrow> int \<Rightarrow> int" where
  "osip_list_eol li i =
     (case li of
        None \<Rightarrow> OSIP_BADPARAMETER
      | Some l \<Rightarrow> if i < nb_elt l then OSIP_SUCCESS else 1)"

text \<open>The loop \<open>while (lim > i) { i++; ntmp = ntmp->next; }\<close>.\<close>

fun list_walk :: "int \<Rightarrow> int \<Rightarrow> 'a list \<Rightarrow> (int \<times> 'a list) ub" where
  "list_walk lim i [] = (if lim > i then UB else Some (i, []))"
| "list_walk lim i (x # nxt) = (if lim > i then list_walk lim (i + 1) nxt else Some (i, x # nxt))"

definition osip_list_add ::
    "bool \<Rightarrow> 'a osip_list option \<Rightarrow> 'a \<Rightarrow> int \<Rightarrow> (int \<times> 'a osip_list option) ub" where
  "osip_list_add ok li el pos =
     (case li of
        None \<Rightarrow> Some (OSIP_BADPARAMETER, None)
      | Some l \<Rightarrow>
          if nb_elt l = 0 then
            (if ok then Some (nb_elt l + 1, Some \<lparr>nb_elt = nb_elt l + 1, node = [el]\<rparr>)
             else Some (OSIP_NOMEM, Some (l\<lparr>node := []\<rparr>)))
          else
            (let p = (if pos = -1 \<or> pos \<ge> nb_elt l then nb_elt l else pos)
             in if p = 0 then
                  (if ok then Some (nb_elt l + 1, Some \<lparr>nb_elt = nb_elt l + 1, node = el # node l\<rparr>)
                   else Some (OSIP_NOMEM, Some l))
                else
                  (case list_walk (p - 1) 0 (node l) of
                     None \<Rightarrow> UB
                   | Some (i, []) \<Rightarrow> UB
                   | Some (i, e # nextnode) \<Rightarrow>
                       if p = nb_elt l then
                         (if ok then
                            Some (nb_elt l + 1,
                                  Some \<lparr>nb_elt = nb_elt l + 1,
                                        node = take (Suc (nat i)) (node l) @ [el]\<rparr>)
                          else Some (OSIP_NOMEM, Some (l\<lparr>node := take (Suc (nat i)) (node l)\<rparr>)))
                       else if ok then
                         Some (nb_elt l + 1,
                               Some \<lparr>nb_elt = nb_elt l + 1,
                                     node = take (Suc (nat i)) (node l) @ el # nextnode\<rparr>)
                       else Some (OSIP_NOMEM, Some l))))"

definition osip_list_get :: "'a osip_list option \<Rightarrow> int \<Rightarrow> 'a option ub" where
  "osip_list_get li pos =
     (case li of
        None \<Rightarrow> Some None
      | Some l \<Rightarrow>
          if pos < 0 \<or> pos \<ge> nb_elt l then Some None
          else (case list_walk pos 0 (node l) of
                  None \<Rightarrow> UB
                | Some (i, []) \<Rightarrow> UB
                | Some (i, e # nxt) \<Rightarrow> Some (Some e)))"

definition osip_list_remove ::
    "'a osip_list option \<Rightarrow> int \<Rightarrow> (int \<times> 'a osip_list option) ub" where
  "osip_list_remove li pos =
     (case li of
        None \<Rightarrow> Some (OSIP_BADPARAMETER, None)
      | Some l \<Rightarrow>
          if pos < 0 \<or> pos \<ge> nb_elt l then Some (OSIP_UNDEFINED_ERROR, Some l)
          else if pos = 0 then
            (case node l of
               [] \<Rightarrow> UB
             | e # nxt \<Rightarrow> Some (nb_elt l - 1, Some \<lparr>nb_elt = nb_elt l - 1, node = nxt\<rparr>))
          else
            (case list_walk (pos - 1) 0 (node l) of
               Some (i, e # remnode # nxt) \<Rightarrow>
                 Some (nb_elt l - 1,
                       Some \<lparr>nb_elt = nb_elt l - 1, node = take (Suc (nat i)) (node l) @ nxt\<rparr>)
             | _ \<Rightarrow> UB))"

section \<open>Iterators\<close>

text \<open>An iterator points into its list: \<open>it_actual\<close> is the chain that starts at the node
  \<open>actual\<close>, and \<open>prev\<close> is the link that leads to it, the one at position \<open>it_pos\<close> of the chain
  of \<open>li\<close>.\<close>

record 'a osip_list_iterator =
  it_actual :: "'a list"
  it_pos :: int

definition osip_list_iterator_has_elem :: "'a osip_list_iterator \<Rightarrow> 'a osip_list \<Rightarrow> bool" where
  "osip_list_iterator_has_elem it li \<longleftrightarrow> it_actual it \<noteq> [] \<and> it_pos it < nb_elt li"

definition osip_list_get_first ::
    "'a osip_list option \<Rightarrow> ('a option \<times> 'a osip_list_iterator) ub" where
  "osip_list_get_first li =
     (case li of
        None \<Rightarrow> Some (None, \<lparr>it_actual = [], it_pos = 0\<rparr>)
      | Some l \<Rightarrow>
          if 0 \<ge> nb_elt l then Some (None, \<lparr>it_actual = [], it_pos = 0\<rparr>)
          else (case node l of
                  [] \<Rightarrow> UB
                | e # nxt \<Rightarrow> Some (Some e, \<lparr>it_actual = e # nxt, it_pos = 0\<rparr>)))"

definition osip_list_get_next ::
    "'a osip_list_iterator \<Rightarrow> 'a osip_list \<Rightarrow> 'a option \<times> 'a osip_list_iterator" where
  "osip_list_get_next it li =
     (case it_actual it of
        [] \<Rightarrow> (None, it)
      | e # nxt \<Rightarrow>
          (let it1 = \<lparr>it_actual = nxt, it_pos = it_pos it + 1\<rparr>
           in if osip_list_iterator_has_elem it1 li then (Some (hd (it_actual it1)), it1)
              else (None, it1\<lparr>it_actual := []\<rparr>)))"

definition osip_list_iterator_remove ::
    "'a osip_list_iterator \<Rightarrow> 'a osip_list \<Rightarrow> 'a option \<times> 'a osip_list_iterator \<times> 'a osip_list" where
  "osip_list_iterator_remove it li =
     (let (it1, li1) =
            (if osip_list_iterator_has_elem it li then
               (it\<lparr>it_actual := tl (it_actual it)\<rparr>,
                \<lparr>nb_elt = nb_elt li - 1,
                 node = take (nat (it_pos it)) (node li) @ tl (it_actual it)\<rparr>)
             else (it, li))
      in if osip_list_iterator_has_elem it1 li1 then (Some (hd (it_actual it1)), it1, li1)
         else (None, it1, li1))"

text \<open>The loop that all clients write:
  \<open>for (x = get_first (li, &it); has_elem (it); x = get_next (&it))\<close>; its value is the list of
  elements its body sees.\<close>

function osip_list_visit :: "'a osip_list_iterator \<Rightarrow> 'a osip_list \<Rightarrow> 'a list" where
  "osip_list_visit it li =
     (if osip_list_iterator_has_elem it li
      then hd (it_actual it) # osip_list_visit (snd (osip_list_get_next it li)) li
      else [])"
  by pat_completeness auto
termination
  by (relation "measure (\<lambda>(it, li). length (it_actual it))")
     (auto simp: osip_list_iterator_has_elem_def osip_list_get_next_def Let_def split: list.splits)

declare osip_list_visit.simps [simp del]

definition osip_list_elems :: "'a osip_list \<Rightarrow> 'a list ub" where
  "osip_list_elems li =
     (case osip_list_get_first (Some li) of
        None \<Rightarrow> UB
      | Some (x, it) \<Rightarrow> Some (osip_list_visit it li))"

section \<open>Whole-list operations\<close>

fun clone_loop ::
    "('a \<Rightarrow> int \<times> 'b option) \<Rightarrow> 'a list \<Rightarrow> 'b osip_list option \<Rightarrow> (int \<times> 'b osip_list option) ub" where
  "clone_loop clone_func [] dst = Some (OSIP_SUCCESS, dst)"
| "clone_loop clone_func (data # rest) dst =
     (case clone_func data of
        (i, data2) \<Rightarrow>
          if i \<noteq> 0 then Some (i, dst)
          else do {
            d2 \<leftarrow> deref data2;
            (r, dst') \<leftarrow> osip_list_add True dst d2 (-1);
            clone_loop clone_func rest dst'
          })"

definition osip_list_clone ::
    "'a osip_list \<Rightarrow> 'b osip_list option \<Rightarrow> ('a \<Rightarrow> int \<times> 'b option) \<Rightarrow> (int \<times> 'b osip_list option) ub" where
  "osip_list_clone src dst clone_func =
     do { xs \<leftarrow> osip_list_elems src; clone_loop clone_func xs dst }"

text \<open>\<open>osip_list_special_free\<close> and \<open>osip_list_ofchar_free\<close> take the elements off the front one by
  one and free them; the first component of the result lists the elements handed to
  \<open>free_func\<close>, in order.\<close>

function osip_list_special_free :: "'a osip_list option \<Rightarrow> ('a option list \<times> 'a osip_list option) ub" where
  "osip_list_special_free li =
     (case li of
        None \<Rightarrow> Some ([], None)
      | Some l \<Rightarrow>
          if osip_list_eol (Some l) 0 \<noteq> 0 then Some ([], Some l)
          else (case osip_list_get (Some l) 0 of
                  None \<Rightarrow> UB
                | Some element \<Rightarrow>
                    (case osip_list_remove (Some l) 0 of
                       None \<Rightarrow> UB
                     | Some (r, li') \<Rightarrow>
                         (case osip_list_special_free li' of
                            None \<Rightarrow> UB
                          | Some (fs, li'') \<Rightarrow> Some (element # fs, li'')))))"
  by pat_completeness auto
termination
  by (relation "measure (\<lambda>li. case li of None \<Rightarrow> 0 | Some l \<Rightarrow> nat (nb_elt l))")
     (auto simp: osip_list_eol_def osip_list_remove_def osip_err split: if_splits list.splits)

declare osip_list_special_free.simps [simp del]

section \<open>Invariant and abstract sequence\<close>

definition list_inv :: "'a osip_list \<Rightarrow> bool" where
  "list_inv l \<longleftrightarrow> nb_elt l = int (length (node l))"

definition list_abs :: "'a osip_list \<Rightarrow> 'a list" where
  "list_abs l = node l"

definition of_elems :: "'a list \<Rightarrow> 'a osip_list" where
  "of_elems xs = \<lparr>nb_elt = int (length xs), node = xs\<rparr>"

lemma of_elems_inv [simp]: "list_inv (of_elems xs)"
  by (simp add: of_elems_def list_inv_def)

lemma of_elems_abs [simp]: "list_abs (of_elems xs) = xs"
  by (simp add: of_elems_def list_abs_def)

lemma list_inv_of_elems: "list_inv l \<Longrightarrow> l = of_elems (list_abs l)"
  by (cases l) (simp add: list_inv_def of_elems_def list_abs_def)

lemma of_elems_inject [simp]: "of_elems xs = of_elems ys \<longleftrightarrow> xs = ys"
  by (auto simp: of_elems_def)

text \<open>What the list functions do, on HOL lists.  Positions out of range append; a negative
  position other than -1 inserts after the first element.\<close>

definition seq_insert :: "'a list \<Rightarrow> 'a \<Rightarrow> int \<Rightarrow> 'a list" where
  "seq_insert xs x pos =
     (if xs = [] then [x]
      else if pos = -1 \<or> pos \<ge> int (length xs) then xs @ [x]
      else if pos < 0 then hd xs # x # tl xs
      else take (nat pos) xs @ x # drop (nat pos) xs)"

definition seq_get :: "'a list \<Rightarrow> int \<Rightarrow> 'a option" where
  "seq_get xs pos = (if 0 \<le> pos \<and> pos < int (length xs) then Some (xs ! nat pos) else None)"

definition seq_remove :: "'a list \<Rightarrow> int \<Rightarrow> 'a list" where
  "seq_remove xs pos =
     (if 0 \<le> pos \<and> pos < int (length xs) then take (nat pos) xs @ drop (Suc (nat pos)) xs else xs)"

lemma length_seq_insert [simp]: "length (seq_insert xs x pos) = Suc (length xs)"
  by (auto simp: seq_insert_def)

lemma length_seq_remove:
  "0 \<le> pos \<Longrightarrow> pos < int (length xs) \<Longrightarrow> length (seq_remove xs pos) = length xs - 1"
  by (simp add: seq_remove_def)

lemma seq_insert_end [simp]: "seq_insert xs x (-1) = xs @ [x]"
  by (simp add: seq_insert_def)

lemma seq_insert_front [simp]: "seq_insert xs x 0 = x # xs"
  by (simp add: seq_insert_def)

lemma seq_get_0 [simp]: "seq_get xs 0 = (case xs of [] \<Rightarrow> None | x # _ \<Rightarrow> Some x)"
  by (cases xs) (simp_all add: seq_get_def)

lemma seq_remove_0 [simp]: "seq_remove xs 0 = tl xs"
  by (cases xs) (simp_all add: seq_remove_def)

lemma list_walk_eq:
  assumes "0 \<le> lim - i" and "nat (lim - i) \<le> length xs"
  shows "list_walk lim i xs = Some (lim, drop (nat (lim - i)) xs)"
  using assms
proof (induction lim i xs rule: list_walk.induct)
  case (2 lim i x nxt)
  show ?case
  proof (cases "lim > i")
    case True
    then have n: "nat (lim - i) = Suc (nat (lim - (i + 1)))" by simp
    from True "2" have "list_walk lim (i + 1) nxt = Some (lim, drop (nat (lim - (i + 1))) nxt)"
      by simp
    with True n show ?thesis by simp
  qed (use "2" in simp)
qed simp

lemma list_walk_lt: "list_walk lim i xs = Some (i, xs)" if "lim \<le> i"
  using that by (cases xs) simp_all

lemma drop_eq_nth_Cons: "n < length xs \<Longrightarrow> drop n xs = xs ! n # drop (Suc n) xs"
  by (rule Cons_nth_drop_Suc [symmetric])

lemma osip_list_get_of_elems [simp]:
  "osip_list_get (Some (of_elems xs)) pos = Some (seq_get xs pos)"
  by (auto simp: osip_list_get_def of_elems_def seq_get_def list_walk_eq drop_eq_nth_Cons)

lemma osip_list_add_of_elems [simp]:
  "osip_list_add ok (Some (of_elems xs)) el pos =
     (if ok then Some (int (length xs) + 1, Some (of_elems (seq_insert xs el pos)))
      else Some (OSIP_NOMEM, Some (of_elems xs)))"
proof (cases "xs = []")
  case True
  then show ?thesis by (simp add: osip_list_add_def of_elems_def seq_insert_def)
next
  case ne: False
  define p where "p = (if pos = -1 \<or> pos \<ge> int (length xs) then int (length xs) else pos)"
  consider (zero) "p = 0" | (neg) "p < 0" | (pos) "0 < p" by linarith
  then show ?thesis
  proof cases
    case zero
    with ne show ?thesis
      by (auto simp: osip_list_add_def of_elems_def seq_insert_def p_def Let_def split: if_splits)
  next
    case neg
    then have "pos < -1" by (auto simp: p_def split: if_splits)
    with ne show ?thesis
      by (cases xs) (auto simp: osip_list_add_def of_elems_def seq_insert_def list_walk_lt Let_def)
  next
    case pos
    have le: "p \<le> int (length xs)" by (simp add: p_def)
    with pos have w: "list_walk (p - 1) 0 xs = Some (p - 1, drop (nat (p - 1)) xs)"
      by (simp add: list_walk_eq nat_le_iff)
    have d: "drop (nat (p - 1)) xs = xs ! nat (p - 1) # drop (nat p) xs"
      using pos le by (subst drop_eq_nth_Cons) (auto simp: Suc_nat_eq_nat_zadd1)
    have s: "Suc (nat (p - 1)) = nat p" using pos by simp
    show ?thesis
      using ne pos le w d s
      by (auto simp: osip_list_add_def of_elems_def seq_insert_def Let_def p_def split: if_splits)
  qed
qed

lemma osip_list_remove_of_elems:
  assumes "0 \<le> pos" and "pos < int (length xs)"
  shows "osip_list_remove (Some (of_elems xs)) pos =
     Some (int (length xs) - 1, Some (of_elems (seq_remove xs pos)))"
proof (cases "pos = 0")
  case True
  with assms show ?thesis
    by (cases xs) (auto simp: osip_list_remove_def of_elems_def)
next
  case False
  with assms have p: "0 < pos" by simp
  have w: "list_walk (pos - 1) 0 xs = Some (pos - 1, drop (nat (pos - 1)) xs)"
    using p assms by (simp add: list_walk_eq nat_le_iff)
  have d1: "drop (nat (pos - 1)) xs = xs ! nat (pos - 1) # drop (nat pos) xs"
    using p assms by (subst drop_eq_nth_Cons) (auto simp: Suc_nat_eq_nat_zadd1)
  have d2: "drop (nat pos) xs = xs ! nat pos # drop (Suc (nat pos)) xs"
    using p assms by (subst drop_eq_nth_Cons) auto
  have s: "Suc (nat (pos - 1)) = nat pos" using p by simp
  show ?thesis
    using False p assms w d1 d2 s
    by (simp add: osip_list_remove_def of_elems_def seq_remove_def)
qed

lemma osip_list_remove_range:
  "pos < 0 \<or> pos \<ge> int (length xs) \<Longrightarrow>
   osip_list_remove (Some (of_elems xs)) pos = Some (OSIP_UNDEFINED_ERROR, Some (of_elems xs))"
  by (auto simp: osip_list_remove_def of_elems_def)

lemma osip_list_size_of_elems [simp]: "osip_list_size (Some (of_elems xs)) = int (length xs)"
  by (simp add: osip_list_size_def of_elems_def)

lemma osip_list_eol_of_elems [simp]:
  "osip_list_eol (Some (of_elems xs)) i = (if i < int (length xs) then 0 else 1)"
  by (simp add: osip_list_eol_def of_elems_def osip_err)

section \<open>Iteration\<close>

lemma osip_list_visit_drop:
  "it_pos it = int k \<Longrightarrow> it_actual it = drop k xs \<Longrightarrow>
   osip_list_visit it (of_elems xs) = drop k xs"
proof (induction it "of_elems xs" arbitrary: k rule: osip_list_visit.induct)
  case (1 it)
  show ?case
  proof (cases "k < length xs")
    case True
    with "1.prems" have has: "osip_list_iterator_has_elem it (of_elems xs)"
      by (simp add: osip_list_iterator_has_elem_def of_elems_def)
    have "drop k xs = xs ! k # drop (Suc k) xs" using True by (rule drop_eq_nth_Cons)
    then have nxt: "it_actual it = xs ! k # drop (Suc k) xs" by (simp add: "1.prems")
    let ?it' = "snd (osip_list_get_next it (of_elems xs))"
    have it': "it_pos ?it' = int (Suc k)" "it_actual ?it' = drop (Suc k) xs"
      using "1.prems"(1) nxt
      by (auto simp: osip_list_get_next_def osip_list_iterator_has_elem_def of_elems_def Let_def)
    have "osip_list_visit ?it' (of_elems xs) = drop (Suc k) xs"
      using "1.hyps" has it' by blast
    with has nxt show ?thesis
      by (simp add: osip_list_visit.simps [of it] "1.prems")
  next
    case False
    with "1.prems" show ?thesis
      by (simp add: osip_list_visit.simps [of it] osip_list_iterator_has_elem_def)
  qed
qed

lemma osip_list_elems_of_elems [simp]: "osip_list_elems (of_elems xs) = Some xs"
proof (cases xs)
  case Nil
  then show ?thesis
    by (simp add: osip_list_elems_def osip_list_get_first_def of_elems_def osip_list_visit.simps
        osip_list_iterator_has_elem_def)
next
  case (Cons y ys)
  have "osip_list_visit \<lparr>it_actual = xs, it_pos = 0\<rparr> (of_elems xs) = drop 0 xs"
    by (rule osip_list_visit_drop) simp_all
  with Cons show ?thesis
    by (simp add: osip_list_elems_def osip_list_get_first_def of_elems_def)
qed

text \<open>Removing through an iterator that has advanced \<open>k\<close> times.\<close>

lemma osip_list_iterator_remove_of_elems:
  assumes "k < length xs"
  shows "osip_list_iterator_remove \<lparr>it_actual = drop k xs, it_pos = int k\<rparr> (of_elems xs) =
     (seq_get (seq_remove xs (int k)) (int k),
      \<lparr>it_actual = drop (Suc k) xs, it_pos = int k\<rparr>,
      of_elems (seq_remove xs (int k)))"
  using assms
  by (auto simp: osip_list_iterator_remove_def osip_list_iterator_has_elem_def of_elems_def
      seq_remove_def seq_get_def Let_def drop_Suc tl_drop hd_drop_conv_nth nth_append min_def)

section \<open>Cloning and freeing\<close>

lemma clone_loop_ok:
  assumes "\<And>x. x \<in> set xs \<Longrightarrow> cl x = (0, Some (g x))"
  shows "clone_loop cl xs (Some (of_elems ys)) = Some (OSIP_SUCCESS, Some (of_elems (ys @ map g xs)))"
  using assms by (induction xs arbitrary: ys) simp_all

text \<open>The same loop on HOL lists, for the lists held in messages.\<close>

fun seq_clone :: "('a \<Rightarrow> int \<times> 'b option) \<Rightarrow> 'a list \<Rightarrow> 'b list \<Rightarrow> int \<times> 'b list" where
  "seq_clone clone_func [] dst = (OSIP_SUCCESS, dst)"
| "seq_clone clone_func (data # rest) dst =
     (case clone_func data of
        (i, data2) \<Rightarrow>
          if i \<noteq> 0 then (i, dst) else seq_clone clone_func rest (dst @ [the data2]))"

lemma clone_loop_seq_clone:
  assumes "\<And>x. fst (cl x) = 0 \<Longrightarrow> snd (cl x) \<noteq> None"
  shows "clone_loop cl xs (Some (of_elems ys)) =
    (case seq_clone cl xs ys of (i, zs) \<Rightarrow> Some (i, Some (of_elems zs)))"
proof (induction xs arbitrary: ys)
  case (Cons x xs)
  then show ?case using assms [of x] by (cases "cl x") auto
qed simp

lemma seq_clone_id:
  "(\<And>x. x \<in> set xs \<Longrightarrow> cl x = (0, Some x)) \<Longrightarrow> seq_clone cl xs ys = (OSIP_SUCCESS, ys @ xs)"
  by (induction xs arbitrary: ys) simp_all

lemma osip_list_clone_ok:
  "(\<And>x. x \<in> set xs \<Longrightarrow> cl x = (0, Some (g x))) \<Longrightarrow>
   osip_list_clone (of_elems xs) (Some (of_elems ys)) cl =
     Some (OSIP_SUCCESS, Some (of_elems (ys @ map g xs)))"
  by (simp add: osip_list_clone_def clone_loop_ok)

lemma osip_list_special_free_of_elems:
  "osip_list_special_free (Some (of_elems xs)) = Some (map Some xs, Some (of_elems []))"
proof (induction xs)
  case Nil
  then show ?case by (simp add: osip_list_special_free.simps [of "Some (of_elems [])"])
next
  case (Cons x xs)
  then show ?case
    by (simp add: osip_list_special_free.simps [of "Some (of_elems (x # xs))"]
        osip_list_remove_of_elems)
qed

section \<open>The interface of the list\<close>

text \<open>What clients may rely on.  The operations of the code return \<open>UB\<close> when they follow a NULL
  pointer; on lists that satisfy the invariant they never do.\<close>

locale sequence =
  fixes empty :: 'l
    and add :: "'l \<Rightarrow> 'a \<Rightarrow> int \<Rightarrow> (int \<times> 'l option) ub"
    and get :: "'l \<Rightarrow> int \<Rightarrow> 'a option ub"
    and remove :: "'l \<Rightarrow> int \<Rightarrow> (int \<times> 'l option) ub"
    and size :: "'l \<Rightarrow> int"
    and invar :: "'l \<Rightarrow> bool"
    and elems :: "'l \<Rightarrow> 'a list"
  assumes invar_empty: "invar empty" and elems_empty: "elems empty = []"
    and add_law: "invar l \<Longrightarrow>
      \<exists>l'. add l x pos = Some (size l + 1, Some l') \<and> invar l' \<and> elems l' = seq_insert (elems l) x pos"
    and get_law: "invar l \<Longrightarrow> get l pos = Some (seq_get (elems l) pos)"
    and remove_law: "invar l \<Longrightarrow> 0 \<le> pos \<Longrightarrow> pos < size l \<Longrightarrow>
      \<exists>l'. remove l pos = Some (size l - 1, Some l') \<and> invar l' \<and> elems l' = seq_remove (elems l) pos"
    and size_law: "invar l \<Longrightarrow> size l = int (length (elems l))"
begin

lemma add_last:
  assumes "invar l"
  obtains l' where "add l x (-1) = Some (size l + 1, Some l')" "invar l'" "elems l' = elems l @ [x]"
  using add_law [OF assms, of x "-1"] by auto

lemma add_first:
  assumes "invar l"
  obtains l' where "add l x 0 = Some (size l + 1, Some l')" "invar l'" "elems l' = x # elems l"
  using add_law [OF assms, of x 0] by auto

lemma take_first:
  assumes "invar l" and "elems l = x # xs"
  obtains l' where "get l 0 = Some (Some x)" "remove l 0 = Some (size l - 1, Some l')"
    "invar l'" "elems l' = xs"
proof -
  have "size l > 0" using size_law [OF assms(1)] assms(2) by simp
  with remove_law [OF assms(1), of 0] get_law [OF assms(1), of 0] assms(2) that
  show thesis by auto
qed

lemma get_after_add_last:
  assumes "invar l"
  obtains l' where "add l x (-1) = Some (size l + 1, Some l')" "get l' (size l) = Some (Some x)"
proof -
  obtain l' where l': "add l x (-1) = Some (size l + 1, Some l')" "invar l'" "elems l' = elems l @ [x]"
    using assms by (rule add_last)
  then have "get l' (size l) = Some (Some x)"
    using get_law [OF l'(2), of "size l"] size_law [OF assms]
    by (simp add: seq_get_def)
  with l'(1) show thesis by (rule that)
qed

end

interpretation olist: sequence "of_elems []" "\<lambda>l. osip_list_add True (Some l)" "\<lambda>l. osip_list_get (Some l)"
  "\<lambda>l. osip_list_remove (Some l)" "\<lambda>l. osip_list_size (Some l)" list_inv list_abs
proof (unfold_locales, goal_cases)
  case (3 l x pos)
  then show ?case using list_inv_of_elems [OF 3] by (metis list_abs_def of_elems_abs of_elems_inv
    osip_list_add_of_elems osip_list_size_of_elems)
next
  case (4 l pos)
  then show ?case using list_inv_of_elems [OF 4] by (metis osip_list_get_of_elems)
next
  case (5 l pos)
  then show ?case using list_inv_of_elems [OF 5(1)] osip_list_remove_of_elems
    by (metis of_elems_abs of_elems_inv osip_list_size_of_elems)
next
  case (6 l)
  then show ?case using list_inv_of_elems [OF 6] by (metis osip_list_size_of_elems)
qed simp_all

text \<open>C39. On lists whose counter agrees with the chain, \<open>osip_list_add\<close>, \<open>osip_list_get\<close> and
  \<open>osip_list_remove\<close> never follow a NULL pointer, keep counter and chain in agreement, and do what
  insertion, lookup and removal at a position do on sequences.\<close>

theorem list_refines_sequence:
  assumes "list_inv l"
  shows "(\<exists>l'. osip_list_add True (Some l) x pos = Some (osip_list_size (Some l) + 1, Some l')
            \<and> list_inv l' \<and> list_abs l' = seq_insert (list_abs l) x pos)
    \<and> osip_list_get (Some l) pos = Some (seq_get (list_abs l) pos)
    \<and> (\<exists>l' r. osip_list_remove (Some l) pos = Some (r, Some l')
            \<and> list_inv l' \<and> list_abs l' = seq_remove (list_abs l) pos)"
proof (intro conjI)
  show "\<exists>l'. osip_list_add True (Some l) x pos = Some (osip_list_size (Some l) + 1, Some l')
      \<and> list_inv l' \<and> list_abs l' = seq_insert (list_abs l) x pos" using olist.add_law [OF assms] .
  show "osip_list_get (Some l) pos = Some (seq_get (list_abs l) pos)" using olist.get_law [OF assms] .
  show "\<exists>l' r. osip_list_remove (Some l) pos = Some (r, Some l')
      \<and> list_inv l' \<and> list_abs l' = seq_remove (list_abs l) pos"
  proof (cases "0 \<le> pos \<and> pos < osip_list_size (Some l)")
    case True
    with olist.remove_law [OF assms] show ?thesis by blast
  next
    case False
    then have "pos < 0 \<or> int (length (list_abs l)) \<le> pos" using olist.size_law [OF assms] by auto
    with list_inv_of_elems [OF assms] osip_list_remove_range [of pos "list_abs l"] show ?thesis
      by (metis of_elems_abs of_elems_inv seq_remove_def not_less)
  qed
qed

theorem list_refines_sequence_witness:
  "osip_list_get (Some (of_elems [True, False])) 1 = Some (Some False)"
  using list_refines_sequence [of "of_elems [True, False]" True 1] by (simp add: seq_get_def)

end
