(* ===== verification/Sip_Message.thy ===== *)
theory Sip_Message
  imports Osip_Port Osip_List
begin

text \<open>
  SIP messages as the transaction layer sees them (\<open>include/osipparser2\<close>) and the functions of
  \<open>src/osipparser2\<close> it calls: parameter lookup, cloning, comparing and printing of the headers
  that identify a transaction.  A \<open>char *\<close> that may be NULL is a \<open>string option\<close>.  The name of a
  parameter is always set (\<open>osip_uri_param_add\<close> is the only constructor clients use), so \<open>gname\<close>
  is a \<open>string\<close>.  An \<open>osip_list_t\<close> inside a message is the HOL list it represents
  (\<open>Osip_List.list_abs\<close>); \<open>seq_get\<close> and \<open>seq_clone\<close> are what the list functions compute on it.
  Headers that no transaction function reads are left out.  Allocations succeed.
\<close>

section \<open>Structures\<close>

record osip_uri_param =
  gname :: string
  gvalue :: "string option"

type_synonym osip_generic_param = osip_uri_param

record osip_uri =
  uri_scheme :: "string option"
  uri_username :: "string option"
  uri_password :: "string option"
  uri_host :: "string option"
  uri_port :: "string option"
  url_params :: "osip_uri_param list"
  url_headers :: "osip_uri_param list"
  uri_string :: "string option"

record osip_via =
  via_version :: "string option"
  via_protocol :: "string option"
  via_host :: "string option"
  via_port :: "string option"
  via_comment :: "string option"
  via_params :: "osip_generic_param list"

record osip_from =
  displayname :: "string option"
  url :: "osip_uri option"
  gen_params :: "osip_generic_param list"

type_synonym osip_to = osip_from
type_synonym osip_route = osip_from
type_synonym osip_record_route = osip_from
type_synonym osip_contact = osip_from

record osip_call_id =
  cid_number :: "string option"
  cid_host :: "string option"

record osip_cseq =
  cseq_method :: "string option"
  cseq_number :: "string option"

record osip_authorization =
  auth_type :: "string option"
  auth_username :: "string option"
  auth_realm :: "string option"
  auth_nonce :: "string option"
  auth_uri :: "string option"
  auth_response :: "string option"
  auth_digest :: "string option"
  auth_algorithm :: "string option"
  auth_cnonce :: "string option"
  auth_opaque :: "string option"
  auth_message_qop :: "string option"
  auth_nonce_count :: "string option"
  auth_version :: "string option"
  auth_targetname :: "string option"
  auth_gssapi_data :: "string option"
  auth_crand :: "string option"
  auth_cnum :: "string option"
  auth_param :: "string option"

record osip_message =
  sip_version :: "string option"
  req_uri :: "osip_uri option"
  sip_method :: "string option"
  status_code :: int
  reason_phrase :: "string option"
  authorizations :: "osip_authorization list"
  msg_call_id :: "osip_call_id option"
  contacts :: "osip_contact list"
  msg_cseq :: "osip_cseq option"
  msg_from :: "osip_from option"
  proxy_authorizations :: "osip_authorization list"
  record_routes :: "osip_record_route list"
  routes :: "osip_route list"
  msg_to :: "osip_to option"
  vias :: "osip_via list"

definition osip_message_init :: osip_message where
  "osip_message_init =
     \<lparr>sip_version = None, req_uri = None, sip_method = None, status_code = 0, reason_phrase = None,
      authorizations = [], msg_call_id = None, contacts = [], msg_cseq = None, msg_from = None,
      proxy_authorizations = [], record_routes = [], routes = [], msg_to = None, vias = []\<rparr>"

section \<open>Classification (macros of osip_message.h)\<close>

definition MSG_IS_RESPONSE :: "osip_message \<Rightarrow> bool" where
  "MSG_IS_RESPONSE m \<longleftrightarrow> status_code m \<noteq> 0"

definition MSG_IS_REQUEST :: "osip_message \<Rightarrow> bool" where
  "MSG_IS_REQUEST m \<longleftrightarrow> status_code m = 0"

text \<open>\<open>MSG_IS_INVITE (m)\<close> and its siblings: \<open>strcmp\<close> dereferences \<open>sip_method\<close> of a request.\<close>

definition MSG_IS_METHOD :: "string \<Rightarrow> osip_message \<Rightarrow> bool ub" where
  "MSG_IS_METHOD name m =
     (if MSG_IS_REQUEST m then do { s \<leftarrow> deref (sip_method m); Some (strcmp_eq s name) }
      else Some False)"

definition MSG_IS_STATUS :: "int \<Rightarrow> osip_message \<Rightarrow> bool" where
  \<comment> \<open>\<open>MSG_IS_STATUS_kXX\<close> is \<open>MSG_IS_STATUS k\<close>\<close>
  "MSG_IS_STATUS k m \<longleftrightarrow> status_code m \<ge> k * 100 \<and> status_code m < (k + 1) * 100"

lemma MSG_IS_METHOD_request [simp]:
  "status_code m = 0 \<Longrightarrow> sip_method m = Some s \<Longrightarrow> MSG_IS_METHOD name m = Some (s = name)"
  by (simp add: MSG_IS_METHOD_def MSG_IS_REQUEST_def strcmp_eq_def)

lemma MSG_IS_METHOD_defined:
  "(status_code m = 0 \<longrightarrow> sip_method m \<noteq> None) \<Longrightarrow> \<exists>b. MSG_IS_METHOD name m = Some b"
  by (auto simp: MSG_IS_METHOD_def MSG_IS_REQUEST_def)

section \<open>Parameters\<close>

fun param_get_loop :: "osip_uri_param list \<Rightarrow> string \<Rightarrow> int \<times> osip_uri_param option" where
  "param_get_loop [] pname = (OSIP_UNDEFINED_ERROR, None)"
| "param_get_loop (u # rest) pname =
     (if length pname = length (gname u) \<and> osip_strncasecmp_eq (gname u) pname (length pname)
      then (OSIP_SUCCESS, Some u) else param_get_loop rest pname)"

definition osip_uri_param_get_byname ::
    "osip_uri_param list \<Rightarrow> string option \<Rightarrow> int \<times> osip_uri_param option" where
  "osip_uri_param_get_byname params pname =
     (case pname of
        None \<Rightarrow> (OSIP_BADPARAMETER, None)
      | Some p \<Rightarrow> if length p \<le> 0 then (OSIP_BADPARAMETER, None) else param_get_loop params p)"

definition get_param :: "osip_uri_param list \<Rightarrow> string \<Rightarrow> osip_uri_param option" where
  \<comment> \<open>the out parameter of \<open>osip_via_param_get_byname\<close>, \<open>osip_uri_uparam_get_byname\<close>,
     \<open>osip_from_param_get_byname\<close>\<close>
  "get_param params pname = snd (osip_uri_param_get_byname params (Some pname))"

definition osip_uri_param_clone :: "osip_uri_param option \<Rightarrow> int \<times> osip_uri_param option" where
  "osip_uri_param_clone uparam =
     (case uparam of None \<Rightarrow> (OSIP_BADPARAMETER, None)
      | Some u \<Rightarrow> (OSIP_SUCCESS, Some \<lparr>gname = gname u, gvalue = gvalue u\<rparr>))"

lemma get_param_find:
  "pname \<noteq> [] \<Longrightarrow> get_param params pname = find (\<lambda>u. osip_strcasecmp_eq (gname u) pname) params"
proof (induction params)
  case (Cons u params)
  have "(length pname = length (gname u) \<and> osip_strncasecmp_eq (gname u) pname (length pname))
      = osip_strcasecmp_eq (gname u) pname"
    by (metis length_map osip_strcasecmp_eq_def osip_strncasecmp_eq_len)
  with Cons show ?case by (simp add: get_param_def osip_uri_param_get_byname_def)
qed (simp add: get_param_def osip_uri_param_get_byname_def)

lemma param_get_loop_code:
  "fst (param_get_loop params p) = (if snd (param_get_loop params p) = None then OSIP_UNDEFINED_ERROR else OSIP_SUCCESS)"
  by (induction params) simp_all

section \<open>URI and From-like headers\<close>

definition osip_uri_clone :: "osip_uri option \<Rightarrow> int \<times> osip_uri option" where
  "osip_uri_clone ur =
     (case ur of None \<Rightarrow> (OSIP_BADPARAMETER, None)
      | Some u \<Rightarrow>
          if uri_host u = None \<and> uri_string u = None then (OSIP_BADPARAMETER, None)
          else (case seq_clone (\<lambda>p. osip_uri_param_clone (Some p)) (url_params u) [] of
                  (i, ps) \<Rightarrow>
                    if i \<noteq> 0 then (i, None)
                    else (case seq_clone (\<lambda>p. osip_uri_param_clone (Some p)) (url_headers u) [] of
                            (j, hs) \<Rightarrow>
                              if j \<noteq> 0 then (j, None)
                              else (OSIP_SUCCESS,
                                    Some \<lparr>uri_scheme = uri_scheme u, uri_username = uri_username u,
                                          uri_password = uri_password u, uri_host = uri_host u,
                                          uri_port = uri_port u, url_params = ps, url_headers = hs,
                                          uri_string = uri_string u\<rparr>))))"

definition osip_from_clone :: "osip_from option \<Rightarrow> int \<times> osip_from option" where
  "osip_from_clone from =
     (case from of None \<Rightarrow> (OSIP_BADPARAMETER, None)
      | Some f \<Rightarrow>
          (case (case url f of None \<Rightarrow> (0, None) | Some u \<Rightarrow> osip_uri_clone (Some u)) of
             (i, u2) \<Rightarrow>
               if i \<noteq> 0 then (i, None)
               else (case seq_clone (\<lambda>p. osip_uri_param_clone (Some p)) (gen_params f) [] of
                       (j, ps) \<Rightarrow>
                         if j \<noteq> 0 then (j, None)
                         else (OSIP_SUCCESS,
                               Some \<lparr>displayname = displayname f, url = u2, gen_params = ps\<rparr>))))"

definition osip_to_clone :: "osip_to option \<Rightarrow> int \<times> osip_to option" where
  "osip_to_clone to = osip_from_clone to"

definition osip_from_tag_match :: "osip_from option \<Rightarrow> osip_from option \<Rightarrow> int" where
  "osip_from_tag_match from1 from2 =
     (case (from1, from2) of
        (Some f1, Some f2) \<Rightarrow>
          (case (get_param (gen_params f1) ''tag'', get_param (gen_params f2) ''tag'') of
             (None, None) \<Rightarrow> OSIP_SUCCESS
           | (Some t1, Some t2) \<Rightarrow>
               (case (gvalue t1, gvalue t2) of
                  (Some v1, Some v2) \<Rightarrow> if strcmp_eq v1 v2 then OSIP_SUCCESS else OSIP_UNDEFINED_ERROR
                | _ \<Rightarrow> OSIP_UNDEFINED_ERROR)
           | _ \<Rightarrow> OSIP_UNDEFINED_ERROR)
      | _ \<Rightarrow> OSIP_BADPARAMETER)"

definition osip_to_tag_match :: "osip_to option \<Rightarrow> osip_to option \<Rightarrow> int" where
  "osip_to_tag_match to1 to2 = osip_from_tag_match to1 to2"

text \<open>\<open>osip_from_compare\<close> looks for the first parameter whose name starts with \<open>tag\<close>.\<close>

definition from_compare_tag :: "osip_generic_param list \<Rightarrow> string option" where
  "from_compare_tag ps =
     (case find (\<lambda>u. strncmp_eq (gname u) ''tag'' 3) ps of None \<Rightarrow> None | Some u \<Rightarrow> gvalue u)"

definition osip_from_compare :: "osip_from option \<Rightarrow> osip_from option \<Rightarrow> int" where
  "osip_from_compare from1 from2 =
     (case (from1, from2) of
        (Some f1, Some f2) \<Rightarrow>
          (case (url f1, url f2) of
             (Some u1, Some u2) \<Rightarrow>
               if uri_host u1 = None \<and> uri_host u2 = None
                  \<and> (uri_string u1 = None \<or> uri_string u2 = None) then OSIP_UNDEFINED_ERROR
               else if uri_host u1 = None \<and> uri_host u2 = None
                  \<and> strcmp_eq (the (uri_string u1)) (the (uri_string u2)) then OSIP_SUCCESS
               else if uri_host u1 = None \<or> uri_host u2 = None then OSIP_UNDEFINED_ERROR
               else if \<not> strcmp_eq (the (uri_host u1)) (the (uri_host u2)) then OSIP_UNDEFINED_ERROR
               else if uri_username u1 \<noteq> None \<and> uri_username u2 \<noteq> None
                  \<and> \<not> strcmp_eq (the (uri_username u1)) (the (uri_username u2)) then OSIP_UNDEFINED_ERROR
               else (case (from_compare_tag (gen_params f1), from_compare_tag (gen_params f2)) of
                       (Some t1, Some t2) \<Rightarrow>
                         if strcmp_eq t1 t2 then OSIP_SUCCESS else OSIP_UNDEFINED_ERROR
                     | _ \<Rightarrow> OSIP_SUCCESS)
           | _ \<Rightarrow> OSIP_BADPARAMETER)
      | _ \<Rightarrow> OSIP_BADPARAMETER)"

section \<open>Call-ID and CSeq\<close>

definition osip_call_id_clone :: "osip_call_id option \<Rightarrow> int \<times> osip_call_id option" where
  "osip_call_id_clone callid =
     (case callid of None \<Rightarrow> (OSIP_BADPARAMETER, None)
      | Some c \<Rightarrow>
          if cid_number c = None then (OSIP_BADPARAMETER, None)
          else (OSIP_SUCCESS, Some \<lparr>cid_number = cid_number c, cid_host = cid_host c\<rparr>))"

definition osip_call_id_match :: "osip_call_id option \<Rightarrow> osip_call_id option \<Rightarrow> int" where
  "osip_call_id_match callid1 callid2 =
     (case (callid1, callid2) of
        (Some c1, Some c2) \<Rightarrow>
          (case (cid_number c1, cid_number c2) of
             (Some n1, Some n2) \<Rightarrow>
               if \<not> strcmp_eq n1 n2 then OSIP_UNDEFINED_ERROR
               else (case (cid_host c1, cid_host c2) of
                       (None, None) \<Rightarrow> OSIP_SUCCESS
                     | (Some h1, Some h2) \<Rightarrow>
                         if strcmp_eq h1 h2 then OSIP_SUCCESS else OSIP_UNDEFINED_ERROR
                     | _ \<Rightarrow> OSIP_UNDEFINED_ERROR)
           | _ \<Rightarrow> OSIP_BADPARAMETER)
      | _ \<Rightarrow> OSIP_BADPARAMETER)"

definition osip_call_id_to_str :: "osip_call_id option \<Rightarrow> int \<times> string option" where
  "osip_call_id_to_str callid =
     (case callid of None \<Rightarrow> (OSIP_BADPARAMETER, None)
      | Some c \<Rightarrow>
          (case cid_number c of
             None \<Rightarrow> (OSIP_BADPARAMETER, None)
           | Some n \<Rightarrow>
               (case cid_host c of
                  None \<Rightarrow> (OSIP_SUCCESS, Some n)
                | Some h \<Rightarrow> (OSIP_SUCCESS, Some (n @ ''@'' @ h)))))"

definition osip_cseq_clone :: "osip_cseq option \<Rightarrow> int \<times> osip_cseq option" where
  "osip_cseq_clone cseq =
     (case cseq of None \<Rightarrow> (OSIP_BADPARAMETER, None)
      | Some c \<Rightarrow>
          if cseq_method c = None then (OSIP_BADPARAMETER, None)
          else if cseq_number c = None then (OSIP_BADPARAMETER, None)
          else (OSIP_SUCCESS, Some \<lparr>cseq_method = cseq_method c, cseq_number = cseq_number c\<rparr>))"

definition osip_cseq_match :: "osip_cseq option \<Rightarrow> osip_cseq option \<Rightarrow> int" where
  "osip_cseq_match cseq1 cseq2 =
     (case (cseq1, cseq2) of
        (Some c1, Some c2) \<Rightarrow>
          (case (cseq_number c1, cseq_number c2, cseq_method c1, cseq_method c2) of
             (Some n1, Some n2, Some m1, Some m2) \<Rightarrow>
               if strcmp_eq n1 n2 then
                 (if strcmp_eq m2 ''INVITE'' \<or> strcmp_eq m2 ''ACK'' then
                    (if strcmp_eq m1 ''INVITE'' \<or> strcmp_eq m1 ''ACK'' then OSIP_SUCCESS
                     else OSIP_UNDEFINED_ERROR)
                  else if strcmp_eq m1 m2 then OSIP_SUCCESS
                  else OSIP_UNDEFINED_ERROR)
               else OSIP_UNDEFINED_ERROR
           | _ \<Rightarrow> OSIP_BADPARAMETER)
      | _ \<Rightarrow> OSIP_BADPARAMETER)"

section \<open>Via\<close>

definition via_get_protocol :: "osip_via option \<Rightarrow> string option" where
  "via_get_protocol via = (case via of None \<Rightarrow> None | Some v \<Rightarrow> via_protocol v)"

definition via_get_host :: "osip_via option \<Rightarrow> string option" where
  "via_get_host via = (case via of None \<Rightarrow> None | Some v \<Rightarrow> via_host v)"

definition via_get_port :: "osip_via option \<Rightarrow> string option" where
  "via_get_port via = (case via of None \<Rightarrow> None | Some v \<Rightarrow> via_port v)"

definition osip_message_get_via :: "osip_message option \<Rightarrow> int \<Rightarrow> int \<times> osip_via option" where
  "osip_message_get_via sip pos =
     (case sip of
        None \<Rightarrow> (OSIP_BADPARAMETER, None)
      | Some m \<Rightarrow>
          if int (length (vias m)) \<le> pos then (OSIP_UNDEFINED_ERROR, None)
          else (pos, seq_get (vias m) pos))"

definition osip_message_get_route :: "osip_message \<Rightarrow> int \<Rightarrow> int \<times> osip_route option" where
  "osip_message_get_route m pos =
     (if int (length (routes m)) \<le> pos then (OSIP_UNDEFINED_ERROR, None)
      else (pos, seq_get (routes m) pos))"

definition osip_via_clone :: "osip_via option \<Rightarrow> int \<times> osip_via option" where
  "osip_via_clone via =
     (case via of None \<Rightarrow> (OSIP_BADPARAMETER, None)
      | Some v \<Rightarrow>
          if via_version v = None then (OSIP_BADPARAMETER, None)
          else if via_protocol v = None then (OSIP_BADPARAMETER, None)
          else if via_host v = None then (OSIP_BADPARAMETER, None)
          else (case seq_clone (\<lambda>p. osip_uri_param_clone (Some p)) (via_params v) [] of
                  (i, ps) \<Rightarrow>
                    if i \<noteq> 0 then (i, None)
                    else (OSIP_SUCCESS,
                          Some \<lparr>via_version = via_version v, via_protocol = via_protocol v,
                                via_host = via_host v, via_port = via_port v,
                                via_comment = via_comment v, via_params = ps\<rparr>)))"

fun via_params_to_str :: "osip_generic_param list \<Rightarrow> string" where
  "via_params_to_str [] = []"
| "via_params_to_str (u # rest) =
     (case gvalue u of
        None \<Rightarrow> '';'' @ gname u
      | Some v \<Rightarrow> '';'' @ gname u @ ''='' @ v) @ via_params_to_str rest"

definition osip_via_to_str :: "osip_via option \<Rightarrow> int \<times> string option" where
  "osip_via_to_str via =
     (case via of None \<Rightarrow> (OSIP_BADPARAMETER, None)
      | Some v \<Rightarrow>
          (case (via_host v, via_version v, via_protocol v) of
             (Some h, Some ver, Some proto) \<Rightarrow>
               (let h' = (if CHR '':'' \<in> set h then ''['' @ h @ '']'' else h);
                    p' = (case via_port v of None \<Rightarrow> [] | Some p \<Rightarrow> '':'' @ p);
                    c' = (case via_comment v of None \<Rightarrow> [] | Some c \<Rightarrow> '' ('' @ c @ '')'')
                in (OSIP_SUCCESS,
                    Some (''SIP/'' @ ver @ ''/'' @ proto @ '' '' @ h' @ p'
                          @ via_params_to_str (via_params v) @ c')))
           | _ \<Rightarrow> (OSIP_BADPARAMETER, None)))"

definition osip_via_match :: "osip_via option \<Rightarrow> osip_via option \<Rightarrow> int" where
  "osip_via_match via1 via2 =
     (if via1 = None \<or> via2 = None then OSIP_BADPARAMETER
      else (case osip_via_to_str via1 of
              (i, s1) \<Rightarrow>
                if i \<noteq> 0 then i
                else (case osip_via_to_str via2 of
                        (j, s2) \<Rightarrow>
                          if j \<noteq> 0 then j
                          else if \<not> strcmp_eq (the s1) (the s2) then OSIP_UNDEFINED_ERROR
                          else OSIP_SUCCESS)))"

section \<open>Authorization\<close>

text \<open>\<open>osip_authorization_clone\<close> copies every field but \<open>auth_param\<close>.\<close>

definition osip_authorization_clone :: "osip_authorization option \<Rightarrow> int \<times> osip_authorization option" where
  "osip_authorization_clone auth =
     (case auth of None \<Rightarrow> (OSIP_BADPARAMETER, None)
      | Some a \<Rightarrow> (OSIP_SUCCESS, Some (a\<lparr>auth_param := None\<rparr>)))"

section \<open>Messages\<close>

text \<open>\<open>osip_message_clone\<close> over the headers the model has; a step that fails ends it with that
  step's code.  \<open>opt_clone\<close> is \<open>if (sip->h != NULL) { i = osip_h_clone (sip->h, &copy->h); ... }\<close>.\<close>

definition opt_clone :: "('a option \<Rightarrow> int \<times> 'a option) \<Rightarrow> 'a option \<Rightarrow> int \<times> 'a option" where
  "opt_clone cl x = (if x = None then (0, None) else cl x)"

definition osip_message_clone :: "osip_message option \<Rightarrow> int \<times> osip_message option" where
  "osip_message_clone sip =
     (case sip of None \<Rightarrow> (OSIP_BADPARAMETER, None)
      | Some m \<Rightarrow>
          (let (i1, u) = opt_clone osip_uri_clone (req_uri m);
               (i2, as) = seq_clone (\<lambda>a. osip_authorization_clone (Some a)) (authorizations m) [];
               (i3, cid) = opt_clone osip_call_id_clone (msg_call_id m);
               (i4, cts) = seq_clone (\<lambda>a. osip_from_clone (Some a)) (contacts m) [];
               (i5, cs) = opt_clone osip_cseq_clone (msg_cseq m);
               (i6, f) = opt_clone osip_from_clone (msg_from m);
               (i7, ps) = seq_clone (\<lambda>a. osip_authorization_clone (Some a)) (proxy_authorizations m) [];
               (i8, rrs) = seq_clone (\<lambda>a. osip_from_clone (Some a)) (record_routes m) [];
               (i9, rs) = seq_clone (\<lambda>a. osip_from_clone (Some a)) (routes m) [];
               (i10, t) = opt_clone osip_to_clone (msg_to m);
               (i11, vs) = seq_clone (\<lambda>a. osip_via_clone (Some a)) (vias m) []
           in case find (\<lambda>i. i \<noteq> 0) [i1, i2, i3, i4, i5, i6, i7, i8, i9, i10, i11] of
                Some i \<Rightarrow> (i, None)
              | None \<Rightarrow>
                  (OSIP_SUCCESS,
                   Some \<lparr>sip_version = sip_version m, req_uri = u, sip_method = sip_method m,
                         status_code = status_code m, reason_phrase = reason_phrase m,
                         authorizations = as, msg_call_id = cid, contacts = cts, msg_cseq = cs,
                         msg_from = f, proxy_authorizations = ps, record_routes = rrs, routes = rs,
                         msg_to = t, vias = vs\<rparr>)))"

section \<open>What cloning and matching compute\<close>

definition uri_ok :: "osip_uri \<Rightarrow> bool" where
  "uri_ok u \<longleftrightarrow> uri_host u \<noteq> None \<or> uri_string u \<noteq> None"

definition from_ok :: "osip_from \<Rightarrow> bool" where
  "from_ok f \<longleftrightarrow> (case url f of None \<Rightarrow> True | Some u \<Rightarrow> uri_ok u)"

definition via_ok :: "osip_via \<Rightarrow> bool" where
  "via_ok v \<longleftrightarrow> via_version v \<noteq> None \<and> via_protocol v \<noteq> None \<and> via_host v \<noteq> None"

definition call_id_ok :: "osip_call_id \<Rightarrow> bool" where
  "call_id_ok c \<longleftrightarrow> cid_number c \<noteq> None"

definition cseq_ok :: "osip_cseq \<Rightarrow> bool" where
  "cseq_ok c \<longleftrightarrow> cseq_method c \<noteq> None \<and> cseq_number c \<noteq> None"

lemma seq_clone_params [simp]:
  "seq_clone (\<lambda>p. osip_uri_param_clone (Some p)) ps [] = (OSIP_SUCCESS, ps)"
proof -
  have "seq_clone (\<lambda>p. osip_uri_param_clone (Some p)) ps [] = (OSIP_SUCCESS, [] @ ps)"
    by (rule seq_clone_id) (simp add: osip_uri_param_clone_def osip_err)
  then show ?thesis by simp
qed

lemma osip_uri_clone_Some:
  "osip_uri_clone (Some u) = (if uri_ok u then (OSIP_SUCCESS, Some u) else (OSIP_BADPARAMETER, None))"
  by (cases u) (auto simp: osip_uri_clone_def uri_ok_def osip_err)

lemma osip_from_clone_Some:
  "osip_from_clone (Some f) = (if from_ok f then (OSIP_SUCCESS, Some f) else (OSIP_BADPARAMETER, None))"
  by (cases f)
    (auto simp: osip_from_clone_def from_ok_def osip_uri_clone_Some osip_err split: option.splits)

lemma osip_via_clone_Some:
  "osip_via_clone (Some v) = (if via_ok v then (OSIP_SUCCESS, Some v) else (OSIP_BADPARAMETER, None))"
  by (cases v) (auto simp: osip_via_clone_def via_ok_def osip_err)

lemma osip_call_id_clone_Some:
  "osip_call_id_clone (Some c) =
     (if call_id_ok c then (OSIP_SUCCESS, Some c) else (OSIP_BADPARAMETER, None))"
  by (cases c) (auto simp: osip_call_id_clone_def call_id_ok_def)

lemma osip_cseq_clone_Some:
  "osip_cseq_clone (Some c) =
     (if cseq_ok c then (OSIP_SUCCESS, Some c) else (OSIP_BADPARAMETER, None))"
  by (cases c) (auto simp: osip_cseq_clone_def cseq_ok_def)

lemma clone_None:
  "osip_uri_clone None = (OSIP_BADPARAMETER, None)"
  "osip_from_clone None = (OSIP_BADPARAMETER, None)"
  "osip_via_clone None = (OSIP_BADPARAMETER, None)"
  "osip_call_id_clone None = (OSIP_BADPARAMETER, None)"
  "osip_cseq_clone None = (OSIP_BADPARAMETER, None)"
  by (simp_all add: osip_uri_clone_def osip_from_clone_def osip_via_clone_def
      osip_call_id_clone_def osip_cseq_clone_def)

lemmas clone_simps = osip_uri_clone_Some osip_from_clone_Some osip_via_clone_Some
  osip_call_id_clone_Some osip_cseq_clone_Some osip_to_clone_def clone_None

lemma osip_call_id_match_refl: "call_id_ok c \<Longrightarrow> osip_call_id_match (Some c) (Some c) = OSIP_SUCCESS"
  by (auto simp: osip_call_id_match_def call_id_ok_def strcmp_eq_def split: option.splits)

lemma osip_via_match_refl: "via_ok v \<Longrightarrow> osip_via_match (Some v) (Some v) = OSIP_SUCCESS"
  by (auto simp: osip_via_match_def osip_via_to_str_def via_ok_def strcmp_eq_def osip_err Let_def)

lemma osip_cseq_match_refl: "cseq_ok c \<Longrightarrow> osip_cseq_match (Some c) (Some c) = OSIP_SUCCESS"
  by (auto simp: osip_cseq_match_def cseq_ok_def strcmp_eq_def)

definition clone_auth :: "osip_authorization \<Rightarrow> osip_authorization" where
  "clone_auth a = a\<lparr>auth_param := None\<rparr>"

lemma seq_clone_auths [simp]:
  "seq_clone (\<lambda>a. osip_authorization_clone (Some a)) xs ys = (OSIP_SUCCESS, ys @ map clone_auth xs)"
  by (induction xs arbitrary: ys) (simp_all add: osip_authorization_clone_def clone_auth_def osip_err)

lemma seq_clone_froms:
  "list_all from_ok xs \<Longrightarrow> seq_clone (\<lambda>r. osip_from_clone (Some r)) xs ys = (OSIP_SUCCESS, ys @ xs)"
  by (induction xs arbitrary: ys) (simp_all add: osip_from_clone_Some osip_err)

lemma seq_clone_vias:
  "list_all via_ok xs \<Longrightarrow> seq_clone (\<lambda>v. osip_via_clone (Some v)) xs ys = (OSIP_SUCCESS, ys @ xs)"
  by (induction xs arbitrary: ys) (simp_all add: osip_via_clone_Some osip_err)

definition opt_ok :: "('a \<Rightarrow> bool) \<Rightarrow> 'a option \<Rightarrow> bool" where
  "opt_ok P x = (case x of None \<Rightarrow> True | Some y \<Rightarrow> P y)"

lemma opt_clone_ok:
  "(\<And>y. P y \<Longrightarrow> cl (Some y) = (OSIP_SUCCESS, Some y)) \<Longrightarrow> opt_ok P x \<Longrightarrow> opt_clone cl x = (OSIP_SUCCESS, x)"
  by (cases x) (simp_all add: opt_clone_def opt_ok_def osip_err)

definition message_clonable :: "osip_message \<Rightarrow> bool" where
  "message_clonable m \<longleftrightarrow>
     opt_ok uri_ok (req_uri m) \<and> opt_ok call_id_ok (msg_call_id m) \<and> opt_ok cseq_ok (msg_cseq m)
     \<and> opt_ok from_ok (msg_from m) \<and> opt_ok from_ok (msg_to m) \<and> list_all from_ok (contacts m)
     \<and> list_all from_ok (record_routes m) \<and> list_all from_ok (routes m) \<and> list_all via_ok (vias m)"

text \<open>A clone is a copy: \<open>osip_message_clone\<close> of a message whose headers can be cloned succeeds and
  gives the same message, except that the Authorization headers lose their \<open>auth_param\<close>.\<close>

theorem message_clone_is_copy:
  assumes "message_clonable m"
  shows "osip_message_clone (Some m) = (OSIP_SUCCESS,
    Some (m\<lparr>authorizations := map clone_auth (authorizations m),
            proxy_authorizations := map clone_auth (proxy_authorizations m)\<rparr>))"
proof -
  have o: "opt_clone osip_uri_clone (req_uri m) = (OSIP_SUCCESS, req_uri m)"
      "opt_clone osip_call_id_clone (msg_call_id m) = (OSIP_SUCCESS, msg_call_id m)"
      "opt_clone osip_cseq_clone (msg_cseq m) = (OSIP_SUCCESS, msg_cseq m)"
      "opt_clone osip_from_clone (msg_from m) = (OSIP_SUCCESS, msg_from m)"
      "opt_clone osip_to_clone (msg_to m) = (OSIP_SUCCESS, msg_to m)"
    using assms unfolding message_clonable_def
    by (auto intro!: opt_clone_ok simp: clone_simps)
  have "osip_message_clone (Some m) = (OSIP_SUCCESS,
      Some \<lparr>sip_version = sip_version m, req_uri = req_uri m, sip_method = sip_method m,
            status_code = status_code m, reason_phrase = reason_phrase m,
            authorizations = map clone_auth (authorizations m), msg_call_id = msg_call_id m, contacts = contacts m,
            msg_cseq = msg_cseq m, msg_from = msg_from m,
            proxy_authorizations = map clone_auth (proxy_authorizations m), record_routes = record_routes m,
            routes = routes m, msg_to = msg_to m, vias = vias m\<rparr>)"
    using assms unfolding message_clonable_def
    by (simp add: osip_message_clone_def o seq_clone_froms seq_clone_vias osip_err)
  then show ?thesis by (cases m) simp
qed

theorem message_clone_is_copy_witness:
  "osip_message_clone (Some (osip_message_init\<lparr>sip_method := Some ''BYE''\<rparr>)) =
     (OSIP_SUCCESS, Some (osip_message_init\<lparr>sip_method := Some ''BYE''\<rparr>))"
  using message_clone_is_copy [of "osip_message_init\<lparr>sip_method := Some ''BYE''\<rparr>"]
  by (simp add: message_clonable_def osip_message_init_def opt_ok_def)

end
