(* ===== verification/Osip_Event.thy ===== *)
theory Osip_Event
  imports Sip_Message
begin

text \<open>
  Events and their types: \<open>src/osip2/osip_event.c\<close> and the enumeration \<open>type_t\<close> of
  \<open>include/osip2/osip.h\<close>, ordered as the C enumeration.
\<close>

datatype type_t =
  TIMEOUT_A | TIMEOUT_B | TIMEOUT_D | TIMEOUT_E | TIMEOUT_F | TIMEOUT_K | TIMEOUT_G | TIMEOUT_H
| TIMEOUT_I | TIMEOUT_J
| RCV_REQINVITE | RCV_REQACK | RCV_REQUEST | RCV_STATUS_1XX | RCV_STATUS_2XX | RCV_STATUS_3456XX
| SND_REQINVITE | SND_REQACK | SND_REQUEST | SND_STATUS_1XX | SND_STATUS_2XX | SND_STATUS_3456XX
| KILL_TRANSACTION | UNKNOWN_EVT

fun type_rank :: "type_t \<Rightarrow> nat" where
  "type_rank TIMEOUT_A = 0" | "type_rank TIMEOUT_B = 1" | "type_rank TIMEOUT_D = 2"
| "type_rank TIMEOUT_E = 3" | "type_rank TIMEOUT_F = 4" | "type_rank TIMEOUT_K = 5"
| "type_rank TIMEOUT_G = 6" | "type_rank TIMEOUT_H = 7" | "type_rank TIMEOUT_I = 8"
| "type_rank TIMEOUT_J = 9"
| "type_rank RCV_REQINVITE = 10" | "type_rank RCV_REQACK = 11" | "type_rank RCV_REQUEST = 12"
| "type_rank RCV_STATUS_1XX = 13" | "type_rank RCV_STATUS_2XX = 14" | "type_rank RCV_STATUS_3456XX = 15"
| "type_rank SND_REQINVITE = 16" | "type_rank SND_REQACK = 17" | "type_rank SND_REQUEST = 18"
| "type_rank SND_STATUS_1XX = 19" | "type_rank SND_STATUS_2XX = 20" | "type_rank SND_STATUS_3456XX = 21"
| "type_rank KILL_TRANSACTION = 22" | "type_rank UNKNOWN_EVT = 23"

definition type_list :: "type_t list" where
  "type_list =
     [TIMEOUT_A, TIMEOUT_B, TIMEOUT_D, TIMEOUT_E, TIMEOUT_F, TIMEOUT_K, TIMEOUT_G, TIMEOUT_H,
      TIMEOUT_I, TIMEOUT_J,
      RCV_REQINVITE, RCV_REQACK, RCV_REQUEST, RCV_STATUS_1XX, RCV_STATUS_2XX, RCV_STATUS_3456XX,
      SND_REQINVITE, SND_REQACK, SND_REQUEST, SND_STATUS_1XX, SND_STATUS_2XX, SND_STATUS_3456XX,
      KILL_TRANSACTION, UNKNOWN_EVT]"

lemma type_list_rank: "type_list ! type_rank t = t"
  by (cases t) (simp_all add: type_list_def)

lemma type_rank_inject: "type_rank a = type_rank b \<longleftrightarrow> a = b"
  by (metis type_list_rank)

instantiation type_t :: linorder
begin

definition less_eq_type_t :: "type_t \<Rightarrow> type_t \<Rightarrow> bool" where
  "less_eq_type_t a b \<longleftrightarrow> type_rank a \<le> type_rank b"

definition less_type_t :: "type_t \<Rightarrow> type_t \<Rightarrow> bool" where
  "less_type_t a b \<longleftrightarrow> type_rank a < type_rank b"

instance
  by standard (auto simp: less_eq_type_t_def less_type_t_def type_rank_inject)

end

record osip_event =
  ev_type :: type_t
  ev_transactionid :: int
  ev_sip :: "osip_message option"

section \<open>Macros of osip.h\<close>

definition EVT_IS_INCOMINGMSG :: "osip_event \<Rightarrow> bool" where
  "EVT_IS_INCOMINGMSG e \<longleftrightarrow> ev_type e \<ge> RCV_REQINVITE \<and> ev_type e \<le> RCV_STATUS_3456XX"

definition EVT_IS_INCOMINGREQ :: "osip_event \<Rightarrow> bool" where
  "EVT_IS_INCOMINGREQ e \<longleftrightarrow>
     ev_type e = RCV_REQINVITE \<or> ev_type e = RCV_REQACK \<or> ev_type e = RCV_REQUEST"

definition EVT_IS_INCOMINGRESP :: "osip_event \<Rightarrow> bool" where
  "EVT_IS_INCOMINGRESP e \<longleftrightarrow>
     ev_type e = RCV_STATUS_1XX \<or> ev_type e = RCV_STATUS_2XX \<or> ev_type e = RCV_STATUS_3456XX"

definition EVT_IS_OUTGOINGMSG :: "osip_event \<Rightarrow> bool" where
  "EVT_IS_OUTGOINGMSG e \<longleftrightarrow> ev_type e \<ge> SND_REQINVITE \<and> ev_type e \<le> SND_STATUS_3456XX"

definition EVT_IS_OUTGOINGREQ :: "osip_event \<Rightarrow> bool" where
  "EVT_IS_OUTGOINGREQ e \<longleftrightarrow>
     ev_type e = SND_REQINVITE \<or> ev_type e = SND_REQACK \<or> ev_type e = SND_REQUEST"

definition EVT_IS_MSG :: "osip_event \<Rightarrow> bool" where
  "EVT_IS_MSG e \<longleftrightarrow> ev_type e \<ge> RCV_REQINVITE \<and> ev_type e \<le> SND_STATUS_3456XX"

definition EVT_IS_KILL_TRANSACTION :: "osip_event \<Rightarrow> bool" where
  "EVT_IS_KILL_TRANSACTION e \<longleftrightarrow> ev_type e = KILL_TRANSACTION"

section \<open>Functions\<close>

definition osip_event_new :: "type_t \<Rightarrow> int \<Rightarrow> osip_event" where
  \<comment> \<open>\<open>__osip_event_new\<close>\<close>
  "osip_event_new ty transactionid =
     \<lparr>ev_type = ty, ev_transactionid = transactionid, ev_sip = None\<rparr>"

definition evt_set_type_incoming_sipmessage :: "osip_message \<Rightarrow> type_t ub" where
  "evt_set_type_incoming_sipmessage m =
     (if MSG_IS_REQUEST m then do {
        inv \<leftarrow> MSG_IS_METHOD ''INVITE'' m;
        if inv then Some RCV_REQINVITE
        else do {
          ack \<leftarrow> MSG_IS_METHOD ''ACK'' m;
          Some (if ack then RCV_REQACK else RCV_REQUEST)
        }
      }
      else if MSG_IS_STATUS 1 m then Some RCV_STATUS_1XX
      else if MSG_IS_STATUS 2 m then Some RCV_STATUS_2XX
      else Some RCV_STATUS_3456XX)"

definition evt_set_type_outgoing_sipmessage :: "osip_message \<Rightarrow> type_t ub" where
  "evt_set_type_outgoing_sipmessage m =
     (if MSG_IS_REQUEST m then do {
        inv \<leftarrow> MSG_IS_METHOD ''INVITE'' m;
        if inv then Some SND_REQINVITE
        else do {
          ack \<leftarrow> MSG_IS_METHOD ''ACK'' m;
          Some (if ack then SND_REQACK else SND_REQUEST)
        }
      }
      else if MSG_IS_STATUS 1 m then Some SND_STATUS_1XX
      else if MSG_IS_STATUS 2 m then Some SND_STATUS_2XX
      else Some SND_STATUS_3456XX)"

definition osip_new_outgoing_sipmessage :: "osip_message option \<Rightarrow> osip_event option ub" where
  "osip_new_outgoing_sipmessage sip =
     (case sip of
        None \<Rightarrow> Some None
      | Some m \<Rightarrow>
          if MSG_IS_REQUEST m \<and> (sip_method m = None \<or> req_uri m = None) then Some None
          else do {
            ty \<leftarrow> evt_set_type_outgoing_sipmessage m;
            Some (Some \<lparr>ev_type = ty, ev_transactionid = 0, ev_sip = Some m\<rparr>)
          })"

text \<open>\<open>osip_parse\<close>: \<open>parse\<close> is \<open>osip_message_parse\<close> on a message fresh from
  \<open>osip_message_init\<close> (its return code and the message it filled).\<close>

definition osip_parse :: "(string \<Rightarrow> int \<times> osip_message) \<Rightarrow> string \<Rightarrow> osip_event option ub" where
  "osip_parse parse buf =
     (let se = osip_event_new UNKNOWN_EVT 0
      in case parse buf of
           (i, m) \<Rightarrow>
             if i \<noteq> 0 then Some None
             else if MSG_IS_REQUEST m \<and> (sip_method m = None \<or> req_uri m = None) then Some None
             else do {
               ty \<leftarrow> evt_set_type_incoming_sipmessage m;
               Some (Some (se\<lparr>ev_sip := Some m, ev_type := ty\<rparr>))
             })"

section \<open>Properties\<close>

text \<open>The type an event of a message must have: \<open>rcv\<close> for incoming, \<open>\<not> rcv\<close> for outgoing.\<close>

fun msg_class :: "bool \<Rightarrow> osip_message \<Rightarrow> type_t" where
  "msg_class True m =
     (if status_code m = 0 then
        (if sip_method m = Some ''INVITE'' then RCV_REQINVITE
         else if sip_method m = Some ''ACK'' then RCV_REQACK else RCV_REQUEST)
      else if 100 \<le> status_code m \<and> status_code m \<le> 199 then RCV_STATUS_1XX
      else if 200 \<le> status_code m \<and> status_code m \<le> 299 then RCV_STATUS_2XX
      else RCV_STATUS_3456XX)"
| "msg_class False m =
     (if status_code m = 0 then
        (if sip_method m = Some ''INVITE'' then SND_REQINVITE
         else if sip_method m = Some ''ACK'' then SND_REQACK else SND_REQUEST)
      else if 100 \<le> status_code m \<and> status_code m \<le> 199 then SND_STATUS_1XX
      else if 200 \<le> status_code m \<and> status_code m \<le> 299 then SND_STATUS_2XX
      else SND_STATUS_3456XX)"

lemma evt_set_type_incoming_class:
  "(status_code m = 0 \<longrightarrow> sip_method m \<noteq> None) \<Longrightarrow>
   evt_set_type_incoming_sipmessage m = Some (msg_class True m)"
  by (auto simp: evt_set_type_incoming_sipmessage_def MSG_IS_REQUEST_def MSG_IS_STATUS_def)

lemma evt_set_type_outgoing_class:
  "(status_code m = 0 \<longrightarrow> sip_method m \<noteq> None) \<Longrightarrow>
   evt_set_type_outgoing_sipmessage m = Some (msg_class False m)"
  by (auto simp: evt_set_type_outgoing_sipmessage_def MSG_IS_REQUEST_def MSG_IS_STATUS_def)

lemma msg_class_incoming:
  "ev_type e = msg_class True m \<Longrightarrow> EVT_IS_INCOMINGMSG e"
  "ev_type e = msg_class True m \<Longrightarrow> EVT_IS_INCOMINGREQ e \<longleftrightarrow> status_code m = 0"
  "ev_type e = msg_class True m \<Longrightarrow> EVT_IS_INCOMINGRESP e \<longleftrightarrow> status_code m \<noteq> 0"
  by (auto simp: EVT_IS_INCOMINGMSG_def EVT_IS_INCOMINGREQ_def EVT_IS_INCOMINGRESP_def less_eq_type_t_def)

lemma EVT_IS_MSG_iff: "EVT_IS_MSG e \<longleftrightarrow> EVT_IS_INCOMINGMSG e \<or> EVT_IS_OUTGOINGMSG e"
  by (cases "ev_type e") (simp_all add: EVT_IS_MSG_def EVT_IS_INCOMINGMSG_def EVT_IS_OUTGOINGMSG_def less_eq_type_t_def)

end
