(* ===== verification/Osip_Time.thy ===== *)
theory Osip_Time
  imports Osip_Prelude
begin

text \<open>
  Absolute times and delays: \<open>src/osip2/osip_time.c\<close> and the macros of
  \<open>include/osip2/osip_time.h\<close>.  The clock itself (\<open>osip_gettimeofday\<close>) is a parameter of the
  functions that read it.
\<close>

record timeval =
  tv_sec :: int
  tv_usec :: int

definition osip_timercmp_gt :: "timeval \<Rightarrow> timeval \<Rightarrow> bool" where
  \<comment> \<open>\<open>osip_timercmp (a, b, >)\<close>\<close>
  "osip_timercmp_gt a b =
     (if tv_sec a = tv_sec b then tv_usec a > tv_usec b else tv_sec a > tv_sec b)"

definition add_gettimeofday :: "timeval \<Rightarrow> int \<Rightarrow> timeval" where
  "add_gettimeofday atv ms =
     (let (atv1, m) =
            (if ms \<ge> 1000000 then (atv\<lparr>tv_usec := 0\<rparr>, c_div ms 1000)
             else (let u = tv_usec atv + ms * 1000
                   in (atv\<lparr>tv_usec := c_mod u 1000000\<rparr>, c_div u 1000000)))
      in atv1\<lparr>tv_sec := tv_sec atv1 + m\<rparr>)"

definition min_timercmp :: "timeval \<Rightarrow> timeval \<Rightarrow> timeval" where
  "min_timercmp tv1 tv2 =
     (if tv_sec tv2 = -1 then tv1
      else if osip_timercmp_gt tv1 tv2 then tv1\<lparr>tv_sec := tv_sec tv2, tv_usec := tv_usec tv2\<rparr>
      else tv1)"

text \<open>\<open>osip_getsystemtime\<close>: the seconds of the clock (\<open>now\<close> is its reading).\<close>

definition osip_getsystemtime :: "timeval \<Rightarrow> int" where
  "osip_getsystemtime now = tv_sec now"

section \<open>Microseconds\<close>

definition tv_us :: "timeval \<Rightarrow> int" where
  "tv_us tv = tv_sec tv * 1000000 + tv_usec tv"

definition tv_norm :: "timeval \<Rightarrow> bool" where
  "tv_norm tv \<longleftrightarrow> 0 \<le> tv_usec tv \<and> tv_usec tv < 1000000"

definition tv_stopped :: "timeval \<Rightarrow> bool" where
  "tv_stopped tv \<longleftrightarrow> tv_sec tv = -1"

lemma osip_timercmp_gt_us:
  "tv_norm a \<Longrightarrow> tv_norm b \<Longrightarrow> osip_timercmp_gt a b \<longleftrightarrow> tv_us a > tv_us b"
  by (auto simp: osip_timercmp_gt_def tv_norm_def tv_us_def)

lemma osip_timercmp_gt_irrefl [simp]: "\<not> osip_timercmp_gt a a"
  by (simp add: osip_timercmp_gt_def)

lemma osip_timercmp_gt_asym: "osip_timercmp_gt a b \<Longrightarrow> \<not> osip_timercmp_gt b a"
  by (auto simp: osip_timercmp_gt_def split: if_splits)

lemma osip_timercmp_gt_le_trans:
  "osip_timercmp_gt a b \<Longrightarrow> \<not> osip_timercmp_gt c b \<Longrightarrow> osip_timercmp_gt a c"
  by (auto simp: osip_timercmp_gt_def split: if_splits)

lemma osip_timercmp_gt_le_trans2:
  "osip_timercmp_gt a b \<Longrightarrow> \<not> osip_timercmp_gt a c \<Longrightarrow> osip_timercmp_gt c b"
  by (auto simp: osip_timercmp_gt_def split: if_splits)

lemma add_gettimeofday_small:
  assumes "tv_norm tv" and "0 \<le> ms" and "ms < 1000000"
  shows "tv_us (add_gettimeofday tv ms) = tv_us tv + ms * 1000" "tv_norm (add_gettimeofday tv ms)"
proof -
  let ?u = "tv_usec tv + ms * 1000"
  have u: "0 \<le> ?u" using assms by (simp add: tv_norm_def)
  then have c: "c_div ?u 1000000 = ?u div 1000000" "c_mod ?u 1000000 = ?u mod 1000000"
    by (simp_all add: c_div_nonneg c_mod_nonneg)
  have e: "?u div 1000000 * 1000000 + ?u mod 1000000 = ?u" by (rule div_mult_mod_eq)
  show "tv_us (add_gettimeofday tv ms) = tv_us tv + ms * 1000"
    using assms(3) c e by (simp add: add_gettimeofday_def tv_us_def Let_def algebra_simps)
  show "tv_norm (add_gettimeofday tv ms)"
    using assms(3) c by (simp add: add_gettimeofday_def tv_norm_def Let_def)
qed

lemma add_gettimeofday_large:
  assumes "1000000 \<le> ms"
  shows "tv_us (add_gettimeofday tv ms) = (tv_sec tv + ms div 1000) * 1000000"
    "tv_norm (add_gettimeofday tv ms)"
  using assms by (simp_all add: add_gettimeofday_def tv_us_def tv_norm_def Let_def c_div_nonneg)

lemma add_gettimeofday_sec:
  assumes "tv_norm tv" and "0 \<le> ms"
  shows "tv_sec tv \<le> tv_sec (add_gettimeofday tv ms)"
proof -
  have "0 \<le> tv_usec tv + ms * 1000" using assms by (simp add: tv_norm_def)
  then show ?thesis using assms(2)
    by (simp add: add_gettimeofday_def Let_def c_div_nonneg pos_imp_zdiv_nonneg_iff)
qed

lemma min_timercmp_simps:
  "min_timercmp a b = (if tv_sec b = -1 then a else if osip_timercmp_gt a b then b else a)"
  by (simp add: min_timercmp_def)

text \<open>\<open>add_gettimeofday\<close> adds a delay of less than 1000 seconds exactly and leaves a normal time;
  for a longer delay the result is the whole seconds of the time plus those of the delay, the
  fraction of a second being dropped.\<close>

theorem add_gettimeofday_value:
  assumes "tv_norm tv" "0 \<le> ms"
  shows "tv_norm (add_gettimeofday tv ms)
    \<and> tv_us (add_gettimeofday tv ms) =
        (if ms < 1000000 then tv_us tv + ms * 1000 else (tv_sec tv + ms div 1000) * 1000000)"
  using add_gettimeofday_small [OF assms] add_gettimeofday_large [of ms tv] by (cases "ms < 1000000") simp_all

theorem add_gettimeofday_value_witness:
  "tv_us (add_gettimeofday \<lparr>tv_sec = 5, tv_usec = 700000\<rparr> 500) = 6200000
   \<and> tv_us (add_gettimeofday \<lparr>tv_sec = 5, tv_usec = 700000\<rparr> 1000000) = 1005000000"
  using add_gettimeofday_value [of "\<lparr>tv_sec = 5, tv_usec = 700000\<rparr>" 500]
    add_gettimeofday_value [of "\<lparr>tv_sec = 5, tv_usec = 700000\<rparr>" 1000000]
  by (simp add: tv_norm_def tv_us_def)

end
