(* ===== verification/Osip_Fifo.thy ===== *)
theory Osip_Fifo
  imports Osip_List
begin

text \<open>
  The event queue of a transaction: \<open>src/osip2/port_fifo.c\<close>, in its multi-threaded build.  The
  semaphore \<open>qisempty\<close> is its count and the mutex \<open>qislocked\<close> protects the list and the state
  flag.  A producer changes the list and posts the semaphore while it holds the mutex; a consumer
  takes the semaphore first and the mutex afterwards, so that other threads run in between.
  The functions of the first section are the parts between these synchronisation operations and
  the calls composed of them, as a thread runs them that is not interrupted; the last section
  interleaves the parts of the calls of any number of threads.
\<close>

datatype osip_fifo_state = osip_ok | osip_empty

record 'a osip_fifo =
  qisempty :: int
  queue :: "'a osip_list"
  fifo_state :: osip_fifo_state

definition osip_fifo_init :: "'a osip_fifo" where
  "osip_fifo_init =
     \<lparr>qisempty = 0, queue = the (snd (osip_list_init (Some \<lparr>nb_elt = 0, node = []\<rparr>))),
      fifo_state = osip_empty\<rparr>"

text \<open>What \<open>osip_fifo_add\<close> and \<open>osip_fifo_insert\<close> do between the lock of the mutex and the post of
  the semaphore, at the position \<open>pos\<close> of the list, and the post.\<close>

definition fifo_link :: "int \<Rightarrow> 'a \<Rightarrow> 'a osip_fifo \<Rightarrow> 'a osip_fifo ub" where
  "fifo_link pos el ff = do {
     (r, q) \<leftarrow> osip_list_add True (Some (queue ff)) el pos;
     q' \<leftarrow> deref q;
     Some (ff\<lparr>queue := q', fifo_state := osip_ok\<rparr>)
   }"

definition osip_sem_post :: "'a osip_fifo \<Rightarrow> 'a osip_fifo" where
  "osip_sem_post ff = ff\<lparr>qisempty := qisempty ff + 1\<rparr>"

definition osip_fifo_add :: "'a osip_fifo \<Rightarrow> 'a \<Rightarrow> (int \<times> 'a osip_fifo) ub" where
  "osip_fifo_add ff el = do { ff' \<leftarrow> fifo_link (-1) el ff; Some (OSIP_SUCCESS, osip_sem_post ff') }"

definition osip_fifo_insert :: "'a osip_fifo \<Rightarrow> 'a \<Rightarrow> (int \<times> 'a osip_fifo) ub" where
  "osip_fifo_insert ff el = do { ff' \<leftarrow> fifo_link 0 el ff; Some (OSIP_SUCCESS, osip_sem_post ff') }"

definition osip_fifo_size :: "'a osip_fifo \<Rightarrow> int" where
  "osip_fifo_size ff = osip_list_size (Some (queue ff))"

text \<open>The critical section that \<open>osip_fifo_get\<close> and \<open>osip_fifo_tryget\<close> share.\<close>

definition fifo_take :: "'a osip_fifo \<Rightarrow> ('a option \<times> 'a osip_fifo) ub" where
  "fifo_take ff =
     (if fifo_state ff \<noteq> osip_empty then do {
        el \<leftarrow> osip_list_get (Some (queue ff)) 0;
        (r, q) \<leftarrow> osip_list_remove (Some (queue ff)) 0;
        q' \<leftarrow> deref q;
        Some (el, ff\<lparr>queue := q',
                     fifo_state := (if osip_list_size (Some q') \<le> 0 then osip_empty else osip_ok)\<rparr>)
      }
      else Some (None, ff))"

text \<open>\<open>osip_sem_trywait\<close>: \<open>None\<close> is a count of zero, on which \<open>osip_fifo_tryget\<close> gives up and
  \<open>osip_fifo_get\<close> waits.\<close>

definition osip_sem_trywait :: "'a osip_fifo \<Rightarrow> 'a osip_fifo option" where
  "osip_sem_trywait ff = (if qisempty ff > 0 then Some (ff\<lparr>qisempty := qisempty ff - 1\<rparr>) else None)"

datatype 'r blocking = Blocks | Returns 'r

text \<open>\<open>i\<close> is the result of \<open>osip_sem_wait\<close>; one that fails, as a wait that a signal interrupts, has
  not taken the semaphore.\<close>

definition osip_fifo_get :: "int \<Rightarrow> 'a osip_fifo \<Rightarrow> ('a option \<times> 'a osip_fifo) blocking ub" where
  "osip_fifo_get i ff =
     (if i \<noteq> 0 then Some (Returns (None, ff))
      else case osip_sem_trywait ff of
        None \<Rightarrow> Some Blocks
      | Some ff' \<Rightarrow> do { r \<leftarrow> fifo_take ff'; Some (Returns r) })"

definition osip_fifo_tryget :: "'a osip_fifo \<Rightarrow> ('a option \<times> 'a osip_fifo) ub" where
  "osip_fifo_tryget ff =
     (case osip_sem_trywait ff of None \<Rightarrow> Some (None, ff) | Some ff' \<Rightarrow> fifo_take ff')"

section \<open>Invariant\<close>

definition fifo_elems :: "'a osip_fifo \<Rightarrow> 'a list" where
  "fifo_elems ff = list_abs (queue ff)"

text \<open>The part of the invariant that the mutex protects, and the invariant of a queue no call is
  working on, where the count of the semaphore is the number of elements.\<close>

definition list_ok :: "'a osip_fifo \<Rightarrow> bool" where
  "list_ok ff \<longleftrightarrow> list_inv (queue ff) \<and> (fifo_state ff = osip_empty \<longleftrightarrow> fifo_elems ff = [])"

definition fifo_inv :: "'a osip_fifo \<Rightarrow> bool" where
  "fifo_inv ff \<longleftrightarrow> list_ok ff \<and> qisempty ff = int (length (fifo_elems ff))"

lemma osip_fifo_init_eq: "osip_fifo_init = \<lparr>qisempty = 0, queue = of_elems [], fifo_state = osip_empty\<rparr>"
  by (simp add: osip_fifo_init_def osip_list_init_def of_elems_def)

lemma fifo_inv_init [simp]: "fifo_inv osip_fifo_init" "fifo_elems osip_fifo_init = []"
  by (simp_all add: fifo_inv_def list_ok_def fifo_elems_def osip_fifo_init_eq)

lemma qisempty_update [simp]:
  "list_ok (ff\<lparr>qisempty := n\<rparr>) = list_ok ff" "fifo_elems (ff\<lparr>qisempty := n\<rparr>) = fifo_elems ff"
  by (simp_all add: list_ok_def fifo_elems_def)

lemma sem_post_simps [simp]:
  "list_ok (osip_sem_post ff) = list_ok ff" "fifo_elems (osip_sem_post ff) = fifo_elems ff"
  "qisempty (osip_sem_post ff) = qisempty ff + 1"
  by (simp_all add: osip_sem_post_def)

text \<open>The three critical sections on the list.\<close>

lemma fifo_link_last:
  assumes "list_ok ff"
  obtains ff' where "fifo_link (-1) x ff = Some ff'" "list_ok ff'"
    "fifo_elems ff' = fifo_elems ff @ [x]" "qisempty ff' = qisempty ff"
proof -
  from assms have "list_inv (queue ff)" by (simp add: list_ok_def)
  then obtain q where q: "osip_list_add True (Some (queue ff)) x (-1) =
      Some (osip_list_size (Some (queue ff)) + 1, Some q)" "list_inv q"
      "list_abs q = list_abs (queue ff) @ [x]"
    by (rule olist.add_last)
  with that show thesis by (simp add: fifo_link_def list_ok_def fifo_elems_def)
qed

lemma fifo_link_first:
  assumes "list_ok ff"
  obtains ff' where "fifo_link 0 x ff = Some ff'" "list_ok ff'"
    "fifo_elems ff' = x # fifo_elems ff" "qisempty ff' = qisempty ff"
proof -
  from assms have "list_inv (queue ff)" by (simp add: list_ok_def)
  then obtain q where q: "osip_list_add True (Some (queue ff)) x 0 =
      Some (osip_list_size (Some (queue ff)) + 1, Some q)" "list_inv q"
      "list_abs q = x # list_abs (queue ff)"
    by (rule olist.add_first)
  with that show thesis by (simp add: fifo_link_def list_ok_def fifo_elems_def)
qed

lemma fifo_link_ok:
  assumes "list_ok ff"
  obtains ff' where "fifo_link (if front then 0 else -1) x ff = Some ff'" "list_ok ff'"
    "fifo_elems ff' = (if front then x # fifo_elems ff else fifo_elems ff @ [x])"
    "qisempty ff' = qisempty ff"
proof (cases front)
  case True
  with that show thesis by (auto intro: fifo_link_first [OF assms, of x])
next
  case False
  with that show thesis by (auto intro: fifo_link_last [OF assms, of x])
qed

lemma fifo_take_Cons:
  assumes "list_ok ff" and "fifo_elems ff = x # xs"
  obtains ff' where "fifo_take ff = Some (Some x, ff')" "list_ok ff'" "fifo_elems ff' = xs"
    "qisempty ff' = qisempty ff"
proof -
  from assms have inv: "list_inv (queue ff)" and e: "list_abs (queue ff) = x # xs"
    and s: "fifo_state ff \<noteq> osip_empty"
    by (simp_all add: list_ok_def fifo_elems_def)
  obtain q where q: "osip_list_get (Some (queue ff)) 0 = Some (Some x)"
      "osip_list_remove (Some (queue ff)) 0 = Some (osip_list_size (Some (queue ff)) - 1, Some q)"
      "list_inv q" "list_abs q = xs"
    using olist.take_first [OF inv e] .
  have sz: "osip_list_size (Some q) = int (length xs)"
    using olist.size_law [OF q(3)] q(4) by simp
  show thesis
    by (rule that [of "ff\<lparr>queue := q, fifo_state := (if xs = [] then osip_empty else osip_ok)\<rparr>"])
      (use q s sz in \<open>simp_all add: fifo_take_def list_ok_def fifo_elems_def\<close>)
qed

text \<open>The calls of a thread that is not interrupted.\<close>

lemma osip_fifo_add_inv:
  assumes "fifo_inv ff"
  obtains ff' where "osip_fifo_add ff x = Some (OSIP_SUCCESS, ff')" "fifo_inv ff'"
    "fifo_elems ff' = fifo_elems ff @ [x]"
proof -
  obtain f where "fifo_link (-1) x ff = Some f" "list_ok f" "fifo_elems f = fifo_elems ff @ [x]"
      "qisempty f = qisempty ff"
    using fifo_link_last assms by (metis fifo_inv_def)
  with assms that show thesis by (simp add: osip_fifo_add_def fifo_inv_def)
qed

lemma osip_fifo_insert_inv:
  assumes "fifo_inv ff"
  obtains ff' where "osip_fifo_insert ff x = Some (OSIP_SUCCESS, ff')" "fifo_inv ff'"
    "fifo_elems ff' = x # fifo_elems ff"
proof -
  obtain f where "fifo_link 0 x ff = Some f" "list_ok f" "fifo_elems f = x # fifo_elems ff"
      "qisempty f = qisempty ff"
    using fifo_link_first assms by (metis fifo_inv_def)
  with assms that show thesis by (simp add: osip_fifo_insert_def fifo_inv_def)
qed

lemma osip_fifo_tryget_empty:
  "fifo_inv ff \<Longrightarrow> fifo_elems ff = [] \<Longrightarrow> osip_fifo_tryget ff = Some (None, ff)"
  by (simp add: osip_fifo_tryget_def osip_sem_trywait_def fifo_inv_def)

lemma osip_fifo_tryget_Cons:
  assumes "fifo_inv ff" and "fifo_elems ff = x # xs"
  obtains ff' where "osip_fifo_tryget ff = Some (Some x, ff')" "fifo_inv ff'" "fifo_elems ff' = xs"
proof -
  let ?f = "ff\<lparr>qisempty := qisempty ff - 1\<rparr>"
  have "list_ok ?f" "fifo_elems ?f = x # xs" using assms by (simp_all add: fifo_inv_def)
  then obtain f where "fifo_take ?f = Some (Some x, f)" "list_ok f" "fifo_elems f = xs"
      "qisempty f = qisempty ?f"
    by (rule fifo_take_Cons)
  with assms that show thesis
    by (simp add: osip_fifo_tryget_def osip_sem_trywait_def fifo_inv_def)
qed

lemma osip_fifo_size_inv: "fifo_inv ff \<Longrightarrow> osip_fifo_size ff = int (length (fifo_elems ff))"
  using olist.size_law by (auto simp: osip_fifo_size_def fifo_inv_def list_ok_def fifo_elems_def)

section \<open>The queue contract\<close>

locale event_queue =
  fixes empty :: 'q
    and enq :: "'q \<Rightarrow> 'a \<Rightarrow> (int \<times> 'q) ub"
    and tryget :: "'q \<Rightarrow> ('a option \<times> 'q) ub"
    and invar :: "'q \<Rightarrow> bool"
    and elems :: "'q \<Rightarrow> 'a list"
  assumes invar_empty: "invar empty" and elems_empty: "elems empty = []"
    and enq_law: "invar q \<Longrightarrow>
      \<exists>q'. enq q x = Some (OSIP_SUCCESS, q') \<and> invar q' \<and> elems q' = elems q @ [x]"
    and tryget_nil: "invar q \<Longrightarrow> elems q = [] \<Longrightarrow> tryget q = Some (None, q)"
    and tryget_cons: "invar q \<Longrightarrow> elems q = x # xs \<Longrightarrow>
      \<exists>q'. tryget q = Some (Some x, q') \<and> invar q' \<and> elems q' = xs"
begin

text \<open>An element comes out after exactly the elements that were queued before it.\<close>

lemma enq_then_tryget:
  assumes "invar q"
  shows "\<exists>q1 q2. enq q x = Some (OSIP_SUCCESS, q1)
    \<and> tryget q1 = Some (Some (hd (elems q @ [x])), q2) \<and> invar q2 \<and> elems q2 = tl (elems q @ [x])"
proof -
  obtain q1 where q1: "enq q x = Some (OSIP_SUCCESS, q1)" "invar q1" "elems q1 = elems q @ [x]"
    using enq_law [OF assms] by blast
  then obtain y ys where y: "elems q1 = y # ys" by (metis list.exhaust snoc_eq_iff_butlast)
  with q1(3) have "elems q @ [x] = y # ys" by simp
  then have "hd (elems q @ [x]) = y" "tl (elems q @ [x]) = ys" by (simp_all only: list.sel)
  with tryget_cons [OF q1(2) y] q1(1) show ?thesis by auto
qed

lemma tryget_not_ub: "invar q \<Longrightarrow> tryget q \<noteq> None"
  using tryget_nil [of q] tryget_cons [of q] by (cases "elems q") auto

lemma tryget_result:
  assumes "invar q" and "tryget q = Some (r, q')"
  shows "invar q' \<and> elems q = (case r of None \<Rightarrow> [] | Some x \<Rightarrow> [x]) @ elems q'"
  using assms tryget_nil [of q] tryget_cons [of q] by (cases "elems q") auto

end

interpretation ff: event_queue osip_fifo_init osip_fifo_add osip_fifo_tryget fifo_inv fifo_elems
proof (unfold_locales, goal_cases)
  case (3 q x)
  then show ?case using osip_fifo_add_inv [OF 3] by blast
next
  case (5 q x xs)
  then show ?case using osip_fifo_tryget_Cons by metis
qed (simp_all add: osip_fifo_tryget_empty)

section \<open>Interleavings of producers and consumers\<close>

text \<open>Where a thread is in its call.  Nothing but the holder of the mutex reads or writes the list
  and the flag, so that a lock and the part of the call that works on the list are one step; the
  operations of the semaphore and the unlock are steps of their own.\<close>

datatype 'a fifo_call = Add 'a | Insert 'a | Tryget | Get int

datatype 'a fifo_pc =
    Idle
  | Locking bool 'a   \<comment> \<open>before the lock of \<open>osip_fifo_add\<close> or, with \<open>True\<close>, \<open>osip_fifo_insert\<close>\<close>
  | Posting           \<comment> \<open>before the post, with the mutex\<close>
  | Waiting int       \<comment> \<open>before \<open>osip_sem_wait\<close>\<close>
  | Trying            \<comment> \<open>before \<open>osip_sem_trywait\<close>\<close>
  | Claimed           \<comment> \<open>after it, before the lock of \<open>osip_fifo_get\<close> and \<open>osip_fifo_tryget\<close>\<close>
  | Unlocking         \<comment> \<open>before the unlock, with the mutex\<close>

datatype 'a fifo_event = Linked bool 'a | Posted | Claimed_one | Took "'a option" | Missed | Interrupted

record 'a fifo_sys =
  shared :: "'a osip_fifo"
  qislocked :: bool
  threads :: "'a fifo_pc list"

text \<open>One step of thread \<open>t\<close>; \<open>c\<close> is the call it makes when it is idle.  A thread that has to wait
  for the mutex or for the semaphore stays where it is.\<close>

definition goto :: "nat \<Rightarrow> 'a fifo_pc \<Rightarrow> 'a fifo_sys \<Rightarrow> 'a fifo_sys" where
  "goto t pc s = s\<lparr>threads := (threads s)[t := pc]\<rparr>"

fun thread_step ::
  "nat \<Rightarrow> 'a fifo_call \<Rightarrow> 'a fifo_pc \<Rightarrow> 'a fifo_sys \<Rightarrow> ('a fifo_event list \<times> 'a fifo_sys) ub" where
  "thread_step t c Idle s = Some ([], goto t
     (case c of Add x \<Rightarrow> Locking False x | Insert x \<Rightarrow> Locking True x | Tryget \<Rightarrow> Trying | Get i \<Rightarrow> Waiting i) s)"
| "thread_step t c (Locking front x) s =
     (if qislocked s then Some ([], s)
      else do {
        ff \<leftarrow> fifo_link (if front then 0 else -1) x (shared s);
        Some ([Linked front x], goto t Posting (s\<lparr>shared := ff, qislocked := True\<rparr>))
      })"
| "thread_step t c Posting s = Some ([Posted], goto t Unlocking (s\<lparr>shared := osip_sem_post (shared s)\<rparr>))"
| "thread_step t c (Waiting i) s =
     (if i \<noteq> 0 then Some ([Interrupted], goto t Idle s)
      else case osip_sem_trywait (shared s) of
        None \<Rightarrow> Some ([], s)
      | Some ff \<Rightarrow> Some ([Claimed_one], goto t Claimed (s\<lparr>shared := ff\<rparr>)))"
| "thread_step t c Trying s =
     (case osip_sem_trywait (shared s) of
        None \<Rightarrow> Some ([Missed], goto t Idle s)
      | Some ff \<Rightarrow> Some ([Claimed_one], goto t Claimed (s\<lparr>shared := ff\<rparr>)))"
| "thread_step t c Claimed s =
     (if qislocked s then Some ([], s)
      else do {
        (el, ff) \<leftarrow> fifo_take (shared s);
        Some ([Took el], goto t Unlocking (s\<lparr>shared := ff, qislocked := True\<rparr>))
      })"
| "thread_step t c Unlocking s = Some ([], goto t Idle (s\<lparr>qislocked := False\<rparr>))"

text \<open>A schedule names the threads in the order in which they move.\<close>

fun fifo_run :: "(nat \<times> 'a fifo_call) list \<Rightarrow> 'a fifo_sys \<Rightarrow> ('a fifo_event list \<times> 'a fifo_sys) ub" where
  "fifo_run [] s = Some ([], s)"
| "fifo_run ((t, c) # sched) s =
     (if t < length (threads s) then do {
        (e, s1) \<leftarrow> thread_step t c (threads s ! t) s;
        (es, s2) \<leftarrow> fifo_run sched s1;
        Some (e @ es, s2)
      }
      else fifo_run sched s)"

text \<open>The specification: a plain list, in which the first \<open>n\<close> elements nobody has claimed yet are
  free.  \<open>None\<close> is an event the list does not allow.\<close>

fun spec_event :: "'a list \<times> nat \<Rightarrow> 'a fifo_event \<Rightarrow> ('a list \<times> nat) option" where
  "spec_event (xs, n) (Linked front x) = Some (if front then x # xs else xs @ [x], n)"
| "spec_event (xs, n) Posted = Some (xs, Suc n)"
| "spec_event (xs, n) Claimed_one = (if n = 0 then None else Some (xs, n - 1))"
| "spec_event (xs, n) (Took r) =
     (case xs of [] \<Rightarrow> None | x # ys \<Rightarrow> if r = Some x then Some (ys, n) else None)"
| "spec_event (xs, n) Missed = (if n = 0 then Some (xs, n) else None)"
| "spec_event (xs, n) Interrupted = Some (xs, n)"

fun spec_events :: "'a list \<times> nat \<Rightarrow> 'a fifo_event list \<Rightarrow> ('a list \<times> nat) option" where
  "spec_events q [] = Some q"
| "spec_events q (e # es) = do { q' \<leftarrow> spec_event q e; spec_events q' es }"

lemma spec_events_append: "spec_events q (es @ es') = Option.bind (spec_events q es) (\<lambda>q'. spec_events q' es')"
  by (induction q es rule: spec_events.induct) (auto split: Option.bind_splits)

text \<open>The invariant of the threads: the mutex has one holder, which is posting or unlocking, and the
  elements of the list are those the semaphore counts, those a consumer has claimed and the one a
  producer has not posted yet.\<close>

definition sys_elems :: "'a fifo_sys \<Rightarrow> 'a list" where
  "sys_elems s = fifo_elems (shared s)"

definition unclaimed :: "'a fifo_sys \<Rightarrow> nat" where
  "unclaimed s = nat (qisempty (shared s))"

definition threads_at :: "'a fifo_pc \<Rightarrow> 'a fifo_sys \<Rightarrow> nat" where
  "threads_at pc s = count (mset (threads s)) pc"

definition fifo_sys_inv :: "'a fifo_sys \<Rightarrow> bool" where
  "fifo_sys_inv s \<longleftrightarrow> list_ok (shared s) \<and> qisempty (shared s) \<ge> 0
     \<and> threads_at Posting s + threads_at Unlocking s = (if qislocked s then 1 else 0)
     \<and> length (sys_elems s) = unclaimed s + threads_at Claimed s + threads_at Posting s"

lemma at_goto:
  assumes "t < length (threads s)"
  shows "threads_at pc (goto t pc' s) + (if threads s ! t = pc then 1 else 0) =
    threads_at pc s + (if pc' = pc then 1 else 0)"
proof -
  have "threads s ! t \<in># mset (threads s)" using assms by simp
  then have "count (mset (threads s)) (threads s ! t) > 0" by (simp only: count_greater_zero_iff)
  then show ?thesis
    using assms by (auto simp: threads_at_def goto_def mset_update)
qed

lemma goto_simps [simp]:
  "shared (goto t pc s) = shared s" "qislocked (goto t pc s) = qislocked s"
  "sys_elems (goto t pc s) = sys_elems s" "unclaimed (goto t pc s) = unclaimed s"
  "length (threads (goto t pc s)) = length (threads s)"
  by (simp_all add: goto_def sys_elems_def unclaimed_def)

lemma at_shared [simp]: "threads_at pc (s\<lparr>shared := ff\<rparr>) = threads_at pc s" "threads_at pc (s\<lparr>qislocked := b\<rparr>) = threads_at pc s"
  by (simp_all add: threads_at_def)

lemma at_pos: "t < length (threads s) \<Longrightarrow> threads s ! t = pc \<Longrightarrow> threads_at pc s > 0"
  unfolding threads_at_def by (simp only: count_greater_zero_iff) auto

text \<open>A thread moves to \<open>pc\<close> and leaves the queue \<open>ff\<close> and the mutex \<open>b\<close>: the counts before and
  after it.\<close>

lemma moved_inv:
  fixes s :: "'a fifo_sys"
  assumes "t < length (threads s)"
  defines "at_pc p \<equiv> (if threads s ! t = p then 1 else (0::nat))"
  assumes "list_ok ff" "qisempty ff \<ge> 0"
    and "threads_at Posting s + threads_at Unlocking s + (if pc = Posting \<or> pc = Unlocking then 1 else 0) =
      (if b then 1 else 0) + at_pc Posting + at_pc Unlocking"
    and "length (fifo_elems ff) + at_pc Claimed + at_pc Posting =
      nat (qisempty ff) + threads_at Claimed s + threads_at Posting s + (if pc = Claimed \<or> pc = Posting then 1 else 0)"
  shows "fifo_sys_inv (goto t pc (s\<lparr>shared := ff, qislocked := b\<rparr>))"
proof -
  let ?s = "s\<lparr>shared := ff, qislocked := b\<rparr>"
  have "threads_at p (goto t pc ?s) + at_pc p = threads_at p s + (if pc = p then 1 else 0)" for p
    using at_goto [of t ?s p pc] assms(1) by (simp add: at_pc_def)
  from this [of Posting] this [of Unlocking] this [of Claimed] assms(3-) show ?thesis
    by (auto simp: fifo_sys_inv_def sys_elems_def unclaimed_def split: if_splits)
qed

lemma claim_ok:
  assumes inv: "fifo_sys_inv s" and t: "t < length (threads s)"
    and pc: "threads s ! t \<noteq> Posting" "threads s ! t \<noteq> Unlocking" "threads s ! t \<noteq> Claimed"
    and ff: "osip_sem_trywait (shared s) = Some ff"
  shows "fifo_sys_inv (goto t Claimed (s\<lparr>shared := ff\<rparr>))" and "fifo_elems ff = sys_elems s"
    and "unclaimed s = Suc (nat (qisempty ff))"
proof -
  show e: "fifo_elems ff = sys_elems s" "unclaimed s = Suc (nat (qisempty ff))"
    using ff by (auto simp: osip_sem_trywait_def sys_elems_def unclaimed_def split: if_splits)
  have "fifo_sys_inv (goto t Claimed (s\<lparr>shared := ff, qislocked := qislocked s\<rparr>))"
    by (rule moved_inv [OF t]) (use inv pc ff e in \<open>auto simp: fifo_sys_inv_def osip_sem_trywait_def split: if_splits\<close>)
  then show "fifo_sys_inv (goto t Claimed (s\<lparr>shared := ff\<rparr>))" by simp
qed

lemma thread_step_ok:
  assumes inv: "fifo_sys_inv s" and t: "t < length (threads s)"
  shows "\<exists>es s'. thread_step t c (threads s ! t) s = Some (es, s') \<and> fifo_sys_inv s'
    \<and> length (threads s') = length (threads s)
    \<and> spec_events (sys_elems s, unclaimed s) es = Some (sys_elems s', unclaimed s')"
proof -
  have same: "fifo_sys_inv (goto t pc s)" if "pc \<noteq> Posting" "pc \<noteq> Unlocking" "pc \<noteq> Claimed"
    "threads s ! t \<noteq> Posting" "threads s ! t \<noteq> Unlocking" "threads s ! t \<noteq> Claimed" for pc
    using moved_inv [OF t, of "shared s" pc "qislocked s"] inv that
    by (simp add: fifo_sys_inv_def sys_elems_def unclaimed_def)
  have ok: "list_ok (shared s)" "qisempty (shared s) \<ge> 0" using inv by (simp_all add: fifo_sys_inv_def)
  show ?thesis
  proof (cases "threads s ! t")
    case Idle
    then show ?thesis by (cases c) (simp_all add: same)
  next
    case (Locking front x)
    obtain f where f: "fifo_link (if front then 0 else -1) x (shared s) = Some f" "list_ok f"
        "fifo_elems f = (if front then x # fifo_elems (shared s) else fifo_elems (shared s) @ [x])"
        "qisempty f = qisempty (shared s)"
      using fifo_link_ok [OF ok(1)] .
    have "fifo_sys_inv (goto t Posting (s\<lparr>shared := f, qislocked := True\<rparr>))" if "\<not> qislocked s"
      by (rule moved_inv [OF t]) (use inv f ok that Locking in \<open>auto simp: fifo_sys_inv_def sys_elems_def unclaimed_def\<close>)
    with inv f Locking show ?thesis by (auto simp: sys_elems_def unclaimed_def)
  next
    case Posting
    have "fifo_sys_inv (goto t Unlocking (s\<lparr>shared := osip_sem_post (shared s), qislocked := qislocked s\<rparr>))"
      by (rule moved_inv [OF t]) (use inv ok Posting in \<open>auto simp: fifo_sys_inv_def sys_elems_def unclaimed_def\<close>)
    with Posting ok show ?thesis by (simp add: sys_elems_def unclaimed_def)
  next
    case (Waiting i)
    with inv claim_ok [OF inv t] same show ?thesis
      by (cases "osip_sem_trywait (shared s)") (auto simp: sys_elems_def unclaimed_def)
  next
    case Trying
    with ok claim_ok [OF inv t] same show ?thesis
      by (cases "osip_sem_trywait (shared s)")
        (auto simp: sys_elems_def unclaimed_def osip_sem_trywait_def split: if_splits)
  next
    case Claimed
    show ?thesis
    proof (cases "qislocked s")
      case False
      have "threads_at Claimed s > 0" using at_pos [OF t Claimed] .
      with inv obtain x xs where x: "fifo_elems (shared s) = x # xs"
        by (cases "sys_elems s") (auto simp: fifo_sys_inv_def sys_elems_def)
      obtain f where f: "fifo_take (shared s) = Some (Some x, f)" "list_ok f" "fifo_elems f = xs"
          "qisempty f = qisempty (shared s)"
        using fifo_take_Cons [OF ok(1) x] .
      have "fifo_sys_inv (goto t Unlocking (s\<lparr>shared := f, qislocked := True\<rparr>))"
        by (rule moved_inv [OF t]) (use inv f x ok Claimed False in \<open>auto simp: fifo_sys_inv_def sys_elems_def unclaimed_def\<close>)
      with Claimed False f x show ?thesis by (simp add: sys_elems_def unclaimed_def)
    qed (use Claimed inv in simp)
  next
    case Unlocking
    have "threads_at Unlocking s > 0" using at_pos [OF t Unlocking] .
    then have "fifo_sys_inv (goto t Idle (s\<lparr>shared := shared s, qislocked := False\<rparr>))"
      by (intro moved_inv [OF t]) (use inv ok Unlocking in \<open>auto simp: fifo_sys_inv_def sys_elems_def unclaimed_def split: if_splits\<close>)
    with Unlocking show ?thesis by (simp add: sys_elems_def unclaimed_def)
  qed
qed

text \<open>A thread that is not interrupted makes the whole call of the first section in four steps.\<close>

lemma replicate_4: "replicate 4 x = [x, x, x, x]"
  by (simp add: eval_nat_numeral)

lemma calls_alone:
  assumes t: "t < length (threads s)" "threads s ! t = Idle" and free: "\<not> qislocked s"
  shows "osip_fifo_add (shared s) x = Some (r, ff) \<Longrightarrow>
      \<exists>es. fifo_run (replicate 4 (t, Add x)) s = Some (es, s\<lparr>shared := ff\<rparr>)"
    and "osip_fifo_insert (shared s) x = Some (r, ff) \<Longrightarrow>
      \<exists>es. fifo_run (replicate 4 (t, Insert x)) s = Some (es, s\<lparr>shared := ff\<rparr>)"
    and "osip_fifo_tryget (shared s) = Some (Some x, ff) \<Longrightarrow>
      fifo_run (replicate 4 (t, Tryget)) s = Some ([Claimed_one, Took (Some x)], s\<lparr>shared := ff\<rparr>)"
    and "osip_fifo_get 0 (shared s) = Some (Returns (Some x, ff)) \<Longrightarrow>
      fifo_run (replicate 4 (t, Get 0)) s = Some ([Claimed_one, Took (Some x)], s\<lparr>shared := ff\<rparr>)"
proof -
  have stay: "(threads s)[t := Idle] = threads s" using t(2) by (metis list_update_id)
  have back_at: "s\<lparr>shared := f, qislocked := False, threads := threads s\<rparr> = s\<lparr>shared := f\<rparr>" for f
    using free by (cases s) simp
  note steps = replicate_4 goto_def stay back_at
  show "\<exists>es. fifo_run (replicate 4 (t, Add x)) s = Some (es, s\<lparr>shared := ff\<rparr>)"
    if "osip_fifo_add (shared s) x = Some (r, ff)"
    using t free that by (auto simp: steps osip_fifo_add_def split: Option.bind_splits)
  show "\<exists>es. fifo_run (replicate 4 (t, Insert x)) s = Some (es, s\<lparr>shared := ff\<rparr>)"
    if "osip_fifo_insert (shared s) x = Some (r, ff)"
    using t free that by (auto simp: steps osip_fifo_insert_def split: Option.bind_splits)
  have take: "fifo_run (replicate 4 (t, c)) s = Some ([Claimed_one, Took (Some x)], s\<lparr>shared := ff\<rparr>)"
    if "osip_sem_trywait (shared s) = Some f" "fifo_take f = Some (Some x, ff)" "c = Tryget \<or> c = Get 0" for c f
    using t free that by (auto simp: steps)
  show "fifo_run (replicate 4 (t, Tryget)) s = Some ([Claimed_one, Took (Some x)], s\<lparr>shared := ff\<rparr>)"
    if "osip_fifo_tryget (shared s) = Some (Some x, ff)"
    using that take by (auto simp: osip_fifo_tryget_def split: option.splits)
  show "fifo_run (replicate 4 (t, Get 0)) s = Some ([Claimed_one, Took (Some x)], s\<lparr>shared := ff\<rparr>)"
    if "osip_fifo_get 0 (shared s) = Some (Returns (Some x, ff))"
    using that take by (auto simp: osip_fifo_get_def bind_eq_Some_conv split: option.splits)
qed

lemma idle_inv: "fifo_sys_inv s \<Longrightarrow> set (threads s) \<subseteq> {Idle} \<Longrightarrow> fifo_inv (shared s)"
proof -
  assume inv: "fifo_sys_inv s" and idle: "set (threads s) \<subseteq> {Idle}"
  have "threads_at Claimed s = 0" "threads_at Posting s = 0"
    unfolding threads_at_def count_mset_0_iff using idle by auto
  with inv show "fifo_inv (shared s)" by (simp add: fifo_sys_inv_def fifo_inv_def sys_elems_def unclaimed_def)
qed

text \<open>C40. The calls \<open>osip_fifo_add\<close>, \<open>osip_fifo_insert\<close>, \<open>osip_fifo_tryget\<close> and
  \<open>osip_fifo_get\<close> of any number of threads, interleaved at the operations of semaphore and mutex in
  any order and started in a consistent state (such as that of \<open>osip_fifo_init\<close> with idle threads),
  keep the queue consistent. Nothing undefined happens, and the list undergoes what a plain list would:
  \<open>osip_fifo_add\<close> appends, \<open>osip_fifo_insert\<close> puts its element first (its comment says
  last), and a consumer that took the semaphore always gets the element at the head once it has the mutex, never
  the empty list that the source says must never happen. A consumer claims an element only when one is free, and
  \<open>osip_fifo_tryget\<close> gives up only when all elements of the list are claimed by consumers on their
  way to the mutex or not yet posted by their producer; \<open>osip_fifo_get\<close> waits in that case, unless
  the wait is interrupted. Once all threads are idle, the count of the semaphore is the number of elements.\<close>

theorem fifo_run_refines:
  "fifo_sys_inv s \<Longrightarrow>
   \<exists>es s'. fifo_run sched s = Some (es, s') \<and> fifo_sys_inv s'
     \<and> spec_events (sys_elems s, unclaimed s) es = Some (sys_elems s', unclaimed s')
     \<and> length (sys_elems s') = unclaimed s' + threads_at Claimed s' + threads_at Posting s'
     \<and> (set (threads s') \<subseteq> {Idle} \<longrightarrow> fifo_inv (shared s'))"
proof (induction sched arbitrary: s)
  case Nil
  then show ?case using idle_inv [OF Nil] by (simp add: fifo_sys_inv_def)
next
  case (Cons tc sched)
  obtain t c where tc: "tc = (t, c)" by (cases tc)
  show ?case
  proof (cases "t < length (threads s)")
    case True
    then obtain es1 s1 where 1: "thread_step t c (threads s ! t) s = Some (es1, s1)" "fifo_sys_inv s1"
        "spec_events (sys_elems s, unclaimed s) es1 = Some (sys_elems s1, unclaimed s1)"
      using thread_step_ok [OF Cons.prems True, of c] by blast
    with Cons.IH [OF 1(2)] True tc show ?thesis by (auto simp: spec_events_append)
  qed (use Cons tc in auto)
qed

text \<open>The schedule of a consumer that claims the only element, another one that finds the semaphore
  at zero while the element is still in the list, and a producer that inserts at the front: the
  first consumer takes the new element.\<close>

theorem fifo_run_refines_witness:
  "\<exists>es s'. fifo_run
      [(0, Add 1), (0, Tryget), (0, Tryget), (0, Tryget), (0, Tryget), (0, Tryget), (1, Tryget), (1, Tryget),
       (2, Insert 2), (2, Tryget), (2, Tryget), (2, Tryget), (0, Tryget), (0, Tryget)]
      \<lparr>shared = osip_fifo_init, qislocked = False, threads = [Idle, Idle, Idle]\<rparr> = Some (es, s')
    \<and> es = [Linked False 1, Posted, Claimed_one, Missed, Linked True 2, Posted, Took (Some (2::nat))]
    \<and> fifo_inv (shared s') \<and> fifo_elems (shared s') = [1]"
proof -
  let ?sched = "[(0, Add 1), (0, Tryget), (0, Tryget), (0, Tryget), (0, Tryget), (0, Tryget), (1, Tryget), (1, Tryget),
       (2, Insert 2), (2, Tryget), (2, Tryget), (2, Tryget), (0, Tryget), (0, Tryget)]"
  let ?s = "\<lparr>shared = osip_fifo_init, qislocked = False, threads = [Idle, Idle, Idle]\<rparr> :: nat fifo_sys"
  have inv: "fifo_sys_inv ?s"
    using fifo_inv_init(1) [where 'a = nat]
    by (simp add: fifo_sys_inv_def fifo_inv_def sys_elems_def unclaimed_def threads_at_def)
  have "map_option (\<lambda>(es, s'). (es, threads s', fifo_elems (shared s'))) (fifo_run ?sched ?s) =
    Some ([Linked False 1, Posted, Claimed_one, Missed, Linked True 2, Posted, Took (Some 2)],
      [Idle, Idle, Idle], [1])"
    by code_simp
  with fifo_run_refines [OF inv, of ?sched] show ?thesis by auto
qed

end
