(* ===== verification/Osip_Transaction.thy ===== *)
theory Osip_Transaction
  imports Osip_Event Osip_Time Osip_Fifo
begin

text \<open>
  The transaction object and the functions that all four kinds of transaction share:
  \<open>src/osip2/osip_transaction.c\<close>, the structures of \<open>include/osip2/osip.h\<close> and the callback
  dispatchers of \<open>src/osip2/osip.c\<close>.

  The configuration of the stack that a transaction refers to (\<open>transaction->config\<close>) is the
  argument \<open>cfg\<close>: the transport \<open>cb_send_message\<close>, which callbacks the application registered,
  and the clock.  The application's callbacks are outputs of the model: what the code hands to
  them is recorded, in order, as a list of \<open>action\<close>s.  They do not change the transaction.
  Memory allocation succeeds.
\<close>

section \<open>Enumerations\<close>

datatype state_t =
  ICT_PRE_CALLING | ICT_CALLING | ICT_PROCEEDING | ICT_COMPLETED | ICT_TERMINATED
| IST_PRE_PROCEEDING | IST_PROCEEDING | IST_COMPLETED | IST_CONFIRMED | IST_TERMINATED
| NICT_PRE_TRYING | NICT_TRYING | NICT_PROCEEDING | NICT_COMPLETED | NICT_TERMINATED
| NIST_PRE_TRYING | NIST_TRYING | NIST_PROCEEDING | NIST_COMPLETED | NIST_TERMINATED
| DIALOG_EARLY | DIALOG_CONFIRMED | DIALOG_CLOSE

datatype osip_fsm_type_t = ICT | IST | NICT | NIST

datatype osip_message_callback_type_t =
  OSIP_ICT_INVITE_SENT | OSIP_ICT_INVITE_SENT_AGAIN | OSIP_ICT_ACK_SENT | OSIP_ICT_ACK_SENT_AGAIN
| OSIP_ICT_STATUS_1XX_RECEIVED | OSIP_ICT_STATUS_2XX_RECEIVED | OSIP_ICT_STATUS_2XX_RECEIVED_AGAIN
| OSIP_ICT_STATUS_3XX_RECEIVED | OSIP_ICT_STATUS_4XX_RECEIVED | OSIP_ICT_STATUS_5XX_RECEIVED
| OSIP_ICT_STATUS_6XX_RECEIVED | OSIP_ICT_STATUS_3456XX_RECEIVED_AGAIN
| OSIP_IST_INVITE_RECEIVED | OSIP_IST_INVITE_RECEIVED_AGAIN | OSIP_IST_ACK_RECEIVED
| OSIP_IST_ACK_RECEIVED_AGAIN | OSIP_IST_STATUS_1XX_SENT | OSIP_IST_STATUS_2XX_SENT
| OSIP_IST_STATUS_2XX_SENT_AGAIN | OSIP_IST_STATUS_3XX_SENT | OSIP_IST_STATUS_4XX_SENT
| OSIP_IST_STATUS_5XX_SENT | OSIP_IST_STATUS_6XX_SENT | OSIP_IST_STATUS_3456XX_SENT_AGAIN
| OSIP_NICT_REGISTER_SENT | OSIP_NICT_BYE_SENT | OSIP_NICT_OPTIONS_SENT | OSIP_NICT_INFO_SENT
| OSIP_NICT_CANCEL_SENT | OSIP_NICT_NOTIFY_SENT | OSIP_NICT_SUBSCRIBE_SENT
| OSIP_NICT_UNKNOWN_REQUEST_SENT | OSIP_NICT_REQUEST_SENT_AGAIN | OSIP_NICT_STATUS_1XX_RECEIVED
| OSIP_NICT_STATUS_2XX_RECEIVED | OSIP_NICT_STATUS_2XX_RECEIVED_AGAIN
| OSIP_NICT_STATUS_3XX_RECEIVED | OSIP_NICT_STATUS_4XX_RECEIVED | OSIP_NICT_STATUS_5XX_RECEIVED
| OSIP_NICT_STATUS_6XX_RECEIVED | OSIP_NICT_STATUS_3456XX_RECEIVED_AGAIN
| OSIP_NIST_REGISTER_RECEIVED | OSIP_NIST_BYE_RECEIVED | OSIP_NIST_OPTIONS_RECEIVED
| OSIP_NIST_INFO_RECEIVED | OSIP_NIST_CANCEL_RECEIVED | OSIP_NIST_NOTIFY_RECEIVED
| OSIP_NIST_SUBSCRIBE_RECEIVED | OSIP_NIST_UNKNOWN_REQUEST_RECEIVED
| OSIP_NIST_REQUEST_RECEIVED_AGAIN | OSIP_NIST_STATUS_1XX_SENT | OSIP_NIST_STATUS_2XX_SENT
| OSIP_NIST_STATUS_2XX_SENT_AGAIN | OSIP_NIST_STATUS_3XX_SENT | OSIP_NIST_STATUS_4XX_SENT
| OSIP_NIST_STATUS_5XX_SENT | OSIP_NIST_STATUS_6XX_SENT | OSIP_NIST_STATUS_3456XX_SENT_AGAIN
| OSIP_ICT_STATUS_TIMEOUT | OSIP_NICT_STATUS_TIMEOUT | OSIP_MESSAGE_CALLBACK_COUNT

datatype osip_kill_callback_type_t =
  OSIP_ICT_KILL_TRANSACTION | OSIP_IST_KILL_TRANSACTION | OSIP_NICT_KILL_TRANSACTION
| OSIP_NIST_KILL_TRANSACTION | OSIP_KILL_CALLBACK_COUNT

datatype osip_transport_error_callback_type_t =
  OSIP_ICT_TRANSPORT_ERROR | OSIP_IST_TRANSPORT_ERROR | OSIP_NICT_TRANSPORT_ERROR
| OSIP_NIST_TRANSPORT_ERROR | OSIP_TRANSPORT_ERROR_CALLBACK_COUNT

section \<open>Timer constants\<close>

definition DEFAULT_T1 :: int where "DEFAULT_T1 = 500"
definition DEFAULT_T1_TCP_PROGRESS :: int where "DEFAULT_T1_TCP_PROGRESS = 50"
definition DEFAULT_T2 :: int where "DEFAULT_T2 = 4000"
definition DEFAULT_T4 :: int where "DEFAULT_T4 = 5000"

lemmas timer_consts = DEFAULT_T1_def DEFAULT_T1_TCP_PROGRESS_def DEFAULT_T2_def DEFAULT_T4_def

section \<open>Contexts and transactions\<close>

text \<open>A pointer to an owned object: NULL, a live object, or an object that was freed while the
  pointer kept its value.\<close>

datatype 'a cptr = Null | Ptr 'a | Dangling

fun cderef :: "'a cptr \<Rightarrow> 'a ub" where
  "cderef (Ptr x) = Some x"
| "cderef Null = None"
| "cderef Dangling = None"

lemma cderef_eq_Some [simp]: "cderef p = Some x \<longleftrightarrow> p = Ptr x"
  by (cases p) auto

record osip_ict =
  timer_a_length :: int
  timer_a_start :: timeval
  timer_b_length :: int
  timer_b_start :: timeval
  timer_d_length :: int
  timer_d_start :: timeval
  ict_destination :: "string option"
  ict_port :: int

record osip_nict =
  timer_e_length :: int
  timer_e_start :: timeval
  timer_f_length :: int
  timer_f_start :: timeval
  timer_k_length :: int
  timer_k_start :: timeval
  nict_destination :: "string option"
  nict_port :: int

record osip_ist =
  timer_g_length :: int
  timer_g_start :: timeval
  timer_h_length :: int
  timer_h_start :: timeval
  timer_i_length :: int
  timer_i_start :: timeval

record osip_nist =
  timer_j_length :: int
  timer_j_start :: timeval

record osip_srv_entry =
  srv_name :: string
  srv_priority :: int
  srv_weight :: int
  srv_rweight :: int
  srv_port :: int
  srv_ipaddress :: string
  srv_is_broken :: timeval

record osip_srv_record =
  rec_name :: string
  srv_state :: int
  rec_protocol :: string
  rec_order :: int
  rec_preference :: int
  rec_index :: int
  srventry :: "osip_srv_entry list"

text \<open>User pointers (\<open>void *\<close>) are opaque: \<open>nat option\<close>.  The field \<open>config\<close> is the argument
  \<open>cfg\<close> of the functions below.\<close>

record osip_transaction =
  your_instance :: "nat option"
  transactionid :: int
  transactionff :: "osip_event osip_fifo option"
  topvia :: "osip_via option"
  tr_from :: "osip_from option"
  tr_to :: "osip_to option"
  callid :: "osip_call_id option"
  tr_cseq :: "osip_cseq option"
  orig_request :: "osip_message option"
  last_response :: "osip_message option"
  tr_ack :: "osip_message option"
  tr_state :: state_t
  birth_time :: int
  completed_time :: int
  in_socket :: int
  out_socket :: int
  ctx_type :: osip_fsm_type_t
  ict_context :: "osip_ict cptr"
  ist_context :: "osip_ist cptr"
  nict_context :: "osip_nict cptr"
  nist_context :: "osip_nist cptr"
  srv_record :: osip_srv_record
  naptr_record :: "nat option"
  reserved1 :: "nat option"
  reserved2 :: "nat option"
  reserved3 :: "nat option"
  reserved4 :: "nat option"
  reserved5 :: "nat option"
  reserved6 :: "nat option"

text \<open>\<open>memset (transaction, 0, sizeof (osip_transaction_t))\<close>; the enumerations are 0 at their
  first constructor.\<close>

definition tv_zero :: timeval where
  "tv_zero = \<lparr>tv_sec = 0, tv_usec = 0\<rparr>"

definition srv_entry_zero :: osip_srv_entry where
  "srv_entry_zero = \<lparr>srv_name = [], srv_priority = 0, srv_weight = 0, srv_rweight = 0, srv_port = 0,
     srv_ipaddress = [], srv_is_broken = tv_zero\<rparr>"

definition srv_record_zero :: osip_srv_record where
  "srv_record_zero = \<lparr>rec_name = [], srv_state = 0, rec_protocol = [], rec_order = 0,
     rec_preference = 0, rec_index = 0, srventry = replicate 10 srv_entry_zero\<rparr>"

definition transaction_zero :: osip_transaction where
  "transaction_zero =
     \<lparr>your_instance = None, transactionid = 0, transactionff = None, topvia = None, tr_from = None,
      tr_to = None, callid = None, tr_cseq = None, orig_request = None, last_response = None,
      tr_ack = None, tr_state = ICT_PRE_CALLING, birth_time = 0, completed_time = 0, in_socket = 0,
      out_socket = 0, ctx_type = ICT, ict_context = Null, ist_context = Null, nict_context = Null,
      nist_context = Null, srv_record = srv_record_zero, naptr_record = None, reserved1 = None,
      reserved2 = None, reserved3 = None, reserved4 = None, reserved5 = None, reserved6 = None\<rparr>"

section \<open>Configuration and actions\<close>

text \<open>\<open>gettimeofday k\<close> is the reading of the clock at the \<open>k\<close>-th call of \<open>osip_gettimeofday\<close>
  in a handler, \<open>systime\<close> the reading of \<open>osip_getsystemtime\<close> in the kill callback (at most one
  per handler).\<close>

record osip_cfg =
  cb_send_message :: "osip_transaction \<Rightarrow> osip_message \<Rightarrow> string option \<Rightarrow> int \<Rightarrow> int \<Rightarrow> int"
  msg_callbacks :: "osip_message_callback_type_t \<Rightarrow> bool"
  kill_callbacks :: "osip_kill_callback_type_t \<Rightarrow> bool"
  tp_error_callbacks :: "osip_transport_error_callback_type_t \<Rightarrow> bool"
  gettimeofday :: "nat \<Rightarrow> timeval"
  systime :: timeval

datatype action =
  Send osip_message "string option" int int int   \<comment> \<open>message, host, port, socket, result\<close>
| MsgCb osip_message_callback_type_t "osip_message option"
| KillCb osip_kill_callback_type_t
| ErrCb osip_transport_error_callback_type_t int
| Freed osip_message

type_synonym hres = "(osip_transaction \<times> action list) ub"

definition osip_message_free :: "osip_message option \<Rightarrow> action list" where
  "osip_message_free m = (case m of None \<Rightarrow> [] | Some x \<Rightarrow> [Freed x])"

definition osip_message_callback ::
    "osip_cfg \<Rightarrow> osip_message_callback_type_t \<Rightarrow> osip_message option \<Rightarrow> action list" where
  \<comment> \<open>\<open>__osip_message_callback\<close>\<close>
  "osip_message_callback cfg ty msg =
     (if ty = OSIP_MESSAGE_CALLBACK_COUNT then []
      else if \<not> msg_callbacks cfg ty then []
      else [MsgCb ty msg])"

definition osip_kill_transaction_callback ::
    "osip_cfg \<Rightarrow> osip_kill_callback_type_t \<Rightarrow> osip_transaction \<Rightarrow> osip_transaction \<times> action list" where
  \<comment> \<open>\<open>__osip_kill_transaction_callback\<close>\<close>
  "osip_kill_transaction_callback cfg ty tr =
     (if ty = OSIP_KILL_CALLBACK_COUNT then (tr, [])
      else (let tr1 = tr\<lparr>completed_time := osip_getsystemtime (systime cfg)\<rparr>
            in if \<not> kill_callbacks cfg ty then (tr1, []) else (tr1, [KillCb ty])))"

definition osip_transport_error_callback ::
    "osip_cfg \<Rightarrow> osip_transport_error_callback_type_t \<Rightarrow> int \<Rightarrow> action list" where
  \<comment> \<open>\<open>__osip_transport_error_callback\<close>\<close>
  "osip_transport_error_callback cfg ty err =
     (if ty = OSIP_TRANSPORT_ERROR_CALLBACK_COUNT then []
      else if \<not> tp_error_callbacks cfg ty then []
      else [ErrCb ty err])"

text \<open>\<open>emit acts r\<close>: the actions \<open>acts\<close> happened before those of \<open>r\<close>.\<close>

definition emit :: "action list \<Rightarrow> osip_transaction \<times> action list \<Rightarrow> osip_transaction \<times> action list" where
  "emit acts r = (fst r, acts @ snd r)"

text \<open>\<open>osip->cb_send_message (tr, msg, host, port, sock)\<close>: the transport needs a message.\<close>

definition send_message ::
    "osip_cfg \<Rightarrow> osip_transaction \<Rightarrow> osip_message option \<Rightarrow> string option \<Rightarrow> int \<Rightarrow> int \<Rightarrow> (int \<times> action list) ub" where
  "send_message cfg tr msg host p sock = do {
     m \<leftarrow> deref msg;
     let i = cb_send_message cfg tr m host p sock;
     Some (i, [Send m host p sock i])
   }"

section \<open>Setters and getters\<close>

definition osip_transaction_set_topvia :: "osip_transaction option \<Rightarrow> osip_via option \<Rightarrow> int \<times> osip_transaction option" where
  "osip_transaction_set_topvia tr via =
     (case tr of None \<Rightarrow> (OSIP_BADPARAMETER, None)
      | Some t \<Rightarrow>
          (case osip_via_clone via of
             (i, v) \<Rightarrow> if i = 0 then (OSIP_SUCCESS, Some (t\<lparr>topvia := v\<rparr>))
                       else (i, Some (t\<lparr>topvia := None\<rparr>))))"

definition osip_transaction_set_from :: "osip_transaction option \<Rightarrow> osip_from option \<Rightarrow> int \<times> osip_transaction option" where
  "osip_transaction_set_from tr from =
     (case tr of None \<Rightarrow> (OSIP_BADPARAMETER, None)
      | Some t \<Rightarrow>
          (case osip_from_clone from of
             (i, f) \<Rightarrow> if i = 0 then (OSIP_SUCCESS, Some (t\<lparr>tr_from := f\<rparr>))
                       else (i, Some (t\<lparr>tr_from := None\<rparr>))))"

definition osip_transaction_set_to :: "osip_transaction option \<Rightarrow> osip_to option \<Rightarrow> int \<times> osip_transaction option" where
  "osip_transaction_set_to tr to =
     (case tr of None \<Rightarrow> (OSIP_BADPARAMETER, None)
      | Some t \<Rightarrow>
          (case osip_to_clone to of
             (i, f) \<Rightarrow> if i = 0 then (OSIP_SUCCESS, Some (t\<lparr>tr_to := f\<rparr>))
                       else (i, Some (t\<lparr>tr_to := None\<rparr>))))"

definition osip_transaction_set_call_id :: "osip_transaction option \<Rightarrow> osip_call_id option \<Rightarrow> int \<times> osip_transaction option" where
  "osip_transaction_set_call_id tr call_id =
     (case tr of None \<Rightarrow> (OSIP_BADPARAMETER, None)
      | Some t \<Rightarrow>
          (case osip_call_id_clone call_id of
             (i, c) \<Rightarrow> if i = 0 then (OSIP_SUCCESS, Some (t\<lparr>callid := c\<rparr>))
                       else (i, Some (t\<lparr>callid := None\<rparr>))))"

definition osip_transaction_set_cseq :: "osip_transaction option \<Rightarrow> osip_cseq option \<Rightarrow> int \<times> osip_transaction option" where
  "osip_transaction_set_cseq tr cseq =
     (case tr of None \<Rightarrow> (OSIP_BADPARAMETER, None)
      | Some t \<Rightarrow>
          (case osip_cseq_clone cseq of
             (i, c) \<Rightarrow> if i = 0 then (OSIP_SUCCESS, Some (t\<lparr>tr_cseq := c\<rparr>))
                       else (i, Some (t\<lparr>tr_cseq := None\<rparr>))))"

text \<open>The setters that only store a value check the transaction pointer and store.\<close>

definition set_field :: "(osip_transaction \<Rightarrow> osip_transaction) \<Rightarrow> osip_transaction option \<Rightarrow> int \<times> osip_transaction option" where
  "set_field upd tr =
     (case tr of None \<Rightarrow> (OSIP_BADPARAMETER, None) | Some t \<Rightarrow> (OSIP_SUCCESS, Some (upd t)))"

definition osip_transaction_set_srv_record ::
    "osip_transaction option \<Rightarrow> osip_srv_record option \<Rightarrow> (int \<times> osip_transaction option) ub" where
  "osip_transaction_set_srv_record tr r =
     (if tr = None then Some (OSIP_BADPARAMETER, None)
      else do { s \<leftarrow> deref r; Some (set_field (\<lambda>t. t\<lparr>srv_record := s\<rparr>) tr) })"

definition osip_transaction_set_naptr_record :: "osip_transaction option \<Rightarrow> nat option \<Rightarrow> int \<times> osip_transaction option" where
  "osip_transaction_set_naptr_record tr r = set_field (\<lambda>t. t\<lparr>naptr_record := r\<rparr>) tr"

definition osip_transaction_set_your_instance :: "osip_transaction option \<Rightarrow> nat option \<Rightarrow> int \<times> osip_transaction option" where
  "osip_transaction_set_your_instance tr p = set_field (\<lambda>t. t\<lparr>reserved1 := p\<rparr>) tr"

definition osip_transaction_set_reserved1 :: "osip_transaction option \<Rightarrow> nat option \<Rightarrow> int \<times> osip_transaction option" where
  "osip_transaction_set_reserved1 tr p = set_field (\<lambda>t. t\<lparr>reserved1 := p\<rparr>) tr"

definition osip_transaction_set_reserved2 :: "osip_transaction option \<Rightarrow> nat option \<Rightarrow> int \<times> osip_transaction option" where
  "osip_transaction_set_reserved2 tr p = set_field (\<lambda>t. t\<lparr>reserved2 := p\<rparr>) tr"

definition osip_transaction_set_reserved3 :: "osip_transaction option \<Rightarrow> nat option \<Rightarrow> int \<times> osip_transaction option" where
  "osip_transaction_set_reserved3 tr p = set_field (\<lambda>t. t\<lparr>reserved3 := p\<rparr>) tr"

definition osip_transaction_set_reserved4 :: "osip_transaction option \<Rightarrow> nat option \<Rightarrow> int \<times> osip_transaction option" where
  "osip_transaction_set_reserved4 tr p = set_field (\<lambda>t. t\<lparr>reserved4 := p\<rparr>) tr"

definition osip_transaction_set_reserved5 :: "osip_transaction option \<Rightarrow> nat option \<Rightarrow> int \<times> osip_transaction option" where
  "osip_transaction_set_reserved5 tr p = set_field (\<lambda>t. t\<lparr>reserved5 := p\<rparr>) tr"

definition osip_transaction_set_reserved6 :: "osip_transaction option \<Rightarrow> nat option \<Rightarrow> int \<times> osip_transaction option" where
  "osip_transaction_set_reserved6 tr p = set_field (\<lambda>t. t\<lparr>reserved6 := p\<rparr>) tr"

definition osip_transaction_set_in_socket :: "osip_transaction option \<Rightarrow> int \<Rightarrow> int \<times> osip_transaction option" where
  "osip_transaction_set_in_socket tr s = set_field (\<lambda>t. t\<lparr>in_socket := s\<rparr>) tr"

definition osip_transaction_set_out_socket :: "osip_transaction option \<Rightarrow> int \<Rightarrow> int \<times> osip_transaction option" where
  "osip_transaction_set_out_socket tr s = set_field (\<lambda>t. t\<lparr>out_socket := s\<rparr>) tr"

definition osip_transaction_get_your_instance :: "osip_transaction option \<Rightarrow> nat option" where
  "osip_transaction_get_your_instance tr = (case tr of None \<Rightarrow> None | Some t \<Rightarrow> reserved1 t)"

definition osip_transaction_get_reserved1 :: "osip_transaction option \<Rightarrow> nat option" where
  "osip_transaction_get_reserved1 tr = (case tr of None \<Rightarrow> None | Some t \<Rightarrow> reserved1 t)"

definition osip_transaction_get_reserved2 :: "osip_transaction option \<Rightarrow> nat option" where
  "osip_transaction_get_reserved2 tr = (case tr of None \<Rightarrow> None | Some t \<Rightarrow> reserved2 t)"

definition osip_transaction_get_reserved3 :: "osip_transaction option \<Rightarrow> nat option" where
  "osip_transaction_get_reserved3 tr = (case tr of None \<Rightarrow> None | Some t \<Rightarrow> reserved3 t)"

definition osip_transaction_get_reserved4 :: "osip_transaction option \<Rightarrow> nat option" where
  "osip_transaction_get_reserved4 tr = (case tr of None \<Rightarrow> None | Some t \<Rightarrow> reserved4 t)"

definition osip_transaction_get_reserved5 :: "osip_transaction option \<Rightarrow> nat option" where
  "osip_transaction_get_reserved5 tr = (case tr of None \<Rightarrow> None | Some t \<Rightarrow> reserved5 t)"

definition osip_transaction_get_reserved6 :: "osip_transaction option \<Rightarrow> nat option" where
  "osip_transaction_get_reserved6 tr = (case tr of None \<Rightarrow> None | Some t \<Rightarrow> reserved6 t)"

text \<open>\<open>__osip_transaction_set_state\<close> on a transaction that is not NULL.\<close>

definition osip_transaction_set_state :: "osip_transaction \<Rightarrow> state_t \<Rightarrow> osip_transaction" where
  "osip_transaction_set_state tr st = tr\<lparr>tr_state := st\<rparr>"

definition osip_transaction_get_destination :: "osip_transaction option \<Rightarrow> (int \<times> string option \<times> int) ub" where
  "osip_transaction_get_destination tr =
     (case tr of None \<Rightarrow> Some (OSIP_BADPARAMETER, None, 0)
      | Some t \<Rightarrow>
          if ict_context t \<noteq> Null then do {
            c \<leftarrow> cderef (ict_context t);
            Some (OSIP_SUCCESS, ict_destination c, ict_port c)
          }
          else if nict_context t \<noteq> Null then do {
            c \<leftarrow> cderef (nict_context t);
            Some (OSIP_SUCCESS, nict_destination c, nict_port c)
          }
          else Some (OSIP_UNDEFINED_ERROR, None, 0))"

section \<open>Events of a transaction\<close>

definition osip_transaction_add_event ::
    "osip_transaction option \<Rightarrow> osip_event option \<Rightarrow> (int \<times> osip_transaction option) ub" where
  "osip_transaction_add_event tr evt =
     (case evt of None \<Rightarrow> Some (OSIP_BADPARAMETER, tr)
      | Some e \<Rightarrow>
          (case tr of None \<Rightarrow> Some (OSIP_BADPARAMETER, None)
           | Some t \<Rightarrow> do {
               q \<leftarrow> deref (transactionff t);
               (r, q') \<leftarrow> osip_fifo_add q (e\<lparr>ev_transactionid := transactionid t\<rparr>);
               Some (OSIP_SUCCESS, Some (t\<lparr>transactionff := Some q'\<rparr>))
             }))"

text \<open>\<open>__osip_transaction_need_timer_x_event\<close>: \<open>now\<close> is the clock; the pointer \<open>timer\<close> points
  into the context \<open>xixt\<close>.\<close>

definition osip_transaction_need_timer_x_event ::
    "timeval \<Rightarrow> 'c cptr \<Rightarrow> ('c \<Rightarrow> timeval) \<Rightarrow> bool \<Rightarrow> int \<Rightarrow> type_t \<Rightarrow> osip_event option ub" where
  "osip_transaction_need_timer_x_event now xixt timer cond_state tid TIMER_VAL =
     (if xixt = Null then Some None
      else if cond_state then do {
        c \<leftarrow> cderef xixt;
        Some (if tv_sec (timer c) = -1 then None
              else if osip_timercmp_gt now (timer c) then Some (osip_event_new TIMER_VAL tid)
              else None)
      }
      else Some None)"

section \<open>Release\<close>

text \<open>\<open>__osip_ict_free\<close> and its siblings: freeing a context whose pointer dangles is a double free.\<close>

definition osip_xixt_free :: "'c cptr \<Rightarrow> int ub" where
  "osip_xixt_free p = (if p = Null then Some OSIP_SUCCESS else do { c \<leftarrow> cderef p; Some OSIP_SUCCESS })"

lemma fifo_take_qisempty: "fifo_take ff = Some (r, ff') \<Longrightarrow> qisempty ff' = qisempty ff"
  by (auto simp: fifo_take_def bind_eq_Some_conv split: if_splits)

lemma osip_fifo_tryget_decreases:
  "osip_fifo_tryget ff = Some (Some x, ff') \<Longrightarrow> nat (qisempty ff') < nat (qisempty ff)"
  by (auto simp: osip_fifo_tryget_def osip_sem_trywait_def dest!: fifo_take_qisempty split: if_splits)

function free_events :: "osip_event osip_fifo \<Rightarrow> action list ub" where
  "free_events ff =
     (case osip_fifo_tryget ff of
        None \<Rightarrow> None
      | Some (None, ff') \<Rightarrow> Some []
      | Some (Some e, ff') \<Rightarrow>
          (case free_events ff' of None \<Rightarrow> None
           | Some acts \<Rightarrow> Some (osip_message_free (ev_sip e) @ acts)))"
  by pat_completeness auto

termination free_events
proof (relation "measure (\<lambda>ff. nat (qisempty ff))")
  fix ff r p ff' e
  assume "osip_fifo_tryget ff = Some p" "(r, ff') = p" "r = Some e"
  then have "osip_fifo_tryget ff = Some (Some e, ff')" by simp
  then show "(ff', ff) \<in> measure (\<lambda>ff. nat (qisempty ff))"
    by (simp only: in_measure osip_fifo_tryget_decreases)
qed simp

declare free_events.simps [simp del]

definition osip_transaction_free2 :: "osip_transaction option \<Rightarrow> (int \<times> action list) ub" where
  "osip_transaction_free2 tr =
     (case tr of None \<Rightarrow> Some (OSIP_BADPARAMETER, [])
      | Some t \<Rightarrow> do {
          (case ctx_type t of
             ICT \<Rightarrow> osip_xixt_free (ict_context t)
           | IST \<Rightarrow> osip_xixt_free (ist_context t)
           | NICT \<Rightarrow> osip_xixt_free (nict_context t)
           | NIST \<Rightarrow> osip_xixt_free (nist_context t));
          evs \<leftarrow> (case transactionff t of None \<Rightarrow> Some [] | Some q \<Rightarrow> free_events q);
          Some (OSIP_SUCCESS,
                evs @ osip_message_free (orig_request t) @ osip_message_free (last_response t)
                  @ osip_message_free (tr_ack t))
        })"

section \<open>Matching\<close>

text \<open>\<open>__osip_transaction_matching_response_osip_to_xict_17_1_3\<close>\<close>

definition osip_transaction_matching_response ::
    "osip_transaction option \<Rightarrow> osip_message option \<Rightarrow> int ub" where
  "osip_transaction_matching_response tr response =
     (case (tr, response) of
        (Some t, Some r) \<Rightarrow>
          if ict_context t = Null \<and> nict_context t = Null then Some OSIP_BADPARAMETER
          else (case msg_cseq r of None \<Rightarrow> Some OSIP_BADPARAMETER
                | Some cs \<Rightarrow>
                    (case cseq_method cs of None \<Rightarrow> Some OSIP_BADPARAMETER
                     | Some rmethod \<Rightarrow>
                         (case seq_get (vias r) 0 of None \<Rightarrow> Some OSIP_SYNTAXERROR
                          | Some topvia_response \<Rightarrow> do {
                              tv \<leftarrow> deref (topvia t);
                              (case get_param (via_params tv) ''branch'' of
                                 None \<Rightarrow> Some OSIP_SYNTAXERROR
                               | Some b_request \<Rightarrow>
                                   (case get_param (via_params topvia_response) ''branch'' of
                                      None \<Rightarrow> Some OSIP_SYNTAXERROR
                                    | Some b_response \<Rightarrow>
                                        (case (gvalue b_request, gvalue b_response) of
                                           (Some v1, Some v2) \<Rightarrow>
                                             if \<not> strcmp_eq v1 v2 then Some OSIP_UNDEFINED_ERROR
                                             else do {
                                               tcs \<leftarrow> deref (tr_cseq t);
                                               tmethod \<leftarrow> deref (cseq_method tcs);
                                               Some (if strcmp_eq rmethod tmethod then OSIP_SUCCESS
                                                     else OSIP_UNDEFINED_ERROR)
                                             }
                                         | _ \<Rightarrow> Some OSIP_SYNTAXERROR)))
                            })))
      | _ \<Rightarrow> Some OSIP_BADPARAMETER)"

text \<open>\<open>__osip_transaction_matching_request_osip_to_xist_17_2_3\<close>: the sent-by check, the
  check of two compliant requests, and the check of the older protocol version.\<close>

definition magic_cookie :: string where
  "magic_cookie = ''z9hG4bK''"

definition sent_by_match :: "osip_via option \<Rightarrow> osip_via option \<Rightarrow> bool" where
  "sent_by_match topvia_request orig_via =
     (let b_port = via_get_port topvia_request; b_origport = via_get_port orig_via;
          b_host = via_get_host topvia_request; b_orighost = via_get_host orig_via
      in case (b_host, b_orighost) of
           (Some h, Some oh) \<Rightarrow>
             if \<not> strcmp_eq oh h then False
             else (case (b_port, b_origport) of
                     (Some p, None) \<Rightarrow> strcmp_eq p ''5060''
                   | (None, Some op) \<Rightarrow> strcmp_eq op ''5060''
                   | (Some p, Some op) \<Rightarrow> strcmp_eq op p
                   | (None, None) \<Rightarrow> True)
         | _ \<Rightarrow> False)"

definition matching_request_compliant :: "osip_transaction \<Rightarrow> osip_via \<Rightarrow> string \<Rightarrow> string \<Rightarrow> string \<Rightarrow> int ub" where
  "matching_request_compliant t topvia_request v1 v2 rmethod =
     (if \<not> strcmp_eq v1 v2 then Some OSIP_UNDEFINED_ERROR
      else if \<not> sent_by_match (Some topvia_request) (topvia t) then Some OSIP_UNDEFINED_ERROR
      else do {
        tcs \<leftarrow> deref (tr_cseq t);
        tmethod \<leftarrow> deref (cseq_method tcs);
        Some (if \<not> (strcmp_eq tmethod ''INVITE'' \<and> strcmp_eq rmethod ''ACK'')
                 \<and> \<not> strcmp_eq tmethod rmethod
              then OSIP_UNDEFINED_ERROR else OSIP_SUCCESS)
      })"

definition to_tag :: "osip_to option \<Rightarrow> osip_generic_param option ub" where
  \<comment> \<open>\<open>osip_from_param_get_byname (to, "tag", &dest)\<close> takes the address of a member of \<open>to\<close>\<close>
  "to_tag to = do { f \<leftarrow> deref to; Some (get_param (gen_params f) ''tag'') }"

definition matching_request_to :: "osip_transaction \<Rightarrow> osip_message \<Rightarrow> bool ub" where
  "matching_request_to t r = do {
     is_ack \<leftarrow> MSG_IS_METHOD ''ACK'' r;
     if is_ack then do {
       tag_from1 \<leftarrow> to_tag (tr_to t);
       tag_from2 \<leftarrow> to_tag (msg_to r);
       Some (if tag_from1 = None \<and> tag_from2 \<noteq> None then True
             else if tag_from1 \<noteq> None \<and> tag_from2 = None then False
             else osip_to_tag_match (tr_to t) (msg_to r) = 0)
     }
     else (case orig_request t of None \<Rightarrow> Some False
           | Some oreq \<Rightarrow>
               if msg_to oreq = None then Some False
               else Some (osip_to_tag_match (msg_to oreq) (msg_to r) = 0))
   }"

definition matching_request_old :: "osip_transaction \<Rightarrow> osip_message \<Rightarrow> osip_via \<Rightarrow> int ub" where
  "matching_request_old t r topvia_request =
     (if osip_call_id_match (callid t) (msg_call_id r) \<noteq> 0 then Some OSIP_UNDEFINED_ERROR
      else do {
        to_ok \<leftarrow> matching_request_to t r;
        Some (if \<not> to_ok then OSIP_UNDEFINED_ERROR
              else if osip_from_tag_match (tr_from t) (msg_from r) \<noteq> 0 then OSIP_UNDEFINED_ERROR
              else if osip_cseq_match (tr_cseq t) (msg_cseq r) \<noteq> 0 then OSIP_UNDEFINED_ERROR
              else if osip_via_match (topvia t) (Some topvia_request) \<noteq> 0 then OSIP_UNDEFINED_ERROR
              else OSIP_SUCCESS)
      })"

definition osip_transaction_matching_request ::
    "osip_transaction option \<Rightarrow> osip_message option \<Rightarrow> int ub" where
  "osip_transaction_matching_request tr request =
     (case (tr, request) of
        (Some t, Some r) \<Rightarrow>
          if ist_context t = Null \<and> nist_context t = Null then Some OSIP_BADPARAMETER
          else (case msg_cseq r of None \<Rightarrow> Some OSIP_BADPARAMETER
                | Some cs \<Rightarrow>
                    (case cseq_method cs of None \<Rightarrow> Some OSIP_BADPARAMETER
                     | Some rmethod \<Rightarrow>
                         (case seq_get (vias r) 0 of None \<Rightarrow> Some OSIP_SYNTAXERROR
                          | Some topvia_request \<Rightarrow> do {
                              tv \<leftarrow> deref (topvia t);
                              (case (get_param (via_params tv) ''branch'',
                                     get_param (via_params topvia_request) ''branch'') of
                                 (None, Some _) \<Rightarrow> Some OSIP_SYNTAXERROR
                               | (Some _, None) \<Rightarrow> Some OSIP_SYNTAXERROR
                               | (Some b_origrequest, Some b_request) \<Rightarrow>
                                   (case (gvalue b_origrequest, gvalue b_request) of
                                      (Some v1, Some v2) \<Rightarrow>
                                        if length v1 \<noteq> length v2 then Some OSIP_UNDEFINED_ERROR
                                        else if strncmp_eq v1 magic_cookie 7 \<and> strncmp_eq v2 magic_cookie 7
                                        then matching_request_compliant t topvia_request v1 v2 rmethod
                                        else matching_request_old t r topvia_request
                                    | _ \<Rightarrow> Some OSIP_UNDEFINED_ERROR)
                               | (None, None) \<Rightarrow> matching_request_old t r topvia_request)
                            })))
      | _ \<Rightarrow> Some OSIP_BADPARAMETER)"

section \<open>Sending a response\<close>

definition response_host :: "osip_via \<Rightarrow> string option" where
  "response_host via =
     (case get_param (via_params via) ''maddr'' of
        Some maddr \<Rightarrow> gvalue maddr
      | None \<Rightarrow> (case get_param (via_params via) ''received'' of
                  Some received \<Rightarrow> gvalue received
                | None \<Rightarrow> via_host via))"

definition response_port :: "osip_via \<Rightarrow> int" where
  "response_port via =
     (let from_via = (if via_port via \<noteq> None then osip_atoi (via_port via) else 5060)
      in case get_param (via_params via) ''rport'' of
           None \<Rightarrow> from_via
         | Some rport \<Rightarrow> if gvalue rport = None then from_via else osip_atoi (gvalue rport))"

definition osip_transaction_snd_xxx ::
    "osip_cfg \<Rightarrow> osip_transaction \<Rightarrow> osip_message option \<Rightarrow> (int \<times> action list) ub" where
  "osip_transaction_snd_xxx cfg ist msg = do {
     m \<leftarrow> deref msg;
     (case seq_get (vias m) 0 of
        None \<Rightarrow> Some (OSIP_SYNTAXERROR, [])
      | Some via \<Rightarrow> send_message cfg ist msg (response_host via) (response_port via) (out_socket ist))
   }"

end
