(* ===== verification/Osip_Xixt.thy ===== *)
theory Osip_Xixt
  imports Osip_Transaction
begin

text \<open>
  Code that the files \<open>ict.c\<close>, \<open>nict.c\<close>, \<open>ist.c\<close>, \<open>nist.c\<close> and their \<open>_fsm.c\<close> files repeat: the
  transport protocol of the top Via, and where a request is sent to.
\<close>

text \<open>\<open>osip_strcasecmp (proto, "TCP") != 0 && ... "TLS" ... && ... "SCTP"\<close> is \<open>\<not> reliable_proto\<close>.\<close>

definition reliable_proto :: "string \<Rightarrow> bool" where
  "reliable_proto proto \<longleftrightarrow>
     \<not> (\<not> osip_strcasecmp_eq proto ''TCP'' \<and> \<not> osip_strcasecmp_eq proto ''TLS''
        \<and> \<not> osip_strcasecmp_eq proto ''SCTP'')"

text \<open>The route a request is sent along: the first Route if it is a loose router.\<close>

definition loose_route :: "osip_message \<Rightarrow> osip_uri option" where
  "loose_route m =
     (case snd (osip_message_get_route m 0) of
        None \<Rightarrow> None
      | Some route \<Rightarrow>
          (case url route of
             None \<Rightarrow> None
           | Some u \<Rightarrow> if get_param (url_params u) ''lr'' = None then None else Some u))"

definition uri_port_or_default :: "osip_uri \<Rightarrow> int" where
  "uri_port_or_default u = (if uri_port u \<noteq> None then osip_atoi (uri_port u) else 5060)"

text \<open>The arguments of \<open>osip_ict_set_destination\<close> or \<open>osip_nict_set_destination\<close>; without a
  loose route the request URI is dereferenced.\<close>

definition request_destination :: "osip_message \<Rightarrow> (string option \<times> int) ub" where
  "request_destination m =
     (case loose_route m of
        Some u \<Rightarrow> Some (uri_host u, uri_port_or_default u)
      | None \<Rightarrow> do {
          u \<leftarrow> deref (req_uri m);
          let p = uri_port_or_default u;
          let obr_param = get_param (url_params u) ''x-obr'';
          let obp_param = get_param (url_params u) ''x-obp'';
          let maddr_param = get_param (url_params u) ''maddr'';
          Some (case Option.bind maddr_param gvalue of
                  Some maddr \<Rightarrow> (Some maddr, p)
                | None \<Rightarrow>
                    (case (Option.bind obr_param gvalue, Option.bind obp_param gvalue) of
                       (Some obr, Some obp) \<Rightarrow> (Some obr, osip_atoi (Some obp))
                     | _ \<Rightarrow> (uri_host u, p)))
        })"

lemma request_destination_defined:
  "req_uri m \<noteq> None \<Longrightarrow> \<exists>d p. request_destination m = Some (d, p)"
  by (auto simp: request_destination_def Let_def split: option.splits)

lemma request_destination_loose:
  "loose_route m = Some u \<Longrightarrow> request_destination m = Some (uri_host u, uri_port_or_default u)"
  by (simp add: request_destination_def)

text \<open>A timer of a context that is not running.\<close>

definition tv_off :: timeval where
  "tv_off = \<lparr>tv_sec = -1, tv_usec = 0\<rparr>"

lemma tv_off_sec [simp]: "tv_sec tv_off = -1"
  by (simp add: tv_off_def)

lemma emit_simps [simp]: "fst (emit a r) = fst r" "snd (emit a r) = a @ snd r"
  by (simp_all add: emit_def)

lemma kill_callback_fst:
  "fst (osip_kill_transaction_callback cfg ty tr) =
     (if ty = OSIP_KILL_CALLBACK_COUNT then tr else tr\<lparr>completed_time := tv_sec (systime cfg)\<rparr>)"
  by (simp add: osip_kill_transaction_callback_def Let_def osip_getsystemtime_def)

lemma kill_callback_snd:
  "snd (osip_kill_transaction_callback cfg ty tr) =
     (if ty \<noteq> OSIP_KILL_CALLBACK_COUNT \<and> kill_callbacks cfg ty then [KillCb ty] else [])"
  by (simp add: osip_kill_transaction_callback_def Let_def)

lemma kill_callback_eq:
  "osip_kill_transaction_callback cfg ty tr =
     (if ty = OSIP_KILL_CALLBACK_COUNT then (tr, [])
      else (tr\<lparr>completed_time := tv_sec (systime cfg)\<rparr>, if kill_callbacks cfg ty then [KillCb ty] else []))"
  by (simp add: osip_kill_transaction_callback_def Let_def osip_getsystemtime_def)

lemmas callback_simps = osip_message_callback_def osip_transport_error_callback_def kill_callback_eq
  emit_def osip_transaction_set_state_def

end
