(* ===== verification/Osip_Ict.thy ===== *)
theory Osip_Ict
  imports Osip_Xixt
begin

text \<open>
  The INVITE client transaction: its context (\<open>src/osip2/ict.c\<close>) and the handlers of its state
  machine (\<open>src/osip2/ict_fsm.c\<close>), in the build without \<open>USE_BLOCKINGSOCKET\<close>.
\<close>

section \<open>Context\<close>

definition ict_zero :: osip_ict where
  "ict_zero = \<lparr>timer_a_length = 0, timer_a_start = tv_zero, timer_b_length = 0, timer_b_start = tv_zero,
     timer_d_length = 0, timer_d_start = tv_zero, ict_destination = None, ict_port = 0\<rparr>"

definition osip_ict_set_destination :: "osip_ict \<Rightarrow> string option \<Rightarrow> int \<Rightarrow> osip_ict" where
  "osip_ict_set_destination ict d p = ict\<lparr>ict_destination := d, ict_port := p\<rparr>"

text \<open>The two failure paths free the context and leave the pointer as it is.\<close>

definition osip_ict_init :: "osip_cfg \<Rightarrow> osip_message \<Rightarrow> (int \<times> osip_ict cptr) ub" where
  \<comment> \<open>\<open>__osip_ict_init\<close>\<close>
  "osip_ict_init cfg invite =
     (case osip_message_get_via (Some invite) 0 of
        (i, via) \<Rightarrow>
          if i < 0 then Some (i, Dangling)
          else (case via_get_protocol via of
                  None \<Rightarrow> Some (OSIP_SYNTAXERROR, Dangling)
                | Some proto \<Rightarrow> do {
                    let ict1 =
                      (if \<not> reliable_proto proto then
                         ict_zero\<lparr>timer_a_length := DEFAULT_T1,
                                  timer_d_length := (if 64 * DEFAULT_T1 < 32000 then 32000 else 64 * DEFAULT_T1),
                                  timer_a_start := add_gettimeofday (gettimeofday cfg 0) DEFAULT_T1,
                                  timer_d_start := (timer_d_start ict_zero)\<lparr>tv_sec := -1\<rparr>\<rparr>
                       else
                         ict_zero\<lparr>timer_a_length := DEFAULT_T1,
                                  timer_d_length := 0,
                                  timer_a_start := add_gettimeofday (gettimeofday cfg 0) DEFAULT_T1,
                                  timer_d_start := (timer_d_start ict_zero)\<lparr>tv_sec := -1\<rparr>\<rparr>);
                    (d, p) \<leftarrow> request_destination invite;
                    let ict2 = osip_ict_set_destination ict1 d p;
                    let ict3 = ict2\<lparr>timer_b_length := 64 * DEFAULT_T1,
                                    timer_b_start := add_gettimeofday (gettimeofday cfg 1) (64 * DEFAULT_T1)\<rparr>;
                    Some (OSIP_SUCCESS, Ptr ict3)
                  }))"

definition osip_ict_need_timer_a_event :: "timeval \<Rightarrow> osip_ict cptr \<Rightarrow> state_t \<Rightarrow> int \<Rightarrow> osip_event option ub" where
  "osip_ict_need_timer_a_event now ict st tid =
     osip_transaction_need_timer_x_event now ict timer_a_start (st = ICT_CALLING) tid TIMEOUT_A"

definition osip_ict_need_timer_b_event :: "timeval \<Rightarrow> osip_ict cptr \<Rightarrow> state_t \<Rightarrow> int \<Rightarrow> osip_event option ub" where
  "osip_ict_need_timer_b_event now ict st tid =
     osip_transaction_need_timer_x_event now ict timer_b_start (st = ICT_CALLING) tid TIMEOUT_B"

definition osip_ict_need_timer_d_event :: "timeval \<Rightarrow> osip_ict cptr \<Rightarrow> state_t \<Rightarrow> int \<Rightarrow> osip_event option ub" where
  "osip_ict_need_timer_d_event now ict st tid =
     osip_transaction_need_timer_x_event now ict timer_d_start (st = ICT_COMPLETED) tid TIMEOUT_D"

section \<open>Handlers\<close>

definition ict_kill :: "osip_cfg \<Rightarrow> osip_transaction \<Rightarrow> osip_transaction \<times> action list" where
  \<comment> \<open>the last two lines of every handler that ends the transaction\<close>
  "ict_kill cfg ict =
     osip_kill_transaction_callback cfg OSIP_ICT_KILL_TRANSACTION
       (osip_transaction_set_state ict ICT_TERMINATED)"

definition ict_handle_transport_error :: "osip_cfg \<Rightarrow> osip_transaction \<Rightarrow> int \<Rightarrow> osip_transaction \<times> action list" where
  "ict_handle_transport_error cfg ict err =
     emit (osip_transport_error_callback cfg OSIP_ICT_TRANSPORT_ERROR err) (ict_kill cfg ict)"

text \<open>The block of \<open>ict_snd_invite\<close> and \<open>osip_ict_timeout_a_event\<close> that runs once the transport
  took the message: \<open>Inl\<close> is the error the handler reports, \<open>Inr\<close> the context after it.\<close>

definition ict_message_sent :: "osip_message option \<Rightarrow> osip_ict \<Rightarrow> int + osip_ict" where
  "ict_message_sent orig ctx =
     (case osip_message_get_via orig 0 of
        (i, via) \<Rightarrow>
          if i < 0 then Inl i
          else (case via_get_protocol via of
                  None \<Rightarrow> Inl i
                | Some proto \<Rightarrow>
                    if \<not> reliable_proto proto then Inr ctx
                    else Inr (ctx\<lparr>timer_a_length := -1,
                                  timer_a_start := (timer_a_start ctx)\<lparr>tv_sec := -1\<rparr>\<rparr>)))"

definition ict_snd_invite :: "osip_cfg \<Rightarrow> osip_transaction \<Rightarrow> osip_event \<Rightarrow> hres" where
  "ict_snd_invite cfg ict evt = do {
     let ict1 = ict\<lparr>orig_request := ev_sip evt\<rparr>;
     ctx \<leftarrow> cderef (ict_context ict1);
     (i, sent) \<leftarrow> send_message cfg ict1 (ev_sip evt) (ict_destination ctx) (ict_port ctx) (out_socket ict1);
     if i < 0 then Some (emit sent (ict_handle_transport_error cfg ict1 i))
     else (case (if i = 0 then ict_message_sent (orig_request ict1) ctx else Inr ctx) of
             Inl e \<Rightarrow> Some (emit sent (ict_handle_transport_error cfg ict1 e))
           | Inr ctx2 \<Rightarrow>
               Some (osip_transaction_set_state (ict1\<lparr>ict_context := Ptr ctx2\<rparr>) ICT_CALLING,
                     sent @ osip_message_callback cfg OSIP_ICT_INVITE_SENT (orig_request ict1)))
   }"

definition osip_ict_timeout_a_event :: "osip_cfg \<Rightarrow> osip_transaction \<Rightarrow> osip_event \<Rightarrow> hres" where
  "osip_ict_timeout_a_event cfg ict evt = do {
     ctx \<leftarrow> cderef (ict_context ict);
     let len = timer_a_length ctx * 2;
     let ctx1 = ctx\<lparr>timer_a_length := len, timer_a_start := add_gettimeofday (gettimeofday cfg 0) len\<rparr>;
     let ict1 = ict\<lparr>ict_context := Ptr ctx1\<rparr>;
     (i, sent) \<leftarrow> send_message cfg ict1 (orig_request ict1) (ict_destination ctx1) (ict_port ctx1) (out_socket ict1);
     if i < 0 then Some (emit sent (ict_handle_transport_error cfg ict1 i))
     else if i = 0 then
       (case ict_message_sent (orig_request ict1) ctx1 of
          Inl e \<Rightarrow> Some (emit sent (ict_handle_transport_error cfg ict1 e))
        | Inr ctx2 \<Rightarrow>
            Some (ict1\<lparr>ict_context := Ptr ctx2\<rparr>,
                  sent @ osip_message_callback cfg OSIP_ICT_INVITE_SENT_AGAIN (orig_request ict1)))
     else Some (ict1, sent)
   }"

definition osip_ict_timeout_b_event :: "osip_cfg \<Rightarrow> osip_transaction \<Rightarrow> osip_event \<Rightarrow> hres" where
  "osip_ict_timeout_b_event cfg ict evt = do {
     ctx \<leftarrow> cderef (ict_context ict);
     let ctx1 = ctx\<lparr>timer_b_length := -1, timer_b_start := (timer_b_start ctx)\<lparr>tv_sec := -1\<rparr>\<rparr>;
     let ict1 = ict\<lparr>ict_context := Ptr ctx1\<rparr>;
     Some (emit (osip_message_callback cfg OSIP_ICT_STATUS_TIMEOUT (ev_sip evt)) (ict_kill cfg ict1))
   }"

definition ict_rcv_1xx :: "osip_cfg \<Rightarrow> osip_transaction \<Rightarrow> osip_event \<Rightarrow> hres" where
  "ict_rcv_1xx cfg ict evt =
     Some (osip_transaction_set_state (ict\<lparr>last_response := ev_sip evt\<rparr>) ICT_PROCEEDING,
           osip_message_free (last_response ict)
             @ osip_message_callback cfg OSIP_ICT_STATUS_1XX_RECEIVED (ev_sip evt))"

definition ict_rcv_2xx :: "osip_cfg \<Rightarrow> osip_transaction \<Rightarrow> osip_event \<Rightarrow> hres" where
  "ict_rcv_2xx cfg ict evt =
     Some (emit (osip_message_free (last_response ict)
                   @ osip_message_callback cfg OSIP_ICT_STATUS_2XX_RECEIVED (ev_sip evt))
                (ict_kill cfg (ict\<lparr>last_response := ev_sip evt\<rparr>)))"

text \<open>\<open>ict_create_ack\<close>: an outer \<open>None\<close> is undefined behaviour, an inner one the return of NULL.
  \<open>guard_ok i k\<close> is \<open>if (i != 0) { osip_message_free (ack); return NULL; }\<close> followed by \<open>k\<close>.\<close>

definition guard_ok :: "int \<Rightarrow> osip_message option \<Rightarrow> osip_message option" where
  "guard_ok i k = (if i \<noteq> 0 then None else k)"

definition ack_headers :: "osip_message \<Rightarrow> osip_message option" where
  \<comment> \<open>From, To, Call-ID and CSeq of the response; the CSeq method becomes ACK\<close>
  "ack_headers response =
     (let (i1, f) = osip_from_clone (msg_from response);
          (i2, t) = osip_to_clone (msg_to response);
          (i3, c) = osip_call_id_clone (msg_call_id response);
          (i4, cs) = osip_cseq_clone (msg_cseq response)
      in guard_ok i1 (guard_ok i2 (guard_ok i3 (guard_ok i4
           (Some (osip_message_init
             \<lparr>msg_from := f, msg_to := t, msg_call_id := c,
              msg_cseq := map_option (\<lambda>x. x\<lparr>cseq_method := Some ''ACK''\<rparr>) cs,
              sip_method := Some ''ACK''\<rparr>))))))"

definition ack_request :: "osip_message \<Rightarrow> osip_message \<Rightarrow> osip_message option" where
  \<comment> \<open>version, Request-URI, top Via and routes of the original request\<close>
  "ack_request oreq ack =
     (if sip_version oreq = None then None
      else (let (i1, u) = osip_uri_clone (req_uri oreq)
            in guard_ok i1
              (case snd (osip_message_get_via (Some oreq) 0) of
                 None \<Rightarrow> None
               | Some orig_via \<Rightarrow>
                   (let (i2, via) = osip_via_clone (Some orig_via);
                        (i3, rs) = seq_clone (\<lambda>r. osip_from_clone (Some r)) (routes oreq) []
                    in guard_ok i2 (guard_ok i3
                      (Some (ack\<lparr>sip_version := sip_version oreq, status_code := 0, reason_phrase := None,
                                 req_uri := u, vias := vias ack @ [the via], routes := routes ack @ rs\<rparr>)))))))"

definition ack_authorizations :: "osip_message \<Rightarrow> osip_message \<Rightarrow> osip_message \<Rightarrow> osip_message option" where
  "ack_authorizations oreq response ack =
     (if status_code response \<noteq> 401 \<and> status_code response \<noteq> 407 then
        (let (i1, as) = (if int (length (authorizations oreq)) > 0
                         then seq_clone (\<lambda>a. osip_authorization_clone (Some a)) (authorizations oreq) []
                         else (0, []));
             (i2, ps) = (if int (length (proxy_authorizations oreq)) > 0
                         then seq_clone (\<lambda>a. osip_authorization_clone (Some a)) (proxy_authorizations oreq) []
                         else (0, []))
         in guard_ok i1 (guard_ok i2
              (Some (ack\<lparr>authorizations := as, proxy_authorizations := ps\<rparr>))))
      else Some ack)"

definition ict_create_ack :: "osip_transaction \<Rightarrow> osip_message \<Rightarrow> osip_message option ub" where
  "ict_create_ack ict response =
     (case ack_headers response of
        None \<Rightarrow> Some None
      | Some ack1 \<Rightarrow> do {
          oreq \<leftarrow> deref (orig_request ict);
          Some (case ack_request oreq ack1 of
                  None \<Rightarrow> None
                | Some ack2 \<Rightarrow> ack_authorizations oreq response ack2)
        })"

definition ict_final_callback :: "osip_message \<Rightarrow> osip_message_callback_type_t" where
  "ict_final_callback m =
     (if MSG_IS_STATUS 3 m then OSIP_ICT_STATUS_3XX_RECEIVED
      else if MSG_IS_STATUS 4 m then OSIP_ICT_STATUS_4XX_RECEIVED
      else if MSG_IS_STATUS 5 m then OSIP_ICT_STATUS_5XX_RECEIVED
      else OSIP_ICT_STATUS_6XX_RECEIVED)"

definition ict_start_timer_d :: "osip_cfg \<Rightarrow> osip_transaction \<Rightarrow> osip_ict \<Rightarrow> osip_transaction" where
  "ict_start_timer_d cfg ict ctx =
     osip_transaction_set_state
       (ict\<lparr>ict_context := Ptr (ctx\<lparr>timer_d_start := add_gettimeofday (gettimeofday cfg 0) (timer_d_length ctx)\<rparr>)\<rparr>)
       ICT_COMPLETED"

definition ict_rcv_3456xx :: "osip_cfg \<Rightarrow> osip_transaction \<Rightarrow> osip_event \<Rightarrow> hres" where
  "ict_rcv_3456xx cfg ict evt = do {
     let freed = osip_message_free (last_response ict);
     let ict1 = ict\<lparr>last_response := ev_sip evt\<rparr>;
     if tr_state ict1 \<noteq> ICT_COMPLETED then do {
       resp \<leftarrow> deref (ev_sip evt);
       ack \<leftarrow> ict_create_ack ict1 resp;
       let ict2 = ict1\<lparr>tr_ack := ack\<rparr>;
       (case ack of
          None \<Rightarrow> Some (emit freed (ict_kill cfg ict2))
        | Some a \<Rightarrow> do {
            ctx \<leftarrow> cderef (ict_context ict2);
            ctx2 \<leftarrow> (if ict_destination ctx = None
                     then do { (d, p) \<leftarrow> request_destination a; Some (osip_ict_set_destination ctx d p) }
                     else Some ctx);
            let ict3 = ict2\<lparr>ict_context := Ptr ctx2\<rparr>;
            (i, sent) \<leftarrow> send_message cfg ict3 ack (ict_destination ctx2) (ict_port ctx2) (out_socket ict3);
            if i \<noteq> 0 then Some (emit (freed @ sent) (ict_handle_transport_error cfg ict3 i))
            else Some (ict_start_timer_d cfg ict3 ctx2,
                       freed @ sent @ osip_message_callback cfg (ict_final_callback resp) (ev_sip evt)
                         @ osip_message_callback cfg OSIP_ICT_ACK_SENT ack)
          })
     }
     else do {
       ctx \<leftarrow> cderef (ict_context ict1);
       Some (ict_start_timer_d cfg ict1 ctx, freed)
     }
   }"

definition osip_ict_timeout_d_event :: "osip_cfg \<Rightarrow> osip_transaction \<Rightarrow> osip_event \<Rightarrow> hres" where
  "osip_ict_timeout_d_event cfg ict evt = do {
     ctx \<leftarrow> cderef (ict_context ict);
     let ctx1 = ctx\<lparr>timer_d_length := -1, timer_d_start := (timer_d_start ctx)\<lparr>tv_sec := -1\<rparr>\<rparr>;
     Some (ict_kill cfg (ict\<lparr>ict_context := Ptr ctx1\<rparr>))
   }"

definition ict_retransmit_ack :: "osip_cfg \<Rightarrow> osip_transaction \<Rightarrow> osip_event \<Rightarrow> hres" where
  "ict_retransmit_ack cfg ict evt = do {
     let acts = osip_message_callback cfg OSIP_ICT_STATUS_3456XX_RECEIVED_AGAIN (ev_sip evt)
                  @ osip_message_free (ev_sip evt);
     ctx \<leftarrow> cderef (ict_context ict);
     (i, sent) \<leftarrow> send_message cfg ict (tr_ack ict) (ict_destination ctx) (ict_port ctx) (out_socket ict);
     if i = 0 then
       Some (osip_transaction_set_state ict ICT_COMPLETED,
             acts @ sent @ osip_message_callback cfg OSIP_ICT_ACK_SENT_AGAIN (tr_ack ict))
     else Some (emit (acts @ sent) (ict_handle_transport_error cfg ict i))
   }"

end
