(* ===== verification/Osip_Nict.thy ===== *)
theory Osip_Nict
  imports Osip_Xixt
begin

text \<open>
  The non-INVITE client transaction: its context (\<open>src/osip2/nict.c\<close>) and the handlers of its
  state machine (\<open>src/osip2/nict_fsm.c\<close>), in the build without \<open>USE_BLOCKINGSOCKET\<close>.
\<close>

section \<open>Context\<close>

definition nict_zero :: osip_nict where
  "nict_zero = \<lparr>timer_e_length = 0, timer_e_start = tv_zero, timer_f_length = 0, timer_f_start = tv_zero,
     timer_k_length = 0, timer_k_start = tv_zero, nict_destination = None, nict_port = 0\<rparr>"

definition osip_nict_set_destination :: "osip_nict \<Rightarrow> string option \<Rightarrow> int \<Rightarrow> osip_nict" where
  "osip_nict_set_destination nict d p = nict\<lparr>nict_destination := d, nict_port := p\<rparr>"

definition osip_nict_init :: "osip_cfg \<Rightarrow> osip_message \<Rightarrow> (int \<times> osip_nict cptr) ub" where
  \<comment> \<open>\<open>__osip_nict_init\<close>\<close>
  "osip_nict_init cfg request =
     (case osip_message_get_via (Some request) 0 of
        (i, via) \<Rightarrow>
          if i < 0 then Some (i, Null)
          else (case via_get_protocol via of
                  None \<Rightarrow> Some (OSIP_UNDEFINED_ERROR, Null)
                | Some proto \<Rightarrow> do {
                    let nict1 =
                      nict_zero\<lparr>timer_e_length := DEFAULT_T1,
                                timer_k_length := (if \<not> reliable_proto proto then DEFAULT_T4 else 0),
                                timer_e_start := (timer_e_start nict_zero)\<lparr>tv_sec := -1\<rparr>,
                                timer_k_start := (timer_k_start nict_zero)\<lparr>tv_sec := -1\<rparr>\<rparr>;
                    (d, p) \<leftarrow> request_destination request;
                    let nict2 = osip_nict_set_destination nict1 d p;
                    let nict3 = nict2\<lparr>timer_f_length := 64 * DEFAULT_T1,
                                      timer_f_start := add_gettimeofday (gettimeofday cfg 0) (64 * DEFAULT_T1)\<rparr>;
                    Some (OSIP_SUCCESS, Ptr nict3)
                  }))"

definition osip_nict_need_timer_e_event :: "timeval \<Rightarrow> osip_nict cptr \<Rightarrow> state_t \<Rightarrow> int \<Rightarrow> osip_event option ub" where
  "osip_nict_need_timer_e_event now nict st tid =
     osip_transaction_need_timer_x_event now nict timer_e_start (st = NICT_PROCEEDING \<or> st = NICT_TRYING) tid TIMEOUT_E"

definition osip_nict_need_timer_f_event :: "timeval \<Rightarrow> osip_nict cptr \<Rightarrow> state_t \<Rightarrow> int \<Rightarrow> osip_event option ub" where
  "osip_nict_need_timer_f_event now nict st tid =
     osip_transaction_need_timer_x_event now nict timer_f_start (st = NICT_PROCEEDING \<or> st = NICT_TRYING) tid TIMEOUT_F"

definition osip_nict_need_timer_k_event :: "timeval \<Rightarrow> osip_nict cptr \<Rightarrow> state_t \<Rightarrow> int \<Rightarrow> osip_event option ub" where
  "osip_nict_need_timer_k_event now nict st tid =
     osip_transaction_need_timer_x_event now nict timer_k_start (st = NICT_COMPLETED) tid TIMEOUT_K"

section \<open>Handlers\<close>

definition nict_kill :: "osip_cfg \<Rightarrow> osip_transaction \<Rightarrow> osip_transaction \<times> action list" where
  \<comment> \<open>the last two lines of every handler that ends the transaction\<close>
  "nict_kill cfg nict =
     osip_kill_transaction_callback cfg OSIP_NICT_KILL_TRANSACTION
       (osip_transaction_set_state nict NICT_TERMINATED)"

definition nict_handle_transport_error :: "osip_cfg \<Rightarrow> osip_transaction \<Rightarrow> int \<Rightarrow> osip_transaction \<times> action list" where
  "nict_handle_transport_error cfg nict err =
     emit (osip_transport_error_callback cfg OSIP_NICT_TRANSPORT_ERROR err) (nict_kill cfg nict)"

text \<open>The callback that announces a request sent: a chain of \<open>MSG_IS_\<close> tests.\<close>

fun first_method :: "(string \<times> osip_message_callback_type_t) list \<Rightarrow> osip_message_callback_type_t \<Rightarrow>
    osip_message \<Rightarrow> osip_message_callback_type_t ub" where
  "first_method [] other m = Some other"
| "first_method ((name, ty) # rest) other m = do {
     b \<leftarrow> MSG_IS_METHOD name m;
     if b then Some ty else first_method rest other m
   }"

definition nict_request_callback :: "osip_message \<Rightarrow> osip_message_callback_type_t ub" where
  "nict_request_callback m =
     first_method
       [(''REGISTER'', OSIP_NICT_REGISTER_SENT), (''BYE'', OSIP_NICT_BYE_SENT),
        (''OPTIONS'', OSIP_NICT_OPTIONS_SENT), (''INFO'', OSIP_NICT_INFO_SENT),
        (''CANCEL'', OSIP_NICT_CANCEL_SENT), (''NOTIFY'', OSIP_NICT_NOTIFY_SENT),
        (''SUBSCRIBE'', OSIP_NICT_SUBSCRIBE_SENT)]
       OSIP_NICT_UNKNOWN_REQUEST_SENT m"

text \<open>The transport of the original request; \<open>None\<close> where the code reports a transport error.\<close>

definition nict_orig_proto :: "osip_message option \<Rightarrow> string option" where
  "nict_orig_proto orig =
     (case osip_message_get_via orig 0 of
        (k, via) \<Rightarrow> if k < 0 then None else via_get_protocol via)"

definition nict_timer_e_off :: "osip_nict \<Rightarrow> osip_nict" where
  "nict_timer_e_off ctx =
     ctx\<lparr>timer_e_length := -1, timer_e_start := (timer_e_start ctx)\<lparr>tv_sec := -1\<rparr>\<rparr>"

definition nict_snd_request :: "osip_cfg \<Rightarrow> osip_transaction \<Rightarrow> osip_event \<Rightarrow> hres" where
  "nict_snd_request cfg nict evt = do {
     let nict1 = nict\<lparr>orig_request := ev_sip evt\<rparr>;
     ctx \<leftarrow> cderef (nict_context nict1);
     (i, sent) \<leftarrow> send_message cfg nict1 (ev_sip evt) (nict_destination ctx) (nict_port ctx) (out_socket nict1);
     if i \<ge> 0 then do {
       m \<leftarrow> deref (ev_sip evt);
       ty \<leftarrow> nict_request_callback m;
       let acts = sent @ osip_message_callback cfg ty (orig_request nict1);
       (case nict_orig_proto (orig_request nict1) of
          None \<Rightarrow> Some (emit acts (nict_handle_transport_error cfg nict1 (-1)))
        | Some proto \<Rightarrow> do {
            let ctx1 = (if \<not> reliable_proto proto then ctx
                        else if i = 0 then nict_timer_e_off ctx
                        else ctx\<lparr>timer_e_length := DEFAULT_T1_TCP_PROGRESS\<rparr>);
            let ctx2 = (if timer_e_length ctx1 > 0
                        then ctx1\<lparr>timer_e_start := add_gettimeofday (gettimeofday cfg 0) (timer_e_length ctx1)\<rparr>
                        else ctx1);
            Some (osip_transaction_set_state (nict1\<lparr>nict_context := Ptr ctx2\<rparr>) NICT_TRYING, acts)
          })
     }
     else Some (emit sent (nict_handle_transport_error cfg nict1 i))
   }"

definition nict_next_e_length :: "state_t \<Rightarrow> int \<Rightarrow> int" where
  "nict_next_e_length st len =
     (if st = NICT_TRYING then
        (let l = (if len < DEFAULT_T1 then len + DEFAULT_T1_TCP_PROGRESS else len * 2)
         in if l > DEFAULT_T2 then DEFAULT_T2 else l)
      else DEFAULT_T2)"

definition osip_nict_timeout_e_event :: "osip_cfg \<Rightarrow> osip_transaction \<Rightarrow> osip_event \<Rightarrow> hres" where
  "osip_nict_timeout_e_event cfg nict evt = do {
     ctx \<leftarrow> cderef (nict_context nict);
     let len = nict_next_e_length (tr_state nict) (timer_e_length ctx);
     let ctx1 = ctx\<lparr>timer_e_length := len, timer_e_start := add_gettimeofday (gettimeofday cfg 0) len\<rparr>;
     let nict1 = nict\<lparr>nict_context := Ptr ctx1\<rparr>;
     (i, sent) \<leftarrow> send_message cfg nict1 (orig_request nict1) (nict_destination ctx1) (nict_port ctx1) (out_socket nict1);
     if i < 0 then Some (emit sent (nict_handle_transport_error cfg nict1 i))
     else if i = 0 then
       (case nict_orig_proto (orig_request nict1) of
          None \<Rightarrow> Some (emit sent (nict_handle_transport_error cfg nict1 (-1)))
        | Some proto \<Rightarrow>
            Some (nict1\<lparr>nict_context := Ptr (if \<not> reliable_proto proto then ctx1 else nict_timer_e_off ctx1)\<rparr>,
                  sent @ osip_message_callback cfg OSIP_NICT_REQUEST_SENT_AGAIN (orig_request nict1)))
     else Some (nict1, sent)
   }"

definition osip_nict_timeout_f_event :: "osip_cfg \<Rightarrow> osip_transaction \<Rightarrow> osip_event \<Rightarrow> hres" where
  "osip_nict_timeout_f_event cfg nict evt = do {
     ctx \<leftarrow> cderef (nict_context nict);
     let ctx1 = ctx\<lparr>timer_f_length := -1, timer_f_start := (timer_f_start ctx)\<lparr>tv_sec := -1\<rparr>\<rparr>;
     Some (emit (osip_message_callback cfg OSIP_NICT_STATUS_TIMEOUT (ev_sip evt))
                (nict_kill cfg (nict\<lparr>nict_context := Ptr ctx1\<rparr>)))
   }"

definition osip_nict_timeout_k_event :: "osip_cfg \<Rightarrow> osip_transaction \<Rightarrow> osip_event \<Rightarrow> hres" where
  "osip_nict_timeout_k_event cfg nict evt = do {
     ctx \<leftarrow> cderef (nict_context nict);
     let ctx1 = ctx\<lparr>timer_k_length := -1, timer_k_start := (timer_k_start ctx)\<lparr>tv_sec := -1\<rparr>\<rparr>;
     Some (nict_kill cfg (nict\<lparr>nict_context := Ptr ctx1\<rparr>))
   }"

definition nict_rcv_1xx :: "osip_cfg \<Rightarrow> osip_transaction \<Rightarrow> osip_event \<Rightarrow> hres" where
  "nict_rcv_1xx cfg nict evt = do {
     let freed = osip_message_free (last_response nict);
     ctx \<leftarrow> cderef (nict_context nict);
     let ctx1 = (if timer_e_length ctx > 0
                 then ctx\<lparr>timer_e_length := DEFAULT_T2,
                          timer_e_start := add_gettimeofday (gettimeofday cfg 0) DEFAULT_T2\<rparr>
                 else ctx);
     Some (osip_transaction_set_state
             (nict\<lparr>last_response := ev_sip evt, nict_context := Ptr ctx1\<rparr>) NICT_PROCEEDING,
           freed @ osip_message_callback cfg OSIP_NICT_STATUS_1XX_RECEIVED (ev_sip evt))
   }"

definition nict_final_callback :: "osip_event \<Rightarrow> osip_message_callback_type_t ub" where
  "nict_final_callback evt =
     (if ev_type evt = RCV_STATUS_2XX then Some OSIP_NICT_STATUS_2XX_RECEIVED
      else do {
        m \<leftarrow> deref (ev_sip evt);
        Some (if MSG_IS_STATUS 3 m then OSIP_NICT_STATUS_3XX_RECEIVED
              else if MSG_IS_STATUS 4 m then OSIP_NICT_STATUS_4XX_RECEIVED
              else if MSG_IS_STATUS 5 m then OSIP_NICT_STATUS_5XX_RECEIVED
              else OSIP_NICT_STATUS_6XX_RECEIVED)
      })"

definition nict_rcv_23456xx :: "osip_cfg \<Rightarrow> osip_transaction \<Rightarrow> osip_event \<Rightarrow> hres" where
  "nict_rcv_23456xx cfg nict evt = do {
     let freed = osip_message_free (last_response nict);
     let nict1 = nict\<lparr>last_response := ev_sip evt\<rparr>;
     ty \<leftarrow> nict_final_callback evt;
     let acts = freed @ osip_message_callback cfg ty (last_response nict1);
     nict2 \<leftarrow> (if tr_state nict1 \<noteq> NICT_COMPLETED then do {
                 ctx \<leftarrow> cderef (nict_context nict1);
                 Some (nict1\<lparr>nict_context :=
                   Ptr (ctx\<lparr>timer_k_start := add_gettimeofday (gettimeofday cfg 0) (timer_k_length ctx)\<rparr>)\<rparr>)
               }
               else Some nict1);
     Some (osip_transaction_set_state nict2 NICT_COMPLETED, acts)
   }"

end
