(* ===== verification/Osip_Ist.thy ===== *)
theory Osip_Ist
  imports Osip_Xixt
begin

text \<open>
  The INVITE server transaction: its context (\<open>src/osip2/ist.c\<close>) and the handlers of its state
  machine (\<open>src/osip2/ist_fsm.c\<close>).
\<close>

section \<open>Context\<close>

definition ist_zero :: osip_ist where
  "ist_zero = \<lparr>timer_g_length = 0, timer_g_start = tv_zero, timer_h_length = 0, timer_h_start = tv_zero,
     timer_i_length = 0, timer_i_start = tv_zero\<rparr>"

definition osip_ist_init :: "osip_message \<Rightarrow> int \<times> osip_ist cptr" where
  \<comment> \<open>\<open>__osip_ist_init\<close>\<close>
  "osip_ist_init invite =
     (case osip_message_get_via (Some invite) 0 of
        (i, via) \<Rightarrow>
          if i < 0 then (i, Null)
          else (case via_get_protocol via of
                  None \<Rightarrow> (OSIP_UNDEFINED_ERROR, Null)
                | Some proto \<Rightarrow>
                    (let ist1 =
                       (if \<not> reliable_proto proto then
                          ist_zero\<lparr>timer_g_length := DEFAULT_T1, timer_i_length := DEFAULT_T4,
                                   timer_g_start := (timer_g_start ist_zero)\<lparr>tv_sec := -1\<rparr>,
                                   timer_i_start := (timer_i_start ist_zero)\<lparr>tv_sec := -1\<rparr>\<rparr>
                        else
                          ist_zero\<lparr>timer_g_length := -1, timer_i_length := 0,
                                   timer_g_start := (timer_g_start ist_zero)\<lparr>tv_sec := -1\<rparr>,
                                   timer_i_start := (timer_i_start ist_zero)\<lparr>tv_sec := -1\<rparr>\<rparr>)
                     in (OSIP_SUCCESS,
                         Ptr (ist1\<lparr>timer_h_length := 64 * DEFAULT_T1,
                                   timer_h_start := (timer_h_start ist1)\<lparr>tv_sec := -1\<rparr>\<rparr>)))))"

definition osip_ist_need_timer_g_event :: "timeval \<Rightarrow> osip_ist cptr \<Rightarrow> state_t \<Rightarrow> int \<Rightarrow> osip_event option ub" where
  "osip_ist_need_timer_g_event now ist st tid =
     osip_transaction_need_timer_x_event now ist timer_g_start (st = IST_COMPLETED) tid TIMEOUT_G"

definition osip_ist_need_timer_h_event :: "timeval \<Rightarrow> osip_ist cptr \<Rightarrow> state_t \<Rightarrow> int \<Rightarrow> osip_event option ub" where
  "osip_ist_need_timer_h_event now ist st tid =
     osip_transaction_need_timer_x_event now ist timer_h_start (st = IST_COMPLETED) tid TIMEOUT_H"

definition osip_ist_need_timer_i_event :: "timeval \<Rightarrow> osip_ist cptr \<Rightarrow> state_t \<Rightarrow> int \<Rightarrow> osip_event option ub" where
  "osip_ist_need_timer_i_event now ist st tid =
     osip_transaction_need_timer_x_event now ist timer_i_start (st = IST_CONFIRMED) tid TIMEOUT_I"

section \<open>Handlers\<close>

definition ist_kill :: "osip_cfg \<Rightarrow> osip_transaction \<Rightarrow> osip_transaction \<times> action list" where
  \<comment> \<open>the last two lines of every handler that ends the transaction\<close>
  "ist_kill cfg ist =
     osip_kill_transaction_callback cfg OSIP_IST_KILL_TRANSACTION
       (osip_transaction_set_state ist IST_TERMINATED)"

definition ist_handle_transport_error :: "osip_cfg \<Rightarrow> osip_transaction \<Rightarrow> int \<Rightarrow> osip_transaction \<times> action list" where
  "ist_handle_transport_error cfg ist err =
     emit (osip_transport_error_callback cfg OSIP_IST_TRANSPORT_ERROR err) (ist_kill cfg ist)"

definition ist_again_callback :: "osip_message \<Rightarrow> osip_message_callback_type_t" where
  "ist_again_callback m =
     (if MSG_IS_STATUS 1 m then OSIP_IST_STATUS_1XX_SENT
      else if MSG_IS_STATUS 2 m then OSIP_IST_STATUS_2XX_SENT_AGAIN
      else OSIP_IST_STATUS_3456XX_SENT_AGAIN)"

definition ist_rcv_invite :: "osip_cfg \<Rightarrow> osip_transaction \<Rightarrow> osip_event \<Rightarrow> hres" where
  "ist_rcv_invite cfg ist evt =
     (if tr_state ist = IST_PRE_PROCEEDING then
        Some (osip_transaction_set_state (ist\<lparr>orig_request := ev_sip evt\<rparr>) IST_PROCEEDING,
              osip_message_callback cfg OSIP_IST_INVITE_RECEIVED (ev_sip evt))
      else do {
        let acts = osip_message_free (ev_sip evt)
                     @ osip_message_callback cfg OSIP_IST_INVITE_RECEIVED_AGAIN (orig_request ist);
        (case last_response ist of
           None \<Rightarrow> Some (ist, acts)
         | Some r \<Rightarrow> do {
             (i, sent) \<leftarrow> osip_transaction_snd_xxx cfg ist (Some r);
             if i \<noteq> 0 then Some (emit (acts @ sent) (ist_handle_transport_error cfg ist i))
             else Some (ist, acts @ sent @ osip_message_callback cfg (ist_again_callback r) (last_response ist))
           })
      })"

definition ist_next_g_length :: "int \<Rightarrow> int" where
  "ist_next_g_length len = (if len * 2 > DEFAULT_T2 then DEFAULT_T2 else len * 2)"

definition osip_ist_timeout_g_event :: "osip_cfg \<Rightarrow> osip_transaction \<Rightarrow> osip_event \<Rightarrow> hres" where
  "osip_ist_timeout_g_event cfg ist evt = do {
     ctx \<leftarrow> cderef (ist_context ist);
     let len = ist_next_g_length (timer_g_length ctx);
     let ist1 = ist\<lparr>ist_context := Ptr (ctx\<lparr>timer_g_length := len,
                      timer_g_start := add_gettimeofday (gettimeofday cfg 0) len\<rparr>)\<rparr>;
     (i, sent) \<leftarrow> osip_transaction_snd_xxx cfg ist1 (last_response ist1);
     if i \<noteq> 0 then Some (emit sent (ist_handle_transport_error cfg ist1 i))
     else Some (ist1, sent @ osip_message_callback cfg OSIP_IST_STATUS_3456XX_SENT_AGAIN (last_response ist1))
   }"

definition osip_ist_timeout_h_event :: "osip_cfg \<Rightarrow> osip_transaction \<Rightarrow> osip_event \<Rightarrow> hres" where
  "osip_ist_timeout_h_event cfg ist evt = do {
     ctx \<leftarrow> cderef (ist_context ist);
     let ctx1 = ctx\<lparr>timer_h_length := -1, timer_h_start := (timer_h_start ctx)\<lparr>tv_sec := -1\<rparr>\<rparr>;
     Some (ist_kill cfg (ist\<lparr>ist_context := Ptr ctx1\<rparr>))
   }"

definition osip_ist_timeout_i_event :: "osip_cfg \<Rightarrow> osip_transaction \<Rightarrow> osip_event \<Rightarrow> hres" where
  "osip_ist_timeout_i_event cfg ist evt = do {
     ctx \<leftarrow> cderef (ist_context ist);
     let ctx1 = ctx\<lparr>timer_i_length := -1, timer_i_start := (timer_i_start ctx)\<lparr>tv_sec := -1\<rparr>\<rparr>;
     Some (ist_kill cfg (ist\<lparr>ist_context := Ptr ctx1\<rparr>))
   }"

definition ist_snd_1xx :: "osip_cfg \<Rightarrow> osip_transaction \<Rightarrow> osip_event \<Rightarrow> hres" where
  "ist_snd_1xx cfg ist evt = do {
     let freed = osip_message_free (last_response ist);
     let ist1 = ist\<lparr>last_response := ev_sip evt\<rparr>;
     (i, sent) \<leftarrow> osip_transaction_snd_xxx cfg ist1 (ev_sip evt);
     if i \<noteq> 0 then Some (emit (freed @ sent) (ist_handle_transport_error cfg ist1 i))
     else Some (ist1, freed @ sent @ osip_message_callback cfg OSIP_IST_STATUS_1XX_SENT (last_response ist1))
   }"

definition ist_snd_2xx :: "osip_cfg \<Rightarrow> osip_transaction \<Rightarrow> osip_event \<Rightarrow> hres" where
  "ist_snd_2xx cfg ist evt = do {
     let freed = osip_message_free (last_response ist);
     let ist1 = ist\<lparr>last_response := ev_sip evt\<rparr>;
     (i, sent) \<leftarrow> osip_transaction_snd_xxx cfg ist1 (ev_sip evt);
     if i \<noteq> 0 then Some (emit (freed @ sent) (ist_handle_transport_error cfg ist1 i))
     else Some (emit (freed @ sent @ osip_message_callback cfg OSIP_IST_STATUS_2XX_SENT (last_response ist1))
                     (ist_kill cfg ist1))
   }"

definition ist_final_callback :: "osip_message \<Rightarrow> osip_message_callback_type_t" where
  "ist_final_callback m =
     (if MSG_IS_STATUS 3 m then OSIP_IST_STATUS_3XX_SENT
      else if MSG_IS_STATUS 4 m then OSIP_IST_STATUS_4XX_SENT
      else if MSG_IS_STATUS 5 m then OSIP_IST_STATUS_5XX_SENT
      else OSIP_IST_STATUS_6XX_SENT)"

definition ist_snd_3456xx :: "osip_cfg \<Rightarrow> osip_transaction \<Rightarrow> osip_event \<Rightarrow> hres" where
  "ist_snd_3456xx cfg ist evt = do {
     let freed = osip_message_free (last_response ist);
     let ist1 = ist\<lparr>last_response := ev_sip evt\<rparr>;
     (i, sent) \<leftarrow> osip_transaction_snd_xxx cfg ist1 (ev_sip evt);
     if i \<noteq> 0 then Some (emit (freed @ sent) (ist_handle_transport_error cfg ist1 i))
     else do {
       m \<leftarrow> deref (last_response ist1);
       ctx \<leftarrow> cderef (ist_context ist1);
       let ctx1 = (if timer_g_length ctx \<noteq> -1
                   then ctx\<lparr>timer_g_start := add_gettimeofday (gettimeofday cfg 0) (timer_g_length ctx)\<rparr>
                   else ctx);
       let ctx2 = ctx1\<lparr>timer_h_start := add_gettimeofday (gettimeofday cfg 1) (timer_h_length ctx1)\<rparr>;
       Some (osip_transaction_set_state (ist1\<lparr>ist_context := Ptr ctx2\<rparr>) IST_COMPLETED,
             freed @ sent @ osip_message_callback cfg (ist_final_callback m) (last_response ist1))
     }
   }"

definition ist_rcv_ack :: "osip_cfg \<Rightarrow> osip_transaction \<Rightarrow> osip_event \<Rightarrow> hres" where
  "ist_rcv_ack cfg ist evt = do {
     let freed = osip_message_free (tr_ack ist);
     let ist1 = ist\<lparr>tr_ack := ev_sip evt\<rparr>;
     let ty = (if tr_state ist1 = IST_COMPLETED then OSIP_IST_ACK_RECEIVED else OSIP_IST_ACK_RECEIVED_AGAIN);
     ctx \<leftarrow> cderef (ist_context ist1);
     let ctx1 = ctx\<lparr>timer_i_start := add_gettimeofday (gettimeofday cfg 0) (timer_i_length ctx)\<rparr>;
     Some (osip_transaction_set_state (ist1\<lparr>ist_context := Ptr ctx1\<rparr>) IST_CONFIRMED,
           freed @ osip_message_callback cfg ty (tr_ack ist1))
   }"

end
