(* ===== verification/Osip_Nist.thy ===== *)
theory Osip_Nist
  imports Osip_Nict
begin

text \<open>
  The non-INVITE server transaction: its context (\<open>src/osip2/nist.c\<close>) and the handlers of its
  state machine (\<open>src/osip2/nist_fsm.c\<close>).  The chain of method tests is \<open>first_method\<close>, shared
  with the non-INVITE client.
\<close>

section \<open>Context\<close>

definition nist_zero :: osip_nist where
  "nist_zero = \<lparr>timer_j_length = 0, timer_j_start = tv_zero\<rparr>"

definition osip_nist_init :: "osip_message \<Rightarrow> int \<times> osip_nist cptr" where
  \<comment> \<open>\<open>__osip_nist_init\<close>\<close>
  "osip_nist_init request =
     (case osip_message_get_via (Some request) 0 of
        (i, via) \<Rightarrow>
          if i < 0 then (i, Null)
          else (case via_get_protocol via of
                  None \<Rightarrow> (OSIP_UNDEFINED_ERROR, Null)
                | Some proto \<Rightarrow>
                    (OSIP_SUCCESS,
                     Ptr (nist_zero\<lparr>timer_j_length := (if \<not> reliable_proto proto then 64 * DEFAULT_T1 else 0),
                                    timer_j_start := (timer_j_start nist_zero)\<lparr>tv_sec := -1\<rparr>\<rparr>))))"

definition osip_nist_need_timer_j_event :: "timeval \<Rightarrow> osip_nist cptr \<Rightarrow> state_t \<Rightarrow> int \<Rightarrow> osip_event option ub" where
  "osip_nist_need_timer_j_event now nist st tid =
     osip_transaction_need_timer_x_event now nist timer_j_start (st = NIST_COMPLETED) tid TIMEOUT_J"

section \<open>Handlers\<close>

definition nist_kill :: "osip_cfg \<Rightarrow> osip_transaction \<Rightarrow> osip_transaction \<times> action list" where
  \<comment> \<open>the last two lines of every handler that ends the transaction\<close>
  "nist_kill cfg nist =
     osip_kill_transaction_callback cfg OSIP_NIST_KILL_TRANSACTION
       (osip_transaction_set_state nist NIST_TERMINATED)"

definition nist_handle_transport_error :: "osip_cfg \<Rightarrow> osip_transaction \<Rightarrow> int \<Rightarrow> osip_transaction \<times> action list" where
  "nist_handle_transport_error cfg nist err =
     emit (osip_transport_error_callback cfg OSIP_NIST_TRANSPORT_ERROR err) (nist_kill cfg nist)"

definition nist_request_callback :: "osip_message \<Rightarrow> osip_message_callback_type_t ub" where
  "nist_request_callback m =
     first_method
       [(''REGISTER'', OSIP_NIST_REGISTER_RECEIVED), (''BYE'', OSIP_NIST_BYE_RECEIVED),
        (''OPTIONS'', OSIP_NIST_OPTIONS_RECEIVED), (''INFO'', OSIP_NIST_INFO_RECEIVED),
        (''CANCEL'', OSIP_NIST_CANCEL_RECEIVED), (''NOTIFY'', OSIP_NIST_NOTIFY_RECEIVED),
        (''SUBSCRIBE'', OSIP_NIST_SUBSCRIBE_RECEIVED)]
       OSIP_NIST_UNKNOWN_REQUEST_RECEIVED m"

definition nist_again_callback :: "osip_message \<Rightarrow> osip_message_callback_type_t" where
  "nist_again_callback m =
     (if MSG_IS_STATUS 1 m then OSIP_NIST_STATUS_1XX_SENT
      else if MSG_IS_STATUS 2 m then OSIP_NIST_STATUS_2XX_SENT_AGAIN
      else OSIP_NIST_STATUS_3456XX_SENT_AGAIN)"

definition nist_rcv_request :: "osip_cfg \<Rightarrow> osip_transaction \<Rightarrow> osip_event \<Rightarrow> hres" where
  "nist_rcv_request cfg nist evt =
     (if tr_state nist = NIST_PRE_TRYING then do {
        let nist1 = nist\<lparr>orig_request := ev_sip evt\<rparr>;
        m \<leftarrow> deref (ev_sip evt);
        ty \<leftarrow> nist_request_callback m;
        Some (osip_transaction_set_state nist1 NIST_TRYING,
              osip_message_callback cfg ty (orig_request nist1))
      }
      else do {
        let acts = osip_message_free (ev_sip evt)
                     @ osip_message_callback cfg OSIP_NIST_REQUEST_RECEIVED_AGAIN (orig_request nist);
        (case last_response nist of
           None \<Rightarrow> Some (nist, acts)
         | Some r \<Rightarrow> do {
             (i, sent) \<leftarrow> osip_transaction_snd_xxx cfg nist (Some r);
             if i \<noteq> 0 then Some (emit (acts @ sent) (nist_handle_transport_error cfg nist i))
             else Some (nist, acts @ sent @ osip_message_callback cfg (nist_again_callback r) (last_response nist))
           })
      })"

definition nist_snd_1xx :: "osip_cfg \<Rightarrow> osip_transaction \<Rightarrow> osip_event \<Rightarrow> hres" where
  "nist_snd_1xx cfg nist evt = do {
     let freed = osip_message_free (last_response nist);
     let nist1 = nist\<lparr>last_response := ev_sip evt\<rparr>;
     (i, sent) \<leftarrow> osip_transaction_snd_xxx cfg nist1 (last_response nist1);
     if i \<noteq> 0 then Some (emit (freed @ sent) (nist_handle_transport_error cfg nist1 i))
     else Some (osip_transaction_set_state nist1 NIST_PROCEEDING,
                freed @ sent @ osip_message_callback cfg OSIP_NIST_STATUS_1XX_SENT (last_response nist1))
   }"

definition nist_final_callback :: "osip_event \<Rightarrow> osip_message \<Rightarrow> osip_message_callback_type_t" where
  "nist_final_callback evt m =
     (if ev_type evt = SND_STATUS_2XX then OSIP_NIST_STATUS_2XX_SENT
      else if MSG_IS_STATUS 3 m then OSIP_NIST_STATUS_3XX_SENT
      else if MSG_IS_STATUS 4 m then OSIP_NIST_STATUS_4XX_SENT
      else if MSG_IS_STATUS 5 m then OSIP_NIST_STATUS_5XX_SENT
      else OSIP_NIST_STATUS_6XX_SENT)"

definition nist_snd_23456xx :: "osip_cfg \<Rightarrow> osip_transaction \<Rightarrow> osip_event \<Rightarrow> hres" where
  "nist_snd_23456xx cfg nist evt = do {
     let freed = osip_message_free (last_response nist);
     let nist1 = nist\<lparr>last_response := ev_sip evt\<rparr>;
     (i, sent) \<leftarrow> osip_transaction_snd_xxx cfg nist1 (last_response nist1);
     if i \<noteq> 0 then Some (emit (freed @ sent) (nist_handle_transport_error cfg nist1 i))
     else do {
       m \<leftarrow> deref (last_response nist1);
       nist2 \<leftarrow> (if tr_state nist1 \<noteq> NIST_COMPLETED then do {
                   ctx \<leftarrow> cderef (nist_context nist1);
                   Some (nist1\<lparr>nist_context :=
                     Ptr (ctx\<lparr>timer_j_start := add_gettimeofday (gettimeofday cfg 0) (timer_j_length ctx)\<rparr>)\<rparr>)
                 }
                 else Some nist1);
       Some (osip_transaction_set_state nist2 NIST_COMPLETED,
             freed @ sent @ osip_message_callback cfg (nist_final_callback evt m) (last_response nist1))
     }
   }"

definition osip_nist_timeout_j_event :: "osip_cfg \<Rightarrow> osip_transaction \<Rightarrow> osip_event \<Rightarrow> hres" where
  "osip_nist_timeout_j_event cfg nist evt = do {
     ctx \<leftarrow> cderef (nist_context nist);
     let ctx1 = ctx\<lparr>timer_j_length := -1, timer_j_start := (timer_j_start ctx)\<lparr>tv_sec := -1\<rparr>\<rparr>;
     Some (nist_kill cfg (nist\<lparr>nist_context := Ptr ctx1\<rparr>))
   }"

end
