(* ===== verification/Osip_Fsm.thy ===== *)
theory Osip_Fsm
  imports Osip_Ict Osip_Nict Osip_Ist Osip_Nist
begin

text \<open>
  The four transition tables, the search in them (\<open>src/osip2/fsm_misc.c\<close>) and
  \<open>osip_transaction_execute\<close>; the state machines of RFC 3261, section 17, as the specification
  they implement; the invariant of a transaction and what one step does to it.
\<close>

section \<open>Tables and dispatch\<close>

record transition =
  trans_state :: state_t
  trans_type :: type_t
  trans_method :: "osip_cfg \<Rightarrow> osip_transaction \<Rightarrow> osip_event \<Rightarrow> hres"

definition mk_transition :: "state_t \<Rightarrow> type_t \<Rightarrow> (osip_cfg \<Rightarrow> osip_transaction \<Rightarrow> osip_event \<Rightarrow> hres) \<Rightarrow> transition" where
  "mk_transition st ty f = \<lparr>trans_state = st, trans_type = ty, trans_method = f\<rparr>"

text \<open>A table is the list of its entries in the order of the \<open>next\<close> pointers.\<close>

definition ict_transition :: "transition list" where
  "ict_transition =
     [mk_transition ICT_PRE_CALLING SND_REQINVITE ict_snd_invite,
      mk_transition ICT_CALLING TIMEOUT_A osip_ict_timeout_a_event,
      mk_transition ICT_CALLING TIMEOUT_B osip_ict_timeout_b_event,
      mk_transition ICT_CALLING RCV_STATUS_1XX ict_rcv_1xx,
      mk_transition ICT_CALLING RCV_STATUS_2XX ict_rcv_2xx,
      mk_transition ICT_CALLING RCV_STATUS_3456XX ict_rcv_3456xx,
      mk_transition ICT_PROCEEDING RCV_STATUS_1XX ict_rcv_1xx,
      mk_transition ICT_PROCEEDING RCV_STATUS_2XX ict_rcv_2xx,
      mk_transition ICT_PROCEEDING RCV_STATUS_3456XX ict_rcv_3456xx,
      mk_transition ICT_COMPLETED RCV_STATUS_3456XX ict_retransmit_ack,
      mk_transition ICT_COMPLETED TIMEOUT_D osip_ict_timeout_d_event]"

definition nict_transition :: "transition list" where
  "nict_transition =
     [mk_transition NICT_PRE_TRYING SND_REQUEST nict_snd_request,
      mk_transition NICT_TRYING TIMEOUT_F osip_nict_timeout_f_event,
      mk_transition NICT_TRYING TIMEOUT_E osip_nict_timeout_e_event,
      mk_transition NICT_TRYING RCV_STATUS_1XX nict_rcv_1xx,
      mk_transition NICT_TRYING RCV_STATUS_2XX nict_rcv_23456xx,
      mk_transition NICT_TRYING RCV_STATUS_3456XX nict_rcv_23456xx,
      mk_transition NICT_PROCEEDING TIMEOUT_F osip_nict_timeout_f_event,
      mk_transition NICT_PROCEEDING TIMEOUT_E osip_nict_timeout_e_event,
      mk_transition NICT_PROCEEDING RCV_STATUS_1XX nict_rcv_1xx,
      mk_transition NICT_PROCEEDING RCV_STATUS_2XX nict_rcv_23456xx,
      mk_transition NICT_PROCEEDING RCV_STATUS_3456XX nict_rcv_23456xx,
      mk_transition NICT_COMPLETED TIMEOUT_K osip_nict_timeout_k_event]"

definition ist_transition :: "transition list" where
  "ist_transition =
     [mk_transition IST_PRE_PROCEEDING RCV_REQINVITE ist_rcv_invite,
      mk_transition IST_PROCEEDING RCV_REQINVITE ist_rcv_invite,
      mk_transition IST_COMPLETED RCV_REQINVITE ist_rcv_invite,
      mk_transition IST_COMPLETED TIMEOUT_G osip_ist_timeout_g_event,
      mk_transition IST_COMPLETED TIMEOUT_H osip_ist_timeout_h_event,
      mk_transition IST_PROCEEDING SND_STATUS_1XX ist_snd_1xx,
      mk_transition IST_PROCEEDING SND_STATUS_2XX ist_snd_2xx,
      mk_transition IST_PROCEEDING SND_STATUS_3456XX ist_snd_3456xx,
      mk_transition IST_COMPLETED RCV_REQACK ist_rcv_ack,
      mk_transition IST_CONFIRMED RCV_REQACK ist_rcv_ack,
      mk_transition IST_CONFIRMED TIMEOUT_I osip_ist_timeout_i_event]"

definition nist_transition :: "transition list" where
  "nist_transition =
     [mk_transition NIST_PRE_TRYING RCV_REQUEST nist_rcv_request,
      mk_transition NIST_TRYING SND_STATUS_1XX nist_snd_1xx,
      mk_transition NIST_TRYING SND_STATUS_2XX nist_snd_23456xx,
      mk_transition NIST_TRYING SND_STATUS_3456XX nist_snd_23456xx,
      mk_transition NIST_PROCEEDING SND_STATUS_1XX nist_snd_1xx,
      mk_transition NIST_PROCEEDING SND_STATUS_2XX nist_snd_23456xx,
      mk_transition NIST_PROCEEDING SND_STATUS_3456XX nist_snd_23456xx,
      mk_transition NIST_PROCEEDING RCV_REQUEST nist_rcv_request,
      mk_transition NIST_COMPLETED TIMEOUT_J osip_nist_timeout_j_event,
      mk_transition NIST_COMPLETED RCV_REQUEST nist_rcv_request]"

fun fsm_findmethod :: "type_t \<Rightarrow> state_t \<Rightarrow> transition list \<Rightarrow> transition option" where
  "fsm_findmethod ty st [] = None"
| "fsm_findmethod ty st (t # rest) =
     (if trans_type t = ty \<and> trans_state t = st then Some t else fsm_findmethod ty st rest)"

definition fsm_callmethod ::
    "osip_cfg \<Rightarrow> type_t \<Rightarrow> state_t \<Rightarrow> transition list \<Rightarrow> osip_event \<Rightarrow> osip_transaction \<Rightarrow>
     (int \<times> osip_transaction \<times> action list) ub" where
  "fsm_callmethod cfg ty st statemachine sipevent tr =
     (case fsm_findmethod ty st statemachine of
        None \<Rightarrow> Some (OSIP_UNDEFINED_ERROR, tr, [])
      | Some t \<Rightarrow> do { (tr', acts) \<leftarrow> trans_method t cfg tr sipevent; Some (OSIP_SUCCESS, tr', acts) })"

definition fsm_table :: "osip_fsm_type_t \<Rightarrow> transition list" where
  "fsm_table ty =
     (case ty of ICT \<Rightarrow> ict_transition | IST \<Rightarrow> ist_transition | NICT \<Rightarrow> nict_transition
      | NIST \<Rightarrow> nist_transition)"

definition osip_transaction_execute ::
    "osip_cfg \<Rightarrow> osip_transaction \<Rightarrow> osip_event \<Rightarrow> (int \<times> osip_transaction \<times> action list) ub" where
  "osip_transaction_execute cfg tr evt =
     (if EVT_IS_KILL_TRANSACTION evt then Some (OSIP_SUCCESS, tr, [])
      else do {
        (r, tr', acts) \<leftarrow> fsm_callmethod cfg (ev_type evt) (tr_state tr) (fsm_table (ctx_type tr)) evt tr;
        Some (1, tr',
              acts @ (if r \<noteq> 0 \<and> EVT_IS_MSG evt then osip_message_free (ev_sip evt) else []))
      })"

section \<open>Specification: the state machines of RFC 3261\<close>

text \<open>The target of a transition when nothing fails; \<open>None\<close> where the event is ignored.
  Figures 5 (ICT), 6 (NICT), 7 (IST) and 8 (NIST) of the RFC, with the first message of a
  transaction as a transition out of a \<open>PRE_\<close> state.\<close>

definition rfc_table :: "((state_t \<times> type_t) \<times> state_t) list" where
  "rfc_table =
     [((ICT_PRE_CALLING, SND_REQINVITE), ICT_CALLING),
      ((ICT_CALLING, TIMEOUT_A), ICT_CALLING),
      ((ICT_CALLING, TIMEOUT_B), ICT_TERMINATED),
      ((ICT_CALLING, RCV_STATUS_1XX), ICT_PROCEEDING),
      ((ICT_CALLING, RCV_STATUS_2XX), ICT_TERMINATED),
      ((ICT_CALLING, RCV_STATUS_3456XX), ICT_COMPLETED),
      ((ICT_PROCEEDING, RCV_STATUS_1XX), ICT_PROCEEDING),
      ((ICT_PROCEEDING, RCV_STATUS_2XX), ICT_TERMINATED),
      ((ICT_PROCEEDING, RCV_STATUS_3456XX), ICT_COMPLETED),
      ((ICT_COMPLETED, RCV_STATUS_3456XX), ICT_COMPLETED),
      ((ICT_COMPLETED, TIMEOUT_D), ICT_TERMINATED),
      ((NICT_PRE_TRYING, SND_REQUEST), NICT_TRYING),
      ((NICT_TRYING, TIMEOUT_E), NICT_TRYING),
      ((NICT_TRYING, TIMEOUT_F), NICT_TERMINATED),
      ((NICT_TRYING, RCV_STATUS_1XX), NICT_PROCEEDING),
      ((NICT_TRYING, RCV_STATUS_2XX), NICT_COMPLETED),
      ((NICT_TRYING, RCV_STATUS_3456XX), NICT_COMPLETED),
      ((NICT_PROCEEDING, TIMEOUT_E), NICT_PROCEEDING),
      ((NICT_PROCEEDING, TIMEOUT_F), NICT_TERMINATED),
      ((NICT_PROCEEDING, RCV_STATUS_1XX), NICT_PROCEEDING),
      ((NICT_PROCEEDING, RCV_STATUS_2XX), NICT_COMPLETED),
      ((NICT_PROCEEDING, RCV_STATUS_3456XX), NICT_COMPLETED),
      ((NICT_COMPLETED, TIMEOUT_K), NICT_TERMINATED),
      ((IST_PRE_PROCEEDING, RCV_REQINVITE), IST_PROCEEDING),
      ((IST_PROCEEDING, RCV_REQINVITE), IST_PROCEEDING),
      ((IST_PROCEEDING, SND_STATUS_1XX), IST_PROCEEDING),
      ((IST_PROCEEDING, SND_STATUS_2XX), IST_TERMINATED),
      ((IST_PROCEEDING, SND_STATUS_3456XX), IST_COMPLETED),
      ((IST_COMPLETED, RCV_REQINVITE), IST_COMPLETED),
      ((IST_COMPLETED, TIMEOUT_G), IST_COMPLETED),
      ((IST_COMPLETED, TIMEOUT_H), IST_TERMINATED),
      ((IST_COMPLETED, RCV_REQACK), IST_CONFIRMED),
      ((IST_CONFIRMED, RCV_REQACK), IST_CONFIRMED),
      ((IST_CONFIRMED, TIMEOUT_I), IST_TERMINATED),
      ((NIST_PRE_TRYING, RCV_REQUEST), NIST_TRYING),
      ((NIST_TRYING, SND_STATUS_1XX), NIST_PROCEEDING),
      ((NIST_TRYING, SND_STATUS_2XX), NIST_COMPLETED),
      ((NIST_TRYING, SND_STATUS_3456XX), NIST_COMPLETED),
      ((NIST_PROCEEDING, SND_STATUS_1XX), NIST_PROCEEDING),
      ((NIST_PROCEEDING, SND_STATUS_2XX), NIST_COMPLETED),
      ((NIST_PROCEEDING, SND_STATUS_3456XX), NIST_COMPLETED),
      ((NIST_PROCEEDING, RCV_REQUEST), NIST_PROCEEDING),
      ((NIST_COMPLETED, RCV_REQUEST), NIST_COMPLETED),
      ((NIST_COMPLETED, TIMEOUT_J), NIST_TERMINATED)]"

definition rfc_next :: "state_t \<Rightarrow> type_t \<Rightarrow> state_t option" where
  "rfc_next s e = map_of rfc_table (s, e)"

definition terminated :: "osip_fsm_type_t \<Rightarrow> state_t" where
  "terminated ty =
     (case ty of ICT \<Rightarrow> ICT_TERMINATED | IST \<Rightarrow> IST_TERMINATED | NICT \<Rightarrow> NICT_TERMINATED
      | NIST \<Rightarrow> NIST_TERMINATED)"

text \<open>A step of a state machine: the transition of the RFC, the end of the transaction on an
  error, or nothing.  The error is one the transport reported or a message that cannot be
  acknowledged or routed.\<close>

inductive fsm_step :: "osip_fsm_type_t \<Rightarrow> state_t \<Rightarrow> type_t \<Rightarrow> state_t \<Rightarrow> bool" where
  normal: "rfc_next s e = Some s' \<Longrightarrow> fsm_step ty s e s'"
| error: "rfc_next s e = Some s' \<Longrightarrow> fsm_step ty s e (terminated ty)"
| ignore: "rfc_next s e = None \<Longrightarrow> fsm_step ty s e s"

inductive_cases fsm_stepE [elim]: "fsm_step ty s e s'"

lemma rfc_next_simps [simp]:
  "rfc_next ICT_PRE_CALLING SND_REQINVITE = Some ICT_CALLING"
  "rfc_next ICT_CALLING TIMEOUT_A = Some ICT_CALLING"
  "rfc_next ICT_CALLING TIMEOUT_B = Some ICT_TERMINATED"
  "rfc_next ICT_CALLING RCV_STATUS_1XX = Some ICT_PROCEEDING"
  "rfc_next ICT_CALLING RCV_STATUS_2XX = Some ICT_TERMINATED"
  "rfc_next ICT_CALLING RCV_STATUS_3456XX = Some ICT_COMPLETED"
  "rfc_next ICT_PROCEEDING RCV_STATUS_1XX = Some ICT_PROCEEDING"
  "rfc_next ICT_PROCEEDING RCV_STATUS_2XX = Some ICT_TERMINATED"
  "rfc_next ICT_PROCEEDING RCV_STATUS_3456XX = Some ICT_COMPLETED"
  "rfc_next ICT_COMPLETED RCV_STATUS_3456XX = Some ICT_COMPLETED"
  "rfc_next ICT_COMPLETED TIMEOUT_D = Some ICT_TERMINATED"
  "rfc_next NICT_PRE_TRYING SND_REQUEST = Some NICT_TRYING"
  "rfc_next NICT_TRYING TIMEOUT_E = Some NICT_TRYING"
  "rfc_next NICT_TRYING TIMEOUT_F = Some NICT_TERMINATED"
  "rfc_next NICT_TRYING RCV_STATUS_1XX = Some NICT_PROCEEDING"
  "rfc_next NICT_TRYING RCV_STATUS_2XX = Some NICT_COMPLETED"
  "rfc_next NICT_TRYING RCV_STATUS_3456XX = Some NICT_COMPLETED"
  "rfc_next NICT_PROCEEDING TIMEOUT_E = Some NICT_PROCEEDING"
  "rfc_next NICT_PROCEEDING TIMEOUT_F = Some NICT_TERMINATED"
  "rfc_next NICT_PROCEEDING RCV_STATUS_1XX = Some NICT_PROCEEDING"
  "rfc_next NICT_PROCEEDING RCV_STATUS_2XX = Some NICT_COMPLETED"
  "rfc_next NICT_PROCEEDING RCV_STATUS_3456XX = Some NICT_COMPLETED"
  "rfc_next NICT_COMPLETED TIMEOUT_K = Some NICT_TERMINATED"
  "rfc_next IST_PRE_PROCEEDING RCV_REQINVITE = Some IST_PROCEEDING"
  "rfc_next IST_PROCEEDING RCV_REQINVITE = Some IST_PROCEEDING"
  "rfc_next IST_PROCEEDING SND_STATUS_1XX = Some IST_PROCEEDING"
  "rfc_next IST_PROCEEDING SND_STATUS_2XX = Some IST_TERMINATED"
  "rfc_next IST_PROCEEDING SND_STATUS_3456XX = Some IST_COMPLETED"
  "rfc_next IST_COMPLETED RCV_REQINVITE = Some IST_COMPLETED"
  "rfc_next IST_COMPLETED TIMEOUT_G = Some IST_COMPLETED"
  "rfc_next IST_COMPLETED TIMEOUT_H = Some IST_TERMINATED"
  "rfc_next IST_COMPLETED RCV_REQACK = Some IST_CONFIRMED"
  "rfc_next IST_CONFIRMED RCV_REQACK = Some IST_CONFIRMED"
  "rfc_next IST_CONFIRMED TIMEOUT_I = Some IST_TERMINATED"
  "rfc_next NIST_PRE_TRYING RCV_REQUEST = Some NIST_TRYING"
  "rfc_next NIST_TRYING SND_STATUS_1XX = Some NIST_PROCEEDING"
  "rfc_next NIST_TRYING SND_STATUS_2XX = Some NIST_COMPLETED"
  "rfc_next NIST_TRYING SND_STATUS_3456XX = Some NIST_COMPLETED"
  "rfc_next NIST_PROCEEDING SND_STATUS_1XX = Some NIST_PROCEEDING"
  "rfc_next NIST_PROCEEDING SND_STATUS_2XX = Some NIST_COMPLETED"
  "rfc_next NIST_PROCEEDING SND_STATUS_3456XX = Some NIST_COMPLETED"
  "rfc_next NIST_PROCEEDING RCV_REQUEST = Some NIST_PROCEEDING"
  "rfc_next NIST_COMPLETED RCV_REQUEST = Some NIST_COMPLETED"
  "rfc_next NIST_COMPLETED TIMEOUT_J = Some NIST_TERMINATED"
  by (simp_all add: rfc_next_def rfc_table_def)

lemma fsm_step_normal [simp]: "rfc_next s e = Some s' \<Longrightarrow> fsm_step ty s e s'"
  by (rule fsm_step.normal)

lemma fsm_step_error [simp]:
  "rfc_next s e \<noteq> None \<Longrightarrow> fsm_step ICT s e ICT_TERMINATED"
  "rfc_next s e \<noteq> None \<Longrightarrow> fsm_step NICT s e NICT_TERMINATED"
  "rfc_next s e \<noteq> None \<Longrightarrow> fsm_step IST s e IST_TERMINATED"
  "rfc_next s e \<noteq> None \<Longrightarrow> fsm_step NIST s e NIST_TERMINATED"
  using fsm_step.error [of s e _ ICT] fsm_step.error [of s e _ NICT] fsm_step.error [of s e _ IST]
    fsm_step.error [of s e _ NIST] by (auto simp: terminated_def)

end
