(* ===== verification/Osip_Fsm_Inv.thy ===== *)
theory Osip_Fsm_Inv
  imports Osip_Fsm
begin

text \<open>
  The invariant of a transaction, the contract of one step of its state machine, and the proof
  that every handler of the four tables meets the contract: it never dereferences NULL, keeps the
  invariant, follows the RFC state machine, frees or keeps every message it is given exactly once,
  and runs the kill callback exactly when the transaction terminates.
\<close>

section \<open>Messages owned and freed, kill callbacks\<close>

definition opt_mset :: "'a option \<Rightarrow> 'a multiset" where
  "opt_mset x = (case x of None \<Rightarrow> {#} | Some y \<Rightarrow> {#y#})"

lemma opt_mset_simps [simp]: "opt_mset None = {#}" "opt_mset (Some x) = {#x#}"
  by (simp_all add: opt_mset_def)

definition owned :: "osip_transaction \<Rightarrow> osip_message multiset" where
  "owned tr = opt_mset (orig_request tr) + opt_mset (last_response tr) + opt_mset (tr_ack tr)"

fun freed_msgs :: "action list \<Rightarrow> osip_message multiset" where
  "freed_msgs [] = {#}"
| "freed_msgs (Freed m # as) = {#m#} + freed_msgs as"
| "freed_msgs (a # as) = freed_msgs as"

fun kills :: "action list \<Rightarrow> nat" where
  "kills [] = 0"
| "kills (KillCb ty # as) = Suc (kills as)"
| "kills (a # as) = kills as"

lemma freed_msgs_append [simp]: "freed_msgs (as @ bs) = freed_msgs as + freed_msgs bs"
  by (induction as rule: freed_msgs.induct) simp_all

lemma kills_append [simp]: "kills (as @ bs) = kills as + kills bs"
  by (induction as rule: kills.induct) simp_all

lemma freed_kills_free [simp]:
  "freed_msgs (osip_message_free m) = opt_mset m" "kills (osip_message_free m) = 0"
  by (cases m; simp add: osip_message_free_def)+

lemma freed_kills_msg_cb [simp]:
  "freed_msgs (osip_message_callback cfg ty m) = {#}" "kills (osip_message_callback cfg ty m) = 0"
  by (simp_all add: osip_message_callback_def)

lemma freed_kills_err_cb [simp]:
  "freed_msgs (osip_transport_error_callback cfg ty e) = {#}"
  "kills (osip_transport_error_callback cfg ty e) = 0"
  by (simp_all add: osip_transport_error_callback_def)

definition kill_type :: "osip_fsm_type_t \<Rightarrow> osip_kill_callback_type_t" where
  "kill_type ty =
     (case ty of ICT \<Rightarrow> OSIP_ICT_KILL_TRANSACTION | IST \<Rightarrow> OSIP_IST_KILL_TRANSACTION
      | NICT \<Rightarrow> OSIP_NICT_KILL_TRANSACTION | NIST \<Rightarrow> OSIP_NIST_KILL_TRANSACTION)"

section \<open>Invariant\<close>

definition ict_inv :: "osip_transaction \<Rightarrow> bool" where
  "ict_inv t \<longleftrightarrow>
     tr_state t \<in> {ICT_PRE_CALLING, ICT_CALLING, ICT_PROCEEDING, ICT_COMPLETED, ICT_TERMINATED}
     \<and> (case ict_context t of Ptr c \<Rightarrow> True | _ \<Rightarrow> False)
     \<and> nict_context t = Null \<and> ist_context t = Null \<and> nist_context t = Null
     \<and> (tr_state t = ICT_PRE_CALLING \<longrightarrow> orig_request t = None \<and> last_response t = None)
     \<and> (tr_state t \<in> {ICT_CALLING, ICT_PROCEEDING, ICT_COMPLETED} \<longrightarrow> orig_request t \<noteq> None)
     \<and> (tr_state t \<in> {ICT_PRE_CALLING, ICT_CALLING, ICT_PROCEEDING} \<longrightarrow> tr_ack t = None)
     \<and> (tr_state t = ICT_COMPLETED \<longrightarrow> tr_ack t \<noteq> None \<and> last_response t \<noteq> None)"

definition nict_inv :: "osip_transaction \<Rightarrow> bool" where
  "nict_inv t \<longleftrightarrow>
     tr_state t \<in> {NICT_PRE_TRYING, NICT_TRYING, NICT_PROCEEDING, NICT_COMPLETED, NICT_TERMINATED}
     \<and> (case nict_context t of Ptr c \<Rightarrow> timer_e_length c \<le> DEFAULT_T2 | _ \<Rightarrow> False)
     \<and> ict_context t = Null \<and> ist_context t = Null \<and> nist_context t = Null
     \<and> tr_ack t = None
     \<and> (tr_state t = NICT_PRE_TRYING \<longrightarrow> orig_request t = None \<and> last_response t = None)
     \<and> (tr_state t \<in> {NICT_TRYING, NICT_PROCEEDING, NICT_COMPLETED} \<longrightarrow> orig_request t \<noteq> None)
     \<and> (tr_state t \<in> {NICT_PROCEEDING, NICT_COMPLETED} \<longrightarrow> last_response t \<noteq> None)"

definition ist_inv :: "osip_transaction \<Rightarrow> bool" where
  "ist_inv t \<longleftrightarrow>
     tr_state t \<in> {IST_PRE_PROCEEDING, IST_PROCEEDING, IST_COMPLETED, IST_CONFIRMED, IST_TERMINATED}
     \<and> (case ist_context t of Ptr c \<Rightarrow> timer_g_length c \<le> DEFAULT_T2 | _ \<Rightarrow> False)
     \<and> ict_context t = Null \<and> nict_context t = Null \<and> nist_context t = Null
     \<and> (tr_state t = IST_PRE_PROCEEDING \<longrightarrow> orig_request t = None \<and> last_response t = None)
     \<and> (tr_state t \<in> {IST_PROCEEDING, IST_COMPLETED, IST_CONFIRMED} \<longrightarrow> orig_request t \<noteq> None)
     \<and> (tr_state t \<in> {IST_COMPLETED, IST_CONFIRMED} \<longrightarrow> last_response t \<noteq> None)
     \<and> (tr_state t \<in> {IST_PRE_PROCEEDING, IST_PROCEEDING, IST_COMPLETED} \<longrightarrow> tr_ack t = None)
     \<and> (tr_state t = IST_CONFIRMED \<longrightarrow> tr_ack t \<noteq> None)"

definition nist_inv :: "osip_transaction \<Rightarrow> bool" where
  "nist_inv t \<longleftrightarrow>
     tr_state t \<in> {NIST_PRE_TRYING, NIST_TRYING, NIST_PROCEEDING, NIST_COMPLETED, NIST_TERMINATED}
     \<and> (case nist_context t of Ptr c \<Rightarrow> True | _ \<Rightarrow> False)
     \<and> ict_context t = Null \<and> nict_context t = Null \<and> ist_context t = Null
     \<and> tr_ack t = None
     \<and> (tr_state t = NIST_PRE_TRYING \<longrightarrow> orig_request t = None \<and> last_response t = None)
     \<and> (tr_state t \<in> {NIST_TRYING, NIST_PROCEEDING, NIST_COMPLETED} \<longrightarrow> orig_request t \<noteq> None)
     \<and> (tr_state t \<in> {NIST_PROCEEDING, NIST_COMPLETED} \<longrightarrow> last_response t \<noteq> None)"

definition transaction_inv :: "osip_transaction \<Rightarrow> bool" where
  "transaction_inv t \<longleftrightarrow>
     (case transactionff t of None \<Rightarrow> False | Some q \<Rightarrow> fifo_inv q)
     \<and> (case topvia t of None \<Rightarrow> False | Some v \<Rightarrow> via_ok v)
     \<and> (case tr_cseq t of None \<Rightarrow> False | Some c \<Rightarrow> cseq_ok c)
     \<and> (case callid t of None \<Rightarrow> False | Some c \<Rightarrow> call_id_ok c)
     \<and> tr_from t \<noteq> None \<and> tr_to t \<noteq> None
     \<and> (case ctx_type t of ICT \<Rightarrow> ict_inv t | NICT \<Rightarrow> nict_inv t | IST \<Rightarrow> ist_inv t | NIST \<Rightarrow> nist_inv t)"

text \<open>The events a transaction may be given: a message event owns a message of the class its type
  says, any other event owns none.\<close>

definition event_ok :: "osip_event \<Rightarrow> bool" where
  "event_ok e \<longleftrightarrow>
     (if EVT_IS_MSG e then
        (case ev_sip e of None \<Rightarrow> False
         | Some m \<Rightarrow> (status_code m = 0 \<longrightarrow> sip_method m \<noteq> None)
                    \<and> (ev_type e = msg_class True m \<or> ev_type e = msg_class False m))
      else ev_sip e = None)"

text \<open>What a step leaves alone: identity, queue and matching data.\<close>

definition same_frame :: "osip_transaction \<Rightarrow> osip_transaction \<Rightarrow> bool" where
  "same_frame t t' \<longleftrightarrow>
     transactionid t' = transactionid t \<and> transactionff t' = transactionff t \<and> topvia t' = topvia t
     \<and> tr_from t' = tr_from t \<and> tr_to t' = tr_to t \<and> callid t' = callid t \<and> tr_cseq t' = tr_cseq t
     \<and> ctx_type t' = ctx_type t \<and> birth_time t' = birth_time t
     \<and> in_socket t' = in_socket t \<and> out_socket t' = out_socket t \<and> your_instance t' = your_instance t
     \<and> srv_record t' = srv_record t \<and> naptr_record t' = naptr_record t
     \<and> reserved1 t' = reserved1 t \<and> reserved2 t' = reserved2 t \<and> reserved3 t' = reserved3 t
     \<and> reserved4 t' = reserved4 t \<and> reserved5 t' = reserved5 t \<and> reserved6 t' = reserved6 t"

text \<open>The message an INVITE client creates: the ACK of its final response.\<close>

definition created :: "osip_transaction \<Rightarrow> osip_transaction \<Rightarrow> osip_message multiset" where
  "created t t' = (if ctx_type t = ICT \<and> tr_ack t = None then opt_mset (tr_ack t') else {#})"

definition step_ok :: "osip_cfg \<Rightarrow> osip_transaction \<Rightarrow> osip_event \<Rightarrow> osip_transaction \<Rightarrow> action list \<Rightarrow> bool" where
  "step_ok cfg t e t' acts \<longleftrightarrow>
     transaction_inv t' \<and> same_frame t t'
     \<and> fsm_step (ctx_type t) (tr_state t) (ev_type e) (tr_state t')
     \<and> owned t + opt_mset (ev_sip e) + created t t' = freed_msgs acts + owned t'
     \<and> (ctx_type t = ICT \<and> tr_ack t \<noteq> None \<longrightarrow> tr_ack t' = tr_ack t)
     \<and> kills acts =
         (if tr_state t' = terminated (ctx_type t) \<and> tr_state t \<noteq> terminated (ctx_type t)
             \<and> kill_callbacks cfg (kill_type (ctx_type t)) then 1 else 0)"

text \<open>A handler meets the contract when it returns, and what it returns is a proper step.\<close>

definition handler_ok :: "osip_cfg \<Rightarrow> osip_transaction \<Rightarrow> osip_event \<Rightarrow> hres \<Rightarrow> bool" where
  "handler_ok cfg t e r = (case r of None \<Rightarrow> False | Some (t', acts) \<Rightarrow> step_ok cfg t e t' acts)"

section \<open>Automation\<close>

lemmas inv_defs = transaction_inv_def ict_inv_def nict_inv_def ist_inv_def nist_inv_def

lemmas step_defs = step_ok_def same_frame_def owned_def created_def terminated_def kill_type_def
  emit_def kill_callback_eq osip_transaction_set_state_def

lemma freed_kills_nil [simp]:
  "freed_msgs (if b then [KillCb ty] else []) = {#}"
  "kills (if b then [KillCb ty] else []) = (if b then 1 else 0)"
  by simp_all

lemma send_message_Some [simp]:
  "send_message cfg tr (Some m) h p s =
     Some (cb_send_message cfg tr m h p s, [Send m h p s (cb_send_message cfg tr m h p s)])"
  by (simp add: send_message_def Let_def)

lemma cptr_caseE:
  "(case p of Null \<Rightarrow> False | Ptr c \<Rightarrow> P c | Dangling \<Rightarrow> False) \<longleftrightarrow> (\<exists>c. p = Ptr c \<and> P c)"
  by (cases p) auto

lemma event_ok_msg:
  assumes "event_ok e" and "EVT_IS_MSG e"
  obtains m where "ev_sip e = Some m" "status_code m = 0 \<longrightarrow> sip_method m \<noteq> None"
    "ev_type e = msg_class True m \<or> ev_type e = msg_class False m"
  using assms by (auto simp: event_ok_def split: option.splits)

lemma event_ok_timer: "event_ok e \<Longrightarrow> \<not> EVT_IS_MSG e \<Longrightarrow> ev_sip e = None"
  by (simp add: event_ok_def)

lemma EVT_IS_MSG_type: "EVT_IS_MSG e \<longleftrightarrow> 10 \<le> type_rank (ev_type e) \<and> type_rank (ev_type e) \<le> 21"
  by (simp add: EVT_IS_MSG_def less_eq_type_t_def)

lemma event_ok_Some:
  assumes "event_ok e" and "10 \<le> type_rank (ev_type e)" and "type_rank (ev_type e) \<le> 21"
  obtains m where "ev_sip e = Some m" "status_code m = 0 \<longrightarrow> sip_method m \<noteq> None"
    "ev_type e = msg_class True m \<or> ev_type e = msg_class False m"
  using event_ok_msg [OF assms(1)] assms(2,3) by (auto simp: EVT_IS_MSG_type)

lemma event_ok_None: "event_ok e \<Longrightarrow> type_rank (ev_type e) < 10 \<Longrightarrow> ev_sip e = None"
  by (rule event_ok_timer) (simp_all add: EVT_IS_MSG_type)

lemma ict_context_Ptr: "transaction_inv t \<Longrightarrow> ctx_type t = ICT \<Longrightarrow> \<exists>c. ict_context t = Ptr c"
  by (auto simp: inv_defs cptr_caseE)

lemma nict_context_Ptr:
  "transaction_inv t \<Longrightarrow> ctx_type t = NICT \<Longrightarrow> \<exists>c. nict_context t = Ptr c \<and> timer_e_length c \<le> DEFAULT_T2"
  by (auto simp: inv_defs cptr_caseE)

lemma ist_context_Ptr:
  "transaction_inv t \<Longrightarrow> ctx_type t = IST \<Longrightarrow> \<exists>c. ist_context t = Ptr c \<and> timer_g_length c \<le> DEFAULT_T2"
  by (auto simp: inv_defs cptr_caseE)

lemma nist_context_Ptr: "transaction_inv t \<Longrightarrow> ctx_type t = NIST \<Longrightarrow> \<exists>c. nist_context t = Ptr c"
  by (auto simp: inv_defs cptr_caseE)

lemma ict_orig_request_Some:
  assumes "transaction_inv t" "ctx_type t = ICT" "tr_state t = ICT_CALLING \<or> tr_state t = ICT_PROCEEDING \<or> tr_state t = ICT_COMPLETED"
  shows "\<exists>m. orig_request t = Some m"
  using assms(3,1,2) by (elim disjE) (simp_all add: inv_defs)

lemma ict_tr_ack_Some:
  assumes "transaction_inv t" "ctx_type t = ICT" "tr_state t = ICT_COMPLETED"
  shows "\<exists>m. tr_ack t = Some m"
  using assms(3,1,2) by (simp add: inv_defs)

lemma nict_orig_request_Some:
  assumes "transaction_inv t" "ctx_type t = NICT" "tr_state t = NICT_TRYING \<or> tr_state t = NICT_PROCEEDING \<or> tr_state t = NICT_COMPLETED"
  shows "\<exists>m. orig_request t = Some m"
  using assms(3,1,2) by (elim disjE) (simp_all add: inv_defs)

lemma ist_last_response_Some:
  assumes "transaction_inv t" "ctx_type t = IST" "tr_state t = IST_COMPLETED"
  shows "\<exists>m. last_response t = Some m"
  using assms(3,1,2) by (simp add: inv_defs)

section \<open>INVITE client\<close>

lemma ict_snd_invite_ok:
  assumes "transaction_inv t" "ctx_type t = ICT" "event_ok e"
    and "tr_state t = ICT_PRE_CALLING" "ev_type e = SND_REQINVITE"
  shows "handler_ok cfg t e (ict_snd_invite cfg t e)"
proof -
  obtain m where m: "ev_sip e = Some m" "status_code m = 0 \<longrightarrow> sip_method m \<noteq> None"
      "ev_type e = msg_class True m \<or> ev_type e = msg_class False m"
    by (rule event_ok_Some [OF assms(3)]) (use assms(5) in auto)
  obtain c where c: "ict_context t = Ptr c"
    using ict_context_Ptr [OF assms(1,2)] by auto
  show ?thesis using assms(1,2,4,5) m(1) c
    by (simp add: handler_ok_def ict_snd_invite_def Let_def ict_handle_transport_error_def ict_kill_def step_defs inv_defs split: sum.split)
qed

lemma osip_ict_timeout_a_event_ok:
  assumes "transaction_inv t" "ctx_type t = ICT" "event_ok e"
    and "tr_state t = ICT_CALLING" "ev_type e = TIMEOUT_A"
  shows "handler_ok cfg t e (osip_ict_timeout_a_event cfg t e)"
proof -
  have m: "ev_sip e = None" using event_ok_None [OF assms(3)] assms(5) by auto
  obtain c where c: "ict_context t = Ptr c"
    using ict_context_Ptr [OF assms(1,2)] by auto
  obtain x where x: "orig_request t = Some x" using ict_orig_request_Some [OF assms(1,2)] assms(4) by auto
  show ?thesis using assms(1,2,4,5) x m c
    by (simp add: handler_ok_def osip_ict_timeout_a_event_def Let_def ict_handle_transport_error_def ict_kill_def step_defs inv_defs split: sum.split)
qed

lemma osip_ict_timeout_b_event_ok:
  assumes "transaction_inv t" "ctx_type t = ICT" "event_ok e"
    and "tr_state t = ICT_CALLING" "ev_type e = TIMEOUT_B"
  shows "handler_ok cfg t e (osip_ict_timeout_b_event cfg t e)"
proof -
  have m: "ev_sip e = None" using event_ok_None [OF assms(3)] assms(5) by auto
  obtain c where c: "ict_context t = Ptr c"
    using ict_context_Ptr [OF assms(1,2)] by auto
  show ?thesis using assms(1,2,4,5) m c
    by (simp add: handler_ok_def osip_ict_timeout_b_event_def Let_def ict_handle_transport_error_def ict_kill_def step_defs inv_defs)
qed

lemma ict_rcv_1xx_ok:
  assumes "transaction_inv t" "ctx_type t = ICT" "event_ok e"
    and "tr_state t = ICT_CALLING \<or> tr_state t = ICT_PROCEEDING" "ev_type e = RCV_STATUS_1XX"
  shows "handler_ok cfg t e (ict_rcv_1xx cfg t e)"
proof -
  obtain m where m: "ev_sip e = Some m" "status_code m = 0 \<longrightarrow> sip_method m \<noteq> None"
      "ev_type e = msg_class True m \<or> ev_type e = msg_class False m"
    by (rule event_ok_Some [OF assms(3)]) (use assms(5) in auto)
  obtain c where c: "ict_context t = Ptr c"
    using ict_context_Ptr [OF assms(1,2)] by auto
  show ?thesis using assms(1,2,4,5) m(1) c
    by (elim disjE) (simp_all add: handler_ok_def ict_rcv_1xx_def Let_def ict_handle_transport_error_def ict_kill_def step_defs inv_defs)
qed

lemma ict_rcv_2xx_ok:
  assumes "transaction_inv t" "ctx_type t = ICT" "event_ok e"
    and "tr_state t = ICT_CALLING \<or> tr_state t = ICT_PROCEEDING" "ev_type e = RCV_STATUS_2XX"
  shows "handler_ok cfg t e (ict_rcv_2xx cfg t e)"
proof -
  obtain m where m: "ev_sip e = Some m" "status_code m = 0 \<longrightarrow> sip_method m \<noteq> None"
      "ev_type e = msg_class True m \<or> ev_type e = msg_class False m"
    by (rule event_ok_Some [OF assms(3)]) (use assms(5) in auto)
  obtain c where c: "ict_context t = Ptr c"
    using ict_context_Ptr [OF assms(1,2)] by auto
  show ?thesis using assms(1,2,4,5) m(1) c
    by (elim disjE) (simp_all add: handler_ok_def ict_rcv_2xx_def Let_def ict_handle_transport_error_def ict_kill_def step_defs inv_defs)
qed

lemma osip_ict_timeout_d_event_ok:
  assumes "transaction_inv t" "ctx_type t = ICT" "event_ok e"
    and "tr_state t = ICT_COMPLETED" "ev_type e = TIMEOUT_D"
  shows "handler_ok cfg t e (osip_ict_timeout_d_event cfg t e)"
proof -
  have m: "ev_sip e = None" using event_ok_None [OF assms(3)] assms(5) by auto
  obtain c where c: "ict_context t = Ptr c"
    using ict_context_Ptr [OF assms(1,2)] by auto
  show ?thesis using assms(1,2,4,5) m c
    by (simp add: handler_ok_def osip_ict_timeout_d_event_def Let_def ict_handle_transport_error_def ict_kill_def step_defs inv_defs)
qed

lemma ict_retransmit_ack_ok:
  assumes "transaction_inv t" "ctx_type t = ICT" "event_ok e"
    and "tr_state t = ICT_COMPLETED" "ev_type e = RCV_STATUS_3456XX"
  shows "handler_ok cfg t e (ict_retransmit_ack cfg t e)"
proof -
  obtain m where m: "ev_sip e = Some m" "status_code m = 0 \<longrightarrow> sip_method m \<noteq> None"
      "ev_type e = msg_class True m \<or> ev_type e = msg_class False m"
    by (rule event_ok_Some [OF assms(3)]) (use assms(5) in auto)
  obtain c where c: "ict_context t = Ptr c"
    using ict_context_Ptr [OF assms(1,2)] by auto
  obtain x where x: "tr_ack t = Some x" using ict_tr_ack_Some [OF assms(1,2)] assms(4) by auto
  show ?thesis using assms(1,2,4,5) x m(1) c
    by (simp add: handler_ok_def ict_retransmit_ack_def Let_def ict_handle_transport_error_def ict_kill_def step_defs inv_defs)
qed

lemma ict_create_ack_Some:
  assumes "orig_request t = Some oreq"
  obtains r where "ict_create_ack t resp = Some r" "\<And>a. r = Some a \<Longrightarrow> req_uri a \<noteq> None"
proof (cases "ack_headers resp")
  case None
  then show ?thesis using that [of None] by (simp add: ict_create_ack_def)
next
  case (Some ack1)
  have "req_uri a \<noteq> None" if "ack_request oreq ack1 = Some ack2" "ack_authorizations oreq resp ack2 = Some a" for ack2 a
    using that
    by (cases "req_uri oreq") (auto simp: ack_request_def ack_authorizations_def guard_ok_def Let_def
        clone_simps osip_err split: if_splits option.splits prod.splits)
  then show ?thesis using Some assms
    by (intro that [of "case ack_request oreq ack1 of None \<Rightarrow> None
        | Some ack2 \<Rightarrow> ack_authorizations oreq resp ack2"])
      (auto simp: ict_create_ack_def split: option.splits)
qed

lemma final_destination_Some:
  "req_uri a \<noteq> None \<Longrightarrow>
   \<exists>c2. (if ict_destination c = None
         then do { (d, p) \<leftarrow> request_destination a; Some (osip_ict_set_destination c d p) }
         else Some c) = Some c2"
  using request_destination_defined [of a] by auto

lemma ict_rcv_3456xx_ok:
  assumes "transaction_inv t" "ctx_type t = ICT" "event_ok e"
    and "tr_state t = ICT_CALLING \<or> tr_state t = ICT_PROCEEDING" "ev_type e = RCV_STATUS_3456XX"
  shows "handler_ok cfg t e (ict_rcv_3456xx cfg t e)"
proof -
  obtain m where m: "ev_sip e = Some m" "status_code m = 0 \<longrightarrow> sip_method m \<noteq> None"
      "ev_type e = msg_class True m \<or> ev_type e = msg_class False m"
    by (rule event_ok_Some [OF assms(3)]) (use assms(5) in auto)
  obtain c where c: "ict_context t = Ptr c"
    using ict_context_Ptr [OF assms(1,2)] by auto
  obtain oreq where o: "orig_request t = Some oreq"
    using ict_orig_request_Some [OF assms(1,2)] assms(4) by auto
  then obtain r where r: "ict_create_ack (t\<lparr>last_response := ev_sip e\<rparr>) m = Some r"
      "\<And>a. r = Some a \<Longrightarrow> req_uri a \<noteq> None"
    using ict_create_ack_Some [of "t\<lparr>last_response := ev_sip e\<rparr>" oreq m] by auto
  show ?thesis
  proof (cases r)
    case None
    show ?thesis using assms(4,1,2,5) m(1) c o r(1) None
      by (elim disjE) (simp_all add: handler_ok_def ict_rcv_3456xx_def ict_kill_def step_defs inv_defs)
  next
    case (Some a)
    with r(2) obtain c2 where c2: "(if ict_destination c = None
         then do { (d, p) \<leftarrow> request_destination a; Some (osip_ict_set_destination c d p) }
         else Some c) = Some c2"
      using final_destination_Some by blast
    show ?thesis using assms(4,1,2,5) m(1) c o r(1) Some c2
      by (elim disjE) (simp_all add: handler_ok_def ict_rcv_3456xx_def Let_def ict_kill_def ict_start_timer_d_def
          ict_handle_transport_error_def step_defs inv_defs)
  qed
qed

section \<open>Non-INVITE client\<close>

lemma nict_next_e_length_le [simp]: "nict_next_e_length st len \<le> DEFAULT_T2"
  by (simp add: nict_next_e_length_def Let_def timer_consts)

lemma nict_timer_e_off_length [simp]: "timer_e_length (nict_timer_e_off c) = -1"
  by (simp add: nict_timer_e_off_def)

lemma first_method_Some: "sip_method m \<noteq> None \<or> status_code m \<noteq> 0 \<Longrightarrow> \<exists>ty. first_method xs other m = Some ty"
  by (induction xs) (auto simp: MSG_IS_METHOD_def MSG_IS_REQUEST_def)

lemma nict_final_callback_Some: "ev_sip e = Some m \<Longrightarrow> \<exists>ty. nict_final_callback e = Some ty"
  by (simp add: nict_final_callback_def)

lemma minus_one_le_T2 [simp]: "-1 \<le> DEFAULT_T2" "DEFAULT_T1_TCP_PROGRESS \<le> DEFAULT_T2"
  by (simp_all add: timer_consts)

lemma osip_nict_timeout_e_event_ok:
  assumes "transaction_inv t" "ctx_type t = NICT" "event_ok e"
    and "tr_state t = NICT_TRYING \<or> tr_state t = NICT_PROCEEDING" "ev_type e = TIMEOUT_E"
  shows "handler_ok cfg t e (osip_nict_timeout_e_event cfg t e)"
proof -
  have m: "ev_sip e = None" using event_ok_None [OF assms(3)] assms(5) by auto
  obtain c where c: "nict_context t = Ptr c"
    using nict_context_Ptr [OF assms(1,2)] by auto
  obtain oreq where o: "orig_request t = Some oreq"
    using nict_orig_request_Some [OF assms(1,2)] assms(4) by auto
  show ?thesis
  proof (cases "nict_orig_proto (Some oreq)")
    case None
    show ?thesis using assms(1,2,4,5) m c o None
      by (elim disjE) (simp_all add: handler_ok_def osip_nict_timeout_e_event_def Let_def
          nict_handle_transport_error_def nict_kill_def step_defs inv_defs)
  next
    case (Some proto)
    show ?thesis using assms(1,2,4,5) m c o Some
      by (elim disjE) (simp_all add: handler_ok_def osip_nict_timeout_e_event_def Let_def
          nict_handle_transport_error_def nict_kill_def step_defs inv_defs)
  qed
qed

lemma osip_nict_timeout_f_event_ok:
  assumes "transaction_inv t" "ctx_type t = NICT" "event_ok e"
    and "tr_state t = NICT_TRYING \<or> tr_state t = NICT_PROCEEDING" "ev_type e = TIMEOUT_F"
  shows "handler_ok cfg t e (osip_nict_timeout_f_event cfg t e)"
proof -
  have m: "ev_sip e = None" using event_ok_None [OF assms(3)] assms(5) by auto
  obtain c where c: "nict_context t = Ptr c"
    using nict_context_Ptr [OF assms(1,2)] by auto
  show ?thesis using assms(1,2,4,5) m c
    by (elim disjE) (simp_all add: handler_ok_def osip_nict_timeout_f_event_def Let_def nict_handle_transport_error_def nict_kill_def step_defs inv_defs)
qed

lemma osip_nict_timeout_k_event_ok:
  assumes "transaction_inv t" "ctx_type t = NICT" "event_ok e"
    and "tr_state t = NICT_COMPLETED" "ev_type e = TIMEOUT_K"
  shows "handler_ok cfg t e (osip_nict_timeout_k_event cfg t e)"
proof -
  have m: "ev_sip e = None" using event_ok_None [OF assms(3)] assms(5) by auto
  obtain c where c: "nict_context t = Ptr c"
    using nict_context_Ptr [OF assms(1,2)] by auto
  show ?thesis using assms(1,2,4,5) m c
    by (simp add: handler_ok_def osip_nict_timeout_k_event_def Let_def nict_handle_transport_error_def nict_kill_def step_defs inv_defs)
qed

lemma nict_rcv_1xx_ok:
  assumes "transaction_inv t" "ctx_type t = NICT" "event_ok e"
    and "tr_state t = NICT_TRYING \<or> tr_state t = NICT_PROCEEDING" "ev_type e = RCV_STATUS_1XX"
  shows "handler_ok cfg t e (nict_rcv_1xx cfg t e)"
proof -
  obtain m where m: "ev_sip e = Some m" "status_code m = 0 \<longrightarrow> sip_method m \<noteq> None"
      "ev_type e = msg_class True m \<or> ev_type e = msg_class False m"
    by (rule event_ok_Some [OF assms(3)]) (use assms(5) in auto)
  obtain c where c: "nict_context t = Ptr c"
    using nict_context_Ptr [OF assms(1,2)] by auto
  show ?thesis using assms(1,2,4,5) m(1) c
    by (elim disjE) (simp_all add: handler_ok_def nict_rcv_1xx_def Let_def nict_handle_transport_error_def nict_kill_def step_defs inv_defs)
qed

lemma nict_rcv_23456xx_ok:
  assumes "transaction_inv t" "ctx_type t = NICT" "event_ok e"
    and "tr_state t = NICT_TRYING \<or> tr_state t = NICT_PROCEEDING" "ev_type e = RCV_STATUS_2XX \<or> ev_type e = RCV_STATUS_3456XX"
  shows "handler_ok cfg t e (nict_rcv_23456xx cfg t e)"
proof -
  obtain m where m: "ev_sip e = Some m" "status_code m = 0 \<longrightarrow> sip_method m \<noteq> None"
      "ev_type e = msg_class True m \<or> ev_type e = msg_class False m"
    by (rule event_ok_Some [OF assms(3)]) (use assms(5) in auto)
  obtain c where c: "nict_context t = Ptr c"
    using nict_context_Ptr [OF assms(1,2)] by auto
  obtain ty where "nict_final_callback e = Some ty" using nict_final_callback_Some [OF m(1)] by blast
  then show ?thesis using assms(1,2,4,5) m(1) c
    by (elim disjE) (simp_all add: handler_ok_def nict_rcv_23456xx_def Let_def step_defs inv_defs)
qed

lemma nict_snd_request_ok:
  assumes "transaction_inv t" "ctx_type t = NICT" "event_ok e"
    and "tr_state t = NICT_PRE_TRYING" "ev_type e = SND_REQUEST"
  shows "handler_ok cfg t e (nict_snd_request cfg t e)"
proof -
  obtain m where m: "ev_sip e = Some m" "status_code m = 0 \<longrightarrow> sip_method m \<noteq> None"
      "ev_type e = msg_class True m \<or> ev_type e = msg_class False m"
    by (rule event_ok_Some [OF assms(3)]) (use assms(5) in auto)
  obtain c where c: "nict_context t = Ptr c"
    using nict_context_Ptr [OF assms(1,2)] by auto
  obtain ty where ty: "nict_request_callback m = Some ty"
    using first_method_Some m(2) unfolding nict_request_callback_def by blast
  show ?thesis
  proof (cases "nict_orig_proto (Some m)")
    case None
    show ?thesis using assms(1,2,4,5) m(1) c ty None
      by (simp add: handler_ok_def nict_snd_request_def nict_handle_transport_error_def nict_kill_def
          Let_def step_defs inv_defs)
  next
    case (Some proto)
    show ?thesis using assms(1,2,4,5) m(1) c ty Some
      by (simp add: handler_ok_def nict_snd_request_def nict_handle_transport_error_def nict_kill_def
          Let_def step_defs inv_defs)
  qed
qed

section \<open>Sending a response\<close>

lemma snd_xxx_Some:
  obtains i sent where "osip_transaction_snd_xxx cfg t (Some m) = Some (i, sent)"
    "freed_msgs sent = {#}" "kills sent = 0"
  by (cases "vias m") (auto simp: osip_transaction_snd_xxx_def intro: that)

section \<open>INVITE server\<close>

lemma ist_rcv_invite_ok:
  assumes "transaction_inv t" "ctx_type t = IST" "event_ok e"
    and "tr_state t = IST_PRE_PROCEEDING \<or> tr_state t = IST_PROCEEDING \<or> tr_state t = IST_COMPLETED" "ev_type e = RCV_REQINVITE"
  shows "handler_ok cfg t e (ist_rcv_invite cfg t e)"
proof -
  obtain m where m: "ev_sip e = Some m" "status_code m = 0 \<longrightarrow> sip_method m \<noteq> None"
      "ev_type e = msg_class True m \<or> ev_type e = msg_class False m"
    by (rule event_ok_Some [OF assms(3)]) (use assms(5) in auto)
  obtain c where c: "ist_context t = Ptr c"
    using ist_context_Ptr [OF assms(1,2)] by auto
  show ?thesis
  proof (cases "last_response t")
    case None
    show ?thesis using assms(4,1,2,5) m(1) c None
      by (elim disjE) (simp_all add: handler_ok_def ist_rcv_invite_def step_defs inv_defs)
  next
    case (Some r)
    obtain i sent where "osip_transaction_snd_xxx cfg t (Some r) = Some (i, sent)"
        "freed_msgs sent = {#}" "kills sent = 0" by (rule snd_xxx_Some)
    then show ?thesis using assms(4,1,2,5) m(1) c Some
      by (elim disjE) (simp_all add: handler_ok_def ist_rcv_invite_def Let_def
          ist_handle_transport_error_def ist_kill_def step_defs inv_defs)
  qed
qed

lemma osip_ist_timeout_g_event_ok:
  assumes "transaction_inv t" "ctx_type t = IST" "event_ok e"
    and "tr_state t = IST_COMPLETED" "ev_type e = TIMEOUT_G"
  shows "handler_ok cfg t e (osip_ist_timeout_g_event cfg t e)"
proof -
  have m: "ev_sip e = None" using event_ok_None [OF assms(3)] assms(5) by auto
  obtain c where c: "ist_context t = Ptr c"
    using ist_context_Ptr [OF assms(1,2)] by auto
  obtain r where r: "last_response t = Some r" using ist_last_response_Some [OF assms(1,2,4)] by blast
  define len where "len = ist_next_g_length (timer_g_length c)"
  have len: "len \<le> DEFAULT_T2" by (simp add: len_def ist_next_g_length_def)
  obtain i sent where "osip_transaction_snd_xxx cfg (t\<lparr>ist_context := Ptr (c\<lparr>timer_g_length := len,
      timer_g_start := add_gettimeofday (gettimeofday cfg 0) len\<rparr>)\<rparr>) (Some r) = Some (i, sent)"
      "freed_msgs sent = {#}" "kills sent = 0" by (rule snd_xxx_Some)
  then show ?thesis using assms(1,2,4,5) m c r len
    by (simp add: handler_ok_def osip_ist_timeout_g_event_def Let_def ist_handle_transport_error_def
        ist_kill_def step_defs inv_defs flip: len_def)
qed

lemma osip_ist_timeout_h_event_ok:
  assumes "transaction_inv t" "ctx_type t = IST" "event_ok e"
    and "tr_state t = IST_COMPLETED" "ev_type e = TIMEOUT_H"
  shows "handler_ok cfg t e (osip_ist_timeout_h_event cfg t e)"
proof -
  have m: "ev_sip e = None" using event_ok_None [OF assms(3)] assms(5) by auto
  obtain c where c: "ist_context t = Ptr c"
    using ist_context_Ptr [OF assms(1,2)] by auto
  show ?thesis using assms(4,1,2,5) m c
    by (simp add: handler_ok_def osip_ist_timeout_h_event_def Let_def ist_kill_def step_defs inv_defs)
qed

lemma osip_ist_timeout_i_event_ok:
  assumes "transaction_inv t" "ctx_type t = IST" "event_ok e"
    and "tr_state t = IST_CONFIRMED" "ev_type e = TIMEOUT_I"
  shows "handler_ok cfg t e (osip_ist_timeout_i_event cfg t e)"
proof -
  have m: "ev_sip e = None" using event_ok_None [OF assms(3)] assms(5) by auto
  obtain c where c: "ist_context t = Ptr c"
    using ist_context_Ptr [OF assms(1,2)] by auto
  show ?thesis using assms(4,1,2,5) m c
    by (simp add: handler_ok_def osip_ist_timeout_i_event_def Let_def ist_kill_def step_defs inv_defs)
qed

lemma ist_snd_1xx_ok:
  assumes "transaction_inv t" "ctx_type t = IST" "event_ok e"
    and "tr_state t = IST_PROCEEDING" "ev_type e = SND_STATUS_1XX"
  shows "handler_ok cfg t e (ist_snd_1xx cfg t e)"
proof -
  obtain m where m: "ev_sip e = Some m" "status_code m = 0 \<longrightarrow> sip_method m \<noteq> None"
      "ev_type e = msg_class True m \<or> ev_type e = msg_class False m"
    by (rule event_ok_Some [OF assms(3)]) (use assms(5) in auto)
  obtain c where c: "ist_context t = Ptr c"
    using ist_context_Ptr [OF assms(1,2)] by auto
  obtain i sent where "osip_transaction_snd_xxx cfg (t\<lparr>last_response := Some m\<rparr>) (Some m) = Some (i, sent)"
      "freed_msgs sent = {#}" "kills sent = 0" by (rule snd_xxx_Some)
  then show ?thesis using assms(4,5) assms(1,2) m(1) c
    by (simp add: handler_ok_def ist_snd_1xx_def Let_def
          ist_handle_transport_error_def ist_kill_def step_defs inv_defs)
qed

lemma ist_snd_2xx_ok:
  assumes "transaction_inv t" "ctx_type t = IST" "event_ok e"
    and "tr_state t = IST_PROCEEDING" "ev_type e = SND_STATUS_2XX"
  shows "handler_ok cfg t e (ist_snd_2xx cfg t e)"
proof -
  obtain m where m: "ev_sip e = Some m" "status_code m = 0 \<longrightarrow> sip_method m \<noteq> None"
      "ev_type e = msg_class True m \<or> ev_type e = msg_class False m"
    by (rule event_ok_Some [OF assms(3)]) (use assms(5) in auto)
  obtain c where c: "ist_context t = Ptr c"
    using ist_context_Ptr [OF assms(1,2)] by auto
  obtain i sent where "osip_transaction_snd_xxx cfg (t\<lparr>last_response := Some m\<rparr>) (Some m) = Some (i, sent)"
      "freed_msgs sent = {#}" "kills sent = 0" by (rule snd_xxx_Some)
  then show ?thesis using assms(4,5) assms(1,2) m(1) c
    by (simp add: handler_ok_def ist_snd_2xx_def Let_def
          ist_handle_transport_error_def ist_kill_def step_defs inv_defs)
qed

lemma ist_snd_3456xx_ok:
  assumes "transaction_inv t" "ctx_type t = IST" "event_ok e"
    and "tr_state t = IST_PROCEEDING" "ev_type e = SND_STATUS_3456XX"
  shows "handler_ok cfg t e (ist_snd_3456xx cfg t e)"
proof -
  obtain m where m: "ev_sip e = Some m" "status_code m = 0 \<longrightarrow> sip_method m \<noteq> None"
      "ev_type e = msg_class True m \<or> ev_type e = msg_class False m"
    by (rule event_ok_Some [OF assms(3)]) (use assms(5) in auto)
  obtain c where c: "ist_context t = Ptr c"
    using ist_context_Ptr [OF assms(1,2)] by auto
  obtain i sent where "osip_transaction_snd_xxx cfg (t\<lparr>last_response := Some m\<rparr>) (Some m) = Some (i, sent)"
      "freed_msgs sent = {#}" "kills sent = 0" by (rule snd_xxx_Some)
  then show ?thesis using assms(4,5) assms(1,2) m(1) c
    by (simp add: handler_ok_def ist_snd_3456xx_def Let_def
          ist_handle_transport_error_def ist_kill_def step_defs inv_defs)
qed

lemma ist_rcv_ack_ok:
  assumes "transaction_inv t" "ctx_type t = IST" "event_ok e"
    and "tr_state t = IST_COMPLETED \<or> tr_state t = IST_CONFIRMED" "ev_type e = RCV_REQACK"
  shows "handler_ok cfg t e (ist_rcv_ack cfg t e)"
proof -
  obtain m where m: "ev_sip e = Some m" "status_code m = 0 \<longrightarrow> sip_method m \<noteq> None"
      "ev_type e = msg_class True m \<or> ev_type e = msg_class False m"
    by (rule event_ok_Some [OF assms(3)]) (use assms(5) in auto)
  obtain c where c: "ist_context t = Ptr c"
    using ist_context_Ptr [OF assms(1,2)] by auto
  show ?thesis using assms(4,1,2,5) m(1) c
    by (elim disjE) (simp_all add: handler_ok_def ist_rcv_ack_def Let_def  step_defs inv_defs)
qed

section \<open>Non-INVITE server\<close>

lemma nist_rcv_request_ok:
  assumes "transaction_inv t" "ctx_type t = NIST" "event_ok e"
    and "tr_state t = NIST_PRE_TRYING \<or> tr_state t = NIST_PROCEEDING \<or> tr_state t = NIST_COMPLETED" "ev_type e = RCV_REQUEST"
  shows "handler_ok cfg t e (nist_rcv_request cfg t e)"
proof -
  obtain m where m: "ev_sip e = Some m" "status_code m = 0 \<longrightarrow> sip_method m \<noteq> None"
      "ev_type e = msg_class True m \<or> ev_type e = msg_class False m"
    by (rule event_ok_Some [OF assms(3)]) (use assms(5) in auto)
  obtain c where c: "nist_context t = Ptr c"
    using nist_context_Ptr [OF assms(1,2)] by auto
  obtain ty where ty: "nist_request_callback m = Some ty"
    using first_method_Some m(2) unfolding nist_request_callback_def by blast
  show ?thesis
  proof (cases "last_response t")
    case None
    show ?thesis using assms(4,1,2,5) m(1) c ty None
      by (elim disjE) (simp_all add: handler_ok_def nist_rcv_request_def step_defs inv_defs)
  next
    case (Some r)
    obtain i sent where "osip_transaction_snd_xxx cfg t (Some r) = Some (i, sent)"
        "freed_msgs sent = {#}" "kills sent = 0" by (rule snd_xxx_Some)
    then show ?thesis using assms(4,1,2,5) m(1) c ty Some
      by (elim disjE) (simp_all add: handler_ok_def nist_rcv_request_def Let_def
          nist_handle_transport_error_def nist_kill_def step_defs inv_defs)
  qed
qed

lemma nist_snd_1xx_ok:
  assumes "transaction_inv t" "ctx_type t = NIST" "event_ok e"
    and "tr_state t = NIST_TRYING \<or> tr_state t = NIST_PROCEEDING" "ev_type e = SND_STATUS_1XX"
  shows "handler_ok cfg t e (nist_snd_1xx cfg t e)"
proof -
  obtain m where m: "ev_sip e = Some m" "status_code m = 0 \<longrightarrow> sip_method m \<noteq> None"
      "ev_type e = msg_class True m \<or> ev_type e = msg_class False m"
    by (rule event_ok_Some [OF assms(3)]) (use assms(5) in auto)
  obtain c where c: "nist_context t = Ptr c"
    using nist_context_Ptr [OF assms(1,2)] by auto
  obtain i sent where "osip_transaction_snd_xxx cfg (t\<lparr>last_response := Some m\<rparr>) (Some m) = Some (i, sent)"
      "freed_msgs sent = {#}" "kills sent = 0" by (rule snd_xxx_Some)
  then show ?thesis using assms(4,5) assms(1,2) m(1) c
    by (elim disjE) (simp_all add: handler_ok_def nist_snd_1xx_def Let_def
          nist_handle_transport_error_def nist_kill_def step_defs inv_defs)
qed

lemma nist_snd_23456xx_ok:
  assumes "transaction_inv t" "ctx_type t = NIST" "event_ok e"
    and "tr_state t = NIST_TRYING \<or> tr_state t = NIST_PROCEEDING" "ev_type e = SND_STATUS_2XX \<or> ev_type e = SND_STATUS_3456XX"
  shows "handler_ok cfg t e (nist_snd_23456xx cfg t e)"
proof -
  obtain m where m: "ev_sip e = Some m" "status_code m = 0 \<longrightarrow> sip_method m \<noteq> None"
      "ev_type e = msg_class True m \<or> ev_type e = msg_class False m"
    by (rule event_ok_Some [OF assms(3)]) (use assms(5) in auto)
  obtain c where c: "nist_context t = Ptr c"
    using nist_context_Ptr [OF assms(1,2)] by auto
  obtain i sent where "osip_transaction_snd_xxx cfg (t\<lparr>last_response := Some m\<rparr>) (Some m) = Some (i, sent)"
      "freed_msgs sent = {#}" "kills sent = 0" by (rule snd_xxx_Some)
  then show ?thesis using assms(4,5) assms(1,2) m(1) c
    by (elim disjE) (simp_all add: handler_ok_def nist_snd_23456xx_def Let_def
          nist_handle_transport_error_def nist_kill_def step_defs inv_defs)
qed

lemma osip_nist_timeout_j_event_ok:
  assumes "transaction_inv t" "ctx_type t = NIST" "event_ok e"
    and "tr_state t = NIST_COMPLETED" "ev_type e = TIMEOUT_J"
  shows "handler_ok cfg t e (osip_nist_timeout_j_event cfg t e)"
proof -
  have m: "ev_sip e = None" using event_ok_None [OF assms(3)] assms(5) by auto
  obtain c where c: "nist_context t = Ptr c"
    using nist_context_Ptr [OF assms(1,2)] by auto
  show ?thesis using assms(4,1,2,5) m c
    by (simp add: handler_ok_def osip_nist_timeout_j_event_def Let_def nist_kill_def step_defs inv_defs)
qed

section \<open>Dispatch\<close>

lemma fsm_findmethod_Some:
  "fsm_findmethod ty st tbl = Some tr \<Longrightarrow> tr \<in> set tbl \<and> trans_type tr = ty \<and> trans_state tr = st"
  by (induction tbl) (auto split: if_splits)

lemma fsm_findmethod_None:
  "fsm_findmethod ty st tbl = None \<longleftrightarrow> (\<forall>tr \<in> set tbl. \<not> (trans_type tr = ty \<and> trans_state tr = st))"
  by (induction tbl) auto

lemma mk_transition_simps [simp]:
  "trans_state (mk_transition s e f) = s" "trans_type (mk_transition s e f) = e"
  "trans_method (mk_transition s e f) = f"
  by (simp_all add: mk_transition_def)

lemmas ict_handlers_ok = ict_snd_invite_ok osip_ict_timeout_a_event_ok osip_ict_timeout_b_event_ok
  ict_rcv_1xx_ok ict_rcv_2xx_ok ict_rcv_3456xx_ok ict_retransmit_ack_ok osip_ict_timeout_d_event_ok

lemmas nict_handlers_ok = nict_snd_request_ok osip_nict_timeout_e_event_ok osip_nict_timeout_f_event_ok
  osip_nict_timeout_k_event_ok nict_rcv_1xx_ok nict_rcv_23456xx_ok

lemmas ist_handlers_ok = ist_rcv_invite_ok osip_ist_timeout_g_event_ok osip_ist_timeout_h_event_ok
  osip_ist_timeout_i_event_ok ist_snd_1xx_ok ist_snd_2xx_ok ist_snd_3456xx_ok ist_rcv_ack_ok

lemmas nist_handlers_ok = nist_rcv_request_ok nist_snd_1xx_ok nist_snd_23456xx_ok
  osip_nist_timeout_j_event_ok

lemma table_ok:
  assumes "transaction_inv t" "event_ok e" "tr \<in> set (fsm_table (ctx_type t))"
    and "trans_type tr = ev_type e" "trans_state tr = tr_state t"
  shows "handler_ok cfg t e (trans_method tr cfg t e)"
proof (cases "ctx_type t")
  case ICT
  with assms(3) have "tr \<in> set ict_transition" by (simp add: fsm_table_def)
  then show ?thesis unfolding ict_transition_def list.set
    by (elim insertE emptyE) (use assms(4,5) ict_handlers_ok [OF assms(1) ICT assms(2)] in simp_all)
next
  case NICT
  with assms(3) have "tr \<in> set nict_transition" by (simp add: fsm_table_def)
  then show ?thesis unfolding nict_transition_def list.set
    by (elim insertE emptyE) (use assms(4,5) nict_handlers_ok [OF assms(1) NICT assms(2)] in simp_all)
next
  case IST
  with assms(3) have "tr \<in> set ist_transition" by (simp add: fsm_table_def)
  then show ?thesis unfolding ist_transition_def list.set
    by (elim insertE emptyE) (use assms(4,5) ist_handlers_ok [OF assms(1) IST assms(2)] in simp_all)
next
  case NIST
  with assms(3) have "tr \<in> set nist_transition" by (simp add: fsm_table_def)
  then show ?thesis unfolding nist_transition_def list.set
    by (elim insertE emptyE) (use assms(4,5) nist_handlers_ok [OF assms(1) NIST assms(2)] in simp_all)
qed

definition states_of :: "osip_fsm_type_t \<Rightarrow> state_t list" where
  "states_of ty =
     (case ty of
        ICT \<Rightarrow> [ICT_PRE_CALLING, ICT_CALLING, ICT_PROCEEDING, ICT_COMPLETED, ICT_TERMINATED]
      | IST \<Rightarrow> [IST_PRE_PROCEEDING, IST_PROCEEDING, IST_COMPLETED, IST_CONFIRMED, IST_TERMINATED]
      | NICT \<Rightarrow> [NICT_PRE_TRYING, NICT_TRYING, NICT_PROCEEDING, NICT_COMPLETED, NICT_TERMINATED]
      | NIST \<Rightarrow> [NIST_PRE_TRYING, NIST_TRYING, NIST_PROCEEDING, NIST_COMPLETED, NIST_TERMINATED])"

lemma transaction_inv_state: "transaction_inv t \<Longrightarrow> tr_state t \<in> set (states_of (ctx_type t))"
  by (cases "ctx_type t") (simp_all add: inv_defs states_of_def)

definition fsm_keys :: "osip_fsm_type_t \<Rightarrow> (state_t \<times> type_t) list" where
  "fsm_keys ty = map (\<lambda>tr. (trans_state tr, trans_type tr)) (fsm_table ty)"

lemma rfc_next_None: "rfc_next s e = None \<longleftrightarrow> (s, e) \<notin> set (map fst rfc_table)"
  by (simp add: rfc_next_def map_of_eq_None_iff del: set_map) simp

lemma fsm_keys_rfc:
  "set (fsm_keys ty) = set (filter (\<lambda>k. fst k \<in> set (states_of ty)) (map fst rfc_table))"
  by (cases ty; simp add: fsm_keys_def fsm_table_def ict_transition_def nict_transition_def
      ist_transition_def nist_transition_def rfc_table_def states_of_def)
    auto

text \<open>The tables have an entry exactly where the RFC machines have a transition.\<close>

lemma fsm_findmethod_rfc:
  assumes "s \<in> set (states_of ty)"
  shows "fsm_findmethod e s (fsm_table ty) = None \<longleftrightarrow> rfc_next s e = None"
proof -
  have "fsm_findmethod e s (fsm_table ty) = None \<longleftrightarrow> (s, e) \<notin> set (fsm_keys ty)"
    by (auto simp: fsm_findmethod_None fsm_keys_def)
  also have "\<dots> \<longleftrightarrow> (s, e) \<notin> set (map fst rfc_table)"
    using assms by (simp only: fsm_keys_rfc set_filter) (simp del: set_map)
  finally show ?thesis by (simp only: rfc_next_None)
qed

section \<open>One step of a transaction\<close>

lemma ignored_ok:
  assumes "transaction_inv t" "event_ok e" "rfc_next (tr_state t) (ev_type e) = None"
  shows "step_ok cfg t e t (if EVT_IS_MSG e then osip_message_free (ev_sip e) else [])"
  using assms fsm_step.ignore [OF assms(3)]
  by (cases "EVT_IS_MSG e") (auto simp: step_ok_def same_frame_def created_def event_ok_def)

lemma execute_step:
  assumes "transaction_inv t" "event_ok e"
  obtains r t' acts where "osip_transaction_execute cfg t e = Some (r, t', acts)" "step_ok cfg t e t' acts"
proof (cases "ev_type e = KILL_TRANSACTION")
  case True
  have "rfc_next (tr_state t) KILL_TRANSACTION = None"
    by (simp add: rfc_next_None rfc_table_def)
  then have "step_ok cfg t e t []"
    using ignored_ok [OF assms] True by (auto simp: EVT_IS_MSG_type split: if_splits)
  then show ?thesis using True that by (simp add: osip_transaction_execute_def EVT_IS_KILL_TRANSACTION_def)
next
  case False
  show ?thesis
  proof (cases "fsm_findmethod (ev_type e) (tr_state t) (fsm_table (ctx_type t))")
    case None
    then have "rfc_next (tr_state t) (ev_type e) = None"
      using fsm_findmethod_rfc [OF transaction_inv_state [OF assms(1)]] by simp
    with None False show ?thesis
      using ignored_ok [OF assms] that
      by (simp add: osip_transaction_execute_def EVT_IS_KILL_TRANSACTION_def fsm_callmethod_def osip_err)
  next
    case (Some tr)
    from fsm_findmethod_Some [OF this]
    have "handler_ok cfg t e (trans_method tr cfg t e)" using table_ok [OF assms] by blast
    then obtain t' acts where "trans_method tr cfg t e = Some (t', acts)" "step_ok cfg t e t' acts"
      by (auto simp: handler_ok_def split: option.splits)
    with Some False that show ?thesis
      by (simp add: osip_transaction_execute_def EVT_IS_KILL_TRANSACTION_def fsm_callmethod_def osip_err)
  qed
qed

end
