(* ===== verification/Osip_Run.thy ===== *)
theory Osip_Run
  imports Osip_Fsm_Inv
begin

text \<open>
  Runs of a transaction: a sequence of events given to \<open>osip_transaction_execute\<close>, each with the
  configuration (clock, transport) of that moment, and the release of the transaction.
\<close>

section \<open>Runs of an event machine\<close>

fun machine_run :: "('t \<Rightarrow> 'i \<Rightarrow> (int \<times> 't \<times> action list) ub) \<Rightarrow> 't \<Rightarrow> 'i list \<Rightarrow> ('t \<times> action list) ub" where
  "machine_run exec t [] = Some (t, [])"
| "machine_run exec t (i # is) =
     do { (r, t1, as) \<leftarrow> exec t i; (t2, bs) \<leftarrow> machine_run exec t1 is; Some (t2, as @ bs) }"

text \<open>What a client relies on: steps are total, keep the invariant and the balance between the
  messages taken in, created, kept and freed, and announce the end of the machine once.\<close>

locale event_machine =
  fixes exec :: "'t \<Rightarrow> 'i \<Rightarrow> (int \<times> 't \<times> action list) ub"
    and invar :: "'t \<Rightarrow> bool"
    and accepts :: "'i \<Rightarrow> bool"
    and announces :: "'t \<Rightarrow> 'i \<Rightarrow> bool"
    and dead :: "'t \<Rightarrow> bool"
    and holds :: "'t \<Rightarrow> osip_message multiset"
    and gives :: "'i \<Rightarrow> osip_message multiset"
    and new :: "'t \<Rightarrow> 't \<Rightarrow> osip_message multiset"
  assumes exec_total: "invar t \<Longrightarrow> accepts i \<Longrightarrow> \<exists>r t' as. exec t i = Some (r, t', as)"
    and exec_invar: "invar t \<Longrightarrow> accepts i \<Longrightarrow> exec t i = Some (r, t', as) \<Longrightarrow> invar t'"
    and exec_balance: "invar t \<Longrightarrow> accepts i \<Longrightarrow> exec t i = Some (r, t', as) \<Longrightarrow>
      holds t + gives i + new t t' = freed_msgs as + holds t'"
    and exec_kills: "invar t \<Longrightarrow> accepts i \<Longrightarrow> announces t i \<Longrightarrow> exec t i = Some (r, t', as) \<Longrightarrow>
      kills as = (if dead t' \<and> \<not> dead t then 1 else 0)"
    and exec_dead: "invar t \<Longrightarrow> accepts i \<Longrightarrow> exec t i = Some (r, t', as) \<Longrightarrow> dead t \<Longrightarrow> dead t'"
    and exec_announces: "invar t \<Longrightarrow> accepts i \<Longrightarrow> exec t i = Some (r, t', as) \<Longrightarrow> announces t' j = announces t j"
    and new_refl: "new t t = {#}"
    and new_trans: "invar t \<Longrightarrow> accepts i \<Longrightarrow> exec t i = Some (r, t', as) \<Longrightarrow> invar t'' \<Longrightarrow>
      machine_run exec t' is = Some (t'', bs) \<Longrightarrow> \<forall>i \<in> set is. accepts i \<Longrightarrow>
      new t t'' = new t t' + new t' t''"
begin

lemma run_total:
  assumes "invar t" and "\<forall>i \<in> set is. accepts i"
  shows "\<exists>t' as. machine_run exec t is = Some (t', as) \<and> invar t'"
  using assms
proof (induction "is" arbitrary: t)
  case (Cons i "is")
  then obtain r t1 as where s: "exec t i = Some (r, t1, as)" using exec_total [of t i] by auto
  with Cons.prems have "invar t1" using exec_invar [of t i r t1 as] by simp
  then obtain t2 bs where "machine_run exec t1 is = Some (t2, bs)" "invar t2"
    using Cons.IH [of t1] Cons.prems(2) by auto
  with s show ?case by simp
qed simp

lemma run_balance:
  assumes "invar t" and "\<forall>i \<in> set is. accepts i" and "machine_run exec t is = Some (t', as)"
  shows "holds t + sum_list (map gives is) + new t t' = freed_msgs as + holds t'"
  using assms
proof (induction "is" arbitrary: t as)
  case Nil
  then show ?case by (simp add: new_refl)
next
  case (Cons i "is")
  from Cons.prems obtain r t1 bs cs where s: "exec t i = Some (r, t1, bs)"
      "machine_run exec t1 is = Some (t', cs)" "as = bs @ cs"
    by (auto simp: bind_eq_Some_conv)
  have acc: "accepts i" "\<forall>i \<in> set is. accepts i" using Cons.prems by auto
  have inv1: "invar t1" using exec_invar [OF Cons.prems(1) acc(1) s(1)] .
  then have inv': "invar t'" using run_total [OF _ acc(2)] s(2) by fastforce
  have "holds t + gives i + new t t1 = freed_msgs bs + holds t1"
    using exec_balance [OF Cons.prems(1) acc(1) s(1)] .
  moreover have "holds t1 + sum_list (map gives is) + new t1 t' = freed_msgs cs + holds t'"
    using Cons.IH [OF inv1 acc(2) s(2)] .
  ultimately have "(holds t + gives i + new t t1) + (holds t1 + sum_list (map gives is) + new t1 t')
      = (freed_msgs bs + holds t1) + (freed_msgs cs + holds t')" by simp
  then have "holds t + gives i + sum_list (map gives is) + (new t t1 + new t1 t') + holds t1
      = freed_msgs bs + freed_msgs cs + holds t' + holds t1" by (simp only: ac_simps)
  then show ?case
    using new_trans [OF Cons.prems(1) acc(1) s(1) inv' s(2) acc(2)] s(3) by (simp add: ac_simps)
qed

lemma run_kills:
  assumes "invar t" and "\<forall>i \<in> set is. accepts i \<and> announces t i" and "machine_run exec t is = Some (t', as)"
  shows "kills as = (if dead t' \<and> \<not> dead t then 1 else 0) \<and> (dead t \<longrightarrow> dead t')"
  using assms
proof (induction "is" arbitrary: t as)
  case (Cons i "is")
  from Cons.prems obtain r t1 bs cs where s: "exec t i = Some (r, t1, bs)"
      "machine_run exec t1 is = Some (t', cs)" "as = bs @ cs"
    by (auto simp: bind_eq_Some_conv)
  have acc: "accepts i" "announces t i" using Cons.prems by auto
  note step = Cons.prems(1) acc(1) s(1)
  have "invar t1" using exec_invar [OF step] .
  moreover have "\<forall>j \<in> set is. accepts j \<and> announces t1 j"
    using Cons.prems(2) exec_announces [OF step] by simp
  ultimately have "kills cs = (if dead t' \<and> \<not> dead t1 then 1 else 0) \<and> (dead t1 \<longrightarrow> dead t')"
    using Cons.IH s(2) by simp
  then show ?case
    using exec_kills [OF Cons.prems(1) acc s(1)] exec_dead [OF step] s(3)
    by (cases "dead t1"; cases "dead t"; simp)
qed simp

end

section \<open>The transaction as an event machine\<close>

type_synonym input = "osip_cfg \<times> osip_event"

definition transaction_exec :: "osip_transaction \<Rightarrow> input \<Rightarrow> (int \<times> osip_transaction \<times> action list) ub" where
  "transaction_exec t i = osip_transaction_execute (fst i) t (snd i)"

definition input_ok :: "input \<Rightarrow> bool" where
  "input_ok i = event_ok (snd i)"

definition kill_registered :: "osip_transaction \<Rightarrow> input \<Rightarrow> bool" where
  "kill_registered t i = kill_callbacks (fst i) (kill_type (ctx_type t))"

definition is_terminated :: "osip_transaction \<Rightarrow> bool" where
  "is_terminated t = (tr_state t = terminated (ctx_type t))"

definition input_msg :: "input \<Rightarrow> osip_message multiset" where
  "input_msg i = opt_mset (ev_sip (snd i))"

lemma transaction_exec_step:
  assumes "transaction_inv t" "input_ok i" "transaction_exec t i = Some (r, t', as)"
  shows "step_ok (fst i) t (snd i) t' as"
  using execute_step [OF assms(1), of "snd i" "fst i"] assms(2,3)
  by (auto simp: transaction_exec_def input_ok_def)

lemma rfc_next_terminated: "rfc_next (terminated ty) e = None"
  by (cases ty) (simp_all add: rfc_next_None rfc_table_def terminated_def)

lemma step_terminated: "step_ok cfg t e t' as \<Longrightarrow> is_terminated t \<Longrightarrow> is_terminated t'"
  by (auto simp: step_ok_def is_terminated_def same_frame_def rfc_next_terminated elim!: fsm_stepE)

lemma step_ack: "step_ok cfg t e t' as \<Longrightarrow> ctx_type t = ICT \<Longrightarrow> tr_ack t \<noteq> None \<Longrightarrow> tr_ack t' = tr_ack t"
  by (simp add: step_ok_def)

lemma step_ctx_type: "step_ok cfg t e t' as \<Longrightarrow> ctx_type t' = ctx_type t"
  by (simp add: step_ok_def same_frame_def)

lemma run_frame:
  assumes "transaction_inv t" "\<forall>i \<in> set is. input_ok i"
    and "machine_run transaction_exec t is = Some (t', as)"
  shows "transaction_inv t' \<and> ctx_type t' = ctx_type t
    \<and> (ctx_type t = ICT \<and> tr_ack t \<noteq> None \<longrightarrow> tr_ack t' = tr_ack t)"
  using assms
proof (induction "is" arbitrary: t as)
  case (Cons i "is")
  from Cons.prems obtain r t1 bs cs where s: "transaction_exec t i = Some (r, t1, bs)"
      "machine_run transaction_exec t1 is = Some (t', cs)"
    by (auto simp: bind_eq_Some_conv)
  have st: "step_ok (fst i) t (snd i) t1 bs" using transaction_exec_step Cons.prems(1,2) s(1) by auto
  then have "transaction_inv t1" by (simp add: step_ok_def)
  with Cons.IH [OF _ _ s(2)] Cons.prems(2) step_ack [OF st] step_ctx_type [OF st] show ?case by auto
qed simp

interpretation tm: event_machine transaction_exec transaction_inv input_ok kill_registered is_terminated
  owned input_msg created
proof (unfold_locales, goal_cases)
  case (1 t i)
  then have "event_ok (snd i)" by (simp add: input_ok_def)
  then obtain r t' as where "osip_transaction_execute (fst i) t (snd i) = Some (r, t', as)"
    using execute_step [OF 1(1)] by blast
  then show ?case by (simp add: transaction_exec_def)
next
  case (2 t i r t' as)
  then show ?case using transaction_exec_step [OF 2] by (simp add: step_ok_def)
next
  case (3 t i r t' as)
  then show ?case using transaction_exec_step [OF 3] by (simp add: step_ok_def input_msg_def)
next
  case (4 t i r t' as)
  then have st: "step_ok (fst i) t (snd i) t' as" using transaction_exec_step by blast
  with 4(3) step_ctx_type [OF st] show ?case
    by (simp add: step_ok_def is_terminated_def kill_registered_def)
next
  case (5 t i r t' as)
  then show ?case using transaction_exec_step [of t i r t' as] step_terminated by blast
next
  case (6 t i r t' as j)
  then have "step_ok (fst i) t (snd i) t' as" using transaction_exec_step by blast
  from step_ctx_type [OF this] show ?case by (simp add: kill_registered_def)
next
  case (7 t)
  then show ?case by (simp add: created_def)
next
  case (8 t i r t' as t'' "is" bs)
  have st: "step_ok (fst i) t (snd i) t' as" using transaction_exec_step 8(1-3) by blast
  then have "transaction_inv t'" by (simp add: step_ok_def)
  then have "ctx_type t'' = ctx_type t' \<and> (ctx_type t' = ICT \<and> tr_ack t' \<noteq> None \<longrightarrow> tr_ack t'' = tr_ack t')"
    using run_frame [of t' "is"] 8(5,6) by blast
  with step_ctx_type [OF st] step_ack [OF st] show ?case
    by (cases "tr_ack t'") (auto simp: created_def)
qed

section \<open>Release\<close>

definition queued :: "osip_transaction \<Rightarrow> osip_message multiset" where
  "queued t = (case transactionff t of None \<Rightarrow> {#}
               | Some q \<Rightarrow> sum_list (map (\<lambda>e. opt_mset (ev_sip e)) (fifo_elems q)))"

lemma free_events_all:
  "fifo_inv q \<Longrightarrow>
   \<exists>as. free_events q = Some as \<and> freed_msgs as = sum_list (map (\<lambda>e. opt_mset (ev_sip e)) (fifo_elems q))"
proof (induction q rule: free_events.induct)
  case (1 q)
  show ?case
  proof (cases "fifo_elems q")
    case Nil
    then show ?thesis using ff.tryget_nil [OF 1(2)] by (subst free_events.simps) simp
  next
    case (Cons e es)
    then obtain q' where q': "osip_fifo_tryget q = Some (Some e, q')" "fifo_inv q'" "fifo_elems q' = es"
      using ff.tryget_cons [OF 1(2)] by blast
    then obtain as where "free_events q' = Some as"
        "freed_msgs as = sum_list (map (\<lambda>e. opt_mset (ev_sip e)) es)"
      using 1(1) [of "(Some e, q')" "Some e" q' e] by auto
    with q' Cons show ?thesis by (subst free_events.simps) simp
  qed
qed

lemma xixt_free_live: "(\<exists>c. p = Ptr c) \<or> p = Null \<Longrightarrow> osip_xixt_free p = Some OSIP_SUCCESS"
  by (auto simp: osip_xixt_free_def)

lemma free2_all:
  assumes "transaction_inv t"
  shows "\<exists>as. osip_transaction_free2 (Some t) = Some (OSIP_SUCCESS, as)
    \<and> freed_msgs as = queued t + owned t"
proof -
  obtain q where q: "transactionff t = Some q" "fifo_inv q"
    using assms by (auto simp: transaction_inv_def split: option.splits)
  obtain evs where "free_events q = Some evs"
      "freed_msgs evs = sum_list (map (\<lambda>e. opt_mset (ev_sip e)) (fifo_elems q))"
    using free_events_all [OF q(2)] by blast
  moreover have "(case ctx_type t of ICT \<Rightarrow> osip_xixt_free (ict_context t) | IST \<Rightarrow> osip_xixt_free (ist_context t)
      | NICT \<Rightarrow> osip_xixt_free (nict_context t) | NIST \<Rightarrow> osip_xixt_free (nist_context t)) = Some OSIP_SUCCESS"
    using assms ict_context_Ptr ist_context_Ptr nict_context_Ptr nist_context_Ptr
    by (cases "ctx_type t") (fastforce intro: xixt_free_live)+
  ultimately show ?thesis using q
    by (simp add: osip_transaction_free2_def queued_def owned_def ac_simps)
qed

end
