(* ===== verification/Osip_Manager.thy ===== *)
theory Osip_Manager
  imports Osip_Run
begin

text \<open>
  The transaction manager: \<open>src/osip2/osip.c\<close>, and \<open>osip_transaction_init\<close> and
  \<open>osip_transaction_free\<close> of \<open>src/osip2/osip_transaction.c\<close>, in the build without the optional
  hash tables.  Transactions live in a store \<open>mem\<close>, a map from addresses to transactions; the four
  lists of the manager hold addresses.  An address outside the store is a dangling pointer.  Every
  operation of the code runs under the mutex of its list, so operations are atomic.
\<close>

section \<open>State\<close>

record ixt =
  ixt_dialog :: "nat option"
  msg2xx :: "osip_message option"
  ixt_ack :: "osip_message option"
  ixt_start :: timeval
  interval :: int
  ixt_dest :: "string option"
  ixt_port :: int
  ixt_sock :: int
  ixt_counter :: int

record osip =
  application_context :: "nat option"
  osip_transactionid :: int
  osip_ict_transactions :: "nat osip_list"
  osip_ist_transactions :: "nat osip_list"
  osip_nict_transactions :: "nat osip_list"
  osip_nist_transactions :: "nat osip_list"
  ixt_retransmissions :: "ixt osip_list"
  mem :: "nat \<Rightarrow> osip_transaction option"
  next_addr :: nat

definition osip_init :: osip where
  "osip_init =
     \<lparr>application_context = None, osip_transactionid = 1,
      osip_ict_transactions = \<lparr>nb_elt = 0, node = []\<rparr>, osip_ist_transactions = \<lparr>nb_elt = 0, node = []\<rparr>,
      osip_nict_transactions = \<lparr>nb_elt = 0, node = []\<rparr>, osip_nist_transactions = \<lparr>nb_elt = 0, node = []\<rparr>,
      ixt_retransmissions = \<lparr>nb_elt = 0, node = []\<rparr>, mem = (\<lambda>a. None), next_addr = 0\<rparr>"

definition osip_set_application_context :: "osip \<Rightarrow> nat option \<Rightarrow> osip" where
  "osip_set_application_context osip p = osip\<lparr>application_context := p\<rparr>"

definition osip_get_application_context :: "osip option \<Rightarrow> nat option" where
  "osip_get_application_context osip = (case osip of None \<Rightarrow> None | Some o1 \<Rightarrow> application_context o1)"

section \<open>Registration of callbacks\<close>

definition osip_set_cb_send_message ::
    "osip_cfg \<Rightarrow> (osip_transaction \<Rightarrow> osip_message \<Rightarrow> string option \<Rightarrow> int \<Rightarrow> int \<Rightarrow> int) \<Rightarrow> osip_cfg" where
  "osip_set_cb_send_message cf cb = cf\<lparr>cb_send_message := cb\<rparr>"

definition osip_set_message_callback :: "osip_cfg \<Rightarrow> osip_message_callback_type_t \<Rightarrow> bool \<Rightarrow> int \<times> osip_cfg" where
  \<comment> \<open>\<open>cb\<close> says whether the callback is not NULL\<close>
  "osip_set_message_callback config ty cb =
     (if ty = OSIP_MESSAGE_CALLBACK_COUNT then (OSIP_BADPARAMETER, config)
      else (OSIP_SUCCESS, config\<lparr>msg_callbacks := (msg_callbacks config)(ty := cb)\<rparr>))"

definition osip_set_kill_transaction_callback :: "osip_cfg \<Rightarrow> osip_kill_callback_type_t \<Rightarrow> bool \<Rightarrow> int \<times> osip_cfg" where
  "osip_set_kill_transaction_callback config ty cb =
     (if ty = OSIP_KILL_CALLBACK_COUNT then (OSIP_BADPARAMETER, config)
      else (OSIP_SUCCESS, config\<lparr>kill_callbacks := (kill_callbacks config)(ty := cb)\<rparr>))"

definition osip_set_transport_error_callback ::
    "osip_cfg \<Rightarrow> osip_transport_error_callback_type_t \<Rightarrow> bool \<Rightarrow> int \<times> osip_cfg" where
  "osip_set_transport_error_callback config ty cb =
     (if ty = OSIP_TRANSPORT_ERROR_CALLBACK_COUNT then (OSIP_BADPARAMETER, config)
      else (OSIP_SUCCESS, config\<lparr>tp_error_callbacks := (tp_error_callbacks config)(ty := cb)\<rparr>))"

section \<open>The four lists\<close>

definition transactions :: "osip_fsm_type_t \<Rightarrow> osip \<Rightarrow> nat osip_list" where
  "transactions ty osip =
     (case ty of ICT \<Rightarrow> osip_ict_transactions osip | IST \<Rightarrow> osip_ist_transactions osip
      | NICT \<Rightarrow> osip_nict_transactions osip | NIST \<Rightarrow> osip_nist_transactions osip)"

definition set_transactions :: "osip_fsm_type_t \<Rightarrow> nat osip_list \<Rightarrow> osip \<Rightarrow> osip" where
  "set_transactions ty l osip =
     (case ty of ICT \<Rightarrow> osip\<lparr>osip_ict_transactions := l\<rparr> | IST \<Rightarrow> osip\<lparr>osip_ist_transactions := l\<rparr>
      | NICT \<Rightarrow> osip\<lparr>osip_nict_transactions := l\<rparr> | NIST \<Rightarrow> osip\<lparr>osip_nist_transactions := l\<rparr>)"

definition osip_add_transaction :: "osip_fsm_type_t \<Rightarrow> osip \<Rightarrow> nat \<Rightarrow> (int \<times> osip) ub" where
  "osip_add_transaction ty osip a = do {
     (r, l) \<leftarrow> osip_list_add True (Some (transactions ty osip)) a (-1);
     l' \<leftarrow> deref l;
     Some (OSIP_SUCCESS, set_transactions ty l' osip)
   }"

definition osip_add_ict :: "osip \<Rightarrow> nat \<Rightarrow> (int \<times> osip) ub" where
  "osip_add_ict osip ict = osip_add_transaction ICT osip ict"

definition osip_add_ist :: "osip \<Rightarrow> nat \<Rightarrow> (int \<times> osip) ub" where
  "osip_add_ist osip ist = osip_add_transaction IST osip ist"

definition osip_add_nict :: "osip \<Rightarrow> nat \<Rightarrow> (int \<times> osip) ub" where
  "osip_add_nict osip nict = osip_add_transaction NICT osip nict"

definition osip_add_nist :: "osip \<Rightarrow> nat \<Rightarrow> (int \<times> osip) ub" where
  "osip_add_nist osip nist = osip_add_transaction NIST osip nist"

text \<open>The loop of the four \<open>__osip_remove_..._transaction\<close> functions: remove the first transaction
  with the given identifier.\<close>

function remove_loop :: "(nat \<Rightarrow> osip_transaction option) \<Rightarrow> int \<Rightarrow> nat osip_list_iterator \<Rightarrow>
    nat osip_list \<Rightarrow> (int \<times> nat osip_list) ub" where
  "remove_loop m tid it li =
     (if osip_list_iterator_has_elem it li then
        (case m (hd (it_actual it)) of
           None \<Rightarrow> None
         | Some tmp \<Rightarrow>
             if transactionid tmp = tid
             then Some (OSIP_SUCCESS, snd (snd (osip_list_iterator_remove it li)))
             else remove_loop m tid (snd (osip_list_get_next it li)) li)
      else Some (OSIP_UNDEFINED_ERROR, li))"
  by pat_completeness auto
termination
  by (relation "measure (\<lambda>(m, tid, it, li). length (it_actual it))")
     (auto simp: osip_list_iterator_has_elem_def osip_list_get_next_def Let_def split: list.splits)

declare remove_loop.simps [simp del]

definition osip_remove_from :: "osip_fsm_type_t \<Rightarrow> osip \<Rightarrow> osip_transaction \<Rightarrow> (int \<times> osip) ub" where
  "osip_remove_from ty osip tr = do {
     (x, it) \<leftarrow> osip_list_get_first (Some (transactions ty osip));
     (r, l) \<leftarrow> remove_loop (mem osip) (transactionid tr) it (transactions ty osip);
     Some (r, set_transactions ty l osip)
   }"

definition osip_remove_ict_transaction :: "osip \<Rightarrow> osip_transaction \<Rightarrow> (int \<times> osip) ub" where
  "osip_remove_ict_transaction osip ict = osip_remove_from ICT osip ict"

definition osip_remove_ist_transaction :: "osip \<Rightarrow> osip_transaction \<Rightarrow> (int \<times> osip) ub" where
  "osip_remove_ist_transaction osip ist = osip_remove_from IST osip ist"

definition osip_remove_nict_transaction :: "osip \<Rightarrow> osip_transaction \<Rightarrow> (int \<times> osip) ub" where
  "osip_remove_nict_transaction osip nict = osip_remove_from NICT osip nict"

definition osip_remove_nist_transaction :: "osip \<Rightarrow> osip_transaction \<Rightarrow> (int \<times> osip) ub" where
  "osip_remove_nist_transaction osip nist = osip_remove_from NIST osip nist"

definition osip_remove_transaction :: "osip \<Rightarrow> nat option \<Rightarrow> (int \<times> osip) ub" where
  "osip_remove_transaction osip tr =
     (case tr of None \<Rightarrow> Some (OSIP_BADPARAMETER, osip)
      | Some a \<Rightarrow> do {
          t \<leftarrow> deref (mem osip a);
          (case ctx_type t of
             ICT \<Rightarrow> osip_remove_ict_transaction osip t
           | IST \<Rightarrow> osip_remove_ist_transaction osip t
           | NICT \<Rightarrow> osip_remove_nict_transaction osip t
           | NIST \<Rightarrow> osip_remove_nist_transaction osip t)
        })"

section \<open>Creation and release of transactions\<close>

definition osip_transaction_free :: "osip \<Rightarrow> nat option \<Rightarrow> (int \<times> osip \<times> action list) ub" where
  "osip_transaction_free osip tr =
     (case tr of None \<Rightarrow> Some (OSIP_BADPARAMETER, osip, [])
      | Some a \<Rightarrow> do {
          (i, osip1) \<leftarrow> osip_remove_transaction osip (Some a);
          (r, acts) \<leftarrow> osip_transaction_free2 (mem osip1 a);
          Some (r, osip1\<lparr>mem := (mem osip1)(a := None)\<rparr>, acts)
        })"

text \<open>The exit \<open>osip_transaction_free (*transaction); *transaction = NULL; return i;\<close> on an object
  that is not in a list yet.\<close>

definition init_fail :: "osip \<Rightarrow> osip_transaction \<Rightarrow> int \<Rightarrow> (int \<times> nat option \<times> osip) ub" where
  "init_fail osip t i = do {
     let a = next_addr osip;
     let osip1 = osip\<lparr>mem := (mem osip)(a := Some t), next_addr := Suc a\<rparr>;
     (r, osip2, acts) \<leftarrow> osip_transaction_free osip1 (Some a);
     Some (i, None, osip2)
   }"

text \<open>The call of one \<open>__osip_transaction_set_\<close> function: \<open>Inl\<close> is its error with the object it
  leaves, \<open>Inr\<close> the object to go on with.\<close>

definition init_set :: "int \<times> osip_transaction option \<Rightarrow> (int \<times> osip_transaction) + osip_transaction" where
  "init_set r = (case r of (i, t) \<Rightarrow> if i \<noteq> 0 then Inl (i, the t) else Inr (the t))"

definition init_fields :: "osip_transaction \<Rightarrow> osip_message \<Rightarrow> (int \<times> osip_transaction) + osip_transaction" where
  "init_fields t request =
     (case seq_get (vias request) 0 of
        None \<Rightarrow> Inl (OSIP_SYNTAXERROR, t)
      | Some v \<Rightarrow>
          (case init_set (osip_transaction_set_topvia (Some t) (Some v)) of Inl e \<Rightarrow> Inl e
           | Inr t1 \<Rightarrow>
          (case init_set (osip_transaction_set_from (Some t1) (msg_from request)) of Inl e \<Rightarrow> Inl e
           | Inr t2 \<Rightarrow>
          (case init_set (osip_transaction_set_to (Some t2) (msg_to request)) of Inl e \<Rightarrow> Inl e
           | Inr t3 \<Rightarrow>
          (case init_set (osip_transaction_set_call_id (Some t3) (msg_call_id request)) of Inl e \<Rightarrow> Inl e
           | Inr t4 \<Rightarrow> init_set (osip_transaction_set_cseq (Some t4) (msg_cseq request)))))))"

definition init_context :: "osip_cfg \<Rightarrow> osip_transaction \<Rightarrow> osip_message \<Rightarrow> (int \<times> osip_transaction) ub" where
  "init_context cfg t request =
     (case ctx_type t of
        ICT \<Rightarrow> do {
          (i, c) \<leftarrow> osip_ict_init cfg request;
          Some (i, t\<lparr>tr_state := ICT_PRE_CALLING, ict_context := c\<rparr>)
        }
      | IST \<Rightarrow> (case osip_ist_init request of
                  (i, c) \<Rightarrow> Some (i, t\<lparr>tr_state := IST_PRE_PROCEEDING, ist_context := c\<rparr>))
      | NICT \<Rightarrow> do {
          (i, c) \<leftarrow> osip_nict_init cfg request;
          Some (i, t\<lparr>tr_state := NICT_PRE_TRYING, nict_context := c\<rparr>)
        }
      | NIST \<Rightarrow> (case osip_nist_init request of
                  (i, c) \<Rightarrow> Some (i, t\<lparr>tr_state := NIST_PRE_TRYING, nist_context := c\<rparr>)))"

definition osip_transaction_init ::
    "osip_cfg \<Rightarrow> osip \<Rightarrow> osip_fsm_type_t \<Rightarrow> osip_message option \<Rightarrow> (int \<times> nat option \<times> osip) ub" where
  "osip_transaction_init cfg osip ty request =
     (case request of None \<Rightarrow> Some (OSIP_BADPARAMETER, None, osip)
      | Some req \<Rightarrow>
      (case msg_call_id req of None \<Rightarrow> Some (OSIP_BADPARAMETER, None, osip)
       | Some cid \<Rightarrow>
           if cid_number cid = None then Some (OSIP_BADPARAMETER, None, osip)
           else if osip_transactionid osip = INT_MAX then UB
           else do {
             let t0 = transaction_zero\<lparr>birth_time := osip_getsystemtime (systime cfg),
                        transactionid := osip_transactionid osip, ctx_type := ty\<rparr>;
             let osip1 = osip\<lparr>osip_transactionid := osip_transactionid osip + 1\<rparr>;
             (case init_fields t0 req of
                Inl (i, t) \<Rightarrow> init_fail osip1 t i
              | Inr t1 \<Rightarrow> do {
                  let t2 = t1\<lparr>orig_request := None, transactionff := Some osip_fifo_init\<rparr>;
                  (i, t3) \<leftarrow> init_context cfg t2 req;
                  if i \<noteq> 0 then init_fail osip1 t3 i
                  else do {
                    let a = next_addr osip1;
                    let osip2 = osip1\<lparr>mem := (mem osip1)(a := Some t3), next_addr := Suc a\<rparr>;
                    (r, osip3) \<leftarrow> (case ty of ICT \<Rightarrow> osip_add_ict osip2 a | IST \<Rightarrow> osip_add_ist osip2 a
                                  | NICT \<Rightarrow> osip_add_nict osip2 a | NIST \<Rightarrow> osip_add_nist osip2 a);
                    Some (OSIP_SUCCESS, Some a, osip3)
                  }
                })
           }))"

definition osip_create_transaction ::
    "osip_cfg \<Rightarrow> osip \<Rightarrow> osip_event option \<Rightarrow> (nat option \<times> osip_event option \<times> osip) ub" where
  "osip_create_transaction cfg osip evt =
     (case evt of None \<Rightarrow> Some (None, evt, osip)
      | Some e \<Rightarrow>
      (case ev_sip e of None \<Rightarrow> Some (None, evt, osip)
       | Some m \<Rightarrow>
           if MSG_IS_REQUEST m
              \<and> (case msg_cseq m of None \<Rightarrow> True | Some cs \<Rightarrow> cseq_method cs = None \<or> sip_method m = None)
           then Some (None, evt, osip)
           else if MSG_IS_REQUEST m \<and> \<not> strcmp_eq (the (cseq_method (the (msg_cseq m)))) (the (sip_method m))
           then Some (None, evt, osip)
           else do {
             is_ack \<leftarrow> MSG_IS_METHOD ''ACK'' m;
             if is_ack then Some (None, evt, osip)
             else if EVT_IS_INCOMINGREQ e \<or> EVT_IS_OUTGOINGREQ e then do {
               cs \<leftarrow> deref (msg_cseq m);
               method \<leftarrow> deref (cseq_method cs);
               let ty = (if EVT_IS_INCOMINGREQ e then (if strcmp_eq method ''INVITE'' then IST else NIST)
                         else (if strcmp_eq method ''INVITE'' then ICT else NICT));
               (i, a, osip1) \<leftarrow> osip_transaction_init cfg osip ty (ev_sip e);
               if i \<noteq> 0 then Some (None, evt, osip1)
               else do {
                 addr \<leftarrow> deref a;
                 t \<leftarrow> deref (mem osip1 addr);
                 Some (a, Some (e\<lparr>ev_transactionid := transactionid t\<rparr>), osip1)
               }
             }
             else Some (None, evt, osip)
           }))"

section \<open>Finding the transaction of an event\<close>

fun find_first :: "('a \<Rightarrow> bool ub) \<Rightarrow> 'a list \<Rightarrow> 'a option ub" where
  "find_first P [] = Some None"
| "find_first P (x # xs) = do { b \<leftarrow> P x; if b then Some (Some x) else find_first P xs }"

definition event_matches :: "osip \<Rightarrow> osip_event \<Rightarrow> nat \<Rightarrow> bool ub" where
  "event_matches osip e a = do {
     t \<leftarrow> deref (mem osip a);
     (if EVT_IS_INCOMINGREQ e then
        do { i \<leftarrow> osip_transaction_matching_request (Some t) (ev_sip e); Some (i = 0) }
      else if EVT_IS_INCOMINGRESP e then
        do { i \<leftarrow> osip_transaction_matching_response (Some t) (ev_sip e); Some (i = 0) }
      else Some (transactionid t = ev_transactionid e))
   }"

definition osip_transaction_find :: "osip \<Rightarrow> nat osip_list \<Rightarrow> osip_event \<Rightarrow> nat option ub" where
  "osip_transaction_find osip li e = do {
     (x, it) \<leftarrow> osip_list_get_first (Some li);
     (case x of None \<Rightarrow> Some None
      | Some a \<Rightarrow> do {
          t \<leftarrow> deref (mem osip a);
          xs \<leftarrow> osip_list_elems li;
          find_first (event_matches osip e) xs
        })
   }"

text \<open>The list an event is looked up in; \<open>strcmp\<close> dereferences the CSeq method.\<close>

definition event_list :: "osip_event \<Rightarrow> osip_message \<Rightarrow> osip_cseq \<Rightarrow> osip_fsm_type_t option ub" where
  "event_list e m cs =
     (if EVT_IS_INCOMINGMSG e then do {
        method \<leftarrow> deref (cseq_method cs);
        Some (Some (if MSG_IS_REQUEST m then
                      (if strcmp_eq method ''INVITE'' \<or> strcmp_eq method ''ACK'' then IST else NIST)
                    else (if strcmp_eq method ''INVITE'' then ICT else NICT)))
      }
      else if EVT_IS_OUTGOINGMSG e then do {
        method \<leftarrow> deref (cseq_method cs);
        Some (Some (if MSG_IS_RESPONSE m then
                      (if strcmp_eq method ''INVITE'' then IST else NIST)
                    else (if strcmp_eq method ''INVITE'' \<or> strcmp_eq method ''ACK'' then ICT else NICT)))
      }
      else Some None)"

definition osip_find_transaction_consume :: "osip \<Rightarrow> osip_event option \<Rightarrow> bool \<Rightarrow> (nat option \<times> osip) ub" where
  \<comment> \<open>\<open>__osip_find_transaction\<close>\<close>
  "osip_find_transaction_consume osip evt consume =
     (case evt of None \<Rightarrow> Some (None, osip)
      | Some e \<Rightarrow>
      (case ev_sip e of None \<Rightarrow> Some (None, osip)
       | Some m \<Rightarrow>
       (case msg_cseq m of None \<Rightarrow> Some (None, osip)
        | Some cs \<Rightarrow> do {
            ty \<leftarrow> event_list e m cs;
            (case ty of None \<Rightarrow> Some (None, osip)
             | Some k \<Rightarrow> do {
                 tr \<leftarrow> osip_transaction_find osip (transactions k osip) e;
                 (case tr of
                    Some a \<Rightarrow>
                      if consume then do {
                        (r, t') \<leftarrow> osip_transaction_add_event (mem osip a) (Some e);
                        Some (Some a, osip\<lparr>mem := (mem osip)(a := t')\<rparr>)
                      }
                      else Some (Some a, osip)
                  | None \<Rightarrow> Some (None, osip))
               })
          })))"

definition osip_find_transaction_and_add_event :: "osip \<Rightarrow> osip_event option \<Rightarrow> (int \<times> osip) ub" where
  "osip_find_transaction_and_add_event osip evt = do {
     (tr, osip') \<leftarrow> osip_find_transaction_consume osip evt True;
     Some (if tr = None then OSIP_UNDEFINED_ERROR else OSIP_SUCCESS, osip')
   }"

definition osip_find_transaction :: "osip \<Rightarrow> osip_event option \<Rightarrow> nat option ub" where
  "osip_find_transaction osip evt = do {
     (tr, osip') \<leftarrow> osip_find_transaction_consume osip evt False;
     Some tr
   }"

section \<open>Executing the queued events\<close>

text \<open>\<open>env k\<close> is the configuration (clock, transport) when the \<open>k\<close>-th event is executed, and \<open>rm k\<close>
  are the transactions that the callbacks of that event take out of the lists with
  \<open>osip_remove_transaction\<close>, as the kill callback of eXosip does.  The array of a pass is a copy of
  the list, so it still has a transaction that was removed meanwhile.\<close>

fun callbacks_remove :: "nat list \<Rightarrow> osip \<Rightarrow> osip ub" where
  "callbacks_remove [] osip = Some osip"
| "callbacks_remove (b # bs) osip = do {
     (r, osip') \<leftarrow> osip_remove_transaction osip (Some b);
     callbacks_remove bs osip'
   }"

partial_function (option) drain ::
    "(nat \<Rightarrow> osip_cfg) \<Rightarrow> (nat \<Rightarrow> nat list) \<Rightarrow> nat \<Rightarrow> nat \<Rightarrow> osip \<Rightarrow> (nat \<times> osip \<times> action list) option" where
  "drain env rm n a osip = do {
     t \<leftarrow> deref (mem osip a);
     q \<leftarrow> deref (transactionff t);
     (se, q') \<leftarrow> osip_fifo_tryget q;
     (case se of
        None \<Rightarrow> Some (n, osip\<lparr>mem := (mem osip)(a := Some (t\<lparr>transactionff := Some q'\<rparr>))\<rparr>, [])
      | Some e \<Rightarrow> do {
          (r, t1, acts) \<leftarrow> osip_transaction_execute (env n) (t\<lparr>transactionff := Some q'\<rparr>) e;
          osip1 \<leftarrow> callbacks_remove (rm n) (osip\<lparr>mem := (mem osip)(a := Some t1)\<rparr>);
          (n', osip2, acts') \<leftarrow> drain env rm (Suc n) a osip1;
          Some (n', osip2, acts @ acts')
        })
   }"

fun execute_array ::
    "(nat \<Rightarrow> osip_cfg) \<Rightarrow> (nat \<Rightarrow> nat list) \<Rightarrow> nat \<Rightarrow> nat list \<Rightarrow> osip \<Rightarrow> (nat \<times> osip \<times> action list) ub" where
  "execute_array env rm n [] osip = Some (n, osip, [])"
| "execute_array env rm n (a # as) osip = do {
     (n1, osip1, acts) \<leftarrow> drain env rm n a osip;
     (n2, osip2, acts2) \<leftarrow> execute_array env rm n1 as osip1;
     Some (n2, osip2, acts @ acts2)
   }"

definition osip_xixt_execute ::
    "osip_fsm_type_t \<Rightarrow> (nat \<Rightarrow> osip_cfg) \<Rightarrow> (nat \<Rightarrow> nat list) \<Rightarrow> osip \<Rightarrow> (int \<times> osip \<times> action list) ub" where
  "osip_xixt_execute ty env rm osip =
     (let li = transactions ty osip; len = osip_list_size (Some li)
      in if 0 \<ge> len then Some (OSIP_SUCCESS, osip, [])
         else do {
           array \<leftarrow> osip_list_elems li;
           if int (length array) \<noteq> len then UB
           else do {
             (n, osip', acts) \<leftarrow> execute_array env rm 0 array osip;
             Some (OSIP_SUCCESS, osip', acts)
           }
         })"

definition osip_ict_execute :: "(nat \<Rightarrow> osip_cfg) \<Rightarrow> (nat \<Rightarrow> nat list) \<Rightarrow> osip \<Rightarrow> (int \<times> osip \<times> action list) ub" where
  "osip_ict_execute = osip_xixt_execute ICT"

definition osip_ist_execute :: "(nat \<Rightarrow> osip_cfg) \<Rightarrow> (nat \<Rightarrow> nat list) \<Rightarrow> osip \<Rightarrow> (int \<times> osip \<times> action list) ub" where
  "osip_ist_execute = osip_xixt_execute IST"

definition osip_nict_execute :: "(nat \<Rightarrow> osip_cfg) \<Rightarrow> (nat \<Rightarrow> nat list) \<Rightarrow> osip \<Rightarrow> (int \<times> osip \<times> action list) ub" where
  "osip_nict_execute = osip_xixt_execute NICT"

definition osip_nist_execute :: "(nat \<Rightarrow> osip_cfg) \<Rightarrow> (nat \<Rightarrow> nat list) \<Rightarrow> osip \<Rightarrow> (int \<times> osip \<times> action list) ub" where
  "osip_nist_execute = osip_xixt_execute NIST"

end
