(* ===== verification/Osip_Dialog.thy ===== *)
theory Osip_Dialog
  imports Osip_Transaction
begin

text \<open>
  Dialogs: \<open>src/osip2/osip_dialog.c\<close>.  The tag of a header is its first parameter named \<open>tag\<close>
  (\<open>osip_from_get_tag\<close>, \<open>osip_to_get_tag\<close>).  \<open>strcmp\<close> on a tag parameter without a value
  dereferences NULL.
\<close>

section \<open>Data\<close>

datatype osip_dialog_type_t = CALLER | CALLEE

record osip_dialog =
  dlg_call_id :: "string option"
  local_tag :: "string option"
  remote_tag :: "string option"
  line_param :: "string option"
  route_set :: "osip_record_route osip_list"
  local_cseq :: int
  remote_cseq :: int
  remote_uri :: "osip_to option"
  local_uri :: "osip_from option"
  remote_contact_uri :: "osip_contact option"
  secure :: int
  dlg_type :: osip_dialog_type_t
  dlg_state :: state_t
  dlg_instance :: "nat option"

definition dialog_zero :: osip_dialog where
  "dialog_zero =
     \<lparr>dlg_call_id = None, local_tag = None, remote_tag = None, line_param = None,
      route_set = \<lparr>nb_elt = 0, node = []\<rparr>, local_cseq = 0, remote_cseq = 0, remote_uri = None,
      local_uri = None, remote_contact_uri = None, secure = 0, dlg_type = CALLER,
      dlg_state = ICT_PRE_CALLING, dlg_instance = None\<rparr>"

definition get_tag :: "osip_from \<Rightarrow> int \<times> osip_generic_param option" where
  "get_tag f = osip_uri_param_get_byname (gen_params f) (Some ''tag'')"

definition osip_contact_clone :: "osip_contact option \<Rightarrow> int \<times> osip_contact option" where
  "osip_contact_clone c = osip_from_clone c"

section \<open>Updates\<close>

definition osip_dialog_set_state :: "osip_dialog option \<Rightarrow> state_t \<Rightarrow> osip_dialog option" where
  "osip_dialog_set_state dialog st = map_option (\<lambda>d. d\<lparr>dlg_state := st\<rparr>) dialog"

text \<open>The part that \<open>osip_dialog_update_route_set_as_uas\<close> and \<open>..._as_uac\<close> share: the first contact of
  the message becomes the remote target.\<close>

definition update_contact :: "osip_dialog \<Rightarrow> osip_message \<Rightarrow> int \<times> osip_dialog" where
  "update_contact d m =
     (case contacts m of
        [] \<Rightarrow> (OSIP_SUCCESS, d)
      | c # _ \<Rightarrow>
          (case osip_contact_clone (Some c) of
             (i, c2) \<Rightarrow> if i \<noteq> 0 then (i, d\<lparr>remote_contact_uri := None\<rparr>)
                        else (OSIP_SUCCESS, d\<lparr>remote_contact_uri := c2\<rparr>)))"

definition osip_dialog_update_route_set_as_uas ::
    "osip_dialog option \<Rightarrow> osip_message option \<Rightarrow> int \<times> osip_dialog option" where
  "osip_dialog_update_route_set_as_uas dialog invite =
     (case (dialog, invite) of
        (Some d, Some m) \<Rightarrow> (case update_contact d m of (i, d') \<Rightarrow> (i, Some d'))
      | _ \<Rightarrow> (OSIP_BADPARAMETER, dialog))"

definition osip_dialog_update_osip_cseq_as_uas ::
    "osip_dialog option \<Rightarrow> osip_message option \<Rightarrow> int \<times> osip_dialog option" where
  "osip_dialog_update_osip_cseq_as_uas dialog invite =
     (case (dialog, invite) of
        (Some d, Some m) \<Rightarrow>
          (case msg_cseq m of None \<Rightarrow> (OSIP_BADPARAMETER, dialog)
           | Some cs \<Rightarrow>
               if cseq_number cs = None then (OSIP_BADPARAMETER, dialog)
               else (OSIP_SUCCESS, Some (d\<lparr>remote_cseq := osip_atoi (cseq_number cs)\<rparr>)))
      | _ \<Rightarrow> (OSIP_BADPARAMETER, dialog))"

text \<open>The loop over the Record-Route headers: each is cloned and added at position \<open>where\<close> (0 to
  reverse the order, -1 to keep it).\<close>

fun add_routes :: "int \<Rightarrow> osip_record_route list \<Rightarrow> osip_record_route osip_list \<Rightarrow>
    (int \<times> osip_record_route osip_list) ub" where
  "add_routes pos [] rset = Some (0, rset)"
| "add_routes pos (rr # rrs) rset =
     (case osip_from_clone (Some rr) of
        (i, rr2) \<Rightarrow>
          if i \<noteq> 0 then Some (i, rset)
          else do {
            x \<leftarrow> deref rr2;
            (r, l) \<leftarrow> osip_list_add True (Some rset) x pos;
            rset' \<leftarrow> deref l;
            add_routes pos rrs rset'
          })"

definition osip_dialog_update_route_set_as_uac ::
    "osip_dialog option \<Rightarrow> osip_message option \<Rightarrow> (int \<times> osip_dialog option) ub" where
  "osip_dialog_update_route_set_as_uac dialog response =
     (case (dialog, response) of
        (Some d, Some m) \<Rightarrow>
          (case update_contact d m of
             (i, d1) \<Rightarrow>
               if i \<noteq> 0 then Some (i, Some d1)
               else do {
                 (freed, rs) \<leftarrow> (if dlg_state d1 = DIALOG_EARLY \<and> osip_list_size (Some (route_set d1)) > 0
                                then osip_list_special_free (Some (route_set d1))
                                else Some ([], Some (route_set d1)));
                 rs1 \<leftarrow> deref rs;
                 let rs2 = (if dlg_state d1 = DIALOG_EARLY \<and> osip_list_size (Some (route_set d1)) > 0
                            then \<lparr>nb_elt = 0, node = []\<rparr> else rs1);
                 (j, rs3) \<leftarrow> (if dlg_state d1 = DIALOG_EARLY \<and> osip_list_size (Some rs2) = 0
                             then add_routes 0 (record_routes m) rs2
                             else Some (0, rs2));
                 let d2 = d1\<lparr>route_set := rs3\<rparr>;
                 if j \<noteq> 0 then Some (j, Some d2)
                 else Some (OSIP_SUCCESS,
                            Some (if MSG_IS_STATUS 2 m then d2\<lparr>dlg_state := DIALOG_CONFIRMED\<rparr> else d2))
               })
      | _ \<Rightarrow> Some (OSIP_BADPARAMETER, dialog))"

definition osip_dialog_update_tag_as_uac ::
    "osip_dialog option \<Rightarrow> osip_message option \<Rightarrow> int \<times> osip_dialog option" where
  "osip_dialog_update_tag_as_uac dialog response =
     (case (dialog, response) of
        (Some d, Some m) \<Rightarrow>
          (case msg_to m of None \<Rightarrow> (OSIP_BADPARAMETER, dialog)
           | Some t \<Rightarrow>
               if remote_tag d \<noteq> None then (OSIP_WRONG_STATE, dialog)
               else (case get_tag t of
                       (i, tag) \<Rightarrow>
                         (OSIP_SUCCESS,
                          Some (d\<lparr>remote_tag := (if i \<noteq> 0 then None else Option.bind tag gvalue)\<rparr>))))
      | _ \<Rightarrow> (OSIP_BADPARAMETER, dialog))"

section \<open>Matching\<close>

definition osip_dialog_match_as_uac :: "osip_dialog option \<Rightarrow> osip_message option \<Rightarrow> int ub" where
  "osip_dialog_match_as_uac dlg answer =
     (case (dlg, answer) of
        (Some d, Some m) \<Rightarrow>
          (case (dlg_call_id d, msg_call_id m, msg_from m, msg_to m) of
             (Some dcid, Some cid, Some f, Some t) \<Rightarrow>
               (case osip_call_id_to_str (Some cid) of
                  (i, tmp) \<Rightarrow>
                    if i \<noteq> 0 then Some i
                    else if \<not> strcmp_eq dcid (the tmp) then Some OSIP_UNDEFINED_ERROR
                    else (case get_tag f of
                            (i1, tag_param_local) \<Rightarrow>
                              if i1 \<noteq> 0 then Some OSIP_SYNTAXERROR
                              else if local_tag d = None then Some OSIP_SYNTAXERROR
                              else do {
                                tl \<leftarrow> deref tag_param_local;
                                vl \<leftarrow> deref (gvalue tl);
                                if \<not> strcmp_eq vl (the (local_tag d)) then Some OSIP_UNDEFINED_ERROR
                                else (case get_tag t of
                                        (i2, tag_param_remote) \<Rightarrow>
                                          if i2 \<noteq> 0 \<and> remote_tag d \<noteq> None then Some OSIP_SYNTAXERROR
                                          else if remote_tag d = None then
                                            Some (if osip_from_compare (local_uri d) (Some f) = 0
                                                     \<and> osip_from_compare (remote_uri d) (Some t) = 0
                                                  then OSIP_SUCCESS else OSIP_UNDEFINED_ERROR)
                                          else do {
                                            tr \<leftarrow> deref tag_param_remote;
                                            vr \<leftarrow> deref (gvalue tr);
                                            Some (if strcmp_eq vr (the (remote_tag d)) then OSIP_SUCCESS
                                                  else OSIP_UNDEFINED_ERROR)
                                          })
                              }))
           | _ \<Rightarrow> Some OSIP_BADPARAMETER)
      | _ \<Rightarrow> Some OSIP_BADPARAMETER)"

definition osip_dialog_match_as_uas :: "osip_dialog option \<Rightarrow> osip_message option \<Rightarrow> int ub" where
  "osip_dialog_match_as_uas dlg request =
     (case (dlg, request) of
        (Some d, Some m) \<Rightarrow>
          (case (dlg_call_id d, msg_call_id m, msg_from m, msg_to m) of
             (Some dcid, Some cid, Some f, Some t) \<Rightarrow>
               (case osip_call_id_to_str (Some cid) of
                  (i, tmp) \<Rightarrow>
                    if i \<noteq> 0 then Some i
                    else if \<not> strcmp_eq dcid (the tmp) then Some OSIP_UNDEFINED_ERROR
                    else if local_tag d = None then Some OSIP_SYNTAXERROR
                    else (case get_tag f of
                            (i1, tag_param_remote) \<Rightarrow>
                              if i1 \<noteq> 0 \<and> remote_tag d \<noteq> None then Some OSIP_SYNTAXERROR
                              else if remote_tag d = None then
                                Some (if osip_from_compare (remote_uri d) (Some f) = 0
                                         \<and> osip_from_compare (local_uri d) (Some t) = 0
                                      then OSIP_SUCCESS else OSIP_UNDEFINED_ERROR)
                              else do {
                                tr \<leftarrow> deref tag_param_remote;
                                vr \<leftarrow> deref (gvalue tr);
                                Some (if strcmp_eq vr (the (remote_tag d)) then OSIP_SUCCESS
                                      else OSIP_UNDEFINED_ERROR)
                              }))
           | _ \<Rightarrow> Some OSIP_BADPARAMETER)
      | _ \<Rightarrow> Some OSIP_BADPARAMETER)"

section \<open>Creation\<close>

text \<open>\<open>__osip_dialog_init\<close>: the failure exits free the dialog and return NULL.  An outer \<open>None\<close> is
  undefined behaviour.\<close>

definition dialog_init_line :: "osip_message option \<Rightarrow> string option ub" where
  "dialog_init_line invite =
     (case invite of None \<Rightarrow> Some None
      | Some m \<Rightarrow> do {
          u \<leftarrow> deref (req_uri m);
          Some (case osip_uri_param_get_byname (url_params u) (Some ''line'') of
                  (i, p) \<Rightarrow> if i = 0 then Option.bind p gvalue else None)
        })"

definition dialog_init_uris :: "osip_dialog \<Rightarrow> osip_from \<Rightarrow> osip_to \<Rightarrow> osip_message \<Rightarrow> int \<times> osip_dialog option" where
  "dialog_init_uris d loc remote remote_msg =
     (case osip_from_clone (Some remote) of
        (i1, ru) \<Rightarrow>
          if i1 \<noteq> 0 then (i1, None)
          else (case osip_to_clone (Some loc) of
                  (i2, lu) \<Rightarrow>
                    if i2 \<noteq> 0 then (i2, None)
                    else (case contacts remote_msg of
                            [] \<Rightarrow> (OSIP_SUCCESS,
                                   Some (d\<lparr>remote_uri := ru, local_uri := lu, remote_contact_uri := None,
                                           secure := -1\<rparr>))
                          | c # _ \<Rightarrow>
                              (case osip_contact_clone (Some c) of
                                 (i3, c2) \<Rightarrow>
                                   if i3 \<noteq> 0 then (i3, None)
                                   else (OSIP_SUCCESS,
                                         Some (d\<lparr>remote_uri := ru, local_uri := lu,
                                                 remote_contact_uri := c2, secure := -1\<rparr>))))))"

definition osip_dialog_init ::
    "osip_message option \<Rightarrow> osip_message option \<Rightarrow> osip_from option \<Rightarrow> osip_to option \<Rightarrow> osip_message option \<Rightarrow>
     (int \<times> osip_dialog option) ub" where
  \<comment> \<open>\<open>__osip_dialog_init\<close>\<close>
  "osip_dialog_init invite response loc remote remote_msg =
     (case response of None \<Rightarrow> Some (OSIP_BADPARAMETER, None)
      | Some resp \<Rightarrow>
      (case (msg_cseq resp, loc, remote) of
         (Some cs, Some l, Some rem) \<Rightarrow>
           (let d0 = dialog_zero\<lparr>dlg_state := (if MSG_IS_STATUS 2 resp then DIALOG_CONFIRMED else DIALOG_EARLY)\<rparr>
            in case osip_call_id_to_str (msg_call_id resp) of
                 (i, cid) \<Rightarrow>
                   if i \<noteq> 0 then Some (i, None)
                   else (case get_tag l of
                           (i1, ltag) \<Rightarrow>
                             if i1 \<noteq> 0 then Some (i1, None)
                             else do {
                               lt \<leftarrow> deref ltag;
                               let rtag = (case get_tag rem of
                                             (i2, rt) \<Rightarrow> if i2 = 0 then Option.bind rt gvalue else None);
                               line \<leftarrow> dialog_init_line invite;
                               (j, rs) \<leftarrow> add_routes (if invite = None then 0 else -1)
                                            (record_routes resp) \<lparr>nb_elt = 0, node = []\<rparr>;
                               if j \<noteq> 0 then Some (j, None)
                               else do {
                                 rm \<leftarrow> deref remote_msg;
                                 Some (dialog_init_uris
                                   (d0\<lparr>dlg_call_id := cid, local_tag := gvalue lt, remote_tag := rtag,
                                       line_param := line, route_set := rs,
                                       local_cseq := osip_atoi (cseq_number cs)\<rparr>)
                                   l rem rm)
                               }
                             }))
       | _ \<Rightarrow> Some (OSIP_SYNTAXERROR, None)))"

definition osip_dialog_init_as_uac :: "osip_message option \<Rightarrow> (int \<times> osip_dialog option) ub" where
  "osip_dialog_init_as_uac response = do {
     m \<leftarrow> deref response;
     (i, d) \<leftarrow> osip_dialog_init None response (msg_from m) (msg_to m) response;
     if i \<noteq> 0 then Some (i, None)
     else do { dl \<leftarrow> deref d; Some (OSIP_SUCCESS, Some (dl\<lparr>dlg_type := CALLER, remote_cseq := -1\<rparr>)) }
   }"

definition osip_dialog_init_as_uac_with_remote_request ::
    "osip_message option \<Rightarrow> int \<Rightarrow> (int \<times> osip_dialog option) ub" where
  "osip_dialog_init_as_uac_with_remote_request next_request lcseq = do {
     m \<leftarrow> deref next_request;
     (case msg_cseq m of None \<Rightarrow> Some (OSIP_BADPARAMETER, None)
      | Some cs \<Rightarrow> do {
          (i, d) \<leftarrow> osip_dialog_init next_request next_request (msg_to m) (msg_from m) next_request;
          if i \<noteq> 0 then Some (i, None)
          else do {
            dl \<leftarrow> deref d;
            Some (OSIP_SUCCESS,
                  Some (dl\<lparr>dlg_type := CALLER, dlg_state := DIALOG_CONFIRMED, local_cseq := lcseq,
                           remote_cseq := osip_atoi (cseq_number cs)\<rparr>))
          }
        })
   }"

definition osip_dialog_init_as_uas ::
    "osip_message option \<Rightarrow> osip_message option \<Rightarrow> (int \<times> osip_dialog option) ub" where
  "osip_dialog_init_as_uas invite response = do {
     m \<leftarrow> deref response;
     (case msg_cseq m of None \<Rightarrow> Some (OSIP_SYNTAXERROR, None)
      | Some cs \<Rightarrow> do {
          (i, d) \<leftarrow> osip_dialog_init invite response (msg_to m) (msg_from m) invite;
          if i \<noteq> 0 then Some (i, None)
          else do {
            dl \<leftarrow> deref d;
            Some (OSIP_SUCCESS, Some (dl\<lparr>dlg_type := CALLEE, remote_cseq := osip_atoi (cseq_number cs)\<rparr>))
          }
        })
   }"

section \<open>Route set\<close>

lemma add_routes_append:
  assumes "\<forall>r \<in> set rrs. from_ok r"
  shows "add_routes (-1) rrs (of_elems xs) = Some (0, of_elems (xs @ rrs))"
  using assms
  by (induction rrs arbitrary: xs) (simp_all add: osip_from_clone_Some seq_insert_def osip_err)

lemma add_routes_reverse:
  assumes "\<forall>r \<in> set rrs. from_ok r"
  shows "add_routes 0 rrs (of_elems xs) = Some (0, of_elems (rev rrs @ xs))"
  using assms
  by (induction rrs arbitrary: xs) (simp_all add: osip_from_clone_Some seq_insert_def osip_err)

lemma of_elems_Nil: "\<lparr>nb_elt = 0, node = []\<rparr> = of_elems []"
  by (simp add: of_elems_def)

end
