(* ===== verification/Osip_Ixt.thy ===== *)
theory Osip_Ixt
  imports Osip_Manager Osip_Dialog
begin

text \<open>
  Retransmissions outside of the state machines (\<open>src/osip2/osip.c\<close>): the 2xx responses and ACKs
  that a user agent repeats until they are answered or given up.  Dialogs live in a store \<open>dlgs\<close>; an
  \<open>ixt\<close> refers to its dialog by address.  The transport is called with a NULL transaction and its
  result is not used, so a call is recorded as a \<open>sent\<close> value only.
\<close>

type_synonym sent = "osip_message \<times> string option \<times> int \<times> int"

definition osip_response_get_destination :: "osip_message \<Rightarrow> string option \<times> int" where
  "osip_response_get_destination response =
     (case seq_get (vias response) 0 of
        None \<Rightarrow> (None, 0)
      | Some via \<Rightarrow> (response_host via, response_port via))"

definition ixt_init :: "timeval \<Rightarrow> ixt" where
  "ixt_init now =
     \<lparr>ixt_dialog = None, msg2xx = None, ixt_ack = None,
      ixt_start = add_gettimeofday now (DEFAULT_T1 + 10), interval = DEFAULT_T1, ixt_dest = None,
      ixt_port = 5060, ixt_sock = -1, ixt_counter = 10\<rparr>"

definition ixt_free :: "ixt \<Rightarrow> action list" where
  "ixt_free x = osip_message_free (ixt_ack x) @ osip_message_free (msg2xx x)"

definition osip_add_ixt :: "osip \<Rightarrow> ixt \<Rightarrow> osip ub" where
  "osip_add_ixt osip x = do {
     (r, l) \<leftarrow> osip_list_add True (Some (ixt_retransmissions osip)) x 0;
     l' \<leftarrow> deref l;
     Some (osip\<lparr>ixt_retransmissions := l'\<rparr>)
   }"

definition osip_start_200ok_retransmissions ::
    "timeval \<Rightarrow> osip \<Rightarrow> nat option \<Rightarrow> osip_message option \<Rightarrow> int \<Rightarrow> osip ub" where
  "osip_start_200ok_retransmissions now osip dialog msg200ok sock = do {
     let copy = snd (osip_message_clone msg200ok);
     m \<leftarrow> deref msg200ok;
     let (d, p) = osip_response_get_destination m;
     osip_add_ixt osip ((ixt_init now)\<lparr>ixt_dialog := dialog, msg2xx := copy, ixt_sock := sock,
                                       ixt_dest := d, ixt_port := p\<rparr>)
   }"

definition osip_start_ack_retransmissions ::
    "timeval \<Rightarrow> osip \<Rightarrow> nat option \<Rightarrow> osip_message option \<Rightarrow> string option \<Rightarrow> int \<Rightarrow> int \<Rightarrow> osip ub" where
  "osip_start_ack_retransmissions now osip dialog ack dest p sock =
     osip_add_ixt osip ((ixt_init now)\<lparr>ixt_dialog := dialog, ixt_ack := snd (osip_message_clone ack),
                                       ixt_dest := dest, ixt_port := p, ixt_sock := sock\<rparr>)"

text \<open>The dialog behind the pointer of an \<open>ixt\<close>.\<close>

definition dlg_ptr :: "(nat \<Rightarrow> osip_dialog option) \<Rightarrow> nat option \<Rightarrow> osip_dialog option ub" where
  "dlg_ptr dlgs p = (case p of None \<Rightarrow> Some None | Some a \<Rightarrow> do { d \<leftarrow> deref (dlgs a); Some (Some d) })"

definition ixt_cseq_number :: "ixt \<Rightarrow> string option" where
  \<comment> \<open>\<open>ixt->msg2xx->cseq->number\<close>, \<open>None\<close> when one of the pointers is NULL\<close>
  "ixt_cseq_number x =
     (case msg2xx x of None \<Rightarrow> None | Some m \<Rightarrow> (case msg_cseq m of None \<Rightarrow> None | Some cs \<Rightarrow> cseq_number cs))"

function stop_200ok_loop :: "(nat \<Rightarrow> osip_dialog option) \<Rightarrow> osip_message \<Rightarrow> string \<Rightarrow> nat \<Rightarrow> ixt osip_list \<Rightarrow>
    (nat option \<times> ixt osip_list \<times> action list) ub" where
  "stop_200ok_loop dlgs ack num i li =
     (if osip_list_eol (Some li) (int i) \<noteq> 0 then Some (None, li, [])
      else (case osip_list_get (Some li) (int i) of
              Some (Some x) \<Rightarrow>
                (case ixt_cseq_number x of
                   None \<Rightarrow> stop_200ok_loop dlgs ack num (Suc i) li
                 | Some n \<Rightarrow>
                     (case (case dlg_ptr dlgs (ixt_dialog x) of None \<Rightarrow> None
                            | Some d \<Rightarrow> osip_dialog_match_as_uas d (Some ack)) of
                        None \<Rightarrow> None
                      | Some r \<Rightarrow>
                          if r = 0 \<and> strcmp_eq n num then
                            (case osip_list_remove (Some li) (int i) of
                               Some (c, Some li') \<Rightarrow> Some (ixt_dialog x, li', ixt_free x)
                             | _ \<Rightarrow> None)
                          else stop_200ok_loop dlgs ack num (Suc i) li))
            | _ \<Rightarrow> None))"
  by pat_completeness auto
termination
  by (relation "measure (\<lambda>(dlgs, ack, num, i, li). nat (nb_elt li) - i)")
     (auto simp: osip_list_eol_def osip_err split: if_splits)

declare stop_200ok_loop.simps [simp del]

definition osip_stop_200ok_retransmissions ::
    "(nat \<Rightarrow> osip_dialog option) \<Rightarrow> osip \<Rightarrow> osip_message option \<Rightarrow> (nat option \<times> osip \<times> action list) ub" where
  "osip_stop_200ok_retransmissions dlgs osip ack =
     (case ack of None \<Rightarrow> Some (None, osip, [])
      | Some m \<Rightarrow>
      (case msg_cseq m of None \<Rightarrow> Some (None, osip, [])
       | Some cs \<Rightarrow>
       (case cseq_number cs of None \<Rightarrow> Some (None, osip, [])
        | Some num \<Rightarrow> do {
            (d, li, acts) \<leftarrow> stop_200ok_loop dlgs m num 0 (ixt_retransmissions osip);
            Some (d, osip\<lparr>ixt_retransmissions := li\<rparr>, acts)
          })))"

lemma osip_list_remove_nb_elt:
  "osip_list_remove (Some l) pos = Some (r, Some l') \<Longrightarrow> 0 \<le> pos \<Longrightarrow> pos < nb_elt l \<Longrightarrow> nb_elt l' = nb_elt l - 1"
  by (auto simp: osip_list_remove_def split: if_splits list.splits option.splits prod.splits)

text \<open>\<open>osip_stop_retransmissions_from_dialog\<close> compares the dialog pointers.\<close>

function stop_dialog_loop :: "nat option \<Rightarrow> nat \<Rightarrow> ixt osip_list \<Rightarrow> (ixt osip_list \<times> action list) ub" where
  "stop_dialog_loop dialog i li =
     (if osip_list_eol (Some li) (int i) \<noteq> 0 then Some (li, [])
      else (case osip_list_get (Some li) (int i) of
              Some (Some x) \<Rightarrow>
                if ixt_dialog x = dialog then
                  (case osip_list_remove (Some li) (int i) of
                     Some (c, Some li') \<Rightarrow>
                       (case stop_dialog_loop dialog i li' of None \<Rightarrow> None
                        | Some (li2, acts) \<Rightarrow> Some (li2, ixt_free x @ acts))
                   | _ \<Rightarrow> None)
                else stop_dialog_loop dialog (Suc i) li
            | _ \<Rightarrow> None))"
  by pat_completeness auto
termination
  by (relation "measure (\<lambda>(dialog, i, li). nat (nb_elt li) - i)")
     (auto simp: osip_list_eol_def osip_err dest!: osip_list_remove_nb_elt split: if_splits)

declare stop_dialog_loop.simps [simp del]

definition osip_stop_retransmissions_from_dialog :: "osip \<Rightarrow> nat option \<Rightarrow> (osip \<times> action list) ub" where
  "osip_stop_retransmissions_from_dialog osip dialog = do {
     (li, acts) \<leftarrow> stop_dialog_loop dialog 0 (ixt_retransmissions osip);
     Some (osip\<lparr>ixt_retransmissions := li\<rparr>, acts)
   }"

definition ixt_next_interval :: "int \<Rightarrow> int" where
  "ixt_next_interval len = (if len * 2 > DEFAULT_T2 then DEFAULT_T2 else len * 2)"

definition ixt_retransmit :: "ixt \<Rightarrow> timeval \<Rightarrow> ixt \<times> sent list" where
  "ixt_retransmit x current =
     (if osip_timercmp_gt current (ixt_start x) then
        (let len = ixt_next_interval (interval x);
             out = (case ixt_ack x of
                      Some a \<Rightarrow> [(a, ixt_dest x, ixt_port x, ixt_sock x)]
                    | None \<Rightarrow>
                        (case msg2xx x of
                           Some m \<Rightarrow> [(m, ixt_dest x, ixt_port x, ixt_sock x)]
                         | None \<Rightarrow> []))
         in (x\<lparr>interval := len, ixt_start := add_gettimeofday (ixt_start x) len,
               ixt_counter := ixt_counter x - 1\<rparr>, out))
      else (x, []))"

function retransmissions_loop :: "timeval \<Rightarrow> nat \<Rightarrow> ixt osip_list \<Rightarrow> (ixt osip_list \<times> sent list \<times> action list) ub" where
  "retransmissions_loop current i li =
     (if osip_list_eol (Some li) (int i) \<noteq> 0 then Some (li, [], [])
      else (case osip_list_get (Some li) (int i) of
              Some (Some x) \<Rightarrow>
                (case ixt_retransmit x current of
                   (x', out) \<Rightarrow>
                     (let li1 = li\<lparr>node := (node li)[i := x']\<rparr>
                      in if ixt_counter x' = 0 then
                           (case osip_list_remove (Some li1) (int i) of
                              Some (c, Some li2) \<Rightarrow>
                                (case retransmissions_loop current i li2 of None \<Rightarrow> None
                                 | Some (li3, outs, acts) \<Rightarrow> Some (li3, out @ outs, ixt_free x' @ acts))
                            | _ \<Rightarrow> None)
                         else (case retransmissions_loop current (Suc i) li1 of None \<Rightarrow> None
                               | Some (li3, outs, acts) \<Rightarrow> Some (li3, out @ outs, acts))))
            | _ \<Rightarrow> None))"
  by pat_completeness auto
termination
  by (relation "measure (\<lambda>(current, i, li). nat (nb_elt li) - i)")
     (auto simp: osip_list_eol_def osip_err dest!: osip_list_remove_nb_elt split: if_splits)

declare retransmissions_loop.simps [simp del]

definition osip_retransmissions_execute :: "timeval \<Rightarrow> osip \<Rightarrow> (osip \<times> sent list \<times> action list) ub" where
  "osip_retransmissions_execute current osip = do {
     (li, outs, acts) \<leftarrow> retransmissions_loop current 0 (ixt_retransmissions osip);
     Some (osip\<lparr>ixt_retransmissions := li\<rparr>, outs, acts)
   }"

end
