(* ===== verification/Osip_Timers.thy ===== *)
theory Osip_Timers
  imports Osip_Manager
begin

text \<open>
  The timers of the manager (\<open>src/osip2/osip.c\<close>): turning expired timers into events
  (\<open>osip_timers_..._execute\<close>) and the delay until the next one (\<open>osip_timers_gettimeout\<close>).
  \<open>clk k\<close> is the \<open>k\<close>-th reading of the clock in a pass over a list; each transaction has up to
  three checks.
\<close>

section \<open>Expired timers become events\<close>

fun first_event :: "osip_event option ub list \<Rightarrow> osip_event option ub" where
  "first_event [] = Some None"
| "first_event (c # cs) =
     do { e \<leftarrow> c; (case e of Some x \<Rightarrow> Some (Some x) | None \<Rightarrow> first_event cs) }"

definition ict_timer_event :: "(nat \<Rightarrow> timeval) \<Rightarrow> nat \<Rightarrow> osip_transaction \<Rightarrow> osip_event option ub" where
  "ict_timer_event clk k tr = do {
     q \<leftarrow> deref (transactionff tr);
     if 1 \<le> osip_fifo_size q then Some None
     else first_event
       [osip_ict_need_timer_b_event (clk k) (ict_context tr) (tr_state tr) (transactionid tr),
        osip_ict_need_timer_a_event (clk (k + 1)) (ict_context tr) (tr_state tr) (transactionid tr),
        osip_ict_need_timer_d_event (clk (k + 2)) (ict_context tr) (tr_state tr) (transactionid tr)]
   }"

definition ist_timer_event :: "(nat \<Rightarrow> timeval) \<Rightarrow> nat \<Rightarrow> osip_transaction \<Rightarrow> osip_event option ub" where
  "ist_timer_event clk k tr =
     first_event
       [osip_ist_need_timer_i_event (clk k) (ist_context tr) (tr_state tr) (transactionid tr),
        osip_ist_need_timer_h_event (clk (k + 1)) (ist_context tr) (tr_state tr) (transactionid tr),
        osip_ist_need_timer_g_event (clk (k + 2)) (ist_context tr) (tr_state tr) (transactionid tr)]"

definition nict_timer_event :: "(nat \<Rightarrow> timeval) \<Rightarrow> nat \<Rightarrow> osip_transaction \<Rightarrow> osip_event option ub" where
  "nict_timer_event clk k tr =
     first_event
       [osip_nict_need_timer_k_event (clk k) (nict_context tr) (tr_state tr) (transactionid tr),
        osip_nict_need_timer_f_event (clk (k + 1)) (nict_context tr) (tr_state tr) (transactionid tr),
        osip_nict_need_timer_e_event (clk (k + 2)) (nict_context tr) (tr_state tr) (transactionid tr)]"

definition nist_timer_event :: "(nat \<Rightarrow> timeval) \<Rightarrow> nat \<Rightarrow> osip_transaction \<Rightarrow> osip_event option ub" where
  "nist_timer_event clk k tr =
     first_event
       [osip_nist_need_timer_j_event (clk k) (nist_context tr) (tr_state tr) (transactionid tr)]"

text \<open>\<open>osip_fifo_add (tr->transactionff, evt)\<close> when there is an event.\<close>

definition add_timer_event :: "osip_transaction \<Rightarrow> osip_event option \<Rightarrow> osip_transaction ub" where
  "add_timer_event tr evt =
     (case evt of None \<Rightarrow> Some tr
      | Some e \<Rightarrow> do {
          q \<leftarrow> deref (transactionff tr);
          (r, q') \<leftarrow> osip_fifo_add q e;
          Some (tr\<lparr>transactionff := Some q'\<rparr>)
        })"

fun timers_pass :: "((nat \<Rightarrow> timeval) \<Rightarrow> nat \<Rightarrow> osip_transaction \<Rightarrow> osip_event option ub) \<Rightarrow>
    (nat \<Rightarrow> timeval) \<Rightarrow> nat \<Rightarrow> nat list \<Rightarrow> osip \<Rightarrow> osip ub" where
  "timers_pass f clk k [] osip = Some osip"
| "timers_pass f clk k (a # as) osip = do {
     tr \<leftarrow> deref (mem osip a);
     evt \<leftarrow> f clk k tr;
     tr' \<leftarrow> add_timer_event tr evt;
     timers_pass f clk (k + 3) as (osip\<lparr>mem := (mem osip)(a := Some tr')\<rparr>)
   }"

definition osip_timers_xixt_execute ::
    "osip_fsm_type_t \<Rightarrow> ((nat \<Rightarrow> timeval) \<Rightarrow> nat \<Rightarrow> osip_transaction \<Rightarrow> osip_event option ub) \<Rightarrow>
     (nat \<Rightarrow> timeval) \<Rightarrow> osip \<Rightarrow> osip ub" where
  "osip_timers_xixt_execute ty f clk osip =
     do { as \<leftarrow> osip_list_elems (transactions ty osip); timers_pass f clk 0 as osip }"

definition osip_timers_ict_execute :: "(nat \<Rightarrow> timeval) \<Rightarrow> osip \<Rightarrow> osip ub" where
  "osip_timers_ict_execute = osip_timers_xixt_execute ICT ict_timer_event"

definition osip_timers_ist_execute :: "(nat \<Rightarrow> timeval) \<Rightarrow> osip \<Rightarrow> osip ub" where
  "osip_timers_ist_execute = osip_timers_xixt_execute IST ist_timer_event"

definition osip_timers_nict_execute :: "(nat \<Rightarrow> timeval) \<Rightarrow> osip \<Rightarrow> osip ub" where
  "osip_timers_nict_execute = osip_timers_xixt_execute NICT nict_timer_event"

definition osip_timers_nist_execute :: "(nat \<Rightarrow> timeval) \<Rightarrow> osip \<Rightarrow> osip ub" where
  "osip_timers_nist_execute = osip_timers_xixt_execute NIST nist_timer_event"

section \<open>The delay until the next timer\<close>

definition min_if :: "bool \<Rightarrow> 'c cptr \<Rightarrow> ('c \<Rightarrow> timeval) \<Rightarrow> timeval \<Rightarrow> timeval ub" where
  \<comment> \<open>\<open>if (b) min_timercmp (lower_tv, &ctx->timer);\<close>\<close>
  "min_if b ctx timer lower =
     (if b then do { c \<leftarrow> cderef ctx; Some (min_timercmp lower (timer c)) } else Some lower)"

text \<open>One iteration of a loop: \<open>None\<close> is the early return with a zero delay.\<close>

definition overdue :: "timeval \<Rightarrow> timeval \<Rightarrow> timeval option" where
  "overdue now lower = (if osip_timercmp_gt now lower then None else Some lower)"

definition ict_timeout :: "timeval \<Rightarrow> osip_transaction \<Rightarrow> timeval \<Rightarrow> timeval option ub" where
  "ict_timeout now tr lower = do {
     q \<leftarrow> deref (transactionff tr);
     if 1 \<le> osip_fifo_size q then Some None
     else do {
       l1 \<leftarrow> min_if (tr_state tr = ICT_CALLING) (ict_context tr) timer_b_start lower;
       l2 \<leftarrow> min_if (tr_state tr = ICT_CALLING) (ict_context tr) timer_a_start l1;
       l3 \<leftarrow> min_if (tr_state tr = ICT_COMPLETED) (ict_context tr) timer_d_start l2;
       Some (overdue now l3)
     }
   }"

definition ist_timeout :: "timeval \<Rightarrow> osip_transaction \<Rightarrow> timeval \<Rightarrow> timeval option ub" where
  "ist_timeout now tr lower = do {
     l1 \<leftarrow> min_if (tr_state tr = IST_CONFIRMED) (ist_context tr) timer_i_start lower;
     l2 \<leftarrow> min_if (tr_state tr = IST_COMPLETED) (ist_context tr) timer_h_start l1;
     l3 \<leftarrow> min_if (tr_state tr = IST_COMPLETED) (ist_context tr) timer_g_start l2;
     Some (overdue now l3)
   }"

definition nict_timeout :: "timeval \<Rightarrow> osip_transaction \<Rightarrow> timeval \<Rightarrow> timeval option ub" where
  "nict_timeout now tr lower = do {
     l1 \<leftarrow> min_if (tr_state tr = NICT_COMPLETED) (nict_context tr) timer_k_start lower;
     l2 \<leftarrow> min_if (tr_state tr = NICT_PROCEEDING \<or> tr_state tr = NICT_TRYING) (nict_context tr) timer_f_start l1;
     l3 \<leftarrow> min_if (tr_state tr = NICT_PROCEEDING \<or> tr_state tr = NICT_TRYING) (nict_context tr) timer_e_start l2;
     Some (overdue now l3)
   }"

definition nist_timeout :: "timeval \<Rightarrow> osip_transaction \<Rightarrow> timeval \<Rightarrow> timeval option ub" where
  "nist_timeout now tr lower = do {
     l1 \<leftarrow> min_if (tr_state tr = NIST_COMPLETED) (nist_context tr) timer_j_start lower;
     Some (overdue now l1)
   }"

fun timeout_loop :: "('x \<Rightarrow> timeval \<Rightarrow> timeval option ub) \<Rightarrow> 'x list \<Rightarrow> timeval \<Rightarrow> timeval option ub" where
  "timeout_loop f [] lower = Some (Some lower)"
| "timeout_loop f (x # xs) lower =
     do { r \<leftarrow> f x lower; (case r of None \<Rightarrow> Some None | Some l \<Rightarrow> timeout_loop f xs l) }"

definition timeout_list ::
    "osip \<Rightarrow> osip_fsm_type_t \<Rightarrow> (osip_transaction \<Rightarrow> timeval \<Rightarrow> timeval option ub) \<Rightarrow> timeval option \<Rightarrow> timeval option ub" where
  "timeout_list osip ty f lower =
     (case lower of None \<Rightarrow> Some None
      | Some l \<Rightarrow> do {
          as \<leftarrow> osip_list_elems (transactions ty osip);
          timeout_loop (\<lambda>a l. do { tr \<leftarrow> deref (mem osip a); f tr l }) as l
        })"

definition normalize_delay :: "timeval \<Rightarrow> timeval \<Rightarrow> timeval" where
  \<comment> \<open>the last lines of \<open>osip_timers_gettimeout\<close>\<close>
  "normalize_delay lower now =
     (let s0 = tv_sec lower - tv_sec now; u0 = tv_usec lower - tv_usec now;
          (s1, u1) = (if u0 < 0 then (s0 - 1, u0 + 1000000) else (s0, u0));
          (s2, u2) = (if s1 < 0 then (0, 0) else (s1, u1));
          (s3, u3) = (if u2 > 1000000 then (s2 + 1, u2 - 1000000) else (s2, u2))
      in \<lparr>tv_sec = s3, tv_usec = u3\<rparr>)"

definition osip_timers_gettimeout :: "timeval \<Rightarrow> osip \<Rightarrow> timeval ub" where
  "osip_timers_gettimeout now osip = do {
     let l0 = \<lparr>tv_sec = tv_sec now + 3600 * 24 * 365, tv_usec = tv_usec now\<rparr>;
     l1 \<leftarrow> timeout_list osip ICT (ict_timeout now) (Some l0);
     l2 \<leftarrow> timeout_list osip IST (ist_timeout now) l1;
     l3 \<leftarrow> timeout_list osip NICT (nict_timeout now) l2;
     l4 \<leftarrow> timeout_list osip NIST (nist_timeout now) l3;
     l5 \<leftarrow> (case l4 of None \<Rightarrow> Some None
           | Some l \<Rightarrow> do {
               xs \<leftarrow> osip_list_elems (ixt_retransmissions osip);
               timeout_loop (\<lambda>x l. Some (overdue now (min_timercmp l (ixt_start x)))) xs l
             });
     Some (case l5 of None \<Rightarrow> tv_zero | Some l \<Rightarrow> normalize_delay l now)
   }"

end
