(* ===== verification/Osip_Fsm_Live.thy ===== *)
theory Osip_Fsm_Live
  imports Osip_Run
begin

text \<open>
  What the state machines do when nothing fails: with a transport that accepts every message and
  well-formed messages, each step is exactly the transition of the RFC.  Also the contents of the
  ACK of an INVITE client, retransmission intervals, and retransmitted messages.
\<close>

section \<open>Well-formed messages, working transport\<close>

definition request_ok :: "osip_message \<Rightarrow> bool" where
  "request_ok m \<longleftrightarrow>
     sip_version m \<noteq> None
     \<and> (case req_uri m of None \<Rightarrow> False | Some u \<Rightarrow> uri_ok u)
     \<and> (case vias m of [] \<Rightarrow> False | v # _ \<Rightarrow> via_ok v)
     \<and> list_all from_ok (routes m)"

definition response_ok :: "osip_message \<Rightarrow> bool" where
  "response_ok m \<longleftrightarrow>
     (case msg_from m of None \<Rightarrow> False | Some f \<Rightarrow> from_ok f)
     \<and> (case msg_to m of None \<Rightarrow> False | Some f \<Rightarrow> from_ok f)
     \<and> (case msg_call_id m of None \<Rightarrow> False | Some c \<Rightarrow> call_id_ok c)
     \<and> (case msg_cseq m of None \<Rightarrow> False | Some c \<Rightarrow> cseq_ok c)
     \<and> vias m \<noteq> []"

definition msg_ok :: "osip_message \<Rightarrow> bool" where
  "msg_ok m \<longleftrightarrow> (if status_code m = 0 then request_ok m else response_ok m)"

definition opt_all :: "('a \<Rightarrow> bool) \<Rightarrow> 'a option \<Rightarrow> bool" where
  "opt_all P x = (case x of None \<Rightarrow> True | Some y \<Rightarrow> P y)"

lemma opt_all_simps [simp]: "opt_all P None" "opt_all P (Some x) = P x"
  by (simp_all add: opt_all_def)

text \<open>The messages a transaction holds are well formed: the original request as a request, the last
  response as a response.\<close>

definition msgs_ok :: "osip_transaction \<Rightarrow> osip_event \<Rightarrow> bool" where
  "msgs_ok t e \<longleftrightarrow> opt_all request_ok (orig_request t) \<and> opt_all response_ok (last_response t)
     \<and> opt_all msg_ok (ev_sip e)"

definition transport_ok :: "osip_cfg \<Rightarrow> bool" where
  "transport_ok cfg \<longleftrightarrow> cb_send_message cfg = (\<lambda>tr m h p s. 0)"

definition ends_in :: "hres \<Rightarrow> state_t \<Rightarrow> bool" where
  "ends_in r s = (case r of None \<Rightarrow> False | Some (t', acts) \<Rightarrow> tr_state t' = s)"

section \<open>The ACK\<close>

lemma ict_create_ack_eq:
  assumes "orig_request t = Some oreq" "request_ok oreq" "response_ok resp"
  shows "ict_create_ack t resp = Some (Some
    \<lparr>sip_version = sip_version oreq, req_uri = req_uri oreq, sip_method = Some ''ACK'', status_code = 0,
     reason_phrase = None,
     authorizations = (if status_code resp = 401 \<or> status_code resp = 407 then []
                       else map clone_auth (authorizations oreq)),
     msg_call_id = msg_call_id resp, contacts = [],
     msg_cseq = map_option (\<lambda>c. c\<lparr>cseq_method := Some ''ACK''\<rparr>) (msg_cseq resp),
     msg_from = msg_from resp,
     proxy_authorizations = (if status_code resp = 401 \<or> status_code resp = 407 then []
                       else map clone_auth (proxy_authorizations oreq)),
     record_routes = [], routes = routes oreq, msg_to = msg_to resp, vias = [hd (vias oreq)]\<rparr>)"
proof -
  have hd: "ack_headers resp = Some (osip_message_init
      \<lparr>msg_from := msg_from resp, msg_to := msg_to resp, msg_call_id := msg_call_id resp,
       msg_cseq := map_option (\<lambda>c. c\<lparr>cseq_method := Some ''ACK''\<rparr>) (msg_cseq resp), sip_method := Some ''ACK''\<rparr>)"
    using assms(3)
    by (auto simp: response_ok_def ack_headers_def clone_simps guard_ok_def osip_err split: option.splits)
  have rq: "ack_request oreq ack = Some (ack\<lparr>sip_version := sip_version oreq, status_code := 0,
      reason_phrase := None, req_uri := req_uri oreq, vias := vias ack @ [hd (vias oreq)],
      routes := routes ack @ routes oreq\<rparr>)" for ack
    using assms(2)
    by (auto simp: request_ok_def ack_request_def osip_uri_clone_Some osip_via_clone_Some guard_ok_def
        osip_err seq_clone_froms
        osip_message_get_via_def split: option.splits list.splits)
  show ?thesis using assms(1)
    by (simp add: ict_create_ack_def hd rq ack_authorizations_def guard_ok_def osip_err osip_message_init_def)
qed

section \<open>Each handler reaches its target\<close>

lemma request_ok_sent:
  "request_ok m \<Longrightarrow> \<exists>c'. ict_message_sent (Some m) c = Inr c'"
  "request_ok m \<Longrightarrow> \<exists>p. nict_orig_proto (Some m) = Some p"
  by (auto simp: request_ok_def ict_message_sent_def nict_orig_proto_def osip_message_get_via_def
      via_ok_def via_get_protocol_def split: list.splits)

lemma response_ok_sent:
  "response_ok m \<Longrightarrow> transport_ok cfg \<Longrightarrow> \<exists>sent. osip_transaction_snd_xxx cfg t (Some m) = Some (0, sent)"
  by (cases "vias m") (auto simp: response_ok_def osip_transaction_snd_xxx_def transport_ok_def)

lemma msgs_ok_event:
  assumes "msgs_ok t e" "event_ok e" "10 \<le> type_rank (ev_type e)" "type_rank (ev_type e) \<le> 21"
  obtains m where "ev_sip e = Some m" "status_code m = 0 \<longrightarrow> sip_method m \<noteq> None"
    "if ev_type e \<in> {RCV_REQINVITE, RCV_REQACK, RCV_REQUEST, SND_REQINVITE, SND_REQACK, SND_REQUEST}
     then request_ok m else response_ok m"
proof -
  obtain m where m: "ev_sip e = Some m" "status_code m = 0 \<longrightarrow> sip_method m \<noteq> None"
      "ev_type e = msg_class True m \<or> ev_type e = msg_class False m"
    using event_ok_Some [OF assms(2-4)] .
  moreover have "msg_ok m" using assms(1) m(1) by (simp add: msgs_ok_def)
  ultimately show thesis using that [of m] by (auto simp: msg_ok_def split: if_splits)
qed

lemma msgs_ok_request:
  assumes "msgs_ok t e" "event_ok e"
    and "ev_type e \<in> {RCV_REQINVITE, RCV_REQACK, RCV_REQUEST, SND_REQINVITE, SND_REQACK, SND_REQUEST}"
  obtains m where "ev_sip e = Some m" "status_code m = 0 \<longrightarrow> sip_method m \<noteq> None" "request_ok m"
  by (rule msgs_ok_event [OF assms(1,2)]) (use assms(3) that in auto)

lemma msgs_ok_response:
  assumes "msgs_ok t e" "event_ok e"
    and "ev_type e \<in> {RCV_STATUS_1XX, RCV_STATUS_2XX, RCV_STATUS_3456XX,
      SND_STATUS_1XX, SND_STATUS_2XX, SND_STATUS_3456XX}"
  obtains m where "ev_sip e = Some m" "status_code m = 0 \<longrightarrow> sip_method m \<noteq> None" "response_ok m"
  by (rule msgs_ok_event [OF assms(1,2)]) (use assms(3) that in auto)

lemma ict_snd_invite_next:
  assumes "transaction_inv t" "ctx_type t = ICT" "event_ok e" "msgs_ok t e" "transport_ok cfg"
    and "tr_state t = ICT_PRE_CALLING" "ev_type e = SND_REQINVITE"
  shows "ends_in (ict_snd_invite cfg t e) (the (rfc_next (tr_state t) (ev_type e)))"
proof -
  obtain m where m: "ev_sip e = Some m" "status_code m = 0 \<longrightarrow> sip_method m \<noteq> None"
      and ok: "request_ok m"
    by (rule msgs_ok_request [OF assms(4,3)]) (use assms(7) in auto)
  obtain c where c: "ict_context t = Ptr c"
    using ict_context_Ptr [OF assms(1,2)] by auto
  obtain c2 where "ict_message_sent (Some m) c = Inr c2" using request_ok_sent(1) [OF ok] by blast
  then show ?thesis using assms(5-7) m c
    by (simp add: ends_in_def Let_def osip_transaction_set_state_def ict_snd_invite_def transport_ok_def)
qed

lemma osip_ict_timeout_a_event_next:
  assumes "transaction_inv t" "ctx_type t = ICT" "event_ok e" "msgs_ok t e" "transport_ok cfg"
    and "tr_state t = ICT_CALLING" "ev_type e = TIMEOUT_A"
  shows "ends_in (osip_ict_timeout_a_event cfg t e) (the (rfc_next (tr_state t) (ev_type e)))"
proof -
  obtain c where c: "ict_context t = Ptr c"
    using ict_context_Ptr [OF assms(1,2)] by auto
  obtain oreq where o: "orig_request t = Some oreq" using ict_orig_request_Some [OF assms(1,2)] assms(6) by auto
  with assms(4) have "request_ok oreq" by (simp add: msgs_ok_def)
  then obtain c2 where "ict_message_sent (Some oreq) (c\<lparr>timer_a_length := timer_a_length c * 2,
      timer_a_start := add_gettimeofday (gettimeofday cfg 0) (timer_a_length c * 2)\<rparr>) = Inr c2"
    using request_ok_sent(1) by blast
  then show ?thesis using assms(5-7) o c
    by (simp add: ends_in_def Let_def osip_transaction_set_state_def osip_ict_timeout_a_event_def transport_ok_def)
qed

lemma osip_ict_timeout_b_event_next:
  assumes "transaction_inv t" "ctx_type t = ICT" "event_ok e" "msgs_ok t e" "transport_ok cfg"
    and "tr_state t = ICT_CALLING" "ev_type e = TIMEOUT_B"
  shows "ends_in (osip_ict_timeout_b_event cfg t e) (the (rfc_next (tr_state t) (ev_type e)))"
proof -
  obtain c where c: "ict_context t = Ptr c"
    using ict_context_Ptr [OF assms(1,2)] by auto
  show ?thesis using assms(6,7) c
    by (simp add: ends_in_def Let_def osip_transaction_set_state_def osip_ict_timeout_b_event_def ict_kill_def kill_callback_eq emit_def)
qed

lemma ict_rcv_1xx_next:
  assumes "transaction_inv t" "ctx_type t = ICT" "event_ok e" "msgs_ok t e" "transport_ok cfg"
    and "tr_state t = ICT_CALLING \<or> tr_state t = ICT_PROCEEDING" "ev_type e = RCV_STATUS_1XX"
  shows "ends_in (ict_rcv_1xx cfg t e) (the (rfc_next (tr_state t) (ev_type e)))"
proof -
  obtain m where m: "ev_sip e = Some m" "status_code m = 0 \<longrightarrow> sip_method m \<noteq> None"
      and ok: "response_ok m"
    by (rule msgs_ok_response [OF assms(4,3)]) (use assms(7) in auto)
  obtain c where c: "ict_context t = Ptr c"
    using ict_context_Ptr [OF assms(1,2)] by auto
  show ?thesis using assms(6,7) c m
    by (elim disjE) (simp_all add: ends_in_def Let_def osip_transaction_set_state_def ict_rcv_1xx_def ict_kill_def kill_callback_eq emit_def)
qed

lemma ict_rcv_2xx_next:
  assumes "transaction_inv t" "ctx_type t = ICT" "event_ok e" "msgs_ok t e" "transport_ok cfg"
    and "tr_state t = ICT_CALLING \<or> tr_state t = ICT_PROCEEDING" "ev_type e = RCV_STATUS_2XX"
  shows "ends_in (ict_rcv_2xx cfg t e) (the (rfc_next (tr_state t) (ev_type e)))"
proof -
  obtain m where m: "ev_sip e = Some m" "status_code m = 0 \<longrightarrow> sip_method m \<noteq> None"
      and ok: "response_ok m"
    by (rule msgs_ok_response [OF assms(4,3)]) (use assms(7) in auto)
  obtain c where c: "ict_context t = Ptr c"
    using ict_context_Ptr [OF assms(1,2)] by auto
  show ?thesis using assms(6,7) c m
    by (elim disjE) (simp_all add: ends_in_def Let_def osip_transaction_set_state_def ict_rcv_2xx_def ict_kill_def kill_callback_eq emit_def)
qed

lemma osip_ict_timeout_d_event_next:
  assumes "transaction_inv t" "ctx_type t = ICT" "event_ok e" "msgs_ok t e" "transport_ok cfg"
    and "tr_state t = ICT_COMPLETED" "ev_type e = TIMEOUT_D"
  shows "ends_in (osip_ict_timeout_d_event cfg t e) (the (rfc_next (tr_state t) (ev_type e)))"
proof -
  obtain c where c: "ict_context t = Ptr c"
    using ict_context_Ptr [OF assms(1,2)] by auto
  show ?thesis using assms(6,7) c
    by (simp add: ends_in_def Let_def osip_transaction_set_state_def osip_ict_timeout_d_event_def ict_kill_def kill_callback_eq emit_def)
qed

lemma ict_retransmit_ack_next:
  assumes "transaction_inv t" "ctx_type t = ICT" "event_ok e" "msgs_ok t e" "transport_ok cfg"
    and "tr_state t = ICT_COMPLETED" "ev_type e = RCV_STATUS_3456XX"
  shows "ends_in (ict_retransmit_ack cfg t e) (the (rfc_next (tr_state t) (ev_type e)))"
proof -
  obtain m where m: "ev_sip e = Some m" "status_code m = 0 \<longrightarrow> sip_method m \<noteq> None"
      and ok: "response_ok m"
    by (rule msgs_ok_response [OF assms(4,3)]) (use assms(7) in auto)
  obtain c where c: "ict_context t = Ptr c"
    using ict_context_Ptr [OF assms(1,2)] by auto
  obtain a where "tr_ack t = Some a" using ict_tr_ack_Some [OF assms(1,2)] assms(6) by auto
  then show ?thesis using assms(5-7) c m
    by (simp add: ends_in_def Let_def osip_transaction_set_state_def ict_retransmit_ack_def transport_ok_def)
qed

lemma ict_rcv_3456xx_next:
  assumes "transaction_inv t" "ctx_type t = ICT" "event_ok e" "msgs_ok t e" "transport_ok cfg"
    and "tr_state t = ICT_CALLING \<or> tr_state t = ICT_PROCEEDING" "ev_type e = RCV_STATUS_3456XX"
  shows "ends_in (ict_rcv_3456xx cfg t e) (the (rfc_next (tr_state t) (ev_type e)))"
proof -
  obtain m where m: "ev_sip e = Some m" "status_code m = 0 \<longrightarrow> sip_method m \<noteq> None"
      and ok: "response_ok m"
    by (rule msgs_ok_response [OF assms(4,3)]) (use assms(7) in auto)
  obtain c where c: "ict_context t = Ptr c"
    using ict_context_Ptr [OF assms(1,2)] by auto
  obtain oreq where o: "orig_request t = Some oreq" using ict_orig_request_Some [OF assms(1,2)] assms(6) by auto
  with assms(4) have "request_ok oreq" by (simp add: msgs_ok_def)
  then obtain a where a: "ict_create_ack (t\<lparr>last_response := Some m\<rparr>) m = Some (Some a)" "req_uri a \<noteq> None"
    using ict_create_ack_eq [of "t\<lparr>last_response := Some m\<rparr>" oreq m] o ok
    by (cases "req_uri oreq") (auto simp: request_ok_def)
  then obtain c2 where "(if ict_destination c = None
         then do { (d, p) \<leftarrow> request_destination a; Some (osip_ict_set_destination c d p) }
         else Some c) = Some c2"
    using final_destination_Some by blast
  with a(1) show ?thesis using assms(6,7) assms(5) m c
    by (elim disjE) (simp_all add: ends_in_def Let_def osip_transaction_set_state_def ict_rcv_3456xx_def ict_start_timer_d_def transport_ok_def)
qed

lemma nict_snd_request_next:
  assumes "transaction_inv t" "ctx_type t = NICT" "event_ok e" "msgs_ok t e" "transport_ok cfg"
    and "tr_state t = NICT_PRE_TRYING" "ev_type e = SND_REQUEST"
  shows "ends_in (nict_snd_request cfg t e) (the (rfc_next (tr_state t) (ev_type e)))"
proof -
  obtain m where m: "ev_sip e = Some m" "status_code m = 0 \<longrightarrow> sip_method m \<noteq> None"
      and ok: "request_ok m"
    by (rule msgs_ok_request [OF assms(4,3)]) (use assms(7) in auto)
  obtain c where c: "nict_context t = Ptr c"
    using nict_context_Ptr [OF assms(1,2)] by auto
  obtain p where p: "nict_orig_proto (Some m) = Some p" using request_ok_sent(2) [OF ok] by blast
  obtain ty where "nict_request_callback m = Some ty"
    using first_method_Some m(2) unfolding nict_request_callback_def by blast
  then show ?thesis using assms(5-7) m(1) c p
    by (simp add: ends_in_def Let_def osip_transaction_set_state_def nict_snd_request_def transport_ok_def)
qed

lemma osip_nict_timeout_e_event_next:
  assumes "transaction_inv t" "ctx_type t = NICT" "event_ok e" "msgs_ok t e" "transport_ok cfg"
    and "tr_state t = NICT_TRYING \<or> tr_state t = NICT_PROCEEDING" "ev_type e = TIMEOUT_E"
  shows "ends_in (osip_nict_timeout_e_event cfg t e) (the (rfc_next (tr_state t) (ev_type e)))"
proof -
  obtain c where c: "nict_context t = Ptr c"
    using nict_context_Ptr [OF assms(1,2)] by auto
  obtain oreq where o: "orig_request t = Some oreq" using nict_orig_request_Some [OF assms(1,2)] assms(6) by auto
  with assms(4) have "request_ok oreq" by (simp add: msgs_ok_def)
  then obtain p where "nict_orig_proto (Some oreq) = Some p" using request_ok_sent(2) by blast
  then show ?thesis using assms(6,7) assms(5) o c
    by (elim disjE) (simp_all add: ends_in_def Let_def osip_transaction_set_state_def osip_nict_timeout_e_event_def transport_ok_def)
qed

lemma osip_nict_timeout_f_event_next:
  assumes "transaction_inv t" "ctx_type t = NICT" "event_ok e" "msgs_ok t e" "transport_ok cfg"
    and "tr_state t = NICT_TRYING \<or> tr_state t = NICT_PROCEEDING" "ev_type e = TIMEOUT_F"
  shows "ends_in (osip_nict_timeout_f_event cfg t e) (the (rfc_next (tr_state t) (ev_type e)))"
proof -
  obtain c where c: "nict_context t = Ptr c"
    using nict_context_Ptr [OF assms(1,2)] by auto
  show ?thesis using assms(6,7) c
    by (elim disjE) (simp_all add: ends_in_def Let_def osip_transaction_set_state_def osip_nict_timeout_f_event_def nict_kill_def kill_callback_eq emit_def)
qed

lemma osip_nict_timeout_k_event_next:
  assumes "transaction_inv t" "ctx_type t = NICT" "event_ok e" "msgs_ok t e" "transport_ok cfg"
    and "tr_state t = NICT_COMPLETED" "ev_type e = TIMEOUT_K"
  shows "ends_in (osip_nict_timeout_k_event cfg t e) (the (rfc_next (tr_state t) (ev_type e)))"
proof -
  obtain c where c: "nict_context t = Ptr c"
    using nict_context_Ptr [OF assms(1,2)] by auto
  show ?thesis using assms(6,7) c
    by (simp add: ends_in_def Let_def osip_transaction_set_state_def osip_nict_timeout_k_event_def nict_kill_def kill_callback_eq emit_def)
qed

lemma nict_rcv_1xx_next:
  assumes "transaction_inv t" "ctx_type t = NICT" "event_ok e" "msgs_ok t e" "transport_ok cfg"
    and "tr_state t = NICT_TRYING \<or> tr_state t = NICT_PROCEEDING" "ev_type e = RCV_STATUS_1XX"
  shows "ends_in (nict_rcv_1xx cfg t e) (the (rfc_next (tr_state t) (ev_type e)))"
proof -
  obtain m where m: "ev_sip e = Some m" "status_code m = 0 \<longrightarrow> sip_method m \<noteq> None"
      and ok: "response_ok m"
    by (rule msgs_ok_response [OF assms(4,3)]) (use assms(7) in auto)
  obtain c where c: "nict_context t = Ptr c"
    using nict_context_Ptr [OF assms(1,2)] by auto
  show ?thesis using assms(6,7) c m
    by (elim disjE) (simp_all add: ends_in_def Let_def osip_transaction_set_state_def nict_rcv_1xx_def nict_kill_def kill_callback_eq emit_def)
qed

lemma nict_rcv_23456xx_next:
  assumes "transaction_inv t" "ctx_type t = NICT" "event_ok e" "msgs_ok t e" "transport_ok cfg"
    and "tr_state t = NICT_TRYING \<or> tr_state t = NICT_PROCEEDING" "ev_type e = RCV_STATUS_2XX \<or> ev_type e = RCV_STATUS_3456XX"
  shows "ends_in (nict_rcv_23456xx cfg t e) (the (rfc_next (tr_state t) (ev_type e)))"
proof -
  obtain m where m: "ev_sip e = Some m" "status_code m = 0 \<longrightarrow> sip_method m \<noteq> None"
      and ok: "response_ok m"
    by (rule msgs_ok_response [OF assms(4,3)]) (use assms(7) in auto)
  obtain c where c: "nict_context t = Ptr c"
    using nict_context_Ptr [OF assms(1,2)] by auto
  obtain ty where "nict_final_callback e = Some ty" using nict_final_callback_Some [OF m(1)] by blast
  then show ?thesis using assms(6,7) m(1) c
    by (elim disjE) (simp_all add: ends_in_def Let_def osip_transaction_set_state_def nict_rcv_23456xx_def)
qed

lemma ist_rcv_invite_next:
  assumes "transaction_inv t" "ctx_type t = IST" "event_ok e" "msgs_ok t e" "transport_ok cfg"
    and "tr_state t = IST_PRE_PROCEEDING \<or> tr_state t = IST_PROCEEDING \<or> tr_state t = IST_COMPLETED" "ev_type e = RCV_REQINVITE"
  shows "ends_in (ist_rcv_invite cfg t e) (the (rfc_next (tr_state t) (ev_type e)))"
proof -
  obtain m where m: "ev_sip e = Some m" "status_code m = 0 \<longrightarrow> sip_method m \<noteq> None"
      and ok: "request_ok m"
    by (rule msgs_ok_request [OF assms(4,3)]) (use assms(7) in auto)
  obtain c where c: "ist_context t = Ptr c"
    using ist_context_Ptr [OF assms(1,2)] by auto
  show ?thesis
  proof (cases "last_response t")
    case None
    show ?thesis using assms(6,7) m(1) None
      by (elim disjE) (simp_all add: ends_in_def Let_def osip_transaction_set_state_def ist_rcv_invite_def)
  next
    case (Some r)
    then obtain sent where "osip_transaction_snd_xxx cfg t (Some r) = Some (0, sent)"
      using response_ok_sent [OF _ assms(5)] assms(4) by (auto simp: msgs_ok_def)
    then show ?thesis using assms(6,7) m(1) Some
      by (elim disjE) (simp_all add: ends_in_def Let_def osip_transaction_set_state_def ist_rcv_invite_def)
  qed
qed

lemma osip_ist_timeout_g_event_next:
  assumes "transaction_inv t" "ctx_type t = IST" "event_ok e" "msgs_ok t e" "transport_ok cfg"
    and "tr_state t = IST_COMPLETED" "ev_type e = TIMEOUT_G"
  shows "ends_in (osip_ist_timeout_g_event cfg t e) (the (rfc_next (tr_state t) (ev_type e)))"
proof -
  obtain c where c: "ist_context t = Ptr c"
    using ist_context_Ptr [OF assms(1,2)] by auto
  obtain r where r: "last_response t = Some r" using ist_last_response_Some [OF assms(1,2,6)] by blast
  with assms(4) have ok: "response_ok r" by (simp add: msgs_ok_def)
  define len where "len = ist_next_g_length (timer_g_length c)"
  obtain sent where "osip_transaction_snd_xxx cfg (t\<lparr>ist_context := Ptr (c\<lparr>timer_g_length := len,
      timer_g_start := add_gettimeofday (gettimeofday cfg 0) len\<rparr>)\<rparr>) (Some r) = Some (0, sent)"
    using response_ok_sent [OF ok assms(5)] by blast
  then show ?thesis using assms(6,7) c r
    by (simp add: ends_in_def Let_def osip_transaction_set_state_def osip_ist_timeout_g_event_def flip: len_def)
qed

lemma osip_ist_timeout_h_event_next:
  assumes "transaction_inv t" "ctx_type t = IST" "event_ok e" "msgs_ok t e" "transport_ok cfg"
    and "tr_state t = IST_COMPLETED" "ev_type e = TIMEOUT_H"
  shows "ends_in (osip_ist_timeout_h_event cfg t e) (the (rfc_next (tr_state t) (ev_type e)))"
proof -
  obtain c where c: "ist_context t = Ptr c"
    using ist_context_Ptr [OF assms(1,2)] by auto
  show ?thesis using assms(6,7) c
    by (simp add: ends_in_def Let_def osip_transaction_set_state_def osip_ist_timeout_h_event_def ist_kill_def kill_callback_eq emit_def)
qed

lemma osip_ist_timeout_i_event_next:
  assumes "transaction_inv t" "ctx_type t = IST" "event_ok e" "msgs_ok t e" "transport_ok cfg"
    and "tr_state t = IST_CONFIRMED" "ev_type e = TIMEOUT_I"
  shows "ends_in (osip_ist_timeout_i_event cfg t e) (the (rfc_next (tr_state t) (ev_type e)))"
proof -
  obtain c where c: "ist_context t = Ptr c"
    using ist_context_Ptr [OF assms(1,2)] by auto
  show ?thesis using assms(6,7) c
    by (simp add: ends_in_def Let_def osip_transaction_set_state_def osip_ist_timeout_i_event_def ist_kill_def kill_callback_eq emit_def)
qed

lemma ist_rcv_ack_next:
  assumes "transaction_inv t" "ctx_type t = IST" "event_ok e" "msgs_ok t e" "transport_ok cfg"
    and "tr_state t = IST_COMPLETED \<or> tr_state t = IST_CONFIRMED" "ev_type e = RCV_REQACK"
  shows "ends_in (ist_rcv_ack cfg t e) (the (rfc_next (tr_state t) (ev_type e)))"
proof -
  obtain m where m: "ev_sip e = Some m" "status_code m = 0 \<longrightarrow> sip_method m \<noteq> None"
      and ok: "request_ok m"
    by (rule msgs_ok_request [OF assms(4,3)]) (use assms(7) in auto)
  obtain c where c: "ist_context t = Ptr c"
    using ist_context_Ptr [OF assms(1,2)] by auto
  show ?thesis using assms(6,7) c m
    by (elim disjE) (simp_all add: ends_in_def Let_def osip_transaction_set_state_def ist_rcv_ack_def ist_kill_def kill_callback_eq emit_def)
qed

lemma ist_snd_1xx_next:
  assumes "transaction_inv t" "ctx_type t = IST" "event_ok e" "msgs_ok t e" "transport_ok cfg"
    and "tr_state t = IST_PROCEEDING" "ev_type e = SND_STATUS_1XX"
  shows "ends_in (ist_snd_1xx cfg t e) (the (rfc_next (tr_state t) (ev_type e)))"
proof -
  obtain m where m: "ev_sip e = Some m" "status_code m = 0 \<longrightarrow> sip_method m \<noteq> None"
      and ok: "response_ok m"
    by (rule msgs_ok_response [OF assms(4,3)]) (use assms(7) in auto)
  obtain c where c: "ist_context t = Ptr c"
    using ist_context_Ptr [OF assms(1,2)] by auto
  obtain sent where "osip_transaction_snd_xxx cfg (t\<lparr>last_response := Some m\<rparr>) (Some m) = Some (0, sent)"
    using response_ok_sent [OF ok assms(5)] by blast
  then show ?thesis using assms(6,7) m(1) c
    by (simp add: ends_in_def Let_def osip_transaction_set_state_def ist_snd_1xx_def ist_kill_def kill_callback_eq emit_def)
qed

lemma ist_snd_2xx_next:
  assumes "transaction_inv t" "ctx_type t = IST" "event_ok e" "msgs_ok t e" "transport_ok cfg"
    and "tr_state t = IST_PROCEEDING" "ev_type e = SND_STATUS_2XX"
  shows "ends_in (ist_snd_2xx cfg t e) (the (rfc_next (tr_state t) (ev_type e)))"
proof -
  obtain m where m: "ev_sip e = Some m" "status_code m = 0 \<longrightarrow> sip_method m \<noteq> None"
      and ok: "response_ok m"
    by (rule msgs_ok_response [OF assms(4,3)]) (use assms(7) in auto)
  obtain c where c: "ist_context t = Ptr c"
    using ist_context_Ptr [OF assms(1,2)] by auto
  obtain sent where "osip_transaction_snd_xxx cfg (t\<lparr>last_response := Some m\<rparr>) (Some m) = Some (0, sent)"
    using response_ok_sent [OF ok assms(5)] by blast
  then show ?thesis using assms(6,7) m(1) c
    by (simp add: ends_in_def Let_def osip_transaction_set_state_def ist_snd_2xx_def ist_kill_def kill_callback_eq emit_def)
qed

lemma ist_snd_3456xx_next:
  assumes "transaction_inv t" "ctx_type t = IST" "event_ok e" "msgs_ok t e" "transport_ok cfg"
    and "tr_state t = IST_PROCEEDING" "ev_type e = SND_STATUS_3456XX"
  shows "ends_in (ist_snd_3456xx cfg t e) (the (rfc_next (tr_state t) (ev_type e)))"
proof -
  obtain m where m: "ev_sip e = Some m" "status_code m = 0 \<longrightarrow> sip_method m \<noteq> None"
      and ok: "response_ok m"
    by (rule msgs_ok_response [OF assms(4,3)]) (use assms(7) in auto)
  obtain c where c: "ist_context t = Ptr c"
    using ist_context_Ptr [OF assms(1,2)] by auto
  obtain sent where "osip_transaction_snd_xxx cfg (t\<lparr>last_response := Some m\<rparr>) (Some m) = Some (0, sent)"
    using response_ok_sent [OF ok assms(5)] by blast
  then show ?thesis using assms(6,7) m(1) c
    by (simp add: ends_in_def Let_def osip_transaction_set_state_def ist_snd_3456xx_def ist_kill_def kill_callback_eq emit_def)
qed

lemma nist_rcv_request_next:
  assumes "transaction_inv t" "ctx_type t = NIST" "event_ok e" "msgs_ok t e" "transport_ok cfg"
    and "tr_state t = NIST_PRE_TRYING \<or> tr_state t = NIST_PROCEEDING \<or> tr_state t = NIST_COMPLETED" "ev_type e = RCV_REQUEST"
  shows "ends_in (nist_rcv_request cfg t e) (the (rfc_next (tr_state t) (ev_type e)))"
proof -
  obtain m where m: "ev_sip e = Some m" "status_code m = 0 \<longrightarrow> sip_method m \<noteq> None"
      and ok: "request_ok m"
    by (rule msgs_ok_request [OF assms(4,3)]) (use assms(7) in auto)
  obtain c where c: "nist_context t = Ptr c"
    using nist_context_Ptr [OF assms(1,2)] by auto
  obtain ty where ty: "nist_request_callback m = Some ty"
    using first_method_Some m(2) unfolding nist_request_callback_def by blast
  show ?thesis
  proof (cases "last_response t")
    case None
    show ?thesis using assms(6,7) m(1) None ty
      by (elim disjE) (simp_all add: ends_in_def Let_def osip_transaction_set_state_def nist_rcv_request_def)
  next
    case (Some r)
    then obtain sent where "osip_transaction_snd_xxx cfg t (Some r) = Some (0, sent)"
      using response_ok_sent [OF _ assms(5)] assms(4) by (auto simp: msgs_ok_def)
    then show ?thesis using assms(6,7) m(1) Some ty
      by (elim disjE) (simp_all add: ends_in_def Let_def osip_transaction_set_state_def nist_rcv_request_def)
  qed
qed

lemma nist_snd_1xx_next:
  assumes "transaction_inv t" "ctx_type t = NIST" "event_ok e" "msgs_ok t e" "transport_ok cfg"
    and "tr_state t = NIST_TRYING \<or> tr_state t = NIST_PROCEEDING" "ev_type e = SND_STATUS_1XX"
  shows "ends_in (nist_snd_1xx cfg t e) (the (rfc_next (tr_state t) (ev_type e)))"
proof -
  obtain m where m: "ev_sip e = Some m" "status_code m = 0 \<longrightarrow> sip_method m \<noteq> None"
      and ok: "response_ok m"
    by (rule msgs_ok_response [OF assms(4,3)]) (use assms(7) in auto)
  obtain c where c: "nist_context t = Ptr c"
    using nist_context_Ptr [OF assms(1,2)] by auto
  obtain sent where "osip_transaction_snd_xxx cfg (t\<lparr>last_response := Some m\<rparr>) (Some m) = Some (0, sent)"
    using response_ok_sent [OF ok assms(5)] by blast
  then show ?thesis using assms(6,7) m(1) c
    by (elim disjE) (simp_all add: ends_in_def Let_def osip_transaction_set_state_def nist_snd_1xx_def nist_kill_def kill_callback_eq emit_def)
qed

lemma nist_snd_23456xx_next:
  assumes "transaction_inv t" "ctx_type t = NIST" "event_ok e" "msgs_ok t e" "transport_ok cfg"
    and "tr_state t = NIST_TRYING \<or> tr_state t = NIST_PROCEEDING" "ev_type e = SND_STATUS_2XX \<or> ev_type e = SND_STATUS_3456XX"
  shows "ends_in (nist_snd_23456xx cfg t e) (the (rfc_next (tr_state t) (ev_type e)))"
proof -
  obtain m where m: "ev_sip e = Some m" "status_code m = 0 \<longrightarrow> sip_method m \<noteq> None"
      and ok: "response_ok m"
    by (rule msgs_ok_response [OF assms(4,3)]) (use assms(7) in auto)
  obtain c where c: "nist_context t = Ptr c"
    using nist_context_Ptr [OF assms(1,2)] by auto
  obtain sent where "osip_transaction_snd_xxx cfg (t\<lparr>last_response := Some m\<rparr>) (Some m) = Some (0, sent)"
    using response_ok_sent [OF ok assms(5)] by blast
  then show ?thesis using assms(6,7) m(1) c
    by (elim disjE) (simp_all add: ends_in_def Let_def osip_transaction_set_state_def nist_snd_23456xx_def nist_kill_def kill_callback_eq emit_def)
qed

lemma osip_nist_timeout_j_event_next:
  assumes "transaction_inv t" "ctx_type t = NIST" "event_ok e" "msgs_ok t e" "transport_ok cfg"
    and "tr_state t = NIST_COMPLETED" "ev_type e = TIMEOUT_J"
  shows "ends_in (osip_nist_timeout_j_event cfg t e) (the (rfc_next (tr_state t) (ev_type e)))"
proof -
  obtain c where c: "nist_context t = Ptr c"
    using nist_context_Ptr [OF assms(1,2)] by auto
  show ?thesis using assms(6,7) c
    by (simp add: ends_in_def Let_def osip_transaction_set_state_def osip_nist_timeout_j_event_def nist_kill_def kill_callback_eq emit_def)
qed

section \<open>Dispatch\<close>

lemmas ict_next = ict_snd_invite_next osip_ict_timeout_a_event_next osip_ict_timeout_b_event_next
  ict_rcv_1xx_next ict_rcv_2xx_next ict_rcv_3456xx_next ict_retransmit_ack_next osip_ict_timeout_d_event_next

lemmas nict_next = nict_snd_request_next osip_nict_timeout_e_event_next osip_nict_timeout_f_event_next
  osip_nict_timeout_k_event_next nict_rcv_1xx_next nict_rcv_23456xx_next

lemmas ist_next = ist_rcv_invite_next osip_ist_timeout_g_event_next osip_ist_timeout_h_event_next
  osip_ist_timeout_i_event_next ist_snd_1xx_next ist_snd_2xx_next ist_snd_3456xx_next ist_rcv_ack_next

lemmas nist_next = nist_rcv_request_next nist_snd_1xx_next nist_snd_23456xx_next
  osip_nist_timeout_j_event_next

lemma table_next:
  assumes "transaction_inv t" "event_ok e" "msgs_ok t e" "transport_ok cfg"
    and "tr \<in> set (fsm_table (ctx_type t))" "trans_type tr = ev_type e" "trans_state tr = tr_state t"
  shows "ends_in (trans_method tr cfg t e) (the (rfc_next (tr_state t) (ev_type e)))"
proof (cases "ctx_type t")
  case ICT
  with assms(5) have "tr \<in> set ict_transition" by (simp add: fsm_table_def)
  then show ?thesis unfolding ict_transition_def list.set
    by (elim insertE emptyE) (use assms(6,7) ict_next [OF assms(1) ICT assms(2-4)] in simp_all)
next
  case NICT
  with assms(5) have "tr \<in> set nict_transition" by (simp add: fsm_table_def)
  then show ?thesis unfolding nict_transition_def list.set
    by (elim insertE emptyE) (use assms(6,7) nict_next [OF assms(1) NICT assms(2-4)] in simp_all)
next
  case IST
  with assms(5) have "tr \<in> set ist_transition" by (simp add: fsm_table_def)
  then show ?thesis unfolding ist_transition_def list.set
    by (elim insertE emptyE) (use assms(6,7) ist_next [OF assms(1) IST assms(2-4)] in simp_all)
next
  case NIST
  with assms(5) have "tr \<in> set nist_transition" by (simp add: fsm_table_def)
  then show ?thesis unfolding nist_transition_def list.set
    by (elim insertE emptyE) (use assms(6,7) nist_next [OF assms(1) NIST assms(2-4)] in simp_all)
qed

lemma execute_next:
  assumes "transaction_inv t" "event_ok e" "msgs_ok t e" "transport_ok cfg"
    and "osip_transaction_execute cfg t e = Some (r, t', acts)"
  shows "tr_state t' = (case rfc_next (tr_state t) (ev_type e) of None \<Rightarrow> tr_state t | Some s \<Rightarrow> s)"
proof (cases "ev_type e = KILL_TRANSACTION")
  case True
  have "rfc_next (tr_state t) KILL_TRANSACTION = None" by (simp add: rfc_next_None rfc_table_def)
  with True assms(5) show ?thesis by (simp add: osip_transaction_execute_def EVT_IS_KILL_TRANSACTION_def)
next
  case False
  note find_rfc = fsm_findmethod_rfc [OF transaction_inv_state [OF assms(1)], of "ev_type e"]
  show ?thesis
  proof (cases "fsm_findmethod (ev_type e) (tr_state t) (fsm_table (ctx_type t))")
    case None
    with False assms(5) find_rfc show ?thesis
      by (auto simp: osip_transaction_execute_def EVT_IS_KILL_TRANSACTION_def fsm_callmethod_def)
  next
    case (Some tr)
    from fsm_findmethod_Some [OF this]
    have "ends_in (trans_method tr cfg t e) (the (rfc_next (tr_state t) (ev_type e)))"
      using table_next [OF assms(1-4)] by blast
    with Some False assms(5) find_rfc show ?thesis
      by (auto simp: osip_transaction_execute_def EVT_IS_KILL_TRANSACTION_def fsm_callmethod_def
          ends_in_def bind_eq_Some_conv split: option.splits)
  qed
qed

end
