(* ===== verification/Osip_Manager_Inv.thy ===== *)
theory Osip_Manager_Inv
  imports Osip_Timers Osip_Fsm_Live
begin

text \<open>
  The invariant of the transaction manager and its preservation by creation, lookup, execution and
  removal; none of these reaches a dangling or NULL pointer.
\<close>

section \<open>Invariant\<close>

definition addrs :: "osip_fsm_type_t \<Rightarrow> osip \<Rightarrow> nat list" where
  "addrs ty osip = list_abs (transactions ty osip)"

definition all_addrs :: "osip \<Rightarrow> nat list" where
  "all_addrs osip = addrs ICT osip @ addrs IST osip @ addrs NICT osip @ addrs NIST osip"

definition id_of :: "osip \<Rightarrow> nat \<Rightarrow> int" where
  "id_of osip a = (case mem osip a of None \<Rightarrow> 0 | Some t \<Rightarrow> transactionid t)"

definition queue_of :: "osip_transaction \<Rightarrow> osip_event list" where
  "queue_of t = (case transactionff t of None \<Rightarrow> [] | Some q \<Rightarrow> fifo_elems q)"

definition entry_ok :: "osip \<Rightarrow> osip_fsm_type_t \<Rightarrow> nat \<Rightarrow> bool" where
  "entry_ok osip ty a =
     (case mem osip a of None \<Rightarrow> False
      | Some t \<Rightarrow> transaction_inv t \<and> ctx_type t = ty \<and> transactionid t < osip_transactionid osip
          \<and> list_all event_ok (queue_of t))"

definition osip_inv :: "osip \<Rightarrow> bool" where
  "osip_inv osip \<longleftrightarrow>
     (\<forall>ty. list_inv (transactions ty osip) \<and> list_all (entry_ok osip ty) (addrs ty osip))
     \<and> distinct (all_addrs osip) \<and> distinct (map (id_of osip) (all_addrs osip))
     \<and> (\<forall>a. mem osip a \<noteq> None \<longrightarrow> a < next_addr osip)"

lemma transactions_of_elems: "osip_inv osip \<Longrightarrow> transactions ty osip = of_elems (addrs ty osip)"
  unfolding osip_inv_def addrs_def by (simp add: list_inv_of_elems)

lemma osip_inv_entry:
  assumes "osip_inv osip" "a \<in> set (addrs ty osip)"
  obtains t where "mem osip a = Some t" "transaction_inv t" "ctx_type t = ty"
    "transactionid t < osip_transactionid osip" "list_all event_ok (queue_of t)"
proof -
  have "entry_ok osip ty a" using assms by (simp add: osip_inv_def list_all_iff)
  then show thesis using that by (auto simp: entry_ok_def split: option.splits)
qed

lemma set_transactions_simps [simp]:
  "transactions ty (set_transactions ty l osip) = l"
  "ty \<noteq> ty' \<Longrightarrow> transactions ty' (set_transactions ty l osip) = transactions ty' osip"
  "mem (set_transactions ty l osip) = mem osip"
  "next_addr (set_transactions ty l osip) = next_addr osip"
  "osip_transactionid (set_transactions ty l osip) = osip_transactionid osip"
  "ixt_retransmissions (set_transactions ty l osip) = ixt_retransmissions osip"
  by (cases ty; cases ty'; simp add: transactions_def set_transactions_def)+

lemma transactions_upd [simp]:
  "transactions ty (osip\<lparr>mem := m\<rparr>) = transactions ty osip"
  "transactions ty (osip\<lparr>next_addr := n\<rparr>) = transactions ty osip"
  "transactions ty (osip\<lparr>osip_transactionid := i\<rparr>) = transactions ty osip"
  by (cases ty; simp add: transactions_def)+

lemma addrs_upd [simp]:
  "addrs ty (osip\<lparr>mem := m\<rparr>) = addrs ty osip"
  "addrs ty (osip\<lparr>next_addr := n\<rparr>) = addrs ty osip"
  "addrs ty (osip\<lparr>osip_transactionid := i\<rparr>) = addrs ty osip"
  by (simp_all add: addrs_def)

lemma all_addrs_upd [simp]:
  "all_addrs (osip\<lparr>mem := m\<rparr>) = all_addrs osip"
  "all_addrs (osip\<lparr>next_addr := n\<rparr>) = all_addrs osip"
  "all_addrs (osip\<lparr>osip_transactionid := i\<rparr>) = all_addrs osip"
  by (simp_all add: all_addrs_def)

lemma addrs_set [simp]:
  "addrs ty' (set_transactions ty (of_elems xs) osip) = (if ty' = ty then xs else addrs ty' osip)"
  by (simp add: addrs_def)

lemma in_all_addrs: "a \<in> set (all_addrs osip) \<longleftrightarrow> (\<exists>ty. a \<in> set (addrs ty osip))"
  by (auto simp: all_addrs_def) (metis osip_fsm_type_t.exhaust)

lemma osip_init_inv: "osip_inv osip_init"
proof -
  have "transactions ty osip_init = of_elems []" for ty
    by (cases ty) (simp_all add: osip_init_def transactions_def of_elems_def)
  then show ?thesis by (simp add: osip_inv_def addrs_def all_addrs_def) (simp add: osip_init_def)
qed

section \<open>Removal\<close>

fun remove_first :: "('a \<Rightarrow> bool) \<Rightarrow> 'a list \<Rightarrow> 'a list" where
  "remove_first P [] = []"
| "remove_first P (x # xs) = (if P x then xs else x # remove_first P xs)"

lemma remove_first_none: "\<forall>x \<in> set xs. \<not> P x \<Longrightarrow> remove_first P xs = xs"
  by (induction xs) auto

lemma set_remove_first: "set (remove_first P xs) \<subseteq> set xs"
  by (induction xs) auto

lemma remove_first_inj:
  assumes "distinct xs" "x \<in> set xs" "\<And>y. y \<in> set xs \<Longrightarrow> P y \<longleftrightarrow> y = x"
  shows "remove_first P xs = filter (\<lambda>y. y \<noteq> x) xs"
  using assms
proof (induction xs)
  case (Cons y ys)
  show ?case
  proof (cases "y = x")
    case True
    with Cons.prems have "P y" "x \<notin> set ys" by auto
    with True show ?thesis by (auto intro!: filter_True [symmetric])
  next
    case False
    with Cons show ?thesis by auto
  qed
qed simp

lemma remove_loop_of_elems:
  assumes "k \<le> length xs" "\<forall>a \<in> set xs. m a \<noteq> None"
  shows "remove_loop m tid \<lparr>it_actual = drop k xs, it_pos = int k\<rparr> (of_elems xs) =
    (if \<exists>a \<in> set (drop k xs). transactionid (the (m a)) = tid
     then Some (OSIP_SUCCESS,
                of_elems (take k xs @ remove_first (\<lambda>a. transactionid (the (m a)) = tid) (drop k xs)))
     else Some (OSIP_UNDEFINED_ERROR, of_elems xs))"
  using assms
proof (induction "length xs - k" arbitrary: k)
  case 0
  then have "drop k xs = []" by simp
  then show ?case
    by (subst remove_loop.simps) (simp add: osip_list_iterator_has_elem_def)
next
  case (Suc n)
  let ?it = "\<lparr>it_actual = drop k xs, it_pos = int k\<rparr>"
  from Suc.hyps(2) have k: "k < length xs" by simp
  then have dk: "drop k xs = xs ! k # drop (Suc k) xs" by (rule drop_eq_nth_Cons)
  from k have has: "osip_list_iterator_has_elem ?it (of_elems xs)"
    by (simp add: osip_list_iterator_has_elem_def of_elems_def)
  obtain t where t: "m (xs ! k) = Some t" using Suc.prems(2) k nth_mem by blast
  show ?case
  proof (cases "transactionid t = tid")
    case True
    have "seq_remove xs (int k) = take k xs @ drop (Suc k) xs" using k by (simp add: seq_remove_def)
    then show ?thesis using has t True dk osip_list_iterator_remove_of_elems [OF k]
      by (subst remove_loop.simps) simp
  next
    case False
    have nxt: "snd (osip_list_get_next ?it (of_elems xs)) = \<lparr>it_actual = drop (Suc k) xs, it_pos = int (Suc k)\<rparr>"
      using dk by (auto simp: osip_list_get_next_def osip_list_iterator_has_elem_def of_elems_def Let_def)
    have "take (Suc k) xs @ remove_first P (drop (Suc k) xs) = take k xs @ xs ! k # remove_first P (drop (Suc k) xs)" for P
      using k by (simp add: take_Suc_conv_app_nth)
    then show ?thesis using has t False dk nxt Suc.hyps(1) [of "Suc k"] Suc.prems Suc.hyps(2) k
      by (subst remove_loop.simps) simp
  qed
qed

lemma osip_list_get_first_of_elems:
  "osip_list_get_first (Some (of_elems xs)) =
     Some (case xs of [] \<Rightarrow> None | x # _ \<Rightarrow> Some x, \<lparr>it_actual = xs, it_pos = 0\<rparr>)"
  by (cases xs) (simp_all add: osip_list_get_first_def of_elems_def)

lemma osip_remove_from_eq:
  assumes "transactions ty osip = of_elems xs" "\<forall>a \<in> set xs. mem osip a \<noteq> None"
  shows "osip_remove_from ty osip tr =
    (if \<exists>a \<in> set xs. transactionid (the (mem osip a)) = transactionid tr
     then Some (OSIP_SUCCESS, set_transactions ty
            (of_elems (remove_first (\<lambda>a. transactionid (the (mem osip a)) = transactionid tr) xs)) osip)
     else Some (OSIP_UNDEFINED_ERROR, set_transactions ty (of_elems xs) osip))"
  using remove_loop_of_elems [of 0 xs "mem osip" "transactionid tr"] assms
  by (auto simp: osip_remove_from_def osip_list_get_first_of_elems)

lemma set_transactions_same: "transactions ty osip = l \<Longrightarrow> set_transactions ty l osip = osip"
  by (cases ty) (auto simp: transactions_def set_transactions_def)

lemma osip_remove_transaction_eq:
  assumes "mem osip a = Some t"
  shows "osip_remove_transaction osip (Some a) = osip_remove_from (ctx_type t) osip t"
  using assms
  by (cases "ctx_type t") (simp_all add: osip_remove_transaction_def osip_remove_ict_transaction_def
      osip_remove_ist_transaction_def osip_remove_nict_transaction_def osip_remove_nist_transaction_def)

lemma id_of_Some [simp]: "mem osip a = Some t \<Longrightarrow> id_of osip a = transactionid t"
  by (simp add: id_of_def)

lemma id_inj:
  assumes "osip_inv osip" "a \<in> set (all_addrs osip)" "b \<in> set (all_addrs osip)" "id_of osip a = id_of osip b"
  shows "a = b"
  using assms by (simp add: osip_inv_def distinct_map inj_on_def)

lemma addrs_distinct: "osip_inv osip \<Longrightarrow> distinct (addrs ty osip)"
  by (cases ty) (simp_all add: osip_inv_def all_addrs_def)

lemma addrs_mem: "osip_inv osip \<Longrightarrow> a \<in> set (addrs ty osip) \<Longrightarrow> mem osip a \<noteq> None"
  by (auto elim!: osip_inv_entry)

text \<open>Removing a listed transaction takes exactly its address out of its list.\<close>

lemma remove_transaction_listed:
  assumes "osip_inv osip" "a \<in> set (addrs ty osip)"
  shows "osip_remove_transaction osip (Some a) =
    Some (OSIP_SUCCESS, set_transactions ty (of_elems (filter (\<lambda>b. b \<noteq> a) (addrs ty osip))) osip)"
proof -
  obtain t where t: "mem osip a = Some t" "ctx_type t = ty" using osip_inv_entry [OF assms] by blast
  have inj: "transactionid (the (mem osip b)) = transactionid t \<longleftrightarrow> b = a" if b: "b \<in> set (addrs ty osip)" for b
  proof -
    obtain u where "mem osip b = Some u" using osip_inv_entry [OF assms(1) b] by blast
    then show ?thesis using id_inj [OF assms(1), of b a] b assms(2) t(1)
      by (auto simp: in_all_addrs)
  qed
  have "remove_first (\<lambda>b. transactionid (the (mem osip b)) = transactionid t) (addrs ty osip)
      = filter (\<lambda>b. b \<noteq> a) (addrs ty osip)"
    by (rule remove_first_inj [OF addrs_distinct [OF assms(1)] assms(2) inj])
  moreover have "\<exists>b \<in> set (addrs ty osip). transactionid (the (mem osip b)) = transactionid t"
    using assms(2) t(1) by force
  ultimately show ?thesis
    using osip_remove_from_eq [OF transactions_of_elems [OF assms(1)], of ty t] addrs_mem [OF assms(1)]
      osip_remove_transaction_eq [OF t(1)] t(2) by simp
qed

lemma filter_addrs:
  assumes "osip_inv osip" "a \<in> set (addrs ty osip)"
  shows "addrs ty' (set_transactions ty (of_elems (filter (\<lambda>b. b \<noteq> a) (addrs ty osip))) osip)
    = filter (\<lambda>b. b \<noteq> a) (addrs ty' osip)"
proof (cases "ty' = ty")
  case False
  have "distinct (all_addrs osip)" using assms(1) by (simp add: osip_inv_def)
  then have "a \<notin> set (addrs ty' osip)" using assms(2) False
    by (cases ty; cases ty') (auto simp: all_addrs_def)
  then have "filter (\<lambda>b. b \<noteq> a) (addrs ty' osip) = addrs ty' osip" by (intro filter_True) auto
  with False show ?thesis by simp
qed simp

lemma filter_all_addrs:
  assumes "osip_inv osip" "a \<in> set (addrs ty osip)"
  shows "all_addrs (set_transactions ty (of_elems (filter (\<lambda>b. b \<noteq> a) (addrs ty osip))) osip)
    = filter (\<lambda>b. b \<noteq> a) (all_addrs osip)"
  using filter_addrs [OF assms] by (simp add: all_addrs_def)

lemma entry_ok_cong:
  "mem osip' a = mem osip a \<Longrightarrow> osip_transactionid osip' = osip_transactionid osip \<Longrightarrow>
   entry_ok osip' ty a = entry_ok osip ty a"
  by (simp add: entry_ok_def split: option.split)

lemma id_of_cong: "mem osip' a = mem osip a \<Longrightarrow> id_of osip' a = id_of osip a"
  by (simp add: id_of_def)

lemma remove_transaction_inv:
  assumes "osip_inv osip" "a \<in> set (addrs ty osip)"
  shows "osip_inv (set_transactions ty (of_elems (filter (\<lambda>b. b \<noteq> a) (addrs ty osip))) osip)" (is "osip_inv ?o")
proof -
  have "list_inv (transactions ty' ?o) \<and> list_all (entry_ok ?o ty') (addrs ty' ?o)" for ty'
  proof -
    have "list_inv (transactions ty' osip)" "list_all (entry_ok osip ty') (addrs ty' osip)"
      using assms(1) by (simp_all add: osip_inv_def)
    moreover have "entry_ok ?o ty' b = entry_ok osip ty' b" for b by (rule entry_ok_cong) simp_all
    ultimately show ?thesis by (cases "ty' = ty") (auto simp: list_all_iff)
  qed
  moreover have "id_of ?o = id_of osip" by (rule ext, rule id_of_cong) simp
  ultimately show ?thesis using assms(1)
    unfolding osip_inv_def filter_all_addrs [OF assms] by (simp add: distinct_map_filter)
qed

section \<open>Creation\<close>

text \<open>What a request must have so that a transaction can be created from it.\<close>

definition init_ok :: "osip_message \<Rightarrow> bool" where
  "init_ok m \<longleftrightarrow>
     (case vias m of [] \<Rightarrow> False | v # _ \<Rightarrow> via_ok v)
     \<and> (case msg_from m of None \<Rightarrow> False | Some f \<Rightarrow> from_ok f)
     \<and> (case msg_to m of None \<Rightarrow> False | Some f \<Rightarrow> from_ok f)
     \<and> (case msg_call_id m of None \<Rightarrow> False | Some c \<Rightarrow> call_id_ok c)
     \<and> (case msg_cseq m of None \<Rightarrow> False | Some c \<Rightarrow> cseq_ok c)"

definition set_keys :: "osip_transaction \<Rightarrow> osip_message \<Rightarrow> osip_transaction" where
  "set_keys t m = t\<lparr>topvia := Some (hd (vias m)), tr_from := msg_from m, tr_to := msg_to m,
     callid := msg_call_id m, tr_cseq := msg_cseq m\<rparr>"

lemmas set_field_defs = osip_transaction_set_topvia_def osip_transaction_set_from_def
  osip_transaction_set_to_def osip_transaction_set_call_id_def osip_transaction_set_cseq_def

lemma init_fields_ok: "init_ok m \<Longrightarrow> init_fields t m = Inr (set_keys t m)"
  by (auto simp: init_ok_def init_fields_def init_set_def set_field_defs clone_simps osip_err set_keys_def
      split: list.splits option.splits)

definition same_but_keys :: "osip_transaction \<Rightarrow> osip_transaction \<Rightarrow> bool" where
  "same_but_keys t t' \<longleftrightarrow>
     transactionid t' = transactionid t \<and> transactionff t' = transactionff t \<and> ctx_type t' = ctx_type t
     \<and> orig_request t' = orig_request t \<and> last_response t' = last_response t \<and> tr_ack t' = tr_ack t
     \<and> ict_context t' = ict_context t \<and> ist_context t' = ist_context t
     \<and> nict_context t' = nict_context t \<and> nist_context t' = nist_context t"

definition init_rejects :: "osip_transaction \<Rightarrow> (int \<times> osip_transaction) + osip_transaction \<Rightarrow> bool" where
  "init_rejects t r = (case r of Inl (i, t1) \<Rightarrow> i \<noteq> 0 \<and> same_but_keys t t1 | Inr t1 \<Rightarrow> False)"

lemma init_fields_bad:
  assumes "\<not> init_ok m"
  shows "init_rejects t (init_fields t m)"
  using assms
  by (cases "vias m"; cases "msg_from m"; cases "msg_to m"; cases "msg_call_id m"; cases "msg_cseq m")
    (simp_all add: init_ok_def init_rejects_def init_fields_def init_set_def set_field_defs clone_simps
      osip_err same_but_keys_def)

text \<open>The initial state of each kind of transaction.\<close>

definition pre_state :: "osip_fsm_type_t \<Rightarrow> state_t" where
  "pre_state ty =
     (case ty of ICT \<Rightarrow> ICT_PRE_CALLING | IST \<Rightarrow> IST_PRE_PROCEEDING | NICT \<Rightarrow> NICT_PRE_TRYING
      | NIST \<Rightarrow> NIST_PRE_TRYING)"

definition is_client :: "osip_fsm_type_t \<Rightarrow> bool" where
  "is_client ty = (ty = ICT \<or> ty = NICT)"

definition fresh_of :: "osip_fsm_type_t \<Rightarrow> int \<Rightarrow> osip_message \<Rightarrow> osip_transaction \<Rightarrow> bool" where
  "fresh_of ty tid m t \<longleftrightarrow> transaction_inv t \<and> ctx_type t = ty \<and> transactionid t = tid \<and> tr_state t = pre_state ty
     \<and> queue_of t = [] \<and> owned t = {#} \<and> topvia t = Some (hd (vias m)) \<and> tr_from t = msg_from m
     \<and> tr_to t = msg_to m \<and> callid t = msg_call_id m \<and> tr_cseq t = msg_cseq m"

definition blank :: "osip_cfg \<Rightarrow> osip_fsm_type_t \<Rightarrow> int \<Rightarrow> osip_transaction" where
  "blank cfg ty tid = transaction_zero\<lparr>birth_time := osip_getsystemtime (systime cfg), transactionid := tid, ctx_type := ty\<rparr>"

lemma blank_simps [simp]:
  "transactionff (blank cfg ty tid) = None" "ctx_type (blank cfg ty tid) = ty"
  "transactionid (blank cfg ty tid) = tid" "orig_request (blank cfg ty tid) = None"
  "last_response (blank cfg ty tid) = None" "tr_ack (blank cfg ty tid) = None"
  "ict_context (blank cfg ty tid) = Null" "ist_context (blank cfg ty tid) = Null"
  "nict_context (blank cfg ty tid) = Null" "nist_context (blank cfg ty tid) = Null"
  by (simp_all add: blank_def transaction_zero_def)

lemma init_contexts_ok:
  assumes "init_ok m"
  shows "request_destination m \<noteq> None \<Longrightarrow> \<exists>c. osip_ict_init cfg m = Some (0, Ptr c)"
    "request_destination m \<noteq> None \<Longrightarrow> \<exists>c. osip_nict_init cfg m = Some (0, Ptr c) \<and> timer_e_length c \<le> DEFAULT_T2"
    "\<exists>c. osip_ist_init m = (0, Ptr c) \<and> timer_g_length c \<le> DEFAULT_T2"
    "\<exists>c. osip_nist_init m = (0, Ptr c)"
proof -
  obtain v vs p where v: "vias m = v # vs" "via_protocol v = Some p"
    using assms by (auto simp: init_ok_def via_ok_def split: list.splits)
  then have g: "osip_message_get_via (Some m) 0 = (0, Some v)" "via_get_protocol (Some v) = Some p"
    by (simp_all add: osip_message_get_via_def via_get_protocol_def)
  show "request_destination m \<noteq> None \<Longrightarrow> \<exists>c. osip_ict_init cfg m = Some (0, Ptr c)"
    using g by (auto simp: osip_ict_init_def Let_def osip_err)
  show "request_destination m \<noteq> None \<Longrightarrow> \<exists>c. osip_nict_init cfg m = Some (0, Ptr c) \<and> timer_e_length c \<le> DEFAULT_T2"
    using g by (auto simp: osip_nict_init_def Let_def osip_err osip_nict_set_destination_def timer_consts)
  show "\<exists>c. osip_ist_init m = (0, Ptr c) \<and> timer_g_length c \<le> DEFAULT_T2"
    using g by (auto simp: osip_ist_init_def Let_def osip_err timer_consts)
  show "\<exists>c. osip_nist_init m = (0, Ptr c)"
    using g by (auto simp: osip_nist_init_def osip_err)
qed

lemma init_context_ok:
  assumes "init_ok m" "is_client ty \<Longrightarrow> request_destination m \<noteq> None"
  shows "\<exists>t. init_context cfg ((set_keys (blank cfg ty tid) m)\<lparr>orig_request := None,
      transactionff := Some osip_fifo_init\<rparr>) m = Some (0, t) \<and> fresh_of ty tid m t"
proof -
  obtain v vs where v: "vias m = v # vs" "via_ok v" using assms(1) by (auto simp: init_ok_def split: list.splits)
  obtain f to cid cs where k: "msg_from m = Some f" "msg_to m = Some to" "msg_call_id m = Some cid"
      "call_id_ok cid" "msg_cseq m = Some cs" "cseq_ok cs"
    using assms(1) by (auto simp: init_ok_def split: option.splits)
  note facts = v k assms(2) init_contexts_ok [OF assms(1)]
  show ?thesis
  proof (cases ty)
    case ICT
    then obtain c where "osip_ict_init cfg m = Some (0, Ptr c)" using facts by (auto simp: is_client_def)
    with ICT v k show ?thesis
      by (simp add: init_context_def set_keys_def fresh_of_def pre_state_def queue_of_def owned_def inv_defs)
  next
    case IST
    then obtain c where "osip_ist_init m = (0, Ptr c)" "timer_g_length c \<le> DEFAULT_T2" using facts by blast
    with IST v k show ?thesis
      by (simp add: init_context_def set_keys_def fresh_of_def pre_state_def queue_of_def owned_def inv_defs)
  next
    case NICT
    then obtain c where "osip_nict_init cfg m = Some (0, Ptr c)" "timer_e_length c \<le> DEFAULT_T2"
      using facts by (auto simp: is_client_def)
    with NICT v k show ?thesis
      by (simp add: init_context_def set_keys_def fresh_of_def pre_state_def queue_of_def owned_def inv_defs)
  next
    case NIST
    then obtain c where "osip_nist_init m = (0, Ptr c)" using facts by blast
    with NIST v k show ?thesis
      by (simp add: init_context_def set_keys_def fresh_of_def pre_state_def queue_of_def owned_def inv_defs)
  qed
qed

lemma osip_inv_bump: "osip_inv osip \<Longrightarrow> osip_inv (osip\<lparr>osip_transactionid := osip_transactionid osip + 1\<rparr>)"
proof -
  assume inv: "osip_inv osip"
  have "entry_ok osip ty a \<Longrightarrow> entry_ok (osip\<lparr>osip_transactionid := osip_transactionid osip + 1\<rparr>) ty a" for ty a
    by (auto simp: entry_ok_def split: option.splits)
  moreover have "id_of (osip\<lparr>osip_transactionid := osip_transactionid osip + 1\<rparr>) = id_of osip"
    by (rule ext, rule id_of_cong) simp
  ultimately show ?thesis using inv by (simp add: osip_inv_def list_all_iff)
qed

lemma osip_inv_id_less: "osip_inv osip \<Longrightarrow> a \<in> set (addrs ty osip) \<Longrightarrow> id_of osip a < osip_transactionid osip"
  by (auto elim!: osip_inv_entry)

lemma osip_inv_next: "osip_inv osip \<Longrightarrow> mem osip (next_addr osip) = None"
  unfolding osip_inv_def by blast

lemma osip_inv_addr_less: "osip_inv osip \<Longrightarrow> a \<in> set (addrs ty osip) \<Longrightarrow> a < next_addr osip"
  using addrs_mem osip_inv_def by blast

lemma free2_blank:
  "same_but_keys (blank cfg ty tid) t \<Longrightarrow> osip_transaction_free2 (Some t) = Some (OSIP_SUCCESS, [])"
  by (cases ty) (simp_all add: osip_transaction_free2_def osip_xixt_free_def same_but_keys_def osip_message_free_def)

lemma init_fail_eq:
  assumes "osip_inv osip" "same_but_keys (blank cfg ty (osip_transactionid osip)) t"
  shows "init_fail (osip\<lparr>osip_transactionid := osip_transactionid osip + 1\<rparr>) t i =
    Some (i, None, osip\<lparr>osip_transactionid := osip_transactionid osip + 1, next_addr := Suc (next_addr osip)\<rparr>)"
proof -
  let ?a = "next_addr osip"
  let ?o = "osip\<lparr>osip_transactionid := osip_transactionid osip + 1, mem := (mem osip)(?a := Some t), next_addr := Suc ?a\<rparr>"
  have t: "ctx_type t = ty" "transactionid t = osip_transactionid osip" using assms(2) by (simp_all add: same_but_keys_def)
  have fresh: "mem ?o b = mem osip b" "transactionid (the (mem osip b)) \<noteq> transactionid t"
    if "b \<in> set (addrs ty osip)" for b
    using osip_inv_addr_less [OF assms(1) that] osip_inv_entry [OF assms(1) that] t(2) by fastforce+
  have "osip_remove_from ty ?o t = Some (OSIP_UNDEFINED_ERROR, set_transactions ty (of_elems (addrs ty osip)) ?o)"
    using osip_remove_from_eq [of ty ?o "addrs ty osip" t] transactions_of_elems [OF assms(1), of ty]
      addrs_mem [OF assms(1), of _ ty] fresh by (auto simp: fun_upd_def)
  moreover have "set_transactions ty (of_elems (addrs ty osip)) ?o = ?o"
    using transactions_of_elems [OF assms(1), of ty] by (simp add: set_transactions_same)
  ultimately have "osip_remove_transaction ?o (Some ?a) = Some (OSIP_UNDEFINED_ERROR, ?o)"
    using osip_remove_transaction_eq [of ?o ?a t] t(1) by simp
  then show ?thesis using free2_blank [OF assms(2)] osip_inv_next [OF assms(1)]
    by (simp add: init_fail_def Let_def osip_transaction_free_def fun_upd_idem)
qed

text \<open>The manager after a new transaction \<open>t\<close> has been put at the end of the list \<open>ty\<close>.\<close>

definition inserted :: "osip \<Rightarrow> osip_fsm_type_t \<Rightarrow> osip_transaction \<Rightarrow> osip" where
  "inserted osip ty t =
     set_transactions ty (of_elems (addrs ty osip @ [next_addr osip]))
       (osip\<lparr>osip_transactionid := osip_transactionid osip + 1,
             mem := (mem osip)(next_addr osip := Some t), next_addr := Suc (next_addr osip)\<rparr>)"

lemma inserted_simps [simp]:
  "mem (inserted osip ty t) = (mem osip)(next_addr osip := Some t)"
  "next_addr (inserted osip ty t) = Suc (next_addr osip)"
  "osip_transactionid (inserted osip ty t) = osip_transactionid osip + 1"
  "addrs ty' (inserted osip ty t) = (if ty' = ty then addrs ty osip @ [next_addr osip] else addrs ty' osip)"
  by (simp_all add: inserted_def)

lemma inserted_inv:
  assumes "osip_inv osip" "fresh_of ty (osip_transactionid osip) m t"
  shows "osip_inv (inserted osip ty t)" (is "osip_inv ?o")
proof -
  let ?a = "next_addr osip"
  have na: "?a \<notin> set (addrs ty' osip)" for ty' using osip_inv_addr_less [OF assms(1)] by blast
  have old: "mem ?o b = mem osip b" "id_of ?o b = id_of osip b" if "b \<in> set (addrs ty' osip)" for b ty'
    using that na [of ty'] by (auto simp: id_of_def)
  have idn: "id_of ?o ?a = osip_transactionid osip" using assms(2) by (simp add: id_of_def fresh_of_def)
  have "list_inv (transactions ty' ?o)" for ty'
    using assms(1) by (cases "ty' = ty") (auto simp: inserted_def osip_inv_def)
  moreover have "list_all (entry_ok ?o ty') (addrs ty' ?o)" for ty'
  proof -
    have "entry_ok ?o ty' b" if b: "b \<in> set (addrs ty' osip)" for b
      using osip_inv_entry [OF assms(1) b] old(1) [OF b] by (fastforce simp: entry_ok_def)
    moreover have "entry_ok ?o ty ?a" using assms(2) by (simp add: entry_ok_def fresh_of_def)
    ultimately show ?thesis by (auto simp: list_all_iff)
  qed
  moreover have "set (all_addrs ?o) = insert ?a (set (all_addrs osip))"
    by (auto simp: in_all_addrs split: if_splits)
  moreover have "length (all_addrs ?o) = Suc (length (all_addrs osip))"
    by (cases ty) (simp_all add: all_addrs_def)
  moreover have "?a \<notin> set (all_addrs osip)" using na by (auto simp: in_all_addrs)
  moreover have "inj_on (id_of ?o) (insert ?a (set (all_addrs osip)))"
  proof -
    have "id_of ?o b = id_of osip b \<and> id_of osip b < osip_transactionid osip" if "b \<in> set (all_addrs osip)" for b
      using that old(2) osip_inv_id_less [OF assms(1)] by (auto simp: in_all_addrs)
    then show ?thesis using id_inj [OF assms(1)] idn
      by (auto simp: inj_on_def) (metis less_irrefl)+
  qed
  ultimately show ?thesis using assms(1)
    by (auto simp: osip_inv_def distinct_map less_Suc_eq card_distinct distinct_card)
qed

lemma add_transaction_eq:
  assumes "osip_inv osip"
  shows "osip_add_transaction ty (osip\<lparr>osip_transactionid := osip_transactionid osip + 1,
      mem := (mem osip)(next_addr osip := Some t), next_addr := Suc (next_addr osip)\<rparr>) (next_addr osip)
    = Some (OSIP_SUCCESS, inserted osip ty t)"
  using transactions_of_elems [OF assms, of ty]
  by (simp add: osip_add_transaction_def inserted_def seq_insert_def)

lemma transaction_init_ok:
  assumes "osip_inv osip" "osip_transactionid osip < INT_MAX" "init_ok m"
    and "is_client ty \<Longrightarrow> request_destination m \<noteq> None"
  obtains t where "fresh_of ty (osip_transactionid osip) m t"
    "osip_transaction_init cfg osip ty (Some m) = Some (OSIP_SUCCESS, Some (next_addr osip), inserted osip ty t)"
proof -
  obtain t where t: "init_context cfg ((set_keys (blank cfg ty (osip_transactionid osip)) m)\<lparr>orig_request := None,
      transactionff := Some osip_fifo_init\<rparr>) m = Some (0, t)" "fresh_of ty (osip_transactionid osip) m t"
    using init_context_ok [OF assms(3,4)] by blast
  obtain cid where "msg_call_id m = Some cid" "cid_number cid \<noteq> None"
    using assms(3) by (auto simp: init_ok_def call_id_ok_def split: option.splits)
  then have "osip_transaction_init cfg osip ty (Some m) = Some (OSIP_SUCCESS, Some (next_addr osip), inserted osip ty t)"
    using t(1) assms(2) init_fields_ok [OF assms(3)] add_transaction_eq [OF assms(1)]
    by (simp add: osip_transaction_init_def Let_def osip_add_ict_def osip_add_ist_def osip_add_nict_def
        osip_add_nist_def flip: blank_def split: osip_fsm_type_t.split)
  with t(2) that show thesis by blast
qed

lemma transaction_init_bad:
  assumes "osip_inv osip" "osip_transactionid osip < INT_MAX" "\<not> init_ok m"
  obtains i osip' where "osip_transaction_init cfg osip ty (Some m) = Some (i, None, osip')" "i \<noteq> 0"
    "osip' = osip \<or> osip' = osip\<lparr>osip_transactionid := osip_transactionid osip + 1, next_addr := Suc (next_addr osip)\<rparr>"
proof (cases "msg_call_id m = None \<or> (\<exists>c. msg_call_id m = Some c \<and> cid_number c = None)")
  case True
  then show thesis using that
    by (auto simp: osip_transaction_init_def osip_err)
next
  case False
  then obtain cid n where c: "msg_call_id m = Some cid" "cid_number cid = Some n" by auto
  obtain i t where "init_fields (blank cfg ty (osip_transactionid osip)) m = Inl (i, t)" "i \<noteq> 0"
      "same_but_keys (blank cfg ty (osip_transactionid osip)) t"
    using init_fields_bad [OF assms(3), of "blank cfg ty (osip_transactionid osip)"]
    by (auto simp: init_rejects_def split: sum.splits prod.splits)
  then show thesis using c assms(2) init_fail_eq [OF assms(1)] that
    by (simp add: osip_transaction_init_def Let_def flip: blank_def)
qed

lemma osip_inv_burn:
  assumes "osip_inv osip"
  shows "osip_inv (osip\<lparr>osip_transactionid := osip_transactionid osip + 1, next_addr := Suc (next_addr osip)\<rparr>)"
proof -
  let ?o = "osip\<lparr>osip_transactionid := osip_transactionid osip + 1\<rparr>"
  have inv: "osip_inv ?o" using osip_inv_bump [OF assms] .
  have "entry_ok (?o\<lparr>next_addr := Suc (next_addr osip)\<rparr>) ty = entry_ok ?o ty" for ty
    by (rule ext, rule entry_ok_cong) simp_all
  moreover have "id_of (?o\<lparr>next_addr := Suc (next_addr osip)\<rparr>) = id_of ?o" by (rule ext, rule id_of_cong) simp
  ultimately show ?thesis using inv by (auto simp: osip_inv_def less_Suc_eq)
qed

section \<open>Changing a transaction\<close>

text \<open>Replacing the contents of a transaction by one with the same identity keeps the invariant.\<close>

definition stored :: "osip \<Rightarrow> nat \<Rightarrow> osip_transaction \<Rightarrow> osip" where
  "stored osip a t = osip\<lparr>mem := (mem osip)(a := Some t)\<rparr>"

lemma stored_simps [simp]:
  "mem (stored osip a t) = (mem osip)(a := Some t)" "transactions ty (stored osip a t) = transactions ty osip"
  "addrs ty (stored osip a t) = addrs ty osip" "all_addrs (stored osip a t) = all_addrs osip"
  "next_addr (stored osip a t) = next_addr osip" "osip_transactionid (stored osip a t) = osip_transactionid osip"
  "ixt_retransmissions (stored osip a t) = ixt_retransmissions osip"
  by (simp_all add: stored_def)

lemma stored_inv:
  assumes "osip_inv osip" "mem osip a = Some t"
    and "transaction_inv t'" "ctx_type t' = ctx_type t" "transactionid t' = transactionid t"
    and "list_all event_ok (queue_of t')"
  shows "osip_inv (stored osip a t')"
proof -
  have ids: "id_of (stored osip a t') = id_of osip"
    using assms(2,5) by (auto simp: id_of_def)
  have "entry_ok (stored osip a t') ty' b" if b: "b \<in> set (addrs ty' osip)" for ty' b
  proof -
    obtain u where "mem osip b = Some u" "transaction_inv u" "ctx_type u = ty'"
        "transactionid u < osip_transactionid osip" "list_all event_ok (queue_of u)"
      using osip_inv_entry [OF assms(1) b] .
    then show ?thesis using assms(2,3-6) by (auto simp: entry_ok_def)
  qed
  moreover have "b < next_addr osip" if "mem (stored osip a t') b \<noteq> None" for b
    using assms(1,2) that by (auto simp: osip_inv_def split: if_splits)
  ultimately show ?thesis using assms(1) ids by (simp add: osip_inv_def list_all_iff)
qed

section \<open>Live transactions\<close>

text \<open>A transaction that was removed from its list lives on until it is freed.  Removal and
  release go by the identifier, so the identifiers of all live transactions are different.\<close>

definition live_ok :: "osip \<Rightarrow> osip_transaction \<Rightarrow> bool" where
  "live_ok osip t \<longleftrightarrow> transaction_inv t \<and> transactionid t < osip_transactionid osip \<and> list_all event_ok (queue_of t)"

definition manager_inv :: "osip \<Rightarrow> bool" where
  "manager_inv osip \<longleftrightarrow> osip_inv osip \<and> (\<forall>a. opt_all (live_ok osip) (mem osip a))
     \<and> inj_on (id_of osip) (dom (mem osip))"

lemma manager_live:
  assumes "manager_inv osip" "mem osip a = Some t"
  shows "transaction_inv t" "transactionid t < osip_transactionid osip" "list_all event_ok (queue_of t)"
proof -
  have "opt_all (live_ok osip) (mem osip a)" using assms(1) by (simp add: manager_inv_def)
  then show "transaction_inv t" "transactionid t < osip_transactionid osip" "list_all event_ok (queue_of t)"
    using assms(2) by (simp_all add: live_ok_def)
qed

lemma manager_osip: "manager_inv osip \<Longrightarrow> osip_inv osip"
  by (simp add: manager_inv_def)

lemma manager_id_inj:
  "manager_inv osip \<Longrightarrow> mem osip a \<noteq> None \<Longrightarrow> mem osip b \<noteq> None \<Longrightarrow> id_of osip a = id_of osip b \<Longrightarrow> a = b"
  unfolding manager_inv_def inj_on_def by blast

lemma stored_manager:
  assumes "manager_inv osip" "mem osip a = Some t"
    and "transaction_inv t'" "ctx_type t' = ctx_type t" "transactionid t' = transactionid t"
    and "list_all event_ok (queue_of t')"
  shows "manager_inv (stored osip a t')"
proof -
  have "id_of (stored osip a t') = id_of osip" using assms(2,5) by (auto simp: id_of_def)
  moreover have "dom (mem (stored osip a t')) = dom (mem osip)" using assms(2) by auto
  moreover have "opt_all (live_ok (stored osip a t')) (mem (stored osip a t') b)" for b
    using assms(3,5,6) manager_live [OF assms(1), of b] manager_live(2) [OF assms(1,2)]
    by (cases "b = a"; cases "mem osip b") (simp_all add: live_ok_def)
  ultimately show ?thesis
    using assms(1) stored_inv [OF manager_osip [OF assms(1)] assms(2-)] by (simp add: manager_inv_def)
qed

lemma manager_cong:
  assumes "manager_inv osip" "osip_inv osip'" "mem osip' = mem osip" "osip_transactionid osip' = osip_transactionid osip"
  shows "manager_inv osip'"
proof -
  have "id_of osip' = id_of osip" "live_ok osip' = live_ok osip"
    using assms(3,4) by (simp_all add: fun_eq_iff id_of_def live_ok_def)
  with assms show ?thesis by (simp add: manager_inv_def)
qed

lemma inserted_manager:
  assumes "manager_inv osip" "fresh_of ty (osip_transactionid osip) m t"
  shows "manager_inv (inserted osip ty t)"
proof -
  let ?a = "next_addr osip" and ?o = "inserted osip ty t"
  have t: "transaction_inv t" "transactionid t = osip_transactionid osip" "queue_of t = []"
    using assms(2) by (simp_all add: fresh_of_def)
  have "opt_all (live_ok ?o) (mem ?o b)" for b
  proof (cases "b = ?a")
    case False
    then show ?thesis
      using manager_live [OF assms(1), of b] by (cases "mem osip b") (auto simp: live_ok_def)
  qed (use t in \<open>simp add: live_ok_def\<close>)
  moreover have "inj_on (id_of ?o) (dom (mem ?o))"
  proof (rule inj_onI)
    fix b c assume b: "b \<in> dom (mem ?o)" and c: "c \<in> dom (mem ?o)" and eq: "id_of ?o b = id_of ?o c"
    have old: "id_of ?o x = id_of osip x \<and> id_of osip x < osip_transactionid osip \<and> mem osip x \<noteq> None"
      if "x \<in> dom (mem ?o)" "x \<noteq> ?a" for x
      using that manager_live(2) [OF assms(1), of x] by (auto simp: id_of_def)
    have new: "id_of ?o ?a = osip_transactionid osip" using t(2) by (simp add: id_of_def)
    show "b = c"
      using old [OF b] old [OF c] new eq manager_id_inj [OF assms(1), of b c] by (metis less_irrefl)
  qed
  ultimately show ?thesis using inserted_inv [OF manager_osip [OF assms(1)] assms(2)] by (simp add: manager_inv_def)
qed

lemma burnt_manager:
  assumes "manager_inv osip"
  shows "manager_inv (osip\<lparr>osip_transactionid := osip_transactionid osip + 1, next_addr := Suc (next_addr osip)\<rparr>)"
    (is "manager_inv ?o")
proof -
  have "live_ok ?o t" if "live_ok osip t" for t using that by (simp add: live_ok_def)
  then have "opt_all (live_ok ?o) (mem ?o a)" for a
    using assms by (cases "mem osip a") (simp_all add: manager_inv_def, metis opt_all_simps(2))
  moreover have "id_of ?o = id_of osip" by (rule ext) (simp add: id_of_def)
  ultimately show ?thesis using assms osip_inv_burn [OF manager_osip [OF assms]] by (simp add: manager_inv_def)
qed

text \<open>Taking a live transaction out of the lists.\<close>

definition without :: "osip \<Rightarrow> nat \<Rightarrow> osip" where
  "without osip a =
     (case mem osip a of None \<Rightarrow> osip
      | Some t \<Rightarrow> set_transactions (ctx_type t) (of_elems (filter (\<lambda>b. b \<noteq> a) (addrs (ctx_type t) osip))) osip)"

lemma without_simps [simp]:
  "mem (without osip a) = mem osip" "ixt_retransmissions (without osip a) = ixt_retransmissions osip"
  "osip_transactionid (without osip a) = osip_transactionid osip" "next_addr (without osip a) = next_addr osip"
  by (simp_all add: without_def split: option.split)

lemma remove_listed:
  assumes "osip_inv osip" "a \<in> set (all_addrs osip)"
  shows "osip_remove_transaction osip (Some a) = Some (OSIP_SUCCESS, without osip a)"
    "osip_inv (without osip a)" "all_addrs (without osip a) = filter (\<lambda>b. b \<noteq> a) (all_addrs osip)"
    "addrs ty (without osip a) = filter (\<lambda>b. b \<noteq> a) (addrs ty osip)"
proof -
  obtain ty' where ty: "a \<in> set (addrs ty' osip)" using assms(2) in_all_addrs by blast
  obtain t where t: "mem osip a = Some t" "ctx_type t = ty'" using osip_inv_entry [OF assms(1) ty] by blast
  then have w: "without osip a = set_transactions ty' (of_elems (filter (\<lambda>b. b \<noteq> a) (addrs ty' osip))) osip"
    by (simp add: without_def)
  show "osip_remove_transaction osip (Some a) = Some (OSIP_SUCCESS, without osip a)"
    "osip_inv (without osip a)" "all_addrs (without osip a) = filter (\<lambda>b. b \<noteq> a) (all_addrs osip)"
    "addrs ty (without osip a) = filter (\<lambda>b. b \<noteq> a) (addrs ty osip)"
    using remove_transaction_listed [OF assms(1) ty] remove_transaction_inv [OF assms(1) ty]
      filter_all_addrs [OF assms(1) ty] filter_addrs [OF assms(1) ty, of ty] by (simp_all add: w)
qed

lemma remove_unlisted:
  assumes "manager_inv osip" "mem osip a = Some t" "a \<notin> set (all_addrs osip)"
  shows "osip_remove_transaction osip (Some a) = Some (OSIP_UNDEFINED_ERROR, osip)" "without osip a = osip"
proof -
  have inv: "osip_inv osip" by (rule manager_osip [OF assms(1)])
  note l = transactions_of_elems [OF inv, of "ctx_type t"]
  have "transactionid (the (mem osip b)) \<noteq> transactionid t" if b: "b \<in> set (addrs (ctx_type t) osip)" for b
  proof
    assume eq: "transactionid (the (mem osip b)) = transactionid t"
    obtain u where u: "mem osip b = Some u" using addrs_mem [OF inv b] by auto
    with eq assms(2) have "id_of osip b = id_of osip a" by simp
    then have "b = a" using manager_id_inj [OF assms(1)] u assms(2) by simp
    with b assms(3) in_all_addrs show False by metis
  qed
  then show "osip_remove_transaction osip (Some a) = Some (OSIP_UNDEFINED_ERROR, osip)"
    using osip_remove_transaction_eq [OF assms(2)] osip_remove_from_eq [OF l, of t] addrs_mem [OF inv]
      set_transactions_same [OF l] by auto
  have "filter (\<lambda>b. b \<noteq> a) (addrs (ctx_type t) osip) = addrs (ctx_type t) osip"
    using assms(3) by (intro filter_True) (auto simp: in_all_addrs)
  then show "without osip a = osip" using assms(2) set_transactions_same [OF l] by (simp add: without_def)
qed

lemma remove_live:
  assumes "manager_inv osip" "mem osip a \<noteq> None"
  shows "\<exists>r. osip_remove_transaction osip (Some a) = Some (r, without osip a)" "manager_inv (without osip a)"
    "addrs ty (without osip a) = filter (\<lambda>b. b \<noteq> a) (addrs ty osip)"
proof -
  obtain t where t: "mem osip a = Some t" using assms(2) by blast
  have "(\<exists>r. osip_remove_transaction osip (Some a) = Some (r, without osip a)) \<and> osip_inv (without osip a)
      \<and> addrs ty (without osip a) = filter (\<lambda>b. b \<noteq> a) (addrs ty osip)"
  proof (cases "a \<in> set (all_addrs osip)")
    case True
    then show ?thesis using remove_listed [OF manager_osip [OF assms(1)] True] by blast
  next
    case False
    then have "filter (\<lambda>b. b \<noteq> a) (addrs ty osip) = addrs ty osip" by (intro filter_True) (auto simp: in_all_addrs)
    with remove_unlisted [OF assms(1) t False] manager_osip [OF assms(1)] show ?thesis by simp
  qed
  then show "\<exists>r. osip_remove_transaction osip (Some a) = Some (r, without osip a)" "manager_inv (without osip a)"
    "addrs ty (without osip a) = filter (\<lambda>b. b \<noteq> a) (addrs ty osip)"
    using manager_cong [OF assms(1)] by simp_all
qed

section \<open>Adding an event\<close>

lemma transaction_inv_queue:
  assumes "transaction_inv t"
  obtains q where "transactionff t = Some q" "fifo_inv q" "queue_of t = fifo_elems q"
  using assms by (auto simp: transaction_inv_def queue_of_def split: option.splits)

lemma transaction_inv_fifo:
  "transaction_inv t \<Longrightarrow> fifo_inv q \<Longrightarrow> transaction_inv (t\<lparr>transactionff := Some q\<rparr>)"
  by (cases "ctx_type t") (simp_all add: inv_defs)

lemma add_event_ok:
  assumes "transaction_inv t"
  obtains q where "osip_transaction_add_event (Some t) (Some e) = Some (OSIP_SUCCESS, Some (t\<lparr>transactionff := Some q\<rparr>))"
    "fifo_inv q" "fifo_elems q = queue_of t @ [e\<lparr>ev_transactionid := transactionid t\<rparr>]"
proof -
  obtain q0 where q0: "transactionff t = Some q0" "fifo_inv q0" "queue_of t = fifo_elems q0"
    using transaction_inv_queue [OF assms] .
  obtain q where "osip_fifo_add q0 (e\<lparr>ev_transactionid := transactionid t\<rparr>) = Some (OSIP_SUCCESS, q)"
      "fifo_inv q" "fifo_elems q = fifo_elems q0 @ [e\<lparr>ev_transactionid := transactionid t\<rparr>]"
    using osip_fifo_add_inv [OF q0(2)] .
  with q0 that show thesis by (simp add: osip_transaction_add_event_def)
qed

section \<open>Lookup\<close>

text \<open>An event whose lookup dereferences nothing that is NULL: a message with a CSeq method and, for
  a request, a method and a To header.\<close>

definition lookup_ok :: "osip_event \<Rightarrow> bool" where
  "lookup_ok e = (case ev_sip e of None \<Rightarrow> False
     | Some m \<Rightarrow> (case msg_cseq m of None \<Rightarrow> False | Some cs \<Rightarrow> cseq_method cs \<noteq> None)
         \<and> (status_code m = 0 \<longrightarrow> sip_method m \<noteq> None) \<and> msg_to m \<noteq> None)"

lemma matching_response_total:
  assumes "transaction_inv t"
  shows "\<exists>i. osip_transaction_matching_response (Some t) sip = Some i"
proof -
  obtain v cs me where "topvia t = Some v" "tr_cseq t = Some cs" "cseq_method cs = Some me"
    using assms by (auto simp: transaction_inv_def cseq_ok_def split: option.splits)
  then show ?thesis
    by (auto simp: osip_transaction_matching_response_def split: option.split list.split)
qed

lemma matching_request_total:
  assumes "transaction_inv t" "sip_method m \<noteq> None \<or> status_code m \<noteq> 0" "msg_to m \<noteq> None"
  shows "\<exists>i. osip_transaction_matching_request (Some t) (Some m) = Some i"
proof -
  obtain v cs me to where t: "topvia t = Some v" "tr_cseq t = Some cs" "cseq_method cs = Some me" "tr_to t = Some to"
    using assms(1) by (auto simp: transaction_inv_def cseq_ok_def split: option.splits)
  obtain b where b: "MSG_IS_METHOD ''ACK'' m = Some b" using MSG_IS_METHOD_defined assms(2) by blast
  have c: "\<exists>i. matching_request_compliant t v' v1 v2 r = Some i" for v' v1 v2 r
    using t by (simp add: matching_request_compliant_def)
  have "\<exists>x. matching_request_to t m = Some x"
    using b assms(3) t(4) by (auto simp: matching_request_to_def to_tag_def split: option.split)
  then have "\<exists>i. matching_request_old t m v' = Some i" for v'
    by (auto simp: matching_request_old_def)
  with c t(1) show ?thesis
    by (auto simp: osip_transaction_matching_request_def split: option.split list.split)
qed

lemma event_matches_total:
  assumes "osip_inv osip" "a \<in> set (addrs ty osip)" "lookup_ok e"
  shows "\<exists>b. event_matches osip e a = Some b"
proof -
  obtain t where t: "mem osip a = Some t" "transaction_inv t" using osip_inv_entry [OF assms(1,2)] by blast
  obtain m where m: "ev_sip e = Some m" "sip_method m \<noteq> None \<or> status_code m \<noteq> 0" "msg_to m \<noteq> None"
    using assms(3) by (auto simp: lookup_ok_def split: option.splits)
  show ?thesis using t m(1) matching_request_total [OF t(2) m(2,3)] matching_response_total [OF t(2), of "Some m"]
    by (auto simp: event_matches_def)
qed

lemma find_first_eq:
  assumes "\<And>x. x \<in> set xs \<Longrightarrow> P x = Some (p x)"
  shows "find_first P xs = Some (find p xs)"
  using assms by (induction xs) auto

definition matches :: "osip \<Rightarrow> osip_event \<Rightarrow> nat \<Rightarrow> bool" where
  "matches osip e a = (event_matches osip e a = Some True)"

lemma transaction_find_eq:
  assumes "osip_inv osip" "lookup_ok e"
  shows "osip_transaction_find osip (transactions ty osip) e = Some (find (matches osip e) (addrs ty osip))"
proof (cases "addrs ty osip")
  case Nil
  then show ?thesis using transactions_of_elems [OF assms(1), of ty]
    by (simp add: osip_transaction_find_def osip_list_get_first_of_elems)
next
  case (Cons a as)
  then obtain t where "mem osip a = Some t" using osip_inv_entry [OF assms(1), of a ty] by auto
  moreover have "event_matches osip e x = Some (matches osip e x)" if "x \<in> set (addrs ty osip)" for x
    using event_matches_total [OF assms(1) that assms(2)] by (auto simp: matches_def)
  ultimately show ?thesis
    using Cons transactions_of_elems [OF assms(1), of ty] find_first_eq [of "addrs ty osip" "event_matches osip e"]
    by (simp add: osip_transaction_find_def osip_list_get_first_of_elems)
qed

lemma event_ok_id [simp]: "event_ok (e\<lparr>ev_transactionid := i\<rparr>) = event_ok e"
  by (cases "ev_sip e") (simp_all add: event_ok_def EVT_IS_MSG_def)

definition list_of :: "osip_event \<Rightarrow> osip_fsm_type_t option" where
  "list_of e = (case ev_sip e of None \<Rightarrow> None
     | Some m \<Rightarrow> (case msg_cseq m of None \<Rightarrow> None
         | Some cs \<Rightarrow> (case event_list e m cs of None \<Rightarrow> None | Some ty \<Rightarrow> ty)))"

lemma find_consume_eq:
  assumes "osip_inv osip" "lookup_ok e" "list_of e = Some ty"
  shows "osip_find_transaction_consume osip (Some e) consume =
    (case find (matches osip e) (addrs ty osip) of
       None \<Rightarrow> Some (None, osip)
     | Some a \<Rightarrow>
         if consume then do {
           (r, t') \<leftarrow> osip_transaction_add_event (mem osip a) (Some e);
           Some (Some a, osip\<lparr>mem := (mem osip)(a := t')\<rparr>)
         }
         else Some (Some a, osip))"
proof -
  obtain m cs where "ev_sip e = Some m" "msg_cseq m = Some cs" "event_list e m cs = Some (Some ty)"
    using assms(3) by (auto simp: list_of_def split: option.splits)
  then show ?thesis using transaction_find_eq [OF assms(1,2)]
    by (simp add: osip_find_transaction_consume_def split: option.split)
qed

lemma find_add_event:
  assumes "osip_inv osip" "lookup_ok e" "event_ok e" "list_of e = Some ty"
    and "find (matches osip e) (addrs ty osip) = Some a"
  obtains t q where "mem osip a = Some t" "matches osip e a" "a \<in> set (addrs ty osip)"
    "osip_find_transaction_and_add_event osip (Some e) = Some (OSIP_SUCCESS, stored osip a (t\<lparr>transactionff := Some q\<rparr>))"
    "fifo_inv q" "fifo_elems q = queue_of t @ [e\<lparr>ev_transactionid := transactionid t\<rparr>]"
    "osip_inv (stored osip a (t\<lparr>transactionff := Some q\<rparr>))"
proof -
  have a: "a \<in> set (addrs ty osip)" "matches osip e a" using assms(5) by (auto simp: find_Some_iff)
  obtain t where t: "mem osip a = Some t" "transaction_inv t" "list_all event_ok (queue_of t)"
    using osip_inv_entry [OF assms(1) a(1)] by blast
  obtain q where q: "osip_transaction_add_event (Some t) (Some e) = Some (OSIP_SUCCESS, Some (t\<lparr>transactionff := Some q\<rparr>))"
    "fifo_inv q" "fifo_elems q = queue_of t @ [e\<lparr>ev_transactionid := transactionid t\<rparr>]"
    using add_event_ok [OF t(2)] .
  have "osip_inv (stored osip a (t\<lparr>transactionff := Some q\<rparr>))"
    using t q assms(3) transaction_inv_fifo [OF t(2) q(2)]
    by (intro stored_inv [OF assms(1) t(1)]) (simp_all add: queue_of_def)
  moreover have "osip_find_transaction_and_add_event osip (Some e) = Some (OSIP_SUCCESS, stored osip a (t\<lparr>transactionff := Some q\<rparr>))"
    using find_consume_eq [OF assms(1,2,4), of True] assms(5) t(1) q(1)
    by (simp add: osip_find_transaction_and_add_event_def stored_def)
  ultimately show thesis using that t(1) a q(2,3) by blast
qed

section \<open>Execution\<close>

lemma execute_queue:
  assumes "transaction_inv t" "event_ok e" "osip_transaction_execute cfg t e = Some (r, t', acts)"
  shows "transaction_inv t'" "queue_of t' = queue_of t" "transactionff t' = transactionff t"
    "ctx_type t' = ctx_type t" "transactionid t' = transactionid t"
proof -
  have "step_ok cfg t e t' acts" using execute_step [OF assms(1,2), of cfg] assms(3) by auto
  then show "transaction_inv t'" "queue_of t' = queue_of t" "transactionff t' = transactionff t"
    "ctx_type t' = ctx_type t" "transactionid t' = transactionid t"
    by (simp_all add: step_ok_def same_frame_def queue_of_def)
qed

definition queue_msgs :: "osip_transaction \<Rightarrow> osip_message multiset" where
  "queue_msgs t = sum_list (map (\<lambda>e. opt_mset (ev_sip e)) (queue_of t))"

text \<open>Draining a queue executes each of its events once and empties it.\<close>

definition drained :: "osip_transaction \<Rightarrow> osip_transaction \<Rightarrow> action list \<Rightarrow> bool" where
  "drained t t' acts \<longleftrightarrow>
     transaction_inv t' \<and> queue_of t' = [] \<and> ctx_type t' = ctx_type t \<and> transactionid t' = transactionid t
     \<and> (ctx_type t = ICT \<and> tr_ack t \<noteq> None \<longrightarrow> tr_ack t' = tr_ack t)
     \<and> owned t + queue_msgs t + created t t' = freed_msgs acts + owned t'"

lemma step_drained:
  assumes "step_ok cfg t1 e t2 as" "drained t2 t3 bs"
    and "queue_of t = e # queue_of t1" "t1 = t\<lparr>transactionff := Some q\<rparr>"
  shows "drained t t3 (as @ bs)"
proof -
  have c: "ctx_type t2 = ctx_type t" "transactionid t2 = transactionid t" "queue_of t2 = queue_of t1"
    using assms(1,4) by (simp_all add: step_ok_def same_frame_def queue_of_def)
  have ack: "tr_ack t2 = tr_ack t" if "ctx_type t = ICT" "tr_ack t \<noteq> None"
    using assms(1,4) that by (simp add: step_ok_def)
  have ack2: "tr_ack t3 = tr_ack t2" if "ctx_type t = ICT" "tr_ack t2 \<noteq> None"
    using assms(2) that c(1) by (simp add: drained_def)
  have cr: "created t t3 = created t t2 + created t2 t3"
    using ack ack2 c(1) by (cases "tr_ack t2") (auto simp: created_def)
  have b1: "owned t + opt_mset (ev_sip e) + created t t2 = freed_msgs as + owned t2"
    using assms(1,4) by (simp add: step_ok_def owned_def created_def)
  have b2: "owned t2 + queue_msgs t1 + created t2 t3 = freed_msgs bs + owned t3"
    using assms(2) c(3) by (simp add: drained_def queue_msgs_def)
  have "owned t + queue_msgs t + created t t3
      = (owned t + opt_mset (ev_sip e) + created t t2) + queue_msgs t1 + created t2 t3"
    using assms(3) by (simp add: queue_msgs_def cr ac_simps)
  also have "\<dots> = freed_msgs as + (owned t2 + queue_msgs t1 + created t2 t3)" by (subst b1) (simp only: add.assoc)
  also have "\<dots> = freed_msgs (as @ bs) + owned t3" by (subst b2) (simp add: add.assoc)
  finally show ?thesis using assms(2) c ack ack2 by (auto simp: drained_def)
qed

text \<open>What a pass does to the manager: the callbacks take the transactions \<open>R\<close> out of the lists.\<close>

definition pruned :: "nat set \<Rightarrow> osip \<Rightarrow> osip \<Rightarrow> bool" where
  "pruned R osip osip' \<longleftrightarrow> (\<forall>ty. addrs ty osip' = filter (\<lambda>b. b \<notin> R) (addrs ty osip))
     \<and> ixt_retransmissions osip' = ixt_retransmissions osip \<and> dom (mem osip') = dom (mem osip)"

lemma pruned_refl [simp]: "pruned {} osip osip"
  by (simp add: pruned_def)

lemma pruned_trans:
  assumes "pruned R osip1 osip2" "pruned S osip2 osip3"
  shows "pruned (R \<union> S) osip1 osip3"
proof -
  have "(\<lambda>b. b \<notin> S \<and> b \<notin> R) = (\<lambda>b. b \<notin> R \<union> S)" by auto
  with assms show ?thesis by (simp add: pruned_def)
qed

lemma pruned_stored: "mem osip a \<noteq> None \<Longrightarrow> pruned {} osip (stored osip a t)"
  by (auto simp: pruned_def)

definition removed :: "(nat \<Rightarrow> nat list) \<Rightarrow> nat \<Rightarrow> nat \<Rightarrow> nat set" where
  "removed rm n n' = (\<Union>k \<in> {n..<n'}. set (rm k))"

lemma removed_append: "n \<le> k \<Longrightarrow> k \<le> n' \<Longrightarrow> removed rm n n' = removed rm n k \<union> removed rm k n'"
  unfolding removed_def by (subst ivl_disj_un_two(3) [of n k n', symmetric]) auto

lemma removed_simps [simp]: "removed rm n n = {}" "n < n' \<Longrightarrow> removed rm n n' = set (rm n) \<union> removed rm (Suc n) n'"
  using removed_append [of n "Suc n" n' rm] by (simp_all add: removed_def)

lemma callbacks_remove_ok:
  assumes "manager_inv osip" "\<forall>b \<in> set bs. mem osip b \<noteq> None"
  shows "\<exists>osip'. callbacks_remove bs osip = Some osip' \<and> manager_inv osip' \<and> pruned (set bs) osip osip'
    \<and> mem osip' = mem osip"
  using assms
proof (induction bs arbitrary: osip)
  case (Cons b bs)
  then have b: "mem osip b \<noteq> None" by simp
  note r = remove_live [OF Cons.prems(1) b]
  obtain c where c: "osip_remove_transaction osip (Some b) = Some (c, without osip b)" using r(1) by blast
  obtain osip' where o': "callbacks_remove bs (without osip b) = Some osip'" "manager_inv osip'"
      "pruned (set bs) (without osip b) osip'" "mem osip' = mem osip"
    using Cons.IH [OF r(2)] Cons.prems(2) by auto
  have "pruned {b} osip (without osip b)" using r(3) by (simp add: pruned_def)
  from pruned_trans [OF this o'(3)] c o' show ?case by auto
qed simp

lemma drain_ok:
  assumes "manager_inv osip" "mem osip a = Some t" "\<forall>k. \<forall>b \<in> set (rm k). mem osip b \<noteq> None"
  shows "\<exists>osip' t' acts. drain env rm n a osip = Some (n + length (queue_of t), osip', acts) \<and> manager_inv osip'
    \<and> mem osip' = (mem osip)(a := Some t') \<and> drained t t' acts
    \<and> pruned (removed rm n (n + length (queue_of t))) osip osip'"
  using assms
proof (induction "length (queue_of t)" arbitrary: t n osip)
  case 0
  note t = manager_live [OF 0(2,3)]
  obtain q where q: "transactionff t = Some q" "fifo_inv q" "queue_of t = fifo_elems q"
    using transaction_inv_queue [OF t(1)] .
  with 0 have "osip_fifo_tryget q = Some (None, q)" by (intro ff.tryget_nil) simp_all
  moreover have "osip\<lparr>mem := (mem osip)(a := Some (t\<lparr>transactionff := Some q\<rparr>))\<rparr> = osip"
  proof -
    have "t\<lparr>transactionff := Some q\<rparr> = t" using q(1) by (cases t) simp
    then show ?thesis using 0(3) by (simp only: fun_upd_idem) simp
  qed
  ultimately have "drain env rm n a osip = Some (n + length (queue_of t), osip, [])"
    using 0(1,3) q(1) by (subst drain.simps) simp
  moreover have "drained t t []" using 0(1) t(1) by (simp add: drained_def queue_msgs_def created_def)
  moreover have "mem osip = (mem osip)(a := Some t)" using 0(3) by (simp add: fun_upd_idem)
  ultimately show ?case using 0 by fastforce
next
  case (Suc k)
  note t = manager_live [OF Suc(3,4)]
  obtain q where q: "transactionff t = Some q" "fifo_inv q" "queue_of t = fifo_elems q"
    using transaction_inv_queue [OF t(1)] .
  then obtain e es where es: "fifo_elems q = e # es" using Suc(2) by (cases "fifo_elems q") auto
  obtain q' where q': "osip_fifo_tryget q = Some (Some e, q')" "fifo_inv q'" "fifo_elems q' = es"
    using ff.tryget_cons [OF q(2) es] by blast
  define t1 where "t1 = t\<lparr>transactionff := Some q'\<rparr>"
  have i1: "transaction_inv t1" "queue_of t1 = es" "event_ok e" "list_all event_ok es"
    using transaction_inv_fifo [OF t(1) q'(2)] q' q(3) es t(3) by (simp_all add: t1_def queue_of_def)
  obtain r t2 as where x: "osip_transaction_execute (env n) t1 e = Some (r, t2, as)" "step_ok (env n) t1 e t2 as"
    using execute_step [OF i1(1,3)] by blast
  note s = execute_queue [OF i1(1,3) x(1)]
  have inv2: "manager_inv (stored osip a t2)"
    using s i1 by (intro stored_manager [OF Suc(3,4)]) (simp_all add: t1_def)
  have len: "length (queue_of t) = Suc (length (queue_of t2))" using s(2) i1(2) q(3) es by simp
  have rm: "\<forall>b \<in> set (rm j). mem (stored osip a t2) b \<noteq> None" for j using Suc(5) by simp
  obtain osip1 where c: "callbacks_remove (rm n) (stored osip a t2) = Some osip1" "manager_inv osip1"
      "pruned (set (rm n)) (stored osip a t2) osip1" "mem osip1 = (mem osip)(a := Some t2)"
    using callbacks_remove_ok [OF inv2 rm] by auto
  have "k = length (queue_of t2)" using Suc(2) len by simp
  moreover have "mem osip1 a = Some t2" "\<forall>k. \<forall>b \<in> set (rm k). mem osip1 b \<noteq> None"
    using c(4) Suc(5) by simp_all
  ultimately obtain osip2 t3 bs where
    d: "drain env rm (Suc n) a osip1 = Some (Suc n + length (queue_of t2), osip2, bs)" "manager_inv osip2"
      "mem osip2 = (mem osip1)(a := Some t3)" "drained t2 t3 bs"
      "pruned (removed rm (Suc n) (Suc n + length (queue_of t2))) osip1 osip2"
    using Suc(1) [of t2 osip1 "Suc n"] c(2) by blast
  have "drained t t3 (as @ bs)"
    using step_drained [OF x(2) d(4), of t q'] q(3) es i1(2) by (simp add: t1_def)
  moreover have "drain env rm n a osip = Some (n + length (queue_of t), osip2, as @ bs)"
    using Suc(4) q(1) q'(1) x(1) c(1) d(1) len by (subst drain.simps) (simp add: t1_def stored_def)
  moreover have "pruned (removed rm n (n + length (queue_of t))) osip osip2"
    using pruned_trans [OF pruned_trans [OF pruned_stored [of osip a t2] c(3)] d(5)] Suc(4) len by simp
  ultimately show ?case using d(2,3) c(4) by auto
qed

definition idle :: "osip \<Rightarrow> nat \<Rightarrow> bool" where
  "idle osip a = (case mem osip a of None \<Rightarrow> False | Some t \<Rightarrow> queue_of t = [])"

text \<open>The number of events that wait in the queues of the transactions \<open>as\<close>.\<close>

definition queued_events :: "osip \<Rightarrow> nat list \<Rightarrow> nat" where
  "queued_events osip as = sum_list (map (\<lambda>a. case mem osip a of None \<Rightarrow> 0 | Some t \<Rightarrow> length (queue_of t)) as)"

lemma queued_events_upd: "a \<notin> set as \<Longrightarrow> mem osip' = (mem osip)(a := t) \<Longrightarrow> queued_events osip' as = queued_events osip as"
  unfolding queued_events_def by (intro arg_cong [where f = sum_list] map_cong refl) auto

lemma execute_array_ok:
  assumes "manager_inv osip" "\<forall>a \<in> set as. mem osip a \<noteq> None" "distinct as"
    "\<forall>k. \<forall>b \<in> set (rm k). mem osip b \<noteq> None"
  shows "\<exists>osip' acts. execute_array env rm n as osip = Some (n + queued_events osip as, osip', acts) \<and> manager_inv osip'
    \<and> (\<forall>a \<in> set as. idle osip' a) \<and> (\<forall>b. b \<notin> set as \<longrightarrow> mem osip' b = mem osip b)
    \<and> pruned (removed rm n (n + queued_events osip as)) osip osip'"
  using assms
proof (induction as arbitrary: osip n)
  case (Cons a as)
  then obtain t where t: "mem osip a = Some t" by auto
  obtain osip1 t1 acts1 where d: "drain env rm n a osip = Some (n + length (queue_of t), osip1, acts1)"
      "manager_inv osip1" "mem osip1 = (mem osip)(a := Some t1)" "drained t t1 acts1"
      "pruned (removed rm n (n + length (queue_of t))) osip osip1"
    using drain_ok [OF Cons.prems(1) t Cons.prems(4)] by blast
  let ?n = "n + length (queue_of t)"
  have p: "queued_events osip1 as = queued_events osip as" using Cons.prems(3) d(3) by (intro queued_events_upd) simp_all
  have live: "\<forall>b \<in> set as. mem osip1 b \<noteq> None" "\<forall>k. \<forall>b \<in> set (rm k). mem osip1 b \<noteq> None"
    using Cons.prems(2,4) d(3) by simp_all
  obtain osip2 acts2 where r: "execute_array env rm ?n as osip1 = Some (?n + queued_events osip as, osip2, acts2)"
      "manager_inv osip2" "\<forall>b \<in> set as. idle osip2 b" "\<forall>b. b \<notin> set as \<longrightarrow> mem osip2 b = mem osip1 b"
      "pruned (removed rm ?n (?n + queued_events osip as)) osip1 osip2"
    using Cons.IH [OF d(2) live(1) _ live(2), of ?n] Cons.prems(3) p by auto
  have "idle osip2 a" using r(4) Cons.prems(3) d(3,4) by (simp add: idle_def drained_def)
  moreover have "queued_events osip (a # as) = length (queue_of t) + queued_events osip as" using t by (simp add: queued_events_def)
  moreover have "pruned (removed rm n (?n + queued_events osip as)) osip osip2"
    using pruned_trans [OF d(5) r(5)] removed_append [of n ?n "?n + queued_events osip as" rm] by simp
  ultimately show ?case using r d(1,3) by (simp add: add.assoc)
qed (simp add: queued_events_def)

lemma xixt_execute_ok:
  assumes "manager_inv osip" "\<forall>k. \<forall>b \<in> set (rm k). mem osip b \<noteq> None"
  shows "\<exists>osip' acts. osip_xixt_execute ty env rm osip = Some (OSIP_SUCCESS, osip', acts) \<and> manager_inv osip'
    \<and> (\<forall>a \<in> set (addrs ty osip). idle osip' a) \<and> (\<forall>b. b \<notin> set (addrs ty osip) \<longrightarrow> mem osip' b = mem osip b)
    \<and> pruned (removed rm 0 (queued_events osip (addrs ty osip))) osip osip'"
proof -
  have inv: "osip_inv osip" by (rule manager_osip [OF assms(1)])
  note l = transactions_of_elems [OF inv, of ty]
  show ?thesis
  proof (cases "addrs ty osip = []")
    case True
    then show ?thesis using assms l by (simp add: osip_xixt_execute_def queued_events_def)
  next
    case False
    have "\<forall>a \<in> set (addrs ty osip). mem osip a \<noteq> None" using addrs_mem [OF inv] by blast
    from execute_array_ok [OF assms(1) this addrs_distinct [OF inv] assms(2), of env 0] False l
    show ?thesis by (auto simp: osip_xixt_execute_def)
  qed
qed

end
