(* ===== verification/Osip_Timers_Inv.thy ===== *)
theory Osip_Timers_Inv
  imports Osip_Manager_Inv
begin

text \<open>
  Properties of the timers: the passes over the lists keep the manager's invariant and queue the
  right event, and the delay the manager computes never goes past a running timer.
\<close>

section \<open>Active timers\<close>

text \<open>The timers the state machines wait for in the current state.\<close>

definition active_timers :: "osip_transaction \<Rightarrow> timeval list" where
  "active_timers t =
     (case ctx_type t of
        ICT \<Rightarrow> (case ict_context t of
                  Ptr c \<Rightarrow> if tr_state t = ICT_CALLING then [timer_b_start c, timer_a_start c]
                           else if tr_state t = ICT_COMPLETED then [timer_d_start c] else []
                | _ \<Rightarrow> [])
      | IST \<Rightarrow> (case ist_context t of
                  Ptr c \<Rightarrow> if tr_state t = IST_CONFIRMED then [timer_i_start c]
                           else if tr_state t = IST_COMPLETED then [timer_h_start c, timer_g_start c] else []
                | _ \<Rightarrow> [])
      | NICT \<Rightarrow> (case nict_context t of
                  Ptr c \<Rightarrow> if tr_state t = NICT_COMPLETED then [timer_k_start c]
                           else if tr_state t = NICT_PROCEEDING \<or> tr_state t = NICT_TRYING
                           then [timer_f_start c, timer_e_start c] else []
                | _ \<Rightarrow> [])
      | NIST \<Rightarrow> (case nist_context t of
                  Ptr c \<Rightarrow> if tr_state t = NIST_COMPLETED then [timer_j_start c] else []
                | _ \<Rightarrow> []))"

definition tv_le :: "timeval \<Rightarrow> timeval \<Rightarrow> bool" where
  "tv_le a b = (\<not> osip_timercmp_gt a b)"

lemma tv_le_refl [simp]: "tv_le a a"
  by (simp add: tv_le_def)

lemma tv_le_trans: "tv_le a b \<Longrightarrow> tv_le b c \<Longrightarrow> tv_le a c"
  by (auto simp: tv_le_def osip_timercmp_gt_def split: if_splits)

lemma tv_le_us: "tv_norm a \<Longrightarrow> tv_norm b \<Longrightarrow> tv_le a b \<longleftrightarrow> tv_us a \<le> tv_us b"
  by (auto simp: tv_le_def osip_timercmp_gt_us)

lemma min_timercmp_le: "tv_le (min_timercmp a b) a" "\<not> tv_stopped b \<Longrightarrow> tv_le (min_timercmp a b) b"
  by (auto simp: min_timercmp_simps tv_le_def tv_stopped_def osip_timercmp_gt_asym)

section \<open>The delay\<close>

text \<open>\<open>earliest now ts l l'\<close>: \<open>l'\<close> is \<open>l\<close> lowered to the running timers \<open>ts\<close>, and not overdue.\<close>

definition earliest :: "timeval \<Rightarrow> timeval list \<Rightarrow> timeval \<Rightarrow> timeval \<Rightarrow> bool" where
  "earliest now ts l l' \<longleftrightarrow> tv_le l' l \<and> (\<forall>t \<in> set ts. \<not> tv_stopped t \<longrightarrow> tv_le l' t) \<and> tv_le now l'
     \<and> l' \<in> insert l (set ts)"

lemma earliest_trans: "earliest now ts l l1 \<Longrightarrow> earliest now us l1 l2 \<Longrightarrow> earliest now (ts @ us) l l2"
  unfolding earliest_def by (auto intro: tv_le_trans)

lemma overdue_Some: "overdue now l = Some l' \<longleftrightarrow> l' = l \<and> tv_le now l"
  by (auto simp: overdue_def tv_le_def)

lemma min_timercmp_in: "min_timercmp a b = a \<or> min_timercmp a b = b"
  by (simp add: min_timercmp_simps)

lemma earliest_mins:
  "tv_le now (min_timercmp (min_timercmp l a) b) \<Longrightarrow> earliest now [a, b] l (min_timercmp (min_timercmp l a) b)"
  "tv_le now (min_timercmp l a) \<Longrightarrow> earliest now [a] l (min_timercmp l a)"
  "tv_le now l \<Longrightarrow> earliest now [] l l"
  using min_timercmp_le(1) [of l a] min_timercmp_le(1) [of "min_timercmp l a" b]
    min_timercmp_le(2) [of a l] min_timercmp_le(2) [of b "min_timercmp l a"]
    min_timercmp_in [of l a] min_timercmp_in [of "min_timercmp l a" b]
  by (auto simp: earliest_def intro: tv_le_trans)

text \<open>Each iteration returns (no NULL context), and what it returns is the earliest time so far.\<close>

definition timeout_spec :: "timeval \<Rightarrow> timeval list \<Rightarrow> timeval \<Rightarrow> timeval option ub \<Rightarrow> bool" where
  "timeout_spec now ts l r =
     (case r of None \<Rightarrow> False | Some None \<Rightarrow> True | Some (Some l') \<Rightarrow> earliest now ts l l')"

lemma timeout_spec_overdue:
  "timeout_spec now [a, b] l (Some (overdue now (min_timercmp (min_timercmp l a) b)))"
  "timeout_spec now [a] l (Some (overdue now (min_timercmp l a)))"
  "timeout_spec now [] l (Some (overdue now l))"
  using earliest_mins by (auto simp: timeout_spec_def overdue_Some split: option.split)

lemma ict_timeout_spec:
  assumes "transaction_inv t" "ctx_type t = ICT"
  shows "timeout_spec now (active_timers t) l (ict_timeout now t l)"
proof -
  obtain c where "ict_context t = Ptr c" using ict_context_Ptr [OF assms] by blast
  moreover obtain q where "transactionff t = Some q" using transaction_inv_queue [OF assms(1)] by blast
  ultimately show ?thesis using assms(2) timeout_spec_overdue
    by (simp add: ict_timeout_def min_if_def active_timers_def) (simp add: timeout_spec_def)
qed

lemma ist_timeout_spec:
  assumes "transaction_inv t" "ctx_type t = IST"
  shows "timeout_spec now (active_timers t) l (ist_timeout now t l)"
proof -
  obtain c where "ist_context t = Ptr c" using ist_context_Ptr [OF assms] by blast
  then show ?thesis using assms(2) timeout_spec_overdue
    by (simp add: ist_timeout_def min_if_def active_timers_def)
qed

lemma nict_timeout_spec:
  assumes "transaction_inv t" "ctx_type t = NICT"
  shows "timeout_spec now (active_timers t) l (nict_timeout now t l)"
proof -
  obtain c where "nict_context t = Ptr c" using nict_context_Ptr [OF assms] by blast
  then show ?thesis using assms(2) timeout_spec_overdue
    by (auto simp: nict_timeout_def min_if_def active_timers_def)
qed

lemma nist_timeout_spec:
  assumes "transaction_inv t" "ctx_type t = NIST"
  shows "timeout_spec now (active_timers t) l (nist_timeout now t l)"
proof -
  obtain c where "nist_context t = Ptr c" using nist_context_Ptr [OF assms] by blast
  then show ?thesis using assms(2) timeout_spec_overdue
    by (simp add: nist_timeout_def min_if_def active_timers_def)
qed

lemma timeout_loop_spec:
  assumes "\<And>x l. x \<in> set xs \<Longrightarrow> tv_le now l \<Longrightarrow> timeout_spec now (ts x) l (f x l)" and "tv_le now l"
  shows "timeout_spec now (concat (map ts xs)) l (timeout_loop f xs l)"
  using assms
proof (induction xs arbitrary: l)
  case Nil
  then show ?case by (simp add: timeout_spec_def earliest_def)
next
  case (Cons x xs)
  have x: "timeout_spec now (ts x) l (f x l)" using Cons.prems by simp
  show ?case
  proof (cases "f x l")
    case None
    with x show ?thesis by (simp add: timeout_spec_def)
  next
    case (Some r)
    show ?thesis
    proof (cases r)
      case None
      with Some show ?thesis by (simp add: timeout_spec_def)
    next
      case (Some l1)
      with \<open>f x l = Some r\<close> x have e: "earliest now (ts x) l l1" by (simp add: timeout_spec_def)
      then have "timeout_spec now (concat (map ts xs)) l1 (timeout_loop f xs l1)"
        using Cons by (simp add: earliest_def)
      with e \<open>f x l = Some r\<close> Some show ?thesis
        by (auto simp: timeout_spec_def intro: earliest_trans split: option.splits)
    qed
  qed
qed

definition timers_of :: "osip \<Rightarrow> nat \<Rightarrow> timeval list" where
  "timers_of osip a = (case mem osip a of None \<Rightarrow> [] | Some t \<Rightarrow> active_timers t)"

lemma timeout_list_spec:
  assumes "osip_inv osip" "tv_le now l"
    and "\<And>t l. transaction_inv t \<Longrightarrow> ctx_type t = ty \<Longrightarrow> timeout_spec now (active_timers t) l (f t l)"
  shows "timeout_spec now (concat (map (timers_of osip) (addrs ty osip))) l (timeout_list osip ty f (Some l))"
proof -
  have "timeout_spec now (timers_of osip a) l (do { tr \<leftarrow> deref (mem osip a); f tr l })"
    if a: "a \<in> set (addrs ty osip)" for a l
  proof -
    obtain t where "mem osip a = Some t" "transaction_inv t" "ctx_type t = ty"
      using osip_inv_entry [OF assms(1) a] by blast
    then show ?thesis using assms(3) by (simp add: timers_of_def)
  qed
  then show ?thesis using transactions_of_elems [OF assms(1), of ty] assms(2)
    by (simp add: timeout_list_def timeout_loop_spec)
qed

lemma timeout_spec_bind:
  assumes "timeout_spec now ts l r"
    and "\<And>l'. earliest now ts l l' \<Longrightarrow> timeout_spec now us l' (g (Some l'))" and "g None = Some None"
  shows "timeout_spec now (ts @ us) l (Option.bind r g)"
proof (cases r)
  case None
  with assms(1) show ?thesis by (simp add: timeout_spec_def)
next
  case (Some x)
  show ?thesis
  proof (cases x)
    case None
    with Some assms(3) show ?thesis by (simp add: timeout_spec_def)
  next
    case (Some l')
    then have e: "earliest now ts l l'" using \<open>r = Some x\<close> assms(1) by (simp add: timeout_spec_def)
    from assms(2) [OF e] e show ?thesis using Some \<open>r = Some x\<close>
      by (auto simp: timeout_spec_def intro: earliest_trans split: option.splits)
  qed
qed

definition listed_timers :: "osip \<Rightarrow> timeval list" where
  "listed_timers osip =
     concat (map (timers_of osip) (all_addrs osip)) @ map ixt_start (list_abs (ixt_retransmissions osip))"

definition year_later :: "timeval \<Rightarrow> timeval" where
  "year_later now = \<lparr>tv_sec = tv_sec now + 3600 * 24 * 365, tv_usec = tv_usec now\<rparr>"

lemma year_later_le: "tv_le now (year_later now)"
  by (simp add: tv_le_def osip_timercmp_gt_def year_later_def)

lemma gettimeout_core:
  assumes "osip_inv osip" "list_inv (ixt_retransmissions osip)"
  shows "\<exists>r. osip_timers_gettimeout now osip = Some (case r of None \<Rightarrow> tv_zero | Some l \<Rightarrow> normalize_delay l now)
    \<and> (\<forall>l. r = Some l \<longrightarrow> earliest now (listed_timers osip) (year_later now) l)"
proof -
  let ?ts = "\<lambda>ty. concat (map (timers_of osip) (addrs ty osip))"
  let ?ix = "\<lambda>l4. case l4 of None \<Rightarrow> Some None
           | Some l \<Rightarrow> do {
               xs \<leftarrow> osip_list_elems (ixt_retransmissions osip);
               timeout_loop (\<lambda>x l. Some (overdue now (min_timercmp l (ixt_start x)))) xs l
             }"
  define xs where "xs = list_abs (ixt_retransmissions osip)"
  have ix: "timeout_spec now (map ixt_start xs) l (?ix (Some l))" if "tv_le now l" for l
  proof -
    have "timeout_spec now [ixt_start x] l (Some (overdue now (min_timercmp l (ixt_start x))))" for x l
      by (rule timeout_spec_overdue)
    then have "timeout_spec now (concat (map (\<lambda>x. [ixt_start x]) xs)) l
        (timeout_loop (\<lambda>x l. Some (overdue now (min_timercmp l (ixt_start x)))) xs l)"
      by (intro timeout_loop_spec that)
    moreover have "osip_list_elems (ixt_retransmissions osip) = Some xs"
      using list_inv_of_elems [OF assms(2)] unfolding xs_def by (metis osip_list_elems_of_elems)
    ultimately show ?thesis by simp
  qed
  define core where "core = timeout_list osip ICT (ict_timeout now) (Some (year_later now)) \<bind>
      (\<lambda>l1. timeout_list osip IST (ist_timeout now) l1 \<bind>
      (\<lambda>l2. timeout_list osip NICT (nict_timeout now) l2 \<bind>
      (\<lambda>l3. timeout_list osip NIST (nist_timeout now) l3 \<bind> ?ix)))"
  have "timeout_spec now (?ts ICT @ ?ts IST @ ?ts NICT @ ?ts NIST @ map ixt_start xs) (year_later now) core"
    unfolding core_def
    by (intro timeout_spec_bind timeout_list_spec assms(1) ict_timeout_spec ist_timeout_spec
        nict_timeout_spec nist_timeout_spec ix year_later_le)
      (auto simp: earliest_def timeout_list_def)
  then obtain r where r: "core = Some r" "\<forall>l. r = Some l \<longrightarrow> earliest now (listed_timers osip) (year_later now) l"
    by (auto simp: timeout_spec_def listed_timers_def all_addrs_def xs_def split: option.splits)
  have "osip_timers_gettimeout now osip = map_option (\<lambda>r. case r of None \<Rightarrow> tv_zero | Some l \<Rightarrow> normalize_delay l now) core"
    unfolding osip_timers_gettimeout_def core_def year_later_def Let_def map_conv_bind_option
    by (simp only: Option.bind_assoc comp_def)
  with r show ?thesis by auto
qed

lemma normalize_delay_us:
  assumes "tv_norm now" "tv_norm l" "tv_le now l"
  shows "tv_us (normalize_delay l now) = tv_us l - tv_us now" "tv_norm (normalize_delay l now)"
    "0 \<le> tv_sec (normalize_delay l now)"
proof -
  have "tv_us now \<le> tv_us l" using assms by (simp add: tv_le_us)
  then show "tv_us (normalize_delay l now) = tv_us l - tv_us now" "tv_norm (normalize_delay l now)"
      "0 \<le> tv_sec (normalize_delay l now)"
    using assms(1,2) by (auto simp: normalize_delay_def Let_def tv_us_def tv_norm_def algebra_simps)
qed

section \<open>Timer passes\<close>

lemma need_timer_Ptr:
  "osip_transaction_need_timer_x_event now (Ptr c) timer cond tid ty =
     Some (if cond \<and> \<not> tv_stopped (timer c) \<and> osip_timercmp_gt now (timer c)
           then Some (osip_event_new ty tid) else None)"
  by (simp add: osip_transaction_need_timer_x_event_def tv_stopped_def)

definition timer_event_of :: "osip_fsm_type_t \<Rightarrow> (nat \<Rightarrow> timeval) \<Rightarrow> nat \<Rightarrow> osip_transaction \<Rightarrow> osip_event option ub" where
  "timer_event_of ty =
     (case ty of ICT \<Rightarrow> ict_timer_event | IST \<Rightarrow> ist_timer_event | NICT \<Rightarrow> nict_timer_event
      | NIST \<Rightarrow> nist_timer_event)"

lemma event_ok_new: "type_rank ty < 10 \<Longrightarrow> event_ok (osip_event_new ty tid)"
  by (simp add: event_ok_def EVT_IS_MSG_type osip_event_new_def)

lemma timer_event_total:
  assumes "transaction_inv t"
  shows "\<exists>evt. timer_event_of (ctx_type t) clk k t = Some evt \<and> opt_all event_ok evt"
proof -
  obtain q where q: "transactionff t = Some q" using transaction_inv_queue [OF assms] by blast
  show ?thesis
  proof (cases "ctx_type t")
    case ICT
    then obtain c where "ict_context t = Ptr c" using ict_context_Ptr [OF assms] by blast
    with ICT q show ?thesis
      by (auto simp: timer_event_of_def ict_timer_event_def osip_ict_need_timer_a_event_def
          osip_ict_need_timer_b_event_def osip_ict_need_timer_d_event_def need_timer_Ptr event_ok_new)
  next
    case IST
    then obtain c where "ist_context t = Ptr c" using ist_context_Ptr [OF assms] by blast
    with IST show ?thesis
      by (auto simp: timer_event_of_def ist_timer_event_def osip_ist_need_timer_g_event_def
          osip_ist_need_timer_h_event_def osip_ist_need_timer_i_event_def need_timer_Ptr event_ok_new)
  next
    case NICT
    then obtain c where "nict_context t = Ptr c" using nict_context_Ptr [OF assms] by blast
    with NICT show ?thesis
      by (auto simp: timer_event_of_def nict_timer_event_def osip_nict_need_timer_e_event_def
          osip_nict_need_timer_f_event_def osip_nict_need_timer_k_event_def need_timer_Ptr event_ok_new)
  next
    case NIST
    then obtain c where "nist_context t = Ptr c" using nist_context_Ptr [OF assms] by blast
    with NIST show ?thesis
      by (auto simp: timer_event_of_def nist_timer_event_def osip_nist_need_timer_j_event_def need_timer_Ptr event_ok_new)
  qed
qed

lemma add_timer_event_ok:
  assumes "transaction_inv t"
  shows "\<exists>t'. add_timer_event t evt = Some t' \<and> transaction_inv t' \<and> ctx_type t' = ctx_type t
    \<and> transactionid t' = transactionid t
    \<and> queue_of t' = queue_of t @ (case evt of None \<Rightarrow> [] | Some e \<Rightarrow> [e])"
proof (cases evt)
  case (Some e)
  obtain q where q: "transactionff t = Some q" "fifo_inv q" "queue_of t = fifo_elems q"
    using transaction_inv_queue [OF assms] .
  obtain q' where "osip_fifo_add q e = Some (OSIP_SUCCESS, q')" "fifo_inv q'" "fifo_elems q' = fifo_elems q @ [e]"
    using osip_fifo_add_inv [OF q(2)] .
  with q Some transaction_inv_fifo [OF assms, of q'] show ?thesis
    by (auto simp: add_timer_event_def queue_of_def)
qed (simp add: add_timer_event_def assms)

lemma timers_pass_ok:
  assumes "manager_inv osip" "set as \<subseteq> set (addrs ty osip)"
  shows "\<exists>osip'. timers_pass (timer_event_of ty) clk k as osip = Some osip' \<and> manager_inv osip'
    \<and> (\<forall>ty. transactions ty osip' = transactions ty osip)"
  using assms
proof (induction as arbitrary: osip k)
  case (Cons a as)
  then have a: "a \<in> set (addrs ty osip)" by simp
  obtain t where t: "mem osip a = Some t" "transaction_inv t" "ctx_type t = ty" "list_all event_ok (queue_of t)"
    using osip_inv_entry [OF manager_osip [OF Cons.prems(1)] a] by blast
  obtain evt where e: "timer_event_of ty clk k t = Some evt" "opt_all event_ok evt"
    using timer_event_total [OF t(2)] t(3) by blast
  obtain t' where t': "add_timer_event t evt = Some t'" "transaction_inv t'" "ctx_type t' = ctx_type t"
      "transactionid t' = transactionid t" "queue_of t' = queue_of t @ (case evt of None \<Rightarrow> [] | Some e \<Rightarrow> [e])"
    using add_timer_event_ok [OF t(2)] by blast
  have "manager_inv (stored osip a t')"
    using t(4) e(2) by (intro stored_manager [OF Cons.prems(1) t(1) t'(2-4)]) (cases evt, simp_all add: t'(5))
  then obtain osip2 where "timers_pass (timer_event_of ty) clk (k + 3) as (stored osip a t') = Some osip2"
      "manager_inv osip2" "\<forall>ty. transactions ty osip2 = transactions ty osip"
    using Cons.IH [of "stored osip a t'" "k + 3"] Cons.prems(2) by auto
  with t(1) e(1) t'(1) show ?case by (simp add: stored_def)
qed simp

section \<open>Which timer fires\<close>

definition timer_due :: "timeval \<Rightarrow> timeval \<Rightarrow> bool" where
  "timer_due now tv \<longleftrightarrow> \<not> tv_stopped tv \<and> osip_timercmp_gt now tv"

text \<open>The timers of a state in the order of their priority: giving up goes before retransmitting.\<close>

definition timer_table :: "osip_transaction \<Rightarrow> (timeval \<times> type_t) list" where
  "timer_table t =
     (case ctx_type t of
        ICT \<Rightarrow> (case ict_context t of
                  Ptr c \<Rightarrow> if tr_state t = ICT_CALLING then [(timer_b_start c, TIMEOUT_B), (timer_a_start c, TIMEOUT_A)]
                           else if tr_state t = ICT_COMPLETED then [(timer_d_start c, TIMEOUT_D)] else []
                | _ \<Rightarrow> [])
      | IST \<Rightarrow> (case ist_context t of
                  Ptr c \<Rightarrow> if tr_state t = IST_CONFIRMED then [(timer_i_start c, TIMEOUT_I)]
                           else if tr_state t = IST_COMPLETED
                           then [(timer_h_start c, TIMEOUT_H), (timer_g_start c, TIMEOUT_G)] else []
                | _ \<Rightarrow> [])
      | NICT \<Rightarrow> (case nict_context t of
                  Ptr c \<Rightarrow> if tr_state t = NICT_COMPLETED then [(timer_k_start c, TIMEOUT_K)]
                           else if tr_state t = NICT_PROCEEDING \<or> tr_state t = NICT_TRYING
                           then [(timer_f_start c, TIMEOUT_F), (timer_e_start c, TIMEOUT_E)] else []
                | _ \<Rightarrow> [])
      | NIST \<Rightarrow> (case nist_context t of
                  Ptr c \<Rightarrow> if tr_state t = NIST_COMPLETED then [(timer_j_start c, TIMEOUT_J)] else []
                | _ \<Rightarrow> []))"

definition due_event :: "timeval \<Rightarrow> osip_transaction \<Rightarrow> osip_event option" where
  "due_event now t =
     (if ctx_type t = ICT \<and> queue_of t \<noteq> [] then None
      else map_option (\<lambda>x. osip_event_new (snd x) (transactionid t))
             (find (\<lambda>x. timer_due now (fst x)) (timer_table t)))"

lemmas ict_need_defs = ict_timer_event_def osip_ict_need_timer_a_event_def
  osip_ict_need_timer_b_event_def osip_ict_need_timer_d_event_def
lemmas ist_need_defs = ist_timer_event_def osip_ist_need_timer_g_event_def
  osip_ist_need_timer_h_event_def osip_ist_need_timer_i_event_def
lemmas nict_need_defs = nict_timer_event_def osip_nict_need_timer_e_event_def
  osip_nict_need_timer_f_event_def osip_nict_need_timer_k_event_def

lemma timer_event_due:
  assumes "transaction_inv t"
  shows "timer_event_of (ctx_type t) (\<lambda>k. now) k t = Some (due_event now t)"
proof -
  obtain q where q: "transactionff t = Some q" "fifo_inv q" "queue_of t = fifo_elems q"
    using transaction_inv_queue [OF assms] .
  have sz: "1 \<le> osip_fifo_size q \<longleftrightarrow> queue_of t \<noteq> []"
    using osip_fifo_size_inv [OF q(2)] q(3) by (cases "fifo_elems q") simp_all
  show ?thesis
  proof (cases "ctx_type t")
    case ICT
    then obtain c where "ict_context t = Ptr c" using ict_context_Ptr [OF assms] by blast
    with ICT q(1) sz show ?thesis
      by (simp add: timer_event_of_def due_event_def timer_table_def ict_need_defs need_timer_Ptr timer_due_def)
  next
    case IST
    then obtain c where "ist_context t = Ptr c" using ist_context_Ptr [OF assms] by blast
    with IST show ?thesis
      by (simp add: timer_event_of_def due_event_def timer_table_def ist_need_defs need_timer_Ptr timer_due_def)
  next
    case NICT
    then obtain c where "nict_context t = Ptr c" using nict_context_Ptr [OF assms] by blast
    with NICT show ?thesis
      by (auto simp: timer_event_of_def due_event_def timer_table_def nict_need_defs need_timer_Ptr timer_due_def)
  next
    case NIST
    then obtain c where "nist_context t = Ptr c" using nist_context_Ptr [OF assms] by blast
    with NIST show ?thesis
      by (simp add: timer_event_of_def due_event_def timer_table_def nist_timer_event_def
          osip_nist_need_timer_j_event_def need_timer_Ptr timer_due_def)
  qed
qed

lemma timers_pass_unvisited:
  "timers_pass f clk k as osip = Some osip' \<Longrightarrow> b \<notin> set as \<Longrightarrow> mem osip' b = mem osip b"
  by (induction as arbitrary: k osip) (fastforce simp: bind_eq_Some_conv)+

lemma timers_pass_at:
  assumes "timers_pass f (\<lambda>k. now) k as osip = Some osip'" "distinct as" "a \<in> set as" "mem osip a = Some t"
    and "\<And>k. f (\<lambda>k. now) k t = Some evt"
  shows "\<exists>t'. add_timer_event t evt = Some t' \<and> mem osip' a = Some t'"
  using assms
proof (induction as arbitrary: k osip)
  case (Cons b as)
  show ?case
  proof (cases "b = a")
    case True
    with Cons.prems obtain t' where t': "add_timer_event t evt = Some t'"
        "timers_pass f (\<lambda>k. now) (k + 3) as (osip\<lparr>mem := (mem osip)(a := Some t')\<rparr>) = Some osip'"
      by (auto simp: bind_eq_Some_conv)
    have "a \<notin> set as" using Cons.prems(2) True by simp
    from timers_pass_unvisited [OF t'(2) this] t'(1) show ?thesis by simp
  next
    case False
    with Cons.prems obtain u where u: "timers_pass f (\<lambda>k. now) (k + 3) as (osip\<lparr>mem := (mem osip)(b := Some u)\<rparr>) = Some osip'"
      by (auto simp: bind_eq_Some_conv)
    show ?thesis by (rule Cons.IH [OF u]) (use Cons.prems False in auto)
  qed
qed simp

end
