(* ===== verification/Osip_Ixt_Inv.thy ===== *)
theory Osip_Ixt_Inv
  imports Osip_Ixt Osip_Timers_Inv
begin

text \<open>
  What the loops over the retransmission list compute on the abstract list, and the bound on the
  number of retransmissions.
\<close>

section \<open>Positions in an abstract list\<close>

lemma seq_get_nth: "i < length xs \<Longrightarrow> seq_get xs (int i) = Some (xs ! i)"
  by (simp add: seq_get_def)

lemma seq_remove_nth: "i < length xs \<Longrightarrow> seq_remove xs (int i) = take i xs @ drop (Suc i) xs"
  by (simp add: seq_remove_def)

lemma osip_list_remove_nth:
  "i < length xs \<Longrightarrow> osip_list_remove (Some (of_elems xs)) (int i) =
     Some (int (length xs) - 1, Some (of_elems (take i xs @ drop (Suc i) xs)))"
  by (simp add: osip_list_remove_of_elems seq_remove_nth)

lemma of_elems_update: "(of_elems xs)\<lparr>node := (node (of_elems xs))[i := x]\<rparr> = of_elems (xs[i := x])"
  by (simp add: of_elems_def)

lemma take_removed: "i < length xs \<Longrightarrow> take i (take i xs @ drop (Suc i) xs) = take i xs"
  "i < length xs \<Longrightarrow> drop i (take i xs @ drop (Suc i) xs) = drop (Suc i) xs"
  by simp_all

section \<open>Stopping the retransmissions of a dialog\<close>

lemma stop_dialog_loop_eq:
  "i \<le> length xs \<Longrightarrow> stop_dialog_loop dialog i (of_elems xs) =
     Some (of_elems (take i xs @ filter (\<lambda>x. ixt_dialog x \<noteq> dialog) (drop i xs)),
           concat (map ixt_free (filter (\<lambda>x. ixt_dialog x = dialog) (drop i xs))))"
proof (induction "length xs - i" arbitrary: i xs)
  case 0
  then show ?case by (subst stop_dialog_loop.simps) simp
next
  case (Suc n)
  then have i: "i < length xs" by simp
  note d = drop_eq_nth_Cons [OF i]
  show ?case
  proof (cases "ixt_dialog (xs ! i) = dialog")
    case True
    let ?ys = "take i xs @ drop (Suc i) xs"
    have "stop_dialog_loop dialog i (of_elems ?ys) =
        Some (of_elems (take i ?ys @ filter (\<lambda>x. ixt_dialog x \<noteq> dialog) (drop i ?ys)),
           concat (map ixt_free (filter (\<lambda>x. ixt_dialog x = dialog) (drop i ?ys))))"
      using Suc.hyps(2) i by (intro Suc.hyps(1)) simp_all
    with True i d show ?thesis
      by (subst stop_dialog_loop.simps) (simp add: seq_get_nth osip_list_remove_nth)
  next
    case False
    have "stop_dialog_loop dialog (Suc i) (of_elems xs) =
        Some (of_elems (take (Suc i) xs @ filter (\<lambda>x. ixt_dialog x \<noteq> dialog) (drop (Suc i) xs)),
           concat (map ixt_free (filter (\<lambda>x. ixt_dialog x = dialog) (drop (Suc i) xs))))"
      using Suc.hyps(2) i by (intro Suc.hyps(1)) simp_all
    with False i d show ?thesis
      by (subst stop_dialog_loop.simps) (simp add: seq_get_nth take_Suc_conv_app_nth)
  qed
qed

section \<open>Stopping the retransmission of a 2xx\<close>

text \<open>The ACK \<open>ack\<close> with CSeq number \<open>num\<close> answers the 2xx of \<open>x\<close>.\<close>

definition uas_match :: "(nat \<Rightarrow> osip_dialog option) \<Rightarrow> osip_message \<Rightarrow> ixt \<Rightarrow> int ub" where
  "uas_match dlgs ack x =
     (case dlg_ptr dlgs (ixt_dialog x) of None \<Rightarrow> None | Some d \<Rightarrow> osip_dialog_match_as_uas d (Some ack))"

definition ack_answers :: "(nat \<Rightarrow> osip_dialog option) \<Rightarrow> osip_message \<Rightarrow> string \<Rightarrow> ixt \<Rightarrow> bool" where
  "ack_answers dlgs ack num x \<longleftrightarrow> ixt_cseq_number x = Some num \<and> uas_match dlgs ack x = Some 0"

lemma stop_200ok_loop_eq:
  assumes "\<forall>x \<in> set xs. ixt_cseq_number x \<noteq> None \<longrightarrow> uas_match dlgs ack x \<noteq> None" "i \<le> length xs"
  shows "stop_200ok_loop dlgs ack num i (of_elems xs) =
    Some (case find (ack_answers dlgs ack num) (drop i xs) of
            None \<Rightarrow> (None, of_elems xs, [])
          | Some x \<Rightarrow> (ixt_dialog x,
                       of_elems (take i xs @ remove_first (ack_answers dlgs ack num) (drop i xs)), ixt_free x))"
  using assms
proof (induction "length xs - i" arbitrary: i)
  case 0
  then show ?case by (subst stop_200ok_loop.simps) simp
next
  case (Suc n)
  then have i: "i < length xs" by simp
  note d = drop_eq_nth_Cons [OF i]
  have nxt: "stop_200ok_loop dlgs ack num (Suc i) (of_elems xs) =
    Some (case find (ack_answers dlgs ack num) (drop (Suc i) xs) of
            None \<Rightarrow> (None, of_elems xs, [])
          | Some x \<Rightarrow> (ixt_dialog x,
                       of_elems (take (Suc i) xs @ remove_first (ack_answers dlgs ack num) (drop (Suc i) xs)), ixt_free x))"
    using Suc i by (intro Suc.hyps(1)) simp_all
  show ?case
  proof (cases "ixt_cseq_number (xs ! i)")
    case None
    then have "\<not> ack_answers dlgs ack num (xs ! i)" by (simp add: ack_answers_def)
    with None i d nxt show ?thesis
      by (subst stop_200ok_loop.simps) (simp add: seq_get_nth take_Suc_conv_app_nth split: option.split)
  next
    case (Some m)
    then obtain r where r: "uas_match dlgs ack (xs ! i) = Some r" using Suc.prems(1) i by fastforce
    have a: "ack_answers dlgs ack num (xs ! i) \<longleftrightarrow> r = 0 \<and> m = num"
      using r Some by (auto simp: ack_answers_def)
    show ?thesis
    proof (cases "r = 0 \<and> m = num")
      case True
      with Some r i d a show ?thesis
        by (subst stop_200ok_loop.simps)
          (simp add: seq_get_nth osip_list_remove_nth strcmp_eq_def uas_match_def)
    next
      case False
      with Some r i d a nxt show ?thesis
        by (subst stop_200ok_loop.simps)
          (auto simp: seq_get_nth take_Suc_conv_app_nth strcmp_eq_def uas_match_def split: option.split)
    qed
  qed
qed

section \<open>Retransmitting\<close>

text \<open>Between two calls of \<open>osip_retransmissions_execute\<close> a listed \<open>ixt\<close> has attempts left and an
  interval that doubles up to T2.\<close>

definition ixt_inv :: "ixt \<Rightarrow> bool" where
  "ixt_inv x \<longleftrightarrow> 0 < ixt_counter x \<and> ixt_counter x \<le> 10 \<and> DEFAULT_T1 \<le> interval x \<and> interval x \<le> DEFAULT_T2"

lemma ixt_init_inv: "ixt_inv (ixt_init now)"
  by (simp add: ixt_inv_def ixt_init_def timer_consts)

lemma ixt_retransmit_inv:
  "ixt_inv x \<Longrightarrow> ixt_counter (fst (ixt_retransmit x now)) \<noteq> 0 \<Longrightarrow> ixt_inv (fst (ixt_retransmit x now))"
  by (auto simp: ixt_inv_def ixt_retransmit_def ixt_next_interval_def Let_def timer_consts)

lemma ixt_retransmit_budget:
  "ixt_inv x \<Longrightarrow> int (length (snd (ixt_retransmit x now))) + ixt_counter (fst (ixt_retransmit x now)) \<le> ixt_counter x"
  by (simp add: ixt_retransmit_def Let_def split: option.split)

lemma retransmissions_loop_eq:
  "i \<le> length xs \<Longrightarrow> retransmissions_loop current i (of_elems xs) =
     (let ys = map (\<lambda>x. fst (ixt_retransmit x current)) (drop i xs)
      in Some (of_elems (take i xs @ filter (\<lambda>y. ixt_counter y \<noteq> 0) ys),
               concat (map (\<lambda>x. snd (ixt_retransmit x current)) (drop i xs)),
               concat (map ixt_free (filter (\<lambda>y. ixt_counter y = 0) ys))))"
proof (induction "length xs - i" arbitrary: i xs)
  case 0
  then show ?case by (subst retransmissions_loop.simps) simp
next
  case (Suc n)
  then have i: "i < length xs" by simp
  note d = drop_eq_nth_Cons [OF i]
  obtain x' out where x': "ixt_retransmit (xs ! i) current = (x', out)" by (cases "ixt_retransmit (xs ! i) current")
  let ?ys = "xs[i := x']"
  show ?case
  proof (cases "ixt_counter x' = 0")
    case True
    let ?zs = "take i xs @ drop (Suc i) xs"
    have r: "take i ?ys @ drop (Suc i) ?ys = ?zs" by simp
    have "retransmissions_loop current i (of_elems ?zs) =
      (let ys = map (\<lambda>x. fst (ixt_retransmit x current)) (drop i ?zs)
      in Some (of_elems (take i ?zs @ filter (\<lambda>y. ixt_counter y \<noteq> 0) ys),
               concat (map (\<lambda>x. snd (ixt_retransmit x current)) (drop i ?zs)),
               concat (map ixt_free (filter (\<lambda>y. ixt_counter y = 0) ys))))"
      using Suc.hyps(2) i by (intro Suc.hyps(1)) simp_all
    with True i d x' r show ?thesis
      by (subst retransmissions_loop.simps)
        (simp add: seq_get_nth of_elems_update osip_list_remove_nth Let_def del: drop_update_cancel take_update_cancel)
  next
    case False
    have "retransmissions_loop current (Suc i) (of_elems ?ys) =
      (let ys = map (\<lambda>x. fst (ixt_retransmit x current)) (drop (Suc i) ?ys)
      in Some (of_elems (take (Suc i) ?ys @ filter (\<lambda>y. ixt_counter y \<noteq> 0) ys),
               concat (map (\<lambda>x. snd (ixt_retransmit x current)) (drop (Suc i) ?ys)),
               concat (map ixt_free (filter (\<lambda>y. ixt_counter y = 0) ys))))"
      using Suc.hyps(2) i by (intro Suc.hyps(1)) simp_all
    with False i d x' show ?thesis
      by (subst retransmissions_loop.simps)
        (simp add: seq_get_nth of_elems_update Let_def take_Suc_conv_app_nth)
  qed
qed

definition attempts :: "osip \<Rightarrow> int" where
  "attempts osip = sum_list (map ixt_counter (list_abs (ixt_retransmissions osip)))"

definition ixts_inv :: "osip \<Rightarrow> bool" where
  "ixts_inv osip \<longleftrightarrow> list_inv (ixt_retransmissions osip) \<and> list_all ixt_inv (list_abs (ixt_retransmissions osip))"

lemma retransmit_list_budget:
  "list_all ixt_inv xs \<Longrightarrow>
   int (length (concat (map (\<lambda>x. snd (ixt_retransmit x now)) xs)))
     + sum_list (map ixt_counter (filter (\<lambda>y. ixt_counter y \<noteq> 0) (map (\<lambda>x. fst (ixt_retransmit x now)) xs)))
   \<le> sum_list (map ixt_counter xs)"
proof (induction xs)
  case (Cons x xs)
  with ixt_retransmit_budget [of x now] show ?case by (cases "ixt_counter (fst (ixt_retransmit x now)) = 0") simp_all
qed simp

lemma retransmit_list_inv:
  "list_all ixt_inv xs \<Longrightarrow>
   list_all ixt_inv (filter (\<lambda>y. ixt_counter y \<noteq> 0) (map (\<lambda>x. fst (ixt_retransmit x now)) xs))"
  by (induction xs) (simp_all add: ixt_retransmit_inv)

lemma retransmissions_execute_ok:
  assumes "ixts_inv osip"
  obtains l outs acts where
    "osip_retransmissions_execute now osip = Some (osip\<lparr>ixt_retransmissions := l\<rparr>, outs, acts)"
    "ixts_inv (osip\<lparr>ixt_retransmissions := l\<rparr>)"
    "int (length outs) + attempts (osip\<lparr>ixt_retransmissions := l\<rparr>) \<le> attempts osip"
proof -
  define xs where "xs = list_abs (ixt_retransmissions osip)"
  define ys where "ys = filter (\<lambda>y. ixt_counter y \<noteq> 0) (map (\<lambda>x. fst (ixt_retransmit x now)) xs)"
  have xs: "ixt_retransmissions osip = of_elems xs" "list_all ixt_inv xs"
    using assms list_inv_of_elems by (auto simp: ixts_inv_def xs_def)
  show thesis
  proof (rule that)
    show "osip_retransmissions_execute now osip = Some (osip\<lparr>ixt_retransmissions := of_elems ys\<rparr>,
        concat (map (\<lambda>x. snd (ixt_retransmit x now)) xs),
        concat (map ixt_free (filter (\<lambda>y. ixt_counter y = 0) (map (\<lambda>x. fst (ixt_retransmit x now)) xs))))"
      using retransmissions_loop_eq [of 0 xs now]
      by (simp add: osip_retransmissions_execute_def xs(1) ys_def Let_def)
    show "ixts_inv (osip\<lparr>ixt_retransmissions := of_elems ys\<rparr>)"
      using retransmit_list_inv [OF xs(2)] by (simp add: ixts_inv_def ys_def)
    show "int (length (concat (map (\<lambda>x. snd (ixt_retransmit x now)) xs)))
        + attempts (osip\<lparr>ixt_retransmissions := of_elems ys\<rparr>) \<le> attempts osip"
      using retransmit_list_budget [OF xs(2), of now] by (simp add: attempts_def ys_def xs(1))
  qed
qed

text \<open>Successive calls of \<open>osip_retransmissions_execute\<close> at the times \<open>nows\<close>.\<close>

fun retransmissions_run :: "timeval list \<Rightarrow> osip \<Rightarrow> (osip \<times> sent list) ub" where
  "retransmissions_run [] osip = Some (osip, [])"
| "retransmissions_run (now # nows) osip = do {
     (osip1, outs, acts) \<leftarrow> osip_retransmissions_execute now osip;
     (osip2, outs2) \<leftarrow> retransmissions_run nows osip1;
     Some (osip2, outs @ outs2)
   }"

lemma retransmissions_run_bound:
  "ixts_inv osip \<Longrightarrow>
   \<exists>osip' outs. retransmissions_run nows osip = Some (osip', outs) \<and> ixts_inv osip'
     \<and> int (length outs) + attempts osip' \<le> attempts osip"
proof (induction nows arbitrary: osip)
  case (Cons now nows)
  obtain l outs acts where l: "osip_retransmissions_execute now osip = Some (osip\<lparr>ixt_retransmissions := l\<rparr>, outs, acts)"
      "ixts_inv (osip\<lparr>ixt_retransmissions := l\<rparr>)"
      "int (length outs) + attempts (osip\<lparr>ixt_retransmissions := l\<rparr>) \<le> attempts osip"
    using retransmissions_execute_ok [OF Cons.prems] .
  from Cons.IH [OF l(2)] l(1,3) show ?case by fastforce
qed simp

lemma attempts_nonneg: "ixts_inv osip \<Longrightarrow> 0 \<le> attempts osip"
  unfolding attempts_def ixts_inv_def
  by (intro sum_list_nonneg) (auto simp: list_all_iff ixt_inv_def intro: less_imp_le)

lemma attempts_le: "ixts_inv osip \<Longrightarrow> attempts osip \<le> 10 * osip_list_size (Some (ixt_retransmissions osip))"
proof -
  assume "ixts_inv osip"
  then have l: "ixt_retransmissions osip = of_elems (list_abs (ixt_retransmissions osip))"
      "list_all ixt_inv (list_abs (ixt_retransmissions osip))"
    using list_inv_of_elems by (auto simp: ixts_inv_def)
  have "list_all ixt_inv xs \<Longrightarrow> sum_list (map ixt_counter xs) \<le> 10 * int (length xs)" for xs
    by (induction xs) (auto simp: ixt_inv_def)
  with l show ?thesis unfolding attempts_def by (metis osip_list_size_of_elems)
qed

section \<open>Starting and stopping keep the invariant\<close>

lemma osip_add_ixt_ok:
  assumes "ixts_inv osip" "ixt_inv x"
  shows "osip_add_ixt osip x =
      Some (osip\<lparr>ixt_retransmissions := of_elems (x # list_abs (ixt_retransmissions osip))\<rparr>)"
    "ixts_inv (osip\<lparr>ixt_retransmissions := of_elems (x # list_abs (ixt_retransmissions osip))\<rparr>)"
proof -
  obtain xs where xs: "ixt_retransmissions osip = of_elems xs" "list_all ixt_inv xs"
    using assms(1) list_inv_of_elems by (auto simp: ixts_inv_def)
  then show "osip_add_ixt osip x =
      Some (osip\<lparr>ixt_retransmissions := of_elems (x # list_abs (ixt_retransmissions osip))\<rparr>)"
    by (simp add: osip_add_ixt_def)
  show "ixts_inv (osip\<lparr>ixt_retransmissions := of_elems (x # list_abs (ixt_retransmissions osip))\<rparr>)"
    using xs assms(2) by (simp add: ixts_inv_def)
qed

lemma ixt_init_fields_inv: "ixt_inv ((ixt_init now)\<lparr>ixt_dialog := d, msg2xx := m, ixt_sock := s, ixt_dest := h, ixt_port := p\<rparr>)"
    "ixt_inv ((ixt_init now)\<lparr>ixt_dialog := d, ixt_ack := m, ixt_dest := h, ixt_port := p, ixt_sock := s\<rparr>)"
  using ixt_init_inv [of now] by (simp_all add: ixt_inv_def)

lemma start_200ok_ok:
  assumes "ixts_inv osip"
  shows "\<exists>x. osip_start_200ok_retransmissions now osip d (Some m) s =
      Some (osip\<lparr>ixt_retransmissions := of_elems (x # list_abs (ixt_retransmissions osip))\<rparr>)
    \<and> ixt_dialog x = d \<and> msg2xx x = snd (osip_message_clone (Some m))
    \<and> ixts_inv (osip\<lparr>ixt_retransmissions := of_elems (x # list_abs (ixt_retransmissions osip))\<rparr>)"
proof -
  obtain h p where hp: "osip_response_get_destination m = (h, p)" by (cases "osip_response_get_destination m")
  let ?x = "(ixt_init now)\<lparr>ixt_dialog := d, msg2xx := snd (osip_message_clone (Some m)), ixt_sock := s, ixt_dest := h, ixt_port := p\<rparr>"
  show ?thesis
    by (rule exI [of _ ?x])
      (simp add: osip_start_200ok_retransmissions_def hp osip_add_ixt_ok [OF assms] ixt_init_fields_inv)
qed

lemma start_ack_ok:
  assumes "ixts_inv osip"
  shows "\<exists>x. osip_start_ack_retransmissions now osip d ack h p s =
      Some (osip\<lparr>ixt_retransmissions := of_elems (x # list_abs (ixt_retransmissions osip))\<rparr>)
    \<and> ixts_inv (osip\<lparr>ixt_retransmissions := of_elems (x # list_abs (ixt_retransmissions osip))\<rparr>)"
  unfolding osip_start_ack_retransmissions_def
  using osip_add_ixt_ok [OF assms ixt_init_fields_inv(2)] by blast

lemma stop_dialog_ok:
  assumes "ixts_inv osip"
  shows "osip_stop_retransmissions_from_dialog osip d =
      Some (osip\<lparr>ixt_retransmissions := of_elems (filter (\<lambda>x. ixt_dialog x \<noteq> d) (list_abs (ixt_retransmissions osip)))\<rparr>,
            concat (map ixt_free (filter (\<lambda>x. ixt_dialog x = d) (list_abs (ixt_retransmissions osip)))))"
    "ixts_inv (osip\<lparr>ixt_retransmissions := of_elems (filter (\<lambda>x. ixt_dialog x \<noteq> d) (list_abs (ixt_retransmissions osip)))\<rparr>)"
proof -
  obtain xs where xs: "ixt_retransmissions osip = of_elems xs" "list_all ixt_inv xs"
    using assms(1) list_inv_of_elems by (auto simp: ixts_inv_def)
  then show "osip_stop_retransmissions_from_dialog osip d =
      Some (osip\<lparr>ixt_retransmissions := of_elems (filter (\<lambda>x. ixt_dialog x \<noteq> d) (list_abs (ixt_retransmissions osip)))\<rparr>,
            concat (map ixt_free (filter (\<lambda>x. ixt_dialog x = d) (list_abs (ixt_retransmissions osip)))))"
    using stop_dialog_loop_eq [of 0 xs d] by (simp add: osip_stop_retransmissions_from_dialog_def)
  show "ixts_inv (osip\<lparr>ixt_retransmissions := of_elems (filter (\<lambda>x. ixt_dialog x \<noteq> d) (list_abs (ixt_retransmissions osip)))\<rparr>)"
    using xs by (auto simp: ixts_inv_def list_all_iff)
qed

lemma stop_200ok_ok:
  assumes "ixts_inv osip" "msg_cseq ack = Some cs" "cseq_number cs = Some num"
    and "\<forall>x \<in> set (list_abs (ixt_retransmissions osip)). ixt_cseq_number x \<noteq> None \<longrightarrow> uas_match dlgs ack x \<noteq> None"
  shows "osip_stop_200ok_retransmissions dlgs osip (Some ack) =
    Some (case find (ack_answers dlgs ack num) (list_abs (ixt_retransmissions osip)) of
            None \<Rightarrow> (None, osip, [])
          | Some x \<Rightarrow> (ixt_dialog x, osip\<lparr>ixt_retransmissions :=
              of_elems (remove_first (ack_answers dlgs ack num) (list_abs (ixt_retransmissions osip)))\<rparr>, ixt_free x))"
proof -
  obtain xs where xs: "ixt_retransmissions osip = of_elems xs"
    using assms(1) list_inv_of_elems by (auto simp: ixts_inv_def)
  have "osip\<lparr>ixt_retransmissions := of_elems xs\<rparr> = osip" using xs by simp
  then show ?thesis
    using stop_200ok_loop_eq [of xs dlgs ack 0 num] assms(2-4) xs
    by (auto simp: osip_stop_200ok_retransmissions_def split: option.split)
qed

end
