(* ===== verification/Osip_Matching.thy ===== *)
theory Osip_Matching
  imports Osip_Manager_Inv
begin

text \<open>
  The matching rules of RFC 3261, sections 17.1.3 and 17.2.3, and their implementation by
  \<open>osip_transaction_matching_response\<close> and \<open>osip_transaction_matching_request\<close>.
\<close>

section \<open>Specification\<close>

definition branch_of :: "osip_via \<Rightarrow> string option" where
  "branch_of v = Option.bind (get_param (via_params v) ''branch'') gvalue"

definition effective_port :: "osip_via \<Rightarrow> string" where
  "effective_port v = (case via_port v of None \<Rightarrow> ''5060'' | Some p \<Rightarrow> p)"

text \<open>A branch made by an RFC 3261 element; the code compares the first seven characters.\<close>

definition has_cookie :: "osip_via \<Rightarrow> bool" where
  "has_cookie v = (case branch_of v of None \<Rightarrow> False | Some b \<Rightarrow> take 7 b = ''z9hG4bK'')"

definition rfc_response_match :: "osip_transaction \<Rightarrow> osip_message \<Rightarrow> bool" where
  "rfc_response_match t r =
     (case (topvia t, vias r, tr_cseq t, msg_cseq r) of
        (Some tv, v # _, Some c, Some c') \<Rightarrow>
          branch_of tv \<noteq> None \<and> branch_of v = branch_of tv \<and> cseq_method c' = cseq_method c
      | _ \<Rightarrow> False)"

definition rfc_request_match :: "osip_transaction \<Rightarrow> osip_message \<Rightarrow> bool" where
  "rfc_request_match t r =
     (case (topvia t, vias r, tr_cseq t, msg_cseq r) of
        (Some tv, v # _, Some c, Some c') \<Rightarrow>
          branch_of v = branch_of tv
          \<and> via_host v = via_host tv \<and> effective_port v = effective_port tv
          \<and> (cseq_method c' = cseq_method c
             \<or> cseq_method c = Some ''INVITE'' \<and> cseq_method c' = Some ''ACK'')
      | _ \<Rightarrow> False)"

text \<open>The rule for elements older than RFC 3261, as 17.2.3 takes it from RFC 2543: the same Call-ID,
  tags, CSeq and top Via.  An ACK may have a To tag the INVITE had not.  The code compares the
  printed Vias, and gives up before when only one of them has a branch or the branches differ in
  length.\<close>

definition branches_comparable :: "osip_via \<Rightarrow> osip_via \<Rightarrow> bool" where
  "branches_comparable v v' =
     (case (get_param (via_params v) ''branch'', get_param (via_params v') ''branch'') of
        (None, None) \<Rightarrow> True
      | (Some p, Some q) \<Rightarrow> (case (gvalue p, gvalue q) of (Some b, Some b') \<Rightarrow> length b = length b' | _ \<Rightarrow> False)
      | _ \<Rightarrow> False)"

definition old_request_match :: "osip_transaction \<Rightarrow> osip_message \<Rightarrow> bool" where
  "old_request_match t r =
     (case (topvia t, vias r) of
        (Some tv, v # _) \<Rightarrow>
          branches_comparable tv v
          \<and> osip_call_id_match (callid t) (msg_call_id r) = 0
          \<and> matching_request_to t r = Some True
          \<and> osip_from_tag_match (tr_from t) (msg_from r) = 0
          \<and> osip_cseq_match (tr_cseq t) (msg_cseq r) = 0
          \<and> osip_via_match (Some tv) (Some v) = 0
      | _ \<Rightarrow> False)"

definition both_rfc3261 :: "osip_transaction \<Rightarrow> osip_message \<Rightarrow> bool" where
  "both_rfc3261 t r =
     (case (topvia t, vias r) of (Some tv, v # _) \<Rightarrow> has_cookie tv \<and> has_cookie v | _ \<Rightarrow> False)"

definition request_match :: "osip_transaction \<Rightarrow> osip_message \<Rightarrow> bool" where
  "request_match t r = (if both_rfc3261 t r then rfc_request_match t r else old_request_match t r)"

section \<open>Responses\<close>

lemma transaction_keys:
  assumes "transaction_inv t"
  obtains tv c m where "topvia t = Some tv" "via_ok tv" "tr_cseq t = Some c" "cseq_method c = Some m"
  using assms by (auto simp: transaction_inv_def cseq_ok_def split: option.splits)

lemma client_context: "transaction_inv t \<Longrightarrow> is_client (ctx_type t) \<Longrightarrow> \<not> (ict_context t = Null \<and> nict_context t = Null)"
  using ict_context_Ptr [of t] nict_context_Ptr [of t] by (auto simp: is_client_def)

lemma server_context: "transaction_inv t \<Longrightarrow> \<not> is_client (ctx_type t) \<Longrightarrow> \<not> (ist_context t = Null \<and> nist_context t = Null)"
  using ist_context_Ptr [of t] nist_context_Ptr [of t] by (cases "ctx_type t") (auto simp: is_client_def)

lemma matching_response_rfc:
  assumes "transaction_inv t" "is_client (ctx_type t)" "msg_cseq r = Some c'" "cseq_method c' = Some m'"
  shows "\<exists>i. osip_transaction_matching_response (Some t) (Some r) = Some i \<and> (i = 0 \<longleftrightarrow> rfc_response_match t r)"
proof -
  obtain tv c m where k: "topvia t = Some tv" "tr_cseq t = Some c" "cseq_method c = Some m"
    using transaction_keys [OF assms(1)] by blast
  note ctx = client_context [OF assms(1,2)]
  show ?thesis
  proof (cases "vias r")
    case Nil
    with k ctx assms(3,4) show ?thesis
      by (auto simp: osip_transaction_matching_response_def rfc_response_match_def osip_err)
  next
    case (Cons v vs)
    show ?thesis
    proof (cases "get_param (via_params tv) ''branch''")
      case None
      with Cons k ctx assms(3,4) show ?thesis
        by (auto simp: osip_transaction_matching_response_def rfc_response_match_def branch_of_def osip_err)
    next
      case (Some b)
      with Cons k ctx assms(3,4) show ?thesis
        by (cases "get_param (via_params v) ''branch''"; cases "gvalue b")
          (auto simp: osip_transaction_matching_response_def rfc_response_match_def branch_of_def strcmp_eq_def osip_err
            split: option.split)
    qed
  qed
qed

section \<open>Requests\<close>

lemma sent_by_match_eq:
  "via_host tv \<noteq> None \<Longrightarrow>
   sent_by_match (Some v) (Some tv) \<longleftrightarrow> via_host v = via_host tv \<and> effective_port v = effective_port tv"
  by (auto simp: sent_by_match_def via_get_port_def via_get_host_def strcmp_eq_def effective_port_def Let_def
      split: option.splits)

lemma has_cookie_branch:
  "has_cookie v \<Longrightarrow> \<exists>p b. get_param (via_params v) ''branch'' = Some p \<and> gvalue p = Some b \<and> take 7 b = ''z9hG4bK'' \<and> branch_of v = Some b"
  by (auto simp: has_cookie_def branch_of_def bind_eq_Some_conv split: option.splits)

lemma matching_request_rfc:
  assumes "transaction_inv t" "\<not> is_client (ctx_type t)" "msg_cseq r = Some c'" "cseq_method c' = Some m'"
    and "vias r = v # vs" "has_cookie v" "topvia t = Some tv" "has_cookie tv"
  shows "\<exists>i. osip_transaction_matching_request (Some t) (Some r) = Some i \<and> (i = 0 \<longleftrightarrow> rfc_request_match t r)"
proof -
  obtain c m where k: "via_ok tv" "tr_cseq t = Some c" "cseq_method c = Some m"
    by (rule transaction_keys [OF assms(1)]) (use assms(7) in auto)
  obtain p b where b: "get_param (via_params v) ''branch'' = Some p" "gvalue p = Some b" "take 7 b = ''z9hG4bK''"
      "branch_of v = Some b" using has_cookie_branch [OF assms(6)] by blast
  obtain q d where d: "get_param (via_params tv) ''branch'' = Some q" "gvalue q = Some d" "take 7 d = ''z9hG4bK''"
      "branch_of tv = Some d" using has_cookie_branch [OF assms(8)] by blast
  have sb: "sent_by_match (Some v) (Some tv) \<longleftrightarrow> via_host v = via_host tv \<and> effective_port v = effective_port tv"
    using k(1) by (intro sent_by_match_eq) (simp add: via_ok_def)
  have cookie: "strncmp_eq d magic_cookie 7" "strncmp_eq b magic_cookie 7"
    using b(3) d(3) by (simp_all add: strncmp_eq_def magic_cookie_def)
  show ?thesis
    using server_context [OF assms(1,2)] assms(3,4,5,7) k b d sb cookie
    by (auto simp: osip_transaction_matching_request_def matching_request_compliant_def rfc_request_match_def
        strcmp_eq_def osip_err)
qed

lemma strncmp_cookie: "strncmp_eq b magic_cookie 7 \<longleftrightarrow> take 7 b = ''z9hG4bK''"
  by (simp add: strncmp_eq_def magic_cookie_def)

lemma matching_request_old_iff:
  assumes "matching_request_old t r v = Some i"
  shows "i = 0 \<longleftrightarrow> osip_call_id_match (callid t) (msg_call_id r) = 0 \<and> matching_request_to t r = Some True
    \<and> osip_from_tag_match (tr_from t) (msg_from r) = 0 \<and> osip_cseq_match (tr_cseq t) (msg_cseq r) = 0
    \<and> osip_via_match (topvia t) (Some v) = 0"
  using assms by (auto simp: matching_request_old_def osip_err bind_eq_Some_conv split: if_splits)

text \<open>Without two RFC 3261 branches the code takes the old rule, or refuses when the branches cannot be
  compared.\<close>

lemma matching_request_no_cookie:
  assumes "\<not> (ist_context t = Null \<and> nist_context t = Null)" "msg_cseq r = Some c'" "cseq_method c' = Some m'"
    and "vias r = v # vs" "topvia t = Some tv" "\<not> (has_cookie tv \<and> has_cookie v)"
  shows "if branches_comparable tv v
    then osip_transaction_matching_request (Some t) (Some r) = matching_request_old t r v
    else \<exists>i. osip_transaction_matching_request (Some t) (Some r) = Some i \<and> i \<noteq> 0"
proof -
  note simps = osip_transaction_matching_request_def branches_comparable_def osip_err
  show ?thesis
  proof (cases "get_param (via_params tv) ''branch''")
    case None
    then show ?thesis using assms(1-5)
      by (cases "get_param (via_params v) ''branch''") (auto simp: simps)
  next
    case p: (Some p)
    show ?thesis
    proof (cases "get_param (via_params v) ''branch''")
      case None
      with p assms(1-5) show ?thesis by (auto simp: simps)
    next
      case q: (Some q)
      have nc: "\<not> (strncmp_eq x magic_cookie 7 \<and> strncmp_eq y magic_cookie 7)"
        if "gvalue p = Some x" "gvalue q = Some y" for x y
        using assms(6) p q that by (simp add: has_cookie_def branch_of_def strncmp_cookie)
      show ?thesis using p q assms(1-5) nc
        by (cases "gvalue p"; cases "gvalue q") (auto simp: simps)
    qed
  qed
qed

lemma matching_request_iff:
  assumes "transaction_inv t" "\<not> is_client (ctx_type t)" "msg_cseq r = Some c'" "cseq_method c' = Some m'"
    and "sip_method r \<noteq> None" "msg_to r \<noteq> None"
  shows "\<exists>i. osip_transaction_matching_request (Some t) (Some r) = Some i \<and> (i = 0 \<longleftrightarrow> request_match t r)"
proof (cases "both_rfc3261 t r")
  case True
  then obtain tv v vs where "topvia t = Some tv" "vias r = v # vs" "has_cookie tv" "has_cookie v"
    by (auto simp: both_rfc3261_def split: option.splits list.splits)
  with matching_request_rfc [OF assms(1-4)] True show ?thesis by (simp add: request_match_def)
next
  case False
  obtain tv where tv: "topvia t = Some tv" using transaction_keys [OF assms(1)] by blast
  note ctx = server_context [OF assms(1,2)]
  obtain i where i: "osip_transaction_matching_request (Some t) (Some r) = Some i"
    using matching_request_total [OF assms(1) disjI1 [OF assms(5)] assms(6)] by blast
  have "i = 0 \<longleftrightarrow> old_request_match t r"
  proof (cases "vias r")
    case Nil
    have "i = OSIP_SYNTAXERROR" using i ctx Nil assms(3,4) by (auto simp: osip_transaction_matching_request_def)
    with Nil tv show ?thesis by (simp add: old_request_match_def osip_err)
  next
    case (Cons v vs)
    then have "\<not> (has_cookie tv \<and> has_cookie v)" using False tv by (simp add: both_rfc3261_def)
    note old = matching_request_no_cookie [OF ctx assms(3,4) Cons tv this]
    show ?thesis
    proof (cases "branches_comparable tv v")
      case True
      then have "matching_request_old t r v = Some i" using old i by simp
      from matching_request_old_iff [OF this] True Cons tv show ?thesis by (simp add: old_request_match_def)
    next
      case False
      with old i Cons tv show ?thesis by (simp add: old_request_match_def)
    qed
  qed
  with i False show ?thesis by (simp add: request_match_def)
qed

section \<open>Lookup\<close>

lemma find_cong_set: "(\<And>x. x \<in> set xs \<Longrightarrow> P x = Q x) \<Longrightarrow> find P xs = find Q xs"
  by (induction xs) simp_all

lemma find_transaction_eq:
  assumes "osip_inv osip" "lookup_ok e" "list_of e = Some ty"
  shows "osip_find_transaction osip (Some e) = Some (find (matches osip e) (addrs ty osip))"
  using find_consume_eq [OF assms, of False]
  by (simp add: osip_find_transaction_def split: option.splits)

lemma matches_response:
  assumes "osip_inv osip" "a \<in> set (addrs ty osip)" "is_client ty" "EVT_IS_INCOMINGRESP e" "ev_sip e = Some r"
    and "msg_cseq r = Some c'" "cseq_method c' = Some m'"
  shows "matches osip e a \<longleftrightarrow> rfc_response_match (the (mem osip a)) r"
proof -
  obtain t where t: "mem osip a = Some t" "transaction_inv t" "ctx_type t = ty"
    using osip_inv_entry [OF assms(1,2)] by blast
  have "\<not> EVT_IS_INCOMINGREQ e" using assms(4) by (auto simp: EVT_IS_INCOMINGRESP_def EVT_IS_INCOMINGREQ_def)
  with matching_response_rfc [OF t(2) _ assms(6,7)] t assms(3-5) show ?thesis
    by (auto simp: matches_def event_matches_def)
qed

definition cookie_topvia :: "osip \<Rightarrow> nat \<Rightarrow> bool" where
  "cookie_topvia osip a =
     (case mem osip a of None \<Rightarrow> False
      | Some t \<Rightarrow> (case topvia t of None \<Rightarrow> False | Some tv \<Rightarrow> has_cookie tv))"

lemma matches_request:
  assumes "osip_inv osip" "a \<in> set (addrs ty osip)" "\<not> is_client ty" "EVT_IS_INCOMINGREQ e" "ev_sip e = Some r"
    and "msg_cseq r = Some c'" "cseq_method c' = Some m'"
    and "vias r = v # vs" "has_cookie v" "cookie_topvia osip a"
  shows "matches osip e a \<longleftrightarrow> rfc_request_match (the (mem osip a)) r"
proof -
  obtain t where t: "mem osip a = Some t" "transaction_inv t" "ctx_type t = ty"
    using osip_inv_entry [OF assms(1,2)] by blast
  obtain tv where "topvia t = Some tv" "has_cookie tv"
    using assms(10) t(1) by (auto simp: cookie_topvia_def split: option.splits)
  with matching_request_rfc [OF t(2) _ assms(6-9)] t assms(3-5) show ?thesis
    by (auto simp: matches_def event_matches_def)
qed

lemma list_of_response:
  assumes "EVT_IS_INCOMINGRESP e" "ev_sip e = Some r" "status_code r \<noteq> 0" "msg_cseq r = Some c'" "cseq_method c' = Some m'"
  shows "list_of e = Some (if m' = ''INVITE'' then ICT else NICT)"
proof -
  have "EVT_IS_INCOMINGMSG e"
    using assms(1) by (auto simp: EVT_IS_INCOMINGRESP_def EVT_IS_INCOMINGMSG_def less_eq_type_t_def)
  with assms show ?thesis by (simp add: list_of_def event_list_def MSG_IS_REQUEST_def strcmp_eq_def)
qed

lemma list_of_request:
  assumes "EVT_IS_INCOMINGREQ e" "ev_sip e = Some r" "status_code r = 0" "msg_cseq r = Some c'" "cseq_method c' = Some m'"
  shows "list_of e = Some (if m' = ''INVITE'' \<or> m' = ''ACK'' then IST else NIST)"
proof -
  have "EVT_IS_INCOMINGMSG e"
    using assms(1) by (auto simp: EVT_IS_INCOMINGREQ_def EVT_IS_INCOMINGMSG_def less_eq_type_t_def)
  with assms show ?thesis by (simp add: list_of_def event_list_def MSG_IS_REQUEST_def strcmp_eq_def)
qed

lemma find_response:
  assumes "osip_inv osip" "EVT_IS_INCOMINGRESP e" "ev_sip e = Some r" "status_code r \<noteq> 0"
    and "msg_to r \<noteq> None" "msg_cseq r = Some c'" "cseq_method c' = Some m'"
  shows "osip_find_transaction osip (Some e) =
    Some (find (\<lambda>a. rfc_response_match (the (mem osip a)) r) (addrs (if m' = ''INVITE'' then ICT else NICT) osip))"
proof -
  let ?ty = "if m' = ''INVITE'' then ICT else NICT"
  have "lookup_ok e" using assms by (simp add: lookup_ok_def)
  from find_transaction_eq [OF assms(1) this list_of_response [OF assms(2-4,6,7)]]
  have "osip_find_transaction osip (Some e) = Some (find (matches osip e) (addrs ?ty osip))" .
  moreover have "find (matches osip e) (addrs ?ty osip) = find (\<lambda>a. rfc_response_match (the (mem osip a)) r) (addrs ?ty osip)"
    using matches_response [OF assms(1) _ _ assms(2,3,6,7), of _ ?ty]
    by (intro find_cong_set) (auto simp: is_client_def)
  ultimately show ?thesis by simp
qed

lemma find_request:
  assumes "osip_inv osip" "EVT_IS_INCOMINGREQ e" "ev_sip e = Some r" "status_code r = 0" "sip_method r \<noteq> None"
    and "msg_to r \<noteq> None" "msg_cseq r = Some c'" "cseq_method c' = Some m'" "vias r = v # vs" "has_cookie v"
    and "\<forall>a \<in> set (addrs (if m' = ''INVITE'' \<or> m' = ''ACK'' then IST else NIST) osip). cookie_topvia osip a"
  shows "osip_find_transaction osip (Some e) =
    Some (find (\<lambda>a. rfc_request_match (the (mem osip a)) r)
               (addrs (if m' = ''INVITE'' \<or> m' = ''ACK'' then IST else NIST) osip))"
proof -
  let ?ty = "if m' = ''INVITE'' \<or> m' = ''ACK'' then IST else NIST"
  have "lookup_ok e" using assms by (simp add: lookup_ok_def)
  from find_transaction_eq [OF assms(1) this list_of_request [OF assms(2-4,7,8)]]
  have "osip_find_transaction osip (Some e) = Some (find (matches osip e) (addrs ?ty osip))" .
  moreover have "find (matches osip e) (addrs ?ty osip) = find (\<lambda>a. rfc_request_match (the (mem osip a)) r) (addrs ?ty osip)"
    using matches_request [OF assms(1) _ _ assms(2,3,7-10), of _ ?ty] assms(11)
    by (intro find_cong_set) (auto simp: is_client_def)
  ultimately show ?thesis by simp
qed

text \<open>The same for all branches, of the request and of the transactions.\<close>

lemma matches_any_request:
  assumes "osip_inv osip" "a \<in> set (addrs ty osip)" "\<not> is_client ty" "EVT_IS_INCOMINGREQ e" "ev_sip e = Some r"
    and "msg_cseq r = Some c'" "cseq_method c' = Some m'" "sip_method r \<noteq> None" "msg_to r \<noteq> None"
  shows "matches osip e a \<longleftrightarrow> request_match (the (mem osip a)) r"
proof -
  obtain t where t: "mem osip a = Some t" "transaction_inv t" "ctx_type t = ty"
    using osip_inv_entry [OF assms(1,2)] by blast
  with matching_request_iff [OF t(2) _ assms(6-9)] assms(3-5) show ?thesis
    by (auto simp: matches_def event_matches_def)
qed

lemma find_any_request:
  assumes "osip_inv osip" "EVT_IS_INCOMINGREQ e" "ev_sip e = Some r" "status_code r = 0" "sip_method r \<noteq> None"
    and "msg_to r \<noteq> None" "msg_cseq r = Some c'" "cseq_method c' = Some m'"
  shows "osip_find_transaction osip (Some e) =
    Some (find (\<lambda>a. request_match (the (mem osip a)) r)
               (addrs (if m' = ''INVITE'' \<or> m' = ''ACK'' then IST else NIST) osip))"
proof -
  let ?ty = "if m' = ''INVITE'' \<or> m' = ''ACK'' then IST else NIST"
  have "lookup_ok e" using assms by (simp add: lookup_ok_def)
  from find_transaction_eq [OF assms(1) this list_of_request [OF assms(2-4,7,8)]]
  have "osip_find_transaction osip (Some e) = Some (find (matches osip e) (addrs ?ty osip))" .
  moreover have "find (matches osip e) (addrs ?ty osip) = find (\<lambda>a. request_match (the (mem osip a)) r) (addrs ?ty osip)"
    using matches_any_request [OF assms(1) _ _ assms(2,3,7,8,5,6), of _ ?ty]
    by (intro find_cong_set) (auto simp: is_client_def)
  ultimately show ?thesis by simp
qed

end
