(* ===== verification/Osip_Api.thy ===== *)
theory Osip_Api
  imports Osip_Ixt_Inv Osip_Matching
begin

text \<open>
  The stack as its clients see it: the calls of the API as the steps of a transition system, the
  states they reach from \<open>osip_init\<close>, and the invariant of those states.  A step is one call under
  its precondition, with what its callbacks remove from the lists.  Calls of several threads are
  steps one after the other: the calls that change the lists run under the mutex of the list, but an
  execution of events releases it before it works on the transactions, so that a step stands for
  calls that do not overlap on one transaction.  The event queue, which threads do use at the same
  time, is treated at the granularity of its semaphore and mutex in \<open>Osip_Fifo\<close>.
\<close>

section \<open>Calls\<close>

datatype transaction_setter =
  YourInstance "nat option"
| Reserved1 "nat option" | Reserved2 "nat option" | Reserved3 "nat option"
| Reserved4 "nat option" | Reserved5 "nat option" | Reserved6 "nat option"
| SrvRecord osip_srv_record
| NaptrRecord "nat option"
| InSocket int
| OutSocket int
| IctDestination "string option" int
| NictDestination "string option" int

datatype api_call =
  InitTransaction osip_cfg osip_fsm_type_t osip_message
| CreateTransaction osip_cfg osip_event
| FindAndAddEvent osip_event
| AddEvent nat osip_event
| ExecuteEvent osip_cfg nat osip_event "nat list"
| SetTransaction nat transaction_setter
| Execute osip_fsm_type_t "nat \<Rightarrow> osip_cfg" "nat \<Rightarrow> nat list"
| TimersExecute osip_fsm_type_t "nat \<Rightarrow> timeval"
| RemoveTransaction nat
| FreeTransaction nat
| FreeRemoved nat
| Start200ok timeval "nat option" osip_message int
| StartAck timeval "nat option" "osip_message option" "string option" int int
| Stop200ok "nat \<Rightarrow> osip_dialog option" "osip_message option"
| StopDialog "nat option"
| Retransmit timeval

definition timers_execute :: "osip_fsm_type_t \<Rightarrow> (nat \<Rightarrow> timeval) \<Rightarrow> osip \<Rightarrow> osip ub" where
  "timers_execute ty =
     (case ty of ICT \<Rightarrow> osip_timers_ict_execute | IST \<Rightarrow> osip_timers_ist_execute
      | NICT \<Rightarrow> osip_timers_nict_execute | NIST \<Rightarrow> osip_timers_nist_execute)"

definition execute ::
    "osip_fsm_type_t \<Rightarrow> (nat \<Rightarrow> osip_cfg) \<Rightarrow> (nat \<Rightarrow> nat list) \<Rightarrow> osip \<Rightarrow> (int \<times> osip \<times> action list) ub" where
  "execute ty =
     (case ty of ICT \<Rightarrow> osip_ict_execute | IST \<Rightarrow> osip_ist_execute
      | NICT \<Rightarrow> osip_nict_execute | NIST \<Rightarrow> osip_nist_execute)"

text \<open>The setters of a transaction; the last two are given the context of the transaction, which
  they check for NULL.\<close>

fun set_transaction :: "transaction_setter \<Rightarrow> osip_transaction option \<Rightarrow> (int \<times> osip_transaction option) ub" where
  "set_transaction (YourInstance p) tr = Some (osip_transaction_set_your_instance tr p)"
| "set_transaction (Reserved1 p) tr = Some (osip_transaction_set_reserved1 tr p)"
| "set_transaction (Reserved2 p) tr = Some (osip_transaction_set_reserved2 tr p)"
| "set_transaction (Reserved3 p) tr = Some (osip_transaction_set_reserved3 tr p)"
| "set_transaction (Reserved4 p) tr = Some (osip_transaction_set_reserved4 tr p)"
| "set_transaction (Reserved5 p) tr = Some (osip_transaction_set_reserved5 tr p)"
| "set_transaction (Reserved6 p) tr = Some (osip_transaction_set_reserved6 tr p)"
| "set_transaction (SrvRecord r) tr = osip_transaction_set_srv_record tr (Some r)"
| "set_transaction (NaptrRecord r) tr = Some (osip_transaction_set_naptr_record tr r)"
| "set_transaction (InSocket s) tr = Some (osip_transaction_set_in_socket tr s)"
| "set_transaction (OutSocket s) tr = Some (osip_transaction_set_out_socket tr s)"
| "set_transaction (IctDestination d p) tr = do {
     t \<leftarrow> deref tr;
     (case ict_context t of
        Null \<Rightarrow> Some (OSIP_BADPARAMETER, tr)
      | Ptr c \<Rightarrow> Some (OSIP_SUCCESS, Some (t\<lparr>ict_context := Ptr (osip_ict_set_destination c d p)\<rparr>))
      | Dangling \<Rightarrow> None)
   }"
| "set_transaction (NictDestination d p) tr = do {
     t \<leftarrow> deref tr;
     (case nict_context t of
        Null \<Rightarrow> Some (OSIP_BADPARAMETER, tr)
      | Ptr c \<Rightarrow> Some (OSIP_SUCCESS, Some (t\<lparr>nict_context := Ptr (osip_nict_set_destination c d p)\<rparr>))
      | Dangling \<Rightarrow> None)
   }"

fun api_exec :: "api_call \<Rightarrow> osip \<Rightarrow> osip ub" where
  "api_exec (InitTransaction cfg ty m) osip =
     do { (r, a, osip') \<leftarrow> osip_transaction_init cfg osip ty (Some m); Some osip' }"
| "api_exec (AddEvent a e) osip =
     do { (r, t) \<leftarrow> osip_transaction_add_event (mem osip a) (Some e); Some (osip\<lparr>mem := (mem osip)(a := t)\<rparr>) }"
| "api_exec (ExecuteEvent cfg a e rm) osip = do {
     t \<leftarrow> deref (mem osip a);
     (r, t', acts) \<leftarrow> osip_transaction_execute cfg t e;
     callbacks_remove rm (osip\<lparr>mem := (mem osip)(a := Some t')\<rparr>)
   }"
| "api_exec (SetTransaction a s) osip =
     do { (r, t) \<leftarrow> set_transaction s (mem osip a); Some (osip\<lparr>mem := (mem osip)(a := t)\<rparr>) }"
| "api_exec (Stop200ok dlgs ack) osip =
     do { (d, osip', acts) \<leftarrow> osip_stop_200ok_retransmissions dlgs osip ack; Some osip' }"
| "api_exec (CreateTransaction cfg e) osip =
     do { (a, e', osip') \<leftarrow> osip_create_transaction cfg osip (Some e); Some osip' }"
| "api_exec (FindAndAddEvent e) osip =
     do { (r, osip') \<leftarrow> osip_find_transaction_and_add_event osip (Some e); Some osip' }"
| "api_exec (Execute ty env rm) osip = do { (r, osip', acts) \<leftarrow> execute ty env rm osip; Some osip' }"
| "api_exec (TimersExecute ty clk) osip = timers_execute ty clk osip"
| "api_exec (RemoveTransaction a) osip = do { (r, osip') \<leftarrow> osip_remove_transaction osip (Some a); Some osip' }"
| "api_exec (FreeTransaction a) osip = do { (r, osip', acts) \<leftarrow> osip_transaction_free osip (Some a); Some osip' }"
| "api_exec (FreeRemoved a) osip =
     do { (r, acts) \<leftarrow> osip_transaction_free2 (mem osip a); Some (osip\<lparr>mem := (mem osip)(a := None)\<rparr>) }"
| "api_exec (Start200ok now d m s) osip = osip_start_200ok_retransmissions now osip d (Some m) s"
| "api_exec (StartAck now d m h p s) osip = osip_start_ack_retransmissions now osip d m h p s"
| "api_exec (StopDialog d) osip = do { (osip', acts) \<leftarrow> osip_stop_retransmissions_from_dialog osip d; Some osip' }"
| "api_exec (Retransmit now) osip = do { (osip', outs, acts) \<leftarrow> osip_retransmissions_execute now osip; Some osip' }"

text \<open>What \<open>osip_parse\<close> and \<open>osip_new_outgoing_sipmessage\<close> check of the events they make: a request
  has a method and a request URI.\<close>

definition event_checked :: "osip_event \<Rightarrow> bool" where
  "event_checked e \<longleftrightarrow> event_ok e
     \<and> opt_all (\<lambda>m. status_code m = 0 \<longrightarrow> sip_method m \<noteq> None \<and> req_uri m \<noteq> None) (ev_sip e)"

text \<open>The From tag of an ACK has a value, and the dialogs of the pending retransmissions have not been
  freed, as \<open>osip_stop_200ok_retransmissions\<close> needs.\<close>

definition from_tag_ok :: "osip_message \<Rightarrow> bool" where
  "from_tag_ok m = opt_all (\<lambda>f. opt_all (\<lambda>p. gvalue p \<noteq> None) (snd (get_tag f))) (msg_from m)"

definition dialogs_live :: "(nat \<Rightarrow> osip_dialog option) \<Rightarrow> osip \<Rightarrow> bool" where
  "dialogs_live dlgs osip =
     list_all (\<lambda>x. opt_all (\<lambda>d. dlgs d \<noteq> None) (ixt_dialog x)) (list_abs (ixt_retransmissions osip))"

fun api_pre :: "api_call \<Rightarrow> osip \<Rightarrow> bool" where
  "api_pre (InitTransaction cfg ty m) osip = (req_uri m \<noteq> None \<and> osip_transactionid osip < INT_MAX)"
| "api_pre (CreateTransaction cfg e) osip = (event_checked e \<and> osip_transactionid osip < INT_MAX)"
| "api_pre (FindAndAddEvent e) osip = (event_checked e \<and> lookup_ok e)"
| "api_pre (AddEvent a e) osip = (mem osip a \<noteq> None \<and> event_ok e)"
| "api_pre (ExecuteEvent cfg a e rm) osip =
     (mem osip a \<noteq> None \<and> event_ok e \<and> list_all (\<lambda>b. mem osip b \<noteq> None) rm)"
| "api_pre (SetTransaction a s) osip = (mem osip a \<noteq> None)"
| "api_pre (Execute ty env rm) osip = (\<forall>k. \<forall>b \<in> set (rm k). mem osip b \<noteq> None)"
| "api_pre (RemoveTransaction a) osip = (mem osip a \<noteq> None)"
| "api_pre (FreeTransaction a) osip = (mem osip a \<noteq> None)"
| "api_pre (FreeRemoved a) osip = (a \<notin> set (all_addrs osip) \<and> mem osip a \<noteq> None)"
| "api_pre (Stop200ok dlgs ack) osip = (opt_all from_tag_ok ack \<and> dialogs_live dlgs osip)"
| "api_pre c osip = True"

inductive api_step :: "osip \<Rightarrow> api_call \<Rightarrow> osip \<Rightarrow> bool" where
  call: "api_pre c osip \<Longrightarrow> api_exec c osip = Some osip' \<Longrightarrow> api_step osip c osip'"

inductive_simps api_step_iff: "api_step osip c osip'"

inductive reachable :: "osip \<Rightarrow> bool" where
  init: "reachable osip_init"
| step: "reachable osip \<Longrightarrow> api_step osip c osip' \<Longrightarrow> reachable osip'"

section \<open>Invariant\<close>

text \<open>The lists of the manager and of the retransmissions are sound, and every transaction in memory,
  listed or removed, is sound.\<close>

definition stack_inv :: "osip \<Rightarrow> bool" where
  "stack_inv osip \<longleftrightarrow> manager_inv osip \<and> ixts_inv osip"

lemma osip_init_ixt [simp]: "ixt_retransmissions osip_init = \<lparr>nb_elt = 0, node = []\<rparr>" "mem osip_init a = None"
  by (simp_all add: osip_init_def)

lemma stack_inv_init: "stack_inv osip_init"
  by (simp add: stack_inv_def manager_inv_def osip_init_inv ixts_inv_def of_elems_Nil inj_on_def dom_def)

lemma stack_osip: "stack_inv osip \<Longrightarrow> osip_inv osip"
  by (simp add: stack_inv_def manager_inv_def)

text \<open>A pass of the timers changes the store and nothing else.\<close>

lemma timers_pass_mem:
  "timers_pass f clk k as osip = Some osip' \<Longrightarrow> osip' = osip\<lparr>mem := mem osip'\<rparr>"
  by (induction as arbitrary: k osip) (fastforce simp: bind_eq_Some_conv)+

lemma stack_inv_stored:
  assumes "stack_inv osip" "mem osip a = Some t"
    and "transaction_inv t'" "ctx_type t' = ctx_type t" "transactionid t' = transactionid t"
    and "list_all event_ok (queue_of t')"
  shows "stack_inv (stored osip a t')"
  using assms stored_manager [of osip a t t'] by (simp add: stack_inv_def ixts_inv_def)

section \<open>Creation\<close>

text \<open>Which list a new transaction goes to.\<close>

definition kind_of_event :: "osip_event \<Rightarrow> osip_message \<Rightarrow> osip_fsm_type_t" where
  "kind_of_event e m =
     (if EVT_IS_INCOMINGREQ e then (if sip_method m = Some ''INVITE'' then IST else NIST)
      else (if sip_method m = Some ''INVITE'' then ICT else NICT))"

definition creates :: "osip_event \<Rightarrow> osip_message \<Rightarrow> bool" where
  "creates e m \<longleftrightarrow> (EVT_IS_INCOMINGREQ e \<or> EVT_IS_OUTGOINGREQ e) \<and> sip_method m \<noteq> Some ''ACK''
     \<and> (case msg_cseq m of None \<Rightarrow> False | Some cs \<Rightarrow> cseq_method cs = sip_method m)"

lemma event_request:
  assumes "event_ok e" "ev_sip e = Some m"
  shows "EVT_IS_INCOMINGREQ e \<or> EVT_IS_OUTGOINGREQ e \<longleftrightarrow> status_code m = 0"
proof -
  have "EVT_IS_MSG e" using assms by (auto simp: event_ok_def split: if_splits)
  then have "ev_type e = msg_class True m \<or> ev_type e = msg_class False m"
    using assms by (auto simp: event_ok_def)
  then show ?thesis
    by (auto simp: EVT_IS_INCOMINGREQ_def EVT_IS_OUTGOINGREQ_def split: if_splits)
qed

lemma create_transaction_eq:
  assumes "event_checked e" "ev_sip e = Some m"
  shows "osip_create_transaction cfg osip (Some e) =
    (if creates e m then do {
       (i, a, osip1) \<leftarrow> osip_transaction_init cfg osip (kind_of_event e m) (Some m);
       if i \<noteq> 0 then Some (None, Some e, osip1)
       else do {
         addr \<leftarrow> deref a;
         t \<leftarrow> deref (mem osip1 addr);
         Some (a, Some (e\<lparr>ev_transactionid := transactionid t\<rparr>), osip1)
       }
     }
     else Some (None, Some e, osip))"
proof -
  have ok: "event_ok e" "status_code m = 0 \<longrightarrow> sip_method m \<noteq> None"
    using assms by (auto simp: event_checked_def)
  note req = event_request [OF ok(1) assms(2)]
  show ?thesis
  proof (cases "status_code m = 0")
    case True
    then obtain meth where m: "sip_method m = Some meth" using ok(2) by auto
    show ?thesis
    proof (cases "msg_cseq m")
      case None
      with True assms(2) show ?thesis by (simp add: osip_create_transaction_def MSG_IS_REQUEST_def creates_def)
    next
      case (Some cs)
      show ?thesis
      proof (cases "cseq_method cs = Some meth")
        case False
        with True Some m assms(2) show ?thesis
          by (auto simp: osip_create_transaction_def MSG_IS_REQUEST_def creates_def strcmp_eq_def)
      next
        case cm: True
        show ?thesis
          using True Some m cm assms(2) req
          by (simp add: osip_create_transaction_def MSG_IS_REQUEST_def creates_def strcmp_eq_def kind_of_event_def)
      qed
    qed
  next
    case False
    then have "\<not> EVT_IS_INCOMINGREQ e" "\<not> EVT_IS_OUTGOINGREQ e" using req by auto
    with False assms(2) show ?thesis
      by (simp add: osip_create_transaction_def MSG_IS_REQUEST_def MSG_IS_METHOD_def creates_def)
  qed
qed

text \<open>Creation always returns: either a new listed transaction in its initial state, or nothing.\<close>

lemma create_transaction_cases:
  assumes "osip_inv osip" "osip_transactionid osip < INT_MAX" "event_checked e" "ev_sip e = Some m"
  obtains
    (created) t where "creates e m" "init_ok m" "fresh_of (kind_of_event e m) (osip_transactionid osip) m t"
      "osip_create_transaction cfg osip (Some e) =
         Some (Some (next_addr osip), Some (e\<lparr>ev_transactionid := osip_transactionid osip\<rparr>),
               inserted osip (kind_of_event e m) t)"
  | (rejected) osip' where "\<not> (creates e m \<and> init_ok m)"
      "osip_create_transaction cfg osip (Some e) = Some (None, Some e, osip')"
      "osip' = osip \<or> osip' = osip\<lparr>osip_transactionid := osip_transactionid osip + 1, next_addr := Suc (next_addr osip)\<rparr>"
proof (cases "creates e m")
  case False
  then show thesis using rejected create_transaction_eq [OF assms(3,4), of cfg osip] by simp
next
  case c: True
  have ok: "event_ok e" using assms(3) by (simp add: event_checked_def)
  have "status_code m = 0" using c event_request [OF ok assms(4)] by (simp add: creates_def)
  then have "req_uri m \<noteq> None" using assms(3,4) by (simp add: event_checked_def)
  then have dest: "request_destination m \<noteq> None" using request_destination_defined [of m] by auto
  show thesis
  proof (cases "init_ok m")
    case True
    obtain t where t: "fresh_of (kind_of_event e m) (osip_transactionid osip) m t"
        "osip_transaction_init cfg osip (kind_of_event e m) (Some m) =
          Some (OSIP_SUCCESS, Some (next_addr osip), inserted osip (kind_of_event e m) t)"
      using transaction_init_ok [OF assms(1,2) True] dest by metis
    have "transactionid t = osip_transactionid osip" using t(1) by (simp add: fresh_of_def)
    then show thesis
      using created [OF c True t(1)] create_transaction_eq [OF assms(3,4), of cfg osip] c t(2)
      by (simp add: osip_err)
  next
    case False
    obtain i osip' where "osip_transaction_init cfg osip (kind_of_event e m) (Some m) = Some (i, None, osip')" "i \<noteq> 0"
        "osip' = osip \<or> osip' = osip\<lparr>osip_transactionid := osip_transactionid osip + 1, next_addr := Suc (next_addr osip)\<rparr>"
      using transaction_init_bad [OF assms(1,2) False] by metis
    then show thesis
      using rejected [of osip'] create_transaction_eq [OF assms(3,4), of cfg osip] c False by simp
  qed
qed

section \<open>Every call returns and keeps the invariant\<close>

definition call_ok :: "api_call \<Rightarrow> osip \<Rightarrow> bool" where
  "call_ok c osip = (case api_exec c osip of None \<Rightarrow> False | Some osip' \<Rightarrow> stack_inv osip')"

lemma inserted_ixt [simp]: "ixt_retransmissions (inserted osip ty t) = ixt_retransmissions osip"
  by (simp add: inserted_def)

lemma inserted_stack:
  "stack_inv osip \<Longrightarrow> fresh_of ty (osip_transactionid osip) m t \<Longrightarrow> stack_inv (inserted osip ty t)"
  using inserted_manager by (simp add: stack_inv_def ixts_inv_def)

lemma burnt_stack:
  assumes "stack_inv osip" "osip' = osip \<or> osip' =
    osip\<lparr>osip_transactionid := osip_transactionid osip + 1, next_addr := Suc (next_addr osip)\<rparr>"
  shows "stack_inv osip'"
  using assms burnt_manager by (auto simp: stack_inv_def ixts_inv_def)

lemma create_call_ok:
  assumes "stack_inv osip" "api_pre (CreateTransaction cfg e) osip"
  shows "call_ok (CreateTransaction cfg e) osip"
proof (cases "ev_sip e")
  case None
  then show ?thesis using assms(1) by (simp add: call_ok_def osip_create_transaction_def)
next
  case (Some m)
  have pre: "osip_transactionid osip < INT_MAX" "event_checked e" using assms(2) by simp_all
  show ?thesis
  proof (rule create_transaction_cases [OF stack_osip [OF assms(1)] pre Some, of cfg], goal_cases)
    case created: (1 t)
    with inserted_stack [OF assms(1) created(3)] show ?thesis by (simp add: call_ok_def)
  next
    case rejected: (2 osip')
    with burnt_stack [OF assms(1) rejected(3)] show ?thesis by (simp add: call_ok_def)
  qed
qed

lemma init_call_ok:
  assumes "stack_inv osip" "api_pre (InitTransaction cfg ty m) osip"
  shows "call_ok (InitTransaction cfg ty m) osip"
proof (cases "init_ok m")
  case True
  have "request_destination m \<noteq> None" using assms(2) request_destination_defined [of m] by auto
  then obtain t where "fresh_of ty (osip_transactionid osip) m t"
      "osip_transaction_init cfg osip ty (Some m) = Some (OSIP_SUCCESS, Some (next_addr osip), inserted osip ty t)"
    using transaction_init_ok [OF stack_osip [OF assms(1)] _ True] assms(2) by (metis api_pre.simps(1))
  with inserted_stack [OF assms(1)] show ?thesis by (simp add: call_ok_def)
next
  case False
  obtain i osip' where "osip_transaction_init cfg osip ty (Some m) = Some (i, None, osip')"
      "osip' = osip \<or> osip' = osip\<lparr>osip_transactionid := osip_transactionid osip + 1, next_addr := Suc (next_addr osip)\<rparr>"
    using transaction_init_bad [OF stack_osip [OF assms(1)] _ False] assms(2) by (metis api_pre.simps(1))
  with burnt_stack [OF assms(1)] show ?thesis by (simp add: call_ok_def)
qed

lemma lookup_list:
  assumes "lookup_ok e" "event_ok e"
  shows "\<exists>ty. list_of e = Some ty"
proof -
  obtain m cs meth where m: "ev_sip e = Some m" "msg_cseq m = Some cs" "cseq_method cs = Some meth"
    using assms(1) by (auto simp: lookup_ok_def split: option.splits)
  have "EVT_IS_MSG e" using assms(2) m(1) by (auto simp: event_ok_def split: if_splits)
  then have "EVT_IS_INCOMINGMSG e \<or> EVT_IS_OUTGOINGMSG e" by (simp add: EVT_IS_MSG_iff)
  with m show ?thesis by (auto simp: list_of_def event_list_def)
qed

lemma add_call_ok:
  assumes "stack_inv osip" "api_pre (AddEvent a e) osip"
  shows "call_ok (AddEvent a e) osip"
proof -
  obtain t where t: "mem osip a = Some t" using assms(2) by auto
  note l = manager_live [of osip a t] 
  have inv: "manager_inv osip" using assms(1) by (simp add: stack_inv_def)
  obtain q where q: "osip_transaction_add_event (Some t) (Some e) = Some (OSIP_SUCCESS, Some (t\<lparr>transactionff := Some q\<rparr>))"
      "fifo_inv q" "fifo_elems q = queue_of t @ [e\<lparr>ev_transactionid := transactionid t\<rparr>]"
    using add_event_ok [OF l(1) [OF inv t]] .
  have "stack_inv (stored osip a (t\<lparr>transactionff := Some q\<rparr>))"
    using transaction_inv_fifo [OF l(1) [OF inv t] q(2)] l(3) [OF inv t] q(3) assms(2)
    by (intro stack_inv_stored [OF assms(1) t]) (simp_all add: queue_of_def)
  with q(1) t show ?thesis by (simp add: call_ok_def stored_def)
qed

lemma find_call_ok:
  assumes "stack_inv osip" "api_pre (FindAndAddEvent e) osip"
  shows "call_ok (FindAndAddEvent e) osip"
proof -
  have inv: "manager_inv osip" "osip_inv osip" using assms(1) by (simp_all add: stack_inv_def manager_inv_def)
  have pre: "lookup_ok e" "event_ok e" using assms(2) by (simp_all add: event_checked_def)
  obtain ty where ty: "list_of e = Some ty" using lookup_list [OF pre] by blast
  show ?thesis
  proof (cases "find (matches osip e) (addrs ty osip)")
    case None
    then show ?thesis
      using find_consume_eq [OF inv(2) pre(1) ty, of True] assms(1)
      by (simp add: call_ok_def osip_find_transaction_and_add_event_def)
  next
    case (Some a)
    obtain t q where tq: "mem osip a = Some t" "osip_find_transaction_and_add_event osip (Some e) =
          Some (OSIP_SUCCESS, stored osip a (t\<lparr>transactionff := Some q\<rparr>))" "fifo_inv q"
        "fifo_elems q = queue_of t @ [e\<lparr>ev_transactionid := transactionid t\<rparr>]"
      using find_add_event [OF inv(2) pre ty Some] by metis
    note l = manager_live [OF inv(1) tq(1)]
    have "stack_inv (stored osip a (t\<lparr>transactionff := Some q\<rparr>))"
      using transaction_inv_fifo [OF l(1) tq(3)] l(3) tq(4) pre(2)
      by (intro stack_inv_stored [OF assms(1) tq(1)]) (simp_all add: queue_of_def)
    with tq show ?thesis by (simp add: call_ok_def)
  qed
qed

text \<open>Executing one event, and the setters.\<close>

lemma execute_event_call_ok:
  assumes "stack_inv osip" "api_pre (ExecuteEvent cfg a e rm) osip"
  shows "call_ok (ExecuteEvent cfg a e rm) osip"
proof -
  have inv: "manager_inv osip" using assms(1) by (simp add: stack_inv_def)
  obtain t where t: "mem osip a = Some t" and e: "event_ok e" and rm: "\<forall>b \<in> set rm. mem osip b \<noteq> None"
    using assms(2) by (auto simp: list_all_iff)
  note l = manager_live [OF inv t]
  obtain r t' acts where x: "osip_transaction_execute cfg t e = Some (r, t', acts)"
    using execute_step [OF l(1) e] by blast
  note q = execute_queue [OF l(1) e x]
  have i: "manager_inv (stored osip a t')" using q l(3) by (intro stored_manager [OF inv t]) simp_all
  have "\<forall>b \<in> set rm. mem (stored osip a t') b \<noteq> None" using rm by simp
  then obtain osip' where "callbacks_remove rm (stored osip a t') = Some osip'" "manager_inv osip'"
      "pruned (set rm) (stored osip a t') osip'"
    using callbacks_remove_ok [OF i] by blast
  with x t assms(1) show ?thesis
    by (simp add: call_ok_def stack_inv_def ixts_inv_def pruned_def flip: stored_def)
qed

lemma set_transaction_ok:
  assumes "transaction_inv t"
  shows "\<exists>r t'. set_transaction s (Some t) = Some (r, Some t') \<and> transaction_inv t' \<and> ctx_type t' = ctx_type t
    \<and> transactionid t' = transactionid t \<and> queue_of t' = queue_of t"
proof -
  have c: "ict_context t \<noteq> Dangling" "nict_context t \<noteq> Dangling"
    using assms by (cases "ctx_type t"; auto simp: inv_defs split: cptr.splits)+
  note defs = queue_of_def osip_transaction_set_your_instance_def osip_transaction_set_reserved1_def
    osip_transaction_set_reserved2_def osip_transaction_set_reserved3_def osip_transaction_set_reserved4_def
    osip_transaction_set_reserved5_def osip_transaction_set_reserved6_def osip_transaction_set_srv_record_def
    osip_transaction_set_naptr_record_def osip_transaction_set_in_socket_def osip_transaction_set_out_socket_def
    set_field_def osip_ict_set_destination_def osip_nict_set_destination_def
  show ?thesis
  proof (cases s)
    case (IctDestination d p)
    with assms c(1) show ?thesis
      by (cases "ict_context t"; cases "ctx_type t") (simp_all add: defs inv_defs)
  next
    case (NictDestination d p)
    with assms c(2) show ?thesis
      by (cases "nict_context t"; cases "ctx_type t") (simp_all add: defs inv_defs)
  qed (use assms in \<open>cases "ctx_type t"; simp add: defs inv_defs\<close>)+
qed

lemma set_call_ok:
  assumes "stack_inv osip" "api_pre (SetTransaction a s) osip"
  shows "call_ok (SetTransaction a s) osip"
proof -
  obtain t where t: "mem osip a = Some t" using assms(2) by auto
  have "manager_inv osip" using assms(1) by (simp add: stack_inv_def)
  note l = manager_live [OF this t]
  obtain r t' where s: "set_transaction s (Some t) = Some (r, Some t')" "transaction_inv t'"
      "ctx_type t' = ctx_type t" "transactionid t' = transactionid t" "queue_of t' = queue_of t"
    using set_transaction_ok [OF l(1)] by blast
  have "stack_inv (stored osip a t')" using s l(3) by (intro stack_inv_stored [OF assms(1) t]) simp_all
  with t s(1) show ?thesis by (simp add: call_ok_def stored_def)
qed

lemma execute_eq: "execute ty = osip_xixt_execute ty"
  by (cases ty) (simp_all add: execute_def osip_ict_execute_def osip_ist_execute_def osip_nict_execute_def
      osip_nist_execute_def)

lemma timers_execute_eq: "timers_execute ty = osip_timers_xixt_execute ty (timer_event_of ty)"
  by (cases ty) (simp_all add: timers_execute_def timer_event_of_def osip_timers_ict_execute_def
      osip_timers_ist_execute_def osip_timers_nict_execute_def osip_timers_nist_execute_def)

lemma execute_call_ok:
  assumes "stack_inv osip" "api_pre (Execute ty env rm) osip"
  shows "call_ok (Execute ty env rm) osip"
proof -
  have "manager_inv osip" using assms(1) by (simp add: stack_inv_def)
  from xixt_execute_ok [OF this, of rm ty env] assms show ?thesis
    by (auto simp: call_ok_def execute_eq stack_inv_def ixts_inv_def pruned_def)
qed

lemma timers_call_ok:
  assumes "stack_inv osip"
  shows "call_ok (TimersExecute ty clk) osip"
proof -
  have inv: "manager_inv osip" "osip_inv osip" using assms by (simp_all add: stack_inv_def manager_inv_def)
  obtain osip' where t: "timers_pass (timer_event_of ty) clk 0 (addrs ty osip) osip = Some osip'" "manager_inv osip'"
    using timers_pass_ok [OF inv(1) order_refl] by metis
  have "osip_timers_xixt_execute ty (timer_event_of ty) clk osip = Some osip'"
    using t(1) transactions_of_elems [OF inv(2), of ty] by (simp add: osip_timers_xixt_execute_def)
  moreover have "ixt_retransmissions osip' = ixt_retransmissions osip"
    using timers_pass_mem [OF t(1)] by (metis osip.select_convs(7) osip.surjective osip.update_convs(8))
  ultimately show ?thesis
    using t(2) assms by (simp add: call_ok_def timers_execute_eq stack_inv_def ixts_inv_def)
qed

section \<open>Removal and release\<close>

lemma osip_inv_forget:
  assumes "osip_inv osip" "a \<notin> set (all_addrs osip)"
  shows "osip_inv (osip\<lparr>mem := (mem osip)(a := None)\<rparr>)" (is "osip_inv ?o")
proof -
  have ne: "b \<noteq> a" if "b \<in> set (addrs ty osip)" for b ty using that assms(2) in_all_addrs by metis
  have e: "entry_ok ?o ty b = entry_ok osip ty b" if "b \<in> set (addrs ty osip)" for b ty
    using ne [OF that] by (intro entry_ok_cong) simp_all
  have i: "map (id_of ?o) (all_addrs osip) = map (id_of osip) (all_addrs osip)"
    using assms(2) by (intro map_cong refl id_of_cong) auto
  show ?thesis
    using assms(1) e unfolding osip_inv_def all_addrs_upd addrs_upd transactions_upd i by (simp add: list_all_iff)
qed

lemma transaction_free_ok:
  assumes "osip_inv osip" "a \<in> set (all_addrs osip)"
  obtains t acts where "mem osip a = Some t"
    "osip_transaction_free osip (Some a) =
       Some (OSIP_SUCCESS, (without osip a)\<lparr>mem := (mem osip)(a := None)\<rparr>, acts)"
    "freed_msgs acts = queued t + owned t"
    "osip_inv ((without osip a)\<lparr>mem := (mem osip)(a := None)\<rparr>)"
proof -
  note r = remove_listed [OF assms]
  obtain ty where ty: "a \<in> set (addrs ty osip)" using assms(2) in_all_addrs by blast
  obtain t where t: "mem osip a = Some t" "transaction_inv t" using osip_inv_entry [OF assms(1) ty] by blast
  obtain acts where a: "osip_transaction_free2 (Some t) = Some (OSIP_SUCCESS, acts)"
      "freed_msgs acts = queued t + owned t" using free2_all [OF t(2)] by blast
  have "osip_inv ((without osip a)\<lparr>mem := (mem (without osip a))(a := None)\<rparr>)"
    using r(2,3) by (intro osip_inv_forget) auto
  with r a t show thesis by (intro that [of t acts]) (simp_all add: osip_transaction_free_def)
qed

lemma forget_manager:
  assumes "manager_inv osip" "a \<notin> set (all_addrs osip)"
  shows "manager_inv (osip\<lparr>mem := (mem osip)(a := None)\<rparr>)" (is "manager_inv ?o")
proof -
  have "opt_all (live_ok ?o) (mem ?o b)" for b
    using manager_live [OF assms(1), of b] by (cases "mem osip b") (auto simp: live_ok_def)
  moreover have "inj_on (id_of ?o) (dom (mem ?o))"
  proof (rule inj_onI)
    fix b c assume "b \<in> dom (mem ?o)" "c \<in> dom (mem ?o)" "id_of ?o b = id_of ?o c"
    then show "b = c"
      using manager_id_inj [OF assms(1), of b c] by (auto simp: id_of_def split: if_splits)
  qed
  ultimately show ?thesis
    using osip_inv_forget [OF manager_osip [OF assms(1)] assms(2)] by (simp add: manager_inv_def)
qed

lemma without_unlisted:
  assumes "manager_inv osip" "mem osip a \<noteq> None"
  shows "a \<notin> set (all_addrs (without osip a))"
  using remove_live(3) [OF assms] by (auto simp: in_all_addrs)

lemma remove_call_ok:
  assumes "stack_inv osip" "mem osip a \<noteq> None"
  shows "call_ok (RemoveTransaction a) osip" "call_ok (FreeTransaction a) osip"
proof -
  have inv: "manager_inv osip" using assms(1) by (simp add: stack_inv_def)
  obtain t where t: "mem osip a = Some t" using assms(2) by blast
  obtain r where r: "osip_remove_transaction osip (Some a) = Some (r, without osip a)"
    using remove_live(1) [OF inv assms(2)] by blast
  note w = remove_live(2) [OF inv assms(2)]
  show "call_ok (RemoveTransaction a) osip"
    using r w assms(1) by (simp add: call_ok_def stack_inv_def ixts_inv_def)
  obtain acts where "osip_transaction_free2 (Some t) = Some (OSIP_SUCCESS, acts)"
    using free2_all [OF manager_live(1) [OF inv t]] by blast
  with r t forget_manager [OF w without_unlisted [OF inv assms(2)]] assms(1)
  show "call_ok (FreeTransaction a) osip"
    by (simp add: call_ok_def stack_inv_def ixts_inv_def osip_transaction_free_def)
qed

lemma free_removed_ok:
  assumes "stack_inv osip" "api_pre (FreeRemoved a) osip"
  shows "call_ok (FreeRemoved a) osip"
proof -
  have inv: "manager_inv osip" using assms(1) by (simp add: stack_inv_def)
  obtain t where t: "mem osip a = Some t" using assms(2) by auto
  obtain acts where "osip_transaction_free2 (Some t) = Some (OSIP_SUCCESS, acts)"
    using free2_all [OF manager_live(1) [OF inv t]] by blast
  with t assms forget_manager [OF inv, of a] show ?thesis
    by (simp add: call_ok_def stack_inv_def ixts_inv_def)
qed

lemma stack_inv_ixt:
  assumes "stack_inv osip" "ixts_inv (osip\<lparr>ixt_retransmissions := l\<rparr>)"
  shows "stack_inv (osip\<lparr>ixt_retransmissions := l\<rparr>)"
proof -
  have tr: "transactions ty (osip\<lparr>ixt_retransmissions := l\<rparr>) = transactions ty osip" for ty
    by (cases ty) (simp_all add: transactions_def)
  then have ad: "addrs ty (osip\<lparr>ixt_retransmissions := l\<rparr>) = addrs ty osip" for ty by (simp add: addrs_def)
  have al: "all_addrs (osip\<lparr>ixt_retransmissions := l\<rparr>) = all_addrs osip" by (simp add: all_addrs_def ad)
  have f: "id_of (osip\<lparr>ixt_retransmissions := l\<rparr>) = id_of osip"
      "entry_ok (osip\<lparr>ixt_retransmissions := l\<rparr>) = entry_ok osip"
    by (simp_all add: fun_eq_iff id_of_def entry_ok_def split: option.split)
  have "osip_inv (osip\<lparr>ixt_retransmissions := l\<rparr>) = osip_inv osip"
    unfolding osip_inv_def tr ad al f by simp
  with assms manager_cong [of osip "osip\<lparr>ixt_retransmissions := l\<rparr>"] show ?thesis
    by (simp add: stack_inv_def manager_osip)
qed

lemma ixt_calls_ok:
  assumes "stack_inv osip"
  shows "call_ok (Start200ok now d m s) osip" "call_ok (StartAck now d ma h p s) osip"
    "call_ok (StopDialog d) osip" "call_ok (Retransmit now) osip"
proof -
  have i: "ixts_inv osip" using assms by (simp add: stack_inv_def)
  show "call_ok (Start200ok now d m s) osip"
    using start_200ok_ok [OF i, of now d m s] stack_inv_ixt [OF assms] by (auto simp: call_ok_def)
  show "call_ok (StartAck now d ma h p s) osip"
    using start_ack_ok [OF i, of now d ma h p s] stack_inv_ixt [OF assms] by (auto simp: call_ok_def)
  show "call_ok (StopDialog d) osip"
    using stop_dialog_ok [OF i, of d] stack_inv_ixt [OF assms] by (auto simp: call_ok_def)
  show "call_ok (Retransmit now) osip"
    by (rule retransmissions_execute_ok [OF i, of now]) (simp add: call_ok_def stack_inv_ixt [OF assms])
qed

lemma param_found: "fst (param_get_loop ps n) = 0 \<Longrightarrow> snd (param_get_loop ps n) \<noteq> None"
  by (induction ps n rule: param_get_loop.induct) (auto simp: osip_err split: option.splits if_splits)

lemma get_tag_found: "fst (get_tag f) = 0 \<Longrightarrow> snd (get_tag f) \<noteq> None"
  using param_found by (simp add: get_tag_def osip_uri_param_get_byname_def osip_err)

lemma match_as_uas_defined:
  assumes "from_tag_ok ack"
  shows "osip_dialog_match_as_uas d (Some ack) \<noteq> None"
proof -
  have "\<exists>p v. snd (get_tag f) = Some p \<and> gvalue p = Some v" if "msg_from ack = Some f" "fst (get_tag f) = 0" for f
  proof -
    have "snd (get_tag f) \<noteq> None" using that(2) by (simp add: get_tag_found)
    then show ?thesis using assms that(1) by (auto simp: from_tag_ok_def)
  qed
  then show ?thesis
    by (cases d) (auto simp: osip_dialog_match_as_uas_def split: option.splits prod.splits)
qed

lemma stop_200ok_call_ok:
  assumes "stack_inv osip" "api_pre (Stop200ok dlgs ack) osip"
  shows "call_ok (Stop200ok dlgs ack) osip"
proof (cases "\<exists>m cs num. ack = Some m \<and> msg_cseq m = Some cs \<and> cseq_number cs = Some num")
  case True
  then obtain m cs num where m: "ack = Some m" "msg_cseq m = Some cs" "cseq_number cs = Some num" by blast
  have i: "ixts_inv osip" using assms(1) by (simp add: stack_inv_def)
  have "\<forall>x \<in> set (list_abs (ixt_retransmissions osip)). ixt_cseq_number x \<noteq> None \<longrightarrow> uas_match dlgs m x \<noteq> None"
  proof (intro ballI impI)
    fix x assume "x \<in> set (list_abs (ixt_retransmissions osip))"
    then have "opt_all (\<lambda>d. dlgs d \<noteq> None) (ixt_dialog x)" and "from_tag_ok m"
      using assms(2) m(1) by (simp_all add: dialogs_live_def list_all_iff)
    then show "uas_match dlgs m x \<noteq> None"
      using match_as_uas_defined [of m] by (cases "ixt_dialog x") (auto simp: uas_match_def dlg_ptr_def)
  qed
  note eq = stop_200ok_ok [OF i m(2,3) this]
  have "ixts_inv (osip\<lparr>ixt_retransmissions := of_elems (remove_first P (list_abs (ixt_retransmissions osip)))\<rparr>)" for P
    using i set_remove_first [of P] by (auto simp: ixts_inv_def list_all_iff)
  with eq m(1) assms(1) stack_inv_ixt [OF assms(1)] show ?thesis
    by (auto simp: call_ok_def split: option.split)
next
  case False
  then have "osip_stop_200ok_retransmissions dlgs osip ack = Some (None, osip, [])"
    by (auto simp: osip_stop_200ok_retransmissions_def split: option.split)
  with assms(1) show ?thesis by (simp add: call_ok_def)
qed

lemma api_call_ok:
  assumes "stack_inv osip" "api_pre c osip"
  shows "call_ok c osip"
proof (cases c)
  case (CreateTransaction cfg e)
  with assms create_call_ok show ?thesis by blast
next
  case (FindAndAddEvent e)
  with assms find_call_ok show ?thesis by blast
next
  case (FreeRemoved a)
  with assms free_removed_ok show ?thesis by blast
next
  case (InitTransaction cfg ty m)
  with assms init_call_ok show ?thesis by blast
next
  case (AddEvent a e)
  with assms add_call_ok show ?thesis by blast
next
  case (ExecuteEvent cfg a e rm)
  with assms execute_event_call_ok show ?thesis by blast
next
  case (SetTransaction a s)
  with assms set_call_ok show ?thesis by blast
next
  case (Execute ty env rm)
  with assms execute_call_ok show ?thesis by blast
next
  case (Stop200ok dlgs ack)
  with assms stop_200ok_call_ok show ?thesis by blast
qed (use assms timers_call_ok remove_call_ok ixt_calls_ok in simp_all)

lemma reachable_inv: "reachable osip \<Longrightarrow> stack_inv osip"
proof (induction rule: reachable.induct)
  case init
  show ?case by (rule stack_inv_init)
next
  case (step osip c osip')
  then have "call_ok c osip" "api_exec c osip = Some osip'" using api_call_ok by (auto simp: api_step_iff)
  then show ?case by (simp add: call_ok_def)
qed

lemma reachable_osip: "reachable osip \<Longrightarrow> osip_inv osip"
  using reachable_inv stack_osip by blast

end
