(* ===== verification/Osip_Dialog_Inv.thy ===== *)
theory Osip_Dialog_Inv
  imports Osip_Dialog Osip_Fsm_Live
begin

text \<open>
  Dialog identification: what a dialog created from a message remembers, and which messages match
  it.
\<close>

section \<open>Tags and Call-IDs\<close>

definition tag_of :: "osip_from option \<Rightarrow> string option" where
  "tag_of h = (case h of None \<Rightarrow> None | Some f \<Rightarrow> Option.bind (get_param (gen_params f) ''tag'') gvalue)"

definition call_id_str :: "osip_call_id \<Rightarrow> string" where
  "call_id_str c = the (cid_number c) @ (case cid_host c of None \<Rightarrow> [] | Some h \<Rightarrow> ''@'' @ h)"

lemma osip_call_id_to_str_ok: "call_id_ok c \<Longrightarrow> osip_call_id_to_str (Some c) = (OSIP_SUCCESS, Some (call_id_str c))"
  by (auto simp: osip_call_id_to_str_def call_id_ok_def call_id_str_def split: option.splits)

lemma get_tag_value:
  assumes "tag_of (Some f) = Some v"
  obtains p where "get_tag f = (OSIP_SUCCESS, Some p)" "gvalue p = Some v"
proof -
  obtain p where p: "get_param (gen_params f) ''tag'' = Some p" "gvalue p = Some v"
    using assms by (auto simp: tag_of_def bind_eq_Some_conv)
  have "fst (param_get_loop (gen_params f) ''tag'') = OSIP_SUCCESS"
    using p(1) param_get_loop_code [of "gen_params f" "''tag''"]
    by (simp add: get_param_def osip_uri_param_get_byname_def)
  then have "get_tag f = (OSIP_SUCCESS, Some p)"
    using p(1) by (simp add: get_tag_def get_param_def osip_uri_param_get_byname_def prod_eq_iff)
  with p(2) that show thesis by blast
qed

section \<open>Matching\<close>

lemma match_as_uac_iff:
  assumes "dlg_call_id d = Some dcid" "local_tag d = Some lt" "remote_tag d = Some rt"
    and "msg_call_id m = Some cid" "call_id_ok cid"
    and "tag_of (msg_from m) = Some vf" "tag_of (msg_to m) = Some vt"
  shows "osip_dialog_match_as_uac (Some d) (Some m) =
    Some (if dcid = call_id_str cid \<and> lt = vf \<and> rt = vt then OSIP_SUCCESS else OSIP_UNDEFINED_ERROR)"
proof -
  obtain f t where ft: "msg_from m = Some f" "msg_to m = Some t"
    using assms(6,7) by (auto simp: tag_of_def split: option.splits)
  obtain p where p: "get_tag f = (OSIP_SUCCESS, Some p)" "gvalue p = Some vf"
    using get_tag_value assms(6) ft(1) by metis
  obtain q where q: "get_tag t = (OSIP_SUCCESS, Some q)" "gvalue q = Some vt"
    using get_tag_value assms(7) ft(2) by metis
  show ?thesis
    using assms(1-4) ft p q osip_call_id_to_str_ok [OF assms(5)]
    by (simp add: osip_dialog_match_as_uac_def strcmp_eq_def osip_err)
qed

lemma match_as_uas_iff:
  assumes "dlg_call_id d = Some dcid" "local_tag d = Some lt" "remote_tag d = Some rt"
    and "msg_call_id m = Some cid" "call_id_ok cid"
    and "tag_of (msg_from m) = Some vf" "msg_to m \<noteq> None"
  shows "osip_dialog_match_as_uas (Some d) (Some m) =
    Some (if dcid = call_id_str cid \<and> rt = vf then OSIP_SUCCESS else OSIP_UNDEFINED_ERROR)"
proof -
  obtain f t where ft: "msg_from m = Some f" "msg_to m = Some t"
    using assms(6,7) by (auto simp: tag_of_def split: option.splits)
  obtain p where p: "get_tag f = (OSIP_SUCCESS, Some p)" "gvalue p = Some vf"
    using get_tag_value assms(6) ft(1) by metis
  show ?thesis
    using assms(1-4) ft p osip_call_id_to_str_ok [OF assms(5)]
    by (simp add: osip_dialog_match_as_uas_def strcmp_eq_def osip_err)
qed

section \<open>Creation\<close>

definition dialog_headers_ok :: "osip_message \<Rightarrow> bool" where
  "dialog_headers_ok m \<longleftrightarrow> response_ok m \<and> list_all from_ok (record_routes m)
     \<and> (case contacts m of [] \<Rightarrow> True | c # _ \<Rightarrow> from_ok c)"

lemma dialog_init_uris_ok:
  assumes "from_ok l" "from_ok r" "case contacts m of [] \<Rightarrow> True | c # _ \<Rightarrow> from_ok c"
  shows "dialog_init_uris d l r m = (OSIP_SUCCESS,
    Some (d\<lparr>remote_uri := Some r, local_uri := Some l,
            remote_contact_uri := (case contacts m of [] \<Rightarrow> None | c # _ \<Rightarrow> Some c), secure := -1\<rparr>))"
  using assms
  by (cases "contacts m")
    (simp_all add: dialog_init_uris_def osip_from_clone_Some osip_to_clone_def osip_contact_clone_def osip_err)

lemma dialog_init_uac:
  assumes "dialog_headers_ok m" "tag_of (msg_from m) = Some vf" "tag_of (msg_to m) = Some vt"
    and "msg_call_id m = Some cid"
  obtains d where "osip_dialog_init_as_uac (Some m) = Some (OSIP_SUCCESS, Some d)"
    "dlg_call_id d = Some (call_id_str cid)" "local_tag d = Some vf" "remote_tag d = Some vt"
    "route_set d = of_elems (rev (record_routes m))" "dlg_type d = CALLER" "remote_cseq d = -1"
    "dlg_state d = (if 200 \<le> status_code m \<and> status_code m \<le> 299 then DIALOG_CONFIRMED else DIALOG_EARLY)"
    "remote_contact_uri d = (case contacts m of [] \<Rightarrow> None | c # _ \<Rightarrow> Some c)"
    "remote_uri d = msg_to m" "local_uri d = msg_from m"
proof -
  obtain f t where ft: "msg_from m = Some f" "msg_to m = Some t" "from_ok f" "from_ok t"
    using assms(1) by (auto simp: dialog_headers_ok_def response_ok_def split: option.splits)
  obtain p where p: "get_tag f = (OSIP_SUCCESS, Some p)" "gvalue p = Some vf"
    using get_tag_value assms(2) ft(1) by metis
  obtain q where q: "get_tag t = (OSIP_SUCCESS, Some q)" "gvalue q = Some vt"
    using get_tag_value assms(3) ft(2) by metis
  obtain cs where cs: "msg_cseq m = Some cs"
    using assms(1) by (auto simp: dialog_headers_ok_def response_ok_def split: option.splits)
  have cid: "osip_call_id_to_str (Some cid) = (OSIP_SUCCESS, Some (call_id_str cid))"
    using assms(1,4) by (intro osip_call_id_to_str_ok) (simp add: dialog_headers_ok_def response_ok_def)
  have rr: "add_routes 0 (record_routes m) \<lparr>nb_elt = 0, node = []\<rparr> = Some (0, of_elems (rev (record_routes m)))"
    using add_routes_reverse [of "record_routes m" "[]"] assms(1)
    by (simp add: of_elems_Nil dialog_headers_ok_def list_all_iff)
  have ct: "case contacts m of [] \<Rightarrow> True | c # _ \<Rightarrow> from_ok c" using assms(1) by (simp add: dialog_headers_ok_def)
  show thesis
    by (rule that, simp add: osip_dialog_init_as_uac_def osip_dialog_init_def dialog_init_line_def assms(4) ft p q cs cid rr
        dialog_init_uris_ok [OF ft(3,4) ct] osip_err dialog_zero_def MSG_IS_STATUS_def)
      (simp_all add: ft)
qed

lemma dialog_init_uas:
  assumes "dialog_headers_ok m" "tag_of (msg_from m) = Some vf" "tag_of (msg_to m) = Some vt"
    and "msg_call_id m = Some cid" "req_uri invite = Some u"
    and "case contacts invite of [] \<Rightarrow> True | c # _ \<Rightarrow> from_ok c"
  obtains d where "osip_dialog_init_as_uas (Some invite) (Some m) = Some (OSIP_SUCCESS, Some d)"
    "dlg_call_id d = Some (call_id_str cid)" "local_tag d = Some vt" "remote_tag d = Some vf"
    "route_set d = of_elems (record_routes m)" "dlg_type d = CALLEE"
    "dlg_state d = (if 200 \<le> status_code m \<and> status_code m \<le> 299 then DIALOG_CONFIRMED else DIALOG_EARLY)"
    "remote_contact_uri d = (case contacts invite of [] \<Rightarrow> None | c # _ \<Rightarrow> Some c)"
    "remote_uri d = msg_from m" "local_uri d = msg_to m"
proof -
  obtain f t where ft: "msg_from m = Some f" "msg_to m = Some t" "from_ok f" "from_ok t"
    using assms(1) by (auto simp: dialog_headers_ok_def response_ok_def split: option.splits)
  obtain p where p: "get_tag f = (OSIP_SUCCESS, Some p)" "gvalue p = Some vf"
    using get_tag_value assms(2) ft(1) by metis
  obtain q where q: "get_tag t = (OSIP_SUCCESS, Some q)" "gvalue q = Some vt"
    using get_tag_value assms(3) ft(2) by metis
  obtain cs where cs: "msg_cseq m = Some cs"
    using assms(1) by (auto simp: dialog_headers_ok_def response_ok_def split: option.splits)
  have cid: "osip_call_id_to_str (Some cid) = (OSIP_SUCCESS, Some (call_id_str cid))"
    using assms(1,4) by (intro osip_call_id_to_str_ok) (simp add: dialog_headers_ok_def response_ok_def)
  have rr: "add_routes (-1) (record_routes m) \<lparr>nb_elt = 0, node = []\<rparr> = Some (0, of_elems (record_routes m))"
    using add_routes_append [of "record_routes m" "[]"] assms(1)
    by (simp add: of_elems_Nil dialog_headers_ok_def list_all_iff)
  show thesis
    by (rule that, simp add: osip_dialog_init_as_uas_def osip_dialog_init_def dialog_init_line_def assms(4,5) ft p q cs cid rr
        dialog_init_uris_ok [OF ft(4,3) assms(6)] osip_err dialog_zero_def MSG_IS_STATUS_def)
      (simp_all add: ft)
qed

end
