(* ===== verification/Osip_Retransmit.thy ===== *)
theory Osip_Retransmit
  imports Osip_Fsm_Live
begin

text \<open>
  Behaviour of transactions over several steps: retransmission with growing intervals, answers to
  retransmitted messages, and silence after the end.
\<close>

section \<open>What is sent\<close>

fun sends :: "action list \<Rightarrow> (osip_message \<times> string option \<times> int \<times> int) list" where
  "sends [] = []"
| "sends (Send m h p s r # as) = (m, h, p, s) # sends as"
| "sends (a # as) = sends as"

lemma sends_append [simp]: "sends (as @ bs) = sends as @ sends bs"
  by (induction as rule: sends.induct) simp_all

lemma sends_callbacks [simp]:
  "sends (osip_message_callback cfg ty m) = []" "sends (osip_message_free m) = []"
  by (simp_all add: osip_message_callback_def osip_message_free_def split: option.split)

lemmas execute_unfold = osip_transaction_execute_def EVT_IS_KILL_TRANSACTION_def fsm_callmethod_def
  fsm_table_def osip_err

section \<open>Terminated transactions\<close>

lemma execute_terminated:
  assumes "transaction_inv t" "is_terminated t" "event_ok e"
  shows "\<exists>r. osip_transaction_execute cfg t e = Some (r, t, osip_message_free (ev_sip e))"
proof (cases "ev_type e = KILL_TRANSACTION")
  case True
  then have "ev_sip e = None" using assms(3) by (simp add: event_ok_def EVT_IS_MSG_type)
  with True show ?thesis by (simp add: osip_transaction_execute_def EVT_IS_KILL_TRANSACTION_def osip_message_free_def)
next
  case False
  have "rfc_next (tr_state t) (ev_type e) = None"
    using assms(2) rfc_next_terminated by (simp add: is_terminated_def)
  then have "fsm_findmethod (ev_type e) (tr_state t) (fsm_table (ctx_type t)) = None"
    using fsm_findmethod_rfc [OF transaction_inv_state [OF assms(1)]] by simp
  moreover have "\<not> EVT_IS_MSG e \<Longrightarrow> ev_sip e = None" using assms(3) by (simp add: event_ok_def)
  ultimately show ?thesis using False
    by (auto simp: osip_transaction_execute_def EVT_IS_KILL_TRANSACTION_def fsm_callmethod_def osip_err
        osip_message_free_def)
qed

lemma run_terminated:
  assumes "transaction_inv t" "is_terminated t" "\<forall>i \<in> set is. input_ok i"
  shows "machine_run transaction_exec t is =
    Some (t, concat (map (\<lambda>i. osip_message_free (ev_sip (snd i))) is))"
  using assms(3)
proof (induction "is")
  case (Cons i "is")
  obtain r where "transaction_exec t i = Some (r, t, osip_message_free (ev_sip (snd i)))"
    using execute_terminated [OF assms(1,2), of "snd i" "fst i"] Cons.prems
    by (auto simp: transaction_exec_def input_ok_def)
  with Cons show ?case by simp
qed simp

lemma context_update_same:
  "nict_context t = Ptr c \<Longrightarrow> t\<lparr>nict_context := Ptr c\<rparr> = t"
  "ist_context t = Ptr d \<Longrightarrow> t\<lparr>ist_context := Ptr d\<rparr> = t"
  "ict_context t = Ptr e \<Longrightarrow> t\<lparr>ict_context := Ptr e\<rparr> = t"
  by (cases t; simp)+

section \<open>Timer E\<close>

definition unreliable :: "osip_message \<Rightarrow> bool" where
  "unreliable m = (case nict_orig_proto (Some m) of None \<Rightarrow> False | Some p \<Rightarrow> \<not> reliable_proto p)"

lemma timeout_e_step:
  assumes "ctx_type t = NICT" "tr_state t = NICT_TRYING" "nict_context t = Ptr c" "orig_request t = Some m"
    and "unreliable m" "transport_ok cfg" "ev_type e = TIMEOUT_E" "ev_sip e = None"
  shows "osip_transaction_execute cfg t e =
    (let len = nict_next_e_length NICT_TRYING (timer_e_length c)
     in Some (1, t\<lparr>nict_context := Ptr (c\<lparr>timer_e_length := len,
                     timer_e_start := add_gettimeofday (gettimeofday cfg 0) len\<rparr>)\<rparr>,
              Send m (nict_destination c) (nict_port c) (out_socket t) 0
                # osip_message_callback cfg OSIP_NICT_REQUEST_SENT_AGAIN (Some m)))"
  using assms
  by (auto simp: execute_unfold nict_transition_def osip_nict_timeout_e_event_def transport_ok_def
      unreliable_def mk_transition_def Let_def split: option.splits)

lemma timer_e_run:
  assumes "ctx_type t = NICT" "tr_state t = NICT_TRYING" "nict_context t = Ptr c" "orig_request t = Some m"
    and "unreliable m" "\<forall>i \<in> set is. transport_ok (fst i) \<and> ev_type (snd i) = TIMEOUT_E \<and> ev_sip (snd i) = None"
  shows "\<exists>c' as. machine_run transaction_exec t is = Some (t\<lparr>nict_context := Ptr c'\<rparr>, as)
    \<and> timer_e_length c' = (nict_next_e_length NICT_TRYING ^^ length is) (timer_e_length c)
    \<and> sends as = replicate (length is) (m, nict_destination c, nict_port c, out_socket t)"
  using assms
proof (induction "is" arbitrary: t c)
  case Nil
  show ?case by (intro exI [of _ c] exI [of _ "[]"]) (simp add: context_update_same Nil.prems(3))
next
  case (Cons i "is")
  let ?len = "nict_next_e_length NICT_TRYING (timer_e_length c)"
  define c1 where "c1 = c\<lparr>timer_e_length := ?len, timer_e_start := add_gettimeofday (gettimeofday (fst i) 0) ?len\<rparr>"
  let ?t1 = "t\<lparr>nict_context := Ptr c1\<rparr>"
  let ?as = "Send m (nict_destination c) (nict_port c) (out_socket t) 0
      # osip_message_callback (fst i) OSIP_NICT_REQUEST_SENT_AGAIN (Some m)"
  have c1: "transaction_exec t i = Some (1, ?t1, ?as)"
    using timeout_e_step [OF Cons.prems(1-5), of "fst i" "snd i"] Cons.prems(6)
    by (simp add: transaction_exec_def Let_def c1_def)
  have "\<exists>c2 bs. machine_run transaction_exec ?t1 is = Some (?t1\<lparr>nict_context := Ptr c2\<rparr>, bs) \<and> timer_e_length c2 = (nict_next_e_length NICT_TRYING ^^ length is) (timer_e_length c1)
      \<and> sends bs = replicate (length is) (m, nict_destination c1, nict_port c1, out_socket ?t1)"
    by (rule Cons.IH) (use Cons.prems in simp_all)
  then obtain c2 bs where c2: "machine_run transaction_exec ?t1 is = Some (?t1\<lparr>nict_context := Ptr c2\<rparr>, bs)"
      "timer_e_length c2 = (nict_next_e_length NICT_TRYING ^^ length is) (timer_e_length c1)
      \<and> sends bs = replicate (length is) (m, nict_destination c1, nict_port c1, out_socket ?t1)" by blast
  show ?case
  proof (intro exI conjI)
    show "machine_run transaction_exec t (i # is) = Some (t\<lparr>nict_context := Ptr c2\<rparr>, ?as @ bs)"
      using c1 c2(1) by simp
  qed (use c2(2) in \<open>simp_all add: c1_def funpow_swap1\<close>)
qed

lemma next_e_length_iter:
  "(nict_next_e_length NICT_TRYING ^^ n) DEFAULT_T1 = min (DEFAULT_T1 * 2 ^ n) DEFAULT_T2"
proof (induction n)
  case (Suc n)
  have "\<not> (2::int) ^ n < 1" by (simp add: not_less)
  with Suc show ?case by (auto simp: nict_next_e_length_def Let_def timer_consts min_def)
qed (simp add: timer_consts)

section \<open>Timer G\<close>

definition response_dest :: "osip_message \<Rightarrow> (string option \<times> int) option" where
  "response_dest r = (case vias r of [] \<Rightarrow> None | v # _ \<Rightarrow> Some (response_host v, response_port v))"

lemma snd_xxx_dest:
  "response_dest r = Some (h, p) \<Longrightarrow>
   osip_transaction_snd_xxx cfg t (Some r) =
     Some (cb_send_message cfg t r h p (out_socket t), [Send r h p (out_socket t) (cb_send_message cfg t r h p (out_socket t))])"
  by (auto simp: osip_transaction_snd_xxx_def response_dest_def split: list.splits)

lemma timeout_g_step:
  assumes "ctx_type t = IST" "tr_state t = IST_COMPLETED" "ist_context t = Ptr c" "last_response t = Some r"
    and "response_dest r = Some (h, p)" "transport_ok cfg" "ev_type e = TIMEOUT_G" "ev_sip e = None"
  shows "osip_transaction_execute cfg t e =
    (let len = ist_next_g_length (timer_g_length c)
     in Some (1, t\<lparr>ist_context := Ptr (c\<lparr>timer_g_length := len,
                     timer_g_start := add_gettimeofday (gettimeofday cfg 0) len\<rparr>)\<rparr>,
              Send r h p (out_socket t) 0
                # osip_message_callback cfg OSIP_IST_STATUS_3456XX_SENT_AGAIN (Some r)))"
  using assms
  by (simp add: execute_unfold ist_transition_def osip_ist_timeout_g_event_def transport_ok_def
      snd_xxx_dest mk_transition_def Let_def)

lemma timer_g_run:
  assumes "ctx_type t = IST" "tr_state t = IST_COMPLETED" "ist_context t = Ptr c" "last_response t = Some r"
    and "response_dest r = Some (h, p)"
    and "\<forall>i \<in> set is. transport_ok (fst i) \<and> ev_type (snd i) = TIMEOUT_G \<and> ev_sip (snd i) = None"
  shows "\<exists>c' as. machine_run transaction_exec t is = Some (t\<lparr>ist_context := Ptr c'\<rparr>, as)
    \<and> timer_g_length c' = (ist_next_g_length ^^ length is) (timer_g_length c)
    \<and> sends as = replicate (length is) (r, h, p, out_socket t)"
  using assms
proof (induction "is" arbitrary: t c)
  case Nil
  show ?case by (intro exI [of _ c] exI [of _ "[]"]) (simp add: context_update_same Nil.prems(3))
next
  case (Cons i "is")
  let ?len = "ist_next_g_length (timer_g_length c)"
  define c1 where "c1 = c\<lparr>timer_g_length := ?len, timer_g_start := add_gettimeofday (gettimeofday (fst i) 0) ?len\<rparr>"
  let ?t1 = "t\<lparr>ist_context := Ptr c1\<rparr>"
  let ?as = "Send r h p (out_socket t) 0
      # osip_message_callback (fst i) OSIP_IST_STATUS_3456XX_SENT_AGAIN (Some r)"
  have c1: "transaction_exec t i = Some (1, ?t1, ?as)"
    using timeout_g_step [OF Cons.prems(1-5), of "fst i" "snd i"] Cons.prems(6)
    by (simp add: transaction_exec_def Let_def c1_def)
  have "\<exists>c2 bs. machine_run transaction_exec ?t1 is = Some (?t1\<lparr>ist_context := Ptr c2\<rparr>, bs) \<and> timer_g_length c2 = (ist_next_g_length ^^ length is) (timer_g_length c1)
      \<and> sends bs = replicate (length is) (r, h, p, out_socket ?t1)"
    by (rule Cons.IH) (use Cons.prems in simp_all)
  then obtain c2 bs where c2: "machine_run transaction_exec ?t1 is = Some (?t1\<lparr>ist_context := Ptr c2\<rparr>, bs)"
      "timer_g_length c2 = (ist_next_g_length ^^ length is) (timer_g_length c1)
      \<and> sends bs = replicate (length is) (r, h, p, out_socket ?t1)" by blast
  show ?case
  proof (intro exI conjI)
    show "machine_run transaction_exec t (i # is) = Some (t\<lparr>ist_context := Ptr c2\<rparr>, ?as @ bs)"
      using c1 c2(1) by simp
  qed (use c2(2) in \<open>simp_all add: c1_def funpow_swap1\<close>)
qed

lemma next_g_length_iter: "(ist_next_g_length ^^ n) DEFAULT_T1 = min (DEFAULT_T1 * 2 ^ n) DEFAULT_T2"
proof (induction n)
  case (Suc n)
  then show ?case by (auto simp: ist_next_g_length_def timer_consts min_def)
qed (simp add: timer_consts)

section \<open>Timer A\<close>

lemma unreliable_sent: "unreliable m \<Longrightarrow> ict_message_sent (Some m) c = Inr c"
  by (auto simp: ict_message_sent_def unreliable_def nict_orig_proto_def split: option.splits prod.splits if_splits)

lemma timeout_a_step:
  assumes "ctx_type t = ICT" "tr_state t = ICT_CALLING" "ict_context t = Ptr c" "orig_request t = Some m"
    and "unreliable m" "transport_ok cfg" "ev_type e = TIMEOUT_A" "ev_sip e = None"
  shows "osip_transaction_execute cfg t e =
    (let len = timer_a_length c * 2
     in Some (1, t\<lparr>ict_context := Ptr (c\<lparr>timer_a_length := len,
                     timer_a_start := add_gettimeofday (gettimeofday cfg 0) len\<rparr>)\<rparr>,
              Send m (ict_destination c) (ict_port c) (out_socket t) 0
                # osip_message_callback cfg OSIP_ICT_INVITE_SENT_AGAIN (Some m)))"
  using assms
  by (simp add: execute_unfold ict_transition_def osip_ict_timeout_a_event_def transport_ok_def
      unreliable_sent mk_transition_def Let_def)

lemma timer_a_run:
  assumes "ctx_type t = ICT" "tr_state t = ICT_CALLING" "ict_context t = Ptr c" "orig_request t = Some m"
    and "unreliable m" "\<forall>i \<in> set is. transport_ok (fst i) \<and> ev_type (snd i) = TIMEOUT_A \<and> ev_sip (snd i) = None"
  shows "\<exists>c' as. machine_run transaction_exec t is = Some (t\<lparr>ict_context := Ptr c'\<rparr>, as)
    \<and> timer_a_length c' = timer_a_length c * 2 ^ length is \<and> timer_b_start c' = timer_b_start c
    \<and> sends as = replicate (length is) (m, ict_destination c, ict_port c, out_socket t)"
  using assms
proof (induction "is" arbitrary: t c)
  case Nil
  show ?case by (intro exI [of _ c] exI [of _ "[]"]) (simp add: context_update_same Nil.prems(3))
next
  case (Cons i "is")
  let ?len = "timer_a_length c * 2"
  define c1 where "c1 = c\<lparr>timer_a_length := ?len, timer_a_start := add_gettimeofday (gettimeofday (fst i) 0) ?len\<rparr>"
  let ?t1 = "t\<lparr>ict_context := Ptr c1\<rparr>"
  let ?as = "Send m (ict_destination c) (ict_port c) (out_socket t) 0
      # osip_message_callback (fst i) OSIP_ICT_INVITE_SENT_AGAIN (Some m)"
  have c1: "transaction_exec t i = Some (1, ?t1, ?as)"
    using timeout_a_step [OF Cons.prems(1-5), of "fst i" "snd i"] Cons.prems(6)
    by (simp add: transaction_exec_def Let_def c1_def)
  have "\<exists>c2 bs. machine_run transaction_exec ?t1 is = Some (?t1\<lparr>ict_context := Ptr c2\<rparr>, bs) \<and> timer_a_length c2 = timer_a_length c1 * 2 ^ length is \<and> timer_b_start c2 = timer_b_start c1
      \<and> sends bs = replicate (length is) (m, ict_destination c1, ict_port c1, out_socket ?t1)"
    by (rule Cons.IH) (use Cons.prems in simp_all)
  then obtain c2 bs where c2: "machine_run transaction_exec ?t1 is = Some (?t1\<lparr>ict_context := Ptr c2\<rparr>, bs)"
      "timer_a_length c2 = timer_a_length c1 * 2 ^ length is \<and> timer_b_start c2 = timer_b_start c1
      \<and> sends bs = replicate (length is) (m, ict_destination c1, ict_port c1, out_socket ?t1)" by blast
  show ?case
  proof (intro exI conjI)
    show "machine_run transaction_exec t (i # is) = Some (t\<lparr>ict_context := Ptr c2\<rparr>, ?as @ bs)"
      using c1 c2(1) by simp
  qed (use c2(2) in \<open>simp_all add: c1_def\<close>)
qed

section \<open>The ACK of a final response\<close>

text \<open>RFC 3261, 17.1.1.3: Request-URI, top Via and Route of the request; From, To, Call-ID and CSeq
  number of the response.\<close>

definition rfc_ack :: "osip_message \<Rightarrow> osip_message \<Rightarrow> osip_message" where
  "rfc_ack oreq resp =
    \<lparr>sip_version = sip_version oreq, req_uri = req_uri oreq, sip_method = Some ''ACK'', status_code = 0,
     reason_phrase = None,
     authorizations = (if status_code resp = 401 \<or> status_code resp = 407 then []
                       else map clone_auth (authorizations oreq)),
     msg_call_id = msg_call_id resp, contacts = [],
     msg_cseq = map_option (\<lambda>c. c\<lparr>cseq_method := Some ''ACK''\<rparr>) (msg_cseq resp),
     msg_from = msg_from resp,
     proxy_authorizations = (if status_code resp = 401 \<or> status_code resp = 407 then []
                       else map clone_auth (proxy_authorizations oreq)),
     record_routes = [], routes = routes oreq, msg_to = msg_to resp, vias = [hd (vias oreq)]\<rparr>"

lemma execute_final_response:
  assumes "ctx_type t = ICT" "tr_state t = ICT_CALLING \<or> tr_state t = ICT_PROCEEDING"
    and "ict_context t = Ptr c" "ict_destination c = Some d" "orig_request t = Some oreq"
    and "request_ok oreq" "ev_type e = RCV_STATUS_3456XX" "ev_sip e = Some resp" "response_ok resp"
    and "transport_ok cfg"
  shows "osip_transaction_execute cfg t e = Some (1,
    ict_start_timer_d cfg (t\<lparr>last_response := Some resp, tr_ack := Some (rfc_ack oreq resp), ict_context := Ptr c\<rparr>) c,
    osip_message_free (last_response t) @ Send (rfc_ack oreq resp) (Some d) (ict_port c) (out_socket t) 0
      # osip_message_callback cfg (ict_final_callback resp) (Some resp)
      @ osip_message_callback cfg OSIP_ICT_ACK_SENT (Some (rfc_ack oreq resp)))"
proof -
  have ack: "ict_create_ack (t\<lparr>last_response := Some resp\<rparr>) resp = Some (Some (rfc_ack oreq resp))"
    unfolding rfc_ack_def using assms(5) by (intro ict_create_ack_eq assms(6,9)) simp
  show ?thesis
    using assms(2)
    by (elim disjE) (simp_all add: execute_unfold ict_transition_def mk_transition_def ict_rcv_3456xx_def assms ack
        transport_ok_def [THEN iffD1, OF assms(10)])
qed

section \<open>Queues during a run\<close>

lemma run_queue:
  assumes "transaction_inv t" "\<forall>i \<in> set is. input_ok i"
    and "machine_run transaction_exec t is = Some (t', as)"
  shows "transactionff t' = transactionff t"
  using assms
proof (induction "is" arbitrary: t as)
  case (Cons i "is")
  from Cons.prems obtain r t1 bs cs where s: "transaction_exec t i = Some (r, t1, bs)"
      "machine_run transaction_exec t1 is = Some (t', cs)"
    by (auto simp: bind_eq_Some_conv)
  have "step_ok (fst i) t (snd i) t1 bs" using transaction_exec_step Cons.prems(1,2) s(1) by auto
  then have "transaction_inv t1" "transactionff t1 = transactionff t" by (simp_all add: step_ok_def same_frame_def)
  with Cons.IH [OF _ _ s(2)] Cons.prems(2) show ?case by simp
qed simp

end
