(* ===== verification/Osip_Samples.thy ===== *)
theory Osip_Samples
  imports Osip_Api Osip_Dialog_Inv Osip_Retransmit
begin

text \<open>
  Concrete messages, transactions and configurations at which the properties are applied: an
  exchange between \<open>sip:bob@b\<close> and a client at host \<open>a\<close> over UDP.
\<close>

definition s_uri :: osip_uri where
  "s_uri = \<lparr>uri_scheme = Some ''sip'', uri_username = Some ''bob'', uri_password = None, uri_host = Some ''b'',
     uri_port = None, url_params = [], url_headers = [], uri_string = None\<rparr>"

definition s_header :: "string \<Rightarrow> osip_from" where
  "s_header tag = \<lparr>displayname = None, url = Some s_uri, gen_params = [\<lparr>gname = ''tag'', gvalue = Some tag\<rparr>]\<rparr>"

definition s_via :: osip_via where
  "s_via = \<lparr>via_version = Some ''2.0'', via_protocol = Some ''UDP'', via_host = Some ''a'', via_port = None,
     via_comment = None, via_params = [\<lparr>gname = ''branch'', gvalue = Some ''z9hG4bK1''\<rparr>]\<rparr>"

definition s_headers :: "string \<Rightarrow> osip_message" where
  "s_headers meth = osip_message_init\<lparr>sip_version := Some ''SIP/2.0'',
     msg_call_id := Some \<lparr>cid_number = Some ''7'', cid_host = None\<rparr>,
     msg_cseq := Some \<lparr>cseq_method = Some meth, cseq_number = Some ''1''\<rparr>,
     msg_from := Some (s_header ''f''), msg_to := Some (s_header ''t''), vias := [s_via]\<rparr>"

definition s_request :: "string \<Rightarrow> osip_message" where
  "s_request meth = (s_headers meth)\<lparr>req_uri := Some s_uri, sip_method := Some meth\<rparr>"

definition s_response :: "int \<Rightarrow> string \<Rightarrow> osip_message" where
  "s_response code meth = (s_headers meth)\<lparr>status_code := code\<rparr>"

definition s_event :: "type_t \<Rightarrow> osip_message option \<Rightarrow> osip_event" where
  "s_event ty m = \<lparr>ev_type = ty, ev_transactionid = 0, ev_sip = m\<rparr>"

definition s_time :: timeval where
  "s_time = \<lparr>tv_sec = 100, tv_usec = 0\<rparr>"

definition s_cfg :: osip_cfg where
  "s_cfg = \<lparr>cb_send_message = (\<lambda>tr m h p s. 0), msg_callbacks = (\<lambda>x. True), kill_callbacks = (\<lambda>x. True),
     tp_error_callbacks = (\<lambda>x. True), gettimeofday = (\<lambda>k. s_time), systime = s_time\<rparr>"

definition s_transaction :: "osip_fsm_type_t \<Rightarrow> state_t \<Rightarrow> string \<Rightarrow> osip_transaction" where
  "s_transaction ty st meth =
     (set_keys transaction_zero (s_request meth))\<lparr>transactionid := 1, transactionff := Some osip_fifo_init,
       ctx_type := ty, tr_state := st, out_socket := -1\<rparr>"

definition s_ict :: "state_t \<Rightarrow> osip_transaction" where
  "s_ict st = (s_transaction ICT st ''INVITE'')\<lparr>orig_request := Some (s_request ''INVITE''),
     ict_context := Ptr (ict_zero\<lparr>timer_a_length := DEFAULT_T1, timer_a_start := s_time,
       timer_b_start := s_time\<lparr>tv_sec := 132\<rparr>, timer_d_start := tv_off, ict_destination := Some ''b'', ict_port := 5060\<rparr>)\<rparr>"

definition s_ict_new :: osip_transaction where
  "s_ict_new = (s_ict ICT_PRE_CALLING)\<lparr>orig_request := None\<rparr>"

definition s_ict_completed :: osip_transaction where
  "s_ict_completed = (s_ict ICT_COMPLETED)\<lparr>last_response := Some (s_response 486 ''INVITE''),
     tr_ack := Some (s_request ''ACK'')\<rparr>"

definition s_nict :: "state_t \<Rightarrow> osip_transaction" where
  "s_nict st = (s_transaction NICT st ''OPTIONS'')\<lparr>orig_request := Some (s_request ''OPTIONS''),
     nict_context := Ptr (nict_zero\<lparr>timer_e_length := DEFAULT_T1, timer_k_length := DEFAULT_T4,
       nict_destination := Some ''b'', nict_port := 5060\<rparr>)\<rparr>"

definition s_ist :: "state_t \<Rightarrow> osip_transaction" where
  "s_ist st = (s_transaction IST st ''INVITE'')\<lparr>orig_request := Some (s_request ''INVITE''),
     last_response := Some (s_response 486 ''INVITE''), ist_context := Ptr (ist_zero\<lparr>timer_g_length := DEFAULT_T1\<rparr>)\<rparr>"

definition s_nist :: "state_t \<Rightarrow> osip_transaction" where
  "s_nist st = (s_transaction NIST st ''OPTIONS'')\<lparr>orig_request := Some (s_request ''OPTIONS''),
     last_response := Some (s_response 200 ''OPTIONS''), nist_context := Ptr nist_zero\<rparr>"

lemmas sample_msg_defs = s_uri_def s_header_def s_via_def s_headers_def s_request_def s_response_def
  s_event_def s_time_def osip_message_init_def

lemmas sample_defs = sample_msg_defs s_cfg_def s_transaction_def s_ict_def s_ict_new_def
  s_ict_completed_def s_nict_def s_ist_def s_nist_def set_keys_def

lemma s_event_simps [simp]: "ev_type (s_event ty m) = ty" "ev_sip (s_event ty m) = m"
  by (simp_all add: s_event_def)

lemma s_transaction_simps [simp]:
  "tr_state (s_ict st) = st" "ctx_type (s_ict st) = ICT"
  "tr_state s_ict_new = ICT_PRE_CALLING" "ctx_type s_ict_new = ICT"
  "tr_state s_ict_completed = ICT_COMPLETED" "ctx_type s_ict_completed = ICT"
  "tr_state (s_nict st) = st" "ctx_type (s_nict st) = NICT"
  "tr_state (s_ist st) = st" "ctx_type (s_ist st) = IST"
  "tr_state (s_nist st) = st" "ctx_type (s_nist st) = NIST"
  by (simp_all add: sample_defs)

lemma s_transaction_inv:
  "transaction_inv s_ict_new" "transaction_inv (s_ict ICT_CALLING)" "transaction_inv s_ict_completed"
  "transaction_inv (s_ict ICT_TERMINATED)" "transaction_inv (s_nict NICT_TRYING)"
  "transaction_inv (s_ist IST_COMPLETED)" "transaction_inv (s_nist NIST_COMPLETED)"
  by (simp_all add: inv_defs sample_defs transaction_zero_def via_ok_def cseq_ok_def call_id_ok_def timer_consts)

lemma s_event_ok:
  "event_ok (s_event SND_REQINVITE (Some (s_request ''INVITE'')))"
  "event_ok (s_event RCV_REQINVITE (Some (s_request ''INVITE'')))"
  "event_ok (s_event RCV_REQUEST (Some (s_request ''OPTIONS'')))"
  "event_ok (s_event RCV_STATUS_3456XX (Some (s_response 486 ''INVITE'')))"
  "event_ok (s_event RCV_STATUS_2XX (Some (s_response 200 ''INVITE'')))"
  by (simp_all add: event_ok_def EVT_IS_MSG_type sample_msg_defs)

lemma s_messages_ok:
  "request_ok (s_request meth)" "response_ok (s_response code meth)" "init_ok (s_request meth)"
  "dialog_headers_ok (s_response code meth)"
  by (simp_all add: request_ok_def response_ok_def init_ok_def dialog_headers_ok_def sample_msg_defs uri_ok_def via_ok_def
      from_ok_def call_id_ok_def cseq_ok_def)

lemma s_transport_ok: "transport_ok s_cfg"
  by (simp add: transport_ok_def s_cfg_def)

end
