(* ===== verification/Mpeg_Buffer.thy ===== *)
theory Mpeg_Buffer
  imports Osip_Prelude "HOL-Library.Word"
begin

text \<open>
  Byte buffers and bit fields, the vocabulary of the MPEG library (src/file/libmpeg).

  A buffer is the list of its bytes and a pointer into it an \<open>int\<close> offset, so that pointer
  arithmetic is plain arithmetic; reading or writing outside the buffer is undefined behaviour.  A
  packed struct is the list of its bytes.  The bit fields of a byte are listed from the least
  significant one, as gcc lays them out on little-endian machines (the library refuses others), and
  since they are declared with the type \<open>char\<close>, which is signed on x86, reading one sign-extends it.
\<close>

unbundle bit_operations_syntax

named_theorems frame_simps "operations that touch only one part of a buffer"

type_synonym byte = "8 word"
type_synonym bytes = "byte list"

section \<open>Memory accesses\<close>

definition peek :: "bytes \<Rightarrow> int \<Rightarrow> byte ub" where
  "peek buf i = (if 0 \<le> i \<and> i < int (length buf) then Some (buf ! nat i) else UB)"

text \<open>\<open>store buf i src\<close> writes the bytes \<open>src\<close> from offset \<open>i\<close> on; \<open>slice buf i n\<close> reads \<open>n\<close> bytes.  The
  count of \<open>memcpy\<close> and \<open>memset\<close> is a \<open>size_t\<close>: a negative \<open>int\<close> becomes a huge count.\<close>

definition store :: "bytes \<Rightarrow> int \<Rightarrow> bytes \<Rightarrow> bytes ub" where
  "store buf i src =
     (if src = [] then Some buf
      else if 0 \<le> i \<and> i + int (length src) \<le> int (length buf)
      then Some (take (nat i) buf @ src @ drop (nat i + length src) buf) else UB)"

definition slice :: "bytes \<Rightarrow> int \<Rightarrow> int \<Rightarrow> bytes ub" where
  "slice buf i n =
     (if n = 0 then Some []
      else if 0 \<le> i \<and> 0 \<le> n \<and> i + n \<le> int (length buf) then Some (take (nat n) (drop (nat i) buf))
      else UB)"

definition memset :: "bytes \<Rightarrow> int \<Rightarrow> byte \<Rightarrow> int \<Rightarrow> bytes ub" where
  "memset buf i b n = (if n < 0 then UB else store buf i (replicate (nat n) b))"

definition memcpy :: "bytes \<Rightarrow> int \<Rightarrow> bytes \<Rightarrow> int \<Rightarrow> int \<Rightarrow> bytes ub" where
  "memcpy buf i src j n = do { s \<leftarrow> slice src j n; store buf i s }"

text \<open>An element of an array inside a struct, and the increment of an \<open>int\<close>.\<close>

definition array_get :: "'a list \<Rightarrow> int \<Rightarrow> 'a ub" where
  "array_get xs i = (if 0 \<le> i \<and> i < int (length xs) then Some (xs ! nat i) else UB)"

definition incr :: "int \<Rightarrow> int ub" where
  "incr x = (if x < INT_MAX then Some (x + 1) else UB)"

section \<open>Bit fields\<close>

text \<open>\<open>bitfields [(w, v), ...]\<close> is the byte whose fields of widths \<open>w\<close> were assigned the values \<open>v\<close>.\<close>

fun pack_fields :: "(nat \<times> int) list \<Rightarrow> int" where
  "pack_fields [] = 0"
| "pack_fields ((w, v) # fs) = take_bit w v + 2 ^ w * pack_fields fs"

definition bitfields :: "(nat \<times> int) list \<Rightarrow> byte" where
  "bitfields fs = word_of_int (pack_fields fs)"

definition get_field :: "nat \<Rightarrow> nat \<Rightarrow> byte \<Rightarrow> int" where
  \<comment> \<open>the signed bit field of width \<open>w\<close> at bit \<open>p\<close>\<close>
  "get_field p w b = signed_take_bit (w - 1) (drop_bit p (uint b))"

definition put_field :: "nat \<Rightarrow> nat \<Rightarrow> int \<Rightarrow> byte \<Rightarrow> byte" where
  "put_field p w v b = word_of_int (take_bit p (uint b) + 2 ^ p * (take_bit w v + 2 ^ w * drop_bit (p + w) (uint b)))"

text \<open>\<open>u8 x\<close> is the value of \<open>(uint8_t) x\<close>, \<open>u16 x\<close> that of \<open>(uint16_t) x\<close>, \<open>short x\<close> that of
  \<open>(int16_t) x\<close>, \<open>schar b\<close> that of a
  \<open>char\<close> with the byte \<open>b\<close>; \<open>CHAR_TO_LENGTH\<close> and \<open>BUF2U16\<close> are the macros of the sources.\<close>

definition u8 :: "int \<Rightarrow> int" where
  "u8 x = take_bit 8 x"

definition u16 :: "int \<Rightarrow> int" where
  "u16 x = take_bit 16 x"

definition short :: "int \<Rightarrow> int" where
  "short x = signed_take_bit 15 x"

definition schar :: "byte \<Rightarrow> int" where
  "schar b = sint b"

definition CHAR_TO_LENGTH :: "int \<Rightarrow> int \<Rightarrow> int" where
  "CHAR_TO_LENGTH h l = push_bit 8 (u8 h) OR u8 l"

definition BUF2U16 :: "int \<Rightarrow> int \<Rightarrow> int" where
  "BUF2U16 b0 b1 = push_bit 8 b0 OR b1"

section \<open>Buffers in parts\<close>

lemma store_Nil [simp]: "store buf i [] = Some buf"
  by (simp add: store_def)

lemma store_tail [frame_simps]:
  assumes "0 \<le> k"
  shows "store (pre @ rest) (int (length pre) + k) src = map_option ((@) pre) (store rest k src)"
  using assms by (auto simp: store_def nat_add_distrib)

lemma store_tail_0 [frame_simps]:
  "store (pre @ rest) (int (length pre)) src = map_option ((@) pre) (store rest 0 src)"
  using store_tail [of 0 pre rest src] by simp

lemma store_at_0: "length src \<le> length buf \<Longrightarrow> store buf 0 src = Some (src @ drop (length src) buf)"
  by (simp add: store_def)

lemma store_after:
  assumes "length xs = nat k" "0 \<le> k" "length src \<le> length rest"
  shows "store (xs @ rest) k src = Some (xs @ src @ drop (length src) rest)"
  using assms by (auto simp: store_def)

lemma store_length: "store buf i src = Some buf' \<Longrightarrow> length buf' = length buf"
  by (auto simp: store_def split: if_splits)

lemma memset_length: "memset buf i b n = Some buf' \<Longrightarrow> length buf' = length buf"
  by (auto simp: memset_def dest: store_length split: if_splits)

lemma peek_tail [frame_simps]:
  "0 \<le> i \<Longrightarrow> peek (pre @ buf) (int (length pre) + i) = peek buf i"
  "peek (pre @ buf) (int (length pre)) = peek buf 0"
  by (simp_all add: peek_def nth_append nat_add_distrib)

lemma peek_nth: "i < length buf \<Longrightarrow> peek buf (int i) = Some (buf ! i)"
  by (simp add: peek_def)

lemma peek_mid: "k < length e \<Longrightarrow> peek (a @ e @ b) (int (length a) + int k) = Some (e ! k)"
  by (simp add: peek_def nth_append nat_add_distrib)

lemma slice_tail [frame_simps]:
  "0 \<le> i \<Longrightarrow> slice (pre @ buf) (int (length pre) + i) n = slice buf i n"
  "slice (pre @ buf) (int (length pre)) n = slice buf 0 n"
  by (auto simp: slice_def nat_add_distrib)

lemma slice_take: "n \<le> length buf \<Longrightarrow> slice buf 0 (int n) = Some (take n buf)"
  by (simp add: slice_def)

lemma slice_all: "slice buf 0 (int (length buf)) = Some buf"
  by (simp add: slice_take)

section \<open>Reading back bit fields\<close>

lemma take_bit_bound: "0 \<le> take_bit w (v :: int)" "take_bit w (v :: int) < 2 ^ w"
  by simp_all

lemma pack_head [simp]:
  "take_bit w (take_bit w v + 2 ^ w * x) = take_bit w (v :: int)"
  "drop_bit w (take_bit w v + 2 ^ w * x) = (x :: int)"
  by (simp_all add: take_bit_eq_mod drop_bit_eq_div)

lemma pack_fields_bound: "0 \<le> pack_fields fs \<and> pack_fields fs < 2 ^ sum_list (map fst fs)"
proof (induction fs rule: pack_fields.induct)
  case (2 w v fs)
  have "take_bit w v + 2 ^ w * pack_fields fs < 2 ^ w * (1 + pack_fields fs)"
    using take_bit_bound(2) [of w v] by (simp add: distrib_left)
  also have "\<dots> \<le> 2 ^ w * 2 ^ sum_list (map fst fs)"
    using 2 by (intro mult_left_mono) auto
  finally show ?case
    using 2 take_bit_bound(1) [of w v] by (simp add: power_add)
qed simp

lemma uint_bitfields:
  assumes "sum_list (map fst fs) = 8"
  shows "uint (bitfields fs) = pack_fields fs"
  using pack_fields_bound [of fs] assms
  by (simp add: bitfields_def uint_word_of_int_eq take_bit_int_eq_self)

lemma pack_fields_append:
  "pack_fields (xs @ ys) = pack_fields xs + 2 ^ sum_list (map fst xs) * pack_fields ys"
  by (induction xs rule: pack_fields.induct) (simp_all add: distrib_left power_add)

lemma pack_split:
  assumes "0 \<le> (a :: int)" "a < 2 ^ p"
  shows "take_bit p (a + 2 ^ p * b) = a" "drop_bit p (a + 2 ^ p * b) = b"
  using assms by (simp_all add: take_bit_eq_mod drop_bit_eq_div)

lemma fields_at:
  assumes "sum_list (map fst xs) = p" "sum_list (map fst (xs @ (w, v) # ys)) = 8"
  shows "take_bit p (uint (bitfields (xs @ (w, v) # ys))) = pack_fields xs"
    and "drop_bit p (uint (bitfields (xs @ (w, v) # ys))) = take_bit w v + 2 ^ w * pack_fields ys"
    and "drop_bit (p + w) (uint (bitfields (xs @ (w, v) # ys))) = pack_fields ys"
proof -
  have u: "uint (bitfields (xs @ (w, v) # ys)) = pack_fields xs + 2 ^ p * (take_bit w v + 2 ^ w * pack_fields ys)"
    using assms by (simp add: uint_bitfields pack_fields_append)
  show "take_bit p (uint (bitfields (xs @ (w, v) # ys))) = pack_fields xs"
    and d: "drop_bit p (uint (bitfields (xs @ (w, v) # ys))) = take_bit w v + 2 ^ w * pack_fields ys"
    unfolding u using pack_fields_bound [of xs] assms(1) by (simp_all add: pack_split)
  have "drop_bit (p + w) (uint (bitfields (xs @ (w, v) # ys))) = drop_bit w (drop_bit p (uint (bitfields (xs @ (w, v) # ys))))"
    by (simp add: drop_bit_drop_bit add.commute)
  then show "drop_bit (p + w) (uint (bitfields (xs @ (w, v) # ys))) = pack_fields ys"
    unfolding d by simp
qed

text \<open>Assigning and reading the field between \<open>xs\<close> and \<open>ys\<close>.\<close>

lemma put_field_bitfields:
  assumes "sum_list (map fst xs) = p" "sum_list (map fst (xs @ (w, v) # ys)) = 8"
  shows "put_field p w v' (bitfields (xs @ (w, v) # ys)) = bitfields (xs @ (w, v') # ys)"
  using fields_at [OF assms] assms(1)
  by (simp add: put_field_def bitfields_def pack_fields_append)

lemma get_field_bitfields:
  assumes "sum_list (map fst xs) = p" "sum_list (map fst (xs @ (w, v) # ys)) = 8" "0 < w"
  shows "get_field p w (bitfields (xs @ (w, v) # ys)) = signed_take_bit (w - 1) v"
  using fields_at(2) [OF assms(1,2)] assms(3)
  by (simp add: get_field_def signed_take_bit_eq_iff_take_bit_eq)

lemma u8_id [simp]: "0 \<le> x \<Longrightarrow> x < 256 \<Longrightarrow> u8 x = x"
  by (simp add: u8_def take_bit_int_eq_self)

lemma u16_id: "0 \<le> x \<Longrightarrow> x < 65536 \<Longrightarrow> u16 x = x"
  by (simp add: u16_def take_bit_int_eq_self)

lemma short_id: "- 32768 \<le> x \<Longrightarrow> x < 32768 \<Longrightarrow> short x = x"
  by (simp add: short_def signed_take_bit_int_eq_self)

lemma u8_uint [simp]: "u8 (uint (b :: byte)) = uint b"
  using uint_lt2p [of b] by simp

end
