(* ===== verification/Mpeg_Pes.thy ===== *)
theory Mpeg_Pes
  imports Mpeg_Buffer
begin

text \<open>
  The packetised elementary stream layer: src/file/libmpeg/pes.c with pes.h and the program
  description of typedefs.h.  A PES packet is a header of 19 bytes with the time stamp, followed by a
  piece of the elementary stream.
\<close>

section \<open>Program description (typedefs.h, pes.h)\<close>

definition MAX_STREAM_NUM :: int where "MAX_STREAM_NUM = 4"
definition MAX_PROGRAM_NUM :: int where "MAX_PROGRAM_NUM = 1"
definition MIN_PES_LENGTH :: int where "MIN_PES_LENGTH = 1000"
definition MAX_PES_LENGTH :: int where "MAX_PES_LENGTH = 65000"

record TsStreamSpec =
  st_type :: byte
  st_stream_id :: byte
  es_pid :: int
  continuity_counter :: int

text \<open>\<open>stream\<close> is an array of \<open>MAX_STREAM_NUM\<close> and \<open>prog\<close> one of \<open>MAX_PROGRAM_NUM\<close> elements; the counts
  are separate fields that the application or the demultiplexer fills in.\<close>

record TsProgramSpec =
  stream_num :: int
  key_stream_id :: int
  pmt_pid :: int
  mux_rate :: int
  stream :: "TsStreamSpec list"

record TsProgramInfo =
  program_num :: int
  pat_pmt_counter :: int
  prog :: "TsProgramSpec list"

text \<open>A frame of an elementary stream.  \<open>fr_frame\<close> points to a buffer of its own; \<open>fr_segcb\<close> tells whether
  a segment callback is registered.\<close>

record TEsFrame =
  fr_program_number :: int
  fr_stream_number :: int
  fr_frame :: "bytes option"
  fr_length :: int
  fr_is_key :: int
  fr_pts :: "64 word"
  fr_ps_pes_length :: int
  fr_segcb :: bool

section \<open>Stream types\<close>

definition lts_is_video :: "int \<Rightarrow> bool" where
  "lts_is_video type \<longleftrightarrow> type \<in> {0x01, 0x02, 0x10, 0x1b, 0x24, 0x42, 0xea, 0xd1}"

definition lts_is_audio :: "int \<Rightarrow> bool" where
  "lts_is_audio type \<longleftrightarrow> type \<in> {0x03, 0x04, 0x0f, 0x11, 0x81, 0x82, 0x83}"

definition lts_pes_stream_id :: "int \<Rightarrow> int \<Rightarrow> int \<Rightarrow> byte" where
  "lts_pes_stream_id type program_number stream_number =
     (if lts_is_video type then word_of_int (0xE0 + program_number * MAX_STREAM_NUM + stream_number)
      else if lts_is_audio type then word_of_int (0xC0 + program_number * MAX_STREAM_NUM + stream_number)
      else 0)"

section \<open>Writing the header\<close>

text \<open>The five bytes of a time stamp with its four-bit prefix, and the PTS and DTS fields.\<close>

definition pts_field :: "byte \<Rightarrow> 64 word \<Rightarrow> bytes" where
  "pts_field prefix ts =
     [ucast (push_bit 1 (drop_bit 30 ts AND 0x07)) OR prefix OR 0x01,
      ucast (drop_bit 22 ts AND 0xff),
      ucast (push_bit 1 (drop_bit 15 ts AND 0xff)) OR 0x01,
      ucast (drop_bit 7 ts AND 0xff),
      ucast (push_bit 1 (ts AND 0xff)) OR 0x01]"

definition make_pes_pts_dts :: "bytes \<Rightarrow> int \<Rightarrow> 64 word \<Rightarrow> bytes ub" where
  "make_pes_pts_dts buf i ts = store buf i (pts_field 0x30 ts @ pts_field 0x10 ts)"

text \<open>\<open>pes_head_flags\<close> with \<open>reserved = 2\<close> and \<open>PTS_DTS_flags = 3\<close>.\<close>

definition pes_head_flags :: bytes where
  "pes_head_flags =
     [bitfields [(1, 0), (1, 0), (1, 0), (1, 0), (2, 0), (2, 2)],
      bitfields [(1, 0), (1, 0), (1, 0), (1, 0), (1, 0), (1, 0), (2, 3)]]"

definition lts_pes_make_header ::
  "byte \<Rightarrow> 64 word \<Rightarrow> int \<Rightarrow> bytes \<Rightarrow> int \<Rightarrow> int \<Rightarrow> (int \<times> bytes) ub" where
  "lts_pes_make_header stream_id pts es_len buf dest maxlen =
     (let pes_packet_length = (if es_len + 13 > 65535 then 0 else es_len + 13)
      in if maxlen > 0 \<and> 19 + es_len > maxlen then Some (-1, buf)
         else do {
           buf \<leftarrow> store buf dest [0, 0, 1];
           buf \<leftarrow> store buf (dest + 3) [stream_id];
           buf \<leftarrow> store buf (dest + 4) [word_of_int (drop_bit 8 pes_packet_length), word_of_int pes_packet_length];
           buf \<leftarrow> store buf (dest + 6) pes_head_flags;
           buf \<leftarrow> store buf (dest + 8) [10];
           buf \<leftarrow> make_pes_pts_dts buf (dest + 9) pts;
           Some (19, buf)
         })"

section \<open>Reading the header\<close>

definition get_pes_head_len :: "bytes \<Rightarrow> int \<Rightarrow> int \<Rightarrow> int ub" where
  "get_pes_head_len buf pes len =
     (if len < 9 then Some 0
      else do {
        b0 \<leftarrow> peek buf pes;
        b1 \<leftarrow> peek buf (pes + 1);
        b2 \<leftarrow> peek buf (pes + 2);
        if b0 = 0 \<and> b1 = 0 \<and> b2 = 1 then do {
          b3 \<leftarrow> peek buf (pes + 3);
          if b3 AND 0xC0 \<noteq> 0 \<or> b3 AND 0xE0 \<noteq> 0 then do {
            b8 \<leftarrow> peek buf (pes + 8);
            Some (9 + uint b8)
          } else Some 0
        } else Some 0
      })"

definition parse_pts :: "byte \<Rightarrow> byte \<Rightarrow> byte \<Rightarrow> byte \<Rightarrow> byte \<Rightarrow> 64 word" where
  "parse_pts p0 p1 p2 p3 p4 =
     (push_bit 29 (ucast p0 AND 0x0E) OR push_bit 22 (ucast p1) OR push_bit 14 (ucast p2 AND 0xFE)
      OR push_bit 7 (ucast p3) OR drop_bit 1 (ucast p4 AND 0xFE)) div 90"

text \<open>The three last arguments are what the caller's pointers point to before the call, \<open>None\<close> for a
  NULL pointer; the result has what they point to afterwards.\<close>

definition lts_pes_parse_header ::
  "bytes \<Rightarrow> int \<Rightarrow> int \<Rightarrow> byte option \<Rightarrow> 64 word option \<Rightarrow> int option
   \<Rightarrow> (int \<times> byte option \<times> 64 word option \<times> int option) ub" where
  "lts_pes_parse_header buf pes len stream_id pts es_len = do {
     pes_head_len \<leftarrow> get_pes_head_len buf pes len;
     if pes_head_len \<le> 0 then Some (0, stream_id, pts, es_len)
     else do {
       stream_id \<leftarrow> (case stream_id of None \<Rightarrow> Some None | Some _ \<Rightarrow> map_option Some (peek buf (pes + 3)));
       pts \<leftarrow> (case pts of None \<Rightarrow> Some None
                | Some v \<Rightarrow> do {
                    flags_2 \<leftarrow> peek buf (pes + 7);
                    if flags_2 AND 0x80 \<noteq> 0 then do {
                      p0 \<leftarrow> peek buf (pes + 9);
                      p1 \<leftarrow> peek buf (pes + 10);
                      p2 \<leftarrow> peek buf (pes + 11);
                      p3 \<leftarrow> peek buf (pes + 12);
                      p4 \<leftarrow> peek buf (pes + 13);
                      Some (Some (parse_pts p0 p1 p2 p3 p4))
                    } else Some (Some v)
                  });
       es_len \<leftarrow> (case es_len of None \<Rightarrow> Some None
                   | Some _ \<Rightarrow> do {
                       b4 \<leftarrow> peek buf (pes + 4);
                       b5 \<leftarrow> peek buf (pes + 5);
                       b8 \<leftarrow> peek buf (pes + 8);
                       Some (Some (BUF2U16 (uint b4) (uint b5) - 3 - uint b8))
                     });
       Some (pes_head_len, stream_id, pts, es_len)
     }
   }"

section \<open>The header as a list of bytes\<close>

definition pes_header :: "byte \<Rightarrow> 64 word \<Rightarrow> int \<Rightarrow> bytes" where
  "pes_header stream_id pts es_len =
     [0, 0, 1, stream_id] @
     (let l = (if es_len + 13 > 65535 then 0 else es_len + 13) in [word_of_int (drop_bit 8 l), word_of_int l]) @
     [0x80, 0xC0, 10] @ pts_field 0x30 pts @ pts_field 0x10 pts"

lemma length_pts_field [simp]: "length (pts_field p ts) = 5"
  by (simp add: pts_field_def)

lemma length_pes_header [simp]: "length (pes_header sid pts n) = 19"
  by (simp add: pes_header_def Let_def)

lemma pes_head_flags_eq: "pes_head_flags = [0x80, 0xC0]"
  by (simp add: pes_head_flags_def bitfields_def take_bit_eq_mod)


text \<open>The masks of the code as shifted runs of ones, which bit reasoning can follow.\<close>

lemma mask_numerals:
  "(0x07 :: 64 word) = mask 3" "(0xff :: 64 word) = mask 8"
  "(0x0E :: 64 word) = push_bit 1 (mask 3)" "(0xFE :: 64 word) = push_bit 1 (mask 7)"
  "(0x01 :: byte) = mask 1"
  by (simp_all add: mask_numeral mask_Suc_0)

lemma parse_pts_field:
  assumes "\<And>n. bit p n \<Longrightarrow> 4 \<le> n"
  shows "(case pts_field p ts of [p0, p1, p2, p3, p4] \<Rightarrow> parse_pts p0 p1 p2 p3 p4 | _ \<Rightarrow> 0) = take_bit 33 ts div 90"
proof -
  have np: "\<not> bit p n" if "n < 4" for n
    using assms [of n] that by auto
  show ?thesis
    unfolding pts_field_def parse_pts_def list.case
  proof (intro arg_cong [where f = "\<lambda>x. x div 90"] bit_word_eqI)
    fix n
    assume "n < LENGTH(64)"
    then show "bit (push_bit 29 (ucast (ucast (push_bit 1 (drop_bit 30 ts AND 0x07)) OR p OR 0x01 :: byte) AND (0x0E :: 64 word))
        OR push_bit 22 (ucast (ucast (drop_bit 22 ts AND 0xff) :: byte))
        OR push_bit 14 (ucast (ucast (push_bit 1 (drop_bit 15 ts AND 0xff)) OR 0x01 :: byte) AND 0xFE)
        OR push_bit 7 (ucast (ucast (drop_bit 7 ts AND 0xff) :: byte))
        OR drop_bit 1 (ucast (ucast (push_bit 1 (ts AND 0xff)) OR 0x01 :: byte) AND 0xFE)) n
      = bit (take_bit 33 ts :: 64 word) n"
      unfolding mask_numerals
      by (simp only: bit_simps comp_apply possible_bit_word simp_thms)
        (cases "n < 7"; cases "n < 15"; cases "n < 22"; cases "n < 30"; cases "n < 33";
          simp add: np less_diff_conv2 le_diff_conv2)
  qed
qed

text \<open>\<open>lts_pes_make_header\<close> writes the 19 bytes of the header wherever there is room for them.\<close>

lemma pes_make_header_ok:
  assumes "19 \<le> length rest" "\<not> (maxlen > 0 \<and> 19 + n > maxlen)"
  shows "lts_pes_make_header sid pts n (pre @ rest) (int (length pre)) maxlen =
    Some (19, pre @ pes_header sid pts n @ drop 19 rest)"
  using assms
  by (simp add: lts_pes_make_header_def make_pes_pts_dts_def pes_header_def pes_head_flags_eq Let_def
      store_def nat_add_distrib pts_field_def)

lemma pes_make_header_small:
  "maxlen > 0 \<Longrightarrow> 19 + n > maxlen \<Longrightarrow> lts_pes_make_header sid pts n buf dest maxlen = Some (-1, buf)"
  by (simp add: lts_pes_make_header_def Let_def)

lemma BUF2U16_split:
  assumes "0 \<le> l" "l < 65536"
  shows "BUF2U16 (uint (word_of_int (drop_bit 8 l) :: byte)) (uint (word_of_int l :: byte)) = l"
proof -
  have "drop_bit 8 l < 256" using assms by (simp add: drop_bit_eq_div)
  moreover have "0 \<le> drop_bit 8 l" using assms by simp
  ultimately have hi: "uint (word_of_int (drop_bit 8 l) :: byte) = drop_bit 8 l"
    by (simp add: uint_word_of_int_eq take_bit_int_eq_self)
  have "push_bit 8 (drop_bit 8 l) OR take_bit 8 l = l"
    by (rule bit_eqI) (auto simp: bit_simps)
  then show ?thesis
    unfolding BUF2U16_def hi by (simp add: uint_word_of_int_eq)
qed

lemma and_C0_E0: "b AND 0xC0 \<noteq> 0 \<or> b AND 0xE0 \<noteq> 0 \<longleftrightarrow> b AND 0xE0 \<noteq> 0" for b :: byte
proof -
  have "b AND 0xC0 = (b AND 0xE0) AND 0xC0"
    by (simp add: and.assoc)
  then show ?thesis by auto
qed

text \<open>Reading a header that was written gives back its stream identifier, its time stamp modulo
  2^33 in milliseconds, and its length.\<close>

lemma pes_parse_header_ok:
  assumes "sid AND 0xE0 \<noteq> 0" "9 \<le> len" "0 \<le> n"
  shows "lts_pes_parse_header (pre @ pes_header sid pts n @ es) (int (length pre)) len sp (Some v) ep =
    Some (19, map_option (\<lambda>_. sid) sp, Some (take_bit 33 pts div 90),
          map_option (\<lambda>_. if n \<le> 65522 then n else -13) ep)"
proof -
  define l where "l = (if n + 13 > 65535 then 0 else n + 13)"
  have l: "0 \<le> l" "l < 65536" and ln: "l - 13 = (if n \<le> 65522 then n else -13)"
    using assms(3) by (auto simp: l_def)
  have pts: "parse_pts p0 p1 p2 p3 p4 = take_bit 33 pts div 90" if "pts_field 0x30 pts = [p0, p1, p2, p3, p4]" for p0 p1 p2 p3 p4
  proof -
    have "4 \<le> k" if "bit (0x30 :: byte) k" for k
      using that by (cases "k < 4") (auto simp: less_Suc_eq numeral_eq_Suc)
    from parse_pts_field [of "0x30" pts, OF this] that show ?thesis by simp
  qed
  obtain p0 p1 p2 p3 p4 where pf: "pts_field 0x30 pts = [p0, p1, p2, p3, p4]"
    by (simp add: pts_field_def)
  have h: "pes_header sid pts n = [0, 0, 1, sid, word_of_int (drop_bit 8 l), word_of_int l, 0x80, 0xC0, 10, p0, p1, p2, p3, p4]
      @ pts_field 0x10 pts"
    by (simp add: pes_header_def Let_def l_def pf)
  have head: "get_pes_head_len (pre @ pes_header sid pts n @ es) (int (length pre)) len = Some 19"
    using assms(1,2) by (simp add: h get_pes_head_len_def peek_def nat_add_distrib nth_append)
  show ?thesis
    using pts [OF pf] BUF2U16_split [OF l] ln
    by (cases sp; cases ep) (simp_all add: lts_pes_parse_header_def head [unfolded h, simplified] h peek_def nat_add_distrib nth_append)
qed

end
