(* ===== verification/Mpeg_Ts_Mux.thy ===== *)
theory Mpeg_Ts_Mux
  imports Mpeg_Pes
begin

text \<open>
  The transport stream multiplexer: src/file/libmpeg/tsmux.c.  \<open>lts_ts_stream\<close> turns a frame into
  transport packets of 188 bytes, preceded, for a key frame, by the program association table (PAT)
  and one program map table (PMT) per program.

  The bytes of a header or table are written with one \<open>store\<close>; the bit fields are in the order of
  the packed structs of typedefs.h.
\<close>

section \<open>Identifiers and checksum\<close>

definition TS_STREAM_ID :: int where "TS_STREAM_ID = 0x0010"
definition TS_PMT_ID_BASE :: int where "TS_PMT_ID_BASE = 0x1000"

definition get_ts_pmt_id :: "int \<Rightarrow> int" where
  "get_ts_pmt_id program_number = u16 (TS_PMT_ID_BASE + u16 program_number)"

definition get_ts_stream_id :: "int \<Rightarrow> int \<Rightarrow> int" where
  "get_ts_stream_id program_number stream_number = u16 (0x0100 + program_number * MAX_STREAM_NUM + stream_number)"

text \<open>One round of the loop of \<open>CRC_encode\<close> with the next bit of the data, one byte, and all of it.\<close>

definition crc_bit :: "32 word \<Rightarrow> bool \<Rightarrow> 32 word" where
  "crc_bit CRC b = (if bit CRC 31 \<noteq> b then push_bit 1 CRC XOR 0x04c11db7 else push_bit 1 CRC)"

definition crc_byte :: "32 word \<Rightarrow> byte \<Rightarrow> 32 word" where
  "crc_byte CRC d = foldl crc_bit CRC (map (bit d) [7, 6, 5, 4, 3, 2, 1, 0])"

definition CRC_encode :: "bytes \<Rightarrow> 32 word" where
  "CRC_encode data = foldl crc_byte 0xffffffff data"

definition crc_bytes :: "32 word \<Rightarrow> bytes" where
  "crc_bytes crc32 = [ucast (drop_bit 24 crc32), ucast (drop_bit 16 crc32), ucast (drop_bit 8 crc32), ucast crc32]"

section \<open>Packet headers\<close>

definition make_ts_pcr :: "bytes \<Rightarrow> int \<Rightarrow> 64 word \<Rightarrow> bytes ub" where
  "make_ts_pcr buf i ts =
     store buf i [ucast (drop_bit 25 ts), ucast (drop_bit 17 ts), ucast (drop_bit 9 ts), ucast (drop_bit 1 ts),
                  ucast (push_bit 7 (ts AND 1) OR 0x7e), 0x00]"

text \<open>\<open>ts_header\<close>: \<open>sync_byte\<close>; \<open>PID_high5\<close>, \<open>transport_priority\<close>, \<open>payload_unit_start_indicator\<close>,
  \<open>transport_error_indicator\<close>; \<open>PID_low8\<close>; \<open>continuity_counter\<close>, \<open>adaptation_field_control\<close>,
  \<open>transport_scrambling_control\<close>; \<open>adaptation_field_length\<close>; the eight adaptation flags.\<close>

definition gen_ts_packet_header :: "bytes \<Rightarrow> int \<Rightarrow> int \<Rightarrow> int \<Rightarrow> (int \<times> bytes) ub" where
  "gen_ts_packet_header buf pkt PID payload_len =
     (let adaptation_field_length = u8 (188 - 4 - 1 - payload_len)
      in do {
        buf \<leftarrow> store buf pkt
          [0x47,
           bitfields [(5, u8 (drop_bit 8 PID) AND 0x1f), (1, 0), (1, 1), (1, 0)],
           word_of_int PID,
           bitfields [(4, 0), (2, 3), (2, 0)],
           word_of_int adaptation_field_length,
           bitfields [(1, 0), (1, 0), (1, 0), (1, 0), (1, 0), (1, 0), (1, 0), (1, 0)]];
        buf \<leftarrow> memset buf (pkt + 6) 0xff (adaptation_field_length - 1);
        Some (188 - payload_len, buf)
      })"

definition set_ts_header_counter :: "bytes \<Rightarrow> int \<Rightarrow> int \<Rightarrow> bytes ub" where
  "set_ts_header_counter buf pkt counter = do {
     b \<leftarrow> peek buf (pkt + 3);
     store buf (pkt + 3) [put_field 0 4 (counter AND 0x0f) b]
   }"

definition set_ts_header_with_pcr :: "bytes \<Rightarrow> int \<Rightarrow> 64 word \<Rightarrow> bytes ub" where
  "set_ts_header_with_pcr buf pkt ts = do {
     b1 \<leftarrow> peek buf (pkt + 1);
     buf \<leftarrow> store buf (pkt + 1) [put_field 6 1 1 b1];
     b5 \<leftarrow> peek buf (pkt + 5);
     buf \<leftarrow> store buf (pkt + 5) [put_field 4 1 1 b5];
     make_ts_pcr buf (pkt + 6) ts
   }"

definition set_ts_header_without_pcr :: "bytes \<Rightarrow> int \<Rightarrow> bytes ub" where
  "set_ts_header_without_pcr buf pkt = do {
     b1 \<leftarrow> peek buf (pkt + 1);
     store buf (pkt + 1) [put_field 6 1 0 b1]
   }"

section \<open>Tables\<close>

text \<open>\<open>pat_section\<close> (8 bytes) and one \<open>pat_map_array\<close> entry (4 bytes).\<close>

definition pat_section :: "int \<Rightarrow> bytes" where
  "pat_section pat_section_len =
     [0x00,
      bitfields [(4, u8 (drop_bit 8 pat_section_len) AND 0x0f), (2, 3), (1, 0), (1, 1)],
      word_of_int pat_section_len,
      word_of_int (drop_bit 8 TS_STREAM_ID), word_of_int TS_STREAM_ID,
      bitfields [(1, 1), (5, 0), (2, 3)],
      0x00, 0x00]"

definition pat_map_array :: "int \<Rightarrow> bytes" where
  "pat_map_array i =
     (let program_number = i + 1; pmt_id = get_ts_pmt_id program_number
      in [word_of_int (drop_bit 8 program_number), word_of_int program_number,
          bitfields [(5, u8 (drop_bit 8 pmt_id) AND 0x1f), (3, 7)],
          word_of_int pmt_id])"

definition gen_pat_ts_packet :: "bytes \<Rightarrow> int \<Rightarrow> TsProgramInfo \<Rightarrow> bytes ub" where
  "gen_pat_ts_packet buf pkt pi =
     (let pat_len = 8 + program_num pi * 4 + 4; pat_section_len = 5 + program_num pi * 4 + 4
      in do {
        (start_pos, buf) \<leftarrow> gen_ts_packet_header buf pkt 0 (pat_len + 1);
        buf \<leftarrow> set_ts_header_counter buf pkt (pat_pmt_counter pi);
        buf \<leftarrow> store buf (pkt + start_pos) [0];
        buf \<leftarrow> store buf (pkt + start_pos + 1) (pat_section pat_section_len);
        buf \<leftarrow> store buf (pkt + start_pos + 9) (concat (map pat_map_array [0..program_num pi - 1]));
        pat \<leftarrow> slice buf (pkt + start_pos + 1) (pat_len - 4);
        store buf (pkt + start_pos + 9 + program_num pi * 4) (crc_bytes (CRC_encode pat))
      })"

text \<open>\<open>pmt_section\<close> (12 bytes) and one \<open>pmt_stream_array\<close> entry (5 bytes).\<close>

definition pmt_section :: "int \<Rightarrow> int \<Rightarrow> int \<Rightarrow> bytes" where
  "pmt_section pmt_section_len program_number PCR_PID =
     [0x02,
      bitfields [(4, u8 (drop_bit 8 pmt_section_len) AND 0x0f), (2, 3), (1, 0), (1, 1)],
      word_of_int pmt_section_len,
      word_of_int (drop_bit 8 program_number), word_of_int program_number,
      bitfields [(1, 1), (5, 0), (2, 3)],
      0x00, 0x00,
      bitfields [(5, u8 (drop_bit 8 PCR_PID) AND 0x1f), (3, 7)],
      word_of_int PCR_PID,
      bitfields [(4, 0), (4, 15)],
      0]"

definition pmt_stream_array :: "int \<Rightarrow> TsProgramSpec \<Rightarrow> int \<Rightarrow> bytes ub" where
  "pmt_stream_array pno ps i = do {
     s \<leftarrow> array_get (stream ps) i;
     let elementary_PID = get_ts_stream_id pno i;
     Some [st_type s,
           bitfields [(5, u8 (drop_bit 8 elementary_PID) AND 0x1f), (3, 7)],
           word_of_int elementary_PID,
           bitfields [(4, 0), (4, 15)],
           0]
   }"

fun pmt_streams :: "int \<Rightarrow> TsProgramSpec \<Rightarrow> int list \<Rightarrow> bytes ub" where
  "pmt_streams pno ps [] = Some []"
| "pmt_streams pno ps (i # is) = do {
     s \<leftarrow> pmt_stream_array pno ps i;
     ss \<leftarrow> pmt_streams pno ps is;
     Some (s @ ss)
   }"

definition gen_pmt_ts_packet :: "bytes \<Rightarrow> int \<Rightarrow> int \<Rightarrow> TsProgramSpec \<Rightarrow> bytes ub" where
  "gen_pmt_ts_packet buf pkt pno ps =
     (let program_number = pno + 1;
          PID = get_ts_pmt_id program_number;
          pmt_len = 12 + stream_num ps * 5 + 4;
          pmt_section_len = 9 + stream_num ps * 5 + 4;
          PCR_PID = (if 0 \<le> key_stream_id ps \<and> key_stream_id ps < stream_num ps
                     then get_ts_stream_id pno (key_stream_id ps) else get_ts_stream_id pno 0)
      in do {
        (start_pos, buf) \<leftarrow> gen_ts_packet_header buf pkt PID (pmt_len + 1);
        buf \<leftarrow> store buf (pkt + start_pos) [0];
        buf \<leftarrow> store buf (pkt + start_pos + 1) (pmt_section pmt_section_len program_number PCR_PID);
        strm \<leftarrow> pmt_streams pno ps [0..stream_num ps - 1];
        buf \<leftarrow> store buf (pkt + start_pos + 13) strm;
        pmt \<leftarrow> slice buf (pkt + start_pos + 1) (pmt_len - 4);
        store buf (pkt + start_pos + 13 + stream_num ps * 5) (crc_bytes (CRC_encode pmt))
      })"

section \<open>Frames\<close>

text \<open>The packets after the first one: \<open>fp\<close> is the position in the frame, \<open>counter\<close> the
  \<open>continuity_counter\<close> of the stream.\<close>

function pes_tail_packets ::
  "int \<Rightarrow> int \<Rightarrow> int \<Rightarrow> int \<Rightarrow> bytes \<Rightarrow> int \<Rightarrow> bytes \<Rightarrow> int \<Rightarrow> int \<Rightarrow> (bytes \<times> int) ub" where
  "pes_tail_packets i pack_num PID pes_tail_len fdata fp buf ptr counter =
     (if i < pack_num then
        let payload_len = (if i = pack_num - 1 then pes_tail_len - i * 182 else 182)
        in do {
          (start_pos, buf) \<leftarrow> gen_ts_packet_header buf ptr PID payload_len;
          buf \<leftarrow> set_ts_header_without_pcr buf ptr;
          buf \<leftarrow> set_ts_header_counter buf ptr counter;
          counter \<leftarrow> incr counter;
          buf \<leftarrow> memcpy buf (ptr + start_pos) fdata fp payload_len;
          pes_tail_packets (i + 1) pack_num PID pes_tail_len fdata (fp + payload_len) buf (ptr + 188) counter
        }
      else Some (buf, counter))"
  by pat_completeness auto
termination by (relation "measure (\<lambda>(i, pack_num, _). nat (pack_num - i))") auto

declare pes_tail_packets.simps [simp del]

definition set_stream :: "TsProgramInfo \<Rightarrow> int \<Rightarrow> int \<Rightarrow> TsStreamSpec \<Rightarrow> TsProgramInfo" where
  \<comment> \<open>\<open>pi->prog[p].stream[s] = ss\<close>\<close>
  "set_stream pi p s ss =
     pi\<lparr>prog := (prog pi)[nat p := (prog pi ! nat p)\<lparr>stream := (stream (prog pi ! nat p))[nat s := ss]\<rparr>]\<rparr>"

definition gen_pes_ts_packets ::
  "TEsFrame \<Rightarrow> bytes \<Rightarrow> int \<Rightarrow> int \<Rightarrow> TsProgramInfo \<Rightarrow> (int \<times> bytes \<times> TsProgramInfo) ub" where
  "gen_pes_ts_packets frame buf dest maxlen pi = do {
     let PID = get_ts_stream_id (fr_program_number frame) (fr_stream_number frame);
     pr \<leftarrow> array_get (prog pi) (fr_program_number frame);
     ss \<leftarrow> array_get (stream pr) (fr_stream_number frame);
     let ss = ss\<lparr>st_stream_id := lts_pes_stream_id (uint (st_type ss)) (fr_program_number frame) (fr_stream_number frame)\<rparr>;
     let pi = set_stream pi (fr_program_number frame) (fr_stream_number frame) ss;
     (r, pes_header) \<leftarrow> lts_pes_make_header (st_stream_id ss) (fr_pts frame) (fr_length frame) (replicate 19 0) 0 (-1);
     if r < 0 then Some (-1, buf, pi)
     else do {
       fdata \<leftarrow> deref (fr_frame frame);
       let pes_len = r + fr_length frame;
       if pes_len \<le> 176 then
         if maxlen < 188 then Some (-1, buf, pi)
         else do {
           (start_pos, buf) \<leftarrow> gen_ts_packet_header buf dest PID pes_len;
           buf \<leftarrow> set_ts_header_with_pcr buf dest (fr_pts frame);
           buf \<leftarrow> set_ts_header_counter buf dest (continuity_counter ss);
           counter \<leftarrow> incr (continuity_counter ss);
           buf \<leftarrow> memcpy buf (dest + start_pos) pes_header 0 19;
           buf \<leftarrow> memcpy buf (dest + start_pos + 19) fdata 0 (fr_length frame);
           Some (188, buf, set_stream pi (fr_program_number frame) (fr_stream_number frame) (ss\<lparr>continuity_counter := counter\<rparr>))
         }
       else
         let pes_tail_len = pes_len - 176;
             pack_num = c_div (pes_tail_len + 181) 182;
             total_length = 188 * (pack_num + 1)
         in if maxlen < total_length then Some (-1, buf, pi)
            else do {
              (start_pos, buf) \<leftarrow> gen_ts_packet_header buf dest PID 176;
              buf \<leftarrow> set_ts_header_with_pcr buf dest (fr_pts frame);
              buf \<leftarrow> set_ts_header_counter buf dest (continuity_counter ss);
              counter \<leftarrow> incr (continuity_counter ss);
              buf \<leftarrow> memcpy buf (dest + start_pos) pes_header 0 19;
              buf \<leftarrow> memcpy buf (dest + start_pos + 19) fdata 0 (176 - 19);
              (buf, counter) \<leftarrow> pes_tail_packets 0 pack_num PID pes_tail_len fdata (176 - 19) buf (dest + 188) counter;
              Some (total_length, buf,
                    set_stream pi (fr_program_number frame) (fr_stream_number frame) (ss\<lparr>continuity_counter := counter\<rparr>))
            }
     }
   }"

function pmt_packets :: "int \<Rightarrow> TsProgramInfo \<Rightarrow> bytes \<Rightarrow> int \<Rightarrow> (bytes \<times> int) ub" where
  "pmt_packets i pi buf ptr =
     (if i < program_num pi then do {
        ps \<leftarrow> array_get (prog pi) i;
        buf \<leftarrow> gen_pmt_ts_packet buf ptr i ps;
        buf \<leftarrow> set_ts_header_counter buf ptr (pat_pmt_counter pi);
        pmt_packets (i + 1) pi buf (ptr + 188)
      } else Some (buf, ptr))"
  by pat_completeness auto
termination by (relation "measure (\<lambda>(i, pi, _). nat (program_num pi - i))") auto

declare pmt_packets.simps [simp del]

definition lts_ts_stream ::
  "TEsFrame option \<Rightarrow> bytes option \<Rightarrow> int \<Rightarrow> TsProgramInfo option
   \<Rightarrow> (int \<times> bytes option \<times> TsProgramInfo option) ub" where
  "lts_ts_stream frame dest maxlen pi =
     (case (frame, dest, pi) of
        (Some fr, Some buf, Some p) \<Rightarrow>
          if maxlen = 0 then Some (-1, dest, pi)
          else if fr_frame fr = None \<or> fr_length fr = 0 then Some (-1, dest, pi)
          else do {
            let patpmt_len = (if fr_is_key fr \<noteq> 0 then 188 + 188 * program_num p else 0);
            if fr_is_key fr \<noteq> 0 \<and> maxlen < patpmt_len then Some (-1, dest, pi)
            else do {
              (buf, ptr, p) \<leftarrow> (if fr_is_key fr \<noteq> 0 then do {
                                   buf \<leftarrow> gen_pat_ts_packet buf 0 p;
                                   (buf, ptr) \<leftarrow> pmt_packets 0 p buf 188;
                                   c \<leftarrow> incr (pat_pmt_counter p);
                                   Some (buf, ptr, p\<lparr>pat_pmt_counter := c\<rparr>)
                                 } else Some (buf, 0, p));
              (r, buf, p) \<leftarrow> gen_pes_ts_packets fr buf ptr (maxlen - patpmt_len) p;
              Some (if r \<le> 0 then r else patpmt_len + r, Some buf, Some p)
            }
          }
      | _ \<Rightarrow> Some (-1, dest, pi))"

end
