(* ===== verification/Mpeg_Ts_Packets.thy ===== *)
theory Mpeg_Ts_Packets
  imports Mpeg_Ts_Mux
begin

text \<open>
  What the multiplexer writes, as lists of bytes: every transport packet is a header that fills up
  to 188 bytes with stuffing, followed by its payload.
\<close>

section \<open>Headers\<close>

definition pcr_bytes :: "64 word \<Rightarrow> bytes" where
  "pcr_bytes ts =
     [ucast (drop_bit 25 ts), ucast (drop_bit 17 ts), ucast (drop_bit 9 ts), ucast (drop_bit 1 ts),
      ucast (push_bit 7 (ts AND 1) OR 0x7e), 0x00]"

text \<open>\<open>ts_head PID start counter pcr n\<close> is the header of a packet with \<open>n\<close> bytes of payload.\<close>

definition ts_head :: "int \<Rightarrow> int \<Rightarrow> int \<Rightarrow> 64 word option \<Rightarrow> nat \<Rightarrow> bytes" where
  "ts_head PID start counter pcr n =
     [0x47,
      bitfields [(5, u8 (drop_bit 8 PID) AND 0x1f), (1, 0), (1, start), (1, 0)],
      word_of_int PID,
      bitfields [(4, counter AND 0x0f), (2, 3), (2, 0)],
      word_of_int (183 - int n),
      bitfields [(1, 0), (1, 0), (1, 0), (1, 0), (1, if pcr = None then 0 else 1), (1, 0), (1, 0), (1, 0)]]
     @ (case pcr of None \<Rightarrow> replicate (182 - n) 0xff | Some ts \<Rightarrow> pcr_bytes ts @ replicate (176 - n) 0xff)"

definition ts_packet :: "int \<Rightarrow> int \<Rightarrow> int \<Rightarrow> 64 word option \<Rightarrow> bytes \<Rightarrow> bytes" where
  "ts_packet PID start counter pcr payload = ts_head PID start counter pcr (length payload) @ payload"

lemma length_ts_head [simp]:
  "n \<le> 182 \<Longrightarrow> length (ts_head PID s c None n) = 188 - n"
  "n \<le> 176 \<Longrightarrow> length (ts_head PID s c (Some ts) n) = 188 - n"
  by (simp_all add: ts_head_def pcr_bytes_def)

lemma gen_ts_packet_header_ok:
  assumes "n \<le> 182" "188 - n \<le> length rest"
  shows "gen_ts_packet_header (pre @ rest) (int (length pre)) PID (int n) =
    Some (188 - int n, pre @ ts_head PID 1 0 None n @ drop (188 - n) rest)"
proof -
  define k where "k = 182 - n"
  have k: "188 - n = Suc (Suc (Suc (Suc (Suc (Suc k)))))" "182 - n = k" "183 - int n = int k + 1"
    using assms(1) by (simp_all add: k_def of_nat_diff)
  have "int k < 183" by (simp add: k_def)
  then have a: "u8 (188 - 4 - 1 - int n) = int k + 1" using k(3) by (simp add: u8_id)
  show ?thesis
    using assms(2) unfolding gen_ts_packet_header_def Let_def a k ts_head_def option.case
    by (simp add: frame_simps memset_def store_def nat_add_distrib numeral_eq_Suc)
qed

lemma set_ts_header_counter_ok:
  "set_ts_header_counter (pre @ ts_head PID s c0 p n @ rest) (int (length pre)) c =
    Some (pre @ ts_head PID s c p n @ rest)"
  using put_field_bitfields [of "[]" 0 4 "c0 AND 0x0f" "[(2, 3), (2, 0)]" "c AND 0x0f"]
  by (simp add: set_ts_header_counter_def ts_head_def frame_simps peek_def store_def nat_add_distrib nth_append)

lemma set_ts_header_without_pcr_ok:
  "set_ts_header_without_pcr (pre @ ts_head PID s c None n @ rest) (int (length pre)) =
    Some (pre @ ts_head PID 0 c None n @ rest)"
  using put_field_bitfields [of "[(5, u8 (drop_bit 8 PID) AND 0x1f), (1, 0)]" 6 1 s "[(1, 0)]" 0]
  by (simp add: set_ts_header_without_pcr_def ts_head_def frame_simps peek_def store_def nat_add_distrib nth_append)

lemma set_ts_header_with_pcr_ok:
  assumes "n \<le> 176"
  shows "set_ts_header_with_pcr (pre @ ts_head PID s c None n @ rest) (int (length pre)) ts =
    Some (pre @ ts_head PID 1 c (Some ts) n @ rest)"
proof -
  have r: "replicate (182 - n) (0xff :: byte) = replicate 6 0xff @ replicate (176 - n) 0xff"
    using assms by (simp add: replicate_add [symmetric])
  show ?thesis
    using put_field_bitfields [of "[(5, u8 (drop_bit 8 PID) AND 0x1f), (1, 0)]" 6 1 s "[(1, 0)]" 1]
      put_field_bitfields [of "[(1, 0), (1, 0), (1, 0), (1, 0)]" 4 1 0 "[(1, 0), (1, 0), (1, 0)]" 1]
    unfolding set_ts_header_with_pcr_def make_ts_pcr_def ts_head_def option.case r
    by (simp add: peek_def store_def nat_add_distrib nth_append pcr_bytes_def)
qed

text \<open>Copying the payload behind the header.\<close>

lemma memcpy_payload:
  assumes "slice src i m = Some payload" "length payload \<le> length rest"
  shows "memcpy (pre @ h @ rest) (int (length pre) + int (length h)) src i m =
    Some (pre @ h @ payload @ drop (length payload) rest)"
  using assms by (simp add: memcpy_def store_tail store_after)

section \<open>The packets of a frame\<close>

function ts_tail :: "int \<Rightarrow> int \<Rightarrow> bytes \<Rightarrow> bytes list" where
  "ts_tail PID c bs =
     (if bs = [] then [] else ts_packet PID 0 c None (take 182 bs) # ts_tail PID (c + 1) (drop 182 bs))"
  by pat_completeness auto
termination by (relation "measure (\<lambda>(_, _, bs). length bs)") auto

declare ts_tail.simps [simp del]

lemma ts_tail_Nil [simp]: "ts_tail PID c [] = []"
  by (simp add: ts_tail.simps)

lemma length_ts_packet [simp]:
  "length payload \<le> 182 \<Longrightarrow> length (ts_packet PID s c None payload) = 188"
  "length payload \<le> 176 \<Longrightarrow> length (ts_packet PID s c (Some ts) payload) = 188"
  by (simp_all add: ts_packet_def)

lemma packets_count_step:
  "bs \<noteq> [] \<Longrightarrow> (length bs + 181) div 182 = Suc ((length (drop 182 bs) + 181) div 182)"
proof -
  assume "bs \<noteq> []"
  then have "0 < length bs" by simp
  show ?thesis
  proof (cases "length bs \<le> 182")
    case True
    then have "(length bs + 181) div 182 = 1"
      using \<open>0 < length bs\<close> by (intro div_nat_eqI) (simp_all only: mult_1_right, simp_all)
    with True show ?thesis by simp
  next
    case False
    then have "length bs + 181 = (length bs - 182 + 181) + 182" by simp
    then show ?thesis by (simp add: div_add_self2)
  qed
qed

lemma length_ts_tail: "length (ts_tail PID c bs) = (length bs + 181) div 182"
proof (induction PID c bs rule: ts_tail.induct)
  case (1 PID c bs)
  show ?case
  proof (cases "bs = []")
    case False
    then show ?thesis using 1 packets_count_step [of bs] by (simp add: ts_tail.simps [of PID c bs])
  qed simp
qed

text \<open>A payload copied behind its header completes the packet.\<close>

lemma payload_complete:
  assumes "slice src j (int m) = Some payload" "length payload = m"
    and "length h = 188 - n" "n \<le> 188" "length first + m = n" "188 \<le> length rest"
  shows "memcpy (pre @ h @ first @ drop (188 - n + length first) rest)
      (int (length pre) + (188 - int n) + int (length first)) src j (int m)
    = Some ((pre @ h @ first @ payload) @ drop 188 rest)"
proof -
  have i: "int (length pre) + (188 - int n) + int (length first) = int (length pre) + int (length (h @ first))"
    using assms(3,4) by simp
  have "memcpy (pre @ (h @ first) @ drop (188 - n + length first) rest)
      (int (length pre) + int (length (h @ first))) src j (int m) =
    Some (pre @ (h @ first) @ payload @ drop (length payload) (drop (188 - n + length first) rest))"
    using assms by (intro memcpy_payload) simp_all
  moreover have "drop (length payload) (drop (188 - n + length first) rest) = drop 188 rest"
    using assms(2,4,5) by (intro arg_cong [where f = "\<lambda>k. drop k rest"] trans [OF drop_drop]) simp
  ultimately show ?thesis
    unfolding i by (simp only: append_assoc)
qed

lemma pes_tail_packets_ok:
  assumes "bs = drop fp fdata" "fp \<le> length fdata" "pack_num = i + int ((length bs + 181) div 182)"
    and "pes_tail_len - i * 182 = int (length bs)" "188 * ((length bs + 181) div 182) \<le> length rest"
    and "c + int ((length bs + 181) div 182) \<le> INT_MAX"
  shows "pes_tail_packets i pack_num PID pes_tail_len fdata (int fp) (pre @ rest) (int (length pre)) c =
    Some (pre @ concat (ts_tail PID c bs) @ drop (188 * ((length bs + 181) div 182)) rest,
          c + int ((length bs + 181) div 182))"
  using assms
proof (induction PID c bs arbitrary: i fp pre rest rule: ts_tail.induct)
  case (1 PID c bs)
  show ?case
  proof (cases "bs = []")
    case True
    with 1 show ?thesis by (simp add: pes_tail_packets.simps)
  next
    case False
    define k where "k = (length (drop 182 bs) + 181) div 182"
    have k: "(length bs + 181) div 182 = Suc k" using packets_count_step [OF False] by (simp add: k_def)
    define payload where "payload = take 182 bs"
    have "i + int (Suc k) - 1 = i \<longleftrightarrow> length bs \<le> 182"
      by (auto simp: k_def div_eq_0_iff)
    then have plen: "(if i = pack_num - 1 then pes_tail_len - i * 182 else 182) = int (length payload)"
      using 1(4,5) k by (auto simp: payload_def)
    have sl: "slice fdata (int fp) (int (length payload)) = Some payload"
    proof -
      have "take (length payload) (drop fp fdata) = payload" by (simp add: payload_def 1(2) min_def)
      moreover have "int fp + int (length payload) \<le> int (length fdata)"
        using 1(2,3) by (simp add: payload_def)
      ultimately show ?thesis by (auto simp: slice_def)
    qed
    have lt: "i < pack_num" using 1(4) k by simp
    have room: "188 \<le> length rest" using 1(6) k by simp
    have p: "length payload \<le> 182" by (simp add: payload_def)
    have cp: "memcpy (pre @ ts_head PID 0 c None (length payload) @ drop (188 - length payload) rest)
        (int (length pre) + (188 - int (length payload))) fdata (int fp) (int (length payload))
      = Some ((pre @ ts_packet PID 0 c None payload) @ drop 188 rest)"
      using payload_complete [OF sl refl, of "ts_head PID 0 c None (length payload)" "length payload" "[]" rest pre] p room
      by (simp add: ts_packet_def)
    have inc: "incr c = Some (c + 1)" using 1(7) k by (simp add: incr_def)
    have ih: "pes_tail_packets (i + 1) pack_num PID pes_tail_len fdata (int fp + int (length payload))
        ((pre @ ts_packet PID 0 c None payload) @ drop 188 rest) (int (length pre) + 188) (c + 1) =
        Some ((pre @ ts_packet PID 0 c None payload) @ concat (ts_tail PID (c + 1) (drop 182 bs)) @ drop (188 * k) (drop 188 rest),
          c + 1 + int k)"
    proof -
      have k2: "k = (length (drop 182 bs) + 181) div 182" by (simp add: k_def)
      have fp': "drop 182 bs = drop (fp + length payload) fdata"
        using 1(2) by (simp add: payload_def min_def add.commute)
      show ?thesis
      proof (cases "drop 182 bs = []")
        case True
        then show ?thesis using 1(4) k k2 by (simp add: pes_tail_packets.simps)
      next
        case nonempty: False
        have e: "pes_tail_len - (i + 1) * 182 = int (length (drop 182 bs))"
          using 1(5) nonempty by (simp add: of_nat_diff algebra_simps)
        have f: "fp + length payload \<le> length fdata" using 1(2,3) by (simp add: payload_def)
        have n: "pack_num = i + 1 + int ((length (drop 182 bs) + 181) div 182)"
          and r: "188 * ((length (drop 182 bs) + 181) div 182) \<le> length (drop 188 rest)"
          and m: "c + 1 + int ((length (drop 182 bs) + 181) div 182) \<le> INT_MAX"
          unfolding k2 [symmetric] using 1(4,6,7) k by simp_all
        have "int (length (pre @ ts_packet PID 0 c None payload)) = int (length pre) + 188" using p by simp
        then show ?thesis
          using 1(1) [OF False fp' f n e r m, of "pre @ ts_packet PID 0 c None payload"]
          by (simp only: k2 [symmetric] of_nat_add append_assoc)
      qed
    qed
    show ?thesis
      using lt plen room
      by (subst pes_tail_packets.simps)
        (simp add: Let_def gen_ts_packet_header_ok set_ts_header_without_pcr_ok set_ts_header_counter_ok cp ih [simplified] inc k
          p ts_tail.simps [of PID c bs] False payload_def [symmetric] add.commute [of "188 * k"])
  qed
qed

text \<open>The packets of a frame \<open>fdata\<close>: the first carries the clock, the PES header and what fits, the
  others 182 bytes each.\<close>

definition frame_packets :: "int \<Rightarrow> int \<Rightarrow> byte \<Rightarrow> 64 word \<Rightarrow> bytes \<Rightarrow> bytes list" where
  "frame_packets PID c sid pts fdata =
     ts_packet PID 1 c (Some pts) (pes_header sid pts (int (length fdata)) @ take 157 fdata)
     # ts_tail PID (c + 1) (drop 157 fdata)"

lemma frame_packets_count: "length (frame_packets PID c sid pts fdata) = Suc ((length fdata - 157 + 181) div 182)"
  by (simp add: frame_packets_def length_ts_tail)

text \<open>The PES header and the first bytes of the frame behind the packet header.\<close>

lemma first_copies:
  assumes "m \<le> 157" "m \<le> length fdata" "188 \<le> length rest" "fplen = int (19 + m)"
  shows "memcpy (pre @ ts_head PID 1 c (Some pts) (19 + m) @ drop (188 - (19 + m)) rest)
      (int (length pre) + (188 - fplen)) (pes_header sid pts n) 0 19
    = Some (pre @ ts_head PID 1 c (Some pts) (19 + m) @ pes_header sid pts n @ drop (188 - (19 + m) + 19) rest)"
    and "memcpy (pre @ ts_head PID 1 c (Some pts) (19 + m) @ pes_header sid pts n @ drop (188 - (19 + m) + 19) rest)
      (int (length pre) + (188 - fplen) + 19) fdata 0 (int m)
    = Some ((pre @ ts_packet PID 1 c (Some pts) (pes_header sid pts n @ take m fdata)) @ drop 188 rest)"
proof -
  let ?h = "ts_head PID 1 c (Some pts) (19 + m)" and ?p = "pes_header sid pts n"
  have h: "length ?h = 188 - (19 + m)" using assms(1) by simp
  have i: "int (length pre) + (188 - fplen) = int (length pre) + int (length ?h)" using assms(1,4) by simp
  show "memcpy (pre @ ?h @ drop (188 - (19 + m)) rest) (int (length pre) + (188 - fplen)) ?p 0 19
      = Some (pre @ ?h @ ?p @ drop (188 - (19 + m) + 19) rest)"
    unfolding i using memcpy_payload [of ?p 0 19 ?p "drop (188 - (19 + m)) rest" pre ?h] slice_all [of ?p] assms
    by (simp add: add.commute)
  show "memcpy (pre @ ?h @ ?p @ drop (188 - (19 + m) + 19) rest)
      (int (length pre) + (188 - fplen) + 19) fdata 0 (int m)
      = Some ((pre @ ts_packet PID 1 c (Some pts) (?p @ take m fdata)) @ drop 188 rest)"
    using payload_complete [of fdata 0 m "take m fdata" ?h "19 + m" ?p rest pre] h assms
    by (simp add: slice_take ts_packet_def)
qed

lemma set_stream_twice:
  assumes "array_get (prog pi) p = Some pr" "array_get (stream pr) s = Some ss0"
  shows "set_stream (set_stream pi p s ss) p s ss' = set_stream pi p s ss'"
  using assms by (auto simp: set_stream_def array_get_def split: if_splits)

theorem gen_pes_ts_packets_ok:
  assumes pr: "array_get (prog pi) (fr_program_number f) = Some pr"
    and ss: "array_get (stream pr) (fr_stream_number f) = Some ss"
    and fr: "fr_frame f = Some fdata" "fr_length f = int (length fdata)"
    and sid: "sid = lts_pes_stream_id (uint (st_type ss)) (fr_program_number f) (fr_stream_number f)"
    and PID: "PID = get_ts_stream_id (fr_program_number f) (fr_stream_number f)"
    and k: "k = length (frame_packets PID (continuity_counter ss) sid (fr_pts f) fdata)"
    and room: "188 * int k \<le> maxlen" "188 * k \<le> length rest" "continuity_counter ss + int k \<le> INT_MAX"
  shows "gen_pes_ts_packets f (pre @ rest) (int (length pre)) maxlen pi =
    Some (188 * int k,
          (pre @ concat (frame_packets PID (continuity_counter ss) sid (fr_pts f) fdata)) @ drop (188 * k) rest,
          set_stream pi (fr_program_number f) (fr_stream_number f)
            (ss\<lparr>st_stream_id := sid, continuity_counter := continuity_counter ss + int k\<rparr>))"
proof -
  define h where "h = pes_header sid (fr_pts f) (int (length fdata))"
  have hdr: "lts_pes_make_header sid (fr_pts f) (int (length fdata)) (replicate 19 0) 0 (-1) = Some (19, h)"
    using pes_make_header_ok [of "replicate 19 0" "-1" "int (length fdata)" sid "fr_pts f" "[]"] by (simp add: h_def)
  have kk: "k = Suc ((length fdata - 157 + 181) div 182)"
    using k by (simp add: frame_packets_count)
  have inc: "incr (continuity_counter ss) = Some (continuity_counter ss + 1)"
    using room(3) kk by (simp add: incr_def)
  have room1: "188 \<le> length rest" using room(2) kk by simp
  have sel: "st_stream_id (ss\<lparr>st_stream_id := sid\<rparr>) = sid"
    "continuity_counter (ss\<lparr>st_stream_id := sid\<rparr>) = continuity_counter ss"
    by simp_all
  show ?thesis
  proof (cases "length fdata \<le> 157")
    case True
    have "(length fdata - 157 + 181) div 182 = 0" using True by simp
    then have k1: "k = 1" using kk by simp
    define m where "m = length fdata"
    have m: "m \<le> 157" "m \<le> length fdata" "19 + m \<le> 176" "19 + m \<le> 182" "188 - (19 + m) \<le> length rest"
      using True room1 by (simp_all add: m_def)
    have plen: "19 + int (length fdata) = int (19 + m)" by (simp add: m_def)
    have small: "int (19 + m) \<le> 176" "\<not> maxlen < 188" "\<not> (19 :: int) < 0" using m room(1) k1 by simp_all
    note copies = first_copies [OF m(1,2) room1 refl]
    have "gen_pes_ts_packets f (pre @ rest) (int (length pre)) maxlen pi =
      Some (188, (pre @ ts_packet PID 1 (continuity_counter ss) (Some (fr_pts f)) (h @ take m fdata)) @ drop 188 rest,
        set_stream pi (fr_program_number f) (fr_stream_number f)
          (ss\<lparr>st_stream_id := sid, continuity_counter := continuity_counter ss + 1\<rparr>))"
      unfolding gen_pes_ts_packets_def Let_def pr ss fr Option.bind_lunit sid [symmetric] PID [symmetric] sel hdr case_prod_conv deref_simps plen
      using small by (simp only: if_True if_False gen_ts_packet_header_ok [OF m(4,5)] Option.bind_lunit case_prod_conv
          set_ts_header_with_pcr_ok [OF m(3)] set_ts_header_counter_ok inc h_def copies m_def [symmetric]
          set_stream_twice [OF pr ss])
    then show ?thesis
      using k1 True by (simp add: frame_packets_def h_def m_def)
  next
    case False
    have tail: "c_div (19 + int (length fdata) - 176 + 181) 182 = int ((length fdata - 157 + 181) div 182)"
      using False by (simp add: c_div_nonneg zdiv_int of_nat_diff)
    let ?c = "continuity_counter ss" and ?bs = "drop 157 fdata"
    have m: "(157 :: nat) \<le> 157" "157 \<le> length fdata" "(19 + 157 :: nat) \<le> 176" "(19 + 157 :: nat) \<le> 182"
      "188 - (19 + 157) \<le> length rest"
      using False room1 by simp_all
    have big: "\<not> 19 + int (length fdata) \<le> 176" "\<not> (19 :: int) < 0"
      "\<not> maxlen < 188 * (int ((length fdata - 157 + 181) div 182) + 1)"
      using False room(1) kk by simp_all
    have g: "gen_ts_packet_header (pre @ rest) (int (length pre)) PID 176 =
        Some (12, pre @ ts_head PID 1 0 None 176 @ drop 12 rest)"
      using gen_ts_packet_header_ok [OF m(4,5), of pre PID] by simp
    have cp: "memcpy (pre @ ts_head PID 1 ?c (Some (fr_pts f)) 176 @ drop 12 rest) (int (length pre) + 12) h 0 19
        = Some (pre @ ts_head PID 1 ?c (Some (fr_pts f)) 176 @ h @ drop 31 rest)"
      "memcpy (pre @ ts_head PID 1 ?c (Some (fr_pts f)) 176 @ h @ drop 31 rest) (int (length pre) + 12 + 19) fdata 0 (176 - 19)
        = Some ((pre @ ts_packet PID 1 ?c (Some (fr_pts f)) (h @ take 157 fdata)) @ drop 188 rest)"
      using first_copies [OF m(1,2) room1, of 176 pre PID ?c "fr_pts f" sid "int (length fdata)"] by (simp_all add: h_def)
    have tailp: "pes_tail_packets 0 (int ((length fdata - 157 + 181) div 182)) PID (19 + int (length fdata) - 176) fdata (176 - 19)
        ((pre @ ts_packet PID 1 ?c (Some (fr_pts f)) (h @ take 157 fdata)) @ drop 188 rest) (int (length pre) + 188) (?c + 1)
      = Some ((pre @ ts_packet PID 1 ?c (Some (fr_pts f)) (h @ take 157 fdata)) @ concat (ts_tail PID (?c + 1) ?bs)
              @ drop (188 * k) rest, ?c + int k)"
      using pes_tail_packets_ok [of ?bs 157 fdata "int ((length fdata - 157 + 181) div 182)" 0 "19 + int (length fdata) - 176"
          "drop 188 rest" "?c + 1" PID "pre @ ts_packet PID 1 ?c (Some (fr_pts f)) (h @ take 157 fdata)"]
        False room kk by (simp add: h_def of_nat_diff add.commute [of "188 * x" 188 for x :: nat])
    have "gen_pes_ts_packets f (pre @ rest) (int (length pre)) maxlen pi =
      Some (188 * (int ((length fdata - 157 + 181) div 182) + 1),
        (pre @ ts_packet PID 1 ?c (Some (fr_pts f)) (h @ take 157 fdata)) @ concat (ts_tail PID (?c + 1) ?bs)
              @ drop (188 * k) rest,
        set_stream pi (fr_program_number f) (fr_stream_number f)
          (ss\<lparr>st_stream_id := sid, continuity_counter := ?c + int k\<rparr>))"
      unfolding gen_pes_ts_packets_def Let_def pr ss fr Option.bind_lunit sid [symmetric] PID [symmetric] sel hdr case_prod_conv
        deref_simps
      using big
      by (simp only: if_True if_False tail g Option.bind_lunit case_prod_conv set_ts_header_with_pcr_ok [OF le_refl]
          set_ts_header_counter_ok inc cp tailp set_stream_twice [OF pr ss])
    then show ?thesis
      using kk h_def by (simp add: frame_packets_def)
  qed
qed

section \<open>Tables\<close>

definition table_payload :: "bytes \<Rightarrow> bytes" where
  \<comment> \<open>the pointer field, the section and its checksum\<close>
  "table_payload sec = [0] @ sec @ crc_bytes (CRC_encode sec)"

lemma length_crc_bytes [simp]: "length (crc_bytes c) = 4"
  by (simp add: crc_bytes_def)

lemma length_table_payload [simp]: "length (table_payload sec) = length sec + 5"
  by (simp add: table_payload_def)

lemma table_write:
  assumes "length sec1 = nat a" "0 \<le> a" "length sec2 = nat b" "0 \<le> b" "nat a + nat b + 5 \<le> length rest" "at = int (length pre)"
  shows "(do {
      buf \<leftarrow> store (pre @ rest) at [0];
      buf \<leftarrow> store buf (at + 1) sec1;
      buf \<leftarrow> store buf (at + (1 + a)) sec2;
      t \<leftarrow> slice buf (at + 1) (a + b);
      store buf (at + (1 + a) + b) (crc_bytes (CRC_encode t))
    }) = Some (pre @ table_payload (sec1 @ sec2) @ drop (nat a + nat b + 5) rest)"
proof -
  have 1: "store (pre @ rest) at [0] = Some (pre @ [0] @ drop 1 rest)"
    using assms by (simp add: frame_simps store_at_0)
  have 2: "store (pre @ [0] @ drop 1 rest) (at + 1) sec1 = Some (pre @ [0] @ sec1 @ drop (nat a + 1) rest)"
    using assms store_after [of "[0]" 1 sec1 "drop 1 rest"] by (simp add: store_tail)
  have 3: "store (pre @ [0] @ sec1 @ drop (nat a + 1) rest) (at + (1 + a)) sec2
      = Some (pre @ [0] @ sec1 @ sec2 @ drop (nat b + (nat a + 1)) rest)"
    using assms store_after [of "[0] @ sec1" "1 + a" sec2 "drop (nat a + 1) rest"]
    by (simp add: store_tail nat_add_distrib)
  have 4: "slice (pre @ [0] @ sec1 @ sec2 @ drop (nat b + (nat a + 1)) rest) (at + 1) (a + b) = Some (sec1 @ sec2)"
    using assms by (simp add: slice_tail) (auto simp: slice_def nat_add_distrib)
  have 5: "store (pre @ [0] @ sec1 @ sec2 @ drop (nat b + (nat a + 1)) rest) (at + (1 + a) + b) c
      = Some (pre @ [0] @ sec1 @ sec2 @ c @ drop (4 + (nat b + (nat a + 1))) rest)" if "length c = 4" for c
    using assms that store_after [of "[0] @ sec1 @ sec2" "1 + a + b" c "drop (nat b + (nat a + 1)) rest"]
    by (simp add: store_tail nat_add_distrib add.assoc)
  have 6: "4 + (nat b + (nat a + 1)) = nat a + nat b + 5" by simp
  show ?thesis
    unfolding 1 2 3 4 Option.bind_lunit 5 [unfolded 6, OF length_crc_bytes] by (simp add: table_payload_def)
qed

definition pat_sec :: bytes where
  "pat_sec = pat_section 13 @ pat_map_array 0"

definition pmt_sec :: "TsProgramSpec \<Rightarrow> bytes" where
  "pmt_sec ps =
     pmt_section (13 + stream_num ps * 5) 1
       (get_ts_stream_id 0 (if 0 \<le> key_stream_id ps \<and> key_stream_id ps < stream_num ps then key_stream_id ps else 0))
     @ the (pmt_streams 0 ps [0..stream_num ps - 1])"

lemma length_pat_sec [simp]: "length pat_sec = 12"
  by (simp add: pat_sec_def pat_section_def pat_map_array_def Let_def)

lemma gen_pat_ts_packet_ok:
  assumes "program_num pi = 1" "188 \<le> length rest"
  shows "gen_pat_ts_packet (pre @ rest) (int (length pre)) pi =
    Some ((pre @ ts_packet 0 1 (pat_pmt_counter pi) None (table_payload pat_sec)) @ drop 188 rest)"
proof -
  let ?h = "ts_head 0 1 (pat_pmt_counter pi) None 17"
  have n: "(17 :: nat) \<le> 182" "188 - 17 \<le> length rest" using assms(2) by simp_all
  have g: "gen_ts_packet_header (pre @ rest) (int (length pre)) 0 17 = Some (171, pre @ ts_head 0 1 0 None 17 @ drop 171 rest)"
    using gen_ts_packet_header_ok [OF n, of pre 0] by simp
  have t: "(do {
      buf \<leftarrow> store ((pre @ ?h) @ drop 171 rest) (int (length pre) + 171) [0];
      buf \<leftarrow> store buf (int (length pre) + 171 + 1) (pat_section 13);
      buf \<leftarrow> store buf (int (length pre) + 171 + (1 + 8)) (pat_map_array 0);
      t \<leftarrow> slice buf (int (length pre) + 171 + 1) (8 + 4);
      store buf (int (length pre) + 171 + (1 + 8) + 4) (crc_bytes (CRC_encode t))
    }) = Some ((pre @ ?h) @ table_payload (pat_section 13 @ pat_map_array 0) @ drop (nat 8 + nat 4 + 5) (drop 171 rest))"
    using assms(2) by (intro table_write) (simp_all add: pat_section_def pat_map_array_def Let_def)
  show ?thesis
    using t assms unfolding gen_pat_ts_packet_def Let_def
    by (simp add: g set_ts_header_counter_ok ts_packet_def pat_sec_def [symmetric] upto.simps add.assoc)
qed

lemma pmt_streams_ok:
  assumes "\<forall>i \<in> set is. 0 \<le> i \<and> i < int (length (stream ps))"
  shows "\<exists>bs. pmt_streams pno ps is = Some bs \<and> length bs = 5 * length is"
  using assms by (induction "is") (auto simp: pmt_stream_array_def array_get_def Let_def)

text \<open>A program description that the tables can hold: one program, at most four streams.\<close>

definition program_ok :: "TsProgramInfo \<Rightarrow> bool" where
  "program_ok pi \<longleftrightarrow> program_num pi = 1 \<and> (\<exists>ps. prog pi = [ps] \<and> 0 \<le> stream_num ps \<and> stream_num ps \<le> MAX_STREAM_NUM
     \<and> length (stream ps) = nat MAX_STREAM_NUM)"

lemma pmt_streams_length:
  assumes "0 \<le> stream_num ps" "stream_num ps \<le> 4" "length (stream ps) = 4"
  obtains strm where "pmt_streams 0 ps [0..stream_num ps - 1] = Some strm" "length strm = nat (stream_num ps * 5)"
  using pmt_streams_ok [of "[0..stream_num ps - 1]" ps 0] assms that by auto

lemma length_pmt_sec:
  assumes "0 \<le> stream_num ps" "stream_num ps \<le> 4" "length (stream ps) = 4"
  shows "length (pmt_sec ps) = 12 + nat (stream_num ps * 5)"
  using assms by (rule pmt_streams_length) (simp add: pmt_sec_def pmt_section_def)

lemma gen_pmt_ts_packet_ok:
  assumes sn: "0 \<le> stream_num ps" "stream_num ps \<le> 4" "length (stream ps) = 4" and room: "188 \<le> length rest"
  shows "gen_pmt_ts_packet (pre @ rest) (int (length pre)) 0 ps =
    Some ((pre @ ts_packet 0x1001 1 0 None (table_payload (pmt_sec ps))) @ drop 188 rest)"
proof -
  obtain strm where strm: "pmt_streams 0 ps [0..stream_num ps - 1] = Some strm" "length strm = nat (stream_num ps * 5)"
    using pmt_streams_length [OF sn] by blast
  define PCR where "PCR = (if 0 \<le> key_stream_id ps \<and> key_stream_id ps < stream_num ps
                     then get_ts_stream_id 0 (key_stream_id ps) else get_ts_stream_id 0 0)"
  define sec1 where "sec1 = pmt_section (13 + stream_num ps * 5) 1 PCR"
  define b where "b = stream_num ps * 5"
  have sec: "pmt_sec ps = sec1 @ strm" by (simp add: pmt_sec_def sec1_def PCR_def strm)
  have b: "0 \<le> b" "b \<le> 20" using sn by (simp_all add: b_def)
  define n where "n = 17 + nat b"
  have n: "n \<le> 182" "188 - n \<le> length rest" "int n = 12 + b + 4 + 1" using b room by (simp_all add: n_def)
  let ?h = "ts_head 0x1001 1 0 None n"
  have PID: "get_ts_pmt_id (0 + 1) = 0x1001" by (simp add: get_ts_pmt_id_def TS_PMT_ID_BASE_def u16_id)
  have g: "gen_ts_packet_header (pre @ rest) (int (length pre)) 0x1001 (12 + b + 4 + 1)
      = Some (188 - int n, (pre @ ?h) @ drop (188 - n) rest)"
    using gen_ts_packet_header_ok [OF n(1,2), of pre "0x1001"] by (simp add: n(3))
  have at: "int (length pre) + (188 - int n) = int (length (pre @ ?h))" using n(1) by simp
  have t: "(do {
      buf \<leftarrow> store ((pre @ ?h) @ drop (188 - n) rest) (int (length pre) + (188 - int n)) [0];
      buf \<leftarrow> store buf (int (length pre) + (188 - int n) + 1) sec1;
      buf \<leftarrow> store buf (int (length pre) + (188 - int n) + (1 + 12)) strm;
      t \<leftarrow> slice buf (int (length pre) + (188 - int n) + 1) (12 + b);
      store buf (int (length pre) + (188 - int n) + (1 + 12) + b) (crc_bytes (CRC_encode t))
    }) = Some ((pre @ ?h) @ table_payload (sec1 @ strm) @ drop (nat 12 + nat b + 5) (drop (188 - n) rest))"
    using room b strm(2) by (intro table_write) (simp_all add: sec1_def pmt_section_def b_def at n_def)
  have d: "drop (nat 12 + nat b + 5) (drop (188 - n) rest) = drop 188 rest"
    using n(1) by (simp add: n_def)
  have pk: "ts_packet 0x1001 1 0 None (table_payload (pmt_sec ps)) = ?h @ table_payload (sec1 @ strm)"
    using length_pmt_sec [OF sn] b by (simp add: ts_packet_def sec n_def b_def)
  have l: "9 + b + 4 = 13 + b" "12 + b + 4 - 4 = 12 + b" "(1 + 12 :: int) = 13" by simp_all
  show ?thesis
    using t unfolding gen_pmt_ts_packet_def Let_def PID PCR_def [symmetric] b_def [symmetric] g Option.bind_lunit case_prod_conv
      strm(1) d pk append_assoc l sec1_def by (simp only: add_0)
qed

section \<open>The whole stream of a frame\<close>

definition stream_packets :: "TsProgramInfo \<Rightarrow> TEsFrame \<Rightarrow> bytes \<Rightarrow> bytes list" where
  "stream_packets pi f fdata =
     (let ps = hd (prog pi); ss = stream ps ! nat (fr_stream_number f)
      in (if fr_is_key f \<noteq> 0
          then [ts_packet 0 1 (pat_pmt_counter pi) None (table_payload pat_sec),
                ts_packet 0x1001 1 (pat_pmt_counter pi) None (table_payload (pmt_sec ps))]
          else [])
         @ frame_packets (0x100 + fr_stream_number f) (continuity_counter ss)
             (lts_pes_stream_id (uint (st_type ss)) 0 (fr_stream_number f)) (fr_pts f) fdata)"

text \<open>A frame of stream \<open>fr_stream_number\<close> of the only program, with all counters below overflow.\<close>

definition frame_ok :: "TsProgramInfo \<Rightarrow> TEsFrame \<Rightarrow> bytes \<Rightarrow> bool" where
  "frame_ok pi f fdata \<longleftrightarrow> program_ok pi \<and> fr_program_number f = 0 \<and> 0 \<le> fr_stream_number f \<and> fr_stream_number f < 4
     \<and> fr_frame f = Some fdata \<and> fr_length f = int (length fdata) \<and> fdata \<noteq> []
     \<and> pat_pmt_counter pi < INT_MAX
     \<and> continuity_counter (stream (hd (prog pi)) ! nat (fr_stream_number f)) + int (length (stream_packets pi f fdata)) \<le> INT_MAX"

definition pi_after :: "TsProgramInfo \<Rightarrow> TEsFrame \<Rightarrow> bytes \<Rightarrow> TsProgramInfo" where
  "pi_after pi f fdata =
     (let sn = fr_stream_number f; ss = stream (hd (prog pi)) ! nat sn;
          n = length (stream_packets pi f fdata) - (if fr_is_key f \<noteq> 0 then 2 else 0)
      in set_stream (pi\<lparr>pat_pmt_counter := pat_pmt_counter pi + (if fr_is_key f \<noteq> 0 then 1 else 0)\<rparr>) 0 sn
           (ss\<lparr>st_stream_id := lts_pes_stream_id (uint (st_type ss)) 0 sn,
               continuity_counter := continuity_counter ss + int n\<rparr>))"

lemma stream_id_small: "0 \<le> n \<Longrightarrow> n < 4 \<Longrightarrow> get_ts_stream_id 0 n = 0x100 + n"
  by (simp add: get_ts_stream_id_def u16_id)

theorem lts_ts_stream_ok:
  assumes ok: "frame_ok pi f fdata" and n: "n = 188 * length (stream_packets pi f fdata)"
    and room: "int n \<le> maxlen" "n \<le> length dest"
  shows "lts_ts_stream (Some f) (Some dest) maxlen (Some pi) =
    Some (int n, Some (concat (stream_packets pi f fdata) @ drop n dest), Some (pi_after pi f fdata))"
proof -
  obtain ps where ps: "prog pi = [ps]" "0 \<le> stream_num ps" "stream_num ps \<le> 4" "length (stream ps) = 4" and pn: "program_num pi = 1"
    using ok by (auto simp: frame_ok_def program_ok_def MAX_STREAM_NUM_def)
  define ss where "ss = stream ps ! nat (fr_stream_number f)"
  have fr: "fr_program_number f = 0" "0 \<le> fr_stream_number f" "fr_stream_number f < 4" "fr_frame f = Some fdata"
    "fr_length f = int (length fdata)" "fdata \<noteq> []" "pat_pmt_counter pi < INT_MAX"
    "continuity_counter ss + int (length (stream_packets pi f fdata)) \<le> INT_MAX"
    using ok by (simp_all add: frame_ok_def ss_def ps)
  define sid where "sid = lts_pes_stream_id (uint (st_type ss)) 0 (fr_stream_number f)"
  define fp where "fp = frame_packets (0x100 + fr_stream_number f) (continuity_counter ss) sid (fr_pts f) fdata"
  have ag: "array_get (prog pi) 0 = Some ps" "array_get (stream ps) (fr_stream_number f) = Some ss"
    using ps fr by (simp_all add: array_get_def ss_def)
  have pos: "0 < length fp" by (simp add: fp_def frame_packets_def)
  have "0 < n" using n pos by (simp add: stream_packets_def Let_def ps fp_def sid_def ss_def)
  with room(1) have nz: "maxlen \<noteq> 0" by simp
  have gen: "gen_pes_ts_packets f (pre @ rest) (int (length pre)) maxlen' pi' =
      Some (188 * int (length fp), (pre @ concat fp) @ drop (188 * length fp) rest,
        set_stream pi' 0 (fr_stream_number f) (ss\<lparr>st_stream_id := sid, continuity_counter := continuity_counter ss + int (length fp)\<rparr>))"
    if "prog pi' = prog pi" "188 * int (length fp) \<le> maxlen'" "188 * length fp \<le> length rest"
      "continuity_counter ss + int (length fp) \<le> INT_MAX" for pre rest maxlen' pi'
    using gen_pes_ts_packets_ok [of pi' f ps ss fdata sid "0x100 + fr_stream_number f" "length fp" maxlen' rest pre]
      that ag fr by (simp add: sid_def fp_def stream_id_small)
  show ?thesis
  proof (cases "fr_is_key f = 0")
    case True
    then have sp: "stream_packets pi f fdata = fp"
      by (simp add: stream_packets_def Let_def ps fp_def sid_def ss_def)
    show ?thesis
      using gen [of pi maxlen dest "[]"] room n pos fr nz True
      by (simp add: lts_ts_stream_def sp pi_after_def Let_def ps ss_def sid_def)
  next
    case False
    let ?pat = "ts_packet 0 1 (pat_pmt_counter pi) None (table_payload pat_sec)"
    let ?pmt = "ts_packet 0x1001 1 (pat_pmt_counter pi) None (table_payload (pmt_sec ps))"
    have sp: "stream_packets pi f fdata = [?pat, ?pmt] @ fp"
      using False by (simp add: stream_packets_def Let_def ps fp_def sid_def ss_def)
    have len: "length ?pat = 188" "length ?pmt = 188"
      using length_pmt_sec [OF ps(2-4)] ps by simp_all
    have room': "188 \<le> length dest" "188 \<le> length (drop 188 dest)" using room(2) n pos by (simp_all add: sp)
    have pat: "gen_pat_ts_packet dest 0 pi = Some (?pat @ drop 188 dest)"
      using gen_pat_ts_packet_ok [OF pn room'(1), of "[]"] by simp
    have pmt: "pmt_packets 0 pi (?pat @ drop 188 dest) 188 = Some (?pat @ ?pmt @ drop 376 dest, 376)"
    proof -
      have "gen_pmt_ts_packet (?pat @ drop 188 dest) 188 0 ps =
          Some (?pat @ ts_head 0x1001 1 0 None (length (table_payload (pmt_sec ps))) @ table_payload (pmt_sec ps) @ drop 376 dest)"
        using gen_pmt_ts_packet_ok [OF ps(2-4) room'(2), of ?pat] len(1) by (simp add: ts_packet_def)
      moreover have "set_ts_header_counter (?pat @ ts_head 0x1001 1 0 None (length (table_payload (pmt_sec ps)))
            @ table_payload (pmt_sec ps) @ drop 376 dest) 188 (pat_pmt_counter pi)
          = Some (?pat @ ?pmt @ drop 376 dest)"
        using set_ts_header_counter_ok [of ?pat "0x1001" 1 0 None _ "table_payload (pmt_sec ps) @ drop 376 dest" "pat_pmt_counter pi"]
          len(1) by (simp add: ts_packet_def)
      ultimately show ?thesis
        using pn ag(1) by (simp add: pmt_packets.simps)
    qed
    have "gen_pes_ts_packets f (?pat @ ?pmt @ drop 376 dest) 376 (maxlen - 376) (pi\<lparr>pat_pmt_counter := pat_pmt_counter pi + 1\<rparr>) =
      Some (188 * int (length fp), ?pat @ ?pmt @ concat fp @ drop (188 * length fp) (drop 376 dest),
        set_stream (pi\<lparr>pat_pmt_counter := pat_pmt_counter pi + 1\<rparr>) 0 (fr_stream_number f)
          (ss\<lparr>st_stream_id := sid, continuity_counter := continuity_counter ss + int (length fp)\<rparr>))"
      using gen [of "pi\<lparr>pat_pmt_counter := pat_pmt_counter pi + 1\<rparr>" "maxlen - 376" "drop 376 dest" "?pat @ ?pmt"]
        len room n fr(8) by (simp add: sp)
    moreover have "drop (188 * length fp) (drop 376 dest) = drop n dest" using n by (simp add: sp add.commute)
    ultimately show ?thesis
      using room n pos fr nz False pn
      by (simp add: lts_ts_stream_def sp pat pmt pi_after_def Let_def ps ss_def sid_def incr_def)
  qed
qed

end
