(* ===== verification/Mpeg_Ts_Demux.thy ===== *)
theory Mpeg_Ts_Demux
  imports Mpeg_Pes
begin

text \<open>
  The transport stream demultiplexer: src/file/libmpeg/tsdemux.c.  \<open>lts_ts_demux\<close> looks for the first
  packet in a buffer, learns the programs from PAT and PMT packets, and for a packet of a known
  stream tells where its part of the elementary stream is.

  The pointers \<open>pack_ptr\<close> and \<open>es_ptr\<close> point into the buffer of the call and are offsets in it.
\<close>

section \<open>State (typedefs.h)\<close>

record TDemux =
  dm_info :: TsProgramInfo
  dm_is_pes :: int
  dm_pid :: int
  dm_program_no :: int
  dm_stream_no :: int
  dm_pts :: "64 word"
  dm_pes_pts :: "64 word"
  dm_pack_ptr :: "int option"
  dm_pack_len :: int
  dm_es_ptr :: "int option"
  dm_es_len :: int
  dm_pes_head_len :: int
  dm_sync_only :: int
  dm_ps_started :: int

text \<open>An \<open>int\<close> that meets a \<open>sizeof\<close> in an expression is converted to \<open>size_t\<close>.\<close>

definition size_t :: "int \<Rightarrow> int" where
  "size_t x = take_bit 64 x"

section \<open>One packet\<close>

definition get_ts_payload_offset :: "bytes \<Rightarrow> int \<Rightarrow> int ub" where
  "get_ts_payload_offset buf ts_pack = do {
     b3 \<leftarrow> peek buf (ts_pack + 3);
     let adaptation_field_control = get_field 4 2 b3;
     if adaptation_field_control = 0 then Some 188
     else if adaptation_field_control = 1 then Some 4
     else if adaptation_field_control = 2 then Some 188
     else do {
       adaptation_field_length \<leftarrow> peek buf (ts_pack + 4);
       let payload_offset = 5 + uint adaptation_field_length;
       Some (if payload_offset > 188 then 188 else if payload_offset < 5 then 5 else payload_offset)
     }
   }"

definition get_ts_pcr :: "bytes \<Rightarrow> int \<Rightarrow> 64 word \<Rightarrow> 64 word ub" where
  "get_ts_pcr buf ts_pack pcr = do {
     b3 \<leftarrow> peek buf (ts_pack + 3);
     if get_field 4 2 b3 = 0 \<or> get_field 4 2 b3 = 1 then Some pcr
     else do {
       adaptation_field_length \<leftarrow> peek buf (ts_pack + 4);
       if adaptation_field_length = 0 then Some pcr
       else do {
         flags \<leftarrow> peek buf (ts_pack + 5);
         if get_field 4 1 flags \<noteq> 0 then do {
           b0 \<leftarrow> peek buf (ts_pack + 6);
           b1 \<leftarrow> peek buf (ts_pack + 7);
           b2 \<leftarrow> peek buf (ts_pack + 8);
           b3 \<leftarrow> peek buf (ts_pack + 9);
           b4 \<leftarrow> peek buf (ts_pack + 10);
           Some ((push_bit 25 (ucast b0) OR push_bit 17 (ucast b1) OR push_bit 9 (ucast b2)
                  OR push_bit 1 (ucast b3) OR drop_bit 7 (ucast b4)) div 90)
         } else Some pcr
       }
     }
   }"

definition get_ts_es :: "TDemux \<Rightarrow> bytes \<Rightarrow> int \<Rightarrow> TDemux ub" where
  "get_ts_es handle buf ts_pack = do {
     payload_offset \<leftarrow> get_ts_payload_offset buf ts_pack;
     let payload_len = 188 - payload_offset;
     handle \<leftarrow>
       (if dm_pes_head_len handle \<le> 0 then do {
          (r, _, pts, _) \<leftarrow> lts_pes_parse_header buf (ts_pack + payload_offset) payload_len None (Some (dm_pes_pts handle)) None;
          Some (handle\<lparr>dm_pes_head_len := r, dm_pes_pts := the pts\<rparr>)
        } else Some handle);
     Some (if dm_pes_head_len handle > 0 then
             if dm_pes_head_len handle \<le> payload_len then
               handle\<lparr>dm_es_ptr := Some (ts_pack + payload_offset + dm_pes_head_len handle),
                      dm_es_len := payload_len - dm_pes_head_len handle, dm_pes_head_len := 0\<rparr>
             else handle\<lparr>dm_pes_head_len := dm_pes_head_len handle - payload_len, dm_es_ptr := None, dm_es_len := 0\<rparr>
           else handle\<lparr>dm_es_ptr := Some (ts_pack + payload_offset), dm_es_len := payload_len\<rparr>)
   }"

section \<open>Tables\<close>

definition set_prog :: "TDemux \<Rightarrow> int \<Rightarrow> TsProgramSpec \<Rightarrow> TDemux" where
  \<comment> \<open>\<open>handle->info.prog[i] = ps\<close>\<close>
  "set_prog handle i ps = handle\<lparr>dm_info := (dm_info handle)\<lparr>prog := (prog (dm_info handle))[nat i := ps]\<rparr>\<rparr>"

text \<open>The loop over the program map array of a PAT.\<close>

fun pat_loop :: "int list \<Rightarrow> bytes \<Rightarrow> int \<Rightarrow> TDemux \<Rightarrow> TDemux ub" where
  "pat_loop [] buf maps handle = Some handle"
| "pat_loop (i # is) buf maps handle =
     (if i \<ge> MAX_PROGRAM_NUM then Some handle
      else do {
        hi \<leftarrow> peek buf (maps + 4 * i + 2);
        lo \<leftarrow> peek buf (maps + 4 * i + 3);
        ps \<leftarrow> array_get (prog (dm_info handle)) i;
        pat_loop is buf maps (set_prog handle i (ps\<lparr>pmt_pid := CHAR_TO_LENGTH (get_field 0 5 hi) (schar lo)\<rparr>))
      })"

definition handle_pat :: "TDemux \<Rightarrow> bytes \<Rightarrow> int \<Rightarrow> TDemux ub" where
  "handle_pat handle buf ts_pack = do {
     off \<leftarrow> get_ts_payload_offset buf ts_pack;
     let payload_offset = off + 1;
     let payload = ts_pack + payload_offset;
     let payload_len = 188 - payload_offset;
     if size_t payload_len \<ge> 8 then do {
       hi \<leftarrow> peek buf (payload + 1);
       lo \<leftarrow> peek buf (payload + 2);
       let section_len = CHAR_TO_LENGTH (get_field 0 4 hi) (schar lo);
       if payload_len \<ge> section_len + 3 then
         let pnum = to_int32 (size_t (payload_len - 4 - 8) div 4);
             pnum = (if pnum > MAX_PROGRAM_NUM then MAX_PROGRAM_NUM else pnum)
         in pat_loop [0..pnum - 1] buf (payload + 8)
              (handle\<lparr>dm_info := (dm_info handle)\<lparr>program_num := pnum\<rparr>\<rparr>)
       else Some handle
     } else Some handle
   }"

text \<open>The loop over the streams of a PMT: \<open>stm\<close> is the current entry, \<open>limit = payload + 3 + section_len\<close>.\<close>

function pmt_loop :: "int \<Rightarrow> bytes \<Rightarrow> int \<Rightarrow> int \<Rightarrow> TsProgramSpec \<Rightarrow> (int \<times> TsProgramSpec) ub" where
  "pmt_loop sn buf stm limit ps =
     (if sn < MAX_STREAM_NUM then
        if stm + 4 \<ge> limit then Some (sn, ps)
        else do {
          type \<leftarrow> peek buf stm;
          hi \<leftarrow> peek buf (stm + 1);
          lo \<leftarrow> peek buf (stm + 2);
          ihi \<leftarrow> peek buf (stm + 3);
          ilo \<leftarrow> peek buf (stm + 4);
          s \<leftarrow> array_get (stream ps) sn;
          let s' = s\<lparr>es_pid := CHAR_TO_LENGTH (get_field 0 5 hi) (schar lo), st_type := type\<rparr>;
          pmt_loop (sn + 1) buf (stm + 5 + CHAR_TO_LENGTH (get_field 0 4 ihi) (schar ilo)) limit
            (ps\<lparr>stream := (stream ps)[nat sn := s']\<rparr>)
        }
      else Some (sn, ps))"
  by pat_completeness auto
termination by (relation "measure (\<lambda>(sn, _). nat (MAX_STREAM_NUM - sn))") auto

declare pmt_loop.simps [simp del]

definition handle_pmt :: "TDemux \<Rightarrow> int \<Rightarrow> bytes \<Rightarrow> int \<Rightarrow> TDemux ub" where
  "handle_pmt handle i buf ts_pack = do {
     off \<leftarrow> get_ts_payload_offset buf ts_pack;
     let payload_offset = off + 1;
     let payload = ts_pack + payload_offset;
     let payload_len = 188 - payload_offset;
     if size_t payload_len > 12 then do {
       hi \<leftarrow> peek buf (payload + 1);
       lo \<leftarrow> peek buf (payload + 2);
       let section_len = CHAR_TO_LENGTH (get_field 0 4 hi) (schar lo);
       if payload_len \<ge> section_len + 3 then do {
         phi \<leftarrow> peek buf (payload + 10);
         plo \<leftarrow> peek buf (payload + 11);
         let program_info_length = CHAR_TO_LENGTH (get_field 0 4 phi) (schar plo);
         ps \<leftarrow> array_get (prog (dm_info handle)) i;
         (sn, ps) \<leftarrow> pmt_loop 0 buf (payload + 12 + program_info_length) (payload + 3 + section_len) ps;
         Some (set_prog handle i (ps\<lparr>stream_num := sn\<rparr>))
       } else Some handle
     } else Some handle
   }"

section \<open>Dispatch\<close>

text \<open>The search for the program whose PMT has this PID, and for the stream with this PID.\<close>

fun find_pmt :: "int list \<Rightarrow> int \<Rightarrow> TsProgramInfo \<Rightarrow> int option ub" where
  "find_pmt [] PID info = Some None"
| "find_pmt (i # is) PID info = do {
     ps \<leftarrow> array_get (prog info) i;
     if PID = pmt_pid ps then Some (Some i) else find_pmt is PID info
   }"

fun find_stream :: "int list \<Rightarrow> int \<Rightarrow> TsProgramSpec \<Rightarrow> int option ub" where
  "find_stream [] PID ps = Some None"
| "find_stream (sn # sns) PID ps = do {
     s \<leftarrow> array_get (stream ps) sn;
     if PID = es_pid s then Some (Some sn) else find_stream sns PID ps
   }"

fun find_es :: "int list \<Rightarrow> int \<Rightarrow> TsProgramInfo \<Rightarrow> (int \<times> int) option ub" where
  "find_es [] PID info = Some None"
| "find_es (i # is) PID info = do {
     ps \<leftarrow> array_get (prog info) i;
     r \<leftarrow> find_stream [0..stream_num ps - 1] PID ps;
     case r of Some sn \<Rightarrow> Some (Some (i, sn)) | None \<Rightarrow> find_es is PID info
   }"

definition handle_ts_pack :: "TDemux \<Rightarrow> bytes \<Rightarrow> int \<Rightarrow> TDemux ub" where
  "handle_ts_pack handle buf ts_pack = do {
     hi \<leftarrow> peek buf (ts_pack + 1);
     lo \<leftarrow> peek buf (ts_pack + 2);
     let PID = CHAR_TO_LENGTH (get_field 0 5 hi) (schar lo);
     let handle = handle\<lparr>dm_pid := PID\<rparr>;
     if PID = 0 then handle_pat handle buf ts_pack
     else do {
       pmt \<leftarrow> find_pmt [0..program_num (dm_info handle) - 1] PID (dm_info handle);
       case pmt of
         Some i \<Rightarrow> handle_pmt handle i buf ts_pack
       | None \<Rightarrow> do {
           es \<leftarrow> find_es [0..program_num (dm_info handle) - 1] PID (dm_info handle);
           case es of
             Some (i, sn) \<Rightarrow> do {
               pcr \<leftarrow> get_ts_pcr buf ts_pack (dm_pts handle);
               get_ts_es (handle\<lparr>dm_program_no := i, dm_stream_no := sn, dm_pts := pcr, dm_is_pes := 1\<rparr>) buf ts_pack
             }
           | None \<Rightarrow> Some handle
         }
     }
   }"

text \<open>The search for the first packet.\<close>

function demux_loop :: "int \<Rightarrow> TDemux \<Rightarrow> bytes \<Rightarrow> int \<Rightarrow> (int \<times> TDemux) ub" where
  "demux_loop i handle buf len =
     (if i < len then do {
        b \<leftarrow> peek buf i;
        if b = 0x47 \<and> len \<ge> 188 then do {
          let handle = handle\<lparr>dm_pack_ptr := Some i, dm_pack_len := 188\<rparr>;
          handle \<leftarrow> (if dm_sync_only handle = 0 then handle_ts_pack handle buf i else Some handle);
          Some (i + 188, handle)
        } else demux_loop (i + 1) handle buf len
      } else Some (0, handle))"
  by pat_completeness auto
termination by (relation "measure (\<lambda>(i, _, _, len). nat (len - i))") auto

declare demux_loop.simps [simp del]

definition lts_ts_demux :: "TDemux option \<Rightarrow> bytes option \<Rightarrow> int \<Rightarrow> (int \<times> TDemux option) ub" where
  "lts_ts_demux handle ts_buf len =
     (case (handle, ts_buf) of
        (Some h, Some buf) \<Rightarrow>
          if len \<le> 0 then Some (-1, handle)
          else do {
            (r, h) \<leftarrow> demux_loop 0 (h\<lparr>dm_is_pes := 0, dm_pack_ptr := None, dm_pack_len := 0\<rparr>) buf len;
            Some (r, Some h)
          }
      | _ \<Rightarrow> Some (-1, handle))"

end
