(* ===== verification/Mpeg_Container.thy ===== *)
theory Mpeg_Container
  imports Mpeg_Buffer
begin

text \<open>
  The contract of a container format, which the transport stream and the program stream halves of the
  MPEG library both keep: multiplexing appends the encoding of each frame, and a demultiplexer that can
  follow takes the encoding of a frame off the front of any buffer and delivers the frame.
\<close>

text \<open>A piece of an elementary stream: stream number, time stamp and bytes.\<close>

type_synonym chunk = "int \<times> 64 word \<times> bytes"

definition chunks_of :: "int \<Rightarrow> 64 word \<Rightarrow> bytes \<Rightarrow> chunk list \<Rightarrow> bool" where
  "chunks_of sn ts es cs \<longleftrightarrow> concat (map (snd \<circ> snd) cs) = es \<and> (\<forall>c \<in> set cs. fst c = sn \<and> fst (snd c) = ts)"

lemma chunks_of_Nil [simp]: "chunks_of sn ts [] []"
  by (simp add: chunks_of_def)

lemma chunks_of_Cons: "chunks_of sn ts es cs \<Longrightarrow> chunks_of sn ts (e @ es) ((sn, ts, e) # cs)"
  by (simp add: chunks_of_def)

text \<open>What a demultiplexing loop does with a prefix of its input.\<close>

abbreviation (input) yields :: "chunk list \<Rightarrow> (chunk list \<times> 'h) ub \<Rightarrow> (chunk list \<times> 'h) ub" where
  "yields cs r \<equiv> map_option (map_prod ((@) cs) id) r"

lemma yields_Nil [simp]: "map_option (map_prod ((@) []) id) r = r"
  by (cases r) auto

lemma yields_append: "map_option (map_prod ((@) cs) id) (map_option (map_prod ((@) cs') id) r) = map_option (map_prod ((@) (cs @ cs')) id) r"
  by (cases r) auto

locale container =
  fixes mux :: "'s \<Rightarrow> 'f list \<Rightarrow> (bytes \<times> 's) ub"
    and demux :: "'h \<Rightarrow> bytes \<Rightarrow> (chunk list \<times> 'h) ub"
    and enc :: "'s \<Rightarrow> 'f \<Rightarrow> bytes"
    and nxt :: "'s \<Rightarrow> 'f \<Rightarrow> 's"
    and ok :: "'s \<Rightarrow> 'f list \<Rightarrow> bool"
    and ready :: "'s \<Rightarrow> 'h \<Rightarrow> bool"
    and follows :: "'s \<Rightarrow> 'h \<Rightarrow> 'f \<Rightarrow> bool"
    and received :: "'f \<Rightarrow> chunk list \<Rightarrow> bool"
  assumes mux_Nil: "mux s [] = Some ([], s)"
    and mux_Cons: "ok s (f # fs) \<Longrightarrow> mux s (f # fs) = map_option (map_prod ((@) (enc s f)) id) (mux (nxt s f) fs)"
    and ok_Cons: "ok s (f # fs) \<Longrightarrow> ok (nxt s f) fs"
    and demux_Nil: "demux h [] = Some ([], h)"
    and demux_enc: "ok s (f # fs) \<Longrightarrow> follows s h f \<Longrightarrow>
      \<exists>h' cs. ready (nxt s f) h' \<and> received f cs \<and> (\<forall>rest. demux h (enc s f @ rest) = yields cs (demux h' rest))"
    and ready_follows: "ok s (f # fs) \<Longrightarrow> ready s h \<Longrightarrow> follows s h f"
begin

lemma roundtrip:
  assumes "ok s fs" "\<And>f fs'. fs = f # fs' \<Longrightarrow> follows s h f"
  shows "\<exists>bs s' h' css. mux s fs = Some (bs, s') \<and> demux h bs = Some (concat css, h') \<and> list_all2 received fs css"
  using assms
proof (induction fs arbitrary: s h)
  case Nil
  then show ?case by (auto simp: mux_Nil demux_Nil intro: exI [of _ "[]"])
next
  case (Cons f fs)
  from demux_enc [OF Cons.prems(1) Cons.prems(2)]
  obtain h1 cs where h1: "ready (nxt s f) h1" "received f cs" "\<And>rest. demux h (enc s f @ rest) = yields cs (demux h1 rest)"
    by blast
  note okn = ok_Cons [OF Cons.prems(1)]
  obtain bs s' h' css where r: "mux (nxt s f) fs = Some (bs, s')" "demux h1 bs = Some (concat css, h')" "list_all2 received fs css"
    using Cons.IH [OF okn, of h1] ready_follows [OF _ h1(1)] okn by blast
  show ?case
    using mux_Cons [OF Cons.prems(1)] r h1(2,3)
    by (intro exI [of _ "enc s f @ bs"] exI [of _ s'] exI [of _ h'] exI [of _ "cs # css"]) simp
qed

end

end
