(* ===== verification/Mpeg_Ts.thy ===== *)
theory Mpeg_Ts
  imports Mpeg_Ts_Packets Mpeg_Ts_Demux Mpeg_Container
begin

text \<open>
  The two halves of the transport stream library together: what \<open>lts_ts_demux\<close> makes of the packets
  that \<open>lts_ts_stream\<close> writes.
\<close>

section \<open>Reading packet headers\<close>

text \<open>The PID as the demultiplexer reads it: \<open>PID_high5\<close> is a signed bit field.\<close>

definition read_pid :: "int \<Rightarrow> int" where
  "read_pid PID = CHAR_TO_LENGTH (signed_take_bit 4 (u8 (drop_bit 8 PID) AND 0x1f)) (schar (word_of_int PID))"

lemma u8_schar: "u8 (schar (word_of_int x)) = take_bit 8 x"
  by (simp add: u8_def schar_def take_bit_signed_take_bit sint_sbintrunc')

lemma read_pid_low:
  assumes "0 \<le> PID" "PID < 0x1000"
  shows "read_pid PID = PID"
proof -
  have d: "drop_bit 8 PID < 16" "0 \<le> drop_bit 8 PID" using assms by (simp_all add: drop_bit_eq_div)
  have "u8 (drop_bit 8 PID) AND 0x1f = take_bit 5 (drop_bit 8 PID)"
    using d by (simp add: take_bit_eq_mask mask_eq_exp_minus_1)
  also have "\<dots> = drop_bit 8 PID" using d by (simp add: take_bit_int_eq_self)
  finally have h: "signed_take_bit 4 (u8 (drop_bit 8 PID) AND 0x1f) = drop_bit 8 PID"
    using d by (simp add: signed_take_bit_eq_take_bit_shift take_bit_int_eq_self)
  have "push_bit 8 (drop_bit 8 PID) OR take_bit 8 PID = PID"
    by (rule bit_eqI) (auto simp: bit_simps)
  then show ?thesis
    unfolding read_pid_def CHAR_TO_LENGTH_def h u8_schar using d by simp
qed

lemma read_pid_pmt: "read_pid 0x1001 = 0xF001"
  by (simp add: read_pid_def CHAR_TO_LENGTH_def u8_def schar_def signed_take_bit_eq_take_bit_shift take_bit_eq_mod)

definition pcr_room :: "64 word option \<Rightarrow> nat" where
  "pcr_room pcr = (case pcr of None \<Rightarrow> 182 | Some _ \<Rightarrow> 176)"

lemma length_packet: "length payload \<le> pcr_room pcr \<Longrightarrow> length (ts_packet PID s c pcr payload) = 188"
  by (cases pcr) (simp_all add: pcr_room_def)

lemma peek_packet:
  "peek (ts_packet PID s c pcr payload @ rest) 0 = Some 0x47"
  "peek (ts_packet PID s c pcr payload @ rest) 1 = Some (bitfields [(5, u8 (drop_bit 8 PID) AND 0x1f), (1, 0), (1, s), (1, 0)])"
  "peek (ts_packet PID s c pcr payload @ rest) 2 = Some (word_of_int PID)"
  "peek (ts_packet PID s c pcr payload @ rest) 3 = Some (bitfields [(4, c AND 0x0f), (2, 3), (2, 0)])"
  "peek (ts_packet PID s c pcr payload @ rest) 4 = Some (word_of_int (183 - int (length payload)))"
  "peek (ts_packet PID s c pcr payload @ rest) 5 =
     Some (bitfields [(1, 0), (1, 0), (1, 0), (1, 0), (1, if pcr = None then 0 else 1), (1, 0), (1, 0), (1, 0)])"
  by (simp_all add: ts_packet_def ts_head_def peek_def nth_append)

lemma packet_pid:
  "get_field 0 5 (bitfields [(5, u8 (drop_bit 8 PID) AND 0x1f), (1, 0), (1, s), (1, 0)]) = signed_take_bit 4 (u8 (drop_bit 8 PID) AND 0x1f)"
  using get_field_bitfields [of "[]" 0 5] by simp

lemma packet_afc: "get_field 4 2 (bitfields [(4, c), (2, 3), (2, 0)]) = -1"
  using get_field_bitfields [of "[(4, c)]" 4 2 3 "[(2, 0)]"] by (simp add: signed_take_bit_eq_take_bit_shift take_bit_eq_mod)

lemma packet_pcr_flag:
  "get_field 4 (Suc 0) (bitfields [(Suc 0, 0), (Suc 0, 0), (Suc 0, 0), (Suc 0, 0), (Suc 0, v), (Suc 0, 0), (Suc 0, 0), (Suc 0, 0)])
    = signed_take_bit 0 v"
  using get_field_bitfields [of "[(1, 0), (1, 0), (1, 0), (1, 0)]" 4 1 v "[(1, 0), (1, 0), (1, 0)]"] by simp

lemma uint_adaptation_length:
  assumes "n \<le> 182"
  shows "uint (word_of_int (183 - int n) :: byte) = 183 - int n"
  unfolding uint_word_of_int_eq using assms by (simp add: take_bit_int_eq_self)

lemma payload_offset_packet:
  assumes "length payload \<le> pcr_room pcr"
  shows "get_ts_payload_offset (ts_packet PID s c pcr payload @ rest) 0 = Some (188 - int (length payload))"
proof -
  have "length payload \<le> 182" using assms by (cases pcr) (simp_all add: pcr_room_def)
  then show ?thesis
    using uint_adaptation_length [of "length payload"]
    by (simp add: get_ts_payload_offset_def peek_packet packet_afc Let_def del: of_int_diff)
qed

lemma head_length:
  assumes "length payload \<le> pcr_room pcr"
  shows "188 - int (length payload) = int (length (ts_head PID s c pcr (length payload)))"
  using assms by (cases pcr) (simp_all add: pcr_room_def)

lemma pcr_roundtrip:
  fixes ts :: "64 word"
  shows "push_bit 25 (ucast (ucast (drop_bit 25 ts) :: byte)) OR push_bit 17 (ucast (ucast (drop_bit 17 ts) :: byte))
    OR push_bit 9 (ucast (ucast (drop_bit 9 ts) :: byte)) OR push_bit 1 (ucast (ucast (drop_bit 1 ts) :: byte))
    OR drop_bit 7 (ucast (ucast (push_bit 7 (ts AND 1) OR 0x7e) :: byte)) = (take_bit 33 ts :: 64 word)"
proof (rule bit_word_eqI, goal_cases)
  case (1 n)
  have m: "(0x7e :: 64 word) = push_bit 1 (mask 6)" "(1 :: 64 word) = mask 1"
    by (simp_all add: mask_numeral)
  show ?case
    using 1 unfolding m
    by (simp only: bit_simps comp_apply possible_bit_word simp_thms)
      (cases "n = 0"; cases "n < 9"; cases "n < 17"; cases "n < 25"; cases "n < 33"; simp add: less_diff_conv2 le_diff_conv2)
qed

lemma pcr_bytes_length: "length (pcr_bytes ts) = 6"
  by (simp add: pcr_bytes_def)

lemma get_ts_pcr_packet:
  assumes "length payload \<le> pcr_room pcr"
  shows "get_ts_pcr (ts_packet PID s c pcr payload @ rest) 0 old =
    Some (case pcr of None \<Rightarrow> old | Some ts \<Rightarrow> take_bit 33 ts div 90)"
proof (cases pcr)
  case None
  then show ?thesis
    by (simp add: get_ts_pcr_def peek_packet packet_afc packet_pcr_flag Let_def)
next
  case (Some ts)
  have "length payload \<le> 176" using assms Some by (simp add: pcr_room_def)
  then have "uint (word_of_int (183 - int (length payload)) :: byte) = 183 - int (length payload)"
    by (intro uint_adaptation_length) simp
  then have nz: "(word_of_int (183 - int (length payload)) :: byte) \<noteq> 0"
    using \<open>length payload \<le> 176\<close> by (auto simp del: of_int_diff)
  have p: "peek (ts_packet PID s c (Some ts) payload @ rest) (6 + int k) = Some (pcr_bytes ts ! k)" if "k < 6" for k
    using that by (simp add: ts_packet_def ts_head_def peek_def nth_append nat_add_distrib pcr_bytes_length)
  show ?thesis
    using nz p [of 0] p [of 1] p [of 2] p [of 3] p [of 4] Some pcr_roundtrip [of ts]
    by (simp add: get_ts_pcr_def peek_packet packet_afc packet_pcr_flag Let_def pcr_bytes_def)
qed

section \<open>Packets of a known stream\<close>

text \<open>The demultiplexer has read the tables of the program \<open>ps\<close>.\<close>

definition knows :: "TsProgramSpec \<Rightarrow> TDemux \<Rightarrow> bool" where
  "knows ps h \<longleftrightarrow> program_num (dm_info h) = 1 \<and> dm_sync_only h = 0 \<and>
     (\<exists>q. prog (dm_info h) = [q] \<and> pmt_pid q = 0xF001 \<and> stream_num q = stream_num ps \<and> length (stream q) = 4 \<and>
          (\<forall>i. 0 \<le> i \<and> i < stream_num ps \<longrightarrow>
             es_pid (stream q ! nat i) = 0x100 + i \<and> st_type (stream q ! nat i) = st_type (stream ps ! nat i)))"

lemma find_stream_at:
  assumes "\<forall>i. 0 \<le> i \<and> i < n \<longrightarrow> es_pid (stream q ! nat i) = 0x100 + i" "n \<le> int (length (stream q))" "0 \<le> sn" "sn < n"
    "0 \<le> k" "k \<le> sn"
  shows "find_stream [k..n - 1] (0x100 + sn) q = Some (Some sn)"
  using assms(5,6)
proof (induction "nat (sn - k)" arbitrary: k)
  case 0
  then have "k = sn" by simp
  then show ?case using assms by (simp add: upto_rec1 array_get_def)
next
  case (Suc d)
  then have "find_stream [k + 1..n - 1] (0x100 + sn) q = Some (Some sn)" by (intro Suc.hyps) auto
  moreover have "k < sn" using Suc.hyps(2) by simp
  ultimately show ?case using Suc.prems assms(1-4) by (simp add: upto_rec1 array_get_def)
qed

lemma handle_es_packet:
  assumes k: "knows ps h" and sn: "0 \<le> sn" "sn < stream_num ps" "stream_num ps \<le> 4"
    and len: "length payload \<le> pcr_room pcr"
  shows "handle_ts_pack h (ts_packet (0x100 + sn) s c pcr payload @ rest) 0 =
    get_ts_es (h\<lparr>dm_pid := 0x100 + sn, dm_program_no := 0, dm_stream_no := sn,
                 dm_pts := (case pcr of None \<Rightarrow> dm_pts h | Some ts \<Rightarrow> take_bit 33 ts div 90), dm_is_pes := 1\<rparr>)
      (ts_packet (0x100 + sn) s c pcr payload @ rest) 0"
proof -
  obtain q where q: "program_num (dm_info h) = 1" "prog (dm_info h) = [q]" "pmt_pid q = 0xF001" "stream_num q = stream_num ps"
    "length (stream q) = 4" "\<forall>i. 0 \<le> i \<and> i < stream_num ps \<longrightarrow> es_pid (stream q ! nat i) = 0x100 + i"
    using k by (auto simp: knows_def)
  have pid: "CHAR_TO_LENGTH (get_field 0 5 (bitfields [(5, u8 (drop_bit 8 (0x100 + sn)) AND 0x1f), (1, 0), (1, s), (1, 0)]))
      (schar (word_of_int (0x100 + sn))) = 0x100 + sn"
    using read_pid_low [of "0x100 + sn"] sn unfolding packet_pid read_pid_def by simp
  have fs: "find_stream [0..stream_num ps - 1] (0x100 + sn) q = Some (Some sn)"
    by (rule find_stream_at) (use sn q in auto)
  show ?thesis
    using q sn fs get_ts_pcr_packet [OF len, of "0x100 + sn" s c rest]
    unfolding handle_ts_pack_def Let_def
    by (simp only: peek_packet bind.bind_lunit add_0 pid) (cases pcr; simp add: upto_rec1 array_get_def q)
qed

lemma get_ts_es_first:
  assumes "sid AND 0xE0 \<noteq> 0" "length es \<le> 157" "dm_pes_head_len h \<le> 0" "0 \<le> n"
  shows "get_ts_es h (ts_packet PID s c (Some ts) (pes_header sid pts n @ es) @ rest) 0 =
    Some (h\<lparr>dm_pes_pts := take_bit 33 pts div 90, dm_es_ptr := Some (188 - int (length es)),
            dm_es_len := int (length es), dm_pes_head_len := 0\<rparr>)"
proof -
  have len: "length (pes_header sid pts n @ es) \<le> pcr_room (Some ts)" using assms by (simp add: pcr_room_def)
  have parse: "lts_pes_parse_header (ts_packet PID s c (Some ts) (pes_header sid pts n @ es) @ rest)
      (188 - int (length (pes_header sid pts n @ es))) (int (length (pes_header sid pts n @ es))) None (Some v) None
    = Some (19, None, Some (take_bit 33 pts div 90), None)" for v
    using pes_parse_header_ok [OF assms(1) _ assms(4), of _ "ts_head PID s c (Some ts) (length (pes_header sid pts n @ es))" pts "es @ rest" None v None]
    unfolding head_length [OF len, of PID s c] ts_packet_def append_assoc by simp
  show ?thesis
    using assms(2,3) unfolding get_ts_es_def Let_def payload_offset_packet [OF len]
    by (simp add: parse [simplified])
qed

text \<open>A payload that starts like a PES packet: the demultiplexer cannot tell it from one.\<close>

definition looks_like_pes :: "bytes \<Rightarrow> bool" where
  "looks_like_pes bs \<longleftrightarrow> 9 \<le> length bs \<and> take 3 bs = [0, 0, 1] \<and> bs ! 3 AND 0xE0 \<noteq> 0"

lemma get_pes_head_len_payload:
  "get_pes_head_len (hdr @ payload @ rest) (int (length hdr)) (int (length payload)) =
    Some (if looks_like_pes payload then 9 + uint (payload ! 8) else 0)"
proof (cases "9 \<le> length payload")
  case True
  then have t: "take 3 payload = [payload ! 0, payload ! 1, payload ! 2]"
    by (intro nth_equalityI) (auto simp: less_Suc_eq numeral_eq_Suc)
  have p: "peek (hdr @ payload @ rest) (int (length hdr) + int k) = Some (payload ! k)" if "k < length payload" for k
    using that by (simp add: peek_def nth_append nat_add_distrib)
  have "payload \<noteq> []" using True by auto
  then show ?thesis
    using True p [of 0] p [of 1] p [of 2] p [of 3] p [of 8] and_C0_E0 [of "payload ! 3"]
    by (auto simp add: get_pes_head_len_def looks_like_pes_def t)
qed (simp add: get_pes_head_len_def looks_like_pes_def)

lemma get_ts_es_next:
  assumes "\<not> looks_like_pes es" "length es \<le> 182" "dm_pes_head_len h \<le> 0"
  shows "get_ts_es h (ts_packet PID s c None es @ rest) 0 =
    Some (h\<lparr>dm_es_ptr := Some (188 - int (length es)), dm_es_len := int (length es), dm_pes_head_len := 0\<rparr>)"
proof -
  have len: "length es \<le> pcr_room None" using assms by (simp add: pcr_room_def)
  have "get_pes_head_len (ts_packet PID s c None es @ rest) (188 - int (length es)) (int (length es)) = Some 0"
    using get_pes_head_len_payload [of "ts_head PID s c None (length es)" es rest] assms(1)
    unfolding head_length [OF len, of PID s c] ts_packet_def append_assoc by simp
  then show ?thesis
    using assms(2,3) unfolding get_ts_es_def Let_def payload_offset_packet [OF len]
    by (simp add: lts_pes_parse_header_def)
qed

section \<open>Tables\<close>

lemma peek_payload:
  assumes "length payload \<le> pcr_room pcr" "k < length payload"
  shows "peek (ts_packet PID s c pcr payload @ rest) (188 - int (length payload) + int k) = Some (payload ! k)"
  using assms(2) unfolding head_length [OF assms(1), of PID s c] ts_packet_def append_assoc
  by (simp add: peek_def nth_append nat_add_distrib)

lemma pat_sec_eq: "pat_sec = [0, 0xB0, 13, 0, 0x10, 0xC1, 0, 0, 0, 1, 0xF0, 1]"
  by (simp add: pat_sec_def pat_section_def pat_map_array_def get_ts_pmt_id_def TS_PMT_ID_BASE_def TS_STREAM_ID_def
      bitfields_def u16_def u8_def take_bit_eq_mod Let_def drop_bit_eq_div)

text \<open>A demultiplexer with its arrays in place, before it has read any table.\<close>

definition demux_fresh :: "TDemux \<Rightarrow> bool" where
  "demux_fresh h \<longleftrightarrow> dm_sync_only h = 0 \<and> (\<exists>q. prog (dm_info h) = [q] \<and> length (stream q) = 4)"

lemma handle_pat_packet:
  assumes "prog (dm_info h) = [q]"
  shows "handle_ts_pack h (ts_packet 0 1 c None (table_payload pat_sec) @ rest) 0 =
    Some (h\<lparr>dm_pid := 0, dm_info := (dm_info h)\<lparr>program_num := 1, prog := [q\<lparr>pmt_pid := 0xF001\<rparr>]\<rparr>\<rparr>)"
proof -
  let ?p = "table_payload pat_sec"
  have len: "length ?p \<le> pcr_room None" by (simp add: pcr_room_def)
  have pid: "CHAR_TO_LENGTH (get_field 0 5 (bitfields [(5, u8 (drop_bit 8 0) AND 0x1f), (1, 0), (1, 1), (1, 0)]))
      (schar (word_of_int 0)) = 0"
    using read_pid_low [of 0] unfolding packet_pid read_pid_def by simp
  have pk: "peek (ts_packet 0 1 c None ?p @ rest) (171 + int k) = Some (?p ! k)" if "k < 17" for k
    using peek_payload [OF len, of k] that by simp
  have bytes: "?p ! 2 = 0xB0" "?p ! 3 = 13" "?p ! 11 = 0xF0" "?p ! 12 = 1"
    by (simp_all add: table_payload_def pat_sec_eq)
  have len16: "CHAR_TO_LENGTH (get_field 0 4 0xB0) (schar 13) = 13"
    by (simp add: CHAR_TO_LENGTH_def get_field_def schar_def u8_def signed_take_bit_eq_take_bit_shift take_bit_eq_mod drop_bit_eq_div)
  have pmt: "CHAR_TO_LENGTH (get_field 0 5 0xF0) (schar 1) = 0xF001"
    by (simp add: CHAR_TO_LENGTH_def get_field_def schar_def u8_def signed_take_bit_eq_take_bit_shift take_bit_eq_mod drop_bit_eq_div)
  have off: "get_ts_payload_offset (ts_packet 0 1 c None ?p @ rest) 0 = Some 171"
    using payload_offset_packet [OF len] by simp
  have "handle_pat (h\<lparr>dm_pid := 0\<rparr>) (ts_packet 0 1 c None ?p @ rest) 0 =
      Some (h\<lparr>dm_pid := 0, dm_info := (dm_info h)\<lparr>program_num := 1, prog := [q\<lparr>pmt_pid := 0xF001\<rparr>]\<rparr>\<rparr>)"
    using pk [of 2] pk [of 3] pk [of 11] pk [of 12] assms
    by (simp add: handle_pat_def off Let_def size_t_def bytes len16 pmt to_int32_def MAX_PROGRAM_NUM_def upto_rec1
        array_get_def set_prog_def take_bit_eq_mod)
  then show ?thesis
    unfolding handle_ts_pack_def Let_def by (simp only: peek_packet bind.bind_lunit add_0 pid) simp
qed

definition stream_entry :: "TsProgramSpec \<Rightarrow> int \<Rightarrow> bytes" where
  "stream_entry ps i =
     [st_type (stream ps ! nat i), bitfields [(5, u8 (drop_bit 8 (0x100 + i)) AND 0x1f), (3, 7)], word_of_int (0x100 + i),
      bitfields [(4, 0), (4, 15)], 0]"

lemma length_stream_entry [simp]: "length (stream_entry ps i) = 5"
  by (simp add: stream_entry_def)

lemma pmt_streams_entries:
  assumes "\<forall>i \<in> set is. 0 \<le> i \<and> i < 4" "length (stream ps) = 4"
  shows "pmt_streams 0 ps is = Some (concat (map (stream_entry ps) is))"
  using assms by (induction "is") (simp_all add: pmt_stream_array_def array_get_def stream_id_small Let_def stream_entry_def)

lemma entry_fields:
  assumes "0 \<le> i" "i < 4"
  shows "CHAR_TO_LENGTH (get_field 0 5 (bitfields [(5, u8 (drop_bit 8 (0x100 + i)) AND 0x1f), (3, 7)])) (schar (word_of_int (0x100 + i))) = 0x100 + i"
    and "CHAR_TO_LENGTH (get_field 0 4 (bitfields [(4, 0), (4, 15)])) (schar 0) = 0"
proof -
  have "get_field 0 5 (bitfields [(5, u8 (drop_bit 8 (0x100 + i)) AND 0x1f), (3, 7)]) = signed_take_bit 4 (u8 (drop_bit 8 (0x100 + i)) AND 0x1f)"
    using get_field_bitfields [of "[]" 0 5] by simp
  then show "CHAR_TO_LENGTH (get_field 0 5 (bitfields [(5, u8 (drop_bit 8 (0x100 + i)) AND 0x1f), (3, 7)])) (schar (word_of_int (0x100 + i))) = 0x100 + i"
    using read_pid_low [of "0x100 + i"] assms unfolding read_pid_def by simp
  show "CHAR_TO_LENGTH (get_field 0 4 (bitfields [(4, 0), (4, 15)])) (schar 0) = 0"
    using get_field_bitfields [of "[]" 0 4 0 "[(4, 15)]"] by (simp add: CHAR_TO_LENGTH_def u8_def schar_def)
qed

text \<open>What the loop over the entries learns about stream \<open>i\<close>.\<close>

definition learn :: "TsProgramSpec \<Rightarrow> int \<Rightarrow> TsProgramSpec \<Rightarrow> TsProgramSpec" where
  "learn ps i q = q\<lparr>stream := (stream q)[nat i := (stream q ! nat i)\<lparr>es_pid := 0x100 + i, st_type := st_type (stream ps ! nat i)\<rparr>]\<rparr>"

lemma learn_simps [simp]:
  "pmt_pid (learn ps i q) = pmt_pid q" "stream_num (learn ps i q) = stream_num q" "length (stream (learn ps i q)) = length (stream q)"
  by (simp_all add: learn_def)

lemma pmt_loop_entries:
  assumes "n \<le> 4" "length (stream q) = 4" "0 \<le> k" "k \<le> n"
  shows "pmt_loop k (pre @ concat (map (stream_entry ps) [k..n - 1]) @ post) (int (length pre)) (int (length pre) + 4 + 5 * (n - k)) q
    = Some (n, fold (learn ps) [k..n - 1] q)"
  using assms(2-4)
proof (induction "nat (n - k)" arbitrary: k q pre)
  case 0
  then have "k = n" by simp
  then show ?case using assms(1) 0 by (auto simp: pmt_loop.simps MAX_STREAM_NUM_def)
next
  case (Suc d)
  have kn: "k < n" using Suc.hyps(2) by simp
  let ?e = "stream_entry ps k"
  let ?buf = "pre @ concat (map (stream_entry ps) [k..n - 1]) @ post"
  have buf: "?buf = (pre @ ?e) @ concat (map (stream_entry ps) [k + 1..n - 1]) @ post"
    using kn by (simp add: upto_rec1)
  have pk: "peek ?buf (int (length pre)) = Some (?e ! 0)" "peek ?buf (int (length pre) + 1) = Some (?e ! 1)"
    "peek ?buf (int (length pre) + 2) = Some (?e ! 2)" "peek ?buf (int (length pre) + 3) = Some (?e ! 3)"
    "peek ?buf (int (length pre) + 4) = Some (?e ! 4)"
    unfolding buf by (simp_all add: peek_def nth_append nat_add_distrib)
  have step: "pmt_loop k ?buf (int (length pre)) (int (length pre) + 4 + 5 * (n - k)) q =
      pmt_loop (k + 1) ?buf (int (length (pre @ ?e))) (int (length (pre @ ?e)) + 4 + 5 * (n - (k + 1))) (learn ps k q)"
    using kn assms(1) Suc.prems pk entry_fields [of k]
    by (subst pmt_loop.simps) (simp add: MAX_STREAM_NUM_def stream_entry_def array_get_def Let_def algebra_simps learn_def)
  have d: "d = nat (n - (k + 1))" "length (stream (learn ps k q)) = 4" "0 \<le> k + 1" "k + 1 \<le> n"
    using Suc.hyps(2) Suc.prems kn by auto
  have "[k..n - 1] = k # [k + 1..n - 1]" using kn by (simp add: upto_rec1)
  then show ?case
    using Suc.hyps(1) [OF d, of "pre @ ?e"] unfolding step unfolding buf by simp
qed

lemma fold_learn:
  assumes "n \<le> 4" "length (stream q) = 4" "0 \<le> k"
  shows "pmt_pid (fold (learn ps) [k..n - 1] q) = pmt_pid q \<and> length (stream (fold (learn ps) [k..n - 1] q)) = 4
    \<and> (\<forall>i. 0 \<le> i \<and> i < k \<longrightarrow> stream (fold (learn ps) [k..n - 1] q) ! nat i = stream q ! nat i)
    \<and> (\<forall>i. k \<le> i \<and> i < n \<longrightarrow> es_pid (stream (fold (learn ps) [k..n - 1] q) ! nat i) = 0x100 + i
          \<and> st_type (stream (fold (learn ps) [k..n - 1] q) ! nat i) = st_type (stream ps ! nat i))"
  using assms(2,3)
proof (induction "nat (n - k)" arbitrary: k q)
  case 0
  then show ?case by auto
next
  case (Suc d)
  have kn: "k < n" using Suc.hyps(2) by simp
  then have u: "[k..n - 1] = k # [k + 1..n - 1]" by (simp add: upto_rec1)
  let ?q = "fold (learn ps) [k + 1..n - 1] (learn ps k q)"
  have IH: "pmt_pid ?q = pmt_pid q" "length (stream ?q) = 4"
    "\<forall>i. 0 \<le> i \<and> i < k + 1 \<longrightarrow> stream ?q ! nat i = stream (learn ps k q) ! nat i"
    "\<forall>i. k + 1 \<le> i \<and> i < n \<longrightarrow> es_pid (stream ?q ! nat i) = 0x100 + i \<and> st_type (stream ?q ! nat i) = st_type (stream ps ! nat i)"
    using Suc.hyps(1) [of "k + 1" "learn ps k q"] Suc.hyps(2) Suc.prems by auto
  have "es_pid (stream ?q ! nat i) = 0x100 + i \<and> st_type (stream ?q ! nat i) = st_type (stream ps ! nat i)" if "k \<le> i" "i < n" for i
    using IH(3,4) that Suc.prems kn assms(1) by (cases "i = k") (auto simp: nth_list_update learn_def)
  moreover have "stream ?q ! nat i = stream q ! nat i" if "0 \<le> i" "i < k" for i
    using IH(3) that by (auto simp: nth_list_update learn_def)
  ultimately show ?case using IH(1,2) unfolding u by simp
qed

lemma pmt_sec_eq:
  assumes "0 \<le> stream_num ps" "stream_num ps \<le> 4" "length (stream ps) = 4"
  shows "\<exists>hdr. length hdr = 12 \<and> pmt_sec ps = hdr @ concat (map (stream_entry ps) [0..stream_num ps - 1])
    \<and> hdr ! 1 = bitfields [(4, 0), (2, 3), (1, 0), (1, 1)] \<and> hdr ! 2 = word_of_int (13 + stream_num ps * 5)
    \<and> hdr ! 10 = bitfields [(4, 0), (4, 15)] \<and> hdr ! 11 = 0"
proof -
  have u: "u8 (drop_bit 8 (13 + stream_num ps * 5)) AND 0x0f = 0"
    using assms by (simp add: u8_def drop_bit_eq_div)
  have "pmt_streams 0 ps [0..stream_num ps - 1] = Some (concat (map (stream_entry ps) [0..stream_num ps - 1]))"
    using assms by (intro pmt_streams_entries) auto
  then obtain PCR_PID where e: "pmt_sec ps = pmt_section (13 + stream_num ps * 5) 1 PCR_PID
      @ concat (map (stream_entry ps) [0..stream_num ps - 1])"
    unfolding pmt_sec_def by simp
  show ?thesis
    by (rule exI [of _ "pmt_section (13 + stream_num ps * 5) 1 PCR_PID"]) (simp add: e, simp add: pmt_section_def u)
qed

lemma handle_pmt_eq:
  assumes "get_ts_payload_offset buf 0 = Some off" "size_t (187 - off) > 12"
    "peek buf (off + 1 + 1) = Some hi" "peek buf (off + 1 + 2) = Some lo" "CHAR_TO_LENGTH (get_field 0 4 hi) (schar lo) = sl"
    "sl + 3 \<le> 187 - off"
    "peek buf (off + 1 + 10) = Some phi" "peek buf (off + 1 + 11) = Some plo" "CHAR_TO_LENGTH (get_field 0 4 phi) (schar plo) = 0"
    "prog (dm_info h) = [q]" "pmt_loop 0 buf (off + 1 + 12) (off + 1 + 3 + sl) q = Some (n, q')"
  shows "handle_pmt h 0 buf 0 = Some (h\<lparr>dm_info := (dm_info h)\<lparr>prog := [q'\<lparr>stream_num := n\<rparr>]\<rparr>\<rparr>)"
  using assms by (simp add: handle_pmt_def Let_def array_get_def set_prog_def)

lemma handle_pmt_packet:
  assumes ps: "0 \<le> stream_num ps" "stream_num ps \<le> 4" "length (stream ps) = 4"
    and h: "program_num (dm_info h) = 1" "prog (dm_info h) = [q]" "pmt_pid q = 0xF001" "length (stream q) = 4"
  shows "handle_ts_pack h (ts_packet 0x1001 1 c None (table_payload (pmt_sec ps)) @ rest) 0 =
    Some (h\<lparr>dm_pid := 0xF001, dm_info := (dm_info h)\<lparr>prog := [(fold (learn ps) [0..stream_num ps - 1] q)\<lparr>stream_num := stream_num ps\<rparr>]\<rparr>\<rparr>)"
proof -
  define n where "n = stream_num ps"
  have n: "0 \<le> n" "n \<le> 4" using ps by (simp_all add: n_def)
  let ?p = "table_payload (pmt_sec ps)"
  let ?buf = "ts_packet 0x1001 1 c None ?p @ rest"
  obtain hdr where hdr: "length hdr = 12" "pmt_sec ps = hdr @ concat (map (stream_entry ps) [0..n - 1])"
    "hdr ! 1 = bitfields [(4, 0), (2, 3), (1, 0), (1, 1)]" "hdr ! 2 = word_of_int (13 + n * 5)"
    "hdr ! 10 = bitfields [(4, 0), (4, 15)]" "hdr ! 11 = 0"
    using pmt_sec_eq [OF ps] unfolding n_def by blast
  have lp: "length ?p = 17 + nat (n * 5)" using length_pmt_sec [OF ps] by (simp add: n_def)
  have len: "length ?p \<le> pcr_room None" using lp n by (simp add: pcr_room_def)
  have lpi: "188 - int (length ?p) = 171 - 5 * n" using lp n by simp
  have off: "get_ts_payload_offset ?buf 0 = Some (171 - 5 * n)"
    using payload_offset_packet [OF len] unfolding lpi .
  have pk: "peek ?buf (172 - 5 * n + int k) = Some (hdr ! k)" if "k < 12" for k
    using peek_payload [OF len, of "Suc k" "0x1001" 1 c rest] that hdr(1) n unfolding lpi
    by (simp add: lp hdr(2) table_payload_def nth_append algebra_simps)
  have pid: "CHAR_TO_LENGTH (get_field 0 5 (bitfields [(5, u8 (drop_bit 8 0x1001) AND 0x1f), (1, 0), (1, 1), (1, 0)]))
      (schar (word_of_int 0x1001)) = 0xF001"
    using read_pid_pmt unfolding packet_pid read_pid_def .
  have "u8 (schar (word_of_int (13 + n * 5) :: byte)) = 13 + n * 5"
    using n unfolding u8_schar by (simp add: take_bit_int_eq_self)
  then have slen: "CHAR_TO_LENGTH (get_field 0 4 (bitfields [(4, 0), (2, 3), (1, 0), (1, 1)])) (schar (word_of_int (13 + n * 5))) = 13 + n * 5"
    using get_field_bitfields [of "[]" 0 4 0 "[(2, 3), (1, 0), (1, 1)]"] by (simp add: CHAR_TO_LENGTH_def)
  let ?pre = "ts_head 0x1001 1 c None (length ?p) @ [0] @ hdr"
  let ?post = "crc_bytes (CRC_encode (pmt_sec ps)) @ rest"
  have buf: "?buf = ?pre @ concat (map (stream_entry ps) [0..n - 1]) @ ?post"
    by (simp add: ts_packet_def table_payload_def hdr(2))
  have pre: "int (length ?pre) = 184 - 5 * n"
    using head_length [OF len, of "0x1001" 1 c] hdr(1) unfolding lpi by simp
  define q' where "q' = fold (learn ps) [0..n - 1] q"
  have q': "pmt_loop 0 ?buf (184 - 5 * n) (188 - 5 * n + 5 * n) q = Some (n, q')"
    using pmt_loop_entries [OF n(2) h(4) _ n(1), of ?pre ps ?post] unfolding buf [symmetric] pre q'_def by auto
  have "handle_pmt (h\<lparr>dm_pid := 0xF001\<rparr>) 0 ?buf 0 =
      Some (h\<lparr>dm_pid := 0xF001, dm_info := (dm_info h)\<lparr>prog := [q'\<lparr>stream_num := n\<rparr>]\<rparr>\<rparr>)"
    using handle_pmt_eq [OF off _ _ _ slen _ _ _ entry_fields(2) [of 0], of "h\<lparr>dm_pid := 0xF001\<rparr>" q n q']
      pk [of 1] pk [of 2] pk [of 10] pk [of 11] n h q'
    unfolding hdr(3-6) by (simp add: size_t_def take_bit_int_eq_self algebra_simps)
  then have "handle_ts_pack h ?buf 0 = Some (h\<lparr>dm_pid := 0xF001, dm_info := (dm_info h)\<lparr>prog := [q'\<lparr>stream_num := n\<rparr>]\<rparr>\<rparr>)"
    using h unfolding handle_ts_pack_def Let_def
    by (simp only: peek_packet bind.bind_lunit add_0 pid) (simp add: upto_rec1 array_get_def)
  then show ?thesis unfolding q'_def n_def .
qed

section \<open>Demultiplexing a whole buffer\<close>

text \<open>The loop of an application: it calls \<open>lts_ts_demux\<close> until the buffer is used up, and collects the
  pieces of elementary streams with their stream number and time stamp.\<close>

definition es_chunk :: "TDemux \<Rightarrow> bytes \<Rightarrow> chunk list ub" where
  "es_chunk h buf =
     (if dm_is_pes h = 0 then Some []
      else case dm_es_ptr h of
          None \<Rightarrow> Some []
        | Some p \<Rightarrow> do { es \<leftarrow> slice buf p (dm_es_len h); Some [(dm_stream_no h, dm_pes_pts h, es)] })"

function demux_all :: "TDemux \<Rightarrow> bytes \<Rightarrow> (chunk list \<times> TDemux) ub" where
  "demux_all h buf =
     (if buf = [] then Some ([], h)
      else do {
        (r, h') \<leftarrow> lts_ts_demux (Some h) (Some buf) (int (length buf));
        h \<leftarrow> deref h';
        if r \<le> 0 then Some ([], h)
        else do {
          c \<leftarrow> es_chunk h buf;
          (cs, h) \<leftarrow> demux_all h (drop (nat r) buf);
          Some (c @ cs, h)
        }
      })"
  by pat_completeness auto
termination by (relation "measure (\<lambda>(_, buf). length buf)") auto

declare demux_all.simps [simp del]

abbreviation synced :: "TDemux \<Rightarrow> TDemux" where
  "synced h \<equiv> h\<lparr>dm_is_pes := 0, dm_pack_ptr := Some 0, dm_pack_len := 188\<rparr>"

lemma demux_packet:
  assumes "length payload \<le> pcr_room pcr" "dm_sync_only h = 0"
    and "handle_ts_pack (synced h) (ts_packet PID s c pcr payload @ rest) 0 = Some h'"
    and "es_chunk h' (ts_packet PID s c pcr payload @ rest) = Some ch"
  shows "demux_all h (ts_packet PID s c pcr payload @ rest) = map_option (map_prod ((@) ch) id) (demux_all h' rest)"
proof -
  let ?p = "ts_packet PID s c pcr payload"
  have l: "length ?p = 188" by (rule length_packet) fact
  have "lts_ts_demux (Some h) (Some (?p @ rest)) (int (length (?p @ rest))) = Some (188, Some h')"
    using assms l by (simp add: lts_ts_demux_def demux_loop.simps [of 0] peek_packet Let_def)
  then show ?thesis
    using l assms(4) by (subst demux_all.simps) (auto simp: deref_def split: option.splits bind_splits)
qed

lemma slice_payload:
  assumes "length (xs @ es) \<le> pcr_room pcr"
  shows "slice (ts_packet PID s c pcr (xs @ es) @ rest) (188 - int (length es)) (int (length es)) = Some es"
proof -
  have "188 - int (length es) = int (length (ts_head PID s c pcr (length (xs @ es)) @ xs))"
    using head_length [OF assms, of PID s c] by simp
  then show ?thesis
    using slice_tail(2) [of "ts_head PID s c pcr (length (xs @ es)) @ xs" "es @ rest"]
    by (simp add: ts_packet_def slice_take)
qed

lemma knows_update [simp]:
  "knows ps (h\<lparr>dm_pid := a\<rparr>) = knows ps h" "knows ps (h\<lparr>dm_program_no := b\<rparr>) = knows ps h"
  "knows ps (h\<lparr>dm_stream_no := c\<rparr>) = knows ps h" "knows ps (h\<lparr>dm_pts := d\<rparr>) = knows ps h"
  "knows ps (h\<lparr>dm_is_pes := e\<rparr>) = knows ps h" "knows ps (h\<lparr>dm_pes_pts := f\<rparr>) = knows ps h"
  "knows ps (h\<lparr>dm_es_ptr := g\<rparr>) = knows ps h" "knows ps (h\<lparr>dm_es_len := i\<rparr>) = knows ps h"
  "knows ps (h\<lparr>dm_pes_head_len := j\<rparr>) = knows ps h" "knows ps (h\<lparr>dm_pack_ptr := k\<rparr>) = knows ps h"
  "knows ps (h\<lparr>dm_pack_len := l\<rparr>) = knows ps h"
  by (simp_all add: knows_def)

text \<open>None of the following packets of a frame starts like a PES packet.\<close>

function plain_tail :: "bytes \<Rightarrow> bool" where
  "plain_tail bs = (if bs = [] then True else \<not> looks_like_pes (take 182 bs) \<and> plain_tail (drop 182 bs))"
  by pat_completeness auto
termination by (relation "measure length") auto

declare plain_tail.simps [simp del]

lemma demux_tail:
  assumes "knows ps h" "0 \<le> sn" "sn < stream_num ps" "stream_num ps \<le> 4" "dm_pes_head_len h \<le> 0" "dm_pes_pts h = ts" "plain_tail bs"
  shows "\<exists>h' cs. knows ps h' \<and> dm_pes_head_len h' \<le> 0 \<and> chunks_of sn ts bs cs \<and>
    (\<forall>rest. demux_all h (concat (ts_tail (0x100 + sn) c bs) @ rest) = map_option (map_prod ((@) cs) id) (demux_all h' rest))"
  using assms(1,5-7)
proof (induction bs arbitrary: h c rule: plain_tail.induct)
  case (1 bs)
  show ?case
  proof (cases "bs = []")
    case True
    then show ?thesis
      using "1.prems" by (intro exI [of _ h] exI [of _ "[]"]) (simp add: chunks_of_def map_prod.id option.map_id0 [unfolded id_def] fun_eq_iff map_prod_def case_prod_unfold option.map_ident)
  next
    case False
    define t where "t = take 182 bs"
    define h1 where "h1 = (synced h)\<lparr>dm_pid := 0x100 + sn, dm_program_no := 0, dm_stream_no := sn, dm_is_pes := 1,
      dm_es_ptr := Some (188 - int (length t)), dm_es_len := int (length t), dm_pes_head_len := 0\<rparr>"
    have pl: "\<not> looks_like_pes t" "plain_tail (drop 182 bs)"
      using "1.prems"(4) False by (auto simp: plain_tail.simps [of bs] t_def)
    have len: "length t \<le> pcr_room None" by (simp add: pcr_room_def t_def)
    have hd: "handle_ts_pack (synced h) (ts_packet (0x100 + sn) 0 c None t @ rest) 0 = Some h1" for rest
      using handle_es_packet [OF _ assms(2-4) len, of "synced h" 0 c rest] "1.prems" len
        get_ts_es_next [OF pl(1)]
      by (simp add: h1_def pcr_room_def)
    have ch: "es_chunk h1 (ts_packet (0x100 + sn) 0 c None t @ rest) = Some [(sn, ts, t)]" for rest
      using slice_payload [of "[]" t None "0x100 + sn" 0 c rest] len "1.prems" by (simp add: es_chunk_def h1_def)
    have so: "dm_sync_only h = 0" using "1.prems"(1) by (simp add: knows_def)
    have k1: "knows ps h1" "dm_pes_head_len h1 \<le> 0" "dm_pes_pts h1 = ts" using "1.prems" by (simp_all add: h1_def)
    obtain h' cs where h': "knows ps h'" "dm_pes_head_len h' \<le> 0" "chunks_of sn ts (drop 182 bs) cs"
      "\<forall>rest. demux_all h1 (concat (ts_tail (0x100 + sn) (c + 1) (drop 182 bs)) @ rest) = map_option (map_prod ((@) cs) id) (demux_all h' rest)"
      using "1.IH" [OF False k1 pl(2), of "c + 1"] by blast
    have "demux_all h (concat (ts_tail (0x100 + sn) c bs) @ rest) = map_option (map_prod ((@) ((sn, ts, t) # cs)) id) (demux_all h' rest)" for rest
      using demux_packet [OF len so hd ch] h'(4) False
      by (simp add: ts_tail.simps [of _ c bs] t_def [symmetric] option.map_comp comp_def map_prod.comp prod.map_comp map_prod_def case_prod_unfold)
    moreover have "chunks_of sn ts bs ((sn, ts, t) # cs)"
      using h'(3) by (simp add: chunks_of_def t_def)
    ultimately show ?thesis using h'(1,2) by blast
  qed
qed

lemma demux_first:
  assumes k: "knows ps h" and sn: "0 \<le> sn" "sn < stream_num ps" "stream_num ps \<le> 4"
    and head: "dm_pes_head_len h \<le> 0" and sid: "sid AND 0xE0 \<noteq> 0" and t: "length t \<le> 157" and n: "0 \<le> n"
  shows "\<exists>h'. knows ps h' \<and> dm_pes_head_len h' \<le> 0 \<and> dm_pes_pts h' = take_bit 33 pts div 90 \<and>
    (\<forall>rest. demux_all h (ts_packet (0x100 + sn) 1 c (Some pts) (pes_header sid pts n @ t) @ rest)
       = map_option (map_prod ((@) [(sn, take_bit 33 pts div 90, t)]) id) (demux_all h' rest))"
proof -
  define ts where "ts = take_bit 33 pts div 90"
  define h1 where "h1 = (synced h)\<lparr>dm_pid := 0x100 + sn, dm_program_no := 0, dm_stream_no := sn, dm_pts := ts, dm_is_pes := 1, dm_pes_pts := ts,
    dm_es_ptr := Some (188 - int (length t)), dm_es_len := int (length t), dm_pes_head_len := 0\<rparr>"
  let ?p = "pes_header sid pts n @ t"
  have len: "length ?p \<le> pcr_room (Some pts)" using t by (simp add: pcr_room_def)
  have hd: "handle_ts_pack (synced h) (ts_packet (0x100 + sn) 1 c (Some pts) ?p @ rest) 0 = Some h1" for rest
    using handle_es_packet [OF _ sn len, of "synced h" 1 c rest] k head t get_ts_es_first [OF sid t _ n]
    by (simp add: h1_def ts_def)
  have ch: "es_chunk h1 (ts_packet (0x100 + sn) 1 c (Some pts) ?p @ rest) = Some [(sn, ts, t)]" for rest
    using slice_payload [OF len, of "0x100 + sn" 1 c rest] by (simp add: es_chunk_def h1_def)
  have so: "dm_sync_only h = 0" using k by (simp add: knows_def)
  have k1: "knows ps h1" "dm_pes_head_len h1 \<le> 0" "dm_pes_pts h1 = ts" using k by (simp_all add: h1_def)
  then show ?thesis using demux_packet [OF len so hd ch] unfolding ts_def by blast
qed

lemma demux_frame:
  assumes k: "knows ps h" and sn: "0 \<le> sn" "sn < stream_num ps" "stream_num ps \<le> 4"
    and head: "dm_pes_head_len h \<le> 0" and sid: "sid AND 0xE0 \<noteq> 0" and pl: "plain_tail (drop 157 fdata)"
  shows "\<exists>h' cs. knows ps h' \<and> dm_pes_head_len h' \<le> 0 \<and> chunks_of sn (take_bit 33 pts div 90) fdata cs \<and>
    (\<forall>rest. demux_all h (concat (frame_packets (0x100 + sn) c sid pts fdata) @ rest) = map_option (map_prod ((@) cs) id) (demux_all h' rest))"
proof -
  define t where "t = take 157 fdata"
  define ts where "ts = take_bit 33 pts div 90"
  obtain h1 where h1: "knows ps h1" "dm_pes_head_len h1 \<le> 0" "dm_pes_pts h1 = ts"
    "\<And>rest. demux_all h (ts_packet (0x100 + sn) 1 c (Some pts) (pes_header sid pts (int (length fdata)) @ t) @ rest)
       = map_option (map_prod ((@) [(sn, ts, t)]) id) (demux_all h1 rest)"
    using demux_first [OF k sn head sid, of t "int (length fdata)" pts c] unfolding ts_def by (auto simp: t_def)
  obtain h' cs where h': "knows ps h'" "dm_pes_head_len h' \<le> 0" "chunks_of sn ts (drop 157 fdata) cs"
    "\<forall>rest. demux_all h1 (concat (ts_tail (0x100 + sn) (c + 1) (drop 157 fdata)) @ rest) = map_option (map_prod ((@) cs) id) (demux_all h' rest)"
    using demux_tail [OF h1(1) sn h1(2,3) pl, of "c + 1"] by blast
  have "demux_all h (concat (frame_packets (0x100 + sn) c sid pts fdata) @ rest)
      = map_option (map_prod ((@) ((sn, ts, t) # cs)) id) (demux_all h' rest)" for rest
    using h1(4) h'(4)
    by (simp add: frame_packets_def t_def [symmetric] option.map_comp comp_def prod.map_comp map_prod_def case_prod_unfold)
  moreover have "chunks_of sn ts fdata ((sn, ts, t) # cs)"
    using h'(3) by (simp add: chunks_of_def t_def)
  ultimately show ?thesis using h'(1,2) unfolding ts_def by blast
qed

lemma demux_tables:
  assumes h: "demux_fresh h" "dm_pes_head_len h \<le> 0"
    and ps: "0 \<le> stream_num ps" "stream_num ps \<le> 4" "length (stream ps) = 4"
  shows "\<exists>h'. knows ps h' \<and> dm_pes_head_len h' \<le> 0 \<and>
    (\<forall>rest. demux_all h (ts_packet 0 1 c None (table_payload pat_sec) @ ts_packet 0x1001 1 c None (table_payload (pmt_sec ps)) @ rest)
       = demux_all h' rest)"
proof -
  obtain q where q: "prog (dm_info h) = [q]" "length (stream q) = 4" "dm_sync_only h = 0"
    using h by (auto simp: demux_fresh_def)
  define h1 where "h1 = (synced h)\<lparr>dm_pid := 0, dm_info := (dm_info h)\<lparr>program_num := 1, prog := [q\<lparr>pmt_pid := 0xF001\<rparr>]\<rparr>\<rparr>"
  have len: "length (table_payload pat_sec) \<le> pcr_room None" "length (table_payload (pmt_sec ps)) \<le> pcr_room None"
    using length_pmt_sec [OF ps] ps by (simp_all add: pcr_room_def)
  have p1: "handle_ts_pack (synced h) (ts_packet 0 1 c None (table_payload pat_sec) @ rest) 0 = Some h1" for rest
    using handle_pat_packet [of "synced h" q c rest] q by (simp add: h1_def)
  define h2 where "h2 = (synced h1)\<lparr>dm_pid := 0xF001, dm_info := (dm_info h1)\<lparr>prog :=
    [(fold (learn ps) [0..stream_num ps - 1] (q\<lparr>pmt_pid := 0xF001\<rparr>))\<lparr>stream_num := stream_num ps\<rparr>]\<rparr>\<rparr>"
  have p2: "handle_ts_pack (synced h1) (ts_packet 0x1001 1 c None (table_payload (pmt_sec ps)) @ rest) 0 = Some h2" for rest
    using handle_pmt_packet [OF ps, of "synced h1" "q\<lparr>pmt_pid := 0xF001\<rparr>" c rest] q by (simp add: h1_def h2_def)
  have "knows ps h2" "dm_pes_head_len h2 \<le> 0"
    using fold_learn [OF ps(2), of "q\<lparr>pmt_pid := 0xF001\<rparr>" 0 ps] q h(2) by (simp_all add: h1_def h2_def knows_def)
  moreover have "demux_all h (ts_packet 0 1 c None (table_payload pat_sec) @ ts_packet 0x1001 1 c None (table_payload (pmt_sec ps)) @ rest)
      = demux_all h2 rest" for rest
    using demux_packet [OF len(1) q(3) p1, of _ "[]"] demux_packet [OF len(2) _ p2, of _ "[]"] q(3)
    by (simp add: h1_def h2_def es_chunk_def map_prod_def case_prod_unfold option.map_ident)
  ultimately show ?thesis by blast
qed

section \<open>Multiplexing a sequence of frames\<close>

text \<open>The application multiplexes frame by frame into a buffer of \<open>maxlen\<close> bytes and writes out what
  \<open>lts_ts_stream\<close> made; a frame that is refused ends the loop.\<close>

fun mux_all :: "int \<Rightarrow> TsProgramInfo \<Rightarrow> TEsFrame list \<Rightarrow> (bytes \<times> TsProgramInfo) ub" where
  "mux_all maxlen pi [] = Some ([], pi)"
| "mux_all maxlen pi (f # fs) = do {
     (n, buf, pi) \<leftarrow> lts_ts_stream (Some f) (Some (replicate (nat maxlen) 0)) maxlen (Some pi);
     buf \<leftarrow> deref buf;
     pi \<leftarrow> deref pi;
     if n < 0 then Some ([], pi)
     else do {
       (bs, pi) \<leftarrow> mux_all maxlen pi fs;
       Some (take (nat n) buf @ bs, pi)
     }
   }"

text \<open>Frames that fit the buffer, belong to described video or audio streams, and can be told apart.\<close>

definition frame_plain :: "int \<Rightarrow> TsProgramInfo \<Rightarrow> TEsFrame \<Rightarrow> bool" where
  "frame_plain maxlen pi f \<longleftrightarrow>
     frame_ok pi f (the (fr_frame f)) \<and> 188 * int (length (stream_packets pi f (the (fr_frame f)))) \<le> maxlen
     \<and> fr_stream_number f < stream_num (hd (prog pi))
     \<and> (let t = uint (st_type (stream (hd (prog pi)) ! nat (fr_stream_number f))) in lts_is_video t \<or> lts_is_audio t)
     \<and> plain_tail (drop 157 (the (fr_frame f)))"

fun frames_plain :: "int \<Rightarrow> TsProgramInfo \<Rightarrow> TEsFrame list \<Rightarrow> bool" where
  "frames_plain maxlen pi [] \<longleftrightarrow> True"
| "frames_plain maxlen pi (f # fs) \<longleftrightarrow> frame_plain maxlen pi f \<and> frames_plain maxlen (pi_after pi f (the (fr_frame f))) fs"

lemma stream_id_is_pes:
  assumes "lts_is_video t \<or> lts_is_audio t" "0 \<le> sn" "sn < 4"
  shows "lts_pes_stream_id t 0 sn AND 0xE0 \<noteq> 0"
proof -
  have "sn = 0 \<or> sn = 1 \<or> sn = 2 \<or> sn = 3" using assms by auto
  then show ?thesis using assms(1) by (elim disjE) (simp_all add: lts_pes_stream_id_def)
qed

lemma ts_tail_188: "p \<in> set (ts_tail PID c bs) \<Longrightarrow> length p = 188"
proof (induction PID c bs rule: ts_tail.induct)
  case (1 PID c bs)
  then show ?case by (cases "bs = []") (auto simp: ts_tail.simps [of PID c bs])
qed

lemma stream_packets_188:
  assumes "program_ok pi" "p \<in> set (stream_packets pi f fdata)"
  shows "length p = 188"
proof -
  obtain ps where ps: "prog pi = [ps]" "0 \<le> stream_num ps" "stream_num ps \<le> 4" "length (stream ps) = 4"
    using assms(1) by (auto simp: program_ok_def MAX_STREAM_NUM_def)
  then show ?thesis
    using assms(2) ts_tail_188 length_pmt_sec [OF ps(2-4)]
    by (auto simp: stream_packets_def frame_packets_def Let_def split: if_splits)
qed

lemma length_concat_same: "(\<And>x. x \<in> set xs \<Longrightarrow> length x = n) \<Longrightarrow> length (concat xs) = n * length xs"
  by (induction xs) simp_all

lemma mux_frame:
  assumes "frame_plain maxlen pi f"
  shows "mux_all maxlen pi (f # fs) =
    map_option (map_prod ((@) (concat (stream_packets pi f (the (fr_frame f))))) id) (mux_all maxlen (pi_after pi f (the (fr_frame f))) fs)"
proof -
  let ?sp = "stream_packets pi f (the (fr_frame f))"
  define n where "n = 188 * length ?sp"
  have ok: "frame_ok pi f (the (fr_frame f))" "int n \<le> maxlen" using assms by (simp_all add: frame_plain_def n_def)
  have s: "lts_ts_stream (Some f) (Some (replicate (nat maxlen) 0)) maxlen (Some pi) =
      Some (int n, Some (concat ?sp @ drop n (replicate (nat maxlen) 0)), Some (pi_after pi f (the (fr_frame f))))"
    by (rule lts_ts_stream_ok) (use ok in \<open>simp_all add: n_def\<close>)
  have "length (concat ?sp) = n"
    unfolding n_def using ok(1) by (intro length_concat_same stream_packets_188) (auto simp: frame_ok_def)
  with s show ?thesis
    by (auto simp: deref_def split: option.splits bind_splits)
qed

lemma knows_pi_after:
  assumes "frame_ok pi f fdata"
  shows "knows (hd (prog (pi_after pi f fdata))) h = knows (hd (prog pi)) h"
    and "program_ok (pi_after pi f fdata)"
proof -
  obtain ps where ps: "prog pi = [ps]" "length (stream ps) = 4" "program_ok pi" "0 \<le> fr_stream_number f" "fr_stream_number f < 4"
    using assms by (auto simp: frame_ok_def program_ok_def MAX_STREAM_NUM_def)
  let ?ps = "hd (prog (pi_after pi f fdata))"
  have p: "prog (pi_after pi f fdata) = [?ps]" "stream_num ?ps = stream_num ps" "length (stream ?ps) = 4"
    "program_num (pi_after pi f fdata) = program_num pi" "pmt_pid ?ps = pmt_pid ps"
    using ps by (simp_all add: pi_after_def set_stream_def Let_def)
  have t: "st_type (stream ?ps ! nat i) = st_type (stream ps ! nat i)" for i
    using ps by (cases "i = fr_stream_number f") (auto simp: pi_after_def set_stream_def Let_def nth_list_update)
  show "knows ?ps h = knows (hd (prog pi)) h"
    unfolding knows_def p(2) t ps(1) list.sel ..
  show "program_ok (pi_after pi f fdata)"
    using p ps by (auto simp: program_ok_def MAX_STREAM_NUM_def)
qed

definition frame_received :: "TEsFrame \<Rightarrow> chunk list \<Rightarrow> bool" where
  "frame_received f cs \<longleftrightarrow> chunks_of (fr_stream_number f) (take_bit 33 (fr_pts f) div 90) (the (fr_frame f)) cs"

lemma demux_stream_packets:
  assumes f: "frame_plain maxlen pi f" and h: "dm_pes_head_len h \<le> 0"
    and k: "if fr_is_key f \<noteq> 0 then demux_fresh h else knows (hd (prog pi)) h"
  shows "\<exists>h' cs. knows (hd (prog pi)) h' \<and> dm_pes_head_len h' \<le> 0 \<and> frame_received f cs \<and>
    (\<forall>rest. demux_all h (concat (stream_packets pi f (the (fr_frame f))) @ rest) = map_option (map_prod ((@) cs) id) (demux_all h' rest))"
proof -
  obtain ps where ps: "prog pi = [ps]" "0 \<le> stream_num ps" "stream_num ps \<le> 4" "length (stream ps) = 4"
    using f by (auto simp: frame_plain_def frame_ok_def program_ok_def MAX_STREAM_NUM_def)
  define ss where "ss = stream ps ! nat (fr_stream_number f)"
  define sid where "sid = lts_pes_stream_id (uint (st_type ss)) 0 (fr_stream_number f)"
  have sn: "0 \<le> fr_stream_number f" "fr_stream_number f < stream_num ps" and pl: "plain_tail (drop 157 (the (fr_frame f)))"
    using f ps by (auto simp: frame_plain_def frame_ok_def)
  have sid_ok: "sid AND 0xE0 \<noteq> 0"
    unfolding sid_def using f ps sn by (intro stream_id_is_pes) (auto simp: frame_plain_def ss_def Let_def)
  have frame: "\<exists>h' cs. knows ps h' \<and> dm_pes_head_len h' \<le> 0 \<and> frame_received f cs \<and>
    (\<forall>rest. demux_all h1 (concat (frame_packets (0x100 + fr_stream_number f) (continuity_counter ss) sid (fr_pts f) (the (fr_frame f))) @ rest)
       = map_option (map_prod ((@) cs) id) (demux_all h' rest))" if "knows ps h1" "dm_pes_head_len h1 \<le> 0" for h1
    unfolding frame_received_def by (rule demux_frame [OF that(1) sn ps(3) that(2) sid_ok pl])
  show ?thesis
  proof (cases "fr_is_key f = 0")
    case True
    then show ?thesis
      using frame [OF _ h] k ps by (simp add: stream_packets_def Let_def ss_def sid_def)
  next
    case False
    then have "demux_fresh h" using k by simp
    from demux_tables [OF this h ps(2-4), of "pat_pmt_counter pi"]
    obtain h1 where h1: "knows ps h1" "dm_pes_head_len h1 \<le> 0" "\<And>rest. demux_all h (ts_packet 0 1 (pat_pmt_counter pi) None (table_payload pat_sec)
        @ ts_packet 0x1001 1 (pat_pmt_counter pi) None (table_payload (pmt_sec ps)) @ rest) = demux_all h1 rest" by blast
    show ?thesis
      using frame [OF h1(1,2)] False ps h1(3) by (simp add: stream_packets_def Let_def ss_def sid_def)
  qed
qed

lemma knows_fresh: "knows ps h \<Longrightarrow> demux_fresh h"
  by (auto simp: knows_def demux_fresh_def)

text \<open>A demultiplexer can follow if the frame brings the tables or it has them already.\<close>

definition ts_ready :: "TsProgramInfo \<Rightarrow> TDemux \<Rightarrow> bool" where
  "ts_ready pi h \<longleftrightarrow> dm_pes_head_len h \<le> 0 \<and> knows (hd (prog pi)) h"

definition ts_follows :: "TsProgramInfo \<Rightarrow> TDemux \<Rightarrow> TEsFrame \<Rightarrow> bool" where
  "ts_follows pi h f \<longleftrightarrow> dm_pes_head_len h \<le> 0 \<and> (if fr_is_key f \<noteq> 0 then demux_fresh h else knows (hd (prog pi)) h)"

interpretation ts: container "mux_all maxlen" demux_all "\<lambda>pi f. concat (stream_packets pi f (the (fr_frame f)))"
  "\<lambda>pi f. pi_after pi f (the (fr_frame f))" "frames_plain maxlen" ts_ready ts_follows frame_received for maxlen
proof
  fix pi f fs h
  assume "frames_plain maxlen pi (f # fs)"
  then have f: "frame_plain maxlen pi f" and ok: "frame_ok pi f (the (fr_frame f))" by (simp_all add: frame_plain_def)
  show "mux_all maxlen pi (f # fs) = map_option (map_prod ((@) (concat (stream_packets pi f (the (fr_frame f))))) id) (mux_all maxlen (pi_after pi f (the (fr_frame f))) fs)"
    by (rule mux_frame [OF f])
  show "\<exists>h' cs. ts_ready (pi_after pi f (the (fr_frame f))) h' \<and> frame_received f cs \<and>
      (\<forall>rest. demux_all h (concat (stream_packets pi f (the (fr_frame f))) @ rest) = map_option (map_prod ((@) cs) id) (demux_all h' rest))"
    if "ts_follows pi h f"
    using demux_stream_packets [OF f] that unfolding ts_ready_def ts_follows_def knows_pi_after(1) [OF ok] by blast
qed (auto simp: demux_all.simps ts_ready_def ts_follows_def dest: knows_fresh)

section \<open>Checksums\<close>

text \<open>A receiver that runs the checksum over a table and its \<open>CRC_32\<close> gets 0: as long as the next bit
  is the top bit of the register, the register is only shifted.\<close>

lemma crc_bit_shift: "b = bit c (31 - k) \<Longrightarrow> k < 32 \<Longrightarrow> crc_bit (push_bit k c) b = push_bit (Suc k) c"
  by (simp add: crc_bit_def bit_push_bit_iff push_bit_push_bit)

lemma crc_byte_shift:
  assumes "k + j = 24"
  shows "crc_byte (push_bit k c) (ucast (drop_bit j c)) = push_bit (8 + k) c"
proof -
  have b: "bit (ucast (drop_bit j c) :: byte) (7 - i) = bit c (31 - (i + k))" if "i < 8" for i
  proof -
    have "j + (7 - i) = 31 - (i + k)" "7 - i < 8" using that assms by linarith+
    then show ?thesis using that by (simp add: bit_simps)
  qed
  have k: "crc_bit (push_bit (i + k) c) (bit (ucast (drop_bit j c) :: byte) (7 - i)) = push_bit (Suc i + k) c" if "i < 8" for i
    unfolding b [OF that] add_Suc using that assms by (intro crc_bit_shift refl) simp
  show ?thesis
    using k [of 0] k [of 1] k [of 2] k [of 3] k [of 4] k [of 5] k [of 6] k [of 7]
    unfolding crc_byte_def by (simp add: numeral_eq_Suc)
qed

lemma crc_residue: "CRC_encode (sec @ crc_bytes (CRC_encode sec)) = 0"
proof -
  define c where "c = CRC_encode sec"
  have "foldl crc_byte c (crc_bytes c) = push_bit 32 c"
    using crc_byte_shift [of 0 24 c] crc_byte_shift [of 8 16 c] crc_byte_shift [of 16 8 c] crc_byte_shift [of 24 0 c]
    by (simp add: crc_bytes_def)
  also have "\<dots> = 0" by (rule bit_word_eqI) (simp add: bit_simps)
  finally show ?thesis by (simp add: CRC_encode_def c_def)
qed

end
