(* ===== verification/Mpeg_Ts_Safe.thy ===== *)
theory Mpeg_Ts_Safe
  imports Mpeg_Ts_Demux
begin

text \<open>
  What \<open>lts_ts_demux\<close> reads of an arbitrary buffer: with 193 bytes behind the sync byte it stays inside,
  and it keeps the counts of its handle within the arrays.
\<close>

section \<open>Packets\<close>

text \<open>The arrays of a handle are in place and its counts stay within them.\<close>

definition demux_inv :: "TDemux \<Rightarrow> bool" where
  "demux_inv h \<longleftrightarrow> program_num (dm_info h) \<le> 1 \<and>
     (\<exists>q. prog (dm_info h) = [q] \<and> length (stream q) = 4 \<and> stream_num q \<le> 4)"

lemma demux_inv_update [simp]:
  "demux_inv (h\<lparr>dm_pid := a\<rparr>) = demux_inv h" "demux_inv (h\<lparr>dm_program_no := b\<rparr>) = demux_inv h"
  "demux_inv (h\<lparr>dm_stream_no := c\<rparr>) = demux_inv h" "demux_inv (h\<lparr>dm_pts := d\<rparr>) = demux_inv h"
  "demux_inv (h\<lparr>dm_is_pes := e\<rparr>) = demux_inv h" "demux_inv (h\<lparr>dm_pes_pts := f\<rparr>) = demux_inv h"
  "demux_inv (h\<lparr>dm_es_ptr := g\<rparr>) = demux_inv h" "demux_inv (h\<lparr>dm_es_len := i\<rparr>) = demux_inv h"
  "demux_inv (h\<lparr>dm_pes_head_len := j\<rparr>) = demux_inv h" "demux_inv (h\<lparr>dm_pack_ptr := k\<rparr>) = demux_inv h"
  "demux_inv (h\<lparr>dm_pack_len := l\<rparr>) = demux_inv h"
  by (simp_all add: demux_inv_def)

lemma peek_in: "0 \<le> i \<Longrightarrow> i < int (length buf) \<Longrightarrow> peek buf i = Some (buf ! nat i)"
  by (simp add: peek_def)

lemma payload_offset_safe:
  assumes "0 \<le> i" "i + 5 \<le> int (length buf)"
  shows "\<exists>off. get_ts_payload_offset buf i = Some off \<and> 4 \<le> off \<and> off \<le> 188"
  using assms by (auto simp: get_ts_payload_offset_def peek_in Let_def)

lemma pcr_safe:
  assumes "0 \<le> i" "i + 11 \<le> int (length buf)"
  shows "\<exists>pcr. get_ts_pcr buf i old = Some pcr"
  using assms by (simp add: get_ts_pcr_def peek_in)

lemma pes_parse_safe:
  assumes "0 \<le> i" "i + 14 \<le> int (length buf) \<or> len < 9"
  shows "\<exists>r v. lts_pes_parse_header buf i len None (Some old) None = Some (r, None, Some v, None)"
  using assms by (auto simp: lts_pes_parse_header_def get_pes_head_len_def peek_in)

lemma get_ts_es_safe:
  assumes "0 \<le> i" "i + 193 \<le> int (length buf)" "demux_inv h"
  shows "\<exists>h'. get_ts_es h buf i = Some h' \<and> demux_inv h'"
proof -
  obtain off where off: "get_ts_payload_offset buf i = Some off" "4 \<le> off" "off \<le> 188"
    using payload_offset_safe [of i buf] assms by auto
  obtain r v where p: "lts_pes_parse_header buf (i + off) (188 - off) None (Some (dm_pes_pts h)) None = Some (r, None, Some v, None)"
    using pes_parse_safe [of "i + off" buf "188 - off" "dm_pes_pts h"] assms off by fastforce
  show ?thesis using assms(3) by (simp add: get_ts_es_def off p Let_def)
qed

lemma CHAR_TO_LENGTH_nonneg: "0 \<le> CHAR_TO_LENGTH h l"
  by (simp add: CHAR_TO_LENGTH_def u8_def)

text \<open>Without payload, the length of the section is compared with -1 and nothing more is read.\<close>

lemma table_branch:
  assumes "4 \<le> off" "off \<le> 188" "size_t (188 - (off + 1)) \<ge> 8" "188 - (off + 1) \<ge> CHAR_TO_LENGTH a b + 3"
  shows "off \<le> 179"
  using assms CHAR_TO_LENGTH_nonneg [of a b] by (auto simp: size_t_def take_bit_int_eq_self)

lemma pat_loop_safe:
  assumes "0 \<le> maps" "maps + 4 \<le> int (length buf)" "demux_inv h" "pnum \<le> 1"
  shows "\<exists>h'. pat_loop [0..pnum - 1] buf maps h = Some h' \<and> demux_inv h'"
proof (cases "pnum = 1")
  case True
  then show ?thesis
    using assms by (auto simp: upto_rec1 MAX_PROGRAM_NUM_def peek_in array_get_def set_prog_def demux_inv_def)
next
  case False
  then show ?thesis using assms by simp
qed

lemma handle_pat_safe:
  assumes "0 \<le> i" "i + 193 \<le> int (length buf)" "demux_inv h"
  shows "\<exists>h'. handle_pat h buf i = Some h' \<and> demux_inv h'"
proof -
  obtain off where off: "get_ts_payload_offset buf i = Some off" "4 \<le> off" "off \<le> 188"
    using payload_offset_safe [of i buf] assms by auto
  define pnum where "pnum = (let p = to_int32 (size_t (188 - (off + 1) - 4 - 8) div 4) in if p > MAX_PROGRAM_NUM then MAX_PROGRAM_NUM else p)"
  have pnum: "pnum \<le> 1" by (simp add: pnum_def Let_def MAX_PROGRAM_NUM_def)
  then have inv: "demux_inv (h\<lparr>dm_info := (dm_info h)\<lparr>program_num := pnum\<rparr>\<rparr>)"
    using assms(3) by (auto simp: demux_inv_def)
  have loop: "\<exists>h'. pat_loop [0..pnum - 1] buf (i + (off + 1) + 8) (h\<lparr>dm_info := (dm_info h)\<lparr>program_num := pnum\<rparr>\<rparr>) = Some h' \<and> demux_inv h'"
    if "off \<le> 179"
    using that off assms pnum by (intro pat_loop_safe inv) auto
  have pk: "peek buf (i + (off + 1) + 1) = Some (buf ! nat (i + (off + 1) + 1))" "peek buf (i + (off + 1) + 2) = Some (buf ! nat (i + (off + 1) + 2))"
    using assms off by (intro peek_in; simp)+
  show ?thesis
    using assms(3) loop table_branch [OF off(2,3)]
    unfolding handle_pat_def off(1) bind.bind_lunit Let_def pk by (fold pnum_def [unfolded Let_def]) auto
qed

lemma pmt_loop_safe:
  assumes "0 \<le> stm" "limit \<le> int (length buf)" "length (stream q) = 4" "0 \<le> sn" "sn \<le> 4"
  shows "\<exists>sn' q'. pmt_loop sn buf stm limit q = Some (sn', q') \<and> sn' \<le> 4 \<and> length (stream q') = 4"
  using assms(1,3-5)
proof (induction "nat (4 - sn)" arbitrary: sn stm q)
  case 0
  then show ?case by (simp add: pmt_loop.simps MAX_STREAM_NUM_def)
next
  case (Suc d)
  show ?case
  proof (cases "stm + 4 \<ge> limit")
    case True
    then show ?thesis using Suc.prems by (simp add: pmt_loop.simps MAX_STREAM_NUM_def)
  next
    case False
    have sn: "sn < 4" using Suc.hyps(2) by simp
    obtain c where c: "0 \<le> c" and e: "CHAR_TO_LENGTH (get_field 0 4 (buf ! nat (stm + 3))) (schar (buf ! nat (stm + 4))) = c"
      using CHAR_TO_LENGTH_nonneg by blast
    have IH: "length (stream q') = 4 \<Longrightarrow> \<exists>sn' q''. pmt_loop (sn + 1) buf (stm + 5 + c) limit q' = Some (sn', q'') \<and> sn' \<le> 4 \<and> length (stream q'') = 4" for q'
      using Suc.hyps(1) [of "sn + 1" "stm + 5 + c" q'] Suc.hyps(2) Suc.prems sn c by auto
    show ?thesis
      using False sn Suc.prems assms(2) e IH
      by (subst pmt_loop.simps) (simp add: MAX_STREAM_NUM_def peek_in array_get_def Let_def)
  qed
qed

lemma handle_pmt_safe:
  assumes "0 \<le> i" "i + 193 \<le> int (length buf)" "demux_inv h"
  shows "\<exists>h'. handle_pmt h 0 buf i = Some h' \<and> demux_inv h'"
proof -
  obtain off where off: "get_ts_payload_offset buf i = Some off" "4 \<le> off" "off \<le> 188"
    using payload_offset_safe [of i buf] assms by auto
  obtain q where q: "prog (dm_info h) = [q]" "length (stream q) = 4" "stream_num q \<le> 4" "program_num (dm_info h) \<le> 1"
    using assms(3) by (auto simp: demux_inv_def)
  have pk: "peek buf (i + (off + 1) + 1) = Some (buf ! nat (i + (off + 1) + 1))" "peek buf (i + (off + 1) + 2) = Some (buf ! nat (i + (off + 1) + 2))"
    using assms off by (intro peek_in; simp)+
  define sl where "sl = CHAR_TO_LENGTH (get_field 0 4 (buf ! nat (i + (off + 1) + 1))) (schar (buf ! nat (i + (off + 1) + 2)))"
  have *: "\<exists>sn' q'. pmt_loop 0 buf (i + (off + 1) + 12 + CHAR_TO_LENGTH a b) (i + (off + 1) + 3 + sl) q = Some (sn', q') \<and> sn' \<le> 4 \<and> length (stream q') = 4"
    if "sl + 3 \<le> 188 - (off + 1)" for a b
    using that assms off q CHAR_TO_LENGTH_nonneg [of a b] by (intro pmt_loop_safe) auto
  have "off \<le> 179" if "12 < size_t (188 - (off + 1))" "sl + 3 \<le> 188 - (off + 1)"
    using that table_branch [OF off(2,3)] unfolding sl_def by auto
  then have pk2: "peek buf (i + (off + 1) + 10) = Some (buf ! nat (i + (off + 1) + 10))" "peek buf (i + (off + 1) + 11) = Some (buf ! nat (i + (off + 1) + 11))"
    if "12 < size_t (188 - (off + 1))" "sl + 3 \<le> 188 - (off + 1)"
    using that assms off by (intro peek_in; simp)+
  show ?thesis
  proof (cases "12 < size_t (188 - (off + 1)) \<and> sl + 3 \<le> 188 - (off + 1)")
    case True
    then obtain sn' q' where "pmt_loop 0 buf (i + (off + 1) + 12 + CHAR_TO_LENGTH (get_field 0 4 (buf ! nat (i + (off + 1) + 10)))
        (schar (buf ! nat (i + (off + 1) + 11)))) (i + (off + 1) + 3 + sl) q = Some (sn', q')" "sn' \<le> 4" "length (stream q') = 4"
      using * by blast
    then show ?thesis
      using True pk2 q unfolding handle_pmt_def off(1) bind.bind_lunit Let_def pk
      by (fold sl_def) (simp add: array_get_def set_prog_def demux_inv_def)
  next
    case False
    then show ?thesis
      using assms(3) unfolding handle_pmt_def off(1) bind.bind_lunit Let_def pk by (fold sl_def) auto
  qed
qed

lemma find_stream_safe:
  assumes "\<forall>k \<in> set ks. 0 \<le> k \<and> k < int (length (stream q))"
  shows "\<exists>r. find_stream ks PID q = Some r"
  using assms by (induction ks) (auto simp: array_get_def)

lemma handle_ts_pack_safe:
  assumes "0 \<le> i" "i + 193 \<le> int (length buf)" "demux_inv h"
  shows "\<exists>h'. handle_ts_pack h buf i = Some h' \<and> demux_inv h'"
proof -
  obtain q where q: "prog (dm_info h) = [q]" "length (stream q) = 4" "stream_num q \<le> 4" "program_num (dm_info h) \<le> 1"
    using assms(3) by (auto simp: demux_inv_def)
  define PID where "PID = CHAR_TO_LENGTH (get_field 0 5 (buf ! nat (i + 1))) (schar (buf ! nat (i + 2)))"
  have pk: "peek buf (i + 1) = Some (buf ! nat (i + 1))" "peek buf (i + 2) = Some (buf ! nat (i + 2))"
    using assms by (intro peek_in; simp)+
  obtain r where r: "find_stream [0..stream_num q - 1] PID q = Some r"
    using find_stream_safe [of "[0..stream_num q - 1]" q PID] q by auto
  obtain pcr where pcr: "get_ts_pcr buf i (dm_pts h) = Some pcr"
    using pcr_safe [of i buf "dm_pts h"] assms by auto
  have u: "[0..program_num (dm_info h) - 1] = (if program_num (dm_info h) = 1 then [0] else [])"
    using q(4) by auto
  have es: "\<exists>h'. get_ts_es (h\<lparr>dm_pid := PID, dm_program_no := a, dm_stream_no := b, dm_pts := c, dm_is_pes := 1\<rparr>) buf i = Some h' \<and> demux_inv h'" for a b c
    by (intro get_ts_es_safe assms(1,2)) (simp add: assms(3))
  have pmt: "\<exists>h'. handle_pmt (h\<lparr>dm_pid := PID\<rparr>) 0 buf i = Some h' \<and> demux_inv h'"
    and pat: "\<exists>h'. handle_pat (h\<lparr>dm_pid := PID\<rparr>) buf i = Some h' \<and> demux_inv h'"
    by (intro handle_pmt_safe handle_pat_safe assms(1,2); simp add: assms(3))+
  show ?thesis
    using es pmt pat pcr r q assms(3) unfolding handle_ts_pack_def Let_def pk bind.bind_lunit
    by (fold PID_def) (auto simp: u array_get_def split: option.splits)
qed

text \<open>The first byte with the sync value decides.\<close>

lemma demux_loop_sync:
  assumes "\<forall>j. k \<le> j \<and> j < i \<longrightarrow> buf ! nat j \<noteq> 0x47" "buf ! nat i = 0x47" "0 \<le> k" "k \<le> i" "i < len" "len = int (length buf)" "188 \<le> len"
  shows "demux_loop k h buf len = do {
      h' \<leftarrow> (if dm_sync_only h = 0 then handle_ts_pack (h\<lparr>dm_pack_ptr := Some i, dm_pack_len := 188\<rparr>) buf i
              else Some (h\<lparr>dm_pack_ptr := Some i, dm_pack_len := 188\<rparr>));
      Some (i + 188, h')
    }"
  using assms(1,3,4)
proof (induction "nat (i - k)" arbitrary: k)
  case 0
  then have "k = i" by simp
  then show ?case using assms by (subst demux_loop.simps) (simp add: peek_in Let_def)
next
  case (Suc d)
  have "k < i" using Suc.hyps(2) by simp
  then show ?case
    using Suc.hyps(1) [of "k + 1"] Suc.hyps(2) Suc.prems assms(2,5-)
    by (subst demux_loop.simps) (simp add: peek_in Let_def)
qed

lemma demux_loop_no_sync:
  assumes "\<forall>j. k \<le> j \<and> j < int (length buf) \<longrightarrow> buf ! nat j \<noteq> 0x47" "0 \<le> k"
  shows "demux_loop k h buf (int (length buf)) = Some (0, h)"
  using assms
proof (induction "nat (int (length buf) - k)" arbitrary: k)
  case 0
  then show ?case by (simp add: demux_loop.simps)
next
  case (Suc d)
  then show ?case by (subst demux_loop.simps) (simp add: peek_in)
qed

end
