(* ===== verification/Mpeg_Ps_Mux.thy ===== *)
theory Mpeg_Ps_Mux
  imports Mpeg_Pes
begin

text \<open>
  The program stream multiplexer: src/file/libmpeg/psmux.c.  \<open>lts_ps_stream\<close> writes a pack header, for
  a key frame the system header and the program stream map, and then the frame in PES packets of at
  most \<open>MAX_PES_LENGTH\<close> bytes of data.

  The default headers are global structs that \<open>init_default_headers\<close> fills in once, before their first
  use; here they are constants.  If a segment callback is registered, it is given every piece
  after it is written: the segments are the last component of the results.
\<close>

section \<open>Default headers\<close>

definition g_pack_header :: bytes where
  "g_pack_header = [0, 0, 1, 0xBA, 0, 0, 0, 0, 0, 0, 0, 0, 0x03, 0xF8]"

definition g_sys_header :: bytes where
  "g_sys_header =
     [0, 0, 1, 0xBB, 0, 12, 0x80, 0x00, 0x01,
      bitfields [(1, 0), (1, 0), (6, 1)], bitfields [(5, 1), (1, 1), (1, 1), (1, 1)], 0xFF]"

definition g_sys_streams :: bytes where
  "g_sys_streams =
     [0xB8, bitfields [(5, 0x00), (1, 0), (2, 3)], 0x40,
      0xB9, bitfields [(5, 0x02), (1, 1), (2, 3)], 0x00]"

definition g_ps_map :: bytes where
  "g_ps_map =
     [0, 0, 1, 0xBC, 0, 0, bitfields [(5, 0), (2, 3), (1, 1)], bitfields [(1, 1), (7, 127)], 0, 0, 0, 0]"

section \<open>Headers\<close>

definition scr_buf :: "64 word \<Rightarrow> bytes" where
  "scr_buf pts =
     [0x40 OR push_bit 3 (ucast (drop_bit 30 pts) AND 0x07) OR 0x04 OR (ucast (drop_bit 28 pts) AND 0x03),
      ucast (drop_bit 20 pts AND 0xff),
      push_bit 3 (ucast (drop_bit 15 pts) AND 0x1f) OR 0x04 OR (ucast (drop_bit 13 pts) AND 0x03),
      ucast (drop_bit 5 pts AND 0xff),
      push_bit 3 (ucast pts AND 0x1f) OR 0x04,
      1]"

definition set_pack_header :: "64 word \<Rightarrow> bytes \<Rightarrow> int \<Rightarrow> int \<Rightarrow> int \<Rightarrow> (int \<times> bytes) ub" where
  "set_pack_header pts buf dest maxlen rate =
     (if maxlen < 14 then Some (-1, buf)
      else do {
        buf \<leftarrow> store buf dest g_pack_header;
        buf \<leftarrow> store buf (dest + 4) (scr_buf pts);
        buf \<leftarrow> store buf (dest + 10)
          [word_of_int (drop_bit 14 rate AND 0xff), word_of_int (drop_bit 6 rate AND 0xff),
           word_of_int (push_bit 2 rate AND 0xfc OR 0x03)];
        Some (14, buf)
      })"

text \<open>The loop that counts the video and audio streams.\<close>

fun count_streams :: "TsProgramSpec \<Rightarrow> int list \<Rightarrow> int \<Rightarrow> int \<Rightarrow> (int \<times> int) ub" where
  "count_streams spec [] vnum anum = Some (vnum, anum)"
| "count_streams spec (i # is) vnum anum = do {
     s \<leftarrow> array_get (stream spec) i;
     if lts_is_video (uint (st_type s)) then count_streams spec is (vnum + 1) anum
     else if lts_is_audio (uint (st_type s)) then count_streams spec is vnum (anum + 1)
     else count_streams spec is vnum anum
   }"

definition set_sys_header :: "TsProgramSpec \<Rightarrow> bytes \<Rightarrow> int \<Rightarrow> int \<Rightarrow> int \<Rightarrow> (int \<times> bytes) ub" where
  "set_sys_header spec buf dest maxlen rate =
     (if maxlen < 18 then Some (-1, buf)
      else do {
        buf \<leftarrow> store buf dest g_sys_header;
        buf \<leftarrow> store buf (dest + 12) g_sys_streams;
        (vnum, anum) \<leftarrow> count_streams spec [0..stream_num spec - 1] 0 0;
        b9 \<leftarrow> peek buf (dest + 9);
        buf \<leftarrow> store buf (dest + 9) [put_field 2 6 anum b9];
        b10 \<leftarrow> peek buf (dest + 10);
        buf \<leftarrow> store buf (dest + 10) [put_field 0 5 vnum b10];
        buf \<leftarrow> store buf (dest + 6)
          [word_of_int (drop_bit 15 rate AND 0xff OR 0x80), word_of_int (drop_bit 7 rate AND 0xff),
           word_of_int (push_bit 1 rate AND 0xfe OR 0x01)];
        Some (18, buf)
      })"

text \<open>The loop that writes the entries of the stream map at \<open>es\<close>.  It clears the length of the first entry,
  \<open>es->es_info_length\<close>, in every round.\<close>

fun psm_entries :: "TsProgramSpec \<Rightarrow> int list \<Rightarrow> bytes \<Rightarrow> int \<Rightarrow> bytes ub" where
  "psm_entries spec [] buf es = Some buf"
| "psm_entries spec (i # is) buf es = do {
     s \<leftarrow> array_get (stream spec) i;
     buf \<leftarrow> store buf (es + 4 * i) [st_type s];
     buf \<leftarrow> store buf (es + 4 * i + 1) [lts_pes_stream_id (uint (st_type s)) 0 i];
     buf \<leftarrow> store buf (es + 2) [0, 0];
     psm_entries spec is buf es
   }"

definition set_psm :: "TsProgramSpec \<Rightarrow> bytes \<Rightarrow> int \<Rightarrow> int \<Rightarrow> (int \<times> bytes) ub" where
  "set_psm spec buf dest maxlen =
     (let es_num = stream_num spec;
          es_map_length = to_int32 (4 * es_num);
          header_length = 6 + es_map_length + 4;
          hdrlen = 12 + es_map_length + 4
      in if maxlen < hdrlen then Some (-1, buf)
         else do {
           buf \<leftarrow> store buf dest g_ps_map;
           buf \<leftarrow> store buf (dest + 10) [word_of_int (drop_bit 8 es_map_length), word_of_int es_map_length];
           buf \<leftarrow> store buf (dest + 4) [word_of_int (drop_bit 8 header_length), word_of_int header_length];
           buf \<leftarrow> memset buf (dest + 12) 0 es_map_length;
           buf \<leftarrow> psm_entries spec [0..es_num - 1] buf (dest + 12);
           buf \<leftarrow> store buf (dest + 12 + es_map_length) [0, 0, 0, 0];
           Some (hdrlen, buf)
         })"

section \<open>Frames\<close>

definition segment :: "bool \<Rightarrow> bytes \<Rightarrow> int \<Rightarrow> int \<Rightarrow> bytes list ub" where
  \<comment> \<open>\<open>if (segcb) segcb(dest + ps_len, n, ctx)\<close>\<close>
  "segment segcb buf ps_len n = (if segcb then map_option (\<lambda>s. [s]) (slice buf ps_len n) else Some [])"

text \<open>The loop over the PES packets.\<close>

function ps_pes_packets ::
  "int \<Rightarrow> int \<Rightarrow> byte \<Rightarrow> 64 word \<Rightarrow> bytes \<Rightarrow> int \<Rightarrow> int \<Rightarrow> bool \<Rightarrow> bytes \<Rightarrow> int \<Rightarrow> int \<Rightarrow> bytes list
   \<Rightarrow> (int \<times> bytes \<times> bytes list) ub" where
  "ps_pes_packets i pes_num stream_id pts fdata flen PES_LEN segcb buf ps_len maxlen segs =
     (if i < pes_num then
        let es_len = (if i = pes_num - 1 then flen - PES_LEN * i else PES_LEN)
        in do {
          (ret, buf) \<leftarrow> lts_pes_make_header stream_id pts es_len buf ps_len (maxlen - ps_len);
          if ret < 0 then Some (-1, buf, segs)
          else do {
            buf \<leftarrow> memcpy buf (ps_len + ret) fdata (PES_LEN * i) es_len;
            s \<leftarrow> segment segcb buf ps_len (es_len + ret);
            ps_pes_packets (i + 1) pes_num stream_id pts fdata flen PES_LEN segcb buf (ps_len + (es_len + ret)) maxlen (segs @ s)
          }
        }
      else Some (ps_len, buf, segs))"
  by pat_completeness auto
termination by (relation "measure (\<lambda>(i, pes_num, _). nat (pes_num - i))") auto

declare ps_pes_packets.simps [simp del]

text \<open>The part of \<open>lts_ps_stream\<close> for key frames: both headers, or -1.\<close>

definition ps_key_headers :: "TsProgramSpec \<Rightarrow> bool \<Rightarrow> bytes \<Rightarrow> int \<Rightarrow> int \<Rightarrow> bytes list \<Rightarrow> (int \<times> bytes \<times> bytes list) ub" where
  "ps_key_headers spec segcb buf ps_len maxlen segs = do {
     (ret, buf) \<leftarrow> set_sys_header spec buf ps_len (maxlen - ps_len) (mux_rate spec);
     if ret < 0 then Some (-1, buf, segs)
     else do {
       s \<leftarrow> segment segcb buf ps_len ret;
       let segs = segs @ s;
       let ps_len = ps_len + ret;
       (ret, buf) \<leftarrow> set_psm spec buf ps_len (maxlen - ps_len);
       if ret < 0 then Some (-1, buf, segs)
       else do {
         s \<leftarrow> segment segcb buf ps_len ret;
         Some (ps_len + ret, buf, segs @ s)
       }
     }
   }"

definition ps_pes_len :: "int \<Rightarrow> int" where
  "ps_pes_len n = (if n < MIN_PES_LENGTH then MIN_PES_LENGTH else if n > MAX_PES_LENGTH then MAX_PES_LENGTH else n)"

definition lts_ps_stream ::
  "TEsFrame option \<Rightarrow> bytes option \<Rightarrow> int \<Rightarrow> TsProgramInfo option \<Rightarrow> (int \<times> bytes option \<times> bytes list) ub" where
  "lts_ps_stream frame dest maxlen pi = do {
     p \<leftarrow> deref pi;
     spec \<leftarrow> array_get (prog p) 0;
     case (frame, dest) of
       (Some fr, Some buf) \<Rightarrow>
         if maxlen = 0 then Some (-1, dest, [])
         else case fr_frame fr of
             None \<Rightarrow> Some (-1, dest, [])
           | Some fdata \<Rightarrow>
               if fr_length fr = 0 \<or> program_num p \<noteq> 1 then Some (-1, dest, [])
               else do {
                 (ret, buf) \<leftarrow> set_pack_header (fr_pts fr) buf 0 maxlen (mux_rate spec);
                 if ret < 0 then Some (-1, Some buf, [])
                 else do {
                   segs \<leftarrow> segment (fr_segcb fr) buf 0 ret;
                   (ps_len, buf, segs) \<leftarrow>
                     (if fr_is_key fr \<noteq> 0 then ps_key_headers spec (fr_segcb fr) buf ret maxlen segs else Some (ret, buf, segs));
                   if ps_len < 0 then Some (-1, Some buf, segs)
                   else do {
                     let PES_LEN = ps_pes_len (fr_ps_pes_length fr);
                     s \<leftarrow> array_get (stream spec) (fr_stream_number fr);
                     let stream_id = lts_pes_stream_id (uint (st_type s)) 0 (fr_stream_number fr);
                     (r, buf, segs) \<leftarrow> ps_pes_packets 0 (c_div (fr_length fr + PES_LEN - 1) PES_LEN) stream_id (fr_pts fr) fdata
                       (fr_length fr) PES_LEN (fr_segcb fr) buf ps_len maxlen segs;
                     Some (r, Some buf, segs)
                   }
                 }
               }
     | _ \<Rightarrow> Some (-1, dest, [])
   }"

end
