(* ===== verification/Mpeg_Ps_Demux.thy ===== *)
theory Mpeg_Ps_Demux
  imports Mpeg_Ts_Demux
begin

text \<open>
  The program stream demultiplexer: src/file/libmpeg/psdemux.c.  \<open>lts_ps_demux\<close> looks for the next
  start code in a buffer, takes one pack, and for a PES packet of a stream of the program stream map
  tells where its data is.  The state is the handle \<open>TDemux\<close> of typedefs.h.

  \<open>BUF2U16\<close> is applied to \<open>uint8_t\<close> and to \<open>char\<close> buffers; for the latter the bytes are
  sign-extended first.
\<close>

definition handle_header :: "bytes \<Rightarrow> int \<Rightarrow> int \<Rightarrow> int ub" where
  "handle_header buf p len =
     (if len < 14 then Some 0
      else do {
        b13 \<leftarrow> peek buf (p + 13);
        let psize = 14 + uint (b13 AND 0x07);
        Some (if len < psize then 0 else psize)
      })"

definition handle_common_pack :: "bytes \<Rightarrow> int \<Rightarrow> int \<Rightarrow> int ub" where
  "handle_common_pack buf p len =
     (if len < 6 then Some 0
      else do {
        b4 \<leftarrow> peek buf (p + 4);
        b5 \<leftarrow> peek buf (p + 5);
        let psize = 6 + BUF2U16 (uint b4) (uint b5);
        Some (if len < psize then 0 else psize)
      })"

definition handle_system_header :: "bytes \<Rightarrow> int \<Rightarrow> int \<Rightarrow> int ub" where
  "handle_system_header buf p len = handle_common_pack buf p len"

text \<open>The loop over the entries of the stream map at \<open>map_buf\<close>; it returns the number of streams.\<close>

function map_loop :: "int \<Rightarrow> int \<Rightarrow> bytes \<Rightarrow> int \<Rightarrow> int \<Rightarrow> TsProgramSpec \<Rightarrow> (int \<times> TsProgramSpec) ub" where
  "map_loop pos i buf map_buf map_len ps =
     (if pos < map_len then do {
        b2 \<leftarrow> peek buf (map_buf + pos + 2);
        b3 \<leftarrow> peek buf (map_buf + pos + 3);
        let es_info_len = BUF2U16 (schar b2) (schar b3);
        if es_info_len < 0 \<or> i \<ge> MAX_STREAM_NUM then Some (i, ps)
        else do {
          es_id \<leftarrow> peek buf (map_buf + pos + 1);
          let pos' = pos + (4 + es_info_len);
          if es_id AND 0xC0 = 0xC0 \<or> es_id AND 0xE0 = 0xE0 then do {
            type \<leftarrow> peek buf (map_buf + pos);
            s \<leftarrow> array_get (stream ps) i;
            map_loop pos' (i + 1) buf map_buf map_len (ps\<lparr>stream := (stream ps)[nat i := s\<lparr>st_type := type, st_stream_id := es_id\<rparr>]\<rparr>)
          } else map_loop pos' i buf map_buf map_len ps
        }
      } else Some (i, ps))"
  by pat_completeness auto
termination by (relation "measure (\<lambda>(pos, _, _, _, map_len, _). nat (map_len - pos))") auto

declare map_loop.simps [simp del]

definition handle_map :: "TDemux \<Rightarrow> bytes \<Rightarrow> int \<Rightarrow> int \<Rightarrow> (int \<times> TDemux) ub" where
  "handle_map handle buf p len = do {
     psize \<leftarrow> handle_common_pack buf p len;
     if psize > 0 then do {
       b8 \<leftarrow> peek buf (p + 8);
       b9 \<leftarrow> peek buf (p + 9);
       let info_len = BUF2U16 (schar b8) (schar b9);
       b10 \<leftarrow> peek buf (p + 10 + info_len);
       b11 \<leftarrow> peek buf (p + 11 + info_len);
       let map_len = BUF2U16 (schar b10) (schar b11);
       let handle = handle\<lparr>dm_info := (dm_info handle)\<lparr>program_num := 1\<rparr>\<rparr>;
       ps \<leftarrow> array_get (prog (dm_info handle)) 0;
       (i, ps) \<leftarrow> map_loop 0 0 buf (p + 12 + info_len) map_len ps;
       Some (psize, set_prog handle 0 (ps\<lparr>stream_num := i\<rparr>))
     } else Some (psize, handle)
   }"

definition handle_finish :: int where
  "handle_finish = 4"

text \<open>The search for the stream with this identifier.\<close>

fun find_stream_id :: "int list \<Rightarrow> byte \<Rightarrow> TsProgramSpec \<Rightarrow> int option ub" where
  "find_stream_id [] stream_id ps = Some None"
| "find_stream_id (i # is) stream_id ps = do {
     s \<leftarrow> array_get (stream ps) i;
     if stream_id = st_stream_id s then Some (Some i) else find_stream_id is stream_id ps
   }"

text \<open>\<open>junk\<close> is what the local variable \<open>pts\<close> holds without being initialised; it is the time stamp
  of a packet that has none.\<close>

definition handle_pes :: "64 word \<Rightarrow> TDemux \<Rightarrow> bytes \<Rightarrow> int \<Rightarrow> int \<Rightarrow> (int \<times> TDemux) ub" where
  "handle_pes junk handle buf p len = do {
     psize \<leftarrow> handle_common_pack buf p len;
     if psize > 0 then do {
       (pes_head_len, sid, pts, es_len) \<leftarrow> lts_pes_parse_header buf p len (Some 0) (Some junk) (Some 0);
       if pes_head_len > 0 \<and> program_num (dm_info handle) = 1 then do {
         ps \<leftarrow> array_get (prog (dm_info handle)) 0;
         r \<leftarrow> find_stream_id [0..stream_num ps - 1] (the sid) ps;
         Some (psize,
               case r of
                 None \<Rightarrow> handle
               | Some i \<Rightarrow> handle\<lparr>dm_is_pes := 1, dm_program_no := 0, dm_stream_no := i, dm_pts := the pts,
                     dm_pes_head_len := pes_head_len, dm_es_ptr := Some (p + pes_head_len), dm_es_len := the es_len\<rparr>)
       } else Some (psize, handle)
     } else Some (psize, handle)
   }"

text \<open>The switch over the type of the pack at offset \<open>i\<close>.\<close>

definition handle_ps_pack :: "64 word \<Rightarrow> TDemux \<Rightarrow> bytes \<Rightarrow> int \<Rightarrow> int \<Rightarrow> byte \<Rightarrow> (int \<times> TDemux) ub" where
  "handle_ps_pack junk handle buf i len type =
     (if dm_sync_only handle \<noteq> 0 then
        if type = 0xBA then map_option (\<lambda>r. (r, handle)) (handle_header buf i (len - i))
        else if type = 0xB9 then Some (handle_finish, handle)
        else map_option (\<lambda>r. (r, handle)) (handle_common_pack buf i (len - i))
      else
        if type = 0xBA then map_option (\<lambda>r. (r, handle)) (handle_header buf i (len - i))
        else if type = 0xBB then map_option (\<lambda>r. (r, handle)) (handle_system_header buf i (len - i))
        else if type = 0xBC then handle_map handle buf i (len - i)
        else if type = 0xB9 then Some (handle_finish, handle)
        else handle_pes junk handle buf i (len - i))"

text \<open>The loop over the buffer; the result is \<open>i\<close> and \<open>ret_len\<close> when it ends.\<close>

function ps_demux_loop :: "64 word \<Rightarrow> int \<Rightarrow> int \<Rightarrow> TDemux \<Rightarrow> bytes \<Rightarrow> int \<Rightarrow> (int \<times> int \<times> TDemux) ub" where
  "ps_demux_loop junk i ret_len handle buf len =
     (if i < len - 4 then do {
        b0 \<leftarrow> peek buf i;
        b1 \<leftarrow> peek buf (i + 1);
        b2 \<leftarrow> peek buf (i + 2);
        if b0 = 0 \<and> b1 = 0 \<and> b2 = 1 then do {
          type \<leftarrow> peek buf (i + 3);
          if type < 0xB9 then ps_demux_loop junk (i + 1) i handle buf len
          else if dm_ps_started handle = 0 \<and> type \<noteq> 0xBA then ps_demux_loop junk (i + 1) i handle buf len
          else do {
            (r, handle) \<leftarrow> handle_ps_pack junk
              (if dm_ps_started handle = 0 then handle\<lparr>dm_ps_started := 1\<rparr> else handle) buf i len type;
            Some (i, r, handle)
          }
        } else ps_demux_loop junk (i + 1) i handle buf len
      } else Some (i, ret_len, handle))"
  by pat_completeness auto
termination by (relation "measure (\<lambda>(_, i, _, _, _, len). nat (len - i))") auto

declare ps_demux_loop.simps [simp del]

definition lts_ps_demux :: "64 word \<Rightarrow> TDemux option \<Rightarrow> bytes option \<Rightarrow> int \<Rightarrow> (int \<times> TDemux option) ub" where
  "lts_ps_demux junk handle ps_buf len =
     (case (handle, ps_buf) of
        (Some h, Some buf) \<Rightarrow>
          if len \<le> 0 then Some (-1, handle)
          else do {
            (i, ret_len, h) \<leftarrow> ps_demux_loop junk 0 0
              (h\<lparr>dm_is_pes := 0, dm_program_no := 0, dm_stream_no := 0, dm_pts := 0, dm_pack_ptr := None, dm_pack_len := 0,
                 dm_pes_head_len := 0, dm_es_ptr := None, dm_es_len := 0\<rparr>) buf len;
            Some (if dm_ps_started h = 0 then (-1, Some h)
                  else if i + ret_len > len then (0, Some h)
                  else (i + ret_len, Some (h\<lparr>dm_pack_ptr := Some i, dm_pack_len := ret_len\<rparr>)))
          }
      | _ \<Rightarrow> Some (-1, handle))"

end
