(* ===== verification/Mpeg_Ps.thy ===== *)
theory Mpeg_Ps
  imports Mpeg_Ps_Mux Mpeg_Ps_Demux Mpeg_Container
begin

text \<open>
  Program streams: what \<open>lts_ps_stream\<close> writes, as a list of packs, and what \<open>lts_ps_demux\<close> makes
  of them.
\<close>

section \<open>Packs\<close>

definition pack_bytes :: "64 word \<Rightarrow> int \<Rightarrow> bytes" where
  "pack_bytes pts rate =
     [0, 0, 1, 0xBA] @ scr_buf pts
     @ [word_of_int (drop_bit 14 rate AND 0xff), word_of_int (drop_bit 6 rate AND 0xff),
        word_of_int (push_bit 2 rate AND 0xfc OR 0x03), 0xF8]"

definition stream_counts :: "TsProgramSpec \<Rightarrow> int \<times> int" where
  "stream_counts spec = the (count_streams spec [0..stream_num spec - 1] 0 0)"

definition sys_bytes :: "TsProgramSpec \<Rightarrow> bytes" where
  "sys_bytes spec =
     [0, 0, 1, 0xBB, 0, 12, word_of_int (drop_bit 15 (mux_rate spec) AND 0xff OR 0x80), word_of_int (drop_bit 7 (mux_rate spec) AND 0xff),
      word_of_int (push_bit 1 (mux_rate spec) AND 0xfe OR 0x01),
      bitfields [(1, 0), (1, 0), (6, snd (stream_counts spec))], bitfields [(5, fst (stream_counts spec)), (1, 1), (1, 1), (1, 1)], 0xFF]
     @ g_sys_streams"

definition psm_entry :: "TsProgramSpec \<Rightarrow> int \<Rightarrow> bytes" where
  "psm_entry spec i =
     [st_type (stream spec ! nat i), lts_pes_stream_id (uint (st_type (stream spec ! nat i))) 0 i, 0, 0]"

definition psm_bytes :: "TsProgramSpec \<Rightarrow> bytes" where
  "psm_bytes spec =
     [0, 0, 1, 0xBC, 0, word_of_int (10 + 4 * stream_num spec), bitfields [(5, 0), (2, 3), (1, 1)], bitfields [(1, 1), (7, 127)],
      0, 0, 0, word_of_int (4 * stream_num spec)]
     @ concat (map (psm_entry spec) [0..stream_num spec - 1]) @ [0, 0, 0, 0]"

definition pes_bytes :: "byte \<Rightarrow> 64 word \<Rightarrow> bytes \<Rightarrow> bytes" where
  "pes_bytes sid pts es = pes_header sid pts (int (length es)) @ es"

lemma length_packs [simp]:
  "length (pack_bytes pts rate) = 14" "length (sys_bytes spec) = 18" "length (psm_entry spec i) = 4"
  "length (pes_bytes sid pts es) = 19 + length es"
  by (simp_all add: pack_bytes_def scr_buf_def sys_bytes_def g_sys_streams_def psm_entry_def pes_bytes_def)

lemma length_psm_bytes: "0 \<le> stream_num spec \<Longrightarrow> length (psm_bytes spec) = 16 + nat (4 * stream_num spec)"
proof -
  assume "0 \<le> stream_num spec"
  moreover have "length (concat (map (psm_entry spec) xs)) = 4 * length xs" for xs by (induction xs) simp_all
  ultimately show ?thesis by (simp add: psm_bytes_def)
qed

definition spec_ok :: "TsProgramSpec \<Rightarrow> bool" where
  "spec_ok spec \<longleftrightarrow> 0 \<le> stream_num spec \<and> stream_num spec \<le> 4 \<and> length (stream spec) = 4"

section \<open>Writing them\<close>

lemma set_pack_header_ok:
  assumes "14 \<le> length rest" "14 \<le> maxlen"
  shows "set_pack_header pts (pre @ rest) (int (length pre)) maxlen rate = Some (14, pre @ pack_bytes pts rate @ drop 14 rest)"
  using assms by (simp add: set_pack_header_def g_pack_header_def store_def nat_add_distrib scr_buf_def pack_bytes_def)

lemma count_streams_ok:
  assumes "\<forall>i \<in> set is. 0 \<le> i \<and> i < int (length (stream spec))"
  shows "\<exists>v a. count_streams spec is v0 a0 = Some (v, a)"
  using assms by (induction "is" arbitrary: v0 a0) (auto simp: array_get_def)

lemma set_sys_header_ok:
  assumes "18 \<le> length rest" "18 \<le> maxlen" "spec_ok spec"
  shows "set_sys_header spec (pre @ rest) (int (length pre)) maxlen (mux_rate spec) = Some (18, pre @ sys_bytes spec @ drop 18 rest)"
proof -
  have c: "count_streams spec [0..stream_num spec - 1] 0 0 = Some (stream_counts spec)"
    using count_streams_ok [of "[0..stream_num spec - 1]" spec 0 0] assms(3) by (auto simp: spec_ok_def stream_counts_def)
  have p: "put_field 2 6 v (bitfields [(Suc 0, 0), (Suc 0, 0), (6, 1)]) = bitfields [(Suc 0, 0), (Suc 0, 0), (6, v)]"
    "put_field 0 5 v (bitfields [(5, 1), (Suc 0, 1), (Suc 0, 1), (Suc 0, 1)]) = bitfields [(5, v), (Suc 0, 1), (Suc 0, 1), (Suc 0, 1)]" for v
    using put_field_bitfields [of "[(1, 0), (1, 0)]" 2 6 1 "[]" v] put_field_bitfields [of "[]" 0 5 1 "[(1, 1), (1, 1), (1, 1)]" v] by simp_all
  show ?thesis
    using assms(1,2) by (cases "stream_counts spec")
      (simp add: set_sys_header_def c g_sys_header_def g_sys_streams_def store_def peek_def nth_append nat_add_distrib p sys_bytes_def)
qed

lemma psm_entries_ok:
  assumes "0 \<le> k" "k \<le> n" "n \<le> 4" "length (stream spec) = 4"
  shows "psm_entries spec [k..n - 1] (pre @ concat (map (psm_entry spec) [0..k - 1]) @ replicate (nat (4 * (n - k))) 0 @ rest) (int (length pre))
    = Some (pre @ concat (map (psm_entry spec) [0..n - 1]) @ rest)"
  using assms
proof (induction "nat (n - k)" arbitrary: k)
  case 0
  then have "k = n" by simp
  then show ?case by simp
next
  case (Suc d)
  have kn: "k < n" using Suc.hyps(2) by simp
  let ?E = "concat (map (psm_entry spec) [0..k - 1])"
  have lE: "length ?E = nat (4 * k)"
  proof -
    have "length (concat (map (psm_entry spec) xs)) = 4 * length xs" for xs by (induction xs) simp_all
    then show ?thesis using Suc.prems(1) by simp
  qed
  have r: "replicate (nat (4 * (n - k))) (0 :: byte) = 0 # 0 # 0 # 0 # replicate (nat (4 * (n - (k + 1)))) 0"
  proof -
    have "nat (4 * (n - k)) = Suc (Suc (Suc (Suc (nat (4 * (n - (k + 1)))))))" using kn by simp
    then show ?thesis by (simp only: replicate_Suc)
  qed
  let ?rest = "replicate (nat (4 * (n - (k + 1)))) 0 @ rest"
  have u: "[k..n - 1] = k # [k + 1..n - 1]" using kn by (simp add: upto_rec1)
  have snoc: "concat (map (psm_entry spec) [0..k + 1 - 1]) = ?E @ psm_entry spec k" using Suc.prems(1) by (simp add: upto_rec2)
  have s1: "store (pre @ ?E @ 0 # 0 # 0 # 0 # ?rest) (int (length pre) + 4 * k) [st_type (stream spec ! nat k)]
      = Some (pre @ ?E @ st_type (stream spec ! nat k) # 0 # 0 # 0 # ?rest)"
    using lE Suc.prems(1) by (simp add: store_def nat_add_distrib)
  have s2: "store (pre @ ?E @ st_type (stream spec ! nat k) # 0 # 0 # 0 # ?rest) (int (length pre) + 4 * k + 1) [v]
      = Some (pre @ ?E @ st_type (stream spec ! nat k) # v # 0 # 0 # ?rest)" for v
    using lE Suc.prems(1) by (simp add: store_def nat_add_distrib)
  have s3: "store (pre @ (?E @ psm_entry spec k) @ ?rest) (int (length pre) + 2) [0, 0] = Some (pre @ (?E @ psm_entry spec k) @ ?rest)"
  proof (cases "k = 0")
    case True
    then show ?thesis by (simp add: store_def nat_add_distrib psm_entry_def)
  next
    case False
    then have "[0..k - 1] = 0 # [1..k - 1]" using Suc.prems(1) by (simp add: upto_rec1)
    then show ?thesis by (simp add: store_def nat_add_distrib psm_entry_def)
  qed
  have "psm_entries spec [k..n - 1] (pre @ ?E @ replicate (nat (4 * (n - k))) 0 @ rest) (int (length pre)) =
      psm_entries spec [k + 1..n - 1] (pre @ (?E @ psm_entry spec k) @ ?rest) (int (length pre))"
    using s1 s2 s3 kn Suc.prems unfolding u r by (simp add: array_get_def psm_entry_def)
  also have "\<dots> = Some (pre @ concat (map (psm_entry spec) [0..n - 1]) @ rest)"
    using Suc.hyps(1) [of "k + 1"] Suc.hyps(2) Suc.prems kn unfolding snoc by simp
  finally show ?case .
qed

lemma set_psm_ok:
  assumes spec: "spec_ok spec" and room: "16 + nat (4 * stream_num spec) \<le> length rest" "16 + 4 * stream_num spec \<le> maxlen"
  shows "set_psm spec (pre @ rest) (int (length pre)) maxlen =
    Some (16 + 4 * stream_num spec, pre @ psm_bytes spec @ drop (16 + nat (4 * stream_num spec)) rest)"
proof -
  define n where "n = stream_num spec"
  define m where "m = nat (4 * n)"
  have n: "0 \<le> n" "n \<le> 4" "int m = 4 * n" "m \<le> 16" using spec by (auto simp: spec_ok_def n_def m_def nat_le_iff)
  have i32: "to_int32 (4 * n) = 4 * n" using n by (intro to_int32_id) simp_all
  define H where "H = [0, 0, 1, 0xBC, 0, word_of_int (10 + 4 * n), bitfields [(5, 0), (2, 3), (1, 1)], bitfields [(1, 1), (7, 127)],
      0, 0, 0, word_of_int (4 * n)]"
  have hi: "drop_bit 8 (4 * n) = 0" "drop_bit 8 (10 + 4 * n) = 0" using n by (simp_all add: drop_bit_eq_div)
  have l: "12 \<le> length rest" "m + 4 \<le> length (drop 12 rest)" using room n by (simp_all add: n_def m_def)
  have s1: "(do {
      buf \<leftarrow> store (pre @ rest) (int (length pre)) g_ps_map;
      buf \<leftarrow> store buf (int (length pre) + 10) [word_of_int (drop_bit 8 (4 * n)), word_of_int (4 * n)];
      store buf (int (length pre) + 4) [word_of_int (drop_bit 8 (10 + 4 * n)), word_of_int (10 + 4 * n)]
    }) = Some ((pre @ H) @ drop 12 rest)"
    unfolding hi using l by (simp add: g_ps_map_def store_def nat_add_distrib H_def)
  have lH: "length H = 12" "int (length pre) + 12 = int (length (pre @ H))" by (simp_all add: H_def)
  have s2: "memset ((pre @ H) @ drop 12 rest) (int (length (pre @ H))) 0 (4 * n) = Some ((pre @ H) @ replicate m 0 @ drop (12 + m) rest)"
    unfolding n(3) [symmetric] memset_def using l store_after [of "pre @ H" "int (length (pre @ H))" "replicate m 0" "drop 12 rest"]
    by (simp add: add.commute)
  have s3: "psm_entries spec [0..n - 1] ((pre @ H) @ replicate m 0 @ drop (12 + m) rest) (int (length (pre @ H)))
      = Some ((pre @ H) @ concat (map (psm_entry spec) [0..n - 1]) @ drop (12 + m) rest)"
    using psm_entries_ok [of 0 n spec "pre @ H" "drop (12 + m) rest"] n spec by (simp add: m_def spec_ok_def)
  let ?E = "concat (map (psm_entry spec) [0..n - 1])"
  have lE: "length ?E = m"
  proof -
    have "length (concat (map (psm_entry spec) xs)) = 4 * length xs" for xs by (induction xs) simp_all
    then show ?thesis using n by (simp add: m_def)
  qed
  have s4: "store ((pre @ H) @ ?E @ drop (12 + m) rest) (int (length (pre @ H)) + 4 * n) [0, 0, 0, 0]
      = Some (((pre @ H) @ ?E) @ [0, 0, 0, 0] @ drop (16 + m) rest)"
    using store_after [of "(pre @ H) @ ?E" "int (length (pre @ H)) + 4 * n" "[0, 0, 0, 0]" "drop (12 + m) rest"] lE n l
    by (simp add: add.commute)
  obtain b1 b2 where b123: "store (pre @ rest) (int (length pre)) g_ps_map = Some b1"
    "store b1 (int (length pre) + 10) [word_of_int (drop_bit 8 (4 * n)), word_of_int (4 * n)] = Some b2"
    "store b2 (int (length pre) + 4) [word_of_int (drop_bit 8 (6 + 4 * n + 4)), word_of_int (6 + 4 * n + 4)] = Some ((pre @ H) @ drop 12 rest)"
    using s1 by (auto simp: bind_eq_Some_conv add.commute)
  have b: "psm_bytes spec = H @ ?E @ [0, 0, 0, 0]" by (simp add: psm_bytes_def H_def n_def)
  have "\<not> maxlen < 12 + 4 * n + 4" using room(2) by (simp add: n_def)
  then show ?thesis
    unfolding set_psm_def Let_def n_def [symmetric] m_def [symmetric] i32 b
    by (simp only: if_False b123 lH(2) s2 s3 s4 bind.bind_lunit) simp
qed

text \<open>A frame in pieces of \<open>k\<close> bytes.\<close>

function chop :: "nat \<Rightarrow> bytes \<Rightarrow> bytes list" where
  "chop k bs = (if k = 0 \<or> bs = [] then [] else take k bs # chop k (drop k bs))"
  by pat_completeness auto
termination by (relation "measure (\<lambda>(_, bs). length bs)") auto

declare chop.simps [simp del]

lemma chop_Nil [simp]: "chop k [] = []"
  by (simp add: chop.simps)

lemma concat_chop: "0 < k \<Longrightarrow> concat (chop k bs) = bs"
proof (induction k bs rule: chop.induct)
  case (1 k bs)
  then show ?case by (cases "bs = []") (simp_all add: chop.simps [of k bs])
qed

lemma chop_bounds: "x \<in> set (chop k bs) \<Longrightarrow> x \<noteq> [] \<and> length x \<le> k"
proof (induction k bs rule: chop.induct)
  case (1 k bs)
  then show ?case by (cases "k = 0 \<or> bs = []") (auto simp: chop.simps [of k bs])
qed

definition ps_packets :: "byte \<Rightarrow> 64 word \<Rightarrow> nat \<Rightarrow> bytes \<Rightarrow> bytes list" where
  "ps_packets sid pts k fdata = map (pes_bytes sid pts) (chop k fdata)"

lemma lengths_packs: "length (concat (map (pes_bytes sid pts) xs)) = 19 * length xs + length (concat xs)"
  by (induction xs) simp_all

lemma pes_step:
  assumes "L = int k" "0 < k" "flen = int (length fdata)" "0 \<le> i"
  shows "i < (flen + L - 1) div L \<longleftrightarrow> L * i < flen"
    and "L * i < flen \<Longrightarrow> (if i = (flen + L - 1) div L - 1 then flen - L * i else L) = int (length (take k (drop (nat (L * i)) fdata)))"
proof -
  define q where "q = (flen + L - 1) div L"
  have q: "q * L \<le> flen + L - 1" "flen + L - 1 < (q + 1) * L"
  proof -
    define m where "m = (flen + L - 1) mod L"
    have "q * L + m = flen + L - 1" "0 \<le> m" "m < L" using assms(1,2) by (simp_all add: q_def m_def)
    then show "q * L \<le> flen + L - 1" "flen + L - 1 < (q + 1) * L" by (simp_all add: distrib_right)
  qed
  have lt: "i < q \<longleftrightarrow> L * i < flen"
  proof
    assume "i < q"
    then have "(i + 1) * L \<le> q * L" using assms(1) by (intro mult_right_mono) auto
    then show "L * i < flen" using q(1) by (simp add: algebra_simps)
  next
    assume "L * i < flen"
    show "i < q"
    proof (rule ccontr)
      assume "\<not> i < q"
      then have "q * L \<le> i * L" using assms(1) by (intro mult_right_mono) auto
      then show False using q(2) \<open>L * i < flen\<close> by (simp add: algebra_simps)
    qed
  qed
  then show "i < (flen + L - 1) div L \<longleftrightarrow> L * i < flen" by (simp add: q_def)
  assume less: "L * i < flen"
  have nn: "0 \<le> L * i" using assms by simp
  have len: "int (length (drop (nat (L * i)) fdata)) = flen - L * i" using less nn assms(3) by simp
  show "(if i = (flen + L - 1) div L - 1 then flen - L * i else L) = int (length (take k (drop (nat (L * i)) fdata)))"
  proof (cases "i = q - 1")
    case True
    then have "q = i + 1" by simp
    then have "q * L = L * i + L" by (simp add: algebra_simps)
    then have "flen - L * i \<le> L" using q(2) by (simp add: distrib_right)
    then show ?thesis
      unfolding q_def [symmetric] length_take of_nat_min len assms(1) [symmetric] using True by simp
  next
    case False
    then have "i + 2 \<le> q" using lt less by simp
    then have "(i + 2) * L \<le> q * L" using assms(1) by (intro mult_right_mono) auto
    then have "L \<le> flen - L * i" using q(1) by (simp add: algebra_simps)
    then show ?thesis
      unfolding q_def [symmetric] length_take of_nat_min len assms(1) [symmetric] using False by simp
  qed
qed

lemma ps_pes_packets_ok:
  assumes L: "L = int k" "0 < k" "flen = int (length fdata)"
    and "0 \<le> i" "ps = chop k (drop (nat (L * i)) fdata)" "n = length (concat (map (pes_bytes sid pts) ps))"
    and "n \<le> length rest" "int (length pre) + int n \<le> maxlen"
  shows "ps_pes_packets i ((flen + L - 1) div L) sid pts fdata flen L segcb (pre @ rest) (int (length pre)) maxlen segs =
    Some (int (length pre) + int n, pre @ concat (map (pes_bytes sid pts) ps) @ drop n rest,
          segs @ (if segcb then map (pes_bytes sid pts) ps else []))"
  using assms(4-)
proof (induction "nat ((flen + L - 1) div L - i)" arbitrary: i ps n pre rest segs)
  case 0
  then have "\<not> i < (flen + L - 1) div L" by simp
  moreover from this have "flen \<le> L * i" using pes_step(1) [OF L "0.prems"(1)] by simp
  then have "drop (nat (L * i)) fdata = []" using L(3) by simp
  ultimately show ?case using "0.prems" by (simp add: ps_pes_packets.simps)
next
  case (Suc d)
  have lt: "i < (flen + L - 1) div L" using Suc.hyps(2) by linarith
  then have lt2: "L * i < flen" using pes_step(1) [OF L Suc.prems(1)] by blast
  let ?R = "drop (nat (L * i)) fdata"
  define es where "es = take k ?R"
  have nn: "0 \<le> L * i" using L Suc.prems(1) by simp
  have ne: "?R \<noteq> []" using lt2 nn L(3) by simp
  have es_len: "(if i = (flen + L - 1) div L - 1 then flen - L * i else L) = int (length es)"
    using pes_step(2) [OF L Suc.prems(1) lt2] by (simp add: es_def)
  have next_i: "drop k ?R = drop (nat (L * (i + 1))) fdata"
    using nn L(1) by (simp add: algebra_simps nat_add_distrib)
  define ps' where "ps' = chop k (drop (nat (L * (i + 1))) fdata)"
  have ps: "ps = es # ps'"
    using Suc.prems(2) ne L(2) unfolding es_def ps'_def next_i [symmetric] by (simp only: chop.simps [of k ?R]) simp
  define n' where "n' = length (concat (map (pes_bytes sid pts) ps'))"
  have n: "n = 19 + length es + n'" using Suc.prems(3) by (simp add: ps n'_def)
  have hd: "lts_pes_make_header sid pts (int (length es)) (pre @ rest) (int (length pre)) (maxlen - int (length pre))
      = Some (19, pre @ pes_header sid pts (int (length es)) @ drop 19 rest)"
    using Suc.prems(4,5) n by (intro pes_make_header_ok) simp_all
  have sl: "slice fdata (L * i) (int (length es)) = Some es"
  proof -
    have "take (length es) ?R = es" unfolding es_def length_take by (simp add: min_def)
    moreover have "L * i + int (length es) \<le> int (length fdata)" using nn lt2 L(3) by (auto simp: es_def min_def)
    ultimately show ?thesis using nn by (auto simp: slice_def)
  qed
  have st: "store (pre @ pes_header sid pts (int (length es)) @ drop 19 rest) (int (length pre) + 19) es
      = Some ((pre @ pes_bytes sid pts es) @ drop (19 + length es) rest)"
    using store_after [of "pre @ pes_header sid pts (int (length es))" "int (length pre) + 19" es "drop 19 rest"] Suc.prems(4) n
    by (simp add: pes_bytes_def add.commute)
  have sg: "segment segcb ((pre @ pes_bytes sid pts es) @ drop (19 + length es) rest) (int (length pre)) (int (length es) + 19)
      = Some (if segcb then [pes_bytes sid pts es] else [])"
    using slice_tail(2) [of pre "pes_bytes sid pts es @ drop (19 + length es) rest"] slice_take [of "19 + length es" "pes_bytes sid pts es @ drop (19 + length es) rest"]
    by (simp add: segment_def add.commute)
  have pl: "int (length pre) + (int (length es) + 19) = int (length (pre @ pes_bytes sid pts es))" by simp
  have neg: "\<not> (19 :: int) < 0" by simp
  have "ps_pes_packets i ((flen + L - 1) div L) sid pts fdata flen L segcb (pre @ rest) (int (length pre)) maxlen segs =
      ps_pes_packets (i + 1) ((flen + L - 1) div L) sid pts fdata flen L segcb ((pre @ pes_bytes sid pts es) @ drop (19 + length es) rest)
        (int (length (pre @ pes_bytes sid pts es))) maxlen (segs @ (if segcb then [pes_bytes sid pts es] else []))"
    by (subst ps_pes_packets.simps)
      (simp only: lt if_True Let_def es_len hd memcpy_def sl st sg pl bind.bind_lunit prod.case neg if_False)
  also have "\<dots> = Some (int (length (pre @ pes_bytes sid pts es)) + int n',
      (pre @ pes_bytes sid pts es) @ concat (map (pes_bytes sid pts) ps') @ drop n' (drop (19 + length es) rest),
      (segs @ (if segcb then [pes_bytes sid pts es] else [])) @ (if segcb then map (pes_bytes sid pts) ps' else []))"
    by (rule Suc.hyps(1)) (use Suc.hyps(2) Suc.prems n in \<open>auto simp: ps'_def n'_def\<close>)
  finally show ?case by (simp add: ps n add_ac)
qed

section \<open>The packs of a frame\<close>

definition ps_headers :: "TsProgramSpec \<Rightarrow> TEsFrame \<Rightarrow> bytes list" where
  "ps_headers spec f = pack_bytes (fr_pts f) (mux_rate spec) # (if fr_is_key f \<noteq> 0 then [sys_bytes spec, psm_bytes spec] else [])"

definition ps_stream_packs :: "TsProgramSpec \<Rightarrow> TEsFrame \<Rightarrow> bytes \<Rightarrow> bytes list" where
  "ps_stream_packs spec f fdata =
     ps_headers spec f
     @ ps_packets (lts_pes_stream_id (uint (st_type (stream spec ! nat (fr_stream_number f)))) 0 (fr_stream_number f)) (fr_pts f)
         (nat (ps_pes_len (fr_ps_pes_length f))) fdata"

definition ps_frame_ok :: "TsProgramSpec \<Rightarrow> TEsFrame \<Rightarrow> bytes \<Rightarrow> bool" where
  "ps_frame_ok spec f fdata \<longleftrightarrow> spec_ok spec \<and> 0 \<le> fr_stream_number f \<and> fr_stream_number f < 4
     \<and> fr_frame f = Some fdata \<and> fr_length f = int (length fdata) \<and> fdata \<noteq> []"

lemma segment_at:
  "segment b (pre @ p @ rest) (int (length pre)) (int (length p)) = Some (if b then [p] else [])"
  using slice_tail(2) [of pre "p @ rest"] slice_take [of "length p" "p @ rest"] by (simp add: segment_def)

lemma ps_key_headers_ok:
  assumes "spec_ok spec" "n = 34 + nat (4 * stream_num spec)" "n \<le> length rest" "int (length pre) + int n \<le> maxlen"
  shows "ps_key_headers spec b (pre @ rest) (int (length pre)) maxlen segs =
    Some (int (length pre) + int n, (pre @ sys_bytes spec @ psm_bytes spec) @ drop n rest,
          segs @ (if b then [sys_bytes spec, psm_bytes spec] else []))"
proof -
  have n: "int (nat (4 * stream_num spec)) = 4 * stream_num spec" using assms(1) by (simp add: spec_ok_def)
  have s1: "set_sys_header spec (pre @ rest) (int (length pre)) (maxlen - int (length pre)) (mux_rate spec)
      = Some (18, (pre @ sys_bytes spec) @ drop 18 rest)"
    using set_sys_header_ok [of rest "maxlen - int (length pre)" spec pre] assms by (simp add: spec_ok_def)
  have g1: "segment b ((pre @ sys_bytes spec) @ drop 18 rest) (int (length pre)) 18 = Some (if b then [sys_bytes spec] else [])"
    using segment_at [of b pre "sys_bytes spec" "drop 18 rest"] by simp
  have pl: "int (length pre) + 18 = int (length (pre @ sys_bytes spec))" by simp
  have s2: "set_psm spec ((pre @ sys_bytes spec) @ drop 18 rest) (int (length (pre @ sys_bytes spec))) (maxlen - int (length (pre @ sys_bytes spec)))
      = Some (16 + 4 * stream_num spec, (pre @ sys_bytes spec) @ psm_bytes spec @ drop n rest)"
  proof -
    have "drop (16 + nat (4 * stream_num spec)) (drop 18 rest) = drop n rest" using assms(2) by simp
    then show ?thesis using set_psm_ok [OF assms(1), of "drop 18 rest" _ "pre @ sys_bytes spec"] assms n by simp
  qed
  have lp: "int (length (psm_bytes spec)) = 16 + 4 * stream_num spec"
    using length_psm_bytes [of spec] assms(1) by (simp add: spec_ok_def)
  have g2: "segment b ((pre @ sys_bytes spec) @ psm_bytes spec @ drop n rest) (int (length (pre @ sys_bytes spec))) (16 + 4 * stream_num spec)
      = Some (if b then [psm_bytes spec] else [])"
    using segment_at [of b "pre @ sys_bytes spec" "psm_bytes spec" "drop n rest"] lp by simp
  have nonneg: "\<not> (18 :: int) < 0" "\<not> 16 + 4 * stream_num spec < 0" using assms(1) by (simp_all add: spec_ok_def)
  show ?thesis
    unfolding ps_key_headers_def Let_def by (simp only: s1 g1 s2 g2 pl bind.bind_lunit prod.case nonneg if_False) (use assms(1) in \<open>simp add: assms(2) spec_ok_def\<close>)
qed

lemma ps_pes_len_range: "1000 \<le> ps_pes_len n \<and> ps_pes_len n \<le> 65000"
  by (simp add: ps_pes_len_def MIN_PES_LENGTH_def MAX_PES_LENGTH_def)

theorem lts_ps_stream_ok:
  assumes pi: "program_num pi = 1" "prog pi = [spec]" and f: "ps_frame_ok spec f fdata"
    and n: "n = length (concat (ps_stream_packs spec f fdata))" "int n \<le> maxlen" "n \<le> length dest"
  shows "lts_ps_stream (Some f) (Some dest) maxlen (Some pi) =
    Some (int n, Some (concat (ps_stream_packs spec f fdata) @ drop n dest), if fr_segcb f then ps_stream_packs spec f fdata else [])"
proof -
  define sid where "sid = lts_pes_stream_id (uint (st_type (stream spec ! nat (fr_stream_number f)))) 0 (fr_stream_number f)"
  define L where "L = ps_pes_len (fr_ps_pes_length f)"
  define ps where "ps = ps_packets sid (fr_pts f) (nat L) fdata"
  have fr: "spec_ok spec" "0 \<le> fr_stream_number f" "fr_stream_number f < 4" "fr_frame f = Some fdata"
    "fr_length f = int (length fdata)" "fdata \<noteq> []"
    using f by (simp_all add: ps_frame_ok_def)
  have packs: "ps_stream_packs spec f fdata = ps_headers spec f @ ps" by (simp add: ps_stream_packs_def ps_def sid_def L_def)
  have L: "0 < L" "L = int (nat L)" "0 < nat L" using ps_pes_len_range [of "fr_ps_pes_length f"] by (simp_all add: L_def)
  define hb where "hb = concat (ps_headers spec f)"
  define m where "m = length (concat ps)"
  have nm: "n = length hb + m" using n(1) by (simp add: packs hb_def m_def)
  have lh: "14 \<le> length hb" by (simp add: hb_def ps_headers_def)
  have p1: "set_pack_header (fr_pts f) dest 0 maxlen (mux_rate spec) = Some (14, pack_bytes (fr_pts f) (mux_rate spec) @ drop 14 dest)"
    using set_pack_header_ok [of dest maxlen "fr_pts f" "[]"] n nm lh by simp
  have g1: "segment (fr_segcb f) (pack_bytes (fr_pts f) (mux_rate spec) @ drop 14 dest) 0 14
      = Some (if fr_segcb f then [pack_bytes (fr_pts f) (mux_rate spec)] else [])"
    using segment_at [of "fr_segcb f" "[]" "pack_bytes (fr_pts f) (mux_rate spec)"] by simp
  have hd: "(if fr_is_key f \<noteq> 0
      then ps_key_headers spec (fr_segcb f) (pack_bytes (fr_pts f) (mux_rate spec) @ drop 14 dest) 14 maxlen
             (if fr_segcb f then [pack_bytes (fr_pts f) (mux_rate spec)] else [])
      else Some (14, pack_bytes (fr_pts f) (mux_rate spec) @ drop 14 dest, if fr_segcb f then [pack_bytes (fr_pts f) (mux_rate spec)] else []))
    = Some (int (length hb), hb @ drop (length hb) dest, if fr_segcb f then ps_headers spec f else [])"
  proof (cases "fr_is_key f = 0")
    case True
    then show ?thesis by (simp add: hb_def ps_headers_def)
  next
    case False
    define k where "k = 34 + nat (4 * stream_num spec)"
    have lk: "length hb = 14 + k" using False length_psm_bytes [of spec] fr(1) by (simp add: hb_def ps_headers_def k_def spec_ok_def)
    have "ps_key_headers spec (fr_segcb f) (pack_bytes (fr_pts f) (mux_rate spec) @ drop 14 dest) (int (length (pack_bytes (fr_pts f) (mux_rate spec)))) maxlen
             (if fr_segcb f then [pack_bytes (fr_pts f) (mux_rate spec)] else []) =
       Some (int (length (pack_bytes (fr_pts f) (mux_rate spec))) + int k, (pack_bytes (fr_pts f) (mux_rate spec) @ sys_bytes spec @ psm_bytes spec) @ drop k (drop 14 dest),
          (if fr_segcb f then [pack_bytes (fr_pts f) (mux_rate spec)] else []) @ (if fr_segcb f then [sys_bytes spec, psm_bytes spec] else []))"
      using n nm lk by (intro ps_key_headers_ok fr(1) k_def) simp_all
    then show ?thesis using False lk by (simp add: hb_def ps_headers_def add.commute)
  qed
  have ag: "array_get (prog pi) 0 = Some spec" "array_get (stream spec) (fr_stream_number f) = Some (stream spec ! nat (fr_stream_number f))"
    using pi fr by (simp_all add: array_get_def spec_ok_def)
  have cd: "c_div (fr_length f + L - 1) L = (fr_length f + L - 1) div L" using L(1) fr(5) by (intro c_div_nonneg) simp_all
  have pk: "ps_pes_packets 0 ((fr_length f + L - 1) div L) sid (fr_pts f) fdata (fr_length f) L (fr_segcb f) (hb @ drop (length hb) dest)
      (int (length hb)) maxlen (if fr_segcb f then ps_headers spec f else []) =
    Some (int (length hb) + int m, hb @ concat ps @ drop m (drop (length hb) dest),
      (if fr_segcb f then ps_headers spec f else []) @ (if fr_segcb f then ps else []))"
    unfolding ps_def ps_packets_def
    by (rule ps_pes_packets_ok [OF L(2,3) fr(5), of 0]) (use n nm in \<open>simp_all add: m_def ps_def ps_packets_def\<close>)
  have nz: "\<not> int (length hb) < 0" "\<not> (14 :: int) < 0" "maxlen \<noteq> 0" "\<not> (fr_length f = 0 \<or> program_num pi \<noteq> 1)"
    using n nm lh fr pi by auto
  show ?thesis
    unfolding lts_ps_stream_def deref_simps Let_def
    by (simp only: ag bind.bind_lunit prod.case option.case fr(4) nz if_False p1 g1 hd L_def [symmetric] sid_def [symmetric] cd pk)
      (simp add: nm hb_def packs m_def add.commute)
qed

section \<open>Demultiplexing\<close>

text \<open>The loop of an application, as for transport streams.\<close>

definition ps_chunk :: "TDemux \<Rightarrow> bytes \<Rightarrow> chunk list ub" where
  "ps_chunk h buf =
     (if dm_is_pes h = 0 then Some []
      else case dm_es_ptr h of
          None \<Rightarrow> Some []
        | Some p \<Rightarrow> do { es \<leftarrow> slice buf p (dm_es_len h); Some [(dm_stream_no h, dm_pts h, es)] })"

function ps_demux_all :: "64 word \<Rightarrow> TDemux \<Rightarrow> bytes \<Rightarrow> (chunk list \<times> TDemux) ub" where
  "ps_demux_all junk h buf =
     (if buf = [] then Some ([], h)
      else do {
        (r, h') \<leftarrow> lts_ps_demux junk (Some h) (Some buf) (int (length buf));
        h \<leftarrow> deref h';
        if r \<le> 0 then Some ([], h)
        else do {
          c \<leftarrow> ps_chunk h buf;
          (cs, h) \<leftarrow> ps_demux_all junk h (drop (nat r) buf);
          Some (c @ cs, h)
        }
      })"
  by pat_completeness auto
termination by (relation "measure (\<lambda>(_, _, buf). length buf)") auto

declare ps_demux_all.simps [simp del]

lemma ps_demux_all_Nil [simp]: "ps_demux_all junk h [] = Some ([], h)"
  by (simp add: ps_demux_all.simps)

definition ps_reset :: "TDemux \<Rightarrow> TDemux" where
  "ps_reset h = h\<lparr>dm_is_pes := 0, dm_program_no := 0, dm_stream_no := 0, dm_pts := 0, dm_pack_ptr := None, dm_pack_len := 0,
     dm_pes_head_len := 0, dm_es_ptr := None, dm_es_len := 0\<rparr>"

lemma ps_demux_pack:
  assumes p: "p = [0, 0, 1, t] @ body" "body \<noteq> []" "0xB9 \<le> t" "dm_ps_started h = 1 \<or> dm_ps_started h = 0 \<and> t = 0xBA"
    and h1: "handle_ps_pack junk (ps_reset (h\<lparr>dm_ps_started := 1\<rparr>)) (p @ rest) 0 (int (length (p @ rest))) t = Some (int (length p), h1)"
    and st: "dm_ps_started h1 = 1"
    and ch: "ps_chunk (h1\<lparr>dm_pack_ptr := Some 0, dm_pack_len := int (length p)\<rparr>) (p @ rest) = Some cs"
  shows "ps_demux_all junk h (p @ rest) =
    yields cs (ps_demux_all junk (h1\<lparr>dm_pack_ptr := Some 0, dm_pack_len := int (length p)\<rparr>) rest)"
proof -
  have pk: "peek (p @ rest) 0 = Some 0" "peek (p @ rest) 1 = Some 0" "peek (p @ rest) 2 = Some 1" "peek (p @ rest) 3 = Some t"
    using p(1) by (simp_all add: peek_def nth_append)
  have r: "(if dm_ps_started (ps_reset h) = 0 then (ps_reset h)\<lparr>dm_ps_started := 1\<rparr> else ps_reset h) = ps_reset (h\<lparr>dm_ps_started := 1\<rparr>)"
    using p(4) by (auto simp: ps_reset_def)
  have l: "0 < int (length (p @ rest)) - 4" using p(1,2) by (cases body) simp_all
  have s: "dm_ps_started (ps_reset h) = dm_ps_started h" by (simp add: ps_reset_def)
  have nt: "\<not> t < 0xB9" using p(3) by simp
  have "ps_demux_loop junk 0 0 (ps_reset h) (p @ rest) (int (length (p @ rest))) = Some (0, int (length p), h1)"
    using l nt p(4) h1 by (subst ps_demux_loop.simps) (auto simp: pk r [simplified s] s)
  then have d: "lts_ps_demux junk (Some h) (Some (p @ rest)) (int (length (p @ rest))) =
      Some (int (length p), Some (h1\<lparr>dm_pack_ptr := Some 0, dm_pack_len := int (length p)\<rparr>))"
    using p(1) st unfolding lts_ps_demux_def ps_reset_def [symmetric] by simp
  have ne: "p \<noteq> []" using p(1) by simp
  then have "\<not> int (length p) \<le> 0" by simp
  with ne ch show ?thesis
    by (subst ps_demux_all.simps) (auto simp: d [simplified] split: option.splits bind_splits)
qed

text \<open>The demultiplexer has seen a pack header, and the stream map of \<open>spec\<close>.\<close>

definition ps_knows :: "TsProgramSpec \<Rightarrow> TDemux \<Rightarrow> bool" where
  "ps_knows spec h \<longleftrightarrow> program_num (dm_info h) = 1 \<and> dm_sync_only h = 0 \<and> dm_ps_started h = 1 \<and>
     (\<exists>q. prog (dm_info h) = [q] \<and> stream_num q = stream_num spec \<and> length (stream q) = 4 \<and>
          (\<forall>i. 0 \<le> i \<and> i < stream_num spec \<longrightarrow>
             st_stream_id (stream q ! nat i) = lts_pes_stream_id (uint (st_type (stream spec ! nat i))) 0 i))"

definition ps_fresh :: "TDemux \<Rightarrow> bool" where
  "ps_fresh h \<longleftrightarrow> dm_sync_only h = 0 \<and> (dm_ps_started h = 0 \<or> dm_ps_started h = 1) \<and> (\<exists>q. prog (dm_info h) = [q] \<and> length (stream q) = 4)"

definition av_streams :: "TsProgramSpec \<Rightarrow> bool" where
  "av_streams spec \<longleftrightarrow> (\<forall>i. 0 \<le> i \<and> i < stream_num spec \<longrightarrow>
     lts_is_video (uint (st_type (stream spec ! nat i))) \<or> lts_is_audio (uint (st_type (stream spec ! nat i))))"

lemma ps_knows_update [simp]:
  "ps_knows ps (ps_reset h) = ps_knows ps h" "ps_knows ps (h\<lparr>dm_program_no := b\<rparr>) = ps_knows ps h"
  "ps_knows ps (h\<lparr>dm_stream_no := c\<rparr>) = ps_knows ps h" "ps_knows ps (h\<lparr>dm_pts := d\<rparr>) = ps_knows ps h"
  "ps_knows ps (h\<lparr>dm_is_pes := e\<rparr>) = ps_knows ps h" "ps_knows ps (h\<lparr>dm_es_ptr := g\<rparr>) = ps_knows ps h"
  "ps_knows ps (h\<lparr>dm_es_len := i\<rparr>) = ps_knows ps h" "ps_knows ps (h\<lparr>dm_pes_head_len := j\<rparr>) = ps_knows ps h"
  "ps_knows ps (h\<lparr>dm_pack_ptr := k\<rparr>) = ps_knows ps h" "ps_knows ps (h\<lparr>dm_pack_len := l\<rparr>) = ps_knows ps h"
  by (simp_all add: ps_knows_def ps_reset_def)

lemma ps_fresh_update [simp]:
  "ps_fresh (h\<lparr>dm_pack_ptr := k\<rparr>) = ps_fresh h" "ps_fresh (h\<lparr>dm_pack_len := l\<rparr>) = ps_fresh h"
  by (simp_all add: ps_fresh_def)

lemma ps_chunk_reset [simp]:
  "ps_chunk (ps_reset h\<lparr>dm_pack_ptr := a, dm_pack_len := b\<rparr>) buf = Some []"
  by (simp add: ps_chunk_def ps_reset_def)

lemma handle_header_pack:
  "handle_header (pack_bytes pts rate @ rest) 0 (int (length (pack_bytes pts rate @ rest))) = Some 14"
  by (simp add: handle_header_def peek_def nth_append pack_bytes_def scr_buf_def)

lemma handle_common_pack_at:
  assumes "buf ! 4 = word_of_int (drop_bit 8 l)" "buf ! 5 = word_of_int l" "0 \<le> l" "l < 65536" "6 + l \<le> int (length buf)"
  shows "handle_common_pack buf 0 (int (length buf)) = Some (6 + l)"
proof -
  have "peek buf 4 = Some (buf ! 4)" "peek buf 5 = Some (buf ! 5)" using assms(3,5) by (simp_all add: peek_def)
  then show ?thesis
    using assms(3,5) BUF2U16_split [OF assms(3,4)] by (simp add: handle_common_pack_def assms(1,2) Let_def)
qed

lemma ps_pack_step:
  assumes "dm_ps_started h = 0 \<or> dm_ps_started h = 1"
  shows "ps_demux_all junk h (pack_bytes pts rate @ rest) =
    ps_demux_all junk ((ps_reset (h\<lparr>dm_ps_started := 1\<rparr>))\<lparr>dm_pack_ptr := Some 0, dm_pack_len := 14\<rparr>) rest"
proof -
  let ?h = "ps_reset (h\<lparr>dm_ps_started := 1\<rparr>)"
  have "handle_ps_pack junk ?h (pack_bytes pts rate @ rest) 0 (int (length (pack_bytes pts rate @ rest))) 0xBA
      = Some (int (length (pack_bytes pts rate)), ?h)"
    using handle_header_pack [of pts rate rest] by (simp add: handle_ps_pack_def)
  moreover have "pack_bytes pts rate = [0, 0, 1, 0xBA] @ drop 4 (pack_bytes pts rate)" by (simp add: pack_bytes_def)
  ultimately have "ps_demux_all junk h (pack_bytes pts rate @ rest) =
      yields [] (ps_demux_all junk (?h\<lparr>dm_pack_ptr := Some 0, dm_pack_len := int (length (pack_bytes pts rate))\<rparr>) rest)"
    using assms by (intro ps_demux_pack [of _ "0xBA" "drop 4 (pack_bytes pts rate)"])
      (auto simp: ps_reset_def ps_chunk_def pack_bytes_def scr_buf_def)
  then show ?thesis by simp
qed

lemma ps_sys_step:
  assumes "dm_ps_started h = 1" "dm_sync_only h = 0"
  shows "ps_demux_all junk h (sys_bytes spec @ rest) =
    ps_demux_all junk ((ps_reset (h\<lparr>dm_ps_started := 1\<rparr>))\<lparr>dm_pack_ptr := Some 0, dm_pack_len := 18\<rparr>) rest"
proof -
  let ?h = "ps_reset (h\<lparr>dm_ps_started := 1\<rparr>)"
  have "handle_common_pack (sys_bytes spec @ rest) 0 (int (length (sys_bytes spec @ rest))) = Some (6 + 12)"
    by (rule handle_common_pack_at) (simp_all add: sys_bytes_def g_sys_streams_def nth_append)
  then have "handle_ps_pack junk ?h (sys_bytes spec @ rest) 0 (int (length (sys_bytes spec @ rest))) 0xBB
      = Some (int (length (sys_bytes spec)), ?h)"
    using assms(2) by (simp add: handle_ps_pack_def handle_system_header_def ps_reset_def)
  moreover have "sys_bytes spec = [0, 0, 1, 0xBB] @ drop 4 (sys_bytes spec)" by (simp add: sys_bytes_def)
  ultimately have "ps_demux_all junk h (sys_bytes spec @ rest) =
      yields [] (ps_demux_all junk (?h\<lparr>dm_pack_ptr := Some 0, dm_pack_len := int (length (sys_bytes spec))\<rparr>) rest)"
    using assms by (intro ps_demux_pack [of _ "0xBB" "drop 4 (sys_bytes spec)"])
      (auto simp: ps_reset_def ps_chunk_def sys_bytes_def)
  then show ?thesis by simp
qed

text \<open>The stream map.\<close>

definition ps_learn :: "TsProgramSpec \<Rightarrow> int \<Rightarrow> TsProgramSpec \<Rightarrow> TsProgramSpec" where
  "ps_learn spec i q = q\<lparr>stream := (stream q)[nat i := (stream q ! nat i)\<lparr>st_type := st_type (stream spec ! nat i),
     st_stream_id := lts_pes_stream_id (uint (st_type (stream spec ! nat i))) 0 i\<rparr>]\<rparr>"

lemma length_ps_learn [simp]: "length (stream (ps_learn spec i q)) = length (stream q)"
  by (simp add: ps_learn_def)

lemma four: "0 \<le> i \<Longrightarrow> i < 4 \<Longrightarrow> i = 0 \<or> i = 1 \<or> i = 2 \<or> i = (3 :: int)"
  by auto

lemma av_stream_id:
  assumes "lts_is_video t \<or> lts_is_audio t" "0 \<le> i" "i < 4"
  shows "lts_pes_stream_id t 0 i AND 0xC0 = 0xC0" "lts_pes_stream_id t 0 i AND 0xE0 \<noteq> 0" "0xBD \<le> lts_pes_stream_id t 0 i"
  using four [OF assms(2,3)] assms(1) by (elim disjE; simp add: lts_pes_stream_id_def)+

lemma av_stream_id_inj:
  assumes "lts_is_video t \<or> lts_is_audio t" "0 \<le> i" "i < 4" "lts_is_video u \<or> lts_is_audio u" "0 \<le> j" "j < 4" "i \<noteq> j"
  shows "lts_pes_stream_id t 0 i \<noteq> lts_pes_stream_id u 0 j"
  using four [OF assms(2,3)] four [OF assms(5,6)] assms(1,4,7)
  by (elim disjE; simp add: lts_pes_stream_id_def)

lemma map_loop_entries:
  assumes "n \<le> 4" "length (stream q) = 4" "0 \<le> k" "k \<le> n" "av_streams spec" "n = stream_num spec"
  shows "map_loop (4 * k) k (pre @ concat (map (psm_entry spec) [0..n - 1]) @ post) (int (length pre)) (4 * n) q
    = Some (n, fold (ps_learn spec) [k..n - 1] q)"
  using assms(2-4)
proof (induction "nat (n - k)" arbitrary: k q)
  case 0
  then have "k = n" by simp
  then show ?case by (simp add: map_loop.simps)
next
  case (Suc d)
  have kn: "k < n" using Suc.hyps(2) by simp
  let ?buf = "pre @ concat (map (psm_entry spec) [0..n - 1]) @ post"
  let ?e = "psm_entry spec k"
  have "[0..n - 1] = [0..k - 1] @ k # [k + 1..n - 1]"
    using kn Suc.prems(2) by (simp add: upto_split2 [of 0 k "n - 1"] upto_rec2 [of 0 k])
  then have buf: "?buf = (pre @ concat (map (psm_entry spec) [0..k - 1])) @ ?e @ concat (map (psm_entry spec) [k + 1..n - 1]) @ post"
    by simp
  have l: "length (concat (map (psm_entry spec) xs)) = 4 * length xs" for xs by (induction xs) simp_all
  define P where "P = int (length (pre @ concat (map (psm_entry spec) [0..k - 1])))"
  have P: "int (length pre) + 4 * k = P" using Suc.prems(2) by (simp add: l P_def)
  have pk: "peek ?buf P = Some (?e ! 0)" "peek ?buf (P + 1) = Some (?e ! 1)" "peek ?buf (P + 2) = Some (?e ! 2)" "peek ?buf (P + 3) = Some (?e ! 3)"
    unfolding buf P_def using peek_mid [of 0 ?e] peek_mid [of 1 ?e] peek_mid [of 2 ?e] peek_mid [of 3 ?e]
    by (simp_all del: length_append append_assoc)
  have av: "lts_is_video (uint (st_type (stream spec ! nat k))) \<or> lts_is_audio (uint (st_type (stream spec ! nat k)))"
    using assms(5,6) kn Suc.prems(2) by (simp add: av_streams_def)
  have id: "lts_pes_stream_id (uint (st_type (stream spec ! nat k))) 0 k AND 0xC0 = 0xC0"
    using av_stream_id(1) [OF av Suc.prems(2)] kn assms(1) by simp
  have b0: "BUF2U16 (schar 0) (schar 0) = 0" by (simp add: BUF2U16_def schar_def)
  have step: "map_loop (4 * k) k ?buf (int (length pre)) (4 * n) q = map_loop (4 * (k + 1)) (k + 1) ?buf (int (length pre)) (4 * n) (ps_learn spec k q)"
    using kn assms(1) Suc.prems pk id b0
    by (subst map_loop.simps) (simp add: P psm_entry_def MAX_STREAM_NUM_def array_get_def ps_learn_def Let_def distrib_left)
  have "[k..n - 1] = k # [k + 1..n - 1]" using kn by (simp add: upto_rec1)
  then show ?case
    unfolding step using Suc.hyps(1) [of "k + 1" "ps_learn spec k q"] Suc.hyps(2) Suc.prems kn by simp
qed

lemma fold_ps_learn:
  assumes "n \<le> 4" "length (stream q) = 4" "0 \<le> k"
  shows "length (stream (fold (ps_learn spec) [k..n - 1] q)) = 4
    \<and> (\<forall>i. 0 \<le> i \<and> i < k \<longrightarrow> stream (fold (ps_learn spec) [k..n - 1] q) ! nat i = stream q ! nat i)
    \<and> (\<forall>i. k \<le> i \<and> i < n \<longrightarrow> st_stream_id (stream (fold (ps_learn spec) [k..n - 1] q) ! nat i)
          = lts_pes_stream_id (uint (st_type (stream spec ! nat i))) 0 i)"
  using assms(2,3)
proof (induction "nat (n - k)" arbitrary: k q)
  case 0
  then show ?case by auto
next
  case (Suc d)
  have kn: "k < n" using Suc.hyps(2) by simp
  then have u: "[k..n - 1] = k # [k + 1..n - 1]" by (simp add: upto_rec1)
  let ?q = "fold (ps_learn spec) [k + 1..n - 1] (ps_learn spec k q)"
  have IH: "length (stream ?q) = 4" "\<forall>i. 0 \<le> i \<and> i < k + 1 \<longrightarrow> stream ?q ! nat i = stream (ps_learn spec k q) ! nat i"
    "\<forall>i. k + 1 \<le> i \<and> i < n \<longrightarrow> st_stream_id (stream ?q ! nat i) = lts_pes_stream_id (uint (st_type (stream spec ! nat i))) 0 i"
    using Suc.hyps(1) [of "k + 1" "ps_learn spec k q"] Suc.hyps(2) Suc.prems by auto
  have "st_stream_id (stream ?q ! nat i) = lts_pes_stream_id (uint (st_type (stream spec ! nat i))) 0 i" if "k \<le> i" "i < n" for i
    using IH(2,3) that Suc.prems kn assms(1) by (cases "i = k") (auto simp: nth_list_update ps_learn_def)
  moreover have "stream ?q ! nat i = stream q ! nat i" if "0 \<le> i" "i < k" for i
    using IH(2) that by (auto simp: nth_list_update ps_learn_def)
  ultimately show ?case using IH(1) unfolding u by simp
qed

lemma handle_map_psm:
  assumes spec: "spec_ok spec" "av_streams spec" and h: "prog (dm_info h) = [q]" "length (stream q) = 4"
  shows "handle_map h (psm_bytes spec @ rest) 0 (int (length (psm_bytes spec @ rest))) =
    Some (16 + 4 * stream_num spec, h\<lparr>dm_info := (dm_info h)\<lparr>program_num := 1,
      prog := [(fold (ps_learn spec) [0..stream_num spec - 1] q)\<lparr>stream_num := stream_num spec\<rparr>]\<rparr>\<rparr>)"
proof -
  define n where "n = stream_num spec"
  have n: "0 \<le> n" "n \<le> 4" "length (stream spec) = 4" using spec(1) by (simp_all add: n_def spec_ok_def)
  define H where "H = [0, 0, 1, 0xBC, 0, word_of_int (10 + 4 * n), bitfields [(5, 0), (2, 3), (1, 1)], bitfields [(1, 1), (7, 127)],
      0, 0, 0, word_of_int (4 * n)]"
  let ?buf = "H @ concat (map (psm_entry spec) [0..n - 1]) @ [0, 0, 0, 0] @ rest"
  have b: "psm_bytes spec @ rest = ?buf" by (simp add: psm_bytes_def H_def n_def)
  have lb: "int (length ?buf) = 16 + 4 * n + int (length rest)"
    by (simp only: b [symmetric] length_append) (use length_psm_bytes [of spec] n in \<open>simp add: n_def\<close>)
  have hi: "drop_bit 8 (10 + 4 * n) = 0" using n by (simp add: drop_bit_eq_div)
  have common: "handle_common_pack ?buf 0 (int (length ?buf)) = Some (6 + (10 + 4 * n))"
    using n lb hi by (intro handle_common_pack_at) (simp_all add: H_def)
  have pk: "peek ?buf 8 = Some 0" "peek ?buf 9 = Some 0" "peek ?buf 10 = Some 0" "peek ?buf 11 = Some (word_of_int (4 * n))"
    using n lb by (simp_all add: peek_def H_def)
  have ml: "BUF2U16 (schar 0) (schar (word_of_int (4 * n))) = 4 * n"
  proof -
    have "n = 0 \<or> n = 1 \<or> n = 2 \<or> n = 3 \<or> n = 4" using n by auto
    then show ?thesis by (elim disjE) (simp_all add: BUF2U16_def schar_def)
  qed
  have b0: "BUF2U16 (schar 0) (schar 0) = 0" by (simp add: BUF2U16_def schar_def)
  have loop: "map_loop 0 0 ?buf 12 (4 * n) q = Some (n, fold (ps_learn spec) [0..n - 1] q)"
    using map_loop_entries [OF n(2) h(2) order.refl n(1) spec(2), of H "[0, 0, 0, 0] @ rest"] by (simp add: n_def H_def)
  show ?thesis
    unfolding b n_def [symmetric] handle_map_def common bind.bind_lunit
    using n(1) h by (simp add: pk [simplified] b0 ml [simplified] loop [simplified] array_get_def set_prog_def Let_def)
qed

lemma ps_psm_step:
  assumes spec: "spec_ok spec" "av_streams spec" and h: "ps_fresh h" "dm_ps_started h = 1"
  shows "\<exists>h'. ps_knows spec h' \<and> (\<forall>rest. ps_demux_all junk h (psm_bytes spec @ rest) = ps_demux_all junk h' rest)"
proof -
  obtain q where q: "prog (dm_info h) = [q]" "length (stream q) = 4" "dm_sync_only h = 0" using h(1) by (auto simp: ps_fresh_def)
  let ?h = "ps_reset (h\<lparr>dm_ps_started := 1\<rparr>)"
  define h1 where "h1 = ?h\<lparr>dm_info := (dm_info h)\<lparr>program_num := 1,
      prog := [(fold (ps_learn spec) [0..stream_num spec - 1] q)\<lparr>stream_num := stream_num spec\<rparr>]\<rparr>\<rparr>"
  define h2 where "h2 = h1\<lparr>dm_pack_ptr := Some 0, dm_pack_len := int (length (psm_bytes spec))\<rparr>"
  have n: "0 \<le> stream_num spec" "stream_num spec \<le> 4" using spec(1) by (simp_all add: spec_ok_def)
  have l: "int (length (psm_bytes spec)) = 16 + 4 * stream_num spec" using length_psm_bytes n by simp
  have hp: "handle_ps_pack junk ?h (psm_bytes spec @ rest) 0 (int (length (psm_bytes spec @ rest))) 0xBC
      = Some (int (length (psm_bytes spec)), h1)" for rest
    unfolding l using handle_map_psm [OF spec, of ?h q rest] q by (simp add: handle_ps_pack_def h1_def ps_reset_def)
  have ne: "drop 4 (psm_bytes spec) \<noteq> []" using l n by (intro notI) (drule arg_cong [of _ _ length], simp)
  have "psm_bytes spec = [0, 0, 1, 0xBC] @ drop 4 (psm_bytes spec)" by (simp add: psm_bytes_def)
  then have "ps_demux_all junk h (psm_bytes spec @ rest) = yields [] (ps_demux_all junk h2 rest)" for rest
    unfolding h2_def by (rule ps_demux_pack [OF _ ne _ _ hp]) (use h in \<open>simp_all add: h1_def ps_chunk_def ps_reset_def\<close>)
  moreover have "ps_knows spec h2"
    using fold_ps_learn [OF n(2) q(2), of 0 spec] q by (simp add: h2_def h1_def ps_knows_def ps_reset_def)
  ultimately show ?thesis by auto
qed

lemma find_stream_id_at:
  assumes "\<forall>i. 0 \<le> i \<and> i < n \<longrightarrow> st_stream_id (stream q ! nat i) = sid i" "n \<le> int (length (stream q))" "0 \<le> sn" "sn < n"
    "\<forall>i. 0 \<le> i \<and> i < sn \<longrightarrow> sid i \<noteq> sid sn" "0 \<le> k" "k \<le> sn"
  shows "find_stream_id [k..n - 1] (sid sn) q = Some (Some sn)"
  using assms(6,7)
proof (induction "nat (sn - k)" arbitrary: k)
  case 0
  then have "k = sn" by simp
  then show ?case using assms by (simp add: upto_rec1 array_get_def)
next
  case (Suc d)
  then have "find_stream_id [k + 1..n - 1] (sid sn) q = Some (Some sn)" by (intro Suc.hyps) auto
  moreover have "k < sn" using Suc.hyps(2) by simp
  ultimately show ?case using Suc.prems assms(1-5) by (auto simp: upto_rec1 array_get_def)
qed

lemma ps_pes_step:
  assumes k: "ps_knows spec h" and spec: "spec_ok spec" "av_streams spec" and sn: "0 \<le> sn" "sn < stream_num spec"
    and es: "int (length es) \<le> 65522"
    and sid: "sid = lts_pes_stream_id (uint (st_type (stream spec ! nat sn))) 0 sn"
  shows "\<exists>h'. ps_knows spec h' \<and> (\<forall>rest. ps_demux_all junk h (pes_bytes sid pts es @ rest) =
    yields [(sn, take_bit 33 pts div 90, es)] (ps_demux_all junk h' rest))"
proof -
  obtain q where q: "program_num (dm_info h) = 1" "dm_sync_only h = 0" "dm_ps_started h = 1" "prog (dm_info h) = [q]"
    "stream_num q = stream_num spec" "length (stream q) = 4"
    "\<forall>i. 0 \<le> i \<and> i < stream_num spec \<longrightarrow> st_stream_id (stream q ! nat i) = lts_pes_stream_id (uint (st_type (stream spec ! nat i))) 0 i"
    using k by (auto simp: ps_knows_def)
  have n: "stream_num spec \<le> 4" using spec(1) by (simp add: spec_ok_def)
  have av: "lts_is_video (uint (st_type (stream spec ! nat i))) \<or> lts_is_audio (uint (st_type (stream spec ! nat i)))"
    if "0 \<le> i" "i < stream_num spec" for i using spec(2) that by (simp add: av_streams_def)
  have sid': "sid AND 0xE0 \<noteq> 0" "0xBD \<le> sid" unfolding sid using av_stream_id [OF av [OF sn] sn(1)] sn n by simp_all
  have find: "find_stream_id [0..stream_num spec - 1] sid q = Some (Some sn)"
    unfolding sid
  proof (rule find_stream_id_at [OF q(7)])
    show "\<forall>i. 0 \<le> i \<and> i < sn \<longrightarrow> lts_pes_stream_id (uint (st_type (stream spec ! nat i))) 0 i
        \<noteq> lts_pes_stream_id (uint (st_type (stream spec ! nat sn))) 0 sn"
      using av sn n by (intro allI impI av_stream_id_inj) auto
  qed (use sn n q in simp_all)
  define ts where "ts = take_bit 33 pts div 90"
  let ?h = "ps_reset (h\<lparr>dm_ps_started := 1\<rparr>)"
  define h1 where "h1 = ?h\<lparr>dm_is_pes := 1, dm_program_no := 0, dm_stream_no := sn, dm_pts := ts,
      dm_pes_head_len := 19, dm_es_ptr := Some 19, dm_es_len := int (length es)\<rparr>"
  define h2 where "h2 = h1\<lparr>dm_pack_ptr := Some 0, dm_pack_len := int (length (pes_bytes sid pts es))\<rparr>"
  have common: "handle_common_pack (pes_bytes sid pts es @ rest) 0 (int (length (pes_bytes sid pts es @ rest))) = Some (6 + (int (length es) + 13))" for rest
    using es by (intro handle_common_pack_at) (simp_all add: pes_bytes_def pes_header_def nth_append)
  have parse: "lts_pes_parse_header (pes_bytes sid pts es @ rest) 0 (int (length (pes_bytes sid pts es @ rest))) (Some 0) (Some junk) (Some 0)
      = Some (19, Some sid, Some ts, Some (int (length es)))" for rest
    using pes_parse_header_ok [OF sid'(1), of "int (length (pes_bytes sid pts es @ rest))" "int (length es)" "[]" pts "es @ rest" "Some 0" junk "Some 0"] es
    by (simp add: pes_bytes_def ts_def)
  have "handle_pes junk ?h (pes_bytes sid pts es @ rest) 0 (int (length (pes_bytes sid pts es @ rest))) = Some (int (length (pes_bytes sid pts es)), h1)" for rest
    unfolding handle_pes_def common parse bind.bind_lunit
    using q find by (simp add: ps_reset_def array_get_def h1_def)
  moreover have nt: "sid \<noteq> 0xBA" "sid \<noteq> 0xBB" "sid \<noteq> 0xBC" "sid \<noteq> 0xB9" "0xB9 \<le> sid"
    using sid'(2) order_trans [of "0xB9" "0xBD" sid] by auto
  ultimately have hp: "handle_ps_pack junk ?h (pes_bytes sid pts es @ rest) 0 (int (length (pes_bytes sid pts es @ rest))) sid
      = Some (int (length (pes_bytes sid pts es)), h1)" for rest
    using q(2) by (simp add: handle_ps_pack_def ps_reset_def)
  have split: "pes_bytes sid pts es = [0, 0, 1, sid] @ drop 4 (pes_bytes sid pts es)" by (simp add: pes_bytes_def pes_header_def)
  have ne: "drop 4 (pes_bytes sid pts es) \<noteq> []" by simp
  have "ps_chunk h2 (pes_bytes sid pts es @ rest) = Some [(sn, ts, es)]" for rest
    using slice_tail(2) [of "pes_header sid pts (int (length es))" "es @ rest"] slice_take [of "length es" "es @ rest"]
    by (simp add: ps_chunk_def h2_def h1_def pes_bytes_def)
  then have "ps_demux_all junk h (pes_bytes sid pts es @ rest) = yields [(sn, ts, es)] (ps_demux_all junk h2 rest)" for rest
    unfolding h2_def using nt q(3) by (intro ps_demux_pack [OF split ne _ _ hp]) (simp_all add: h1_def ps_reset_def)
  moreover have "ps_knows spec h2"
    using k by (simp add: h2_def h1_def ps_knows_def ps_reset_def)
  ultimately show ?thesis unfolding ts_def by blast
qed

lemma ps_frame_step:
  assumes k: "ps_knows spec h" and spec: "spec_ok spec" "av_streams spec" and sn: "0 \<le> sn" "sn < stream_num spec"
    and xs: "\<forall>x \<in> set xs. int (length x) \<le> 65522"
    and sid: "sid = lts_pes_stream_id (uint (st_type (stream spec ! nat sn))) 0 sn"
  shows "\<exists>h'. ps_knows spec h' \<and> (\<forall>rest. ps_demux_all junk h (concat (map (pes_bytes sid pts) xs) @ rest) =
    yields (map (\<lambda>x. (sn, take_bit 33 pts div 90, x)) xs) (ps_demux_all junk h' rest))"
  using k xs
proof (induction xs arbitrary: h)
  case Nil
  then show ?case by (intro exI [of _ h]) (simp add: option.map_ident)
next
  case (Cons x xs)
  obtain h1 where h1: "ps_knows spec h1" "\<And>rest. ps_demux_all junk h (pes_bytes sid pts x @ rest) =
      yields [(sn, take_bit 33 pts div 90, x)] (ps_demux_all junk h1 rest)"
    using ps_pes_step [OF Cons.prems(1) spec sn _ sid, of x junk pts] Cons.prems(2) by auto
  obtain h' where h': "ps_knows spec h'" "\<And>rest. ps_demux_all junk h1 (concat (map (pes_bytes sid pts) xs) @ rest) =
      yields (map (\<lambda>x. (sn, take_bit 33 pts div 90, x)) xs) (ps_demux_all junk h' rest)"
    using Cons.IH [OF h1(1)] Cons.prems(2) by (metis list.set_intros(2))
  have "ps_demux_all junk h (concat (map (pes_bytes sid pts) (x # xs)) @ rest) =
      yields (map (\<lambda>x. (sn, take_bit 33 pts div 90, x)) (x # xs)) (ps_demux_all junk h' rest)" for rest
    by (cases "ps_demux_all junk h' rest") (auto simp: h1(2) h'(2))
  then show ?case using h'(1) by blast
qed

definition ps_frame_received :: "TEsFrame \<Rightarrow> chunk list \<Rightarrow> bool" where
  "ps_frame_received f cs \<longleftrightarrow> chunks_of (fr_stream_number f) (take_bit 33 (fr_pts f) div 90) (the (fr_frame f)) cs"

definition ps_follows :: "TsProgramInfo \<Rightarrow> TDemux \<Rightarrow> TEsFrame \<Rightarrow> bool" where
  "ps_follows pi h f \<longleftrightarrow> (if fr_is_key f \<noteq> 0 then ps_fresh h else ps_knows (hd (prog pi)) h)"

lemma ps_headers_step:
  assumes spec: "spec_ok spec" "av_streams spec" and h: "if fr_is_key f \<noteq> 0 then ps_fresh h else ps_knows spec h"
  shows "\<exists>h'. ps_knows spec h' \<and> (\<forall>rest. ps_demux_all junk h (concat (ps_headers spec f) @ rest) = ps_demux_all junk h' rest)"
proof -
  have st: "dm_ps_started h = 0 \<or> dm_ps_started h = 1"
    using h by (auto simp: ps_fresh_def ps_knows_def split: if_splits)
  define h1 where "h1 = (ps_reset (h\<lparr>dm_ps_started := 1\<rparr>))\<lparr>dm_pack_ptr := Some 0, dm_pack_len := 14\<rparr>"
  have p1: "ps_demux_all junk h (pack_bytes (fr_pts f) (mux_rate spec) @ rest) = ps_demux_all junk h1 rest" for rest
    unfolding h1_def by (rule ps_pack_step [OF st])
  show ?thesis
  proof (cases "fr_is_key f = 0")
    case True
    then have "ps_knows spec h1" using h by (simp add: h1_def ps_knows_def ps_reset_def)
    then show ?thesis using p1 True by (auto simp: ps_headers_def)
  next
    case False
    define h2 where "h2 = (ps_reset (h1\<lparr>dm_ps_started := 1\<rparr>))\<lparr>dm_pack_ptr := Some 0, dm_pack_len := 18\<rparr>"
    have "dm_ps_started h1 = 1" "dm_sync_only h1 = 0" "ps_fresh h2" "dm_ps_started h2 = 1"
      using h False by (simp_all add: h1_def h2_def ps_reset_def ps_fresh_def)
    moreover from this have "ps_demux_all junk h1 (sys_bytes spec @ rest) = ps_demux_all junk h2 rest" for rest
      unfolding h2_def by (intro ps_sys_step)
    ultimately show ?thesis using ps_psm_step [OF spec, of h2 junk] p1 False by (simp add: ps_headers_def)
  qed
qed

section \<open>Sequences of frames\<close>

fun ps_mux_all :: "int \<Rightarrow> TsProgramInfo \<Rightarrow> TEsFrame list \<Rightarrow> (bytes \<times> TsProgramInfo) ub" where
  "ps_mux_all maxlen pi [] = Some ([], pi)"
| "ps_mux_all maxlen pi (f # fs) = do {
     (n, buf, segs) \<leftarrow> lts_ps_stream (Some f) (Some (replicate (nat maxlen) 0)) maxlen (Some pi);
     buf \<leftarrow> deref buf;
     if n < 0 then Some ([], pi)
     else do {
       (bs, pi) \<leftarrow> ps_mux_all maxlen pi fs;
       Some (take (nat n) buf @ bs, pi)
     }
   }"

definition ps_program_ok :: "TsProgramInfo \<Rightarrow> bool" where
  "ps_program_ok pi \<longleftrightarrow> program_num pi = 1 \<and> length (prog pi) = 1 \<and> spec_ok (hd (prog pi)) \<and> av_streams (hd (prog pi))"

definition ps_frames_ok :: "int \<Rightarrow> TsProgramInfo \<Rightarrow> TEsFrame list \<Rightarrow> bool" where
  "ps_frames_ok maxlen pi fs \<longleftrightarrow> ps_program_ok pi \<and>
     (\<forall>f \<in> set fs. ps_frame_ok (hd (prog pi)) f (the (fr_frame f)) \<and> fr_stream_number f < stream_num (hd (prog pi))
        \<and> int (length (concat (ps_stream_packs (hd (prog pi)) f (the (fr_frame f))))) \<le> maxlen)"

lemma ps_mux_frame:
  assumes "ps_frames_ok maxlen pi (f # fs)"
  shows "ps_mux_all maxlen pi (f # fs) =
    map_option (map_prod ((@) (concat (ps_stream_packs (hd (prog pi)) f (the (fr_frame f))))) id) (ps_mux_all maxlen pi fs)"
proof -
  let ?sp = "ps_stream_packs (hd (prog pi)) f (the (fr_frame f))"
  obtain spec where spec: "prog pi = [spec]" "program_num pi = 1"
    using assms by (cases "prog pi") (auto simp: ps_frames_ok_def ps_program_ok_def)
  define n where "n = length (concat ?sp)"
  have ok: "ps_frame_ok spec f (the (fr_frame f))" "int n \<le> maxlen" using assms spec by (simp_all add: ps_frames_ok_def n_def)
  have "lts_ps_stream (Some f) (Some (replicate (nat maxlen) 0)) maxlen (Some pi) =
      Some (int n, Some (concat ?sp @ drop n (replicate (nat maxlen) 0)), if fr_segcb f then ?sp else [])"
    unfolding spec(1) list.sel by (rule lts_ps_stream_ok [OF spec(2,1) ok(1)]) (use ok(2) in \<open>simp_all add: n_def spec\<close>)
  moreover have "take (nat (int n)) (concat ?sp @ drop n (replicate (nat maxlen) 0)) = concat ?sp" by (simp add: n_def)
  ultimately show ?thesis
    by (cases "ps_mux_all maxlen pi fs") (auto simp del: length_concat concat_append)
qed

lemma ps_stream_step:
  assumes f: "ps_frames_ok maxlen pi (f # fs)" and h: "ps_follows pi h f"
  shows "\<exists>h' cs. ps_knows (hd (prog pi)) h' \<and> ps_frame_received f cs \<and>
    (\<forall>rest. ps_demux_all junk h (concat (ps_stream_packs (hd (prog pi)) f (the (fr_frame f))) @ rest) = yields cs (ps_demux_all junk h' rest))"
proof -
  define spec where "spec = hd (prog pi)"
  have spec: "spec_ok spec" "av_streams spec" and sn: "0 \<le> fr_stream_number f" "fr_stream_number f < stream_num spec"
    using f by (simp_all add: ps_frames_ok_def ps_program_ok_def spec_def ps_frame_ok_def)
  define k where "k = nat (ps_pes_len (fr_ps_pes_length f))"
  have k: "0 < k" "int k \<le> 65000" using ps_pes_len_range [of "fr_ps_pes_length f"] by (simp_all add: k_def)
  let ?xs = "chop k (the (fr_frame f))"
  obtain h1 where h1: "ps_knows spec h1" "\<And>rest. ps_demux_all junk h (concat (ps_headers spec f) @ rest) = ps_demux_all junk h1 rest"
    using ps_headers_step [OF spec, of f h junk] h unfolding ps_follows_def spec_def by blast
  have small: "\<forall>x \<in> set ?xs. int (length x) \<le> 65522" using chop_bounds [of _ k "the (fr_frame f)"] k(2) by force
  obtain h' where h': "ps_knows spec h'" "\<And>rest. ps_demux_all junk h1 (concat (ps_packets
      (lts_pes_stream_id (uint (st_type (stream spec ! nat (fr_stream_number f)))) 0 (fr_stream_number f)) (fr_pts f) k (the (fr_frame f))) @ rest) =
      yields (map (\<lambda>x. (fr_stream_number f, take_bit 33 (fr_pts f) div 90, x)) ?xs) (ps_demux_all junk h' rest)"
    using ps_frame_step [OF h1(1) spec sn small refl, of junk "fr_pts f"] by (auto simp: ps_packets_def)
  have "ps_frame_received f (map (\<lambda>x. (fr_stream_number f, take_bit 33 (fr_pts f) div 90, x)) ?xs)"
    using concat_chop [OF k(1), of "the (fr_frame f)"] by (auto simp: ps_frame_received_def chunks_of_def comp_def)
  then show ?thesis
    using h' h1(2) by (fold spec_def) (auto simp: ps_stream_packs_def k_def)
qed

interpretation ps: container "ps_mux_all maxlen" "ps_demux_all junk" "\<lambda>pi f. concat (ps_stream_packs (hd (prog pi)) f (the (fr_frame f)))"
  "\<lambda>pi f. pi" "ps_frames_ok maxlen" "\<lambda>pi. ps_knows (hd (prog pi))" ps_follows ps_frame_received for maxlen junk
proof
  show "ps_frames_ok maxlen pi fs" if "ps_frames_ok maxlen pi (f # fs)" for pi f fs
    using that by (simp add: ps_frames_ok_def)
  show "ps_follows pi h f" if "ps_frames_ok maxlen pi (f # fs)" "ps_knows (hd (prog pi)) h" for pi f fs h
    using that(2) by (auto simp: ps_follows_def ps_knows_def ps_fresh_def)
qed (erule ps_mux_frame ps_stream_step | simp | assumption)+

end
