(* ===== verification/Mpeg_Theorems.thy ===== *)
theory Mpeg_Theorems
  imports Mpeg_Ts Mpeg_Ts_Safe Mpeg_Ps
begin

text \<open>
  The theorems on the MPEG library (src/file/libmpeg), with the concrete programs and frames at which
  their hypotheses are met.
\<close>

section \<open>Samples\<close>

definition m_stream :: TsStreamSpec where
  "m_stream = \<lparr>st_type = 0x1b, st_stream_id = 0, es_pid = 0, continuity_counter = 0\<rparr>"

definition m_program :: TsProgramSpec where
  "m_program = \<lparr>stream_num = 2, key_stream_id = 0, pmt_pid = 0, mux_rate = 0,
     stream = [m_stream, m_stream\<lparr>st_type := 0x0f\<rparr>, m_stream, m_stream]\<rparr>"

definition m_info :: TsProgramInfo where
  "m_info = \<lparr>program_num = 1, pat_pmt_counter = 0, prog = [m_program]\<rparr>"

definition m_frame :: TEsFrame where
  "m_frame = \<lparr>fr_program_number = 0, fr_stream_number = 1, fr_frame = Some (replicate 200 5), fr_length = 200,
     fr_is_key = 1, fr_pts = 90000, fr_ps_pes_length = 0, fr_segcb = False\<rparr>"

definition m_demux :: TDemux where
  "m_demux = \<lparr>dm_info = m_info, dm_is_pes = 0, dm_pid = 0, dm_program_no = 0, dm_stream_no = 0, dm_pts = 0, dm_pes_pts = 0,
     dm_pack_ptr = None, dm_pack_len = 0, dm_es_ptr = None, dm_es_len = 0, dm_pes_head_len = 0, dm_sync_only = 0, dm_ps_started = 0\<rparr>"

lemmas m_defs = m_stream_def m_program_def m_info_def m_frame_def m_demux_def

lemma m_packets: "length (stream_packets m_info m_frame (replicate 200 5)) = 4"
  by (simp add: stream_packets_def Let_def m_frame_def frame_packets_count)

lemma m_frame_ok: "frame_ok m_info m_frame (replicate 200 5)"
  by (simp add: frame_ok_def m_packets) (simp add: m_defs program_ok_def MAX_STREAM_NUM_def INT_MAX_def)

lemma m_frame_plain: "frames_plain 2000 m_info [m_frame]"
proof -
  have "plain_tail (replicate 43 5)"
    by (simp add: plain_tail.simps looks_like_pes_def)
  then show ?thesis
    using m_frame_ok m_packets by (simp add: frame_plain_def) (simp add: m_defs lts_is_audio_def Let_def)
qed

lemma m_demux_fresh: "demux_fresh m_demux" "demux_inv m_demux" "dm_pes_head_len m_demux \<le> 0" "dm_sync_only m_demux = 0"
  by (simp_all add: demux_fresh_def demux_inv_def m_defs)

section \<open>Transport streams\<close>

text \<open>C7. What \<open>lts_ts_stream\<close> multiplexes, \<open>lts_ts_demux\<close> takes apart again: a fresh demultiplexer that
  is given the packets of a sequence of frames starting with a key frame delivers, for each of them in
  turn, pieces that carry its stream number and its time stamp (modulo 2^33, in milliseconds) and that
  put together are the frame, provided the frames fit the buffer and no packet after the first of a
  frame happens to start like a PES header.\<close>

theorem ts_roundtrip:
  assumes "frames_plain maxlen pi (f # fs)" "fr_is_key f \<noteq> 0" "demux_fresh h" "dm_pes_head_len h \<le> 0"
  shows "\<exists>bs pi' h' css. mux_all maxlen pi (f # fs) = Some (bs, pi') \<and> demux_all h bs = Some (concat css, h')
    \<and> list_all2 frame_received (f # fs) css"
  by (rule ts.roundtrip) (use assms in \<open>auto simp: ts_follows_def\<close>)

theorem ts_roundtrip_witness:
  "\<exists>bs pi' h' css. mux_all 2000 m_info [m_frame] = Some (bs, pi') \<and> demux_all m_demux bs = Some (concat css, h')
    \<and> list_all2 frame_received [m_frame] css"
  by (rule ts_roundtrip [OF m_frame_plain _ m_demux_fresh(1,3)]) (simp add: m_frame_def)

text \<open>The sync byte and the continuity counter of a packet.\<close>

definition packet_counter :: "bytes \<Rightarrow> int" where
  "packet_counter p = take_bit 4 (uint (p ! 3))"

lemma packet_counter_packet: "packet_counter (ts_packet PID s c pcr payload) = c mod 16"
proof -
  have "uint (bitfields [(4, c AND 0x0f), (2, 3), (2, 0)]) = pack_fields [(4, c AND 0x0f), (2, 3), (2, 0)]"
    by (rule uint_bitfields) simp
  also have "take_bit 4 \<dots> = take_bit 4 (c AND 0x0f)" by (simp only: pack_fields.simps pack_head)
  also have "\<dots> = c mod 16"
  proof -
    have "c AND 0x0f = take_bit 4 c" by (simp add: take_bit_eq_mask mask_eq_exp_minus_1)
    then show ?thesis by (simp add: take_bit_eq_mod)
  qed
  finally show ?thesis by (simp add: packet_counter_def ts_packet_def ts_head_def)
qed

lemma hd_ts_packet: "hd (ts_packet PID s c pcr payload) = 0x47"
  by (simp add: ts_packet_def ts_head_def)

lemma hd_ts_tail: "p \<in> set (ts_tail PID c bs) \<Longrightarrow> hd p = 0x47"
proof (induction PID c bs rule: ts_tail.induct)
  case (1 PID c bs)
  then show ?case by (cases "bs = []") (auto simp: ts_tail.simps [of PID c bs] hd_ts_packet)
qed

lemma counters_tail: "map packet_counter (ts_tail PID c bs) = map (\<lambda>k. (c + int k) mod 16) [0..<length (ts_tail PID c bs)]"
proof (induction PID c bs rule: ts_tail.induct)
  case (1 PID c bs)
  show ?case
  proof (cases "bs = []")
    case False
    then show ?thesis
      using 1 by (simp add: ts_tail.simps [of PID c bs] packet_counter_packet upt_conv_Cons map_Suc_upt [symmetric] comp_def
          add.assoc del: upt_Suc)
  qed simp
qed

lemma counters_frame:
  "map packet_counter (frame_packets PID c sid pts fdata)
    = map (\<lambda>k. (c + int k) mod 16) [0..<length (frame_packets PID c sid pts fdata)]"
  by (simp add: frame_packets_def packet_counter_packet counters_tail upt_conv_Cons map_Suc_upt [symmetric] comp_def add.assoc del: upt_Suc)

text \<open>C27. \<open>lts_ts_stream\<close> fills the buffer with whole packets of 188 bytes that begin with the sync byte:
  the tables first if the frame is a key frame, then the packets of the frame, whose continuity counters
  count on from that of the stream modulo 16.  It returns their total size, leaves the rest of the
  buffer alone and stores the next counter in the program description.\<close>

theorem ts_stream_writes_packets:
  assumes "frame_ok pi f fdata" "n = 188 * length (stream_packets pi f fdata)" "int n \<le> maxlen" "n \<le> length dest"
    and "c = continuity_counter (stream (hd (prog pi)) ! nat (fr_stream_number f))"
  shows "\<exists>tabs ps. lts_ts_stream (Some f) (Some dest) maxlen (Some pi) =
      Some (188 * int (length (tabs @ ps)), Some (concat (tabs @ ps) @ drop n dest), Some (pi_after pi f fdata))
    \<and> list_all (\<lambda>p. length p = 188 \<and> hd p = 0x47) (tabs @ ps)
    \<and> length tabs = (if fr_is_key f \<noteq> 0 then 2 else 0) \<and> length ps = 1 + (length fdata - 157 + 181) div 182
    \<and> map packet_counter tabs = map (\<lambda>_. pat_pmt_counter pi mod 16) tabs
    \<and> map packet_counter ps = map (\<lambda>k. (c + int k) mod 16) [0..<length ps]"
proof -
  have ok: "program_ok pi" using assms(1) by (simp add: frame_ok_def)
  obtain tabs ps where sp: "stream_packets pi f fdata = tabs @ ps" "length tabs = (if fr_is_key f \<noteq> 0 then 2 else 0)"
    "length ps = 1 + (length fdata - 157 + 181) div 182" "map packet_counter tabs = map (\<lambda>_. pat_pmt_counter pi mod 16) tabs"
    "map packet_counter ps = map (\<lambda>k. (c + int k) mod 16) [0..<length ps]" "\<forall>p \<in> set (tabs @ ps). hd p = 0x47"
  proof
    let ?ps = "frame_packets (0x100 + fr_stream_number f) c (lts_pes_stream_id (uint (st_type (stream (hd (prog pi)) ! nat (fr_stream_number f)))) 0 (fr_stream_number f)) (fr_pts f) fdata"
    let ?tabs = "if fr_is_key f \<noteq> 0
          then [ts_packet 0 1 (pat_pmt_counter pi) None (table_payload pat_sec),
                ts_packet 0x1001 1 (pat_pmt_counter pi) None (table_payload (pmt_sec (hd (prog pi))))] else []"
    show "stream_packets pi f fdata = ?tabs @ ?ps" by (simp add: stream_packets_def Let_def assms(5))
    show "length ?ps = 1 + (length fdata - 157 + 181) div 182" by (simp add: frame_packets_count)
    show "map packet_counter ?ps = map (\<lambda>k. (c + int k) mod 16) [0..<length ?ps]" by (rule counters_frame)
    show "\<forall>p \<in> set (?tabs @ ?ps). hd p = 0x47"
      by (auto simp: frame_packets_def hd_ts_packet dest: hd_ts_tail)
    show "map packet_counter ?tabs = map (\<lambda>_. pat_pmt_counter pi mod 16) ?tabs" by (auto simp: packet_counter_packet)
  qed simp
  show ?thesis
    using lts_ts_stream_ok [OF assms(1-4)] stream_packets_188 [OF ok, of _ f fdata] sp
    by (intro exI [of _ tabs] exI [of _ ps]) (auto simp: assms(2) list_all_iff)
qed

theorem ts_stream_writes_packets_witness:
  "\<exists>tabs ps. lts_ts_stream (Some m_frame) (Some (replicate 800 0)) 800 (Some m_info) =
      Some (188 * int (length (tabs @ ps)), Some (concat (tabs @ ps) @ drop 752 (replicate 800 0)), Some (pi_after m_info m_frame (replicate 200 5)))
    \<and> list_all (\<lambda>p. length p = 188 \<and> hd p = 0x47) (tabs @ ps)
    \<and> length tabs = (if fr_is_key m_frame \<noteq> 0 then 2 else 0) \<and> length ps = 1 + (length (replicate 200 (5 :: byte)) - 157 + 181) div 182
    \<and> map packet_counter tabs = map (\<lambda>_. pat_pmt_counter m_info mod 16) tabs
    \<and> map packet_counter ps = map (\<lambda>k. (0 + int k) mod 16) [0..<length ps]"
  by (rule ts_stream_writes_packets [OF m_frame_ok]) (simp_all add: m_packets, simp add: m_defs)

text \<open>The section of a table as a receiver finds it in a packet of 188 bytes that has an adaptation
  field: after that field and the pointer field, as long as its own length field says.\<close>

definition ts_section :: "bytes \<Rightarrow> bytes" where
  "ts_section p =
     (let payload = 5 + unat (p ! 4); s = payload + 1 + unat (p ! payload);
          section_length = 256 * (unat (p ! (s + 1)) mod 16) + unat (p ! (s + 2))
      in take (3 + section_length) (drop s p))"

lemma unat_byte: "0 \<le> x \<Longrightarrow> x < 256 \<Longrightarrow> unat (word_of_int x :: byte) = nat x"
  by (simp add: unat_eq_nat_uint uint_word_of_int take_bit_int_eq_self)

lemma ts_section_packet:
  assumes "length sec + 5 \<le> 182" "3 \<le> length sec" "256 * (unat (sec ! 1) mod 16) + unat (sec ! 2) = length sec + 1"
  shows "ts_section (ts_packet PID st c None (table_payload sec)) = sec @ crc_bytes (CRC_encode sec)"
proof -
  define n where "n = length sec + 5"
  define hd where "hd = ts_head PID st c None n"
  let ?p = "hd @ [0] @ sec @ crc_bytes (CRC_encode sec)"
  have p: "ts_packet PID st c None (table_payload sec) = ?p" by (simp add: ts_packet_def table_payload_def hd_def n_def add.commute)
  have len: "length hd = 188 - n" using assms(1) by (simp add: hd_def n_def)
  have "unat (word_of_int (183 - int n) :: byte) = 183 - n"
    using assms(1) by (subst unat_byte) (simp_all add: n_def)
  then have 4: "5 + unat (?p ! 4) = length hd"
    using assms(1) len by (simp add: n_def hd_def ts_head_def)
  have nth: "?p ! (length hd + 1 + k) = sec ! k" if "k < length sec" for k
    using that by (simp add: nth_append)
  have "?p ! length hd = 0" by (simp add: nth_append)
  then show ?thesis
    unfolding p ts_section_def Let_def 4 using assms(2,3) nth [of 1] nth [of 2] by simp
qed

text \<open>The section is the end of the packet, and the checksum over it is zero.\<close>

definition valid_section :: "nat \<Rightarrow> bytes \<Rightarrow> bool" where
  "valid_section n p \<longleftrightarrow> length p = 188 \<and> length (ts_section p) = n \<and> ts_section p = drop (188 - n) p
     \<and> CRC_encode (ts_section p) = 0"

lemma table_valid_section:
  assumes "length sec + 5 \<le> 182" "3 \<le> length sec" "256 * (unat (sec ! 1) mod 16) + unat (sec ! 2) = length sec + 1"
  shows "valid_section (length sec + 4) (ts_packet PID st c None (table_payload sec))"
  using ts_section_packet [OF assms, of PID st c] assms(1) crc_residue [of sec]
  by (simp add: valid_section_def) (simp add: ts_packet_def table_payload_def)

lemma pat_valid_section: "valid_section 16 (ts_packet PID st c None (table_payload pat_sec))"
  using table_valid_section [of pat_sec PID st c] by (simp add: pat_sec_eq)

lemma pmt_valid_section:
  assumes ps: "0 \<le> stream_num ps" "stream_num ps \<le> 4" "length (stream ps) = 4"
  shows "valid_section (length (pmt_sec ps) + 4) (ts_packet PID st c None (table_payload (pmt_sec ps)))"
proof (rule table_valid_section)
  note len = length_pmt_sec [OF ps]
  show "length (pmt_sec ps) + 5 \<le> 182" "3 \<le> length (pmt_sec ps)" using len ps by simp_all
  obtain hdr where hdr: "length hdr = 12" "pmt_sec ps = hdr @ concat (map (stream_entry ps) [0..stream_num ps - 1])"
    "hdr ! 1 = bitfields [(4, 0), (2, 3), (1, 0), (1, 1)]" "hdr ! 2 = word_of_int (13 + stream_num ps * 5)"
    using pmt_sec_eq [OF ps] by blast
  have "pmt_sec ps ! 1 = 0xB0" using hdr by (simp add: nth_append bitfields_def)
  moreover have "unat (pmt_sec ps ! 2) = nat (13 + stream_num ps * 5)"
  proof -
    have "pmt_sec ps ! 2 = word_of_int (13 + stream_num ps * 5)"
      unfolding hdr(4) [symmetric] hdr(2) using hdr(1) by (simp add: nth_append)
    then show ?thesis using ps by (simp only: unat_byte)
  qed
  ultimately show "256 * (unat (pmt_sec ps ! 1) mod 16) + unat (pmt_sec ps ! 2) = length (pmt_sec ps) + 1"
    using len ps by simp
qed

text \<open>C30. The tables carry a valid checksum: in the packet that \<open>gen_pat_ts_packet\<close> writes for one program, and in
  the one that \<open>gen_pmt_ts_packet\<close> writes for its zero to four streams, the section that a receiver cuts out by the
  length field inside it ends with the packet, and \<open>CRC_encode\<close> over all of it, \<open>CRC_32\<close> field included,
  gives 0.  Nothing outside the 188 bytes of the packet changes.\<close>

theorem tables_have_valid_crc:
  assumes "program_num pi = 1" "0 \<le> stream_num ps" "stream_num ps \<le> 4" "length (stream ps) = 4"
    and "0 \<le> pkt" "pkt + 188 \<le> int (length buf)"
  shows "(\<exists>pat. gen_pat_ts_packet buf pkt pi = Some (take (nat pkt) buf @ pat @ drop (nat pkt + 188) buf) \<and> valid_section 16 pat)
    \<and> (\<exists>pmt. gen_pmt_ts_packet buf pkt 0 ps = Some (take (nat pkt) buf @ pmt @ drop (nat pkt + 188) buf)
         \<and> valid_section (16 + 5 * nat (stream_num ps)) pmt)"
proof -
  let ?pre = "take (nat pkt) buf" and ?rest = "drop (nat pkt) buf"
  let ?pat = "ts_packet 0 1 (pat_pmt_counter pi) None (table_payload pat_sec)"
  let ?pmt = "ts_packet 0x1001 1 0 None (table_payload (pmt_sec ps))"
  have room: "188 \<le> length ?rest" and at: "int (length ?pre) = pkt" using assms(5,6) by simp_all
  have "gen_pat_ts_packet buf pkt pi = Some (?pre @ ?pat @ drop (nat pkt + 188) buf)"
    using gen_pat_ts_packet_ok [OF assms(1) room, of ?pre] unfolding at by (simp add: add.commute)
  moreover have "gen_pmt_ts_packet buf pkt 0 ps = Some (?pre @ ?pmt @ drop (nat pkt + 188) buf)"
    using gen_pmt_ts_packet_ok [OF assms(2-4) room, of ?pre] unfolding at by (simp add: add.commute)
  moreover have "length (pmt_sec ps) + 4 = 16 + 5 * nat (stream_num ps)"
    using length_pmt_sec [OF assms(2-4)] assms(2) by (simp add: nat_mult_distrib)
  ultimately show ?thesis using pat_valid_section pmt_valid_section [OF assms(2-4)] by metis
qed

theorem tables_have_valid_crc_witness:
  "(\<exists>pat. gen_pat_ts_packet (replicate 200 0) 5 m_info = Some (replicate 5 0 @ pat @ replicate 7 0) \<and> valid_section 16 pat)
   \<and> (\<exists>pmt. gen_pmt_ts_packet (replicate 200 0) 5 0 m_program = Some (replicate 5 0 @ pmt @ replicate 7 0) \<and> valid_section 26 pmt)"
  using tables_have_valid_crc [of m_info m_program 5 "replicate 200 0"] by (simp add: m_defs)

text \<open>C28. \<open>lts_ts_demux\<close> is memory safe on any input that has at least 193 bytes from its first sync byte
  on: it reads only inside the buffer, keeps the counts of the handle within its arrays, and either
  consumes the packet or reports 0 or a negative error code.\<close>

theorem ts_demux_safe:
  assumes inv: "demux_inv h"
    and room: "\<And>i. i < length buf \<Longrightarrow> buf ! i = 0x47 \<Longrightarrow> (\<forall>j < i. buf ! j \<noteq> 0x47) \<Longrightarrow> i + 193 \<le> length buf"
  shows "\<exists>r h'. lts_ts_demux (Some h) (Some buf) (int (length buf)) = Some (r, Some h') \<and> demux_inv h'
    \<and> (r \<le> 0 \<or> 188 \<le> r \<and> r \<le> int (length buf))"
proof (cases "\<exists>i < length buf. buf ! i = 0x47")
  case False
  then have "demux_loop 0 h' buf (int (length buf)) = Some (0, h')" for h'
    by (intro demux_loop_no_sync) (auto simp: nat_less_iff)
  then show ?thesis using inv by (simp add: lts_ts_demux_def)
next
  case True
  define i where "i = (LEAST i. i < length buf \<and> buf ! i = 0x47)"
  have i: "i < length buf" "buf ! i = 0x47" using LeastI_ex [OF True] by (auto simp: i_def)
  have before: "buf ! j \<noteq> 0x47" if "j < i" for j
    using not_less_Least [OF that [unfolded i_def]] that i(1) by auto
  have len: "i + 193 \<le> length buf" using room [OF i] before by blast
  let ?h = "h\<lparr>dm_is_pes := 0, dm_pack_ptr := Some (int i), dm_pack_len := 188\<rparr>"
  obtain h' where h': "handle_ts_pack ?h buf (int i) = Some h'" "demux_inv h'"
    using handle_ts_pack_safe [of "int i" buf ?h] len inv by auto
  have "demux_loop 0 (h\<lparr>dm_is_pes := 0, dm_pack_ptr := None, dm_pack_len := 0\<rparr>) buf (int (length buf)) =
      Some (int i + 188, if dm_sync_only h = 0 then h' else ?h)"
    using demux_loop_sync [of 0 "int i" buf "int (length buf)" "h\<lparr>dm_is_pes := 0, dm_pack_ptr := None, dm_pack_len := 0\<rparr>"] i before len h'
    by (auto simp: nat_less_iff)
  then show ?thesis using i h' inv len by (auto simp: lts_ts_demux_def)
qed

theorem ts_demux_safe_witness:
  "\<exists>r h'. lts_ts_demux (Some m_demux) (Some (0x47 # replicate 192 0)) (int (length (0x47 # replicate 192 (0 :: byte)))) = Some (r, Some h') \<and> demux_inv h'
    \<and> (r \<le> 0 \<or> 188 \<le> r \<and> r \<le> int (length (0x47 # replicate 192 (0 :: byte))))"
  by (rule ts_demux_safe [OF m_demux_fresh(2)]) (auto simp: nth_Cons split: nat.splits)

text \<open>The test \<open>len >= 188\<close> does not look at where the sync byte is: when it is the last byte of the
  buffer, \<open>lts_ts_demux\<close> reads the packet header from beyond the buffer.\<close>

theorem ts_demux_reads_past_end:
  assumes "188 \<le> length buf" "\<forall>j < length buf - 1. buf ! j \<noteq> 0x47" "buf ! (length buf - 1) = 0x47" "dm_sync_only h = 0"
  shows "lts_ts_demux (Some h) (Some buf) (int (length buf)) = UB"
proof -
  define h1 where "h1 = h\<lparr>dm_is_pes := 0, dm_pack_ptr := None, dm_pack_len := 0\<rparr>"
  have "buf \<noteq> []" using assms(1) by auto
  then have "demux_loop 0 h1 buf (int (length buf)) = UB"
    using demux_loop_sync [of 0 "int (length buf) - 1" buf "int (length buf)" h1] assms
    by (auto simp: nat_less_iff nat_diff_distrib h1_def handle_ts_pack_def peek_def)
  then show ?thesis using assms(1) by (auto simp: lts_ts_demux_def h1_def)
qed

theorem ts_demux_reads_past_end_witness:
  "lts_ts_demux (Some m_demux) (Some (replicate 187 0 @ [0x47])) (int (length (replicate 187 (0 :: byte) @ [0x47]))) = UB"
  by (rule ts_demux_reads_past_end) (auto simp: nth_append m_demux_fresh)

lemma get_ts_es_mistaken:
  assumes es: "looks_like_pes es" "14 \<le> length es" "length es \<le> 182" "9 + uint (es ! 8) \<le> int (length es)" and h: "dm_pes_head_len h \<le> 0"
  shows "\<exists>ts. \<forall>rest. get_ts_es h (ts_packet PID s c None es @ rest) 0 =
    Some (h\<lparr>dm_pes_pts := ts, dm_es_ptr := Some (188 - int (length (drop (9 + unat (es ! 8)) es))),
            dm_es_len := int (length (drop (9 + unat (es ! 8)) es)), dm_pes_head_len := 0\<rparr>)"
proof -
  have len: "length es \<le> pcr_room None" using es by (simp add: pcr_room_def)
  have drop: "int (length (drop (9 + unat (es ! 8)) es)) = int (length es) - (9 + uint (es ! 8))"
    using es(4) unfolding uint_nat length_drop by linarith
  have head: "get_pes_head_len (ts_packet PID s c None es @ rest) (188 - int (length es)) (int (length es)) = Some (9 + uint (es ! 8))" for rest
    using get_pes_head_len_payload [of "ts_head PID s c None (length es)" es rest] es(1)
    unfolding head_length [OF len, of PID s c] ts_packet_def append_assoc by simp
  have pk: "peek (ts_packet PID s c None es @ rest) (188 - int (length es) + int k) = Some (es ! k)" if "k < 14" for k rest
    using that es(2) by (intro peek_payload [OF len]) simp
  define ts where "ts = (if es ! 7 AND 0x80 \<noteq> 0 then parse_pts (es ! 9) (es ! 10) (es ! 11) (es ! 12) (es ! 13) else dm_pes_pts h)"
  have pos: "\<not> 9 + uint (es ! 8) \<le> 0" using uint_ge_0 [of "es ! 8"] by linarith
  have parse: "lts_pes_parse_header (ts_packet PID s c None es @ rest) (188 - int (length es)) (int (length es)) None (Some (dm_pes_pts h)) None
      = Some (9 + uint (es ! 8), None, Some ts, None)" for rest
    using pk [of 7 rest] pk [of 9 rest] pk [of 10 rest] pk [of 11 rest] pk [of 12 rest] pk [of 13 rest]
    by (simp add: lts_pes_parse_header_def head ts_def pos)
  have "get_ts_es h (ts_packet PID s c None es @ rest) 0 =
    Some (h\<lparr>dm_pes_pts := ts, dm_es_ptr := Some (188 - (int (length es) - (9 + uint (es ! 8)))),
            dm_es_len := int (length es) - (9 + uint (es ! 8)), dm_pes_head_len := 0\<rparr>)" for rest
    using h es(4) parse [of rest] unfolding get_ts_es_def Let_def payload_offset_packet [OF len]
    by (simp add: pos [unfolded not_le])
  then show ?thesis unfolding drop by blast
qed

lemma demux_mistaken:
  assumes k: "knows ps h" and sn: "0 \<le> sn" "sn < stream_num ps" "stream_num ps \<le> 4"
    and es: "looks_like_pes es" "14 \<le> length es" "length es \<le> 182" "9 + uint (es ! 8) \<le> int (length es)" and h: "dm_pes_head_len h \<le> 0"
  shows "\<exists>h' ts. \<forall>rest. demux_all h (ts_packet (0x100 + sn) 0 c None es @ rest)
    = map_option (map_prod ((@) [(sn, ts, drop (9 + unat (es ! 8)) es)]) id) (demux_all h' rest)"
proof -
  have len: "length es \<le> pcr_room None" using es by (simp add: pcr_room_def)
  let ?es = "drop (9 + unat (es ! 8)) es"
  let ?h = "(synced h)\<lparr>dm_pid := 0x100 + sn, dm_program_no := 0, dm_stream_no := sn, dm_is_pes := 1\<rparr>"
  obtain ts where ts: "get_ts_es ?h (ts_packet (0x100 + sn) 0 c None es @ rest) 0 =
      Some (?h\<lparr>dm_pes_pts := ts, dm_es_ptr := Some (188 - int (length ?es)), dm_es_len := int (length ?es), dm_pes_head_len := 0\<rparr>)" for rest
    using get_ts_es_mistaken [OF es, of ?h "0x100 + sn" 0 c] h by auto
  define h1 where "h1 = ?h\<lparr>dm_pes_pts := ts, dm_es_ptr := Some (188 - int (length ?es)), dm_es_len := int (length ?es), dm_pes_head_len := 0\<rparr>"
  have hd: "handle_ts_pack (synced h) (ts_packet (0x100 + sn) 0 c None es @ rest) 0 = Some h1" for rest
    using handle_es_packet [OF _ sn len, of "synced h" 0 c rest] k ts [of rest] by (simp add: h1_def)
  have ch: "es_chunk h1 (ts_packet (0x100 + sn) 0 c None es @ rest) = Some [(sn, ts, ?es)]" for rest
    using slice_payload [of "take (9 + unat (es ! 8)) es" ?es None "0x100 + sn" 0 c rest] len by (simp add: es_chunk_def h1_def)
  have so: "dm_sync_only h = 0" using k by (simp add: knows_def)
  show ?thesis using demux_packet [OF len so hd ch] by blast
qed

text \<open>The demultiplexer ignores \<open>payload_unit_start_indicator\<close>: if the second packet of a frame
  happens to start with 00 00 01 and a byte above 0x1f, as an H.264 start code does, it is taken for a
  PES header, and its first \<open>9 + es[8]\<close> bytes are lost.\<close>

theorem start_code_loses_bytes:
  assumes "knows ps h" "0 \<le> sn" "sn < stream_num ps" "stream_num ps \<le> 4" "dm_pes_head_len h \<le> 0" "sid AND 0xE0 \<noteq> 0"
    and "length fdata \<le> 339" "looks_like_pes (drop 157 fdata)" "14 \<le> length (drop 157 fdata)" "166 + uint (fdata ! 165) \<le> int (length fdata)"
  shows "\<exists>ts ts' h'. demux_all h (concat (frame_packets (0x100 + sn) c sid pts fdata))
    = Some ([(sn, ts, take 157 fdata), (sn, ts', drop (166 + unat (fdata ! 165)) fdata)], h')"
proof -
  let ?es = "drop 157 fdata"
  have es: "looks_like_pes ?es" "14 \<le> length ?es" "length ?es \<le> 182" "9 + uint (?es ! 8) \<le> int (length ?es)"
    using assms(7-10) by simp_all
  have ne: "?es \<noteq> []" using assms(9) by auto
  have fp: "concat (frame_packets (0x100 + sn) c sid pts fdata) =
      ts_packet (0x100 + sn) 1 c (Some pts) (pes_header sid pts (int (length fdata)) @ take 157 fdata)
      @ ts_packet (0x100 + sn) 0 (c + 1) None ?es @ []"
    using ne es(3) by (simp add: frame_packets_def ts_tail.simps [of _ _ ?es])
  obtain h1 where h1: "knows ps h1" "dm_pes_head_len h1 \<le> 0"
    "\<And>rest. demux_all h (ts_packet (0x100 + sn) 1 c (Some pts) (pes_header sid pts (int (length fdata)) @ take 157 fdata) @ rest)
       = map_option (map_prod ((@) [(sn, take_bit 33 pts div 90, take 157 fdata)]) id) (demux_all h1 rest)"
    using demux_first [OF assms(1-6), of "take 157 fdata" "int (length fdata)" pts c] by auto
  obtain h2 ts' where h2: "\<And>rest. demux_all h1 (ts_packet (0x100 + sn) 0 (c + 1) None ?es @ rest)
      = map_option (map_prod ((@) [(sn, ts', drop (9 + unat (?es ! 8)) ?es)]) id) (demux_all h2 rest)"
    using demux_mistaken [OF h1(1) assms(2-4) es h1(2)] by blast
  have d: "drop (9 + unat (?es ! 8)) ?es = drop (166 + unat (fdata ! 165)) fdata"
    using assms(9) by (simp add: add.commute)
  have "demux_all h2 [] = Some ([], h2)" by (simp add: demux_all.simps)
  then show ?thesis unfolding fp h1(3) h2 d by simp
qed

lemma m_known:
  "knows m_program (m_demux\<lparr>dm_info := m_info\<lparr>prog := [m_program\<lparr>pmt_pid := 0xF001,
     stream := [m_stream\<lparr>es_pid := 0x100\<rparr>, m_stream\<lparr>st_type := 0x0f, es_pid := 0x101\<rparr>, m_stream, m_stream]\<rparr>]\<rparr>\<rparr>)"
proof -
  have two: "i = 0 \<or> i = 1" if "0 \<le> i" "i < 2" for i :: int using that by auto
  show ?thesis by (auto simp: knows_def m_defs dest!: two)
qed

theorem start_code_loses_bytes_witness:
  "\<exists>ts ts' h'. demux_all (m_demux\<lparr>dm_info := m_info\<lparr>prog := [m_program\<lparr>pmt_pid := 0xF001,
       stream := [m_stream\<lparr>es_pid := 0x100\<rparr>, m_stream\<lparr>st_type := 0x0f, es_pid := 0x101\<rparr>, m_stream, m_stream]\<rparr>]\<rparr>\<rparr>)
      (concat (frame_packets (0x100 + 0) 0 0xE0 0 (replicate 157 7 @ [0, 0, 1, 0x65, 0, 0, 0, 0, 3] @ replicate 20 9)))
    = Some ([(0, ts, take 157 (replicate 157 7 @ [0, 0, 1, 0x65, 0, 0, 0, 0, 3] @ replicate 20 9)),
             (0, ts', drop (166 + unat ((replicate 157 7 @ [0, 0, 1, 0x65, 0, 0, 0, 0, 3] @ replicate 20 9) ! 165 :: byte))
                (replicate 157 7 @ [0, 0, 1, 0x65, 0, 0, 0, 0, 3] @ replicate 20 9))], h')"
  by (rule start_code_loses_bytes [OF m_known]) (simp_all add: m_defs looks_like_pes_def nth_append)

section \<open>PES headers\<close>

text \<open>C29. \<open>lts_pes_parse_header\<close> reads back what \<open>lts_pes_make_header\<close> wrote anywhere in a buffer: the
  stream identifier, the time stamp modulo 2^33 in milliseconds, and the length of the data as far as
  the 16 bits of the length field hold it; a longer frame has the length -13.\<close>

theorem pes_header_roundtrip:
  assumes "sid AND 0xE0 \<noteq> 0" "19 \<le> length rest" "0 \<le> n" "maxlen \<le> 0 \<or> 19 + n \<le> maxlen" "9 \<le> len"
  shows "\<exists>buf. lts_pes_make_header sid pts n (pre @ rest) (int (length pre)) maxlen = Some (19, buf)
    \<and> lts_pes_parse_header buf (int (length pre)) len (Some a) (Some b) (Some c)
        = Some (19, Some sid, Some (take_bit 33 pts div 90), Some (if n \<le> 65522 then n else -13))"
  using pes_make_header_ok [OF assms(2), of maxlen n sid pts pre] pes_parse_header_ok [OF assms(1,5,3), of pre pts "drop 19 rest" "Some a" b "Some c"] assms(4)
  by auto

theorem pes_header_roundtrip_witness:
  "\<exists>buf. lts_pes_make_header 0xE0 90000 1000 ([1, 2] @ replicate 20 0) (int (length [1 :: byte, 2])) (-1) = Some (19, buf)
    \<and> lts_pes_parse_header buf (int (length [1 :: byte, 2])) 20 (Some 0) (Some 0) (Some 0)
        = Some (19, Some 0xE0, Some (take_bit 33 90000 div 90), Some (if 1000 \<le> (65522 :: int) then 1000 else -13))"
  by (rule pes_header_roundtrip) simp_all

section \<open>Program streams\<close>

text \<open>C8. What \<open>lts_ps_stream\<close> multiplexes, \<open>lts_ps_demux\<close> takes apart again: a demultiplexer with empty
  tables that is given the packs of a sequence of frames starting with a key frame delivers every frame
  unchanged, in pieces with its stream number and its time stamp (modulo 2^33, in milliseconds),
  whatever the frames contain and whatever the uninitialised \<open>pts\<close> of \<open>handle_pes\<close> holds.\<close>

theorem ps_roundtrip:
  assumes "ps_frames_ok maxlen pi (f # fs)" "fr_is_key f \<noteq> 0" "ps_fresh h"
  shows "\<exists>bs pi' h' css. ps_mux_all maxlen pi (f # fs) = Some (bs, pi') \<and> ps_demux_all junk h bs = Some (concat css, h')
    \<and> list_all2 ps_frame_received (f # fs) css"
  by (rule ps.roundtrip) (use assms in \<open>auto simp: ps_follows_def\<close>)

lemma m_ps_frames_ok: "ps_frames_ok 2000 m_info [m_frame, m_frame\<lparr>fr_is_key := 0\<rparr>]"
proof -
  have two: "i = 0 \<or> i = 1" if "0 \<le> i" "i < 2" for i :: int using that by auto
  have "av_streams m_program"
    by (auto simp: av_streams_def m_defs lts_is_video_def lts_is_audio_def dest!: two)
  moreover have "chop 1000 (replicate 200 5) = [replicate 200 5]" by (simp add: chop.simps)
  ultimately show ?thesis
    by (simp add: ps_frames_ok_def ps_program_ok_def ps_frame_ok_def spec_ok_def m_info_def m_frame_def ps_stream_packs_def ps_headers_def
        ps_packets_def ps_pes_len_def MIN_PES_LENGTH_def length_psm_bytes)
      (simp add: m_program_def length_psm_bytes)
qed

theorem ps_roundtrip_witness:
  "\<exists>bs pi' h' css. ps_mux_all 2000 m_info [m_frame, m_frame\<lparr>fr_is_key := 0\<rparr>] = Some (bs, pi')
    \<and> ps_demux_all 42 m_demux bs = Some (concat css, h') \<and> list_all2 ps_frame_received [m_frame, m_frame\<lparr>fr_is_key := 0\<rparr>] css"
  by (rule ps_roundtrip [OF m_ps_frames_ok]) (simp_all add: m_defs ps_fresh_def)

text \<open>\<open>lts_ps_stream\<close> writes the pack header, for a key frame the system header and the stream map, and
  the frame in PES packets of at most \<open>ps_pes_length\<close> bytes, one after the other from the start of the
  buffer.  It returns their total size, leaves the rest of the buffer alone, and the segment callback has
  been given exactly these packs in this order.\<close>

theorem ps_stream_writes_packs:
  assumes "program_num pi = 1" "prog pi = [spec]" "ps_frame_ok spec f fdata"
    and "packs = ps_stream_packs spec f fdata" "int (length (concat packs)) \<le> maxlen" "length (concat packs) \<le> length dest"
  shows "lts_ps_stream (Some f) (Some dest) maxlen (Some pi) =
      Some (int (length (concat packs)), Some (concat packs @ drop (length (concat packs)) dest), if fr_segcb f then packs else [])
    \<and> list_all (\<lambda>p. take 3 p = [0, 0, 1]) packs"
proof -
  have "take 3 p = [0, 0, 1]" if "p \<in> set packs" for p
    using that assms(4) by (auto simp: ps_stream_packs_def ps_headers_def ps_packets_def pack_bytes_def sys_bytes_def psm_bytes_def
        pes_bytes_def pes_header_def split: if_splits)
  then show ?thesis using lts_ps_stream_ok [OF assms(1-3) refl] assms(4-6) by (simp add: list_all_iff)
qed

lemma m_packs: "length (concat (ps_stream_packs m_program m_frame (replicate 200 5))) = 275"
proof -
  have "chop 1000 (replicate 200 5) = [replicate 200 5]" by (simp add: chop.simps)
  then show ?thesis
    by (simp add: ps_stream_packs_def ps_headers_def ps_packets_def ps_pes_len_def MIN_PES_LENGTH_def m_frame_def length_psm_bytes)
      (simp add: m_program_def length_psm_bytes)
qed

theorem ps_stream_writes_packs_witness:
  "lts_ps_stream (Some m_frame) (Some (replicate 300 0)) 300 (Some m_info) =
      Some (int (length (concat (ps_stream_packs m_program m_frame (replicate 200 5)))),
        Some (concat (ps_stream_packs m_program m_frame (replicate 200 5)) @ drop (length (concat (ps_stream_packs m_program m_frame (replicate 200 5)))) (replicate 300 0)),
        if fr_segcb m_frame then ps_stream_packs m_program m_frame (replicate 200 5) else [])
    \<and> list_all (\<lambda>p. take 3 p = [0, 0, 1]) (ps_stream_packs m_program m_frame (replicate 200 5))"
  by (rule ps_stream_writes_packs) (simp_all only: m_packs, simp_all add: m_defs ps_frame_ok_def spec_ok_def)

text \<open>\<open>lts_pes_make_header\<close> takes a limit of 0 for no limit.  When the headers of \<open>lts_ps_stream\<close> use
  up the buffer exactly, as for a buffer of 14 bytes, it therefore writes the PES packet behind
  its end.\<close>

theorem ps_stream_overflows:
  assumes "program_num pi = 1" "prog pi = [spec]" "ps_frame_ok spec f fdata" "fr_is_key f = 0" "length dest = 14"
  shows "lts_ps_stream (Some f) (Some dest) 14 (Some pi) = UB"
proof -
  define L where "L = ps_pes_len (fr_ps_pes_length f)"
  have L: "0 < L" using ps_pes_len_range [of "fr_ps_pes_length f"] by (simp add: L_def)
  have f: "fr_frame f = Some fdata" "fr_length f = int (length fdata)" "fdata \<noteq> []" "0 \<le> fr_stream_number f" "fr_stream_number f < 4"
    "length (stream spec) = 4" using assms(3) by (simp_all add: ps_frame_ok_def spec_ok_def)
  have fl: "0 < fr_length f" using f by simp
  have p1: "set_pack_header (fr_pts f) dest 0 14 (mux_rate spec) = Some (14, pack_bytes (fr_pts f) (mux_rate spec))"
    using set_pack_header_ok [of dest 14 "fr_pts f" "[]"] assms(5) by simp
  have "0 < (fr_length f + L - 1) div L" using fl L by (simp add: pos_imp_zdiv_pos_iff)
  then have num: "0 < c_div (fr_length f + L - 1) L" using c_div_nonneg [of "fr_length f + L - 1" L] fl L by simp
  have over: "lts_pes_make_header sid pts n (pack_bytes p r) 14 0 = UB" for sid pts n p r
    by (simp add: lts_pes_make_header_def store_def Let_def)
  have loop: "ps_pes_packets 0 (c_div (fr_length f + L - 1) L) sid pts fd fl' L b (pack_bytes p r) 14 14 segs = UB" for sid pts fd fl' b p r segs
    using num by (subst ps_pes_packets.simps) (simp add: over Let_def)
  have sg: "segment (fr_segcb f) (pack_bytes (fr_pts f) (mux_rate spec)) 0 14 = Some (if fr_segcb f then [pack_bytes (fr_pts f) (mux_rate spec)] else [])"
    using segment_at [of "fr_segcb f" "[]" "pack_bytes (fr_pts f) (mux_rate spec)" "[]"] by simp
  show ?thesis
    using assms(1,2,4) f fl p1 sg loop by (simp add: lts_ps_stream_def array_get_def L_def [symmetric] Let_def)
qed

theorem ps_stream_overflows_witness:
  "lts_ps_stream (Some (m_frame\<lparr>fr_is_key := 0\<rparr>)) (Some (replicate 14 0)) 14 (Some m_info) = UB"
  by (rule ps_stream_overflows [of _ m_program _ "replicate 200 5"]) (simp_all add: m_defs ps_frame_ok_def spec_ok_def)

end
