(* ===== verification/G711.thy ===== *)
theory G711
  imports Mpeg_Buffer
begin

text \<open>
  The G.711 codec: src/codec/g711/g711.c and g711_table.c.  Speech samples of 16 bits are companded
  to 8 bits by the A-law or the mu-law, by computation or with tables.

  A \<open>short\<close> is an \<open>int\<close> and \<open>short x\<close> the conversion to 16 bits; right shifts of negative samples are
  arithmetic.
\<close>

section \<open>Conversions (g711.c)\<close>

definition seg_aend :: "int list" where
  "seg_aend = [0x1F, 0x3F, 0x7F, 0xFF, 0x1FF, 0x3FF, 0x7FF, 0xFFF]"

definition seg_uend :: "int list" where
  "seg_uend = [0x3F, 0x7F, 0xFF, 0x1FF, 0x3FF, 0x7FF, 0xFFF, 0x1FFF]"

text \<open>The index of the first entry that is not below \<open>val\<close>, or the size of the table.\<close>

fun search :: "int \<Rightarrow> int list \<Rightarrow> nat" where
  "search val [] = 0"
| "search val (t # ts) = (if val \<le> t then 0 else Suc (search val ts))"

definition linear2alaw :: "int \<Rightarrow> byte" where
  "linear2alaw pcm_val =
     (let pcm_val = short (drop_bit 3 pcm_val);
          mask = (if pcm_val \<ge> 0 then 0xD5 else 0x55);
          pcm_val = (if pcm_val \<ge> 0 then pcm_val else short (- pcm_val - 1));
          seg = search pcm_val seg_aend
      in if seg \<ge> 8 then 0x7F XOR mask
         else let aval = push_bit 4 (word_of_nat seg);
                  aval = (if seg < 2 then aval OR word_of_int (drop_bit 1 pcm_val AND 0xf)
                          else aval OR word_of_int (drop_bit seg pcm_val AND 0xf))
              in aval XOR mask)"

definition alaw2linear :: "byte \<Rightarrow> int" where
  "alaw2linear a_val =
     (let a_val = a_val XOR 0x55;
          t = short (push_bit 4 (uint (a_val AND 0xf)));
          seg = unat (drop_bit 4 (a_val AND 0x70));
          t = (if seg = 0 then short (t + 8)
               else if seg = 1 then short (t + 0x108)
               else short (push_bit (seg - 1) (short (t + 0x108))))
      in short (if a_val AND 0x80 \<noteq> 0 then t else - t))"

definition linear2ulaw :: "int \<Rightarrow> byte" where
  "linear2ulaw pcm_val =
     (let pcm_val = short (drop_bit 2 pcm_val);
          mask = (if pcm_val < 0 then 0x7F else 0xFF);
          pcm_val = (if pcm_val < 0 then short (- pcm_val) else pcm_val);
          pcm_val = (if pcm_val > 8159 then 8159 else pcm_val);
          pcm_val = short (pcm_val + 33);
          seg = search pcm_val seg_uend
      in if seg \<ge> 8 then 0x7F XOR mask
         else (push_bit 4 (word_of_nat seg) OR word_of_int (drop_bit (seg + 1) pcm_val AND 0xF)) XOR mask)"

definition ulaw2linear :: "byte \<Rightarrow> int" where
  "ulaw2linear u_val =
     (let u_val = NOT u_val;
          t = short (push_bit 3 (uint (u_val AND 0xf)) + 0x84);
          t = short (push_bit (unat (drop_bit 4 (u_val AND 0x70))) t)
      in short (if u_val AND 0x80 \<noteq> 0 then 0x84 - t else t - 0x84))"

definition u2a :: bytes where
  "u2a = [1, 1, 2, 2, 3, 3, 4, 4, 5, 5, 6, 6, 7, 7, 8, 8, 9, 10, 11, 12, 13, 14, 15, 16, 17, 18, 19, 20, 21, 22, 23, 24,
     25, 27, 29, 31, 33, 34, 35, 36, 37, 38, 39, 40, 41, 42, 43, 44, 46, 48, 49, 50, 51, 52, 53, 54, 55, 56, 57, 58, 59, 60, 61, 62,
     64, 65, 66, 67, 68, 69, 70, 71, 72, 73, 74, 75, 76, 77, 78, 79, 80, 82, 83, 84, 85, 86, 87, 88, 89, 90, 91, 92, 93, 94, 95, 96,
     97, 98, 99, 100, 101, 102, 103, 104, 105, 106, 107, 108, 109, 110, 111, 112,
     113, 114, 115, 116, 117, 118, 119, 120, 121, 122, 123, 124, 125, 126, 127, 128]"

definition a2u :: bytes where
  "a2u = [1, 3, 5, 7, 9, 11, 13, 15, 16, 17, 18, 19, 20, 21, 22, 23, 24, 25, 26, 27, 28, 29, 30, 31,
     32, 32, 33, 33, 34, 34, 35, 35, 36, 37, 38, 39, 40, 41, 42, 43, 44, 45, 46, 47, 48, 48, 49, 49,
     50, 51, 52, 53, 54, 55, 56, 57, 58, 59, 60, 61, 62, 63, 64, 64, 65, 66, 67, 68, 69, 70, 71, 72,
     73, 74, 75, 76, 77, 78, 79, 80, 80, 81, 82, 83, 84, 85, 86, 87, 88, 89, 90, 91, 92, 93, 94, 95,
     96, 97, 98, 99, 100, 101, 102, 103, 104, 105, 106, 107, 108, 109, 110, 111,
     112, 113, 114, 115, 116, 117, 118, 119, 120, 121, 122, 123, 124, 125, 126, 127]"

definition alaw2ulaw :: "byte \<Rightarrow> byte ub" where
  "alaw2ulaw aval =
     (if aval AND 0x80 \<noteq> 0 then do { v \<leftarrow> array_get a2u (uint (aval XOR 0xD5)); Some (0xFF XOR v) }
      else do { v \<leftarrow> array_get a2u (uint (aval XOR 0x55)); Some (0x7F XOR v) })"

definition ulaw2alaw :: "byte \<Rightarrow> byte ub" where
  "ulaw2alaw uval =
     (if uval AND 0x80 \<noteq> 0 then do { v \<leftarrow> array_get u2a (uint (0xFF XOR uval)); Some (0xD5 XOR (v - 1)) }
      else do { v \<leftarrow> array_get u2a (uint (0x7F XOR uval)); Some (0x55 XOR (v - 1)) })"

section \<open>Code words\<close>

text \<open>A code word is a segment, a position in the segment, and a sign; the sign and the inversion of the
  other bits make up the mask.\<close>

definition code_word :: "nat \<Rightarrow> nat \<Rightarrow> byte" where
  "code_word seg q = word_of_nat (16 * seg + q)"

lemma unat_code: "seg < 8 \<Longrightarrow> q < 16 \<Longrightarrow> unat (code_word seg q) = 16 * seg + q"
  unfolding code_word_def unat_of_nat by simp

lemma field_low: "unat (w AND 0xf) = unat w mod 16" for w :: byte
proof -
  have "w AND 0xf = take_bit 4 w" by (simp add: take_bit_eq_mask mask_eq_exp_minus_1)
  then show ?thesis by (simp add: take_bit_eq_mod unat_mod)
qed

lemma field_seg: "unat (drop_bit 4 (w AND 0x70)) = unat w div 16 mod 8" for w :: byte
proof -
  have "drop_bit 4 (w AND 0x70) = take_bit 3 (drop_bit 4 w)"
    by (simp add: take_bit_eq_mask mask_eq_exp_minus_1)
  then show ?thesis by (simp add: take_bit_eq_mod drop_bit_eq_div unat_mod unat_div)
qed

lemma field_sign: "w AND 0x80 \<noteq> 0 \<longleftrightarrow> 128 \<le> unat w" for w :: byte
proof -
  have "w AND 2 ^ 7 = 0 \<longleftrightarrow> \<not> bit w 7" by (rule and_exp_eq_0_iff_not_bit)
  then have "w AND 0x80 \<noteq> 0 \<longleftrightarrow> bit w 7" by simp
  moreover have "bit w 7 \<longleftrightarrow> odd (unat w div 128)"
    using bit_unsigned_iff [of w 7, where ?'a = nat] by (simp add: bit_iff_odd [of "unat w"])
  moreover have "odd (unat w div 128) \<longleftrightarrow> 128 \<le> unat w"
  proof (cases "unat w < 128")
    case False
    then have "unat w div 128 = 1" using unsigned_less [of w, where ?'a = nat] by (intro div_nat_eqI) simp_all
    then show ?thesis using False by simp
  qed simp
  ultimately show ?thesis by simp
qed

lemma unat_flip: "unat w < 128 \<Longrightarrow> unat (w XOR 0x80) = 128 + unat w" for w :: byte
proof -
  assume w: "unat w < 128"
  have "w AND 0x80 = 0" using field_sign [of w] w by auto
  then have "w XOR 0x80 = w + 0x80" by (simp add: disjunctive_add_eq_xor)
  then show ?thesis using w by (simp add: unat_plus_if')
qed

lemma field_sign_flip: "128 \<le> unat w \<Longrightarrow> unat (w XOR 0x80) < 128" for w :: byte
proof (rule ccontr)
  assume w: "128 \<le> unat w" and "\<not> unat (w XOR 0x80) < 128"
  then have "bit w 7" "bit (w XOR 2 ^ 7) 7"
    using field_sign [of w] field_sign [of "w XOR 0x80"] and_exp_eq_0_iff_not_bit [of w 7]
      and_exp_eq_0_iff_not_bit [of "w XOR 0x80" 7] by simp_all
  then show False by (simp add: bit_xor_iff bit_exp_iff)
qed

text \<open>Decoding: the middle of the interval that belongs to the code word.\<close>

definition alaw_mag :: "nat \<Rightarrow> nat \<Rightarrow> int" where
  "alaw_mag seg q = (if seg = 0 then 16 * int q + 8 else (16 * int q + 264) * 2 ^ (seg - 1))"

lemma seg_power_le: "seg < 8 \<Longrightarrow> (2 :: int) ^ seg \<le> 128" "seg < 8 \<Longrightarrow> (2 :: int) ^ (seg - 1) \<le> 64"
  using power_increasing [of seg 7 "2 :: int"] power_increasing [of "seg - 1" 6 "2 :: int"] by simp_all

lemma alaw_mag_bounds:
  assumes "seg < 8" "q < 16"
  shows "0 < alaw_mag seg q" "alaw_mag seg q \<le> 32256"
proof -
  have "(16 * int q + 264) * 2 ^ (seg - 1) \<le> 504 * 64"
    using assms seg_power_le(2) [of seg] by (intro mult_mono) simp_all
  then show "alaw_mag seg q \<le> 32256" using assms by (simp add: alaw_mag_def)
  show "0 < alaw_mag seg q" by (simp add: alaw_mag_def)
qed

lemma code_fields:
  assumes "q < 16" "n mod 128 = 16 * seg + q"
  shows "n mod 16 = q" "n div 16 mod 8 = (seg :: nat)"
proof -
  have e: "16 * (n div 16 mod 8) + n mod 16 = 16 * seg + q" using mod_mult2_eq [of n 16 8] assms(2) by simp
  then have "(16 * (n div 16 mod 8) + n mod 16) mod 16 = (16 * seg + q) mod 16" by simp
  then show "n mod 16 = q" using assms(1) by simp
  with e show "n div 16 mod 8 = seg" by simp
qed

lemma alaw_fields:
  assumes "seg < 8" "q < 16" "unat w mod 128 = 16 * seg + q"
  shows "alaw2linear (w XOR 0x55) = (if 128 \<le> unat w then alaw_mag seg q else - alaw_mag seg q)"
proof -
  have w: "(w XOR 0x55) XOR 0x55 = w" by (simp add: xor.assoc)
  note f = code_fields [OF assms(2,3)]
  have t: "uint (w AND 0xf) = int q" using field_low [of w] f(1) by (metis uint_nat)
  have s1: "short (push_bit 4 (int q)) = 16 * int q" using assms(2) by (simp add: push_bit_eq_mult short_id)
  have s2: "short (16 * int q + 264) = 16 * int q + 264" "short (16 * int q + 8) = 16 * int q + 8" using assms(2) by (simp_all add: short_id)
  note b = alaw_mag_bounds [OF assms(1,2)]
  have s3: "seg \<noteq> 0 \<Longrightarrow> short (push_bit (seg - 1) (16 * int q + 264)) = alaw_mag seg q"
  proof -
    assume "seg \<noteq> 0"
    then have "push_bit (seg - 1) (16 * int q + 264) = alaw_mag seg q" by (simp add: push_bit_eq_mult alaw_mag_def)
    then show ?thesis using b by (simp only: short_id)
  qed
  have s4: "short (alaw_mag seg q) = alaw_mag seg q" "short (- alaw_mag seg q) = - alaw_mag seg q" using b by (simp_all add: short_id)
  show ?thesis
    unfolding alaw2linear_def Let_def w t s1 s2 field_seg f(2) field_sign
    using s3 s4 by (cases "seg = 0"; cases "seg = 1") (simp_all add: alaw_mag_def s2)
qed

lemma mask_flip: "unat ((code_word seg q XOR 0xD5) XOR 0x55) = 128 + (16 * seg + q)" "(code_word seg q XOR 0x55) XOR 0x55 = code_word seg q"
  if "seg < 8" "q < 16"
proof -
  have "(code_word seg q XOR 0xD5) XOR 0x55 = code_word seg q XOR 0x80" by (simp add: xor.assoc)
  then show "unat ((code_word seg q XOR 0xD5) XOR 0x55) = 128 + (16 * seg + q)"
    using that by (simp add: unat_flip unat_code)
  show "(code_word seg q XOR 0x55) XOR 0x55 = code_word seg q" by (simp add: xor.assoc)
qed

lemma alaw2linear_code:
  assumes "seg < 8" "q < 16"
  shows "alaw2linear (code_word seg q XOR 0xD5) = alaw_mag seg q" "alaw2linear (code_word seg q XOR 0x55) = - alaw_mag seg q"
proof -
  let ?w = "(code_word seg q XOR 0xD5) XOR 0x55"
  have w: "?w XOR 0x55 = code_word seg q XOR 0xD5" by (simp add: xor.assoc)
  show "alaw2linear (code_word seg q XOR 0xD5) = alaw_mag seg q"
    using alaw_fields [OF assms, of ?w] mask_flip(1) [OF assms] assms unfolding w by simp
  show "alaw2linear (code_word seg q XOR 0x55) = - alaw_mag seg q"
    using alaw_fields [OF assms, of "code_word seg q"] unat_code [OF assms] assms by simp
qed

text \<open>Encoding: the segments and the positions in them.\<close>

definition alaw_pos :: "int \<Rightarrow> nat \<Rightarrow> nat" where
  "alaw_pos v seg = nat (v div 2 ^ max 1 seg mod 16)"

definition in_segment :: "int \<Rightarrow> nat \<Rightarrow> bool" where
  "in_segment v seg \<longleftrightarrow> (if seg = 0 then 0 \<le> v \<and> v < 32 else 2 ^ (seg + 4) \<le> v \<and> v < 2 ^ (seg + 5))"

lemma search_aend:
  assumes "0 \<le> v" "v < 4096"
  shows "search v seg_aend < 8 \<and> in_segment v (search v seg_aend)"
  using assms by (simp add: seg_aend_def in_segment_def)

lemma code_or:
  assumes "seg < 8" "0 \<le> v"
  shows "push_bit 4 (word_of_nat seg) OR word_of_int (drop_bit k v AND 0xf) = code_word seg (nat (v div 2 ^ k mod 16))"
proof -
  have a: "drop_bit k v AND 0xf = v div 2 ^ k mod 16"
  proof -
    have "drop_bit k v AND 0xf = take_bit 4 (drop_bit k v)" by (simp add: take_bit_eq_mask mask_eq_exp_minus_1)
    then show ?thesis by (simp add: take_bit_eq_mod drop_bit_eq_div)
  qed
  define q where "q = nat (v div 2 ^ k mod 16)"
  have q: "q < 16" "v div 2 ^ k mod 16 = int q" using assms(2) by (simp_all add: q_def nat_less_iff)
  have "(push_bit 4 (word_of_nat seg) AND word_of_nat q :: byte) = 0"
  proof (rule bit_word_eqI)
    fix n
    assume "n < LENGTH(8)"
    have "\<not> bit (word_of_nat q :: byte) n" if "4 \<le> n"
    proof -
      have "bit (word_of_nat q :: byte) n \<Longrightarrow> bit q n" by (simp add: bit_simps)
      moreover have "\<not> bit q n"
        using that q(1) power_increasing [of 4 n "2 :: nat"] by (simp add: bit_iff_odd)
      ultimately show ?thesis by blast
    qed
    then show "bit (push_bit 4 (word_of_nat seg) AND word_of_nat q :: byte) n = bit (0 :: byte) n"
      by (auto simp: bit_simps)
  qed
  then have "push_bit 4 (word_of_nat seg) OR word_of_nat q = push_bit 4 (word_of_nat seg) + (word_of_nat q :: byte)"
    by (simp add: disjunctive_add_eq_or)
  also have "\<dots> = code_word seg q" by (simp add: code_word_def push_bit_eq_mult)
  finally have "push_bit 4 (word_of_nat seg) OR word_of_nat q = code_word seg q" .
  moreover have "word_of_int (drop_bit k v AND 0xf) = (word_of_nat q :: byte)" unfolding a q(2) by simp
  ultimately show ?thesis by (simp only: q_def)
qed

lemma lt8: "n < 8 \<Longrightarrow> n = 0 \<or> n = 1 \<or> n = 2 \<or> n = 3 \<or> n = 4 \<or> n = 5 \<or> n = 6 \<or> n = (7 :: nat)"
  by auto

lemma search_aend_unique:
  assumes "in_segment v seg" "seg < 8"
  shows "search v seg_aend = seg"
  using assms(1) lt8 [OF assms(2)] by (elim disjE) (simp_all add: in_segment_def seg_aend_def)

lemma segment_point:
  assumes "q < 16" "0 \<le> e" "e < 2 ^ max 1 seg" "v = 2 ^ max 1 seg * (int q + (if seg = 0 then 0 else 16)) + e"
  shows "in_segment v seg" "alaw_pos v seg = q"
proof -
  have d: "v div 2 ^ max 1 seg = int q + (if seg = 0 then 0 else 16)"
    using assms(2-4) by simp
  show "alaw_pos v seg = q" unfolding alaw_pos_def d using assms(1) by simp
  show "in_segment v seg"
  proof (cases "seg = 0")
    case True
    then show ?thesis using assms by (simp add: in_segment_def)
  next
    case False
    define P :: int where "P = 2 ^ seg"
    have P: "0 < P" "max 1 seg = seg" using False by (simp_all add: P_def)
    have v: "v = P * (int q + 16) + e" "0 \<le> e" "e < P" using assms False P by (simp_all add: P_def)
    have "P * 16 \<le> P * (int q + 16)" "P * (int q + 17) \<le> P * 32" using assms(1) P(1) by (intro mult_left_mono; simp)+
    then have "16 * P \<le> v" "v < 32 * P" using v unfolding distrib_left by linarith+
    then show ?thesis using False by (simp add: in_segment_def P_def power_add mult.commute)
  qed
qed

lemma alaw_quantised:
  assumes "in_segment v seg" "P = 2 ^ max 1 seg"
  shows "8 * v - 4 * P + 8 \<le> alaw_mag seg (alaw_pos v seg)" "alaw_mag seg (alaw_pos v seg) \<le> 8 * v + 4 * P"
    and "P = 2 \<or> 16 * P \<le> v" "alaw_pos v seg < 16"
proof -
  define d where "d = v div P"
  define e where "e = v mod P"
  have Pp: "0 < P" using assms(2) by simp
  have v: "v = P * d + e" "0 \<le> e" "e < P" using Pp by (simp_all add: d_def e_def)
  have mag: "alaw_mag seg (alaw_pos v seg) = 8 * P * d + 4 * P \<and> (P = 2 \<or> 16 * P \<le> v)"
  proof (cases "seg = 0")
    case True
    then have "P = 2" "0 \<le> v" "v < 32" using assms by (simp_all add: in_segment_def)
    then show ?thesis using True by (simp add: alaw_mag_def alaw_pos_def d_def)
  next
    case False
    define H :: int where "H = 2 ^ (seg - 1)"
    have PH: "P = 2 * H" using False assms(2) by (cases seg) (simp_all add: H_def)
    have b: "16 * P \<le> v" "v < 32 * P" using assms False by (simp_all add: in_segment_def power_add mult.commute)
    have "16 \<le> d"
    proof (rule ccontr)
      assume "\<not> 16 \<le> d"
      then have "P * d \<le> P * 15" using Pp by (intro mult_left_mono) simp_all
      then show False using v b by linarith
    qed
    moreover have "d < 32"
    proof (rule ccontr)
      assume "\<not> d < 32"
      then have "P * 32 \<le> P * d" using Pp by (intro mult_left_mono) simp_all
      then show False using v b by linarith
    qed
    ultimately have "d mod 16 = d - 16" by (intro mod_pos_pos_trivial [of "d - 16" 16, simplified, THEN trans [rotated]]) simp_all
    then have "int (alaw_pos v seg) = d - 16" using \<open>16 \<le> d\<close> False assms(2) by (simp add: alaw_pos_def d_def)
    then have "alaw_mag seg (alaw_pos v seg) = (16 * (d - 16) + 264) * H" using False by (simp add: alaw_mag_def H_def)
    then show ?thesis using b by (simp add: PH algebra_simps)
  qed
  show "8 * v - 4 * P + 8 \<le> alaw_mag seg (alaw_pos v seg)" "alaw_mag seg (alaw_pos v seg) \<le> 8 * v + 4 * P"
    using mag v by (simp_all add: algebra_simps)
  show "P = 2 \<or> 16 * P \<le> v" using mag by blast
  show "alaw_pos v seg < 16" by (simp add: alaw_pos_def nat_less_iff)
qed

lemma linear2alaw_pos:
  assumes "0 \<le> x" "x < 32768"
  shows "linear2alaw x = code_word (search (x div 8) seg_aend) (alaw_pos (x div 8) (search (x div 8) seg_aend)) XOR 0xD5"
proof -
  define v where "v = x div 8"
  have v: "0 \<le> v" "v < 4096" "short (drop_bit 3 x) = v" using assms by (simp_all add: v_def drop_bit_eq_div short_id)
  define seg where "seg = search v seg_aend"
  have seg: "seg < 8" "\<not> 8 \<le> seg" using search_aend [OF v(1,2)] by (simp_all add: seg_def)
  have "\<not> seg < 2 \<Longrightarrow> max 1 seg = seg" "seg < 2 \<Longrightarrow> max 1 seg = 1" by auto
  then show ?thesis
    unfolding linear2alaw_def Let_def v(3) v_def [symmetric] seg_def [symmetric]
    using v(1) seg by (simp add: code_or alaw_pos_def seg_def [symmetric])
qed

lemma linear2alaw_neg:
  assumes "- 32768 \<le> x" "x < 0" "v = - (x div 8) - 1"
  shows "linear2alaw x = code_word (search v seg_aend) (alaw_pos v (search v seg_aend)) XOR 0x55" "0 \<le> v" "v < 4096"
proof -
  have d: "x div 8 < 0" "- 4096 \<le> x div 8" using assms(1,2) by simp_all
  show v: "0 \<le> v" "v < 4096" using d assms(3) by simp_all
  have sh: "short (drop_bit 3 x) = x div 8" "short (- (x div 8) - 1) = v" using d v assms(3) by (simp_all add: drop_bit_eq_div short_id)
  define seg where "seg = search v seg_aend"
  have seg: "seg < 8" "\<not> 8 \<le> seg" using search_aend [OF v] by (simp_all add: seg_def)
  have nn: "\<not> 0 \<le> x div 8" using d by simp
  have "\<not> seg < 2 \<Longrightarrow> max 1 seg = seg" "seg < 2 \<Longrightarrow> max 1 seg = 1" by auto
  then show "linear2alaw x = code_word seg (alaw_pos v seg) XOR 0x55"
    unfolding linear2alaw_def Let_def sh(1) if_not_P [OF nn] sh(2) seg_def [symmetric]
    using v(1) seg by (simp add: code_or alaw_pos_def)
qed

text \<open>Every A-law code word is the code of the value it stands for.\<close>

lemma alaw_mag_point:
  assumes "seg < 8" "q < 16"
  shows "linear2alaw (alaw_mag seg q) = code_word seg q XOR 0xD5" "linear2alaw (- alaw_mag seg q) = code_word seg q XOR 0x55"
proof -
  define H :: int where "H = (if seg = 0 then 1 else 2 ^ (seg - 1))"
  define b :: int where "b = (if seg = 0 then 0 else 16)"
  have H: "2 ^ max 1 seg = 2 * H" "0 < H" by (cases seg; simp add: H_def max_def)+
  define m where "m = 2 * H * (int q + b) + H"
  have mag: "alaw_mag seg q = 8 * m" by (auto simp: alaw_mag_def m_def H_def b_def algebra_simps)
  note bd = alaw_mag_bounds [OF assms]
  have p: "in_segment (m + k) seg" "alaw_pos (m + k) seg = q" if "k = 0 \<or> k = -1" for k
    using segment_point [OF assms(2), of "H + k" seg "m + k"] that H unfolding H(1) m_def b_def by auto
  then have s: "search (m + k) seg_aend = seg" if "k = 0 \<or> k = -1" for k
    using search_aend_unique [OF _ assms(1)] that by blast
  show "linear2alaw (alaw_mag seg q) = code_word seg q XOR 0xD5"
    using linear2alaw_pos [of "8 * m"] bd p [of 0] s [of 0] unfolding mag by simp
  have "- (8 * m) div 8 = - m" by simp
  then show "linear2alaw (- alaw_mag seg q) = code_word seg q XOR 0x55"
    using linear2alaw_neg(1) [of "- (8 * m)" "m - 1"] bd p [of "-1"] s [of "-1"] unfolding mag by simp
qed

lemma code_cases:
  obtains (pos) seg q where "seg < 8" "q < 16" "a = code_word seg q XOR 0xD5"
  | (neg) seg q where "seg < 8" "q < 16" "a = code_word seg q XOR 0x55"
proof (cases "unat (a XOR 0x55) < 128")
  case True
  define n where "n = unat (a XOR 0x55)"
  have "a XOR 0x55 = word_of_nat n" by (simp add: n_def)
  then have "a = code_word (n div 16) (n mod 16) XOR 0x55" by (metis code_word_def mult_div_mod_eq xor.right_neutral xor_self_eq xor.assoc)
  moreover have "n div 16 < 8" using True by (simp add: n_def less_mult_imp_div_less)
  ultimately show ?thesis using neg [of "n div 16" "n mod 16"] by simp
next
  case False
  define n where "n = unat (a XOR 0xD5)"
  have "n < 128"
  proof (rule ccontr)
    assume n: "\<not> n < 128"
    have x: "(a XOR 0x55) XOR 0x80 = a XOR 0xD5" by (simp add: xor.assoc)
    show False using field_sign_flip [of "a XOR 0x55"] False n unfolding x n_def by simp
  qed
  have "a XOR 0xD5 = word_of_nat n" by (simp add: n_def)
  then have "a = code_word (n div 16) (n mod 16) XOR 0xD5" by (metis code_word_def mult_div_mod_eq xor.right_neutral xor_self_eq xor.assoc)
  moreover have "n div 16 < 8" using \<open>n < 128\<close> by (simp add: less_mult_imp_div_less)
  ultimately show ?thesis using pos [of "n div 16" "n mod 16"] by simp
qed

lemma alaw_code_value: "linear2alaw (alaw2linear a) = a"
proof (cases a rule: code_cases)
  case (pos seg q)
  then show ?thesis using alaw2linear_code(1) alaw_mag_point(1) by simp
next
  case (neg seg q)
  then show ?thesis using alaw2linear_code(2) alaw_mag_point(2) by simp
qed

text \<open>The error of the A-law is at most 1/32 of the sample, and at most 8 on the first two segments.\<close>

lemma alaw_error_bound:
  assumes "8 * v - 4 * P + 8 \<le> m" "m \<le> 8 * v + 4 * P" "P = 2 \<or> 16 * P \<le> v" "8 * v \<le> x" "x \<le> 8 * v + 8"
  shows "32 * \<bar>m - x\<bar> \<le> max 256 (x :: int)"
  using assms(3)
proof
  assume "P = 2"
  then have "\<bar>m - x\<bar> \<le> 8" using assms by arith
  then show ?thesis by (intro max.coboundedI1) simp
next
  assume "16 * P \<le> v"
  then have "\<bar>m - x\<bar> \<le> 4 * P" "128 * P \<le> x" using assms by arith+
  then show ?thesis by (intro max.coboundedI2) simp
qed

lemma alaw_error:
  assumes "- 32768 \<le> x" "x < 32768"
  shows "32 * \<bar>alaw2linear (linear2alaw x) - x\<bar> \<le> max 256 \<bar>x\<bar>"
proof (cases "0 \<le> x")
  case True
  define v where "v = x div 8"
  define seg where "seg = search v seg_aend"
  have v: "0 \<le> v" "v < 4096" "8 * v \<le> x" "x \<le> 8 * v + 7" using True assms by (simp_all add: v_def)
  have seg: "seg < 8" "in_segment v seg" using search_aend [OF v(1,2)] by (simp_all add: seg_def)
  note q = alaw_quantised [OF seg(2) refl]
  have "alaw2linear (linear2alaw x) = alaw_mag seg (alaw_pos v seg)"
    using linear2alaw_pos [OF True assms(2)] alaw2linear_code(1) [OF seg(1) q(4)] by (simp add: v_def seg_def)
  then show ?thesis using alaw_error_bound [OF q(1-3) v(3)] v(4) True by simp
next
  case False
  define v where "v = - (x div 8) - 1"
  define seg where "seg = search v seg_aend"
  note n = linear2alaw_neg [OF assms(1) _ v_def]
  have v: "0 \<le> v" "v < 4096" using n False by simp_all
  have x: "8 * v + 1 \<le> - x" "- x \<le> 8 * v + 8"
    using mult_div_mod_eq [of 8 x] pos_mod_bound [of 8 x] pos_mod_sign [of 8 x] by (simp_all add: v_def)
  have seg: "seg < 8" "in_segment v seg" using search_aend [OF v] by (simp_all add: seg_def)
  note q = alaw_quantised [OF seg(2) refl]
  have "alaw2linear (linear2alaw x) = - alaw_mag seg (alaw_pos v seg)"
    using n(1) False alaw2linear_code(2) [OF seg(1) q(4)] by (simp add: seg_def)
  then have "\<bar>alaw2linear (linear2alaw x) - x\<bar> = \<bar>alaw_mag seg (alaw_pos v seg) - - x\<bar>" by simp
  then show ?thesis using alaw_error_bound [OF q(1-3) _ x(2)] x(1) False by simp
qed

section \<open>The mu-law\<close>

definition ulaw_mag :: "nat \<Rightarrow> nat \<Rightarrow> int" where
  "ulaw_mag seg q = (8 * int q + 132) * 2 ^ seg - 132"

lemma ulaw_mag_bounds:
  assumes "seg < 8" "q < 16"
  shows "0 \<le> ulaw_mag seg q" "ulaw_mag seg q \<le> 32124"
proof -
  have "(8 * int q + 132) * 2 ^ seg \<le> 252 * 128"
    using assms seg_power_le(1) [of seg] by (intro mult_mono) simp_all
  then show "ulaw_mag seg q \<le> 32124" by (simp add: ulaw_mag_def)
  have "132 * 1 \<le> (8 * int q + 132) * 2 ^ seg" by (intro mult_mono) simp_all
  then show "0 \<le> ulaw_mag seg q" by (simp add: ulaw_mag_def)
qed

lemma ulaw_fields:
  assumes "seg < 8" "q < 16" "unat w mod 128 = 16 * seg + q"
  shows "ulaw2linear (NOT w) = (if 128 \<le> unat w then - ulaw_mag seg q else ulaw_mag seg q)"
proof -
  note f = code_fields [OF assms(2,3)]
  note b = ulaw_mag_bounds [OF assms(1,2)]
  have t: "uint (w AND 0xf) = int q" using field_low [of w] f(1) by (metis uint_nat)
  have s1: "short (push_bit 3 (int q) + 0x84) = 8 * int q + 132" using assms(2) by (simp add: push_bit_eq_mult short_id)
  have s2: "short (push_bit seg (8 * int q + 132)) = ulaw_mag seg q + 132"
    using b by (simp add: push_bit_eq_mult ulaw_mag_def short_id)
  show ?thesis
    unfolding ulaw2linear_def Let_def bit.double_compl t s1 field_seg f(2) s2 field_sign
    using b by (simp add: short_id)
qed

lemma ulaw2linear_code:
  assumes "seg < 8" "q < 16"
  shows "ulaw2linear (code_word seg q XOR 0xFF) = ulaw_mag seg q" "ulaw2linear (code_word seg q XOR 0x7F) = - ulaw_mag seg q"
proof -
  have n: "code_word seg q XOR 0xFF = NOT (code_word seg q)" "code_word seg q XOR 0x7F = NOT (code_word seg q XOR 0x80)"
    by (simp_all add: bit_eq_iff bit_simps, auto simp: less_Suc_eq numeral_eq_Suc)
  show "ulaw2linear (code_word seg q XOR 0xFF) = ulaw_mag seg q" "ulaw2linear (code_word seg q XOR 0x7F) = - ulaw_mag seg q"
    unfolding n using ulaw_fields [OF assms, of "code_word seg q"] ulaw_fields [OF assms, of "code_word seg q XOR 0x80"]
      unat_code [OF assms] assms by (simp_all add: unat_flip)
qed

text \<open>The biased magnitude \<open>v\<close> of a sample lies in the segment of its leading bit.\<close>

lemma search_uend:
  assumes "33 \<le> v" "v < 8192"
  shows "search v seg_uend < 8 \<and> 2 ^ (search v seg_uend + 5) \<le> v \<and> v < 2 ^ (search v seg_uend + 6)"
  using assms by (simp add: seg_uend_def)

lemma search_uend_unique:
  assumes "2 ^ (seg + 5) \<le> v" "v < 2 ^ (seg + 6)" "seg < 8"
  shows "search v seg_uend = seg"
  using assms(1,2) lt8 [OF assms(3)] by (elim disjE) (simp_all add: seg_uend_def)

definition ulaw_code :: "int \<Rightarrow> byte" where
  "ulaw_code v = (if v < 8192 then code_word (search v seg_uend) (nat (v div 2 ^ (search v seg_uend + 1) mod 16)) else 0x7F)"

lemma linear2ulaw_code:
  assumes "- 32768 \<le> x" "x < 32768"
  shows "linear2ulaw x = ulaw_code (min 8159 \<bar>x div 4\<bar> + 33) XOR (if x < 0 then 0x7F else 0xFF)"
proof -
  define v where "v = min 8159 \<bar>x div 4\<bar> + 33"
  have d: "- 8192 \<le> x div 4" "x div 4 < 8192" "x div 4 < 0 \<longleftrightarrow> x < 0" using assms by auto
  have v: "33 \<le> v" "v \<le> 8192" by (simp_all add: v_def)
  have sh: "short (drop_bit 2 x) = x div 4" "short (- (x div 4)) = - (x div 4)" "short v = v"
    using d v by (simp_all add: drop_bit_eq_div short_id)
  have e: "(let p = (if x < 0 then - (x div 4) else x div 4) in short ((if p > 8159 then 8159 else p) + 33)) = v"
    unfolding Let_def d(3) [symmetric] using sh(3) by (auto simp: v_def min_def)
  have "search v seg_uend \<ge> 8 \<longleftrightarrow> \<not> v < 8192"
    using search_uend [of v] v by (cases "v < 8192") (simp_all add: seg_uend_def)
  then show ?thesis
    unfolding linear2ulaw_def Let_def sh(1,2) d(3) e [unfolded Let_def] v_def [symmetric] ulaw_code_def
    using v code_or [of "search v seg_uend" v "search v seg_uend + 1"] by auto
qed

lemma ulaw_point:
  assumes "seg < 8" "q < 16" "v = (2 * int q + 33) * 2 ^ seg"
  shows "v < 8192" "ulaw_code v = code_word seg q"
proof -
  define P :: int where "P = 2 ^ seg"
  have P: "0 < P" "P \<le> 128" using seg_power_le(1) [OF assms(1)] by (simp_all add: P_def)
  have "(2 * int q + 33) * P \<le> 63 * P" "32 * P \<le> (2 * int q + 33) * P"
    using assms(2) P(1) by (intro mult_right_mono; simp)+
  then have "v \<le> 63 * P" "32 * P \<le> v" by (simp_all add: assms(3) P_def)
  then have v: "v < P * 64" "P * 32 \<le> v" using P(1) by linarith+
  then show "v < 8192" using P by linarith
  have s: "search v seg_uend = seg" using v by (intro search_uend_unique [OF _ _ assms(1)]) (simp_all add: P_def power_add)
  have "v = (int q + 16) * (2 * P) + P" by (simp add: assms(3) P_def algebra_simps)
  then have "v div (2 * P) = int q + 16" using P(1) by simp
  then have "v div 2 ^ (seg + 1) mod 16 = int q" using assms(2) by (simp add: P_def)
  then show "ulaw_code v = code_word seg q" unfolding ulaw_code_def s using \<open>v < 8192\<close> by simp
qed

lemma ulaw_mag_point:
  assumes "seg < 8" "q < 16"
  shows "linear2ulaw (ulaw_mag seg q) = code_word seg q XOR 0xFF"
    and "ulaw_mag seg q \<noteq> 0 \<Longrightarrow> linear2ulaw (- ulaw_mag seg q) = code_word seg q XOR 0x7F"
proof -
  define v where "v = (2 * int q + 33) * 2 ^ seg"
  have m: "ulaw_mag seg q = 4 * (v - 33)" by (simp add: ulaw_mag_def v_def algebra_simps)
  note p = ulaw_point [OF assms v_def] and b = ulaw_mag_bounds [OF assms]
  have c: "min 8159 \<bar>v - 33\<bar> + 33 = v" "min 8159 \<bar>33 - v\<bar> + 33 = v" using p(1) b(1) unfolding m by simp_all
  show "linear2ulaw (ulaw_mag seg q) = code_word seg q XOR 0xFF"
    using linear2ulaw_code [of "4 * (v - 33)"] b p(2) c(1) unfolding m by simp
  have "- (4 * (v - 33)) div 4 = 33 - v" by simp
  then show "ulaw_mag seg q \<noteq> 0 \<Longrightarrow> linear2ulaw (- ulaw_mag seg q) = code_word seg q XOR 0x7F"
    using linear2ulaw_code [of "- (4 * (v - 33))"] b p(2) c(2) unfolding m by auto
qed

lemma xor_shift: "u XOR a = b \<longleftrightarrow> u = b XOR a" for u :: byte
  by (metis xor.assoc xor_self_eq xor.right_neutral)

lemma ucode_cases:
  obtains (pos) seg q where "seg < 8" "q < 16" "u = code_word seg q XOR 0xFF"
  | (neg) seg q where "seg < 8" "q < 16" "u = code_word seg q XOR 0x7F"
proof (cases "u XOR 0x2A" rule: code_cases)
  case (pos seg q)
  then have "u = (code_word seg q XOR 0xD5) XOR 0x2A" by (simp add: xor_shift)
  then have "u = code_word seg q XOR 0xFF" by (simp add: xor.assoc)
  then show ?thesis using that pos by blast
next
  case (neg seg q)
  then have "u = (code_word seg q XOR 0x55) XOR 0x2A" by (simp add: xor_shift)
  then have "u = code_word seg q XOR 0x7F" by (simp add: xor.assoc)
  then show ?thesis using that neg by blast
qed

text \<open>A code word comes back from its value, but for the second code of zero.\<close>

lemma ulaw_mag_zero:
  assumes "seg < 8" "q < 16" "ulaw_mag seg q = 0"
  shows "seg = 0" "q = 0"
proof -
  have e: "(8 * int q + 132) * 2 ^ seg = 132" using assms(3) by (simp add: ulaw_mag_def)
  have "\<not> 1 \<le> seg"
  proof
    assume "1 \<le> seg"
    then have "(2 :: int) ^ 1 \<le> 2 ^ seg" by (rule power_increasing) simp
    then have "132 * 2 \<le> (8 * int q + 132) * 2 ^ seg" by (intro mult_mono) simp_all
    then show False using e by simp
  qed
  then show "seg = 0" by simp
  then show "q = 0" using e by simp
qed

lemma code_unique:
  assumes "s < 8" "q < 16" "s' < 8" "q' < 16" "code_word s q = code_word s' q'"
  shows "s = s'" "q = q'"
proof -
  have e: "16 * s + q = 16 * s' + q'" using assms unat_code by metis
  then have "(16 * s + q) mod 16 = (16 * s' + q') mod 16" by simp
  then show "q = q'" using assms by simp
  then show "s = s'" using e by simp
qed

lemma ulaw_code_value: "linear2ulaw (ulaw2linear u) = (if u = 0x7F then 0xFF else u)"
proof (cases u rule: ucode_cases)
  case (pos seg q)
  have "u \<noteq> 0x7F"
  proof
    assume "u = 0x7F"
    then have "code_word seg q = 0x7F XOR 0xFF" using pos xor_shift [of "code_word seg q" 255 127] by simp
    then show False using unat_code [OF pos(1,2)] pos(1,2) by simp
  qed
  then show ?thesis using pos ulaw2linear_code(1) ulaw_mag_point(1) by simp
next
  case (neg seg q)
  show ?thesis
  proof (cases "ulaw_mag seg q = 0")
    case True
    then have "u = 0x7F" using neg ulaw_mag_zero [OF neg(1,2) True] by (simp add: code_word_def)
    then show ?thesis using neg ulaw2linear_code(2) [OF neg(1,2)] True ulaw_mag_point(1) [of 0 0]
      by (simp add: ulaw_mag_def code_word_def)
  next
    case False
    have "u \<noteq> 0x7F"
    proof
      assume "u = 0x7F"
      then have "code_word seg q = code_word 0 0" using neg xor_shift [of "code_word seg q" 127 127] by (simp add: code_word_def)
      then have "seg = 0" "q = 0" using code_unique [OF neg(1,2), where s' = 0 and q' = 0] by simp_all
      then show False using False by (simp add: ulaw_mag_def)
    qed
    then show ?thesis using neg ulaw2linear_code(2) ulaw_mag_point(2) False by simp
  qed
qed

text \<open>The error of the mu-law is about 1/32 of the sample with its bias.\<close>

lemma ulaw_quantised:
  assumes "33 \<le> v" "v < 8192"
  obtains seg q where "seg < 8" "q < 16" "ulaw_code v = code_word seg q" "32 * \<bar>ulaw_mag seg q - 4 * (v - 33)\<bar> \<le> 4 * v"
proof -
  define seg where "seg = search v seg_uend"
  define P :: int where "P = 2 ^ seg"
  have s: "seg < 8" "32 * P \<le> v" "v < 64 * P" "0 < P"
    using search_uend [OF assms] by (simp_all add: seg_def P_def power_add mult.commute)
  define d where "d = v div (2 * P)"
  define e where "e = v mod (2 * P)"
  have v: "v = 2 * P * d + e" "0 \<le> e" "e < 2 * P" using s(4) by (simp_all add: d_def e_def)
  have "16 \<le> d"
  proof (rule ccontr)
    assume "\<not> 16 \<le> d"
    then have "2 * P * d \<le> 2 * P * 15" using s(4) by (intro mult_left_mono) simp_all
    then show False using v s(2) by linarith
  qed
  have "d < 32"
  proof (rule ccontr)
    assume "\<not> d < 32"
    then have "2 * P * 32 \<le> 2 * P * d" using s(4) by (intro mult_left_mono) simp_all
    then show False using v s(3) by linarith
  qed
  define q where "q = nat (d - 16)"
  have q: "q < 16" "int q = d - 16" using \<open>16 \<le> d\<close> \<open>d < 32\<close> by (simp_all add: q_def)
  have "d mod 16 = int q" using q by (metis add.commute diff_add_cancel mod_add_self1 mod_pos_pos_trivial of_nat_0_le_iff of_nat_less_numeral_iff)
  then have "ulaw_code v = code_word seg q"
    using assms(2) by (simp add: ulaw_code_def seg_def [symmetric] P_def [symmetric] d_def [symmetric])
  moreover have "ulaw_mag seg q = 4 * (2 * P * d + P - 33)" by (simp add: ulaw_mag_def q(2) P_def algebra_simps)
  then have "\<bar>ulaw_mag seg q - 4 * (v - 33)\<bar> \<le> 4 * P" using v by arith
  then have "32 * \<bar>ulaw_mag seg q - 4 * (v - 33)\<bar> \<le> 32 * (4 * P)" by (intro mult_left_mono) simp_all
  then have "32 * \<bar>ulaw_mag seg q - 4 * (v - 33)\<bar> \<le> 4 * v" by (rule order_trans) (use s(2) in simp)
  ultimately show ?thesis using that s(1) q(1) by blast
qed

lemma ulaw_error:
  assumes "- 32768 \<le> x" "x < 32768"
  shows "32 * \<bar>ulaw2linear (linear2ulaw x) - x\<bar> \<le> \<bar>x\<bar> + 231"
proof -
  define v where "v = min 8159 \<bar>x div 4\<bar> + 33"
  note l = linear2ulaw_code [OF assms, folded v_def]
  have x: "4 * \<bar>x div 4\<bar> - 3 \<le> \<bar>x\<bar>" "\<bar>x\<bar> \<le> 4 * \<bar>x div 4\<bar> + 3"
    using mult_div_mod_eq [of 4 x] pos_mod_bound [of 4 x] pos_mod_sign [of 4 x] by arith+
  have sg: "\<bar>- m - x\<bar> = \<bar>m - \<bar>x\<bar>\<bar>" if "x < 0" for m using that by arith
  show ?thesis
  proof (cases "v < 8192")
    case True
    then have v: "33 \<le> v" "4 * (v - 33) = 4 * \<bar>x div 4\<bar>" by (simp_all add: v_def)
    obtain seg q where c: "seg < 8" "q < 16" "ulaw_code v = code_word seg q" "32 * \<bar>ulaw_mag seg q - 4 * (v - 33)\<bar> \<le> 4 * v"
      using ulaw_quantised [OF v(1) True] .
    have "\<bar>ulaw2linear (linear2ulaw x) - x\<bar> = \<bar>ulaw_mag seg q - \<bar>x\<bar>\<bar>"
      unfolding l c(3) using ulaw2linear_code [OF c(1,2)] sg by simp
    also have "\<dots> \<le> \<bar>ulaw_mag seg q - 4 * (v - 33)\<bar> + 3" using v(2) x by arith
    finally show ?thesis using c(4) v(2) x(1) by (simp add: distrib_left)
  next
    case False
    then have v: "ulaw_code v = code_word 7 15" "8159 \<le> \<bar>x div 4\<bar>" by (simp_all add: ulaw_code_def code_word_def v_def)
    have "\<bar>ulaw2linear (linear2ulaw x) - x\<bar> = \<bar>ulaw_mag 7 15 - \<bar>x\<bar>\<bar>"
      unfolding l v(1) using ulaw2linear_code [of 7 15] sg by simp
    moreover have "\<bar>x\<bar> \<le> 32768" using assms by simp
    ultimately show ?thesis using v(2) x by (simp add: ulaw_mag_def)
  qed
qed

section \<open>Transcoding\<close>

definition alaw_lin :: "nat \<Rightarrow> int" where
  "alaw_lin n = alaw_mag (n div 16) (n mod 16)"

definition ulaw_lin :: "nat \<Rightarrow> int" where
  "ulaw_lin n = ulaw_mag (n div 16) (n mod 16)"

definition a2u_close :: "nat \<Rightarrow> bool" where
  "a2u_close n \<longleftrightarrow> unat (a2u ! n) < 128 \<and> 33 * \<bar>ulaw_lin (unat (a2u ! n)) - alaw_lin n\<bar> \<le> alaw_lin n + 132"

definition u2a_close :: "nat \<Rightarrow> bool" where
  "u2a_close n \<longleftrightarrow> unat (u2a ! n - 1) < 128 \<and> 33 * \<bar>alaw_lin (unat (u2a ! n - 1)) - ulaw_lin n\<bar> \<le> 2 * (ulaw_lin n + 132)"

lemma a2u_all_close: "list_all a2u_close [0..<128]"
  by code_simp

lemma u2a_all_close: "list_all u2a_close [0..<128]"
  by code_simp

lemma top_bit: "128 \<le> unat w \<longleftrightarrow> bit w 7" for w :: byte
  using field_sign [of w] and_exp_eq_0_iff_not_bit [of w 7] by simp

lemma code_sign:
  assumes "seg < 8" "q < 16"
  shows "(code_word seg q XOR 0xD5) AND 0x80 \<noteq> 0" "(code_word seg q XOR 0x55) AND 0x80 = 0"
    and "(code_word seg q XOR 0xFF) AND 0x80 \<noteq> 0" "(code_word seg q XOR 0x7F) AND 0x80 = 0"
proof -
  have "\<not> bit (code_word seg q) 7" using unat_code [OF assms] assms by (simp add: top_bit [symmetric])
  then have "bit (code_word seg q XOR 0xD5) 7" "\<not> bit (code_word seg q XOR 0x55) 7" "bit (code_word seg q XOR 0xFF) 7" "\<not> bit (code_word seg q XOR 0x7F) 7"
    by (simp_all add: bit_xor_iff)
  then show "(code_word seg q XOR 0xD5) AND 0x80 \<noteq> 0" "(code_word seg q XOR 0x55) AND 0x80 = 0"
    "(code_word seg q XOR 0xFF) AND 0x80 \<noteq> 0" "(code_word seg q XOR 0x7F) AND 0x80 = 0"
    using field_sign top_bit by blast+
qed

text \<open>Every index is inside the tables, and the conversions change a value by little.\<close>

lemma code_of_nat: "n < 128 \<Longrightarrow> code_word (n div 16) (n mod 16) = word_of_nat n" "n < 128 \<Longrightarrow> n div 16 < 8" for n :: nat
  by (simp_all add: code_word_def less_mult_imp_div_less)

lemma code_index:
  assumes "seg < 8" "q < 16" "length xs = 128"
  shows "array_get xs (uint ((code_word seg q XOR m) XOR m)) = Some (xs ! (16 * seg + q))"
    and "array_get xs (uint (m XOR (code_word seg q XOR m))) = Some (xs ! (16 * seg + q))"
proof -
  have x: "(code_word seg q XOR m) XOR m = code_word seg q" "m XOR (code_word seg q XOR m) = code_word seg q"
    by (simp add: xor.assoc, metis xor.assoc xor.commute xor_self_eq xor.right_neutral)
  have "uint (code_word seg q) = int (16 * seg + q)" using unat_code [OF assms(1,2)] by (simp add: uint_nat)
  then show "array_get xs (uint ((code_word seg q XOR m) XOR m)) = Some (xs ! (16 * seg + q))"
    "array_get xs (uint (m XOR (code_word seg q XOR m))) = Some (xs ! (16 * seg + q))"
    unfolding x using assms by (simp_all add: array_get_def nat_add_distrib nat_mult_distrib)
qed

lemma alaw2ulaw_close:
  "\<exists>u. alaw2ulaw a = Some u \<and> 33 * \<bar>ulaw2linear u - alaw2linear a\<bar> \<le> \<bar>alaw2linear a\<bar> + 132"
proof -
  have len: "length a2u = 128" by (simp add: a2u_def)
  have *: "\<exists>u. alaw2ulaw a = Some u \<and> 33 * \<bar>ulaw2linear u - alaw2linear a\<bar> \<le> \<bar>alaw2linear a\<bar> + 132"
    if "seg < 8" "q < 16" "a = code_word seg q XOR m" "m = 0xD5 \<or> m = 0x55" for seg q m
  proof -
    define n where "n = 16 * seg + q"
    define k where "k = unat (a2u ! n)"
    have n: "n < 128" "n div 16 = seg" "n mod 16 = q" using that(1,2) by (simp_all add: n_def)
    have "a2u_close n" using a2u_all_close n(1) by (simp add: list_all_iff)
    then have c: "k < 128" "33 * \<bar>ulaw_lin k - alaw_lin n\<bar> \<le> alaw_lin n + 132" by (simp_all add: a2u_close_def k_def)
    have al: "alaw_lin n = alaw_mag seg q" by (simp add: alaw_lin_def n)
    have v: "a2u ! n = code_word (k div 16) (k mod 16)" using code_of_nat(1) [OF c(1)] by (simp add: k_def)
    note u = ulaw2linear_code [OF code_of_nat(2) [OF c(1)], of "k mod 16", folded ulaw_lin_def v] and b = alaw_mag_bounds [OF that(1,2)]
    show ?thesis using that(4)
    proof
      assume m: "m = 0xD5"
      have "alaw2ulaw a = Some (0xFF XOR a2u ! n)"
        unfolding alaw2ulaw_def that(3) m using code_sign(1) [OF that(1,2)] code_index(1) [OF that(1,2) len] by (simp add: n_def)
      then show ?thesis using c(2) u(1) b alaw2linear_code(1) [OF that(1,2)] unfolding that(3) m al by (simp add: xor.commute)
    next
      assume m: "m = 0x55"
      have "alaw2ulaw a = Some (0x7F XOR a2u ! n)"
        unfolding alaw2ulaw_def that(3) m using code_sign(2) [OF that(1,2)] code_index(1) [OF that(1,2) len] by (simp add: n_def)
      then show ?thesis using c(2) u(2) b alaw2linear_code(2) [OF that(1,2)] unfolding that(3) m al by (simp add: xor.commute abs_minus_commute)
    qed
  qed
  show ?thesis by (cases a rule: code_cases) (use * in blast)+
qed

lemma ulaw2alaw_close:
  "\<exists>a. ulaw2alaw u = Some a \<and> 33 * \<bar>alaw2linear a - ulaw2linear u\<bar> \<le> 2 * (\<bar>ulaw2linear u\<bar> + 132)"
proof -
  have len: "length u2a = 128" by (simp add: u2a_def)
  have *: "\<exists>a. ulaw2alaw u = Some a \<and> 33 * \<bar>alaw2linear a - ulaw2linear u\<bar> \<le> 2 * (\<bar>ulaw2linear u\<bar> + 132)"
    if "seg < 8" "q < 16" "u = code_word seg q XOR m" "m = 0xFF \<or> m = 0x7F" for seg q m
  proof -
    define n where "n = 16 * seg + q"
    define k where "k = unat (u2a ! n - 1)"
    have n: "n < 128" "n div 16 = seg" "n mod 16 = q" using that(1,2) by (simp_all add: n_def)
    have "u2a_close n" using u2a_all_close n(1) by (simp add: list_all_iff)
    then have c: "k < 128" "33 * \<bar>alaw_lin k - ulaw_lin n\<bar> \<le> 2 * (ulaw_lin n + 132)" by (simp_all add: u2a_close_def k_def)
    have ul: "ulaw_lin n = ulaw_mag seg q" by (simp add: ulaw_lin_def n)
    have v: "u2a ! n - 1 = code_word (k div 16) (k mod 16)" using code_of_nat(1) [OF c(1)] by (simp add: k_def)
    note a = alaw2linear_code [OF code_of_nat(2) [OF c(1)], of "k mod 16", folded alaw_lin_def v] and b = ulaw_mag_bounds [OF that(1,2)]
    show ?thesis using that(4)
    proof
      assume m: "m = 0xFF"
      have "ulaw2alaw u = Some (0xD5 XOR (u2a ! n - 1))"
        unfolding ulaw2alaw_def that(3) m using code_sign(3) [OF that(1,2)] code_index(2) [OF that(1,2) len] by (simp add: n_def)
      then show ?thesis using c(2) a(1) b ulaw2linear_code(1) [OF that(1,2)] unfolding that(3) m ul by (simp add: xor.commute)
    next
      assume m: "m = 0x7F"
      have "ulaw2alaw u = Some (0x55 XOR (u2a ! n - 1))"
        unfolding ulaw2alaw_def that(3) m using code_sign(4) [OF that(1,2)] code_index(2) [OF that(1,2) len] by (simp add: n_def)
      then show ?thesis using c(2) a(2) b ulaw2linear_code(2) [OF that(1,2)] unfolding that(3) m ul by (simp add: xor.commute abs_minus_commute)
    qed
  qed
  show ?thesis by (cases u rule: ucode_cases) (use * in blast)+
qed

section \<open>A companding law\<close>

text \<open>What the buffers rely on: samples of 16 bits, a code word for each sample near to it, and a code word
  that comes back (in its canonical form) from the sample it stands for.\<close>

definition sample :: "int \<Rightarrow> bool" where
  "sample x \<longleftrightarrow> - 32768 \<le> x \<and> x < 32768"

locale companding =
  fixes encode :: "int \<Rightarrow> byte" and decode :: "byte \<Rightarrow> int" and canon :: "byte \<Rightarrow> byte" and near :: "int \<Rightarrow> int \<Rightarrow> bool"
  assumes decode_sample: "sample (decode c)"
    and encode_decode: "encode (decode c) = canon c"
    and decode_near: "sample x \<Longrightarrow> near x (decode (encode x))"

definition alaw_near :: "int \<Rightarrow> int \<Rightarrow> bool" where
  "alaw_near x y \<longleftrightarrow> 32 * \<bar>y - x\<bar> \<le> max 256 \<bar>x\<bar>"

definition ulaw_near :: "int \<Rightarrow> int \<Rightarrow> bool" where
  "ulaw_near x y \<longleftrightarrow> 32 * \<bar>y - x\<bar> \<le> \<bar>x\<bar> + 231"

definition ulaw_canon :: "byte \<Rightarrow> byte" where
  "ulaw_canon u = (if u = 0x7F then 0xFF else u)"

interpretation alaw: companding linear2alaw alaw2linear "\<lambda>a. a" alaw_near
proof
  show "sample (alaw2linear a)" for a
    by (cases a rule: code_cases) (use alaw2linear_code alaw_mag_bounds in \<open>force simp: sample_def\<close>)+
qed (simp_all add: alaw_code_value alaw_near_def alaw_error sample_def)

interpretation ulaw: companding linear2ulaw ulaw2linear ulaw_canon ulaw_near
proof
  show "sample (ulaw2linear u)" for u
    by (cases u rule: ucode_cases) (use ulaw2linear_code ulaw_mag_bounds in \<open>force simp: sample_def\<close>)+
qed (simp_all add: ulaw_code_value ulaw_near_def ulaw_error sample_def ulaw_canon_def)

text \<open>Transcoding with the tables of the recommendation reads inside the tables for every code word, and
  the value of the new code word is near to the value of the old one: within 1/33 of the biased
  magnitude from the A-law to the mu-law, and within 2/33 of it the other way.\<close>

theorem transcoding_error:
  "(\<exists>u. alaw2ulaw a = Some u \<and> 33 * \<bar>ulaw2linear u - alaw2linear a\<bar> \<le> \<bar>alaw2linear a\<bar> + 132) \<and>
   (\<exists>c. ulaw2alaw a = Some c \<and> 33 * \<bar>alaw2linear c - ulaw2linear a\<bar> \<le> 2 * (\<bar>ulaw2linear a\<bar> + 132))"
  using alaw2ulaw_close ulaw2alaw_close by blast

end
