(* ===== verification/G711_Table.thy ===== *)
theory G711_Table
  imports G711
begin

text \<open>
  The table driven G.711 codec (src/codec/g711/g711_table.c): the four global tables, their
  initialisation from the conversions of g711.c, and the conversion of whole buffers.  A buffer of
  samples is read and written through a pointer to \<open>unsigned short\<close>, little end first.
\<close>

record g711_tables =
  linear_to_alaw :: bytes
  linear_to_ulaw :: bytes
  alaw_to_linear :: "int list"
  ulaw_to_linear :: "int list"

text \<open>Static storage is zero at the start.\<close>

definition g711_tables0 :: g711_tables where
  "g711_tables0 = \<lparr>linear_to_alaw = replicate 65536 0, linear_to_ulaw = replicate 65536 0,
     alaw_to_linear = replicate 256 0, ulaw_to_linear = replicate 256 0\<rparr>"

definition build_linear_to_xlaw_table :: "bytes \<Rightarrow> (int \<Rightarrow> byte) \<Rightarrow> bytes" where
  "build_linear_to_xlaw_table linear_to_xlaw linear2xlaw =
     fold (\<lambda>i t. t[i := linear2xlaw (short (int i))]) [0..<65536] linear_to_xlaw"

definition build_xlaw_to_linear_table :: "int list \<Rightarrow> (byte \<Rightarrow> int) \<Rightarrow> int list" where
  "build_xlaw_to_linear_table xlaw_to_linear xlaw2linear =
     fold (\<lambda>i t. t[i := u16 (xlaw2linear (word_of_nat i))]) [0..<256] xlaw_to_linear"

definition peek_u16 :: "bytes \<Rightarrow> int \<Rightarrow> int ub" where
  "peek_u16 buf i = do { lo \<leftarrow> peek buf i; hi \<leftarrow> peek buf (i + 1); Some (uint lo + 256 * uint hi) }"

definition le16 :: "int \<Rightarrow> bytes" where
  "le16 s = [word_of_int s, word_of_int (s div 256)]"

text \<open>\<open>pcm16_to_xlaw_loop tbl i n\<close> is the loop from index \<open>i\<close> on, with \<open>n\<close> rounds to go.\<close>

fun pcm16_to_xlaw_loop :: "bytes \<Rightarrow> nat \<Rightarrow> nat \<Rightarrow> bytes \<Rightarrow> bytes \<Rightarrow> bytes ub" where
  "pcm16_to_xlaw_loop linear_to_xlaw i 0 src dst = Some dst"
| "pcm16_to_xlaw_loop linear_to_xlaw i (Suc n) src dst =
     do { s \<leftarrow> peek_u16 src (2 * int i);
          v \<leftarrow> array_get linear_to_xlaw s;
          dst \<leftarrow> store dst (int i) [v];
          pcm16_to_xlaw_loop linear_to_xlaw (Suc i) n src dst }"

definition pcm16_to_xlaw :: "bytes \<Rightarrow> int \<Rightarrow> bytes \<Rightarrow> bytes \<Rightarrow> bytes ub" where
  "pcm16_to_xlaw linear_to_xlaw src_length src dst = pcm16_to_xlaw_loop linear_to_xlaw 0 (nat (c_div src_length 2)) src dst"

fun xlaw_to_pcm16_loop :: "int list \<Rightarrow> nat \<Rightarrow> nat \<Rightarrow> bytes \<Rightarrow> bytes \<Rightarrow> bytes ub" where
  "xlaw_to_pcm16_loop xlaw_to_linear i 0 src dst = Some dst"
| "xlaw_to_pcm16_loop xlaw_to_linear i (Suc n) src dst =
     do { c \<leftarrow> peek src (int i);
          v \<leftarrow> array_get xlaw_to_linear (uint c);
          dst \<leftarrow> store dst (2 * int i) (le16 v);
          xlaw_to_pcm16_loop xlaw_to_linear (Suc i) n src dst }"

definition xlaw_to_pcm16 :: "int list \<Rightarrow> int \<Rightarrow> bytes \<Rightarrow> bytes \<Rightarrow> bytes ub" where
  "xlaw_to_pcm16 xlaw_to_linear src_length src dst = xlaw_to_pcm16_loop xlaw_to_linear 0 (nat src_length) src dst"

definition pcm16_to_alaw :: "g711_tables \<Rightarrow> int \<Rightarrow> bytes \<Rightarrow> bytes \<Rightarrow> bytes ub" where
  "pcm16_to_alaw g src_length src dst = pcm16_to_xlaw (linear_to_alaw g) src_length src dst"

definition pcm16_to_ulaw :: "g711_tables \<Rightarrow> int \<Rightarrow> bytes \<Rightarrow> bytes \<Rightarrow> bytes ub" where
  "pcm16_to_ulaw g src_length src dst = pcm16_to_xlaw (linear_to_ulaw g) src_length src dst"

definition alaw_to_pcm16 :: "g711_tables \<Rightarrow> int \<Rightarrow> bytes \<Rightarrow> bytes \<Rightarrow> bytes ub" where
  "alaw_to_pcm16 g src_length src dst = xlaw_to_pcm16 (alaw_to_linear g) src_length src dst"

definition ulaw_to_pcm16 :: "g711_tables \<Rightarrow> int \<Rightarrow> bytes \<Rightarrow> bytes \<Rightarrow> bytes ub" where
  "ulaw_to_pcm16 g src_length src dst = xlaw_to_pcm16 (ulaw_to_linear g) src_length src dst"

definition pcm16_alaw_tableinit :: "g711_tables \<Rightarrow> g711_tables" where
  "pcm16_alaw_tableinit g = g\<lparr>linear_to_alaw := build_linear_to_xlaw_table (linear_to_alaw g) linear2alaw\<rparr>"

definition pcm16_ulaw_tableinit :: "g711_tables \<Rightarrow> g711_tables" where
  "pcm16_ulaw_tableinit g = g\<lparr>linear_to_ulaw := build_linear_to_xlaw_table (linear_to_ulaw g) linear2ulaw\<rparr>"

definition alaw_pcm16_tableinit :: "g711_tables \<Rightarrow> g711_tables" where
  "alaw_pcm16_tableinit g = g\<lparr>alaw_to_linear := build_xlaw_to_linear_table (alaw_to_linear g) alaw2linear\<rparr>"

definition ulaw_pcm16_tableinit :: "g711_tables \<Rightarrow> g711_tables" where
  "ulaw_pcm16_tableinit g = g\<lparr>ulaw_to_linear := build_xlaw_to_linear_table (ulaw_to_linear g) ulaw2linear\<rparr>"

section \<open>What the tables hold\<close>

lemma fold_update:
  assumes "n \<le> length t"
  shows "fold (\<lambda>i t. t[i := f i]) [0..<n] t = map f [0..<n] @ drop n t"
  using assms
proof (induction n)
  case (Suc n)
  then have "drop n t = t ! n # drop (Suc n) t" by (simp add: Cons_nth_drop_Suc)
  then show ?case using Suc by (simp add: list_update_append)
qed simp

lemma linear_table:
  "length t = 65536 \<Longrightarrow> build_linear_to_xlaw_table t f = map (\<lambda>i. f (short (int i))) [0..<65536]"
  unfolding build_linear_to_xlaw_table_def by (subst fold_update) simp_all

lemma xlaw_table:
  "length t = 256 \<Longrightarrow> build_xlaw_to_linear_table t f = map (\<lambda>i. u16 (f (word_of_nat i))) [0..<256]"
  unfolding build_xlaw_to_linear_table_def by (subst fold_update) simp_all

lemma linear_table_get:
  assumes "length t = 65536"
  shows "array_get (build_linear_to_xlaw_table t f) (u16 x) = Some (f (short x))"
proof -
  have b: "0 \<le> u16 x" "u16 x < 65536" by (simp_all add: u16_def take_bit_eq_mod)
  have "short (u16 x) = short x" by (simp add: u16_def short_def signed_take_bit_take_bit)
  then show ?thesis using b by (simp add: linear_table [OF assms] array_get_def nat_less_iff)
qed

lemma xlaw_table_get:
  assumes "length t = 256"
  shows "array_get (build_xlaw_to_linear_table t f) (uint c) = Some (u16 (f c))"
proof -
  have "uint c < 256" "unat c < 256"
    using unsigned_less [of c, where ?'a = int] unsigned_less [of c, where ?'a = nat] by simp_all
  then show ?thesis by (simp add: xlaw_table [OF assms] array_get_def nat_less_iff)
qed

section \<open>Whole buffers\<close>

lemma le16_bytes: "uint (word_of_int (u16 x) :: byte) + 256 * uint (word_of_int (u16 x div 256) :: byte) = u16 x"
proof -
  have "0 \<le> u16 x" "u16 x < 65536" by (simp_all add: u16_def take_bit_eq_mod)
  then show ?thesis by (simp add: uint_word_of_int mod_pos_pos_trivial [of "u16 x div 256"] add.commute)
qed

lemma peek_u16_le16: "peek_u16 (p @ le16 (u16 x) @ r) (int (length p)) = Some (u16 x)"
  using le16_bytes [of x] by (simp add: peek_u16_def le16_def peek_def nth_append nat_add_distrib)

lemma length_le16: "length (le16 s) = 2"
  by (simp add: le16_def)

lemma encode_loop:
  assumes "length tbl = 65536" "length p = 2 * i" "length d = i" "length e = length xs"
  shows "pcm16_to_xlaw_loop (build_linear_to_xlaw_table tbl f) i (length xs) (p @ concat (map (\<lambda>x. le16 (u16 x)) xs) @ r) (d @ e @ t)
         = Some (d @ map (\<lambda>x. f (short x)) xs @ t)"
  using assms(2-)
proof (induction xs arbitrary: i p d e)
  case (Cons x xs)
  obtain c e' where e: "e = c # e'" using Cons.prems by (cases e) simp_all
  have "int (length p) = 2 * int i" using Cons.prems by simp
  then have r: "peek_u16 (p @ le16 (u16 x) @ q) (2 * int i) = Some (u16 x)" for q using peek_u16_le16 [of p x q] by simp
  have s: "store (d @ c # e' @ t) (int i) [v] = Some (d @ v # e' @ t)" for v
    using Cons.prems store_after [of d "int i" "[v]" "c # e' @ t"] by simp
  show ?case
    using Cons.IH [of "p @ le16 (u16 x)" "Suc i" "d @ [f (short x)]" e'] Cons.prems
    by (simp add: e r s linear_table_get [OF assms(1)] length_le16)
qed simp

lemma decode_loop:
  assumes "length tbl = 256" "length p = i" "length d = 2 * i" "length e = 2 * length cs"
  shows "xlaw_to_pcm16_loop (build_xlaw_to_linear_table tbl f) i (length cs) (p @ cs @ r) (d @ e @ t)
         = Some (d @ concat (map (\<lambda>c. le16 (u16 (f c))) cs) @ t)"
  using assms(2-)
proof (induction cs arbitrary: i p d e)
  case (Cons c cs)
  obtain x y e' where e: "e = x # y # e'" using Cons.prems by (cases e; cases "tl e") simp_all
  have r: "peek (p @ c # cs @ r) (int i) = Some c" using Cons.prems by (auto simp: peek_def)
  have s: "store (d @ x # y # e' @ t) (2 * int i) (le16 v) = Some (d @ le16 v @ e' @ t)" for v
    using Cons.prems store_after [of d "2 * int i" "le16 v" "x # y # e' @ t"] by (simp add: le16_def nat_mult_distrib)
  show ?case
    using Cons.IH [of "p @ [c]" "Suc i" "d @ le16 (u16 (f c))" e'] Cons.prems
    by (simp add: e r s xlaw_table_get [OF assms(1)] length_le16)
qed simp

definition samples :: "int list \<Rightarrow> bytes" where
  "samples xs = concat (map (\<lambda>x. le16 (u16 x)) xs)"

lemma length_samples: "length (samples xs) = 2 * length xs"
  by (induction xs) (simp_all add: samples_def length_le16)

lemma encode_buffer:
  assumes "length tbl = 65536" "length xs \<le> length dst" "c_div n 2 = int (length xs)"
  shows "pcm16_to_xlaw (build_linear_to_xlaw_table tbl f) n (samples xs @ r) dst
         = Some (map (\<lambda>x. f (short x)) xs @ drop (length xs) dst)"
  using encode_loop [OF assms(1), of "[]" 0 "[]" "take (length xs) dst" xs f r "drop (length xs) dst"] assms
  by (simp add: pcm16_to_xlaw_def samples_def)

lemma decode_buffer:
  assumes "length tbl = 256" "2 * length cs \<le> length dst"
  shows "xlaw_to_pcm16 (build_xlaw_to_linear_table tbl f) (int (length cs)) (cs @ r) dst
         = Some (samples (map f cs) @ drop (2 * length cs) dst)"
  using decode_loop [OF assms(1), of "[]" 0 "[]" "take (2 * length cs) dst" cs f r "drop (2 * length cs) dst"] assms
  by (simp add: xlaw_to_pcm16_def samples_def comp_def)

lemma even_count: "c_div (2 * int n) 2 = int n"
  using c_div_nonneg [of "2 * int n" 2] by simp

context companding
begin

lemma decode_encode_buffer:
  assumes "length t = 256" "length t' = 65536" "2 * length cs \<le> length dst" "length cs \<le> length out"
  shows "\<exists>pcm. xlaw_to_pcm16 (build_xlaw_to_linear_table t decode) (int (length cs)) cs dst = Some pcm \<and> length pcm = length dst \<and>
           pcm16_to_xlaw (build_linear_to_xlaw_table t' encode) (2 * int (length cs)) pcm out = Some (map canon cs @ drop (length cs) out)"
proof -
  have "encode (short (decode c)) = canon c" for c
    using decode_sample [of c] by (simp add: sample_def short_id encode_decode)
  then show ?thesis
    using decode_buffer [OF assms(1,3), of decode "[]"] encode_buffer [OF assms(2), of "map decode cs" out "2 * int (length cs)" encode]
      assms(3,4) by (simp add: even_count length_samples comp_def)
qed

lemma encode_decode_buffer:
  assumes "length t = 256" "length t' = 65536" "length xs \<le> length dst" "2 * length xs \<le> length out" "list_all sample xs"
  shows "\<exists>codes ys. pcm16_to_xlaw (build_linear_to_xlaw_table t' encode) (2 * int (length xs)) (samples xs) dst = Some (codes @ drop (length xs) dst) \<and>
           xlaw_to_pcm16 (build_xlaw_to_linear_table t decode) (int (length xs)) codes out = Some (samples ys @ drop (2 * length xs) out) \<and>
           list_all2 near xs ys"
proof -
  let ?codes = "map (\<lambda>x. encode (short x)) xs"
  have "list_all2 near xs (map decode ?codes)"
    using assms(5) by (auto simp: list_all2_conv_all_nth list_all_iff sample_def short_id intro!: decode_near)
  moreover have "pcm16_to_xlaw (build_linear_to_xlaw_table t' encode) (2 * int (length xs)) (samples xs) dst = Some (?codes @ drop (length xs) dst)"
    using encode_buffer [OF assms(2,3), of "2 * int (length xs)" encode "[]"] by (simp add: even_count)
  moreover have "xlaw_to_pcm16 (build_xlaw_to_linear_table t decode) (int (length xs)) ?codes out = Some (samples (map decode ?codes) @ drop (2 * length xs) out)"
    using decode_buffer [OF assms(1), of ?codes out decode "[]"] assms(4) by simp
  ultimately show ?thesis by blast
qed

end

definition g711_ready :: g711_tables where
  "g711_ready = ulaw_pcm16_tableinit (alaw_pcm16_tableinit (pcm16_ulaw_tableinit (pcm16_alaw_tableinit g711_tables0)))"

lemma g711_ready_tables:
  "linear_to_alaw g711_ready = build_linear_to_xlaw_table (replicate 65536 0) linear2alaw"
  "linear_to_ulaw g711_ready = build_linear_to_xlaw_table (replicate 65536 0) linear2ulaw"
  "alaw_to_linear g711_ready = build_xlaw_to_linear_table (replicate 256 0) alaw2linear"
  "ulaw_to_linear g711_ready = build_xlaw_to_linear_table (replicate 256 0) ulaw2linear"
  unfolding g711_ready_def ulaw_pcm16_tableinit_def alaw_pcm16_tableinit_def pcm16_ulaw_tableinit_def pcm16_alaw_tableinit_def g711_tables0_def
  by simp_all

lemmas g711_defs = pcm16_to_alaw_def pcm16_to_ulaw_def alaw_to_pcm16_def ulaw_to_pcm16_def g711_ready_tables

text \<open>C38. With the tables initialised, a buffer of code words that is expanded to samples and
  compressed again comes back: byte for byte with the A-law, and with the mu-law but for its second
  code of zero (0x7F), which becomes the first (0xFF).  Nothing is written past the end of the result.\<close>

theorem g711_buffer_roundtrip:
  assumes "2 * length cs \<le> length dst" "length cs \<le> length out"
  shows "(\<exists>pcm. alaw_to_pcm16 g711_ready (int (length cs)) cs dst = Some pcm \<and> length pcm = length dst \<and>
            pcm16_to_alaw g711_ready (2 * int (length cs)) pcm out = Some (cs @ drop (length cs) out)) \<and>
         (\<exists>pcm. ulaw_to_pcm16 g711_ready (int (length cs)) cs dst = Some pcm \<and> length pcm = length dst \<and>
            pcm16_to_ulaw g711_ready (2 * int (length cs)) pcm out = Some (map ulaw_canon cs @ drop (length cs) out))"
  unfolding g711_defs
  using alaw.decode_encode_buffer [of "replicate 256 0" "replicate 65536 0" cs dst out]
    ulaw.decode_encode_buffer [of "replicate 256 0" "replicate 65536 0" cs dst out] assms
  by (simp del: replicate.simps)

theorem g711_buffer_roundtrip_witness:
  "(\<exists>pcm. alaw_to_pcm16 g711_ready 2 [0x12, 0x7F] (replicate 5 0) = Some pcm \<and> length pcm = 5 \<and>
      pcm16_to_alaw g711_ready 4 pcm [1, 2, 3] = Some [0x12, 0x7F, 3]) \<and>
   (\<exists>pcm. ulaw_to_pcm16 g711_ready 2 [0x12, 0x7F] (replicate 5 0) = Some pcm \<and> length pcm = 5 \<and>
      pcm16_to_ulaw g711_ready 4 pcm [1, 2, 3] = Some [0x12, 0xFF, 3])"
  using g711_buffer_roundtrip [of "[0x12, 0x7F]" "replicate 5 0" "[1, 2, 3]"] by (simp add: ulaw_canon_def)

text \<open>Samples that are compressed and expanded again are near to the originals, each at its place: the
  A-law is off by at most 1/32 of the sample (8 for small samples), the mu-law by at most 1/32 of the sample
  with its bias, clipping included.\<close>

theorem g711_buffer_error:
  assumes "list_all sample xs" "length xs \<le> length dst" "2 * length xs \<le> length out"
  shows "(\<exists>codes ys. pcm16_to_alaw g711_ready (2 * int (length xs)) (samples xs) dst = Some (codes @ drop (length xs) dst) \<and>
            alaw_to_pcm16 g711_ready (int (length xs)) codes out = Some (samples ys @ drop (2 * length xs) out) \<and>
            list_all2 (\<lambda>x y. 32 * \<bar>y - x\<bar> \<le> max 256 \<bar>x\<bar>) xs ys) \<and>
         (\<exists>codes ys. pcm16_to_ulaw g711_ready (2 * int (length xs)) (samples xs) dst = Some (codes @ drop (length xs) dst) \<and>
            ulaw_to_pcm16 g711_ready (int (length xs)) codes out = Some (samples ys @ drop (2 * length xs) out) \<and>
            list_all2 (\<lambda>x y. 32 * \<bar>y - x\<bar> \<le> \<bar>x\<bar> + 231) xs ys)"
  unfolding g711_defs
  using alaw.encode_decode_buffer [of "replicate 256 0" "replicate 65536 0" xs dst out]
    ulaw.encode_decode_buffer [of "replicate 256 0" "replicate 65536 0" xs dst out] assms
  by (simp add: alaw_near_def ulaw_near_def [abs_def] alaw_near_def [abs_def] del: replicate.simps)

theorem g711_buffer_error_witness:
  "list_all sample [1000, - 32768] \<and>
   (\<exists>codes ys. pcm16_to_alaw g711_ready 4 (samples [1000, - 32768]) [0, 0] = Some codes \<and>
      alaw_to_pcm16 g711_ready 2 codes [0, 0, 0, 0] = Some (samples ys) \<and>
      list_all2 (\<lambda>x y. 32 * \<bar>y - x\<bar> \<le> max 256 \<bar>x\<bar>) [1000, - 32768] ys)"
  using g711_buffer_error [of "[1000, - 32768]" "[0, 0]" "[0, 0, 0, 0]"] by (auto simp: sample_def)

end
