(* ===== verification/Rtmp_Amf.thy ===== *)
theory Rtmp_Amf
  imports Mpeg_Buffer
begin

text \<open>
  The action message format of librtmp (src/protocol/rtmp/rtmpdump-master/librtmp/amf.c, amf.h): its data,
  the encoder, and the parts of the decoder that do not recurse.

  A pointer into a buffer is an offset.  The bytes a string points to are kept with the pointer; a double
  is its bit pattern; an object is the list of its properties.  Members of the union \<open>p_vu\<close> are
  alternatives, and reading another member than the one that was stored is undefined; \<open>P_zero\<close> is the
  union of a static object, all of whose members are zero.
\<close>

section \<open>Data (amf.h)\<close>

datatype AMFDataType =
  AMF_NUMBER | AMF_BOOLEAN | AMF_STRING | AMF_OBJECT | AMF_MOVIECLIP | AMF_NULL | AMF_UNDEFINED
| AMF_REFERENCE | AMF_ECMA_ARRAY | AMF_OBJECT_END | AMF_STRICT_ARRAY | AMF_DATE | AMF_LONG_STRING
| AMF_UNSUPPORTED | AMF_RECORDSET | AMF_XML_DOC | AMF_TYPED_OBJECT | AMF_AVMPLUS | AMF_INVALID
| AMF_OTHER int

text \<open>The values of the enumeration.  A value without a name is \<open>AMF_OTHER\<close>.\<close>

fun type_code :: "AMFDataType \<Rightarrow> int" where
  "type_code AMF_NUMBER = 0" | "type_code AMF_BOOLEAN = 1" | "type_code AMF_STRING = 2"
| "type_code AMF_OBJECT = 3" | "type_code AMF_MOVIECLIP = 4" | "type_code AMF_NULL = 5"
| "type_code AMF_UNDEFINED = 6" | "type_code AMF_REFERENCE = 7" | "type_code AMF_ECMA_ARRAY = 8"
| "type_code AMF_OBJECT_END = 9" | "type_code AMF_STRICT_ARRAY = 10" | "type_code AMF_DATE = 11"
| "type_code AMF_LONG_STRING = 12" | "type_code AMF_UNSUPPORTED = 13" | "type_code AMF_RECORDSET = 14"
| "type_code AMF_XML_DOC = 15" | "type_code AMF_TYPED_OBJECT = 16" | "type_code AMF_AVMPLUS = 17"
| "type_code AMF_INVALID = 255" | "type_code (AMF_OTHER n) = n"

definition named_types :: "AMFDataType list" where
  "named_types =
     [AMF_NUMBER, AMF_BOOLEAN, AMF_STRING, AMF_OBJECT, AMF_MOVIECLIP, AMF_NULL, AMF_UNDEFINED,
      AMF_REFERENCE, AMF_ECMA_ARRAY, AMF_OBJECT_END, AMF_STRICT_ARRAY, AMF_DATE, AMF_LONG_STRING,
      AMF_UNSUPPORTED, AMF_RECORDSET, AMF_XML_DOC, AMF_TYPED_OBJECT, AMF_AVMPLUS]"

definition amf_type :: "int \<Rightarrow> AMFDataType" where
  "amf_type n =
     (if 0 \<le> n \<and> n < 18 then named_types ! nat n else if n = 255 then AMF_INVALID else AMF_OTHER n)"

record AVal =
  av_val :: "(bytes \<times> int) option"
  av_len :: int

datatype AMFObjectProperty =
  AMFObjectProperty (p_name: AVal) (p_type: AMFDataType) (p_vu: amf_vu) (p_UTCoffset: int)
and amf_vu = P_none | P_zero | P_number "64 word" | P_aval AVal | P_object "AMFObjectProperty list"

type_synonym AMFObject = "AMFObjectProperty list"

definition AV_empty :: AVal where
  "AV_empty = \<lparr>av_val = None, av_len = 0\<rparr>"

definition AMFProp_Invalid :: AMFObjectProperty where
  "AMFProp_Invalid = AMFObjectProperty AV_empty AMF_INVALID P_zero 0"

text \<open>The bytes of a string, as \<open>memcpy\<close> and \<open>memcmp\<close> read them.\<close>

definition aval_bytes :: "AVal \<Rightarrow> bytes ub" where
  "aval_bytes s =
     (if av_len s = 0 then Some []
      else do { (buf, i) \<leftarrow> deref (av_val s); slice buf i (av_len s) })"

text \<open>A double as it is in memory, least significant byte first.\<close>

definition double_bytes :: "64 word \<Rightarrow> bytes" where
  "double_bytes d = map (\<lambda>j. ucast (drop_bit (8 * j) d)) [0..<8]"

definition bytes_double :: "bytes \<Rightarrow> 64 word" where
  "bytes_double bs = foldr (\<lambda>b d. push_bit 8 d OR ucast b) bs 0"

definition double_nonzero :: "64 word \<Rightarrow> bool" where
  \<comment> \<open>\<open>d != 0\<close>; there are two zeroes\<close>
  "double_nonzero d \<longleftrightarrow> d AND mask 63 \<noteq> 0"

fun bit_log :: "nat \<Rightarrow> nat" where
  "bit_log n = (if n < 2 then 0 else Suc (bit_log (n div 2)))"

declare bit_log.simps [simp del]

definition double_of_int :: "int \<Rightarrow> 64 word" where
  \<comment> \<open>\<open>(double) n\<close> for a number of at most 53 bits\<close>
  "double_of_int n =
     (if n = 0 then 0
      else let m = nat \<bar>n\<bar>; e = bit_log m
           in (if n < 0 then push_bit 63 1 else 0) OR push_bit 52 (word_of_nat (1023 + e))
              OR push_bit (52 - e) (word_of_nat (m - 2 ^ e)))"

section \<open>Decoding of numbers and strings\<close>

definition AMF_DecodeInt16 :: "bytes \<Rightarrow> int \<Rightarrow> int ub" where
  "AMF_DecodeInt16 buf i = do {
     c0 \<leftarrow> peek buf i; c1 \<leftarrow> peek buf (i + 1);
     Some (push_bit 8 (uint c0) OR uint c1)
   }"

definition AMF_DecodeInt24 :: "bytes \<Rightarrow> int \<Rightarrow> int ub" where
  "AMF_DecodeInt24 buf i = do {
     c0 \<leftarrow> peek buf i; c1 \<leftarrow> peek buf (i + 1); c2 \<leftarrow> peek buf (i + 2);
     Some (push_bit 16 (uint c0) OR push_bit 8 (uint c1) OR uint c2)
   }"

definition AMF_DecodeInt32 :: "bytes \<Rightarrow> int \<Rightarrow> int ub" where
  "AMF_DecodeInt32 buf i = do {
     c0 \<leftarrow> peek buf i; c1 \<leftarrow> peek buf (i + 1); c2 \<leftarrow> peek buf (i + 2); c3 \<leftarrow> peek buf (i + 3);
     Some (push_bit 24 (uint c0) OR push_bit 16 (uint c1) OR push_bit 8 (uint c2) OR uint c3)
   }"

definition int32 :: "int \<Rightarrow> int" where
  "int32 x = signed_take_bit 31 x"

definition AMF_DecodeString :: "bytes \<Rightarrow> int \<Rightarrow> AVal ub" where
  "AMF_DecodeString buf i = do {
     len \<leftarrow> AMF_DecodeInt16 buf i;
     Some \<lparr>av_val = (if len > 0 then Some (buf, i + 2) else None), av_len = len\<rparr>
   }"

definition AMF_DecodeLongString :: "bytes \<Rightarrow> int \<Rightarrow> AVal ub" where
  "AMF_DecodeLongString buf i = do {
     n \<leftarrow> AMF_DecodeInt32 buf i;
     let len = int32 n;
     Some \<lparr>av_val = (if len > 0 then Some (buf, i + 4) else None), av_len = len\<rparr>
   }"

definition AMF_DecodeNumber :: "bytes \<Rightarrow> int \<Rightarrow> 64 word ub" where
  "AMF_DecodeNumber buf i = do {
     ci \<leftarrow> slice buf i 8;
     Some (bytes_double [ci ! 7, ci ! 6, ci ! 5, ci ! 4, ci ! 3, ci ! 2, ci ! 1, ci ! 0])
   }"

definition AMF_DecodeBoolean :: "bytes \<Rightarrow> int \<Rightarrow> int ub" where
  "AMF_DecodeBoolean buf i = do { c \<leftarrow> peek buf i; Some (if c \<noteq> 0 then 1 else 0) }"

section \<open>Encoding of numbers and strings\<close>

text \<open>Each function returns the new position, or NULL, and the buffer.\<close>

type_synonym out = "(int option \<times> bytes) ub"

definition AMF_EncodeInt16 :: "bytes \<Rightarrow> int \<Rightarrow> int \<Rightarrow> int \<Rightarrow> out" where
  "AMF_EncodeInt16 buf output outend nVal =
     (if output + 2 > outend then Some (None, buf)
      else do {
        buf \<leftarrow> store buf (output + 1) [word_of_int (nVal AND 0xff)];
        buf \<leftarrow> store buf output [word_of_int (drop_bit 8 nVal)];
        Some (Some (output + 2), buf)
      })"

definition AMF_EncodeInt24 :: "bytes \<Rightarrow> int \<Rightarrow> int \<Rightarrow> int \<Rightarrow> out" where
  "AMF_EncodeInt24 buf output outend nVal =
     (if output + 3 > outend then Some (None, buf)
      else do {
        buf \<leftarrow> store buf (output + 2) [word_of_int (nVal AND 0xff)];
        buf \<leftarrow> store buf (output + 1) [word_of_int (drop_bit 8 nVal)];
        buf \<leftarrow> store buf output [word_of_int (drop_bit 16 nVal)];
        Some (Some (output + 3), buf)
      })"

definition AMF_EncodeInt32 :: "bytes \<Rightarrow> int \<Rightarrow> int \<Rightarrow> int \<Rightarrow> out" where
  "AMF_EncodeInt32 buf output outend nVal =
     (if output + 4 > outend then Some (None, buf)
      else do {
        buf \<leftarrow> store buf (output + 3) [word_of_int (nVal AND 0xff)];
        buf \<leftarrow> store buf (output + 2) [word_of_int (drop_bit 8 nVal)];
        buf \<leftarrow> store buf (output + 1) [word_of_int (drop_bit 16 nVal)];
        buf \<leftarrow> store buf output [word_of_int (drop_bit 24 nVal)];
        Some (Some (output + 4), buf)
      })"

text \<open>\<open>put_type buf output t\<close> is \<open>*output++ = t\<close>; \<open>put_aval\<close> copies the bytes of a string.\<close>

definition put_type :: "bytes \<Rightarrow> int \<Rightarrow> AMFDataType \<Rightarrow> bytes ub" where
  "put_type buf output t = store buf output [word_of_int (type_code t)]"

definition put_aval :: "bytes \<Rightarrow> int \<Rightarrow> AVal \<Rightarrow> bytes ub" where
  "put_aval buf output bv = do { s \<leftarrow> aval_bytes bv; store buf output s }"

definition AMF_EncodeString :: "bytes \<Rightarrow> int \<Rightarrow> int \<Rightarrow> AVal \<Rightarrow> out" where
  "AMF_EncodeString buf output outend bv =
     (if av_len bv < 65536 \<and> output + 1 + 2 + av_len bv > outend \<or> output + 1 + 4 + av_len bv > outend
      then Some (None, buf)
      else do {
        (output, buf) \<leftarrow>
          (if av_len bv < 65536 then do {
             buf \<leftarrow> put_type buf output AMF_STRING;
             AMF_EncodeInt16 buf (output + 1) outend (short (av_len bv))
           } else do {
             buf \<leftarrow> put_type buf output AMF_LONG_STRING;
             AMF_EncodeInt32 buf (output + 1) outend (av_len bv)
           });
        output \<leftarrow> deref output;
        buf \<leftarrow> put_aval buf output bv;
        Some (Some (output + av_len bv), buf)
      })"

definition AMF_EncodeNumber :: "bytes \<Rightarrow> int \<Rightarrow> int \<Rightarrow> 64 word \<Rightarrow> out" where
  "AMF_EncodeNumber buf output outend dVal =
     (if output + 1 + 8 > outend then Some (None, buf)
      else do {
        buf \<leftarrow> put_type buf output AMF_NUMBER;
        let ci = double_bytes dVal;
        buf \<leftarrow> store buf (output + 1) [ci ! 7, ci ! 6, ci ! 5, ci ! 4, ci ! 3, ci ! 2, ci ! 1, ci ! 0];
        Some (Some (output + 9), buf)
      })"

definition AMF_EncodeBoolean :: "bytes \<Rightarrow> int \<Rightarrow> int \<Rightarrow> int \<Rightarrow> out" where
  "AMF_EncodeBoolean buf output outend bVal =
     (if output + 2 > outend then Some (None, buf)
      else do {
        buf \<leftarrow> put_type buf output AMF_BOOLEAN;
        buf \<leftarrow> store buf (output + 1) [if bVal \<noteq> 0 then 1 else 0];
        Some (Some (output + 2), buf)
      })"

text \<open>The name of a named value.\<close>

definition encode_name :: "bytes \<Rightarrow> int \<Rightarrow> int \<Rightarrow> AVal \<Rightarrow> (int \<times> bytes) ub" where
  "encode_name buf output outend strName = do {
     (output, buf) \<leftarrow> AMF_EncodeInt16 buf output outend (short (av_len strName));
     output \<leftarrow> deref output;
     buf \<leftarrow> put_aval buf output strName;
     Some (output + av_len strName, buf)
   }"

definition AMF_EncodeNamedString :: "bytes \<Rightarrow> int \<Rightarrow> int \<Rightarrow> AVal \<Rightarrow> AVal \<Rightarrow> out" where
  "AMF_EncodeNamedString buf output outend strName strValue =
     (if output + 2 + av_len strName > outend then Some (None, buf)
      else do { (output, buf) \<leftarrow> encode_name buf output outend strName; AMF_EncodeString buf output outend strValue })"

definition AMF_EncodeNamedNumber :: "bytes \<Rightarrow> int \<Rightarrow> int \<Rightarrow> AVal \<Rightarrow> 64 word \<Rightarrow> out" where
  "AMF_EncodeNamedNumber buf output outend strName dVal =
     (if output + 2 + av_len strName > outend then Some (None, buf)
      else do { (output, buf) \<leftarrow> encode_name buf output outend strName; AMF_EncodeNumber buf output outend dVal })"

definition AMF_EncodeNamedBoolean :: "bytes \<Rightarrow> int \<Rightarrow> int \<Rightarrow> AVal \<Rightarrow> int \<Rightarrow> out" where
  "AMF_EncodeNamedBoolean buf output outend strName bVal =
     (if output + 2 + av_len strName > outend then Some (None, buf)
      else do { (output, buf) \<leftarrow> encode_name buf output outend strName; AMF_EncodeBoolean buf output outend bVal })"

section \<open>Properties\<close>

definition AMFProp_GetName :: "AMFObjectProperty \<Rightarrow> AVal" where
  "AMFProp_GetName prop = p_name prop"

definition AMFProp_SetName :: "AMFObjectProperty \<Rightarrow> AVal \<Rightarrow> AMFObjectProperty" where
  "AMFProp_SetName prop name = AMFObjectProperty name (p_type prop) (p_vu prop) (p_UTCoffset prop)"

definition AMFProp_GetType :: "AMFObjectProperty \<Rightarrow> AMFDataType" where
  "AMFProp_GetType prop = p_type prop"

definition AMFProp_GetNumber :: "AMFObjectProperty \<Rightarrow> 64 word ub" where
  "AMFProp_GetNumber prop = (case p_vu prop of P_number d \<Rightarrow> Some d | P_zero \<Rightarrow> Some 0 | _ \<Rightarrow> UB)"

definition AMFProp_GetBoolean :: "AMFObjectProperty \<Rightarrow> bool ub" where
  "AMFProp_GetBoolean prop = do { d \<leftarrow> AMFProp_GetNumber prop; Some (double_nonzero d) }"

definition AMFProp_GetString :: "AMFObjectProperty \<Rightarrow> AVal ub" where
  "AMFProp_GetString prop = (case p_vu prop of P_aval s \<Rightarrow> Some s | P_zero \<Rightarrow> Some AV_empty | _ \<Rightarrow> UB)"

definition AMFProp_GetObject :: "AMFObjectProperty \<Rightarrow> AMFObject ub" where
  "AMFProp_GetObject prop = (case p_vu prop of P_object obj \<Rightarrow> Some obj | P_zero \<Rightarrow> Some [] | _ \<Rightarrow> UB)"

definition AMFProp_IsValid :: "AMFObjectProperty \<Rightarrow> bool" where
  "AMFProp_IsValid prop \<longleftrightarrow> p_type prop \<noteq> AMF_INVALID"

section \<open>Objects\<close>

definition AMF_AddProp :: "AMFObject \<Rightarrow> AMFObjectProperty \<Rightarrow> AMFObject" where
  "AMF_AddProp obj prop = obj @ [prop]"

definition AMF_CountProp :: "AMFObject \<Rightarrow> int" where
  "AMF_CountProp obj = int (length obj)"

definition AVMATCH :: "AVal \<Rightarrow> AVal \<Rightarrow> bool ub" where
  "AVMATCH a1 a2 =
     (if av_len a1 \<noteq> av_len a2 then Some False
      else do { s1 \<leftarrow> aval_bytes a1; s2 \<leftarrow> aval_bytes a2; Some (s1 = s2) })"

fun find_prop :: "AMFObject \<Rightarrow> AVal \<Rightarrow> AMFObjectProperty ub" where
  "find_prop [] name = Some AMFProp_Invalid"
| "find_prop (p # ps) name = do { b \<leftarrow> AVMATCH (p_name p) name; if b then Some p else find_prop ps name }"

definition AMF_GetProp :: "AMFObject \<Rightarrow> AVal \<Rightarrow> int \<Rightarrow> AMFObjectProperty ub" where
  "AMF_GetProp obj name nIndex =
     (if nIndex \<ge> 0 then
        if nIndex < int (length obj) then Some (obj ! nat nIndex) else Some AMFProp_Invalid
      else find_prop obj name)"

lemma object_size: "AMFProp_GetObject p = Some obj \<Longrightarrow> size_list size obj < size p"
  by (cases p) (auto simp: AMFProp_GetObject_def split: amf_vu.splits)

text \<open>\<open>AMFProp_Encode\<close> writes the name (not of a null) and the value; \<open>encode_props\<close> is the loop over the
  properties of an object, which stops at the first one that does not encode.\<close>

definition put_name :: "bytes \<Rightarrow> int \<Rightarrow> AMFObjectProperty \<Rightarrow> (int \<times> bytes) ub" where
  "put_name buf pBuffer prop =
     (if p_type prop \<noteq> AMF_NULL \<and> av_len (p_name prop) \<noteq> 0 then do {
        buf \<leftarrow> store buf pBuffer [word_of_int (drop_bit 8 (av_len (p_name prop)))];
        buf \<leftarrow> store buf (pBuffer + 1) [word_of_int (av_len (p_name prop) AND 0xff)];
        buf \<leftarrow> put_aval buf (pBuffer + 2) (p_name prop);
        Some (pBuffer + 2 + av_len (p_name prop), buf)
      } else Some (pBuffer, buf))"

function (sequential) AMFProp_Encode :: "AMFObjectProperty \<Rightarrow> bytes \<Rightarrow> int \<Rightarrow> int \<Rightarrow> out"
  and AMF_Encode :: "AMFObject \<Rightarrow> bytes \<Rightarrow> int \<Rightarrow> int \<Rightarrow> out"
  and AMF_EncodeEcmaArray :: "AMFObject \<Rightarrow> bytes \<Rightarrow> int \<Rightarrow> int \<Rightarrow> out"
  and AMF_EncodeArray :: "AMFObject \<Rightarrow> bytes \<Rightarrow> int \<Rightarrow> int \<Rightarrow> out"
  and encode_props :: "AMFObject \<Rightarrow> bytes \<Rightarrow> int \<Rightarrow> int \<Rightarrow> (int \<times> bytes) ub" where
  "AMFProp_Encode prop buf pBuffer pBufEnd =
     (if p_type prop = AMF_INVALID then Some (None, buf)
      else if p_type prop \<noteq> AMF_NULL \<and> pBuffer + av_len (p_name prop) + 2 + 1 \<ge> pBufEnd then Some (None, buf)
      else do {
        (pBuffer, buf) \<leftarrow> put_name buf pBuffer prop;
        (case p_type prop of
           AMF_NUMBER \<Rightarrow> do { d \<leftarrow> AMFProp_GetNumber prop; AMF_EncodeNumber buf pBuffer pBufEnd d }
         | AMF_BOOLEAN \<Rightarrow> do { b \<leftarrow> AMFProp_GetBoolean prop; AMF_EncodeBoolean buf pBuffer pBufEnd (if b then 1 else 0) }
         | AMF_STRING \<Rightarrow> do { s \<leftarrow> AMFProp_GetString prop; AMF_EncodeString buf pBuffer pBufEnd s }
         | AMF_NULL \<Rightarrow>
             if pBuffer + 1 \<ge> pBufEnd then Some (None, buf)
             else do { buf \<leftarrow> put_type buf pBuffer AMF_NULL; Some (Some (pBuffer + 1), buf) }
         | AMF_OBJECT \<Rightarrow> do { obj \<leftarrow> AMFProp_GetObject prop; AMF_Encode obj buf pBuffer pBufEnd }
         | AMF_ECMA_ARRAY \<Rightarrow> do { obj \<leftarrow> AMFProp_GetObject prop; AMF_EncodeEcmaArray obj buf pBuffer pBufEnd }
         | AMF_STRICT_ARRAY \<Rightarrow> do { obj \<leftarrow> AMFProp_GetObject prop; AMF_EncodeArray obj buf pBuffer pBufEnd }
         | _ \<Rightarrow> Some (None, buf))
      })"
| "AMF_Encode obj buf pBuffer pBufEnd =
     (if pBuffer + 4 \<ge> pBufEnd then Some (None, buf)
      else do {
        buf \<leftarrow> put_type buf pBuffer AMF_OBJECT;
        (pBuffer, buf) \<leftarrow> encode_props obj buf (pBuffer + 1) pBufEnd;
        if pBuffer + 3 \<ge> pBufEnd then Some (None, buf)
        else AMF_EncodeInt24 buf pBuffer pBufEnd (type_code AMF_OBJECT_END)
      })"
| "AMF_EncodeEcmaArray obj buf pBuffer pBufEnd =
     (if pBuffer + 4 \<ge> pBufEnd then Some (None, buf)
      else do {
        buf \<leftarrow> put_type buf pBuffer AMF_ECMA_ARRAY;
        (p, buf) \<leftarrow> AMF_EncodeInt32 buf (pBuffer + 1) pBufEnd (int (length obj));
        pBuffer \<leftarrow> deref p;
        (pBuffer, buf) \<leftarrow> encode_props obj buf pBuffer pBufEnd;
        if pBuffer + 3 \<ge> pBufEnd then Some (None, buf)
        else AMF_EncodeInt24 buf pBuffer pBufEnd (type_code AMF_OBJECT_END)
      })"
| "AMF_EncodeArray obj buf pBuffer pBufEnd =
     (if pBuffer + 4 \<ge> pBufEnd then Some (None, buf)
      else do {
        buf \<leftarrow> put_type buf pBuffer AMF_STRICT_ARRAY;
        (p, buf) \<leftarrow> AMF_EncodeInt32 buf (pBuffer + 1) pBufEnd (int (length obj));
        pBuffer \<leftarrow> deref p;
        (pBuffer, buf) \<leftarrow> encode_props obj buf pBuffer pBufEnd;
        Some (Some pBuffer, buf)
      })"
| "encode_props [] buf pBuffer pBufEnd = Some (pBuffer, buf)"
| "encode_props (p # ps) buf pBuffer pBufEnd = do {
     (res, buf) \<leftarrow> AMFProp_Encode p buf pBuffer pBufEnd;
     (case res of None \<Rightarrow> Some (pBuffer, buf) | Some q \<Rightarrow> encode_props ps buf q pBufEnd)
   }"
  by pat_completeness auto
termination
  by (relation "measure (\<lambda>x. case x of
        Inl (Inl (prop, _)) \<Rightarrow> 2 * size prop
      | Inl (Inr (obj, _)) \<Rightarrow> 2 * size_list size obj + 1
      | Inr (Inl (obj, _)) \<Rightarrow> 2 * size_list size obj + 1
      | Inr (Inr (Inl (obj, _))) \<Rightarrow> 2 * size_list size obj + 1
      | Inr (Inr (Inr (obj, _))) \<Rightarrow> 2 * size_list size obj)")
    (auto dest: object_size)

declare AMFProp_Encode.simps [simp del] AMF_Encode.simps [simp del]
  AMF_EncodeEcmaArray.simps [simp del] AMF_EncodeArray.simps [simp del]

end
