(* ===== verification/Rtmp_Amf_Decode.thy ===== *)
theory Rtmp_Amf_Decode
  imports Rtmp_Amf
begin

text \<open>
  The decoders of src/protocol/rtmp/rtmpdump-master/librtmp/amf.c, for AMF3 and for AMF0.

  Both are loops over properties that call each other, and the AMF3 loops may go backwards, so the
  functions take fuel: it decreases with every nested call and every round of a loop, except
  the loop over the elements of a strict array, whose count is known.  Uninitialised locals are the
  argument \<open>junk\<close>.  Messages of the log are left out, but for the reads they make.
\<close>

definition set_type :: "AMFObjectProperty \<Rightarrow> AMFDataType \<Rightarrow> AMFObjectProperty" where
  "set_type prop t = AMFObjectProperty (p_name prop) t (p_vu prop) (p_UTCoffset prop)"

definition set_vu :: "AMFObjectProperty \<Rightarrow> amf_vu \<Rightarrow> AMFObjectProperty" where
  "set_vu prop v = AMFObjectProperty (p_name prop) (p_type prop) v (p_UTCoffset prop)"

definition set_offset :: "AMFObjectProperty \<Rightarrow> int \<Rightarrow> AMFObjectProperty" where
  "set_offset prop n = AMFObjectProperty (p_name prop) (p_type prop) (p_vu prop) n"

section \<open>AMF3\<close>

text \<open>The loop over the first three bytes; \<open>data\<close> points to \<open>char\<close>, which is signed.\<close>

function amf3_int_loop :: "bytes \<Rightarrow> int \<Rightarrow> int \<Rightarrow> int \<Rightarrow> (int \<times> int) ub" where
  "amf3_int_loop buf data i val =
     (if i \<le> 2 then do {
        c \<leftarrow> peek buf (data + i);
        if c AND 0x80 \<noteq> 0 then amf3_int_loop buf data (i + 1) (push_bit 7 val OR uint (c AND 0x7f))
        else Some (i, val)
      } else Some (i, val))"
  by pat_completeness auto
termination by (relation "measure (\<lambda>(_, _, i, _). nat (3 - i))") auto

declare amf3_int_loop.simps [simp del]

definition AMF3ReadInteger :: "bytes \<Rightarrow> int \<Rightarrow> (int \<times> int) ub" where
  "AMF3ReadInteger buf data = do {
     (i, val) \<leftarrow> amf3_int_loop buf data 0 0;
     val \<leftarrow>
       (if i > 2 then do {
          c \<leftarrow> peek buf (data + 3);
          let val = push_bit 8 val OR schar c;
          Some (if val > 268435455 then val - 2 ^ 29 else val)
        } else do {
          c \<leftarrow> peek buf (data + i);
          Some (push_bit 7 val OR schar c)
        });
     Some (if i > 2 then 4 else i + 1, val)
   }"

text \<open>\<open>AMF3ReadString\<close> leaves the string alone if it is a reference: the second result is \<open>None\<close>.\<close>

definition AMF3ReadString :: "bytes \<Rightarrow> int \<Rightarrow> (int \<times> AVal option) ub" where
  "AMF3ReadString buf data = do {
     (len, ref) \<leftarrow> AMF3ReadInteger buf data;
     if ref AND 1 = 0 then Some (len, None)
     else Some (int32 (len + drop_bit 1 ref), Some \<lparr>av_val = Some (buf, data + len), av_len = drop_bit 1 ref\<rparr>)
   }"

record AMF3ClassDef =
  cd_name :: AVal
  cd_externalizable :: bool
  cd_dynamic :: bool
  cd_num :: int
  cd_props :: "AVal option list option"

definition class_def0 :: AMF3ClassDef where
  "class_def0 = \<lparr>cd_name = AV_empty, cd_externalizable = False, cd_dynamic = False, cd_num = 0, cd_props = None\<rparr>"

text \<open>Memory from \<open>realloc\<close> is uninitialised (\<open>None\<close>) behind the old contents.\<close>

definition realloc_props :: "AVal option list option \<Rightarrow> int \<Rightarrow> AVal option list" where
  "realloc_props props n =
     (let old = (case props of None \<Rightarrow> [] | Some l \<Rightarrow> l) in take (nat n) (old @ replicate (nat n - length old) None))"

definition AMF3CD_AddProp :: "AMF3ClassDef \<Rightarrow> AVal \<Rightarrow> AMF3ClassDef ub" where
  "AMF3CD_AddProp cd prop = do {
     let props = (if cd_num cd AND 0x0f = 0 then Some (realloc_props (cd_props cd) (cd_num cd + 16)) else cd_props cd);
     l \<leftarrow> deref props;
     if 0 \<le> cd_num cd \<and> cd_num cd < int (length l)
     then Some (cd\<lparr>cd_props := Some (l[nat (cd_num cd) := Some prop]), cd_num := cd_num cd + 1\<rparr>)
     else UB
   }"

definition AMF3CD_GetProp :: "AMF3ClassDef \<Rightarrow> int \<Rightarrow> AVal ub" where
  "AMF3CD_GetProp cd nIndex =
     (if nIndex \<ge> cd_num cd then Some AV_empty
      else do { l \<leftarrow> deref (cd_props cd); v \<leftarrow> array_get l nIndex; v })"

text \<open>\<open>amf3_members\<close> is the loop that reads the names of the members of a class; its bound is the field
  \<open>cd_num\<close> of the class, which \<open>AMF3CD_AddProp\<close> increments.\<close>

fun amf3_members :: "nat \<Rightarrow> AMFObjectProperty \<Rightarrow> bytes \<Rightarrow> int \<Rightarrow> AMF3ClassDef \<Rightarrow> int \<Rightarrow> int \<Rightarrow> (AMF3ClassDef \<times> int \<times> int) ub" where
  "amf3_members 0 junk buf i cd p nSize = None"
| "amf3_members (Suc n) junk buf i cd p nSize =
     (if i < cd_num cd then do {
        (len, s) \<leftarrow> AMF3ReadString buf p;
        cd \<leftarrow> AMF3CD_AddProp cd (case s of None \<Rightarrow> p_name junk | Some m \<Rightarrow> m);
        amf3_members n junk buf (i + 1) cd (p + len) (nSize - len)
      } else Some (cd, p, nSize))"

definition amf3_class :: "nat \<Rightarrow> AMFObjectProperty \<Rightarrow> bytes \<Rightarrow> int \<Rightarrow> int \<Rightarrow> int \<Rightarrow> (AMF3ClassDef \<times> int \<times> int) ub" where
  "amf3_class n junk buf classRef p nSize =
     (if classRef AND 1 = 0 then Some (class_def0, p, nSize)
      else do {
        let classExtRef = drop_bit 1 classRef;
        let cd = class_def0\<lparr>cd_externalizable := (classExtRef AND 1 = 1),
              cd_dynamic := (drop_bit 1 classExtRef AND 1 = 1), cd_num := drop_bit 2 classExtRef\<rparr>;
        (len, s) \<leftarrow> AMF3ReadString buf p;
        let cd = (case s of None \<Rightarrow> cd | Some m \<Rightarrow> cd\<lparr>cd_name := m\<rparr>);
        amf3_members n junk buf 0 cd (p + len) (nSize - len)
      })"

definition DEFAULT_ATTRIBUTE :: AVal where
  "DEFAULT_ATTRIBUTE =
     \<lparr>av_val = Some ([0x44, 0x45, 0x46, 0x41, 0x55, 0x4C, 0x54, 0x5F, 0x41, 0x54, 0x54, 0x52, 0x49, 0x42, 0x55, 0x54, 0x45, 0], 0),
      av_len = 17\<rparr>"

text \<open>The decoders of properties and of objects call each other: each takes the other one as an argument, and
  \<open>AMF3Prop_Decode\<close> and \<open>AMF3_Decode\<close> tie the knot.  The loops over the members of a class and over the
  dynamic members of an object follow.\<close>

type_synonym prop_decoder = "AMFObjectProperty \<Rightarrow> int \<Rightarrow> int \<Rightarrow> bool \<Rightarrow> (int \<times> AMFObjectProperty) ub"
type_synonym object_decoder = "int \<Rightarrow> int \<Rightarrow> (int \<times> AMFObject) ub"

fun amf3_static :: "nat \<Rightarrow> prop_decoder \<Rightarrow> AMFObjectProperty \<Rightarrow> int \<Rightarrow> AMF3ClassDef \<Rightarrow> int \<Rightarrow> int \<Rightarrow> AMFObject
    \<Rightarrow> (AMFObjectProperty \<times> int \<times> int \<times> AMFObject) ub" where
  "amf3_static 0 decode_prop prop i cd p nSize obj = None"
| "amf3_static (Suc n) decode_prop prop i cd p nSize obj =
     (if i < cd_num cd then do {
        (nRes, prop) \<leftarrow> decode_prop prop p nSize False;
        name \<leftarrow> AMF3CD_GetProp cd i;
        let prop = AMFProp_SetName prop name;
        amf3_static n decode_prop prop (i + 1) cd (p + nRes) (nSize - nRes) (AMF_AddProp obj prop)
      } else Some (prop, p, nSize, obj))"

fun amf3_dynamic :: "nat \<Rightarrow> prop_decoder \<Rightarrow> AMFObjectProperty \<Rightarrow> int \<Rightarrow> int \<Rightarrow> AMFObject \<Rightarrow> (int \<times> AMFObject) ub" where
  "amf3_dynamic 0 decode_prop prop p nSize obj = None"
| "amf3_dynamic (Suc n) decode_prop prop p nSize obj = do {
     (nRes, prop) \<leftarrow> decode_prop prop p nSize True;
     let obj = AMF_AddProp obj prop;
     let nSize = nSize - nRes;
     if av_len (p_name prop) > 0 then amf3_dynamic n decode_prop prop (p + nRes) nSize obj
     else Some (nSize, obj)
   }"

definition amf3_object :: "prop_decoder \<Rightarrow> nat \<Rightarrow> AMFObjectProperty \<Rightarrow> bytes \<Rightarrow> int \<Rightarrow> int \<Rightarrow> bool \<Rightarrow> (int \<times> AMFObject) ub" where
  \<comment> \<open>the body of \<open>AMF3_Decode\<close>\<close>
  "amf3_object decode_prop n junk buf p nSize bAMFData = do {
     let nOriginalSize = nSize;
     (p, nSize) \<leftarrow> (if bAMFData then do { _ \<leftarrow> peek buf p; Some (p + 1, nSize - 1) } else Some (p, nSize));
     (len, ref) \<leftarrow> AMF3ReadInteger buf p;
     let p = p + len;
     let nSize = nSize - len;
     if ref AND 1 = 0 then Some (nOriginalSize - nSize, [])
     else do {
       (cd, p, nSize) \<leftarrow> amf3_class n junk buf (drop_bit 1 ref) p nSize;
       if cd_externalizable cd then do {
         (nRes, prop) \<leftarrow> decode_prop junk p nSize False;
         let nSize = (if nRes = - 1 then nSize else nSize - nRes);
         Some (nOriginalSize - nSize, AMF_AddProp [] (AMFProp_SetName prop DEFAULT_ATTRIBUTE))
       } else do {
         (prop, p, nSize, obj) \<leftarrow> amf3_static n decode_prop junk 0 cd p nSize [];
         (nSize, obj) \<leftarrow> (if cd_dynamic cd then amf3_dynamic n decode_prop prop p nSize obj else Some (nSize, obj));
         Some (nOriginalSize - nSize, obj)
       }
     }
   }"

definition amf3_prop :: "object_decoder \<Rightarrow> AMFObjectProperty \<Rightarrow> AMFObjectProperty \<Rightarrow> bytes \<Rightarrow> int \<Rightarrow> int \<Rightarrow> bool
    \<Rightarrow> (int \<times> AMFObjectProperty) ub" where
  \<comment> \<open>the body of \<open>AMF3Prop_Decode\<close>\<close>
  "amf3_prop decode_object junk prop buf p nSize bDecodeName =
     (let prop = AMFProp_SetName prop AV_empty; nOriginalSize = nSize
      in if nSize = 0 then Some (- 1, prop)
      else do {
        (nRes, name) \<leftarrow> (if bDecodeName then AMF3ReadString buf p else Some (0, None));
        let name = (case name of None \<Rightarrow> p_name junk | Some m \<Rightarrow> m);
        if bDecodeName \<and> av_len name \<le> 0 then Some (nRes, prop)
        else do {
          let prop = (if bDecodeName then AMFProp_SetName prop name else prop);
          let nSize = nSize - nRes;
          t \<leftarrow> peek buf (p + nRes);
          let p = p + nRes + 1;
          let nSize = nSize - 1;
          if t = 0 \<or> t = 1 then Some (nOriginalSize - nSize, set_type prop AMF_NULL)
          else if t = 2 then Some (nOriginalSize - nSize, set_vu (set_type prop AMF_BOOLEAN) (P_number 0))
          else if t = 3 then Some (nOriginalSize - nSize, set_vu (set_type prop AMF_BOOLEAN) (P_number (double_of_int 1)))
          else if t = 4 then do {
            (len, res) \<leftarrow> AMF3ReadInteger buf p;
            Some (nOriginalSize - (nSize - len), set_type (set_vu prop (P_number (double_of_int res))) AMF_NUMBER)
          } else if t = 5 then
            if nSize < 8 then Some (- 1, prop)
            else do {
              d \<leftarrow> AMF_DecodeNumber buf p;
              Some (nOriginalSize - (nSize - 8), set_type (set_vu prop (P_number d)) AMF_NUMBER)
            }
          else if t = 6 \<or> t = 7 \<or> t = 11 then do {
            (len, s) \<leftarrow> AMF3ReadString buf p;
            Some (nOriginalSize - (nSize - len),
                  set_type (case s of None \<Rightarrow> prop | Some v \<Rightarrow> set_vu prop (P_aval v)) AMF_STRING)
          } else if t = 8 then do {
            (len, res) \<leftarrow> AMF3ReadInteger buf p;
            let nSize = nSize - len;
            if res AND 1 = 0 then Some (nOriginalSize - nSize, prop)
            else if nSize < 8 then Some (- 1, prop)
            else do {
              d \<leftarrow> AMF_DecodeNumber buf (p + len);
              Some (nOriginalSize - (nSize - 8), set_type (set_vu prop (P_number d)) AMF_NUMBER)
            }
          } else if t = 10 then do {
            (nRes, obj) \<leftarrow> decode_object p nSize;
            if nRes = - 1 then Some (- 1, set_vu prop (P_object obj))
            else Some (nOriginalSize - (nSize - nRes), set_type (set_vu prop (P_object obj)) AMF_OBJECT)
          } else do { _ \<leftarrow> peek buf p; Some (- 1, prop) }
        }
      })"

primrec AMF3Prop_Decode :: "nat \<Rightarrow> AMFObjectProperty \<Rightarrow> bytes \<Rightarrow> prop_decoder" where
  "AMF3Prop_Decode 0 junk buf = (\<lambda>prop p nSize bDecodeName. None)"
| "AMF3Prop_Decode (Suc n) junk buf = (\<lambda>prop p nSize bDecodeName.
     amf3_prop (\<lambda>p nSize. amf3_object (AMF3Prop_Decode n junk buf) n junk buf p nSize True) junk prop buf p nSize bDecodeName)"

definition AMF3_Decode :: "nat \<Rightarrow> AMFObjectProperty \<Rightarrow> bytes \<Rightarrow> int \<Rightarrow> int \<Rightarrow> bool \<Rightarrow> (int \<times> AMFObject) ub" where
  "AMF3_Decode n junk buf p nSize bAMFData = amf3_object (AMF3Prop_Decode n junk buf) n junk buf p nSize bAMFData"

section \<open>AMF0\<close>

definition decode_name :: "AMFObjectProperty \<Rightarrow> bytes \<Rightarrow> int \<Rightarrow> int \<Rightarrow> bool \<Rightarrow> (AMFObjectProperty \<times> int \<times> int) option ub" where
  \<comment> \<open>the name of a property; the inner \<open>None\<close> is the return of -1\<close>
  "decode_name prop buf p nSize bDecodeName =
     (if nSize = 0 \<or> bDecodeName \<and> nSize < 4 then Some None
      else if bDecodeName then do {
        nNameSize \<leftarrow> AMF_DecodeInt16 buf p;
        if nNameSize > nSize - 2 then Some None
        else do {
          name \<leftarrow> AMF_DecodeString buf p;
          Some (Some (AMFProp_SetName prop name, p + 2 + nNameSize, nSize - (2 + nNameSize)))
        }
      } else Some (Some (prop, p, nSize)))"

fun decode_loop :: "nat \<Rightarrow> prop_decoder \<Rightarrow> AMFObjectProperty \<Rightarrow> bytes \<Rightarrow> int \<Rightarrow> int \<Rightarrow> bool \<Rightarrow> bool \<Rightarrow> AMFObject
    \<Rightarrow> (int \<times> bool \<times> AMFObject) ub" where
  "decode_loop 0 decode_prop junk buf p nSize bDecodeName bError obj = None"
| "decode_loop (Suc n) decode_prop junk buf p nSize bDecodeName bError obj =
     (if nSize > 0 then do {
        atEnd \<leftarrow> (if nSize \<ge> 3 then do { v \<leftarrow> AMF_DecodeInt24 buf p; Some (v = type_code AMF_OBJECT_END) } else Some False);
        if atEnd then Some (nSize - 3, False, obj)
        else if bError then decode_loop n decode_prop junk buf (p + 1) (nSize - 1) bDecodeName bError obj
        else do {
          (nRes, prop) \<leftarrow> decode_prop junk p nSize bDecodeName;
          if nRes = - 1 then decode_loop n decode_prop junk buf p nSize bDecodeName True obj
          else decode_loop n decode_prop junk buf (p + nRes) (nSize - nRes) bDecodeName bError (AMF_AddProp obj prop)
        }
      } else Some (nSize, bError, obj))"

fun array_loop :: "nat \<Rightarrow> prop_decoder \<Rightarrow> AMFObjectProperty \<Rightarrow> int \<Rightarrow> int \<Rightarrow> bool \<Rightarrow> bool \<Rightarrow> AMFObject \<Rightarrow> (int \<times> bool \<times> AMFObject) ub" where
  "array_loop 0 decode_prop junk p nSize bDecodeName bError obj = Some (nSize, bError, obj)"
| "array_loop (Suc k) decode_prop junk p nSize bDecodeName bError obj = do {
     (nRes, prop) \<leftarrow> decode_prop junk p nSize bDecodeName;
     if nRes = - 1 then array_loop k decode_prop junk p nSize bDecodeName True obj
     else array_loop k decode_prop junk (p + nRes) (nSize - nRes) bDecodeName bError (AMF_AddProp obj prop)
   }"

definition amf_object :: "prop_decoder \<Rightarrow> nat \<Rightarrow> AMFObjectProperty \<Rightarrow> bytes \<Rightarrow> int \<Rightarrow> int \<Rightarrow> bool \<Rightarrow> (int \<times> AMFObject) ub" where
  \<comment> \<open>the body of \<open>AMF_Decode\<close>\<close>
  "amf_object decode_prop n junk buf p nSize bDecodeName = do {
     (rest, bError, obj) \<leftarrow> decode_loop n decode_prop junk buf p nSize bDecodeName False [];
     Some (if bError then - 1 else nSize - rest, obj)
   }"

definition amf_array :: "prop_decoder \<Rightarrow> AMFObjectProperty \<Rightarrow> int \<Rightarrow> int \<Rightarrow> int \<Rightarrow> bool \<Rightarrow> (int \<times> AMFObject) ub" where
  \<comment> \<open>the body of \<open>AMF_DecodeArray\<close>\<close>
  "amf_array decode_prop junk p nSize nArrayLen bDecodeName = do {
     (rest, bError, obj) \<leftarrow> array_loop (nat nArrayLen) decode_prop junk p nSize bDecodeName False [];
     Some (if bError then - 1 else nSize - rest, obj)
   }"

definition amf_prop :: "object_decoder \<Rightarrow> (int \<Rightarrow> int \<Rightarrow> int \<Rightarrow> (int \<times> AMFObject) ub) \<Rightarrow> object_decoder
    \<Rightarrow> AMFObjectProperty \<Rightarrow> bytes \<Rightarrow> int \<Rightarrow> int \<Rightarrow> bool \<Rightarrow> (int \<times> AMFObjectProperty) ub" where
  \<comment> \<open>the body of \<open>AMFProp_Decode\<close>\<close>
  "amf_prop decode_object decode_array decode_amf3 prop buf p nSize bDecodeName = do {
     let nOriginalSize = nSize;
     let prop = AMFProp_SetName prop AV_empty;
     r \<leftarrow> decode_name prop buf p nSize bDecodeName;
     (case r of None \<Rightarrow> Some (- 1, prop)
      | Some (prop, p, nSize) \<Rightarrow>
        if nSize = 0 then Some (- 1, prop)
        else do {
          let nSize = nSize - 1;
          c \<leftarrow> peek buf p;
          let p = p + 1;
          let prop = set_type prop (amf_type (schar c));
          (case p_type prop of
             AMF_NUMBER \<Rightarrow>
               if nSize < 8 then Some (- 1, prop)
               else do { d \<leftarrow> AMF_DecodeNumber buf p; Some (nOriginalSize - (nSize - 8), set_vu prop (P_number d)) }
           | AMF_BOOLEAN \<Rightarrow>
               if nSize < 1 then Some (- 1, prop)
               else do { b \<leftarrow> AMF_DecodeBoolean buf p; Some (nOriginalSize - (nSize - 1), set_vu prop (P_number (double_of_int b))) }
           | AMF_STRING \<Rightarrow> do {
               nStringSize \<leftarrow> AMF_DecodeInt16 buf p;
               if nSize < nStringSize + 2 then Some (- 1, prop)
               else do {
                 s \<leftarrow> AMF_DecodeString buf p;
                 Some (nOriginalSize - (nSize - (2 + nStringSize)), set_vu prop (P_aval s))
               }
             }
           | AMF_OBJECT \<Rightarrow> do {
               (nRes, obj) \<leftarrow> decode_object p nSize;
               let prop = set_vu prop (P_object obj);
               Some (if nRes = - 1 then - 1 else nOriginalSize - (nSize - nRes), prop)
             }
           | AMF_NULL \<Rightarrow> Some (nOriginalSize - nSize, set_type prop AMF_NULL)
           | AMF_UNDEFINED \<Rightarrow> Some (nOriginalSize - nSize, set_type prop AMF_NULL)
           | AMF_UNSUPPORTED \<Rightarrow> Some (nOriginalSize - nSize, set_type prop AMF_NULL)
           | AMF_ECMA_ARRAY \<Rightarrow> do {
               let nSize = nSize - 4;
               (nRes, obj) \<leftarrow> decode_object (p + 4) nSize;
               let prop = set_vu prop (P_object obj);
               if nRes = - 1 then Some (- 1, prop)
               else Some (nOriginalSize - (nSize - nRes), set_type prop AMF_OBJECT)
             }
           | AMF_STRICT_ARRAY \<Rightarrow> do {
               nArrayLen \<leftarrow> AMF_DecodeInt32 buf p;
               let nSize = nSize - 4;
               (nRes, obj) \<leftarrow> decode_array (p + 4) nSize (int32 nArrayLen);
               let prop = set_vu prop (P_object obj);
               if nRes = - 1 then Some (- 1, prop)
               else Some (nOriginalSize - (nSize - nRes), set_type prop AMF_OBJECT)
             }
           | AMF_DATE \<Rightarrow>
               if nSize < 10 then Some (- 1, prop)
               else do {
                 d \<leftarrow> AMF_DecodeNumber buf p;
                 utc \<leftarrow> AMF_DecodeInt16 buf (p + 8);
                 Some (nOriginalSize - (nSize - 10), set_offset (set_vu prop (P_number d)) (short utc))
               }
           | AMF_LONG_STRING \<Rightarrow> do {
               nStringSize \<leftarrow> AMF_DecodeInt32 buf p;
               if nSize < nStringSize + 4 then Some (- 1, prop)
               else do {
                 s \<leftarrow> AMF_DecodeLongString buf p;
                 Some (nOriginalSize - (nSize - (4 + nStringSize)), set_type (set_vu prop (P_aval s)) AMF_STRING)
               }
             }
           | AMF_XML_DOC \<Rightarrow> do {
               nStringSize \<leftarrow> AMF_DecodeInt32 buf p;
               if nSize < nStringSize + 4 then Some (- 1, prop)
               else do {
                 s \<leftarrow> AMF_DecodeLongString buf p;
                 Some (nOriginalSize - (nSize - (4 + nStringSize)), set_vu prop (P_aval s))
               }
             }
           | AMF_AVMPLUS \<Rightarrow> do {
               (nRes, obj) \<leftarrow> decode_amf3 p nSize;
               let prop = set_vu prop (P_object obj);
               if nRes = - 1 then Some (- 1, prop)
               else Some (nOriginalSize - (nSize - nRes), set_type prop AMF_OBJECT)
             }
           | _ \<Rightarrow> Some (- 1, prop))
        })
   }"

primrec AMFProp_Decode :: "nat \<Rightarrow> AMFObjectProperty \<Rightarrow> bytes \<Rightarrow> prop_decoder" where
  "AMFProp_Decode 0 junk buf = (\<lambda>prop p nSize bDecodeName. None)"
| "AMFProp_Decode (Suc n) junk buf =
     (\<lambda>prop p nSize bDecodeName.
       amf_prop (\<lambda>p nSize. amf_object (AMFProp_Decode n junk buf) n junk buf p nSize True)
         (\<lambda>p nSize nArrayLen. amf_array (AMFProp_Decode n junk buf) junk p nSize nArrayLen False)
         (\<lambda>p nSize. AMF3_Decode n junk buf p nSize True) prop buf p nSize bDecodeName)"

definition AMF_Decode :: "nat \<Rightarrow> AMFObjectProperty \<Rightarrow> bytes \<Rightarrow> int \<Rightarrow> int \<Rightarrow> bool \<Rightarrow> (int \<times> AMFObject) ub" where
  "AMF_Decode n junk buf p nSize bDecodeName = amf_object (AMFProp_Decode n junk buf) n junk buf p nSize bDecodeName"

definition AMF_DecodeArray :: "nat \<Rightarrow> AMFObjectProperty \<Rightarrow> bytes \<Rightarrow> int \<Rightarrow> int \<Rightarrow> int \<Rightarrow> bool \<Rightarrow> (int \<times> AMFObject) ub" where
  "AMF_DecodeArray n junk buf p nSize nArrayLen bDecodeName = amf_array (AMFProp_Decode n junk buf) junk p nSize nArrayLen bDecodeName"

end
