(* ===== verification/Rtmp_Amf_Round.thy ===== *)
theory Rtmp_Amf_Round
  imports Rtmp_Amf_Decode
begin

text \<open>
  Encoding and decoding of AMF0: the bytes an object is encoded to, and the value that is read back.
\<close>

section \<open>The encoding as a function\<close>

definition be16 :: "int \<Rightarrow> bytes" where
  "be16 n = [word_of_int (drop_bit 8 n), word_of_int n]"

definition be24 :: "int \<Rightarrow> bytes" where
  "be24 n = word_of_int (drop_bit 16 n) # be16 n"

definition be32 :: "int \<Rightarrow> bytes" where
  "be32 n = word_of_int (drop_bit 24 n) # be24 n"

definition content :: "AVal \<Rightarrow> bytes" where
  "content s = (case aval_bytes s of None \<Rightarrow> [] | Some b \<Rightarrow> b)"

definition enc_string :: "AVal \<Rightarrow> bytes" where
  "enc_string s = (if av_len s < 65536 then 2 # be16 (av_len s) else 12 # be32 (av_len s)) @ content s"

definition enc_name :: "AMFDataType \<Rightarrow> AVal \<Rightarrow> bytes" where
  "enc_name t nm = (if t \<noteq> AMF_NULL \<and> av_len nm \<noteq> 0 then be16 (av_len nm) @ content nm else [])"

primrec enc_prop :: "AMFObjectProperty \<Rightarrow> bytes" and enc_vu :: "amf_vu \<Rightarrow> AMFDataType \<Rightarrow> bytes" where
  "enc_prop (AMFObjectProperty nm t v u) = enc_name t nm @ (if t = AMF_NULL then [5] else enc_vu v t)"
| "enc_vu P_none t = []"
| "enc_vu P_zero t = []"
| "enc_vu (P_number d) t =
     (if t = AMF_NUMBER then 0 # rev (double_bytes d) else [1, if double_nonzero d then 1 else 0])"
| "enc_vu (P_aval s) t = enc_string s"
| "enc_vu (P_object ps) t =
     (if t = AMF_OBJECT then 3 # concat (map enc_prop ps) @ be24 9
      else if t = AMF_ECMA_ARRAY then 8 # be32 (int (length ps)) @ concat (map enc_prop ps) @ be24 9
      else 10 # be32 (int (length ps)) @ concat (map enc_prop ps))"

definition enc_props :: "AMFObject \<Rightarrow> bytes" where
  "enc_props ps = concat (map enc_prop ps)"

lemma enc_props_simps [simp]:
  "enc_props [] = []" "enc_props (p # ps) = enc_prop p @ enc_props ps"
  by (simp_all add: enc_props_def)

text \<open>What can be encoded: strings that can be read, names in objects but not in strict arrays, and a null
  only in strict arrays.\<close>

definition good_aval :: "AVal \<Rightarrow> bool" where
  "good_aval s \<longleftrightarrow> 0 \<le> av_len s \<and> aval_bytes s \<noteq> None"

definition good_name :: "bool \<Rightarrow> AMFDataType \<Rightarrow> AVal \<Rightarrow> bool" where
  "good_name named t nm \<longleftrightarrow> good_aval nm \<and> av_len nm < 65536 \<and>
     (if named then 0 < av_len nm \<and> t \<noteq> AMF_NULL else av_len nm = 0)"

primrec encodable :: "AMFObjectProperty \<Rightarrow> bool \<Rightarrow> bool" and encodable_vu :: "amf_vu \<Rightarrow> AMFDataType \<Rightarrow> bool" where
  "encodable (AMFObjectProperty nm t v u) named \<longleftrightarrow> good_name named t nm \<and> (t = AMF_NULL \<or> encodable_vu v t)"
| "encodable_vu P_none t \<longleftrightarrow> False"
| "encodable_vu P_zero t \<longleftrightarrow> False"
| "encodable_vu (P_number d) t \<longleftrightarrow> t = AMF_NUMBER \<or> t = AMF_BOOLEAN"
| "encodable_vu (P_aval s) t \<longleftrightarrow> t = AMF_STRING \<and> good_aval s \<and> av_len s < 2 ^ 31"
| "encodable_vu (P_object ps) t \<longleftrightarrow> length ps < 2 ^ 31 \<and>
     ((t = AMF_OBJECT \<or> t = AMF_ECMA_ARRAY) \<and> list_all (\<lambda>ok. ok True) (map encodable ps) \<or>
      t = AMF_STRICT_ARRAY \<and> list_all (\<lambda>ok. ok False) (map encodable ps))"

definition encodable_obj :: "AMFObject \<Rightarrow> bool" where
  "encodable_obj ps \<longleftrightarrow> list_all (\<lambda>p. encodable p True) ps"

lemma length_be [simp]: "length (be16 n) = 2" "length (be24 n) = 3" "length (be32 n) = 4"
  by (simp_all add: be16_def be24_def be32_def)

lemma length_double_bytes [simp]: "length (double_bytes d) = 8"
  by (simp add: double_bytes_def)

lemma content_good: "good_aval s \<Longrightarrow> aval_bytes s = Some (content s) \<and> int (length (content s)) = av_len s"
  by (auto simp: good_aval_def content_def aval_bytes_def slice_def split: if_splits option.splits bind_splits)

section \<open>What the encoder writes\<close>

text \<open>\<open>wrote f pre d bs\<close>: the encoder writes \<open>bs\<close> behind \<open>pre\<close>.\<close>

lemma word_low_byte: "(word_of_int (n AND 0xff) :: byte) = word_of_int n"
proof -
  have "n AND 0xff = take_bit 8 n" by (simp add: take_bit_eq_mask mask_eq_exp_minus_1)
  then show ?thesis by (simp add: word_of_int_eq_iff)
qed

lemma list_split2: "2 \<le> length d \<Longrightarrow> \<exists>x y r. d = x # y # r"
  by (cases d; cases "tl d") auto

lemma store_step:
  assumes "length src \<le> length d"
  shows "store (pre @ d) (int (length pre)) src = Some (pre @ src @ drop (length src) d)"
  using assms by (intro store_after) simp_all

lemma wrote_int16:
  assumes "2 \<le> length d" "int (length pre) + 2 \<le> e"
  shows "AMF_EncodeInt16 (pre @ d) (int (length pre)) e n = Some (Some (int (length pre) + 2), pre @ be16 n @ drop 2 d)"
proof -
  obtain x y r where "d = x # y # r" using list_split2 [OF assms(1)] by blast
  then show ?thesis using assms(2)
    by (simp add: AMF_EncodeInt16_def frame_simps word_low_byte) (simp add: store_def be16_def)
qed

lemma wrote_int24:
  assumes "3 \<le> length d" "int (length pre) + 3 \<le> e"
  shows "AMF_EncodeInt24 (pre @ d) (int (length pre)) e n = Some (Some (int (length pre) + 3), pre @ be24 n @ drop 3 d)"
proof -
  obtain x y r where "d = x # y # r" "1 \<le> length r" using list_split2 [of d] assms(1) by force
  moreover obtain z r' where "r = z # r'" using calculation(2) by (cases r) simp_all
  ultimately show ?thesis using assms(2)
    by (simp add: AMF_EncodeInt24_def word_low_byte store_def nat_add_distrib be24_def be16_def numeral_3_eq_3)
qed

lemma wrote_int32:
  assumes "4 \<le> length d" "int (length pre) + 4 \<le> e"
  shows "AMF_EncodeInt32 (pre @ d) (int (length pre)) e n = Some (Some (int (length pre) + 4), pre @ be32 n @ drop 4 d)"
proof -
  obtain x y r where "d = x # y # r" "2 \<le> length r" using list_split2 [of d] assms(1) by force
  moreover obtain z z' r' where "r = z # z' # r'" using list_split2 [OF calculation(2)] by blast
  ultimately show ?thesis using assms(2)
    by (simp add: AMF_EncodeInt32_def word_low_byte store_def nat_add_distrib be32_def be24_def be16_def numeral_3_eq_3)
qed

lemma wrote_type:
  assumes "1 \<le> length d"
  shows "put_type (pre @ d) (int (length pre)) t = Some (pre @ word_of_int (type_code t) # drop 1 d)"
  using store_step [of "[word_of_int (type_code t)]" d pre] assms by (simp add: put_type_def)

lemma wrote_aval:
  assumes "good_aval s" "length (content s) \<le> length d"
  shows "put_aval (pre @ d) (int (length pre)) s = Some (pre @ content s @ drop (length (content s)) d)"
  using content_good [OF assms(1)] store_step [OF assms(2)] by (simp add: put_aval_def)

lemma be16_short: "be16 (short n) = be16 n"
proof -
  have "take_bit 8 (drop_bit 8 (signed_take_bit 15 n)) = take_bit 8 (drop_bit 8 n)"
    "take_bit 8 (signed_take_bit 15 n) = take_bit 8 n"
    by (rule bit_eqI; auto simp: bit_simps)+
  then show ?thesis by (simp add: be16_def short_def word_of_int_eq_iff)
qed

lemma wrote_string:
  assumes "good_aval s" "length (enc_string s) \<le> length d" "int (length pre) + int (length (enc_string s)) + 2 \<le> e"
  shows "AMF_EncodeString (pre @ d) (int (length pre)) e s
    = Some (Some (int (length pre) + int (length (enc_string s))), pre @ enc_string s @ drop (length (enc_string s)) d)"
proof -
  note c = content_good [OF assms(1)]
  define h where "h = (if av_len s < 65536 then 2 # be16 (av_len s) else 12 # be32 (av_len s))"
  have e: "enc_string s = h @ content s" by (simp add: enc_string_def h_def)
  have guard: "\<not> (av_len s < 65536 \<and> int (length pre) + 1 + 2 + av_len s > e \<or> int (length pre) + 1 + 4 + av_len s > e)"
    using assms(3) c by (auto simp: e h_def split: if_splits)
  have hd: "(if av_len s < 65536 then do {
             buf \<leftarrow> put_type (pre @ d) (int (length pre)) AMF_STRING;
             AMF_EncodeInt16 buf (int (length pre) + 1) e (short (av_len s))
           } else do {
             buf \<leftarrow> put_type (pre @ d) (int (length pre)) AMF_LONG_STRING;
             AMF_EncodeInt32 buf (int (length pre) + 1) e (av_len s)
           }) = Some (Some (int (length (pre @ h))), (pre @ h) @ drop (length h) d)"
    using assms(2,3) wrote_int16 [of "drop 1 d" "pre @ [2]" e "short (av_len s)"] wrote_int32 [of "drop 1 d" "pre @ [12]" e "av_len s"]
    by (cases "av_len s < 65536") (simp_all add: wrote_type e h_def be16_short add.commute)
  show ?thesis
    unfolding AMF_EncodeString_def if_not_P [OF guard] hd
    using wrote_aval [of s "drop (length h) d" "pre @ h"] assms c by (simp add: e add.commute)
qed

lemma wrote_number:
  assumes "9 \<le> length d" "int (length pre) + 9 \<le> e"
  shows "AMF_EncodeNumber (pre @ d) (int (length pre)) e x
    = Some (Some (int (length pre) + 9), pre @ 0 # rev (double_bytes x) @ drop 9 d)"
proof -
  let ?ci = "double_bytes x"
  have r: "[?ci ! 7, ?ci ! 6, ?ci ! 5, ?ci ! 4, ?ci ! 3, ?ci ! 2, ?ci ! 1, ?ci ! 0] = rev ?ci"
    by (simp add: double_bytes_def upt_rec)
  show ?thesis
    using store_step [of "rev ?ci" "drop 1 d" "pre @ [0]"] assms
    unfolding AMF_EncodeNumber_def Let_def r by (simp add: wrote_type add.commute)
qed

lemma wrote_boolean:
  assumes "2 \<le> length d" "int (length pre) + 2 \<le> e"
  shows "AMF_EncodeBoolean (pre @ d) (int (length pre)) e b
    = Some (Some (int (length pre) + 2), pre @ [1, if b \<noteq> 0 then 1 else 0] @ drop 2 d)"
  using store_step [of "[if b \<noteq> 0 then 1 else 0]" "drop 1 d" "pre @ [1]"] assms
  by (simp add: AMF_EncodeBoolean_def wrote_type add.commute numeral_2_eq_2)

lemma wrote_name:
  assumes "good_name named (p_type p) (p_name p)" "length (enc_name (p_type p) (p_name p)) \<le> length d"
  shows "put_name (pre @ d) (int (length pre)) p =
    Some (int (length pre) + int (length (enc_name (p_type p) (p_name p))),
          pre @ enc_name (p_type p) (p_name p) @ drop (length (enc_name (p_type p) (p_name p))) d)"
proof (cases "p_type p \<noteq> AMF_NULL \<and> av_len (p_name p) \<noteq> 0")
  case True
  have c: "good_aval (p_name p)" "int (length (content (p_name p))) = av_len (p_name p)"
    using assms(1) content_good [of "p_name p"] by (simp_all add: good_name_def)
  let ?n = "av_len (p_name p)"
  have e: "enc_name (p_type p) (p_name p) = be16 ?n @ content (p_name p)" using True by (simp add: enc_name_def)
  then have l: "2 \<le> length d" using assms(2) by simp
  then obtain x y r where d: "d = x # y # r" using list_split2 by blast
  have "store (pre @ d) (int (length pre)) [word_of_int (drop_bit 8 ?n)] = Some (pre @ word_of_int (drop_bit 8 ?n) # y # r)"
    using store_step [of "[word_of_int (drop_bit 8 ?n)]" d pre] by (simp add: d)
  moreover have "store (pre @ word_of_int (drop_bit 8 ?n) # y # r) (int (length pre) + 1) [word_of_int ?n] = Some (pre @ be16 ?n @ r)"
    using store_step [of "[word_of_int ?n]" "y # r" "pre @ [word_of_int (drop_bit 8 ?n)]"] by (simp add: be16_def add.commute)
  moreover have "put_aval (pre @ be16 ?n @ r) (int (length pre) + 2) (p_name p) = Some (pre @ be16 ?n @ content (p_name p) @ drop (length (content (p_name p))) r)"
    using wrote_aval [OF c(1), of r "pre @ be16 ?n"] assms(2) by (simp add: e d add.commute)
  ultimately show ?thesis using True c(2) by (simp add: put_name_def word_low_byte e d add.commute)
qed (auto simp: put_name_def enc_name_def)

text \<open>The whole property, and the properties of an object, by induction on the data.\<close>

definition writes :: "(bytes \<Rightarrow> int \<Rightarrow> int \<Rightarrow> out) \<Rightarrow> bytes \<Rightarrow> bool" where
  "writes f bs \<longleftrightarrow> (\<forall>pre d e. length bs \<le> length d \<longrightarrow> int (length pre) + int (length bs) + 2 \<le> e \<longrightarrow>
     f (pre @ d) (int (length pre)) e = Some (Some (int (length pre) + int (length bs)), pre @ bs @ drop (length bs) d))"

lemma writesD:
  "writes f bs \<Longrightarrow> length bs \<le> length d \<Longrightarrow> int (length pre) + int (length bs) + 2 \<le> e \<Longrightarrow>
   f (pre @ d) (int (length pre)) e = Some (Some (int (length pre) + int (length bs)), pre @ bs @ drop (length bs) d)"
  by (simp add: writes_def)

lemma wrote_props:
  assumes "\<And>p. p \<in> set ps \<Longrightarrow> writes (AMFProp_Encode p) (enc_prop p)"
    and "length (enc_props ps) \<le> length d" "int (length pre) + int (length (enc_props ps)) + 2 \<le> e"
  shows "encode_props ps (pre @ d) (int (length pre)) e
    = Some (int (length pre) + int (length (enc_props ps)), pre @ enc_props ps @ drop (length (enc_props ps)) d)"
  using assms
proof (induction ps arbitrary: pre d)
  case (Cons p ps)
  have "AMFProp_Encode p (pre @ d) (int (length pre)) e
      = Some (Some (int (length pre) + int (length (enc_prop p))), pre @ enc_prop p @ drop (length (enc_prop p)) d)"
    using Cons.prems by (intro writesD) simp_all
  then show ?case
    using Cons.IH [of "drop (length (enc_prop p)) d" "pre @ enc_prop p"] Cons.prems
    by (simp add: add.commute add.left_commute)
qed simp

lemma writes_object:
  assumes "\<And>p. p \<in> set ps \<Longrightarrow> writes (AMFProp_Encode p) (enc_prop p)"
  shows "writes (AMF_Encode ps) (3 # enc_props ps @ be24 9)"
    and "writes (AMF_EncodeEcmaArray ps) (8 # be32 (int (length ps)) @ enc_props ps @ be24 9)"
    and "writes (AMF_EncodeArray ps) (10 # be32 (int (length ps)) @ enc_props ps)"
proof -
  show "writes (AMF_Encode ps) (3 # enc_props ps @ be24 9)"
    unfolding writes_def
  proof (intro allI impI)
    fix pre d :: bytes and e
    assume a: "length (3 # enc_props ps @ be24 9) \<le> length d" "int (length pre) + int (length (3 # enc_props ps @ be24 9)) + 2 \<le> e"
    have "encode_props ps ((pre @ [3]) @ drop 1 d) (int (length (pre @ [3]))) e =
        Some (int (length (pre @ 3 # enc_props ps)), (pre @ 3 # enc_props ps) @ drop (length (enc_props ps) + 1) d)"
      using wrote_props [of ps "drop 1 d" "pre @ [3]" e, OF assms] a by (simp add: add.commute)
    then show "AMF_Encode ps (pre @ d) (int (length pre)) e =
        Some (Some (int (length pre) + int (length (3 # enc_props ps @ be24 9))), pre @ (3 # enc_props ps @ be24 9) @ drop (length (3 # enc_props ps @ be24 9)) d)"
      using a wrote_int24 [of "drop (length (enc_props ps) + 1) d" "pre @ 3 # enc_props ps" e 9]
      by (simp add: AMF_Encode.simps wrote_type add.commute add.left_commute)
  qed
  let ?n = "be32 (int (length ps))"
  have i32: "AMF_EncodeInt32 (pre @ c # drop (Suc 0) d) (int (length pre) + 1) e (int (length ps))
      = Some (Some (int (length pre) + 5), pre @ c # ?n @ drop 5 d)"
    if "5 \<le> length d" "int (length pre) + 5 \<le> e" for pre d c e
    using wrote_int32 [of "drop 1 d" "pre @ [c]" e "int (length ps)"] that by (simp add: add.commute)
  have pr: "encode_props ps (pre @ c # ?n @ drop 5 d) (int (length pre) + 5) e
      = Some (int (length pre) + 5 + int (length (enc_props ps)), pre @ c # ?n @ enc_props ps @ drop (length (enc_props ps) + 5) d)"
    if "length (enc_props ps) + 5 \<le> length d" "int (length pre) + int (length (enc_props ps)) + 7 \<le> e" for pre d c e
    using wrote_props [of ps "drop 5 d" "pre @ c # ?n" e, OF assms] that by (simp add: add.commute add.left_commute)
  show "writes (AMF_EncodeArray ps) (10 # ?n @ enc_props ps)"
    unfolding writes_def
  proof (intro allI impI)
    fix pre d :: bytes and e
    assume a: "length (10 # ?n @ enc_props ps) \<le> length d" "int (length pre) + int (length (10 # ?n @ enc_props ps)) + 2 \<le> e"
    show "AMF_EncodeArray ps (pre @ d) (int (length pre)) e =
      Some (Some (int (length pre) + int (length (10 # ?n @ enc_props ps))), pre @ (10 # ?n @ enc_props ps) @ drop (length (10 # ?n @ enc_props ps)) d)"
      using a i32 [of d pre e 10] pr [of d pre e 10] by (simp add: AMF_EncodeArray.simps wrote_type add.commute add.left_commute)
  qed
  show "writes (AMF_EncodeEcmaArray ps) (8 # ?n @ enc_props ps @ be24 9)"
    unfolding writes_def
  proof (intro allI impI)
    fix pre d :: bytes and e
    assume a: "length (8 # ?n @ enc_props ps @ be24 9) \<le> length d" "int (length pre) + int (length (8 # ?n @ enc_props ps @ be24 9)) + 2 \<le> e"
    have "AMF_EncodeInt24 (pre @ 8 # ?n @ enc_props ps @ drop (length (enc_props ps) + 5) d) (int (length pre) + 5 + int (length (enc_props ps))) e 9
        = Some (Some (int (length pre) + int (length (8 # ?n @ enc_props ps @ be24 9))), pre @ 8 # ?n @ enc_props ps @ be24 9 @ drop (length (enc_props ps) + 8) d)"
      using wrote_int24 [of "drop (length (enc_props ps) + 5) d" "pre @ 8 # ?n @ enc_props ps" e 9] a by (simp add: add.commute add.left_commute)
    then show "AMF_EncodeEcmaArray ps (pre @ d) (int (length pre)) e =
      Some (Some (int (length pre) + int (length (8 # ?n @ enc_props ps @ be24 9))), pre @ (8 # ?n @ enc_props ps @ be24 9) @ drop (length (8 # ?n @ enc_props ps @ be24 9)) d)"
      using a i32 [of d pre e 8] pr [of d pre e 8] by (simp add: AMF_EncodeEcmaArray.simps wrote_type add.commute add.left_commute)
  qed
qed

lemma member_size: "q \<in> set ps \<Longrightarrow> size q < size (AMFObjectProperty nm t (P_object ps) u)"
  by (induction ps) auto

lemma encodable_members:
  assumes "encodable_vu (P_object ps) t" "q \<in> set ps"
  shows "encodable q (t \<noteq> AMF_STRICT_ARRAY)"
  using assms by (auto simp: list_all_iff)

text \<open>The switch of \<open>AMFProp_Encode\<close>.\<close>

definition encode_value :: "AMFObjectProperty \<Rightarrow> bytes \<Rightarrow> int \<Rightarrow> int \<Rightarrow> out" where
  "encode_value p buf pBuffer pBufEnd =
     (case p_type p of
           AMF_NUMBER \<Rightarrow> do { d \<leftarrow> AMFProp_GetNumber p; AMF_EncodeNumber buf pBuffer pBufEnd d }
         | AMF_BOOLEAN \<Rightarrow> do { b \<leftarrow> AMFProp_GetBoolean p; AMF_EncodeBoolean buf pBuffer pBufEnd (if b then 1 else 0) }
         | AMF_STRING \<Rightarrow> do { s \<leftarrow> AMFProp_GetString p; AMF_EncodeString buf pBuffer pBufEnd s }
         | AMF_NULL \<Rightarrow>
             if pBuffer + 1 \<ge> pBufEnd then Some (None, buf)
             else do { buf \<leftarrow> put_type buf pBuffer AMF_NULL; Some (Some (pBuffer + 1), buf) }
         | AMF_OBJECT \<Rightarrow> do { obj \<leftarrow> AMFProp_GetObject p; AMF_Encode obj buf pBuffer pBufEnd }
         | AMF_ECMA_ARRAY \<Rightarrow> do { obj \<leftarrow> AMFProp_GetObject p; AMF_EncodeEcmaArray obj buf pBuffer pBufEnd }
         | AMF_STRICT_ARRAY \<Rightarrow> do { obj \<leftarrow> AMFProp_GetObject p; AMF_EncodeArray obj buf pBuffer pBufEnd }
         | _ \<Rightarrow> Some (None, buf))"

lemma writes_value:
  assumes "encodable p named" "p_type p \<noteq> AMF_NULL"
    and "\<And>ps q. p_vu p = P_object ps \<Longrightarrow> q \<in> set ps \<Longrightarrow> writes (AMFProp_Encode q) (enc_prop q)"
  shows "writes (encode_value p) (enc_vu (p_vu p) (p_type p))"
proof -
  obtain nm t v u where p: "p = AMFObjectProperty nm t v u" by (cases p) simp
  then have ok: "encodable_vu v t" using assms(1,2) by simp
  show ?thesis
  proof (cases v)
    case (P_number d)
    then show ?thesis using ok unfolding p
      by (auto simp: writes_def encode_value_def wrote_number wrote_boolean AMFProp_GetNumber_def AMFProp_GetBoolean_def numeral_2_eq_2)
  next
    case (P_aval s)
    then show ?thesis using ok unfolding p
      by (auto simp: writes_def encode_value_def wrote_string AMFProp_GetString_def)
  next
    case (P_object ps)
    then have "\<And>q. q \<in> set ps \<Longrightarrow> writes (AMFProp_Encode q) (enc_prop q)" using assms(3) p by simp
    note w = writes_object [OF this]
    have "t = AMF_OBJECT \<or> t = AMF_ECMA_ARRAY \<or> t = AMF_STRICT_ARRAY" using ok P_object by auto
    then show ?thesis using w unfolding p P_object
      by (elim disjE) (simp_all add: writes_def encode_value_def AMFProp_GetObject_def enc_props_def)
  qed (use ok in simp_all)
qed

lemma length_enc_vu: "encodable_vu v t \<Longrightarrow> 2 \<le> length (enc_vu v t)"
  by (cases v) (auto simp: enc_string_def)

lemma writes_prop: "encodable p named \<Longrightarrow> writes (AMFProp_Encode p) (enc_prop p)"
proof (induction p arbitrary: named rule: measure_induct_rule [of size])
  case (less p)
  obtain nm t v u where p: "p = AMFObjectProperty nm t v u" by (cases p) simp
  have nm: "good_name named t nm" using less.prems p by simp
  show ?case
  proof (cases "t = AMF_NULL")
    case True
    then show ?thesis unfolding p
      by (simp add: writes_def AMFProp_Encode.simps enc_name_def put_name_def wrote_type)
  next
    case False
    then have ok: "encodable_vu v t" using less.prems p by simp
    have w: "writes (encode_value p) (enc_vu v t)"
    proof -
      have "writes (AMFProp_Encode q) (enc_prop q)" if "p_vu p = P_object ps" "q \<in> set ps" for ps q
      proof -
        have "v = P_object ps" using that(1) p by simp
        then have "size q < size p" "encodable q (t \<noteq> AMF_STRICT_ARRAY)"
          using member_size [OF that(2)] encodable_members [OF _ that(2)] ok p by blast+
        then show ?thesis by (rule less.IH)
      qed
      then show ?thesis using writes_value [OF less.prems] False p by simp
    qed
    have len: "int (length (enc_name t nm)) = (if av_len nm = 0 then 0 else av_len nm + 2)"
      using nm False content_good [of nm] by (simp add: enc_name_def good_name_def)
    show ?thesis unfolding writes_def
    proof (intro allI impI)
      fix pre d :: bytes and e
      assume a: "length (enc_prop p) \<le> length d" "int (length pre) + int (length (enc_prop p)) + 2 \<le> e"
      have g: "p_type p \<noteq> AMF_INVALID" "\<not> (p_type p \<noteq> AMF_NULL \<and> int (length pre) + av_len (p_name p) + 2 + 1 \<ge> e)"
        using ok a len False length_enc_vu [OF ok] unfolding p by (cases v; auto split: if_splits)+
      have n: "put_name (pre @ d) (int (length pre)) p
          = Some (int (length (pre @ enc_name t nm)), (pre @ enc_name t nm) @ drop (length (enc_name t nm)) d)"
        using wrote_name [of named p d pre] nm a(1) by (simp add: p)
      show "AMFProp_Encode p (pre @ d) (int (length pre)) e =
          Some (Some (int (length pre) + int (length (enc_prop p))), pre @ enc_prop p @ drop (length (enc_prop p)) d)"
        unfolding AMFProp_Encode.simps if_not_P [OF g(1)] if_not_P [OF g(2)] n encode_value_def [symmetric]
        using writesD [OF w, of "drop (length (enc_name t nm)) d" "pre @ enc_name t nm" e] a False
        by (simp add: p add.commute add.left_commute)
    qed
  qed
qed

end
