(* ===== verification/Rtmp_Amf_Value.thy ===== *)
theory Rtmp_Amf_Value
  imports Rtmp_Amf_Round
begin

text \<open>
  What the AMF0 decoder makes of an encoded object: the value of the object, that is, its names and the
  values under them, without the kind of container they came in and without the place the strings are kept.
\<close>

datatype amf_value =
  Amf_Num "64 word" | Amf_Bool bool | Amf_Str "bytes option" | Amf_Null | Amf_Obj "(bytes option \<times> amf_value) list"

primrec prop_value :: "AMFObjectProperty \<Rightarrow> bytes option \<times> amf_value" and vu_value :: "amf_vu \<Rightarrow> AMFDataType \<Rightarrow> amf_value" where
  "prop_value (AMFObjectProperty nm t v u) = (aval_bytes nm, if t = AMF_NULL then Amf_Null else vu_value v t)"
| "vu_value P_none t = Amf_Null"
| "vu_value P_zero t = Amf_Null"
| "vu_value (P_number d) t = (if t = AMF_BOOLEAN then Amf_Bool (double_nonzero d) else Amf_Num d)"
| "vu_value (P_aval s) t = Amf_Str (aval_bytes s)"
| "vu_value (P_object ps) t = Amf_Obj (map prop_value ps)"

definition object_value :: "AMFObject \<Rightarrow> (bytes option \<times> amf_value) list" where
  "object_value ps = map prop_value ps"

section \<open>Numbers and strings\<close>

lemma uint_word8: "uint (word_of_int n :: byte) = take_bit 8 n"
  by (simp add: uint_word_of_int_eq)

lemma join_bits: "push_bit k (take_bit j (drop_bit k n)) OR take_bit k n = take_bit (j + k) (n :: int)"
proof (rule bit_eqI)
  fix m
  show "bit (push_bit k (take_bit j (drop_bit k n)) OR take_bit k n) m \<longleftrightarrow> bit (take_bit (j + k) n) m"
    by (cases "m < k") (auto simp: bit_simps)
qed

lemma int_bits:
  "push_bit 8 (take_bit 8 (drop_bit 8 n)) OR take_bit 8 n = take_bit 16 (n :: int)"
  "push_bit 16 (take_bit 8 (drop_bit 16 n)) OR take_bit 16 n = take_bit 24 (n :: int)"
  "push_bit 24 (take_bit 8 (drop_bit 24 n)) OR take_bit 24 n = take_bit 32 (n :: int)"
  using join_bits [of 8 8 n] join_bits [of 16 8 n] join_bits [of 24 8 n] by simp_all

lemma peek_at: "k < length e \<Longrightarrow> i = int (length a) + int k \<Longrightarrow> peek (a @ e @ b) i = Some (e ! k)"
  using peek_mid [of k e a b] by simp

lemma read_int16: "AMF_DecodeInt16 (pre @ be16 n @ rest) (int (length pre)) = Some (take_bit 16 n)"
  using peek_at [of 0 "be16 n"] peek_at [of 1 "be16 n"]
  by (simp add: AMF_DecodeInt16_def uint_word8 be16_def int_bits)

lemma read_int24: "AMF_DecodeInt24 (pre @ be24 n @ rest) (int (length pre)) = Some (take_bit 24 n)"
  using peek_at [of 0 "be24 n"] peek_at [of 1 "be24 n"] peek_at [of 2 "be24 n"]
  by (simp add: AMF_DecodeInt24_def uint_word8 be24_def be16_def int_bits)

lemma read_int32: "AMF_DecodeInt32 (pre @ be32 n @ rest) (int (length pre)) = Some (take_bit 32 n)"
  using peek_at [of 0 "be32 n"] peek_at [of 1 "be32 n"] peek_at [of 2 "be32 n"] peek_at [of 3 "be32 n"]
  by (simp add: AMF_DecodeInt32_def uint_word8 be32_def be24_def be16_def int_bits numeral_3_eq_3)

lemma bytes_double_step: "push_bit 8 (drop_bit 8 d) OR ucast (ucast d :: byte) = (d :: 64 word)"
  by (rule bit_word_eqI) (auto simp: bit_simps)

lemma bytes_double_bytes: "bytes_double (double_bytes d) = d"
proof -
  have s: "push_bit 8 (drop_bit (8 + k) d) OR ucast (ucast (drop_bit k d) :: byte) = drop_bit k d" for k
    using bytes_double_step [of "drop_bit k d"] by simp
  have z: "drop_bit 64 d = 0" by (rule bit_word_eqI) (simp add: bit_simps)
  show ?thesis
    using s [of 0] s [of 8] s [of 16] s [of 24] s [of 32] s [of 40] s [of 48] s [of 56] z
    by (simp add: bytes_double_def double_bytes_def upt_rec)
qed

lemma read_number: "AMF_DecodeNumber (pre @ rev (double_bytes d) @ rest) (int (length pre)) = Some d"
proof -
  have l: "length (double_bytes d) = 8" by simp
  have "double_bytes d = [double_bytes d ! 0, double_bytes d ! 1, double_bytes d ! 2, double_bytes d ! 3,
     double_bytes d ! 4, double_bytes d ! 5, double_bytes d ! 6, double_bytes d ! 7]"
    by (simp add: double_bytes_def upt_rec)
  then have "[rev (double_bytes d) ! 7, rev (double_bytes d) ! 6, rev (double_bytes d) ! 5, rev (double_bytes d) ! 4,
     rev (double_bytes d) ! 3, rev (double_bytes d) ! 2, rev (double_bytes d) ! 1, rev (double_bytes d) ! 0] = double_bytes d"
    by (simp add: rev_nth)
  then show ?thesis
    by (simp add: AMF_DecodeNumber_def slice_def bytes_double_bytes)
qed

lemma read_string:
  assumes "good_aval s" "av_len s < 65536"
  shows "\<exists>s'. AMF_DecodeString (pre @ be16 (av_len s) @ content s @ rest) (int (length pre)) = Some s' \<and> aval_bytes s' = aval_bytes s"
proof -
  note c = content_good [OF assms(1)]
  have t: "take_bit 16 (av_len s) = av_len s" using assms by (intro take_bit_int_eq_self) (simp_all add: good_aval_def)
  have "slice (pre @ be16 (av_len s) @ content s @ rest) (int (length pre) + 2) (av_len s) = Some (content s)"
    using slice_tail(1) [of 0 "pre @ be16 (av_len s)" "content s @ rest" "av_len s"] slice_take [of "length (content s)" "content s @ rest"] c
    by (simp add: add.commute)
  then show ?thesis
    using read_int16 [of pre "av_len s" "content s @ rest"] c assms(1)
    by (auto simp: AMF_DecodeString_def t aval_bytes_def good_aval_def)
qed

lemma read_long_string:
  assumes "good_aval s" "av_len s < 2 ^ 31"
  shows "\<exists>s'. AMF_DecodeLongString (pre @ be32 (av_len s) @ content s @ rest) (int (length pre)) = Some s' \<and> aval_bytes s' = aval_bytes s"
proof -
  note c = content_good [OF assms(1)]
  have t: "take_bit 32 (av_len s) = av_len s" "int32 (av_len s) = av_len s"
    using assms by (auto intro!: take_bit_int_eq_self signed_take_bit_int_eq_self simp: good_aval_def int32_def)
  have "slice (pre @ be32 (av_len s) @ content s @ rest) (int (length pre) + 4) (av_len s) = Some (content s)"
    using slice_tail(1) [of 0 "pre @ be32 (av_len s)" "content s @ rest" "av_len s"] slice_take [of "length (content s)" "content s @ rest"] c
    by (simp add: add.commute)
  then show ?thesis
    using read_int32 [of pre "av_len s" "content s @ rest"] c assms(1)
    by (auto simp: AMF_DecodeLongString_def Let_def t aval_bytes_def good_aval_def)
qed

section \<open>Properties and objects\<close>

definition reads :: "AMFObjectProperty \<Rightarrow> bool \<Rightarrow> bool" where
  "reads p named \<longleftrightarrow> (\<forall>n junk x pre rest nSize. length (enc_prop p) < n \<longrightarrow> int (length (enc_prop p)) \<le> nSize \<longrightarrow>
     (\<exists>p'. AMFProp_Decode n junk (pre @ enc_prop p @ rest) x (int (length pre)) nSize named = Some (int (length (enc_prop p)), p')
         \<and> prop_value p' = prop_value p))"

lemma readsD:
  assumes "reads p named" "length (enc_prop p) < n" "int (length (enc_prop p)) \<le> nSize" "i = int (length pre)"
  obtains p' where "AMFProp_Decode n junk (pre @ enc_prop p @ rest) x i nSize named = Some (int (length (enc_prop p)), p')" "prop_value p' = prop_value p"
  using assms unfolding reads_def by blast

lemma read_name:
  assumes "good_name named t nm" "t = AMF_NULL \<longrightarrow> \<not> named" "int (length (enc_name t nm)) + 2 \<le> nSize \<or> \<not> named \<and> nSize \<noteq> 0" "p_name x = AV_empty"
  shows "\<exists>x'. decode_name x (pre @ enc_name t nm @ rest) (int (length pre)) nSize named
      = Some (Some (x', int (length pre) + int (length (enc_name t nm)), nSize - int (length (enc_name t nm)))) \<and> aval_bytes (p_name x') = aval_bytes nm"
proof (cases named)
  case True
  then have nm: "good_aval nm" "0 < av_len nm" "av_len nm < 65536" "t \<noteq> AMF_NULL" using assms(1) by (simp_all add: good_name_def)
  note c = content_good [OF nm(1)]
  have e: "enc_name t nm = be16 (av_len nm) @ content nm" using nm by (simp add: enc_name_def)
  obtain s' where s': "AMF_DecodeString (pre @ be16 (av_len nm) @ content nm @ rest) (int (length pre)) = Some s'" "aval_bytes s' = aval_bytes nm"
    using read_string [OF nm(1,3)] by blast
  have t: "take_bit 16 (av_len nm) = av_len nm" using nm by (intro take_bit_int_eq_self) simp_all
  show ?thesis
    using True assms(3) c s' read_int16 [of pre "av_len nm" "content nm @ rest"] nm(2)
    by (simp add: decode_name_def e t AMFProp_SetName_def)
next
  case False
  then have "enc_name t nm = []" "aval_bytes nm = Some []" using assms(1) by (simp_all add: good_name_def enc_name_def aval_bytes_def)
  then show ?thesis using False assms(3,4) by (auto simp: decode_name_def aval_bytes_def AV_empty_def)
qed

lemma int24_prefix: "AMF_DecodeInt24 buf i = Some v \<Longrightarrow> AMF_DecodeInt16 buf i = Some (drop_bit 8 v)"
proof -
  assume "AMF_DecodeInt24 buf i = Some v"
  then obtain c0 c1 c2 where c: "peek buf i = Some c0" "peek buf (i + 1) = Some c1" "v = push_bit 16 (uint c0) OR push_bit 8 (uint c1) OR uint c2"
    "peek buf (i + 2) = Some c2"
    by (auto simp: AMF_DecodeInt24_def bind_eq_Some_conv)
  have "drop_bit 8 (uint c2) = 0"
    using unsigned_less [of c2, where ?'a = int] by (simp add: drop_bit_eq_div)
  then have "drop_bit 8 v = push_bit 8 (uint c0) OR uint c1"
    by (simp add: c(3) drop_bit_or drop_bit_push_bit)
  then show ?thesis using c by (simp add: AMF_DecodeInt16_def)
qed

lemma not_at_end:
  assumes "encodable p True"
  shows "\<exists>v. AMF_DecodeInt24 (pre @ enc_prop p @ rest) (int (length pre)) = Some v \<and> v \<noteq> 9" and "3 \<le> length (enc_prop p)"
proof -
  obtain nm t v u where p: "p = AMFObjectProperty nm t v u" by (cases p) simp
  then have nm: "good_aval nm" "0 < av_len nm" "av_len nm < 65536" "t \<noteq> AMF_NULL" using assms by (auto simp: good_name_def)
  have e: "enc_prop p = be16 (av_len nm) @ content nm @ enc_vu v t" using p nm by (simp add: enc_name_def)
  have "0 < length (content nm)" using content_good [OF nm(1)] nm(2) by linarith
  then show l: "3 \<le> length (enc_prop p)" unfolding e by (simp add: Suc_le_eq)
  have "\<exists>w. AMF_DecodeInt24 (pre @ enc_prop p @ rest) (int (length pre)) = Some w"
    using l peek_at [of 0 "enc_prop p" "int (length pre)" pre rest] peek_at [of 1 "enc_prop p" _ pre rest] peek_at [of 2 "enc_prop p" _ pre rest]
    by (cases "enc_prop p = []") (simp_all add: AMF_DecodeInt24_def)
  then obtain w where w: "AMF_DecodeInt24 (pre @ enc_prop p @ rest) (int (length pre)) = Some w" ..
  have "AMF_DecodeInt16 (pre @ enc_prop p @ rest) (int (length pre)) = Some (av_len nm)"
    using read_int16 [of pre "av_len nm" "content nm @ enc_vu v t @ rest"] nm by (simp add: e take_bit_int_eq_self)
  then have "drop_bit 8 w = av_len nm" using int24_prefix [OF w] by simp
  then have "w \<noteq> 9" using nm(2) by auto
  then show "\<exists>v. AMF_DecodeInt24 (pre @ enc_prop p @ rest) (int (length pre)) = Some v \<and> v \<noteq> 9" using w by blast
qed

lemma read_props:
  assumes "\<And>p. p \<in> set ps \<Longrightarrow> reads p True \<and> encodable p True \<and> length (enc_prop p) < n"
    and "length ps < m" "int (length (enc_props ps)) + 3 \<le> nSize" "i = int (length pre)" "buf = pre @ enc_props ps @ be24 9 @ rest"
  shows "\<exists>ps'. decode_loop m (AMFProp_Decode n junk buf) junk buf i nSize True False obj
      = Some (nSize - int (length (enc_props ps)) - 3, False, obj @ ps') \<and> object_value ps' = object_value ps"
  using assms
proof (induction ps arbitrary: m nSize i pre obj)
  case Nil
  obtain m' where "m = Suc m'" using Nil.prems(2) by (cases m) simp_all
  then show ?case using Nil.prems read_int24 [of pre 9 rest] by (simp add: object_value_def)
next
  case (Cons p ps)
  obtain m' where m: "m = Suc m'" using Cons.prems(2) by (cases m) simp_all
  have p: "reads p True" "encodable p True" "length (enc_prop p) < n" using Cons.prems(1) by simp_all
  have buf: "buf = pre @ enc_prop p @ enc_props ps @ be24 9 @ rest" using Cons.prems(5) by simp
  obtain v where v: "AMF_DecodeInt24 buf i = Some v" "v \<noteq> 9"
    using not_at_end(1) [OF p(2), of pre "enc_props ps @ be24 9 @ rest"] Cons.prems(4) buf by auto
  obtain p' where p': "AMFProp_Decode n junk buf junk i nSize True = Some (int (length (enc_prop p)), p')" "prop_value p' = prop_value p"
    using readsD [OF p(1,3) _ Cons.prems(4), of nSize junk "enc_props ps @ be24 9 @ rest" junk] Cons.prems(3) buf by auto
  obtain ps' where "decode_loop m' (AMFProp_Decode n junk buf) junk buf (i + int (length (enc_prop p))) (nSize - int (length (enc_prop p))) True False (obj @ [p'])
      = Some (nSize - int (length (enc_prop p)) - int (length (enc_props ps)) - 3, False, (obj @ [p']) @ ps') \<and> object_value ps' = object_value ps"
    using Cons.IH [of m' "nSize - int (length (enc_prop p))" "i + int (length (enc_prop p))" "pre @ enc_prop p" "obj @ [p']"] Cons.prems m by auto
  then show ?case using m v p' Cons.prems(3)
    by (auto simp: AMF_AddProp_def object_value_def intro!: exI [of _ "p' # ps'"])
qed

lemma read_elements:
  assumes "\<And>p. p \<in> set ps \<Longrightarrow> reads p False \<and> length (enc_prop p) < n"
    and "int (length (enc_props ps)) \<le> nSize" "i = int (length pre)" "buf = pre @ enc_props ps @ rest"
  shows "\<exists>ps'. array_loop (length ps) (AMFProp_Decode n junk buf) junk i nSize False False obj
      = Some (nSize - int (length (enc_props ps)), False, obj @ ps') \<and> object_value ps' = object_value ps"
  using assms
proof (induction ps arbitrary: nSize i pre obj)
  case (Cons p ps)
  have p: "reads p False" "length (enc_prop p) < n" using Cons.prems(1) by simp_all
  have buf: "buf = pre @ enc_prop p @ enc_props ps @ rest" using Cons.prems(4) by simp
  obtain p' where p': "AMFProp_Decode n junk buf junk i nSize False = Some (int (length (enc_prop p)), p')" "prop_value p' = prop_value p"
    using readsD [OF p _ Cons.prems(3), of nSize junk "enc_props ps @ rest" junk] Cons.prems(2) buf by auto
  obtain ps' where "array_loop (length ps) (AMFProp_Decode n junk buf) junk (i + int (length (enc_prop p))) (nSize - int (length (enc_prop p))) False False (obj @ [p'])
      = Some (nSize - int (length (enc_prop p)) - int (length (enc_props ps)), False, (obj @ [p']) @ ps') \<and> object_value ps' = object_value ps"
    using Cons.IH [of "nSize - int (length (enc_prop p))" "i + int (length (enc_prop p))" "pre @ enc_prop p" "obj @ [p']"] Cons.prems by auto
  then show ?case using p'
    by (auto simp: AMF_AddProp_def object_value_def intro!: exI [of _ "p' # ps'"])
qed (simp add: object_value_def)

lemma type_byte: "schar (word_of_int n) = n" if "0 \<le> n" "n < 128"
  using that by (simp add: schar_def sint_uint uint_word8 signed_take_bit_take_bit signed_take_bit_int_eq_self)

lemma double_of_bool: "double_nonzero (double_of_int 1)" "\<not> double_nonzero 0" "double_of_int 0 = 0"
  by code_simp+

lemma set_prop_simps [simp]:
  "p_type (set_type x t) = t" "p_vu (set_type x t) = p_vu x" "p_name (set_type x t) = p_name x"
  "p_type (set_vu x v) = p_type x" "p_vu (set_vu x v) = v" "p_name (set_vu x v) = p_name x"
  by (simp_all add: set_type_def set_vu_def)

lemma prop_value_fields: "prop_value p = (aval_bytes (p_name p), if p_type p = AMF_NULL then Amf_Null else vu_value (p_vu p) (p_type p))"
  by (cases p) simp

lemma types_read [simp]:
  "amf_type (schar 0) = AMF_NUMBER" "amf_type (schar 1) = AMF_BOOLEAN" "amf_type (schar 2) = AMF_STRING"
  "amf_type (schar 3) = AMF_OBJECT" "amf_type (schar 5) = AMF_NULL" "amf_type (schar 8) = AMF_ECMA_ARRAY"
  "amf_type (schar 10) = AMF_STRICT_ARRAY" "amf_type (schar 12) = AMF_LONG_STRING"
  by code_simp+

lemma peek_head: "peek (q @ c # r) (int (length q)) = Some c"
  by (simp add: peek_def)

lemma read_scalar:
  assumes "decode_name (AMFProp_SetName x AV_empty) (q @ enc_vu v t @ rest) i nSize named = Some (Some (x', int (length q), k))"
    and "int (length (enc_vu v t)) \<le> k" "encodable_vu v t" "\<And>ps. v \<noteq> P_object ps"
  shows "\<exists>y. amf_prop dec_o dec_a dec_3 x (q @ enc_vu v t @ rest) i nSize named = Some (nSize - k + int (length (enc_vu v t)), y)
    \<and> p_name y = p_name x' \<and> p_type y \<noteq> AMF_NULL \<and> vu_value (p_vu y) (p_type y) = vu_value v t"
proof (cases v)
  case (P_number d)
  show ?thesis
  proof (cases "t = AMF_NUMBER")
    case True
    then have e: "enc_vu v t = 0 # rev (double_bytes d)" using P_number by simp
    show ?thesis using assms(1,2) read_number [of "q @ [0]" d rest] unfolding e
      by (simp add: amf_prop_def Let_def peek_head P_number True add.commute)
  next
    case False
    then have e: "enc_vu v t = [1, if double_nonzero d then 1 else 0]" and t: "t = AMF_BOOLEAN" using P_number assms(3) by simp_all
    have "peek (q @ 1 # b # rest) (int (length q) + 1) = Some b" for b using peek_head [of "q @ [1]" b rest] by (simp add: add.commute)
    then show ?thesis using assms(1,2) unfolding e
      by (simp add: amf_prop_def Let_def peek_head P_number t AMF_DecodeBoolean_def double_of_bool split: if_splits)
  qed
next
  case (P_aval s)
  then have s: "good_aval s" "t = AMF_STRING" "av_len s < 2 ^ 31" using assms(3) by simp_all
  note c = content_good [OF s(1)]
  have n: "0 \<le> av_len s" using s(1) by (simp add: good_aval_def)
  show ?thesis
  proof (cases "av_len s < 65536")
    case True
    then have e: "enc_vu v t = 2 # be16 (av_len s) @ content s" using P_aval by (simp add: enc_string_def)
    have t: "take_bit 16 (av_len s) = av_len s" using True n by (intro take_bit_int_eq_self) simp_all
    obtain s' where "AMF_DecodeString ((q @ [2]) @ be16 (av_len s) @ content s @ rest) (int (length (q @ [2]))) = Some s'" "aval_bytes s' = aval_bytes s"
      using read_string [OF s(1) True] by blast
    then show ?thesis using assms(1,2) read_int16 [of "q @ [2]" "av_len s" "content s @ rest"] c unfolding e
      by (simp add: amf_prop_def Let_def peek_head P_aval s(2) t add.commute)
  next
    case False
    then have e: "enc_vu v t = 12 # be32 (av_len s) @ content s" using P_aval by (simp add: enc_string_def)
    have t: "take_bit 32 (av_len s) = av_len s" using s(3) n by (intro take_bit_int_eq_self) simp_all
    obtain s' where "AMF_DecodeLongString ((q @ [12]) @ be32 (av_len s) @ content s @ rest) (int (length (q @ [12]))) = Some s'" "aval_bytes s' = aval_bytes s"
      using read_long_string [OF s(1,3)] by blast
    then show ?thesis using assms(1,2) read_int32 [of "q @ [12]" "av_len s" "content s @ rest"] c unfolding e
      by (simp add: amf_prop_def Let_def peek_head P_aval s(2) t add.commute)
  qed
qed (use assms(3,4) in auto)

lemma read_container:
  assumes "decode_name (AMFProp_SetName x AV_empty) (q @ enc_vu (P_object ps) t @ rest) i nSize named = Some (Some (x', int (length q), k))"
    and "int (length (enc_vu (P_object ps) t)) \<le> k" "encodable_vu (P_object ps) t"
    and "length (enc_vu (P_object ps) t) \<le> n" "\<And>p. p \<in> set ps \<Longrightarrow> reads p (t \<noteq> AMF_STRICT_ARRAY)"
    and "buf = q @ enc_vu (P_object ps) t @ rest"
  shows "\<exists>y. amf_prop (\<lambda>p nSize. amf_object (AMFProp_Decode n junk buf) n junk buf p nSize True)
         (\<lambda>p nSize nArrayLen. amf_array (AMFProp_Decode n junk buf) junk p nSize nArrayLen False)
         (\<lambda>p nSize. AMF3_Decode n junk buf p nSize True) x buf i nSize named = Some (nSize - k + int (length (enc_vu (P_object ps) t)), y)
    \<and> p_name y = p_name x' \<and> p_type y \<noteq> AMF_NULL \<and> vu_value (p_vu y) (p_type y) = vu_value (P_object ps) t"
proof -
  have el: "length (enc_prop p) \<le> length (enc_props ps)" if "p \<in> set ps" for p
    using that by (induction ps) auto
  have ok: "encodable p (t \<noteq> AMF_STRICT_ARRAY)" if "p \<in> set ps" for p using encodable_members [OF assms(3) that] .
  have len: "length ps \<le> length (enc_props ps)"
  proof -
    have "1 \<le> length (enc_prop p)" if "p \<in> set ps" for p
      using ok [OF that] length_enc_vu by (cases p) (force split: if_splits)
    then show ?thesis by (induction ps) fastforce+
  qed
  have ty: "t = AMF_OBJECT \<or> t = AMF_ECMA_ARRAY \<or> t = AMF_STRICT_ARRAY" and l31: "int (length ps) < 2 ^ 31" using assms(3) by auto
  have obj: "\<exists>ps'. amf_object (AMFProp_Decode n junk (a @ enc_props ps @ be24 9 @ rest)) n junk (a @ enc_props ps @ be24 9 @ rest) (int (length a)) m True
      = Some (int (length (enc_props ps)) + 3, ps') \<and> object_value ps' = object_value ps"
    if "int (length (enc_props ps)) + 3 \<le> m" "length (enc_props ps) + 3 \<le> n" "t \<noteq> AMF_STRICT_ARRAY" for a m
    using read_props [of ps n n m "int (length a)" a _ rest junk "[]", OF _ _ that(1) refl refl] assms(5) ok el len that(2,3)
    by (fastforce simp: amf_object_def)
  have n32: "take_bit 32 (int (length ps)) = int (length ps)" "int32 (int (length ps)) = int (length ps)"
    using l31 by (auto intro!: take_bit_int_eq_self signed_take_bit_int_eq_self simp: int32_def)
  show ?thesis using ty
  proof (elim disjE)
    assume t: "t = AMF_OBJECT"
    have e: "enc_vu (P_object ps) t = 3 # enc_props ps @ be24 9" by (simp add: t enc_props_def)
    show ?thesis using assms(1,2,4) obj [of "k - 1" "q @ [3]"] unfolding assms(6) e
      by (auto simp: amf_prop_def Let_def peek_head t object_value_def add.commute)
  next
    assume t: "t = AMF_ECMA_ARRAY"
    have e: "enc_vu (P_object ps) t = 8 # be32 (int (length ps)) @ enc_props ps @ be24 9" by (simp add: t enc_props_def)
    show ?thesis using assms(1,2,4) obj [of "k - 5" "q @ 8 # be32 (int (length ps))"] unfolding assms(6) e
      by (auto simp: amf_prop_def Let_def peek_head t object_value_def add.commute)
  next
    assume t: "t = AMF_STRICT_ARRAY"
    have e: "enc_vu (P_object ps) t = 10 # be32 (int (length ps)) @ enc_props ps" by (simp add: t enc_props_def)
    have "\<exists>ps'. array_loop (length ps) (AMFProp_Decode n junk buf) junk (int (length q) + 5) (k - 5) False False []
        = Some (k - 5 - int (length (enc_props ps)), False, ps') \<and> object_value ps' = object_value ps"
      using read_elements [of ps n "k - 5" "int (length q) + 5" "q @ 10 # be32 (int (length ps))" buf rest junk "[]"]
        assms(2,4,5,6) el unfolding e by (fastforce simp: t)
    then show ?thesis using assms(1,2) read_int32 [of "q @ [10]" "int (length ps)" "enc_props ps @ rest"] unfolding assms(6) e
      by (auto simp: amf_prop_def amf_array_def Let_def peek_head t n32 object_value_def add.commute)
  qed
qed

lemma reads_prop: "encodable p named \<Longrightarrow> reads p named"
proof (induction p arbitrary: named rule: measure_induct_rule [of size])
  case (less p)
  obtain nm t v u where p: "p = AMFObjectProperty nm t v u" by (cases p) simp
  have nm: "good_name named t nm" using less.prems p by simp
  show ?case unfolding reads_def
  proof (intro allI impI)
    fix n junk x and pre rest :: bytes and nSize
    assume n: "length (enc_prop p) < n" and sz: "int (length (enc_prop p)) \<le> nSize"
    obtain m where m: "n = Suc m" using n by (cases n) simp_all
    define val where "val = (if t = AMF_NULL then [5] else enc_vu v t)"
    define q where "q = pre @ enc_name t nm"
    have e: "enc_prop p = enc_name t nm @ val" by (simp add: p val_def)
    have l2: "t \<noteq> AMF_NULL \<Longrightarrow> 2 \<le> length val" using less.prems length_enc_vu by (auto simp: p val_def)
    have nn: "t = AMF_NULL \<longrightarrow> \<not> named" using nm by (auto simp: good_name_def)
    have l1: "1 \<le> length val" using l2 by (cases "t = AMF_NULL") (simp_all add: val_def)
    have c3: "int (length (enc_name t nm)) + 2 \<le> nSize \<or> \<not> named \<and> nSize \<noteq> 0"
      using sz l1 l2 nn unfolding e by (cases named) auto
    have nm0: "p_name (AMFProp_SetName x AV_empty) = AV_empty" by (simp add: AMFProp_SetName_def)
    obtain x' where x': "decode_name (AMFProp_SetName x AV_empty) (pre @ enc_name t nm @ val @ rest) (int (length pre)) nSize named
        = Some (Some (x', int (length pre) + int (length (enc_name t nm)), nSize - int (length (enc_name t nm))))" "aval_bytes (p_name x') = aval_bytes nm"
      using read_name [OF nm nn c3 nm0, of pre "val @ rest"] by blast
    then have dn: "decode_name (AMFProp_SetName x AV_empty) (q @ val @ rest) (int (length pre)) nSize named = Some (Some (x', int (length q), nSize - int (length (enc_name t nm))))"
      by (simp add: q_def)
    have k: "int (length val) \<le> nSize - int (length (enc_name t nm))" using sz e by simp
    have "\<exists>y. AMFProp_Decode n junk (q @ val @ rest) x (int (length pre)) nSize named = Some (int (length (enc_prop p)), y) \<and> prop_value y = prop_value p"
    proof (cases "t = AMF_NULL")
      case True
      then show ?thesis using dn k x'(2) by (simp add: m amf_prop_def Let_def val_def peek_head p e) (simp add: prop_value_fields)
    next
      case False
      then have ok: "encodable_vu v t" and val: "val = enc_vu v t" using less.prems by (simp_all add: p val_def)
      have "\<exists>y. AMFProp_Decode n junk (q @ val @ rest) x (int (length pre)) nSize named = Some (nSize - (nSize - int (length (enc_name t nm))) + int (length val), y)
          \<and> p_name y = p_name x' \<and> p_type y \<noteq> AMF_NULL \<and> vu_value (p_vu y) (p_type y) = vu_value v t"
      proof (cases "\<exists>ps. v = P_object ps")
        case True
        then obtain ps where ps: "v = P_object ps" ..
        have ml: "length (enc_vu (P_object ps) t) \<le> m" using n m e unfolding val ps by simp
        have "reads r (t \<noteq> AMF_STRICT_ARRAY)" if "r \<in> set ps" for r
        proof (rule less.IH)
          show "size r < size p" unfolding p ps using that by (rule member_size)
          show "encodable r (t \<noteq> AMF_STRICT_ARRAY)" using ok that unfolding ps by (rule encodable_members)
        qed
        then show ?thesis
          using read_container [OF dn [unfolded val ps] k [unfolded val ps] ok [unfolded ps] ml _ refl, of junk]
          unfolding m val ps AMFProp_Decode.simps by blast
      next
        case False
        then show ?thesis using read_scalar [OF dn [unfolded val] k [unfolded val] ok] unfolding m val AMFProp_Decode.simps by blast
      qed
      then obtain y where y: "AMFProp_Decode n junk (q @ val @ rest) x (int (length pre)) nSize named = Some (int (length (enc_prop p)), y)"
        "p_name y = p_name x'" "p_type y \<noteq> AMF_NULL" "vu_value (p_vu y) (p_type y) = vu_value v t" by (auto simp: e)
      then have "prop_value y = prop_value p" using x'(2) False by (simp add: prop_value_fields [of y] p)
      then show ?thesis using y(1) by blast
    qed
    then show "\<exists>y. AMFProp_Decode n junk (pre @ enc_prop p @ rest) x (int (length pre)) nSize named = Some (int (length (enc_prop p)), y) \<and> prop_value y = prop_value p"
      by (simp add: e q_def)
  qed
qed

end
