(* ===== verification/Rtmp_Amf3.thy ===== *)
theory Rtmp_Amf3
  imports Rtmp_Amf_Value
begin

text \<open>
  Integers of AMF3: the variable length encoding of the format as a specification, and what
  \<open>AMF3ReadInteger\<close> makes of it.  Members of AMF3 classes.
\<close>

text \<open>A number of 29 bits in at most four bytes: seven bits a byte with a continuation bit, and all eight
  bits of a fourth byte.\<close>

definition u29 :: "int \<Rightarrow> bytes" where
  "u29 v =
     (if v < 2 ^ 7 then [word_of_int v]
      else if v < 2 ^ 14 then [word_of_int (128 + v div 2 ^ 7), word_of_int (v mod 2 ^ 7)]
      else if v < 2 ^ 21 then
        [word_of_int (128 + v div 2 ^ 14), word_of_int (128 + v div 2 ^ 7 mod 2 ^ 7), word_of_int (v mod 2 ^ 7)]
      else [word_of_int (128 + v div 2 ^ 22), word_of_int (128 + v div 2 ^ 15 mod 2 ^ 7),
            word_of_int (128 + v div 2 ^ 8 mod 2 ^ 7), word_of_int (v mod 2 ^ 8)])"

text \<open>What it stands for as a signed number.\<close>

definition s29 :: "int \<Rightarrow> int" where
  "s29 v = (if v \<ge> 2 ^ 28 then v - 2 ^ 29 else v)"

lemma or_low: "push_bit k a OR x = 2 ^ k * a + (x :: int)" if "0 \<le> x" "x < 2 ^ k"
proof -
  have "push_bit k a AND x = 0"
  proof (rule bit_eqI)
    fix n
    have "\<not> bit x n" if "k \<le> n"
    proof -
      have "x < 2 ^ n" using \<open>x < 2 ^ k\<close> power_increasing [OF that, of "2 :: int"] by linarith
      then have "x div 2 ^ n = 0" using \<open>0 \<le> x\<close> by (intro div_pos_pos_trivial)
      then show ?thesis by (simp add: bit_iff_odd)
    qed
    then show "bit (push_bit k a AND x) n = bit (0 :: int) n" by (auto simp: bit_simps)
  qed
  then show ?thesis by (simp add: push_bit_eq_mult disjunctive_add_eq_or [symmetric] mult.commute)
qed

lemma continued:
  assumes "0 \<le> x" "x < 128"
  shows "(word_of_int (128 + x) :: byte) AND 0x80 \<noteq> 0" "uint ((word_of_int (128 + x) :: byte) AND 0x7f) = x"
proof -
  have u: "uint (word_of_int (128 + x) :: byte) = 128 + x" unfolding uint_word8 using assms by (intro take_bit_int_eq_self) simp_all
  have "(128 + x) AND 0x80 = 128 + (x AND 0x80)" "x AND 0x80 = 0" "(128 + x) AND 0x7f = x"
  proof -
    have e: "128 + x = push_bit 7 1 OR x" using or_low [of x 7 1] assms by simp
    have t: "x AND 0x7f = x"
    proof -
      have "x AND 0x7f = take_bit 7 x" by (simp add: take_bit_eq_mask mask_eq_exp_minus_1)
      then show ?thesis using assms by (simp add: take_bit_int_eq_self)
    qed
    have z: "x AND 0x80 = 0"
    proof -
      have "x AND 2 ^ 7 = 0 \<longleftrightarrow> \<not> bit x 7" by (rule and_exp_eq_0_iff_not_bit)
      then show ?thesis using assms by (simp add: bit_iff_odd)
    qed
    then show "x AND 0x80 = 0" .
    show "(128 + x) AND 0x80 = 128 + (x AND 0x80)" unfolding e by (simp add: bit.conj_disj_distrib2 z)
    show "(128 + x) AND 0x7f = x" unfolding e by (simp add: bit.conj_disj_distrib2 t)
  qed
  note b = this
  have "uint ((word_of_int (128 + x) :: byte) AND 0x80) = 128" using b u by (simp add: uint_and)
  then show "(word_of_int (128 + x) :: byte) AND 0x80 \<noteq> 0" by auto
  show "uint ((word_of_int (128 + x) :: byte) AND 0x7f) = x" using b u by (simp add: uint_and)
qed

lemma last_byte:
  assumes "0 \<le> x" "x < 128"
  shows "(word_of_int x :: byte) AND 0x80 = 0" "schar (word_of_int x) = x"
proof -
  have u: "uint (word_of_int x :: byte) = x" unfolding uint_word8 using assms by (intro take_bit_int_eq_self) simp_all
  have "x AND 2 ^ 7 = 0" using and_exp_eq_0_iff_not_bit [of x 7] assms by (simp add: bit_iff_odd)
  then have "uint ((word_of_int x :: byte) AND 0x80) = 0" using u by (simp add: uint_and)
  then show "(word_of_int x :: byte) AND 0x80 = 0" by (metis uint_0_iff)
  show "schar (word_of_int x) = x" using assms by (rule type_byte)
qed

text \<open>Bytes with the continuation bit add seven bits each.\<close>

lemma int_loop_more:
  assumes "i \<le> 2" "peek buf (data + i) = Some (word_of_int (128 + x))" "0 \<le> x" "x < 128"
  shows "amf3_int_loop buf data i val = amf3_int_loop buf data (i + 1) (128 * val + x)"
  using assms continued [OF assms(3,4)] or_low [of x 7 val] by (subst amf3_int_loop.simps) simp

lemma int_loop_last:
  assumes "i \<le> 2" "peek buf (data + i) = Some (word_of_int x)" "0 \<le> x" "x < 128"
  shows "amf3_int_loop buf data i val = Some (i, val)"
  using assms last_byte(1) [OF assms(3,4)] by (subst amf3_int_loop.simps) simp

lemma int_loop_full: "amf3_int_loop buf data 3 val = Some (3, val)"
  by (subst amf3_int_loop.simps) simp

text \<open>The last byte of four is a signed \<open>char\<close>: from 0x80 on its sign covers all other bits.\<close>

lemma or_signed:
  assumes "0 \<le> x" "x < 256"
  shows "push_bit 8 a OR schar (word_of_int x) = (if x < 128 then 256 * a + x else x - 256)"
proof (cases "x < 128")
  case True
  then show ?thesis using last_byte(2) [OF assms(1)] or_low [of x 8 a] assms by simp
next
  case False
  have "schar (word_of_int x) = signed_take_bit 7 x" by (simp add: schar_def sint_uint uint_word8 signed_take_bit_take_bit)
  also have "\<dots> = x - 256"
  proof -
    have "signed_take_bit 7 x = signed_take_bit 7 (x - 256)"
      by (simp add: signed_take_bit_eq_iff_take_bit_eq take_bit_eq_mod)
    also have "\<dots> = x - 256" using False assms by (intro signed_take_bit_int_eq_self) simp_all
    finally show ?thesis .
  qed
  finally have s: "schar (word_of_int x) = x - 256" .
  have "push_bit 8 a OR (x - 256) = x - 256"
  proof (rule bit_eqI)
    fix n
    have "bit (x - 256) n" if "8 \<le> n"
    proof -
      have "256 \<le> (2 :: int) ^ n" using power_increasing [OF that, of "2 :: int"] by simp
      then have "(x - 256) div 2 ^ n = - 1" 
        using assms int_div_pos_eq [of "x - 256" "2 ^ n" "- 1" "x - 256 + 2 ^ n"] by simp
      then show ?thesis by (simp add: bit_iff_odd)
    qed
    then show "bit (push_bit 8 a OR (x - 256)) n = bit (x - 256) n" by (auto simp: bit_simps)
  qed
  then show ?thesis using s False by simp
qed

lemma peek_list: "k < length e \<Longrightarrow> peek (pre @ e @ rest) (int (length pre) + int k) = Some (e ! k)"
  by (rule peek_mid)

lemma read_u29:
  assumes "0 \<le> v" "v < 2 ^ 29"
  shows "AMF3ReadInteger (pre @ u29 v @ rest) (int (length pre)) =
    Some (int (length (u29 v)), if v < 2 ^ 21 \<or> v mod 256 < 128 then s29 v else v mod 256 - 256)"
proof -
  let ?d = "int (length pre)"
  consider "v < 2 ^ 7" | "2 ^ 7 \<le> v" "v < 2 ^ 14" | "2 ^ 14 \<le> v" "v < 2 ^ 21" | "2 ^ 21 \<le> v" by linarith
  then show ?thesis
  proof cases
    case 1
    have e: "u29 v = [word_of_int v]" using 1 by (simp add: u29_def)
    have p: "peek (pre @ u29 v @ rest) (?d + 0) = Some (word_of_int v)" using peek_list [of 0 "u29 v" pre rest] e by simp
    show ?thesis using int_loop_last [OF _ p, of 0] p last_byte(2) [of v] assms 1
      by (simp add: AMF3ReadInteger_def e s29_def)
  next
    case 2
    let ?a = "v div 2 ^ 7" and ?z = "v mod 2 ^ 7"
    have e: "u29 v = [word_of_int (128 + ?a), word_of_int ?z]" using 2 by (simp add: u29_def)
    have b: "0 \<le> ?a" "?a < 128" "0 \<le> ?z" "?z < 128" using 2 assms by simp_all
    have p: "peek (pre @ u29 v @ rest) (?d + 0) = Some (word_of_int (128 + ?a))" "peek (pre @ u29 v @ rest) (?d + 1) = Some (word_of_int ?z)"
      using peek_list [of 0 "u29 v" pre rest] peek_list [of 1 "u29 v" pre rest] e by simp_all
    have l: "amf3_int_loop (pre @ u29 v @ rest) ?d 0 0 = Some (1, ?a)"
      using int_loop_more [OF _ p(1) b(1,2), of 0] int_loop_last [OF _ p(2) b(3,4), of ?a] by simp
    have "push_bit 7 ?a OR schar (word_of_int ?z) = v"
      using last_byte(2) [OF b(3,4)] or_low [of ?z 7 ?a] b mult_div_mod_eq [of "2 ^ 7" v] by simp
    then show ?thesis using l p(2) 2 by (simp add: AMF3ReadInteger_def s29_def) (simp add: e)
  next
    case 3
    let ?a = "v div 2 ^ 14" and ?b = "v div 2 ^ 7 mod 2 ^ 7" and ?z = "v mod 2 ^ 7"
    have e: "u29 v = [word_of_int (128 + ?a), word_of_int (128 + ?b), word_of_int ?z]" using 3 by (simp add: u29_def)
    have b: "0 \<le> ?a" "?a < 128" "0 \<le> ?b" "?b < 128" "0 \<le> ?z" "?z < 128" using 3 assms by simp_all
    have p: "peek (pre @ u29 v @ rest) (?d + 0) = Some (word_of_int (128 + ?a))" "peek (pre @ u29 v @ rest) (?d + 1) = Some (word_of_int (128 + ?b))"
      "peek (pre @ u29 v @ rest) (?d + 2) = Some (word_of_int ?z)"
      using peek_list [of 0 "u29 v" pre rest] peek_list [of 1 "u29 v" pre rest] peek_list [of 2 "u29 v" pre rest] e by simp_all
    have l: "amf3_int_loop (pre @ u29 v @ rest) ?d 0 0 = Some (2, 128 * ?a + ?b)"
      using int_loop_more [OF _ p(1) b(1,2), of 0] int_loop_more [OF _ p(2) b(3,4), of ?a] int_loop_last [OF _ p(3) b(5,6), of "128 * ?a + ?b"] by simp
    have ab: "128 * ?a + ?b = v div 2 ^ 7" using mult_div_mod_eq [of "2 ^ 7" "v div 2 ^ 7"] zdiv_zmult2_eq [of "2 ^ 7" v "2 ^ 7"] by simp
    have "push_bit 7 (v div 2 ^ 7) OR schar (word_of_int ?z) = v"
      using last_byte(2) [OF b(5,6)] or_low [of ?z 7 "v div 2 ^ 7"] b mult_div_mod_eq [of "2 ^ 7" v] by simp
    then show ?thesis using l p(3) 3 ab by (simp add: AMF3ReadInteger_def s29_def) (simp add: e)
  next
    case 4
    let ?a = "v div 2 ^ 22" and ?b = "v div 2 ^ 15 mod 2 ^ 7" and ?c = "v div 2 ^ 8 mod 2 ^ 7" and ?z = "v mod 2 ^ 8"
    have e: "u29 v = [word_of_int (128 + ?a), word_of_int (128 + ?b), word_of_int (128 + ?c), word_of_int ?z]" using 4 by (simp add: u29_def)
    have b: "0 \<le> ?a" "?a < 128" "0 \<le> ?b" "?b < 128" "0 \<le> ?c" "?c < 128" "0 \<le> ?z" "?z < 256" using assms by simp_all
    have p: "peek (pre @ u29 v @ rest) (?d + 0) = Some (word_of_int (128 + ?a))" "peek (pre @ u29 v @ rest) (?d + 1) = Some (word_of_int (128 + ?b))"
      "peek (pre @ u29 v @ rest) (?d + 2) = Some (word_of_int (128 + ?c))" "peek (pre @ u29 v @ rest) (?d + 3) = Some (word_of_int ?z)"
      using peek_list [of 0 "u29 v" pre rest] peek_list [of 1 "u29 v" pre rest] peek_list [of 2 "u29 v" pre rest] peek_list [of 3 "u29 v" pre rest] e
      by (simp_all add: numeral_3_eq_3)
    have l: "amf3_int_loop (pre @ u29 v @ rest) ?d 0 0 = Some (3, 128 * (128 * ?a + ?b) + ?c)"
      using int_loop_more [OF _ p(1) b(1,2), of 0] int_loop_more [OF _ p(2) b(3,4), of ?a] int_loop_more [OF _ p(3) b(5,6), of "128 * ?a + ?b"]
        int_loop_full by simp
    have "128 * (128 * ?a + ?b) + ?c = v div 2 ^ 8"
      using mult_div_mod_eq [of "2 ^ 7" "v div 2 ^ 15"] mult_div_mod_eq [of "2 ^ 7" "v div 2 ^ 8"] zdiv_zmult2_eq [of "2 ^ 7" v "2 ^ 15"] zdiv_zmult2_eq [of "2 ^ 7" v "2 ^ 8"] by simp
    then have "amf3_int_loop (pre @ u29 v @ rest) ?d 0 0 = Some (3, v div 2 ^ 8)" using l by simp
    moreover have "push_bit 8 (v div 2 ^ 8) OR schar (word_of_int ?z) = (if ?z < 128 then v else ?z - 256)"
      using or_signed [OF b(7,8), of "v div 2 ^ 8"] mult_div_mod_eq [of "2 ^ 8" v] by simp
    moreover have "\<not> 268435711 < v mod 256" using pos_mod_bound [of 256 v] by linarith
    ultimately show ?thesis using p(4) 4 by (simp add: AMF3ReadInteger_def s29_def Let_def) (simp add: e)
  qed
qed

text \<open>The loop over the members of a class never ends: the number of members grows with each round.\<close>

lemma members_never_read: "i < cd_num cd \<Longrightarrow> amf3_members n junk buf i cd p nSize = None"
proof (induction n arbitrary: i cd p nSize)
  case (Suc n)
  have "cd_num cd' = cd_num cd + 1" if "AMF3CD_AddProp cd s = Some cd'" for s cd'
    using that by (auto simp: AMF3CD_AddProp_def split: bind_splits if_splits)
  then show ?case using Suc.IH Suc.prems by (fastforce split: bind_splits)
qed simp

end
