(* ===== verification/Rtmp_Amf_Safe.thy ===== *)
theory Rtmp_Amf_Safe
  imports Rtmp_Amf_Round
begin

text \<open>
  The encoder on an arbitrary object: whether the object fits or not, nothing is read through a bad pointer
  and nothing is written outside of the space it is given.
\<close>

text \<open>\<open>within p e buf buf'\<close>: the two buffers differ only between the offsets \<open>p\<close> and \<open>e\<close>.\<close>

definition within :: "int \<Rightarrow> int \<Rightarrow> bytes \<Rightarrow> bytes \<Rightarrow> bool" where
  "within p e buf buf' \<longleftrightarrow> length buf' = length buf \<and> take (nat p) buf' = take (nat p) buf \<and> drop (nat e) buf' = drop (nat e) buf"

lemma within_refl [simp]: "within p e buf buf"
  by (simp add: within_def)

lemma within_trans:
  assumes "within p e buf buf'" "within q e buf' buf''" "p \<le> q"
  shows "within p e buf buf''"
proof -
  have "take (nat p) buf'' = take (nat p) buf'"
  proof -
    have "take (nat p) (take (nat q) buf'') = take (nat p) (take (nat q) buf')" using assms(2) by (simp add: within_def)
    then show ?thesis using assms(3) by (simp add: min_absorb1 nat_mono)
  qed
  then show ?thesis using assms by (simp add: within_def)
qed

lemma store_within:
  assumes "0 \<le> p" "p \<le> i" "i + int (length src) \<le> e" "e \<le> int (length buf)"
  shows "\<exists>buf'. store buf i src = Some buf' \<and> within p e buf buf'"
proof (cases "src = []")
  case False
  define k where "k = nat i"
  have i: "i = int k" using assms by (simp add: k_def)
  have "take (nat p) (take k buf @ src @ drop (k + length src) buf) = take (nat p) buf"
    using assms i by (simp add: min_absorb1 nat_le_iff)
  moreover have "drop (nat e) (take k buf @ src @ drop (k + length src) buf) = drop (nat e) buf"
    using assms i by (simp add: le_nat_iff)
  ultimately show ?thesis using assms i False by (simp add: store_def within_def)
qed simp

definition confined :: "(bytes \<Rightarrow> int \<Rightarrow> int \<Rightarrow> out) \<Rightarrow> bool" where
  "confined f \<longleftrightarrow> (\<forall>buf p e. 0 \<le> p \<longrightarrow> e \<le> int (length buf) \<longrightarrow>
     (\<exists>r buf'. f buf p e = Some (r, buf') \<and> within p e buf buf' \<and> (case r of None \<Rightarrow> True | Some q \<Rightarrow> p \<le> q \<and> q \<le> e)))"

lemma confinedI:
  assumes "\<And>buf p e. 0 \<le> p \<Longrightarrow> e \<le> int (length buf) \<Longrightarrow>
     \<exists>r buf'. f buf p e = Some (r, buf') \<and> within p e buf buf' \<and> (case r of None \<Rightarrow> True | Some q \<Rightarrow> p \<le> q \<and> q \<le> e)"
  shows "confined f"
  using assms by (simp add: confined_def)

lemma confinedD:
  "confined f \<Longrightarrow> 0 \<le> p \<Longrightarrow> e \<le> int (length buf) \<Longrightarrow>
   \<exists>r buf'. f buf p e = Some (r, buf') \<and> within p e buf buf' \<and> (case r of None \<Rightarrow> True | Some q \<Rightarrow> p \<le> q \<and> q \<le> e)"
  by (simp add: confined_def)

lemma confinedE:
  assumes "confined f" "0 \<le> p" "e \<le> int (length buf)"
  obtains (null) buf' where "f buf p e = Some (None, buf')" "within p e buf buf'"
  | (pos) q buf' where "f buf p e = Some (Some q, buf')" "within p e buf buf'" "p \<le> q" "q \<le> e"
  using assms unfolding confined_def by (metis (no_types, lifting) option.simps(4,5) option.exhaust)

lemma within_length: "within p e buf buf' \<Longrightarrow> length buf' = length buf"
  by (simp add: within_def)

text \<open>Two stores after each other.\<close>

lemma then_store:
  assumes "within p e buf buf'" "0 \<le> p" "p \<le> i" "i + int (length src) \<le> e" "e \<le> int (length buf)"
  shows "\<exists>buf''. store buf' i src = Some buf'' \<and> within p e buf buf''"
  using store_within [of p i src e buf'] assms within_trans [OF assms(1), of p] within_length [OF assms(1)] by fastforce

lemma put_type_within:
  "0 \<le> p \<Longrightarrow> p < e \<Longrightarrow> e \<le> int (length buf) \<Longrightarrow> \<exists>buf'. put_type buf p t = Some buf' \<and> within p e buf buf'"
  unfolding put_type_def by (rule store_within) simp_all

lemma put_aval_within:
  assumes "good_aval s" "within p e buf buf'" "0 \<le> p" "p \<le> i" "i + av_len s \<le> e" "e \<le> int (length buf)"
  shows "\<exists>buf''. put_aval buf' i s = Some buf'' \<and> within p e buf buf''"
  using then_store [OF assms(2-4), of "content s"] content_good [OF assms(1)] assms(5,6) by (simp add: put_aval_def)

lemma int16_confined: "confined (\<lambda>buf p e. AMF_EncodeInt16 buf p e n)"
proof (rule confinedI)
  fix buf :: bytes and p e :: int
  assume a: "0 \<le> p" "e \<le> int (length buf)"
  show "\<exists>r buf'. AMF_EncodeInt16 buf p e n = Some (r, buf') \<and> within p e buf buf' \<and> (case r of None \<Rightarrow> True | Some q \<Rightarrow> p \<le> q \<and> q \<le> e)"
  proof (cases "p + 2 \<le> e")
    case True
    obtain b1 where b1: "store buf (p + 1) [word_of_int (n AND 0xff)] = Some b1" "within p e buf b1"
      using store_within [of p "p + 1" "[word_of_int (n AND 0xff)]" e buf] a True by auto
    obtain b2 where "store b1 p [word_of_int (drop_bit 8 n)] = Some b2" "within p e buf b2"
      using then_store [OF b1(2) a(1), of p "[word_of_int (drop_bit 8 n)]"] a True by auto
    then show ?thesis using True b1 by (simp add: AMF_EncodeInt16_def)
  qed (simp add: AMF_EncodeInt16_def)
qed

lemma int24_confined: "confined (\<lambda>buf p e. AMF_EncodeInt24 buf p e n)"
proof (rule confinedI)
  fix buf :: bytes and p e :: int
  assume a: "0 \<le> p" "e \<le> int (length buf)"
  show "\<exists>r buf'. AMF_EncodeInt24 buf p e n = Some (r, buf') \<and> within p e buf buf' \<and> (case r of None \<Rightarrow> True | Some q \<Rightarrow> p \<le> q \<and> q \<le> e)"
  proof (cases "p + 3 \<le> e")
    case True
    obtain b1 where b1: "store buf (p + 2) [word_of_int (n AND 0xff)] = Some b1" "within p e buf b1"
      using store_within [of p "p + 2" "[word_of_int (n AND 0xff)]" e buf] a True by auto
    obtain b2 where b2: "store b1 (p + 1) [word_of_int (drop_bit 8 n)] = Some b2" "within p e buf b2"
      using then_store [OF b1(2) a(1), of "p + 1" "[word_of_int (drop_bit 8 n)]"] a True by auto
    obtain b3 where "store b2 p [word_of_int (drop_bit 16 n)] = Some b3" "within p e buf b3"
      using then_store [OF b2(2) a(1), of p "[word_of_int (drop_bit 16 n)]"] a True by auto
    then show ?thesis using True b1 b2 by (simp add: AMF_EncodeInt24_def)
  qed (simp add: AMF_EncodeInt24_def)
qed

lemma int32_confined: "confined (\<lambda>buf p e. AMF_EncodeInt32 buf p e n)"
proof (rule confinedI)
  fix buf :: bytes and p e :: int
  assume a: "0 \<le> p" "e \<le> int (length buf)"
  show "\<exists>r buf'. AMF_EncodeInt32 buf p e n = Some (r, buf') \<and> within p e buf buf' \<and> (case r of None \<Rightarrow> True | Some q \<Rightarrow> p \<le> q \<and> q \<le> e)"
  proof (cases "p + 4 \<le> e")
    case True
    obtain b1 where b1: "store buf (p + 3) [word_of_int (n AND 0xff)] = Some b1" "within p e buf b1"
      using store_within [of p "p + 3" "[word_of_int (n AND 0xff)]" e buf] a True by auto
    obtain b2 where b2: "store b1 (p + 2) [word_of_int (drop_bit 8 n)] = Some b2" "within p e buf b2"
      using then_store [OF b1(2) a(1), of "p + 2" "[word_of_int (drop_bit 8 n)]"] a True by auto
    obtain b3 where b3: "store b2 (p + 1) [word_of_int (drop_bit 16 n)] = Some b3" "within p e buf b3"
      using then_store [OF b2(2) a(1), of "p + 1" "[word_of_int (drop_bit 16 n)]"] a True by auto
    obtain b4 where "store b3 p [word_of_int (drop_bit 24 n)] = Some b4" "within p e buf b4"
      using then_store [OF b3(2) a(1), of p "[word_of_int (drop_bit 24 n)]"] a True by auto
    then show ?thesis using True b1 b2 b3 by (simp add: AMF_EncodeInt32_def)
  qed (simp add: AMF_EncodeInt32_def)
qed

lemma int_position:
  "AMF_EncodeInt16 buf p e n = Some (r, buf') \<Longrightarrow> p + 2 \<le> e \<Longrightarrow> r = Some (p + 2)"
  "AMF_EncodeInt32 buf p e n = Some (r, buf') \<Longrightarrow> p + 4 \<le> e \<Longrightarrow> r = Some (p + 4)"
  by (auto simp: AMF_EncodeInt16_def AMF_EncodeInt32_def split: bind_splits)

text \<open>A type byte, and then an encoder that has room.\<close>

lemma type_then:
  assumes "confined f" "0 \<le> p" "p < e" "e \<le> int (length buf)"
  shows "\<exists>b r b'. put_type buf p t = Some b \<and> f b (p + 1) e = Some (r, b') \<and> within p e buf b'"
proof -
  obtain b where b: "put_type buf p t = Some b" "within p e buf b" using put_type_within assms by blast
  have "0 \<le> p + 1" "e \<le> int (length b)" using assms within_length [OF b(2)] by simp_all
  from confinedD [OF assms(1) this] obtain r b' where "f b (p + 1) e = Some (r, b')" "within (p + 1) e b b'" by blast
  then show ?thesis using b within_trans [OF b(2), of "p + 1" b'] by auto
qed

lemma string_confined: "good_aval s \<Longrightarrow> confined (\<lambda>buf p e. AMF_EncodeString buf p e s)"
proof (rule confinedI)
  fix buf :: bytes and p e :: int
  assume s: "good_aval s" and a: "0 \<le> p" "e \<le> int (length buf)"
  have n: "0 \<le> av_len s" using s by (simp add: good_aval_def)
  show "\<exists>r buf'. AMF_EncodeString buf p e s = Some (r, buf') \<and> within p e buf buf' \<and> (case r of None \<Rightarrow> True | Some q \<Rightarrow> p \<le> q \<and> q \<le> e)"
  proof (cases "av_len s < 65536 \<and> p + 1 + 2 + av_len s > e \<or> p + 1 + 4 + av_len s > e")
    case False
    then have room: "p + 5 + av_len s \<le> e" by auto
    then have pe: "p < e" using n by simp
    show ?thesis
    proof (cases "av_len s < 65536")
      case True
      obtain b r b' where b: "put_type buf p AMF_STRING = Some b" "AMF_EncodeInt16 b (p + 1) e (short (av_len s)) = Some (r, b')" "within p e buf b'"
        using type_then [OF int16_confined a(1) pe a(2)] by blast
      have "r = Some (p + 3)" using int_position(1) [OF b(2)] room n by simp
      moreover obtain b'' where "put_aval b' (p + 3) s = Some b''" "within p e buf b''"
        using put_aval_within [OF s b(3) a(1), of "p + 3"] room a(2) by auto
      ultimately show ?thesis using False True b room n by (simp add: AMF_EncodeString_def)
    next
      case long: False
      obtain b r b' where b: "put_type buf p AMF_LONG_STRING = Some b" "AMF_EncodeInt32 b (p + 1) e (av_len s) = Some (r, b')" "within p e buf b'"
        using type_then [OF int32_confined a(1) pe a(2)] by blast
      have "r = Some (p + 5)" using int_position(2) [OF b(2)] room n by simp
      moreover obtain b'' where "put_aval b' (p + 5) s = Some b''" "within p e buf b''"
        using put_aval_within [OF s b(3) a(1), of "p + 5"] room a(2) by auto
      ultimately show ?thesis using False long b room n by (simp add: AMF_EncodeString_def)
    qed
  qed (simp add: AMF_EncodeString_def)
qed

lemma number_confined: "confined (\<lambda>buf p e. AMF_EncodeNumber buf p e d)"
proof (rule confinedI)
  fix buf :: bytes and p e :: int
  assume a: "0 \<le> p" "e \<le> int (length buf)"
  let ?ci = "double_bytes d"
  let ?src = "[?ci ! 7, ?ci ! 6, ?ci ! 5, ?ci ! 4, ?ci ! 3, ?ci ! 2, ?ci ! 1, ?ci ! 0]"
  show "\<exists>r buf'. AMF_EncodeNumber buf p e d = Some (r, buf') \<and> within p e buf buf' \<and> (case r of None \<Rightarrow> True | Some q \<Rightarrow> p \<le> q \<and> q \<le> e)"
  proof (cases "p + 9 \<le> e")
    case True
    then have pe: "p < e" by simp
    obtain b where b: "put_type buf p AMF_NUMBER = Some b" "within p e buf b" using put_type_within [OF a(1) pe a(2)] by blast
    obtain b' where "store b (p + 1) ?src = Some b'" "within p e buf b'"
      using then_store [OF b(2) a(1), of "p + 1" ?src] True a(2) by auto
    then show ?thesis using True b(1) by (simp add: AMF_EncodeNumber_def Let_def)
  qed (simp add: AMF_EncodeNumber_def)
qed

lemma boolean_confined: "confined (\<lambda>buf p e. AMF_EncodeBoolean buf p e x)"
proof (rule confinedI)
  fix buf :: bytes and p e :: int
  assume a: "0 \<le> p" "e \<le> int (length buf)"
  show "\<exists>r buf'. AMF_EncodeBoolean buf p e x = Some (r, buf') \<and> within p e buf buf' \<and> (case r of None \<Rightarrow> True | Some q \<Rightarrow> p \<le> q \<and> q \<le> e)"
  proof (cases "p + 2 \<le> e")
    case True
    then have pe: "p < e" by simp
    obtain b where b: "put_type buf p AMF_BOOLEAN = Some b" "within p e buf b" using put_type_within [OF a(1) pe a(2)] by blast
    obtain b' where "store b (p + 1) [if x \<noteq> 0 then 1 else 0] = Some b'" "within p e buf b'"
      using then_store [OF b(2) a(1), of "p + 1" "[if x \<noteq> 0 then 1 else 0]"] True a(2) by auto
    then show ?thesis using True b(1) by (simp add: AMF_EncodeBoolean_def)
  qed (simp add: AMF_EncodeBoolean_def)
qed

text \<open>An object whose strings can be read and whose union holds what the type says.\<close>

definition container_type :: "AMFDataType \<Rightarrow> bool" where
  "container_type t \<longleftrightarrow> t = AMF_OBJECT \<or> t = AMF_ECMA_ARRAY \<or> t = AMF_STRICT_ARRAY"

definition number_type :: "AMFDataType \<Rightarrow> bool" where
  "number_type t \<longleftrightarrow> t = AMF_NUMBER \<or> t = AMF_BOOLEAN"

primrec readable :: "AMFObjectProperty \<Rightarrow> bool" and readable_vu :: "amf_vu \<Rightarrow> AMFDataType \<Rightarrow> bool" where
  "readable (AMFObjectProperty nm t v u) \<longleftrightarrow> good_aval nm \<and> readable_vu v t"
| "readable_vu P_none t \<longleftrightarrow> \<not> number_type t \<and> \<not> container_type t \<and> t \<noteq> AMF_STRING"
| "readable_vu P_zero t \<longleftrightarrow> \<not> number_type t \<and> \<not> container_type t \<and> t \<noteq> AMF_STRING"
| "readable_vu (P_number d) t \<longleftrightarrow> \<not> container_type t \<and> t \<noteq> AMF_STRING"
| "readable_vu (P_aval s) t \<longleftrightarrow> \<not> number_type t \<and> \<not> container_type t \<and> good_aval s"
| "readable_vu (P_object ps) t \<longleftrightarrow> \<not> number_type t \<and> t \<noteq> AMF_STRING \<and> list_all (\<lambda>ok. ok) (map readable ps)"

lemma readable_members: "readable_vu (P_object ps) t \<Longrightarrow> q \<in> set ps \<Longrightarrow> readable q"
  by (auto simp: list_all_iff)

lemma props_confined:
  assumes "\<And>q. q \<in> set ps \<Longrightarrow> confined (AMFProp_Encode q)" "0 \<le> p" "p \<le> e" "e \<le> int (length buf)"
  shows "\<exists>q buf'. encode_props ps buf p e = Some (q, buf') \<and> within p e buf buf' \<and> p \<le> q \<and> q \<le> e"
  using assms
proof (induction ps arbitrary: p buf)
  case (Cons x ps)
  have c: "confined (AMFProp_Encode x)" using Cons.prems(1) by simp
  show ?case
  proof (cases rule: confinedE [OF c Cons.prems(2,4)])
    case (1 buf')
    then show ?thesis using Cons.prems(3) by simp
  next
    case (2 q buf')
    have "0 \<le> q" "q \<le> e" "e \<le> int (length buf')" using 2 Cons.prems within_length [of p e buf buf'] by simp_all
    from Cons.IH [OF _ this] Cons.prems(1) obtain q' b where "encode_props ps buf' q e = Some (q', b)" "within q e buf' b" "q \<le> q'" "q' \<le> e" by auto
    then show ?thesis using 2 within_trans [OF 2(2), of q b] by auto
  qed
qed simp

lemma object_confined:
  assumes "\<And>q. q \<in> set ps \<Longrightarrow> confined (AMFProp_Encode q)"
  shows "confined (AMF_Encode ps)"
proof (rule confinedI)
  fix buf :: bytes and p e :: int
  assume a: "0 \<le> p" "e \<le> int (length buf)"
  show "\<exists>r buf'. AMF_Encode ps buf p e = Some (r, buf') \<and> within p e buf buf' \<and> (case r of None \<Rightarrow> True | Some q \<Rightarrow> p \<le> q \<and> q \<le> e)"
  proof (cases "p + 4 < e")
    case True
    then have pe: "p < e" by simp
    obtain b where b: "put_type buf p AMF_OBJECT = Some b" "within p e buf b" using put_type_within [OF a(1) pe a(2)] by blast
    have "0 \<le> p + 1" "p + 1 \<le> e" "e \<le> int (length b)" using a pe within_length [OF b(2)] by simp_all
    from props_confined [OF assms this] obtain q b' where q: "encode_props ps b (p + 1) e = Some (q, b')" "within (p + 1) e b b'" "p + 1 \<le> q" "q \<le> e"
      by blast
    have w: "within p e buf b'" using within_trans [OF b(2) q(2)] by simp
    have "0 \<le> q" "e \<le> int (length b')" using q(3) a within_length [OF w] by simp_all
    from confinedD [OF int24_confined this, of "type_code AMF_OBJECT_END"] obtain r b'' where
      "AMF_EncodeInt24 b' q e (type_code AMF_OBJECT_END) = Some (r, b'')" "within q e b' b''" "case r of None \<Rightarrow> True | Some q' \<Rightarrow> q \<le> q' \<and> q' \<le> e" by blast
    then show ?thesis using True b(1) q within_trans [OF w, of q b''] w by (auto simp: AMF_Encode.simps split: option.splits)
  qed (simp add: AMF_Encode.simps)
qed

text \<open>The head of an array and its elements.\<close>

lemma array_within:
  assumes "\<And>q. q \<in> set ps \<Longrightarrow> confined (AMFProp_Encode q)" "0 \<le> p" "p + 4 < e" "e \<le> int (length buf)"
  shows "\<exists>b b' q b''. put_type buf p t = Some b \<and> AMF_EncodeInt32 b (p + 1) e n = Some (Some (p + 5), b') \<and>
     encode_props ps b' (p + 5) e = Some (q, b'') \<and> within p e buf b'' \<and> p \<le> q \<and> q \<le> e"
proof -
  have pe: "p < e" using assms(3) by simp
  obtain b r b' where b: "put_type buf p t = Some b" "AMF_EncodeInt32 b (p + 1) e n = Some (r, b')" "within p e buf b'"
    using type_then [OF int32_confined assms(2) pe assms(4)] by blast
  have r: "r = Some (p + 5)" using int_position(2) [OF b(2)] assms(3) by simp
  have "0 \<le> p + 5" "p + 5 \<le> e" "e \<le> int (length b')" using assms within_length [OF b(3)] by simp_all
  from props_confined [OF assms(1) this] obtain q b'' where q: "encode_props ps b' (p + 5) e = Some (q, b'')" "within (p + 5) e b' b''" "p + 5 \<le> q" "q \<le> e"
    by blast
  then show ?thesis using b r within_trans [OF b(3), of "p + 5" b''] by auto
qed

lemma array_confined:
  assumes "\<And>q. q \<in> set ps \<Longrightarrow> confined (AMFProp_Encode q)"
  shows "confined (AMF_EncodeArray ps)" "confined (AMF_EncodeEcmaArray ps)"
proof -
  show "confined (AMF_EncodeArray ps)"
  proof (rule confinedI)
    fix buf :: bytes and p e :: int
    assume a: "0 \<le> p" "e \<le> int (length buf)"
    show "\<exists>r buf'. AMF_EncodeArray ps buf p e = Some (r, buf') \<and> within p e buf buf' \<and> (case r of None \<Rightarrow> True | Some q \<Rightarrow> p \<le> q \<and> q \<le> e)"
    proof (cases "p + 4 < e")
      case True
      from array_within [of ps p e buf AMF_STRICT_ARRAY "int (length ps)", OF assms a(1) this a(2)]
      show ?thesis using True by (auto simp: AMF_EncodeArray.simps)
    qed (simp add: AMF_EncodeArray.simps)
  qed
  show "confined (AMF_EncodeEcmaArray ps)"
  proof (rule confinedI)
    fix buf :: bytes and p e :: int
    assume a: "0 \<le> p" "e \<le> int (length buf)"
    show "\<exists>r buf'. AMF_EncodeEcmaArray ps buf p e = Some (r, buf') \<and> within p e buf buf' \<and> (case r of None \<Rightarrow> True | Some q \<Rightarrow> p \<le> q \<and> q \<le> e)"
    proof (cases "p + 4 < e")
      case True
      from array_within [of ps p e buf AMF_ECMA_ARRAY "int (length ps)", OF assms a(1) this a(2)]
      obtain b b' q b'' where q: "put_type buf p AMF_ECMA_ARRAY = Some b" "AMF_EncodeInt32 b (p + 1) e (int (length ps)) = Some (Some (p + 5), b')"
        "encode_props ps b' (p + 5) e = Some (q, b'')" "within p e buf b''" "p \<le> q" "q \<le> e" by blast
      have "0 \<le> q" "e \<le> int (length b'')" using q a within_length [OF q(4)] by simp_all
      from confinedD [OF int24_confined this, of "type_code AMF_OBJECT_END"] obtain r c where
        "AMF_EncodeInt24 b'' q e (type_code AMF_OBJECT_END) = Some (r, c)" "within q e b'' c" "case r of None \<Rightarrow> True | Some q' \<Rightarrow> q \<le> q' \<and> q' \<le> e" by blast
      then show ?thesis using True q within_trans [OF q(4), of q c] by (auto simp: AMF_EncodeEcmaArray.simps split: option.splits)
    qed (simp add: AMF_EncodeEcmaArray.simps)
  qed
qed

lemma name_within:
  assumes "good_aval (p_name x)" "0 \<le> p" "p + av_len (p_name x) + 3 < e" "e \<le> int (length buf)"
  shows "\<exists>q b. put_name buf p x = Some (q, b) \<and> within p e buf b \<and> p \<le> q \<and> q < e"
proof (cases "p_type x \<noteq> AMF_NULL \<and> av_len (p_name x) \<noteq> 0")
  case True
  have n: "0 \<le> av_len (p_name x)" using assms(1) by (simp add: good_aval_def)
  let ?n = "av_len (p_name x)"
  obtain b where b: "store buf p [word_of_int (drop_bit 8 ?n)] = Some b" "within p e buf b"
    using store_within [of p p "[word_of_int (drop_bit 8 ?n)]" e buf] assms n by auto
  obtain b' where b': "store b (p + 1) [word_of_int (?n AND 0xff)] = Some b'" "within p e buf b'"
    using then_store [OF b(2) assms(2), of "p + 1" "[word_of_int (?n AND 0xff)]"] assms n by auto
  obtain b'' where "put_aval b' (p + 2) (p_name x) = Some b''" "within p e buf b''"
    using put_aval_within [OF assms(1) b'(2) assms(2), of "p + 2"] assms n by auto
  then show ?thesis using True b b' n assms(3) by (simp add: put_name_def)
next
  case False
  then show ?thesis using assms by (auto simp: put_name_def good_aval_def)
qed

lemma value_confined:
  assumes "readable x" "p_type x \<noteq> AMF_NULL"
    and "\<And>ps q. p_vu x = P_object ps \<Longrightarrow> q \<in> set ps \<Longrightarrow> confined (AMFProp_Encode q)"
  shows "confined (encode_value x)"
proof -
  obtain nm t v u where x: "x = AMFObjectProperty nm t v u" by (cases x) simp
  have ok: "readable_vu v t" using assms(1) x by simp
  have none: "confined (\<lambda>buf p e. Some (None, buf))" by (simp add: confined_def)
  have members: "confined (AMFProp_Encode q)" if "v = P_object ps" "q \<in> set ps" for ps q using assms(3) that x by simp
  consider d where "v = P_number d" "number_type t" | s where "v = P_aval s" "t = AMF_STRING"
    | ps where "v = P_object ps" "container_type t" | "\<not> number_type t" "t \<noteq> AMF_STRING" "\<not> container_type t"
    using ok by (cases v) auto
  then show ?thesis
  proof cases
    case (1 d)
    then show ?thesis using number_confined [of d] boolean_confined [of "if double_nonzero d then 1 else 0"]
      by (auto simp: confined_def encode_value_def x number_type_def AMFProp_GetNumber_def AMFProp_GetBoolean_def)
  next
    case (2 s)
    then show ?thesis using string_confined [of s] ok by (simp add: confined_def encode_value_def x AMFProp_GetString_def)
  next
    case (3 ps)
    have "confined (AMF_Encode ps)" "confined (AMF_EncodeArray ps)" "confined (AMF_EncodeEcmaArray ps)"
      using object_confined [of ps] array_confined [of ps] members [OF 3(1)] by blast+
    then show ?thesis using 3 by (auto simp: confined_def encode_value_def x container_type_def AMFProp_GetObject_def)
  next
    case 4
    then have "encode_value x = (\<lambda>buf p e. Some (None, buf))" using assms(2)
      by (intro ext) (cases t; simp add: encode_value_def x number_type_def container_type_def)
    then show ?thesis using none by simp
  qed
qed

lemma prop_confined: "readable x \<Longrightarrow> confined (AMFProp_Encode x)"
proof (induction x rule: measure_induct_rule [of size])
  case (less x)
  obtain nm t v u where x: "x = AMFObjectProperty nm t v u" by (cases x) simp
  have nm: "good_aval (p_name x)" using less.prems x by simp
  show ?case
  proof (rule confinedI)
    fix buf :: bytes and p e :: int
    assume a: "0 \<le> p" "e \<le> int (length buf)"
    show "\<exists>r buf'. AMFProp_Encode x buf p e = Some (r, buf') \<and> within p e buf buf' \<and> (case r of None \<Rightarrow> True | Some q \<Rightarrow> p \<le> q \<and> q \<le> e)"
    proof (cases "t = AMF_NULL")
      case True
      then show ?thesis using put_type_within [OF a(1) _ a(2), of AMF_NULL]
        by (cases "p + 1 \<ge> e") (auto simp: AMFProp_Encode.simps x put_name_def)
    next
      case False
      have c: "confined (encode_value x)"
      proof (rule value_confined [OF less.prems])
        show "confined (AMFProp_Encode q)" if "p_vu x = P_object ps" "q \<in> set ps" for ps q
        proof (rule less.IH)
          have v: "v = P_object ps" using that(1) x by simp
          show "size q < size x" unfolding x v using that(2) by (rule member_size)
          show "readable q" using less.prems readable_members [OF _ that(2)] unfolding x v by auto
        qed
      qed (use False x in simp)
      show ?thesis
      proof (cases "t = AMF_INVALID \<or> p + av_len nm + 2 + 1 \<ge> e")
        case True
        then show ?thesis using False by (auto simp: AMFProp_Encode.simps x)
      next
        case room: False
        then have "p + av_len (p_name x) + 3 < e" by (simp add: x)
        then obtain q b where q: "put_name buf p x = Some (q, b)" "within p e buf b" "p \<le> q" "q < e"
          using name_within [OF nm a(1) _ a(2)] by blast
        have "0 \<le> q" "e \<le> int (length b)" using q a within_length [OF q(2)] by simp_all
        from confinedD [OF c this] obtain r b' where r: "encode_value x b q e = Some (r, b')" "within q e b b'" "case r of None \<Rightarrow> True | Some q' \<Rightarrow> q \<le> q' \<and> q' \<le> e"
          by blast
        have "AMFProp_Encode x buf p e = encode_value x b q e"
          using room False q(1) unfolding AMFProp_Encode.simps encode_value_def by (simp add: x)
        then show ?thesis using r within_trans [OF q(2) r(2) q(3)] q(3) by (auto split: option.splits)
      qed
    qed
  qed
qed

end
