(* ===== verification/Rtmp_Amf_Theorems.thy ===== *)
theory Rtmp_Amf_Theorems
  imports Rtmp_Amf3 Rtmp_Amf_Safe
begin

text \<open>
  The theorems about the action message format (amf.c), and sample objects for their witnesses.
\<close>

section \<open>Samples\<close>

definition m_str :: "bytes \<Rightarrow> AVal" where
  "m_str s = \<lparr>av_val = Some (s, 0), av_len = int (length s)\<rparr>"

definition m_one :: "64 word" where
  "m_one = 0x3FF0000000000000"

text \<open>\<open>{app: "tv", n: 1.0, l: [null, true, {k: "v"}]}\<close>\<close>

definition m_object :: AMFObject where
  "m_object =
     [AMFObjectProperty (m_str [0x61, 0x70, 0x70]) AMF_STRING (P_aval (m_str [0x74, 0x76])) 0,
      AMFObjectProperty (m_str [0x6E]) AMF_NUMBER (P_number m_one) 0,
      AMFObjectProperty (m_str [0x6C]) AMF_STRICT_ARRAY
        (P_object [AMFObjectProperty AV_empty AMF_NULL P_none 0, AMFObjectProperty AV_empty AMF_BOOLEAN (P_number m_one) 0,
           AMFObjectProperty AV_empty AMF_OBJECT
             (P_object [AMFObjectProperty (m_str [0x6B]) AMF_STRING (P_aval (m_str [0x76])) 0]) 0]) 0]"

lemma m_str_simps [simp]: "av_len (m_str s) = int (length s)" "aval_bytes (m_str s) = Some s" "good_aval (m_str s)" "content (m_str s) = s"
  by (auto simp: m_str_def aval_bytes_def slice_def good_aval_def content_def)

lemma empty_simps [simp]: "av_len AV_empty = 0" "aval_bytes AV_empty = Some []" "good_aval AV_empty" "content AV_empty = []"
  by (auto simp: AV_empty_def aval_bytes_def good_aval_def content_def)

definition m_flag :: "byte \<Rightarrow> AMFObjectProperty" where
  "m_flag c = AMFObjectProperty (m_str [c]) AMF_BOOLEAN (P_number m_one) 0"

lemma m_one_nonzero: "double_nonzero m_one"
  by code_simp

lemmas encode_sample = m_one_nonzero put_type_def put_name_def put_aval_def store_def AMF_EncodeBoolean_def AMF_EncodeNumber_def
  AMF_EncodeInt24_def AMFProp_GetBoolean_def AMFProp_GetNumber_def

lemma bad_name:
  "decode_name (AMFProp_SetName x AV_empty) buf p nSize named = Some None \<Longrightarrow>
   AMFProp_Decode (Suc n) junk buf x p nSize named = Some (- 1, AMFProp_SetName x AV_empty)"
  by (simp add: amf_prop_def)

lemma m_object_ok: "encodable_obj m_object" "list_all readable m_object" "length (enc_props m_object) = 44"
  by (simp_all add: m_object_def encodable_obj_def good_name_def enc_name_def enc_string_def number_type_def container_type_def)

section \<open>Theorems\<close>

text \<open>C9. An object that is encoded with \<open>AMF_Encode\<close> into a buffer with enough room is read back by
  \<open>AMF_Decode\<close>: the decoder consumes exactly the bytes that were written and finds the same names with
  the same values, through any nesting of objects and arrays, and the rest of the buffer is not changed.  The
  members are numbers, booleans, strings, objects, ECMA arrays and strict arrays; a member of an object or ECMA array has a name of 1 to
  65535 bytes, an element of a strict array has none and may be null, and strings and arrays are shorter than 2^31.  A null member of an object is excluded:
  the encoder writes it without its name, and the decoder loses it and those after it (\<open>amf_null_member_lost\<close>).\<close>

theorem amf_roundtrip:
  assumes "encodable_obj obj" "0 \<le> p" "p + int (length (enc_props obj)) + 6 \<le> pBufEnd" "pBufEnd \<le> int (length buf)"
    and "length (enc_props obj) + 4 < fuel"
  shows "\<exists>q buf' obj'. AMF_Encode obj buf p pBufEnd = Some (Some q, buf') \<and>
     AMF_Decode fuel junk buf' (p + 1) (q - (p + 1)) True = Some (q - (p + 1), obj') \<and>
     object_value obj' = object_value obj \<and>
     length buf' = length buf \<and> take (nat p) buf' = take (nat p) buf \<and> drop (nat q) buf' = drop (nat q) buf"
proof -
  define pre where "pre = take (nat p) buf"
  define d where "d = drop (nat p) buf"
  define bs where "bs = 3 # enc_props obj @ be24 9"
  have buf: "buf = pre @ d" and p: "p = int (length pre)" using assms(2-4) by (simp_all add: pre_def d_def)
  have len: "length bs \<le> length d" "int (length pre) + int (length bs) + 2 \<le> pBufEnd" using assms(3,4) by (simp_all add: bs_def buf p)
  have ok: "encodable x True" if "x \<in> set obj" for x using assms(1) that by (simp add: encodable_obj_def list_all_iff)
  have enc: "AMF_Encode obj buf p pBufEnd = Some (Some (p + int (length bs)), pre @ bs @ drop (length bs) d)"
    unfolding buf p
  proof (rule writesD [OF _ len])
    show "writes (AMF_Encode obj) bs" unfolding bs_def by (rule writes_object(1)) (rule writes_prop [OF ok])
  qed
  have el: "length (enc_prop x) \<le> length (enc_props obj)" if "x \<in> set obj" for x
    using that by (induction obj) auto
  have "length obj \<le> length (enc_props obj)"
  proof -
    have "3 \<le> length (enc_prop x)" if "x \<in> set obj" for x using not_at_end(2) [OF ok [OF that]] .
    then show ?thesis by (induction obj) fastforce+
  qed
  then obtain ps' where ps': "decode_loop fuel (AMFProp_Decode fuel junk (pre @ bs @ drop (length bs) d)) junk (pre @ bs @ drop (length bs) d) (p + 1) (int (length bs) - 1) True False []
      = Some (0, False, ps')" "object_value ps' = object_value obj"
    using read_props [of obj fuel fuel "int (length bs) - 1" "p + 1" "pre @ [3]" "pre @ bs @ drop (length bs) d" "drop (length bs) d" junk "[]"]
      ok reads_prop [OF ok] el assms(5) by (fastforce simp: bs_def p)
  show ?thesis
    using enc ps' len by (auto simp: AMF_Decode_def amf_object_def buf p nat_add_distrib)
qed

theorem amf_roundtrip_witness:
  "encodable_obj m_object \<and>
   (\<exists>q buf' obj'. AMF_Encode m_object (replicate 60 0) 2 57 = Some (Some q, buf') \<and>
     AMF_Decode 100 AMFProp_Invalid buf' (2 + 1) (q - (2 + 1)) True = Some (q - (2 + 1), obj') \<and>
     object_value obj' = object_value m_object)"
  using amf_roundtrip [of m_object 2 57 "replicate 60 0" 100 AMFProp_Invalid] m_object_ok by auto

text \<open>C31. The encoder stays in the space it is given, whether the object fits or not: on any object with
  readable strings it returns, it changes the buffer only between the current position and the end it was told, and the
  position it returns lies there.\<close>

theorem amf_encode_in_bounds:
  assumes "list_all readable obj" "0 \<le> p" "pBufEnd \<le> int (length buf)"
  shows "\<exists>r buf'. AMF_Encode obj buf p pBufEnd = Some (r, buf') \<and>
     length buf' = length buf \<and> take (nat p) buf' = take (nat p) buf \<and> drop (nat pBufEnd) buf' = drop (nat pBufEnd) buf \<and>
     (case r of None \<Rightarrow> True | Some q \<Rightarrow> p \<le> q \<and> q \<le> pBufEnd)"
  using confinedD [OF object_confined assms(2,3), of obj] prop_confined assms(1)
  by (auto simp: within_def list_all_iff)

theorem amf_encode_in_bounds_witness:
  "list_all readable m_object \<and> (\<exists>r buf'. AMF_Encode m_object (replicate 20 7) 2 15 = Some (r, buf') \<and>
     length buf' = 20 \<and> drop 15 buf' = [7, 7, 7, 7, 7])"
  using amf_encode_in_bounds [of m_object 2 15 "replicate 20 7"] m_object_ok by (auto simp: numeral_eq_Suc)

text \<open>\<open>AMF3ReadInteger\<close> reads a number of 29 bits as the format defines it, and tells how many bytes it
  took, except in one case: when the number takes four bytes and the last is 0x80 or more, that byte is
  taken as a negative \<open>char\<close> and the result is that negative number.\<close>

theorem amf3_integer_read:
  assumes "0 \<le> v" "v < 2 ^ 29"
  shows "AMF3ReadInteger (pre @ u29 v @ rest) (int (length pre)) =
    Some (int (length (u29 v)), if v < 2 ^ 21 \<or> v mod 256 < 128 then s29 v else v mod 256 - 256)"
  by (rule read_u29 [OF assms])

theorem amf3_integer_read_witness:
  "AMF3ReadInteger ([1] @ u29 0x1F00005 @ []) (int (length [1 :: byte])) = Some (4, 0x1F00005) \<and>
   AMF3ReadInteger ([1] @ u29 0x1F00085 @ []) (int (length [1 :: byte])) = Some (4, - 123)"
  using amf3_integer_read [of "0x1F00005" "[1]" "[]"] amf3_integer_read [of "0x1F00085" "[1]" "[]"]
  by (simp add: u29_def s29_def)

text \<open>No AMF3 object whose class has members can be decoded: the loop that reads the names of the members counts up
  its own bound, so that however long it runs it does not return normally.\<close>

theorem amf3_members_never_decoded:
  assumes "1 \<le> k" "k < 2 ^ 17" "0 \<le> flags" "flags < 4"
  shows "AMF3_Decode fuel junk (pre @ 0x0A # u29 (16 * k + 4 * flags + 3) @ rest) (int (length pre)) nSize True = None"
proof -
  let ?v = "16 * k + 4 * flags + 3" and ?buf = "pre @ 0x0A # u29 (16 * k + 4 * flags + 3) @ rest"
  have v: "0 \<le> ?v" "?v < 2 ^ 21" using assms by simp_all
  have r: "AMF3ReadInteger ?buf (int (length pre) + 1) = Some (int (length (u29 ?v)), ?v)"
    using read_u29 [of ?v "pre @ [0x0A]" rest] v by (simp add: s29_def add.commute)
  have odd: "?v AND 1 = 1" "drop_bit 1 ?v AND 1 = 1"
  proof -
    have "odd ?v" "drop_bit 1 ?v = 2 * (4 * k + flags) + 1" by (simp_all add: drop_bit_eq_div)
    then show "?v AND 1 = 1" "drop_bit 1 ?v AND 1 = 1" by (simp_all only: and_one_eq odd_iff_mod_2_eq_one [symmetric]) simp_all
  qed
  have num: "0 < drop_bit 2 (drop_bit 1 (drop_bit 1 ?v))"
  proof -
    have "drop_bit 2 (drop_bit 1 (drop_bit 1 ?v)) = ?v div 16" by (simp add: drop_bit_eq_div flip: zdiv_zmult2_eq)
    then show ?thesis using assms by simp
  qed
  have cls: "amf3_class n junk ?buf (drop_bit 1 ?v) p m = None" for n p m
    unfolding amf3_class_def Let_def using odd(2) num
    by (auto simp: members_never_read bind_eq_None_conv split: option.splits)
  show ?thesis
    unfolding AMF3_Decode_def amf3_object_def Let_def using r odd(1) cls by (auto simp: peek_head bind_eq_None_conv)
qed

theorem amf3_members_never_decoded_witness:
  "AMF3_Decode 1000 AMFProp_Invalid ([] @ 0x0A # u29 (16 * 1 + 4 * 2 + 3) @ [1, 3, 0x61, 5, 1]) (int (length ([] :: bytes))) 7 True = None"
  by (rule amf3_members_never_decoded) simp_all

text \<open>A null member of an object does not survive: the encoder writes it without its name, the decoder
  takes the type byte for the length of a name, skips to the end mark, and reports
  success for an object that has lost this member and those after it.\<close>

theorem amf_null_member_lost:
  "AMF_Encode [AMFObjectProperty (m_str [0x61]) AMF_NULL P_none 0, m_flag 0x62] (replicate 11 0) 0 11
     = Some (Some 10, [3, 5, 0, 1, 0x62, 1, 1, 0, 0, 9, 0]) \<and>
   AMF_Decode (Suc (Suc (Suc (Suc (Suc (Suc (Suc (Suc fuel)))))))) junk [3, 5, 0, 1, 0x62, 1, 1, 0, 0, 9, 0] 1 9 True = Some (9, [])"
proof
  show "AMF_Encode [AMFObjectProperty (m_str [0x61]) AMF_NULL P_none 0, m_flag 0x62] (replicate 11 0) 0 11
     = Some (Some 10, [3, 5, 0, 1, 0x62, 1, 1, 0, 0, 9, 0])"
    by (simp add: AMF_Encode.simps AMFProp_Encode.simps encode_sample m_flag_def eval_nat_numeral(2,3))
  have "decode_name (AMFProp_SetName junk AV_empty) [3, 5, 0, 1, 0x62, 1, 1, 0, 0, 9, 0] 1 9 True = Some None"
    by (simp add: decode_name_def AMF_DecodeInt16_def peek_def)
  then show "AMF_Decode (Suc (Suc (Suc (Suc (Suc (Suc (Suc (Suc fuel)))))))) junk [3, 5, 0, 1, 0x62, 1, 1, 0, 0, 9, 0] 1 9 True = Some (9, [])"
    by (simp add: AMF_Decode_def amf_object_def bad_name AMF_DecodeInt24_def peek_def del: AMFProp_Decode.simps)
qed

text \<open>A type byte of a string at the end of the data makes \<open>AMFProp_Decode\<close> read the length of the
  string behind the end of the buffer.\<close>

theorem amf_decode_reads_past_end:
  "AMFProp_Decode (Suc fuel) junk (pre @ [2]) x (int (length pre)) 1 False = UB"
  by (simp add: amf_prop_def Let_def decode_name_def peek_head AMF_DecodeInt16_def) (simp add: peek_def)

text \<open>When a member does not fit, \<open>AMF_Encode\<close> drops it and the members after it and still reports success.\<close>

theorem amf_encode_truncates:
  "AMF_Encode [m_flag 0x61, AMFObjectProperty (m_str [0x6E]) AMF_NUMBER (P_number d) 0] (replicate 12 0) 0 12
     = Some (Some 9, [3, 0, 1, 0x61, 1, 1, 0, 0, 9, 0, 0, 0]) \<and>
   AMF_Encode [m_flag 0x61] (replicate 12 0) 0 12 = Some (Some 9, [3, 0, 1, 0x61, 1, 1, 0, 0, 9, 0, 0, 0])"
  by (simp add: AMF_Encode.simps AMFProp_Encode.simps encode_sample m_flag_def eval_nat_numeral(2,3))

end
