(* ===== verification/Rtmp_Net.thy ===== *)
theory Rtmp_Net
  imports Rtmp_Amf_Decode
begin

text \<open>
  The state of an RTMP connection and its socket (src/protocol/rtmp/rtmpdump-master/librtmp/rtmp.h and
  rtmp.c), without HTTP tunnelling and in a build without encryption.

  The bodies of packets are in a memory of blocks: a pointer is the number of a block and an offset,
  and using a block that was never allocated or was freed is undefined.  The buffers that a function keeps on its
  stack are blocks too, which it releases when it returns.  The arrays of the connection are lists; their sizes
  (\<open>m_numCalls\<close>, \<open>m_channelsAllocatedIn\<close>, \<open>m_channelsAllocatedOut\<close>) are the lengths.  Logging is left out.

  The network is a script: what the coming calls of \<open>recv\<close> and of \<open>send\<close> do, and the bytes that were sent.
\<close>

section \<open>Data (rtmp.h)\<close>

type_synonym ptr = "nat \<times> int"

record RTMPChunk =
  c_headerSize :: int
  c_chunkSize :: int
  c_chunk :: "ptr option"
  c_header :: bytes

record RTMPPacket =
  m_headerType :: int
  m_packetType :: int
  m_hasAbsTimestamp :: bool
  m_nChannel :: int
  m_nTimeStamp :: "32 word"
  m_nInfoField2 :: int
  m_nBodySize :: int
  m_nBytesRead :: int
  m_chunk :: "nat option"
  m_body :: "ptr option"

text \<open>\<open>sb_data\<close> are the \<open>sb_size\<close> bytes from \<open>sb_start\<close> on, \<open>sb_pos\<close> is \<open>sb_start - sb_buf\<close>.\<close>

record RTMPSockBuf =
  sb_socket :: int
  sb_data :: bytes
  sb_pos :: int
  sb_timedout :: bool

record RTMP_LNK =
  lnk_playpath0 :: AVal
  lnk_playpath :: AVal
  lnk_tcUrl :: AVal
  lnk_swfUrl :: AVal
  lnk_pageUrl :: AVal
  lnk_app :: AVal
  lnk_auth :: AVal
  lnk_flashVer :: AVal
  lnk_subscribepath :: AVal
  lnk_usherToken :: AVal
  lnk_token :: AVal
  lnk_extras :: AMFObject
  lnk_seekTime :: int
  lnk_stopTime :: int
  lnk_lFlags :: int
  lnk_swfAge :: int
  lnk_protocol :: int
  lnk_timeout :: int

record RTMP_READ =
  rd_buf :: "ptr option"
  rd_dataType :: int
  rd_flags :: int
  rd_status :: int
  rd_nResumeTS :: "32 word"
  rd_nIgnoredFrameCounter :: int
  rd_nIgnoredFlvFrameCounter :: int

record RTMP_METHOD =
  mc_name :: AVal
  mc_num :: int

datatype sock_error = EINTR | EAGAIN | EWOULDBLOCK | EBADF | ESOCK
datatype recv_result = Received bytes | Recv_error sock_error
datatype send_result = Accepts nat | Send_error sock_error

record RTMP =
  m_inChunkSize :: int
  m_outChunkSize :: int
  m_nBWCheckCounter :: int
  m_nBytesIn :: int
  m_nBytesInSent :: int
  m_nBufferMS :: int
  m_stream_id :: int
  m_mediaChannel :: int
  m_mediaStamp :: "32 word"
  m_pauseStamp :: "32 word"
  m_pausing :: int
  m_nServerBW :: int
  m_nClientBW :: int
  m_nClientBW2 :: byte
  m_bPlaying :: bool
  m_bSendEncoding :: bool
  m_bSendCounter :: bool
  m_numInvokes :: int
  m_methodCalls :: "RTMP_METHOD list"
  m_vecChannelsIn :: "RTMPPacket option list"
  m_vecChannelsOut :: "RTMPPacket option list"
  m_channelTimestamp :: "32 word list"
  m_fAudioCodecs :: "64 word"
  m_fVideoCodecs :: "64 word"
  m_fEncoding :: "64 word"
  m_fDuration :: "64 word"
  m_read :: RTMP_READ
  m_write :: RTMPPacket
  m_sb :: RTMPSockBuf
  Link :: RTMP_LNK
  \<comment> \<open>the memory: blocks of bytes, chunks, the number of the next block\<close>
  blocks :: "nat \<Rightarrow> bytes option"
  mem_chunks :: "nat \<Rightarrow> RTMPChunk option"
  mem_next :: nat
  \<comment> \<open>the environment: scripts of \<open>recv\<close> and \<open>send\<close>, what was sent, and \<open>RTMP_ctrlC\<close>\<close>
  net_in :: "recv_result list"
  net_send :: "send_result list"
  net_out :: bytes
  RTMP_ctrlC :: bool

definition RTMP_MAX_HEADER_SIZE :: int where "RTMP_MAX_HEADER_SIZE = 18"
definition RTMP_BUFFER_CACHE_SIZE :: int where "RTMP_BUFFER_CACHE_SIZE = 16384"
definition RTMP_FEATURE_WRITE :: int where "RTMP_FEATURE_WRITE = 0x10"
definition RTMP_LF_AUTH :: int where "RTMP_LF_AUTH = 1"
definition RTMP_LF_LIVE :: int where "RTMP_LF_LIVE = 2"
definition RTMP_LF_PLST :: int where "RTMP_LF_PLST = 8"
definition RTMP_LF_BUFX :: int where "RTMP_LF_BUFX = 0x10"
definition RTMP_LF_FTCU :: int where "RTMP_LF_FTCU = 0x20"
definition RTMP_READ_HEADER :: int where "RTMP_READ_HEADER = 1"
definition RTMP_READ_SEEKING :: int where "RTMP_READ_SEEKING = 0x20"

definition packetSize :: "int list" where
  "packetSize = [12, 8, 4, 1]"

section \<open>Connections\<close>

definition RTMP_DEFAULT_CHUNKSIZE :: int where "RTMP_DEFAULT_CHUNKSIZE = 128"

definition zero_link :: RTMP_LNK where
  "zero_link =
     \<lparr>lnk_playpath0 = AV_empty, lnk_playpath = AV_empty, lnk_tcUrl = AV_empty, lnk_swfUrl = AV_empty, lnk_pageUrl = AV_empty, lnk_app = AV_empty,
      lnk_auth = AV_empty, lnk_flashVer = AV_empty, lnk_subscribepath = AV_empty, lnk_usherToken = AV_empty, lnk_token = AV_empty, lnk_extras = [],
      lnk_seekTime = 0, lnk_stopTime = 0, lnk_lFlags = 0, lnk_swfAge = 0, lnk_protocol = 0, lnk_timeout = 0\<rparr>"

definition zero_packet :: RTMPPacket where
  "zero_packet =
     \<lparr>m_headerType = 0, m_packetType = 0, m_hasAbsTimestamp = False, m_nChannel = 0, m_nTimeStamp = 0, m_nInfoField2 = 0,
      m_nBodySize = 0, m_nBytesRead = 0, m_chunk = None, m_body = None\<rparr>"

text \<open>A connection that is zero, in an empty memory; \<open>memset (r, 0, sizeof (RTMP))\<close> leaves the memory and the environment as they are.\<close>

definition blank_rtmp :: "recv_result list \<Rightarrow> send_result list \<Rightarrow> RTMP" where
  "blank_rtmp ins outs =
     \<lparr>m_inChunkSize = 0, m_outChunkSize = 0, m_nBWCheckCounter = 0, m_nBytesIn = 0, m_nBytesInSent = 0, m_nBufferMS = 0, m_stream_id = 0,
      m_mediaChannel = 0, m_mediaStamp = 0, m_pauseStamp = 0, m_pausing = 0, m_nServerBW = 0, m_nClientBW = 0, m_nClientBW2 = 0, m_bPlaying = False,
      m_bSendEncoding = False, m_bSendCounter = False, m_numInvokes = 0, m_methodCalls = [], m_vecChannelsIn = [], m_vecChannelsOut = [],
      m_channelTimestamp = [], m_fAudioCodecs = 0, m_fVideoCodecs = 0, m_fEncoding = 0, m_fDuration = 0,
      m_read = \<lparr>rd_buf = None, rd_dataType = 0, rd_flags = 0, rd_status = 0, rd_nResumeTS = 0, rd_nIgnoredFrameCounter = 0, rd_nIgnoredFlvFrameCounter = 0\<rparr>,
      m_write = zero_packet, m_sb = \<lparr>sb_socket = 0, sb_data = [], sb_pos = 0, sb_timedout = False\<rparr>, Link = zero_link,
      blocks = Map.empty, mem_chunks = Map.empty, mem_next = 0, net_in = ins, net_send = outs, net_out = [], RTMP_ctrlC = False\<rparr>"

definition zero_rtmp :: "RTMP \<Rightarrow> RTMP" where
  "zero_rtmp r = (blank_rtmp (net_in r) (net_send r))
     \<lparr>blocks := blocks r, mem_chunks := mem_chunks r, mem_next := mem_next r, net_out := net_out r, RTMP_ctrlC := RTMP_ctrlC r\<rparr>"

definition RTMP_Init :: "RTMP \<Rightarrow> RTMP" where
  "RTMP_Init r =
     (let r = zero_rtmp r
      in r\<lparr>m_sb := (m_sb r)\<lparr>sb_socket := - 1\<rparr>, m_inChunkSize := RTMP_DEFAULT_CHUNKSIZE, m_outChunkSize := RTMP_DEFAULT_CHUNKSIZE,
           m_nBufferMS := 30000, m_nClientBW := 2500000, m_nClientBW2 := 2, m_nServerBW := 2500000,
           m_fAudioCodecs := double_of_int 3191, m_fVideoCodecs := double_of_int 252,
           Link := (Link r)\<lparr>lnk_timeout := 30, lnk_swfAge := 30\<rparr>\<rparr>)"

definition RTMP_UserInterrupt :: "RTMP \<Rightarrow> RTMP" where
  "RTMP_UserInterrupt r = r\<lparr>RTMP_ctrlC := True\<rparr>"

definition RTMP_EnableWrite :: "RTMP \<Rightarrow> RTMP" where
  "RTMP_EnableWrite r = r\<lparr>Link := (Link r)\<lparr>lnk_protocol := lnk_protocol (Link r) OR RTMP_FEATURE_WRITE\<rparr>\<rparr>"

definition RTMP_GetDuration :: "RTMP \<Rightarrow> 64 word" where
  "RTMP_GetDuration r = m_fDuration r"

definition RTMP_Socket :: "RTMP \<Rightarrow> int" where
  "RTMP_Socket r = sb_socket (m_sb r)"

definition RTMP_IsTimedout :: "RTMP \<Rightarrow> bool" where
  "RTMP_IsTimedout r = sb_timedout (m_sb r)"

definition RTMP_SetBufferMS :: "RTMP \<Rightarrow> int \<Rightarrow> RTMP" where
  "RTMP_SetBufferMS r n = r\<lparr>m_nBufferMS := n\<rparr>"

text \<open>Addition of two values of type \<open>int\<close>, which must not overflow.\<close>

definition add_int :: "int \<Rightarrow> int \<Rightarrow> int ub" where
  "add_int x y = (if - INT_MAX - 1 \<le> x + y \<and> x + y \<le> INT_MAX then Some (x + y) else UB)"

section \<open>Memory\<close>

definition malloc :: "RTMP \<Rightarrow> bytes \<Rightarrow> nat \<times> RTMP" where
  "malloc r bs = (mem_next r, r\<lparr>blocks := (blocks r)(mem_next r \<mapsto> bs), mem_next := Suc (mem_next r)\<rparr>)"

definition release :: "RTMP \<Rightarrow> nat \<Rightarrow> RTMP" where
  \<comment> \<open>the end of the lifetime of a local buffer\<close>
  "release r b = r\<lparr>blocks := (blocks r)(b := None)\<rparr>"

definition c_free :: "RTMP \<Rightarrow> ptr \<Rightarrow> RTMP ub" where
  "c_free r p = (case p of (b, i) \<Rightarrow> do { _ \<leftarrow> blocks r b; if i = 0 then Some (release r b) else UB })"

definition load :: "RTMP \<Rightarrow> ptr \<Rightarrow> int \<Rightarrow> bytes ub" where
  "load r p n = (case p of (b, i) \<Rightarrow> if n = 0 then Some [] else do { blk \<leftarrow> blocks r b; slice blk i n })"

definition poke :: "RTMP \<Rightarrow> ptr \<Rightarrow> bytes \<Rightarrow> RTMP ub" where
  "poke r p src =
     (case p of (b, i) \<Rightarrow>
        if src = [] then Some r
        else do { blk \<leftarrow> blocks r b; blk \<leftarrow> store blk i src; Some (r\<lparr>blocks := (blocks r)(b \<mapsto> blk)\<rparr>) })"

section \<open>Packets\<close>

definition RTMPPacket_Reset :: "RTMPPacket \<Rightarrow> RTMPPacket" where
  "RTMPPacket_Reset p =
     p\<lparr>m_headerType := 0, m_packetType := 0, m_nChannel := 0, m_nTimeStamp := 0, m_nInfoField2 := 0,
       m_hasAbsTimestamp := False, m_nBodySize := 0, m_nBytesRead := 0\<rparr>"

definition RTMPPacket_Alloc :: "RTMP \<Rightarrow> RTMPPacket \<Rightarrow> int \<Rightarrow> RTMP \<times> RTMPPacket" where
  "RTMPPacket_Alloc r p nSize =
     (let (b, r) = malloc r (replicate (nat (nSize + RTMP_MAX_HEADER_SIZE)) 0)
      in (r, p\<lparr>m_body := Some (b, RTMP_MAX_HEADER_SIZE), m_nBytesRead := 0\<rparr>))"

definition RTMPPacket_Free :: "RTMP \<Rightarrow> RTMPPacket \<Rightarrow> (RTMP \<times> RTMPPacket) ub" where
  "RTMPPacket_Free r p =
     (case m_body p of None \<Rightarrow> Some (r, p)
      | Some (b, i) \<Rightarrow> do { r \<leftarrow> c_free r (b, i - RTMP_MAX_HEADER_SIZE); Some (r, p\<lparr>m_body := None\<rparr>) })"

definition RTMPPacket_IsReady :: "RTMPPacket \<Rightarrow> bool" where
  "RTMPPacket_IsReady a \<longleftrightarrow> m_nBytesRead a = m_nBodySize a"

section \<open>The socket\<close>

definition RTMP_IsConnected :: "RTMP \<Rightarrow> bool" where
  "RTMP_IsConnected r \<longleftrightarrow> sb_socket (m_sb r) \<noteq> - 1"

text \<open>\<open>recv\<close> returns at most as many bytes as there is room for, the rest stays in the script; an empty
  script is a connection that the peer has closed.  The loop repeats the call after EINTR.\<close>

fun recv_loop :: "bool \<Rightarrow> nat \<Rightarrow> recv_result list \<Rightarrow> recv_result \<times> recv_result list" where
  "recv_loop ctrlC room [] = (Received [], [])"
| "recv_loop ctrlC room (Received bs # s) =
     (Received (take room bs), if length bs \<le> room then s else Received (drop room bs) # s)"
| "recv_loop ctrlC room (Recv_error e # s) =
     (if e = EINTR \<and> \<not> ctrlC then recv_loop ctrlC room s else (Recv_error e, s))"

definition RTMPSockBuf_Fill :: "RTMP \<Rightarrow> int \<times> RTMP" where
  "RTMPSockBuf_Fill r =
     (let sb = m_sb r;
          sb = (if sb_data sb = [] then sb\<lparr>sb_pos := 0\<rparr> else sb);
          nBytes = RTMP_BUFFER_CACHE_SIZE - 1 - int (length (sb_data sb)) - sb_pos sb
      in if sb_socket sb = - 1 then (- 1, r\<lparr>m_sb := sb\<rparr>)
         else case recv_loop (RTMP_ctrlC r) (nat nBytes) (net_in r) of
           (Received bs, s) \<Rightarrow> (int (length bs), r\<lparr>m_sb := sb\<lparr>sb_data := sb_data sb @ bs\<rparr>, net_in := s\<rparr>)
         | (Recv_error e, s) \<Rightarrow>
             if e = EWOULDBLOCK \<or> e = EAGAIN then (0, r\<lparr>m_sb := sb\<lparr>sb_timedout := True\<rparr>, net_in := s\<rparr>)
             else (- 1, r\<lparr>m_sb := sb, net_in := s\<rparr>))"

text \<open>\<open>send\<close> accepts some of the bytes, all of them when the script is empty.\<close>

definition RTMPSockBuf_Send :: "RTMP \<Rightarrow> bytes \<Rightarrow> send_result \<times> RTMP" where
  "RTMPSockBuf_Send r buf =
     (if sb_socket (m_sb r) = - 1 then (Send_error EBADF, r)
      else case net_send r of
        [] \<Rightarrow> (Accepts (length buf), r\<lparr>net_out := net_out r @ buf\<rparr>)
      | Accepts k # s \<Rightarrow>
          let k = min k (length buf) in (Accepts k, r\<lparr>net_out := net_out r @ take k buf, net_send := s\<rparr>)
      | Send_error e # s \<Rightarrow> (Send_error e, r\<lparr>net_send := s\<rparr>))"

text \<open>Functions that may close the connection take \<open>RTMP_Close\<close> as the argument \<open>close\<close>, since closing a
  connection sends packets.  \<open>write_loop\<close> is the loop of \<open>WriteN\<close>.\<close>

function write_loop :: "(RTMP \<Rightarrow> RTMP ub) \<Rightarrow> RTMP \<Rightarrow> bytes \<Rightarrow> (bool \<times> RTMP) ub" where
  "write_loop close r buf =
     (if buf = [] then Some (True, r)
      else case RTMPSockBuf_Send r buf of
        (Send_error e, r') \<Rightarrow>
          if e = EINTR \<and> \<not> RTMP_ctrlC r then write_loop close r' buf
          else do { r \<leftarrow> close r'; Some (False, r) }
      | (Accepts k, r') \<Rightarrow> if k = 0 then Some (False, r') else write_loop close r' (drop k buf))"
  by pat_completeness auto
termination
  by (relation "measure (\<lambda>(_, r, buf). length (net_send r) + length buf)")
    (auto simp: RTMPSockBuf_Send_def Let_def split: if_splits list.splits send_result.splits)

declare write_loop.simps [simp del]

definition WriteN :: "(RTMP \<Rightarrow> RTMP ub) \<Rightarrow> RTMP \<Rightarrow> ptr \<Rightarrow> int \<Rightarrow> (bool \<times> RTMP) ub" where
  "WriteN close r buffer n =
     (if n < 0 then Some (False, r) else do { bs \<leftarrow> load r buffer n; write_loop close r bs })"

end
