(* ===== verification/Rtmp_Send.thy ===== *)
theory Rtmp_Send
  imports Rtmp_Net
begin

text \<open>
  Sending of packets (rtmp.c): the queue of method calls, the chunk layer \<open>RTMP_SendPacket\<close>, and
  \<open>RTMP_Close\<close> with the commands it sends.
\<close>

section \<open>Strings and numbers\<close>

definition AVC :: "string \<Rightarrow> AVal" where
  "AVC str = \<lparr>av_val = Some (map of_char str @ [0], 0), av_len = int (length str)\<rparr>"

text \<open>\<open>(int) d\<close>: the fraction is dropped; a value that does not fit is undefined.\<close>

definition int_of_double :: "64 word \<Rightarrow> int ub" where
  "int_of_double d =
     (let e = uint (drop_bit 52 d AND mask 11) - 1023; m = 2 ^ 52 + uint (d AND mask 52);
          v = (if e < 0 then 0 else if e \<le> 52 then m div 2 ^ nat (52 - e) else m * 2 ^ nat (e - 52));
          x = (if bit d 63 then - v else v)
      in if - INT_MAX - 1 \<le> x \<and> x \<le> INT_MAX then Some x else UB)"

definition EncodeInt32LE :: "bytes \<Rightarrow> int \<Rightarrow> int \<Rightarrow> bytes ub" where
  "EncodeInt32LE buf output nVal = do {
     buf \<leftarrow> store buf output [word_of_int nVal];
     buf \<leftarrow> store buf (output + 1) [word_of_int (drop_bit 8 nVal)];
     buf \<leftarrow> store buf (output + 2) [word_of_int (drop_bit 16 nVal)];
     store buf (output + 3) [word_of_int (drop_bit 24 nVal)]
   }"

section \<open>Method calls\<close>

definition AV_erase :: "RTMP_METHOD list \<Rightarrow> int \<Rightarrow> RTMP_METHOD list ub" where
  "AV_erase vals i =
     (if 0 \<le> i \<and> i < int (length vals) then Some (take (nat i) vals @ drop (Suc (nat i)) vals) else UB)"

definition RTMP_DropRequest :: "RTMP \<Rightarrow> int \<Rightarrow> RTMP ub" where
  "RTMP_DropRequest r i = do { vals \<leftarrow> AV_erase (m_methodCalls r) i; Some (r\<lparr>m_methodCalls := vals\<rparr>) }"

definition AV_queue :: "RTMP_METHOD list \<Rightarrow> AVal \<Rightarrow> int \<Rightarrow> RTMP_METHOD list ub" where
  "AV_queue vals av txn = do {
     tmp \<leftarrow> aval_bytes av;
     Some (vals @ [\<lparr>mc_name = \<lparr>av_val = Some (tmp @ [0], 0), av_len = av_len av\<rparr>, mc_num = txn\<rparr>])
   }"

section \<open>Packets\<close>

text \<open>The channels are allocated up to ten more than the one that is used.\<close>

definition grow :: "'a list \<Rightarrow> int \<Rightarrow> 'a \<Rightarrow> 'a list" where
  "grow xs n z = (if n \<ge> int (length xs) then xs @ replicate (nat (n + 10) - length xs) z else xs)"

text \<open>The header is made smaller if it repeats what the previous packet of the channel had.\<close>

definition compress :: "RTMPPacket option \<Rightarrow> RTMPPacket \<Rightarrow> RTMPPacket \<times> 32 word" where
  "compress prevPacket packet =
     (case prevPacket of
        None \<Rightarrow> (packet, 0)
      | Some prev \<Rightarrow>
          if m_headerType packet = 0 then (packet, 0)
          else
            let packet = (if m_nBodySize prev = m_nBodySize packet \<and> m_packetType prev = m_packetType packet
                             \<and> m_headerType packet = 1
                          then packet\<lparr>m_headerType := 2\<rparr> else packet);
                packet = (if m_nTimeStamp prev = m_nTimeStamp packet \<and> m_headerType packet = 2
                          then packet\<lparr>m_headerType := 3\<rparr> else packet)
            in (packet, m_nTimeStamp prev))"

definition channel_size :: "int \<Rightarrow> int" where
  \<comment> \<open>\<open>cSize\<close>\<close>
  "channel_size n = (if n > 319 then 2 else if n > 63 then 1 else 0)"

definition first_byte :: "int \<Rightarrow> int \<Rightarrow> byte" where
  "first_byte headerType n =
     (let c = push_bit 6 headerType; cSize = channel_size n
      in word_of_int (if cSize = 0 then c OR n else if cSize = 2 then c OR 1 else c))"

text \<open>\<open>put_channel\<close> writes the first byte of a header and the number of a large channel.\<close>

definition put_channel :: "bytes \<Rightarrow> int \<Rightarrow> byte \<Rightarrow> int \<Rightarrow> bytes ub" where
  "put_channel buf header c n = do {
     let cSize = channel_size n;
     let tmp = n - 64;
     buf \<leftarrow> store buf header [c];
     buf \<leftarrow> (if cSize \<noteq> 0 then store buf (header + 1) [word_of_int (tmp AND 0xff)] else Some buf);
     if cSize = 2 then store buf (header + 2) [word_of_int (drop_bit 8 tmp)] else Some buf
   }"

definition put_header :: "bytes \<Rightarrow> int \<Rightarrow> int \<Rightarrow> RTMPPacket \<Rightarrow> int \<Rightarrow> 32 word \<Rightarrow> bytes ub" where
  "put_header buf header hend packet nSize t = do {
     buf \<leftarrow> put_channel buf header (first_byte (m_headerType packet) (m_nChannel packet)) (m_nChannel packet);
     let hptr = header + 1 + channel_size (m_nChannel packet);
     (hptr, buf) \<leftarrow>
       (if nSize > 1 then AMF_EncodeInt24 buf hptr hend (if t > 0xffffff then 0xffffff else uint t) else Some (Some hptr, buf));
     (hptr, buf) \<leftarrow>
       (if nSize > 4 then do {
          hptr \<leftarrow> deref hptr;
          (hptr, buf) \<leftarrow> AMF_EncodeInt24 buf hptr hend (int32 (m_nBodySize packet));
          hptr \<leftarrow> deref hptr;
          buf \<leftarrow> store buf hptr [word_of_int (m_packetType packet)];
          Some (Some (hptr + 1), buf)
        } else Some (hptr, buf));
     (hptr, buf) \<leftarrow>
       (if nSize > 8 then do {
          hptr \<leftarrow> deref hptr;
          buf \<leftarrow> EncodeInt32LE buf hptr (m_nInfoField2 packet);
          Some (Some (hptr + 4), buf)
        } else Some (hptr, buf));
     (hptr, buf) \<leftarrow>
       (if nSize > 1 \<and> t \<ge> 0xffffff then do {
          hptr \<leftarrow> deref hptr;
          AMF_EncodeInt32 buf hptr hend (int32 (uint t))
        } else Some (hptr, buf));
     Some buf
   }"

text \<open>The loop that writes the chunks.  The header of a further chunk is written into the body, in front of
  the bytes that are still to be sent.  The loop does not end when the chunk size is not positive.\<close>

partial_function (option) send_loop ::
  "(RTMP \<Rightarrow> RTMP ub) \<Rightarrow> RTMP \<Rightarrow> byte \<Rightarrow> int \<Rightarrow> ptr \<Rightarrow> int \<Rightarrow> ptr option \<Rightarrow> int \<Rightarrow> int \<Rightarrow> (bool \<times> RTMP) ub" where
  "send_loop close r c n header hSize buffer nSize nChunkSize =
     (if nSize + hSize = 0 then Some (True, r)
      else do {
        let nChunkSize = (if nSize < nChunkSize then nSize else nChunkSize);
        (wrote, r) \<leftarrow> WriteN close r header (nChunkSize + hSize);
        if \<not> wrote then Some (False, r)
        else do {
          let nSize = nSize - nChunkSize;
          if nSize > 0 then do {
            (b, i) \<leftarrow> deref buffer;
            let i = i + nChunkSize;
            let h = i - 1 - channel_size n;
            blk \<leftarrow> blocks r b;
            blk \<leftarrow> put_channel blk h (0xC0 OR c) n;
            send_loop close (r\<lparr>blocks := (blocks r)(b \<mapsto> blk)\<rparr>) c n (b, h) (1 + channel_size n) (Some (b, i)) nSize nChunkSize
          } else send_loop close r c n header 0 buffer nSize nChunkSize
        }
      })"

declare send_loop.simps [code]

text \<open>\<open>queue_method\<close> is what follows the sending of an invocation.\<close>

definition queue_method :: "RTMP \<Rightarrow> RTMPPacket \<Rightarrow> bool \<Rightarrow> RTMP ub" where
  "queue_method r packet queue =
     (if m_packetType packet = 0x14 then do {
        (b, i) \<leftarrow> deref (m_body packet);
        blk \<leftarrow> blocks r b;
        method \<leftarrow> AMF_DecodeString blk (i + 1);
        if queue then do {
          d \<leftarrow> AMF_DecodeNumber blk (i + 1 + 3 + av_len method);
          txn \<leftarrow> int_of_double d;
          calls \<leftarrow> AV_queue (m_methodCalls r) method txn;
          Some (r\<lparr>m_methodCalls := calls\<rparr>)
        } else Some r
      } else Some r)"

text \<open>Where the header goes: in front of the body, or into the local buffer \<open>hbuf\<close> if there is no body.\<close>

definition header_place :: "RTMP \<Rightarrow> RTMPPacket \<Rightarrow> int \<Rightarrow> nat \<times> int \<times> int \<times> RTMP" where
  "header_place r packet nSize =
     (case m_body packet of
        Some (b, i) \<Rightarrow> (b, i - nSize, i, r)
      | None \<Rightarrow> let (b, r) = malloc r (replicate (nat RTMP_MAX_HEADER_SIZE) 0) in (b, 6, RTMP_MAX_HEADER_SIZE, r))"

definition send_header :: "(RTMP \<Rightarrow> RTMP ub) \<Rightarrow> RTMP \<Rightarrow> RTMPPacket \<Rightarrow> int \<Rightarrow> 32 word \<Rightarrow> (bool \<times> RTMP) ub" where
  \<comment> \<open>the header and the chunks\<close>
  "send_header close r packet nSize t = do {
     let n = m_nChannel packet;
     let ext = (if nSize > 1 \<and> t \<ge> 0xffffff then 4 else 0);
     let hSize = nSize + channel_size n + ext;
     let (b, header, hend, r) = header_place r packet nSize;
     let header = header - channel_size n - ext;
     blk \<leftarrow> blocks r b;
     blk \<leftarrow> put_header blk header hend packet nSize t;
     (ok, r) \<leftarrow> send_loop close (r\<lparr>blocks := (blocks r)(b \<mapsto> blk)\<rparr>) (first_byte (m_headerType packet) n) n (b, header) hSize
       (m_body packet) (int32 (m_nBodySize packet)) (m_outChunkSize r);
     Some (ok, if m_body packet = None then release r b else r)
   }"

definition RTMP_SendPacket :: "(RTMP \<Rightarrow> RTMP ub) \<Rightarrow> RTMP \<Rightarrow> RTMPPacket \<Rightarrow> bool \<Rightarrow> (bool \<times> RTMP \<times> RTMPPacket) ub" where
  "RTMP_SendPacket close r packet queue = do {
     let n = m_nChannel packet;
     let r = r\<lparr>m_vecChannelsOut := grow (m_vecChannelsOut r) n None\<rparr>;
     prevPacket \<leftarrow> array_get (m_vecChannelsOut r) n;
     let (packet, last) = compress prevPacket packet;
     if m_headerType packet > 3 then Some (False, r, packet)
     else do {
       nSize \<leftarrow> array_get packetSize (m_headerType packet);
       (ok, r) \<leftarrow> send_header close r packet nSize (m_nTimeStamp packet - last);
       if \<not> ok then Some (False, r, packet)
       else do {
         r \<leftarrow> queue_method r packet queue;
         _ \<leftarrow> array_get (m_vecChannelsOut r) n;
         Some (True, r\<lparr>m_vecChannelsOut := (m_vecChannelsOut r)[nat n := Some packet]\<rparr>, packet)
       }
     }
   }"

definition RTMP_SendChunk :: "(RTMP \<Rightarrow> RTMP ub) \<Rightarrow> RTMP \<Rightarrow> RTMPChunk \<Rightarrow> (bool \<times> RTMP) ub" where
  "RTMP_SendChunk close r chunk =
     (if c_chunkSize chunk \<noteq> 0 then do {
        (b, i) \<leftarrow> deref (c_chunk chunk);
        let p = (b, i - c_headerSize chunk);
        hbuf \<leftarrow> load r p (c_headerSize chunk);
        hdr \<leftarrow> slice (c_header chunk) 0 (c_headerSize chunk);
        r \<leftarrow> poke r p hdr;
        (wrote, r) \<leftarrow> WriteN close r p (c_headerSize chunk + c_chunkSize chunk);
        r \<leftarrow> poke r p hbuf;
        Some (wrote, r)
      } else do {
        let (b, r) = malloc r (c_header chunk);
        (wrote, r) \<leftarrow> WriteN close r (b, 0) (c_headerSize chunk);
        Some (wrote, release r b)
      })"

section \<open>Commands\<close>

text \<open>A command is built in a local buffer, behind the room for the header.  \<open>begin_invoke\<close> are the name of
  the method, the number of the invocation and the null that commands start with.\<close>

definition local_packet :: "int \<Rightarrow> int \<Rightarrow> int \<Rightarrow> 32 word \<Rightarrow> int \<Rightarrow> RTMPPacket" where
  "local_packet channel headerType packetType timeStamp info =
     \<lparr>m_headerType = headerType, m_packetType = packetType, m_hasAbsTimestamp = False, m_nChannel = channel,
      m_nTimeStamp = timeStamp, m_nInfoField2 = info, m_nBodySize = 0, m_nBytesRead = 0, m_chunk = None, m_body = None\<rparr>"

definition send_local :: "(RTMP \<Rightarrow> RTMP ub) \<Rightarrow> RTMP \<Rightarrow> RTMPPacket \<Rightarrow> bytes \<Rightarrow> int \<Rightarrow> bool \<Rightarrow> (bool \<times> RTMP) ub" where
  "send_local close r packet pbuf nBodySize queue = do {
     let (b, r) = malloc r pbuf;
     let packet = packet\<lparr>m_nBodySize := nBodySize, m_body := Some (b, RTMP_MAX_HEADER_SIZE)\<rparr>;
     (ok, r, _) \<leftarrow> RTMP_SendPacket close r packet queue;
     Some (ok, release r b)
   }"

definition pbuf_new :: "nat \<Rightarrow> bytes" where
  "pbuf_new n = replicate n 0"

definition begin_invoke :: "bytes \<Rightarrow> AVal \<Rightarrow> 64 word \<Rightarrow> (int \<times> bytes) ub" where
  "begin_invoke pbuf name txn = do {
     let pend = int (length pbuf);
     (enc, pbuf) \<leftarrow> AMF_EncodeString pbuf RTMP_MAX_HEADER_SIZE pend name;
     enc \<leftarrow> deref enc;
     (enc, pbuf) \<leftarrow> AMF_EncodeNumber pbuf enc pend txn;
     enc \<leftarrow> deref enc;
     pbuf \<leftarrow> put_type pbuf enc AMF_NULL;
     Some (enc + 1, pbuf)
   }"

definition next_invoke :: "RTMP \<Rightarrow> (int \<times> RTMP) ub" where
  \<comment> \<open>\<open>++r->m_numInvokes\<close>\<close>
  "next_invoke r = do { n \<leftarrow> incr (m_numInvokes r); Some (n, r\<lparr>m_numInvokes := n\<rparr>) }"

definition SendDeleteStream :: "(RTMP \<Rightarrow> RTMP ub) \<Rightarrow> RTMP \<Rightarrow> 64 word \<Rightarrow> (bool \<times> RTMP) ub" where
  "SendDeleteStream close r dStreamId = do {
     (n, r) \<leftarrow> next_invoke r;
     (enc, pbuf) \<leftarrow> begin_invoke (pbuf_new 256) (AVC ''deleteStream'') (double_of_int n);
     (enc, pbuf) \<leftarrow> AMF_EncodeNumber pbuf enc 256 dStreamId;
     enc \<leftarrow> deref enc;
     send_local close r (local_packet 3 1 0x14 0 0) pbuf (enc - RTMP_MAX_HEADER_SIZE) False
   }"

text \<open>The commands whose only argument is a string; the result is FALSE if it does not fit.\<close>

definition send_string_command ::
  "(RTMP \<Rightarrow> RTMP ub) \<Rightarrow> RTMP \<Rightarrow> nat \<Rightarrow> string \<Rightarrow> AVal \<Rightarrow> bool \<Rightarrow> (bool \<times> RTMP) ub" where
  "send_string_command close r sz name arg queue = do {
     (n, r) \<leftarrow> next_invoke r;
     (enc, pbuf) \<leftarrow> begin_invoke (pbuf_new sz) (AVC name) (double_of_int n);
     (enc, pbuf) \<leftarrow> AMF_EncodeString pbuf enc (int sz) arg;
     (case enc of None \<Rightarrow> Some (False, r)
      | Some enc \<Rightarrow> send_local close r (local_packet 3 1 0x14 0 0) pbuf (enc - RTMP_MAX_HEADER_SIZE) queue)
   }"

definition SendFCUnpublish :: "(RTMP \<Rightarrow> RTMP ub) \<Rightarrow> RTMP \<Rightarrow> (bool \<times> RTMP) ub" where
  "SendFCUnpublish close r = send_string_command close r 1024 ''FCUnpublish'' (lnk_playpath (Link r)) False"

section \<open>Closing\<close>

text \<open>The bodies of the packets that were being received are freed.\<close>

fun free_channels :: "RTMP \<Rightarrow> RTMPPacket option list \<Rightarrow> RTMP ub" where
  "free_channels r [] = Some r"
| "free_channels r (None # ps) = free_channels r ps"
| "free_channels r (Some p # ps) = do { (r, _) \<leftarrow> RTMPPacket_Free r p; free_channels r ps }"

definition close_rest :: "RTMP \<Rightarrow> RTMP ub" where
  "close_rest r = do {
     let r = r\<lparr>m_stream_id := - 1, m_sb := (m_sb r)\<lparr>sb_socket := - 1\<rparr>, m_nBWCheckCounter := 0, m_nBytesIn := 0, m_nBytesInSent := 0\<rparr>;
     r \<leftarrow> (if rd_flags (m_read r) AND RTMP_READ_HEADER \<noteq> 0 then do {
             r \<leftarrow> (case rd_buf (m_read r) of None \<Rightarrow> Some r | Some p \<Rightarrow> c_free r p);
             Some (r\<lparr>m_read := (m_read r)\<lparr>rd_buf := None\<rparr>\<rparr>)
           } else Some r);
     let r = r\<lparr>m_read := (m_read r)\<lparr>rd_dataType := 0, rd_flags := 0, rd_status := 0, rd_nResumeTS := 0,
           rd_nIgnoredFrameCounter := 0, rd_nIgnoredFlvFrameCounter := 0\<rparr>\<rparr>;
     (r, w) \<leftarrow> RTMPPacket_Free r ((m_write r)\<lparr>m_nBytesRead := 0\<rparr>);
     let r = r\<lparr>m_write := w\<rparr>;
     r \<leftarrow> free_channels r (m_vecChannelsIn r);
     let r = r\<lparr>m_vecChannelsIn := [], m_channelTimestamp := [], m_vecChannelsOut := [], m_methodCalls := [], m_numInvokes := 0,
           m_bPlaying := False, m_sb := (m_sb r)\<lparr>sb_data := []\<rparr>\<rparr>;
     let r = (if lnk_lFlags (Link r) AND RTMP_LF_FTCU \<noteq> 0
              then r\<lparr>Link := (Link r)\<lparr>lnk_tcUrl := (lnk_tcUrl (Link r))\<lparr>av_val := None\<rparr>,
                     lnk_lFlags := lnk_lFlags (Link r) XOR RTMP_LF_FTCU\<rparr>\<rparr> else r);
     Some (r\<lparr>Link := (Link r)\<lparr>lnk_playpath0 := (lnk_playpath0 (Link r))\<lparr>av_val := None\<rparr>\<rparr>\<rparr>)
   }"

text \<open>\<open>RTMP_Close\<close> calls itself when a command it sends cannot be written.  The stream is forgotten before, so that
  the inner call sends nothing: a depth of two is enough for every state.\<close>

definition close_stream :: "(RTMP \<Rightarrow> RTMP ub) \<Rightarrow> RTMP \<Rightarrow> RTMP ub" where
  "close_stream close r =
     (if RTMP_IsConnected r \<and> m_stream_id r > 0 then do {
        let i = m_stream_id r;
        let r = r\<lparr>m_stream_id := 0\<rparr>;
        r \<leftarrow> (if lnk_protocol (Link r) AND RTMP_FEATURE_WRITE \<noteq> 0
              then do { (_, r) \<leftarrow> SendFCUnpublish close r; Some r } else Some r);
        (_, r) \<leftarrow> SendDeleteStream close r (double_of_int i);
        Some r
      } else Some r)"

primrec close_depth :: "nat \<Rightarrow> RTMP \<Rightarrow> RTMP ub" where
  "close_depth 0 = (\<lambda>r. None)"
| "close_depth (Suc k) = (\<lambda>r. do { r \<leftarrow> close_stream (close_depth k) r; close_rest r })"

definition RTMP_Close :: "RTMP \<Rightarrow> RTMP ub" where
  "RTMP_Close = close_depth 2"

end
