(* ===== verification/Rtmp_Read.thy ===== *)
theory Rtmp_Read
  imports Rtmp_Send
begin

text \<open>
  Receiving of packets (rtmp.c): \<open>ReadN\<close>, which also reports the number of bytes received to the peer, and
  the chunk layer \<open>RTMP_ReadPacket\<close>.
\<close>

section \<open>Reading bytes\<close>

definition SendBytesReceived :: "RTMP \<Rightarrow> (bool \<times> RTMP) ub" where
  "SendBytesReceived r = do {
     (_, pbuf) \<leftarrow> AMF_EncodeInt32 (pbuf_new 256) RTMP_MAX_HEADER_SIZE 256 (m_nBytesIn r);
     let r = r\<lparr>m_nBytesInSent := m_nBytesIn r\<rparr>;
     send_local RTMP_Close r (local_packet 2 1 3 0 0) pbuf 4 False
   }"

text \<open>The bytes are taken from the buffer of the socket, which is filled when it is empty.\<close>

definition read_some :: "RTMP \<Rightarrow> ptr \<Rightarrow> int \<Rightarrow> RTMP ub" where
  "read_some r p nRead = do {
     r \<leftarrow> poke r p (take (nat nRead) (sb_data (m_sb r)));
     let sb = m_sb r;
     bytesIn \<leftarrow> add_int (m_nBytesIn r) nRead;
     Some (r\<lparr>m_sb := sb\<lparr>sb_data := drop (nat nRead) (sb_data sb), sb_pos := sb_pos sb + nRead\<rparr>, m_nBytesIn := bytesIn\<rparr>)
   }"

definition report_bytes :: "RTMP \<Rightarrow> (bool \<times> RTMP) ub" where
  "report_bytes r =
     (if m_bSendCounter r then do {
        limit \<leftarrow> add_int (m_nBytesInSent r) (c_div (m_nClientBW r) 10);
        if m_nBytesIn r > limit then SendBytesReceived r else Some (True, r)
      } else Some (True, r))"

function read_loop :: "int \<Rightarrow> RTMP \<Rightarrow> ptr \<Rightarrow> int \<Rightarrow> (int \<times> RTMP) ub" where
  "read_loop nOriginalSize r p n =
     (if n > 0 then
        let (nFill, r) = (if sb_data (m_sb r) = [] then RTMPSockBuf_Fill r else (1, r))
        in if nFill < 1 then do {
             r \<leftarrow> (if sb_timedout (m_sb r) then Some r else RTMP_Close r);
             Some (0, r)
           }
           else
             let nRead = min n (int (length (sb_data (m_sb r))))
             in if nRead \<le> 0 then do { r \<leftarrow> RTMP_Close r; Some (nOriginalSize - n, r) }
                else do {
                  r \<leftarrow> read_some r p nRead;
                  (ok, r) \<leftarrow> report_bytes r;
                  if \<not> ok then Some (0, r)
                  else read_loop nOriginalSize r (fst p, snd p + nRead) (n - nRead)
                }
      else Some (nOriginalSize - n, r))"
  by pat_completeness auto
termination
  by (relation "measure (\<lambda>(_, _, _, n). nat n)") (auto split: if_splits)

declare read_loop.simps [simp del]

definition ReadN :: "RTMP \<Rightarrow> ptr \<Rightarrow> int \<Rightarrow> (int \<times> RTMP) ub" where
  "ReadN r buffer n = read_loop n (r\<lparr>m_sb := (m_sb r)\<lparr>sb_timedout := False\<rparr>\<rparr>) buffer n"

section \<open>Packets\<close>

definition DecodeInt32LE :: "bytes \<Rightarrow> int \<Rightarrow> int ub" where
  "DecodeInt32LE buf i = do {
     c0 \<leftarrow> peek buf i; c1 \<leftarrow> peek buf (i + 1); c2 \<leftarrow> peek buf (i + 2); c3 \<leftarrow> peek buf (i + 3);
     Some (int32 (push_bit 24 (uint c3) OR push_bit 16 (uint c2) OR push_bit 8 (uint c1) OR uint c0))
   }"

text \<open>The stages of \<open>RTMP_ReadPacket\<close>.  Each returns whether it succeeded, the connection and the packet;
  \<open>h\<close> is the block of the local buffer \<open>hbuf\<close>, and \<open>header\<close> is an offset in it.  First the
  type of the header and the channel.\<close>

definition read_basic :: "RTMP \<Rightarrow> nat \<Rightarrow> RTMPPacket \<Rightarrow> (bool \<times> RTMP \<times> RTMPPacket \<times> int) ub" where
  "read_basic r h packet = do {
     (k, r) \<leftarrow> ReadN r (h, 0) 1;
     if k = 0 then Some (False, r, packet, 0)
     else do {
       hbuf \<leftarrow> blocks r h;
       c0 \<leftarrow> peek hbuf 0;
       let packet = packet\<lparr>m_headerType := uint (drop_bit 6 (c0 AND 0xc0)), m_nChannel := uint (c0 AND 0x3f)\<rparr>;
       if m_nChannel packet = 0 then do {
         (k, r) \<leftarrow> ReadN r (h, 1) 1;
         if k \<noteq> 1 then Some (False, r, packet, 1)
         else do {
           hbuf \<leftarrow> blocks r h; c1 \<leftarrow> peek hbuf 1;
           Some (True, r, packet\<lparr>m_nChannel := uint c1 + 64\<rparr>, 2)
         }
       } else if m_nChannel packet = 1 then do {
         (k, r) \<leftarrow> ReadN r (h, 1) 2;
         if k \<noteq> 2 then Some (False, r, packet, 1)
         else do {
           hbuf \<leftarrow> blocks r h; c1 \<leftarrow> peek hbuf 1; c2 \<leftarrow> peek hbuf 2;
           Some (True, r, packet\<lparr>m_nChannel := push_bit 8 (uint c2) + uint c1 + 64\<rparr>, 3)
         }
       } else Some (True, r, packet, 1)
     }
   }"

definition grow_in :: "RTMP \<Rightarrow> int \<Rightarrow> RTMP" where
  "grow_in r n =
     (let k = length (m_vecChannelsIn r)
      in if n \<ge> int k
         then r\<lparr>m_channelTimestamp := m_channelTimestamp r @ replicate (nat (n + 10) - k) 0,
                m_vecChannelsIn := m_vecChannelsIn r @ replicate (nat (n + 10) - k) None\<rparr>
         else r)"

text \<open>A full header has an absolute time stamp; other headers take what they do not have from the last packet of
  the channel.\<close>

definition read_prev :: "RTMP \<Rightarrow> RTMPPacket \<Rightarrow> int \<Rightarrow> RTMPPacket ub" where
  "read_prev r packet nSize =
     (if nSize = 12 then Some (packet\<lparr>m_hasAbsTimestamp := True\<rparr>)
      else do {
        q \<leftarrow> array_get (m_vecChannelsIn r) (m_nChannel packet);
        Some (case q of None \<Rightarrow> packet | Some q \<Rightarrow> q)
      })"

text \<open>The fields of the header, \<open>nSize\<close> bytes without the first ones.\<close>

definition read_fields :: "RTMP \<Rightarrow> bytes \<Rightarrow> int \<Rightarrow> int \<Rightarrow> RTMPPacket \<Rightarrow> (RTMP \<times> RTMPPacket) ub" where
  "read_fields r hbuf header nSize packet = do {
     t \<leftarrow> AMF_DecodeInt24 hbuf header;
     let packet = packet\<lparr>m_nTimeStamp := word_of_int t\<rparr>;
     if nSize \<ge> 6 then do {
       sz \<leftarrow> AMF_DecodeInt24 hbuf (header + 3);
       (r, packet) \<leftarrow> RTMPPacket_Free r (packet\<lparr>m_nBodySize := sz, m_nBytesRead := 0\<rparr>);
       if nSize > 6 then do {
         c \<leftarrow> peek hbuf (header + 6);
         let packet = packet\<lparr>m_packetType := uint c\<rparr>;
         if nSize = 11 then do {
           info \<leftarrow> DecodeInt32LE hbuf (header + 7);
           Some (r, packet\<lparr>m_nInfoField2 := info\<rparr>)
         } else Some (r, packet)
       } else Some (r, packet)
     } else Some (r, packet)
   }"

definition read_header :: "RTMP \<Rightarrow> nat \<Rightarrow> RTMPPacket \<Rightarrow> int \<Rightarrow> int \<Rightarrow> (bool \<times> RTMP \<times> RTMPPacket \<times> int) ub" where
  \<comment> \<open>the last result is \<open>hSize\<close>\<close>
  "read_header r h packet header nSize = do {
     (k, r) \<leftarrow> (if nSize > 0 then ReadN r (h, header) nSize else Some (nSize, r));
     if k \<noteq> nSize then Some (False, r, packet, 0)
     else if nSize \<ge> 3 then do {
       hbuf \<leftarrow> blocks r h;
       (r, packet) \<leftarrow> read_fields r hbuf header nSize packet;
       if m_nTimeStamp packet = 0xffffff then do {
         (k, r) \<leftarrow> ReadN r (h, header + nSize) 4;
         if k \<noteq> 4 then Some (False, r, packet, 0)
         else do {
           hbuf \<leftarrow> blocks r h;
           t \<leftarrow> AMF_DecodeInt32 hbuf (header + nSize);
           Some (True, r, packet\<lparr>m_nTimeStamp := word_of_int t\<rparr>, nSize + header + 4)
         }
       } else Some (True, r, packet, nSize + header)
     } else Some (True, r, packet, nSize + header)
   }"

text \<open>The caller gets the raw chunk if it wants to.\<close>

definition copy_chunk :: "RTMP \<Rightarrow> nat \<Rightarrow> RTMPPacket \<Rightarrow> int \<Rightarrow> int \<Rightarrow> RTMP ub" where
  "copy_chunk r h packet hSize nChunk =
     (case m_chunk packet of None \<Rightarrow> Some r
      | Some k \<Rightarrow> do {
          ch \<leftarrow> mem_chunks r k;
          hbuf \<leftarrow> blocks r h;
          hdr \<leftarrow> memcpy (c_header ch) 0 hbuf 0 hSize;
          let ch = ch\<lparr>c_headerSize := hSize, c_header := hdr, c_chunkSize := nChunk,
                c_chunk := map_option (\<lambda>(b, i). (b, i + m_nBytesRead packet)) (m_body packet)\<rparr>;
          Some (r\<lparr>mem_chunks := (mem_chunks r)(k \<mapsto> ch)\<rparr>)
        })"

definition read_body :: "RTMP \<Rightarrow> RTMPPacket \<Rightarrow> int \<Rightarrow> (int \<times> RTMP) ub" where
  "read_body r packet nChunk =
     (case m_body packet of
        Some (b, i) \<Rightarrow> ReadN r (b, i + m_nBytesRead packet) nChunk
      | None \<Rightarrow> if nChunk > 0 then UB else ReadN r (0, 0) nChunk)"

text \<open>The packet is kept for the next one of the channel.  When it is complete its time stamp is made absolute.\<close>

definition keep_packet :: "RTMP \<Rightarrow> RTMPPacket \<Rightarrow> (RTMP \<times> RTMPPacket) ub" where
  "keep_packet r packet = do {
     let n = m_nChannel packet;
     _ \<leftarrow> array_get (m_vecChannelsIn r) n;
     if RTMPPacket_IsReady packet then do {
       t \<leftarrow> array_get (m_channelTimestamp r) n;
       let stamp = (if m_hasAbsTimestamp packet then m_nTimeStamp packet else m_nTimeStamp packet + t);
       let kept = packet\<lparr>m_body := None, m_nBytesRead := 0, m_hasAbsTimestamp := False\<rparr>;
       Some (r\<lparr>m_channelTimestamp := (m_channelTimestamp r)[nat n := stamp], m_vecChannelsIn := (m_vecChannelsIn r)[nat n := Some kept]\<rparr>,
             packet\<lparr>m_nTimeStamp := stamp\<rparr>)
     } else Some (r\<lparr>m_vecChannelsIn := (m_vecChannelsIn r)[nat n := Some packet]\<rparr>, packet\<lparr>m_body := None\<rparr>)
   }"

definition alloc_body :: "RTMP \<Rightarrow> RTMPPacket \<Rightarrow> int \<Rightarrow> RTMP \<times> RTMPPacket" where
  "alloc_body r packet headerType =
     (if m_nBodySize packet > 0 \<and> m_body packet = None
      then let (r, packet) = RTMPPacket_Alloc r packet (m_nBodySize packet) in (r, packet\<lparr>m_headerType := headerType\<rparr>)
      else (r, packet))"

definition read_chunk :: "RTMP \<Rightarrow> nat \<Rightarrow> RTMPPacket \<Rightarrow> int \<Rightarrow> (bool \<times> RTMP \<times> RTMPPacket) ub" where
  "read_chunk r h packet hSize = do {
     let nToRead = int32 (m_nBodySize packet - m_nBytesRead packet);
     let nChunk = (if nToRead < m_inChunkSize r then nToRead else m_inChunkSize r);
     r \<leftarrow> copy_chunk r h packet hSize nChunk;
     (k, r) \<leftarrow> read_body r packet nChunk;
     if k \<noteq> nChunk then Some (False, r, packet)
     else do {
       (r, packet) \<leftarrow> keep_packet r (packet\<lparr>m_nBytesRead := m_nBytesRead packet + nChunk\<rparr>);
       Some (True, r, packet)
     }
   }"

definition read_packet :: "RTMP \<Rightarrow> nat \<Rightarrow> RTMPPacket \<Rightarrow> (bool \<times> RTMP \<times> RTMPPacket) ub" where
  \<comment> \<open>the body of \<open>RTMP_ReadPacket\<close>\<close>
  "read_packet r h packet = do {
     (ok, r, packet, header) \<leftarrow> read_basic r h packet;
     if \<not> ok then Some (False, r, packet)
     else do {
       let headerType = m_headerType packet;
       nSize \<leftarrow> array_get packetSize headerType;
       let r = grow_in r (m_nChannel packet);
       packet \<leftarrow> read_prev r packet nSize;
       (ok, r, packet, hSize) \<leftarrow> read_header r h packet header (nSize - 1);
       if \<not> ok then Some (False, r, packet)
       else let (r, packet) = alloc_body r packet headerType in read_chunk r h packet hSize
     }
   }"

definition RTMP_ReadPacket :: "RTMP \<Rightarrow> RTMPPacket \<Rightarrow> (bool \<times> RTMP \<times> RTMPPacket) ub" where
  "RTMP_ReadPacket r packet = do {
     let (h, r) = malloc r (replicate (nat RTMP_MAX_HEADER_SIZE) 0);
     (ok, r, packet) \<leftarrow> read_packet r h packet;
     Some (ok, release r h, packet)
   }"

end
