(* ===== verification/Rtmp_Wire.thy ===== *)
theory Rtmp_Wire
  imports Rtmp_Read Rtmp_Amf_Round
begin

text \<open>
  What \<open>RTMP_SendPacket\<close> writes: the bytes of a packet on the wire as a function of the packet, and that
  the code sends these bytes.
\<close>

section \<open>The bytes of a packet\<close>

definition le32 :: "int \<Rightarrow> bytes" where
  "le32 n = rev (be32 n)"

definition chan_bytes :: "byte \<Rightarrow> int \<Rightarrow> bytes" where
  "chan_bytes c n =
     c # (if n > 319 then [word_of_int (n - 64), word_of_int (drop_bit 8 (n - 64))]
          else if n > 63 then [word_of_int (n - 64)] else [])"

definition ext_bytes :: "int \<Rightarrow> 32 word \<Rightarrow> bytes" where
  "ext_bytes ht t = (if ht < 3 \<and> t \<ge> 0xffffff then be32 (uint t) else [])"

definition field_bytes :: "RTMPPacket \<Rightarrow> 32 word \<Rightarrow> bytes" where
  "field_bytes p t =
     (if m_headerType p < 3 then be24 (if t > 0xffffff then 0xffffff else uint t) else [])
     @ (if m_headerType p < 2 then be24 (m_nBodySize p) @ [word_of_int (m_packetType p)] else [])
     @ (if m_headerType p < 1 then le32 (m_nInfoField2 p) else [])"

definition header_bytes :: "RTMPPacket \<Rightarrow> 32 word \<Rightarrow> bytes" where
  "header_bytes p t =
     chan_bytes (first_byte (m_headerType p) (m_nChannel p)) (m_nChannel p) @ field_bytes p t @ ext_bytes (m_headerType p) t"

definition next_header :: "RTMPPacket \<Rightarrow> bytes" where
  \<comment> \<open>the header of the chunks after the first\<close>
  "next_header p = chan_bytes (0xC0 OR first_byte (m_headerType p) (m_nChannel p)) (m_nChannel p)"

function chunked :: "nat \<Rightarrow> bytes \<Rightarrow> bytes \<Rightarrow> bytes" where
  "chunked k hdr body = (if k = 0 \<or> length body \<le> k then body else take k body @ hdr @ chunked k hdr (drop k body))"
  by pat_completeness auto
termination by (relation "measure (\<lambda>(_, _, body). length body)") auto

declare chunked.simps [simp del]

definition wire :: "nat \<Rightarrow> RTMPPacket \<Rightarrow> 32 word \<Rightarrow> bytes \<Rightarrow> bytes" where
  "wire k p t body = header_bytes p t @ chunked k (next_header p) body"

lemma channel_size_range: "0 \<le> channel_size n" "channel_size n \<le> 2"
  by (simp_all add: channel_size_def)

lemma length_chan_bytes: "int (length (chan_bytes c n)) = 1 + channel_size n"
  by (simp add: chan_bytes_def channel_size_def)

lemma length_le32 [simp]: "length (le32 n) = 4"
  by (simp add: le32_def)

section \<open>Writing the header\<close>

lemma be_int32: "be32 (int32 n) = be32 n" "be24 (int32 n) = be24 n"
proof -
  have e: "word_of_int (drop_bit k (int32 n)) = (word_of_int (drop_bit k n) :: byte)" if "k \<le> 24" for k
  proof -
    have "take_bit 8 (drop_bit k (signed_take_bit 31 n)) = take_bit 8 (drop_bit k n)"
      using that by (intro bit_eqI) (auto simp: bit_simps)
    then show ?thesis by (simp add: int32_def word_of_int_eq_iff)
  qed
  show "be32 (int32 n) = be32 n" "be24 (int32 n) = be24 n"
    using e [of 0] e [of 8] e [of 16] e [of 24] by (simp_all add: be32_def be24_def be16_def)
qed

text \<open>\<open>write_at g bs\<close>: the operation \<open>g\<close> on a buffer and an offset writes the bytes \<open>bs\<close> there.\<close>

lemma put_channel_bytes:
  assumes "length (chan_bytes c n) \<le> length d"
  shows "put_channel (pre @ d) (int (length pre)) c n = Some (pre @ chan_bytes c n @ drop (length (chan_bytes c n)) d)"
proof -
  consider "n > 319" | "63 < n" "n \<le> 319" | "n \<le> 63" by linarith
  then show ?thesis
  proof cases
    case 1
    then obtain x y z d' where d: "d = x # y # z # d'"
      using assms by (auto simp: chan_bytes_def Suc_le_length_iff numeral_3_eq_3)
    show ?thesis using 1 unfolding d
      by (simp add: put_channel_def chan_bytes_def channel_size_def word_low_byte store_def nat_add_distrib)
  next
    case 2
    then obtain x y d' where d: "d = x # y # d'"
      using assms by (auto simp: chan_bytes_def Suc_le_length_iff numeral_2_eq_2)
    show ?thesis using 2 unfolding d
      by (simp add: put_channel_def chan_bytes_def channel_size_def word_low_byte store_def nat_add_distrib)
  next
    case 3
    then obtain x d' where d: "d = x # d'" using assms by (auto simp: chan_bytes_def Suc_le_length_iff)
    show ?thesis using 3 unfolding d by (simp add: put_channel_def chan_bytes_def channel_size_def store_def)
  qed
qed

lemma put_le32:
  assumes "4 \<le> length d"
  shows "EncodeInt32LE (pre @ d) (int (length pre)) n = Some (pre @ le32 n @ drop 4 d)"
proof -
  obtain w x y z d' where d: "d = w # x # y # z # d'" using assms by (auto simp: Suc_le_length_iff numeral_eq_Suc)
  show ?thesis unfolding d
    by (simp add: EncodeInt32LE_def store_def nat_add_distrib le32_def be32_def be24_def be16_def)
qed

definition stamp_bytes :: "int \<Rightarrow> 32 word \<Rightarrow> bytes" where
  "stamp_bytes ht t = (if ht < 3 then be24 (if t > 0xffffff then 0xffffff else uint t) else [])"

definition size_bytes :: "RTMPPacket \<Rightarrow> bytes" where
  "size_bytes p = (if m_headerType p < 2 then be24 (m_nBodySize p) @ [word_of_int (m_packetType p)] else [])"

definition info_bytes :: "RTMPPacket \<Rightarrow> bytes" where
  "info_bytes p = (if m_headerType p < 1 then le32 (m_nInfoField2 p) else [])"

lemma field_bytes_parts: "field_bytes p t = stamp_bytes (m_headerType p) t @ size_bytes p @ info_bytes p"
  by (simp add: field_bytes_def stamp_bytes_def size_bytes_def info_bytes_def)

lemma header_type_cases:
  assumes "0 \<le> (ht :: int)" "ht \<le> 3"
  obtains "ht = 0" | "ht = 1" | "ht = 2" | "ht = 3"
  using assms by linarith

lemma packet_size_nth: "packetSize ! 0 = 12" "packetSize ! 1 = 8" "packetSize ! 2 = 4" "packetSize ! 3 = 1"
  by (simp_all add: packetSize_def)

lemma packet_size_more:
  assumes "0 \<le> ht" "ht \<le> 3"
  shows "1 < packetSize ! nat ht \<longleftrightarrow> ht < 3" "4 < packetSize ! nat ht \<longleftrightarrow> ht < 2" "8 < packetSize ! nat ht \<longleftrightarrow> ht < 1"
  by (rule header_type_cases [OF assms]; simp add: packetSize_def)+

lemma put_stamp:
  assumes "length (stamp_bytes ht t) \<le> length d" "int (length pre) + int (length (stamp_bytes ht t)) \<le> hend"
  shows "(if ht < 3 then AMF_EncodeInt24 (pre @ d) (int (length pre)) hend (if t > 0xffffff then 0xffffff else uint t)
      else Some (Some (int (length pre)), pre @ d))
    = Some (Some (int (length (pre @ stamp_bytes ht t))), (pre @ stamp_bytes ht t) @ drop (length (stamp_bytes ht t)) d)"
  using assms by (auto simp: stamp_bytes_def wrote_int24)

lemma put_size:
  assumes "length (size_bytes p) \<le> length d" "int (length pre) + int (length (size_bytes p)) \<le> hend"
  shows "(if m_headerType p < 2 then do {
          hptr \<leftarrow> deref (Some (int (length pre)));
          (hptr, buf) \<leftarrow> AMF_EncodeInt24 (pre @ d) hptr hend (int32 (m_nBodySize p));
          hptr \<leftarrow> deref hptr;
          buf \<leftarrow> store buf hptr [word_of_int (m_packetType p)];
          Some (Some (hptr + 1), buf)
        } else Some (Some (int (length pre)), pre @ d))
    = Some (Some (int (length (pre @ size_bytes p))), (pre @ size_bytes p) @ drop (length (size_bytes p)) d)"
proof (cases "m_headerType p < 2")
  case True
  then have l: "4 \<le> length d" and h: "int (length pre) + 3 \<le> hend" using assms by (simp_all add: size_bytes_def)
  have "store ((pre @ be24 (m_nBodySize p)) @ drop 3 d) (int (length (pre @ be24 (m_nBodySize p)))) [word_of_int (m_packetType p)]
      = Some ((pre @ be24 (m_nBodySize p)) @ [word_of_int (m_packetType p)] @ drop 1 (drop 3 d))"
    using l store_step [of "[word_of_int (m_packetType p)]" "drop 3 d" "pre @ be24 (m_nBodySize p)"] by simp
  then show ?thesis using True l h by (simp add: size_bytes_def wrote_int24 be_int32 add.commute)
qed (simp add: size_bytes_def)

lemma put_info:
  assumes "length (info_bytes p) \<le> length d"
  shows "(if m_headerType p < 1 then do {
          hptr \<leftarrow> deref (Some (int (length pre)));
          buf \<leftarrow> EncodeInt32LE (pre @ d) hptr (m_nInfoField2 p);
          Some (Some (hptr + 4), buf)
        } else Some (Some (int (length pre)), pre @ d))
    = Some (Some (int (length (pre @ info_bytes p))), (pre @ info_bytes p) @ drop (length (info_bytes p)) d)"
  using assms by (auto simp: info_bytes_def put_le32)

lemma put_ext:
  assumes "length (ext_bytes ht t) \<le> length d" "int (length pre) + int (length (ext_bytes ht t)) \<le> hend"
  shows "(if ht < 3 \<and> t \<ge> 0xffffff then do {
          hptr \<leftarrow> deref (Some (int (length pre)));
          AMF_EncodeInt32 (pre @ d) hptr hend (int32 (uint t))
        } else Some (Some (int (length pre)), pre @ d))
    = Some (Some (int (length (pre @ ext_bytes ht t))), (pre @ ext_bytes ht t) @ drop (length (ext_bytes ht t)) d)"
  using assms by (auto simp: ext_bytes_def wrote_int32 be_int32)

lemma put_header_bytes:
  assumes "0 \<le> m_headerType p" "m_headerType p \<le> 3" "nSize = packetSize ! nat (m_headerType p)"
    and "length (header_bytes p t) \<le> length d" "int (length pre) + int (length (header_bytes p t)) \<le> hend"
  shows "put_header (pre @ d) (int (length pre)) hend p nSize t = Some (pre @ header_bytes p t @ drop (length (header_bytes p t)) d)"
proof -
  let ?ht = "m_headerType p" and ?n = "m_nChannel p"
  define cb where "cb = chan_bytes (first_byte ?ht ?n) ?n"
  note more = packet_size_more [OF assms(1,2), folded assms(3)]
  have hb: "header_bytes p t = cb @ stamp_bytes ?ht t @ size_bytes p @ info_bytes p @ ext_bytes ?ht t"
    by (simp add: header_bytes_def field_bytes_parts cb_def)
  have len: "length cb + length (stamp_bytes ?ht t) + length (size_bytes p) + length (info_bytes p) + length (ext_bytes ?ht t) \<le> length d"
    and room: "int (length pre) + int (length cb + length (stamp_bytes ?ht t) + length (size_bytes p) + length (info_bytes p) + length (ext_bytes ?ht t)) \<le> hend"
    using assms(4,5) by (simp_all add: hb)
  have c: "put_channel (pre @ d) (int (length pre)) (first_byte ?ht ?n) ?n = Some ((pre @ cb) @ drop (length cb) d)"
    using put_channel_bytes [of "first_byte ?ht ?n" ?n d pre] len by (simp add: cb_def)
  have p: "int (length pre) + 1 + channel_size ?n = int (length (pre @ cb))"
    using length_chan_bytes [of "first_byte ?ht ?n" ?n] by (simp add: cb_def)
  let ?d1 = "drop (length cb) d" and ?p2 = "(pre @ cb) @ stamp_bytes ?ht t"
  let ?d2 = "drop (length (stamp_bytes ?ht t)) ?d1" and ?p3 = "?p2 @ size_bytes p"
  let ?d3 = "drop (length (size_bytes p)) ?d2" and ?p4 = "?p3 @ info_bytes p"
  let ?d4 = "drop (length (info_bytes p)) ?d3"
  have l: "length (stamp_bytes ?ht t) \<le> length ?d1" "length (size_bytes p) \<le> length ?d2"
      "length (info_bytes p) \<le> length ?d3" "length (ext_bytes ?ht t) \<le> length ?d4"
    "int (length (pre @ cb)) + int (length (stamp_bytes ?ht t)) \<le> hend" "int (length ?p2) + int (length (size_bytes p)) \<le> hend"
      "int (length ?p4) + int (length (ext_bytes ?ht t)) \<le> hend"
    using len room by simp_all
  have "put_header (pre @ d) (int (length pre)) hend p nSize t = Some ((?p4 @ ext_bytes ?ht t) @ drop (length (ext_bytes ?ht t)) ?d4)"
    by (simp only: put_header_def Let_def c more p bind.bind_lunit prod.case put_stamp [OF l(1,5)] put_size [OF l(2,6)]
        put_info [OF l(3)] put_ext [OF l(4,7)])
  then show ?thesis by (simp add: hb add.assoc add.commute add.left_commute)
qed

section \<open>Writing to the socket\<close>

text \<open>A connection is writable if \<open>send\<close> fails at most with EINTR and always accepts something.\<close>

fun good_send :: "bool \<Rightarrow> send_result \<Rightarrow> bool" where
  "good_send ctrlC (Accepts k) \<longleftrightarrow> 0 < k"
| "good_send ctrlC (Send_error e) \<longleftrightarrow> e = EINTR \<and> \<not> ctrlC"

definition writable :: "RTMP \<Rightarrow> bool" where
  "writable r \<longleftrightarrow> RTMP_IsConnected r \<and> list_all (good_send (RTMP_ctrlC r)) (net_send r)"

definition sent :: "RTMP \<Rightarrow> bytes \<Rightarrow> send_result list \<Rightarrow> RTMP" where
  "sent r bs s = r\<lparr>net_out := net_out r @ bs, net_send := s\<rparr>"

lemma write_loop_sends:
  assumes "writable r"
  shows "\<exists>s. write_loop close r buf = Some (True, sent r buf s) \<and> writable (sent r buf s)"
  using assms
proof (induction close r buf rule: write_loop.induct)
  case (1 close r buf)
  show ?case
  proof (cases "buf = []")
    case True
    then have "write_loop close r buf = Some (True, sent r buf (net_send r))" by (simp add: write_loop.simps sent_def)
    moreover have "writable (sent r buf (net_send r))" using 1(3) True by (simp add: sent_def)
    ultimately show ?thesis by blast
  next
    case False
    note simps = write_loop.simps [of close r buf] False RTMPSockBuf_Send_def
    have conn: "sb_socket (m_sb r) \<noteq> - 1" using 1(3) by (simp add: writable_def RTMP_IsConnected_def)
    show ?thesis
    proof (cases "net_send r")
      case Nil
      have w: "writable (r\<lparr>net_out := net_out r @ buf\<rparr>)" using 1(3) by (simp add: writable_def RTMP_IsConnected_def)
      have "write_loop close r buf = write_loop close (r\<lparr>net_out := net_out r @ buf\<rparr>) []"
        using Nil conn False by (simp add: write_loop.simps [of close r buf] RTMPSockBuf_Send_def)
      also have "\<dots> = Some (True, sent r buf [])" using Nil by (simp add: write_loop.simps sent_def)
      finally show ?thesis using w Nil by (auto simp: sent_def writable_def RTMP_IsConnected_def)
    next
      case (Cons x s)
      show ?thesis
      proof (cases x)
        case (Accepts k)
        define j where "j = min k (length buf)"
        define r' where "r' = r\<lparr>net_out := net_out r @ take j buf, net_send := s\<rparr>"
        have j: "0 < j" using 1(3) Cons Accepts False by (simp add: j_def writable_def)
        have w: "writable r'" using 1(3) Cons by (simp add: r'_def writable_def RTMP_IsConnected_def)
        have s: "RTMPSockBuf_Send r buf = (Accepts j, r')"
          using conn Cons Accepts by (simp add: RTMPSockBuf_Send_def j_def r'_def Let_def)
        obtain s' where "write_loop close r' (drop j buf) = Some (True, sent r' (drop j buf) s')" "writable (sent r' (drop j buf) s')"
          using 1(1) [OF False s [symmetric] refl _ w] j by auto
        moreover have "sent r' (drop j buf) s' = sent r buf s'" by (simp add: sent_def r'_def)
        ultimately show ?thesis using s j False by (auto simp: write_loop.simps [of close r buf])
      next
        case (Send_error e)
        define r' where "r' = r\<lparr>net_send := s\<rparr>"
        have e: "e = EINTR \<and> \<not> RTMP_ctrlC r" using 1(3) Cons Send_error by (simp add: writable_def)
        have w: "writable r'" using 1(3) Cons by (simp add: r'_def writable_def RTMP_IsConnected_def)
        have s: "RTMPSockBuf_Send r buf = (Send_error e, r')"
          using conn Cons Send_error by (simp add: RTMPSockBuf_Send_def r'_def)
        obtain s' where "write_loop close r' buf = Some (True, sent r' buf s')" "writable (sent r' buf s')"
          using 1(2) [OF False s [symmetric] refl e w] by auto
        moreover have "sent r' buf s' = sent r buf s'" by (simp add: sent_def r'_def)
        ultimately show ?thesis using s e False by (auto simp: write_loop.simps [of close r buf])
      qed
    qed
  qed
qed

lemma WriteN_sends:
  assumes "writable r" "blocks r b = Some (pre @ bs @ rest)"
  shows "\<exists>s. WriteN close r (b, int (length pre)) (int (length bs)) = Some (True, sent r bs s) \<and> writable (sent r bs s)"
proof -
  have "load r (b, int (length pre)) (int (length bs)) = Some bs"
    using assms(2) by (simp add: load_def slice_tail(2) slice_take)
  then show ?thesis using write_loop_sends [OF assms(1)] by (simp add: WriteN_def)
qed

section \<open>Sending chunks\<close>

lemma sent_simps [simp]:
  "blocks (sent r bs s) = blocks r" "m_vecChannelsOut (sent r bs s) = m_vecChannelsOut r" "m_methodCalls (sent r bs s) = m_methodCalls r"
  "(sent r bs s)\<lparr>blocks := m\<rparr> = sent (r\<lparr>blocks := m\<rparr>) bs s"
  by (simp_all add: sent_def)

lemma writable_mem [simp]: "writable (r\<lparr>blocks := m\<rparr>) = writable r" "writable (sent (r\<lparr>blocks := m\<rparr>) bs s) = writable (sent r bs s)"
  by (simp_all add: writable_def RTMP_IsConnected_def sent_def)

lemma send_last:
  assumes "writable r" "length body \<le> k" "blocks r b = Some (pre @ hdr @ body @ rest)" "hdr \<noteq> []"
  shows "\<exists>s. send_loop close r c n (b, int (length pre)) (int (length hdr)) buffer (int (length body)) (int k)
      = Some (True, sent r (hdr @ body) s) \<and> writable (sent r (hdr @ body) s)"
proof -
  obtain s where w: "WriteN close r (b, int (length pre)) (int (length (hdr @ body))) = Some (True, sent r (hdr @ body) s)"
      "writable (sent r (hdr @ body) s)"
    using WriteN_sends [OF assms(1), of b pre "hdr @ body" rest close] assms(3) by auto
  have "(if int (length body) < int k then int (length body) else int k) = int (length body)"
    using assms(2) by auto
  moreover have "int (length body) + int (length hdr) \<noteq> 0"
  proof -
    have "0 < length hdr" using assms(4) by simp
    then show ?thesis by linarith
  qed
  ultimately show ?thesis using w
    by (subst send_loop.simps) (auto simp: add.commute send_loop.simps [of _ _ _ _ _ 0 _ 0])
qed

lemma send_step:
  assumes "writable r" "k < length body" "0 < k" "blocks r b = Some (pre @ hdr @ body @ rest)"
    and "nxt = chan_bytes (0xC0 OR c) n" "length nxt \<le> length (pre @ hdr)"
  defines "P \<equiv> take (length (pre @ hdr) + k - length nxt) (pre @ hdr @ body @ rest)"
  shows "\<exists>s. send_loop close r c n (b, int (length pre)) (int (length hdr)) (Some (b, int (length (pre @ hdr)))) (int (length body)) (int k)
      = send_loop close (sent (r\<lparr>blocks := (blocks r)(b \<mapsto> P @ nxt @ drop k body @ rest)\<rparr>) (hdr @ take k body) s) c n
          (b, int (length P)) (int (length nxt)) (Some (b, int (length (P @ nxt)))) (int (length (drop k body))) (int k)
    \<and> writable (sent r (hdr @ take k body) s)"
proof -
  let ?blk = "pre @ hdr @ body @ rest" and ?L = "length (pre @ hdr)"
  have lP: "length P = ?L + k - length nxt" using assms(2) by (simp add: P_def)
  have P: "int (length P) = int ?L + int k - 1 - channel_size n"
    using assms(6) length_chan_bytes [of "0xC0 OR c" n] unfolding lP by (simp add: assms(5))
  have tail: "drop (length P + length nxt) ?blk = drop k body @ rest"
  proof -
    have "length P + length nxt = ?L + k" using assms(6) lP by linarith
    then show ?thesis using assms(2) by simp
  qed
  have "take (length P) ?blk = P" by (subst lP) (simp only: P_def)
  then have split: "?blk = P @ drop (length P) ?blk" by (metis append_take_drop_id)
  have "put_channel (P @ drop (length P) ?blk) (int (length P)) (0xC0 OR c) n = Some (P @ nxt @ drop (length nxt) (drop (length P) ?blk))"
    unfolding assms(5) by (rule put_channel_bytes) (use assms(2,6) lP in \<open>simp add: assms(5)\<close>)
  then have put: "put_channel ?blk (int (length P)) (0xC0 OR c) n = Some (P @ nxt @ drop k body @ rest)"
    using split tail by (simp add: add.commute)
  obtain s where w: "WriteN close r (b, int (length pre)) (int (length (hdr @ take k body))) = Some (True, sent r (hdr @ take k body) s)"
      "writable (sent r (hdr @ take k body) s)"
    using WriteN_sends [OF assms(1), of b pre "hdr @ take k body" "drop k body @ rest" close] assms(4) by auto
  have n: "int (length nxt) = 1 + channel_size n" by (simp add: assms(5) length_chan_bytes)
  have e: "int (length (P @ nxt)) = int ?L + int k" "int (length (drop k body)) = int (length body) - int k"
    using P n assms(2) by simp_all
  have h: "int (length (hdr @ take k body)) = int k + int (length hdr)" "int (length body) + int (length hdr) \<noteq> 0"
    using assms(2,3) by auto
  have g: "0 < int (length body) - int k" "(if int (length body) < int k then int (length body) else int k) = int k"
    using assms(2) by simp_all
  note w' = w(1) [unfolded h(1)]
  show ?thesis
    by (rule exI [of _ s], subst send_loop.simps)
      (simp only: h(2) g w' w(2) put [unfolded P] assms(4) sent_simps Let_def e n P if_False if_True bind.bind_lunit prod.case deref_simps not_True_eq_False simp_thms)
qed

text \<open>The block with the body keeps its length and what is in front of the last bytes of the first chunk.\<close>

lemma overwritten_prefix:
  assumes "take (m + k) blk' = take (m + k) (P @ rest)" "P = take j blk" "m \<le> j" "m \<le> length P"
  shows "take m blk' = take m blk"
proof -
  have "take m blk' = take m (take (m + k) blk')" by simp
  also have "\<dots> = take m P" using assms(1,4) by simp
  finally show ?thesis using assms(2,3) by simp
qed

lemma send_loop_sends:
  assumes "writable r" "0 < k" "blocks r b = Some (pre @ hdr @ body @ rest)" "hdr \<noteq> []"
    and "nxt = chan_bytes (0xC0 OR c) n" "length nxt \<le> length (pre @ hdr)"
  shows "\<exists>s blk'. send_loop close r c n (b, int (length pre)) (int (length hdr)) (Some (b, int (length (pre @ hdr)))) (int (length body)) (int k)
      = Some (True, sent (r\<lparr>blocks := (blocks r)(b \<mapsto> blk')\<rparr>) (hdr @ chunked k nxt body) s) \<and>
    length blk' = length (pre @ hdr @ body @ rest) \<and> take (length (pre @ hdr) + k - 3) blk' = take (length (pre @ hdr) + k - 3) (pre @ hdr @ body @ rest) \<and>
    writable (sent r (hdr @ chunked k nxt body) s)"
  using assms
proof (induction "length body" arbitrary: r pre hdr body rule: less_induct)
  case less
  define blk L where "blk = pre @ hdr @ body @ rest" and "L = length (pre @ hdr)"
  note blocks = less.prems(3) [folded blk_def]
  show ?case
  proof (cases "length body \<le> k")
    case True
    then have c: "chunked k nxt body = body" by (simp add: chunked.simps)
    have r: "r\<lparr>blocks := (blocks r)(b \<mapsto> blk)\<rparr> = r" using fun_upd_triv [of "blocks r" b] blocks by simp
    obtain s where "send_loop close r c n (b, int (length pre)) (int (length hdr)) (Some (b, int L)) (int (length body)) (int k)
        = Some (True, sent r (hdr @ body) s)" "writable (sent r (hdr @ body) s)"
      using send_last [OF less.prems(1) True less.prems(3,4)] by blast
    then show ?thesis unfolding blk_def [symmetric] L_def [symmetric]
      by (intro exI [of _ s] exI [of _ blk]) (simp only: r c simp_thms)
  next
    case False
    define P where "P = take (L + k - length nxt) blk"
    define blk2 where "blk2 = P @ nxt @ drop k body @ rest"
    have k: "k < length body" using False by simp
    have nx: "nxt \<noteq> []" "length nxt \<le> 3" using less.prems(5) by (simp_all add: chan_bytes_def)
    have lb: "length blk = L + length body + length rest" by (simp add: blk_def L_def)
    have nL: "length nxt \<le> L" using less.prems(6) by (simp add: L_def)
    have lP: "length P = L + k - length nxt" "length (P @ nxt) = L + k" using nL k lb by (simp_all add: P_def)
    obtain s where s: "send_loop close r c n (b, int (length pre)) (int (length hdr)) (Some (b, int L)) (int (length body)) (int k)
        = send_loop close (sent (r\<lparr>blocks := (blocks r)(b \<mapsto> blk2)\<rparr>) (hdr @ take k body) s) c n
            (b, int (length P)) (int (length nxt)) (Some (b, int (length (P @ nxt)))) (int (length (drop k body))) (int k)"
      and w: "writable (sent r (hdr @ take k body) s)"
      using send_step [OF less.prems(1) k less.prems(2,3,5,6)] unfolding L_def [symmetric] blk_def [symmetric] P_def [symmetric] blk2_def [symmetric] by blast
    define r2 where "r2 = sent (r\<lparr>blocks := (blocks r)(b \<mapsto> blk2)\<rparr>) (hdr @ take k body) s"
    have "\<exists>s' blk'. send_loop close r2 c n (b, int (length P)) (int (length nxt)) (Some (b, int (length (P @ nxt)))) (int (length (drop k body))) (int k)
        = Some (True, sent (r2\<lparr>blocks := (blocks r2)(b \<mapsto> blk')\<rparr>) (nxt @ chunked k nxt (drop k body)) s') \<and>
      length blk' = length (P @ nxt @ drop k body @ rest) \<and>
      take (length (P @ nxt) + k - 3) blk' = take (length (P @ nxt) + k - 3) (P @ nxt @ drop k body @ rest) \<and>
      writable (sent r2 (nxt @ chunked k nxt (drop k body)) s')"
    proof (rule less.hyps)
      show "length (drop k body) < length body" using k less.prems(2) by simp
      show "writable r2" using w by (simp add: r2_def)
      show "blocks r2 b = Some (P @ nxt @ drop k body @ rest)" by (simp add: r2_def blk2_def)
      show "length nxt \<le> length (P @ nxt)" by simp
    qed (use nx less.prems(2,5) in simp_all)
    then obtain s' blk' where b': "send_loop close r2 c n (b, int (length P)) (int (length nxt)) (Some (b, int (length (P @ nxt)))) (int (length (drop k body))) (int k)
        = Some (True, sent (r2\<lparr>blocks := (blocks r2)(b \<mapsto> blk')\<rparr>) (nxt @ chunked k nxt (drop k body)) s')"
      and l: "length blk' = length (P @ nxt @ drop k body @ rest)"
      and t: "take (length (P @ nxt) + k - 3) blk' = take (length (P @ nxt) + k - 3) (P @ nxt @ drop k body @ rest)"
      and w': "writable (sent r2 (nxt @ chunked k nxt (drop k body)) s')" by blast
    have c: "chunked k nxt body = take k body @ nxt @ chunked k nxt (drop k body)"
      using k less.prems(2) by (simp add: chunked.simps [of k nxt body])
    have len: "length blk' = length blk" using l lP k lb by simp
    have tk: "take (L + k - 3) blk' = take (L + k - 3) blk"
    proof (rule overwritten_prefix [OF _ P_def])
      have "L + k - 3 + k = L + k + k - 3 \<or> L + k - 3 = 0" by arith
      then show "take (L + k - 3 + (if L + k - 3 = 0 then 0 else k)) blk' = take (L + k - 3 + (if L + k - 3 = 0 then 0 else k)) (P @ nxt @ drop k body @ rest)"
        using t unfolding lP(2) by (cases "L + k - 3 = 0") (simp_all only: if_True if_False add_0 take_0 simp_thms)
    qed (use nx lP in simp_all)
    have e: "sent (r2\<lparr>blocks := (blocks r2)(b \<mapsto> blk')\<rparr>) (nxt @ chunked k nxt (drop k body)) s'
      = sent (r\<lparr>blocks := (blocks r)(b \<mapsto> blk')\<rparr>) (hdr @ chunked k nxt body) s'"
      unfolding c by (simp add: sent_def r2_def)
    have ww: "writable (sent r (hdr @ chunked k nxt body) s')"
      using w' unfolding c by (simp add: sent_def r2_def writable_def RTMP_IsConnected_def)
    show ?thesis unfolding blk_def [symmetric] L_def [symmetric]
      by (intro exI [of _ s'] exI [of _ blk']) (simp only: s [folded r2_def] b' e len tk ww simp_thms)
  qed
qed

section \<open>Sending a packet\<close>

definition ext_size :: "int \<Rightarrow> 32 word \<Rightarrow> int" where
  "ext_size nSize t = (if nSize > 1 \<and> t \<ge> 0xffffff then 4 else 0)"

lemma length_header_bytes:
  assumes "0 \<le> m_headerType p" "m_headerType p \<le> 3" "nSize = packetSize ! nat (m_headerType p)"
  shows "int (length (header_bytes p t)) = nSize + channel_size (m_nChannel p) + ext_size nSize t"
    and "length (header_bytes p t) \<le> 18" "length (next_header p) \<le> length (header_bytes p t)" "header_bytes p t \<noteq> []"
proof -
  show l: "int (length (header_bytes p t)) = nSize + channel_size (m_nChannel p) + ext_size nSize t"
    by (rule header_type_cases [OF assms(1,2)])
      (simp_all add: header_bytes_def field_bytes_def ext_bytes_def ext_size_def length_chan_bytes assms(3) packetSize_def)
  have "nSize \<le> 12" by (rule header_type_cases [OF assms(1,2)]) (simp_all add: assms(3) packetSize_def)
  then have "int (length (header_bytes p t)) \<le> 18" using l channel_size_range(2) [of "m_nChannel p"] by (simp add: ext_size_def split: if_splits)
  then show "length (header_bytes p t) \<le> 18" by simp
  show "length (next_header p) \<le> length (header_bytes p t)" "header_bytes p t \<noteq> []"
    by (auto simp: header_bytes_def next_header_def chan_bytes_def)
qed

lemma send_header_sends:
  assumes "writable r" "0 < m_outChunkSize r" "0 \<le> m_headerType p" "m_headerType p \<le> 3" "nSize = packetSize ! nat (m_headerType p)"
    and "m_body p = Some (b, int (length pre))" "blocks r b = Some (pre @ body @ rest)" "18 \<le> length pre"
    and "m_nBodySize p = int (length body)" "m_nBodySize p < 2 ^ 31"
  shows "\<exists>s blk'. send_header close r p nSize t
      = Some (True, sent (r\<lparr>blocks := (blocks r)(b \<mapsto> blk')\<rparr>) (wire (nat (m_outChunkSize r)) p t body) s) \<and>
    length blk' = length (pre @ body @ rest) \<and>
    take (nat (m_outChunkSize r) - 3) (drop (length pre) blk') = take (nat (m_outChunkSize r) - 3) (body @ rest) \<and>
    writable (sent r (wire (nat (m_outChunkSize r)) p t body) s)"
proof -
  let ?n = "m_nChannel p" and ?k = "nat (m_outChunkSize r)" and ?hb = "header_bytes p t" and ?nxt = "next_header p"
  define pre1 where "pre1 = take (length pre - length ?hb) pre"
  define pre2 where "pre2 = drop (length pre - length ?hb) pre"
  note lh = length_header_bytes [OF assms(3-5)]
  have pre: "pre = pre1 @ pre2" "length pre2 = length ?hb" using assms(8) lh(2) [of t] by (simp_all add: pre1_def pre2_def)
  have l1: "int (length pre) - nSize - channel_size ?n - ext_size nSize t = int (length pre1)" using lh(1) [of t] pre by simp
  have len: "length pre = length (pre1 @ ?hb)" using pre by simp
  have put: "put_header (pre @ body @ rest) (int (length pre1)) (int (length pre)) p nSize t = Some (pre1 @ ?hb @ body @ rest)"
    using put_header_bytes [OF assms(3-5), of t "pre2 @ body @ rest" pre1 "int (length pre)"] pre by simp
  let ?r = "r\<lparr>blocks := (blocks r)(b \<mapsto> pre1 @ ?hb @ body @ rest)\<rparr>"
  have k: "int ?k = m_outChunkSize r" "0 < ?k" using assms(2) by simp_all
  have sz: "int32 (m_nBodySize p) = int (length body)" using assms(9,10) by (simp add: int32_def signed_take_bit_int_eq_self)
  have nl: "length ?nxt \<le> length (pre1 @ ?hb)" using lh(3) [of t] by simp
  have "\<exists>s blk'. send_loop close ?r (first_byte (m_headerType p) ?n) ?n (b, int (length pre1)) (int (length ?hb)) (Some (b, int (length (pre1 @ ?hb)))) (int (length body)) (int ?k)
      = Some (True, sent (?r\<lparr>blocks := (blocks ?r)(b \<mapsto> blk')\<rparr>) (?hb @ chunked ?k ?nxt body) s) \<and>
    length blk' = length (pre1 @ ?hb @ body @ rest) \<and> take (length (pre1 @ ?hb) + ?k - 3) blk' = take (length (pre1 @ ?hb) + ?k - 3) (pre1 @ ?hb @ body @ rest) \<and>
    writable (sent ?r (?hb @ chunked ?k ?nxt body) s)"
    by (rule send_loop_sends [OF _ k(2) _ lh(4) next_header_def nl]) (use assms(1) in simp_all)
  then obtain s blk' where s: "send_loop close ?r (first_byte (m_headerType p) ?n) ?n (b, int (length pre1)) (int (length ?hb)) (Some (b, int (length pre))) (int (length body)) (m_outChunkSize r)
      = Some (True, sent (r\<lparr>blocks := (blocks r)(b \<mapsto> blk')\<rparr>) (wire ?k p t body) s)"
    and l: "length blk' = length (pre1 @ ?hb @ body @ rest)" and tk: "take (length pre + ?k - 3) blk' = take (length pre + ?k - 3) (pre1 @ ?hb @ body @ rest)"
    and w: "writable (sent r (wire ?k p t body) s)"
    unfolding wire_def k(1) len [symmetric] by auto
  have hs: "nSize + channel_size ?n + ext_size nSize t = int (length ?hb)" using lh(1) by simp
  have "send_header close r p nSize t = Some (True, sent (r\<lparr>blocks := (blocks r)(b \<mapsto> blk')\<rparr>) (wire ?k p t body) s)"
    by (simp only: send_header_def Let_def header_place_def assms(6,7) option.case prod.case ext_size_def [symmetric] l1 bind.bind_lunit
        put hs sz s option.distinct if_False)
  moreover have "take (?k - 3) (drop (length pre) blk') = take (?k - 3) (body @ rest)"
  proof (cases "3 \<le> ?k")
    case True
    have "take (?k - 3) (drop (length pre) blk') = drop (length pre) (take (length pre + ?k - 3) blk')" using True by (simp add: drop_take)
    also have "\<dots> = take (?k - 3) (drop (length pre) (pre1 @ ?hb @ body @ rest))" unfolding tk using True by (simp only: drop_take) simp
    finally show ?thesis unfolding len by simp
  qed simp
  moreover have "length blk' = length (pre @ body @ rest)" using l len by simp
  ultimately show ?thesis using w by blast
qed

definition chan :: "'a option list \<Rightarrow> int \<Rightarrow> 'a option" where
  "chan xs n = (if 0 \<le> n \<and> n < int (length xs) then xs ! nat n else None)"

lemma grow_get: "0 \<le> n \<Longrightarrow> array_get (grow xs n None) n = Some (chan xs n)"
  by (auto simp: array_get_def grow_def chan_def nth_append)

lemma grow_length: "0 \<le> n \<Longrightarrow> n < int (length (grow xs n z))"
  by (auto simp: grow_def)

lemma chan_grow [simp]: "chan (grow xs n None) m = chan xs m"
  by (auto simp: chan_def grow_def nth_append)

lemma chan_update: "0 \<le> n \<Longrightarrow> n < int (length xs) \<Longrightarrow> chan (xs[nat n := v]) m = (if m = n then v else chan xs m)"
  by (auto simp: chan_def nth_list_update nat_eq_iff)

text \<open>Compression only changes the type of the header.\<close>

definition header_type :: "RTMPPacket option \<Rightarrow> RTMPPacket \<Rightarrow> int" where
  "header_type prev p = m_headerType (fst (compress prev p))"

definition last_stamp :: "RTMPPacket option \<Rightarrow> RTMPPacket \<Rightarrow> 32 word" where
  "last_stamp prev p = snd (compress prev p)"

lemma compress_eq: "compress prev p = (p\<lparr>m_headerType := header_type prev p\<rparr>, last_stamp prev p)"
  by (auto simp: compress_def header_type_def last_stamp_def Let_def split: option.splits)

lemma header_type_range: "0 \<le> m_headerType p \<Longrightarrow> m_headerType p \<le> 3 \<Longrightarrow> 0 \<le> header_type prev p \<and> header_type prev p \<le> 3"
  by (auto simp: compress_def header_type_def Let_def split: option.splits)

lemma queue_method_channels: "queue_method r p q = Some r' \<Longrightarrow> m_vecChannelsOut r' = m_vecChannelsOut r"
  by (auto simp: queue_method_def bind_eq_Some_conv split: if_splits)

lemma RTMP_SendPacket_sends:
  fixes r :: RTMP and p :: RTMPPacket
  defines "n \<equiv> m_nChannel p" and "k \<equiv> nat (m_outChunkSize r)"
  defines "prev \<equiv> chan (m_vecChannelsOut r) n"
  defines "p' \<equiv> p\<lparr>m_headerType := header_type prev p\<rparr>" and "t \<equiv> m_nTimeStamp p - last_stamp prev p"
  assumes "writable r" "0 < m_outChunkSize r" "0 \<le> m_headerType p" "m_headerType p \<le> 3" "0 \<le> n"
    and "m_body p = Some (b, int (length pre))" "blocks r b = Some (pre @ body @ rest)" "18 \<le> length pre"
    and "m_nBodySize p = int (length body)" "m_nBodySize p < 2 ^ 31"
  shows "\<exists>s blk'. RTMP_SendPacket close r p queue = do {
        r' \<leftarrow> queue_method (sent (r\<lparr>m_vecChannelsOut := grow (m_vecChannelsOut r) n None, blocks := (blocks r)(b \<mapsto> blk')\<rparr>) (wire k p' t body) s) p' queue;
        Some (True, r'\<lparr>m_vecChannelsOut := (grow (m_vecChannelsOut r) n None)[nat n := Some p']\<rparr>, p')
      } \<and> length blk' = length (pre @ body @ rest) \<and> take (k - 3) (drop (length pre) blk') = take (k - 3) (body @ rest) \<and>
    writable (sent r (wire k p' t body) s)"
proof -
  let ?r = "r\<lparr>m_vecChannelsOut := grow (m_vecChannelsOut r) n None\<rparr>"
  have ht: "0 \<le> m_headerType p'" "m_headerType p' \<le> 3" using header_type_range [OF assms(8,9)] by (simp_all add: p'_def)
  have sz: "array_get packetSize (m_headerType p') = Some (packetSize ! nat (m_headerType p'))"
    using ht by (simp add: array_get_def packetSize_def)
  have w: "writable ?r" "0 < m_outChunkSize ?r" using assms(6,7) by (simp_all add: writable_def RTMP_IsConnected_def)
  have "m_body p' = Some (b, int (length pre))" "blocks ?r b = Some (pre @ body @ rest)" "m_nBodySize p' = int (length body)" "m_nBodySize p' < 2 ^ 31"
    using assms(11-15) by (simp_all add: p'_def)
  from send_header_sends [OF w ht refl this(1,2) assms(13) this(3,4), of close t]
  obtain s blk' where s: "send_header close ?r p' (packetSize ! nat (m_headerType p')) t = Some (True, sent (?r\<lparr>blocks := (blocks r)(b \<mapsto> blk')\<rparr>) (wire k p' t body) s)"
    and b: "length blk' = length (pre @ body @ rest)" "take (k - 3) (drop (length pre) blk') = take (k - 3) (body @ rest)"
    and w: "writable (sent ?r (wire k p' t body) s)"
    unfolding k_def by auto
  have w: "writable (sent r (wire k p' t body) s)" using w by (simp add: sent_def writable_def RTMP_IsConnected_def)
  have c: "compress (chan (m_vecChannelsOut r) n) p = (p', last_stamp prev p)" by (simp add: compress_eq p'_def prev_def)
  have gl: "array_get (grow (m_vecChannelsOut r) n None) n = Some (chan (m_vecChannelsOut r) n)" by (rule grow_get [OF assms(10)])
  have e: "m_nChannel p' = n" "m_nTimeStamp p' = m_nTimeStamp p" by (simp_all add: p'_def n_def)
  have "RTMP_SendPacket close r p queue = do {
        r' \<leftarrow> queue_method (sent (?r\<lparr>blocks := (blocks r)(b \<mapsto> blk')\<rparr>) (wire k p' t body) s) p' queue;
        Some (True, r'\<lparr>m_vecChannelsOut := (grow (m_vecChannelsOut r) n None)[nat n := Some p']\<rparr>, p')
      }"
    unfolding RTMP_SendPacket_def Let_def n_def [symmetric]
    by (cases "queue_method (sent (?r\<lparr>blocks := (blocks r)(b \<mapsto> blk')\<rparr>) (wire k p' t body) s) p' queue")
      (use ht(2) in \<open>simp_all add: gl c sz e s [unfolded t_def] t_def queue_method_channels\<close>)
  then show ?thesis using b w by auto
qed

end
