(* ===== verification/Rtmp_Recv.thy ===== *)
theory Rtmp_Recv
  imports Rtmp_Wire Rtmp_Amf_Value
begin

text \<open>
  What \<open>RTMP_ReadPacket\<close> makes of the bytes of a packet, however \<open>recv\<close> cuts them into pieces.
\<close>

section \<open>Reading from the socket\<close>

fun good_recv :: "bool \<Rightarrow> recv_result \<Rightarrow> bool" where
  "good_recv ctrlC (Received bs) \<longleftrightarrow> bs \<noteq> []"
| "good_recv ctrlC (Recv_error e) \<longleftrightarrow> e = EINTR \<and> \<not> ctrlC"

fun recv_bytes :: "recv_result \<Rightarrow> bytes" where
  "recv_bytes (Received bs) = bs"
| "recv_bytes (Recv_error e) = []"

definition pending :: "RTMP \<Rightarrow> bytes" where
  "pending r = sb_data (m_sb r) @ concat (map recv_bytes (net_in r))"

text \<open>\<open>rx r bs\<close>: the bytes \<open>bs\<close> can be read from the connection, without errors, and the
  reports to the peer can be sent; fewer than 2 GB have been received.\<close>

definition rx :: "RTMP \<Rightarrow> bytes \<Rightarrow> bool" where
  "rx r bs \<longleftrightarrow> writable r \<and> 0 < m_outChunkSize r \<and> list_all (good_recv (RTMP_ctrlC r)) (net_in r) \<and> pending r = bs \<and>
     0 \<le> m_nBytesInSent r \<and> m_nBytesInSent r \<le> m_nBytesIn r \<and> m_nBytesIn r + int (length bs) \<le> 1900000000 \<and>
     - (2 ^ 31) \<le> m_nClientBW r \<and> m_nClientBW r < 2 ^ 31 \<and> (\<forall>b \<ge> mem_next r. blocks r b = None)"

definition same_in :: "RTMP \<Rightarrow> RTMP \<Rightarrow> bool" where
  "same_in r r' \<longleftrightarrow> m_inChunkSize r' = m_inChunkSize r \<and> m_vecChannelsIn r' = m_vecChannelsIn r \<and>
     m_channelTimestamp r' = m_channelTimestamp r \<and> mem_chunks r' = mem_chunks r \<and> mem_next r \<le> mem_next r' \<and>
     m_stream_id r' = m_stream_id r \<and> m_pausing r' = m_pausing r"

lemma same_in_refl [simp]: "same_in r r"
  by (simp add: same_in_def)

lemma same_in_trans [trans]: "same_in r1 r2 \<Longrightarrow> same_in r2 r3 \<Longrightarrow> same_in r1 r3"
  by (auto simp: same_in_def)

lemma recv_loop_reads:
  assumes "list_all (good_recv c) s" "concat (map recv_bytes s) \<noteq> []" "0 < room"
  shows "\<exists>d s'. recv_loop c room s = (Received d, s') \<and> d \<noteq> [] \<and> d @ concat (map recv_bytes s') = concat (map recv_bytes s) \<and> list_all (good_recv c) s'"
  using assms
proof (induction c room s rule: recv_loop.induct)
  case (2 ctrlC room bs s)
  then show ?case by (cases "length bs \<le> room") auto
qed auto

lemma fill_reads:
  assumes "RTMP_IsConnected r" "sb_data (m_sb r) = []" "list_all (good_recv (RTMP_ctrlC r)) (net_in r)" "pending r \<noteq> []"
  shows "\<exists>d s. RTMPSockBuf_Fill r = (int (length d), r\<lparr>m_sb := (m_sb r)\<lparr>sb_pos := 0, sb_data := d\<rparr>, net_in := s\<rparr>) \<and>
     d \<noteq> [] \<and> d @ concat (map recv_bytes s) = pending r \<and> list_all (good_recv (RTMP_ctrlC r)) s"
proof -
  obtain d s where "recv_loop (RTMP_ctrlC r) 16383 (net_in r) = (Received d, s)" "d \<noteq> []"
      "d @ concat (map recv_bytes s) = concat (map recv_bytes (net_in r))" "list_all (good_recv (RTMP_ctrlC r)) s"
    using recv_loop_reads [OF assms(3), of 16383] assms(2,4) by (auto simp: pending_def)
  then show ?thesis using assms(1,2)
    by (auto simp: RTMPSockBuf_Fill_def RTMP_IsConnected_def RTMP_BUFFER_CACHE_SIZE_def pending_def)
qed

lemma fresh_upd: "\<forall>b \<ge> (k :: nat). m b = None \<Longrightarrow> m(k := None) = m"
  by (simp add: fun_upd_idem)

lemma SendBytesReceived_sends:
  assumes "writable r" "0 < m_outChunkSize r" "\<forall>b \<ge> mem_next r. blocks r b = None"
  shows "\<exists>s bs v. SendBytesReceived r = Some (True, (sent r bs s)\<lparr>m_nBytesInSent := m_nBytesIn r, m_vecChannelsOut := v, mem_next := Suc (mem_next r)\<rparr>)
    \<and> writable (sent r bs s)"
proof -
  define pbuf where "pbuf = replicate 18 0 @ be32 (m_nBytesIn r) @ (replicate 234 0 :: bytes)"
  have pb: "AMF_EncodeInt32 (pbuf_new 256) RTMP_MAX_HEADER_SIZE 256 (m_nBytesIn r) = Some (Some 22, pbuf)"
  proof -
    have "pbuf_new 256 = replicate 18 0 @ replicate 238 0" by (simp add: pbuf_new_def flip: replicate_add)
    then show ?thesis using wrote_int32 [of "replicate 238 0" "replicate 18 0" 256 "m_nBytesIn r"]
      by (simp add: pbuf_def RTMP_MAX_HEADER_SIZE_def)
  qed
  let ?p = "(local_packet 2 1 3 0 0)\<lparr>m_nBodySize := 4, m_body := Some (mem_next r, int (length (replicate 18 (0 :: byte))))\<rparr>"
  let ?r = "r\<lparr>m_nBytesInSent := m_nBytesIn r, blocks := (blocks r)(mem_next r \<mapsto> pbuf), mem_next := Suc (mem_next r)\<rparr>"
  have "writable ?r" "0 < m_outChunkSize ?r" "blocks ?r (mem_next r) = Some (replicate 18 0 @ be32 (m_nBytesIn r) @ replicate 234 0)"
    using assms by (simp_all add: writable_def RTMP_IsConnected_def pbuf_def)
  from RTMP_SendPacket_sends [of ?r ?p "mem_next r" "replicate 18 0" "be32 (m_nBytesIn r)" "replicate 234 0" RTMP_Close False] this
  obtain s blk' bs v p' where "RTMP_SendPacket RTMP_Close ?r ?p False
      = Some (True, (sent (?r\<lparr>blocks := (blocks ?r)(mem_next r \<mapsto> blk')\<rparr>) bs s)\<lparr>m_vecChannelsOut := v\<rparr>, p')"
      and w: "writable (sent ?r bs s)"
    by (auto simp: local_packet_def queue_method_def sent_def)
  then have "SendBytesReceived r = Some (True, (sent r bs s)\<lparr>m_nBytesInSent := m_nBytesIn r, m_vecChannelsOut := v, mem_next := Suc (mem_next r)\<rparr>)"
    using assms(3) by (auto simp: SendBytesReceived_def pb [unfolded RTMP_MAX_HEADER_SIZE_def] send_local_def malloc_def release_def Let_def RTMP_MAX_HEADER_SIZE_def sent_def fresh_upd)
  moreover have "writable (sent r bs s)" using w by (simp add: writable_def RTMP_IsConnected_def sent_def)
  ultimately show ?thesis by blast
qed

lemma report_reads:
  assumes "rx r bs"
  shows "\<exists>r'. report_bytes r = Some (True, r') \<and> rx r' bs \<and> same_in r r' \<and> blocks r' = blocks r"
proof -
  have "\<bar>c_div (m_nClientBW r) 10\<bar> \<le> 214748364"
  proof -
    have "\<bar>c_div (m_nClientBW r) 10\<bar> = \<bar>m_nClientBW r\<bar> div 10"
      by (simp add: c_div_def signed_divide_int_def abs_mult sgn_if)
    moreover have "\<bar>m_nClientBW r\<bar> \<le> 2147483648" using assms by (auto simp: rx_def)
    then have "\<bar>m_nClientBW r\<bar> div 10 \<le> 2147483648 div 10" by (intro zdiv_mono1) simp_all
    ultimately show ?thesis by simp
  qed
  then have a: "add_int (m_nBytesInSent r) (c_div (m_nClientBW r) 10) = Some (m_nBytesInSent r + c_div (m_nClientBW r) 10)"
    using assms by (auto simp: add_int_def rx_def INT_MAX_def)
  obtain s ws v where "SendBytesReceived r = Some (True, (sent r ws s)\<lparr>m_nBytesInSent := m_nBytesIn r, m_vecChannelsOut := v, mem_next := Suc (mem_next r)\<rparr>)"
      "writable (sent r ws s)"
    using SendBytesReceived_sends [of r] assms by (auto simp: rx_def)
  then show ?thesis using a assms
    by (auto simp: report_bytes_def rx_def same_in_def pending_def sent_def writable_def RTMP_IsConnected_def)
qed

lemma rx_mem: "rx r bs \<Longrightarrow> blocks r b = Some x \<Longrightarrow> rx (r\<lparr>blocks := (blocks r)(b \<mapsto> y)\<rparr>) bs"
  by (auto simp: rx_def writable_def RTMP_IsConnected_def pending_def)

lemma read_some_reads:
  assumes "rx r bs" "0 < n" "n \<le> length (sb_data (m_sb r))" "blocks r b = Some (pre @ old @ rest)" "length old = n"
  shows "\<exists>r'. read_some r (b, int (length pre)) (int n) = Some r' \<and> rx r' (drop n bs) \<and> same_in r r' \<and>
    blocks r' = (blocks r)(b \<mapsto> pre @ take n bs @ rest)"
proof -
  have bs: "bs = sb_data (m_sb r) @ concat (map recv_bytes (net_in r))" using assms(1) by (simp add: rx_def pending_def)
  have tk: "take n bs = take n (sb_data (m_sb r))" using assms(3) bs by simp
  have st: "store (pre @ old @ rest) (int (length pre)) (take n bs) = Some (pre @ take n bs @ rest)"
    using store_step [of "take n bs" "old @ rest" pre] assms(3,5) bs by simp
  have ne: "take n bs \<noteq> []" using assms(2,3) bs by auto
  have a: "add_int (m_nBytesIn r) (int n) = Some (m_nBytesIn r + int n)"
    using assms(1,3) by (auto simp: add_int_def rx_def INT_MAX_def pending_def)
  have rs: "read_some r (b, int (length pre)) (int n) =
     Some (r\<lparr>m_sb := (m_sb r)\<lparr>sb_data := drop n (sb_data (m_sb r)), sb_pos := sb_pos (m_sb r) + int n\<rparr>,
       m_nBytesIn := m_nBytesIn r + int n, blocks := (blocks r)(b \<mapsto> pre @ take n bs @ rest)\<rparr>)"
    using st ne a unfolding read_some_def poke_def by (simp add: assms(4) tk Let_def)
  show ?thesis unfolding rs using assms(1-4) bs
    by (auto simp: rx_def same_in_def writable_def RTMP_IsConnected_def pending_def)
qed

lemma read_loop_reads:
  assumes "rx r bs" "n \<le> length bs" "blocks r b = Some (pre @ old @ rest)" "length old = n"
  shows "\<exists>r'. read_loop k r (b, int (length pre)) (int n) = Some (k, r') \<and> rx r' (drop n bs) \<and> same_in r r' \<and>
    blocks r' = (blocks r)(b \<mapsto> pre @ take n bs @ rest)"
  using assms
proof (induction n arbitrary: r bs pre old rule: less_induct)
  case (less n)
  show ?case
  proof (cases "n = 0")
    case True
    then show ?thesis using less.prems by (auto simp: read_loop.simps fun_upd_idem)
  next
    case False
    have ne: "pending r \<noteq> []" "pending r = bs" using less.prems(1,2) False by (auto simp: rx_def)
    obtain f r1 where fill: "(if sb_data (m_sb r) = [] then RTMPSockBuf_Fill r else (1, r)) = (f, r1)"
      and f: "1 \<le> f" "rx r1 bs" "same_in r r1" "blocks r1 = blocks r" "sb_data (m_sb r1) \<noteq> []"
    proof (cases "sb_data (m_sb r) = []")
      case True
      obtain d s where "RTMPSockBuf_Fill r = (int (length d), r\<lparr>m_sb := (m_sb r)\<lparr>sb_pos := 0, sb_data := d\<rparr>, net_in := s\<rparr>)"
          "d \<noteq> []" "d @ concat (map recv_bytes s) = pending r" "list_all (good_recv (RTMP_ctrlC r)) s"
        using fill_reads [OF _ True _ ne(1)] less.prems(1) by (auto simp: rx_def writable_def)
      then show ?thesis using True less.prems(1)
        by (intro that [of "int (length d)" "r\<lparr>m_sb := (m_sb r)\<lparr>sb_pos := 0, sb_data := d\<rparr>, net_in := s\<rparr>"])
          (auto simp: rx_def same_in_def writable_def RTMP_IsConnected_def pending_def Suc_le_eq)
    qed (use less.prems(1) in \<open>auto intro: that\<close>)
    define j where "j = min n (length (sb_data (m_sb r1)))"
    have j: "0 < j" "j \<le> n" "j \<le> length (sb_data (m_sb r1))" "min (int n) (int (length (sb_data (m_sb r1)))) = int j"
      using False f(5) by (auto simp: j_def)
    have "blocks r1 b = Some (pre @ take j old @ drop j old @ rest)" using less.prems(3) f(4) by simp
    then obtain r2 where r2: "read_some r1 (b, int (length pre)) (int j) = Some r2" "rx r2 (drop j bs)" "same_in r1 r2"
        "blocks r2 = (blocks r1)(b \<mapsto> pre @ take j bs @ drop j old @ rest)"
      using read_some_reads [OF f(2) j(1,3), of b pre "take j old"] j(2) less.prems(4) by auto
    obtain r3 where r3: "report_bytes r2 = Some (True, r3)" "rx r3 (drop j bs)" "same_in r2 r3" "blocks r3 = blocks r2"
      using report_reads [OF r2(2)] by blast
    have "blocks r3 b = Some ((pre @ take j bs) @ drop j old @ rest)" using r2(4) r3(4) by simp
    moreover have "n - j < n" "n - j \<le> length (drop j bs)" "length (drop j old) = n - j" using j(1,2) less.prems(2,4) by auto
    ultimately obtain r4 where r4: "read_loop k r3 (b, int (length (pre @ take j bs))) (int (n - j)) = Some (k, r4)" "rx r4 (drop (n - j) (drop j bs))"
        "same_in r3 r4" "blocks r4 = (blocks r3)(b \<mapsto> (pre @ take j bs) @ take (n - j) (drop j bs) @ rest)"
      using less.IH [of "n - j" r3 "drop j bs" "pre @ take j bs" "drop j old"] r3(2) by blast
    have e: "int (length (pre @ take j bs)) = int (length pre) + int j" "int (n - j) = int n - int j" "drop (n - j) (drop j bs) = drop n bs"
      "(pre @ take j bs) @ take (n - j) (drop j bs) @ rest = pre @ take n bs @ rest"
      using j(1,2) less.prems(2) take_add [of j "n - j" bs] by (simp_all add: min_def)
    have "read_loop k r (b, int (length pre)) (int n) = read_loop k r3 (b, int (length pre) + int j) (int n - int j)"
      using False fill f(1) j r2(1) r3(1) by (subst read_loop.simps) (simp add: Let_def)
    moreover have "same_in r r4" using f(3) r2(3) r3(3) r4(3) same_in_trans by blast
    moreover have "blocks r4 = (blocks r)(b \<mapsto> pre @ take n bs @ rest)" unfolding r4(4) e(4) r3(4) r2(4) f(4) by simp
    ultimately show ?thesis using r4(1,2) e by auto
  qed
qed

lemma ReadN_reads:
  assumes "rx r bs" "n \<le> length bs" "blocks r b = Some (pre @ old @ rest)" "length old = n"
  shows "\<exists>r'. ReadN r (b, int (length pre)) (int n) = Some (int n, r') \<and> rx r' (drop n bs) \<and> same_in r r' \<and>
    blocks r' = (blocks r)(b \<mapsto> pre @ take n bs @ rest)"
proof -
  let ?r = "r\<lparr>m_sb := (m_sb r)\<lparr>sb_timedout := False\<rparr>\<rparr>"
  have "rx ?r bs" using assms(1) by (simp add: rx_def writable_def RTMP_IsConnected_def pending_def)
  then obtain r' where "read_loop (int n) ?r (b, int (length pre)) (int n) = Some (int n, r')" "rx r' (drop n bs)" "same_in ?r r'"
      "blocks r' = (blocks ?r)(b \<mapsto> pre @ take n bs @ rest)"
    using read_loop_reads [of ?r bs n b pre old rest "int n"] assms(2-4) by auto
  then show ?thesis by (auto simp: ReadN_def same_in_def)
qed

section \<open>The header\<close>

lemma first_byte_table:
  "list_all (\<lambda>ht. list_all (\<lambda>l. uint (drop_bit 6 ((word_of_int (push_bit 6 ht OR l) :: byte) AND 0xc0)) = ht \<and>
     uint ((word_of_int (push_bit 6 ht OR l) :: byte) AND 0x3f) = l \<and>
     0xC0 OR (word_of_int (push_bit 6 ht OR l) :: byte) = word_of_int (push_bit 6 3 OR l)) [0..63]) [0..3]"
  by code_simp

lemma first_byte_bits:
  assumes "0 \<le> ht" "ht \<le> 3" "0 \<le> l" "l \<le> 63"
  shows "uint (drop_bit 6 ((word_of_int (push_bit 6 ht OR l) :: byte) AND 0xc0)) = ht"
    "uint ((word_of_int (push_bit 6 ht OR l) :: byte) AND 0x3f) = l"
    "0xC0 OR (word_of_int (push_bit 6 ht OR l) :: byte) = word_of_int (push_bit 6 3 OR l)"
  using first_byte_table assms by (auto simp: list_all_iff)

definition low_bits :: "int \<Rightarrow> int" where
  "low_bits n = (if n > 319 then 1 else if n > 63 then 0 else n)"

lemma first_byte_eq: "first_byte ht n = word_of_int (push_bit 6 ht OR low_bits n)"
  by (simp add: first_byte_def channel_size_def low_bits_def Let_def)

lemma low_bits_range: "0 \<le> n \<Longrightarrow> 0 \<le> low_bits n \<and> low_bits n \<le> 63"
  by (simp add: low_bits_def)

lemma next_header_eq:
  assumes "0 \<le> m_headerType p" "m_headerType p \<le> 3" "0 \<le> m_nChannel p"
  shows "next_header p = chan_bytes (first_byte 3 (m_nChannel p)) (m_nChannel p)"
  using first_byte_bits(3) [of "m_headerType p" "low_bits (m_nChannel p)"] low_bits_range assms
  by (simp add: next_header_def first_byte_eq)

text \<open>\<open>ReadN\<close> into the buffer of the header.\<close>

lemma ReadN_into:
  assumes "rx r (xs @ bs)" "blocks r h = Some hbuf" "i + length xs \<le> length hbuf"
  shows "\<exists>r' hbuf'. ReadN r (h, int i) (int (length xs)) = Some (int (length xs), r') \<and> rx r' bs \<and> same_in r r' \<and>
    blocks r' = (blocks r)(h \<mapsto> hbuf') \<and> hbuf' = take i hbuf @ xs @ drop (i + length xs) hbuf \<and> length hbuf' = length hbuf"
proof -
  have "hbuf = take i hbuf @ take (length xs) (drop i hbuf) @ drop (i + length xs) hbuf"
    by (metis add.commute append_take_drop_id drop_drop)
  then have m: "blocks r h = Some (take i hbuf @ take (length xs) (drop i hbuf) @ drop (i + length xs) hbuf)" using assms(2) by simp
  have "\<exists>r'. ReadN r (h, int (length (take i hbuf))) (int (length xs)) = Some (int (length xs), r') \<and> rx r' (drop (length xs) (xs @ bs)) \<and>
      same_in r r' \<and> blocks r' = (blocks r)(h \<mapsto> take i hbuf @ take (length xs) (xs @ bs) @ drop (i + length xs) hbuf)"
    by (rule ReadN_reads [OF assms(1) _ m]) (use assms(3) in simp_all)
  moreover have "length (take i hbuf) = i" using assms(3) by simp
  ultimately show ?thesis using assms(3) by auto
qed

lemma read_basic_reads:
  assumes "rx r (chan_bytes (first_byte ht n) n @ bs)" "blocks r h = Some hbuf" "length hbuf = 18"
    and "0 \<le> ht" "ht \<le> 3" "2 \<le> n" "n < 65600"
  shows "\<exists>r' hbuf'. read_basic r h p = Some (True, r', p\<lparr>m_headerType := ht, m_nChannel := n\<rparr>, 1 + channel_size n) \<and>
    rx r' bs \<and> same_in r r' \<and> blocks r' = (blocks r)(h \<mapsto> hbuf') \<and> length hbuf' = 18"
proof -
  let ?c = "first_byte ht n" and ?xs = "tl (chan_bytes (first_byte ht n) n)"
  have cb: "chan_bytes ?c n = [?c] @ ?xs" by (simp add: chan_bytes_def)
  have "rx r ([?c] @ ?xs @ bs)" using assms(1) cb by (metis append_assoc)
  then obtain r1 hbuf1 where r1: "ReadN r (h, 0) 1 = Some (1, r1)" "rx r1 (?xs @ bs)" "same_in r r1" "blocks r1 = (blocks r)(h \<mapsto> hbuf1)"
      "hbuf1 = ?c # drop 1 hbuf" "length hbuf1 = 18"
    using ReadN_into [of r "[?c]" "?xs @ bs" h hbuf 0] assms(2,3) by auto
  have bits: "uint (drop_bit 6 (?c AND 0xc0)) = ht" "uint (?c AND 0x3f) = low_bits n"
    unfolding first_byte_eq using first_byte_bits [OF assms(4,5), of "low_bits n"] low_bits_range [of n] assms(6) by simp_all
  have pk: "peek hbuf1 0 = Some ?c" using r1(5) by (simp add: peek_def)
  note base = read_basic_def r1(1,4) bits bits(1) [simplified] pk
  consider "n \<le> 63" | "63 < n" "n \<le> 319" | "319 < n" by linarith
  then show ?thesis
  proof cases
    case 1
    then have "rx r1 bs" "low_bits n = n" using r1(2) by (simp_all add: chan_bytes_def low_bits_def)
    then show ?thesis using r1(3,4,6) 1 assms(6) by (auto simp: base channel_size_def)
  next
    case 2
    define w where "w = (word_of_int (n - 64) :: byte)"
    have xs: "?xs = [w]" and low: "low_bits n = 0" using 2 by (simp_all add: chan_bytes_def low_bits_def w_def)
    have x: "uint w = n - 64" unfolding w_def uint_word_of_int_eq using 2 by (simp add: take_bit_int_eq_self)
    obtain r2 hbuf2 where r2: "ReadN r1 (h, 1) 1 = Some (1, r2)" "rx r2 bs" "same_in r1 r2" "blocks r2 = (blocks r1)(h \<mapsto> hbuf2)"
        "hbuf2 = take 1 hbuf1 @ [w] @ drop 2 hbuf1" "length hbuf2 = 18"
      using ReadN_into [of r1 ?xs bs h hbuf1 1] r1 unfolding xs by (auto simp: numeral_2_eq_2)
    have "peek hbuf2 1 = Some w" using r2(5) r1(6) by (simp add: peek_def nth_append)
    then have "read_basic r h p = Some (True, r2, p\<lparr>m_headerType := ht, m_nChannel := n\<rparr>, 1 + channel_size n)"
      using 2 by (simp add: base low r2(1,4) x channel_size_def)
    then show ?thesis using same_in_trans [OF r1(3) r2(3)] r2(2,4,6) r1(4) by auto
  next
    case 3
    define v w where "v = (word_of_int (n - 64) :: byte)" and "w = (word_of_int (drop_bit 8 (n - 64)) :: byte)"
    have xs: "?xs = [v, w]" and low: "low_bits n = 1" using 3 by (simp_all add: chan_bytes_def low_bits_def v_def w_def)
    have x: "push_bit 8 (uint w) + uint v = n - 64"
    proof -
      have "drop_bit 8 (n - 64) < 256" "0 \<le> drop_bit 8 (n - 64)" using 3 assms(7) by (simp_all add: drop_bit_eq_div)
      then have "take_bit 8 (drop_bit 8 (n - 64)) = drop_bit 8 (n - 64)" by (simp add: take_bit_int_eq_self)
      then show ?thesis unfolding v_def w_def uint_word_of_int_eq by (simp add: push_bit_eq_mult drop_bit_eq_div take_bit_eq_mod)
    qed
    obtain r2 hbuf2 where r2: "ReadN r1 (h, 1) 2 = Some (2, r2)" "rx r2 bs" "same_in r1 r2" "blocks r2 = (blocks r1)(h \<mapsto> hbuf2)"
        "hbuf2 = take 1 hbuf1 @ [v, w] @ drop 3 hbuf1" "length hbuf2 = 18"
      using ReadN_into [of r1 ?xs bs h hbuf1 1] r1 unfolding xs by (auto simp: numeral_2_eq_2 numeral_3_eq_3)
    have "peek hbuf2 1 = Some v" "peek hbuf2 2 = Some w" using r2(5) r1(6) by (simp_all add: peek_def nth_append)
    then have "read_basic r h p = Some (True, r2, p\<lparr>m_headerType := ht, m_nChannel := n\<rparr>, 1 + channel_size n)"
      using 3 by (simp add: base low r2(1,4) x channel_size_def)
    then show ?thesis using same_in_trans [OF r1(3) r2(3)] r2(2,4,6) r1(4) by auto
  qed
qed

text \<open>Packets that the format can express, and what a header leaves in the packet that is read.\<close>

definition valid_packet :: "RTMPPacket \<Rightarrow> bool" where
  "valid_packet p \<longleftrightarrow> 0 \<le> m_headerType p \<and> m_headerType p \<le> 3 \<and> 2 \<le> m_nChannel p \<and> m_nChannel p < 65600 \<and>
     0 \<le> m_nBodySize p \<and> m_nBodySize p < 2 ^ 24 \<and> 0 \<le> m_packetType p \<and> m_packetType p < 256 \<and>
     - (2 ^ 31) \<le> m_nInfoField2 p \<and> m_nInfoField2 p < 2 ^ 31"

definition header_fields :: "RTMPPacket \<Rightarrow> 32 word \<Rightarrow> RTMPPacket \<Rightarrow> RTMPPacket" where
  "header_fields p t q =
     (let q = (if m_headerType p < 3 then q\<lparr>m_nTimeStamp := t\<rparr> else q);
          q = (if m_headerType p < 2 then q\<lparr>m_nBodySize := m_nBodySize p, m_nBytesRead := 0, m_packetType := m_packetType p\<rparr> else q)
      in if m_headerType p < 1 then q\<lparr>m_nInfoField2 := m_nInfoField2 p\<rparr> else q)"

lemma read_le32:
  assumes "- (2 ^ 31) \<le> n" "n < 2 ^ 31"
  shows "DecodeInt32LE (pre @ le32 n @ rest) (int (length pre)) = Some n"
proof -
  have "int32 (take_bit 32 n) = n" using assms by (simp add: int32_def signed_take_bit_take_bit signed_take_bit_int_eq_self)
  then show ?thesis
    using peek_mid [of 0 "le32 n" pre rest] peek_mid [of 1 "le32 n" pre rest] peek_mid [of 2 "le32 n" pre rest] peek_mid [of 3 "le32 n" pre rest]
    by (simp add: DecodeInt32LE_def uint_word8 le32_def be32_def be24_def be16_def int_bits numeral_3_eq_3 numeral_2_eq_2)
qed

definition short_stamp :: "32 word \<Rightarrow> 32 word" where
  "short_stamp t = (if t > 0xffffff then 0xffffff else t)"

lemma read_stamp:
  "AMF_DecodeInt24 (a @ be24 (if t > 0xffffff then 0xffffff else uint t) @ z) (int (length a)) = Some (uint (short_stamp t))"
proof -
  have "uint t < 2 ^ 24" if "\<not> t > 0xffffff" using that by (simp add: word_less_def)
  then show ?thesis by (auto simp: read_int24 short_stamp_def take_bit_int_eq_self)
qed

lemma read_fields_reads:
  assumes "valid_packet p" "m_headerType p < 3" "m_body q = None" "header = int (length a)"
  shows "read_fields r (a @ field_bytes p t @ z) header (packetSize ! nat (m_headerType p) - 1) q = Some (r, header_fields p (short_stamp t) q)"
proof -
  let ?s = "be24 (if t > 0xffffff then 0xffffff else uint t)"
  have ty: "uint (word_of_int (m_packetType p) :: byte) = m_packetType p" "take_bit 24 (m_nBodySize p) = m_nBodySize p"
    using assms(1) by (auto simp: valid_packet_def uint_word_of_int_eq take_bit_int_eq_self)
  have sz: "AMF_DecodeInt24 (a @ ?s @ be24 (m_nBodySize p) @ y) (int (length a) + 3) = Some (m_nBodySize p)" for y
    using read_int24 [of "a @ ?s" "m_nBodySize p" y] ty(2) by (simp add: add.commute)
  have tp: "peek (a @ ?s @ be24 (m_nBodySize p) @ word_of_int (m_packetType p) # y) (int (length a) + 6) = Some (word_of_int (m_packetType p))" for y
    using peek_tail(2) [of "a @ ?s @ be24 (m_nBodySize p)" "word_of_int (m_packetType p) # y"] by (simp add: add.commute peek_def)
  have info: "DecodeInt32LE (a @ ?s @ be24 (m_nBodySize p) @ word_of_int (m_packetType p) # le32 (m_nInfoField2 p) @ y) (int (length a) + 7) = Some (m_nInfoField2 p)" for y
    using read_le32 [of "m_nInfoField2 p" "a @ ?s @ be24 (m_nBodySize p) @ [word_of_int (m_packetType p)]" y] assms(1)
    by (simp add: add.commute valid_packet_def)
  have fr: "RTMPPacket_Free r x = Some (r, x)" if "m_body x = None" for x using that by (simp add: RTMPPacket_Free_def)
  consider "m_headerType p = 0" | "m_headerType p = 1" | "m_headerType p = 2" using assms(1,2) by (force simp: valid_packet_def)
  then show ?thesis
  proof cases
    case 1
    then show ?thesis using assms(3) by (simp add: read_fields_def field_bytes_def assms(4) read_stamp sz tp info fr ty packetSize_def header_fields_def)
  next
    case 2
    then show ?thesis using assms(3) by (simp add: read_fields_def field_bytes_def assms(4) read_stamp sz tp fr ty packetSize_def header_fields_def)
  next
    case 3
    then show ?thesis by (simp add: read_fields_def field_bytes_def assms(4) read_stamp packetSize_def header_fields_def)
  qed
qed

lemma length_field_bytes:
  assumes "valid_packet p"
  shows "int (length (field_bytes p t)) = packetSize ! nat (m_headerType p) - 1" "length (field_bytes p t) \<le> 11"
  by (rule header_type_cases [of "m_headerType p"]; use assms in \<open>simp add: valid_packet_def field_bytes_def packetSize_def\<close>)+

lemma header_fields_stamp: "m_headerType p < 3 \<Longrightarrow> m_nTimeStamp (header_fields p t q) = t"
  "m_headerType p < 3 \<Longrightarrow> (header_fields p t' q)\<lparr>m_nTimeStamp := t\<rparr> = header_fields p t q"
  by (simp_all add: header_fields_def Let_def)

lemma read_header_reads:
  assumes "valid_packet p" "rx r (field_bytes p t @ ext_bytes (m_headerType p) t @ bs)" "blocks r h = Some hbuf" "length hbuf = 18"
    and "m_headerType p < 3 \<Longrightarrow> m_body q = None"
  shows "\<exists>r' hbuf' hs. read_header r h q (1 + channel_size (m_nChannel p)) (packetSize ! nat (m_headerType p) - 1)
      = Some (True, r', header_fields p t q, hs) \<and> rx r' bs \<and> same_in r r' \<and> blocks r' = (blocks r)(h \<mapsto> hbuf') \<and> length hbuf' = 18"
proof (cases "m_headerType p < 3")
  case False
  then have 3: "m_headerType p = 3" using assms(1) by (simp add: valid_packet_def)
  then have "header_fields p t q = q" "rx r bs" using assms(2) by (simp_all add: header_fields_def field_bytes_def ext_bytes_def)
  then show ?thesis using 3 assms(3,4) by (intro exI [of _ r] exI [of _ hbuf]) (simp add: read_header_def packetSize_def fun_upd_idem)
next
  case True
  let ?f = "field_bytes p t" and ?e = "ext_bytes (m_headerType p) t"
  define i where "i = nat (1 + channel_size (m_nChannel p))"
  have i: "1 + channel_size (m_nChannel p) = int i" "i \<le> 3" using channel_size_range [of "m_nChannel p"] by (simp_all add: i_def)
  note l = length_field_bytes [OF assms(1), of t]
  obtain r1 hbuf1 where r1: "ReadN r (h, int i) (int (length ?f)) = Some (int (length ?f), r1)" "rx r1 (?e @ bs)" "same_in r r1"
      "blocks r1 = (blocks r)(h \<mapsto> hbuf1)" "hbuf1 = take i hbuf @ ?f @ drop (i + length ?f) hbuf" "length hbuf1 = 18"
    using ReadN_into [OF assms(2,3), of i] i(2) l(2) assms(4) by auto
  have pos: "0 < length ?f" "3 \<le> length ?f" using True by (simp_all add: field_bytes_def)
  have rf: "read_fields r1 hbuf1 (int i) (int (length ?f)) q = Some (r1, header_fields p (short_stamp t) q)"
    unfolding r1(5) l(1) using assms(4) i(2) by (intro read_fields_reads [OF assms(1) True assms(5) [OF True]]) simp
  have base: "read_header r h q (int i) (int (length ?f)) =
      (if short_stamp t = 0xffffff then do {
         (k, r) \<leftarrow> ReadN r1 (h, int i + int (length ?f)) 4;
         if k \<noteq> 4 then Some (False, r, header_fields p (short_stamp t) q, 0)
         else do {
           hbuf \<leftarrow> blocks r h;
           v \<leftarrow> AMF_DecodeInt32 hbuf (int i + int (length ?f));
           Some (True, r, (header_fields p (short_stamp t) q)\<lparr>m_nTimeStamp := word_of_int v\<rparr>, int (length ?f) + int i + 4)
         }
       } else Some (True, r1, header_fields p (short_stamp t) q, int (length ?f) + int i))"
    using pos by (simp add: read_header_def r1(1,4) rf header_fields_stamp [OF True])
  show ?thesis
  proof (cases "t \<ge> 0xffffff")
    case False
    then have s: "short_stamp t = t" "short_stamp t \<noteq> 0xffffff" and e: "?e = []" by (auto simp: short_stamp_def ext_bytes_def)
    then show ?thesis unfolding i(1) l(1) [symmetric] base using r1 e by auto
  next
    case t: True
    then have s: "short_stamp t = 0xffffff" and e: "?e = be32 (uint t)" using True by (auto simp: short_stamp_def ext_bytes_def)
    obtain r2 hbuf2 where r2: "ReadN r1 (h, int i + int (length ?f)) 4 = Some (4, r2)" "rx r2 bs" "same_in r1 r2"
      "blocks r2 = (blocks r1)(h \<mapsto> hbuf2)" "hbuf2 = take (i + length ?f) hbuf1 @ be32 (uint t) @ drop (i + length ?f + 4) hbuf1" "length hbuf2 = 18"
      using ReadN_into [of r1 "be32 (uint t)" bs h hbuf1 "i + length ?f"] r1(2,4,6) e i(2) l(2) by auto
    have "AMF_DecodeInt32 hbuf2 (int i + int (length ?f)) = Some (uint t)"
      using read_int32 [of "take (i + length ?f) hbuf1" "uint t" "drop (i + length ?f + 4) hbuf1"] r1(6) i(2) l(2) r2(5) uint_lt2p [of t]
      by (simp add: take_bit_int_eq_self)
    then show ?thesis unfolding i(1) l(1) [symmetric] base
      using s r2(1-4,6) same_in_trans [OF r1(3) r2(3)] r1(4) header_fields_stamp(2) [OF True] by auto
  qed
qed

end
