(* ===== verification/Rtmp_Messages.thy ===== *)
theory Rtmp_Messages
  imports Rtmp_Recv
begin

text \<open>
  Messages: a packet that arrives in several chunks, and a sequence of packets on any channels.
\<close>

section \<open>One chunk\<close>

text \<open>\<open>holds r q body j\<close>: the packet \<open>q\<close> has received the first \<open>j\<close> bytes of \<open>body\<close>.\<close>

definition holds :: "RTMP \<Rightarrow> RTMPPacket \<Rightarrow> bytes \<Rightarrow> nat \<Rightarrow> bool" where
  "holds r q body j \<longleftrightarrow>
     (case m_body q of None \<Rightarrow> body = []
      | Some (b, i) \<Rightarrow> i = 18 \<and> (\<exists>z old. blocks r b = Some (z @ take j body @ old) \<and> length z = 18 \<and> length old = length body - j))"

definition abs_stamp :: "RTMP \<Rightarrow> RTMPPacket \<Rightarrow> 32 word" where
  "abs_stamp r q = (if m_hasAbsTimestamp q then m_nTimeStamp q else m_nTimeStamp q + m_channelTimestamp r ! nat (m_nChannel q))"

text \<open>The connection and the packet of the caller after \<open>j\<close> bytes.\<close>

definition after_chunk :: "RTMP \<Rightarrow> RTMPPacket \<Rightarrow> bytes \<Rightarrow> nat \<Rightarrow> RTMP \<Rightarrow> RTMPPacket \<Rightarrow> bool" where
  "after_chunk r q body j r' res \<longleftrightarrow>
     (let n = nat (m_nChannel q) in
      if j = length body
      then res = q\<lparr>m_nBytesRead := int j, m_nTimeStamp := abs_stamp r q\<rparr> \<and>
        m_vecChannelsIn r' = (m_vecChannelsIn r)[n := Some (q\<lparr>m_body := None, m_nBytesRead := 0, m_hasAbsTimestamp := False\<rparr>)] \<and>
        m_channelTimestamp r' = (m_channelTimestamp r)[n := abs_stamp r q]
      else res = q\<lparr>m_nBytesRead := int j, m_body := None\<rparr> \<and>
        m_vecChannelsIn r' = (m_vecChannelsIn r)[n := Some (q\<lparr>m_nBytesRead := int j\<rparr>)] \<and>
        m_channelTimestamp r' = m_channelTimestamp r) \<and>
     m_inChunkSize r' = m_inChunkSize r \<and> mem_next r \<le> mem_next r' \<and> m_stream_id r' = m_stream_id r \<and> m_pausing r' = m_pausing r \<and>
     holds r' q body j"

text \<open>Memory that a step does not touch.\<close>

definition keeps_mem :: "RTMPPacket \<Rightarrow> RTMP \<Rightarrow> RTMP \<Rightarrow> bool" where
  "keeps_mem q r r' \<longleftrightarrow> (\<forall>c. (\<forall>i. m_body q \<noteq> Some (c, i)) \<longrightarrow> blocks r' c = blocks r c)"

lemma rx_channels [simp]:
  "rx (r\<lparr>m_vecChannelsIn := v\<rparr>) bs = rx r bs" "rx (r\<lparr>m_channelTimestamp := w\<rparr>) bs = rx r bs"
  by (simp_all add: rx_def writable_def RTMP_IsConnected_def pending_def)

lemma holds_channels [simp]:
  "holds (r\<lparr>m_vecChannelsIn := v\<rparr>) = holds r" "holds (r\<lparr>m_channelTimestamp := w\<rparr>) = holds r"
  by (auto simp: holds_def fun_eq_iff split: option.splits)

lemma keeps_mem_channels [simp]:
  "keeps_mem q r (r'\<lparr>m_vecChannelsIn := v\<rparr>) = keeps_mem q r r'" "keeps_mem q r (r'\<lparr>m_channelTimestamp := w\<rparr>) = keeps_mem q r r'"
  by (simp_all add: keeps_mem_def)

lemma ReadN_none: "ReadN r p 0 = Some (0, r\<lparr>m_sb := (m_sb r)\<lparr>sb_timedout := False\<rparr>\<rparr>)"
  by (simp add: ReadN_def read_loop.simps)

lemma read_body_reads:
  assumes "rx r (take m (drop j body) @ bs)" "holds r q body j" "m_nBytesRead q = int j" "j + m \<le> length body"
  shows "\<exists>r'. read_body r q (int m) = Some (int m, r') \<and> rx r' bs \<and> same_in r r' \<and> holds r' q body (j + m) \<and> keeps_mem q r r'"
proof (cases "m_body q")
  case None
  then have "body = []" using assms(2) by (simp add: holds_def)
  then show ?thesis using None assms(1,4)
    by (auto simp: read_body_def ReadN_none holds_def keeps_mem_def same_in_def rx_def writable_def RTMP_IsConnected_def pending_def)
next
  case (Some bi)
  then obtain b z old where b: "m_body q = Some (b, 18)" "blocks r b = Some (z @ take j body @ old)" "length z = 18" "length old = length body - j"
    using assms(2) by (cases bi) (auto simp: holds_def)
  have tk: "take m (take m (drop j body) @ bs) = take m (drop j body)" "drop m (take m (drop j body) @ bs) = bs" using assms(4) by simp_all
  have "blocks r b = Some ((z @ take j body) @ take m old @ drop m old)" using b(2) by simp
  then have "\<exists>r'. ReadN r (b, int (length (z @ take j body))) (int m) = Some (int m, r') \<and> rx r' (drop m (take m (drop j body) @ bs)) \<and> same_in r r' \<and>
      blocks r' = (blocks r)(b \<mapsto> (z @ take j body) @ take m (take m (drop j body) @ bs) @ drop m old)"
    by (rule ReadN_reads [OF assms(1), rotated]) (use b(4) assms(4) in simp_all)
  then obtain r' where r': "ReadN r (b, 18 + int j) (int m) = Some (int m, r')" "rx r' bs" "same_in r r'"
      "blocks r' = (blocks r)(b \<mapsto> z @ (take j body @ take m (drop j body)) @ drop m old)"
    unfolding tk using b(3) assms(4) by auto
  have "holds r' q body (j + m)" unfolding holds_def b(1) option.case prod.case r'(4) take_add
    by (intro conjI refl exI [of _ z] exI [of _ "drop m old"]) (use b(3,4) in simp_all)
  then show ?thesis using r' b(1) assms(3) by (auto simp: read_body_def keeps_mem_def)
qed

lemma read_chunk_reads:
  assumes "rx r (take m (drop j body) @ bs)" "0 < m_inChunkSize r" "m = min (nat (m_inChunkSize r)) (length body - j)" "j \<le> length body"
    and "m_nBodySize q = int (length body)" "length body < 2 ^ 24" "m_nBytesRead q = int j" "m_chunk q = None" "holds r q body j"
    and "0 \<le> m_nChannel q" "m_nChannel q < int (length (m_vecChannelsIn r))" "length (m_channelTimestamp r) = length (m_vecChannelsIn r)"
  shows "\<exists>r' res. read_chunk r h q hs = Some (True, r', res) \<and> rx r' bs \<and> after_chunk r q body (j + m) r' res \<and> keeps_mem q r r'"
proof -
  have d: "int32 (int (length body) - int j) = int (length body) - int j" using assms(4,6)
    by (simp add: int32_def signed_take_bit_int_eq_self)
  have nc: "(if int (length body) - int j < m_inChunkSize r then int (length body) - int j else m_inChunkSize r) = int m"
    using assms(2-4) by auto
  have jm: "j + m \<le> length body" using assms(3,4) by linarith
  obtain r1 where r1: "read_body r q (int m) = Some (int m, r1)" "rx r1 bs" "same_in r r1" "holds r1 q body (j + m)" "keeps_mem q r r1"
    using read_body_reads [OF assms(1,9,7) jm] by blast
  have v: "m_vecChannelsIn r1 = m_vecChannelsIn r" "m_channelTimestamp r1 = m_channelTimestamp r" "m_inChunkSize r1 = m_inChunkSize r"
      "mem_next r \<le> mem_next r1" "m_stream_id r1 = m_stream_id r" "m_pausing r1 = m_pausing r"
    using r1(3) by (simp_all add: same_in_def)
  have g: "array_get (m_vecChannelsIn r) (m_nChannel q) = Some (m_vecChannelsIn r ! nat (m_nChannel q))"
      "array_get (m_channelTimestamp r) (m_nChannel q) = Some (m_channelTimestamp r ! nat (m_nChannel q))"
    using assms(10-12) by (simp_all add: array_get_def)
  have base: "read_chunk r h q hs = do { (r', res) \<leftarrow> keep_packet r1 (q\<lparr>m_nBytesRead := int j + int m\<rparr>); Some (True, r', res) }"
    unfolding read_chunk_def Let_def assms(5,7) d nc copy_chunk_def assms(8) by (simp add: r1(1))
  show ?thesis
  proof (cases "j + m = length body")
    case True
    then have e: "int j + int m = int (length body)" by linarith
    show ?thesis unfolding base keep_packet_def
      using True e r1(2,4,5) assms(5)
      by (auto simp: v g after_chunk_def RTMPPacket_IsReady_def Let_def abs_stamp_def)
  next
    case False
    then have e: "int j + int m \<noteq> int (length body)" by linarith
    show ?thesis unfolding base keep_packet_def
      using False e r1(2,4,5) assms(5)
      by (auto simp: v g after_chunk_def RTMPPacket_IsReady_def Let_def)
  qed
qed

section \<open>One call of \<open>RTMP_ReadPacket\<close>\<close>

definition base_packet :: "RTMPPacket option list \<Rightarrow> RTMPPacket \<Rightarrow> int \<Rightarrow> int \<Rightarrow> RTMPPacket" where
  \<comment> \<open>what the header is read into\<close>
  "base_packet vec q0 ht n =
     (if ht = 0 then q0\<lparr>m_headerType := 0, m_nChannel := n, m_hasAbsTimestamp := True\<rparr>
      else case chan vec n of None \<Rightarrow> q0\<lparr>m_headerType := ht, m_nChannel := n\<rparr> | Some q \<Rightarrow> q)"

lemma grow_in_simps [simp]:
  "blocks (grow_in r n) = blocks r" "mem_next (grow_in r n) = mem_next r" "m_inChunkSize (grow_in r n) = m_inChunkSize r"
  "rx (grow_in r n) bs = rx r bs" "mem_chunks (grow_in r n) = mem_chunks r"
  by (simp_all add: grow_in_def Let_def)

lemma grow_in_channels:
  assumes "0 \<le> n" "length (m_channelTimestamp r) = length (m_vecChannelsIn r)"
  shows "array_get (m_vecChannelsIn (grow_in r n)) n = Some (chan (m_vecChannelsIn r) n)"
    "n < int (length (m_vecChannelsIn (grow_in r n)))" "length (m_channelTimestamp (grow_in r n)) = length (m_vecChannelsIn (grow_in r n))"
    "chan (m_vecChannelsIn (grow_in r n)) c = chan (m_vecChannelsIn r) c"
  using assms by (auto simp: grow_in_def Let_def array_get_def chan_def nth_append)

lemma same_in_grow: "same_in r r' \<Longrightarrow> same_in (grow_in r n) (grow_in r' n)"
  by (simp add: same_in_def grow_in_def Let_def)

lemma read_prev_base:
  assumes "0 \<le> n" "length (m_channelTimestamp r) = length (m_vecChannelsIn r)" "0 \<le> ht" "ht \<le> 3"
  shows "read_prev (grow_in r n) (q0\<lparr>m_headerType := ht, m_nChannel := n\<rparr>) (packetSize ! nat ht) = Some (base_packet (m_vecChannelsIn r) q0 ht n)"
  by (rule header_type_cases [OF assms(3,4)])
    (simp_all add: read_prev_def base_packet_def packetSize_def grow_in_channels [OF assms(1,2)] split: option.split)

lemma after_chunk_same:
  "same_in r0 r \<Longrightarrow> after_chunk r q body j r' res \<Longrightarrow> after_chunk r0 q body j r' res"
  by (auto simp: after_chunk_def same_in_def abs_stamp_def Let_def)

lemma holds_release: "holds r q body j \<Longrightarrow> (\<And>i. m_body q \<noteq> Some (h, i)) \<Longrightarrow> holds (release r h) q body j"
  by (auto simp: holds_def release_def split: option.splits)

lemma after_chunk_release:
  "after_chunk r q body j r' res \<Longrightarrow> (\<And>i. m_body q \<noteq> Some (h, i)) \<Longrightarrow> after_chunk r q body j (release r' h) res"
  using holds_release [of r' q body j h] by (auto simp: after_chunk_def release_def Let_def split: if_splits)

lemma rx_release: "rx r bs \<Longrightarrow> rx (release r h) bs"
  by (simp add: rx_def release_def writable_def RTMP_IsConnected_def pending_def)

lemma alloc_body_reads:
  assumes "rx r bs" "m_nBodySize q = int (length body)" "m_body q = None \<Longrightarrow> j = 0" "m_body q \<noteq> None \<Longrightarrow> holds r q body j" "m_nBytesRead q = int j"
    and "m_body q \<noteq> None \<Longrightarrow> m_nBodySize q \<noteq> 0"
  shows "\<exists>r' q'. alloc_body r q ht = (r', q') \<and> rx r' bs \<and> same_in r r' \<and> holds r' q' body j \<and> m_nBytesRead q' = int j \<and>
     (q' = q \<or> m_body q = None \<and> body \<noteq> [] \<and> q' = q\<lparr>m_body := Some (mem_next r, 18), m_headerType := ht\<rparr>) \<and> keeps_mem q' r r' \<and> (body = [] \<or> m_body q' \<noteq> None)"
proof (cases "0 < length body \<and> m_body q = None")
  case True
  have "mem_next r = mem_next r" and f: "\<forall>b \<ge> mem_next r. blocks r b = None" using assms(1) by (simp_all add: rx_def)
  have q: "q\<lparr>m_body := Some (mem_next r, 18), m_nBytesRead := 0, m_headerType := ht\<rparr> = q\<lparr>m_body := Some (mem_next r, 18), m_headerType := ht\<rparr>"
    using assms(3,5) True by simp
  have z: "replicate (nat (int (length body) + 18)) (0 :: byte) = replicate 18 0 @ take j body @ replicate (length body) 0"
    using assms(3) True by (simp add: nat_add_distrib add.commute flip: replicate_add)
  have "holds (snd (malloc r (replicate (nat (int (length body) + 18)) 0))) (q\<lparr>m_body := Some (mem_next r, 18), m_headerType := ht\<rparr>) body j"
    using True assms(3) unfolding z holds_def malloc_def
    by (simp, intro exI [of _ "replicate 18 0"] exI [of _ "replicate (length body) 0"]) simp
  moreover have "alloc_body r q ht = (snd (malloc r (replicate (nat (int (length body) + 18)) 0)), q\<lparr>m_body := Some (mem_next r, 18), m_headerType := ht\<rparr>)"
    using True assms(2) by (simp only: q [symmetric]) (simp add: alloc_body_def RTMPPacket_Alloc_def malloc_def RTMP_MAX_HEADER_SIZE_def)
  ultimately show ?thesis using True assms(1,5) f
    by (auto simp: malloc_def rx_def same_in_def writable_def RTMP_IsConnected_def pending_def keeps_mem_def)
next
  case False
  then have "alloc_body r q ht = (r, q)" using assms(2) by (auto simp: alloc_body_def)
  moreover have "holds r q body j"
    using assms(3,4) False by (cases "m_body q") (auto simp: holds_def)
  ultimately show ?thesis using assms(1,5) False by (auto simp: keeps_mem_def)
qed

lemma header_fields_simps [simp]:
  "m_body (header_fields p t q) = m_body q" "m_chunk (header_fields p t q) = m_chunk q" "m_nChannel (header_fields p t q) = m_nChannel q"
  "m_hasAbsTimestamp (header_fields p t q) = m_hasAbsTimestamp q"
  by (simp_all add: header_fields_def Let_def)

lemma rx_malloc:
  assumes "rx r bs"
  shows "rx (snd (malloc r x)) bs" "same_in r (snd (malloc r x))" "blocks (snd (malloc r x)) = (blocks r)(mem_next r \<mapsto> x)" "fst (malloc r x) = mem_next r"
    "mem_next (snd (malloc r x)) = Suc (mem_next r)"
  using assms by (auto simp: malloc_def rx_def same_in_def writable_def RTMP_IsConnected_def pending_def)

lemma holds_upd: "holds r q body j \<Longrightarrow> (\<And>b i. m_body q = Some (b, i) \<Longrightarrow> blocks r' b = blocks r b) \<Longrightarrow> m_body q' = m_body q \<Longrightarrow> holds r' q' body j"
  by (auto simp: holds_def split: option.splits)

lemma RTMP_ReadPacket_reads:
  fixes p q0 :: RTMPPacket
  defines "n \<equiv> m_nChannel p" and "ht \<equiv> m_headerType p"
  assumes "valid_packet p" "rx r (header_bytes p t @ take m (drop j body) @ bs)"
    and "0 < m_inChunkSize r" "m = min (nat (m_inChunkSize r)) (length body - j)" "j \<le> length body" "length body < 2 ^ 24"
    and "length (m_channelTimestamp r) = length (m_vecChannelsIn r)" "B = base_packet (m_vecChannelsIn r) q0 ht n" "q1 = header_fields p t B"
    and "ht < 3 \<Longrightarrow> m_body B = None" "m_chunk B = None" "m_nChannel B = n" "m_nBodySize q1 = int (length body)" "m_nBytesRead q1 = int j"
    and "m_body B = None \<Longrightarrow> j = 0" "m_body B \<noteq> None \<Longrightarrow> holds r B body j \<and> body \<noteq> []"
  shows "\<exists>r' q res. RTMP_ReadPacket r q0 = Some (True, r', res) \<and> rx r' bs \<and> after_chunk (grow_in r n) q body (j + m) r' res \<and>
     (q = q1 \<or> m_body B = None \<and> body \<noteq> [] \<and> (\<exists>b \<ge> mem_next r. q = q1\<lparr>m_body := Some (b, 18), m_headerType := ht\<rparr>)) \<and> (body = [] \<or> m_body q \<noteq> None) \<and>
     (\<forall>c < mem_next r. (\<forall>i. m_body q \<noteq> Some (c, i)) \<longrightarrow> blocks r' c = blocks r c)"
proof -
  let ?X = "take m (drop j body) @ bs" and ?h = "mem_next r" and ?z = "replicate 18 (0 :: byte)"
  have ht: "0 \<le> ht" "ht \<le> 3" "2 \<le> n" "n < 65600" using assms(3) by (simp_all add: valid_packet_def ht_def n_def)
  define r0 where "r0 = snd (malloc r ?z)"
  note r0 = rx_malloc [OF assms(4), of ?z, folded r0_def]
  have "rx r0 (chan_bytes (first_byte ht n) n @ field_bytes p t @ ext_bytes ht t @ ?X)"
    using r0(1) by (simp add: header_bytes_def ht_def n_def)
  then obtain r1 hbuf1 where r1: "read_basic r0 ?h q0 = Some (True, r1, q0\<lparr>m_headerType := ht, m_nChannel := n\<rparr>, 1 + channel_size n)"
      "rx r1 (field_bytes p t @ ext_bytes ht t @ ?X)" "same_in r0 r1" "blocks r1 = (blocks r0)(?h \<mapsto> hbuf1)" "length hbuf1 = 18"
    using read_basic_reads [of r0 ht n "field_bytes p t @ ext_bytes ht t @ ?X" ?h ?z q0] r0(3) ht by auto
  have sm: "same_in r r1" using r0(2) r1(3) by (rule same_in_trans)
  have vec: "m_vecChannelsIn r1 = m_vecChannelsIn r" "length (m_channelTimestamp r1) = length (m_vecChannelsIn r1)"
    using sm assms(9) by (simp_all add: same_in_def)
  define r2 where "r2 = grow_in r1 n"
  have r2: "rx r2 (field_bytes p t @ ext_bytes ht t @ ?X)" "blocks r2 ?h = Some hbuf1" "same_in (grow_in r n) r2"
    using r1 same_in_grow [OF sm] by (simp_all add: r2_def)
  have prev: "read_prev r2 (q0\<lparr>m_headerType := ht, m_nChannel := n\<rparr>) (packetSize ! nat ht) = Some B"
    using read_prev_base [of n r1 ht q0] vec ht assms(10) by (simp add: r2_def)
  obtain r3 hbuf3 hs where r3: "read_header r2 ?h B (1 + channel_size n) (packetSize ! nat ht - 1) = Some (True, r3, q1, hs)" "rx r3 ?X" "same_in r2 r3"
      "blocks r3 = (blocks r2)(?h \<mapsto> hbuf3)" "length hbuf3 = 18"
    using read_header_reads [OF assms(3) r2(1) [unfolded ht_def] r2(2) r1(5), of B] assms(11,12) by (auto simp: ht_def n_def)
  have m3: "blocks r3 c = blocks r c" if "c \<noteq> ?h" for c using that r3(4) r1(4) r0(3) by (simp add: r2_def)
  have old: "b < ?h" if "m_body B = Some (b, i)" for b i
  proof -
    have "blocks r b \<noteq> None" using assms(18) that by (auto simp: holds_def)
    moreover have "\<forall>b \<ge> mem_next r. blocks r b = None" using assms(4) by (simp add: rx_def)
    ultimately show ?thesis by (meson not_le)
  qed
  have b1: "m_body q1 = m_body B" by (simp add: assms(11))
  have a: "m_body q1 = None \<Longrightarrow> j = 0" "m_body q1 \<noteq> None \<Longrightarrow> m_nBodySize q1 \<noteq> 0" using b1 assms(15,17,18) by auto
  have a3: "holds r3 q1 body j" if "m_body q1 \<noteq> None"
  proof (rule holds_upd [of r B])
    show "holds r B body j" using assms(18) that b1 by simp
    show "blocks r3 b = blocks r b" if "m_body B = Some (b, i)" for b i using old [OF that] by (intro m3) simp
  qed (rule b1)
  obtain r4 q where q: "alloc_body r3 q1 ht = (r4, q)" "rx r4 ?X" "same_in r3 r4" "holds r4 q body j" "m_nBytesRead q = int j"
      "q = q1 \<or> m_body q1 = None \<and> body \<noteq> [] \<and> q = q1\<lparr>m_body := Some (mem_next r3, 18), m_headerType := ht\<rparr>" "keeps_mem q r3 r4" "body = [] \<or> m_body q \<noteq> None"
    using alloc_body_reads [OF r3(2) assms(15) a(1) a3 assms(16) a(2), of ht] by blast
  have s4: "same_in (grow_in r n) r4" using r2(3) r3(3) q(3) same_in_trans by blast
  have eq: "m_chunk q = None" "m_nChannel q = n" "m_nBodySize q = int (length body)" using q(6) assms(11,13-15) by auto
  have ch: "m_inChunkSize r4 = m_inChunkSize r" "n < int (length (m_vecChannelsIn r4))" "length (m_channelTimestamp r4) = length (m_vecChannelsIn r4)"
    using s4 grow_in_channels [OF _ assms(9), of n] ht by (simp_all add: same_in_def)
  obtain r5 res where r5: "read_chunk r4 ?h q hs = Some (True, r5, res)" "rx r5 bs" "after_chunk r4 q body (j + m) r5 res" "keeps_mem q r4 r5"
    using read_chunk_reads [OF q(2) _ _ assms(7) eq(3) assms(8) q(5) eq(1) q(4), of ?h hs] assms(5,6) ch eq(2) ht by auto
  have le: "Suc ?h \<le> mem_next r3" using r0(5) r1(3) r3(3) by (simp add: same_in_def r2_def)
  have nb: "m_body q \<noteq> Some (?h, i)" for i
  proof
    assume "m_body q = Some (?h, i)"
    then have "m_body B = Some (?h, i) \<or> ?h = mem_next r3" using q(6) b1 by auto
    then show False using old le by auto
  qed
  have ml: "malloc r ?z = (?h, r0)" by (simp add: r0_def malloc_def)
  have gs: "array_get packetSize ht = Some (packetSize ! nat ht)" using ht by (simp add: array_get_def packetSize_def)
  have "RTMP_ReadPacket r q0 = Some (True, release r5 ?h, res)"
    by (simp add: RTMP_ReadPacket_def read_packet_def Let_def RTMP_MAX_HEADER_SIZE_def ml gs r1(1) r2_def [symmetric] prev r3(1) q(1) r5(1))
  moreover have "q = q1 \<or> m_body B = None \<and> body \<noteq> [] \<and> (\<exists>b \<ge> mem_next r. q = q1\<lparr>m_body := Some (b, 18), m_headerType := ht\<rparr>)"
    using q(6) Suc_leD [OF le] unfolding b1 by blast
  moreover have "blocks (release r5 ?h) c = blocks r c" if "c < ?h" "\<forall>i. m_body q \<noteq> Some (c, i)" for c
    using that r5(4) q(7) m3 by (simp add: keeps_mem_def release_def)
  ultimately show ?thesis using q(8) after_chunk_release [OF after_chunk_same [OF s4 r5(3)] nb] rx_release [OF r5(2), of ?h] by blast
qed

section \<open>All chunks of a packet\<close>

text \<open>The packet is read until it is complete, as the loops of \<open>RTMP_ConnectStream\<close> and
  \<open>RTMP_GetNextMediaPacket\<close> do.\<close>

primrec next_packet :: "nat \<Rightarrow> RTMP \<Rightarrow> RTMPPacket \<Rightarrow> (bool \<times> RTMP \<times> RTMPPacket) ub" where
  "next_packet 0 r packet = None"
| "next_packet (Suc k) r packet =
     (if \<not> RTMP_IsConnected r then Some (False, r, packet)
      else do {
        (ok, r, packet) \<leftarrow> RTMP_ReadPacket r packet;
        if \<not> ok \<or> RTMPPacket_IsReady packet then Some (ok, r, packet) else next_packet k r packet
      })"

lemma rx_connected: "rx r bs \<Longrightarrow> RTMP_IsConnected r"
  by (simp add: rx_def writable_def)

lemma after_chunk_trans:
  assumes "after_chunk r0 q body j r1 res1" "j \<noteq> length body" "after_chunk r1 (q\<lparr>m_nBytesRead := int j\<rparr>) body j' r2 res2"
    and "0 \<le> m_nChannel q" "m_nChannel q < int (length (m_vecChannelsIn r0))"
  shows "after_chunk r0 q body j' r2 res2"
proof -
  have "abs_stamp r1 (q\<lparr>m_nBytesRead := int j\<rparr>) = abs_stamp r0 q" using assms(1,2) by (simp add: abs_stamp_def after_chunk_def Let_def)
  then show ?thesis using assms(1-3) by (auto simp: after_chunk_def Let_def holds_def split: if_splits option.splits)
qed

lemma grow_in_id: "0 \<le> n \<Longrightarrow> n < int (length (m_vecChannelsIn r)) \<Longrightarrow> grow_in r n = r"
  by (simp add: grow_in_def Let_def)

lemma chunked_split:
  assumes "0 < k" "m = min k (length body - j)" "j \<le> length body"
  shows "chunked k nxt (drop j body) = take m (drop j body) @ (if j + m = length body then [] else nxt @ chunked k nxt (drop (j + m) body))"
  using assms by (subst chunked.simps) (auto simp: min_def add.commute)

lemma rest_of_packet:
  assumes "valid_packet p" "after_chunk r0 q body j r res" "j < length body" "length body < 2 ^ 24"
    and "rx r (next_header p @ chunked (nat (m_inChunkSize r)) (next_header p) (drop j body) @ bs)"
    and "0 < m_inChunkSize r" "length (m_channelTimestamp r0) = length (m_vecChannelsIn r0)" "m_nChannel p < int (length (m_vecChannelsIn r0))"
    and "m_nChannel q = m_nChannel p" "m_nBodySize q = int (length body)" "m_chunk q = None" "m_body q \<noteq> None"
  shows "\<exists>r' res'. (\<forall>k > length body - j. next_packet k r q0 = Some (True, r', res')) \<and> rx r' bs \<and> after_chunk r0 q body (length body) r' res' \<and>
     (\<forall>c < mem_next r. (\<forall>i. m_body q \<noteq> Some (c, i)) \<longrightarrow> blocks r' c = blocks r c)"
  using assms(2,3,5,6)
proof (induction "length body - j" arbitrary: j r res q0 rule: less_induct)
  case less
  let ?n = "m_nChannel p" and ?nxt = "next_header p" and ?K = "nat (m_inChunkSize r)"
  define p3 where "p3 = p\<lparr>m_headerType := 3\<rparr>"
  define m where "m = min ?K (length body - j)"
  have n: "0 \<le> ?n" "?n < int (length (m_vecChannelsIn r))" "length (m_channelTimestamp r) = length (m_vecChannelsIn r)"
    using assms(1,7,8) less.prems(1,2) by (auto simp: valid_packet_def after_chunk_def Let_def split: if_splits)
  have v3: "valid_packet p3" "m_nChannel p3 = ?n" "m_headerType p3 = 3" using assms(1) by (simp_all add: p3_def valid_packet_def)
  have h3: "header_bytes p3 0 = ?nxt"
    using next_header_eq [of p] assms(1) by (simp add: header_bytes_def field_bytes_def ext_bytes_def p3_def valid_packet_def)
  have st: "chan (m_vecChannelsIn r) ?n = Some (q\<lparr>m_nBytesRead := int j\<rparr>)"
    using less.prems(1,2) assms(8,9) n(1) by (auto simp: after_chunk_def Let_def chan_def)
  have hd: "holds r q body j" using less.prems(1) by (simp add: after_chunk_def)
  define rest where "rest = (if j + m = length body then bs else ?nxt @ chunked ?K ?nxt (drop (j + m) body) @ bs)"
  have cs: "chunked ?K ?nxt (drop j body) = take m (drop j body) @ (if j + m = length body then [] else ?nxt @ chunked ?K ?nxt (drop (j + m) body))"
    by (rule chunked_split [OF _ m_def]) (use less.prems(2,4) in simp_all)
  have rx: "rx r (header_bytes p3 0 @ take m (drop j body) @ rest)"
    using less.prems(3) unfolding cs h3 rest_def by (cases "j + m = length body") (simp_all only: if_True if_False append_assoc append_Nil refl)
  let ?q = "q\<lparr>m_nBytesRead := int j\<rparr>"
  have base: "?q = base_packet (m_vecChannelsIn r) q0 (m_headerType p3) (m_nChannel p3)" "?q = header_fields p3 0 ?q"
    using st v3 by (simp_all add: base_packet_def header_fields_def)
  have ne: "body \<noteq> []" using less.prems(2) by auto
  have hq: "holds r ?q body j" using hd by (simp add: holds_def)
  have "\<exists>r' q' res. RTMP_ReadPacket r q0 = Some (True, r', res) \<and> rx r' rest \<and> after_chunk (grow_in r (m_nChannel p3)) q' body (j + m) r' res \<and>
     (q' = ?q \<or> m_body ?q = None \<and> body \<noteq> [] \<and> (\<exists>b \<ge> mem_next r. q' = ?q\<lparr>m_body := Some (b, 18), m_headerType := m_headerType p3\<rparr>)) \<and> (body = [] \<or> m_body q' \<noteq> None) \<and>
     (\<forall>c < mem_next r. (\<forall>i. m_body q' \<noteq> Some (c, i)) \<longrightarrow> blocks r' c = blocks r c)"
    by (rule RTMP_ReadPacket_reads [OF v3(1) rx less.prems(4) m_def _ assms(4) n(3) base])
      (use less.prems(2) ne v3 assms(9-12) hq in \<open>simp_all add: order_less_imp_le\<close>)
  then obtain r1 q' res1 where r1': "RTMP_ReadPacket r q0 = Some (True, r1, res1)" "rx r1 rest" "after_chunk (grow_in r ?n) q' body (j + m) r1 res1"
      "q' = ?q \<or> m_body ?q = None" "\<forall>c < mem_next r. (\<forall>i. m_body q' \<noteq> Some (c, i)) \<longrightarrow> blocks r1 c = blocks r c"
    unfolding v3(2) by blast
  have "q' = ?q" using r1'(4) assms(12) by simp
  with r1' have r1: "RTMP_ReadPacket r q0 = Some (True, r1, res1)" "rx r1 rest" "after_chunk (grow_in r ?n) ?q body (j + m) r1 res1"
      "\<forall>c < mem_next r. (\<forall>i. m_body q \<noteq> Some (c, i)) \<longrightarrow> blocks r1 c = blocks r c" by simp_all
  have ac: "after_chunk r0 q body (j + m) r1 res1"
    by (rule after_chunk_trans [OF less.prems(1) _ r1(3) [unfolded grow_in_id [OF n(1,2)]]]) (use less.prems(2) assms(8,9) n(1) in simp_all)
  have nx: "mem_next r \<le> mem_next r1" "m_inChunkSize r1 = m_inChunkSize r" using r1(3) by (auto simp: after_chunk_def)
  have mpos: "0 < m" using less.prems(2,4) by (simp add: m_def)
  show ?case
  proof (cases "j + m = length body")
    case True
    then have "RTMPPacket_IsReady res1" using ac assms(10) by (simp add: after_chunk_def Let_def RTMPPacket_IsReady_def)
    then have "next_packet k r q0 = Some (True, r1, res1)" if "k > length body - j" for k
      using r1(1) that rx_connected [OF less.prems(3)] by (cases k) simp_all
    moreover have "rx r1 bs" "after_chunk r0 q body (length body) r1 res1" using r1(2) ac True by (simp_all add: rest_def)
    ultimately show ?thesis using r1(4) by blast
  next
    case False
    have "\<not> RTMPPacket_IsReady res1" using ac assms(10) False by (auto simp: after_chunk_def Let_def RTMPPacket_IsReady_def)
    then have step: "next_packet (Suc k) r q0 = next_packet k r1 res1" for k using r1(1) rx_connected [OF less.prems(3)] by simp
    have lt: "length body - (j + m) < length body - j" "j + m < length body" using mpos less.prems(2) False by (auto simp: m_def)
    have "rx r1 (?nxt @ chunked (nat (m_inChunkSize r1)) ?nxt (drop (j + m) body) @ bs)" using r1(2) False nx by (simp add: rest_def)
    then obtain r2 res2 where r2: "\<forall>k > length body - (j + m). next_packet k r1 res1 = Some (True, r2, res2)" "rx r2 bs" "after_chunk r0 q body (length body) r2 res2"
      "\<forall>c < mem_next r1. (\<forall>i. m_body q \<noteq> Some (c, i)) \<longrightarrow> blocks r2 c = blocks r1 c"
      using less.hyps [OF lt(1) ac lt(2), of res1] less.prems(4) unfolding nx(2) by blast
    have "next_packet k r q0 = Some (True, r2, res2)" if "k > length body - j" for k
      using that r2(1) lt step by (cases k) auto
    moreover have "blocks r2 c = blocks r c" if "c < mem_next r" "\<forall>i. m_body q \<noteq> Some (c, i)" for c
      using that r1(4) r2(4) nx(1) less_le_trans [of c "mem_next r" "mem_next r1"] by metis
    ultimately show ?thesis using r2(2,3) by blast
  qed
qed

section \<open>Channels\<close>

text \<open>What both ends know of a channel: the fields of the last packet, the time stamp that was in its header, and the time stamp that
  the receiver computed.\<close>

record channel =
  ch_size :: int
  ch_type :: int
  ch_info :: int
  ch_stamp :: "32 word"
  ch_delta :: "32 word"
  ch_seen :: "32 word"

definition out_channels :: "(int \<Rightarrow> channel option) \<Rightarrow> RTMP \<Rightarrow> bool" where
  "out_channels st r \<longleftrightarrow> (\<forall>n c. st n = Some c \<longrightarrow>
     (\<exists>p. chan (m_vecChannelsOut r) n = Some p \<and> m_nBodySize p = ch_size c \<and> m_packetType p = ch_type c \<and> m_nTimeStamp p = ch_stamp c))"

definition in_channels :: "(int \<Rightarrow> channel option) \<Rightarrow> RTMP \<Rightarrow> bool" where
  "in_channels st r \<longleftrightarrow> length (m_channelTimestamp r) = length (m_vecChannelsIn r) \<and> (\<forall>n c. st n = Some c \<longrightarrow>
     (\<exists>q. chan (m_vecChannelsIn r) n = Some q \<and> m_nChannel q = n \<and> m_nBodySize q = ch_size c \<and> m_packetType q = ch_type c \<and> m_nInfoField2 q = ch_info c \<and>
        m_nTimeStamp q = ch_delta c \<and> m_body q = None \<and> m_nBytesRead q = 0 \<and> \<not> m_hasAbsTimestamp q \<and> m_chunk q = None \<and>
        m_channelTimestamp r ! nat n = ch_seen c))"

text \<open>A packet can be sent with a full header, or with a medium one if it goes on with the stream of the last packet of the channel.\<close>

definition repeats :: "channel \<Rightarrow> RTMPPacket \<Rightarrow> bool" where
  "repeats c p \<longleftrightarrow> m_nBodySize p = ch_size c \<and> m_packetType p = ch_type c \<and> m_nTimeStamp p = ch_stamp c"

definition sendable :: "(int \<Rightarrow> channel option) \<Rightarrow> RTMPPacket \<Rightarrow> bool" where
  "sendable st p \<longleftrightarrow> valid_packet p \<and> (m_packetType p = 0x14 \<longrightarrow> 3 \<le> m_nBodySize p) \<and>
     (m_headerType p = 0 \<or> m_headerType p = 1 \<and> (case st (m_nChannel p) of None \<Rightarrow> False
        | Some c \<Rightarrow> ch_info c = m_nInfoField2 p))"

text \<open>The type of the header that is sent, and the time stamp in it.\<close>

definition sent_type :: "(int \<Rightarrow> channel option) \<Rightarrow> RTMPPacket \<Rightarrow> int" where
  "sent_type st p =
     (if m_headerType p = 0 then 0
      else case st (m_nChannel p) of None \<Rightarrow> 1
        | Some c \<Rightarrow> if repeats c p then 3 else if m_nBodySize p = ch_size c \<and> m_packetType p = ch_type c then 2 else 1)"

definition sent_stamp :: "(int \<Rightarrow> channel option) \<Rightarrow> RTMPPacket \<Rightarrow> 32 word" where
  "sent_stamp st p =
     (if m_headerType p = 0 then m_nTimeStamp p
      else case st (m_nChannel p) of None \<Rightarrow> m_nTimeStamp p | Some c \<Rightarrow> m_nTimeStamp p - ch_stamp c)"

text \<open>What the receiver makes of it: a header that has no time stamp means the last one again.\<close>

definition recv_delta :: "(int \<Rightarrow> channel option) \<Rightarrow> RTMPPacket \<Rightarrow> 32 word" where
  "recv_delta st p = (if sent_type st p = 3 then ch_delta (the (st (m_nChannel p))) else sent_stamp st p)"

definition recv_stamp :: "(int \<Rightarrow> channel option) \<Rightarrow> RTMPPacket \<Rightarrow> 32 word" where
  "recv_stamp st p =
     (if m_headerType p = 0 then m_nTimeStamp p
      else case st (m_nChannel p) of None \<Rightarrow> m_nTimeStamp p | Some c \<Rightarrow> ch_seen c + recv_delta st p)"

definition after_packet :: "(int \<Rightarrow> channel option) \<Rightarrow> RTMPPacket \<Rightarrow> int \<Rightarrow> channel option" where
  "after_packet st p =
     st(m_nChannel p \<mapsto> \<lparr>ch_size = m_nBodySize p, ch_type = m_packetType p, ch_info = m_nInfoField2 p, ch_stamp = m_nTimeStamp p,
       ch_delta = recv_delta st p, ch_seen = recv_stamp st p\<rparr>)"

fun wire_all :: "nat \<Rightarrow> (int \<Rightarrow> channel option) \<Rightarrow> (RTMPPacket \<times> bytes) list \<Rightarrow> bytes" where
  \<comment> \<open>the bytes of a sequence of packets\<close>
  "wire_all K st [] = []"
| "wire_all K st ((p, body) # ps) = wire K (p\<lparr>m_headerType := sent_type st p\<rparr>) (sent_stamp st p) body @ wire_all K (after_packet st p) ps"

lemma compress_sendable:
  assumes "sendable st p" "out_channels st r" "prev = chan (m_vecChannelsOut r) (m_nChannel p)"
  shows "header_type prev p = sent_type st p" "m_nTimeStamp p - last_stamp prev p = sent_stamp st p"
proof -
  have "compress prev p = (p\<lparr>m_headerType := sent_type st p\<rparr>, m_nTimeStamp p - sent_stamp st p)"
  proof (cases "m_headerType p = 0")
    case True
    then show ?thesis by (cases prev) (simp_all add: compress_def sent_type_def sent_stamp_def)
  next
    case False
    then obtain c where c: "m_headerType p = 1" "st (m_nChannel p) = Some c"
      using assms(1) by (auto simp: sendable_def split: option.splits)
    then obtain q where q: "prev = Some q" "m_nBodySize q = ch_size c" "m_packetType q = ch_type c" "m_nTimeStamp q = ch_stamp c"
      using assms(2,3) unfolding out_channels_def by metis
    show ?thesis using c by (auto simp: compress_def q repeats_def sent_type_def sent_stamp_def)
  qed
  then show "header_type prev p = sent_type st p" "m_nTimeStamp p - last_stamp prev p = sent_stamp st p"
    by (simp_all add: header_type_def last_stamp_def)
qed

end
