(* ===== verification/Rtmp_Session.thy ===== *)
theory Rtmp_Session
  imports Rtmp_Messages
begin

text \<open>
  A sequence of packets from one connection to another: what \<open>RTMP_SendPacket\<close> sends is what the peer reads.
\<close>

section \<open>One packet\<close>

text \<open>The packet that the header is read into.\<close>

lemma read_into:
  fixes p p' q0 :: RTMPPacket
  assumes "sendable st p" "in_channels st r" "m_body q0 = None" "m_chunk q0 = None"
    and "p' = p\<lparr>m_headerType := sent_type st p\<rparr>" "t = sent_stamp st p"
    and "B = base_packet (m_vecChannelsIn r) q0 (m_headerType p') (m_nChannel p)" "q1 = header_fields p' t B"
  shows "valid_packet p'" "m_body B = None" "m_chunk B = None" "m_nChannel B = m_nChannel p"
    and "m_nBodySize q1 = m_nBodySize p" "m_packetType q1 = m_packetType p" "m_nInfoField2 q1 = m_nInfoField2 p" "m_nBytesRead q1 = 0"
    and "m_nTimeStamp q1 = recv_delta st p" "abs_stamp (grow_in r (m_nChannel p)) q1 = recv_stamp st p"
proof -
  have v: "valid_packet p" "2 \<le> m_nChannel p" using assms(1) by (simp_all add: sendable_def valid_packet_def)
  have "0 \<le> sent_type st p \<and> sent_type st p \<le> 3" by (simp add: sent_type_def split: option.splits)
  then show v': "valid_packet p'" using v(1) by (simp add: assms(5) valid_packet_def)
  have all: "m_body B = None \<and> m_chunk B = None \<and> m_nChannel B = m_nChannel p \<and> m_nBodySize q1 = m_nBodySize p \<and> m_packetType q1 = m_packetType p \<and>
    m_nInfoField2 q1 = m_nInfoField2 p \<and> m_nBytesRead q1 = 0 \<and> m_nTimeStamp q1 = recv_delta st p \<and> abs_stamp (grow_in r (m_nChannel p)) q1 = recv_stamp st p"
  proof (cases "m_headerType p = 0")
    case True
    then show ?thesis using assms(3,4)
      by (simp add: assms(5-8) base_packet_def header_fields_def abs_stamp_def recv_delta_def recv_stamp_def sent_type_def sent_stamp_def)
  next
    case False
    then obtain c where c: "st (m_nChannel p) = Some c" "ch_info c = m_nInfoField2 p"
      using assms(1) by (auto simp: sendable_def split: option.splits)
    obtain q where q: "chan (m_vecChannelsIn r) (m_nChannel p) = Some q" "m_nChannel q = m_nChannel p" "m_nBodySize q = ch_size c" "m_packetType q = ch_type c"
        "m_nInfoField2 q = ch_info c" "m_nTimeStamp q = ch_delta c" "m_body q = None" "m_nBytesRead q = 0" "\<not> m_hasAbsTimestamp q" "m_chunk q = None"
        "m_channelTimestamp r ! nat (m_nChannel p) = ch_seen c"
      using assms(2) c(1) unfolding in_channels_def by blast
    have lt: "nat (m_nChannel p) < length (m_channelTimestamp r)" using q(1) assms(2) v(2) by (auto simp: chan_def in_channels_def split: if_splits)
    have B: "B = q" using False c(1) q(1) by (auto simp: assms(5,7) base_packet_def sent_type_def)
    have g: "m_channelTimestamp (grow_in r (m_nChannel p)) ! nat (m_nChannel p) = ch_seen c" using q(11) lt by (auto simp: grow_in_def Let_def nth_append)
    have rs: "recv_stamp st p = ch_seen c + recv_delta st p" using False c(1) by (simp add: recv_stamp_def)
    have ht: "m_headerType p' = sent_type st p" "m_nBodySize p' = m_nBodySize p" "m_packetType p' = m_packetType p" by (simp_all add: assms(5))
    note simps = B assms(6,8) header_fields_def abs_stamp_def recv_delta_def ht rs
    consider "repeats c p" "sent_type st p = 3" | "m_nBodySize p = ch_size c" "m_packetType p = ch_type c" "sent_type st p = 2" | "sent_type st p = 1"
      using False c(1) by (cases "repeats c p"; cases "m_nBodySize p = ch_size c \<and> m_packetType p = ch_type c") (auto simp: sent_type_def)
    then show ?thesis
    proof cases
      case 1
      then show ?thesis using q g c by (simp add: simps repeats_def)
    next
      case 2
      then show ?thesis using q g c by (simp add: simps)
    next
      case 3
      then show ?thesis using q g c by (simp add: simps)
    qed
  qed
  then show "m_body B = None" "m_chunk B = None" "m_nChannel B = m_nChannel p" "m_nBodySize q1 = m_nBodySize p" "m_packetType q1 = m_packetType p"
    "m_nInfoField2 q1 = m_nInfoField2 p" "m_nBytesRead q1 = 0" "m_nTimeStamp q1 = recv_delta st p" "abs_stamp (grow_in r (m_nChannel p)) q1 = recv_stamp st p" by simp_all
qed

text \<open>The channels of the receiver after a complete packet.\<close>

lemma in_channels_after:
  assumes "in_channels st r" "2 \<le> m_nChannel p" "after_chunk (grow_in r (m_nChannel p)) q body (length body) r' res"
    and "m_nChannel q = m_nChannel p" "m_nBodySize q = m_nBodySize p" "m_packetType q = m_packetType p" "m_nInfoField2 q = m_nInfoField2 p" "m_chunk q = None"
    and "m_nTimeStamp q = recv_delta st p" "abs_stamp (grow_in r (m_nChannel p)) q = recv_stamp st p"
  shows "in_channels (after_packet st p) r'"
proof -
  let ?n = "m_nChannel p" and ?g = "grow_in r (m_nChannel p)"
  have len: "length (m_channelTimestamp r) = length (m_vecChannelsIn r)" using assms(1) by (simp add: in_channels_def)
  note g = grow_in_channels [OF _ len, of ?n]
  have vec: "m_vecChannelsIn r' = (m_vecChannelsIn ?g)[nat ?n := Some (q\<lparr>m_body := None, m_nBytesRead := 0, m_hasAbsTimestamp := False\<rparr>)]"
      "m_channelTimestamp r' = (m_channelTimestamp ?g)[nat ?n := recv_stamp st p]"
    using assms(3,4,10) by (simp_all add: after_chunk_def Let_def)
  have lg: "?n < int (length (m_vecChannelsIn ?g))" "length (m_channelTimestamp ?g) = length (m_vecChannelsIn ?g)" using g(2,3) assms(2) by simp_all
  have ch: "chan (m_vecChannelsIn r') k = (if k = ?n then Some (q\<lparr>m_body := None, m_nBytesRead := 0, m_hasAbsTimestamp := False\<rparr>) else chan (m_vecChannelsIn r) k)" for k
    unfolding vec(1) using chan_update [OF _ lg(1)] g(4) assms(2) by simp
  have ts: "m_channelTimestamp r' ! nat k = (if k = ?n then recv_stamp st p else m_channelTimestamp r ! nat k)" if "k = ?n \<or> chan (m_vecChannelsIn r) k = Some x" for k x
  proof (cases "k = ?n")
    case True
    then show ?thesis unfolding vec(2) using lg assms(2) by simp
  next
    case False
    then have "0 \<le> k" "nat k < length (m_channelTimestamp r)" using that len by (auto simp: chan_def split: if_splits)
    then show ?thesis unfolding vec(2) using False assms(2) by (auto simp: grow_in_def Let_def nth_append nat_eq_iff)
  qed
  show ?thesis unfolding in_channels_def
  proof (intro conjI allI impI)
    show "length (m_channelTimestamp r') = length (m_vecChannelsIn r')" unfolding vec using lg(2) by simp
    fix n c assume c: "after_packet st p n = Some c"
    show "\<exists>q. chan (m_vecChannelsIn r') n = Some q \<and> m_nChannel q = n \<and> m_nBodySize q = ch_size c \<and> m_packetType q = ch_type c \<and> m_nInfoField2 q = ch_info c \<and>
        m_nTimeStamp q = ch_delta c \<and> m_body q = None \<and> m_nBytesRead q = 0 \<and> \<not> m_hasAbsTimestamp q \<and> m_chunk q = None \<and> m_channelTimestamp r' ! nat n = ch_seen c"
    proof (cases "n = ?n")
      case True
      then show ?thesis unfolding ch using ts [of n] assms(4-9) c by (auto simp: after_packet_def)
    next
      case False
      then have "st n = Some c" using c by (simp add: after_packet_def)
      then obtain x where x: "chan (m_vecChannelsIn r) n = Some x" "m_nChannel x = n" "m_nBodySize x = ch_size c" "m_packetType x = ch_type c" "m_nInfoField2 x = ch_info c"
          "m_nTimeStamp x = ch_delta c" "m_body x = None" "m_nBytesRead x = 0" "\<not> m_hasAbsTimestamp x" "m_chunk x = None" "m_channelTimestamp r ! nat n = ch_seen c"
        using assms(1) unfolding in_channels_def by blast
      then show ?thesis using ts [of n x] False by (simp add: ch)
    qed
  qed
qed

lemma message_reads:
  fixes p p' q0 :: RTMPPacket
  assumes "sendable st p" "in_channels st r" "m_body q0 = None" "m_chunk q0 = None"
    and "p' = p\<lparr>m_headerType := sent_type st p\<rparr>" "t = sent_stamp st p"
    and "m_nBodySize p = int (length body)" "0 < m_inChunkSize r" "rx r (wire (nat (m_inChunkSize r)) p' t body @ bs)"
  shows "\<exists>r' res. (\<forall>k > length body. next_packet k r q0 = Some (True, r', res)) \<and> rx r' bs \<and> in_channels (after_packet st p) r' \<and>
    m_inChunkSize r' = m_inChunkSize r \<and> m_pausing r' = m_pausing r \<and> m_nChannel res = m_nChannel p \<and> m_packetType res = m_packetType p \<and> m_nInfoField2 res = m_nInfoField2 p \<and>
    m_nBodySize res = m_nBodySize p \<and> m_nTimeStamp res = recv_stamp st p \<and> m_chunk res = None \<and> holds r' res body (length body) \<and> (body = [] \<or> m_body res \<noteq> None)"
proof -
  define B q1 where "B = base_packet (m_vecChannelsIn r) q0 (m_headerType p') (m_nChannel p)" and "q1 = header_fields p' t B"
  note into = read_into [OF assms(1-6) B_def q1_def]
  let ?n = "m_nChannel p" and ?K = "nat (m_inChunkSize r)"
  have n: "2 \<le> ?n" "length body < 2 ^ 24" using assms(1,7) by (simp_all add: sendable_def valid_packet_def)
  have pn: "m_nChannel p' = ?n" by (simp add: assms(5))
  have len: "length (m_channelTimestamp r) = length (m_vecChannelsIn r)" using assms(2) by (simp add: in_channels_def)
  note g = grow_in_channels [OF _ len, of ?n]
  define m where "m = min ?K (length body - 0)"
  define rest where "rest = (if m = length body then bs else next_header p' @ chunked ?K (next_header p') (drop m body) @ bs)"
  have "chunked ?K (next_header p') body = take m body @ (if m = length body then [] else next_header p' @ chunked ?K (next_header p') (drop m body))"
    using chunked_split [OF _ m_def, of "next_header p'"] assms(8) by simp
  then have rx: "rx r (header_bytes p' t @ take m (drop 0 body) @ rest)"
    using assms(9) by (cases "m = length body") (simp_all add: wire_def rest_def)
  have "\<exists>r' q res. RTMP_ReadPacket r q0 = Some (True, r', res) \<and> rx r' rest \<and> after_chunk (grow_in r (m_nChannel p')) q body (0 + m) r' res \<and>
     (q = q1 \<or> m_body B = None \<and> body \<noteq> [] \<and> (\<exists>b \<ge> mem_next r. q = q1\<lparr>m_body := Some (b, 18), m_headerType := m_headerType p'\<rparr>)) \<and> (body = [] \<or> m_body q \<noteq> None) \<and>
     (\<forall>c < mem_next r. (\<forall>i. m_body q \<noteq> Some (c, i)) \<longrightarrow> blocks r' c = blocks r c)"
    by (rule RTMP_ReadPacket_reads [OF into(1) rx assms(8) m_def _ n(2) len B_def [folded pn] q1_def])
      (use into assms(7) pn in simp_all)
  then obtain r1 q res1 where r1: "RTMP_ReadPacket r q0 = Some (True, r1, res1)" "rx r1 rest" "after_chunk (grow_in r ?n) q body m r1 res1"
      "q = q1 \<or> (\<exists>b. q = q1\<lparr>m_body := Some (b, 18), m_headerType := m_headerType p'\<rparr>)" "body = [] \<or> m_body q \<noteq> None"
    unfolding pn add_0 by blast
  have c1: "m_chunk q1 = None" "m_nChannel q1 = ?n" using into(3,4) by (simp_all add: q1_def)
  have q: "m_nChannel q = ?n" "m_nBodySize q = m_nBodySize p" "m_packetType q = m_packetType p" "m_nInfoField2 q = m_nInfoField2 p" "m_chunk q = None"
      "m_nTimeStamp q = recv_delta st p" "abs_stamp (grow_in r ?n) q = recv_stamp st p"
    using r1(4) into c1 by (auto simp: abs_stamp_def)
  have "\<exists>r' res. (\<forall>k > length body. next_packet k r q0 = Some (True, r', res)) \<and> rx r' bs \<and> after_chunk (grow_in r ?n) q body (length body) r' res"
  proof (cases "m = length body")
    case True
    then have "RTMPPacket_IsReady res1" using r1(3) q(2) assms(7) by (simp add: after_chunk_def Let_def RTMPPacket_IsReady_def)
    then have "next_packet k r q0 = Some (True, r1, res1)" if "k > length body" for k using r1(1) that rx_connected [OF assms(9)] by (cases k) simp_all
    then show ?thesis using r1(2,3) True by (auto simp: rest_def)
  next
    case False
    then have lt: "m < length body" "0 < m" using assms(8) by (auto simp: m_def)
    have K: "m_inChunkSize r1 = m_inChunkSize r" using r1(3) by (simp add: after_chunk_def)
    have nr: "\<not> RTMPPacket_IsReady res1" using r1(3) q(2) assms(7) False by (simp add: after_chunk_def Let_def RTMPPacket_IsReady_def)
    have nb: "m_body q \<noteq> None" using r1(5) lt by auto
    have rx1: "rx r1 (next_header p' @ chunked (nat (m_inChunkSize r1)) (next_header p') (drop m body) @ bs)" using r1(2) False unfolding K by (simp add: rest_def)
    have "\<exists>r' res'. (\<forall>k > length body - m. next_packet k r1 res1 = Some (True, r', res')) \<and> rx r' bs \<and> after_chunk (grow_in r ?n) q body (length body) r' res' \<and>
       (\<forall>c < mem_next r1. (\<forall>i. m_body q \<noteq> Some (c, i)) \<longrightarrow> blocks r' c = blocks r1 c)"
      by (rule rest_of_packet [OF into(1) r1(3) lt(1) n(2) rx1]) (use assms(7,8) K g(2,3) n(1) pn q(1,2,5) nb in simp_all)
    then obtain r2 res2 where r2: "\<forall>k > length body - m. next_packet k r1 res1 = Some (True, r2, res2)" "rx r2 bs" "after_chunk (grow_in r ?n) q body (length body) r2 res2"
      by blast
    have "next_packet k r q0 = Some (True, r2, res2)" if "k > length body" for k
      using that r2(1) lt r1(1) nr rx_connected [OF assms(9)] by (cases k) auto
    then show ?thesis using r2(2,3) by blast
  qed
  then obtain r2 res2 where r2: "\<forall>k > length body. next_packet k r q0 = Some (True, r2, res2)" "rx r2 bs" "after_chunk (grow_in r ?n) q body (length body) r2 res2" by blast
  have "in_channels (after_packet st p) r2"
    by (rule in_channels_after [OF assms(2) n(1) r2(3) q])
  moreover have "res2 = q\<lparr>m_nBytesRead := int (length body), m_nTimeStamp := recv_stamp st p\<rparr>" "m_inChunkSize r2 = m_inChunkSize r" "m_pausing r2 = m_pausing r" "holds r2 q body (length body)"
    using r2(3) q(7) by (simp_all add: after_chunk_def Let_def grow_in_def)
  moreover from this(1,4) have "holds r2 res2 body (length body)" by (simp add: holds_def)
  ultimately show ?thesis using r2(1,2) q r1(5) by (intro exI [of _ r2] exI [of _ res2]) simp
qed

section \<open>Sequences of packets\<close>

text \<open>A client of the library sends a packet by allocating it, filling in the body, sending it and freeing it.  It reads a packet, takes the
  body and frees the packet.\<close>

definition send_new :: "RTMP \<Rightarrow> RTMPPacket \<Rightarrow> bytes \<Rightarrow> (bool \<times> RTMP) ub" where
  "send_new r p body = do {
     let (r, p) = RTMPPacket_Alloc r p (int (length body));
     ptr \<leftarrow> deref (m_body p);
     r \<leftarrow> poke r ptr body;
     (ok, r, p) \<leftarrow> RTMP_SendPacket RTMP_Close r p False;
     (r, _) \<leftarrow> RTMPPacket_Free r p;
     Some (ok, r)
   }"

fun send_all :: "RTMP \<Rightarrow> (RTMPPacket \<times> bytes) list \<Rightarrow> (bool \<times> RTMP) ub" where
  "send_all r [] = Some (True, r)"
| "send_all r ((p, body) # ps) = do { (ok, r) \<leftarrow> send_new r p body; if ok then send_all r ps else Some (False, r) }"

definition empty_packet :: RTMPPacket where
  "empty_packet = local_packet 0 0 0 0 0"

definition body_of :: "RTMP \<Rightarrow> RTMPPacket \<Rightarrow> bytes ub" where
  "body_of r q = (case m_body q of None \<Rightarrow> Some [] | Some ptr \<Rightarrow> load r ptr (m_nBodySize q))"

primrec receive_all :: "nat \<Rightarrow> nat \<Rightarrow> RTMP \<Rightarrow> (RTMP \<times> (RTMPPacket \<times> bytes) list) ub" where
  \<comment> \<open>at most \<open>k\<close> chunks for each packet\<close>
  "receive_all k 0 r = Some (r, [])"
| "receive_all k (Suc m) r = do {
     (ok, r, q) \<leftarrow> next_packet k r empty_packet;
     if \<not> ok then None
     else do {
       body \<leftarrow> body_of r q;
       (r, _) \<leftarrow> RTMPPacket_Free r q;
       (r, qs) \<leftarrow> receive_all k m r;
       Some (r, (q, body) # qs)
     }
   }"

definition message :: "RTMPPacket \<times> bytes \<Rightarrow> int \<times> int \<times> 32 word \<times> int \<times> bytes" where
  "message m = (case m of (p, body) \<Rightarrow> (m_nChannel p, m_packetType p, m_nTimeStamp p, m_nInfoField2 p, body))"

fun sendable_all :: "(int \<Rightarrow> channel option) \<Rightarrow> (RTMPPacket \<times> bytes) list \<Rightarrow> bool" where
  "sendable_all st [] \<longleftrightarrow> True"
| "sendable_all st ((p, body) # ps) \<longleftrightarrow> sendable st p \<and> m_nBodySize p = int (length body) \<and> sendable_all (after_packet st p) ps"

fun received :: "(int \<Rightarrow> channel option) \<Rightarrow> (RTMPPacket \<times> bytes) list \<Rightarrow> (int \<times> int \<times> 32 word \<times> int \<times> bytes) list" where
  "received st [] = []"
| "received st ((p, body) # ps) = message (p\<lparr>m_nTimeStamp := recv_stamp st p\<rparr>, body) # received (after_packet st p) ps"

text \<open>A packet that repeats size, type and time stamp of the one before must not move the time stamp.\<close>

fun exact :: "(int \<Rightarrow> channel option) \<Rightarrow> (RTMPPacket \<times> bytes) list \<Rightarrow> bool" where
  "exact st [] \<longleftrightarrow> True"
| "exact st ((p, body) # ps) \<longleftrightarrow>
     (m_headerType p = 0 \<or> (case st (m_nChannel p) of None \<Rightarrow> True | Some c \<Rightarrow> \<not> repeats c p \<or> ch_delta c = 0)) \<and> exact (after_packet st p) ps"

lemma received_exact:
  "exact st ps \<Longrightarrow> (\<And>n c. st n = Some c \<Longrightarrow> ch_seen c = ch_stamp c) \<Longrightarrow> received st ps = map message ps"
proof (induction st ps rule: received.induct)
  case (2 st p body ps)
  have "recv_stamp st p = m_nTimeStamp p"
    using "2.prems" by (auto simp: recv_stamp_def recv_delta_def sent_type_def sent_stamp_def repeats_def split: option.splits if_splits)
  moreover from this have "ch_seen c = ch_stamp c" if "after_packet st p n = Some c" for n c
    using that "2.prems"(2) by (auto simp: after_packet_def split: if_splits)
  ultimately show ?case using 2 by simp
qed simp

lemma compress_body: "header_type prev (p\<lparr>m_body := b, m_nBytesRead := k\<rparr>) = header_type prev p"
  "last_stamp prev (p\<lparr>m_body := b, m_nBytesRead := k\<rparr>) = last_stamp prev p"
  by (auto simp: header_type_def last_stamp_def compress_def Let_def split: option.splits)

lemma wire_body: "wire K (p\<lparr>m_body := b, m_nBytesRead := k, m_headerType := h\<rparr>) t body = wire K (p\<lparr>m_headerType := h\<rparr>) t body"
  by (simp add: wire_def header_bytes_def field_bytes_def next_header_def)

lemma queue_nothing:
  assumes "m_body p = Some (b, 18)" "blocks r b = Some blk" "m_packetType p = 0x14 \<Longrightarrow> 21 \<le> length blk"
  shows "queue_method r p False = Some r"
  using assms by (auto simp: queue_method_def AMF_DecodeString_def AMF_DecodeInt16_def peek_def)

lemma poke_all: "blocks r b = Some (pre @ old @ rest) \<Longrightarrow> length old = length xs \<Longrightarrow> i = int (length pre) \<Longrightarrow>
    poke r (b, i) xs = Some (r\<lparr>blocks := (blocks r)(b \<mapsto> pre @ xs @ rest)\<rparr>)"
  using store_step [of xs "old @ rest" pre] by (auto simp: poke_def fun_upd_idem)

text \<open>A packet whose body is filled in is sent; the memory and the packet of the caller stay as they are, but for the space in front of the body and the
  headers that are written into it.\<close>

definition after_send :: "RTMP \<Rightarrow> (int \<Rightarrow> channel option) \<Rightarrow> nat \<Rightarrow> bytes \<Rightarrow> RTMP \<Rightarrow> bool" where
  "after_send s st b bs s' \<longleftrightarrow> writable s' \<and> m_outChunkSize s' = m_outChunkSize s \<and> out_channels st s' \<and> net_out s' = net_out s @ bs \<and>
     m_write s' = m_write s \<and> m_stream_id s' = m_stream_id s \<and> mem_next s' = mem_next s \<and> (\<exists>blk. blocks s' = (blocks s)(b \<mapsto> blk))"

lemma send_filled:
  assumes "sendable st p" "out_channels st s" "writable s" "0 < m_outChunkSize s" "m_nBodySize p = int (length body)"
    and "p0 = p\<lparr>m_body := Some (b, 18), m_nBytesRead := k\<rparr>" "blocks s b = Some (z @ body)" "length z = 18"
  shows "\<exists>s'. RTMP_SendPacket RTMP_Close s p0 False = Some (True, s', p0\<lparr>m_headerType := sent_type st p\<rparr>) \<and>
    after_send s (after_packet st p) b (wire (nat (m_outChunkSize s)) (p\<lparr>m_headerType := sent_type st p\<rparr>) (sent_stamp st p) body) s'"
proof -
  let ?n = "m_nChannel p" and ?W = "wire (nat (m_outChunkSize s)) (p\<lparr>m_headerType := sent_type st p\<rparr>) (sent_stamp st p) body"
  have v: "valid_packet p" using assms(1) by (simp add: sendable_def)
  have c: "header_type (chan (m_vecChannelsOut s) ?n) p0 = sent_type st p" "m_nTimeStamp p - last_stamp (chan (m_vecChannelsOut s) ?n) p0 = sent_stamp st p"
    using compress_sendable [OF assms(1,2) refl] by (simp_all add: assms(6) compress_body)
  define p2 where "p2 = p0\<lparr>m_headerType := sent_type st p\<rparr>"
  have p2: "m_body p2 = Some (b, 18)" "m_packetType p2 = m_packetType p" "m_nBodySize p2 = m_nBodySize p" "m_nTimeStamp p2 = m_nTimeStamp p"
      "m_nChannel p0 = ?n" "m_nTimeStamp p0 = m_nTimeStamp p"
    by (simp_all add: p2_def assms(6))
  have w: "wire (nat (m_outChunkSize s)) p2 (sent_stamp st p) body = ?W" by (simp add: p2_def assms(6) wire_body)
  have "0 \<le> m_headerType p0" "m_headerType p0 \<le> 3" "0 \<le> m_nChannel p0" "m_body p0 = Some (b, int (length z))" "blocks s b = Some (z @ body @ [])"
      "18 \<le> length z" "m_nBodySize p0 = int (length body)" "m_nBodySize p0 < 2 ^ 31"
    using v assms(5-8) by (simp_all add: valid_packet_def)
  from RTMP_SendPacket_sends [OF assms(3,4) this, of RTMP_Close False]
  obtain sc blk where snd: "RTMP_SendPacket RTMP_Close s p0 False = do {
        r' \<leftarrow> queue_method (sent (s\<lparr>m_vecChannelsOut := grow (m_vecChannelsOut s) ?n None, blocks := (blocks s)(b \<mapsto> blk)\<rparr>) ?W sc) p2 False;
        Some (True, r'\<lparr>m_vecChannelsOut := (grow (m_vecChannelsOut s) ?n None)[nat ?n := Some p2]\<rparr>, p2)
      }" and len: "length blk = length (z @ body @ [])" and wr: "writable (sent s ?W sc)"
    unfolding p2(5,6) c p2_def [symmetric] w by blast
  define s2 where "s2 = sent (s\<lparr>m_vecChannelsOut := grow (m_vecChannelsOut s) ?n None, blocks := (blocks s)(b \<mapsto> blk)\<rparr>) ?W sc"
  have m2: "blocks s2 b = Some blk" by (simp add: s2_def sent_def)
  have "queue_method s2 p2 False = Some s2"
    by (rule queue_nothing [OF p2(1) m2]) (use assms(1,5,8) len p2(2) in \<open>simp add: sendable_def\<close>)
  then have snd2: "RTMP_SendPacket RTMP_Close s p0 False = Some (True, s2\<lparr>m_vecChannelsOut := (grow (m_vecChannelsOut s) ?n None)[nat ?n := Some p2]\<rparr>, p2)"
    unfolding snd s2_def [symmetric] by simp
  define s3 where "s3 = s2\<lparr>m_vecChannelsOut := (grow (m_vecChannelsOut s) ?n None)[nat ?n := Some p2]\<rparr>"
  have "0 \<le> ?n" using v by (simp add: valid_packet_def)
  then have "chan (m_vecChannelsOut s3) k = (if k = ?n then Some p2 else chan (m_vecChannelsOut s) k)" for k
    using chan_update [OF _ grow_length [of ?n "m_vecChannelsOut s" None], of "Some p2" k] by (simp add: s3_def)
  then have oc: "out_channels (after_packet st p) s3" using assms(2) p2 by (auto simp: out_channels_def after_packet_def split: if_splits)
  have "after_send s (after_packet st p) b ?W s3"
    unfolding after_send_def using wr oc by (auto simp: s3_def s2_def sent_def writable_def RTMP_IsConnected_def)
  then show ?thesis using snd2 unfolding p2_def [symmetric] s3_def [symmetric] by blast
qed

lemma release_simps [simp]:
  "writable (release s b) = writable s" "out_channels st (release s b) = out_channels st s" "m_outChunkSize (release s b) = m_outChunkSize s"
  "net_out (release s b) = net_out s" "m_write (release s b) = m_write s" "m_stream_id (release s b) = m_stream_id s" "mem_next (release s b) = mem_next s"
  by (simp_all add: release_def writable_def RTMP_IsConnected_def out_channels_def)

lemma free_body: "m_body p = Some (b, 18) \<Longrightarrow> blocks s b = Some blk \<Longrightarrow> RTMPPacket_Free s p = Some (release s b, p\<lparr>m_body := None\<rparr>)"
  by (simp add: RTMPPacket_Free_def c_free_def RTMP_MAX_HEADER_SIZE_def)

lemma alloc_zeroes:
  "RTMPPacket_Alloc s p (int n) = (s\<lparr>blocks := (blocks s)(mem_next s \<mapsto> replicate 18 0 @ replicate n 0), mem_next := Suc (mem_next s)\<rparr>,
     p\<lparr>m_body := Some (mem_next s, 18), m_nBytesRead := 0\<rparr>)"
proof -
  have z: "replicate (nat (int n + 18)) (0 :: byte) = replicate 18 0 @ replicate n 0" by (simp add: nat_add_distrib add.commute flip: replicate_add)
  show ?thesis by (simp only: RTMPPacket_Alloc_def malloc_def RTMP_MAX_HEADER_SIZE_def z Let_def prod.case)
qed

text \<open>What the sender sends, the receiver reads: the receiver's part is stated for any bytes that follow.\<close>

definition delivers :: "nat \<Rightarrow> (int \<Rightarrow> channel option) \<Rightarrow> int \<Rightarrow> bytes \<Rightarrow> (RTMPPacket \<times> bytes) list \<Rightarrow> bool" where
  "delivers k st K bs ps \<longleftrightarrow> (\<forall>r xs. rx r (bs @ xs) \<and> m_inChunkSize r = K \<and> in_channels st r \<longrightarrow>
     (\<exists>r' qs. receive_all k (length ps) r = Some (r', qs) \<and> map message qs = received st ps \<and> rx r' xs \<and> m_inChunkSize r' = K))"

lemma body_of_holds:
  assumes "holds r q body (length body)" "m_nBodySize q = int (length body)" "body = [] \<or> m_body q \<noteq> None"
  shows "body_of r q = Some body"
proof (cases "m_body q")
  case None
  then show ?thesis using assms by (simp add: body_of_def)
next
  case (Some ptr)
  then obtain b z where b: "m_body q = Some (b, 18)" "blocks r b = Some (z @ body)" "length z = 18" using assms(1) by (cases ptr) (auto simp: holds_def)
  then show ?thesis using assms(2) by (simp add: body_of_def load_def slice_def)
qed

lemma free_received:
  assumes "holds r q body j" "rx r bs" "in_channels st r"
  shows "\<exists>r'. RTMPPacket_Free r q = Some (r', q\<lparr>m_body := None\<rparr>) \<and> rx r' bs \<and> in_channels st r' \<and> m_inChunkSize r' = m_inChunkSize r \<and>
    m_pausing r' = m_pausing r"
proof (cases "m_body q")
  case None
  then show ?thesis using assms(2,3) by (simp add: RTMPPacket_Free_def)
next
  case (Some ptr)
  then obtain b x where b: "m_body q = Some (b, 18)" "blocks r b = Some x" using assms(1) by (cases ptr) (auto simp: holds_def)
  have "in_channels st (release r b)" using assms(3) by (simp add: in_channels_def release_def)
  then show ?thesis using b rx_release [OF assms(2), of b] by (simp add: RTMPPacket_Free_def c_free_def RTMP_MAX_HEADER_SIZE_def release_def)
qed

lemma delivers_Cons:
  assumes "sendable st p" "m_nBodySize p = int (length body)" "length body < k" "0 < K" "delivers k (after_packet st p) K bs ps"
  shows "delivers k st K (wire (nat K) (p\<lparr>m_headerType := sent_type st p\<rparr>) (sent_stamp st p) body @ bs) ((p, body) # ps)"
  unfolding delivers_def
proof (intro allI impI, elim conjE)
  let ?w = "wire (nat K) (p\<lparr>m_headerType := sent_type st p\<rparr>) (sent_stamp st p) body"
  fix r xs assume r: "rx r ((?w @ bs) @ xs)" "m_inChunkSize r = K" "in_channels st r"
  have "rx r (wire (nat (m_inChunkSize r)) (p\<lparr>m_headerType := sent_type st p\<rparr>) (sent_stamp st p) body @ bs @ xs)" "0 < m_inChunkSize r"
      "m_body empty_packet = None" "m_chunk empty_packet = None"
    using r(1,2) assms(4) by (simp_all add: empty_packet_def local_packet_def)
  from message_reads [OF assms(1) r(3) this(3,4) refl refl assms(2) this(2,1)] assms(3)
  obtain r1 q where q: "next_packet k r empty_packet = Some (True, r1, q)" "rx r1 (bs @ xs)" "in_channels (after_packet st p) r1" "m_inChunkSize r1 = K"
      "message (q, body) = message (p\<lparr>m_nTimeStamp := recv_stamp st p\<rparr>, body)" "m_nBodySize q = int (length body)" "holds r1 q body (length body)" "body = [] \<or> m_body q \<noteq> None"
    using r(2) assms(2) by (auto simp: message_def)
  note bq = body_of_holds [OF q(7,6,8)]
  obtain r2 where r2: "RTMPPacket_Free r1 q = Some (r2, q\<lparr>m_body := None\<rparr>)" "rx r2 (bs @ xs)" "in_channels (after_packet st p) r2" "m_inChunkSize r2 = K"
    using free_received [OF q(7,2,3)] q(4) by auto
  obtain r3 qs where r3: "receive_all k (length ps) r2 = Some (r3, qs)" "map message qs = received (after_packet st p) ps" "rx r3 xs" "m_inChunkSize r3 = K"
    using assms(5) r2(2-4) unfolding delivers_def by blast
  show "\<exists>r' qs. receive_all k (length ((p, body) # ps)) r = Some (r', qs) \<and> map message qs = received st ((p, body) # ps) \<and> rx r' xs \<and> m_inChunkSize r' = K"
    using q(1,5) bq r2(1) r3 by (intro exI [of _ r3] exI [of _ "(q, body) # qs"]) simp
qed

lemma delivers_all:
  "sendable_all st ps \<Longrightarrow> 0 < K \<Longrightarrow> \<forall>(p, body) \<in> set ps. length body < k \<Longrightarrow> delivers k st K (wire_all (nat K) st ps) ps"
proof (induction st ps rule: sendable_all.induct)
  case (1 st)
  then show ?case by (simp add: delivers_def)
next
  case (2 st p body ps)
  then have "delivers k (after_packet st p) K (wire_all (nat K) (after_packet st p) ps) ps" by simp
  then show ?case unfolding wire_all.simps by (intro delivers_Cons) (use "2.prems" in simp_all)
qed

lemma send_new_wire:
  assumes "sendable st p" "out_channels st s" "writable s" "0 < m_outChunkSize s" "m_nBodySize p = int (length body)"
  shows "\<exists>s'. send_new s p body = Some (True, s') \<and> writable s' \<and> m_outChunkSize s' = m_outChunkSize s \<and> out_channels (after_packet st p) s' \<and>
    net_out s' = net_out s @ wire (nat (m_outChunkSize s)) (p\<lparr>m_headerType := sent_type st p\<rparr>) (sent_stamp st p) body"
proof -
  let ?b = "mem_next s" and ?z = "replicate 18 (0 :: byte)"
  define p0 where "p0 = p\<lparr>m_body := Some (?b, 18), m_nBytesRead := 0\<rparr>"
  define s0 where "s0 = s\<lparr>blocks := (blocks s)(?b \<mapsto> ?z @ body), mem_next := Suc ?b\<rparr>"
  have pk: "poke (s\<lparr>blocks := (blocks s)(?b \<mapsto> ?z @ replicate (length body) 0), mem_next := Suc ?b\<rparr>) (?b, 18) body = Some s0"
    by (subst poke_all [where pre = ?z and old = "replicate (length body) 0" and rest = "[]"]) (simp_all add: s0_def)
  have s0: "out_channels st s0" "writable s0" "0 < m_outChunkSize s0" "blocks s0 ?b = Some (?z @ body)"
    using assms(2-4) by (simp_all add: s0_def writable_def RTMP_IsConnected_def out_channels_def)
  obtain s' where s': "RTMP_SendPacket RTMP_Close s0 p0 False = Some (True, s', p0\<lparr>m_headerType := sent_type st p\<rparr>)"
      "after_send s0 (after_packet st p) ?b (wire (nat (m_outChunkSize s0)) (p\<lparr>m_headerType := sent_type st p\<rparr>) (sent_stamp st p) body) s'"
    using send_filled [OF assms(1) s0(1-3) assms(5) p0_def s0(4)] by auto
  obtain blk where "blocks s' ?b = Some blk" using s'(2) by (auto simp: after_send_def)
  then have fr: "RTMPPacket_Free s' (p0\<lparr>m_headerType := sent_type st p\<rparr>) = Some (release s' ?b, p0\<lparr>m_headerType := sent_type st p, m_body := None\<rparr>)"
    by (subst free_body) (simp_all add: p0_def)
  have b0: "deref (m_body p0) = Some (?b, 18)" by (simp add: p0_def)
  have "send_new s p body = Some (True, release s' ?b)"
    by (simp only: send_new_def Let_def alloc_zeroes prod.case p0_def [symmetric] b0 bind.bind_lunit pk s'(1) fr)
  then show ?thesis using s'(2) by (simp add: after_send_def s0_def)
qed

lemma send_all_wire:
  "sendable_all st ps \<Longrightarrow> out_channels st s \<Longrightarrow> writable s \<Longrightarrow> 0 < m_outChunkSize s \<Longrightarrow>
   \<exists>s'. send_all s ps = Some (True, s') \<and> net_out s' = net_out s @ wire_all (nat (m_outChunkSize s)) st ps"
proof (induction st ps arbitrary: s rule: sendable_all.induct)
  case (2 st p body ps)
  then obtain s1 where s1: "send_new s p body = Some (True, s1)" "writable s1" "m_outChunkSize s1 = m_outChunkSize s" "out_channels (after_packet st p) s1"
      "net_out s1 = net_out s @ wire (nat (m_outChunkSize s)) (p\<lparr>m_headerType := sent_type st p\<rparr>) (sent_stamp st p) body"
    using send_new_wire [of st p s body] by auto
  then show ?case using "2.IH" [of s1] "2.prems" by auto
qed simp

lemma session:
  assumes "sendable_all Map.empty ps" "writable s" "0 < m_outChunkSize s" "net_out s = []" "\<forall>(p, body) \<in> set ps. length body < k"
    and "rx r (wire_all (nat (m_outChunkSize s)) Map.empty ps)" "m_inChunkSize r = m_outChunkSize s"
    and "length (m_channelTimestamp r) = length (m_vecChannelsIn r)"
  shows "\<exists>s' r' qs. send_all s ps = Some (True, s') \<and> net_out s' = wire_all (nat (m_outChunkSize s)) Map.empty ps \<and>
     receive_all k (length ps) r = Some (r', qs) \<and> map message qs = received Map.empty ps \<and> rx r' []"
proof -
  have o: "out_channels Map.empty s" by (simp add: out_channels_def)
  have "in_channels Map.empty r" using assms(8) by (simp add: in_channels_def)
  then have "\<exists>r' qs. receive_all k (length ps) r = Some (r', qs) \<and> map message qs = received Map.empty ps \<and> rx r' []"
    using delivers_all [OF assms(1,3,5)] assms(6,7) unfolding delivers_def by (metis append_Nil2)
  then show ?thesis using send_all_wire [OF assms(1) o assms(2,3)] assms(4) by auto
qed

end
