(* ===== verification/Rtmp_Dangling.thy ===== *)
theory Rtmp_Dangling
  imports Rtmp_Session
begin

text \<open>
  A message that is interrupted: when a header with a size arrives on a channel whose last message is not complete, the body of that
  message is freed, but the channel keeps the pointer until the next chunk has been read.  If the connection ends before, \<open>RTMP_Close\<close>
  frees the body again.
\<close>

section \<open>Closing with a dangling body\<close>

text \<open>\<open>dangling r b\<close>: a channel has a packet whose body is the freed block \<open>b\<close>.\<close>

definition dangling :: "RTMP \<Rightarrow> nat \<Rightarrow> bool" where
  "dangling r b \<longleftrightarrow> blocks r b = None \<and> (\<exists>q i. Some q \<in> set (m_vecChannelsIn r) \<and> m_body q = Some (b, i))"

lemma c_free_keeps: "c_free r p = Some r' \<Longrightarrow> blocks r b = None \<Longrightarrow> blocks r' b = None \<and> m_vecChannelsIn r' = m_vecChannelsIn r"
  by (auto simp: c_free_def release_def bind_eq_Some_conv split: prod.splits if_splits)

lemma packet_free_keeps: "RTMPPacket_Free r p = Some (r', p') \<Longrightarrow> blocks r b = None \<Longrightarrow> blocks r' b = None \<and> m_vecChannelsIn r' = m_vecChannelsIn r"
  using c_free_keeps by (auto simp: RTMPPacket_Free_def bind_eq_Some_conv split: option.splits)

lemma free_channels_dangling:
  "blocks r b = None \<Longrightarrow> Some q \<in> set ps \<Longrightarrow> m_body q = Some (b, i) \<Longrightarrow> free_channels r ps = None"
proof (induction r ps rule: free_channels.induct)
  case (3 r p ps)
  show ?case
  proof (cases "RTMPPacket_Free r p")
    case (Some x)
    then obtain r' p' where x: "RTMPPacket_Free r p = Some (r', p')" by (cases x) auto
    then have "p \<noteq> q" using "3.prems" by (auto simp: RTMPPacket_Free_def c_free_def)
    then show ?thesis using "3.IH" [of "(r', p')" r' p'] x "3.prems" packet_free_keeps [OF x] by simp
  qed simp
qed auto

lemma close_rest_dangling:
  assumes "dangling r b"
  shows "close_rest r = None"
proof (rule ccontr)
  let ?r0 = "r\<lparr>m_stream_id := - 1, m_sb := (m_sb r)\<lparr>sb_socket := - 1\<rparr>, m_nBWCheckCounter := 0, m_nBytesIn := 0, m_nBytesInSent := 0\<rparr>"
  have r0: "blocks ?r0 b = None" using assms by (simp add: dangling_def)
  assume "close_rest r \<noteq> None"
  then obtain r1 r2 w r3 where r1: "(if rd_flags (m_read ?r0) AND RTMP_READ_HEADER \<noteq> 0 then do {
             r \<leftarrow> (case rd_buf (m_read ?r0) of None \<Rightarrow> Some ?r0 | Some p \<Rightarrow> c_free ?r0 p);
             Some (r\<lparr>m_read := (m_read r)\<lparr>rd_buf := None\<rparr>\<rparr>)
           } else Some ?r0) = Some r1"
      and r2: "RTMPPacket_Free (r1\<lparr>m_read := (m_read r1)\<lparr>rd_dataType := 0, rd_flags := 0, rd_status := 0, rd_nResumeTS := 0,
           rd_nIgnoredFrameCounter := 0, rd_nIgnoredFlvFrameCounter := 0\<rparr>\<rparr>) ((m_write r1)\<lparr>m_nBytesRead := 0\<rparr>) = Some (r2, w)"
      and r3: "free_channels (r2\<lparr>m_write := w\<rparr>) (m_vecChannelsIn r2) = Some r3"
    unfolding close_rest_def Let_def by (auto simp: bind_eq_Some_conv simp del: free_channels.simps)
  have "blocks r1 b = None \<and> m_vecChannelsIn r1 = m_vecChannelsIn r"
    using r1 r0 c_free_keeps [of ?r0 _ _ b] by (auto simp: bind_eq_Some_conv split: if_splits option.splits)
  then have "blocks r2 b = None" "m_vecChannelsIn r2 = m_vecChannelsIn r" using packet_free_keeps [OF r2, of b] by simp_all
  then have "free_channels (r2\<lparr>m_write := w\<rparr>) (m_vecChannelsIn r2) = None"
    using assms free_channels_dangling [of "r2\<lparr>m_write := w\<rparr>" b] by (auto simp: dangling_def)
  then show False using r3 by simp
qed

lemma recv_loop_end: "list_all (good_recv c) s \<Longrightarrow> concat (map recv_bytes s) = [] \<Longrightarrow> recv_loop c room s = (Received [], [])"
  by (induction c room s rule: recv_loop.induct) auto

lemma ReadN_dangling:
  assumes "rx r []" "0 < n" "m_stream_id r \<le> 0" "dangling r b"
  shows "ReadN r p n = None"
proof -
  let ?r = "r\<lparr>m_sb := (m_sb r)\<lparr>sb_timedout := False\<rparr>\<rparr>"
  have e: "sb_data (m_sb r) = []" "concat (map recv_bytes (net_in r)) = []" "sb_socket (m_sb r) \<noteq> - 1"
    using assms(1) by (simp_all add: rx_def pending_def writable_def RTMP_IsConnected_def)
  have rl: "recv_loop (RTMP_ctrlC r) room (net_in r) = (Received [], [])" for room
    by (rule recv_loop_end) (use assms(1) e in \<open>simp_all add: rx_def\<close>)
  have fill: "RTMPSockBuf_Fill ?r = (0, ?r\<lparr>m_sb := (m_sb ?r)\<lparr>sb_pos := 0, sb_data := []\<rparr>, net_in := []\<rparr>)" (is "_ = (0, ?f)")
    using e rl by (simp add: RTMPSockBuf_Fill_def Let_def)
  have "dangling ?f b" using assms(4) by (simp add: dangling_def)
  then have "RTMP_Close ?f = None"
    using assms(3) by (simp add: RTMP_Close_def numeral_2_eq_2 close_stream_def close_rest_dangling)
  then show ?thesis unfolding ReadN_def using assms(2) e(1) fill by (subst read_loop.simps) simp
qed

section \<open>The header that interrupts\<close>

text \<open>With the size of the new message the body of the last one is freed.\<close>

lemma read_fields_free:
  assumes "m_body q = Some (b, 18)" "blocks r b = Some x" "6 \<le> nSize"
  shows "read_fields r hbuf header nSize q = read_fields (release r b) hbuf header nSize (q\<lparr>m_body := None\<rparr>)"
  using assms by (cases q) (simp add: read_fields_def RTMPPacket_Free_def c_free_def RTMP_MAX_HEADER_SIZE_def Let_def)

lemma read_header_frees:
  assumes "valid_packet p" "m_headerType p = 1" "t < 0xffffff" "rx r (field_bytes p t)" "blocks r h = Some hbuf" "length hbuf = 18"
    and "m_body q = Some (b, 18)" "blocks r b = Some x" "b \<noteq> h"
  shows "\<exists>r' hbuf' hs. read_header r h q (1 + channel_size (m_nChannel p)) 7 = Some (True, release r' b, header_fields p t (q\<lparr>m_body := None\<rparr>), hs) \<and>
    rx r' [] \<and> same_in r r' \<and> blocks r' = (blocks r)(h \<mapsto> hbuf')"
proof -
  let ?f = "field_bytes p t"
  define i where "i = nat (1 + channel_size (m_nChannel p))"
  have i: "1 + channel_size (m_nChannel p) = int i" "i \<le> 3" using channel_size_range [of "m_nChannel p"] by (simp_all add: i_def)
  have l: "length ?f = 7" using assms(2) by (simp add: field_bytes_def)
  obtain r1 hbuf1 where r1: "ReadN r (h, int i) 7 = Some (7, r1)" "rx r1 []" "same_in r r1" "blocks r1 = (blocks r)(h \<mapsto> hbuf1)"
      "hbuf1 = take i hbuf @ ?f @ drop (i + 7) hbuf"
    using ReadN_into [of r ?f "[]" h hbuf i] assms(4-6) i(2) l by auto
  have s: "short_stamp t = t" "t \<noteq> 0xffffff" using assms(3) by (auto simp: short_stamp_def)
  have "read_fields (release r1 b) hbuf1 (int i) 7 (q\<lparr>m_body := None\<rparr>) = Some (release r1 b, header_fields p t (q\<lparr>m_body := None\<rparr>))"
    using read_fields_reads [of p "q\<lparr>m_body := None\<rparr>" "int i" "take i hbuf" "release r1 b" t "drop (i + 7) hbuf"] assms(1,2,6) i(2) s(1)
    unfolding r1(5) by (simp add: packetSize_def)
  then have rf: "read_fields r1 hbuf1 (int i) 7 q = Some (release r1 b, header_fields p t (q\<lparr>m_body := None\<rparr>))"
    using read_fields_free [of q b r1 x 7] assms(7-9) r1(4) by simp
  have "m_nTimeStamp (header_fields p t (q\<lparr>m_body := None\<rparr>)) = t" using assms(2) by (simp add: header_fields_stamp)
  then show ?thesis unfolding i(1) read_header_def using r1(1-4) rf s(2) by auto
qed

lemma interrupted_message:
  fixes p q0 :: RTMPPacket
  assumes "valid_packet p" "m_headerType p = 1" "t < 0xffffff" "0 < m_nBodySize p" "rx r (header_bytes p t)" "0 < m_inChunkSize r"
    and "length (m_channelTimestamp r) = length (m_vecChannelsIn r)" "chan (m_vecChannelsIn r) (m_nChannel p) = Some q"
    and "m_body q = Some (b, 18)" "blocks r b = Some x" "m_chunk q = None" "m_stream_id r \<le> 0"
  shows "RTMP_ReadPacket r q0 = None"
proof -
  let ?h = "mem_next r" and ?z = "replicate 18 (0 :: byte)" and ?n = "m_nChannel p" and ?Q = "header_fields p t (q\<lparr>m_body := None\<rparr>)"
  have n: "2 \<le> ?n" "?n < 65600" using assms(1) by (simp_all add: valid_packet_def)
  have fresh: "\<forall>b \<ge> ?h. blocks r b = None" using assms(5) by (simp add: rx_def)
  have b: "b < ?h" using fresh assms(10) by (metis not_le option.distinct(1))
  have hb: "header_bytes p t = chan_bytes (first_byte 1 ?n) ?n @ field_bytes p t" using assms(2,3) by (auto simp: header_bytes_def ext_bytes_def)
  define r0 where "r0 = snd (malloc r ?z)"
  note r0 = rx_malloc [OF assms(5), of ?z, folded r0_def, unfolded hb]
  obtain r1 hbuf1 where r1: "read_basic r0 ?h q0 = Some (True, r1, q0\<lparr>m_headerType := 1, m_nChannel := ?n\<rparr>, 1 + channel_size ?n)"
      "rx r1 (field_bytes p t)" "same_in r0 r1" "blocks r1 = (blocks r0)(?h \<mapsto> hbuf1)" "length hbuf1 = 18"
    using read_basic_reads [of r0 1 ?n "field_bytes p t" ?h ?z q0] r0(1,3) n by auto
  have sm: "same_in r r1" using r0(2) r1(3) by (rule same_in_trans)
  have ch: "chan (m_vecChannelsIn r1) ?n = Some q" using sm assms(8) by (simp add: same_in_def)
  then have lt: "?n < int (length (m_vecChannelsIn r1))" and mq: "Some q \<in> set (m_vecChannelsIn r1)"
    by (auto simp: chan_def in_set_conv_nth split: if_splits) (metis nat_less_iff)
  have gi: "grow_in r1 ?n = r1" using grow_in_id [OF _ lt] n by simp
  have pv: "read_prev r1 (q0\<lparr>m_headerType := 1, m_nChannel := ?n\<rparr>) 8 = Some q"
    using ch lt n by (simp add: read_prev_def array_get_def chan_def)
  have mb: "blocks r1 b = Some x" "b \<noteq> ?h" "blocks r1 ?h = Some hbuf1" using r1(4) r0(3) assms(10) b by simp_all
  obtain r2 hbuf2 hs where r2: "read_header r1 ?h q (1 + channel_size ?n) 7 = Some (True, release r2 b, ?Q, hs)" "rx r2 []" "same_in r1 r2"
      "blocks r2 = (blocks r1)(?h \<mapsto> hbuf2)"
    using read_header_frees [OF assms(1-3) r1(2) mb(3) r1(5) assms(9) mb(1,2)] by blast
  define r3 where "r3 = release r2 b"
  have nx: "?h < mem_next r3" using r0(5) r1(3) r2(3) by (simp add: same_in_def r3_def release_def)
  have dg: "dangling r3 b" using r2(3) mq assms(9) by (auto simp: dangling_def r3_def release_def same_in_def)
  obtain r4 where al: "alloc_body r3 ?Q 1 = (r4, ?Q\<lparr>m_body := Some (mem_next r3, 18), m_nBytesRead := 0, m_headerType := 1\<rparr>)"
      and r4: "r4 = snd (malloc r3 (replicate (nat (m_nBodySize ?Q + 18)) 0))"
    using assms(2,4) by (auto simp: alloc_body_def RTMPPacket_Alloc_def malloc_def RTMP_MAX_HEADER_SIZE_def header_fields_def)
  have rx4: "rx r4 []" "m_stream_id r4 \<le> 0" "dangling r4 b" "m_inChunkSize r4 = m_inChunkSize r"
  proof -
    have "rx r3 []" using rx_release [OF r2(2)] by (simp add: r3_def)
    then show "rx r4 []" unfolding r4 by (rule rx_malloc(1))
    show "dangling r4 b" using dg b nx by (auto simp: dangling_def r4 malloc_def)
    show "m_stream_id r4 \<le> 0" "m_inChunkSize r4 = m_inChunkSize r"
      using assms(12) sm r2(3) by (simp_all add: r4 malloc_def r3_def release_def same_in_def)
  qed
  have Q: "m_nBodySize ?Q = m_nBodySize p" "m_chunk ?Q = None" using assms(2,11) by (simp_all add: header_fields_def)
  have "read_chunk r4 ?h (?Q\<lparr>m_body := Some (mem_next r3, 18), m_nBytesRead := 0, m_headerType := 1\<rparr>) hs = None"
  proof -
    have "int32 (m_nBodySize p) = m_nBodySize p" using assms(1) by (simp add: valid_packet_def int32_def signed_take_bit_int_eq_self)
    then show ?thesis using ReadN_dangling [OF rx4(1) _ rx4(2,3)] assms(4,6)
      by (simp add: read_chunk_def Let_def Q assms(11) copy_chunk_def read_body_def rx4(4))
  qed
  then have "read_packet r0 ?h q0 = None"
    by (simp add: read_packet_def r1(1) array_get_def packetSize_def Let_def gi pv r2(1) r3_def [symmetric] al)
  moreover have "malloc r ?z = (?h, r0)" by (simp add: r0_def malloc_def)
  ultimately show ?thesis by (simp add: RTMP_ReadPacket_def RTMP_MAX_HEADER_SIZE_def)
qed

end
