(* ===== verification/Rtmp_Commands.thy ===== *)
theory Rtmp_Commands
  imports Rtmp_Read
begin

text \<open>
  The commands a client sends (rtmp.c).  Each is built in a local buffer and sent with \<open>RTMP_SendPacket\<close>; the result is FALSE
  if an argument does not fit or the packet cannot be sent.  Local buffers start as zeroes.
\<close>

section \<open>Building commands\<close>

text \<open>An encoder is applied unless an earlier one had no room; the inner \<open>None\<close> is the return of FALSE.\<close>

definition encode_if :: "bool \<Rightarrow> (bytes \<Rightarrow> int \<Rightarrow> int \<Rightarrow> out) \<Rightarrow> (int \<times> bytes) option \<Rightarrow> (int \<times> bytes) option ub" where
  "encode_if b f e =
     (case e of None \<Rightarrow> Some None
      | Some (enc, pbuf) \<Rightarrow>
          if b then do { (enc, pbuf) \<leftarrow> f pbuf enc (int (length pbuf)); Some (map_option (\<lambda>enc. (enc, pbuf)) enc) } else Some e)"

definition finish :: "RTMP \<Rightarrow> RTMPPacket \<Rightarrow> bool \<Rightarrow> (int \<times> bytes) option \<Rightarrow> (bool \<times> RTMP) ub" where
  "finish r packet queue e =
     (case e of None \<Rightarrow> Some (False, r)
      | Some (enc, pbuf) \<Rightarrow> send_local RTMP_Close r packet pbuf (enc - RTMP_MAX_HEADER_SIZE) queue)"

definition end_object :: "(int \<times> bytes) option \<Rightarrow> (int \<times> bytes) option ub" where
  \<comment> \<open>the end of an object, 0x00 0x00 0x09\<close>
  "end_object e =
     (case e of None \<Rightarrow> Some None
      | Some (enc, pbuf) \<Rightarrow>
          if enc + 3 \<ge> int (length pbuf) then Some None
          else do { pbuf \<leftarrow> store pbuf enc [0, 0, 9]; Some (Some (enc + 3, pbuf)) })"

section \<open>Invocations\<close>

fun encode_extras :: "AMFObject \<Rightarrow> (int \<times> bytes) option \<Rightarrow> (int \<times> bytes) option ub" where
  "encode_extras [] e = Some e"
| "encode_extras (p # ps) e = do { e \<leftarrow> encode_if True (AMFProp_Encode p) e; encode_extras ps e }"

definition connect_object :: "RTMP \<Rightarrow> int \<times> bytes \<Rightarrow> (int \<times> bytes) option ub" where
  \<comment> \<open>the members of the command object\<close>
  "connect_object r e = do {
     let L = Link r;
     let w = (lnk_protocol L AND RTMP_FEATURE_WRITE \<noteq> 0);
     e \<leftarrow> encode_if True (\<lambda>b i n. AMF_EncodeNamedString b i n (AVC ''app'') (lnk_app L)) (Some e);
     e \<leftarrow> encode_if w (\<lambda>b i n. AMF_EncodeNamedString b i n (AVC ''type'') (AVC ''nonprivate'')) e;
     e \<leftarrow> encode_if (av_len (lnk_flashVer L) \<noteq> 0) (\<lambda>b i n. AMF_EncodeNamedString b i n (AVC ''flashVer'') (lnk_flashVer L)) e;
     e \<leftarrow> encode_if (av_len (lnk_swfUrl L) \<noteq> 0) (\<lambda>b i n. AMF_EncodeNamedString b i n (AVC ''swfUrl'') (lnk_swfUrl L)) e;
     e \<leftarrow> encode_if (av_len (lnk_tcUrl L) \<noteq> 0) (\<lambda>b i n. AMF_EncodeNamedString b i n (AVC ''tcUrl'') (lnk_tcUrl L)) e;
     e \<leftarrow> encode_if (\<not> w) (\<lambda>b i n. AMF_EncodeNamedBoolean b i n (AVC ''fpad'') 0) e;
     e \<leftarrow> encode_if (\<not> w) (\<lambda>b i n. AMF_EncodeNamedNumber b i n (AVC ''capabilities'') (double_of_int 15)) e;
     e \<leftarrow> encode_if (\<not> w) (\<lambda>b i n. AMF_EncodeNamedNumber b i n (AVC ''audioCodecs'') (m_fAudioCodecs r)) e;
     e \<leftarrow> encode_if (\<not> w) (\<lambda>b i n. AMF_EncodeNamedNumber b i n (AVC ''videoCodecs'') (m_fVideoCodecs r)) e;
     e \<leftarrow> encode_if (\<not> w) (\<lambda>b i n. AMF_EncodeNamedNumber b i n (AVC ''videoFunction'') (double_of_int 1)) e;
     e \<leftarrow> encode_if (\<not> w \<and> av_len (lnk_pageUrl L) \<noteq> 0) (\<lambda>b i n. AMF_EncodeNamedString b i n (AVC ''pageUrl'') (lnk_pageUrl L)) e;
     encode_if (double_nonzero (m_fEncoding r) \<or> m_bSendEncoding r) (\<lambda>b i n. AMF_EncodeNamedNumber b i n (AVC ''objectEncoding'') (m_fEncoding r)) e
   }"

definition SendConnectPacket :: "RTMP \<Rightarrow> RTMPPacket option \<Rightarrow> (bool \<times> RTMP \<times> RTMPPacket option) ub" where
  "SendConnectPacket r cp =
     (case cp of Some cp \<Rightarrow> do { (ok, r, cp) \<leftarrow> RTMP_SendPacket RTMP_Close r cp True; Some (ok, r, Some cp) }
      | None \<Rightarrow> do {
          let pbuf = pbuf_new 4096;
          (n, r) \<leftarrow> next_invoke r;
          let L = Link r;
          (enc, pbuf) \<leftarrow> AMF_EncodeString pbuf RTMP_MAX_HEADER_SIZE 4096 (AVC ''connect'');
          enc \<leftarrow> deref enc;
          (enc, pbuf) \<leftarrow> AMF_EncodeNumber pbuf enc 4096 (double_of_int n);
          enc \<leftarrow> deref enc;
          pbuf \<leftarrow> put_type pbuf enc AMF_OBJECT;
          e \<leftarrow> connect_object r (enc + 1, pbuf);
          e \<leftarrow> end_object e;
          e \<leftarrow> encode_if (av_len (lnk_auth L) \<noteq> 0) (\<lambda>b i n. AMF_EncodeBoolean b i n (lnk_lFlags L AND RTMP_LF_AUTH)) e;
          e \<leftarrow> encode_if (av_len (lnk_auth L) \<noteq> 0) (\<lambda>b i n. AMF_EncodeString b i n (lnk_auth L)) e;
          e \<leftarrow> encode_extras (lnk_extras L) e;
          (ok, r) \<leftarrow> finish r (local_packet 3 0 0x14 0 0) True e;
          Some (ok, r, None)
        })"

definition RTMP_SendCreateStream :: "RTMP \<Rightarrow> (bool \<times> RTMP) ub" where
  "RTMP_SendCreateStream r = do {
     (n, r) \<leftarrow> next_invoke r;
     e \<leftarrow> begin_invoke (pbuf_new 256) (AVC ''createStream'') (double_of_int n);
     finish r (local_packet 3 1 0x14 0 0) True (Some e)
   }"

definition SendFCSubscribe :: "RTMP \<Rightarrow> AVal \<Rightarrow> (bool \<times> RTMP) ub" where
  "SendFCSubscribe r subscribepath = send_string_command RTMP_Close r 512 ''FCSubscribe'' subscribepath True"

definition SendUsherToken :: "RTMP \<Rightarrow> AVal \<Rightarrow> (bool \<times> RTMP) ub" where
  "SendUsherToken r usherToken = send_string_command RTMP_Close r 1024 ''NetStream.Authenticate.UsherToken'' usherToken False"

definition SendReleaseStream :: "RTMP \<Rightarrow> (bool \<times> RTMP) ub" where
  "SendReleaseStream r = send_string_command RTMP_Close r 1024 ''releaseStream'' (lnk_playpath (Link r)) False"

definition SendFCPublish :: "RTMP \<Rightarrow> (bool \<times> RTMP) ub" where
  "SendFCPublish r = send_string_command RTMP_Close r 1024 ''FCPublish'' (lnk_playpath (Link r)) False"

definition SendPublish :: "RTMP \<Rightarrow> (bool \<times> RTMP) ub" where
  "SendPublish r = do {
     (n, r) \<leftarrow> next_invoke r;
     e \<leftarrow> begin_invoke (pbuf_new 1024) (AVC ''publish'') (double_of_int n);
     e \<leftarrow> encode_if True (\<lambda>b i n. AMF_EncodeString b i n (lnk_playpath (Link r))) (Some e);
     e \<leftarrow> encode_if True (\<lambda>b i n. AMF_EncodeString b i n (AVC ''live'')) e;
     finish r (local_packet 4 0 0x14 0 (m_stream_id r)) True e
   }"

text \<open>In commands whose buffer is always large enough the source does not test the pointer: \<open>must\<close> is the use of it.\<close>

definition must :: "(int option \<times> bytes) \<Rightarrow> (int \<times> bytes) ub" where
  "must e = (case e of (enc, pbuf) \<Rightarrow> do { enc \<leftarrow> deref enc; Some (enc, pbuf) })"

definition RTMP_SendPause :: "RTMP \<Rightarrow> bool \<Rightarrow> int \<Rightarrow> (bool \<times> RTMP) ub" where
  "RTMP_SendPause r DoPause iTime = do {
     (n, r) \<leftarrow> next_invoke r;
     (enc, pbuf) \<leftarrow> begin_invoke (pbuf_new 256) (AVC ''pause'') (double_of_int n);
     (enc, pbuf) \<leftarrow> AMF_EncodeBoolean pbuf enc 256 (of_bool DoPause) \<bind> must;
     e \<leftarrow> AMF_EncodeNumber pbuf enc 256 (double_of_int iTime) \<bind> must;
     finish r (local_packet 8 1 0x14 0 0) True (Some e)
   }"

definition media_stamp :: "RTMP \<Rightarrow> 32 word ub" where
  \<comment> \<open>the time stamp of the media channel\<close>
  "media_stamp r =
     (if m_mediaChannel r < int (length (m_channelTimestamp r)) then array_get (m_channelTimestamp r) (m_mediaChannel r) else Some 0)"

definition RTMP_Pause :: "RTMP \<Rightarrow> bool \<Rightarrow> (bool \<times> RTMP) ub" where
  "RTMP_Pause r DoPause = do {
     r \<leftarrow> (if DoPause then do { t \<leftarrow> media_stamp r; Some (r\<lparr>m_pauseStamp := t\<rparr>) } else Some r);
     RTMP_SendPause r DoPause (int32 (uint (m_pauseStamp r)))
   }"

definition RTMP_SendSeek :: "RTMP \<Rightarrow> int \<Rightarrow> (bool \<times> RTMP) ub" where
  "RTMP_SendSeek r iTime = do {
     (n, r) \<leftarrow> next_invoke r;
     (enc, pbuf) \<leftarrow> begin_invoke (pbuf_new 256) (AVC ''seek'') (double_of_int n);
     e \<leftarrow> AMF_EncodeNumber pbuf enc 256 (double_of_int iTime) \<bind> must;
     let r = r\<lparr>m_read := (m_read r)\<lparr>rd_flags := rd_flags (m_read r) OR RTMP_READ_SEEKING, rd_nResumeTS := 0\<rparr>\<rparr>;
     finish r (local_packet 8 1 0x14 0 0) True (Some e)
   }"

definition SendCheckBW :: "RTMP \<Rightarrow> (bool \<times> RTMP) ub" where
  "SendCheckBW r = do {
     (n, r) \<leftarrow> next_invoke r;
     e \<leftarrow> begin_invoke (pbuf_new 256) (AVC ''_checkbw'') (double_of_int n);
     finish r (local_packet 3 0 0x14 0 0) False (Some e)
   }"

definition bw_stamp :: "RTMP \<Rightarrow> 32 word ub" where
  \<comment> \<open>\<open>0x16 * r->m_nBWCheckCounter\<close>\<close>
  "bw_stamp r = do { t \<leftarrow> add_int (0x16 * m_nBWCheckCounter r) 0; Some (word_of_int t) }"

definition SendCheckBWResult :: "RTMP \<Rightarrow> 64 word \<Rightarrow> (bool \<times> RTMP) ub" where
  "SendCheckBWResult r txn = do {
     t \<leftarrow> bw_stamp r;
     (enc, pbuf) \<leftarrow> begin_invoke (pbuf_new 256) (AVC ''_result'') txn;
     let k = m_nBWCheckCounter r;
     k' \<leftarrow> incr k;
     let r = r\<lparr>m_nBWCheckCounter := k'\<rparr>;
     e \<leftarrow> AMF_EncodeNumber pbuf enc 256 (double_of_int k) \<bind> must;
     finish r (local_packet 3 1 0x14 t 0) False (Some e)
   }"

definition SendPong :: "RTMP \<Rightarrow> 64 word \<Rightarrow> (bool \<times> RTMP) ub" where
  "SendPong r txn = do {
     t \<leftarrow> bw_stamp r;
     e \<leftarrow> begin_invoke (pbuf_new 256) (AVC ''pong'') txn;
     finish r (local_packet 3 1 0x14 t 0) False (Some e)
   }"

definition SendPlay :: "RTMP \<Rightarrow> (bool \<times> RTMP) ub" where
  "SendPlay r = do {
     let L = Link r;
     (n, r) \<leftarrow> next_invoke r;
     e \<leftarrow> begin_invoke (pbuf_new 1024) (AVC ''play'') (double_of_int n);
     e \<leftarrow> encode_if True (\<lambda>b i n. AMF_EncodeString b i n (lnk_playpath L)) (Some e);
     let start = (if lnk_lFlags L AND RTMP_LF_LIVE \<noteq> 0 then - 1000 else if lnk_seekTime L > 0 then lnk_seekTime L else 0);
     e \<leftarrow> encode_if True (\<lambda>b i n. AMF_EncodeNumber b i n (double_of_int start)) e;
     e \<leftarrow> encode_if (lnk_stopTime L \<noteq> 0)
            (\<lambda>b i n. do { d \<leftarrow> add_int (lnk_stopTime L) (- lnk_seekTime L); AMF_EncodeNumber b i n (double_of_int d) }) e;
     finish r (local_packet 8 0 0x14 0 (m_stream_id r)) True e
   }"

definition SendPlaylist :: "RTMP \<Rightarrow> (bool \<times> RTMP) ub" where
  "SendPlaylist r = do {
     (enc, pbuf) \<leftarrow> begin_invoke (pbuf_new 1024) (AVC ''set_playlist'') 0;
     pbuf \<leftarrow> store pbuf enc [8, 0, 0, 0, 3];
     e \<leftarrow> encode_if True (\<lambda>b i n. AMF_EncodeNamedString b i n (AVC ''0'') (lnk_playpath (Link r))) (Some (enc + 5, pbuf));
     e \<leftarrow> end_object e;
     finish r (local_packet 8 0 0x14 0 (m_stream_id r)) True e
   }"

definition SendSecureTokenResponse :: "RTMP \<Rightarrow> AVal \<Rightarrow> (bool \<times> RTMP) ub" where
  "SendSecureTokenResponse r resp = do {
     e \<leftarrow> begin_invoke (pbuf_new 1024) (AVC ''secureTokenResponse'') 0;
     e \<leftarrow> encode_if True (\<lambda>b i n. AMF_EncodeString b i n resp) (Some e);
     finish r (local_packet 3 1 0x14 0 0) False e
   }"

section \<open>Control messages\<close>

definition RTMP_SendServerBW :: "RTMP \<Rightarrow> (bool \<times> RTMP) ub" where
  "RTMP_SendServerBW r = do {
     (_, pbuf) \<leftarrow> AMF_EncodeInt32 (pbuf_new 256) RTMP_MAX_HEADER_SIZE 256 (m_nServerBW r);
     send_local RTMP_Close r (local_packet 2 0 5 0 0) pbuf 4 False
   }"

definition RTMP_SendClientBW :: "RTMP \<Rightarrow> (bool \<times> RTMP) ub" where
  "RTMP_SendClientBW r = do {
     (_, pbuf) \<leftarrow> AMF_EncodeInt32 (pbuf_new 256) RTMP_MAX_HEADER_SIZE 256 (m_nClientBW r);
     pbuf \<leftarrow> store pbuf (RTMP_MAX_HEADER_SIZE + 4) [m_nClientBW2 r];
     send_local RTMP_Close r (local_packet 2 0 6 0 0) pbuf 5 False
   }"

definition RTMP_SendCtrl :: "RTMP \<Rightarrow> int \<Rightarrow> 32 word \<Rightarrow> 32 word \<Rightarrow> (bool \<times> RTMP) ub" where
  "RTMP_SendCtrl r nType nObject nTime = do {
     let nSize = (if nType = 3 then 10 else if nType = 0x1A then 3 else if nType = 0x1B then 44 else 6);
     (buf, pbuf) \<leftarrow> AMF_EncodeInt16 (pbuf_new 256) RTMP_MAX_HEADER_SIZE 256 nType \<bind> must;
     pbuf \<leftarrow>
       (if nType = 0x1B then Some pbuf
        else if nType = 0x1A then store pbuf buf [ucast nObject]
        else do {
          (buf, pbuf) \<leftarrow> AMF_EncodeInt32 pbuf buf 256 (int32 (uint nObject)) \<bind> must;
          if nSize > 6 then do { (_, pbuf) \<leftarrow> AMF_EncodeInt32 pbuf buf 256 (int32 (uint nTime)); Some pbuf } else Some pbuf
        });
     send_local RTMP_Close r (local_packet 2 1 4 0 0) pbuf nSize False
   }"

section \<open>Streams\<close>

definition RTMP_UpdateBufferMS :: "RTMP \<Rightarrow> RTMP ub" where
  "RTMP_UpdateBufferMS r = do { (_, r) \<leftarrow> RTMP_SendCtrl r 3 (word_of_int (m_stream_id r)) (word_of_int (m_nBufferMS r)); Some r }"

definition RTMP_ToggleStream :: "RTMP \<Rightarrow> (bool \<times> RTMP) ub" where
  "RTMP_ToggleStream r = do {
     (ok, r) \<leftarrow>
       (if m_pausing r = 0 then do {
          let r = (if RTMP_IsTimedout r \<and> rd_status (m_read r) = - 1 then r\<lparr>m_read := (m_read r)\<lparr>rd_status := 0\<rparr>\<rparr> else r);
          (res, r) \<leftarrow> RTMP_SendPause r True (int32 (uint (m_pauseStamp r)));
          Some (res, if res then r\<lparr>m_pausing := 1\<rparr> else r)
        } else Some (True, r));
     if \<not> ok then Some (False, r)
     else do {
       (res, r) \<leftarrow> RTMP_SendPause r False (int32 (uint (m_pauseStamp r)));
       Some (res, r\<lparr>m_pausing := 3\<rparr>)
     }
   }"

definition RTMP_DeleteStream :: "RTMP \<Rightarrow> RTMP ub" where
  "RTMP_DeleteStream r =
     (if m_stream_id r < 0 then Some r
      else do {
        (_, r) \<leftarrow> SendDeleteStream RTMP_Close (r\<lparr>m_bPlaying := False\<rparr>) (double_of_int (m_stream_id r));
        Some (r\<lparr>m_stream_id := - 1\<rparr>)
      })"

end
