(* ===== verification/Rtmp_Tea.thy ===== *)
theory Rtmp_Tea
  imports Rtmp_Amf
begin

text \<open>
  \<open>DecodeTEA\<close> (rtmp.c), which a client uses to answer a token of the server: the corrected block cipher XXTEA.
\<close>

section \<open>Packing\<close>

fun pack_key :: "bytes \<Rightarrow> nat \<Rightarrow> 32 word \<Rightarrow> 32 word list" where
  \<comment> \<open>four bytes each, least significant first; \<open>n\<close> and \<open>u\<close> are the bytes and the value of the current word\<close>
  "pack_key [] n u = (if u \<noteq> 0 then [u] else [])"
| "pack_key (c # cs) n u =
     (let u = u OR push_bit (n * 8) (ucast c) in if n = 3 then u # pack_key cs 0 0 else pack_key cs (Suc n) u)"

definition tea_key :: "AVal \<Rightarrow> 32 word list ub" where
  "tea_key key = do {
     let p = (if av_len key > 16 then 16 else av_len key);
     cs \<leftarrow> (if p > 0 then do { (buf, i) \<leftarrow> deref (av_val key); slice buf i p } else Some []);
     let v = pack_key cs 0 0;
     Some (v @ replicate (4 - length v) 0)
   }"

definition HEX2BIN :: "byte \<Rightarrow> 32 word" where
  "HEX2BIN a = (let a = ucast a in if a AND 0x40 \<noteq> 0 then (a AND 0xf) + 9 else a AND 0xf)"

definition hex_word :: "bytes \<Rightarrow> 32 word" where
  "hex_word c =
     (let b = (\<lambda>j. push_bit 4 (HEX2BIN (c ! j)) + HEX2BIN (c ! Suc j))
      in b 0 OR push_bit 8 (b 2) OR push_bit 16 (b 4) OR push_bit 24 (b 6))"

fun hex_words :: "nat \<Rightarrow> bytes \<Rightarrow> int \<Rightarrow> 32 word list ub" where
  "hex_words 0 buf i = Some []"
| "hex_words (Suc n) buf i = do { c \<leftarrow> slice buf i 8; ws \<leftarrow> hex_words n buf (i + 8); Some (hex_word c # ws) }"

definition word_bytes :: "32 word list \<Rightarrow> bytes" where
  \<comment> \<open>the words in memory\<close>
  "word_bytes ws = concat (map (\<lambda>w. map (\<lambda>j. ucast (drop_bit (8 * j) w)) [0..<4]) ws)"

section \<open>Rounds\<close>

definition DELTA :: "32 word" where
  "DELTA = 0x9e3779b9"

definition MX :: "32 word list \<Rightarrow> 32 word \<Rightarrow> 32 word \<Rightarrow> 32 word \<Rightarrow> 32 word \<Rightarrow> nat \<Rightarrow> 32 word" where
  "MX k z y s e p =
     ((drop_bit 5 z XOR push_bit 2 y) + (drop_bit 3 y XOR push_bit 4 z))
       XOR ((s XOR y) + (k ! unat ((word_of_nat p AND 3) XOR e) XOR z))"

text \<open>The inner loop, from the last word down to the second, and the round.  \<open>y\<close> is the word that was changed last.\<close>

primrec tea_inner :: "32 word list \<Rightarrow> 32 word \<Rightarrow> 32 word \<Rightarrow> nat \<Rightarrow> 32 word \<Rightarrow> 32 word list \<Rightarrow> 32 word \<times> 32 word list" where
  "tea_inner k s e 0 y v = (y, v)"
| "tea_inner k s e (Suc p) y v =
     (let z = v ! p; w = v ! Suc p - MX k z y s e (Suc p) in tea_inner k s e p w (v[Suc p := w]))"

definition tea_round :: "32 word list \<Rightarrow> 32 word \<Rightarrow> 32 word \<Rightarrow> 32 word list \<Rightarrow> 32 word \<times> 32 word list" where
  "tea_round k s y v =
     (let n = length v; e = drop_bit 2 s AND 3;
          (y, v) = tea_inner k s e (n - 1) y v;
          z = v ! (n - 1); w = v ! 0 - MX k z y s e 0
      in (w, v[0 := w]))"

text \<open>The loop runs until \<open>sum\<close> (\<open>s\<close>) is zero, which takes as many rounds as it is multiples of \<open>DELTA\<close>.\<close>

primrec tea_loop :: "nat \<Rightarrow> 32 word list \<Rightarrow> 32 word \<Rightarrow> 32 word \<Rightarrow> 32 word list \<Rightarrow> 32 word list ub" where
  "tea_loop 0 k s y v = (if s = 0 then Some v else None)"
| "tea_loop (Suc m) k s y v =
     (if s = 0 then Some v else let (y, v) = tea_round k s y v in tea_loop m k (s - DELTA) y v)"

definition tea_decode :: "32 word list \<Rightarrow> 32 word list \<Rightarrow> 32 word list ub" where
  \<comment> \<open>undefined if there are no words: \<open>v[n - 1]\<close> and \<open>52 / n\<close>\<close>
  "tea_decode k v =
     (if v = [] then UB
      else let q = 6 + 52 div length v in tea_loop q k (of_nat q * DELTA) (v ! 0) v)"

text \<open>The text is replaced in place by half as many bytes.\<close>

definition DecodeTEA :: "AVal \<Rightarrow> AVal \<Rightarrow> AVal ub" where
  "DecodeTEA key text = do {
     k \<leftarrow> tea_key key;
     let n = nat (c_div (av_len text + 7) 8);
     (buf, i) \<leftarrow> (case av_val text of Some bi \<Rightarrow> Some bi | None \<Rightarrow> if n = 0 then Some ([], 0) else UB);
     v \<leftarrow> hex_words n buf i;
     v \<leftarrow> tea_decode k v;
     let len = c_div (av_len text) 2;
     buf \<leftarrow> store buf i (take (nat len) (word_bytes v));
     Some (text\<lparr>av_val := Some (buf, i), av_len := len\<rparr>)
   }"

section \<open>The cipher\<close>

text \<open>Encryption as the cipher is published: the words are changed from the first to the last, and the sum counts up.\<close>

primrec enc_inner :: "32 word list \<Rightarrow> 32 word \<Rightarrow> 32 word \<Rightarrow> nat \<Rightarrow> 32 word list \<Rightarrow> 32 word list" where
  \<comment> \<open>the first \<open>p\<close> words, each with its neighbours in a circle\<close>
  "enc_inner k s e 0 v = v"
| "enc_inner k s e (Suc p) v =
     (let v = enc_inner k s e p v; n = length v; z = v ! ((p + n - 1) mod n); y = v ! (Suc p mod n)
      in v[p := v ! p + MX k z y s e p])"

definition enc_round :: "32 word list \<Rightarrow> 32 word \<Rightarrow> 32 word list \<Rightarrow> 32 word list" where
  "enc_round k s v = enc_inner k s (drop_bit 2 s AND 3) (length v) v"

primrec enc_rounds :: "nat \<Rightarrow> 32 word list \<Rightarrow> 32 word list \<Rightarrow> 32 word list" where
  "enc_rounds 0 k v = v"
| "enc_rounds (Suc m) k v = enc_round k (of_nat (Suc m) * DELTA) (enc_rounds m k v)"

definition xxtea_encrypt :: "32 word list \<Rightarrow> 32 word list \<Rightarrow> 32 word list" where
  "xxtea_encrypt k v = enc_rounds (6 + 52 div length v) k v"

lemma length_enc [simp]: "length (enc_inner k s e p v) = length v" "length (enc_round k s v) = length v" "length (enc_rounds m k v) = length v"
proof -
  show i: "length (enc_inner k s e p v) = length v" for k s e p v by (induction p) (simp_all add: Let_def)
  then show r: "length (enc_round k s v) = length v" for k s v by (simp add: enc_round_def)
  show "length (enc_rounds m k v) = length v" by (induction m) (simp_all add: r)
qed

lemma enc_inner_nth: "p \<le> j \<Longrightarrow> enc_inner k s e p v ! j = v ! j"
  by (induction p) (simp_all add: Let_def)

text \<open>A step changes one word and reads its two neighbours, which are other words if there are two or more: subtracting undoes it.\<close>

lemma neighbours:
  assumes "2 \<le> n" "p < n"
  shows "(p + n - 1) mod n \<noteq> p" "Suc p mod n \<noteq> p" "(p + n - 1) mod n < n" "Suc p mod n < n"
  using assms by (auto simp: mod_if Suc_lessI)

lemma step_undone:
  assumes "2 \<le> length v" "p < length v" "u = enc_inner k s e p v" "w = enc_inner k s e (Suc p) v"
  shows "w[p := w ! p - MX k (w ! ((p + length v - 1) mod length v)) (w ! (Suc p mod length v)) s e p] = u"
    "w ! p - MX k (w ! ((p + length v - 1) mod length v)) (w ! (Suc p mod length v)) s e p = u ! p"
proof -
  let ?n = "length v"
  note nb = neighbours [OF assms(1,2)]
  have l: "length u = ?n" by (simp add: assms(3))
  have w: "w = u[p := u ! p + MX k (u ! ((p + ?n - 1) mod ?n)) (u ! (Suc p mod ?n)) s e p]"
    using l by (simp add: assms(3,4) Let_def)
  have "w ! ((p + ?n - 1) mod ?n) = u ! ((p + ?n - 1) mod ?n)" "w ! (Suc p mod ?n) = u ! (Suc p mod ?n)"
    using nb by (simp_all add: w)
  then show e: "w ! p - MX k (w ! ((p + ?n - 1) mod ?n)) (w ! (Suc p mod ?n)) s e p = u ! p"
    using assms(2) l by (simp add: w)
  show "w[p := w ! p - MX k (w ! ((p + ?n - 1) mod ?n)) (w ! (Suc p mod ?n)) s e p] = u"
    unfolding e by (simp add: w)
qed

lemma tea_inner_undoes:
  assumes "2 \<le> length v" "p < length v" "w = enc_inner k s e (Suc p) v" "y = w ! (Suc p mod length v)"
  shows "tea_inner k s e p y w = (enc_inner k s e 1 v ! 1, enc_inner k s e 1 v)"
  using assms(2-4)
proof (induction p arbitrary: y w)
  case 0
  then show ?case using assms(1) by simp
next
  case (Suc p)
  have e: "(Suc p + length v - 1) mod length v = p" using Suc.prems(1) assms(1) by (simp add: mod_if)
  note un = step_undone [OF assms(1) Suc.prems(1) refl Suc.prems(2), unfolded e Suc.prems(3) [symmetric]]
  have y: "enc_inner k s e (Suc p) v ! Suc p = enc_inner k s e (Suc p) v ! (Suc p mod length v)" using Suc.prems(1) by simp
  have "tea_inner k s e (Suc p) y w = tea_inner k s e p (enc_inner k s e (Suc p) v ! Suc p) (enc_inner k s e (Suc p) v)"
    using un by (simp add: Let_def)
  also have "\<dots> = (enc_inner k s e 1 v ! 1, enc_inner k s e 1 v)"
    by (rule Suc.IH [OF _ refl y]) (use Suc.prems(1) in simp)
  finally show ?case .
qed

lemma tea_round_undoes:
  assumes "2 \<le> length v" "w = enc_round k s v"
  shows "tea_round k s (w ! 0) w = (v ! 0, v)"
proof -
  let ?n = "length v" and ?e = "drop_bit 2 s AND 3"
  have n: "Suc (?n - 1) = ?n" and ne: "v \<noteq> []" using assms(1) by auto
  have w: "w = enc_inner k s ?e (Suc (?n - 1)) v" "length w = ?n" by (simp_all only: assms(2) enc_round_def n length_enc)
  have y: "w ! 0 = w ! (Suc (?n - 1) mod ?n)" by (simp only: n mod_self)
  have "tea_inner k s ?e (?n - 1) (w ! 0) w = (enc_inner k s ?e 1 v ! 1, enc_inner k s ?e 1 v)"
    by (rule tea_inner_undoes [OF assms(1) _ w(1) y]) (use assms(1) in simp)
  moreover have "(0 + ?n - 1) mod ?n = ?n - 1" "Suc 0 mod ?n = 1" using assms(1) by (simp_all add: mod_if)
  ultimately show ?thesis
    using step_undone [OF assms(1), of 0 v k s ?e "enc_inner k s ?e 1 v"] assms(1) w(2) ne by (simp add: tea_round_def Let_def)
qed

lemma sum_nonzero: "0 < m \<Longrightarrow> m \<le> 32 \<Longrightarrow> of_nat m * DELTA \<noteq> 0"
proof -
  assume m: "0 < m" "m \<le> 32"
  have "list_all (\<lambda>m. of_nat m * DELTA \<noteq> 0) [1..<33]" by code_simp
  then show ?thesis using m by (auto simp: list_all_iff)
qed

lemma tea_loop_undoes:
  assumes "2 \<le> length v" "m \<le> 32" "w = enc_rounds m k v"
  shows "tea_loop m k (of_nat m * DELTA) (w ! 0) w = Some v"
  using assms(2,3)
proof (induction m arbitrary: w)
  case (Suc m)
  let ?u = "enc_rounds m k v"
  have "tea_round k (of_nat (Suc m) * DELTA) (w ! 0) w = (?u ! 0, ?u)"
    by (rule tea_round_undoes) (use assms(1) Suc.prems(2) in simp_all)
  moreover have "of_nat (Suc m) * DELTA - DELTA = of_nat m * DELTA" by (simp add: algebra_simps)
  moreover have "of_nat (Suc m) * DELTA \<noteq> 0" by (rule sum_nonzero) (use Suc.prems(1) in simp_all)
  ultimately show ?case using Suc.IH [OF _ refl] Suc.prems(1) by simp
qed simp

lemma tea_decode_undoes: "2 \<le> length v \<Longrightarrow> tea_decode k (xxtea_encrypt k v) = Some v"
proof -
  assume v: "2 \<le> length v"
  have "52 div length v \<le> 52 div 2" using v by (intro div_le_mono2) simp_all
  then have q: "6 + 52 div length v \<le> 32" by simp
  have l: "length (xxtea_encrypt k v) = length v" by (simp add: xxtea_encrypt_def)
  then have "xxtea_encrypt k v \<noteq> []" using v by auto
  then show ?thesis using tea_loop_undoes [OF v q refl, of k] by (simp only: tea_decode_def xxtea_encrypt_def Let_def length_enc if_False)
qed

section \<open>Hexadecimal text\<close>

definition hex_digit :: "nat \<Rightarrow> byte" where
  "hex_digit d = (if d < 10 then of_nat (48 + d) else of_nat (87 + d))"

definition hex_byte :: "byte \<Rightarrow> bytes" where
  "hex_byte b = [hex_digit (unat b div 16), hex_digit (unat b mod 16)]"

definition to_hex :: "bytes \<Rightarrow> bytes" where
  "to_hex bs = concat (map hex_byte bs)"

lemma hex_digit_read: "d < 16 \<Longrightarrow> HEX2BIN (hex_digit d) = of_nat d"
proof -
  assume d: "d < 16"
  have "list_all (\<lambda>d. HEX2BIN (hex_digit d) = of_nat d) [0..<16]" by code_simp
  then show ?thesis using d by (auto simp: list_all_iff)
qed

lemma hex_byte_read: "push_bit 4 (HEX2BIN (hex_byte b ! 0)) + HEX2BIN (hex_byte b ! 1) = ucast b"
proof -
  have "unat b < 256" using unsigned_less [of b, where ?'a = nat] by simp
  then have "unat b div 16 < 16" "unat b mod 16 < 16" by auto
  then have "push_bit 4 (HEX2BIN (hex_byte b ! 0)) + HEX2BIN (hex_byte b ! 1) = push_bit 4 (of_nat (unat b div 16)) + of_nat (unat b mod 16)"
    by (simp add: hex_byte_def hex_digit_read)
  also have "\<dots> = of_nat (16 * (unat b div 16) + unat b mod 16)"
    by (simp only: push_bit_eq_mult of_nat_add of_nat_mult) simp
  also have "\<dots> = ucast b" by simp
  finally show ?thesis .
qed

lemma length_hex_byte [simp]: "length (hex_byte b) = 2"
  by (simp add: hex_byte_def)

lemma word_of_bytes:
  "ucast (ucast w :: byte) OR push_bit 8 (ucast (ucast (drop_bit 8 w) :: byte)) OR push_bit 16 (ucast (ucast (drop_bit 16 w) :: byte))
     OR push_bit 24 (ucast (ucast (drop_bit 24 w) :: byte)) = (w :: 32 word)" (is "?l = w")
proof (rule bit_word_eqI)
  fix j assume "j < LENGTH(32)"
  then have j: "j < 32" by simp
  then consider "j < 8" | "8 \<le> j" "j < 16" | "16 \<le> j" "j < 24" | "24 \<le> j" by linarith
  then show "bit ?l j = bit w j"
    by cases (use j in \<open>auto simp: bit_simps\<close>)
qed

lemma hex_word_read: "hex_word (to_hex (word_bytes [w])) = w"
proof -
  have four: "[0..<4] = [0, 1, 2, 3 :: nat]" by (simp add: upt_rec)
  let ?b = "\<lambda>j. hex_byte (ucast (drop_bit (8 * j) w))"
  have c: "to_hex (word_bytes [w]) = ?b 0 @ ?b 1 @ ?b 2 @ ?b 3" by (simp add: to_hex_def word_bytes_def four)
  have n: "to_hex (word_bytes [w]) ! (2 * j + i) = ?b j ! i" if "j < 4" "i < 2" for i j
  proof -
    have "j = 0 \<or> j = 1 \<or> j = 2 \<or> j = 3" "i = 0 \<or> i = 1" using that by auto
    then show ?thesis unfolding c by (auto simp: nth_append hex_byte_def)
  qed
  have "push_bit 4 (HEX2BIN (to_hex (word_bytes [w]) ! (2 * j))) + HEX2BIN (to_hex (word_bytes [w]) ! Suc (2 * j)) = ucast (ucast (drop_bit (8 * j) w) :: byte)" if "j < 4" for j
    using n [OF that, of 0] n [OF that, of 1] hex_byte_read [of "ucast (drop_bit (8 * j) w)"] by simp
  from this [of 0] this [of 1] this [of 2] this [of 3] show ?thesis using word_of_bytes [of w] by (simp add: hex_word_def Let_def)
qed

lemma length_to_hex [simp]: "length (to_hex bs) = 2 * length bs"
  by (induction bs) (simp_all add: to_hex_def)

lemma length_word_bytes [simp]: "length (word_bytes ws) = 4 * length ws"
  by (induction ws) (simp_all add: word_bytes_def)

lemma to_hex_Cons: "to_hex (word_bytes (w # ws)) = to_hex (word_bytes [w]) @ to_hex (word_bytes ws)"
  by (simp add: to_hex_def word_bytes_def)

lemma hex_words_read:
  "hex_words (length ws) (pre @ to_hex (word_bytes ws) @ rest) (int (length pre)) = Some ws"
proof (induction ws arbitrary: pre)
  case (Cons w ws)
  have s: "slice (pre @ to_hex (word_bytes (w # ws)) @ rest) (int (length pre)) 8 = Some (to_hex (word_bytes [w]))"
    by (simp add: slice_def to_hex_Cons [of w ws])
  have "hex_words (length ws) ((pre @ to_hex (word_bytes [w])) @ to_hex (word_bytes ws) @ rest) (int (length (pre @ to_hex (word_bytes [w])))) = Some ws"
    by (rule Cons.IH)
  then show ?case using s by (simp add: hex_word_read to_hex_Cons [of w ws])
qed simp

section \<open>Theorems\<close>

text \<open>C37. A token that the server encrypted with the key of the client and sent as hexadecimal text is decrypted to what the server started with:
  \<open>DecodeTEA\<close> inverts the published cipher on any number of words from two on, it ends, and it stays inside the text.\<close>

theorem decode_tea_inverts:
  assumes "tea_key key = Some k" "2 \<le> length ws" "text = \<lparr>av_val = Some (pre @ to_hex (word_bytes (xxtea_encrypt k ws)) @ rest, int (length pre)), av_len = 8 * int (length ws)\<rparr>"
  shows "\<exists>text' buf'. DecodeTEA key text = Some text' \<and> aval_bytes text' = Some (word_bytes ws) \<and>
    av_val text' = Some (pre @ buf' @ rest, int (length pre))"
proof -
  let ?v = "xxtea_encrypt k ws" and ?n = "length ws"
  have l: "length ?v = ?n" by (simp add: xxtea_encrypt_def)
  have n: "nat (c_div (8 * int ?n + 7) 8) = ?n" "c_div (8 * int ?n) 2 = 4 * int ?n" by (simp_all add: c_div_def signed_divide_int_def sgn_if)
  have h: "hex_words ?n (pre @ to_hex (word_bytes ?v) @ rest) (int (length pre)) = Some ?v" using hex_words_read [of ?v pre rest] l by simp
  have "0 < length (word_bytes ws)" using assms(2) by (simp only: length_word_bytes)
  then have ne: "word_bytes ws \<noteq> []" by (metis length_greater_0_conv)
  define buf where "buf = word_bytes ws @ drop (4 * ?n) (to_hex (word_bytes ?v))"
  have "store (pre @ to_hex (word_bytes ?v) @ rest) (int (length pre)) (word_bytes ws) = Some (pre @ buf @ rest)"
    using l ne by (simp add: store_def buf_def)
  then have "DecodeTEA key text = Some (text\<lparr>av_val := Some (pre @ buf @ rest, int (length pre)), av_len := 4 * int ?n\<rparr>)"
    using assms(1) h tea_decode_undoes [OF assms(2), of k] n by (simp add: DecodeTEA_def assms(3) nat_mult_distrib)
  moreover have "aval_bytes (text\<lparr>av_val := Some (pre @ buf @ rest, int (length pre)), av_len := 4 * int ?n\<rparr>) = Some (word_bytes ws)"
    using assms(2) ne by (auto simp: aval_bytes_def slice_def buf_def nat_mult_distrib)
  ultimately show ?thesis by (intro exI [of _ "text\<lparr>av_val := Some (pre @ buf @ rest, int (length pre)), av_len := 4 * int ?n\<rparr>"] exI [of _ buf]) simp
qed

definition m_key :: AVal where
  "m_key = \<lparr>av_val = Some ([0x6B, 0x65, 0x79, 0x31, 0x32], 0), av_len = 5\<rparr>"

lemma m_key: "tea_key m_key = Some [0x3179656B, 0x32, 0, 0]"
  by code_simp

theorem decode_tea_inverts_witness:
  "\<exists>text' buf'. DecodeTEA m_key \<lparr>av_val = Some ([34] @ to_hex (word_bytes (xxtea_encrypt [0x3179656B, 0x32, 0, 0] [1, 2])) @ [34], 1), av_len = 16\<rparr> = Some text' \<and>
     aval_bytes text' = Some [1, 0, 0, 0, 2, 0, 0, 0] \<and> av_val text' = Some ([34] @ buf' @ [34], 1)"
proof -
  have "word_bytes [1, 2] = [1, 0, 0, 0, 2, 0, 0, 0]" by code_simp
  then show ?thesis using decode_tea_inverts [OF m_key, of "[1, 2]" _ "[34]" "[34]", OF _ refl] by simp
qed

text \<open>An empty token makes the client divide by zero.\<close>

theorem empty_token_crashes:
  assumes "av_len text = 0"
  shows "DecodeTEA key text = None"
  using assms by (auto simp: DecodeTEA_def c_div_def signed_divide_int_def tea_decode_def bind_eq_None_conv split: option.splits)

theorem empty_token_crashes_witness: "DecodeTEA m_key \<lparr>av_val = None, av_len = 0\<rparr> = None"
  by (rule empty_token_crashes) simp

end
