(* ===== verification/Rtmp_Client.thy ===== *)
theory Rtmp_Client
  imports Rtmp_Commands Rtmp_Tea
begin

text \<open>
  What a client does with the packets it receives (rtmp.c): the handlers, \<open>RTMP_ClientPacket\<close>, and the loops
  \<open>RTMP_GetNextMediaPacket\<close> and \<open>RTMP_ConnectStream\<close>.

  \<open>fuel\<close> and \<open>junk\<close> are the arguments of the AMF decoder: a bound of its recursion, and what an uninitialised property holds.
\<close>

section \<open>Properties\<close>

fun RTMP_FindFirstMatchingProperty :: "AMFObject \<Rightarrow> AVal \<Rightarrow> AMFObjectProperty option ub" where
  "RTMP_FindFirstMatchingProperty [] name = Some None"
| "RTMP_FindFirstMatchingProperty (AMFObjectProperty nm ty vu utc # ps) name = do {
     m \<leftarrow> AVMATCH nm name;
     if m then Some (Some (AMFObjectProperty nm ty vu utc))
     else do {
       r \<leftarrow> (if ty = AMF_OBJECT \<or> ty = AMF_ECMA_ARRAY
            then (case vu of P_object obj \<Rightarrow> RTMP_FindFirstMatchingProperty obj name | P_zero \<Rightarrow> Some None | _ \<Rightarrow> UB) else Some None);
       (case r of Some p \<Rightarrow> Some (Some p) | None \<Rightarrow> RTMP_FindFirstMatchingProperty ps name)
     }
   }"

definition prefix_match :: "AVal \<Rightarrow> AVal \<Rightarrow> bool ub" where
  "prefix_match nm name =
     (if av_len nm > av_len name then do { s1 \<leftarrow> aval_bytes (nm\<lparr>av_len := av_len name\<rparr>); s2 \<leftarrow> aval_bytes name; Some (s1 = s2) } else Some False)"

fun RTMP_FindPrefixProperty :: "AMFObject \<Rightarrow> AVal \<Rightarrow> AMFObjectProperty option ub" where
  "RTMP_FindPrefixProperty [] name = Some None"
| "RTMP_FindPrefixProperty (AMFObjectProperty nm ty vu utc # ps) name = do {
     m \<leftarrow> prefix_match nm name;
     if m then Some (Some (AMFObjectProperty nm ty vu utc))
     else do {
       r \<leftarrow> (if ty = AMF_OBJECT
            then (case vu of P_object obj \<Rightarrow> RTMP_FindPrefixProperty obj name | P_zero \<Rightarrow> Some None | _ \<Rightarrow> UB) else Some None);
       (case r of Some p \<Rightarrow> Some (Some p) | None \<Rightarrow> RTMP_FindPrefixProperty ps name)
     }
   }"

section \<open>Handlers\<close>

text \<open>\<open>packet_bytes\<close> is the block that a body points into.  A packet without a body has a null pointer.\<close>

definition packet_bytes :: "RTMP \<Rightarrow> RTMPPacket \<Rightarrow> (bytes \<times> int) ub" where
  "packet_bytes r packet = do { (b, i) \<leftarrow> deref (m_body packet); blk \<leftarrow> blocks r b; Some (blk, i) }"

definition read_meta :: "RTMP \<Rightarrow> AMFObject \<Rightarrow> RTMP ub" where
  "read_meta r obj = do {
     p \<leftarrow> RTMP_FindFirstMatchingProperty obj (AVC ''duration'');
     r \<leftarrow> (case p of None \<Rightarrow> Some r | Some p \<Rightarrow> do { d \<leftarrow> AMFProp_GetNumber p; Some (r\<lparr>m_fDuration := d\<rparr>) });
     v \<leftarrow> RTMP_FindPrefixProperty obj (AVC ''video'');
     let r = (if v \<noteq> None then r\<lparr>m_read := (m_read r)\<lparr>rd_dataType := rd_dataType (m_read r) OR 1\<rparr>\<rparr> else r);
     a \<leftarrow> RTMP_FindPrefixProperty obj (AVC ''audio'');
     Some (if a \<noteq> None then r\<lparr>m_read := (m_read r)\<lparr>rd_dataType := rd_dataType (m_read r) OR 4\<rparr>\<rparr> else r)
   }"

definition HandleMetadata :: "nat \<Rightarrow> AMFObjectProperty \<Rightarrow> RTMP \<Rightarrow> bytes \<Rightarrow> int \<Rightarrow> int \<Rightarrow> (bool \<times> RTMP) ub" where
  "HandleMetadata fuel junk r blk body len = do {
     (nRes, obj) \<leftarrow> AMF_Decode fuel junk blk body len False;
     if nRes < 0 then Some (False, r)
     else do {
       metastring \<leftarrow> AMF_GetProp obj AV_empty 0 \<bind> AMFProp_GetString;
       m \<leftarrow> AVMATCH metastring (AVC ''onMetaData'');
       if m then do { r \<leftarrow> read_meta r obj; Some (True, r) } else Some (False, r)
     }
   }"

definition HandleChangeChunkSize :: "RTMP \<Rightarrow> RTMPPacket \<Rightarrow> RTMP ub" where
  "HandleChangeChunkSize r packet =
     (if m_nBodySize packet \<ge> 4
      then do { (blk, i) \<leftarrow> packet_bytes r packet; n \<leftarrow> AMF_DecodeInt32 blk i; Some (r\<lparr>m_inChunkSize := int32 n\<rparr>) } else Some r)"

definition HandleServerBW :: "RTMP \<Rightarrow> RTMPPacket \<Rightarrow> RTMP ub" where
  "HandleServerBW r packet = do { (blk, i) \<leftarrow> packet_bytes r packet; n \<leftarrow> AMF_DecodeInt32 blk i; Some (r\<lparr>m_nServerBW := int32 n\<rparr>) }"

definition HandleClientBW :: "RTMP \<Rightarrow> RTMPPacket \<Rightarrow> RTMP ub" where
  "HandleClientBW r packet = do {
     (blk, i) \<leftarrow> packet_bytes r packet;
     n \<leftarrow> AMF_DecodeInt32 blk i;
     c \<leftarrow> (if m_nBodySize packet > 4 then peek blk (i + 4) else Some 0xff);
     Some (r\<lparr>m_nClientBW := int32 n, m_nClientBW2 := c\<rparr>)
   }"

definition buffer_empty :: "RTMP \<Rightarrow> RTMP ub" where
  "buffer_empty r =
     (if lnk_lFlags (Link r) AND RTMP_LF_BUFX = 0 then Some r
      else if m_pausing r = 0 then do {
        t \<leftarrow> media_stamp r;
        (_, r) \<leftarrow> RTMP_SendPause (r\<lparr>m_pauseStamp := t\<rparr>) True (int32 (uint t));
        Some (r\<lparr>m_pausing := 1\<rparr>)
      } else if m_pausing r = 2 then do {
        (_, r) \<leftarrow> RTMP_SendPause r False (int32 (uint (m_pauseStamp r)));
        Some (r\<lparr>m_pausing := 3\<rparr>)
      } else Some r)"

definition HandleCtrl :: "RTMP \<Rightarrow> RTMPPacket \<Rightarrow> RTMP ub" where
  "HandleCtrl r packet = do {
     nType \<leftarrow> (if m_body packet \<noteq> None \<and> m_nBodySize packet \<ge> 2
               then do { (blk, i) \<leftarrow> packet_bytes r packet; n \<leftarrow> AMF_DecodeInt16 blk i; Some (short n) } else Some (- 1));
     r \<leftarrow> (if m_nBodySize packet \<ge> 6 then do {
             (blk, i) \<leftarrow> packet_bytes r packet;
             tmp \<leftarrow> AMF_DecodeInt32 blk (i + 2);
             if nType = 1 then Some (if m_pausing r = 1 then r\<lparr>m_pausing := 2\<rparr> else r)
             else if nType = 6 then do { (_, r) \<leftarrow> RTMP_SendCtrl r 7 (word_of_int tmp) 0; Some r }
             else if nType = 31 then buffer_empty r
             else Some r
           } else Some r);
     if nType = 0x1A \<and> m_nBodySize packet > 2
     then do { (blk, i) \<leftarrow> packet_bytes r packet; _ \<leftarrow> peek blk (i + 2); Some r } else Some r
   }"

section \<open>Invocations\<close>

text \<open>The search for a call, by its number or by its name.\<close>

fun find_call :: "RTMP_METHOD list \<Rightarrow> int \<Rightarrow> nat option" where
  "find_call [] n = None"
| "find_call (m # ms) n = (if mc_num m = n then Some 0 else map_option Suc (find_call ms n))"

fun find_method :: "RTMP_METHOD list \<Rightarrow> AVal \<Rightarrow> nat option ub" where
  "find_method [] name = Some None"
| "find_method (m # ms) name = do {
     b \<leftarrow> AVMATCH (mc_name m) name;
     if b then Some (Some 0) else do { i \<leftarrow> find_method ms name; Some (map_option Suc i) }
   }"

definition forget_method :: "RTMP \<Rightarrow> string \<Rightarrow> RTMP ub" where
  "forget_method r name = do {
     i \<leftarrow> find_method (m_methodCalls r) (AVC name);
     (case i of None \<Rightarrow> Some r | Some i \<Rightarrow> RTMP_DropRequest r (int i))
   }"

definition result_connect :: "RTMP \<Rightarrow> AMFObject \<Rightarrow> RTMP ub" where
  "result_connect r obj = do {
     r \<leftarrow> (if av_len (lnk_token (Link r)) \<noteq> 0 then do {
             p \<leftarrow> RTMP_FindFirstMatchingProperty obj (AVC ''secureToken'');
             (case p of None \<Rightarrow> Some r
              | Some p \<Rightarrow> do {
                  text \<leftarrow> AMFProp_GetString p;
                  text \<leftarrow> DecodeTEA (lnk_token (Link r)) text;
                  (_, r) \<leftarrow> SendSecureTokenResponse r text;
                  Some r
                })
           } else Some r);
     let w = (lnk_protocol (Link r) AND RTMP_FEATURE_WRITE \<noteq> 0);
     r \<leftarrow> (if w then do { (_, r) \<leftarrow> SendReleaseStream r; (_, r) \<leftarrow> SendFCPublish r; Some r }
          else do { (_, r) \<leftarrow> RTMP_SendServerBW r; (_, r) \<leftarrow> RTMP_SendCtrl r 3 0 300; Some r });
     (_, r) \<leftarrow> RTMP_SendCreateStream r;
     if lnk_protocol (Link r) AND RTMP_FEATURE_WRITE \<noteq> 0 then Some r
     else do {
       r \<leftarrow> (if av_len (lnk_usherToken (Link r)) \<noteq> 0 then do { (_, r) \<leftarrow> SendUsherToken r (lnk_usherToken (Link r)); Some r } else Some r);
       if av_len (lnk_subscribepath (Link r)) \<noteq> 0 then do { (_, r) \<leftarrow> SendFCSubscribe r (lnk_subscribepath (Link r)); Some r }
       else if lnk_lFlags (Link r) AND RTMP_LF_LIVE \<noteq> 0 then do { (_, r) \<leftarrow> SendFCSubscribe r (lnk_playpath (Link r)); Some r }
       else Some r
     }
   }"

definition result_createStream :: "RTMP \<Rightarrow> AMFObject \<Rightarrow> RTMP ub" where
  "result_createStream r obj = do {
     d \<leftarrow> AMF_GetProp obj AV_empty 3 \<bind> AMFProp_GetNumber;
     i \<leftarrow> int_of_double d;
     let r = r\<lparr>m_stream_id := i\<rparr>;
     if lnk_protocol (Link r) AND RTMP_FEATURE_WRITE \<noteq> 0 then do { (_, r) \<leftarrow> SendPublish r; Some r }
     else do {
       r \<leftarrow> (if lnk_lFlags (Link r) AND RTMP_LF_PLST \<noteq> 0 then do { (_, r) \<leftarrow> SendPlaylist r; Some r } else Some r);
       (_, r) \<leftarrow> SendPlay r;
       (_, r) \<leftarrow> RTMP_SendCtrl r 3 (word_of_int (m_stream_id r)) (word_of_int (m_nBufferMS r));
       Some r
     }
   }"

definition invoke_result :: "RTMP \<Rightarrow> AMFObject \<Rightarrow> 64 word \<Rightarrow> RTMP ub" where
  "invoke_result r obj txn =
     (if m_methodCalls r = [] then Some r
      else do {
        n \<leftarrow> int_of_double txn;
        (case find_call (m_methodCalls r) n of None \<Rightarrow> Some r
         | Some i \<Rightarrow> do {
             let methodInvoked = mc_name (m_methodCalls r ! i);
             r \<leftarrow> RTMP_DropRequest r (int i);
             c \<leftarrow> AVMATCH methodInvoked (AVC ''connect'');
             cs \<leftarrow> AVMATCH methodInvoked (AVC ''createStream'');
             pl \<leftarrow> AVMATCH methodInvoked (AVC ''play'');
             pu \<leftarrow> AVMATCH methodInvoked (AVC ''publish'');
             if c then result_connect r obj
             else if cs then result_createStream r obj
             else if pl \<or> pu then Some (r\<lparr>m_bPlaying := True\<rparr>)
             else Some r
           })
      })"

text \<open>\<open>av_matches\<close> is \<open>AVMATCH\<close> with one of several constants.\<close>

fun av_matches :: "AVal \<Rightarrow> string list \<Rightarrow> bool ub" where
  "av_matches av [] = Some False"
| "av_matches av (s # ss) = do { b \<leftarrow> AVMATCH av (AVC s); if b then Some True else av_matches av ss }"

definition invoke_status :: "RTMP \<Rightarrow> AVal \<Rightarrow> (int \<times> RTMP) ub" where
  "invoke_status r code = do {
     failed \<leftarrow> av_matches code [''NetStream.Failed'', ''NetStream.Play.Failed'', ''NetStream.Play.StreamNotFound'', ''NetConnection.Connect.InvalidApp''];
     started \<leftarrow> av_matches code [''NetStream.Play.Start'', ''NetStream.Play.PublishNotify''];
     published \<leftarrow> av_matches code [''NetStream.Publish.Start''];
     done \<leftarrow> av_matches code [''NetStream.Play.Complete'', ''NetStream.Play.Stop'', ''NetStream.Play.UnpublishNotify''];
     sought \<leftarrow> av_matches code [''NetStream.Seek.Notify''];
     paused \<leftarrow> av_matches code [''NetStream.Pause.Notify''];
     if failed then do { r \<leftarrow> RTMP_Close (r\<lparr>m_stream_id := - 1\<rparr>); Some (0, r) }
     else if started then do { r \<leftarrow> forget_method (r\<lparr>m_bPlaying := True\<rparr>) ''play''; Some (0, r) }
     else if published then do { r \<leftarrow> forget_method (r\<lparr>m_bPlaying := True\<rparr>) ''publish''; Some (0, r) }
     else if done then do { r \<leftarrow> RTMP_Close r; Some (1, r) }
     else if sought then Some (0, r\<lparr>m_read := (m_read r)\<lparr>rd_flags := rd_flags (m_read r) AND NOT RTMP_READ_SEEKING\<rparr>\<rparr>)
     else if paused \<and> (m_pausing r = 1 \<or> m_pausing r = 2) then do {
       (_, r) \<leftarrow> RTMP_SendPause r False (int32 (uint (m_pauseStamp r)));
       Some (0, r\<lparr>m_pausing := 3\<rparr>)
     } else Some (0, r)
   }"

definition invoke_method :: "RTMP \<Rightarrow> AMFObject \<Rightarrow> AVal \<Rightarrow> 64 word \<Rightarrow> (int \<times> RTMP) ub" where
  "invoke_method r obj method txn = do {
     result \<leftarrow> av_matches method [''_result''];
     bwdone \<leftarrow> av_matches method [''onBWDone''];
     unsub \<leftarrow> av_matches method [''onFCUnsubscribe''];
     ping \<leftarrow> av_matches method [''ping''];
     onbwcheck \<leftarrow> av_matches method [''_onbwcheck''];
     onbwdone \<leftarrow> av_matches method [''_onbwdone''];
     closed \<leftarrow> av_matches method [''close''];
     status \<leftarrow> av_matches method [''onStatus''];
     ready \<leftarrow> av_matches method [''playlist_ready''];
     if result then do { r \<leftarrow> invoke_result r obj txn; Some (0, r) }
     else if bwdone then (if m_nBWCheckCounter r = 0 then do { (_, r) \<leftarrow> SendCheckBW r; Some (0, r) } else Some (0, r))
     else if unsub then do { r \<leftarrow> RTMP_Close r; Some (1, r) }
     else if ping then do { (_, r) \<leftarrow> SendPong r txn; Some (0, r) }
     else if onbwcheck then do { (_, r) \<leftarrow> SendCheckBWResult r txn; Some (0, r) }
     else if onbwdone then do { r \<leftarrow> forget_method r ''_checkbw''; Some (0, r) }
     else if closed then do { r \<leftarrow> RTMP_Close r; Some (0, r) }
     else if status then do {
       obj2 \<leftarrow> AMF_GetProp obj AV_empty 3 \<bind> AMFProp_GetObject;
       code \<leftarrow> AMF_GetProp obj2 (AVC ''code'') (- 1) \<bind> AMFProp_GetString;
       level \<leftarrow> AMF_GetProp obj2 (AVC ''level'') (- 1) \<bind> AMFProp_GetString;
       invoke_status r code
     }
     else if ready then do { r \<leftarrow> forget_method r ''set_playlist''; Some (0, r) }
     else Some (0, r)
   }"

definition HandleInvoke :: "nat \<Rightarrow> AMFObjectProperty \<Rightarrow> RTMP \<Rightarrow> bytes \<Rightarrow> int \<Rightarrow> int \<Rightarrow> (int \<times> RTMP) ub" where
  "HandleInvoke fuel junk r blk body nBodySize = do {
     c \<leftarrow> peek blk body;
     if c \<noteq> 2 then Some (0, r)
     else do {
       (nRes, obj) \<leftarrow> AMF_Decode fuel junk blk body nBodySize False;
       if nRes < 0 then Some (0, r)
       else do {
         method \<leftarrow> AMF_GetProp obj AV_empty 0 \<bind> AMFProp_GetString;
         txn \<leftarrow> AMF_GetProp obj AV_empty 1 \<bind> AMFProp_GetNumber;
         invoke_method r obj method txn
       }
     }
   }"

section \<open>Packets\<close>

text \<open>The tags of a packet of FLV data: its metadata is handled, the last time stamp is returned.\<close>

function flv_tags :: "nat \<Rightarrow> AMFObjectProperty \<Rightarrow> RTMP \<Rightarrow> bytes \<Rightarrow> int \<Rightarrow> int \<Rightarrow> int \<Rightarrow> 32 word \<Rightarrow> (32 word \<times> RTMP) ub" where
  "flv_tags fuel junk r blk body nBodySize pos nTimeStamp =
     (if pos + 11 < nBodySize then do {
        dataSize \<leftarrow> AMF_DecodeInt24 blk (body + pos + 1);
        if pos + 11 + \<bar>dataSize\<bar> + 4 > nBodySize then Some (nTimeStamp, r)
        else do {
          c \<leftarrow> peek blk (body + pos);
          (t, r) \<leftarrow>
            (if c = 0x12 then do { (_, r) \<leftarrow> HandleMetadata fuel junk r blk (body + pos + 11) dataSize; Some (nTimeStamp, r) }
             else if c = 8 \<or> c = 9 then do {
               t \<leftarrow> AMF_DecodeInt24 blk (body + pos + 4);
               h \<leftarrow> peek blk (body + pos + 7);
               Some (word_of_int t OR push_bit 24 (scast h), r)
             } else Some (nTimeStamp, r));
          flv_tags fuel junk r blk body nBodySize (pos + 11 + \<bar>dataSize\<bar> + 4) t
        }
      } else Some (nTimeStamp, r))"
  by pat_completeness auto
termination
  by (relation "measure (\<lambda>(_, _, _, _, _, nBodySize, pos, _). nat (nBodySize - pos))") auto

declare flv_tags.simps [simp del]

definition media_packet :: "RTMP \<Rightarrow> RTMPPacket \<Rightarrow> RTMP" where
  "media_packet r packet =
     (let r = (if m_mediaChannel r = 0 then r\<lparr>m_mediaChannel := m_nChannel packet\<rparr> else r)
      in if m_pausing r = 0 then r\<lparr>m_mediaStamp := m_nTimeStamp packet\<rparr> else r)"

definition client_invoke :: "nat \<Rightarrow> AMFObjectProperty \<Rightarrow> RTMP \<Rightarrow> RTMPPacket \<Rightarrow> int \<Rightarrow> (int \<times> RTMP) ub" where
  "client_invoke fuel junk r packet skip = do {
     (blk, i) \<leftarrow> packet_bytes r packet;
     (k, r) \<leftarrow> HandleInvoke fuel junk r blk (i + skip) (int32 (m_nBodySize packet - skip));
     Some (if k = 1 then 2 else 0, r)
   }"

definition RTMP_ClientPacket :: "nat \<Rightarrow> AMFObjectProperty \<Rightarrow> RTMP \<Rightarrow> RTMPPacket \<Rightarrow> (int \<times> RTMP) ub" where
  "RTMP_ClientPacket fuel junk r packet =
     (let ty = m_packetType packet
      in if ty = 1 then do { r \<leftarrow> HandleChangeChunkSize r packet; Some (0, r) }
         else if ty = 4 then do { r \<leftarrow> HandleCtrl r packet; Some (0, r) }
         else if ty = 5 then do { r \<leftarrow> HandleServerBW r packet; Some (0, r) }
         else if ty = 6 then do { r \<leftarrow> HandleClientBW r packet; Some (0, r) }
         else if ty = 8 \<or> ty = 9 then Some (1, media_packet r packet)
         else if ty = 0x11 then client_invoke fuel junk r packet 1
         else if ty = 0x12 then do {
           (blk, i) \<leftarrow> (if m_nBodySize packet = 0 then Some ([], 0) else packet_bytes r packet);
           (ok, r) \<leftarrow> HandleMetadata fuel junk r blk i (int32 (m_nBodySize packet));
           Some (of_bool ok, r)
         }
         else if ty = 0x14 then client_invoke fuel junk r packet 0
         else if ty = 0x16 then do {
           (blk, i) \<leftarrow> (if m_nBodySize packet \<le> 11 then Some ([], 0) else packet_bytes r packet);
           (t, r) \<leftarrow> flv_tags fuel junk r blk i (m_nBodySize packet) 0 (m_nTimeStamp packet);
           Some (1, if m_pausing r = 0 then r\<lparr>m_mediaStamp := t\<rparr> else r)
         }
         else Some (0, r))"

section \<open>Streams\<close>

text \<open>Both loops read packets until there is nothing more to read or they have what they wait for; \<open>k\<close> bounds the number of
  chunks.\<close>

definition keep_media :: "RTMP \<Rightarrow> RTMPPacket \<Rightarrow> int \<Rightarrow> (int \<times> RTMP \<times> RTMPPacket) ub" where
  \<comment> \<open>what follows \<open>RTMP_ClientPacket\<close>: packets before the one where the stream was paused are skipped\<close>
  "keep_media r packet k =
     (if k = 0 then do { (r, packet) \<leftarrow> RTMPPacket_Free r packet; Some (0, r, packet) }
      else if m_pausing r = 3 then
        if m_nTimeStamp packet \<le> m_mediaStamp r then do { (r, packet) \<leftarrow> RTMPPacket_Free r packet; Some (0, r, packet) }
        else Some (k, r\<lparr>m_pausing := 0\<rparr>, packet)
      else Some (k, r, packet))"

primrec media_loop :: "nat \<Rightarrow> nat \<Rightarrow> AMFObjectProperty \<Rightarrow> RTMP \<Rightarrow> RTMPPacket \<Rightarrow> (int \<times> RTMP \<times> RTMPPacket) ub" where
  "media_loop 0 fuel junk r packet = None"
| "media_loop (Suc k) fuel junk r packet =
     (if \<not> RTMP_IsConnected r then Some (0, r, packet)
      else do {
        (ok, r, packet) \<leftarrow> RTMP_ReadPacket r packet;
        if \<not> ok then Some (0, r, packet)
        else if \<not> RTMPPacket_IsReady packet then media_loop k fuel junk r packet
        else do {
          (has, r) \<leftarrow> RTMP_ClientPacket fuel junk r packet;
          (has, r, packet) \<leftarrow> keep_media r packet has;
          if has \<noteq> 0 then Some (has, r, packet) else media_loop k fuel junk r packet
        }
      })"

definition RTMP_GetNextMediaPacket :: "nat \<Rightarrow> nat \<Rightarrow> AMFObjectProperty \<Rightarrow> RTMP \<Rightarrow> RTMPPacket \<Rightarrow> (int \<times> RTMP \<times> RTMPPacket) ub" where
  "RTMP_GetNextMediaPacket k fuel junk r packet = do {
     (has, r, packet) \<leftarrow> media_loop k fuel junk r packet;
     if has \<noteq> 0 then Some (has, r\<lparr>m_bPlaying := True\<rparr>, packet)
     else if sb_timedout (m_sb r) \<and> m_pausing r = 0 then do { t \<leftarrow> media_stamp r; Some (has, r\<lparr>m_pauseStamp := t\<rparr>, packet) }
     else Some (has, r, packet)
   }"

primrec connect_loop :: "nat \<Rightarrow> nat \<Rightarrow> AMFObjectProperty \<Rightarrow> RTMP \<Rightarrow> RTMPPacket \<Rightarrow> RTMP ub" where
  "connect_loop 0 fuel junk r packet = None"
| "connect_loop (Suc k) fuel junk r packet =
     (if m_bPlaying r \<or> \<not> RTMP_IsConnected r then Some r
      else do {
        (ok, r, packet) \<leftarrow> RTMP_ReadPacket r packet;
        if \<not> ok then Some r
        else if \<not> RTMPPacket_IsReady packet \<or> m_nBodySize packet = 0 then connect_loop k fuel junk r packet
        else if m_packetType packet \<in> {8, 9, 0x12} then do {
          (r, packet) \<leftarrow> RTMPPacket_Free r packet;
          connect_loop k fuel junk r packet
        } else do {
          (_, r) \<leftarrow> RTMP_ClientPacket fuel junk r packet;
          (r, packet) \<leftarrow> RTMPPacket_Free r packet;
          connect_loop k fuel junk r packet
        }
      })"

definition RTMP_ConnectStream :: "nat \<Rightarrow> nat \<Rightarrow> AMFObjectProperty \<Rightarrow> RTMP \<Rightarrow> int \<Rightarrow> (bool \<times> RTMP) ub" where
  "RTMP_ConnectStream k fuel junk r seekTime = do {
     let r = (if seekTime > 0 then r\<lparr>Link := (Link r)\<lparr>lnk_seekTime := seekTime\<rparr>\<rparr> else r);
     r \<leftarrow> connect_loop k fuel junk (r\<lparr>m_mediaChannel := 0\<rparr>) zero_packet;
     Some (m_bPlaying r, r)
   }"

definition RTMP_ReconnectStream :: "nat \<Rightarrow> nat \<Rightarrow> AMFObjectProperty \<Rightarrow> RTMP \<Rightarrow> int \<Rightarrow> (bool \<times> RTMP) ub" where
  "RTMP_ReconnectStream k fuel junk r seekTime = do {
     r \<leftarrow> RTMP_DeleteStream r;
     (_, r) \<leftarrow> RTMP_SendCreateStream r;
     RTMP_ConnectStream k fuel junk r seekTime
   }"

end
