(* ===== verification/Rtmp_Play.thy ===== *)
theory Rtmp_Play
  imports Rtmp_Client Rtmp_Session
begin

text \<open>
  A stream that is played: the server sends media packets, messages that the client ignores and changes of the chunk size, and
  \<open>RTMP_GetNextMediaPacket\<close> returns the media packets.
\<close>

section \<open>The loop\<close>

text \<open>More fuel does not change a result.\<close>

definition media_step :: "nat \<Rightarrow> nat \<Rightarrow> AMFObjectProperty \<Rightarrow> RTMP \<Rightarrow> RTMPPacket \<Rightarrow> (int \<times> RTMP \<times> RTMPPacket) ub" where
  \<comment> \<open>what follows a complete packet\<close>
  "media_step m fuel junk r packet = do {
     (has, r) \<leftarrow> RTMP_ClientPacket fuel junk r packet;
     (has, r, packet) \<leftarrow> keep_media r packet has;
     if has \<noteq> 0 then Some (has, r, packet) else media_loop m fuel junk r packet
   }"

lemma media_step_Some:
  assumes "media_step m fuel junk r q = Some x" "\<And>r q. media_loop m fuel junk r q = Some x \<Longrightarrow> media_loop m' fuel junk r q = Some x"
  shows "media_step m' fuel junk r q = Some x"
proof -
  obtain h r1 h2 r2 q2 where *: "RTMP_ClientPacket fuel junk r q = Some (h, r1)" "keep_media r1 q h = Some (h2, r2, q2)"
      "(if h2 \<noteq> 0 then Some (h2, r2, q2) else media_loop m fuel junk r2 q2) = Some x"
    using assms(1) by (auto simp only: media_step_def bind_eq_Some_conv split_paired_all prod.case)
  show ?thesis using *(3) assms(2) [of r2 q2] by (cases "h2 = 0") (auto simp: media_step_def *(1,2))
qed

lemma media_loop_step:
  "RTMP_IsConnected r \<Longrightarrow> RTMP_ReadPacket r q = Some (ok, r', q') \<Longrightarrow> media_loop (Suc k) fuel junk r q =
     (if \<not> ok then Some (0, r', q') else if \<not> RTMPPacket_IsReady q' then media_loop k fuel junk r' q' else media_step k fuel junk r' q')"
  by (simp add: media_step_def)

lemma media_loop_mono: "media_loop k fuel junk r q = Some x \<Longrightarrow> media_loop (k + m) fuel junk r q = Some x"
proof (induction k arbitrary: r q)
  case (Suc k)
  show ?case
  proof (cases "RTMP_IsConnected r")
    case True
    then obtain ok r' q' where rd: "RTMP_ReadPacket r q = Some (ok, r', q')"
      using Suc.prems by (cases "RTMP_ReadPacket r q") auto
    note st = media_loop_step [OF True rd]
    show ?thesis using Suc.prems Suc.IH [of r' q'] media_step_Some [OF _ Suc.IH] unfolding st add_Suc by (cases ok; cases "RTMPPacket_IsReady q'") simp_all
  qed (use Suc.prems in simp)
qed simp

lemma media_step_mono: "media_step m fuel junk r q = Some x \<Longrightarrow> media_step (m + j) fuel junk r q = Some x"
  by (rule media_step_Some [OF _ media_loop_mono])

lemma media_loop_next:
  "next_packet k r q = Some (True, r', res) \<Longrightarrow> media_step m fuel junk r' res = Some x \<Longrightarrow> media_loop (k + m) fuel junk r q = Some x"
proof (induction k arbitrary: r q)
  case (Suc k)
  have con: "RTMP_IsConnected r" using Suc.prems(1) by (simp split: if_splits)
  then obtain r1 q1 where r1: "RTMP_ReadPacket r q = Some (True, r1, q1)" and
      or: "RTMPPacket_IsReady q1 \<and> r1 = r' \<and> q1 = res \<or> \<not> RTMPPacket_IsReady q1 \<and> next_packet k r1 q1 = Some (True, r', res)"
    using Suc.prems(1) by (auto simp: bind_eq_Some_conv split: if_splits)
  show ?case
  proof (cases "RTMPPacket_IsReady q1")
    case True
    then have "media_loop (Suc (k + m)) fuel junk r q = media_step (k + m) fuel junk r' res" using or con r1 by (simp add: media_step_def)
    then show ?thesis using media_step_mono [OF Suc.prems(2), of k] by (simp add: add.commute)
  next
    case False
    then have "media_loop (Suc (k + m)) fuel junk r q = media_loop (k + m) fuel junk r1 q1" using con r1 by simp
    then show ?thesis using Suc.IH [OF _ Suc.prems(2)] or False by simp
  qed
qed simp

section \<open>Messages of a stream\<close>

text \<open>Media packets, messages that are ignored, and changes of the chunk size.\<close>

definition is_media :: "RTMPPacket \<Rightarrow> bool" where
  "is_media p \<longleftrightarrow> m_packetType p = 8 \<or> m_packetType p = 9"

definition is_ignored :: "RTMPPacket \<Rightarrow> bool" where
  "is_ignored p \<longleftrightarrow> m_packetType p \<notin> {1, 4, 5, 6, 8, 9, 0x11, 0x12, 0x14, 0x16}"

definition new_size :: "int \<Rightarrow> RTMPPacket \<Rightarrow> bytes \<Rightarrow> int" where
  "new_size K p body = (if m_packetType p = 1 then case AMF_DecodeInt32 body 0 of Some n \<Rightarrow> int32 n | None \<Rightarrow> K else K)"

definition streamable :: "RTMPPacket \<Rightarrow> bytes \<Rightarrow> bool" where
  "streamable p body \<longleftrightarrow> is_media p \<or> is_ignored p \<or> m_packetType p = 1 \<and> (\<exists>n. body = be32 n \<and> 0 < n \<and> n < 2 ^ 31)"

text \<open>The server changes its chunk size when it has announced it.\<close>

fun send_stream :: "RTMP \<Rightarrow> (RTMPPacket \<times> bytes) list \<Rightarrow> (bool \<times> RTMP) ub" where
  "send_stream s [] = Some (True, s)"
| "send_stream s ((p, body) # ps) = do {
     (ok, s) \<leftarrow> send_new s p body;
     if ok then send_stream (s\<lparr>m_outChunkSize := new_size (m_outChunkSize s) p body\<rparr>) ps else Some (False, s)
   }"

fun wire_stream :: "int \<Rightarrow> (int \<Rightarrow> channel option) \<Rightarrow> (RTMPPacket \<times> bytes) list \<Rightarrow> bytes" where
  "wire_stream K st [] = []"
| "wire_stream K st ((p, body) # ps) =
     wire (nat K) (p\<lparr>m_headerType := sent_type st p\<rparr>) (sent_stamp st p) body @ wire_stream (new_size K p body) (after_packet st p) ps"

text \<open>The client takes one media packet after the other.\<close>

primrec play :: "nat \<Rightarrow> nat \<Rightarrow> AMFObjectProperty \<Rightarrow> nat \<Rightarrow> RTMP \<Rightarrow> (RTMP \<times> (RTMPPacket \<times> bytes) list) ub" where
  "play k fuel junk 0 r = Some (r, [])"
| "play k fuel junk (Suc m) r = do {
     (has, r, q) \<leftarrow> RTMP_GetNextMediaPacket k fuel junk r zero_packet;
     if has = 0 then None
     else do {
       body \<leftarrow> body_of r q;
       (r, _) \<leftarrow> RTMPPacket_Free r q;
       (r, qs) \<leftarrow> play k fuel junk m r;
       Some (r, (q, body) # qs)
     }
   }"

lemma new_size_pos: "streamable p body \<Longrightarrow> 0 < K \<Longrightarrow> 0 < new_size K p body"
proof -
  assume a: "streamable p body" "0 < K"
  show ?thesis
  proof (cases "m_packetType p = 1")
    case True
    then obtain n where n: "body = be32 n" "0 < n" "n < 2 ^ 31" using a(1) by (auto simp: streamable_def is_media_def is_ignored_def)
    have "AMF_DecodeInt32 body 0 = Some n" using read_int32 [of "[]" n "[]"] n by (simp add: take_bit_int_eq_self)
    then show ?thesis using True n by (simp add: new_size_def int32_def signed_take_bit_int_eq_self)
  qed (use a(2) in \<open>simp add: new_size_def\<close>)
qed

lemma rx_media [simp]:
  "rx (r\<lparr>m_mediaChannel := c\<rparr>) bs = rx r bs" "rx (r\<lparr>m_mediaStamp := t\<rparr>) bs = rx r bs" "rx (r\<lparr>m_bPlaying := b\<rparr>) bs = rx r bs"
  "rx (r\<lparr>m_inChunkSize := K\<rparr>) bs = rx r bs"
  by (simp_all add: rx_def writable_def RTMP_IsConnected_def pending_def)

lemma in_channels_media [simp]:
  "in_channels st (r\<lparr>m_mediaChannel := c\<rparr>) = in_channels st r" "in_channels st (r\<lparr>m_mediaStamp := t\<rparr>) = in_channels st r"
  "in_channels st (r\<lparr>m_bPlaying := b\<rparr>) = in_channels st r" "in_channels st (r\<lparr>m_inChunkSize := K\<rparr>) = in_channels st r"
  by (simp_all add: in_channels_def)

lemma holds_media [simp]:
  "holds (r\<lparr>m_mediaChannel := c\<rparr>) = holds r" "holds (r\<lparr>m_mediaStamp := t\<rparr>) = holds r" "holds (r\<lparr>m_bPlaying := b\<rparr>) = holds r"
  "holds (r\<lparr>m_inChunkSize := K\<rparr>) = holds r"
  by (auto simp: holds_def fun_eq_iff split: option.splits)

section \<open>Handling of the messages\<close>

text \<open>\<open>playing r K st bs\<close>: the client can read \<open>bs\<close>, with this chunk size and these channels, and is not paused.\<close>

definition playing :: "RTMP \<Rightarrow> int \<Rightarrow> (int \<Rightarrow> channel option) \<Rightarrow> bytes \<Rightarrow> bool" where
  "playing r K st bs \<longleftrightarrow> rx r bs \<and> m_inChunkSize r = K \<and> in_channels st r \<and> m_pausing r = 0"

lemma playing_free:
  "holds r q body j \<Longrightarrow> playing r K st bs \<Longrightarrow> \<exists>r'. RTMPPacket_Free r q = Some (r', q\<lparr>m_body := None\<rparr>) \<and> playing r' K st bs"
  unfolding playing_def using free_received [of r q body j bs st] by auto

lemma client_handles:
  assumes "playing r K st bs" "streamable p body" "\<not> is_media p" "m_packetType q = m_packetType p"
    and "m_nBodySize q = int (length body)" "holds r q body (length body)" "body = [] \<or> m_body q \<noteq> None"
  shows "\<exists>r'. RTMP_ClientPacket fuel junk r q = Some (0, r') \<and> playing r' (new_size K p body) st bs \<and> holds r' q body (length body)"
proof (cases "m_packetType p = 1")
  case True
  then obtain n where n: "body = be32 n" "0 < n" "n < 2 ^ 31" using assms(2) by (auto simp: streamable_def is_media_def is_ignored_def)
  have "m_body q \<noteq> None" using assms(7) n(1) by (auto simp: be32_def be24_def be16_def)
  then obtain b z where b: "m_body q = Some (b, 18)" "blocks r b = Some (z @ be32 n)" "length z = 18"
    using assms(6) n(1) by (auto simp: holds_def split: option.splits)
  have e: "AMF_DecodeInt32 (z @ be32 n) 18 = Some n" "AMF_DecodeInt32 (be32 n) 0 = Some n"
    using read_int32 [of z n "[]"] read_int32 [of "[]" n "[]"] n b(3) by (simp_all add: take_bit_int_eq_self)
  have "RTMP_ClientPacket fuel junk r q = Some (0, r\<lparr>m_inChunkSize := int32 n\<rparr>)"
    using True assms(4,5) b e(1) n(1) by (simp add: RTMP_ClientPacket_def HandleChangeChunkSize_def packet_bytes_def)
  moreover have "new_size K p body = int32 n" using True e(2) n(1) by (simp add: new_size_def)
  ultimately show ?thesis using assms(1,6) by (simp add: playing_def)
next
  case False
  then have "m_packetType q \<notin> {1, 4, 5, 6, 8, 9, 0x11, 0x12, 0x14, 0x16}" using assms(2-4) by (auto simp: streamable_def is_ignored_def)
  then show ?thesis using False assms(1,6) by (simp add: RTMP_ClientPacket_def Let_def new_size_def)
qed

lemma client_plays:
  assumes "playing r K st bs" "is_media p" "m_packetType q = m_packetType p" "holds r q body j"
  shows "\<exists>r'. RTMP_ClientPacket fuel junk r q = Some (1, r') \<and> playing r' (new_size K p body) st bs \<and> holds r' q body j"
  using assms by (auto simp: RTMP_ClientPacket_def is_media_def Let_def media_packet_def playing_def new_size_def)

section \<open>The next media packet\<close>

definition media_message :: "int \<times> int \<times> 32 word \<times> int \<times> bytes \<Rightarrow> bool" where
  "media_message m \<longleftrightarrow> (case m of (_, ty, _) \<Rightarrow> ty = 8 \<or> ty = 9)"

text \<open>The number of chunks of the packets is at most their weight.\<close>

definition weight :: "(RTMPPacket \<times> bytes) list \<Rightarrow> nat" where
  "weight ps = sum_list (map (\<lambda>(p, body). Suc (length body)) ps)"

definition stream_ok :: "(int \<Rightarrow> channel option) \<Rightarrow> (RTMPPacket \<times> bytes) list \<Rightarrow> bool" where
  "stream_ok st ps \<longleftrightarrow> sendable_all st ps \<and> list_all (\<lambda>(p, body). streamable p body) ps"

lemma stream_ok_Cons:
  "stream_ok st ((p, body) # ps) \<longleftrightarrow> sendable st p \<and> m_nBodySize p = int (length body) \<and> streamable p body \<and> stream_ok (after_packet st p) ps"
  by (auto simp: stream_ok_def)

text \<open>\<open>played r q K st ps xs body\<close>: the packet \<open>q\<close> with this body was returned, and the rest of the stream \<open>ps\<close> follows.\<close>

definition played :: "RTMP \<Rightarrow> RTMPPacket \<Rightarrow> int \<Rightarrow> (int \<Rightarrow> channel option) \<Rightarrow> (RTMPPacket \<times> bytes) list \<Rightarrow> bytes \<Rightarrow> bytes \<Rightarrow> bool" where
  "played r q K st ps xs body \<longleftrightarrow> playing r K st (wire_stream K st ps @ xs) \<and> 0 < K \<and> stream_ok st ps \<and>
     holds r q body (length body) \<and> m_nBodySize q = int (length body) \<and> (body = [] \<or> m_body q \<noteq> None)"

lemma packet_arrives:
  assumes "stream_ok st ((p, body) # ps)" "0 < K" "playing r K st (wire_stream K st ((p, body) # ps) @ xs)" "m_body q0 = None" "m_chunk q0 = None"
  shows "\<exists>r1 q. next_packet (Suc (length body)) r q0 = Some (True, r1, q) \<and> playing r1 K (after_packet st p) (wire_stream (new_size K p body) (after_packet st p) ps @ xs) \<and>
    message (q, body) = message (p\<lparr>m_nTimeStamp := recv_stamp st p\<rparr>, body) \<and> m_nBodySize q = int (length body) \<and> m_chunk q = None \<and>
    holds r1 q body (length body) \<and> (body = [] \<or> m_body q \<noteq> None)"
proof -
  have p: "sendable st p" "m_nBodySize p = int (length body)" using assms(1) by (simp_all add: stream_ok_Cons)
  have r: "rx r (wire (nat (m_inChunkSize r)) (p\<lparr>m_headerType := sent_type st p\<rparr>) (sent_stamp st p) body @ wire_stream (new_size K p body) (after_packet st p) ps @ xs)"
      "in_channels st r" "0 < m_inChunkSize r" "m_inChunkSize r = K" "m_pausing r = 0"
    using assms(2,3) by (simp_all add: playing_def)
  obtain r1 q where q: "\<forall>k > length body. next_packet k r q0 = Some (True, r1, q)" "rx r1 (wire_stream (new_size K p body) (after_packet st p) ps @ xs)"
      "in_channels (after_packet st p) r1" "m_inChunkSize r1 = K" "m_pausing r1 = 0" "m_nChannel q = m_nChannel p" "m_packetType q = m_packetType p"
      "m_nInfoField2 q = m_nInfoField2 p" "m_nBodySize q = m_nBodySize p" "m_nTimeStamp q = recv_stamp st p" "m_chunk q = None" "holds r1 q body (length body)"
      "body = [] \<or> m_body q \<noteq> None"
    using message_reads [OF p(1) r(2) assms(4,5) refl refl p(2) r(3,1)] unfolding r(4,5) by blast
  then show ?thesis using p(2) by (intro exI [of _ r1] exI [of _ q]) (simp add: message_def playing_def del: next_packet.simps)
qed

lemma loop_media:
  assumes "stream_ok st ps" "0 < K" "playing r K st (wire_stream K st ps @ xs)" "m_body q0 = None" "m_chunk q0 = None" "list_ex (\<lambda>(p, body). is_media p) ps"
  shows "\<exists>rest r' q K' st' body. (\<forall>k \<ge> weight ps. media_loop k fuel junk r q0 = Some (1, r', q)) \<and> played r' q K' st' rest xs body \<and>
    filter media_message (received st ps) = message (q, body) # filter media_message (received st' rest) \<and> weight rest < weight ps"
  using assms
proof (induction ps arbitrary: st K r q0)
  case (Cons pb ps)
  obtain p body where pb: "pb = (p, body)" by (cases pb)
  let ?st = "after_packet st p" and ?K = "new_size K p body"
  have ok: "stream_ok ?st ps" "streamable p body" "0 < ?K"
    using Cons.prems(1,2) new_size_pos [of p body K] by (simp_all add: pb stream_ok_Cons)
  obtain r1 q where q: "next_packet (Suc (length body)) r q0 = Some (True, r1, q)" "playing r1 K ?st (wire_stream ?K ?st ps @ xs)"
      "message (q, body) = message (p\<lparr>m_nTimeStamp := recv_stamp st p\<rparr>, body)" "m_nBodySize q = int (length body)" "m_chunk q = None"
      "holds r1 q body (length body)" "body = [] \<or> m_body q \<noteq> None"
    using packet_arrives [OF Cons.prems(1) [unfolded pb] Cons.prems(2) Cons.prems(3) [unfolded pb] Cons.prems(4,5)] by blast
  have ty: "m_packetType q = m_packetType p" using q(3) by (simp add: message_def)
  have w: "weight (pb # ps) = Suc (length body) + weight ps" by (simp add: weight_def pb)
  have split: "k = Suc (length body) + (k - Suc (length body))" "weight ps \<le> k - Suc (length body)" if "weight (pb # ps) \<le> k" for k
    using that w by simp_all
  have loop: "media_loop k fuel junk r q0 = Some x" if "media_step m fuel junk r1 q = Some x" "k = Suc (length body) + m" for k m x
    using media_loop_next [OF q(1) that(1)] unfolding that(2) .
  show ?case
  proof (cases "is_media p")
    case True
    obtain r2 where r2: "RTMP_ClientPacket fuel junk r1 q = Some (1, r2)" "playing r2 ?K ?st (wire_stream ?K ?st ps @ xs)" "holds r2 q body (length body)"
      using client_plays [OF q(2) True ty q(6)] by blast
    have "media_step m fuel junk r1 q = Some (1, r2, q)" for m
      using r2(1,2) by (simp add: media_step_def keep_media_def playing_def)
    then have "\<forall>k \<ge> weight (pb # ps). media_loop k fuel junk r q0 = Some (1, r2, q)" using loop split by blast
    moreover have "played r2 q ?K ?st ps xs body" using r2(2,3) ok q(4,7) by (simp add: played_def)
    moreover have "filter media_message (received st (pb # ps)) = message (q, body) # filter media_message (received ?st ps)"
      using True q(3) by (simp add: pb media_message_def message_def is_media_def)
    ultimately show ?thesis using w by (intro exI [of _ ps] exI [of _ r2] exI [of _ q] exI [of _ ?K] exI [of _ ?st] exI [of _ body]) simp
  next
    case False
    obtain r2 where r2: "RTMP_ClientPacket fuel junk r1 q = Some (0, r2)" "playing r2 ?K ?st (wire_stream ?K ?st ps @ xs)" "holds r2 q body (length body)"
      using client_handles [OF q(2) ok(2) False ty q(4,6,7)] by blast
    obtain r3 where r3: "RTMPPacket_Free r2 q = Some (r3, q\<lparr>m_body := None\<rparr>)" "playing r3 ?K ?st (wire_stream ?K ?st ps @ xs)"
      using playing_free [OF r2(3,2)] by blast
    have step: "media_step m fuel junk r1 q = media_loop m fuel junk r3 (q\<lparr>m_body := None\<rparr>)" for m
      using r2(1) r3(1) by (simp add: media_step_def keep_media_def)
    have q0: "m_body (q\<lparr>m_body := None\<rparr>) = None" "m_chunk (q\<lparr>m_body := None\<rparr>) = None" using q(5) by simp_all
    have ex: "list_ex (\<lambda>(p, body). is_media p) ps" using Cons.prems(6) False by (simp add: pb)
    obtain rest r' q' K' st' body' where *: "\<forall>k \<ge> weight ps. media_loop k fuel junk r3 (q\<lparr>m_body := None\<rparr>) = Some (1, r', q')"
        "played r' q' K' st' rest xs body'"
        "filter media_message (received ?st ps) = message (q', body') # filter media_message (received st' rest)" "weight rest < weight ps"
      using Cons.IH [OF ok(1,3) r3(2) q0 ex] by blast
    have "\<forall>k \<ge> weight (pb # ps). media_loop k fuel junk r q0 = Some (1, r', q')"
    proof (intro allI impI)
      fix k assume "weight (pb # ps) \<le> k"
      note m = split [OF this]
      show "media_loop k fuel junk r q0 = Some (1, r', q')" by (rule loop [OF _ m(1)]) (simp only: step *(1) m(2))
    qed
    moreover have "filter media_message (received st (pb # ps)) = filter media_message (received ?st ps)"
      using False by (simp add: pb media_message_def message_def is_media_def)
    ultimately show ?thesis using *(2-4) w by (intro exI [of _ rest] exI [of _ r'] exI [of _ q'] exI [of _ K'] exI [of _ st'] exI [of _ body']) simp
  qed
qed simp

lemma play_plays:
  assumes "stream_ok st ps" "0 < K" "playing r K st (wire_stream K st ps @ xs)" "weight ps \<le> k" "n = length (filter media_message (received st ps))"
  shows "\<exists>r' qs. play k fuel junk n r = Some (r', qs) \<and> map message qs = filter media_message (received st ps)"
  using assms
proof (induction "weight ps" arbitrary: st ps K r n rule: less_induct)
  case less
  show ?case
  proof (cases n)
    case 0
    then show ?thesis using less.prems(5) by simp
  next
    case (Suc m)
    have ex: "list_ex (\<lambda>(p, body). is_media p) ps"
    proof (rule ccontr)
      assume "\<not> list_ex (\<lambda>(p, body). is_media p) ps"
      then have "filter media_message (received st ps) = []"
        by (induction st ps rule: received.induct) (auto simp: media_message_def message_def is_media_def)
      then show False using Suc less.prems(5) by simp
    qed
    have z: "m_body zero_packet = None" "m_chunk zero_packet = None" by (simp_all add: zero_packet_def)
    obtain rest r1 q K' st' body where *: "\<forall>k \<ge> weight ps. media_loop k fuel junk r zero_packet = Some (1, r1, q)" "played r1 q K' st' rest xs body"
        "filter media_message (received st ps) = message (q, body) # filter media_message (received st' rest)" "weight rest < weight ps"
      using loop_media [OF less.prems(1-3) z ex] by blast
    let ?r = "r1\<lparr>m_bPlaying := True\<rparr>"
    have pl: "playing r1 K' st' (wire_stream K' st' rest @ xs)" "0 < K'" "stream_ok st' rest" "holds r1 q body (length body)"
        "m_nBodySize q = int (length body)" "body = [] \<or> m_body q \<noteq> None"
      using *(2) by (simp_all add: played_def)
    have nx: "RTMP_GetNextMediaPacket k fuel junk r zero_packet = Some (1, ?r, q)"
      using *(1) less.prems(4) by (simp add: RTMP_GetNextMediaPacket_def)
    have hr: "holds ?r q body (length body)" "playing ?r K' st' (wire_stream K' st' rest @ xs)" using pl(1,4) by (simp_all add: playing_def)
    have bq: "body_of ?r q = Some body" by (rule body_of_holds [OF hr(1) pl(5,6)])
    obtain r2 where r2: "RTMPPacket_Free ?r q = Some (r2, q\<lparr>m_body := None\<rparr>)" "playing r2 K' st' (wire_stream K' st' rest @ xs)"
      using playing_free [OF hr] by blast
    have "m = length (filter media_message (received st' rest))" "weight rest \<le> k" using *(3,4) Suc less.prems(4,5) by simp_all
    then obtain r3 qs where "play k fuel junk m r2 = Some (r3, qs)" "map message qs = filter media_message (received st' rest)"
      using less.hyps [OF *(4) pl(3,2) r2(2)] by blast
    then show ?thesis using Suc nx bq r2(1) *(3) by simp
  qed
qed

lemma send_stream_wire:
  "stream_ok st ps \<Longrightarrow> out_channels st s \<Longrightarrow> writable s \<Longrightarrow> 0 < m_outChunkSize s \<Longrightarrow>
   \<exists>s'. send_stream s ps = Some (True, s') \<and> net_out s' = net_out s @ wire_stream (m_outChunkSize s) st ps"
proof (induction ps arbitrary: st s)
  case (Cons pb ps)
  obtain p body where pb: "pb = (p, body)" by (cases pb)
  have ok: "sendable st p" "m_nBodySize p = int (length body)" "streamable p body" "stream_ok (after_packet st p) ps"
    using Cons.prems(1) by (simp_all add: pb stream_ok_Cons)
  obtain s1 where s1: "send_new s p body = Some (True, s1)" "writable s1" "m_outChunkSize s1 = m_outChunkSize s" "out_channels (after_packet st p) s1"
      "net_out s1 = net_out s @ wire (nat (m_outChunkSize s)) (p\<lparr>m_headerType := sent_type st p\<rparr>) (sent_stamp st p) body"
    using send_new_wire [OF ok(1) Cons.prems(2-4) ok(2)] by blast
  let ?s = "s1\<lparr>m_outChunkSize := new_size (m_outChunkSize s1) p body\<rparr>"
  have "out_channels (after_packet st p) ?s" "writable ?s" "0 < m_outChunkSize ?s"
    using s1(2-4) new_size_pos [OF ok(3) Cons.prems(4)] by (simp_all add: out_channels_def writable_def RTMP_IsConnected_def)
  then show ?case using Cons.IH [OF ok(4), of ?s] s1(1,3,5) by (auto simp: pb)
qed simp

section \<open>Ping\<close>

definition ctrl_packet :: "int \<Rightarrow> RTMPPacket" where
  "ctrl_packet n = (local_packet 2 1 4 0 0)\<lparr>m_nBodySize := n\<rparr>"

lemma send_pong:
  fixes r :: RTMP
  defines "prev \<equiv> chan (m_vecChannelsOut r) 2"
  assumes "writable r" "0 < m_outChunkSize r" "\<forall>b \<ge> mem_next r. blocks r b = None"
  shows "\<exists>s v. RTMP_SendCtrl r 7 t 0 = Some (True, (sent r (wire (nat (m_outChunkSize r))
      ((ctrl_packet 6)\<lparr>m_headerType := header_type prev (ctrl_packet 6)\<rparr>) (- last_stamp prev (ctrl_packet 6)) ([0, 7] @ be32 (uint t))) s)
        \<lparr>m_vecChannelsOut := v, mem_next := Suc (mem_next r)\<rparr>) \<and>
    writable (sent r (wire (nat (m_outChunkSize r))
      ((ctrl_packet 6)\<lparr>m_headerType := header_type prev (ctrl_packet 6)\<rparr>) (- last_stamp prev (ctrl_packet 6)) ([0, 7] @ be32 (uint t))) s)"
proof -
  let ?b = "mem_next r" and ?body = "[0, 7] @ be32 (uint t)" and ?z = "replicate 18 (0 :: byte)" and ?y = "replicate 232 (0 :: byte)"
  have z: "pbuf_new 256 = ?z @ replicate 238 0" by (simp add: pbuf_new_def flip: replicate_add)
  have "AMF_EncodeInt16 (pbuf_new 256) 18 256 7 = Some (Some 20, ?z @ [0, 7] @ replicate 236 0)"
    using wrote_int16 [of "replicate 238 0" ?z 256 7] unfolding z by (simp add: be16_def)
  moreover have "AMF_EncodeInt32 ((?z @ [0, 7]) @ replicate 236 0) 20 256 (int32 (uint t)) = Some (Some 24, ?z @ ?body @ ?y)"
    using wrote_int32 [of "replicate 236 0" "?z @ [0, 7]" 256 "int32 (uint t)"] by (simp add: be_int32)
  ultimately have pb: "RTMP_SendCtrl r 7 t 0 = send_local RTMP_Close r (local_packet 2 1 4 0 0) (?z @ ?body @ ?y) 6 False"
    by (simp add: RTMP_SendCtrl_def RTMP_MAX_HEADER_SIZE_def must_def)
  let ?p = "(local_packet 2 1 4 0 0)\<lparr>m_nBodySize := 6, m_body := Some (?b, int (length ?z))\<rparr>"
  let ?r = "r\<lparr>blocks := (blocks r)(?b \<mapsto> ?z @ ?body @ ?y), mem_next := Suc ?b\<rparr>"
  have "writable ?r" "0 < m_outChunkSize ?r" "0 \<le> m_headerType ?p" "m_headerType ?p \<le> 3" "0 \<le> m_nChannel ?p" "m_body ?p = Some (?b, int (length ?z))"
      "blocks ?r ?b = Some (?z @ ?body @ ?y)" "18 \<le> length ?z" "m_nBodySize ?p = int (length ?body)" "m_nBodySize ?p < 2 ^ 31"
    using assms(2,3) by (simp_all add: writable_def RTMP_IsConnected_def local_packet_def)
  from RTMP_SendPacket_sends [OF this, of RTMP_Close False]
  obtain s blk' where sp: "RTMP_SendPacket RTMP_Close ?r ?p False = do {
        r' \<leftarrow> queue_method (sent (?r\<lparr>m_vecChannelsOut := grow (m_vecChannelsOut ?r) (m_nChannel ?p) None, blocks := (blocks ?r)(?b \<mapsto> blk')\<rparr>)
            (wire (nat (m_outChunkSize ?r)) (?p\<lparr>m_headerType := header_type (chan (m_vecChannelsOut ?r) (m_nChannel ?p)) ?p\<rparr>)
              (m_nTimeStamp ?p - last_stamp (chan (m_vecChannelsOut ?r) (m_nChannel ?p)) ?p) ?body) s)
          (?p\<lparr>m_headerType := header_type (chan (m_vecChannelsOut ?r) (m_nChannel ?p)) ?p\<rparr>) False;
        Some (True, r'\<lparr>m_vecChannelsOut := (grow (m_vecChannelsOut ?r) (m_nChannel ?p) None)
            [nat (m_nChannel ?p) := Some (?p\<lparr>m_headerType := header_type (chan (m_vecChannelsOut ?r) (m_nChannel ?p)) ?p\<rparr>)]\<rparr>,
          ?p\<lparr>m_headerType := header_type (chan (m_vecChannelsOut ?r) (m_nChannel ?p)) ?p\<rparr>)
      }" and w: "writable (sent ?r (wire (nat (m_outChunkSize ?r)) (?p\<lparr>m_headerType := header_type (chan (m_vecChannelsOut ?r) (m_nChannel ?p)) ?p\<rparr>)
              (m_nTimeStamp ?p - last_stamp (chan (m_vecChannelsOut ?r) (m_nChannel ?p)) ?p) ?body) s)"
    by blast
  have pc: "?p = (ctrl_packet 6)\<lparr>m_body := Some (?b, 18), m_nBytesRead := 0\<rparr>" by (simp add: ctrl_packet_def local_packet_def)
  have n: "m_nChannel (ctrl_packet 6) = 2" "m_nTimeStamp (ctrl_packet 6) = 0" "m_packetType (ctrl_packet 6) = 4"
    by (simp_all add: ctrl_packet_def local_packet_def)
  obtain v p' where "RTMP_SendPacket RTMP_Close ?r ?p False = Some (True, (sent (?r\<lparr>blocks := (blocks ?r)(?b \<mapsto> blk')\<rparr>)
      (wire (nat (m_outChunkSize r)) ((ctrl_packet 6)\<lparr>m_headerType := header_type prev (ctrl_packet 6)\<rparr>) (- last_stamp prev (ctrl_packet 6)) ?body) s)
        \<lparr>m_vecChannelsOut := v\<rparr>, p')"
    using sp unfolding pc by (simp add: n compress_body wire_body queue_method_def prev_def sent_def)
  moreover have "writable (sent r (wire (nat (m_outChunkSize r)) ((ctrl_packet 6)\<lparr>m_headerType := header_type prev (ctrl_packet 6)\<rparr>) (- last_stamp prev (ctrl_packet 6)) ?body) s)"
    using w unfolding pc by (simp add: n compress_body wire_body prev_def sent_def writable_def RTMP_IsConnected_def)
  ultimately show ?thesis unfolding pb
    using assms(4) by (intro exI [of _ s] exI [of _ v]) (simp add: send_local_def malloc_def release_def RTMP_MAX_HEADER_SIZE_def sent_def fresh_upd)
qed

end
