(* ===== verification/Rtmp_Theorems.thy ===== *)
theory Rtmp_Theorems
  imports Rtmp_Dangling Rtmp_Play
begin

text \<open>
  The theorems about the chunk layer of RTMP (rtmp.c), and sample connections for their witnesses.
\<close>

section \<open>Samples\<close>

text \<open>A connection after \<open>RTMP_Init\<close>, with a socket, whose calls of \<open>recv\<close> return what is given.\<close>

definition m_conn :: "recv_result list \<Rightarrow> RTMP" where
  "m_conn script =
     (let r = RTMP_Init (blank_rtmp script []) in r\<lparr>m_sb := (m_sb r)\<lparr>sb_socket := 5\<rparr>\<rparr>)"

definition m_pkt :: "int \<Rightarrow> int \<Rightarrow> int \<Rightarrow> 32 word \<Rightarrow> int \<Rightarrow> RTMPPacket" where
  "m_pkt ht ty n t sz = zero_packet\<lparr>m_headerType := ht, m_packetType := ty, m_nChannel := n, m_nTimeStamp := t, m_nBodySize := sz\<rparr>"

section \<open>Theorems\<close>

text \<open>C4. Packets that one connection sends arrive at the other: for any sequence of packets on any channels, with bodies of up to 16 MB,
  \<open>RTMP_SendPacket\<close> sends the bytes of the format, and whoever reads them with the same chunk size gets, packet by packet, the same
  channel, type, time stamp, stream and body, however \<open>recv\<close> cuts the bytes into pieces, with all memory of the packets valid, and
  nothing is left over.  The first packet of a channel has a full header (type 0); a later one may have the medium one (type 1, which
  \<open>RTMP_SendPacket\<close> shortens further) if it stays in the stream of the packet before.  Two cases are excluded: a packet with a medium header that
  repeats the size, type and time stamp of the packet before on its channel, unless the time difference stored for the channel is zero (its
  time stamp would change), and an invocation (type 0x14) with fewer than three bytes of body.  Fewer than 1.9 GB arrive.\<close>

theorem rtmp_roundtrip:
  assumes "sendable_all Map.empty ps" "exact Map.empty ps" "writable s" "0 < m_outChunkSize s" "net_out s = []"
    and "\<forall>(p, body) \<in> set ps. length body < k"
    and "rx r (wire_all (nat (m_outChunkSize s)) Map.empty ps)" "m_inChunkSize r = m_outChunkSize s"
    and "length (m_channelTimestamp r) = length (m_vecChannelsIn r)"
  shows "\<exists>s' r' qs. send_all s ps = Some (True, s') \<and> net_out s' = wire_all (nat (m_outChunkSize s)) Map.empty ps \<and>
     receive_all k (length ps) r = Some (r', qs) \<and> map message qs = map message ps \<and> rx r' []"
proof -
  have "received Map.empty ps = map message ps" by (rule received_exact [OF assms(2)]) simp
  then show ?thesis using session [OF assms(1,3-9)] by simp
qed

text \<open>Three packets in chunks of two bytes: a full header, one with a new time stamp only, and one on a channel with a two byte number
  and a time stamp of four bytes.\<close>

definition m_packets :: "(RTMPPacket \<times> bytes) list" where
  "m_packets = [(m_pkt 0 9 3 1000 5, [1, 2, 3, 4, 5]), (m_pkt 1 9 3 1040 5, [6, 7, 8, 9, 10]), (m_pkt 0 8 70 0x1000000 1, [11])]"

definition m_wire :: bytes where
  "m_wire = [3, 0, 3, 232, 0, 0, 5, 9, 0, 0, 0, 0, 1, 2, 195, 3, 4, 195, 5, 131, 0, 0, 40, 6, 7, 195, 8, 9, 195, 10,
     0, 6, 255, 255, 255, 0, 0, 1, 8, 0, 0, 0, 0, 1, 0, 0, 0, 11]"

definition m_sender :: RTMP where
  "m_sender = (m_conn [])\<lparr>m_outChunkSize := 2\<rparr>"

definition m_receiver :: RTMP where
  "m_receiver = (m_conn [Received (take 7 m_wire), Recv_error EINTR, Received (drop 7 m_wire)])\<lparr>m_inChunkSize := 2\<rparr>"

lemma m_wire_all: "wire_all 2 Map.empty m_packets = m_wire"
  by code_simp

lemma m_sendable: "sendable_all Map.empty m_packets" "exact Map.empty m_packets"
  by code_simp+

lemmas conn_simps = m_conn_def RTMP_Init_def zero_rtmp_def blank_rtmp_def Let_def

theorem rtmp_roundtrip_witness:
  "\<exists>s' r' qs. send_all m_sender m_packets = Some (True, s') \<and> net_out s' = m_wire \<and>
     receive_all 6 3 m_receiver = Some (r', qs) \<and> map message qs = map message m_packets"
proof -
  have s: "writable m_sender" "m_outChunkSize m_sender = 2" "net_out m_sender = []"
    by (simp_all add: m_sender_def conn_simps writable_def RTMP_IsConnected_def)
  have r: "m_inChunkSize m_receiver = 2" "m_channelTimestamp m_receiver = []" "m_vecChannelsIn m_receiver = []" "rx m_receiver m_wire"
    by (simp_all add: m_receiver_def conn_simps RTMP_DEFAULT_CHUNKSIZE_def rx_def writable_def RTMP_IsConnected_def pending_def m_wire_def)
  have "\<forall>(p, body) \<in> set m_packets. length body < 6" "length m_packets = 3" by (simp_all add: m_packets_def)
  then show ?thesis using rtmp_roundtrip [of m_packets m_sender 6 m_receiver] m_sendable m_wire_all s r by auto
qed

text \<open>C33. A packet that repeats the size, the type and the time stamp of the packet before it on its channel is sent with a header of one byte.  The
  peer reads such a header as one with the same difference of time stamps again, not as one with no difference: after a
  packet with a full header, whose difference is its time stamp, the packet arrives with twice the time stamp it was sent with.\<close>

theorem rtmp_repeated_stamp_doubled:
  assumes "valid_packet p" "m_headerType p = 0" "m_packetType p \<noteq> 0x14" "m_nBodySize p = int (length body)" "length body' = length body"
    and "writable s" "0 < m_outChunkSize s" "net_out s = []" "length body < k" "ps = [(p, body), (p\<lparr>m_headerType := 1\<rparr>, body')]"
    and "rx r (wire_all (nat (m_outChunkSize s)) Map.empty ps)" "m_inChunkSize r = m_outChunkSize s"
    and "length (m_channelTimestamp r) = length (m_vecChannelsIn r)"
  shows "\<exists>s' r' q q'. send_all s ps = Some (True, s') \<and> net_out s' = wire_all (nat (m_outChunkSize s)) Map.empty ps \<and>
     receive_all k 2 r = Some (r', [(q, body), (q', body')]) \<and> m_nTimeStamp q = m_nTimeStamp p \<and> m_nTimeStamp q' = 2 * m_nTimeStamp p"
proof -
  have "sendable_all Map.empty ps" using assms(1-5) by (simp add: assms(10) sendable_def after_packet_def valid_packet_def)
  moreover have "\<forall>(p, body) \<in> set ps. length body < k" using assms(5,9) by (simp add: assms(10))
  ultimately obtain s' r' qs where *: "send_all s ps = Some (True, s')" "net_out s' = wire_all (nat (m_outChunkSize s)) Map.empty ps"
      "receive_all k (length ps) r = Some (r', qs)" "map message qs = received Map.empty ps"
    using session [OF _ assms(6-8) _ assms(11-13)] by blast
  have st: "recv_stamp (after_packet Map.empty p) (p\<lparr>m_headerType := 1\<rparr>) = 2 * m_nTimeStamp p" "recv_stamp Map.empty p = m_nTimeStamp p"
    using assms(2) by (simp_all add: recv_stamp_def after_packet_def recv_delta_def sent_type_def sent_stamp_def repeats_def)
  then obtain q q' where q: "qs = [(q, body), (q', body')]" "m_nTimeStamp q = m_nTimeStamp p" "m_nTimeStamp q' = 2 * m_nTimeStamp p"
    using *(4) by (auto simp: assms(10) message_def)
  have "length ps = 2" by (simp add: assms(10))
  then show ?thesis using *(1-3) q by (intro exI [of _ s'] exI [of _ r'] exI [of _ q] exI [of _ q']) simp
qed

theorem rtmp_repeated_stamp_doubled_witness:
  "\<exists>s' r' q q'. send_all ((m_conn [])\<lparr>m_outChunkSize := 128\<rparr>) [(m_pkt 0 8 4 1000 1, [5]), (m_pkt 1 8 4 1000 1, [6])] = Some (True, s') \<and>
     receive_all 2 2 (m_conn [Received (net_out s')]) = Some (r', [(q, [5]), (q', [6])]) \<and> m_nTimeStamp q = 1000 \<and> m_nTimeStamp q' = 2000"
proof -
  let ?p = "m_pkt 0 8 4 1000 1"
  have p: "valid_packet ?p" "m_headerType ?p = 0" "m_packetType ?p = 8" "m_nBodySize ?p = 1" "?p\<lparr>m_headerType := 1\<rparr> = m_pkt 1 8 4 1000 1" "m_nTimeStamp ?p = 1000"
    by (simp_all add: m_pkt_def valid_packet_def zero_packet_def)
  let ?w = "[4, 0, 3, 232, 0, 0, 1, 8, 0, 0, 0, 0, 5, 196, 6] :: bytes"
  have w: "wire_all 128 Map.empty [(m_pkt 0 8 4 1000 1, [5]), (m_pkt 1 8 4 1000 1, [6])] = ?w" by code_simp
  have s: "writable ((m_conn [])\<lparr>m_outChunkSize := 128\<rparr>)" "net_out (m_conn []) = []" by (simp_all add: conn_simps writable_def RTMP_IsConnected_def)
  have r: "m_inChunkSize (m_conn [Received ?w]) = 128" "m_channelTimestamp (m_conn [Received ?w]) = []" "m_vecChannelsIn (m_conn [Received ?w]) = []"
      "rx (m_conn [Received ?w]) ?w"
    by (simp_all add: conn_simps RTMP_DEFAULT_CHUNKSIZE_def rx_def writable_def RTMP_IsConnected_def pending_def)
  show ?thesis
    using rtmp_repeated_stamp_doubled [of ?p "[5]" "[6]" "(m_conn [])\<lparr>m_outChunkSize := 128\<rparr>" 2 _ "m_conn [Received ?w]", OF p(1,2) _ _ _ s(1) _ _ _ refl] p s r w by auto
qed

text \<open>C32. When a channel gets the medium header (type 1: time stamp, size and type, but no stream) of a new message before the last message, longer than a
  chunk, is complete, and the connection ends before the first chunk of the new message, the body of the old message is freed twice:
  \<open>RTMP_ReadPacket\<close> frees it when it reads the size, \<open>RTMP_Close\<close> frees it again through the channel.  The first call returns an
  incomplete packet, the second is undefined behaviour, whatever the bodies are, for a new size above zero, a new time stamp
  below 0xffffff, and while no stream has been created on the connection (\<open>m_stream_id\<close> not positive).\<close>

theorem rtmp_interrupted_message_double_free:
  assumes "valid_packet p" "m_headerType p = 0" "m_nBodySize p = int (length body)" "m_inChunkSize r < int (length body)"
    and "valid_packet p2" "m_headerType p2 = 1" "m_nChannel p2 = m_nChannel p" "0 < m_nBodySize p2" "t2 < 0xffffff"
    and "0 < m_inChunkSize r" "rx r (header_bytes p t @ take (nat (m_inChunkSize r)) body @ header_bytes p2 t2)"
    and "length (m_channelTimestamp r) = length (m_vecChannelsIn r)" "m_stream_id r \<le> 0"
  shows "\<exists>r' q. RTMP_ReadPacket r empty_packet = Some (True, r', q) \<and> \<not> RTMPPacket_IsReady q \<and> RTMP_ReadPacket r' q = None"
proof -
  let ?n = "m_nChannel p"
  have n: "2 \<le> ?n" "length body < 2 ^ 24" using assms(1,3) by (simp_all add: valid_packet_def)
  define m where "m = min (nat (m_inChunkSize r)) (length body - 0)"
  have m: "m = nat (m_inChunkSize r)" "m < length body" using assms(4,10) by (simp_all add: m_def)
  define B where "B = base_packet (m_vecChannelsIn r) empty_packet (m_headerType p) ?n"
  define q1 where "q1 = header_fields p t B"
  have B: "m_body B = None" "m_chunk B = None" "m_nChannel B = ?n" "m_nBytesRead q1 = 0" "m_nBodySize q1 = int (length body)"
    using assms(2,3) by (simp_all add: B_def base_packet_def empty_packet_def local_packet_def q1_def header_fields_def)
  have rx: "rx r (header_bytes p t @ take m (drop 0 body) @ header_bytes p2 t2)" using assms(11) m(1) by simp
  have "\<exists>r' q res. RTMP_ReadPacket r empty_packet = Some (True, r', res) \<and> rx r' (header_bytes p2 t2) \<and> after_chunk (grow_in r ?n) q body (0 + m) r' res \<and>
     (q = q1 \<or> m_body B = None \<and> body \<noteq> [] \<and> (\<exists>b \<ge> mem_next r. q = q1\<lparr>m_body := Some (b, 18), m_headerType := m_headerType p\<rparr>)) \<and> (body = [] \<or> m_body q \<noteq> None) \<and>
     (\<forall>c < mem_next r. (\<forall>i. m_body q \<noteq> Some (c, i)) \<longrightarrow> blocks r' c = blocks r c)"
    by (rule RTMP_ReadPacket_reads [OF assms(1) rx assms(10) m_def _ n(2) assms(12) B_def q1_def]) (use B in simp_all)
  then obtain r1 q res where r1: "RTMP_ReadPacket r empty_packet = Some (True, r1, res)" "rx r1 (header_bytes p2 t2)" "after_chunk (grow_in r ?n) q body m r1 res"
      "q = q1 \<or> (\<exists>b. q = q1\<lparr>m_body := Some (b, 18), m_headerType := m_headerType p\<rparr>)" "m_body q \<noteq> None"
    using m(2) unfolding add_0 by (metis less_zeroE list.size(3))
  have q: "m_nChannel q = ?n" "m_chunk q = None" "m_nBodySize q = int (length body)" using r1(4) B by (auto simp: q1_def)
  have nr: "\<not> RTMPPacket_IsReady res" using r1(3) m(2) q(3) by (simp add: after_chunk_def Let_def RTMPPacket_IsReady_def)
  note g = grow_in_channels [OF _ assms(12), of ?n]
  have vec: "m_vecChannelsIn r1 = (m_vecChannelsIn (grow_in r ?n))[nat ?n := Some (q\<lparr>m_nBytesRead := int m\<rparr>)]"
      "m_channelTimestamp r1 = m_channelTimestamp (grow_in r ?n)" "m_stream_id r1 = m_stream_id r" "m_inChunkSize r1 = m_inChunkSize r"
    using r1(3) m(2) q(1) by (simp_all add: after_chunk_def Let_def grow_in_def)
  obtain b x where b: "m_body q = Some (b, 18)" "blocks r1 b = Some x"
    using r1(3,5) by (auto simp: after_chunk_def holds_def split: option.splits)
  have "RTMP_ReadPacket r1 res = None"
    by (rule interrupted_message [OF assms(5,6,9,8) r1(2), where q = "q\<lparr>m_nBytesRead := int m\<rparr>" and b = b and x = x])
      (use assms(7,10,13) vec g n(1) b q in \<open>simp_all add: chan_def\<close>)
  then show ?thesis using r1(1) nr by blast
qed

theorem rtmp_interrupted_message_double_free_witness:
  "\<exists>r' q. RTMP_ReadPacket ((m_conn [Received [3, 0, 0, 0, 0, 0, 3, 9, 0, 0, 0, 0, 1, 2, 67, 0, 0, 0, 0, 0, 3, 9]])\<lparr>m_inChunkSize := 2\<rparr>) empty_packet
     = Some (True, r', q) \<and> \<not> RTMPPacket_IsReady q \<and> RTMP_ReadPacket r' q = None"
proof -
  let ?p = "m_pkt 0 9 3 0 3" and ?p2 = "m_pkt 1 9 3 0 3" and ?bs = "[3, 0, 0, 0, 0, 0, 3, 9, 0, 0, 0, 0, 1, 2, 67, 0, 0, 0, 0, 0, 3, 9] :: bytes"
  let ?r = "(m_conn [Received ?bs])\<lparr>m_inChunkSize := 2\<rparr>"
  have p: "valid_packet ?p" "m_headerType ?p = 0" "m_nBodySize ?p = 3" "valid_packet ?p2" "m_headerType ?p2 = 1" "m_nBodySize ?p2 = 3" "m_nChannel ?p2 = m_nChannel ?p"
    by (simp_all add: m_pkt_def valid_packet_def zero_packet_def)
  have "header_bytes ?p 0 @ take 2 [1, 2, 3] @ header_bytes ?p2 0 = ?bs" by code_simp
  moreover have "rx ?r ?bs" "m_channelTimestamp ?r = []" "m_vecChannelsIn ?r = []" "m_stream_id ?r = 0"
    by (simp_all add: conn_simps rx_def writable_def RTMP_IsConnected_def pending_def RTMP_DEFAULT_CHUNKSIZE_def)
  ultimately show ?thesis
    using rtmp_interrupted_message_double_free [of ?p "[1, 2, 3]" ?r ?p2 0 0] p by simp
qed

section \<open>Clients\<close>

text \<open>C5. A client that plays a stream gets every media packet: when a server sends a sequence of audio and video packets, messages of types
  the client does not know, and changes of the chunk size, which it applies to what it sends afterwards, then calls of
  \<open>RTMP_GetNextMediaPacket\<close> return the media packets one after the other, each with the channel, time stamp, stream and body it was
  sent with; everything else is consumed and freed on the way.  As for the single packets, the first packet of a channel has a full header, a medium
  header (type 1) is used only within the same stream, and no packet with a medium header repeats the size, type and time stamp of the packet
  before on its channel, unless the time difference stored for the channel is zero: such a packet would arrive with another time stamp.  The
  client is not pausing.\<close>

theorem rtmp_media_played:
  assumes "stream_ok Map.empty ps" "exact Map.empty ps" "writable s" "0 < m_outChunkSize s" "net_out s = []" "weight ps \<le> k"
    and "playing r (m_outChunkSize s) Map.empty (wire_stream (m_outChunkSize s) Map.empty ps)"
  shows "\<exists>s' r' qs. send_stream s ps = Some (True, s') \<and> net_out s' = wire_stream (m_outChunkSize s) Map.empty ps \<and>
     play k fuel junk (length (filter (\<lambda>(p, body). is_media p) ps)) r = Some (r', qs) \<and>
     map message qs = map message (filter (\<lambda>(p, body). is_media p) ps)"
proof -
  have "received Map.empty ps = map message ps" by (rule received_exact [OF assms(2)]) simp
  moreover have "filter media_message (map message ps) = map message (filter (\<lambda>(p, body). is_media p) ps)"
    by (induction ps) (auto simp: media_message_def message_def is_media_def)
  ultimately have f: "filter media_message (received Map.empty ps) = map message (filter (\<lambda>(p, body). is_media p) ps)" by simp
  have "playing r (m_outChunkSize s) Map.empty (wire_stream (m_outChunkSize s) Map.empty ps @ [])" using assms(7) by simp
  from play_plays [OF assms(1,4) this assms(6) refl, of fuel junk] obtain r' qs
    where "play k fuel junk (length (filter (\<lambda>(p, body). is_media p) ps)) r = Some (r', qs)" "map message qs = map message (filter (\<lambda>(p, body). is_media p) ps)"
    unfolding f by auto
  moreover have "out_channels Map.empty s" by (simp add: out_channels_def)
  then obtain s' where "send_stream s ps = Some (True, s')" "net_out s' = wire_stream (m_outChunkSize s) Map.empty ps"
    using send_stream_wire [OF assms(1) _ assms(3,4)] assms(5) by auto
  ultimately show ?thesis by blast
qed

text \<open>Audio in chunks of 128 bytes, a chunk size of two, a message that is ignored, and video.\<close>

definition m_media :: "(RTMPPacket \<times> bytes) list" where
  "m_media = [(m_pkt 0 8 4 20 1, [7]), (m_pkt 0 1 2 0 4, be32 2), (m_pkt 0 3 2 0 3, [1, 1, 1]), (m_pkt 0 9 6 40 3, [1, 2, 3])]"

definition m_stream_wire :: bytes where
  "m_stream_wire = [4, 0, 0, 20, 0, 0, 1, 8, 0, 0, 0, 0, 7, 2, 0, 0, 0, 0, 0, 4, 1, 0, 0, 0, 0, 0, 0, 0, 2,
     2, 0, 0, 0, 0, 0, 3, 3, 0, 0, 0, 0, 1, 1, 194, 1, 6, 0, 0, 40, 0, 0, 3, 9, 0, 0, 0, 0, 1, 2, 198, 3]"

lemma m_stream_ok: "stream_ok Map.empty m_media" "exact Map.empty m_media"
proof -
  have "sendable_all Map.empty m_media" by code_simp
  moreover have "\<exists>n. be32 2 = be32 n \<and> 0 < n \<and> n < 2147483648" by (rule exI [of _ 2]) simp
  ultimately show "stream_ok Map.empty m_media"
    by (simp add: stream_ok_def) (simp add: m_media_def streamable_def m_pkt_def is_media_def is_ignored_def)
  show "exact Map.empty m_media" by code_simp
qed

lemma m_stream_bytes: "wire_stream 128 Map.empty m_media = m_stream_wire"
  by code_simp

theorem rtmp_media_played_witness:
  "\<exists>s' r' qs. send_stream (m_conn []) m_media = Some (True, s') \<and> net_out s' = m_stream_wire \<and>
     play 100 10 AMFProp_Invalid 2 (m_conn [Received m_stream_wire]) = Some (r', qs) \<and>
     map message qs = [(4, 8, 20, 0, [7]), (6, 9, 40, 0, [1, 2, 3])]"
proof -
  have s: "writable (m_conn [])" "m_outChunkSize (m_conn []) = 128" "net_out (m_conn []) = []"
    by (simp_all add: conn_simps writable_def RTMP_IsConnected_def RTMP_DEFAULT_CHUNKSIZE_def)
  have r: "playing (m_conn [Received m_stream_wire]) 128 Map.empty m_stream_wire"
    by (simp add: playing_def conn_simps RTMP_DEFAULT_CHUNKSIZE_def rx_def writable_def RTMP_IsConnected_def pending_def in_channels_def m_stream_wire_def)
  have f: "filter (\<lambda>(p, body). is_media p) m_media = [(m_pkt 0 8 4 20 1, [7]), (m_pkt 0 9 6 40 3, [1, 2, 3])]" "weight m_media \<le> 100"
    by (simp_all add: m_media_def is_media_def m_pkt_def weight_def)
  have "map message [(m_pkt 0 8 4 20 1, [7]), (m_pkt 0 9 6 40 3, [1, 2, 3])] = [(4, 8, 20, 0, [7]), (6, 9, 40, 0, [1, 2, 3])]"
    by (simp add: message_def m_pkt_def zero_packet_def)
  then show ?thesis
    using rtmp_media_played [OF m_stream_ok s(1) _ s(3) f(2), of "m_conn [Received m_stream_wire]" 10 AMFProp_Invalid] s(2) m_stream_bytes r f(1)
    by (simp add: numeral_2_eq_2 del: play.simps)
qed

text \<open>C34. A ping of the server is answered with a pong that carries the time of the ping, in a packet that follows the format, and the client can
  go on reading.\<close>

theorem rtmp_ping_answered:
  fixes t :: "32 word"
  assumes "rx r bs" "m_packetType q = 4" "m_nBodySize q = 6" "m_body q = Some (b, i)" "blocks r b = Some (z @ [0, 6] @ be32 (uint t) @ y)" "i = int (length z)"
    and "prev = chan (m_vecChannelsOut r) 2" "p = (ctrl_packet 6)\<lparr>m_headerType := header_type prev (ctrl_packet 6)\<rparr>"
  shows "\<exists>r'. RTMP_ClientPacket fuel junk r q = Some (0, r') \<and>
     net_out r' = net_out r @ wire (nat (m_outChunkSize r)) p (- last_stamp prev (ctrl_packet 6)) ([0, 7] @ be32 (uint t)) \<and> rx r' bs"
proof -
  let ?blk = "z @ [0, 6] @ be32 (uint t) @ y"
  have ty: "AMF_DecodeInt16 ?blk i = Some 6" using read_int16 [of z 6 "be32 (uint t) @ y"] by (simp add: assms(6) be16_def)
  have tm: "AMF_DecodeInt32 ?blk (i + 2) = Some (uint t)" using read_int32 [of "z @ [0, 6]" "uint t" y] uint_lt2p [of t]
    by (simp add: assms(6) take_bit_int_eq_self add.commute)
  have "writable r" "0 < m_outChunkSize r" "\<forall>b \<ge> mem_next r. blocks r b = None" using assms(1) by (simp_all add: rx_def)
  from send_pong [OF this, of t] obtain s v where sp: "RTMP_SendCtrl r 7 t 0 = Some (True, (sent r (wire (nat (m_outChunkSize r)) p (- last_stamp prev (ctrl_packet 6)) ([0, 7] @ be32 (uint t))) s)
        \<lparr>m_vecChannelsOut := v, mem_next := Suc (mem_next r)\<rparr>)" "writable (sent r (wire (nat (m_outChunkSize r)) p (- last_stamp prev (ctrl_packet 6)) ([0, 7] @ be32 (uint t))) s)"
    unfolding assms(7,8) by blast
  have pb: "packet_bytes r q = Some (?blk, i)" by (simp add: packet_bytes_def assms(4,5))
  have "HandleCtrl r q = Some ((sent r (wire (nat (m_outChunkSize r)) p (- last_stamp prev (ctrl_packet 6)) ([0, 7] @ be32 (uint t))) s)
        \<lparr>m_vecChannelsOut := v, mem_next := Suc (mem_next r)\<rparr>)"
    unfolding HandleCtrl_def using assms(3,4) ty tm sp(1) by (simp add: pb short_def)
  then have "RTMP_ClientPacket fuel junk r q = Some (0, (sent r (wire (nat (m_outChunkSize r)) p (- last_stamp prev (ctrl_packet 6)) ([0, 7] @ be32 (uint t))) s)
        \<lparr>m_vecChannelsOut := v, mem_next := Suc (mem_next r)\<rparr>)"
    using assms(2) by (simp add: RTMP_ClientPacket_def)
  moreover have "rx ((sent r (wire (nat (m_outChunkSize r)) p (- last_stamp prev (ctrl_packet 6)) ([0, 7] @ be32 (uint t))) s)
        \<lparr>m_vecChannelsOut := v, mem_next := Suc (mem_next r)\<rparr>) bs"
    using assms(1) sp(2) by (simp add: rx_def sent_def writable_def RTMP_IsConnected_def pending_def)
  ultimately show ?thesis by (simp add: sent_def)
qed

definition m_pinged :: RTMP where
  "m_pinged = (m_conn [])\<lparr>blocks := [0 \<mapsto> replicate 18 0 @ [0, 6, 1, 2, 3, 4]], mem_next := 1\<rparr>"

theorem rtmp_ping_answered_witness:
  "\<exists>r'. RTMP_ClientPacket 1 AMFProp_Invalid m_pinged ((m_pkt 0 4 2 0 6)\<lparr>m_body := Some (0, 18)\<rparr>) = Some (0, r') \<and>
     net_out r' = [66, 0, 0, 0, 0, 0, 6, 4, 0, 7, 1, 2, 3, 4]"
proof -
  let ?q = "(m_pkt 0 4 2 0 6)\<lparr>m_body := Some (0, 18)\<rparr>"
  have r: "rx m_pinged []" "m_vecChannelsOut m_pinged = []" "net_out m_pinged = []" "m_outChunkSize m_pinged = 128"
    by (simp_all add: m_pinged_def conn_simps RTMP_DEFAULT_CHUNKSIZE_def rx_def writable_def RTMP_IsConnected_def pending_def)
  have b: "be32 (uint (0x1020304 :: 32 word)) = [1, 2, 3, 4]" by code_simp
  then have m: "blocks m_pinged 0 = Some (replicate 18 0 @ [0, 6] @ be32 (uint (0x1020304 :: 32 word)) @ [])" by (simp add: m_pinged_def)
  have q: "m_packetType ?q = 4" "m_nBodySize ?q = 6" "m_body ?q = Some (0, 18)" by (simp_all add: m_pkt_def)
  have ht: "header_type None (ctrl_packet 6) = 1" "last_stamp None (ctrl_packet 6) = 0" by code_simp+
  have c: "chan (m_vecChannelsOut m_pinged) 2 = None" using r(2) by (simp add: chan_def)
  have w: "wire 128 ((ctrl_packet 6)\<lparr>m_headerType := 1\<rparr>) 0 [0, 7, 1, 2, 3, 4] = [66, 0, 0, 0, 0, 0, 6, 4, 0, 7, 1, 2, 3, 4]" by code_simp
  show ?thesis
    using rtmp_ping_answered [OF r(1) q m _ refl refl, of 1 AMFProp_Invalid] unfolding c ht b r(3,4) using w by auto
qed

text \<open>C35. A message without a body makes the client dereference a null pointer: the packet is read, it is complete, and
  \<open>RTMP_ClientPacket\<close> is undefined on it, if its type is one of the two bandwidth messages, an invocation or a flex message.\<close>

theorem rtmp_empty_message_crashes:
  assumes "valid_packet p" "m_headerType p = 0" "m_nBodySize p = 0" "m_packetType p \<in> {5, 6, 0x11, 0x14}"
    and "rx r (header_bytes p t @ bs)" "0 < m_inChunkSize r" "length (m_channelTimestamp r) = length (m_vecChannelsIn r)"
  shows "\<exists>r' q. RTMP_ReadPacket r zero_packet = Some (True, r', q) \<and> RTMPPacket_IsReady q \<and> RTMP_ClientPacket fuel junk r' q = None"
proof -
  define B where "B = base_packet (m_vecChannelsIn r) zero_packet (m_headerType p) (m_nChannel p)"
  define q1 where "q1 = header_fields p t B"
  have B: "m_body B = None" "m_chunk B = None" "m_nChannel B = m_nChannel p" "m_nBodySize q1 = 0" "m_nBytesRead q1 = 0" "m_packetType q1 = m_packetType p"
    using assms(2,3) by (simp_all add: B_def base_packet_def zero_packet_def q1_def header_fields_def)
  define body where "body = ([] :: bytes)"
  have rx: "rx r (header_bytes p t @ take 0 (drop 0 body) @ bs)" using assms(5) by simp
  have "\<exists>r' q res. RTMP_ReadPacket r zero_packet = Some (True, r', res) \<and> rx r' bs \<and> after_chunk (grow_in r (m_nChannel p)) q body (0 + 0) r' res \<and>
     (q = q1 \<or> m_body B = None \<and> body \<noteq> [] \<and> (\<exists>b \<ge> mem_next r. q = q1\<lparr>m_body := Some (b, 18), m_headerType := m_headerType p\<rparr>)) \<and> (body = [] \<or> m_body q \<noteq> None) \<and>
     (\<forall>c < mem_next r. (\<forall>i. m_body q \<noteq> Some (c, i)) \<longrightarrow> blocks r' c = blocks r c)"
    by (rule RTMP_ReadPacket_reads [OF assms(1) rx assms(6) _ _ _ assms(7) B_def q1_def]) (use B in \<open>simp_all add: body_def\<close>)
  then obtain r' res where r': "RTMP_ReadPacket r zero_packet = Some (True, r', res)" "after_chunk (grow_in r (m_nChannel p)) q1 body 0 r' res"
    unfolding body_def add_0 by blast
  have q: "m_body res = None" "m_packetType res = m_packetType p" "RTMPPacket_IsReady res"
    using r'(2) B by (simp_all add: body_def after_chunk_def Let_def q1_def RTMPPacket_IsReady_def)
  have "packet_bytes r' res = None" using q(1) by (simp add: packet_bytes_def)
  then have "RTMP_ClientPacket fuel junk r' res = None"
    using assms(4) q(2) by (auto simp: RTMP_ClientPacket_def Let_def HandleServerBW_def HandleClientBW_def client_invoke_def)
  then show ?thesis using r'(1) q(3) by blast
qed

theorem rtmp_empty_message_crashes_witness:
  "\<exists>r' q. RTMP_ReadPacket (m_conn [Received [3, 0, 0, 0, 0, 0, 0, 20, 0, 0, 0, 0]]) zero_packet = Some (True, r', q) \<and> RTMPPacket_IsReady q \<and>
     RTMP_ClientPacket 100 AMFProp_Invalid r' q = None"
proof -
  let ?p = "m_pkt 0 20 3 0 0" and ?bs = "[3, 0, 0, 0, 0, 0, 0, 20, 0, 0, 0, 0] :: bytes"
  have p: "valid_packet ?p" "m_headerType ?p = 0" "m_nBodySize ?p = 0" "m_packetType ?p \<in> {5, 6, 0x11, 0x14}"
    by (simp_all add: m_pkt_def valid_packet_def zero_packet_def)
  have "header_bytes ?p 0 @ [] = ?bs" by code_simp
  moreover have "rx (m_conn [Received ?bs]) ?bs" "0 < m_inChunkSize (m_conn [Received ?bs])"
      "length (m_channelTimestamp (m_conn [Received ?bs])) = length (m_vecChannelsIn (m_conn [Received ?bs]))"
    by (simp_all add: conn_simps rx_def writable_def RTMP_IsConnected_def pending_def RTMP_DEFAULT_CHUNKSIZE_def)
  ultimately show ?thesis using rtmp_empty_message_crashes [OF p, of "m_conn [Received ?bs]" 0 "[]" 100 AMFProp_Invalid] by simp
qed

end
