(* ===== verification/Rtmp_Write.thy ===== *)
theory Rtmp_Write
  imports Rtmp_Read
begin

text \<open>
  Publishing of FLV data (rtmp.c, \<open>RTMP_Write\<close>).  The caller gives the bytes of an FLV file in pieces; each tag becomes a packet, which is
  collected in \<open>m_write\<close> until it is complete.  The buffer has exactly \<open>size\<close> bytes: reading behind it is undefined.
\<close>

definition flv_signature :: "bytes \<Rightarrow> int \<Rightarrow> bool ub" where
  "flv_signature buf i = do {
     c \<leftarrow> peek buf i;
     if c \<noteq> 0x46 then Some False
     else do {
       c \<leftarrow> peek buf (i + 1);
       if c \<noteq> 0x4C then Some False else do { c \<leftarrow> peek buf (i + 2); Some (c = 0x56) }
     }
   }"

text \<open>The start of a packet: the header of the tag, the allocation of the body, and the name that metadata is sent under.\<close>

definition new_packet :: "RTMP \<Rightarrow> bytes \<Rightarrow> int \<Rightarrow> RTMP ub" where
  "new_packet r buf i = do {
     c \<leftarrow> peek buf i;
     n \<leftarrow> AMF_DecodeInt24 buf (i + 1);
     t \<leftarrow> AMF_DecodeInt24 buf (i + 4);
     h \<leftarrow> peek buf (i + 7);
     let ty = uint c;
     let t = word_of_int t OR push_bit 24 (scast h);
     let large = ((ty = 8 \<or> ty = 9) \<and> t = 0 \<or> ty = 0x12);
     let n = (if ty = 0x12 then n + 16 else n);
     let pkt = (m_write r)\<lparr>m_packetType := ty, m_nBodySize := n, m_nTimeStamp := t, m_headerType := if large then 0 else 1\<rparr>;
     let (r, pkt) = RTMPPacket_Alloc r pkt n;
     if ty = 0x12 then do {
       (b, enc) \<leftarrow> deref (m_body pkt);
       blk \<leftarrow> blocks r b;
       (enc', blk) \<leftarrow> AMF_EncodeString blk enc (enc + n) (AVC ''@setDataFrame'');
       enc' \<leftarrow> deref enc';
       Some (r\<lparr>m_write := pkt\<lparr>m_nBytesRead := enc' - enc\<rparr>, blocks := (blocks r)(b \<mapsto> blk)\<rparr>)
     } else Some (r\<lparr>m_write := pkt\<rparr>)
   }"

definition start_packet :: "RTMP \<Rightarrow> bytes \<Rightarrow> int \<Rightarrow> int \<Rightarrow> (RTMP \<times> int \<times> int) ub" where
  "start_packet r buf i s2 = do {
     flv \<leftarrow> flv_signature buf i;
     let skip = (if flv then 13 else 0);
     r \<leftarrow> new_packet r buf (i + skip);
     Some (r, i + skip + 11, s2 - skip - 11)
   }"

text \<open>Sending of the packet.  The packet is a member of the connection: if the connection is closed while it is sent, its body is freed
  there.\<close>

definition send_written :: "RTMP \<Rightarrow> (bool \<times> RTMP) ub" where
  "send_written r = do {
     (ret, r, p) \<leftarrow> RTMP_SendPacket RTMP_Close r (m_write r) False;
     (r, pkt) \<leftarrow> RTMPPacket_Free r ((m_write r)\<lparr>m_headerType := m_headerType p\<rparr>);
     Some (ret, r\<lparr>m_write := pkt\<lparr>m_nBytesRead := 0\<rparr>\<rparr>)
   }"

text \<open>One round of the loop.  Sizes are unsigned numbers of 32 bits, which are equal if their difference is zero.\<close>

definition write_step :: "RTMP \<Rightarrow> bytes \<Rightarrow> int \<Rightarrow> int \<Rightarrow> (bool \<times> RTMP \<times> int \<times> int) ub" where
  "write_step r buf i s2 = do {
     (r, i, s2) \<leftarrow> (if m_nBytesRead (m_write r) = 0 then start_packet r buf i s2 else Some (r, i, s2));
     let pkt = m_write r;
     let num = int32 (m_nBodySize pkt - m_nBytesRead pkt);
     let num = (if num > s2 then s2 else num);
     src \<leftarrow> slice buf i num;
     (b, enc) \<leftarrow> deref (m_body pkt);
     r \<leftarrow> poke r (b, enc + m_nBytesRead pkt) src;
     let pkt = pkt\<lparr>m_nBytesRead := m_nBytesRead pkt + num\<rparr>;
     if int32 (m_nBodySize pkt - m_nBytesRead pkt) = 0 then do {
       (ret, r) \<leftarrow> send_written (r\<lparr>m_write := pkt\<rparr>);
       Some (ret, r, i + num + 4, s2 - num - 4)
     } else Some (True, r\<lparr>m_write := pkt\<rparr>, i + num, s2 - num)
   }"

lemma slice_pos: "slice buf i n = Some bs \<Longrightarrow> 0 \<le> n"
  by (auto simp: slice_def split: if_splits)

text \<open>Every round uses up bytes: a tag header, bytes of the body, or the size behind the tag.\<close>

lemma start_packet_uses: "start_packet r buf i s2 = Some (r', i', s2') \<Longrightarrow> s2' \<le> s2 - 11"
  by (auto simp: start_packet_def bind_eq_Some_conv split: if_splits)

lemma write_step_uses:
  assumes "write_step r buf i s2 = Some (ok, r', i', s2')" "s2 \<noteq> 0"
  shows "s2' < 0 \<or> nat s2' < nat s2"
proof -
  obtain r1 i1 t where 1: "(if m_nBytesRead (m_write r) = 0 then start_packet r buf i s2 else Some (r, i, s2)) = Some (r1, i1, t)"
    using assms(1) by (auto simp: write_step_def bind_eq_Some_conv)
  define d where "d = int32 (m_nBodySize (m_write r1) - m_nBytesRead (m_write r1))"
  define num where "num = (if d > t then t else d)"
  have t: "t = s2 \<or> t \<le> s2 - 11" using 1 start_packet_uses by (auto split: if_splits)
  have n: "0 \<le> num" using assms(1) slice_pos by (auto simp: write_step_def 1 Let_def d_def num_def bind_eq_Some_conv split: if_splits)
  have e: "s2' = t - num - 4 \<or> s2' = t - num \<and> int32 (m_nBodySize (m_write r1) - (m_nBytesRead (m_write r1) + num)) \<noteq> 0"
    using assms(1) by (auto simp: write_step_def 1 Let_def d_def num_def bind_eq_Some_conv split: if_splits)
  have "num \<noteq> 0 \<or> t \<noteq> s2 \<or> s2' = t - num - 4" using e assms(2) by (auto simp: num_def d_def split: if_splits)
  then show ?thesis using t n e by linarith
qed

function write_loop_tags :: "RTMP \<Rightarrow> bytes \<Rightarrow> int \<Rightarrow> int \<Rightarrow> (int \<times> RTMP) ub" where
  "write_loop_tags r buf i s2 =
     (let size = int (length buf)
      in if s2 = 0 then Some (size, r)
         else if m_nBytesRead (m_write r) = 0 \<and> size < 11 then Some (0, r)
         else do {
           (ret, r, i, s2) \<leftarrow> write_step r buf i s2;
           if \<not> ret then Some (- 1, r) else if s2 < 0 then Some (size + s2, r) else write_loop_tags r buf i s2
         })"
  by pat_completeness auto
termination
  by (relation "measure (\<lambda>(_, _, _, s2). nat s2)") (use write_step_uses in \<open>force+\<close>)

declare write_loop_tags.simps [simp del]

definition RTMP_Write :: "RTMP \<Rightarrow> bytes \<Rightarrow> (int \<times> RTMP) ub" where
  "RTMP_Write r buf =
     write_loop_tags (r\<lparr>m_write := (m_write r)\<lparr>m_nChannel := 4, m_nInfoField2 := m_stream_id r\<rparr>\<rparr>) buf 0 (int (length buf))"

end
