(* ===== verification/Rtmp_Publish.thy ===== *)
theory Rtmp_Publish
  imports Rtmp_Write Rtmp_Session
begin

text \<open>
  What \<open>RTMP_Write\<close> sends for the tags of an FLV file.
\<close>

section \<open>FLV data\<close>

type_synonym flv_tag = "byte \<times> 32 word \<times> bytes"

definition tag_head :: "flv_tag \<Rightarrow> bytes" where
  "tag_head tag = (case tag of (ty, t, body) \<Rightarrow>
     ty # be24 (int (length body)) @ be24 (uint t) @ [ucast (drop_bit 24 t), 0, 0, 0])"

definition tag_bytes :: "flv_tag \<Rightarrow> bytes" where
  "tag_bytes tag = tag_head tag @ snd (snd tag) @ be32 (int (length (snd (snd tag))) + 11)"

definition flv_header :: bytes where
  "flv_header = [0x46, 0x4C, 0x56, 1, 5, 0, 0, 0, 9, 0, 0, 0, 0]"

definition good_tag :: "flv_tag \<Rightarrow> bool" where
  "good_tag tag = (case tag of (ty, t, body) \<Rightarrow>
     (ty = 8 \<or> ty = 9 \<or> ty = 0x12 \<and> 2 \<le> length body) \<and> length body + 16 < 2 ^ 24)"

definition tag_body :: "flv_tag \<Rightarrow> bytes" where
  "tag_body tag = (case tag of (ty, t, body) \<Rightarrow> (if ty = 0x12 then enc_string (AVC ''@setDataFrame'') else []) @ body)"

definition tag_packet :: "int \<Rightarrow> flv_tag \<Rightarrow> RTMPPacket" where
  \<comment> \<open>the packet of a tag\<close>
  "tag_packet sid tag = (case tag of (ty, t, body) \<Rightarrow>
     zero_packet\<lparr>m_headerType := if ty = 0x12 \<or> t = 0 then 0 else 1, m_packetType := uint ty, m_nChannel := 4, m_nTimeStamp := t,
       m_nInfoField2 := sid, m_nBodySize := int (length (tag_body tag))\<rparr>)"

definition tag_messages :: "int \<Rightarrow> flv_tag list \<Rightarrow> (RTMPPacket \<times> bytes) list" where
  "tag_messages sid tags = map (\<lambda>tag. (tag_packet sid tag, tag_body tag)) tags"

text \<open>The fields of a packet that are sent.\<close>

definition same_fields :: "RTMPPacket \<Rightarrow> RTMPPacket \<Rightarrow> bool" where
  "same_fields p q \<longleftrightarrow> m_headerType p = m_headerType q \<and> m_packetType p = m_packetType q \<and> m_nChannel p = m_nChannel q \<and>
     m_nTimeStamp p = m_nTimeStamp q \<and> m_nInfoField2 p = m_nInfoField2 q \<and> m_nBodySize p = m_nBodySize q"

lemma same_fields_wire:
  assumes "same_fields p q"
  shows "sendable st p = sendable st q" "sent_type st p = sent_type st q" "sent_stamp st p = sent_stamp st q" "after_packet st p = after_packet st q"
    and "wire K (p\<lparr>m_headerType := h\<rparr>) t body = wire K (q\<lparr>m_headerType := h\<rparr>) t body"
proof -
  have f: "m_headerType p = m_headerType q" "m_packetType p = m_packetType q" "m_nChannel p = m_nChannel q" "m_nTimeStamp p = m_nTimeStamp q"
      "m_nInfoField2 p = m_nInfoField2 q" "m_nBodySize p = m_nBodySize q"
    using assms by (simp_all add: same_fields_def)
  show "sendable st p = sendable st q" unfolding sendable_def valid_packet_def f ..
  show t: "sent_type st p = sent_type st q" "sent_stamp st p = sent_stamp st q" unfolding sent_type_def sent_stamp_def repeats_def f by (rule refl)+
  show "after_packet st p = after_packet st q" unfolding after_packet_def recv_stamp_def recv_delta_def t f ..
  show "wire K (p\<lparr>m_headerType := h\<rparr>) t body = wire K (q\<lparr>m_headerType := h\<rparr>) t body"
    by (simp add: wire_def header_bytes_def field_bytes_def next_header_def f)
qed

section \<open>One tag\<close>

lemma tag_name: "enc_string (AVC ''@setDataFrame'') = [2, 0, 13, 64, 115, 101, 116, 68, 97, 116, 97, 70, 114, 97, 109, 101]"
  by code_simp

lemma tag_stamp: "word_of_int (take_bit 24 (uint t)) OR push_bit 24 (scast (ucast (drop_bit 24 t) :: byte)) = (t :: 32 word)"
  by (rule bit_word_eqI) (auto simp: bit_simps not_less)

lemma tag_reads:
  assumes "buf = pre @ tag_head (ty, t, body) @ rest" "length body < 2 ^ 24" "i = int (length pre)"
  shows "peek buf i = Some ty" "AMF_DecodeInt24 buf (i + 1) = Some (int (length body))" "AMF_DecodeInt24 buf (i + 4) = Some (take_bit 24 (uint t))"
    and "peek buf (i + 7) = Some (ucast (drop_bit 24 t))"
proof -
  let ?n = "be24 (int (length body))" and ?t = "be24 (uint t)" and ?h = "ucast (drop_bit 24 t) :: byte"
  have b: "buf = pre @ ty # ?n @ ?t @ [?h, 0, 0, 0] @ rest" using assms(1) by (simp add: tag_head_def)
  show "peek buf i = Some ty" by (simp add: b assms(3) peek_def)
  have "AMF_DecodeInt24 ((pre @ [ty]) @ ?n @ ?t @ [?h, 0, 0, 0] @ rest) (int (length (pre @ [ty]))) = Some (int (length body))"
    unfolding read_int24 using assms(2) by (simp add: take_bit_int_eq_self)
  then show "AMF_DecodeInt24 buf (i + 1) = Some (int (length body))" by (simp add: b assms(3) add.commute)
  have "AMF_DecodeInt24 ((pre @ [ty] @ ?n) @ ?t @ [?h, 0, 0, 0] @ rest) (int (length (pre @ [ty] @ ?n))) = Some (take_bit 24 (uint t))"
    by (rule read_int24)
  then show "AMF_DecodeInt24 buf (i + 4) = Some (take_bit 24 (uint t))" by (simp add: b assms(3) add.commute)
  have "((pre @ [ty] @ ?n @ ?t) @ ?h # [0, 0, 0] @ rest) ! length (pre @ [ty] @ ?n @ ?t) = ?h" by (rule nth_append_length)
  then show "peek buf (i + 7) = Some ?h" by (simp add: b assms(3) peek_def nat_add_distrib add.commute)
qed

text \<open>\<open>started r tag j\<close>: the connection has read the head of a tag and the first \<open>j\<close> bytes of the packet are in its body.\<close>

definition started :: "RTMP \<Rightarrow> flv_tag \<Rightarrow> nat \<Rightarrow> RTMP" where
  "started r tag j = (case tag of (ty, t, body) \<Rightarrow>
     r\<lparr>m_write := (m_write r)\<lparr>m_packetType := uint ty, m_nBodySize := int (length (tag_body tag)), m_nTimeStamp := t,
         m_headerType := if ty = 0x12 \<or> t = 0 then 0 else 1, m_body := Some (mem_next r, 18), m_nBytesRead := int j\<rparr>,
       blocks := (blocks r)(mem_next r \<mapsto> replicate 18 0 @ take j (tag_body tag) @ replicate (length (tag_body tag) - j) 0),
       mem_next := Suc (mem_next r)\<rparr>)"

definition start_of :: "flv_tag \<Rightarrow> nat" where
  "start_of tag = (if fst tag = 0x12 then 16 else 0)"

lemma new_packet_starts:
  assumes "good_tag tag" "buf = pre @ tag_head tag @ rest"
  shows "new_packet r buf (int (length pre)) = Some (started r tag (start_of tag))"
proof -
  obtain ty t body where tag: "tag = (ty, t, body)" by (cases tag)
  have g: "ty = 8 \<or> ty = 9 \<or> ty = 0x12 \<and> 2 \<le> length body" "length body < 2 ^ 24" using assms(1) by (auto simp: good_tag_def tag)
  note rd = tag_reads [OF assms(2) [unfolded tag] g(2) refl]
  let ?n = "length (tag_body tag)"
  have sz: "(if ty = 0x12 then int (length body) + 16 else int (length body)) = int ?n" by (simp add: tag tag_body_def tag_name)
  have ty: "uint ty = 0x12 \<longleftrightarrow> ty = 0x12" "uint ty = 8 \<longleftrightarrow> ty = 8" "uint ty = 9 \<longleftrightarrow> ty = 9"
    using word_uint_eq_iff [of ty "0x12"] word_uint_eq_iff [of ty 8] word_uint_eq_iff [of ty 9] by simp_all
  have large: "((ty = 8 \<or> ty = 9) \<and> t = 0 \<or> ty = 0x12) = (ty = 0x12 \<or> t = 0)" using g(1) by auto
  show ?thesis
  proof (cases "ty = 0x12")
    case True
    let ?s = "AVC ''@setDataFrame''"
    have "good_aval ?s" by (simp add: good_aval_def AVC_def aval_bytes_def slice_def)
    then have "AMF_EncodeString (replicate 18 0 @ replicate ?n 0) (int (length (replicate 18 (0 :: byte)))) (18 + int ?n) ?s
      = Some (Some (int (length (replicate 18 (0 :: byte))) + int (length (enc_string ?s))),
          replicate 18 0 @ enc_string ?s @ drop (length (enc_string ?s)) (replicate ?n 0))"
      by (rule wrote_string) (use g True in \<open>simp_all add: tag tag_body_def tag_name\<close>)
    then have e: "AMF_EncodeString (replicate 18 0 @ replicate ?n 0) 18 (18 + int ?n) ?s = Some (Some (18 + 16), replicate 18 0 @ enc_string ?s @ replicate (?n - 16) 0)"
      by (simp add: tag_name)
    have tk: "take 16 (tag_body tag) = enc_string ?s" using True by (simp add: tag tag_body_def tag_name)
    show ?thesis
      unfolding new_packet_def rd Let_def bind.bind_lunit ty large sz tag_stamp
      using True by (simp add: alloc_zeroes e [unfolded tag True] started_def start_of_def tag tk [unfolded tag True])
  next
    case False
    then show ?thesis
      unfolding new_packet_def rd Let_def bind.bind_lunit ty large sz tag_stamp
      by (simp add: alloc_zeroes started_def start_of_def tag)
  qed
qed

text \<open>A connection that waits for a tag.\<close>

definition idle_writer :: "int \<Rightarrow> (int \<Rightarrow> channel option) \<Rightarrow> RTMP \<Rightarrow> bool" where
  "idle_writer sid st r \<longleftrightarrow> m_nBytesRead (m_write r) = 0 \<and> m_nChannel (m_write r) = 4 \<and> m_nInfoField2 (m_write r) = sid \<and>
     m_stream_id r = sid \<and> out_channels st r \<and> writable r \<and> 0 < m_outChunkSize r"

definition tag_wire :: "nat \<Rightarrow> int \<Rightarrow> (int \<Rightarrow> channel option) \<Rightarrow> flv_tag \<Rightarrow> bytes" where
  "tag_wire K sid st tag = wire K ((tag_packet sid tag)\<lparr>m_headerType := sent_type st (tag_packet sid tag)\<rparr>) (sent_stamp st (tag_packet sid tag)) (tag_body tag)"

lemma send_written_sends:
  assumes "idle_writer sid st r" "sendable st (tag_packet sid tag)" "s = started r tag (length (tag_body tag))"
  shows "\<exists>r'. send_written s = Some (True, r') \<and> idle_writer sid (after_packet st (tag_packet sid tag)) r' \<and> m_outChunkSize r' = m_outChunkSize r \<and>
    net_out r' = net_out r @ tag_wire (nat (m_outChunkSize r)) sid st tag"
proof -
  obtain ty t body where tag: "tag = (ty, t, body)" by (cases tag)
  let ?p = "m_write s" and ?q = "tag_packet sid tag" and ?b = "mem_next r"
  have i: "m_nChannel (m_write r) = 4" "m_nInfoField2 (m_write r) = sid" "out_channels st r" "writable r" "0 < m_outChunkSize r" "m_stream_id r = sid"
    using assms(1) by (simp_all add: idle_writer_def)
  have f: "same_fields ?p ?q" using i(1,2) by (simp add: same_fields_def assms(3) started_def tag_packet_def tag)
  note w = same_fields_wire [OF f]
  have pm: "m_nChannel ?p = 4" "m_nInfoField2 ?p = sid" "m_nBodySize ?p = int (length (tag_body tag))" "?p = ?p\<lparr>m_body := Some (?b, 18), m_nBytesRead := int (length (tag_body tag))\<rparr>"
    using i(1,2) by (simp_all add: assms(3) started_def tag)
  have s: "out_channels st s" "writable s" "m_outChunkSize s = m_outChunkSize r" "net_out s = net_out r" "m_stream_id s = sid"
      "blocks s ?b = Some (replicate 18 0 @ tag_body tag)"
    using i(3-6) by (simp_all add: assms(3) started_def tag writable_def RTMP_IsConnected_def out_channels_def)
  have "0 < m_outChunkSize s" "sendable st ?p" using s(3) i(5) assms(2) w(1) by simp_all
  then obtain s' where s': "RTMP_SendPacket RTMP_Close s ?p False = Some (True, s', ?p\<lparr>m_headerType := sent_type st ?p\<rparr>)"
      "after_send s (after_packet st ?p) ?b (wire (nat (m_outChunkSize s)) (?p\<lparr>m_headerType := sent_type st ?p\<rparr>) (sent_stamp st ?p) (tag_body tag)) s'"
    using send_filled [OF _ s(1,2) _ pm(3,4) s(6)] by auto
  note a = s'(2) [unfolded after_send_def w s(3,4,5), folded tag_wire_def]
  then obtain blk where "blocks s' ?b = Some blk" by auto
  then have fr: "RTMPPacket_Free s' (?p\<lparr>m_headerType := sent_type st ?p\<rparr>) = Some (release s' ?b, ?p\<lparr>m_headerType := sent_type st ?p, m_body := None\<rparr>)"
    by (subst free_body) (use pm(4) in \<open>simp_all add: assms(3) started_def tag\<close>)
  define r' where "r' = (release s' ?b)\<lparr>m_write := ?p\<lparr>m_headerType := sent_type st ?p, m_body := None, m_nBytesRead := 0\<rparr>\<rparr>"
  have "send_written s = Some (True, r')" using s'(1) a fr by (simp add: send_written_def r'_def)
  moreover have "idle_writer sid (after_packet st ?q) r'" using a pm(1,2) i(5)
    by (simp add: idle_writer_def r'_def out_channels_def writable_def RTMP_IsConnected_def release_def)
  moreover have "m_outChunkSize r' = m_outChunkSize r" "net_out r' = net_out r @ tag_wire (nat (m_outChunkSize r)) sid st tag"
    using a by (simp_all add: r'_def release_def)
  ultimately show ?thesis by blast
qed

lemma length_tag_bytes: "length (tag_head tag) = 11" "length (tag_bytes tag) = 15 + length (snd (snd tag))"
  by (auto simp: tag_bytes_def tag_head_def split: prod.splits)

lemma body_split: "tag_body tag = take (start_of tag) (tag_body tag) @ snd (snd tag)" "length (tag_body tag) = start_of tag + length (snd (snd tag))"
  by (auto simp: tag_body_def start_of_def tag_name split: prod.splits)

lemma signature_tag:
  assumes "good_tag tag"
  shows "flv_signature (pre @ tag_bytes tag @ rest) (int (length pre)) = Some False"
    and "flv_signature (pre @ flv_header @ xs) (int (length pre)) = Some True"
proof -
  obtain ty ys where t: "tag_bytes tag = ty # ys" "ty \<noteq> 0x46"
    using assms by (cases tag) (auto simp: tag_bytes_def tag_head_def good_tag_def)
  have "peek (pre @ tag_bytes tag @ rest) (int (length pre)) = Some ty" by (simp add: t(1) peek_def)
  then show "flv_signature (pre @ tag_bytes tag @ rest) (int (length pre)) = Some False" using t(2) by (simp add: flv_signature_def)
  show "flv_signature (pre @ flv_header @ xs) (int (length pre)) = Some True"
    using peek_at [of 0 flv_header _ pre xs] peek_at [of 1 flv_header _ pre xs] peek_at [of 2 flv_header _ pre xs]
    by (simp add: flv_signature_def flv_header_def)
qed

lemma start_packet_tag:
  assumes "good_tag tag" "buf = pre @ hdr @ tag_bytes tag @ rest" "hdr = [] \<or> hdr = flv_header"
  shows "start_packet r buf (int (length pre)) s2
    = Some (started r tag (start_of tag), int (length (pre @ hdr @ tag_head tag)), s2 - int (length (hdr @ tag_head tag)))"
proof -
  have l: "length hdr = (if hdr \<noteq> [] then 13 else 0)" using assms(3) by (auto simp: flv_header_def)
  have sig: "flv_signature buf (int (length pre)) = Some (hdr \<noteq> [])"
    using assms(3) signature_tag [OF assms(1)] unfolding assms(2) by (cases "hdr = []") simp_all
  have "new_packet r buf (int (length (pre @ hdr))) = Some (started r tag (start_of tag))"
    by (rule new_packet_starts [OF assms(1)]) (simp add: assms(2) tag_bytes_def)
  then have nw: "new_packet r buf (int (length pre) + (if hdr \<noteq> [] then 13 else 0)) = Some (started r tag (start_of tag))"
    using l by (simp split: if_splits)
  show ?thesis unfolding start_packet_def sig Let_def bind.bind_lunit nw using l by (simp add: length_tag_bytes)
qed

lemma copy_body:
  assumes "tag_body tag = take (start_of tag) (tag_body tag) @ body"
  shows "poke (started r tag (start_of tag)) (mem_next r, 18 + int (start_of tag)) body
    = Some ((started r tag (length (tag_body tag)))\<lparr>m_write := m_write (started r tag (start_of tag))\<rparr>)"
proof -
  obtain ty t bd where tag: "tag = (ty, t, bd)" by (cases tag)
  define j n tb where "j = start_of tag" and "n = length tb" and "tb = tag_body tag"
  let ?pre = "replicate 18 (0 :: byte) @ take j tb"
  have len: "n = length (take j tb) + length body" using arg_cong [OF assms, of length] unfolding j_def n_def tb_def length_append .
  have j: "length (take j tb) = j" using body_split(2) [of tag] by (simp add: j_def tb_def)
  have m: "blocks (started r tag j) (mem_next r) = Some (?pre @ replicate (n - j) 0 @ [])" by (simp add: started_def tag n_def tb_def)
  have "poke (started r tag j) (mem_next r, 18 + int j) body = Some ((started r tag j)\<lparr>blocks := (blocks (started r tag j))(mem_next r \<mapsto> ?pre @ body @ [])\<rparr>)"
    by (rule poke_all [OF m]) (use len j in simp_all)
  moreover have "?pre @ body @ [] = replicate 18 0 @ tb" using assms by (simp add: j_def tb_def)
  ultimately show ?thesis unfolding j_def [symmetric] tb_def [symmetric] by (simp add: started_def tag tb_def)
qed

lemma write_step_tag:
  assumes "idle_writer sid st r" "good_tag tag" "sendable st (tag_packet sid tag)" "buf = pre @ hdr @ tag_bytes tag @ rest" "hdr = [] \<or> hdr = flv_header"
    and "i = int (length pre)" "s2 = int (length (hdr @ tag_bytes tag @ rest))"
  shows "\<exists>r'. write_step r buf i s2 = Some (True, r', int (length (pre @ hdr @ tag_bytes tag)), int (length rest)) \<and>
    idle_writer sid (after_packet st (tag_packet sid tag)) r' \<and> m_outChunkSize r' = m_outChunkSize r \<and>
    net_out r' = net_out r @ tag_wire (nat (m_outChunkSize r)) sid st tag"
proof -
  obtain ty t body where tag: "tag = (ty, t, body)" by (cases tag)
  let ?j = "start_of tag" and ?n = "length (tag_body tag)" and ?s = "started r tag (length (tag_body tag))"
  have n: "?n = ?j + length body" "length body < 2 ^ 24" using body_split(2) [of tag] assms(2) by (simp_all add: tag good_tag_def)
  have st: "start_packet r buf i s2 = Some (started r tag ?j, int (length (pre @ hdr @ tag_head tag)), int (length body + 4 + length rest))"
    unfolding assms(6) start_packet_tag [OF assms(2,4,5)] by (simp add: assms(7) length_tag_bytes tag)
  have wr: "m_nBytesRead (m_write r) = 0" using assms(1) by (simp add: idle_writer_def)
  have f: "m_nBodySize (m_write (started r tag j)) = int ?n" "m_nBytesRead (m_write (started r tag j)) = int j" "m_body (m_write (started r tag j)) = Some (mem_next r, 18)" for j
    by (simp_all add: started_def tag)
  have num: "int32 (int ?n - int ?j) = int (length body)" using n by (simp add: int32_def signed_take_bit_int_eq_self)
  have b: "buf = (pre @ hdr @ tag_head tag) @ body @ be32 (int (length body) + 11) @ rest" by (simp add: assms(4) tag_bytes_def tag)
  have sl: "slice buf (int (length (pre @ hdr @ tag_head tag))) (int (length body)) = Some body" unfolding b slice_def by simp
  have pk: "poke (started r tag ?j) (mem_next r, 18 + int ?j) body = Some (?s\<lparr>m_write := m_write (started r tag ?j)\<rparr>)"
    by (rule copy_body) (use body_split(1) [of tag] in \<open>simp only: tag snd_conv\<close>)
  have e: "(?s\<lparr>m_write := m_write (started r tag ?j)\<rparr>)\<lparr>m_write := (m_write (started r tag ?j))\<lparr>m_nBytesRead := int ?j + int (length body)\<rparr>\<rparr> = ?s"
    using n(1) by (simp add: started_def tag)
  have z: "int32 (int ?n - (int ?j + int (length body))) = 0" using n(1) by (simp add: int32_def)
  obtain r' where r': "send_written ?s = Some (True, r')" "idle_writer sid (after_packet st (tag_packet sid tag)) r'" "m_outChunkSize r' = m_outChunkSize r"
      "net_out r' = net_out r @ tag_wire (nat (m_outChunkSize r)) sid st tag"
    using send_written_sends [OF assms(1,3) refl] by blast
  have nm: "(if int (length body) > int (length body + 4 + length rest) then int (length body + 4 + length rest) else int (length body)) = int (length body)" by simp
  define x where "x = int (length (pre @ hdr @ tag_head tag))"
  have "write_step r buf i s2 = Some (True, r', x + int (length body) + 4, int (length rest))"
    unfolding write_step_def wr st x_def [symmetric] Let_def by (simp add: f num nm sl [folded x_def] pk e [simplified] z r'(1))
  then show ?thesis using r'(2-4) by (simp add: x_def length_tag_bytes tag algebra_simps)
qed

section \<open>Calls of RTMP_Write\<close>

definition flv_bytes :: "flv_tag list \<Rightarrow> bytes" where
  "flv_bytes tags = concat (map tag_bytes tags)"

fun channels_after :: "(int \<Rightarrow> channel option) \<Rightarrow> (RTMPPacket \<times> bytes) list \<Rightarrow> int \<Rightarrow> channel option" where
  "channels_after st [] = st"
| "channels_after st ((p, body) # ps) = channels_after (after_packet st p) ps"

lemma wire_all_append: "wire_all K st (ps @ qs) = wire_all K st ps @ wire_all K (channels_after st ps) qs"
  by (induction st ps rule: channels_after.induct) simp_all

lemma sendable_all_append: "sendable_all st (ps @ qs) \<longleftrightarrow> sendable_all st ps \<and> sendable_all (channels_after st ps) qs"
  by (induction st ps rule: channels_after.induct) auto

lemma tag_messages_simps [simp]: "tag_messages sid [] = []" "tag_messages sid (tag # tags) = (tag_packet sid tag, tag_body tag) # tag_messages sid tags"
    "tag_messages sid (xs @ ys) = tag_messages sid xs @ tag_messages sid ys" "length (tag_messages sid xs) = length xs"
  by (simp_all add: tag_messages_def)

lemma flv_bytes_simps [simp]: "flv_bytes [] = []" "flv_bytes (tag # tags) = tag_bytes tag @ flv_bytes tags"
  by (simp_all add: flv_bytes_def)

lemma write_loop_writes:
  assumes "idle_writer sid st r" "list_all good_tag tags" "sendable_all st (tag_messages sid tags)" "buf = pre @ hdr @ flv_bytes tags"
    and "hdr = [] \<or> hdr = flv_header \<and> tags \<noteq> []" "i = int (length pre)" "s2 = int (length (hdr @ flv_bytes tags))"
  shows "\<exists>r'. write_loop_tags r buf i s2 = Some (int (length buf), r') \<and> idle_writer sid (channels_after st (tag_messages sid tags)) r' \<and>
    m_outChunkSize r' = m_outChunkSize r \<and> net_out r' = net_out r @ wire_all (nat (m_outChunkSize r)) st (tag_messages sid tags)"
  using assms
proof (induction tags arbitrary: st r pre hdr i s2)
  case Nil
  then show ?case by (simp add: write_loop_tags.simps [of r])
next
  case (Cons tag tags)
  have g: "good_tag tag" "list_all good_tag tags" "sendable st (tag_packet sid tag)" "sendable_all (after_packet st (tag_packet sid tag)) (tag_messages sid tags)"
    using Cons.prems(2,3) by simp_all
  have buf: "buf = pre @ hdr @ tag_bytes tag @ flv_bytes tags" "s2 = int (length (hdr @ tag_bytes tag @ flv_bytes tags))" "hdr = [] \<or> hdr = flv_header"
    using Cons.prems(4,5,7) by auto
  obtain r1 where r1: "write_step r buf i s2 = Some (True, r1, int (length (pre @ hdr @ tag_bytes tag)), int (length (flv_bytes tags)))"
      "idle_writer sid (after_packet st (tag_packet sid tag)) r1" "m_outChunkSize r1 = m_outChunkSize r"
      "net_out r1 = net_out r @ tag_wire (nat (m_outChunkSize r)) sid st tag"
    using write_step_tag [OF Cons.prems(1) g(1,3) buf(1,3) Cons.prems(6) buf(2)] by blast
  have "buf = (pre @ hdr @ tag_bytes tag) @ [] @ flv_bytes tags" "int (length (flv_bytes tags)) = int (length ([] @ flv_bytes tags))"
    using buf(1) by simp_all
  from Cons.IH [OF r1(2) g(2,4) this(1) _ refl this(2)] obtain r' where
    r': "write_loop_tags r1 buf (int (length (pre @ hdr @ tag_bytes tag))) (int (length (flv_bytes tags))) = Some (int (length buf), r')"
      "idle_writer sid (channels_after (after_packet st (tag_packet sid tag)) (tag_messages sid tags)) r'" "m_outChunkSize r' = m_outChunkSize r1"
      "net_out r' = net_out r1 @ wire_all (nat (m_outChunkSize r1)) (after_packet st (tag_packet sid tag)) (tag_messages sid tags)"
    by auto
  have "s2 \<noteq> 0" "\<not> int (length buf) < 11" using buf(1,2) by (simp_all add: length_tag_bytes)
  then have "write_loop_tags r buf i s2 = Some (int (length buf), r')"
    using r1(1) r'(1) by (simp add: write_loop_tags.simps [of r])
  then show ?case using r'(2-4) r1(3,4) by (simp add: tag_wire_def)
qed

text \<open>A connection on which nothing is being written, and the calls for the pieces of a file.\<close>

definition ready_writer :: "(int \<Rightarrow> channel option) \<Rightarrow> RTMP \<Rightarrow> bool" where
  "ready_writer st r \<longleftrightarrow> m_nBytesRead (m_write r) = 0 \<and> out_channels st r \<and> writable r \<and> 0 < m_outChunkSize r"

fun write_all :: "RTMP \<Rightarrow> bytes list \<Rightarrow> (int list \<times> RTMP) ub" where
  "write_all r [] = Some ([], r)"
| "write_all r (buf # bufs) = do { (n, r) \<leftarrow> RTMP_Write r buf; (ns, r) \<leftarrow> write_all r bufs; Some (n # ns, r) }"

lemma RTMP_Write_writes:
  assumes "ready_writer st r" "list_all good_tag tags" "sendable_all st (tag_messages (m_stream_id r) tags)" "hdr = [] \<or> hdr = flv_header \<and> tags \<noteq> []"
  shows "\<exists>r'. RTMP_Write r (hdr @ flv_bytes tags) = Some (int (length (hdr @ flv_bytes tags)), r') \<and>
    ready_writer (channels_after st (tag_messages (m_stream_id r) tags)) r' \<and> m_stream_id r' = m_stream_id r \<and>
    m_outChunkSize r' = m_outChunkSize r \<and> net_out r' = net_out r @ wire_all (nat (m_outChunkSize r)) st (tag_messages (m_stream_id r) tags)"
proof -
  let ?r = "r\<lparr>m_write := (m_write r)\<lparr>m_nChannel := 4, m_nInfoField2 := m_stream_id r\<rparr>\<rparr>"
  have "idle_writer (m_stream_id r) st ?r" using assms(1)
    by (simp add: ready_writer_def idle_writer_def out_channels_def writable_def RTMP_IsConnected_def)
  from write_loop_writes [OF this assms(2,3) _ assms(4), of "hdr @ flv_bytes tags" "[]" 0]
  show ?thesis by (auto simp: RTMP_Write_def ready_writer_def idle_writer_def)
qed

lemma write_all_writes:
  "ready_writer st r \<Longrightarrow> list_all good_tag (concat tss) \<Longrightarrow> sendable_all st (tag_messages (m_stream_id r) (concat tss)) \<Longrightarrow>
   \<exists>r'. write_all r (map flv_bytes tss) = Some (map (\<lambda>ts. int (length (flv_bytes ts))) tss, r') \<and>
     net_out r' = net_out r @ wire_all (nat (m_outChunkSize r)) st (tag_messages (m_stream_id r) (concat tss))"
proof (induction tss arbitrary: st r)
  case (Cons ts tss)
  have "list_all good_tag ts" "sendable_all st (tag_messages (m_stream_id r) ts)" using Cons.prems(2,3) by (simp_all add: sendable_all_append)
  from RTMP_Write_writes [OF Cons.prems(1) this, of "[]"] obtain r1 where
    r1: "RTMP_Write r (flv_bytes ts) = Some (int (length (flv_bytes ts)), r1)" "ready_writer (channels_after st (tag_messages (m_stream_id r) ts)) r1"
      "m_stream_id r1 = m_stream_id r" "m_outChunkSize r1 = m_outChunkSize r"
      "net_out r1 = net_out r @ wire_all (nat (m_outChunkSize r)) st (tag_messages (m_stream_id r) ts)" by auto
  then show ?case using Cons.IH [OF r1(2)] Cons.prems(2,3) by (auto simp: sendable_all_append wire_all_append)
qed simp

section \<open>Files that arrive as they are\<close>

text \<open>The first packet must have a full header, which metadata and the frames at time zero have.  Two tags in a row that agree in type, size and time
  stamp would hit the shortest header, which means another time stamp.\<close>

definition full_header :: "flv_tag \<Rightarrow> bool" where
  "full_header tag \<longleftrightarrow> fst tag = 0x12 \<or> fst (snd tag) = 0"

definition tag_key :: "flv_tag \<Rightarrow> byte \<times> 32 word \<times> nat" where
  "tag_key tag = (fst tag, fst (snd tag), length (snd (snd tag)))"

fun plain_tags :: "flv_tag list \<Rightarrow> bool" where
  "plain_tags [] \<longleftrightarrow> True"
| "plain_tags [tag] \<longleftrightarrow> True"
| "plain_tags (a # b # tags) \<longleftrightarrow> (full_header b \<or> tag_key a \<noteq> tag_key b) \<and> plain_tags (b # tags)"

lemma header_of_tag: "m_headerType (tag_packet sid tag) = (if full_header tag then 0 else 1)" "m_nChannel (tag_packet sid tag) = 4"
    "m_nInfoField2 (tag_packet sid tag) = sid" "m_nBodySize (tag_packet sid tag) = int (length (tag_body tag))"
    "m_packetType (tag_packet sid tag) = uint (fst tag)" "m_nTimeStamp (tag_packet sid tag) = fst (snd tag)"
  by (auto simp: tag_packet_def full_header_def split: prod.splits)

lemma good_tag_valid:
  assumes "good_tag tag" "- (2 ^ 31) \<le> sid" "sid < 2 ^ 31"
  shows "valid_packet (tag_packet sid tag)" "m_packetType (tag_packet sid tag) \<noteq> 0x14"
proof -
  have "uint (fst tag) \<in> {8, 9, 0x12}" "length (tag_body tag) < 2 ^ 24"
    using assms(1) by (auto simp: good_tag_def tag_body_def tag_name split: prod.splits if_splits)
  then show "valid_packet (tag_packet sid tag)" "m_packetType (tag_packet sid tag) \<noteq> 0x14"
    using assms(2,3) by (auto simp: valid_packet_def header_of_tag)
qed

lemma tags_sendable:
  assumes "list_all good_tag tags" "- (2 ^ 31) \<le> sid" "sid < 2 ^ 31" "tags = [] \<or> full_header (hd tags) \<or> (\<exists>c. st 4 = Some c \<and> ch_info c = sid)"
  shows "sendable_all st (tag_messages sid tags)"
  using assms(1,4)
proof (induction tags arbitrary: st)
  case (Cons tag tags)
  have "\<exists>c. after_packet st (tag_packet sid tag) 4 = Some c \<and> ch_info c = sid" by (simp add: after_packet_def header_of_tag)
  moreover have "sendable st (tag_packet sid tag)"
    using good_tag_valid [OF _ assms(2,3), of tag] Cons.prems by (auto simp: sendable_def header_of_tag)
  ultimately show ?case using Cons by (simp add: header_of_tag)
qed simp

lemma same_key:
  assumes "good_tag a" "good_tag b" "m_nBodySize (tag_packet sid a) = m_nBodySize (tag_packet sid b)" "m_packetType (tag_packet sid a) = m_packetType (tag_packet sid b)"
    and "m_nTimeStamp (tag_packet sid a) = m_nTimeStamp (tag_packet sid b)"
  shows "tag_key a = tag_key b"
  using assms(3-5) by (auto simp: tag_key_def header_of_tag tag_body_def word_uint_eq_iff split: prod.splits if_splits)

lemma tags_exact:
  assumes "list_all good_tag tags" "plain_tags tags" "full_header (hd tags)"
  shows "exact Map.empty (tag_messages sid tags)"
proof -
  have "exact (after_packet st (tag_packet sid a)) (tag_messages sid tags)" if "plain_tags (a # tags)" "list_all good_tag (a # tags)" for st a tags
    using that
  proof (induction tags arbitrary: st a)
    case (Cons b tags)
    have "full_header b \<or> tag_key a \<noteq> tag_key b" "good_tag a" "good_tag b" using Cons.prems by simp_all
    then obtain c where "after_packet st (tag_packet sid a) 4 = Some c" "full_header b \<or> \<not> repeats c (tag_packet sid b)"
      using same_key [of b a sid] by (simp add: repeats_def after_packet_def header_of_tag(2)) metis
    moreover have "exact (after_packet (after_packet st (tag_packet sid a)) (tag_packet sid b)) (tag_messages sid tags)"
      by (rule Cons.IH) (use Cons.prems in simp_all)
    ultimately show ?case by (auto simp: header_of_tag(1,2))
  qed simp
  then show ?thesis using assms by (cases tags) (auto simp: header_of_tag(1))
qed

lemma tag_message: "map message (tag_messages sid tags) = map (\<lambda>tag. (4, uint (fst tag), fst (snd tag), sid, tag_body tag)) tags"
  by (simp add: tag_messages_def message_def header_of_tag)

end
