(* ===== verification/Rtmp_Flv_Theorems.thy ===== *)
theory Rtmp_Flv_Theorems
  imports Rtmp_Theorems Rtmp_Publish
begin

text \<open>
  The theorems about FLV data on RTMP connections.
\<close>

text \<open>C6. A published FLV file arrives: when the bytes of a file are given to \<open>RTMP_Write\<close> in any number of calls, each with whole
  tags and the first with the file header, every call returns the number of its bytes, and the peer reads one packet for each tag, with the type, the time
  stamp and the data of the tag, metadata under the name \<open>@setDataFrame\<close> that servers expect.  The file starts with metadata or a frame at
  time zero, and no two tags in a row agree in type, size and time stamp.\<close>

theorem rtmp_flv_published:
  assumes "tags = ts @ concat tss" "ts \<noteq> []" "list_all good_tag tags" "full_header (hd tags)" "plain_tags tags"
    and "m_nBytesRead (m_write s) = 0" "writable s" "0 < m_outChunkSize s" "net_out s = []" "sid = m_stream_id s" "- (2 ^ 31) \<le> sid" "sid < 2 ^ 31"
    and "\<forall>tag \<in> set tags. length (tag_body tag) < k"
    and "rx r (wire_all (nat (m_outChunkSize s)) Map.empty (tag_messages sid tags))" "m_inChunkSize r = m_outChunkSize s"
    and "length (m_channelTimestamp r) = length (m_vecChannelsIn r)" "calls = (flv_header @ flv_bytes ts) # map flv_bytes tss"
  shows "\<exists>s' r' qs. write_all s calls = Some (map (\<lambda>buf. int (length buf)) calls, s') \<and>
     net_out s' = wire_all (nat (m_outChunkSize s)) Map.empty (tag_messages sid tags) \<and>
     receive_all k (length tags) r = Some (r', qs) \<and> rx r' [] \<and>
     map message qs = map (\<lambda>(ty, t, body). (4, uint ty, t, sid, (if ty = 0x12 then enc_string (AVC ''@setDataFrame'') else []) @ body)) tags"
proof -
  have snd: "sendable_all Map.empty (tag_messages sid tags)" by (rule tags_sendable [OF assms(3,11,12)]) (use assms(4) in simp)
  have ex: "exact Map.empty (tag_messages sid tags)" by (rule tags_exact [OF assms(3,5,4)])
  have "ready_writer Map.empty s" using assms(6-8) by (simp add: ready_writer_def out_channels_def)
  moreover have "list_all good_tag ts" "sendable_all Map.empty (tag_messages (m_stream_id s) ts)"
    using assms(1,3) snd by (simp_all add: assms(10) sendable_all_append)
  ultimately obtain s1 where s1: "RTMP_Write s (flv_header @ flv_bytes ts) = Some (int (length (flv_header @ flv_bytes ts)), s1)"
      "ready_writer (channels_after Map.empty (tag_messages sid ts)) s1" "m_stream_id s1 = sid" "m_outChunkSize s1 = m_outChunkSize s"
      "net_out s1 = wire_all (nat (m_outChunkSize s)) Map.empty (tag_messages sid ts)"
    using RTMP_Write_writes [of Map.empty s ts flv_header] assms(2,9,10) by auto
  have "list_all good_tag (concat tss)" "sendable_all (channels_after Map.empty (tag_messages sid ts)) (tag_messages (m_stream_id s1) (concat tss))"
    using assms(1,3) snd by (simp_all add: s1(3) sendable_all_append)
  from write_all_writes [OF s1(2) this] obtain s' where "write_all s calls = Some (map (\<lambda>buf. int (length buf)) calls, s')"
      "net_out s' = wire_all (nat (m_outChunkSize s)) Map.empty (tag_messages sid tags)"
    using s1 by (auto simp: assms(1,17) wire_all_append o_def)
  moreover have "received Map.empty (tag_messages sid tags) = map message (tag_messages sid tags)" by (rule received_exact [OF ex]) simp
  moreover have "in_channels Map.empty r" using assms(16) by (simp add: in_channels_def)
  then have "\<exists>r' qs. receive_all k (length tags) r = Some (r', qs) \<and> map message qs = received Map.empty (tag_messages sid tags) \<and> rx r' []"
    using delivers_all [OF snd assms(8), of k] assms(13-15) unfolding delivers_def by (force simp: tag_messages_def)
  moreover have "map message (tag_messages sid tags)
      = map (\<lambda>(ty, t, body). (4, uint ty, t, sid, (if ty = 0x12 then enc_string (AVC ''@setDataFrame'') else []) @ body)) tags"
    by (auto simp: tag_message tag_body_def)
  ultimately show ?thesis by auto
qed

definition m_tags :: "flv_tag list" where
  "m_tags = [(0x12, 0, [2, 0]), (9, 0, [0x17, 1, 2]), (8, 20, [0xAF])]"

definition m_tags_wire :: bytes where
  "m_tags_wire = [4, 0, 0, 0, 0, 0, 18, 18, 1, 0, 0, 0, 2, 0, 13, 64, 115, 101, 116, 68, 97, 116, 97, 70, 114, 97, 109, 101, 2, 0,
     4, 0, 0, 0, 0, 0, 3, 9, 1, 0, 0, 0, 0x17, 1, 2, 68, 0, 0, 20, 0, 0, 1, 8, 0xAF]"

definition m_publisher :: RTMP where
  "m_publisher = (m_conn [])\<lparr>m_stream_id := 1\<rparr>"

lemma m_tags_bytes: "wire_all 128 Map.empty (tag_messages 1 m_tags) = m_tags_wire"
  by code_simp

theorem rtmp_flv_published_witness:
  "\<exists>s' r' qs. write_all m_publisher [flv_header @ flv_bytes (take 2 m_tags), flv_bytes (drop 2 m_tags)] = Some ([48, 16], s') \<and> net_out s' = m_tags_wire \<and>
     receive_all 100 3 (m_conn [Received m_tags_wire]) = Some (r', qs) \<and>
     map message qs = [(4, 0x12, 0, 1, enc_string (AVC ''@setDataFrame'') @ [2, 0]), (4, 9, 0, 1, [0x17, 1, 2]), (4, 8, 20, 1, [0xAF])]"
proof -
  have s: "m_nBytesRead (m_write m_publisher) = 0" "writable m_publisher" "m_outChunkSize m_publisher = 128" "net_out m_publisher = []" "m_stream_id m_publisher = 1"
    by (simp_all add: m_publisher_def conn_simps writable_def RTMP_IsConnected_def RTMP_DEFAULT_CHUNKSIZE_def zero_packet_def)
  have r: "rx (m_conn [Received m_tags_wire]) m_tags_wire" "m_inChunkSize (m_conn [Received m_tags_wire]) = 128"
      "length (m_channelTimestamp (m_conn [Received m_tags_wire])) = length (m_vecChannelsIn (m_conn [Received m_tags_wire]))"
    by (simp_all add: conn_simps RTMP_DEFAULT_CHUNKSIZE_def rx_def writable_def RTMP_IsConnected_def pending_def m_tags_wire_def)
  have t: "list_all good_tag m_tags" "full_header (hd m_tags)" "plain_tags m_tags" "\<forall>tag \<in> set m_tags. length (tag_body tag) < 100" "length m_tags = 3"
      "m_tags = take 2 m_tags @ concat [drop 2 m_tags]" "take 2 m_tags \<noteq> []"
    by (simp_all add: m_tags_def good_tag_def full_header_def tag_key_def tag_body_def tag_name)
  have l: "length (flv_header @ flv_bytes (take 2 m_tags)) = 48" "length (flv_bytes (drop 2 m_tags)) = 16"
    by (simp_all add: m_tags_def flv_header_def length_tag_bytes)
  let ?calls = "[flv_header @ flv_bytes (take 2 m_tags), flv_bytes (drop 2 m_tags)]"
  have c: "map (\<lambda>buf. int (length buf)) ?calls = [48, 16]" by (simp only: list.map l of_nat_numeral)
  have m: "map (\<lambda>(ty, t, body). (4, uint ty, t, 1, (if ty = 0x12 then enc_string (AVC ''@setDataFrame'') else []) @ body)) m_tags
      = [(4, 0x12, 0, 1, enc_string (AVC ''@setDataFrame'') @ [2, 0]), (4, 9, 0, 1, [0x17, 1, 2]), (4, 8, 20, 1, [0xAF])]"
    by (simp add: m_tags_def)
  have "0 < m_outChunkSize m_publisher" "- (2 ^ 31) \<le> (1 :: int)" "(1 :: int) < 2 ^ 31"
      "rx (m_conn [Received m_tags_wire]) (wire_all (nat (m_outChunkSize m_publisher)) Map.empty (tag_messages 1 m_tags))"
      "m_inChunkSize (m_conn [Received m_tags_wire]) = m_outChunkSize m_publisher" "?calls = (flv_header @ flv_bytes (take 2 m_tags)) # map flv_bytes [drop 2 m_tags]"
    using s(3) r(1,2) m_tags_bytes by simp_all
  from rtmp_flv_published [OF t(6,7,1-3) s(1,2) this(1) s(4) s(5) [symmetric] this(2,3) t(4) this(4,5) r(3) this(6)]
  show ?thesis unfolding c m t(5) s(3) nat_numeral m_tags_bytes by (elim exE conjE) (intro exI conjI; assumption)
qed

text \<open>C36. An audio or video tag whose data does not come in the same call as its head is lost: \<open>RTMP_Write\<close> takes the head of eleven bytes, but as no
  byte of the data has come it keeps no mark of the begun packet.  When the next call brings the rest of the tag, and that has one to ten bytes, it
  is not taken as data: the call returns 0 and changes nothing, however often it is repeated, and the packet is never sent.  (Metadata is not affected,
  as the name put in front of it marks the packet as begun.)\<close>

theorem rtmp_write_loses_tag:
  assumes "m_nBytesRead (m_write s) = 0" "good_tag tag" "fst tag \<noteq> 0x12" "snd (snd tag) \<noteq> []" "rest \<noteq> []" "length rest < 11"
  shows "\<exists>s1. RTMP_Write s (tag_head tag) = Some (11, s1) \<and> net_out s1 = net_out s \<and> RTMP_Write s1 rest = Some (0, s1)"
proof -
  obtain ty t body where tag: "tag = (ty, t, body)" by (cases tag)
  let ?r = "s\<lparr>m_write := (m_write s)\<lparr>m_nChannel := 4, m_nInfoField2 := m_stream_id s\<rparr>\<rparr>" and ?buf = "tag_head tag"
  have n: "0 < length body" "length body < 2 ^ 24" "tag_body tag = body" "start_of tag = 0" "ty \<noteq> 0x46"
    using assms(2-4) by (auto simp: tag good_tag_def tag_body_def start_of_def)
  have np: "new_packet ?r ?buf 0 = Some (started ?r tag 0)" using new_packet_starts [OF assms(2), of ?buf "[]" "[]" ?r] n(4) by simp
  have "flv_signature ?buf 0 = Some False" using n(5) by (simp add: flv_signature_def tag tag_head_def peek_def)
  then have sp: "start_packet ?r ?buf 0 11 = Some (started ?r tag 0, 11, 0)" using np by (simp add: start_packet_def)
  define s1 where "s1 = started ?r tag 0"
  have f: "m_nBodySize (m_write s1) = int (length body)" "m_nBytesRead (m_write s1) = 0" "m_body (m_write s1) = Some (mem_next s, 18)"
    using n(3) by (simp_all add: s1_def started_def tag)
  have i32: "int32 (int (length body)) = int (length body)" using n(2) by (simp add: int32_def signed_take_bit_int_eq_self)
  have e: "s1\<lparr>m_write := (m_write s1)\<lparr>m_nBytesRead := 0\<rparr>\<rparr> = s1" by (simp add: s1_def started_def tag)
  have w: "m_nBytesRead (m_write ?r) = 0" using assms(1) by simp
  have "write_step ?r ?buf 0 11 = Some (True, s1, 11, 0)"
    unfolding write_step_def w sp s1_def [symmetric] Let_def using n(1) by (simp add: f i32 slice_def poke_def e)
  then have one: "RTMP_Write s ?buf = Some (11, s1)"
    using w by (simp add: RTMP_Write_def length_tag_bytes write_loop_tags.simps [of ?r] write_loop_tags.simps [of s1] del: One_nat_def)
  have "s1\<lparr>m_write := (m_write s1)\<lparr>m_nChannel := 4, m_nInfoField2 := m_stream_id s1\<rparr>\<rparr> = s1" by (simp add: s1_def started_def tag)
  then have "RTMP_Write s1 rest = Some (0, s1)" using f(2) assms(5,6) by (simp add: RTMP_Write_def write_loop_tags.simps [of s1])
  moreover have "net_out s1 = net_out s" by (simp add: s1_def started_def tag)
  ultimately show ?thesis using one by blast
qed

theorem rtmp_write_loses_tag_witness:
  "\<exists>s1. RTMP_Write m_publisher (tag_head (8, 20, [0xAF])) = Some (11, s1) \<and> net_out s1 = [] \<and> RTMP_Write s1 [0xAF, 0, 0, 0, 12] = Some (0, s1)"
proof -
  have s: "m_nBytesRead (m_write m_publisher) = 0" "net_out m_publisher = []" by (simp_all add: m_publisher_def conn_simps zero_packet_def)
  show ?thesis using rtmp_write_loses_tag [OF s(1), of "(8, 20, [0xAF])" "[0xAF, 0, 0, 0, 12]"] s(2) by (simp add: good_tag_def)
qed

end
