(* ===== verification/Spec2Isabelle.thy ===== *)
theory Spec2Isabelle
  imports Osip_Samples Mpeg_Theorems G711_Table Rtmp_Amf_Theorems Rtmp_Flv_Theorems
begin

text \<open>
  \<^bold>\<open>A verification development for mediafactory.\<close>

  The repository bundles the protocol stacks, container formats and codecs of a media server.  This
  development models four of its parts and proves them correct: the SIP transaction layer (oSIP,
  src/protocol/osip/libosip2-5.0.0), the MPEG transport and program stream library
  (src/file/libmpeg), the G.711 codec (src/codec/g711) and the RTMP library
  (src/protocol/rtmp/rtmpdump-master/librtmp).

  \<^bold>\<open>The SIP transaction layer.\<close>  An application hands requests and the messages it receives from the
  network to the transaction manager \<open>osip_t\<close> as events.  The manager finds or creates the transaction
  an event belongs to and puts the event in its queue; \<open>osip_ict_execute\<close> and its siblings
  take the events out and run the state machine of the transaction, whose handlers send messages, set
  timers, store requests and responses and call back the application; \<open>osip_timers_ict_execute\<close> and its
  siblings queue the events of timers that are due.  Beside the transactions the manager keeps a list of
  2xx responses and ACKs to send again, which dialogs start and stop.

  \<^item> \<open>Osip_Prelude\<close>, \<open>Osip_Port\<close>, \<open>Osip_Time\<close>: return codes, C arithmetic and strings
    (osipparser2/osip_port.c), time values (osip2/osip_time.c).
  \<^item> \<open>Osip_List\<close>, \<open>Osip_Fifo\<close>: the generic list (osipparser2/osip_list.c) and the event queue
    (osip2/port_fifo.c).  The locales \<open>sequence\<close> and \<open>event_queue\<close> state what their clients rely on;
    the interpretations show it of the code.  The calls on the queue are interleaved at the operations of
    its semaphore and mutex.
  \<^item> \<open>Sip_Message\<close>: messages and the headers the layer reads, their clones, comparisons and accessors
    (osipparser2/osip_message.c, osip_via.c, osip_from.c and others).
  \<^item> \<open>Osip_Event\<close>, \<open>Osip_Transaction\<close>, \<open>Osip_Xixt\<close>: events, the transaction record with its setters
    and the two matching rules, sending of responses (osip_event.c, osip_transaction.c).
  \<^item> \<open>Osip_Ict\<close>, \<open>Osip_Nict\<close>, \<open>Osip_Ist\<close>, \<open>Osip_Nist\<close>: contexts, timers and handlers of the four
    kinds of transaction (ict.c, ict_fsm.c and so on); \<open>Osip_Fsm\<close>: the four transition tables and
    \<open>osip_transaction_execute\<close> (fsm_misc.c).
  \<^item> \<open>Osip_Manager\<close>, \<open>Osip_Timers\<close>, \<open>Osip_Ixt\<close>, \<open>Osip_Dialog\<close>: the manager with its lists and passes,
    the next delay, the retransmission list (osip.c), and dialogs (osip_dialog.c).
  \<^item> \<open>Osip_Fsm_Inv\<close>, \<open>Osip_Fsm_Live\<close>, \<open>Osip_Run\<close>: one step of a transaction never dereferences NULL,
    keeps the invariant, follows the tables of RFC 3261, and frees or keeps every message once; the
    locale \<open>event_machine\<close> lifts this to runs of any length.
  \<^item> \<open>Osip_Matching\<close>, \<open>Osip_Retransmit\<close>, \<open>Osip_Timers_Inv\<close>, \<open>Osip_Ixt_Inv\<close>, \<open>Osip_Dialog_Inv\<close>,
    \<open>Osip_Manager_Inv\<close>: the rules of the RFC as specifications, and what the operations compute.
  \<^item> \<open>Osip_Api\<close>: the API calls as steps of a transition system with the states reachable from
    \<open>osip_init\<close> and their invariant; \<open>Osip_Samples\<close>: concrete messages for the witnesses.

  \<^bold>\<open>The MPEG library.\<close>  \<open>lts_ts_stream\<close> and \<open>lts_ps_stream\<close> multiplex a frame into a buffer and
  \<open>lts_ts_demux\<close> and \<open>lts_ps_demux\<close> take one packet off a buffer; both pairs use the PES headers of
  pes.c and the program description of typedefs.h, which the demultiplexers fill in from the tables
  they find.

  \<^item> \<open>Mpeg_Buffer\<close>: byte buffers with bounds-checked reads and writes, and bit fields.
  \<^item> \<open>Mpeg_Pes\<close> (pes.c, pes.h), \<open>Mpeg_Ts_Mux\<close> (tsmux.c), \<open>Mpeg_Ts_Demux\<close> (tsdemux.c), \<open>Mpeg_Ps_Mux\<close>
    (psmux.c), \<open>Mpeg_Ps_Demux\<close> (psdemux.c): every function of these files.
  \<^item> \<open>Mpeg_Ts_Packets\<close>, \<open>Mpeg_Ts\<close>, \<open>Mpeg_Ps\<close>: the bytes that are written as lists of packets, and
    what is read of them.  The locale \<open>container\<close> of \<open>Mpeg_Container\<close> is the contract of a container
    format, and its round trip theorem is used for both interpretations.
  \<^item> \<open>Mpeg_Ts_Safe\<close>: what \<open>lts_ts_demux\<close> reads of an arbitrary buffer; \<open>Mpeg_Theorems\<close>: the theorems.

  \<^bold>\<open>The G.711 codec.\<close>  \<open>G711\<close> models g711.c: compression and expansion by the A-law and the mu-law,
  and transcoding between them with the tables of the recommendation; \<open>G711_Table\<close> models g711_table.c: the
  tables built from these functions and the conversion of whole buffers.  The locale \<open>companding\<close> is
  the contract of a law (a code word comes back from its value, a sample stays near to itself), with
  the A-law and the mu-law as its interpretations; the round trip and the error of whole buffers are
  proved once from it.

  \<^bold>\<open>The RTMP library.\<close>  A client and a server exchange packets on numbered channels.  \<open>RTMP_SendPacket\<close> cuts a
  packet into chunks and leaves out what it shares with the packet before on its channel; \<open>RTMP_ReadPacket\<close> reads
  a chunk and puts packets together.  Packets carry media, control messages, or commands, which are
  objects in the action message format (amf.c).  \<open>RTMP_ConnectStream\<close> answers the server until a stream
  plays, \<open>RTMP_GetNextMediaPacket\<close> handles packets until one is for the caller.

  \<^item> \<open>Rtmp_Amf\<close>, \<open>Rtmp_Amf_Decode\<close> (amf.c): the data, the encoder and the accessors, and the decoders of
    AMF0 and AMF3, whose functions for objects, arrays and properties call each other.
  \<^item> \<open>Rtmp_Amf_Round\<close>, \<open>Rtmp_Amf_Value\<close>: the bytes of an encoded object as a function of the object, what
    the encoder writes and what the decoder makes of these bytes.  \<open>Rtmp_Amf_Safe\<close>: the encoder stays in its
    buffer; \<open>Rtmp_Amf3\<close>: the numbers of AMF3 and its class definitions; \<open>Rtmp_Amf_Theorems\<close>: the theorems.
  \<^item> \<open>Rtmp_Net\<close>, \<open>Rtmp_Send\<close>, \<open>Rtmp_Read\<close> (rtmp.c, rtmp.h): a connection is the record \<open>RTMP\<close>, which also
    holds the memory of the packets (\<open>blocks\<close>, from addresses to bytes; freed blocks are gone), the results
    that the calls of \<open>recv\<close> and \<open>send\<close> will have, and the bytes sent so far; the socket buffer, sending
    of packets, the queue of method calls, closing, and receiving of packets.
  \<^item> \<open>Rtmp_Commands\<close>, \<open>Rtmp_Tea\<close>, \<open>Rtmp_Client\<close> (rtmp.c): the commands a client sends, the decryption of
    the secure token, and the handlers of what it receives, up to \<open>RTMP_ClientPacket\<close> and the two loops;
    \<open>Rtmp_Write\<close>: publishing of FLV data.
  \<^item> \<open>Rtmp_Wire\<close>, \<open>Rtmp_Recv\<close>, \<open>Rtmp_Messages\<close>, \<open>Rtmp_Session\<close>: the bytes of a packet as a function of the packet
    and of what its channel carried before, what \<open>RTMP_SendPacket\<close> sends and what \<open>RTMP_ReadPacket\<close> makes
    of it, chunk by chunk, packet by packet, and for whole sessions.
  \<^item> \<open>Rtmp_Play\<close>: streams of media with control messages in between; \<open>Rtmp_Dangling\<close>: interrupted messages;
    \<open>Rtmp_Publish\<close>: the packets of the tags of an FLV file; \<open>Rtmp_Theorems\<close>, \<open>Rtmp_Flv_Theorems\<close>: the
    theorems.  \<open>Rtmp_Tea\<close> also has the cipher that \<open>DecodeTEA\<close> inverts.

  \<^bold>\<open>How code is modelled.\<close>  A struct is a record, an enum a datatype.  A function that changes objects
  returns them; the transactions live in a store from addresses to objects, so that aliasing, use after
  free and double free are visible.  Undefined behaviour (a NULL or dangling pointer, an access outside a
  buffer, an uninitialised context) is the result \<open>None\<close>, so that a safety theorem is a theorem about
  \<open>Some\<close>.  Callbacks and messages sent are listed in a trace of actions; the clock, the transport and the
  message parser are arguments.  Bytes, time stamps and checksums are words of their width; counters
  are \<open>int\<close> with their overflow made explicit where it can be reached.

  \<^bold>\<open>Bounds.\<close>  Loops are recursions with a measure; the loop that drains the queue of a
  transaction is a \<open>partial_function\<close> whose termination is a theorem, since a handler could in
  principle queue events for ever.  The decoders of amf.c have fuel, since they may run for ever on
  bad data: the round trip holds for every fuel above the length of the data plus four, which bounds the depth and the number of the
  properties in it, and the theorem about AMF3 classes for every fuel.  The loops that wait for packets
  (\<open>media_loop\<close>, \<open>connect_loop\<close>) have a bound on the number of chunks they read, since a server may send for ever; the
  theorems hold for every bound from the size of what was sent on.  \<open>RTMP_Close\<close> sends commands, which
  close the connection if they fail: the second call finds the socket closed, so that a depth of two is exact.  The
  rounds of \<open>DecodeTEA\<close> are bounded by the number it computes.

  \<^bold>\<open>Assumptions.\<close>  Memory allocation succeeds.  Callbacks may remove transactions from the lists of the
  manager; they do not free them, and change neither the transaction they are called for nor the queues.  Calls of several threads are
  taken one after the other: the mutexes of the lists keep changes of the lists apart, but
  \<open>osip_ict_execute\<close> and its siblings release theirs before they work on the transactions, so it is assumed that
  no two threads work on the same transaction at a time.  The event queue is the exception, since threads do share it.  The build is the
  multi-threaded one without the optional hash tables, blocking sockets and the old forwarding options.
  For libmpeg, \<open>char\<close> is signed and bit fields are laid out from the least significant bit, as gcc does on
  x86, and for G.711 the host is little-endian; right shifts of negative numbers are arithmetic.  librtmp is
  built without encryption and used without HTTP tunnelling, and a theorem about a connection assumes that
  fewer than 1.9 GB were received on it, so that the counter of bytes does not overflow.

  \<^bold>\<open>Not modelled.\<close>  Parsing and printing of SIP messages and SDP (the transaction layer uses only the
  result of the parser), MD5, threads and condition variables, \<open>osip_release\<close> and the registration of callbacks, the user agent layer eXosip with its sockets, DNS
  and TLS; of librtmp the handshake, options and URLs, SOCKS, TLS and HTTP tunnelling, and the conversion
  of received packets to FLV files (\<open>RTMP_Read\<close>); the applications.
\<close>

section \<open>A reachable state\<close>

definition s_osip :: osip where
  "s_osip = the (api_exec (CreateTransaction s_cfg (s_event SND_REQINVITE (Some (s_request ''INVITE'')))) osip_init)"

lemma s_invite_checked: "event_checked (s_event SND_REQINVITE (Some (s_request ''INVITE'')))"
  using s_event_ok(1) by (simp add: event_checked_def sample_msg_defs)

lemma s_invite_creates:
  "creates (s_event SND_REQINVITE (Some (s_request ''INVITE''))) (s_request ''INVITE'')"
  "kind_of_event (s_event SND_REQINVITE (Some (s_request ''INVITE''))) (s_request ''INVITE'') = ICT"
  by (simp_all add: creates_def kind_of_event_def EVT_IS_INCOMINGREQ_def EVT_IS_OUTGOINGREQ_def sample_msg_defs)

lemma s_osip_created:
  obtains t where "fresh_of ICT 1 (s_request ''INVITE'') t" "s_osip = inserted osip_init ICT t"
proof -
  have init: "osip_transactionid osip_init = 1" by (simp add: osip_init_def)
  then have lt: "osip_transactionid osip_init < INT_MAX" by (simp add: INT_MAX_def)
  show thesis
  proof (rule create_transaction_cases [OF osip_init_inv lt s_invite_checked, of "s_request ''INVITE''" s_cfg], goal_cases)
    case 1
    show ?case by (simp add: s_event_def)
  next
    case (2 t)
    then show ?case using that [of t] by (simp add: s_osip_def s_invite_creates init)
  next
    case (3 osip')
    then show ?case using s_invite_creates(1) s_messages_ok(3) by simp
  qed
qed

lemma s_osip_addrs: "addrs ICT s_osip = [0]" "all_addrs s_osip = [0]" "next_addr s_osip = 1"
proof -
  have init: "addrs ty osip_init = []" "next_addr osip_init = 0" for ty
    by (cases ty; simp add: addrs_def transactions_def list_abs_def osip_init_def)+
  obtain t where t: "s_osip = inserted osip_init ICT t" using s_osip_created by blast
  show "addrs ICT s_osip = [0]" "all_addrs s_osip = [0]" "next_addr s_osip = 1"
    unfolding all_addrs_def t by (simp_all add: init)
qed

lemma s_osip_live: "\<exists>t. mem s_osip 0 = Some t"
proof -
  obtain t where t: "s_osip = inserted osip_init ICT t" using s_osip_created by blast
  show ?thesis unfolding t by (simp add: osip_init_def)
qed

lemma s_osip_reachable: "reachable s_osip"
proof (rule reachable.step [OF reachable.init])
  let ?c = "CreateTransaction s_cfg (s_event SND_REQINVITE (Some (s_request ''INVITE'')))"
  have pre: "api_pre ?c osip_init" using s_invite_checked by (simp add: osip_init_def INT_MAX_def)
  then have "call_ok ?c osip_init" by (rule api_call_ok [OF stack_inv_init])
  then have "api_exec ?c osip_init = Some s_osip"
    unfolding call_ok_def s_osip_def by (auto split: option.splits)
  with pre show "api_step osip_init ?c s_osip" by (rule api_step.call)
qed

section \<open>The whole stack\<close>

text \<open>C1. No call of the API that changes the stack, made under its precondition in a state reachable from
  \<open>osip_init\<close>, dereferences NULL, uses freed memory or frees twice: it returns, and leaves a
  reachable state, so the next call is safe as well. The calls: \<open>osip_transaction_init\<close>,
  \<open>_add_event\<close>, \<open>_execute\<close>, \<open>_free\<close>, \<open>_free2\<close> and
  \<open>_set\<close> functions, those that set a destination, \<open>osip_create_transaction\<close>,
  \<open>osip_find_transaction_and_add_event\<close>, \<open>osip_remove_transaction\<close>, the
  \<open>_execute\<close> and timer passes over the lists, and the five calls for retransmissions. Preconditions:
  transactions that are named, or removed by callbacks, are not freed, and for \<open>_free2\<close> not listed;
  messages have the fields the parser ensures and fit the event; identifiers have not run out; for
  \<open>osip_stop_200ok_retransmissions\<close> the dialogs of the retransmissions are alive and a From tag of
  the ACK has a value. Registering callbacks and \<open>osip_release\<close> are no steps.\<close>

theorem stack_never_crashes:
  assumes "reachable osip" "api_pre c osip"
  shows "\<exists>osip'. api_exec c osip = Some osip' \<and> reachable osip'"
proof -
  have "call_ok c osip" using api_call_ok [OF reachable_inv] assms by blast
  then obtain osip' where "api_exec c osip = Some osip'" by (auto simp: call_ok_def split: option.splits)
  with assms show ?thesis using reachable.step api_step.call by blast
qed

theorem stack_never_crashes_witness:
  "(\<exists>osip'. api_exec (FreeTransaction 0) s_osip = Some osip' \<and> reachable osip')
   \<and> (\<exists>osip'. api_exec (ExecuteEvent s_cfg 0 (s_event SND_REQINVITE (Some (s_request ''INVITE''))) [0]) s_osip
        = Some osip' \<and> reachable osip')"
proof -
  have "api_pre (FreeTransaction 0) s_osip" "api_pre (ExecuteEvent s_cfg 0 (s_event SND_REQINVITE (Some (s_request ''INVITE''))) [0]) s_osip"
    using s_osip_live s_event_ok(1) by simp_all
  with stack_never_crashes [OF s_osip_reachable] show ?thesis by blast
qed

text \<open>C2. In every state the stack can reach by the calls of C1 the four lists hold addresses of live transactions of their kind,
  no address and no identifier occurs twice, and every transaction in memory satisfies the
  invariant of its state machine.\<close>

theorem stack_invariant:
  assumes "reachable osip"
  shows "distinct (all_addrs osip) \<and> distinct (map (id_of osip) (all_addrs osip))
    \<and> (\<forall>ty. \<forall>a \<in> set (addrs ty osip). \<exists>t. mem osip a = Some t \<and> ctx_type t = ty)
    \<and> (\<forall>a t. mem osip a = Some t \<longrightarrow> transaction_inv t)"
proof (intro conjI allI ballI impI)
  have m: "manager_inv osip" using reachable_inv [OF assms] by (simp add: stack_inv_def)
  note inv = reachable_osip [OF assms]
  show "distinct (all_addrs osip)" "distinct (map (id_of osip) (all_addrs osip))"
    using inv by (simp_all add: osip_inv_def)
  show "\<exists>t. mem osip a = Some t \<and> ctx_type t = ty" if "a \<in> set (addrs ty osip)" for a ty
    using osip_inv_entry [OF inv that] by blast
  show "transaction_inv t" if "mem osip a = Some t" for a t using manager_live(1) [OF m that] .
qed

theorem stack_invariant_witness:
  "all_addrs s_osip = [0] \<and> (\<exists>t. mem s_osip 0 = Some t \<and> ctx_type t = ICT \<and> transaction_inv t)"
  using stack_invariant [OF s_osip_reachable] s_osip_addrs(1,2) by (metis list.set_intros(1))

section \<open>The state machines\<close>

text \<open>C3. With well-formed messages and a transport that accepts them, executing an event moves a
  transaction exactly as figures 5 to 8 of RFC 3261 say, for all four kinds of transaction and every
  event: to the target of the transition if there is one, and nowhere otherwise.\<close>

theorem execute_follows_rfc:
  assumes "transaction_inv t" "event_ok e" "msgs_ok t e" "transport_ok cfg"
  shows "\<exists>r t' acts. osip_transaction_execute cfg t e = Some (r, t', acts) \<and> transaction_inv t'
    \<and> tr_state t' = (case rfc_next (tr_state t) (ev_type e) of None \<Rightarrow> tr_state t | Some s \<Rightarrow> s)"
proof -
  obtain r t' acts where x: "osip_transaction_execute cfg t e = Some (r, t', acts)" "step_ok cfg t e t' acts"
    using execute_step [OF assms(1,2)] .
  have "transaction_inv t'" using x(2) by (simp add: step_ok_def)
  with x(1) execute_next [OF assms x(1)] show ?thesis by blast
qed

theorem execute_follows_rfc_witness:
  "\<exists>r t' acts. osip_transaction_execute s_cfg (s_ict ICT_CALLING)
       (s_event RCV_STATUS_3456XX (Some (s_response 486 ''INVITE''))) = Some (r, t', acts)
     \<and> tr_state t' = ICT_COMPLETED"
proof -
  have "msgs_ok (s_ict ICT_CALLING) (s_event RCV_STATUS_3456XX (Some (s_response 486 ''INVITE'')))"
    using s_messages_ok by (simp add: msgs_ok_def msg_ok_def sample_defs transaction_zero_def)
  from execute_follows_rfc [OF s_transaction_inv(2) s_event_ok(4) this s_transport_ok]
  show ?thesis by auto
qed

text \<open>C11. Whatever the transport answers and whatever the messages lack, executing an event never
  dereferences NULL, keeps the invariant, identity and queue of the transaction, and makes a step
  of the machine: the transition of the RFC, the end of the transaction, or none for an event the
  state ignores.\<close>

theorem execute_is_safe:
  assumes "transaction_inv t" "event_ok e"
  shows "\<exists>r t' acts. osip_transaction_execute cfg t e = Some (r, t', acts) \<and> transaction_inv t'
    \<and> fsm_step (ctx_type t) (tr_state t) (ev_type e) (tr_state t')
    \<and> ctx_type t' = ctx_type t \<and> transactionid t' = transactionid t \<and> transactionff t' = transactionff t"
proof -
  obtain r t' acts where x: "osip_transaction_execute cfg t e = Some (r, t', acts)" "step_ok cfg t e t' acts"
    using execute_step [OF assms] .
  then show ?thesis by (auto simp: step_ok_def same_frame_def)
qed

theorem execute_is_safe_witness:
  "\<exists>r t' acts. osip_transaction_execute (s_cfg\<lparr>cb_send_message := (\<lambda>tr m h p s. -1)\<rparr>) s_ict_new
       (s_event SND_REQINVITE (Some (s_request ''INVITE''))) = Some (r, t', acts)
     \<and> fsm_step ICT ICT_PRE_CALLING SND_REQINVITE (tr_state t')"
  using execute_is_safe [OF s_transaction_inv(1) s_event_ok(1), of "s_cfg\<lparr>cb_send_message := (\<lambda>tr m h p s. -1)\<rparr>"]
  by auto

text \<open>C10. Messages are freed exactly once: over any sequence of events followed by
  \<open>osip_transaction_free2\<close>, the messages freed are, with multiplicity, those the transaction held
  or had queued, those the events brought, and the ACK it created.\<close>

theorem messages_freed_once:
  assumes "transaction_inv t" "\<forall>i \<in> set is. input_ok i"
  shows "\<exists>t' as bs. machine_run transaction_exec t is = Some (t', as)
    \<and> osip_transaction_free2 (Some t') = Some (OSIP_SUCCESS, bs)
    \<and> freed_msgs (as @ bs) = queued t + owned t + sum_list (map input_msg is) + created t t'"
proof -
  obtain t' as where r: "machine_run transaction_exec t is = Some (t', as)" "transaction_inv t'"
    using tm.run_total [OF assms] by blast
  obtain bs where b: "osip_transaction_free2 (Some t') = Some (OSIP_SUCCESS, bs)" "freed_msgs bs = queued t' + owned t'"
    using free2_all [OF r(2)] by blast
  have "owned t + sum_list (map input_msg is) + created t t' = freed_msgs as + owned t'"
    using tm.run_balance [OF assms r(1)] .
  moreover have "queued t' = queued t" using run_queue [OF assms r(1)] by (simp add: queued_def)
  ultimately have "freed_msgs (as @ bs) = queued t + owned t + sum_list (map input_msg is) + created t t'"
    by (simp add: b(2) ac_simps)
  with r(1) b(1) show ?thesis by blast
qed

theorem messages_freed_once_witness:
  "\<exists>t' as bs. machine_run transaction_exec (s_ict ICT_CALLING)
         [(s_cfg, s_event RCV_STATUS_2XX (Some (s_response 200 ''INVITE'')))] = Some (t', as)
       \<and> osip_transaction_free2 (Some t') = Some (OSIP_SUCCESS, bs)
       \<and> freed_msgs (as @ bs) = queued (s_ict ICT_CALLING) + owned (s_ict ICT_CALLING)
           + {#s_response 200 ''INVITE''#} + created (s_ict ICT_CALLING) t'"
  using messages_freed_once [OF s_transaction_inv(2), of "[(s_cfg, s_event RCV_STATUS_2XX (Some (s_response 200 ''INVITE'')))]"]
  by (simp add: input_ok_def input_msg_def s_event_ok(5))

text \<open>C12. The application is told once that a transaction is over: over any sequence of events with
  the kill callback registered, the callback runs once if the transaction ended in the sequence and
  not at all otherwise.\<close>

theorem kill_callback_once:
  assumes "transaction_inv t" "\<not> is_terminated t" "\<forall>i \<in> set is. input_ok i \<and> kill_registered t i"
    and "machine_run transaction_exec t is = Some (t', as)"
  shows "kills as = (if is_terminated t' then 1 else 0)"
  using tm.run_kills [OF assms(1,3,4)] assms(2) by simp

theorem kill_callback_once_witness:
  "\<exists>t' as. machine_run transaction_exec (s_ict ICT_CALLING)
       [(s_cfg, s_event RCV_STATUS_2XX (Some (s_response 200 ''INVITE''))),
        (s_cfg, s_event RCV_STATUS_2XX (Some (s_response 200 ''INVITE'')))] = Some (t', as)
     \<and> kills as = (if is_terminated t' then 1 else 0)"
proof -
  let ?i = "(s_cfg, s_event RCV_STATUS_2XX (Some (s_response 200 ''INVITE'')))"
  have i: "\<forall>i \<in> set [?i, ?i]. input_ok i \<and> kill_registered (s_ict ICT_CALLING) i"
    by (simp add: input_ok_def s_event_ok(5) kill_registered_def s_cfg_def)
  then obtain t' as where r: "machine_run transaction_exec (s_ict ICT_CALLING) [?i, ?i] = Some (t', as)"
    using tm.run_total [OF s_transaction_inv(2), of "[?i, ?i]"] by auto
  have "\<not> is_terminated (s_ict ICT_CALLING)" by (simp add: is_terminated_def terminated_def sample_defs)
  from kill_callback_once [OF s_transaction_inv(2) this i r] r show ?thesis by blast
qed

text \<open>C13. A terminated transaction stays as it is: any further events change nothing, send nothing
  and call no callback; the messages they bring are freed, in order.\<close>

theorem terminated_is_silent:
  assumes "transaction_inv t" "is_terminated t" "\<forall>i \<in> set is. input_ok i"
  shows "machine_run transaction_exec t is =
    Some (t, concat (map (\<lambda>i. osip_message_free (ev_sip (snd i))) is))"
  using run_terminated [OF assms] .

theorem terminated_is_silent_witness:
  "machine_run transaction_exec (s_ict ICT_TERMINATED)
     [(s_cfg, s_event RCV_STATUS_2XX (Some (s_response 200 ''INVITE'')))] =
   Some (s_ict ICT_TERMINATED, [Freed (s_response 200 ''INVITE'')])"
proof -
  have "is_terminated (s_ict ICT_TERMINATED)" by (simp add: is_terminated_def terminated_def sample_defs)
  from terminated_is_silent [OF s_transaction_inv(4) this,
      of "[(s_cfg, s_event RCV_STATUS_2XX (Some (s_response 200 ''INVITE'')))]"]
  show ?thesis by (simp add: input_ok_def s_event_ok(5)) (simp add: osip_message_free_def)
qed

section \<open>The transaction manager\<close>

definition queue_at :: "osip \<Rightarrow> nat \<Rightarrow> osip_event list" where
  "queue_at osip a = (case mem osip a of None \<Rightarrow> [] | Some t \<Rightarrow> queue_of t)"

text \<open>C14. \<open>osip_find_transaction_and_add_event\<close> puts the event at the end of the queue of the first
  transaction that matches it, marked with that transaction's identifier, and touches no other
  transaction; without a match it reports an error and changes nothing.\<close>

theorem event_reaches_first_match:
  assumes "reachable osip" "event_checked e" "lookup_ok e" "list_of e = Some ty"
  shows "\<exists>r osip'. osip_find_transaction_and_add_event osip (Some e) = Some (r, osip')
    \<and> (case find (matches osip e) (addrs ty osip) of
         None \<Rightarrow> r = OSIP_UNDEFINED_ERROR \<and> osip' = osip
       | Some a \<Rightarrow> r = OSIP_SUCCESS
           \<and> queue_at osip' a = queue_at osip a @ [e\<lparr>ev_transactionid := id_of osip a\<rparr>]
           \<and> (\<forall>b. b \<noteq> a \<longrightarrow> mem osip' b = mem osip b)
           \<and> (\<forall>ty. transactions ty osip' = transactions ty osip))"
proof -
  have inv: "osip_inv osip" by (rule reachable_osip [OF assms(1)])
  have ok: "event_ok e" using assms(2) by (simp add: event_checked_def)
  show ?thesis
  proof (cases "find (matches osip e) (addrs ty osip)")
    case None
    then show ?thesis
      using find_consume_eq [OF inv assms(3,4), of True] by (simp add: osip_find_transaction_and_add_event_def)
  next
    case (Some a)
    obtain t q where "mem osip a = Some t" "osip_find_transaction_and_add_event osip (Some e) =
          Some (OSIP_SUCCESS, stored osip a (t\<lparr>transactionff := Some q\<rparr>))"
        "fifo_elems q = queue_of t @ [e\<lparr>ev_transactionid := transactionid t\<rparr>]"
      using find_add_event [OF inv assms(3) ok assms(4) Some] by metis
    with Some show ?thesis by (auto simp: queue_at_def queue_of_def)
  qed
qed

lemma s_ringing:
  "event_checked (s_event RCV_STATUS_1XX (Some (s_response 180 ''INVITE'')))"
  "lookup_ok (s_event RCV_STATUS_1XX (Some (s_response 180 ''INVITE'')))"
  "list_of (s_event RCV_STATUS_1XX (Some (s_response 180 ''INVITE''))) = Some ICT"
  by (simp_all add: event_checked_def event_ok_def EVT_IS_MSG_type lookup_ok_def list_of_def event_list_def
      EVT_IS_INCOMINGMSG_def less_eq_type_t_def MSG_IS_REQUEST_def strcmp_eq_def sample_msg_defs)

theorem event_reaches_first_match_witness:
  "\<exists>r osip'. osip_find_transaction_and_add_event s_osip
     (Some (s_event RCV_STATUS_1XX (Some (s_response 180 ''INVITE'')))) = Some (r, osip')"
  using event_reaches_first_match [OF s_osip_reachable s_ringing] by blast

text \<open>C15. \<open>osip_ict_execute\<close> and its three siblings execute every queued event, while the callbacks may
  remove transactions from the lists with \<open>osip_remove_transaction\<close>, as the kill callback of eXosip
  does.  They return; every transaction that was in their list at the start has an empty queue
  afterwards, also one that a callback removed before its turn; the other transactions are as before;
  and each of the four lists holds, in the old order, exactly the transactions that no callback of the
  executed events removed.\<close>

theorem execute_drains_queues:
  assumes "reachable osip" "\<forall>k. \<forall>b \<in> set (rm k). mem osip b \<noteq> None"
  shows "\<exists>osip' acts. execute ty env rm osip = Some (OSIP_SUCCESS, osip', acts)
    \<and> (\<forall>a \<in> set (addrs ty osip). mem osip' a \<noteq> None \<and> queue_at osip' a = [])
    \<and> (\<forall>b. b \<notin> set (addrs ty osip) \<longrightarrow> mem osip' b = mem osip b)
    \<and> (\<forall>ty'. addrs ty' osip' =
         filter (\<lambda>b. \<forall>k < queued_events osip (addrs ty osip). b \<notin> set (rm k)) (addrs ty' osip))"
proof -
  have "manager_inv osip" using reachable_inv [OF assms(1)] by (simp add: stack_inv_def)
  from xixt_execute_ok [OF this assms(2), of ty env] obtain osip' acts where x:
      "osip_xixt_execute ty env rm osip = Some (OSIP_SUCCESS, osip', acts)"
      "\<forall>a \<in> set (addrs ty osip). idle osip' a" "\<forall>b. b \<notin> set (addrs ty osip) \<longrightarrow> mem osip' b = mem osip b"
      "pruned (removed rm 0 (queued_events osip (addrs ty osip))) osip osip'" by blast
  have "\<forall>a \<in> set (addrs ty osip). mem osip' a \<noteq> None \<and> queue_at osip' a = []"
    using x(2) by (auto simp: idle_def queue_at_def split: option.splits)
  moreover have "(\<lambda>b. b \<notin> removed rm 0 n) = (\<lambda>b. \<forall>k<n. b \<notin> set (rm k))" for n by (auto simp: removed_def)
  ultimately show ?thesis using x by (auto simp: execute_eq pruned_def)
qed

text \<open>A transaction with one event, whose callbacks remove it.\<close>

lemma s_queued:
  obtains q where "api_exec (AddEvent 0 (s_event SND_REQINVITE (Some (s_request ''INVITE'')))) s_osip = Some q"
    "reachable q" "addrs ICT q = [0]" "queued_events q [0] = 1" "mem q 0 \<noteq> None"
proof -
  let ?e = "s_event SND_REQINVITE (Some (s_request ''INVITE''))"
  obtain t where t: "fresh_of ICT 1 (s_request ''INVITE'') t" "s_osip = inserted osip_init ICT t"
    by (rule s_osip_created)
  have m: "mem s_osip 0 = Some t" unfolding t(2) by (simp add: osip_init_def)
  have i: "transaction_inv t" "queue_of t = []" using t(1) by (simp_all add: fresh_of_def)
  obtain q where q: "osip_transaction_add_event (Some t) (Some ?e) = Some (OSIP_SUCCESS, Some (t\<lparr>transactionff := Some q\<rparr>))"
      "fifo_elems q = queue_of t @ [?e\<lparr>ev_transactionid := transactionid t\<rparr>]"
    using add_event_ok [OF i(1)] by metis
  let ?o = "s_osip\<lparr>mem := (mem s_osip)(0 := Some (t\<lparr>transactionff := Some q\<rparr>))\<rparr>"
  have x: "api_exec (AddEvent 0 ?e) s_osip = Some ?o" using m q(1) by simp
  have "api_pre (AddEvent 0 ?e) s_osip" using m s_event_ok(1) by simp
  from reachable.step [OF s_osip_reachable api_step.call [OF this x]] have "reachable ?o" .
  then show thesis
    by (rule that [OF x]) (use q(2) i(2) in \<open>simp_all add: s_osip_addrs queued_events_def queue_of_def\<close>)
qed

theorem execute_drains_queues_witness:
  "\<exists>q osip' acts. reachable q \<and> addrs ICT q = [0] \<and> execute ICT (\<lambda>k. s_cfg) (\<lambda>k. [0]) q = Some (OSIP_SUCCESS, osip', acts)
     \<and> queue_at osip' 0 = [] \<and> mem osip' 0 \<noteq> None \<and> addrs ICT osip' = []"
proof -
  obtain q where q: "reachable q" "addrs ICT q = [0]" "queued_events q [0] = 1" "mem q 0 \<noteq> None" by (rule s_queued)
  have "\<forall>k. \<forall>b \<in> set ((\<lambda>k. [0]) (k::nat)). mem q b \<noteq> None" using q(4) by simp
  from execute_drains_queues [OF q(1) this, of ICT "\<lambda>k. s_cfg"] q show ?thesis by auto
qed

text \<open>C16. \<open>osip_create_transaction\<close> returns for every event.  From a request that can open a
  transaction it makes one in the initial state of its kind, with the next identifier, an empty
  queue and the headers of the request as its key, and appends it to the list of its kind; from
  anything else it makes none and leaves lists and transactions as they were.\<close>

theorem create_lists_new_transaction:
  assumes "reachable osip" "osip_transactionid osip < INT_MAX" "event_checked e" "ev_sip e = Some m"
  shows "if creates e m \<and> init_ok m then
      \<exists>t osip'. osip_create_transaction cfg osip (Some e) =
          Some (Some (next_addr osip), Some (e\<lparr>ev_transactionid := osip_transactionid osip\<rparr>), osip')
        \<and> mem osip (next_addr osip) = None \<and> mem osip' = (mem osip)(next_addr osip := Some t)
        \<and> fresh_of (kind_of_event e m) (osip_transactionid osip) m t
        \<and> (\<forall>ty. addrs ty osip' = addrs ty osip @ (if ty = kind_of_event e m then [next_addr osip] else []))
    else \<exists>osip'. osip_create_transaction cfg osip (Some e) = Some (None, Some e, osip')
        \<and> mem osip' = mem osip \<and> (\<forall>ty. transactions ty osip' = transactions ty osip)"
proof -
  have inv: "osip_inv osip" by (rule reachable_osip [OF assms(1)])
  show ?thesis
  proof (rule create_transaction_cases [OF inv assms(2-4), of cfg], goal_cases)
    case (1 t)
    then show ?case using osip_inv_next [OF inv] by auto
  next
    case (2 osip')
    then show ?case by auto
  qed
qed

theorem create_lists_new_transaction_witness:
  "\<exists>t osip'. osip_create_transaction s_cfg osip_init (Some (s_event SND_REQINVITE (Some (s_request ''INVITE'')))) =
      Some (Some (next_addr osip_init),
            Some (s_event SND_REQINVITE (Some (s_request ''INVITE''))\<lparr>ev_transactionid := osip_transactionid osip_init\<rparr>), osip')
    \<and> fresh_of ICT (osip_transactionid osip_init) (s_request ''INVITE'') t"
proof -
  have "osip_transactionid osip_init < INT_MAX" by (simp add: osip_init_def INT_MAX_def)
  from create_lists_new_transaction [OF reachable.init this s_invite_checked, of "s_request ''INVITE''" s_cfg]
  show ?thesis by (auto simp: s_invite_creates s_messages_ok(3))
qed

text \<open>C17. An incoming response is delivered by the rule of RFC 3261, 17.1.3, in which
  \<open>osip_find_transaction\<close> returns the first client transaction of the list of its method whose top Via has the same branch
  and whose CSeq has the same method, and NULL when there is none.\<close>

theorem response_lookup_is_rfc:
  assumes "reachable osip" "EVT_IS_INCOMINGRESP e" "ev_sip e = Some r" "status_code r \<noteq> 0"
    and "msg_to r \<noteq> None" "msg_cseq r = Some c" "cseq_method c = Some m"
  shows "osip_find_transaction osip (Some e) =
    Some (find (\<lambda>a. rfc_response_match (the (mem osip a)) r) (addrs (if m = ''INVITE'' then ICT else NICT) osip))"
proof -
  have "osip_inv osip" by (rule reachable_osip [OF assms(1)])
  from find_response [OF this assms(2-)] show ?thesis .
qed

lemma s_branch: "branch_of s_via = Some ''z9hG4bK1''" "has_cookie s_via"
proof -
  have "get_param (via_params s_via) ''branch'' = Some \<lparr>gname = ''branch'', gvalue = Some ''z9hG4bK1''\<rparr>"
    by (simp add: get_param_find s_via_def)
  then show "branch_of s_via = Some ''z9hG4bK1''" "has_cookie s_via"
    by (simp_all add: branch_of_def has_cookie_def)
qed

theorem response_lookup_is_rfc_witness:
  "osip_find_transaction s_osip (Some (s_event RCV_STATUS_1XX (Some (s_response 180 ''INVITE'')))) = Some (Some 0)"
proof -
  obtain t where t: "fresh_of ICT 1 (s_request ''INVITE'') t" "s_osip = inserted osip_init ICT t"
    by (rule s_osip_created)
  have "mem s_osip 0 = Some t" unfolding t(2) by (simp add: osip_init_def)
  moreover have "rfc_response_match t (s_response 180 ''INVITE'')"
    using t(1) s_branch(1) by (simp add: fresh_of_def rfc_response_match_def s_request_def s_response_def s_headers_def)
  moreover have "EVT_IS_INCOMINGRESP (s_event RCV_STATUS_1XX (Some (s_response 180 ''INVITE'')))"
    by (simp add: EVT_IS_INCOMINGRESP_def)
  ultimately show ?thesis
    using response_lookup_is_rfc [OF s_osip_reachable, of "s_event RCV_STATUS_1XX (Some (s_response 180 ''INVITE''))"
        "s_response 180 ''INVITE''" "\<lparr>cseq_method = Some ''INVITE'', cseq_number = Some ''1''\<rparr>" "''INVITE''"]
    by (simp add: s_osip_addrs) (simp add: s_response_def s_headers_def)
qed





lemma find_snoc: "(\<forall>x \<in> set xs. \<not> P x) \<Longrightarrow> P y \<Longrightarrow> find P (xs @ [y]) = Some y"
  by (induction xs) simp_all

lemma inserted_older:
  assumes "osip_inv osip" "\<forall>a \<in> set (addrs ty osip). \<not> P (the (mem osip a))"
  shows "\<forall>a \<in> set (addrs ty osip). \<not> P (the (mem (inserted osip ty t) a))"
  using assms osip_inv_addr_less [OF assms(1)] by (auto dest: less_imp_neq)

text \<open>C19. The response to a request finds the client transaction made for that request: after
  \<open>osip_create_transaction\<close> on an outgoing request, a response with the branch and the CSeq of the
  request is given to the new transaction, unless an older one has the same branch and method.\<close>

theorem response_finds_its_transaction:
  assumes "reachable osip" "osip_transactionid osip < INT_MAX" "event_checked e" "ev_sip e = Some m"
    and "creates e m" "init_ok m" "EVT_IS_OUTGOINGREQ e"
    and "EVT_IS_INCOMINGRESP re" "ev_sip re = Some r" "status_code r \<noteq> 0" "msg_to r \<noteq> None"
    and "msg_cseq r = msg_cseq m" "vias r = v # vs" "branch_of (hd (vias m)) = Some b" "branch_of v = Some b"
    and "\<forall>a \<in> set (addrs (kind_of_event e m) osip). \<not> rfc_response_match (the (mem osip a)) r"
  shows "\<exists>e' osip'. osip_create_transaction cfg osip (Some e) = Some (Some (next_addr osip), e', osip')
    \<and> osip_find_transaction osip' (Some re) = Some (Some (next_addr osip))"
proof -
  let ?ty = "kind_of_event e m"
  have inv: "osip_inv osip" by (rule reachable_osip [OF assms(1)])
  obtain t where t: "fresh_of ?ty (osip_transactionid osip) m t"
      "osip_create_transaction cfg osip (Some e) =
         Some (Some (next_addr osip), Some (e\<lparr>ev_transactionid := osip_transactionid osip\<rparr>), inserted osip ?ty t)"
    by (rule create_transaction_cases [OF inv assms(2-4), of cfg]) (use assms(5,6) in auto)
  obtain cs meth where cs: "msg_cseq m = Some cs" "cseq_method cs = Some meth" "sip_method m = Some meth"
    using assms(5,6) by (auto simp: creates_def init_ok_def cseq_ok_def split: option.splits)
  have ty: "?ty = (if meth = ''INVITE'' then ICT else NICT)"
    using assms(7) cs(3) by (auto simp: kind_of_event_def EVT_IS_OUTGOINGREQ_def EVT_IS_INCOMINGREQ_def)
  have "rfc_response_match t r"
    using t(1) assms(12-15) cs(1) by (simp add: fresh_of_def rfc_response_match_def)
  with inserted_older [OF inv, of ?ty "\<lambda>t. rfc_response_match t r" t] assms(16)
  have "find (\<lambda>a. rfc_response_match (the (mem (inserted osip ?ty t) a)) r) (addrs ?ty osip @ [next_addr osip])
      = Some (next_addr osip)"
    by (intro find_snoc) simp_all
  moreover have "osip_find_transaction (inserted osip ?ty t) (Some re) =
      Some (find (\<lambda>a. rfc_response_match (the (mem (inserted osip ?ty t) a)) r) (addrs ?ty (inserted osip ?ty t)))"
    using find_response [OF inserted_inv [OF inv t(1)] assms(8-11), of cs meth] assms(12) cs ty by simp
  ultimately show ?thesis using t(2) by simp
qed

theorem response_finds_its_transaction_witness:
  "\<exists>e' osip'. osip_create_transaction s_cfg osip_init (Some (s_event SND_REQINVITE (Some (s_request ''INVITE'')))) =
       Some (Some (next_addr osip_init), e', osip')
     \<and> osip_find_transaction osip' (Some (s_event RCV_STATUS_1XX (Some (s_response 180 ''INVITE'')))) =
       Some (Some (next_addr osip_init))"
proof (rule response_finds_its_transaction [OF reachable.init _ s_invite_checked])
  show "osip_transactionid osip_init < INT_MAX" by (simp add: osip_init_def INT_MAX_def)
  show "creates (s_event SND_REQINVITE (Some (s_request ''INVITE''))) (s_request ''INVITE'')" by (rule s_invite_creates)
  show "vias (s_response 180 ''INVITE'') = s_via # []" "msg_cseq (s_response 180 ''INVITE'') = msg_cseq (s_request ''INVITE'')"
    "branch_of (hd (vias (s_request ''INVITE''))) = Some ''z9hG4bK1''" "status_code (s_response 180 ''INVITE'') \<noteq> 0"
    "msg_to (s_response 180 ''INVITE'') \<noteq> None"
    by (simp_all add: s_response_def s_request_def s_headers_def s_branch)
  show "EVT_IS_INCOMINGRESP (s_event RCV_STATUS_1XX (Some (s_response 180 ''INVITE'')))"
    "EVT_IS_OUTGOINGREQ (s_event SND_REQINVITE (Some (s_request ''INVITE'')))"
    by (simp_all add: EVT_IS_INCOMINGRESP_def EVT_IS_OUTGOINGREQ_def)
  show "\<forall>a \<in> set (addrs (kind_of_event (s_event SND_REQINVITE (Some (s_request ''INVITE''))) (s_request ''INVITE'')) osip_init).
      \<not> rfc_response_match (the (mem osip_init a)) (s_response 180 ''INVITE'')"
    by (simp add: s_invite_creates addrs_def transactions_def list_abs_def osip_init_def)
qed (simp_all add: s_messages_ok s_branch)

text \<open>A retransmitted request finds the server transaction the first copy opened: after
  \<open>osip_create_transaction\<close> on an incoming request with an RFC 3261 branch, the same request is given to
  the new transaction, unless an older one has the same branch, sent-by and method.\<close>

theorem retransmission_finds_its_transaction:
  assumes "reachable osip" "osip_transactionid osip < INT_MAX" "event_checked e" "ev_sip e = Some m"
    and "creates e m" "init_ok m" "EVT_IS_INCOMINGREQ e" "has_cookie (hd (vias m))"
    and "EVT_IS_INCOMINGREQ e2" "ev_sip e2 = Some m"
    and "\<forall>a \<in> set (addrs (kind_of_event e m) osip). cookie_topvia osip a \<and> \<not> rfc_request_match (the (mem osip a)) m"
  shows "\<exists>e' osip'. osip_create_transaction cfg osip (Some e) = Some (Some (next_addr osip), e', osip')
    \<and> osip_find_transaction osip' (Some e2) = Some (Some (next_addr osip))"
proof -
  let ?ty = "kind_of_event e m"
  have inv: "osip_inv osip" by (rule reachable_osip [OF assms(1)])
  have ok: "event_ok e" "status_code m = 0" "sip_method m \<noteq> None"
    using assms(3,4,7) event_request [of e m] by (auto simp: event_checked_def)
  obtain t where t: "fresh_of ?ty (osip_transactionid osip) m t"
      "osip_create_transaction cfg osip (Some e) =
         Some (Some (next_addr osip), Some (e\<lparr>ev_transactionid := osip_transactionid osip\<rparr>), inserted osip ?ty t)"
    by (rule create_transaction_cases [OF inv assms(2-4), of cfg]) (use assms(5,6) in auto)
  obtain cs meth where cs: "msg_cseq m = Some cs" "cseq_method cs = Some meth" "sip_method m = Some meth" "meth \<noteq> ''ACK''"
    using assms(5,6) by (auto simp: creates_def init_ok_def cseq_ok_def split: option.splits)
  obtain v vs where v: "vias m = v # vs" using assms(6) by (cases "vias m") (auto simp: init_ok_def)
  have to: "msg_to m \<noteq> None" using assms(6) by (auto simp: init_ok_def split: option.splits)
  have ty: "?ty = (if meth = ''INVITE'' \<or> meth = ''ACK'' then IST else NIST)"
    using assms(7) cs(3,4) by (auto simp: kind_of_event_def)
  have "rfc_request_match t m" using t(1) v cs(1) by (simp add: fresh_of_def rfc_request_match_def)
  with inserted_older [OF inv, of ?ty "\<lambda>t. rfc_request_match t m" t] assms(11)
  have "find (\<lambda>a. rfc_request_match (the (mem (inserted osip ?ty t) a)) m) (addrs ?ty osip @ [next_addr osip])
      = Some (next_addr osip)"
    by (intro find_snoc) simp_all
  moreover have "\<forall>a \<in> set (addrs ?ty (inserted osip ?ty t)). cookie_topvia (inserted osip ?ty t) a"
    using assms(8,11) t(1) by (auto simp: cookie_topvia_def fresh_of_def)
  then have "osip_find_transaction (inserted osip ?ty t) (Some e2) =
      Some (find (\<lambda>a. rfc_request_match (the (mem (inserted osip ?ty t) a)) m) (addrs ?ty (inserted osip ?ty t)))"
    using find_request [OF inserted_inv [OF inv t(1)] assms(9,10) ok(2,3) to cs(1,2) v] assms(8) v ty by simp
  ultimately show ?thesis using t(2) by simp
qed

lemma s_incoming_checked: "event_checked (s_event RCV_REQINVITE (Some (s_request ''INVITE'')))"
  using s_event_ok(2) by (simp add: event_checked_def sample_msg_defs)

theorem retransmission_finds_its_transaction_witness:
  "\<exists>e' osip'. osip_create_transaction s_cfg osip_init (Some (s_event RCV_REQINVITE (Some (s_request ''INVITE'')))) =
       Some (Some (next_addr osip_init), e', osip')
     \<and> osip_find_transaction osip' (Some (s_event RCV_REQINVITE (Some (s_request ''INVITE'')))) =
       Some (Some (next_addr osip_init))"
proof (rule retransmission_finds_its_transaction [OF reachable.init _ s_incoming_checked])
  show "osip_transactionid osip_init < INT_MAX" by (simp add: osip_init_def INT_MAX_def)
  show "creates (s_event RCV_REQINVITE (Some (s_request ''INVITE''))) (s_request ''INVITE'')"
    by (simp add: creates_def EVT_IS_INCOMINGREQ_def s_request_def s_headers_def)
  show "EVT_IS_INCOMINGREQ (s_event RCV_REQINVITE (Some (s_request ''INVITE'')))"
    "EVT_IS_INCOMINGREQ (s_event RCV_REQINVITE (Some (s_request ''INVITE'')))"
    by (simp_all add: EVT_IS_INCOMINGREQ_def)
  show "has_cookie (hd (vias (s_request ''INVITE'')))" using s_branch by (simp add: s_request_def s_headers_def)
  show "\<forall>a \<in> set (addrs (kind_of_event (s_event RCV_REQINVITE (Some (s_request ''INVITE''))) (s_request ''INVITE'')) osip_init).
      cookie_topvia osip_init a \<and> \<not> rfc_request_match (the (mem osip_init a)) (s_request ''INVITE'')"
    by (simp add: kind_of_event_def addrs_def transactions_def list_abs_def osip_init_def)
qed (simp_all add: s_messages_ok)

text \<open>C20. \<open>osip_transaction_free\<close> on a listed transaction takes exactly its address out of the
  lists, frees the messages it holds and those queued for it, each once, and leaves every other
  transaction as it is.\<close>

theorem free_releases_everything:
  assumes "reachable osip" "a \<in> set (all_addrs osip)"
  shows "\<exists>t osip' acts. mem osip a = Some t \<and> osip_transaction_free osip (Some a) = Some (OSIP_SUCCESS, osip', acts)
    \<and> freed_msgs acts = queued t + owned t
    \<and> all_addrs osip' = filter (\<lambda>b. b \<noteq> a) (all_addrs osip) \<and> mem osip' = (mem osip)(a := None)"
proof -
  have inv: "osip_inv osip" by (rule reachable_osip [OF assms(1)])
  obtain t acts where "mem osip a = Some t"
      "osip_transaction_free osip (Some a) = Some (OSIP_SUCCESS, (without osip a)\<lparr>mem := (mem osip)(a := None)\<rparr>, acts)"
      "freed_msgs acts = queued t + owned t"
    using transaction_free_ok [OF inv assms(2)] by metis
  with remove_listed(3) [OF inv assms(2)] show ?thesis by auto
qed

theorem free_releases_everything_witness:
  "\<exists>t osip' acts. mem s_osip 0 = Some t \<and> osip_transaction_free s_osip (Some 0) = Some (OSIP_SUCCESS, osip', acts)
     \<and> all_addrs osip' = []"
  using free_releases_everything [OF s_osip_reachable, of 0] by (auto simp: s_osip_addrs)

text \<open>\<open>osip_remove_transaction\<close> on a listed transaction removes exactly that one from its list,
  keeps the order of the others, and keeps the transaction itself alive.\<close>

theorem remove_takes_one_out:
  assumes "reachable osip" "a \<in> set (addrs ty osip)"
  shows "\<exists>osip'. osip_remove_transaction osip (Some a) = Some (OSIP_SUCCESS, osip')
    \<and> addrs ty osip' = filter (\<lambda>b. b \<noteq> a) (addrs ty osip)
    \<and> (\<forall>ty'. ty' \<noteq> ty \<longrightarrow> addrs ty' osip' = addrs ty' osip) \<and> mem osip' = mem osip"
proof -
  have "osip_inv osip" by (rule reachable_osip [OF assms(1)])
  from remove_transaction_listed [OF this assms(2)] show ?thesis by auto
qed

theorem remove_takes_one_out_witness:
  "\<exists>osip'. osip_remove_transaction s_osip (Some 0) = Some (OSIP_SUCCESS, osip') \<and> addrs ICT osip' = []"
  using remove_takes_one_out [OF s_osip_reachable, of 0 ICT] by (auto simp: s_osip_addrs)

section \<open>Timers\<close>

text \<open>C21. A pass of \<open>osip_timers_ict_execute\<close> or one of its siblings gives each transaction of the
  list at most one event: that of the first overdue timer of its state, in the order of priority
  (give up before retransmit), and none to an INVITE client that has events waiting.\<close>

theorem timers_queue_due_event:
  assumes "reachable osip" "a \<in> set (addrs ty osip)" "mem osip a = Some t"
  shows "\<exists>osip'. timers_execute ty (\<lambda>k. now) osip = Some osip'
    \<and> queue_at osip' a = queue_at osip a @ (case due_event now t of None \<Rightarrow> [] | Some e \<Rightarrow> [e])"
proof -
  have m: "manager_inv osip" using reachable_inv [OF assms(1)] by (simp add: stack_inv_def)
  note inv = manager_osip [OF m]
  have t: "transaction_inv t" "ctx_type t = ty" using osip_inv_entry [OF inv assms(2)] assms(3) by auto
  obtain osip' where o': "timers_pass (timer_event_of ty) (\<lambda>k. now) 0 (addrs ty osip) osip = Some osip'"
    using timers_pass_ok [OF m order_refl] by metis
  obtain t' where t': "add_timer_event t (due_event now t) = Some t'" "mem osip' a = Some t'"
    using timers_pass_at [OF o' addrs_distinct [OF inv] assms(2,3)] timer_event_due [OF t(1)] t(2) by blast
  have "queue_of t' = queue_of t @ (case due_event now t of None \<Rightarrow> [] | Some e \<Rightarrow> [e])"
    using add_timer_event_ok [OF t(1)] t'(1) by (metis option.sel)
  moreover have "timers_execute ty (\<lambda>k. now) osip = Some osip'"
    using o' transactions_of_elems [OF inv, of ty] by (simp add: timers_execute_eq osip_timers_xixt_execute_def)
  ultimately show ?thesis using t'(2) assms(3) by (simp add: queue_at_def)
qed

theorem timers_queue_due_event_witness:
  "\<exists>t osip'. mem s_osip 0 = Some t \<and> timers_execute ICT (\<lambda>k. s_time) s_osip = Some osip'
     \<and> queue_at osip' 0 = queue_at s_osip 0 @ (case due_event s_time t of None \<Rightarrow> [] | Some e \<Rightarrow> [e])"
proof -
  obtain t where t: "s_osip = inserted osip_init ICT t" by (rule s_osip_created)
  have "mem s_osip 0 = Some t" unfolding t by (simp add: osip_init_def)
  then show ?thesis
    using timers_queue_due_event [OF s_osip_reachable, of 0 ICT t s_time] by (simp add: s_osip_addrs)
qed

text \<open>C22. The delay that \<open>osip_timers_gettimeout\<close> returns never goes past a running timer: sleeping
  for it from now ends no later than the start time of any timer that is active in its state or of
  any pending retransmission that is not overdue yet, and the delay is a normal non-negative time.\<close>

theorem delay_never_oversleeps:
  assumes "reachable osip" "tv_norm now" "\<forall>ts \<in> set (listed_timers osip). tv_norm ts"
  shows "\<exists>d. osip_timers_gettimeout now osip = Some d \<and> tv_norm d \<and> 0 \<le> tv_sec d
    \<and> (\<forall>ts \<in> set (listed_timers osip). \<not> tv_stopped ts \<longrightarrow> tv_us now + tv_us d \<le> max (tv_us now) (tv_us ts))"
proof -
  have inv: "osip_inv osip" "list_inv (ixt_retransmissions osip)"
    using reachable_inv [OF assms(1)] by (simp_all add: stack_inv_def ixts_inv_def manager_inv_def)
  obtain r where r: "osip_timers_gettimeout now osip = Some (case r of None \<Rightarrow> tv_zero | Some l \<Rightarrow> normalize_delay l now)"
      "\<forall>l. r = Some l \<longrightarrow> earliest now (listed_timers osip) (year_later now) l"
    using gettimeout_core [OF inv] by blast
  show ?thesis
  proof (cases r)
    case None
    with r show ?thesis by (simp add: tv_zero_def tv_norm_def tv_us_def)
  next
    case (Some l)
    then have e: "earliest now (listed_timers osip) (year_later now) l" using r(2) by blast
    have nl: "tv_norm l" "tv_le now l"
      using e assms(2,3) by (auto simp: earliest_def year_later_def tv_norm_def)
    have "tv_us l \<le> tv_us ts" if "ts \<in> set (listed_timers osip)" "\<not> tv_stopped ts" for ts
      using e that assms(3) nl(1) tv_le_us by (auto simp: earliest_def)
    with Some r(1) normalize_delay_us [OF assms(2) nl] show ?thesis by (simp add: le_max_iff_disj)
  qed
qed

definition s_pending :: osip where
  "s_pending = osip_init\<lparr>ixt_retransmissions := of_elems [(ixt_init s_time)\<lparr>ixt_dialog := Some 0,
     ixt_ack := None, ixt_dest := None, ixt_port := 5060, ixt_sock := 0\<rparr>]\<rparr>"

lemma s_pending_reachable: "reachable s_pending"
proof (rule reachable.step [OF reachable.init])
  have "osip_add_ixt osip_init x = Some (osip_init\<lparr>ixt_retransmissions := of_elems [x]\<rparr>)" for x
    by (simp add: osip_add_ixt_def of_elems_Nil)
  then show "api_step osip_init (StartAck s_time (Some 0) None None 5060 0) s_pending"
    by (intro api_step.call) (simp_all add: osip_start_ack_retransmissions_def s_pending_def osip_message_clone_def)
qed

lemma s_pending_timers: "listed_timers s_pending = [\<lparr>tv_sec = 100, tv_usec = 510000\<rparr>]"
  by (simp add: listed_timers_def all_addrs_def addrs_def transactions_def list_abs_def s_pending_def osip_init_def
      of_elems_def ixt_init_def s_time_def timer_consts add_gettimeofday_def Let_def c_div_nonneg c_mod_nonneg)

theorem delay_never_oversleeps_witness:
  "\<exists>d. osip_timers_gettimeout s_time s_pending = Some d \<and> tv_norm d \<and> 0 \<le> tv_sec d
     \<and> tv_us s_time + tv_us d \<le> max (tv_us s_time) 100510000"
  using delay_never_oversleeps [OF s_pending_reachable, of s_time]
  by (auto simp: s_pending_timers s_time_def tv_norm_def tv_stopped_def tv_us_def)

section \<open>Retransmission and acknowledgement\<close>

text \<open>C23. A final response 3xx to 6xx to an INVITE is acknowledged: the transaction completes, and
  the one message it sends, to the destination of the INVITE, is the ACK of RFC 3261, 17.1.1.3.  It
  has the Request-URI of the INVITE, as the RFC asks (the comment in \<open>ict_create_ack\<close> that it must come
  from the Contact header is not what the code does), the top Via and the Routes of the INVITE, the
  From, To, Call-ID and CSeq number of the response, and the Authorization and Proxy-Authorization
  headers of the INVITE without their extension parameters, unless the response is a 401 or 407.  The
  transaction keeps that ACK and the response.  The messages are well-formed and the transport accepts
  the ACK.\<close>

theorem final_response_acknowledged:
  assumes "ctx_type t = ICT" "tr_state t = ICT_CALLING \<or> tr_state t = ICT_PROCEEDING"
    and "ict_context t = Ptr c" "ict_destination c = Some d" "orig_request t = Some oreq"
    and "request_ok oreq" "ev_type e = RCV_STATUS_3456XX" "ev_sip e = Some resp" "response_ok resp"
    and "transport_ok cfg"
  shows "\<exists>t' acts. osip_transaction_execute cfg t e = Some (1, t', acts)
    \<and> tr_state t' = ICT_COMPLETED \<and> tr_ack t' = Some (rfc_ack oreq resp) \<and> last_response t' = Some resp
    \<and> sends acts = [(rfc_ack oreq resp, Some d, ict_port c, out_socket t)]"
  using execute_final_response [OF assms]
  by (simp add: ict_start_timer_d_def osip_transaction_set_state_def)

theorem final_response_acknowledged_witness:
  "\<exists>t' acts. osip_transaction_execute s_cfg (s_ict ICT_CALLING)
       (s_event RCV_STATUS_3456XX (Some (s_response 486 ''INVITE''))) = Some (1, t', acts)
     \<and> sends acts = [(rfc_ack (s_request ''INVITE'') (s_response 486 ''INVITE''), Some ''b'', 5060, -1)]"
proof -
  have o: "out_socket (s_ict ICT_CALLING) = -1" by (simp add: sample_defs)
  obtain c where c: "ict_context (s_ict ICT_CALLING) = Ptr c" "ict_destination c = Some ''b''" "ict_port c = 5060"
    by (simp add: s_ict_def)
  have r: "orig_request (s_ict ICT_CALLING) = Some (s_request ''INVITE'')" by (simp add: s_ict_def)
  show ?thesis
    using final_response_acknowledged [of "s_ict ICT_CALLING" c "''b''" "s_request ''INVITE''"
        "s_event RCV_STATUS_3456XX (Some (s_response 486 ''INVITE''))" "s_response 486 ''INVITE''" s_cfg]
    by (auto simp: c r o s_messages_ok s_transport_ok)
qed

text \<open>A retransmitted final response does not reach the application again as a new one: an
  INVITE client that has completed sends its stored ACK once more to the same destination, frees the
  response, and is otherwise unchanged.\<close>

theorem ack_sent_again:
  assumes "ctx_type t = ICT" "tr_state t = ICT_COMPLETED" "ict_context t = Ptr c" "tr_ack t = Some ack"
    and "ev_type e = RCV_STATUS_3456XX" "ev_sip e = Some resp" "transport_ok cfg"
  shows "osip_transaction_execute cfg t e = Some (1, t,
    osip_message_callback cfg OSIP_ICT_STATUS_3456XX_RECEIVED_AGAIN (Some resp)
      @ Freed resp # Send ack (ict_destination c) (ict_port c) (out_socket t) 0
      # osip_message_callback cfg OSIP_ICT_ACK_SENT_AGAIN (Some ack))"
proof -
  have "t\<lparr>tr_state := ICT_COMPLETED\<rparr> = t" using assms(2) by (cases t) simp
  then show ?thesis
    using assms by (simp add: execute_unfold ict_transition_def mk_transition_def ict_retransmit_ack_def
        osip_transaction_set_state_def osip_message_free_def transport_ok_def)
qed

theorem ack_sent_again_witness:
  "\<exists>acts. osip_transaction_execute s_cfg s_ict_completed
       (s_event RCV_STATUS_3456XX (Some (s_response 486 ''INVITE''))) = Some (1, s_ict_completed, acts)
     \<and> sends acts = [(s_request ''ACK'', Some ''b'', 5060, -1)]"
proof -
  have o: "out_socket s_ict_completed = -1" by (simp add: sample_defs)
  obtain c where c: "ict_context s_ict_completed = Ptr c" "ict_destination c = Some ''b''" "ict_port c = 5060"
    by (simp add: s_ict_completed_def s_ict_def)
  have r: "tr_ack s_ict_completed = Some (s_request ''ACK'')" by (simp add: s_ict_completed_def)
  show ?thesis
    using ack_sent_again [of s_ict_completed c "s_request ''ACK''"
        "s_event RCV_STATUS_3456XX (Some (s_response 486 ''INVITE''))" "s_response 486 ''INVITE''" s_cfg]
    by (simp add: c r o s_transport_ok)
qed

text \<open>A retransmitted INVITE is absorbed by its server transaction: it answers with the last
  response it sent, to the address that response is routed to, frees the copy, and is unchanged.\<close>

theorem invite_answered_again:
  assumes "ctx_type t = IST" "tr_state t = IST_PROCEEDING \<or> tr_state t = IST_COMPLETED"
    and "last_response t = Some r" "response_dest r = Some (h, p)"
    and "ev_type e = RCV_REQINVITE" "ev_sip e = Some m" "transport_ok cfg"
  shows "osip_transaction_execute cfg t e = Some (1, t,
    Freed m # osip_message_callback cfg OSIP_IST_INVITE_RECEIVED_AGAIN (orig_request t)
      @ Send r h p (out_socket t) 0 # osip_message_callback cfg (ist_again_callback r) (Some r))"
  using assms(2)
  by (elim disjE) (simp_all add: execute_unfold ist_transition_def mk_transition_def ist_rcv_invite_def
      osip_message_free_def assms snd_xxx_dest [OF assms(4)] transport_ok_def [THEN iffD1, OF assms(7)])

lemma s_response_dest: "response_dest (s_response code meth) = Some (Some ''a'', 5060)"
  by (simp add: response_dest_def response_host_def response_port_def get_param_find osip_strcasecmp_eq_def
      c_tolower_def sample_msg_defs)

theorem invite_answered_again_witness:
  "\<exists>acts. osip_transaction_execute s_cfg (s_ist IST_COMPLETED)
       (s_event RCV_REQINVITE (Some (s_request ''INVITE''))) = Some (1, s_ist IST_COMPLETED, acts)
     \<and> sends acts = [(s_response 486 ''INVITE'', Some ''a'', 5060, -1)]"
proof -
  have o: "out_socket (s_ist IST_COMPLETED) = -1" "last_response (s_ist IST_COMPLETED) = Some (s_response 486 ''INVITE'')"
    by (simp_all add: s_ist_def s_transaction_def)
  show ?thesis
    using invite_answered_again [of "s_ist IST_COMPLETED" "s_response 486 ''INVITE''" "Some ''a''" 5060
        "s_event RCV_REQINVITE (Some (s_request ''INVITE''))" "s_request ''INVITE''" s_cfg]
    by (simp add: o s_transport_ok s_response_dest)
qed

text \<open>The same for other requests: a non-INVITE server transaction answers a retransmission with
  its last response, frees the copy, and is unchanged.\<close>

theorem request_answered_again:
  assumes "ctx_type t = NIST" "tr_state t = NIST_PROCEEDING \<or> tr_state t = NIST_COMPLETED"
    and "last_response t = Some r" "response_dest r = Some (h, p)"
    and "ev_type e = RCV_REQUEST" "ev_sip e = Some m" "transport_ok cfg"
  shows "osip_transaction_execute cfg t e = Some (1, t,
    Freed m # osip_message_callback cfg OSIP_NIST_REQUEST_RECEIVED_AGAIN (orig_request t)
      @ Send r h p (out_socket t) 0 # osip_message_callback cfg (nist_again_callback r) (Some r))"
  using assms(2)
  by (elim disjE) (simp_all add: execute_unfold nist_transition_def mk_transition_def nist_rcv_request_def
      osip_message_free_def assms snd_xxx_dest [OF assms(4)] transport_ok_def [THEN iffD1, OF assms(7)])

theorem request_answered_again_witness:
  "\<exists>acts. osip_transaction_execute s_cfg (s_nist NIST_COMPLETED)
       (s_event RCV_REQUEST (Some (s_request ''OPTIONS''))) = Some (1, s_nist NIST_COMPLETED, acts)
     \<and> sends acts = [(s_response 200 ''OPTIONS'', Some ''a'', 5060, -1)]"
proof -
  have o: "out_socket (s_nist NIST_COMPLETED) = -1" "last_response (s_nist NIST_COMPLETED) = Some (s_response 200 ''OPTIONS'')"
    by (simp_all add: s_nist_def s_transaction_def)
  show ?thesis
    using request_answered_again [of "s_nist NIST_COMPLETED" "s_response 200 ''OPTIONS''" "Some ''a''" 5060
        "s_event RCV_REQUEST (Some (s_request ''OPTIONS''))" "s_request ''OPTIONS''" s_cfg]
    by (simp add: o s_transport_ok s_response_dest)
qed

text \<open>Over an unreliable transport a non-INVITE client that waits in TRYING sends its request again
  at each of \<open>n\<close> expiries of timer E, to the same destination, and the interval is then
  min (T1 * 2^n, T2): it doubles from 500 ms and stops growing at 4 s.\<close>

theorem timer_e_doubles_to_t2:
  assumes "ctx_type t = NICT" "tr_state t = NICT_TRYING" "nict_context t = Ptr c" "timer_e_length c = DEFAULT_T1"
    and "orig_request t = Some m" "unreliable m"
    and "\<forall>i \<in> set is. transport_ok (fst i) \<and> ev_type (snd i) = TIMEOUT_E \<and> ev_sip (snd i) = None"
  shows "\<exists>c' as. machine_run transaction_exec t is = Some (t\<lparr>nict_context := Ptr c'\<rparr>, as)
    \<and> timer_e_length c' = min (500 * 2 ^ length is) 4000
    \<and> sends as = replicate (length is) (m, nict_destination c, nict_port c, out_socket t)"
proof -
  have "(nict_next_e_length NICT_TRYING ^^ length is) (timer_e_length c) = min (500 * 2 ^ length is) 4000"
    using next_e_length_iter [of "length is"] assms(4) by (simp add: DEFAULT_T1_def DEFAULT_T2_def)
  with timer_e_run [OF assms(1-3,5-7)] show ?thesis by (elim exE conjE) (intro exI conjI, assumption, simp_all)
qed

lemma s_unreliable: "unreliable (s_request meth)"
  by (simp add: unreliable_def nict_orig_proto_def osip_message_get_via_def via_get_protocol_def reliable_proto_def
      osip_strcasecmp_eq_def c_tolower_def sample_msg_defs)

theorem timer_e_doubles_to_t2_witness:
  "\<exists>c' as. machine_run transaction_exec (s_nict NICT_TRYING) (replicate 4 (s_cfg, s_event TIMEOUT_E None)) =
       Some ((s_nict NICT_TRYING)\<lparr>nict_context := Ptr c'\<rparr>, as)
     \<and> timer_e_length c' = 4000 \<and> length (sends as) = 4"
proof -
  obtain c where c: "nict_context (s_nict NICT_TRYING) = Ptr c" "timer_e_length c = DEFAULT_T1"
    by (simp add: s_nict_def)
  have r: "orig_request (s_nict NICT_TRYING) = Some (s_request ''OPTIONS'')" by (simp add: s_nict_def)
  have "\<exists>c' as. machine_run transaction_exec (s_nict NICT_TRYING) (replicate 4 (s_cfg, s_event TIMEOUT_E None)) =
       Some ((s_nict NICT_TRYING)\<lparr>nict_context := Ptr c'\<rparr>, as)
     \<and> timer_e_length c' = min (500 * 2 ^ length (replicate 4 (s_cfg, s_event TIMEOUT_E None))) 4000
     \<and> sends as = replicate (length (replicate 4 (s_cfg, s_event TIMEOUT_E None)))
         (s_request ''OPTIONS'', nict_destination c, nict_port c, out_socket (s_nict NICT_TRYING))"
    by (rule timer_e_doubles_to_t2 [OF _ _ c r s_unreliable]) (simp_all add: s_transport_ok)
  then show ?thesis by (elim exE conjE) (intro exI conjI, assumption, simp_all)
qed

text \<open>An INVITE server that waits for the ACK of a final response sends that response again at each
  of \<open>n\<close> expiries of timer G, and the interval is then min (T1 * 2^n, T2).\<close>

theorem timer_g_doubles_to_t2:
  assumes "ctx_type t = IST" "tr_state t = IST_COMPLETED" "ist_context t = Ptr c" "timer_g_length c = DEFAULT_T1"
    and "last_response t = Some r" "response_dest r = Some (h, p)"
    and "\<forall>i \<in> set is. transport_ok (fst i) \<and> ev_type (snd i) = TIMEOUT_G \<and> ev_sip (snd i) = None"
  shows "\<exists>c' as. machine_run transaction_exec t is = Some (t\<lparr>ist_context := Ptr c'\<rparr>, as)
    \<and> timer_g_length c' = min (500 * 2 ^ length is) 4000
    \<and> sends as = replicate (length is) (r, h, p, out_socket t)"
proof -
  have "(ist_next_g_length ^^ length is) (timer_g_length c) = min (500 * 2 ^ length is) 4000"
    using next_g_length_iter [of "length is"] assms(4) by (simp add: DEFAULT_T1_def DEFAULT_T2_def)
  with timer_g_run [OF assms(1-3,5-7)] show ?thesis by (elim exE conjE) (intro exI conjI, assumption, simp_all)
qed

theorem timer_g_doubles_to_t2_witness:
  "\<exists>c' as. machine_run transaction_exec (s_ist IST_COMPLETED) (replicate 2 (s_cfg, s_event TIMEOUT_G None)) =
       Some ((s_ist IST_COMPLETED)\<lparr>ist_context := Ptr c'\<rparr>, as)
     \<and> timer_g_length c' = 2000 \<and> length (sends as) = 2"
proof -
  obtain c where c: "ist_context (s_ist IST_COMPLETED) = Ptr c" "timer_g_length c = DEFAULT_T1" by (simp add: s_ist_def)
  have r: "last_response (s_ist IST_COMPLETED) = Some (s_response 486 ''INVITE'')" by (simp add: s_ist_def)
  have "\<exists>c' as. machine_run transaction_exec (s_ist IST_COMPLETED) (replicate 2 (s_cfg, s_event TIMEOUT_G None)) =
       Some ((s_ist IST_COMPLETED)\<lparr>ist_context := Ptr c'\<rparr>, as)
     \<and> timer_g_length c' = min (500 * 2 ^ length (replicate 2 (s_cfg, s_event TIMEOUT_G None))) 4000
     \<and> sends as = replicate (length (replicate 2 (s_cfg, s_event TIMEOUT_G None)))
         (s_response 486 ''INVITE'', Some ''a'', 5060, out_socket (s_ist IST_COMPLETED))"
    by (rule timer_g_doubles_to_t2 [OF _ _ c r s_response_dest]) (simp_all add: s_transport_ok)
  then show ?thesis by (elim exE conjE) (intro exI conjI, assumption, simp_all)
qed

text \<open>Over an unreliable transport an INVITE client sends its INVITE again at each of \<open>n\<close> expiries
  of timer A; the interval doubles without bound (T1 * 2^n), and timer B, which ends the transaction,
  is not put off.\<close>

theorem timer_a_doubles:
  assumes "ctx_type t = ICT" "tr_state t = ICT_CALLING" "ict_context t = Ptr c" "timer_a_length c = DEFAULT_T1"
    and "orig_request t = Some m" "unreliable m"
    and "\<forall>i \<in> set is. transport_ok (fst i) \<and> ev_type (snd i) = TIMEOUT_A \<and> ev_sip (snd i) = None"
  shows "\<exists>c' as. machine_run transaction_exec t is = Some (t\<lparr>ict_context := Ptr c'\<rparr>, as)
    \<and> timer_a_length c' = 500 * 2 ^ length is \<and> timer_b_start c' = timer_b_start c
    \<and> sends as = replicate (length is) (m, ict_destination c, ict_port c, out_socket t)"
  using timer_a_run [OF assms(1-3,5-7)] assms(4)
  by (elim exE conjE) (intro exI conjI, assumption, simp_all add: DEFAULT_T1_def)

theorem timer_a_doubles_witness:
  "\<exists>c' as. machine_run transaction_exec (s_ict ICT_CALLING) (replicate 3 (s_cfg, s_event TIMEOUT_A None)) =
       Some ((s_ict ICT_CALLING)\<lparr>ict_context := Ptr c'\<rparr>, as)
     \<and> timer_a_length c' = 4000 \<and> length (sends as) = 3"
proof -
  obtain c where c: "ict_context (s_ict ICT_CALLING) = Ptr c" "timer_a_length c = DEFAULT_T1" by (simp add: s_ict_def)
  have r: "orig_request (s_ict ICT_CALLING) = Some (s_request ''INVITE'')" by (simp add: s_ict_def)
  have "\<exists>c' as. machine_run transaction_exec (s_ict ICT_CALLING) (replicate 3 (s_cfg, s_event TIMEOUT_A None)) =
       Some ((s_ict ICT_CALLING)\<lparr>ict_context := Ptr c'\<rparr>, as)
     \<and> timer_a_length c' = 500 * 2 ^ length (replicate 3 (s_cfg, s_event TIMEOUT_A None)) \<and> timer_b_start c' = timer_b_start c
     \<and> sends as = replicate (length (replicate 3 (s_cfg, s_event TIMEOUT_A None)))
         (s_request ''INVITE'', ict_destination c, ict_port c, out_socket (s_ict ICT_CALLING))"
    by (rule timer_a_doubles [OF _ _ c r s_unreliable]) (simp_all add: s_transport_ok)
  then show ?thesis by (elim exE conjE) (intro exI conjI, assumption, simp_all)
qed

section \<open>Retransmissions by the user agent\<close>

text \<open>C24. The retransmission of a 2xx or of its ACK is bounded: however often and at whatever times
  \<open>osip_retransmissions_execute\<close> runs, it returns, sends at most ten messages for each entry of the
  list, and keeps only entries with attempts left and an interval of at most T2.\<close>

theorem retransmissions_are_bounded:
  assumes "reachable osip"
  shows "\<exists>osip' outs. retransmissions_run nows osip = Some (osip', outs) \<and> ixts_inv osip'
    \<and> int (length outs) \<le> 10 * osip_list_size (Some (ixt_retransmissions osip))"
proof -
  have i: "ixts_inv osip" using reachable_inv [OF assms] by (simp add: stack_inv_def)
  obtain osip' outs where r: "retransmissions_run nows osip = Some (osip', outs)" "ixts_inv osip'"
      "int (length outs) + attempts osip' \<le> attempts osip"
    using retransmissions_run_bound [OF i] by blast
  with attempts_nonneg [OF r(2)] attempts_le [OF i] show ?thesis by auto
qed

theorem retransmissions_are_bounded_witness:
  "\<exists>osip' outs. retransmissions_run [s_time, s_time\<lparr>tv_sec := 200\<rparr>] s_pending = Some (osip', outs)
     \<and> ixts_inv osip' \<and> int (length outs) \<le> 10"
  using retransmissions_are_bounded [OF s_pending_reachable, of "[s_time, s_time\<lparr>tv_sec := 200\<rparr>]"]
  by (simp add: s_pending_def)

text \<open>Ending a dialog stops its retransmissions: \<open>osip_stop_retransmissions_from_dialog\<close> removes
  exactly the entries of that dialog, keeps the others in order, and frees the messages of the
  removed ones.\<close>

theorem stop_dialog_removes_its_entries:
  assumes "reachable osip"
  shows "\<exists>osip' acts. osip_stop_retransmissions_from_dialog osip d = Some (osip', acts)
    \<and> list_abs (ixt_retransmissions osip') = filter (\<lambda>x. ixt_dialog x \<noteq> d) (list_abs (ixt_retransmissions osip))
    \<and> acts = concat (map ixt_free (filter (\<lambda>x. ixt_dialog x = d) (list_abs (ixt_retransmissions osip))))
    \<and> mem osip' = mem osip"
proof -
  have "ixts_inv osip" using reachable_inv [OF assms] by (simp add: stack_inv_def)
  from stop_dialog_ok(1) [OF this, of d] show ?thesis by auto
qed

theorem stop_dialog_removes_its_entries_witness:
  "\<exists>osip' acts. osip_stop_retransmissions_from_dialog s_pending (Some 0) = Some (osip', acts)
     \<and> list_abs (ixt_retransmissions osip') = []"
  using stop_dialog_removes_its_entries [OF s_pending_reachable, of "Some 0"] by (auto simp: s_pending_def)

text \<open>The ACK of a 2xx stops its retransmission: \<open>osip_stop_200ok_retransmissions\<close> removes the
  first entry whose 2xx has the CSeq number of the ACK and whose dialog the ACK belongs to, returns
  that dialog, and changes nothing when there is none.\<close>

theorem ack_stops_its_2xx:
  assumes "reachable osip" "msg_cseq ack = Some cs" "cseq_number cs = Some num"
    and "\<forall>x \<in> set (list_abs (ixt_retransmissions osip)). ixt_cseq_number x \<noteq> None \<longrightarrow> uas_match dlgs ack x \<noteq> None"
  shows "osip_stop_200ok_retransmissions dlgs osip (Some ack) =
    Some (case find (ack_answers dlgs ack num) (list_abs (ixt_retransmissions osip)) of
            None \<Rightarrow> (None, osip, [])
          | Some x \<Rightarrow> (ixt_dialog x, osip\<lparr>ixt_retransmissions :=
              of_elems (remove_first (ack_answers dlgs ack num) (list_abs (ixt_retransmissions osip)))\<rparr>, ixt_free x))"
proof -
  have "ixts_inv osip" using reachable_inv [OF assms(1)] by (simp add: stack_inv_def)
  from stop_200ok_ok [OF this assms(2-4)] show ?thesis .
qed

theorem ack_stops_its_2xx_witness:
  "osip_stop_200ok_retransmissions (\<lambda>a. None) s_pending (Some (s_request ''ACK'')) = Some (None, s_pending, [])"
proof -
  have n: "ixt_cseq_number x = None" if "x \<in> set (list_abs (ixt_retransmissions s_pending))" for x
    using that by (simp add: s_pending_def ixt_init_def ixt_cseq_number_def)
  then have "find (ack_answers (\<lambda>a. None) (s_request ''ACK'') ''1'') (list_abs (ixt_retransmissions s_pending)) = None"
    by (auto simp: find_None_iff ack_answers_def)
  with ack_stops_its_2xx [OF s_pending_reachable, of "s_request ''ACK''"
      "\<lparr>cseq_method = Some ''ACK'', cseq_number = Some ''1''\<rparr>" "''1''" "\<lambda>a. None"] n
  show ?thesis by (simp add: s_request_def s_headers_def)
qed

section \<open>Dialogs\<close>

text \<open>C25. A dialog that a UAC creates from a response (with tags that have values) has the
  Record-Route set of the response in reverse order, is confirmed exactly for a 2xx, and afterwards
  matches exactly the answers with the same Call-ID and the same From and To tags.\<close>

theorem uac_dialog_matches_its_answers:
  assumes "dialog_headers_ok m" "tag_of (msg_from m) = Some vf" "tag_of (msg_to m) = Some vt"
    and "msg_call_id m = Some cid"
    and "msg_call_id m2 = Some cid2" "call_id_ok cid2" "tag_of (msg_from m2) = Some vf2" "tag_of (msg_to m2) = Some vt2"
  shows "\<exists>d. osip_dialog_init_as_uac (Some m) = Some (OSIP_SUCCESS, Some d)
    \<and> list_abs (route_set d) = rev (record_routes m)
    \<and> (dlg_state d = DIALOG_CONFIRMED \<longleftrightarrow> 200 \<le> status_code m \<and> status_code m \<le> 299)
    \<and> osip_dialog_match_as_uac (Some d) (Some m2) =
        Some (if call_id_str cid = call_id_str cid2 \<and> vf = vf2 \<and> vt = vt2 then OSIP_SUCCESS else OSIP_UNDEFINED_ERROR)"
proof -
  obtain d where d: "osip_dialog_init_as_uac (Some m) = Some (OSIP_SUCCESS, Some d)"
    "dlg_call_id d = Some (call_id_str cid)" "local_tag d = Some vf" "remote_tag d = Some vt"
    "route_set d = of_elems (rev (record_routes m))"
    "dlg_state d = (if 200 \<le> status_code m \<and> status_code m \<le> 299 then DIALOG_CONFIRMED else DIALOG_EARLY)"
    using dialog_init_uac [OF assms(1-4)] by metis
  from match_as_uac_iff [OF d(2-4) assms(5-8)] d(1,5,6) show ?thesis by simp
qed

lemma s_tags: "tag_of (msg_from (s_response code meth)) = Some ''f''" "tag_of (msg_to (s_response code meth)) = Some ''t''"
  "msg_call_id (s_response code meth) = Some \<lparr>cid_number = Some ''7'', cid_host = None\<rparr>"
  by (simp_all add: tag_of_def get_param_find sample_msg_defs)

theorem uac_dialog_matches_its_answers_witness:
  "\<exists>d. osip_dialog_init_as_uac (Some (s_response 180 ''INVITE'')) = Some (OSIP_SUCCESS, Some d)
     \<and> dlg_state d \<noteq> DIALOG_CONFIRMED
     \<and> osip_dialog_match_as_uac (Some d) (Some (s_response 200 ''INVITE'')) = Some OSIP_SUCCESS"
  using uac_dialog_matches_its_answers [OF s_messages_ok(4) s_tags s_tags(3) _ s_tags(1,2), of 180 "''INVITE''" 200 "''INVITE''"]
  by (auto simp: call_id_ok_def s_response_def)

text \<open>C26. A dialog that a UAS creates from the INVITE and its response has the Record-Route set in
  order and the tags exchanged, and afterwards matches exactly the requests with the same Call-ID
  and its remote tag in From.\<close>

theorem uas_dialog_matches_its_requests:
  assumes "dialog_headers_ok m" "tag_of (msg_from m) = Some vf" "tag_of (msg_to m) = Some vt"
    and "msg_call_id m = Some cid" "req_uri invite = Some u"
    and "case contacts invite of [] \<Rightarrow> True | c # _ \<Rightarrow> from_ok c"
    and "msg_call_id m2 = Some cid2" "call_id_ok cid2" "tag_of (msg_from m2) = Some vf2" "msg_to m2 \<noteq> None"
  shows "\<exists>d. osip_dialog_init_as_uas (Some invite) (Some m) = Some (OSIP_SUCCESS, Some d)
    \<and> list_abs (route_set d) = record_routes m \<and> local_tag d = Some vt \<and> remote_tag d = Some vf
    \<and> osip_dialog_match_as_uas (Some d) (Some m2) =
        Some (if call_id_str cid = call_id_str cid2 \<and> vf = vf2 then OSIP_SUCCESS else OSIP_UNDEFINED_ERROR)"
proof -
  obtain d where d: "osip_dialog_init_as_uas (Some invite) (Some m) = Some (OSIP_SUCCESS, Some d)"
    "dlg_call_id d = Some (call_id_str cid)" "local_tag d = Some vt" "remote_tag d = Some vf"
    "route_set d = of_elems (record_routes m)"
    using dialog_init_uas [OF assms(1-6)] by metis
  from match_as_uas_iff [OF d(2-4) assms(7-10)] d(1,3-5) show ?thesis by simp
qed

theorem uas_dialog_matches_its_requests_witness:
  "\<exists>d. osip_dialog_init_as_uas (Some (s_request ''INVITE'')) (Some (s_response 200 ''INVITE'')) = Some (OSIP_SUCCESS, Some d)
     \<and> osip_dialog_match_as_uas (Some d) (Some (s_request ''BYE'')) = Some OSIP_SUCCESS"
proof -
  have r: "tag_of (msg_from (s_request ''BYE'')) = Some ''f''" "msg_to (s_request ''BYE'') \<noteq> None"
    "msg_call_id (s_request ''BYE'') = Some \<lparr>cid_number = Some ''7'', cid_host = None\<rparr>"
    by (simp_all add: tag_of_def get_param_find sample_msg_defs)
  have i: "req_uri (s_request ''INVITE'') = Some s_uri" "contacts (s_request ''INVITE'') = []"
    by (simp_all add: s_request_def s_headers_def osip_message_init_def)
  have "case contacts (s_request ''INVITE'') of [] \<Rightarrow> True | c # _ \<Rightarrow> from_ok c" by (simp add: i)
  from uas_dialog_matches_its_requests [OF s_messages_ok(4) s_tags i(1) this r(3) _ r(1,2), of 200 "''INVITE''"]
  show ?thesis by (auto simp: call_id_ok_def)
qed

text \<open>A UAC that receives another response updates its dialog as RFC 3261, 13.2.2.4, asks: in an
  early dialog the route set is computed again from the Record-Route headers, reversed, and a 2xx
  confirms the dialog; in a confirmed dialog the route set stays, and only the remote target changes.\<close>

theorem uac_route_set_update:
  assumes "route_set d = of_elems rs" "list_all from_ok (record_routes m)"
    and "case contacts m of [] \<Rightarrow> True | c # _ \<Rightarrow> from_ok c"
  shows "\<exists>d'. osip_dialog_update_route_set_as_uac (Some d) (Some m) = Some (OSIP_SUCCESS, Some d')
    \<and> list_abs (route_set d') = (if dlg_state d = DIALOG_EARLY then rev (record_routes m) else rs)
    \<and> dlg_state d' = (if 200 \<le> status_code m \<and> status_code m \<le> 299 then DIALOG_CONFIRMED else dlg_state d)
    \<and> remote_contact_uri d' = (case contacts m of [] \<Rightarrow> remote_contact_uri d | c # _ \<Rightarrow> Some c)"
proof -
  have u: "update_contact d m = (OSIP_SUCCESS,
      case contacts m of [] \<Rightarrow> d | c # _ \<Rightarrow> d\<lparr>remote_contact_uri := Some c\<rparr>)"
    using assms(3) by (cases "contacts m") (simp_all add: update_contact_def osip_contact_clone_def osip_from_clone_Some osip_err)
  have rr: "add_routes 0 (record_routes m) (of_elems []) = Some (0, of_elems (rev (record_routes m)))"
    using add_routes_reverse [of "record_routes m" "[]"] assms(2) by (simp add: list_all_iff)
  show ?thesis
  proof (cases "contacts m"; cases "dlg_state d = DIALOG_EARLY"; cases "rs = []")
  qed (auto simp: osip_dialog_update_route_set_as_uac_def u rr assms(1) osip_err of_elems_Nil MSG_IS_STATUS_def
      osip_list_special_free_of_elems)
qed

theorem uac_route_set_update_witness:
  "\<exists>d'. osip_dialog_update_route_set_as_uac (Some (dialog_zero\<lparr>dlg_state := DIALOG_EARLY\<rparr>))
       (Some ((s_response 200 ''INVITE'')\<lparr>record_routes := [s_header ''a'', s_header ''b'']\<rparr>)) = Some (OSIP_SUCCESS, Some d')
     \<and> list_abs (route_set d') = [s_header ''b'', s_header ''a''] \<and> dlg_state d' = DIALOG_CONFIRMED"
  using uac_route_set_update [of "dialog_zero\<lparr>dlg_state := DIALOG_EARLY\<rparr>" "[]"
      "(s_response 200 ''INVITE'')\<lparr>record_routes := [s_header ''a'', s_header ''b'']\<rparr>"]
  by (auto simp: dialog_zero_def of_elems_Nil from_ok_def uri_ok_def sample_msg_defs)

section \<open>Events from messages\<close>

text \<open>\<open>osip_parse\<close> and \<open>osip_new_outgoing_sipmessage\<close> never dereference NULL, whatever the message
  parser returns, and the events they make satisfy the precondition of the API: the type is the
  class of the message, and a request has a method and a request URI.\<close>

theorem new_events_are_checked:
  "(case osip_parse parse buf of None \<Rightarrow> False
    | Some r \<Rightarrow> opt_all (\<lambda>e. event_checked e \<and> ev_sip e = Some (snd (parse buf))
                              \<and> ev_type e = msg_class True (snd (parse buf))) r)
   \<and> (case osip_new_outgoing_sipmessage (Some m) of None \<Rightarrow> False
      | Some r \<Rightarrow> opt_all (\<lambda>e. event_checked e \<and> ev_sip e = Some m \<and> ev_type e = msg_class False m) r)"
proof (rule conjI)
  have checked: "event_checked \<lparr>ev_type = msg_class b x, ev_transactionid = 0, ev_sip = Some x\<rparr>"
    if "status_code x = 0 \<longrightarrow> sip_method x \<noteq> None \<and> req_uri x \<noteq> None" for b x
    using that by (cases b) (auto simp: event_checked_def event_ok_def EVT_IS_MSG_type)
  show "case osip_parse parse buf of None \<Rightarrow> False
    | Some r \<Rightarrow> opt_all (\<lambda>e. event_checked e \<and> ev_sip e = Some (snd (parse buf))
                              \<and> ev_type e = msg_class True (snd (parse buf))) r"
  proof (cases "parse buf")
    case (Pair i x)
    show ?thesis
    proof (cases "i = 0 \<and> (status_code x = 0 \<longrightarrow> sip_method x \<noteq> None \<and> req_uri x \<noteq> None)")
      case True
      then have "evt_set_type_incoming_sipmessage x = Some (msg_class True x)"
        by (intro evt_set_type_incoming_class) blast
      with True Pair checked [of x True] show ?thesis
        by (auto simp: osip_parse_def osip_event_new_def MSG_IS_REQUEST_def)
    next
      case False
      with Pair show ?thesis by (auto simp: osip_parse_def MSG_IS_REQUEST_def)
    qed
  qed
  show "case osip_new_outgoing_sipmessage (Some m) of None \<Rightarrow> False
      | Some r \<Rightarrow> opt_all (\<lambda>e. event_checked e \<and> ev_sip e = Some m \<and> ev_type e = msg_class False m) r"
  proof (cases "status_code m = 0 \<longrightarrow> sip_method m \<noteq> None \<and> req_uri m \<noteq> None")
    case True
    then have "evt_set_type_outgoing_sipmessage m = Some (msg_class False m)"
      by (intro evt_set_type_outgoing_class) blast
    with True checked [of m False] show ?thesis by (auto simp: osip_new_outgoing_sipmessage_def MSG_IS_REQUEST_def)
  next
    case False
    then show ?thesis by (auto simp: osip_new_outgoing_sipmessage_def MSG_IS_REQUEST_def)
  qed
qed

section \<open>NULL dereferences that a peer can cause\<close>

text \<open>An answer whose From header has a \<open>tag\<close> parameter without a value makes
  \<open>osip_dialog_match_as_uac\<close> dereference NULL on a dialog with the same Call-ID: \<open>strcmp\<close> is called
  on the value without a check.\<close>

theorem valueless_tag_crashes_match:
  assumes "dlg_call_id d = Some (call_id_str cid)" "local_tag d = Some lt" "msg_call_id m = Some cid" "call_id_ok cid"
    and "msg_from m = Some f" "msg_to m = Some t" "get_param (gen_params f) ''tag'' = Some p" "gvalue p = None"
  shows "osip_dialog_match_as_uac (Some d) (Some m) = UB"
proof -
  have "get_tag f = (OSIP_SUCCESS, Some p)"
    using assms(7) param_get_loop_code [of "gen_params f" "''tag''"]
    by (simp add: get_tag_def get_param_def osip_uri_param_get_byname_def prod_eq_iff)
  with assms(1-6,8) osip_call_id_to_str_ok [OF assms(4)] show ?thesis
    by (simp add: osip_dialog_match_as_uac_def strcmp_eq_def osip_err)
qed

theorem valueless_tag_crashes_match_witness:
  "osip_dialog_match_as_uac (Some (dialog_zero\<lparr>dlg_call_id := Some ''7'', local_tag := Some ''f''\<rparr>))
     (Some ((s_response 200 ''INVITE'')\<lparr>msg_from := Some ((s_header ''f'')\<lparr>gen_params := [\<lparr>gname = ''tag'', gvalue = None\<rparr>]\<rparr>)\<rparr>)) = UB"
  by (rule valueless_tag_crashes_match [where p = "\<lparr>gname = ''tag'', gvalue = None\<rparr>" and t = "s_header ''t''"
        and f = "(s_header ''f'')\<lparr>gen_params := [\<lparr>gname = ''tag'', gvalue = None\<rparr>]\<rparr>"
        and cid = "\<lparr>cid_number = Some ''7'', cid_host = None\<rparr>"])
    (simp_all add: get_param_find call_id_str_def call_id_ok_def s_response_def s_headers_def)

text \<open>An ACK without a To header, matched by the rule of the older protocol version (no branch),
  makes \<open>osip_transaction_matching_request\<close> dereference NULL once the Call-ID agrees.\<close>

theorem ack_without_to_crashes_match:
  assumes "transaction_inv t" "ctx_type t = IST" "topvia t = Some tv" "get_param (via_params tv) ''branch'' = None"
    and "msg_cseq r = Some c" "cseq_method c = Some m" "vias r = v # vs" "get_param (via_params v) ''branch'' = None"
    and "msg_call_id r = callid t" "status_code r = 0" "sip_method r = Some ''ACK''" "msg_to r = None"
  shows "osip_transaction_matching_request (Some t) (Some r) = UB"
proof -
  have ctx: "\<not> (ist_context t = Null \<and> nist_context t = Null)"
    using server_context [OF assms(1)] assms(2) by (simp add: is_client_def)
  obtain cid where "callid t = Some cid" "call_id_ok cid"
    using assms(1) by (auto simp: transaction_inv_def split: option.splits)
  then have "osip_call_id_match (callid t) (msg_call_id r) = 0"
    using osip_call_id_match_refl assms(9) by (simp add: osip_err)
  then have "matching_request_old t r v = None"
    using assms(10-12) by (simp add: matching_request_old_def matching_request_to_def to_tag_def split: Option.bind_split)
  with ctx assms(3-8) show ?thesis by (simp add: osip_transaction_matching_request_def)
qed

definition s_old_via :: osip_via where
  "s_old_via = s_via\<lparr>via_params := []\<rparr>"

definition s_old_ist :: osip_transaction where
  "s_old_ist = (s_ist IST_COMPLETED)\<lparr>topvia := Some s_old_via\<rparr>"

theorem ack_without_to_crashes_match_witness:
  "osip_transaction_matching_request (Some s_old_ist)
     (Some ((s_request ''ACK'')\<lparr>vias := [s_old_via], msg_to := None\<rparr>)) = UB"
proof (rule ack_without_to_crashes_match [where tv = s_old_via and v = s_old_via and vs = "[]" and m = "''ACK''"
      and c = "\<lparr>cseq_method = Some ''ACK'', cseq_number = Some ''1''\<rparr>"])
  show "transaction_inv s_old_ist"
    using s_transaction_inv(6) by (simp add: s_old_ist_def s_old_via_def transaction_inv_def ist_inv_def via_ok_def s_via_def)
  show "msg_call_id ((s_request ''ACK'')\<lparr>vias := [s_old_via], msg_to := None\<rparr>) = callid s_old_ist"
    by (simp add: s_old_ist_def s_ist_def s_transaction_def set_keys_def s_request_def s_headers_def)
qed (simp_all add: s_old_ist_def s_old_via_def get_param_find s_request_def s_headers_def osip_message_init_def)

end
